(* ===== verification/Prelude.thy ===== *)
theory Prelude
  imports Complex_Main "HOL-Library.AList" "HOL-Library.Char_ord" "HOL-Library.List_Lexorder"
    "HOL-Library.Multiset"
begin

text \<open>
  Shared vocabulary of the development: Python dictionaries as association lists in insertion
  order, JSON-like payload values, optional timestamps with Python's truthiness, and the generic
  lemmas on lists and dictionaries that the component theories rest on.

  \<^item> A Python \<^verbatim>\<open>dict\<close> keeps its keys in insertion order and replaces a value in place. The
    library's \<^const>\<open>AList.update\<close> and \<^const>\<open>AList.delete\<close> compute exactly this on an
    association list with distinct keys; \<^const>\<open>map_of\<close> is the lookup.
  \<^item> A Python \<^verbatim>\<open>float\<close> is a \<^typ>\<open>rat\<close>: every finite double is a rational and the comparisons
    of the source are exact on it; rounding of sums is not modelled.
  \<^item> A raised exception is the left injection of a sum; the right injection is the normal result.
\<close>

subsection \<open>Types\<close>

type_synonym ('k, 'v) dict = "('k \<times> 'v) list"
type_synonym time = rat

datatype pyval =
    PNone
  | PBool bool
  | PInt int
  | PFloat rat
  | PStr string
  | PList "pyval list"
  | PDict "(string \<times> pyval) list"

type_synonym metadata = "(string, pyval) dict"

text \<open>
  A field annotated \<^verbatim>\<open>SomeEnum | str\<close> holds a member of a string enum or a plain string.
  The enum classes derive from \<^verbatim>\<open>str\<close>, so \<^verbatim>\<open>==\<close> and \<^verbatim>\<open>in\<close> compare the values; only
  \<^verbatim>\<open>isinstance\<close> and \<^verbatim>\<open>.value\<close> tell the two apart.
\<close>

datatype 'e enum_or_str = EnumV 'e | RawStr string

abbreviation dict_get :: "('k, 'v) dict \<Rightarrow> 'k \<Rightarrow> 'v option" where
  "dict_get d k \<equiv> map_of d k"

abbreviation dict_set :: "'k \<Rightarrow> 'v \<Rightarrow> ('k, 'v) dict \<Rightarrow> ('k, 'v) dict" where
  "dict_set k v d \<equiv> AList.update k v d"

abbreviation dict_del :: "'k \<Rightarrow> ('k, 'v) dict \<Rightarrow> ('k, 'v) dict" where
  "dict_del k d \<equiv> AList.delete k d"

abbreviation dict_keys :: "('k, 'v) dict \<Rightarrow> 'k list" where
  "dict_keys d \<equiv> map fst d"

abbreviation dict_values :: "('k, 'v) dict \<Rightarrow> 'v list" where
  "dict_values d \<equiv> map snd d"

definition dict_get_default :: "('k, 'v) dict \<Rightarrow> 'k \<Rightarrow> 'v \<Rightarrow> 'v" where
  "dict_get_default d k v = (case map_of d k of None \<Rightarrow> v | Some x \<Rightarrow> x)"

text \<open>\<^verbatim>\<open>x or y\<close> on an optional float: \<^verbatim>\<open>None\<close> and \<^verbatim>\<open>0.0\<close> are both false.\<close>

definition or_time :: "time option \<Rightarrow> time \<Rightarrow> time" where
  "or_time t now = (case t of None \<Rightarrow> now | Some x \<Rightarrow> (if x = 0 then now else x))"

text \<open>Every entry of a dictionary is stored under its own identifier.\<close>

definition keyed :: "('v \<Rightarrow> 'k) \<Rightarrow> ('k, 'v) dict \<Rightarrow> bool" where
  "keyed ident d \<longleftrightarrow> distinct (map fst d) \<and> (\<forall>(k, v) \<in> set d. ident v = k)"

text \<open>Substring test of Python's \<^verbatim>\<open>in\<close> on strings, and ASCII \<^verbatim>\<open>str.lower\<close>.\<close>

fun is_prefix :: "'a list \<Rightarrow> 'a list \<Rightarrow> bool" where
  "is_prefix [] ys = True"
| "is_prefix (x # xs) [] = False"
| "is_prefix (x # xs) (y # ys) = (x = y \<and> is_prefix xs ys)"

fun is_infix :: "'a list \<Rightarrow> 'a list \<Rightarrow> bool" where
  "is_infix xs [] = (xs = [])"
| "is_infix xs (y # ys) = (is_prefix xs (y # ys) \<or> is_infix xs ys)"

definition lower_char :: "char \<Rightarrow> char" where
  "lower_char c = (let n = of_char c :: nat in
     if 65 \<le> n \<and> n \<le> 90 then char_of (n + 32) else c)"

definition str_lower :: "string \<Rightarrow> string" where
  "str_lower s = map lower_char s"

named_theorems dict_simps "lookup, keys and shape of dictionary updates"

subsection \<open>Dictionaries\<close>

lemma get_set [simp, dict_simps]:
  "map_of (AList.update k v d) k' = (if k' = k then Some v else map_of d k')"
  by (simp add: update_conv')

lemma get_del [simp, dict_simps]:
  "map_of (AList.delete k d) k' = (if k' = k then None else map_of d k')"
  by (simp add: delete_conv')

lemma keys_set [dict_simps]:
  "map fst (AList.update k v d) = (if k \<in> set (map fst d) then map fst d else map fst d @ [k])"
  by (simp add: update_keys)

lemma set_keys_set [simp, dict_simps]:
  "fst ` set (AList.update k v d) = insert k (fst ` set d)"
  by (induction d) auto

lemma distinct_keys_set [simp, intro]:
  "distinct (map fst d) \<Longrightarrow> distinct (map fst (AList.update k v d))"
  by (rule distinct_update)

lemma distinct_keys_del [simp, intro]:
  "distinct (map fst d) \<Longrightarrow> distinct (map fst (AList.delete k d))"
  by (simp add: distinct_delete)

lemma set_keys_del [simp, dict_simps]:
  "fst ` set (AList.delete k d) = fst ` set d - {k}"
  by (induction d) auto

lemma get_None_iff: "map_of d k = None \<longleftrightarrow> k \<notin> set (map fst d)"
  by (simp add: map_of_eq_None_iff)

lemma get_Some_key: "map_of d k = Some v \<Longrightarrow> k \<in> set (map fst d)"
  by (metis get_None_iff option.distinct(1))

lemma in_keys_get: "k \<in> set (map fst d) \<Longrightarrow> \<exists>v. map_of d k = Some v"
  by (metis get_None_iff not_Some_eq)

lemma in_set_get: "distinct (map fst d) \<Longrightarrow> (k, v) \<in> set d \<longleftrightarrow> map_of d k = Some v"
  by (metis map_of_eq_Some_iff)

lemma set_dict_set:
  "distinct (map fst d) \<Longrightarrow>
     set (AList.update k v d) = insert (k, v) {p \<in> set d. fst p \<noteq> k}"
  by (induction d) (auto simp: image_iff)

lemma length_dict_set:
  "length (AList.update k v d) = (if k \<in> set (map fst d) then length d else Suc (length d))"
  by (induction d) auto

lemma map_of_map_pairs: "map_of (map (\<lambda>x. (x, f x)) xs) k = (if k \<in> set xs then Some (f k) else None)"
  by (induction xs) auto

lemma dict_get_default_set [simp, dict_simps]:
  "dict_get_default (AList.update k v d) k' w = (if k' = k then v else dict_get_default d k' w)"
  by (simp add: dict_get_default_def)

lemma dict_set_fresh: "k \<notin> fst ` set d \<Longrightarrow> dict_set k v d = d @ [(k, v)]"
  by (induction d) auto

lemma dict_set_twice [simp]: "dict_set k v (dict_set k w d) = dict_set k v d"
  by (induction d) auto

lemma fold_dict_del: "fold dict_del ks d = filter (\<lambda>p. fst p \<notin> set ks) d"
  by (induction ks arbitrary: d) (auto simp: AList.delete_eq intro!: filter_cong)

lemma get_filter:
  "distinct (map fst d) \<Longrightarrow> map_of (filter Q d) k =
     (case map_of d k of None \<Rightarrow> None | Some v \<Rightarrow> if Q (k, v) then Some v else None)"
  by (induction d) (auto simp: map_of_eq_None_iff image_iff split: option.splits dest: map_of_SomeD)

text \<open>Dictionaries whose entries are stored under their own identifier.\<close>

lemma keyed_Nil [simp]: "keyed ident []"
  by (simp add: keyed_def)

lemma keyed_distinct: "keyed ident d \<Longrightarrow> distinct (map fst d)"
  by (simp add: keyed_def)

lemma keyed_get: "keyed ident d \<Longrightarrow> map_of d k = Some v \<Longrightarrow> ident v = k"
  by (auto simp: keyed_def dest: map_of_SomeD)

lemma keyed_set: "keyed ident d \<Longrightarrow> ident v = k \<Longrightarrow> keyed ident (AList.update k v d)"
  unfolding keyed_def by (auto simp: set_dict_set)

lemma set_dict_del: "set (AList.delete k d) = {p \<in> set d. fst p \<noteq> k}"
  by (induction d) auto

lemma keyed_del: "keyed ident d \<Longrightarrow> keyed ident (AList.delete k d)"
  unfolding keyed_def by (auto simp: set_dict_del)

lemma keyed_filter: "keyed ident d \<Longrightarrow> keyed ident (filter P d)"
  unfolding keyed_def by (auto intro: distinct_map_filter)

lemma keyed_values_ids: "keyed ident d \<Longrightarrow> map ident (map snd d) = map fst d"
  unfolding keyed_def by (auto intro!: map_cong)

subsection \<open>Lists\<close>

lemma count_list_filter: "count_list xs x = length (filter (\<lambda>y. y = x) xs)"
  by (induction xs) auto

lemma fold_invariant:
  assumes "P s" and "\<And>x s. x \<in> set xs \<Longrightarrow> P s \<Longrightarrow> P (f x s)"
  shows "P (fold f xs s)"
  using assms by (induction xs arbitrary: s) auto

lemma distinct_same_set_length:
  "distinct xs \<Longrightarrow> distinct ys \<Longrightarrow> set xs \<subseteq> set ys \<Longrightarrow> length xs = length ys \<longleftrightarrow> set xs = set ys"
  by (metis List.finite_set card_subset_eq distinct_card)

lemma find_append: "List.find P (xs @ ys) = (case List.find P xs of None \<Rightarrow> List.find P ys | Some x \<Rightarrow> Some x)"
  by (induction xs) auto

lemma find_SomeD: "List.find P xs = Some x \<Longrightarrow> x \<in> set xs \<and> P x"
  by (auto simp: find_Some_iff)

text \<open>The substring test is the existence of a decomposition.\<close>

lemma is_prefix_iff: "is_prefix xs ys \<longleftrightarrow> (\<exists>zs. ys = xs @ zs)"
  by (induction xs ys rule: is_prefix.induct) auto

lemma is_infix_iff: "is_infix xs ys \<longleftrightarrow> (\<exists>us vs. ys = us @ xs @ vs)"
proof (induction xs ys rule: is_infix.induct)
  case (2 xs y ys)
  have "(\<exists>us vs. y # ys = us @ xs @ vs) \<longleftrightarrow>
      (\<exists>vs. y # ys = xs @ vs) \<or> (\<exists>us vs. ys = us @ xs @ vs)"
    by (metis append_Cons append_Nil list.exhaust list.inject)
  with 2 show ?case by (simp add: is_prefix_iff)
qed auto

subsection \<open>Computations that may raise\<close>

definition bind_sum :: "'e + 'a \<Rightarrow> ('a \<Rightarrow> 'e + 'b) \<Rightarrow> 'e + 'b" where
  "bind_sum r f = (case r of Inl e \<Rightarrow> Inl e | Inr x \<Rightarrow> f x)"

fun map_sum_list :: "('a \<Rightarrow> 'e + 'b) \<Rightarrow> 'a list \<Rightarrow> 'e + 'b list" where
  "map_sum_list f [] = Inr []"
| "map_sum_list f (x # xs) =
     bind_sum (f x) (\<lambda>y. bind_sum (map_sum_list f xs) (\<lambda>ys. Inr (y # ys)))"

lemma map_sum_list_inverse:
  "(\<And>x. x \<in> set xs \<Longrightarrow> f (g x) = Inr x) \<Longrightarrow> map_sum_list f (map g xs) = Inr xs"
  by (induction xs) (simp_all add: bind_sum_def)

end
