(* ===== verification/Kahn.thy ===== *)
theory Kahn
  imports Prelude
begin

text \<open>
  The work-list loop that several components of the backend write out by hand (Kahn's
  algorithm): \<^verbatim>\<open>ExecutionGraphValidator.detect_cycles\<close>, \<^verbatim>\<open>ExecutionGraph.topological_sort\<close>,
  the level computation of \<^verbatim>\<open>ExecutionGraph.generate_plan\<close> and
  \<^verbatim>\<open>PlanningValidator.validate_cycle_among_tasks\<close>. The four loops pop a vertex from the front
  of a queue, lower the in-degree of its successors and append those that reach zero; they differ
  only in what they accumulate when a vertex is popped (\<open>on_pop\<close>) and when an edge is
  followed (\<open>on_edge\<close>). The theory defines the loop once, proves that it ends, that its
  accumulator is a fold over the pop order, and that the pop order is a topological order of the
  vertices that do not lie behind a cycle.
\<close>

subsection \<open>The loop\<close>

type_synonym 'a degrees = "('a, int) dict"

definition degree :: "'a degrees \<Rightarrow> 'a \<Rightarrow> int" where
  "degree D v = dict_get_default D v 0"

fun kahn_edges :: "('a \<Rightarrow> 'a \<Rightarrow> 'b \<Rightarrow> 'b) \<Rightarrow> 'a \<Rightarrow> 'a list \<Rightarrow> 'a degrees \<Rightarrow> 'a list \<Rightarrow> 'b
    \<Rightarrow> 'a degrees \<times> 'a list \<times> 'b" where
  "kahn_edges on_edge u [] D Q acc = (D, Q, acc)"
| "kahn_edges on_edge u (v # vs) D Q acc =
     (let d = degree D v - 1
      in kahn_edges on_edge u vs (dict_set v d D) (if d = 0 then Q @ [v] else Q) (on_edge u v acc))"

text \<open>The same traversal without the accumulator: the degrees and the queue it leaves.\<close>

fun relax :: "'a list \<Rightarrow> 'a degrees \<Rightarrow> 'a list \<Rightarrow> 'a degrees \<times> 'a list" where
  "relax [] D Q = (D, Q)"
| "relax (v # vs) D Q =
     (let d = degree D v - 1 in relax vs (dict_set v d D) (if d = 0 then Q @ [v] else Q))"

definition positive :: "'a degrees \<Rightarrow> 'a set" where
  "positive D = {v. degree D v \<ge> 1}"

lemma positive_subset: "positive D \<subseteq> fst ` set D"
  unfolding positive_def degree_def dict_get_default_def
  by (auto split: option.splits dest: map_of_SomeD intro: rev_image_eqI)

lemma finite_positive [simp]: "finite (positive D)"
  by (rule finite_subset[OF positive_subset]) simp

lemma degree_set [simp]: "degree (dict_set k d D) v = (if v = k then d else degree D v)"
  by (simp add: degree_def)

lemma card_positive_step:
  assumes "degree D v = 1"
  shows "Suc (card (positive (dict_set v 0 D))) = card (positive D)"
proof -
  have "positive (dict_set v 0 D) = positive D - {v}" and "v \<in> positive D"
    using assms by (auto simp: positive_def)
  then show ?thesis by (metis card_Suc_Diff1 finite_positive)
qed

lemma positive_antimono: "d \<le> degree D v \<Longrightarrow> positive (dict_set v d D) \<subseteq> positive D"
  by (auto simp: positive_def split: if_splits)

lemma relax_measure:
  "relax vs D Q = (D', Q') \<Longrightarrow> length Q' + card (positive D') \<le> length Q + card (positive D)"
proof (induction vs D Q rule: relax.induct)
  case (1 D Q)
  then show ?case by simp
next
  case (2 v vs D Q)
  let ?d = "degree D v - 1"
  let ?Q = "if ?d = 0 then Q @ [v] else Q"
  have "length Q' + card (positive D') \<le> length ?Q + card (positive (dict_set v ?d D))"
    using "2.IH"[OF refl] "2.prems" by (simp add: Let_def)
  also have "\<dots> \<le> length Q + card (positive D)"
  proof (cases "?d = 0")
    case True
    then have "Suc (card (positive (dict_set v ?d D))) = card (positive D)"
      using card_positive_step[of D v] by simp
    with True show ?thesis by simp
  next
    case False
    then show ?thesis by (simp add: card_mono positive_antimono)
  qed
  finally show ?case .
qed

lemma kahn_edges_relax:
  "kahn_edges on_edge u vs D Q acc =
     (fst (relax vs D Q), snd (relax vs D Q), fold (on_edge u) vs acc)"
  by (induction vs arbitrary: D Q acc) (simp_all add: Let_def)

function kahn_loop :: "('a \<Rightarrow> 'a list) \<Rightarrow> ('a \<Rightarrow> 'b \<Rightarrow> 'b) \<Rightarrow> ('a \<Rightarrow> 'a \<Rightarrow> 'b \<Rightarrow> 'b)
    \<Rightarrow> 'a degrees \<Rightarrow> 'a list \<Rightarrow> 'b \<Rightarrow> 'a degrees \<times> 'b" where
  "kahn_loop adj on_pop on_edge D [] acc = (D, acc)"
| "kahn_loop adj on_pop on_edge D (u # Q) acc =
     (case kahn_edges on_edge u (adj u) D Q (on_pop u acc) of
        (D', Q', acc') \<Rightarrow> kahn_loop adj on_pop on_edge D' Q' acc')"
  by pat_completeness auto
termination
  by (relation "measure (\<lambda>(adj, on_pop, on_edge, D, Q, acc). length Q + card (positive D))")
    (auto simp: kahn_edges_relax intro!: le_imp_less_Suc relax_measure)

text \<open>The order in which the loop pops vertices, and the degrees it ends with.\<close>

function kahn_run :: "('a \<Rightarrow> 'a list) \<Rightarrow> 'a degrees \<Rightarrow> 'a list \<Rightarrow> 'a degrees \<times> 'a list" where
  "kahn_run adj D [] = (D, [])"
| "kahn_run adj D (u # Q) =
     (case relax (adj u) D Q of (D', Q') \<Rightarrow>
        (case kahn_run adj D' Q' of (D'', us) \<Rightarrow> (D'', u # us)))"
  by pat_completeness auto
termination
  by (relation "measure (\<lambda>(adj, D, Q). length Q + card (positive D))")
    (auto intro!: le_imp_less_Suc relax_measure split: prod.splits)

subsection \<open>The accumulator is a fold over the pop order\<close>

lemma kahn_loop_run:
  "kahn_loop adj on_pop on_edge D Q acc =
     (fst (kahn_run adj D Q),
      fold (\<lambda>u acc. fold (on_edge u) (adj u) (on_pop u acc)) (snd (kahn_run adj D Q)) acc)"
proof (induction adj D Q arbitrary: acc rule: kahn_run.induct)
  case (1 adj D)
  then show ?case by simp
next
  case (2 adj D u Q)
  show ?case
    using "2"[OF prod.collapse]
    by (simp add: kahn_edges_relax split: prod.splits)
qed

subsection \<open>Adjacency lists and in-degrees\<close>

text \<open>
  The dictionaries the components fill before the loop: every vertex gets an empty successor list
  and in-degree zero, then every edge between known vertices is recorded.
\<close>

fun add_arc :: "'a \<times> 'a \<Rightarrow> ('a, 'a list) dict \<times> 'a degrees \<Rightarrow> ('a, 'a list) dict \<times> 'a degrees" where
  "add_arc (s, t) (A, D) =
     (if s \<in> set (dict_keys A) \<and> t \<in> set (dict_keys D)
      then (dict_set s (dict_get_default A s [] @ [t]) A, dict_set t (degree D t + 1) D)
      else (A, D))"

definition build_arcs :: "'a list \<Rightarrow> ('a \<times> 'a) list \<Rightarrow> ('a, 'a list) dict \<times> 'a degrees" where
  "build_arcs V E = fold add_arc E (map (\<lambda>v. (v, [])) V, map (\<lambda>v. (v, 0)) V)"

definition zero_degree :: "'a degrees \<Rightarrow> 'a list" where
  "zero_degree D = map fst (filter (\<lambda>(v, d). d = 0) D)"

definition kahn_result :: "'a list \<Rightarrow> ('a \<times> 'a) list \<Rightarrow> 'a degrees \<times> 'a list" where
  "kahn_result V E = (let (A, D) = build_arcs V E
     in kahn_run (\<lambda>u. dict_get_default A u []) D (zero_degree D))"

text \<open>The edges between known vertices, their successor lists and the edge relation.\<close>

definition inner_arcs :: "'a list \<Rightarrow> ('a \<times> 'a) list \<Rightarrow> ('a \<times> 'a) list" where
  "inner_arcs V E = filter (\<lambda>(s, t). s \<in> set V \<and> t \<in> set V) E"

definition arc_rel :: "'a list \<Rightarrow> ('a \<times> 'a) list \<Rightarrow> ('a \<times> 'a) set" where
  "arc_rel V E = {(s, t). (s, t) \<in> set E \<and> s \<in> set V \<and> t \<in> set V}"

definition succs :: "('a \<times> 'a) list \<Rightarrow> 'a \<Rightarrow> 'a list" where
  "succs E u = map snd (filter (\<lambda>(s, t). s = u) E)"

definition arcs_into :: "('a \<times> 'a) list \<Rightarrow> 'a set \<Rightarrow> 'a \<Rightarrow> nat" where
  "arcs_into E P v = length (filter (\<lambda>(s, t). t = v \<and> s \<notin> P) E)"

lemma set_inner_arcs: "set (inner_arcs V E) = arc_rel V E"
  by (auto simp: inner_arcs_def arc_rel_def)

lemma set_succs: "set (succs E u) = {v. (u, v) \<in> set E}"
  by (force simp: succs_def)

lemma arcs_into_0: "arcs_into E P v = 0 \<longleftrightarrow> (\<forall>u. (u, v) \<in> set E \<longrightarrow> u \<in> P)"
  by (auto simp: arcs_into_def filter_empty_conv)

lemma arcs_into_insert:
  "u \<notin> P \<Longrightarrow> arcs_into E P v = arcs_into E (insert u P) v + count_list (succs E u) v"
  by (induction E) (auto simp: arcs_into_def succs_def)

lemma fold_add_arc:
  assumes "fst ` set A = set V" "fst ` set D = set V" "map fst D = V"
    and "fold add_arc E (A, D) = (A', D')"
  shows "map fst D' = V \<and> fst ` set A' = set V \<and>
    (\<forall>u \<in> set V. dict_get_default A' u [] = dict_get_default A u [] @ succs (inner_arcs V E) u) \<and>
    (\<forall>v \<in> set V. degree D' v = degree D v + int (arcs_into (inner_arcs V E) {} v))"
  using assms
proof (induction E arbitrary: A D)
  case Nil
  then show ?case by (simp add: inner_arcs_def succs_def arcs_into_def)
next
  case (Cons e E)
  obtain s t where e: "e = (s, t)" by (cases e)
  show ?case
  proof (cases "s \<in> set V \<and> t \<in> set V")
    case True
    let ?A = "dict_set s (dict_get_default A s [] @ [t]) A"
    let ?D = "dict_set t (degree D t + 1) D"
    have "fold add_arc E (?A, ?D) = (A', D')" "fst ` set ?A = set V" "fst ` set ?D = set V"
      "map fst ?D = V"
      using Cons.prems True e by (auto simp: keys_set)
    note IH = Cons.IH[OF this(2,3,4,1)]
    have arcs: "inner_arcs V (e # E) = (s, t) # inner_arcs V E"
      using True e by (simp add: inner_arcs_def)
    show ?thesis
      unfolding arcs using IH by (simp add: succs_def arcs_into_def)
  next
    case False
    then have "add_arc e (A, D) = (A, D)"
      unfolding e by (auto simp: Cons.prems(1,2))
    with Cons.prems(4) have f: "fold add_arc E (A, D) = (A', D')"
      by simp
    have arcs: "inner_arcs V (e # E) = inner_arcs V E"
      using False e by (auto simp: inner_arcs_def)
    show ?thesis
      unfolding arcs by (rule Cons.IH[OF Cons.prems(1,2,3) f])
  qed
qed

lemma build_arcs_spec:
  assumes "build_arcs V E = (A, D)"
  shows "map fst D = V"
    and "u \<in> set V \<Longrightarrow> dict_get_default A u [] = succs (inner_arcs V E) u"
    and "v \<in> set V \<Longrightarrow> degree D v = int (arcs_into (inner_arcs V E) {} v)"
proof -
  let ?A = "map (\<lambda>v. (v, [])) V" and ?D = "map (\<lambda>v. (v, 0::int)) V"
  have init: "dict_get_default ?A u [] = []" "degree ?D v = 0" for u v
    by (simp_all add: degree_def dict_get_default_def map_of_map_pairs)
  have "fst ` set ?A = set V" "fst ` set ?D = set V" "map fst ?D = V"
    by (force simp: comp_def)+
  from fold_add_arc[OF this, of E A D] assms
  have *: "map fst D = V \<and>
    (\<forall>u \<in> set V. dict_get_default A u [] = succs (inner_arcs V E) u) \<and>
    (\<forall>v \<in> set V. degree D v = int (arcs_into (inner_arcs V E) {} v))"
    by (simp add: build_arcs_def init)
  then show "map fst D = V" by blast
  show "u \<in> set V \<Longrightarrow> dict_get_default A u [] = succs (inner_arcs V E) u" using * by blast
  show "v \<in> set V \<Longrightarrow> degree D v = int (arcs_into (inner_arcs V E) {} v)" using * by blast
qed

lemma zero_degree_spec:
  assumes "distinct (map fst D)"
  shows "distinct (zero_degree D)" and "set (zero_degree D) = {v \<in> fst ` set D. degree D v = 0}"
proof -
  show "distinct (zero_degree D)"
    unfolding zero_degree_def using assms by (rule distinct_map_filter)
  have "v \<in> set (zero_degree D) \<longleftrightarrow> (v, 0) \<in> set D" for v
    by (force simp: zero_degree_def)
  also have "(v, 0) \<in> set D \<longleftrightarrow> v \<in> fst ` set D \<and> degree D v = 0" for v
    using in_set_get[OF assms] in_keys_get[of v D]
    by (auto simp: degree_def dict_get_default_def dest: get_Some_key)
  finally show "set (zero_degree D) = {v \<in> fst ` set D. degree D v = 0}"
    by blast
qed

subsection \<open>The pop order is a topological order\<close>

text \<open>
  \<open>topo R us\<close>: every predecessor of an element of the list stands before it.
\<close>

definition topo :: "('a \<times> 'a) set \<Rightarrow> 'a list \<Rightarrow> bool" where
  "topo R us \<longleftrightarrow> (\<forall>xs v ys. us = xs @ v # ys \<longrightarrow> (\<forall>u. (u, v) \<in> R \<longrightarrow> u \<in> set xs))"

lemma topo_Nil [simp]: "topo R []"
  by (simp add: topo_def)

lemma topo_snoc:
  "topo R (us @ [v]) \<longleftrightarrow> topo R us \<and> (\<forall>u. (u, v) \<in> R \<longrightarrow> u \<in> set us)"
proof (intro iffI conjI)
  assume t: "topo R (us @ [v])"
  show "topo R us"
    unfolding topo_def
  proof (intro allI impI)
    fix xs w ys u
    assume "us = xs @ w # ys" and "(u, w) \<in> R"
    with t show "u \<in> set xs"
      unfolding topo_def by (metis append_Cons append_assoc)
  qed
  from t show "\<forall>u. (u, v) \<in> R \<longrightarrow> u \<in> set us"
    unfolding topo_def by blast
next
  assume t: "topo R us \<and> (\<forall>u. (u, v) \<in> R \<longrightarrow> u \<in> set us)"
  show "topo R (us @ [v])"
    unfolding topo_def
  proof (intro allI impI)
    fix xs w ys u
    assume eq: "us @ [v] = xs @ w # ys" and R: "(u, w) \<in> R"
    show "u \<in> set xs"
    proof (cases ys rule: rev_cases)
      case Nil
      with eq R t show ?thesis by auto
    next
      case (snoc zs z)
      with eq have "us = xs @ w # zs" by simp
      with R t show ?thesis unfolding topo_def by blast
    qed
  qed
qed

lemma topo_acyclic:
  assumes "topo R us" and "distinct us" and "R \<subseteq> set us \<times> set us"
  shows "acyclic R"
proof -
  have "(u, v) \<in> R\<^sup>+ \<Longrightarrow> us = xs @ v # ys \<Longrightarrow> u \<in> set xs" for u v xs ys
  proof (induction arbitrary: xs ys rule: trancl_induct)
    case (base w)
    with assms(1) show ?case unfolding topo_def by blast
  next
    case (step w z)
    from step assms(1) have "w \<in> set xs" unfolding topo_def by blast
    then obtain as bs where xs: "xs = as @ w # bs" by (meson split_list)
    with step.prems have "us = as @ w # (bs @ z # ys)" by simp
    from step.IH[OF this] xs show ?case by simp
  qed
  moreover have "\<exists>xs ys. us = xs @ v # ys" if "(v, v) \<in> R\<^sup>+" for v
    using that assms(3) by (meson in_mono mem_Sigma_iff split_list tranclD)
  ultimately show ?thesis
    using assms(2) unfolding acyclic_def by fastforce
qed

lemma relax_spec:
  assumes "\<And>v. int (count_list vs v) \<le> degree D v \<or> v \<notin> set vs"
    and "relax vs D Q = (D', Q')"
  shows "degree D' v = degree D v - int (count_list vs v)"
    and "\<exists>new. Q' = Q @ new \<and> distinct new \<and> set new = {v \<in> set vs. degree D v = int (count_list vs v)}"
  using assms
proof (induction vs D Q arbitrary: v rule: relax.induct)
  case (1 D Q)
  {
    case 1
    then show ?case by simp
  next
    case 2
    then show ?case by simp
  }
next
  case (2 w vs D Q)
  let ?d = "degree D w - 1"
  let ?D = "dict_set w ?d D" and ?Q = "if ?d = 0 then Q @ [w] else Q"
  {
    case 1
    have pre: "int (count_list vs v) \<le> degree ?D v \<or> v \<notin> set vs" for v
      using 1(1)[of v] by (auto split: if_splits)
    from 1(2) have r: "relax vs ?D ?Q = (D', Q')" by (simp add: Let_def)
    show ?case using "2.IH"(1)[OF refl pre r, of v] by auto
  next
    case 2
    have pre: "int (count_list vs v) \<le> degree ?D v \<or> v \<notin> set vs" for v
      using 2(1)[of v] by (auto split: if_splits)
    from 2(2) have r: "relax vs ?D ?Q = (D', Q')" by (simp add: Let_def)
    from "2.IH"(2)[OF refl pre r] obtain new where
      new: "Q' = ?Q @ new" "distinct new" "set new = {v \<in> set vs. degree ?D v = int (count_list vs v)}"
      by blast
    show ?case
    proof (cases "?d = 0")
      case True
      have "count_list vs w = 0" using 2(1)[of w] True by simp
      then have w: "w \<notin> set vs" by (simp add: count_list_0_iff)
      have mem: "set (w # new) = {v \<in> set (w # vs). degree D v = int (count_list (w # vs) v)}"
      proof (intro set_eqI)
        fix x
        show "x \<in> set (w # new) \<longleftrightarrow>
            x \<in> {v \<in> set (w # vs). degree D v = int (count_list (w # vs) v)}"
          using w True by (cases "x = w") (simp_all add: new(3) count_notin)
      qed
      show ?thesis
        by (rule exI[of _ "w # new"]) (use w True new(1,2) mem in \<open>simp add: new(3)\<close>)
    next
      case False
      have mem: "set new = {v \<in> set (w # vs). degree D v = int (count_list (w # vs) v)}"
      proof (intro set_eqI)
        fix x
        show "x \<in> set new \<longleftrightarrow>
            x \<in> {v \<in> set (w # vs). degree D v = int (count_list (w # vs) v)}"
          using False by (cases "x = w"; cases "w \<in> set vs") (auto simp: new(3) count_notin)
      qed
      show ?thesis
        by (rule exI[of _ new]) (use False new(1,2) in \<open>simp add: mem\<close>)
    qed
  }
qed

lemma relax_keys:
  "set vs \<subseteq> fst ` set D \<Longrightarrow> map fst (fst (relax vs D Q)) = map fst D"
  by (induction vs D Q rule: relax.induct) (auto simp: Let_def keys_set image_iff insert_absorb)

lemma pos_degree_keys:
  assumes "distinct (map fst D)"
  shows "v \<in> set (map fst (filter (\<lambda>(w, d). d > 0) D)) \<longleftrightarrow> v \<in> set (map fst D) \<and> degree D v > 0"
proof -
  have "v \<in> set (map fst (filter (\<lambda>(w, d). d > 0) D)) \<longleftrightarrow> (\<exists>d > 0. map_of D v = Some d)"
    using in_set_get[OF assms, of v] by force
  also have "\<dots> \<longleftrightarrow> v \<in> set (map fst D) \<and> degree D v > 0"
    unfolding degree_def dict_get_default_def
    by (cases "map_of D v") (auto dest: get_Some_key)
  finally show ?thesis .
qed

text \<open>
  What holds when the vertices \<open>P\<close> have been popped and \<open>Q\<close> waits: the degree of a vertex counts
  its edges from vertices not yet popped, and the vertices of degree zero are those in \<open>P\<close> or \<open>Q\<close>.
\<close>

definition kahn_inv :: "'a list \<Rightarrow> ('a \<times> 'a) list \<Rightarrow> 'a list \<Rightarrow> 'a degrees \<Rightarrow> 'a list \<Rightarrow> bool" where
  "kahn_inv V E P D Q \<longleftrightarrow> distinct (P @ Q) \<and> set (P @ Q) \<subseteq> set V \<and>
     (\<forall>v \<in> set V. degree D v = int (arcs_into E (set P) v)) \<and>
     (\<forall>v \<in> set V. v \<in> set (P @ Q) \<longleftrightarrow> degree D v = 0) \<and> topo (set E) P"

lemma kahn_inv_pop:
  assumes inv: "kahn_inv V E P D (u # Q)" and E: "set E \<subseteq> set V \<times> set V"
    and r: "relax (succs E u) D Q = (D', Q')"
  shows "kahn_inv V E (P @ [u]) D' Q'"
proof -
  have u: "u \<in> set V" "u \<notin> set P" "u \<notin> set Q" and d0: "degree D u = 0"
    using inv by (auto simp: kahn_inv_def)
  have deg: "v \<in> set V \<Longrightarrow> degree D v = int (arcs_into E (set P) v)" for v
    using inv by (simp add: kahn_inv_def)
  have split: "arcs_into E (set P) v = arcs_into E (set (P @ [u])) v + count_list (succs E u) v" for v
    using arcs_into_insert[OF u(2)] by simp
  have succV: "v \<in> set (succs E u) \<Longrightarrow> v \<in> set V" for v
    using E by (auto simp: set_succs)
  have pre: "int (count_list (succs E u) v) \<le> degree D v \<or> v \<notin> set (succs E u)" for v
    using succV[of v] deg[of v] split[of v] by auto
  have D': "v \<in> set V \<Longrightarrow> degree D' v = int (arcs_into E (set (P @ [u])) v)" for v
    using relax_spec(1)[OF pre r, of v] deg[of v] split[of v] by simp
  obtain new where new: "Q' = Q @ new" "distinct new"
    "set new = {v \<in> set (succs E u). degree D v = int (count_list (succs E u) v)}"
    using relax_spec(2)[OF pre r] by blast
  have newpos: "v \<in> set V \<and> degree D v \<noteq> 0" if "v \<in> set new" for v
    using that new(3) succV by (auto simp: count_list_0_iff)
  have new_iff: "v \<in> set new \<longleftrightarrow> degree D v \<noteq> 0 \<and> degree D' v = 0" if "v \<in> set V" for v
  proof -
    have "v \<in> set new \<longleftrightarrow> count_list (succs E u) v \<noteq> 0 \<and> degree D v = int (count_list (succs E u) v)"
      by (auto simp: new(3) count_list_0_iff)
    then show ?thesis using relax_spec(1)[OF pre r, of v] by linarith
  qed
  have zero: "v \<in> set (P @ u # Q) \<longleftrightarrow> degree D v = 0" if "v \<in> set V" for v
    using inv that by (simp add: kahn_inv_def)
  have keep: "degree D v = 0 \<Longrightarrow> v \<in> set V \<Longrightarrow> degree D' v = 0" for v
    using deg[of v] D'[of v] split[of v] by simp
  have "topo (set E) (P @ [u])"
    using inv u(1) d0 deg[OF u(1)] by (auto simp: topo_snoc kahn_inv_def arcs_into_0)
  moreover have "set new \<inter> set (P @ u # Q) = {}"
    using newpos zero by blast
  then have "distinct ((P @ [u]) @ Q')"
    using inv new(1,2) by (auto simp: kahn_inv_def)
  moreover have "set ((P @ [u]) @ Q') \<subseteq> set V"
    using inv new(1) newpos by (auto simp: kahn_inv_def)
  moreover have "v \<in> set ((P @ [u]) @ Q') \<longleftrightarrow> degree D' v = 0" if "v \<in> set V" for v
    using new(1) new_iff[OF that] zero[OF that] keep[OF _ that] by auto
  ultimately show ?thesis
    using D' by (simp add: kahn_inv_def)
qed

lemma kahn_run_inv:
  assumes "kahn_inv V E P D Q" and "set E \<subseteq> set V \<times> set V" and "\<And>u. u \<in> set V \<Longrightarrow> adj u = succs E u"
    and "kahn_run adj D Q = (D', us)"
  shows "kahn_inv V E (P @ us) D' []"
  using assms
proof (induction adj D Q arbitrary: P D' us rule: kahn_run.induct)
  case (1 adj D)
  then show ?case by simp
next
  case (2 adj D u Q)
  obtain D1 Q1 where r: "relax (adj u) D Q = (D1, Q1)" by fastforce
  obtain us' where us: "us = u # us'" and run: "kahn_run adj D1 Q1 = (D', us')"
    using "2.prems"(4) by (auto simp: r split: prod.splits)
  have "u \<in> set V" using "2.prems"(1) by (simp add: kahn_inv_def)
  then have "relax (succs E u) D Q = (D1, Q1)" using r "2.prems"(3) by simp
  from kahn_inv_pop[OF "2.prems"(1,2) this]
  have "kahn_inv V E ((P @ [u]) @ us') D' []"
    using "2.IH"[OF r[symmetric]] "2.prems"(2,3) run by blast
  then show ?case using us by simp
qed

lemma kahn_init_inv:
  assumes "distinct V" and b: "build_arcs V E = (A, D)"
  shows "kahn_inv V (inner_arcs V E) [] D (zero_degree D)"
proof -
  note spec = build_arcs_spec[OF b]
  have "distinct (map fst D)" "fst ` set D = set V"
    using spec(1) assms(1) by (auto simp flip: set_map)
  then show ?thesis
    using zero_degree_spec[of D] spec(3) by (auto simp: kahn_inv_def)
qed

lemma inner_arcs_subset: "set (inner_arcs V E) \<subseteq> set V \<times> set V"
  by (auto simp: inner_arcs_def)

lemma kahn_result_inv:
  assumes "distinct V" and "kahn_result V E = (D', us)"
  shows "kahn_inv V (inner_arcs V E) us D' []"
proof -
  obtain A D where b: "build_arcs V E = (A, D)" by fastforce
  from kahn_run_inv[OF kahn_init_inv[OF assms(1) b] inner_arcs_subset,
      of "\<lambda>u. dict_get_default A u []" D' us] assms(2) b build_arcs_spec(2)[OF b]
  show ?thesis
    by (simp add: kahn_result_def)
qed

lemma kahn_run_keys:
  assumes "kahn_inv V E P D Q" and "set E \<subseteq> set V \<times> set V" and "\<And>u. u \<in> set V \<Longrightarrow> adj u = succs E u"
    and "map fst D = V"
  shows "map fst (fst (kahn_run adj D Q)) = V"
  using assms
proof (induction adj D Q arbitrary: P rule: kahn_run.induct)
  case (1 adj D)
  then show ?case by simp
next
  case (2 adj D u Q)
  obtain D1 Q1 where r: "relax (adj u) D Q = (D1, Q1)" by fastforce
  have u: "u \<in> set V" using "2.prems"(1) by (simp add: kahn_inv_def)
  have keys: "fst ` set D = set V" using "2.prems"(4) by (auto simp flip: set_map)
  have "set (adj u) \<subseteq> fst ` set D"
    using u "2.prems"(2,3) by (auto simp: keys set_succs)
  then have "map fst D1 = V"
    using relax_keys[of "adj u" D Q] r "2.prems"(4) by simp
  moreover have "kahn_inv V E (P @ [u]) D1 Q1"
    using kahn_inv_pop[OF "2.prems"(1,2)] r "2.prems"(3)[OF u] by simp
  ultimately show ?case
    using "2.IH"[OF r[symmetric], of "P @ [u]"] "2.prems"(2,3) r
    by (cases "kahn_run adj D1 Q1") simp
qed

lemma kahn_result_keys:
  assumes "distinct V"
  shows "map fst (fst (kahn_result V E)) = V"
proof -
  obtain A D where b: "build_arcs V E = (A, D)" by fastforce
  show ?thesis
    using kahn_run_keys[OF kahn_init_inv[OF assms b] inner_arcs_subset] build_arcs_spec[OF b]
    by (simp add: kahn_result_def b)
qed

text \<open>The four facts the components use.\<close>

lemma kahn_distinct:
  "distinct V \<Longrightarrow> distinct (snd (kahn_result V E)) \<and> set (snd (kahn_result V E)) \<subseteq> set V"
  using kahn_result_inv[of V E "fst (kahn_result V E)" "snd (kahn_result V E)"]
  by (simp add: kahn_inv_def)

lemma kahn_topo: "distinct V \<Longrightarrow> topo (arc_rel V E) (snd (kahn_result V E))"
  using kahn_result_inv[of V E "fst (kahn_result V E)" "snd (kahn_result V E)"]
  by (simp add: kahn_inv_def set_inner_arcs)

lemma kahn_blocked:
  assumes "distinct V" and "v \<in> set V"
  shows "degree (fst (kahn_result V E)) v > 0 \<longleftrightarrow> v \<notin> set (snd (kahn_result V E))"
    and "v \<notin> set (snd (kahn_result V E)) \<Longrightarrow>
      \<exists>u. (u, v) \<in> arc_rel V E \<and> u \<notin> set (snd (kahn_result V E))"
proof -
  let ?D = "fst (kahn_result V E)" and ?us = "snd (kahn_result V E)"
  have inv: "kahn_inv V (inner_arcs V E) ?us ?D []"
    using kahn_result_inv[OF assms(1)] by simp
  then have deg: "degree ?D v = int (arcs_into (inner_arcs V E) (set ?us) v)"
    and mem: "v \<in> set ?us \<longleftrightarrow> degree ?D v = 0"
    using assms(2) by (auto simp: kahn_inv_def)
  show "degree ?D v > 0 \<longleftrightarrow> v \<notin> set ?us" using deg mem by simp
  show "v \<notin> set ?us \<Longrightarrow> \<exists>u. (u, v) \<in> arc_rel V E \<and> u \<notin> set ?us"
    using deg mem by (auto simp: arcs_into_0 set_inner_arcs)
qed

lemma finite_arc_rel: "finite (arc_rel V E)"
  using finite_set[of "inner_arcs V E"] by (simp add: set_inner_arcs)

lemma kahn_inv_complete_iff:
  assumes "kahn_inv V E us D []" and "distinct V" and E: "set E \<subseteq> set V \<times> set V"
  shows "length us = length V \<longleftrightarrow> acyclic (set E)"
proof -
  have us: "distinct us" "set us \<subseteq> set V" and t: "topo (set E) us"
    and z: "\<And>v. v \<in> set V \<Longrightarrow> v \<in> set us \<longleftrightarrow> (\<forall>u. (u, v) \<in> set E \<longrightarrow> u \<in> set us)"
    using assms(1) by (auto simp: kahn_inv_def arcs_into_0)
  have "set us = set V \<longleftrightarrow> acyclic (set E)"
  proof
    assume "set us = set V"
    then show "acyclic (set E)" using topo_acyclic[OF t us(1)] E by blast
  next
    assume "acyclic (set E)"
    then have wf: "wf (set E)" by (simp add: finite_acyclic_wf)
    have "v \<in> set V \<Longrightarrow> v \<in> set us" for v
      using wf
    proof (induction v rule: wf_induct_rule)
      case (less v)
      then show ?case using z[OF less.prems] E by blast
    qed
    with us(2) show "set us = set V" by blast
  qed
  with distinct_same_set_length[OF us(1) assms(2) us(2)] show ?thesis by simp
qed

lemma kahn_complete_iff:
  assumes "distinct V"
  shows "length (snd (kahn_result V E)) = length V \<longleftrightarrow> acyclic (arc_rel V E)"
  using kahn_inv_complete_iff[OF kahn_result_inv[OF assms prod.collapse[symmetric]] assms inner_arcs_subset]
  by (simp add: set_inner_arcs)

text \<open>
  The vertices that are never popped are exactly those on a cycle or behind one.
\<close>

lemma topo_closed: "topo R us \<Longrightarrow> v \<in> set us \<Longrightarrow> (u, v) \<in> R\<^sup>* \<Longrightarrow> u \<in> set us"
proof (rotate_tac 2, induction rule: converse_rtrancl_induct)
  case base
  then show ?case by simp
next
  case (step y z)
  then obtain xs ys where "us = xs @ z # ys" by (meson split_list)
  with step show ?case unfolding topo_def by (metis Un_iff set_append)
qed

lemma topo_no_cycle:
  assumes "topo R us" and "distinct us" and "c \<in> set us"
  shows "(c, c) \<notin> R\<^sup>+"
proof
  assume cc: "(c, c) \<in> R\<^sup>+"
  let ?R = "R \<inter> set us \<times> set us"
  have "topo ?R us" using assms(1) unfolding topo_def by blast
  then have ac: "acyclic ?R" by (rule topo_acyclic) (use assms(2) in auto)
  have "(u, c) \<in> R\<^sup>+ \<Longrightarrow> (u, c) \<in> ?R\<^sup>+" for u
  proof (induction rule: converse_trancl_induct)
    case (base y)
    then show ?case using topo_closed[OF assms(1,3), of y] assms(3) by blast
  next
    case (step y z)
    have "z \<in> set us" "y \<in> set us"
      using topo_closed[OF assms(1,3)] step.hyps by (meson rtrancl.rtrancl_into_rtrancl
          converse_rtrancl_into_rtrancl trancl_into_rtrancl)+
    with step show ?case by (meson IntI SigmaI trancl_into_trancl2)
  qed
  with cc ac show False by (auto simp: acyclic_def)
qed

lemma cycle_behind:
  assumes fin: "finite B" and v: "v \<in> B" and pred: "\<And>w. w \<in> B \<Longrightarrow> \<exists>u \<in> B. (u, w) \<in> R"
  shows "\<exists>c. (c, c) \<in> R\<^sup>+ \<and> (c, v) \<in> R\<^sup>*"
proof (rule ccontr)
  assume no: "\<not> ?thesis"
  let ?A = "{u \<in> B. (u, v) \<in> R\<^sup>*}"
  let ?R = "R \<inter> ?A \<times> ?A"
  have "acyclic ?R"
  proof (rule acyclicI, intro allI notI)
    fix c assume c: "(c, c) \<in> ?R\<^sup>+"
    then have "(c, c) \<in> R\<^sup>+" by (rule trancl_mono) simp
    moreover from c have "(c, v) \<in> R\<^sup>*" by (auto dest: tranclD)
    ultimately show False using no by blast
  qed
  moreover have "finite ?R" by (rule finite_subset[of _ "?A \<times> ?A"]) (use fin in auto)
  ultimately have "wf ?R" by (simp add: finite_acyclic_wf)
  moreover have "v \<in> ?A" using v by simp
  ultimately obtain m where m: "m \<in> ?A" and min: "\<And>y. (y, m) \<in> ?R \<Longrightarrow> y \<notin> ?A"
    using wfE_min[of ?R v ?A] by blast
  from m pred obtain u where u: "u \<in> B" "(u, m) \<in> R" by blast
  with m have "u \<in> ?A" by (auto intro: converse_rtrancl_into_rtrancl)
  with u m min show False by blast
qed

lemma kahn_blocked_iff:
  assumes "distinct V" and v: "v \<in> set V"
  shows "v \<notin> set (snd (kahn_result V E)) \<longleftrightarrow>
    (\<exists>c. (c, c) \<in> (arc_rel V E)\<^sup>+ \<and> (c, v) \<in> (arc_rel V E)\<^sup>*)"
proof
  let ?us = "snd (kahn_result V E)" and ?R = "arc_rel V E"
  assume "v \<notin> set ?us"
  then have "v \<in> set V - set ?us" using v by blast
  then show "\<exists>c. (c, c) \<in> ?R\<^sup>+ \<and> (c, v) \<in> ?R\<^sup>*"
    by (rule cycle_behind[rotated]) (use kahn_blocked(2)[OF assms(1)] in \<open>auto simp: arc_rel_def\<close>)
next
  let ?us = "snd (kahn_result V E)" and ?R = "arc_rel V E"
  assume "\<exists>c. (c, c) \<in> ?R\<^sup>+ \<and> (c, v) \<in> ?R\<^sup>*"
  then obtain c where "(c, c) \<in> ?R\<^sup>+" "(c, v) \<in> ?R\<^sup>*" by blast
  then show "v \<notin> set ?us"
    using topo_no_cycle[OF kahn_topo[OF assms(1)]] topo_closed[OF kahn_topo[OF assms(1)]]
      kahn_distinct[OF assms(1)] by blast
qed

subsection \<open>Other set-ups of the loop\<close>

text \<open>
  Loops whose dictionaries are filled in another order: all that counts is the invariant at the start,
  and a run depends on the degrees only as a function.
\<close>

lemma relax_cong:
  assumes "\<And>v. degree D v = degree D2 v"
  shows "snd (relax vs D Q) = snd (relax vs D2 Q) \<and>
    degree (fst (relax vs D Q)) v = degree (fst (relax vs D2 Q)) v"
  using assms
proof (induction vs arbitrary: D D2 Q)
  case (Cons w vs)
  show ?case using Cons.IH[of "dict_set w (degree D w - 1) D" "dict_set w (degree D2 w - 1) D2"] Cons.prems by (simp add: Let_def)
qed simp

lemma relax_queue: "set (snd (relax vs D Q)) \<subseteq> set Q \<union> set vs"
proof (induction vs arbitrary: D Q)
  case (Cons v vs)
  show ?case using Cons.IH[of "dict_set v (degree D v - 1) D" "if degree D v - 1 = 0 then Q @ [v] else Q"]
    by (auto simp: Let_def split: if_splits)
qed simp

lemma kahn_run_cong:
  assumes "\<And>v. degree D v = degree D2 v" and "set Q \<subseteq> V"
    and "\<And>u. u \<in> V \<Longrightarrow> adj u = adj2 u \<and> set (adj u) \<subseteq> V"
  shows "snd (kahn_run adj D Q) = snd (kahn_run adj2 D2 Q)"
  using assms
proof (induction adj D Q arbitrary: D2 rule: kahn_run.induct)
  case (2 adj D u Q)
  have "u \<in> V" using "2.prems"(2) by simp
  from "2.prems"(3)[OF this] have u: "adj u = adj2 u" "set (adj u) \<subseteq> V" by blast+
  obtain D' Q' where r: "relax (adj u) D Q = (D', Q')" by fastforce
  obtain D2' Q2' where r2: "relax (adj u) D2 Q = (D2', Q2')" by fastforce
  note c = relax_cong[OF "2.prems"(1), of "adj u" Q, unfolded r r2]
  have q: "Q' = Q2'" and d: "\<And>v. degree D' v = degree D2' v" using c by simp_all
  have sub: "set Q' \<subseteq> V" using relax_queue[of "adj u" D Q] r "2.prems"(2) u(2) by auto
  have "snd (kahn_run adj D' Q') = snd (kahn_run adj2 D2' Q')"
    unfolding q[symmetric] using "2.IH"[OF r[symmetric] d sub] "2.prems"(3) by blast
  then show ?case using r r2 u(1) q by (simp add: case_prod_unfold)
qed simp

lemma relax_append: "relax (vs @ ws) D Q = relax ws (fst (relax vs D Q)) (snd (relax vs D Q))"
  by (induction vs D Q rule: relax.induct) (simp_all add: Let_def)

lemma relax_frame: "relax vs D (X @ Q) = (fst (relax vs D Q), X @ snd (relax vs D Q))"
proof (induction vs arbitrary: D Q)
  case (Cons v vs)
  show ?case using Cons.IH[of _ "Q @ [v]"] Cons.IH by (simp add: Let_def)
qed simp

text \<open>Popping a whole level at once.\<close>

lemma kahn_inv_level:
  assumes "kahn_inv V E P D (us @ Q)" and "set E \<subseteq> set V \<times> set V" and "\<And>u. u \<in> set V \<Longrightarrow> adj u = succs E u"
    and "relax (concat (map adj us)) D Q = (D', Q')"
  shows "kahn_inv V E (P @ us) D' Q'"
  using assms
proof (induction us arbitrary: P D Q)
  case (Cons u us)
  have u: "u \<in> set V" using Cons.prems(1) by (simp add: kahn_inv_def)
  obtain D1 Q1 where r: "relax (succs E u) D Q = (D1, Q1)" by fastforce
  then have "relax (succs E u) D (us @ Q) = (D1, us @ Q1)" using relax_frame[of _ D us Q] by simp
  from kahn_inv_pop[OF _ Cons.prems(2) this] Cons.prems(1) have "kahn_inv V E (P @ [u]) D1 (us @ Q1)" by simp
  moreover have "relax (concat (map adj us)) D1 Q1 = (D', Q')"
    using Cons.prems(3)[OF u] Cons.prems(4) r by (simp add: relax_append)
  ultimately show ?case using Cons.IH[of "P @ [u]" D1 Q1] Cons.prems(2,3) by simp
qed simp

lemma kahn_inv_perm: "kahn_inv V E P D Q \<Longrightarrow> mset Q' = mset Q \<Longrightarrow> kahn_inv V E P D Q'"
  unfolding kahn_inv_def by (metis distinct_append mset_eq_imp_distinct_iff mset_eq_setD set_append)

text \<open>The elements queued by a level have all predecessors popped, one of them in the level.\<close>

lemma kahn_inv_new:
  assumes "kahn_inv V E P D us" and "kahn_inv V E (P @ us) D' Q'" and "v \<in> set Q'"
  shows "(\<forall>u. (u, v) \<in> set E \<longrightarrow> u \<in> set P \<union> set us) \<and> (\<exists>u \<in> set us. (u, v) \<in> set E)"
proof -
  have v: "v \<in> set V" using assms(2,3) by (auto simp: kahn_inv_def)
  have "degree D' v = 0" using assms(2,3) v by (auto simp: kahn_inv_def)
  then have "arcs_into E (set (P @ us)) v = 0" using assms(2) v by (auto simp: kahn_inv_def)
  then have all: "\<forall>u. (u, v) \<in> set E \<longrightarrow> u \<in> set (P @ us)" by (simp add: arcs_into_0)
  have "v \<notin> set (P @ us)" using assms(2,3) by (auto simp: kahn_inv_def)
  then have "arcs_into E (set P) v \<noteq> 0" using assms(1) v by (auto simp: kahn_inv_def)
  then show ?thesis using all by (auto simp: arcs_into_0)
qed

subsection \<open>The interface of the clients\<close>

text \<open>
  A component that runs the loop on a structure it keeps: a list of vertices without repetition
  and a list of edges. The facts below hold for every such component.
\<close>

locale arc_source =
  fixes vertices :: "'g \<Rightarrow> 'a list" and arcs :: "'g \<Rightarrow> ('a \<times> 'a) list" and ok :: "'g \<Rightarrow> bool"
  assumes distinct_vertices: "ok g \<Longrightarrow> distinct (vertices g)"
begin

lemma counts_all_iff:
  "ok g \<Longrightarrow> length (snd (kahn_result (vertices g) (arcs g))) = length (vertices g) \<longleftrightarrow>
     acyclic (arc_rel (vertices g) (arcs g))"
  by (rule kahn_complete_iff[OF distinct_vertices])

lemma order_permutes:
  assumes "ok g" and "acyclic (arc_rel (vertices g) (arcs g))"
  shows "distinct (snd (kahn_result (vertices g) (arcs g))) \<and>
    set (snd (kahn_result (vertices g) (arcs g))) = set (vertices g)"
  using kahn_distinct[OF distinct_vertices[OF assms(1)]] counts_all_iff[OF assms(1)] assms(2)
    distinct_same_set_length[OF _ distinct_vertices[OF assms(1)]]
  by blast

lemma order_sorted:
  "ok g \<Longrightarrow> topo (arc_rel (vertices g) (arcs g)) (snd (kahn_result (vertices g) (arcs g)))"
  by (rule kahn_topo[OF distinct_vertices])

lemma left_over_iff:
  assumes "ok g" and "v \<in> set (vertices g)"
  shows "degree (fst (kahn_result (vertices g) (arcs g))) v > 0 \<longleftrightarrow>
    (\<exists>c. (c, c) \<in> (arc_rel (vertices g) (arcs g))\<^sup>+ \<and> (c, v) \<in> (arc_rel (vertices g) (arcs g))\<^sup>*)"
  using kahn_blocked(1)[OF distinct_vertices[OF assms(1)] assms(2)]
    kahn_blocked_iff[OF distinct_vertices[OF assms(1)] assms(2)] by simp

end

end
