(* ===== verification/ExecutionGraph.thy ===== *)
theory ExecutionGraph
  imports Kahn
begin

text \<open>
  The DAG of agent tasks, \<^verbatim>\<open>src/backend/agent/execution_graph.py\<close>: nodes, edges, the stateless
  validator, the graph operations, the derived execution plan and the (de)serialisation. The
  lock of the class makes every operation atomic; an operation is a function on the graph record.
  Error messages are values of a datatype that carries the interpolated data.
\<close>

subsection \<open>Data\<close>

datatype node_status = Node_PENDING | Node_READY | Node_RUNNING | Node_COMPLETED | Node_FAILED
  | Node_SKIPPED

datatype node_type = Type_TASK | Type_DECISION | Type_PARALLEL | Type_SUBGRAPH | Type_OBSERVER

record agent_node =
  node_id :: string
  node_name :: string
  node_type :: "node_type enum_or_str"
  node_status :: "node_status enum_or_str"
  node_capability :: string
  node_metadata :: metadata

record agent_edge =
  edge_source :: string
  edge_target :: string
  edge_condition :: string
  edge_metadata :: metadata

record exec_graph =
  graph_nodes :: "(string, agent_node) dict"
  graph_edges :: "agent_edge list"

record graph_plan =
  execution_order :: "string list"
  plan_levels :: "string list list"
  plan_dependencies :: "(string, string list) dict"
  plan_stats :: metadata

datatype graph_issue =
    SourceMissing string
  | TargetMissing string
  | CycleInvolving "string list"
  | OrphanNodes "string list"

datatype graph_error =
    NodeExists string
  | NodeMissing string
  | EdgeMissing string string
  | InvalidReferences "graph_issue list"
  | CycleError "graph_issue list"
  | SortCycleError
  | ValidationError "graph_issue list"

fun node_status_value :: "node_status \<Rightarrow> string" where
  "node_status_value Node_PENDING = ''pending''"
| "node_status_value Node_READY = ''ready''"
| "node_status_value Node_RUNNING = ''running''"
| "node_status_value Node_COMPLETED = ''completed''"
| "node_status_value Node_FAILED = ''failed''"
| "node_status_value Node_SKIPPED = ''skipped''"

fun node_type_value :: "node_type \<Rightarrow> string" where
  "node_type_value Type_TASK = ''task''"
| "node_type_value Type_DECISION = ''decision''"
| "node_type_value Type_PARALLEL = ''parallel''"
| "node_type_value Type_SUBGRAPH = ''subgraph''"
| "node_type_value Type_OBSERVER = ''observer''"

text \<open>The enum constructors \<^verbatim>\<open>NodeStatus(s)\<close> and \<^verbatim>\<open>NodeType(s)\<close>; \<^const>\<open>None\<close> is the \<^verbatim>\<open>ValueError\<close>.\<close>

definition node_status_of :: "string \<Rightarrow> node_status option" where
  "node_status_of s = List.find (\<lambda>e. node_status_value e = s)
     [Node_PENDING, Node_READY, Node_RUNNING, Node_COMPLETED, Node_FAILED, Node_SKIPPED]"

definition node_type_of :: "string \<Rightarrow> node_type option" where
  "node_type_of s = List.find (\<lambda>e. node_type_value e = s)
     [Type_TASK, Type_DECISION, Type_PARALLEL, Type_SUBGRAPH, Type_OBSERVER]"

text \<open>Comparison with an enum member: a plain string equal to the member's value compares equal.\<close>

definition status_is :: "node_status \<Rightarrow> node_status enum_or_str \<Rightarrow> bool" where
  "status_is e s = (case s of EnumV e' \<Rightarrow> e' = e | RawStr r \<Rightarrow> r = node_status_value e)"

abbreviation edge_arc :: "agent_edge \<Rightarrow> string \<times> string" where
  "edge_arc e \<equiv> (edge_source e, edge_target e)"

subsection \<open>Validator\<close>

definition detect_cycles :: "(string, agent_node) dict \<Rightarrow> agent_edge list \<Rightarrow> graph_issue list" where
  "detect_cycles nodes edges =
     (let (adjacency, in_degree) = build_arcs (dict_keys nodes) (map edge_arc edges);
          queue = zero_degree in_degree;
          (in_degree', visited) = kahn_loop (\<lambda>u. dict_get_default adjacency u [])
             (\<lambda>_ n. n + 1) (\<lambda>_ _ n. n) in_degree queue (0::nat)
      in if visited \<noteq> length nodes
         then [CycleInvolving (map fst (filter (\<lambda>(nid, deg). deg > 0) in_degree'))]
         else [])"

fun check_invalid_references :: "(string, agent_node) dict \<Rightarrow> agent_edge list \<Rightarrow> graph_issue list" where
  "check_invalid_references nodes [] = []"
| "check_invalid_references nodes (e # es) =
     (if edge_source e \<notin> set (dict_keys nodes) then [SourceMissing (edge_source e)] else []) @
     (if edge_target e \<notin> set (dict_keys nodes) then [TargetMissing (edge_target e)] else []) @
     check_invalid_references nodes es"

definition check_orphan_nodes :: "(string, agent_node) dict \<Rightarrow> agent_edge list \<Rightarrow> graph_issue list" where
  "check_orphan_nodes nodes edges =
     (if length nodes \<le> 1 \<or> edges = [] then []
      else let has_incoming = map edge_target edges;
               has_outgoing = map edge_source edges;
               orphans = filter (\<lambda>nid. nid \<notin> set has_incoming \<union> set has_outgoing) (dict_keys nodes)
           in if orphans \<noteq> [] then [OrphanNodes orphans] else [])"

definition validator_validate :: "(string, agent_node) dict \<Rightarrow> agent_edge list \<Rightarrow> graph_issue list" where
  "validator_validate nodes edges =
     check_invalid_references nodes edges @ detect_cycles nodes edges @ check_orphan_nodes nodes edges"

subsection \<open>Graph operations\<close>

definition empty_graph :: exec_graph where
  "empty_graph = \<lparr>graph_nodes = [], graph_edges = []\<rparr>"

definition graph_init :: "agent_node list \<Rightarrow> agent_edge list \<Rightarrow> exec_graph" where
  "graph_init nodes edges =
     \<lparr>graph_nodes = fold (\<lambda>n d. dict_set (node_id n) n d) nodes [], graph_edges = edges\<rparr>"

definition add_node :: "agent_node \<Rightarrow> exec_graph \<Rightarrow> graph_error + exec_graph" where
  "add_node n g =
     (if node_id n \<in> set (dict_keys (graph_nodes g)) then Inl (NodeExists (node_id n))
      else Inr (g\<lparr>graph_nodes := dict_set (node_id n) n (graph_nodes g)\<rparr>))"

definition remove_node :: "string \<Rightarrow> exec_graph \<Rightarrow> graph_error + exec_graph" where
  "remove_node nid g =
     (if nid \<notin> set (dict_keys (graph_nodes g)) then Inl (NodeMissing nid)
      else Inr (g\<lparr>graph_nodes := dict_del nid (graph_nodes g),
                  graph_edges := filter (\<lambda>e. edge_source e \<noteq> nid \<and> edge_target e \<noteq> nid)
                                        (graph_edges g)\<rparr>))"

definition get_node :: "string \<Rightarrow> exec_graph \<Rightarrow> graph_error + agent_node" where
  "get_node nid g = (case dict_get (graph_nodes g) nid of
     None \<Rightarrow> Inl (NodeMissing nid) | Some n \<Rightarrow> Inr n)"

definition list_nodes :: "exec_graph \<Rightarrow> agent_node list" where
  "list_nodes g = dict_values (graph_nodes g)"

definition add_edge :: "agent_edge \<Rightarrow> exec_graph \<Rightarrow> graph_error + exec_graph" where
  "add_edge e g =
     (let errors = check_invalid_references (graph_nodes g) (graph_edges g @ [e])
      in if errors \<noteq> [] then Inl (InvalidReferences errors)
         else let cycle_errors = detect_cycles (graph_nodes g) (graph_edges g @ [e])
              in if cycle_errors \<noteq> [] then Inl (CycleError cycle_errors)
                 else Inr (g\<lparr>graph_edges := graph_edges g @ [e]\<rparr>))"

fun remove_first_edge :: "string \<Rightarrow> string \<Rightarrow> agent_edge list \<Rightarrow> agent_edge list option" where
  "remove_first_edge s t [] = None"
| "remove_first_edge s t (e # es) =
     (if edge_source e = s \<and> edge_target e = t then Some es
      else map_option ((#) e) (remove_first_edge s t es))"

definition remove_edge :: "string \<Rightarrow> string \<Rightarrow> exec_graph \<Rightarrow> graph_error + exec_graph" where
  "remove_edge s t g = (case remove_first_edge s t (graph_edges g) of
     None \<Rightarrow> Inl (EdgeMissing s t) | Some es \<Rightarrow> Inr (g\<lparr>graph_edges := es\<rparr>))"

definition list_edges :: "exec_graph \<Rightarrow> agent_edge list" where
  "list_edges g = graph_edges g"

definition get_roots :: "exec_graph \<Rightarrow> agent_node list" where
  "get_roots g = filter (\<lambda>n. node_id n \<notin> set (map edge_target (graph_edges g)))
     (dict_values (graph_nodes g))"

definition get_leaves :: "exec_graph \<Rightarrow> agent_node list" where
  "get_leaves g = filter (\<lambda>n. node_id n \<notin> set (map edge_source (graph_edges g)))
     (dict_values (graph_nodes g))"

definition topological_sort :: "exec_graph \<Rightarrow> graph_error + agent_node list" where
  "topological_sort g =
     (let (adjacency, in_degree) = build_arcs (dict_keys (graph_nodes g)) (map edge_arc (graph_edges g));
          queue = zero_degree in_degree;
          (_, sorted_ids) = kahn_loop (\<lambda>u. dict_get_default adjacency u [])
             (\<lambda>u ids. ids @ [u]) (\<lambda>_ _ ids. ids) in_degree queue []
      in if length sorted_ids \<noteq> length (graph_nodes g) then Inl SortCycleError
         else Inr (map (\<lambda>nid. the (dict_get (graph_nodes g) nid)) sorted_ids))"

definition graph_validate :: "exec_graph \<Rightarrow> graph_issue list" where
  "graph_validate g = validator_validate (graph_nodes g) (graph_edges g)"

subsection \<open>Execution plan\<close>

text \<open>
  \<^verbatim>\<open>generate_plan\<close> rebuilds the successor lists with a \<^verbatim>\<open>defaultdict\<close> and tests only the source of
  an edge; by then \<^verbatim>\<open>validate\<close> has established that both ends exist, so no subscript raises.
\<close>

fun plan_arc :: "string \<times> string \<Rightarrow> (string, string list) dict \<times> string degrees
    \<Rightarrow> (string, string list) dict \<times> string degrees" where
  "plan_arc (s, t) (A, D) =
     (if s \<in> set (dict_keys D)
      then (dict_set s (dict_get_default A s [] @ [t]) A, dict_set t (degree D t + 1) D)
      else (A, D))"

definition raise_level :: "string \<Rightarrow> string \<Rightarrow> (string, nat) dict \<Rightarrow> (string, nat) dict" where
  "raise_level u v L = dict_set v (max (dict_get_default L v 0) (dict_get_default L u 0 + 1)) L"

definition level_map :: "exec_graph \<Rightarrow> (string, nat) dict" where
  "level_map g =
     (let (adj, in_degree) = fold plan_arc (map edge_arc (graph_edges g))
            ([], map (\<lambda>nid. (nid, 0)) (dict_keys (graph_nodes g)));
          queue = zero_degree in_degree;
          level_of = fold (\<lambda>nid L. dict_set nid 0 L) queue []
      in snd (kahn_loop (\<lambda>u. dict_get_default adj u []) (\<lambda>_ L. L) raise_level
                in_degree queue level_of))"

definition collect_levels :: "(string, nat) dict \<Rightarrow> string list list" where
  "collect_levels level_of =
     (let max_level = (if level_of = [] then 0 else Max (set (dict_values level_of)))
      in filter (\<lambda>ids. ids \<noteq> [])
           (map (\<lambda>lvl. map fst (filter (\<lambda>(nid, l). l = lvl) level_of)) [0..<max_level + 1]))"

definition dependency_map :: "exec_graph \<Rightarrow> (string, string list) dict" where
  "dependency_map g =
     fold (\<lambda>e deps. dict_set (edge_target e)
             (dict_get_default deps (edge_target e) [] @ [edge_source e]) deps)
       (graph_edges g) (map (\<lambda>nid. (nid, [])) (dict_keys (graph_nodes g)))"

definition generate_plan :: "exec_graph \<Rightarrow> graph_error + graph_plan" where
  "generate_plan g =
     (let errors = graph_validate g
      in if errors \<noteq> [] then Inl (ValidationError errors)
         else case topological_sort g of
           Inl err \<Rightarrow> Inl err
         | Inr sorted_nodes \<Rightarrow>
             let levels = collect_levels (level_map g)
             in Inr \<lparr>execution_order = map node_id sorted_nodes,
                     plan_levels = levels,
                     plan_dependencies = dependency_map g,
                     plan_stats = [(''node_count'', PInt (int (length (graph_nodes g)))),
                                   (''edge_count'', PInt (int (length (graph_edges g)))),
                                   (''level_count'', PInt (int (length levels))),
                                   (''root_count'', PInt (int (length (get_roots g)))),
                                   (''leaf_count'', PInt (int (length (get_leaves g))))]\<rparr>)"

subsection \<open>Serialisation\<close>

definition type_field :: "node_type enum_or_str \<Rightarrow> pyval" where
  "type_field t = PStr (case t of EnumV e \<Rightarrow> node_type_value e | RawStr s \<Rightarrow> s)"

definition status_field :: "node_status enum_or_str \<Rightarrow> pyval" where
  "status_field t = PStr (case t of EnumV e \<Rightarrow> node_status_value e | RawStr s \<Rightarrow> s)"

definition node_to_dict :: "agent_node \<Rightarrow> pyval" where
  "node_to_dict n = PDict
     [(''id'', PStr (node_id n)), (''name'', PStr (node_name n)), (''type'', type_field (node_type n)),
      (''status'', status_field (node_status n)), (''runtime_capability'', PStr (node_capability n)),
      (''metadata'', PDict (node_metadata n))]"

definition edge_to_dict :: "agent_edge \<Rightarrow> pyval" where
  "edge_to_dict e = PDict
     [(''source'', PStr (edge_source e)), (''target'', PStr (edge_target e)),
      (''condition'', PStr (edge_condition e)), (''metadata'', PDict (edge_metadata e))]"

definition graph_to_dict :: "exec_graph \<Rightarrow> metadata" where
  "graph_to_dict g =
     [(''nodes'', PList (map node_to_dict (dict_values (graph_nodes g)))),
      (''edges'', PList (map edge_to_dict (graph_edges g)))]"

text \<open>
  Reading back. \<open>MissingKey\<close> is the \<^verbatim>\<open>KeyError\<close> of a subscript; \<open>BadShape\<close> stands for a payload
  whose fields have other types than the dataclasses declare, which the untyped source would store
  unchecked and the records of the model cannot hold.
\<close>

datatype load_error = MissingKey string | BadShape

definition str_or :: "metadata \<Rightarrow> string \<Rightarrow> string \<Rightarrow> load_error + string" where
  "str_or d k v = (case dict_get d k of None \<Rightarrow> Inr v | Some (PStr s) \<Rightarrow> Inr s | Some _ \<Rightarrow> Inl BadShape)"

definition str_req :: "metadata \<Rightarrow> string \<Rightarrow> load_error + string" where
  "str_req d k = (case dict_get d k of
     None \<Rightarrow> Inl (MissingKey k) | Some (PStr s) \<Rightarrow> Inr s | Some _ \<Rightarrow> Inl BadShape)"

definition dict_or :: "metadata \<Rightarrow> string \<Rightarrow> load_error + metadata" where
  "dict_or d k = (case dict_get d k of None \<Rightarrow> Inr [] | Some (PDict m) \<Rightarrow> Inr m | Some _ \<Rightarrow> Inl BadShape)"

definition list_or :: "metadata \<Rightarrow> string \<Rightarrow> load_error + pyval list" where
  "list_or d k = (case dict_get d k of None \<Rightarrow> Inr [] | Some (PList m) \<Rightarrow> Inr m | Some _ \<Rightarrow> Inl BadShape)"

definition enum_or_raw :: "(string \<Rightarrow> 'e option) \<Rightarrow> string \<Rightarrow> 'e enum_or_str" where
  "enum_or_raw parse s = (case parse s of None \<Rightarrow> RawStr s | Some e \<Rightarrow> EnumV e)"

fun node_from_dict :: "pyval \<Rightarrow> load_error + agent_node" where
  "node_from_dict (PDict nd) =
     bind_sum (str_or nd ''type'' ''task'') (\<lambda>ty.
     bind_sum (str_or nd ''status'' ''pending'') (\<lambda>st.
     bind_sum (str_req nd ''id'') (\<lambda>i.
     bind_sum (str_or nd ''name'' i) (\<lambda>nm.
     bind_sum (str_or nd ''runtime_capability'' ''chat'') (\<lambda>cap.
     bind_sum (dict_or nd ''metadata'') (\<lambda>md.
       Inr \<lparr>node_id = i, node_name = nm, node_type = enum_or_raw node_type_of ty,
            node_status = enum_or_raw node_status_of st, node_capability = cap,
            node_metadata = md\<rparr>))))))"
| "node_from_dict _ = Inl BadShape"

fun edge_from_dict :: "pyval \<Rightarrow> load_error + agent_edge" where
  "edge_from_dict (PDict ed) =
     bind_sum (str_req ed ''source'') (\<lambda>s.
     bind_sum (str_req ed ''target'') (\<lambda>t.
     bind_sum (str_or ed ''condition'' '''') (\<lambda>c.
     bind_sum (dict_or ed ''metadata'') (\<lambda>md.
       Inr \<lparr>edge_source = s, edge_target = t, edge_condition = c, edge_metadata = md\<rparr>))))"
| "edge_from_dict _ = Inl BadShape"

definition graph_from_dict :: "metadata \<Rightarrow> load_error + exec_graph" where
  "graph_from_dict data =
     bind_sum (list_or data ''nodes'') (\<lambda>nds.
     bind_sum (map_sum_list node_from_dict nds) (\<lambda>nodes.
     bind_sum (list_or data ''edges'') (\<lambda>eds.
     bind_sum (map_sum_list edge_from_dict eds) (\<lambda>edges.
       Inr (graph_init nodes edges)))))"

subsection \<open>What the validator decides\<close>

abbreviation edge_rel :: "(string, agent_node) dict \<Rightarrow> agent_edge list \<Rightarrow> (string \<times> string) set" where
  "edge_rel nodes edges \<equiv> arc_rel (dict_keys nodes) (map edge_arc edges)"

definition references_ok :: "(string, agent_node) dict \<Rightarrow> agent_edge list \<Rightarrow> bool" where
  "references_ok nodes edges \<longleftrightarrow>
     (\<forall>e \<in> set edges. edge_source e \<in> set (dict_keys nodes) \<and> edge_target e \<in> set (dict_keys nodes))"

definition wf_graph :: "exec_graph \<Rightarrow> bool" where
  "wf_graph g \<longleftrightarrow> keyed node_id (graph_nodes g) \<and> references_ok (graph_nodes g) (graph_edges g) \<and>
     acyclic (edge_rel (graph_nodes g) (graph_edges g))"

interpretation dag: arc_source "\<lambda>(nodes, edges). dict_keys nodes"
  "\<lambda>(nodes, edges). map edge_arc edges"
  "\<lambda>(nodes :: (string, agent_node) dict, edges :: agent_edge list). distinct (dict_keys nodes)"
  by unfold_locales auto

lemma fold_count: "fold (\<lambda>_. Suc) us k = k + length us"
  by (induction us arbitrary: k) auto

lemma fold_snoc: "fold (\<lambda>u ids. ids @ [u]) us xs = xs @ us"
  by (induction us arbitrary: xs) auto

lemma fold_const [simp]: "fold (\<lambda>_ x. x) us x = x"
  by (induction us) auto

lemma detect_cycles_result:
  "detect_cycles nodes edges =
     (if length (snd (kahn_result (dict_keys nodes) (map edge_arc edges))) \<noteq> length nodes
      then [CycleInvolving (map fst (filter (\<lambda>(nid, deg). deg > 0)
              (fst (kahn_result (dict_keys nodes) (map edge_arc edges)))))]
      else [])"
  by (simp add: detect_cycles_def kahn_result_def kahn_loop_run fold_count Let_def split: prod.splits)

lemma detect_cycles_Nil_iff:
  "distinct (dict_keys nodes) \<Longrightarrow> detect_cycles nodes edges = [] \<longleftrightarrow> acyclic (edge_rel nodes edges)"
  using dag.counts_all_iff[of "(nodes, edges)"] by (simp add: detect_cycles_result)

lemma check_invalid_references_Nil_iff:
  "check_invalid_references nodes edges = [] \<longleftrightarrow> references_ok nodes edges"
  by (induction edges) (auto simp: references_ok_def)

lemma topological_sort_result:
  "topological_sort g =
     (let us = snd (kahn_result (dict_keys (graph_nodes g)) (map edge_arc (graph_edges g)))
      in if length us \<noteq> length (graph_nodes g) then Inl SortCycleError
         else Inr (map (\<lambda>nid. the (dict_get (graph_nodes g) nid)) us))"
  by (simp add: topological_sort_def kahn_result_def kahn_loop_run fold_snoc Let_def split: prod.splits)

lemma map_id_lookup:
  assumes "keyed node_id d" and "set us \<subseteq> set (dict_keys d)"
  shows "map node_id (map (\<lambda>nid. the (dict_get d nid)) us) = us"
proof -
  have "node_id (the (dict_get d u)) = u" if "u \<in> set us" for u
    using that assms in_keys_get[of u d] keyed_get[OF assms(1), of u] by fastforce
  then show ?thesis by (simp add: map_idI)
qed

lemma topological_sort_ids:
  assumes "keyed node_id (graph_nodes g)" and "topological_sort g = Inr ns"
  shows "map node_id ns = snd (kahn_result (dict_keys (graph_nodes g)) (map edge_arc (graph_edges g)))"
  using assms kahn_distinct[OF keyed_distinct[OF assms(1)], of "map edge_arc (graph_edges g)"]
    map_id_lookup[OF assms(1)]
  by (auto simp: topological_sort_result Let_def split: if_splits)

lemma topological_sort_Inr_iff:
  "keyed node_id (graph_nodes g) \<Longrightarrow>
     (\<exists>ns. topological_sort g = Inr ns) \<longleftrightarrow> acyclic (edge_rel (graph_nodes g) (graph_edges g))"
  using dag.counts_all_iff[of "(graph_nodes g, graph_edges g)"]
  by (simp add: topological_sort_result Let_def keyed_distinct)

lemma set_cycle_report:
  assumes "distinct (dict_keys nodes)" and "detect_cycles nodes edges = [CycleInvolving ids]"
  shows "set ids = {v \<in> set (dict_keys nodes). \<exists>c. (c, c) \<in> (edge_rel nodes edges)\<^sup>+ \<and>
    (c, v) \<in> (edge_rel nodes edges)\<^sup>*}"
proof -
  let ?K = "kahn_result (dict_keys nodes) (map edge_arc edges)"
  have keys: "map fst (fst ?K) = dict_keys nodes"
    by (rule kahn_result_keys[OF assms(1)])
  have ids: "ids = map fst (filter (\<lambda>(nid, deg). deg > 0) (fst ?K))"
    using assms(2) by (simp add: detect_cycles_result split: if_splits)
  have "v \<in> set ids \<longleftrightarrow> v \<in> set (dict_keys nodes) \<and> degree (fst ?K) v > 0" for v
    unfolding ids using pos_degree_keys[of "fst ?K" v] keys assms(1) by simp
  then show ?thesis
    using dag.left_over_iff[of "(nodes, edges)"] assms(1) by auto
qed

end
