(* ===== verification/ExecutionGraph_Correct.thy ===== *)
theory ExecutionGraph_Correct
  imports ExecutionGraph
begin

text \<open>
  Correctness of the task DAG: the operations keep it a DAG over known nodes, the validator
  decides acyclicity and names the blocked nodes, the sort is a topological order, the levels of the
  plan are the longest-path layers, and serialisation round-trips.
\<close>

subsection \<open>The operations keep the graph well formed\<close>

datatype graph_op = AddNode agent_node | RemoveNode string | AddEdge agent_edge
  | RemoveEdge string string

fun apply_graph_op :: "graph_op \<Rightarrow> exec_graph \<Rightarrow> graph_error + exec_graph" where
  "apply_graph_op (AddNode n) g = add_node n g"
| "apply_graph_op (RemoveNode nid) g = remove_node nid g"
| "apply_graph_op (AddEdge e) g = add_edge e g"
| "apply_graph_op (RemoveEdge s t) g = remove_edge s t g"

text \<open>A client that catches the exceptions: a refused operation leaves the graph as it was.\<close>

fun run_graph_ops :: "graph_op list \<Rightarrow> exec_graph \<Rightarrow> exec_graph" where
  "run_graph_ops [] g = g"
| "run_graph_ops (c # cs) g =
     run_graph_ops cs (case apply_graph_op c g of Inl _ \<Rightarrow> g | Inr g' \<Rightarrow> g')"

named_theorems graph_wf "operations preserve the graph invariant"

lemma wf_graph_keyed: "wf_graph g \<Longrightarrow> keyed node_id (graph_nodes g)"
  by (simp add: wf_graph_def)

lemma wf_empty_graph [simp]: "wf_graph empty_graph"
  by (auto simp: wf_graph_def empty_graph_def references_ok_def arc_rel_def acyclic_def)

lemma edge_rel_eq:
  "references_ok nodes edges \<Longrightarrow> edge_rel nodes edges = edge_arc ` set edges"
  by (force simp: arc_rel_def references_ok_def)

lemma add_node_wf [graph_wf]: "wf_graph g \<Longrightarrow> add_node n g = Inr g' \<Longrightarrow> wf_graph g'"
  by (auto simp: wf_graph_def add_node_def keyed_set references_ok_def edge_rel_eq[unfolded references_ok_def]
      split: if_splits)

lemma remove_node_wf [graph_wf]: "wf_graph g \<Longrightarrow> remove_node nid g = Inr g' \<Longrightarrow> wf_graph g'"
  unfolding wf_graph_def remove_node_def
  by (auto simp: keyed_del references_ok_def split: if_splits elim!: acyclic_subset
      simp: arc_rel_def)

lemma add_edge_Inr:
  assumes "keyed node_id (graph_nodes g)"
  shows "add_edge e g = Inr g' \<longleftrightarrow> g' = g\<lparr>graph_edges := graph_edges g @ [e]\<rparr> \<and>
    references_ok (graph_nodes g) (graph_edges g @ [e]) \<and>
    acyclic (edge_rel (graph_nodes g) (graph_edges g @ [e]))"
  using assms
  by (auto simp: add_edge_def Let_def detect_cycles_Nil_iff[OF keyed_distinct]
      simp flip: check_invalid_references_Nil_iff)

lemma add_edge_wf [graph_wf]: "wf_graph g \<Longrightarrow> add_edge e g = Inr g' \<Longrightarrow> wf_graph g'"
  by (auto simp: wf_graph_def add_edge_Inr)

lemma remove_first_edge_subset:
  "remove_first_edge s t es = Some es' \<Longrightarrow> set es' \<subseteq> set es"
  by (induction es arbitrary: es') (auto split: if_splits)

lemma remove_edge_wf [graph_wf]: "wf_graph g \<Longrightarrow> remove_edge s t g = Inr g' \<Longrightarrow> wf_graph g'"
proof -
  assume wf: "wf_graph g" and "remove_edge s t g = Inr g'"
  then obtain es where es: "remove_first_edge s t (graph_edges g) = Some es"
    and g': "g' = g\<lparr>graph_edges := es\<rparr>"
    by (auto simp: remove_edge_def split: option.splits)
  have "set es \<subseteq> set (graph_edges g)" by (rule remove_first_edge_subset[OF es])
  then have "edge_rel (graph_nodes g) es \<subseteq> edge_rel (graph_nodes g) (graph_edges g)"
    by (auto simp: arc_rel_def)
  with wf g' \<open>set es \<subseteq> _\<close> show ?thesis
    by (auto simp: wf_graph_def references_ok_def intro: acyclic_subset)
qed

lemma apply_graph_op_wf: "wf_graph g \<Longrightarrow> apply_graph_op c g = Inr g' \<Longrightarrow> wf_graph g'"
  by (cases c) (auto intro: graph_wf)

text \<open>
  C2. Whatever sequence of node and edge operations a client performs on a new execution
  graph, refused operations included, every node stays stored under its own id, every edge
  joins two existing nodes and the edges form no cycle.
\<close>

theorem graph_ops_keep_dag: "wf_graph (run_graph_ops cs empty_graph)"
proof -
  have "wf_graph g \<Longrightarrow> wf_graph (run_graph_ops cs g)" for g
    by (induction cs arbitrary: g) (auto intro: apply_graph_op_wf split: sum.splits)
  then show ?thesis by simp
qed

text \<open>
  Adding an edge to a well-formed graph succeeds exactly when both ends exist and the
  target does not already reach the source, and then only appends the edge; otherwise it raises
  the reference error when an end is missing and the cycle error when the edge would close a cycle.
\<close>

lemma add_edge_decides:
  assumes "wf_graph g"
  shows "(if edge_source e \<notin> set (dict_keys (graph_nodes g)) \<or>
             edge_target e \<notin> set (dict_keys (graph_nodes g))
          then \<exists>errs. add_edge e g = Inl (InvalidReferences errs)
          else if (edge_target e, edge_source e) \<in> (edge_rel (graph_nodes g) (graph_edges g))\<^sup>*
          then \<exists>errs. add_edge e g = Inl (CycleError errs)
          else add_edge e g = Inr (g\<lparr>graph_edges := graph_edges g @ [e]\<rparr>))"
proof -
  let ?known = "edge_source e \<in> set (dict_keys (graph_nodes g)) \<and>
    edge_target e \<in> set (dict_keys (graph_nodes g))"
  have refs: "references_ok (graph_nodes g) (graph_edges g @ [e]) \<longleftrightarrow> ?known"
    using assms by (auto simp: wf_graph_def references_ok_def)
  have "edge_rel (graph_nodes g) (graph_edges g @ [e]) =
      insert (edge_arc e) (edge_rel (graph_nodes g) (graph_edges g))" if ?known
    using that by (auto simp: arc_rel_def)
  then have cyc: "acyclic (edge_rel (graph_nodes g) (graph_edges g @ [e])) \<longleftrightarrow>
      (edge_target e, edge_source e) \<notin> (edge_rel (graph_nodes g) (graph_edges g))\<^sup>*" if ?known
    using that assms by (simp add: acyclic_insert wf_graph_def)
  have keys: "distinct (dict_keys (graph_nodes g))"
    by (rule keyed_distinct[OF wf_graph_keyed[OF assms]])
  show ?thesis
    using refs cyc
    by (simp add: add_edge_def Let_def check_invalid_references_Nil_iff detect_cycles_Nil_iff[OF keys])
qed

text \<open>A graph with two nodes, used by the witnesses below.\<close>

definition task_node :: "string \<Rightarrow> agent_node" where
  "task_node i = \<lparr>node_id = i, node_name = i, node_type = EnumV Type_TASK,
     node_status = EnumV Node_PENDING, node_capability = ''chat'', node_metadata = []\<rparr>"

definition plain_edge :: "string \<Rightarrow> string \<Rightarrow> agent_edge" where
  "plain_edge s t = \<lparr>edge_source = s, edge_target = t, edge_condition = [], edge_metadata = []\<rparr>"

definition pair_graph :: exec_graph where
  "pair_graph = run_graph_ops [AddNode (task_node ''a''), AddNode (task_node ''b'')] empty_graph"

lemma pair_graph_nodes:
  "graph_nodes pair_graph = [(''a'', task_node ''a''), (''b'', task_node ''b'')]"
  "graph_edges pair_graph = []"
  by (simp_all add: pair_graph_def add_node_def empty_graph_def task_node_def)

lemma wf_pair_graph: "wf_graph pair_graph"
  by (auto simp: wf_graph_def pair_graph_nodes keyed_def task_node_def references_ok_def arc_rel_def
      acyclic_def)

lemma add_edge_decides_example:
  "add_edge (plain_edge ''a'' ''b'') pair_graph =
     Inr (pair_graph\<lparr>graph_edges := [plain_edge ''a'' ''b'']\<rparr>)"
  using add_edge_decides[OF wf_pair_graph, of "plain_edge ''a'' ''b''"]
  by (simp add: pair_graph_nodes plain_edge_def arc_rel_def)

subsection \<open>Cycle detection and topological sort\<close>

text \<open>
  The cycle check accepts exactly the acyclic graphs; otherwise it returns one message,
  and the nodes it names are precisely those that lie on a cycle or downstream of one.
\<close>

lemma detect_cycles_exact:
  assumes "distinct (dict_keys nodes)"
  shows "if acyclic (edge_rel nodes edges) then detect_cycles nodes edges = []
    else \<exists>ids. detect_cycles nodes edges = [CycleInvolving ids] \<and>
      set ids = {v \<in> set (dict_keys nodes). \<exists>c. (c, c) \<in> (edge_rel nodes edges)\<^sup>+ \<and>
        (c, v) \<in> (edge_rel nodes edges)\<^sup>*}"
proof (cases "acyclic (edge_rel nodes edges)")
  case True
  then show ?thesis using detect_cycles_Nil_iff[OF assms] by simp
next
  case False
  then have "detect_cycles nodes edges \<noteq> []" using detect_cycles_Nil_iff[OF assms] by simp
  then obtain ids where ids: "detect_cycles nodes edges = [CycleInvolving ids]"
    by (auto simp: detect_cycles_result split: if_splits)
  with set_cycle_report[OF assms ids] False show ?thesis by simp
qed

lemma detect_cycles_exact_example:
  "\<exists>ids. detect_cycles (graph_nodes pair_graph) [plain_edge ''a'' ''b'', plain_edge ''b'' ''a''] =
     [CycleInvolving ids] \<and> ''a'' \<in> set ids"
proof -
  let ?es = "[plain_edge ''a'' ''b'', plain_edge ''b'' ''a'']"
  let ?R = "edge_rel (graph_nodes pair_graph) ?es"
  have d: "distinct (dict_keys (graph_nodes pair_graph))" by (simp add: pair_graph_nodes)
  have "(''a'', ''b'') \<in> ?R" "(''b'', ''a'') \<in> ?R"
    by (auto simp: arc_rel_def pair_graph_nodes plain_edge_def)
  then have cyc: "(''a'', ''a'') \<in> ?R\<^sup>+" by auto
  then have "\<not> acyclic ?R" by (auto simp: acyclic_def)
  with detect_cycles_exact[OF d, of ?es] cyc show ?thesis
    by (auto simp: pair_graph_nodes)
qed

lemma mset_lookup_all:
  assumes "keyed node_id d" and "distinct us" and "set us = set (dict_keys d)"
  shows "mset (map (\<lambda>k. the (dict_get d k)) us) = mset (dict_values d)"
proof -
  have "mset us = mset (dict_keys d)"
    using assms by (metis keyed_distinct set_eq_iff_mset_eq_distinct)
  then have "mset (map (\<lambda>k. the (dict_get d k)) us) = mset (map (\<lambda>k. the (dict_get d k)) (dict_keys d))"
    by (metis mset_map)
  also have "map (\<lambda>k. the (dict_get d k)) (dict_keys d) = dict_values d"
    using keyed_distinct[OF assms(1)] by (auto simp: map_of_is_SomeI)
  finally show ?thesis .
qed

text \<open>
  On a graph whose nodes are stored under their ids, the topological sort of an acyclic
  graph returns every node exactly once with each node after all its predecessors; on a cyclic
  graph it raises the cycle error.
\<close>

lemma topological_sort_correct:
  assumes "keyed node_id (graph_nodes g)"
  shows "if acyclic (edge_rel (graph_nodes g) (graph_edges g))
    then \<exists>ns. topological_sort g = Inr ns \<and> mset ns = mset (list_nodes g) \<and>
      topo (edge_rel (graph_nodes g) (graph_edges g)) (map node_id ns)
    else topological_sort g = Inl SortCycleError"
proof (cases "acyclic (edge_rel (graph_nodes g) (graph_edges g))")
  case True
  let ?us = "snd (kahn_result (dict_keys (graph_nodes g)) (map edge_arc (graph_edges g)))"
  from True obtain ns where ns: "topological_sort g = Inr ns"
    using topological_sort_Inr_iff[OF assms] by blast
  have us: "distinct ?us" "set ?us = set (dict_keys (graph_nodes g))"
    using dag.order_permutes[of "(graph_nodes g, graph_edges g)"] True keyed_distinct[OF assms]
    by auto
  have "ns = map (\<lambda>k. the (dict_get (graph_nodes g) k)) ?us"
    using ns by (simp add: topological_sort_result Let_def split: if_splits)
  then have "mset ns = mset (list_nodes g)"
    using mset_lookup_all[OF assms us] by (simp add: list_nodes_def)
  moreover have "topo (edge_rel (graph_nodes g) (graph_edges g)) (map node_id ns)"
    using dag.order_sorted[of "(graph_nodes g, graph_edges g)"] keyed_distinct[OF assms]
      topological_sort_ids[OF assms ns] by simp
  ultimately show ?thesis using True ns by simp
next
  case False
  then have "\<nexists>ns. topological_sort g = Inr ns" using topological_sort_Inr_iff[OF assms] by simp
  then show ?thesis using False by (auto simp: topological_sort_result Let_def split: if_splits)
qed

lemma topological_sort_correct_example:
  "\<exists>ns. topological_sort pair_graph = Inr ns \<and> mset ns = mset (list_nodes pair_graph)"
proof -
  have "acyclic (edge_rel (graph_nodes pair_graph) (graph_edges pair_graph))"
    by (simp add: pair_graph_nodes arc_rel_def acyclic_def)
  then show ?thesis
    using topological_sort_correct[OF wf_graph_keyed[OF wf_pair_graph]] by auto
qed

subsection \<open>The levels of the plan\<close>

abbreviation level_in :: "(string, nat) dict \<Rightarrow> string \<Rightarrow> nat" where
  "level_in L v \<equiv> dict_get_default L v 0"

lemma fold_raise_level:
  assumes "u \<notin> set vs"
  shows "level_in (fold (raise_level u) vs L) v =
      (if v \<in> set vs then max (level_in L v) (level_in L u + 1) else level_in L v)"
    and "fst ` set (fold (raise_level u) vs L) = fst ` set L \<union> set vs"
    and "distinct (map fst L) \<Longrightarrow> distinct (map fst (fold (raise_level u) vs L))"
  using assms by (induction vs arbitrary: L) (auto simp: raise_level_def)

text \<open>
  After the vertices \<open>P\<close> have been popped: an edge out of \<open>P\<close> goes up by at least one, and every
  positive level comes from such an edge.
\<close>

definition level_inv :: "(string \<times> string) set \<Rightarrow> string set \<Rightarrow> string set \<Rightarrow> (string, nat) dict \<Rightarrow> bool" where
  "level_inv R roots P L \<longleftrightarrow>
     (\<forall>u \<in> P. \<forall>v. (u, v) \<in> R \<longrightarrow> level_in L u + 1 \<le> level_in L v) \<and>
     (\<forall>v. level_in L v = 0 \<or> (\<exists>u \<in> P. (u, v) \<in> R \<and> level_in L v = level_in L u + 1)) \<and>
     fst ` set L = roots \<union> {v. \<exists>u \<in> P. (u, v) \<in> R} \<and> distinct (map fst L)"

lemma level_inv_step:
  assumes inv: "level_inv R roots (set P) L" and topo: "topo R (P @ [u])" and u: "u \<notin> set P"
    and adj: "set vs = {v. (u, v) \<in> R}"
  shows "level_inv R roots (set (P @ [u])) (fold (raise_level u) vs L)"
proof -
  let ?L = "fold (raise_level u) vs L"
  have "\<And>w. (w, u) \<in> R \<Longrightarrow> w \<in> set P" using topo by (simp add: topo_snoc)
  then have self: "u \<notin> set vs" using u adj by auto
  have "w \<in> set P \<Longrightarrow> w \<notin> set vs" for w
    using topo_closed[of R P w u] topo u adj by (auto simp: topo_snoc)
  then have stable: "w = u \<or> w \<in> set P \<Longrightarrow> level_in ?L w = level_in L w" for w
    using fold_raise_level(1)[OF self, of L w] self by auto
  have up: "level_in L v \<le> level_in ?L v" for v
    using fold_raise_level(1)[OF self, of L v] by simp
  have "level_in ?L w + 1 \<le> level_in ?L v" if "w \<in> set (P @ [u])" "(w, v) \<in> R" for w v
  proof (cases "w = u")
    case True
    then show ?thesis
      using that adj stable[of u] fold_raise_level(1)[OF self, of L v] by auto
  next
    case False
    then have "level_in L w + 1 \<le> level_in L v"
      using that inv by (auto simp: level_inv_def)
    then show ?thesis using False that stable[of w] up[of v] by auto
  qed
  moreover have "level_in ?L v = 0 \<or>
      (\<exists>w \<in> set (P @ [u]). (w, v) \<in> R \<and> level_in ?L v = level_in ?L w + 1)" for v
  proof (cases "level_in ?L v = level_in L v")
    case True
    moreover have "level_in L v = 0 \<or> (\<exists>w \<in> set P. (w, v) \<in> R \<and> level_in L v = level_in L w + 1)"
      using inv by (auto simp: level_inv_def)
    ultimately show ?thesis using stable by force
  next
    case False
    then have "v \<in> set vs \<and> level_in ?L v = level_in L u + 1"
      using fold_raise_level(1)[OF self, of L v] by (auto split: if_splits simp: max_def)
    then show ?thesis using adj stable[of u] by auto
  qed
  moreover have "fst ` set ?L = roots \<union> {v. \<exists>w \<in> set (P @ [u]). (w, v) \<in> R}"
    using fold_raise_level(2)[OF self, of L] inv adj by (auto simp: level_inv_def)
  moreover have "distinct (map fst ?L)"
    using fold_raise_level(3)[OF self, of L] inv by (simp add: level_inv_def)
  ultimately show ?thesis unfolding level_inv_def by blast
qed

lemma level_inv_fold:
  assumes "level_inv R roots (set P) L" and "topo R (P @ us)" and "distinct (P @ us)"
    and "\<And>u. u \<in> set us \<Longrightarrow> set (adj u) = {v. (u, v) \<in> R}"
  shows "level_inv R roots (set (P @ us)) (fold (\<lambda>u L. fold (raise_level u) (adj u) L) us L)"
  using assms
proof (induction us arbitrary: P L)
  case Nil
  then show ?case by simp
next
  case (Cons u us)
  have "topo R (P @ [u])"
    using Cons.prems(2) by (induction us rule: rev_induct) (auto simp: topo_snoc simp flip: append_assoc
        append_Cons)
  then have "level_inv R roots (set (P @ [u])) (fold (raise_level u) (adj u) L)"
    using Cons.prems by (intro level_inv_step) auto
  from Cons.IH[OF this] Cons.prems show ?case by simp
qed


lemma fold_plan_arc:
  assumes "\<forall>(s, t) \<in> set E. s \<in> fst ` set D \<and> t \<in> fst ` set D"
    and "fst ` set A = fst ` set D"
    and "\<And>u. dict_get_default B u [] = dict_get_default A u []"
    and "fold plan_arc E (B, D) = (B', D')" and "fold add_arc E (A, D) = (A', D'')"
  shows "D' = D'' \<and> (\<forall>u. dict_get_default B' u [] = dict_get_default A' u [])"
  using assms
proof (induction E arbitrary: A B D)
  case Nil
  then show ?case by simp
next
  case (Cons e E)
  obtain s t where e: "e = (s, t)" by (cases e)
  have st: "s \<in> fst ` set D" "t \<in> fst ` set D" using Cons.prems(1) e by auto
  let ?A = "dict_set s (dict_get_default A s [] @ [t]) A"
  let ?B = "dict_set s (dict_get_default B s [] @ [t]) B"
  let ?D = "dict_set t (degree D t + 1) D"
  show ?case
  proof (rule Cons.IH)
    show "\<forall>(s, t) \<in> set E. s \<in> fst ` set ?D \<and> t \<in> fst ` set ?D" using Cons.prems(1) by auto
    show "fst ` set ?A = fst ` set ?D" using Cons.prems(2) st by auto
    show "dict_get_default ?B u [] = dict_get_default ?A u []" for u using Cons.prems(3) by simp
    show "fold plan_arc E (?B, ?D) = (B', D')" using Cons.prems(4) e st by simp
    show "fold add_arc E (?A, ?D) = (A', D'')" using Cons.prems(5) e st Cons.prems(2) by simp
  qed
qed

lemma level_map_run:
  assumes "references_ok (graph_nodes g) (graph_edges g)"
  shows "level_map g =
    (let (A, D) = build_arcs (dict_keys (graph_nodes g)) (map edge_arc (graph_edges g))
     in fold (\<lambda>u L. fold (raise_level u) (dict_get_default A u []) L)
          (snd (kahn_result (dict_keys (graph_nodes g)) (map edge_arc (graph_edges g))))
          (fold (\<lambda>nid L. dict_set nid 0 L) (zero_degree D) []))"
proof -
  let ?V = "dict_keys (graph_nodes g)" and ?E = "map edge_arc (graph_edges g)"
  obtain A D where b: "build_arcs ?V ?E = (A, D)" by (cases "build_arcs ?V ?E")
  obtain B D' where p: "fold plan_arc ?E ([], map (\<lambda>v. (v, 0)) ?V) = (B, D')"
    by (cases "fold plan_arc ?E ([], map (\<lambda>v. (v, 0)) ?V)")
  have "D' = D \<and> (\<forall>u. dict_get_default B u [] = dict_get_default A u [])"
  proof (rule fold_plan_arc[OF _ _ _ p b[unfolded build_arcs_def]])
    show "\<forall>(s, t) \<in> set ?E. s \<in> fst ` set (map (\<lambda>v. (v, 0)) ?V) \<and> t \<in> fst ` set (map (\<lambda>v. (v, 0)) ?V)"
      using assms by (force simp: references_ok_def)
    show "fst ` set (map (\<lambda>v. (v, [])) ?V) = fst ` set (map (\<lambda>v. (v, 0)) ?V)" by force
    show "dict_get_default [] u [] = dict_get_default (map (\<lambda>v. (v, [])) ?V) u []" for u
      by (simp add: dict_get_default_def map_of_map_pairs del: map_map)
  qed
  then have eq: "D' = D" and adj: "\<And>u. dict_get_default B u [] = dict_get_default A u []" by auto
  show ?thesis
    unfolding level_map_def p b kahn_result_def eq by (simp add: kahn_loop_run Let_def adj)
qed

lemma level_map_inv:
  assumes "wf_graph g"
  shows "level_inv (edge_rel (graph_nodes g) (graph_edges g))
    {v \<in> set (dict_keys (graph_nodes g)). \<nexists>u. (u, v) \<in> edge_rel (graph_nodes g) (graph_edges g)}
    (set (dict_keys (graph_nodes g))) (level_map g)"
proof -
  let ?V = "dict_keys (graph_nodes g)" and ?E = "map edge_arc (graph_edges g)"
  let ?R = "arc_rel ?V ?E" and ?us = "snd (kahn_result ?V ?E)"
  have d: "distinct ?V" by (rule keyed_distinct[OF wf_graph_keyed[OF assms]])
  obtain A D where b: "build_arcs ?V ?E = (A, D)" by (cases "build_arcs ?V ?E")
  note spec = build_arcs_spec[OF b]
  have us: "distinct ?us" "set ?us = set ?V"
    using dag.order_permutes[of "(graph_nodes g, graph_edges g)"] assms d by (auto simp: wf_graph_def)
  let ?L0 = "fold (\<lambda>nid L. dict_set nid (0::nat) L) (zero_degree D) []"
  have zero: "set (zero_degree D) = {v \<in> set ?V. \<nexists>u. (u, v) \<in> ?R}"
    using zero_degree_spec(2)[of D] spec(1,3) d
    by (auto simp: arcs_into_0 set_inner_arcs simp flip: set_map)
  have L0: "fst ` set (fold (\<lambda>nid L. dict_set nid (0::nat) L) Q L) = fst ` set L \<union> set Q"
    "level_in (fold (\<lambda>nid L. dict_set nid (0::nat) L) Q L) v = (if v \<in> set Q then 0 else level_in L v)"
    "distinct (map fst L) \<Longrightarrow> distinct (map fst (fold (\<lambda>nid L. dict_set nid (0::nat) L) Q L))" for Q L v
    by (induction Q arbitrary: L) auto
  have "level_inv ?R (set (zero_degree D)) (set []) ?L0"
    using L0(1,2)[of "zero_degree D" "[]"] L0(3)[of "[]" "zero_degree D"]
    by (auto simp: level_inv_def dict_get_default_def)
  from level_inv_fold[OF this, of ?us "\<lambda>u. dict_get_default A u []"]
  have "level_inv ?R (set (zero_degree D)) (set ?us)
      (fold (\<lambda>u L. fold (raise_level u) (dict_get_default A u []) L) ?us ?L0)"
    using us kahn_topo[OF d, of ?E] spec(2) by (simp add: set_succs set_inner_arcs)
  then show ?thesis
    using assms by (simp add: level_map_run wf_graph_def b zero us(2))
qed

lemma level_map_keys:
  assumes "wf_graph g"
  shows "fst ` set (level_map g) = set (dict_keys (graph_nodes g))"
    and "distinct (map fst (level_map g))"
  using level_map_inv[OF assms] by (auto simp: level_inv_def arc_rel_def)

text \<open>The rows of \<^const>\<open>collect_levels\<close>, before the empty ones are dropped.\<close>

definition level_row :: "(string, nat) dict \<Rightarrow> nat \<Rightarrow> string list" where
  "level_row L k = map fst (filter (\<lambda>(nid, l). l = k) L)"

lemma level_entry:
  assumes "distinct (map fst L)"
  shows "(v, k) \<in> set L \<longleftrightarrow> v \<in> fst ` set L \<and> level_in L v = k"
proof (cases "map_of L v")
  case None
  then have "v \<notin> fst ` set L" by (simp add: map_of_eq_None_iff)
  then show ?thesis by (metis fst_conv image_eqI)
next
  case (Some l)
  then have "v \<in> fst ` set L" using get_Some_key[OF Some] by simp
  with Some show ?thesis using in_set_get[OF assms, of v k] by (simp add: dict_get_default_def)
qed

lemma set_level_row:
  assumes "distinct (map fst L)"
  shows "set (level_row L k) = {v \<in> fst ` set L. level_in L v = k}"
proof -
  have "v \<in> set (level_row L k) \<longleftrightarrow> (v, k) \<in> set L" for v by (force simp: level_row_def)
  then show ?thesis using level_entry[OF assms] by blast
qed

lemma distinct_level_row: "distinct (map fst L) \<Longrightarrow> distinct (level_row L k)"
  by (auto simp: level_row_def intro: distinct_map_filter)

text \<open>When every positive level sits above a lower one, no row up to the maximum is empty.\<close>

lemma level_rows_dense:
  assumes "level_inv R roots P L" and "P \<subseteq> fst ` set L" and "v \<in> fst ` set L" "k \<le> level_in L v"
  shows "level_row L k \<noteq> []"
proof -
  have "\<exists>w \<in> fst ` set L. level_in L w = k"
    using assms(3,4)
  proof (induction "level_in L v - k" arbitrary: v)
    case 0
    then show ?case by (intro bexI[of _ v]) auto
  next
    case (Suc n)
    have "level_in L v = 0 \<or> (\<exists>u \<in> P. (u, v) \<in> R \<and> level_in L v = level_in L u + 1)"
      using assms(1) unfolding level_inv_def by blast
    with Suc.hyps(2) obtain u where u: "u \<in> P" "level_in L v = level_in L u + 1" by auto
    have "n = level_in L u - k" "k \<le> level_in L u" using Suc.hyps(2) u(2) by linarith+
    with Suc.hyps(1)[of u] u(1) assms(2) show ?case by blast
  qed
  moreover have "distinct (map fst L)" using assms(1) by (simp add: level_inv_def)
  ultimately show ?thesis using set_level_row[of L k] by force
qed

lemma level_le_max:
  assumes "distinct (map fst L)" and "v \<in> fst ` set L"
  shows "level_in L v \<le> Max (set (dict_values L))"
proof -
  have "(v, level_in L v) \<in> set L" using level_entry[OF assms(1)] assms(2) by blast
  then have "level_in L v \<in> set (dict_values L)" by (metis image_eqI set_map snd_conv)
  then show ?thesis by (rule Max_ge[rotated]) simp
qed

lemma max_level_attained:
  assumes "distinct (map fst L)" and "L \<noteq> []"
  shows "\<exists>v. v \<in> fst ` set L \<and> level_in L v = Max (set (dict_values L))"
proof -
  have "Max (set (dict_values L)) \<in> set (dict_values L)" using assms(2) by (intro Max_in) auto
  then obtain v where "(v, Max (set (dict_values L))) \<in> set L" by force
  then show ?thesis using level_entry[OF assms(1)] by blast
qed

lemma collect_levels_Nil [simp]: "collect_levels [] = []"
  by (simp add: collect_levels_def)

lemma collect_levels_rows:
  assumes "level_inv R roots P L" and "P \<subseteq> fst ` set L" and "L \<noteq> []"
  shows "collect_levels L = map (level_row L) [0..<Max (set (dict_values L)) + 1]"
proof -
  have d: "distinct (map fst L)" using assms(1) by (simp add: level_inv_def)
  obtain v where v: "v \<in> fst ` set L" "level_in L v = Max (set (dict_values L))"
    using max_level_attained[OF d assms(3)] by blast
  have "level_row L k \<noteq> []" if "k \<in> set [0..<Max (set (dict_values L)) + 1]" for k
    using level_rows_dense[OF assms(1,2) v(1), of k] that v(2) by (simp del: upt_Suc)
  then have "filter (\<lambda>ids. ids \<noteq> []) (map (level_row L) [0..<Max (set (dict_values L)) + 1]) =
      map (level_row L) [0..<Max (set (dict_values L)) + 1]"
    by (intro filter_True) auto
  then show ?thesis
    using assms(3) by (simp only: collect_levels_def Let_def level_row_def[abs_def] if_False)
qed

text \<open>The levels of the plan, by index: row \<open>k\<close> holds exactly the nodes of level \<open>k\<close>.\<close>

lemma plan_level_nth:
  assumes "wf_graph g"
  shows "k < length (collect_levels (level_map g)) \<Longrightarrow>
      set (collect_levels (level_map g) ! k) =
        {v \<in> set (dict_keys (graph_nodes g)). level_in (level_map g) v = k}"
    and "v \<in> set (dict_keys (graph_nodes g)) \<Longrightarrow>
      level_in (level_map g) v < length (collect_levels (level_map g))"
    and "distinct (concat (collect_levels (level_map g)))"
    and "[] \<notin> set (collect_levels (level_map g))"
proof -
  let ?L = "level_map g"
  note keys = level_map_keys[OF assms]
  have sub: "set (dict_keys (graph_nodes g)) \<subseteq> fst ` set ?L" using keys by simp
  note rows = collect_levels_rows[OF level_map_inv[OF assms] sub]
  show "k < length (collect_levels ?L) \<Longrightarrow> set (collect_levels ?L ! k) =
      {v \<in> set (dict_keys (graph_nodes g)). level_in ?L v = k}"
    using rows set_level_row[OF keys(2), of k] keys(1)
    by (cases "?L = []") (simp_all del: upt_Suc)
  show "v \<in> set (dict_keys (graph_nodes g)) \<Longrightarrow> level_in ?L v < length (collect_levels ?L)"
    using rows level_le_max[OF keys(2), of v] keys(1)
    by (cases "?L = []") (simp_all add: less_Suc_eq_le del: upt_Suc)
  have "distinct (concat (map (level_row ?L) ks))" if "distinct ks" for ks
    using that set_level_row[OF keys(2)] distinct_level_row[OF keys(2)]
    by (induction ks) auto
  then show "distinct (concat (collect_levels ?L))"
    using rows by (cases "?L = []") (simp_all del: upt_Suc)
  show "[] \<notin> set (collect_levels ?L)" by (simp add: collect_levels_def Let_def)
qed

text \<open>
  \<open>no_orphans\<close>: the graph has at most one node, no edge at all, or every node touches an edge.
\<close>

definition no_orphans :: "exec_graph \<Rightarrow> bool" where
  "no_orphans g \<longleftrightarrow> length (graph_nodes g) \<le> 1 \<or> graph_edges g = [] \<or>
     (\<forall>nid \<in> set (dict_keys (graph_nodes g)). \<exists>e \<in> set (graph_edges g).
        edge_source e = nid \<or> edge_target e = nid)"

lemma check_orphan_nodes_Nil_iff:
  "check_orphan_nodes (graph_nodes g) (graph_edges g) = [] \<longleftrightarrow> no_orphans g"
proof -
  have touch: "(\<exists>e \<in> set (graph_edges g). edge_source e = nid \<or> edge_target e = nid) \<longleftrightarrow>
      nid \<in> set (map edge_target (graph_edges g)) \<union> set (map edge_source (graph_edges g))" for nid
    by auto
  show ?thesis
    unfolding no_orphans_def touch by (simp add: check_orphan_nodes_def Let_def filter_empty_conv)
qed

lemma graph_validate_Nil_iff:
  "keyed node_id (graph_nodes g) \<Longrightarrow> graph_validate g = [] \<longleftrightarrow> wf_graph g \<and> no_orphans g"
  by (simp add: graph_validate_def validator_validate_def check_invalid_references_Nil_iff
      detect_cycles_Nil_iff keyed_distinct check_orphan_nodes_Nil_iff wf_graph_def)

lemma generate_plan_outcome:
  assumes "keyed node_id (graph_nodes g)"
  shows "if wf_graph g \<and> no_orphans g then \<exists>p. generate_plan g = Inr p
    else generate_plan g = Inl (ValidationError (graph_validate g)) \<and> graph_validate g \<noteq> []"
proof (cases "wf_graph g \<and> no_orphans g")
  case True
  then obtain ns where "topological_sort g = Inr ns"
    using topological_sort_Inr_iff[OF assms] by (auto simp: wf_graph_def)
  with True show ?thesis
    using graph_validate_Nil_iff[OF assms] by (simp add: generate_plan_def Let_def)
next
  case False
  then show ?thesis
    using graph_validate_Nil_iff[OF assms] by (auto simp add: generate_plan_def Let_def)
qed

text \<open>
  Planning a graph whose nodes are stored under their ids succeeds exactly when every
  edge joins existing nodes, the edges form no cycle, and no node is isolated while others are
  linked; in every other case it raises the validation error with the list of problems found.
\<close>

lemma generate_plan_decides:
  assumes "keyed node_id (graph_nodes g)"
  shows "if wf_graph g \<and> no_orphans g then \<exists>p. generate_plan g = Inr p
    else generate_plan g = Inl (ValidationError (graph_validate g)) \<and> graph_validate g \<noteq> []"
  by (rule generate_plan_outcome[OF assms])

lemma generate_plan_Inr:
  assumes "keyed node_id (graph_nodes g)" and "generate_plan g = Inr p"
  obtains ns where "wf_graph g" "topological_sort g = Inr ns" "execution_order p = map node_id ns"
    "plan_levels p = collect_levels (level_map g)" "plan_dependencies p = dependency_map g"
  using assms graph_validate_Nil_iff[OF assms(1)]
  by (auto simp: generate_plan_def Let_def split: if_splits sum.splits)

lemma plan_levels_layers:
  assumes "wf_graph g"
  defines "ls \<equiv> collect_levels (level_map g)"
  shows "set (concat ls) = set (dict_keys (graph_nodes g)) \<and>
    (\<forall>k < length ls. \<forall>v \<in> set (ls ! k).
       (\<forall>u. (u, v) \<in> edge_rel (graph_nodes g) (graph_edges g) \<longrightarrow> (\<exists>j < k. u \<in> set (ls ! j))) \<and>
       (k > 0 \<longrightarrow> (\<exists>u \<in> set (ls ! (k - 1)). (u, v) \<in> edge_rel (graph_nodes g) (graph_edges g))))"
proof -
  let ?V = "dict_keys (graph_nodes g)" and ?R = "edge_rel (graph_nodes g) (graph_edges g)"
  note row = plan_level_nth(1)[OF assms(1), folded ls_def]
    and below = plan_level_nth(2)[OF assms(1), folded ls_def]
  have inv: "level_inv ?R {v \<in> set ?V. \<nexists>u. (u, v) \<in> ?R} (set ?V) (level_map g)"
    by (rule level_map_inv[OF assms(1)])
  have "v \<in> set (concat ls) \<longleftrightarrow> v \<in> set ?V" for v
  proof
    assume "v \<in> set (concat ls)"
    then obtain k where "k < length ls" "v \<in> set (ls ! k)"
      by (auto simp: in_set_conv_nth[of _ "ls"])
    then show "v \<in> set ?V" using row by blast
  next
    assume "v \<in> set ?V"
    then have "v \<in> set (ls ! level_in (level_map g) v)" using row below by blast
    then show "v \<in> set (concat ls)"
      using below[OF \<open>v \<in> set ?V\<close>] by (auto intro: nth_mem)
  qed
  then have "set (concat ls) = set ?V" by blast
  moreover have "\<exists>j < k. u \<in> set (ls ! j)"
    if k: "k < length ls" "v \<in> set (ls ! k)" and uv: "(u, v) \<in> ?R" for k u v
  proof -
    have u: "u \<in> set ?V" using uv by (auto simp: arc_rel_def)
    have "level_in (level_map g) u + 1 \<le> level_in (level_map g) v"
      using inv u uv unfolding level_inv_def by blast
    then have "level_in (level_map g) u < k" using row[OF k(1)] k(2) by simp
    moreover have "u \<in> set (ls ! level_in (level_map g) u)"
      using row[OF below[OF u]] u by blast
    ultimately show ?thesis by blast
  qed
  moreover have "\<exists>u \<in> set (ls ! (k - 1)). (u, v) \<in> ?R"
    if k: "k < length ls" "v \<in> set (ls ! k)" "k > 0" for k v
  proof -
    have lv: "level_in (level_map g) v = k" using row[OF k(1)] k(2) by simp
    have "level_in (level_map g) v = 0 \<or>
        (\<exists>u \<in> set ?V. (u, v) \<in> ?R \<and> level_in (level_map g) v = level_in (level_map g) u + 1)"
      using inv unfolding level_inv_def by blast
    moreover have "level_in (level_map g) v \<noteq> 0" using lv k(3) by simp
    ultimately obtain u where u: "u \<in> set ?V" "(u, v) \<in> ?R"
      and "level_in (level_map g) v = level_in (level_map g) u + 1" by blast
    with lv have ku: "level_in (level_map g) u = k - 1" by simp
    have "u \<in> set (ls ! level_in (level_map g) u)" using row[OF below[OF u(1)]] u(1) by blast
    then have "u \<in> set (ls ! (k - 1))" unfolding ku .
    with u(2) show ?thesis by blast
  qed
  ultimately show ?thesis by blast
qed

text \<open>
  C1. A successful plan lists every node exactly once in an order that respects the edges, and
  partitions the nodes into non-empty levels such that all predecessors of a node sit in strictly
  lower levels and, above the first level, at least one sits in the level just below: the nodes of
  one level are independent and none could run earlier.
\<close>

theorem generate_plan_correct:
  assumes "keyed node_id (graph_nodes g)" and "generate_plan g = Inr p"
  shows "distinct (execution_order p) \<and> set (execution_order p) = set (dict_keys (graph_nodes g)) \<and>
    topo (edge_rel (graph_nodes g) (graph_edges g)) (execution_order p) \<and>
    distinct (concat (plan_levels p)) \<and> [] \<notin> set (plan_levels p) \<and>
    set (concat (plan_levels p)) = set (dict_keys (graph_nodes g)) \<and>
    (\<forall>k < length (plan_levels p). \<forall>v \<in> set (plan_levels p ! k).
       (\<forall>u. (u, v) \<in> edge_rel (graph_nodes g) (graph_edges g) \<longrightarrow> (\<exists>j < k. u \<in> set (plan_levels p ! j))) \<and>
       (k > 0 \<longrightarrow> (\<exists>u \<in> set (plan_levels p ! (k - 1)). (u, v) \<in> edge_rel (graph_nodes g) (graph_edges g))))"
proof -
  let ?V = "dict_keys (graph_nodes g)" and ?R = "edge_rel (graph_nodes g) (graph_edges g)"
  from generate_plan_Inr[OF assms] obtain ns where wf: "wf_graph g" and sort: "topological_sort g = Inr ns"
    and order: "execution_order p = map node_id ns" and levels: "plan_levels p = collect_levels (level_map g)" .
  have o: "execution_order p = snd (kahn_result ?V (map edge_arc (graph_edges g)))"
    using topological_sort_ids[OF assms(1) sort] order by simp
  have "distinct (execution_order p) \<and> set (execution_order p) = set ?V \<and> topo ?R (execution_order p)"
    unfolding o using dag.order_permutes[of "(graph_nodes g, graph_edges g)"]
      dag.order_sorted[of "(graph_nodes g, graph_edges g)"] keyed_distinct[OF assms(1)] wf
    by (simp add: wf_graph_def)
  with plan_levels_layers[OF wf] plan_level_nth(3,4)[OF wf] show ?thesis
    unfolding levels by blast
qed

text \<open>A chain of two nodes.\<close>

definition chain_graph :: exec_graph where
  "chain_graph = pair_graph\<lparr>graph_edges := [plain_edge ''a'' ''b'']\<rparr>"

lemma chain_graph_edges: "graph_edges chain_graph = [plain_edge ''a'' ''b'']"
  "graph_nodes chain_graph = [(''a'', task_node ''a''), (''b'', task_node ''b'')]"
  by (simp_all add: chain_graph_def pair_graph_nodes)

lemma chain_graph_ok: "wf_graph chain_graph \<and> no_orphans chain_graph"
proof -
  have "edge_rel (graph_nodes chain_graph) (graph_edges chain_graph) = {(''a'', ''b'')}"
    by (auto simp: arc_rel_def chain_graph_edges plain_edge_def)
  then have "acyclic (edge_rel (graph_nodes chain_graph) (graph_edges chain_graph))"
    by (simp add: acyclic_insert wf_acyclic)
  then show ?thesis
    by (simp add: wf_graph_def no_orphans_def chain_graph_edges keyed_def task_node_def references_ok_def
        plain_edge_def)
qed

lemma generate_plan_decides_example: "\<exists>p. generate_plan chain_graph = Inr p"
  using generate_plan_decides[OF wf_graph_keyed] chain_graph_ok by simp

lemma chain_graph_levels: "generate_plan chain_graph = Inr p \<Longrightarrow> plan_levels p = [[''a''], [''b'']]"
  by (simp add: generate_plan_def Let_def collect_levels_def level_map_def chain_graph_edges plain_edge_def
      degree_def dict_get_default_def zero_degree_def raise_level_def split: if_splits sum.splits) auto

theorem generate_plan_correct_witness:
  "\<exists>p. generate_plan chain_graph = Inr p \<and> plan_levels p = [[''a''], [''b'']] \<and>
     set (execution_order p) = {''a'', ''b''}"
proof -
  have k: "keyed node_id (graph_nodes chain_graph)" using chain_graph_ok wf_graph_keyed by blast
  obtain p where p: "generate_plan chain_graph = Inr p"
  proof -
    have "graph_validate chain_graph = []" using graph_validate_Nil_iff[OF k] chain_graph_ok by simp
    moreover obtain ns where "topological_sort chain_graph = Inr ns"
      using topological_sort_Inr_iff[OF k] chain_graph_ok by (auto simp: wf_graph_def)
    ultimately show ?thesis using that by (simp add: generate_plan_def Let_def)
  qed
  from generate_plan_correct[OF k p] chain_graph_levels[OF p] p show ?thesis
    by (auto simp: chain_graph_edges)
qed

subsection \<open>Serialisation round trip\<close>

text \<open>
  A field that can hold a member or a plain string survives the round trip when the string is
  not the spelling of a member: that spelling reads back as the member.
\<close>

definition canonical_field :: "(string \<Rightarrow> 'e option) \<Rightarrow> 'e enum_or_str \<Rightarrow> bool" where
  "canonical_field parse x = (case x of EnumV _ \<Rightarrow> True | RawStr s \<Rightarrow> parse s = None)"

definition canonical_node :: "agent_node \<Rightarrow> bool" where
  "canonical_node n \<longleftrightarrow> canonical_field node_type_of (node_type n) \<and>
     canonical_field node_status_of (node_status n)"

lemma node_type_parse [simp]: "node_type_of (node_type_value t) = Some t"
  by (cases t) (simp_all add: node_type_of_def)

lemma node_status_parse [simp]: "node_status_of (node_status_value t) = Some t"
  by (cases t) (simp_all add: node_status_of_def)

lemma node_roundtrip: "canonical_node n \<Longrightarrow> node_from_dict (node_to_dict n) = Inr n"
  by (cases "node_type n"; cases "node_status n")
    (simp_all add: canonical_node_def canonical_field_def node_to_dict_def str_or_def str_req_def dict_or_def
      bind_sum_def type_field_def status_field_def enum_or_raw_def)

lemma edge_roundtrip: "edge_from_dict (edge_to_dict e) = Inr e"
  by (simp add: edge_to_dict_def str_or_def str_req_def dict_or_def bind_sum_def)

lemma fold_dict_set_keyed:
  "keyed ident (d @ xs) \<Longrightarrow> fold (\<lambda>n d. dict_set (ident n) n d) (map snd xs) d = d @ xs"
proof (induction xs arbitrary: d)
  case Nil
  then show ?case by simp
next
  case (Cons x xs)
  obtain k n where x: "x = (k, n)" by (cases x)
  have k: "ident n = k" "k \<notin> fst ` set d" using Cons.prems x by (auto simp: keyed_def)
  then have "dict_set (ident n) n d = d @ [x]" using x by (simp add: dict_set_fresh)
  with Cons.IH[of "d @ [x]"] Cons.prems x show ?case by simp
qed

text \<open>
  C3. Serialising a graph and reading it back gives the same graph: same nodes in the same
  order, same edges, provided nodes are stored under their ids and their type and status are not
  plain strings that spell an enum member.
\<close>

theorem graph_dict_roundtrip:
  assumes "keyed node_id (graph_nodes g)" and "\<forall>n \<in> set (list_nodes g). canonical_node n"
  shows "graph_from_dict (graph_to_dict g) = Inr g"
proof -
  have n: "map_sum_list node_from_dict (map node_to_dict (dict_values (graph_nodes g))) =
      Inr (dict_values (graph_nodes g))"
    using assms(2) by (intro map_sum_list_inverse node_roundtrip) (auto simp: list_nodes_def)
  have e: "map_sum_list edge_from_dict (map edge_to_dict (graph_edges g)) = Inr (graph_edges g)"
    by (intro map_sum_list_inverse edge_roundtrip)
  have "fold (\<lambda>n d. dict_set (node_id n) n d) (dict_values (graph_nodes g)) [] = graph_nodes g"
    using fold_dict_set_keyed[of node_id "[]" "graph_nodes g"] assms(1) by simp
  with n e show ?thesis
    by (simp add: graph_from_dict_def graph_to_dict_def list_or_def bind_sum_def graph_init_def
        del: map_map)
qed

theorem graph_dict_roundtrip_witness: "graph_from_dict (graph_to_dict chain_graph) = Inr chain_graph"
proof (rule graph_dict_roundtrip)
  show "keyed node_id (graph_nodes chain_graph)" using chain_graph_ok wf_graph_keyed by blast
  show "\<forall>n \<in> set (list_nodes chain_graph). canonical_node n"
    by (simp add: list_nodes_def chain_graph_edges task_node_def canonical_node_def canonical_field_def)
qed

end
