(* ===== verification/TaskPlanner.thy ===== *)
theory TaskPlanner
  imports ExecutionGraph_Correct
begin

text \<open>
  The task planning engine, \<^verbatim>\<open>src/backend/agent/task_planner.py\<close>: validation of a task list, the
  four strategies, the translation into an execution graph and the plan with its duration
  estimate. A \<^verbatim>\<open>frozenset\<close> of dependencies is the list of its elements in iteration order; the
  source never relies on that order except to build the edge list, so every theorem is for an
  arbitrary order. The textual \<^verbatim>\<open>explain_plan\<close> is not modelled.
\<close>

subsection \<open>Data\<close>

datatype planning_strategy = SEQUENTIAL | BALANCED | PARALLEL | CONSERVATIVE

fun strategy_value :: "planning_strategy \<Rightarrow> string" where
  "strategy_value SEQUENTIAL = ''sequential''"
| "strategy_value BALANCED = ''balanced''"
| "strategy_value PARALLEL = ''parallel''"
| "strategy_value CONSERVATIVE = ''conservative''"

record task_mission =
  tm_id :: string
  tm_title :: string
  tm_description :: string
  tm_objective :: string
  tm_priority :: int
  tm_metadata :: metadata

record planned_task =
  task_id :: string
  task_title :: string
  task_description :: string
  task_complexity :: rat
  task_capability :: string
  task_deps :: "string list"
  task_parallelizable :: bool
  task_metadata :: metadata

record task_plan =
  tp_mission :: task_mission
  tp_tasks :: "planned_task list"
  tp_graph :: "exec_graph option"
  tp_strategy :: planning_strategy
  tp_duration :: rat
  tp_groups :: "string list list"
  tp_metadata :: metadata

record task_planner =
  pl_strategy :: planning_strategy
  pl_capabilities :: "string list option"

datatype task_issue =
    DuplicateTask string
  | BadComplexity string
  | UnknownDependency string string
  | TaskCycle "string list"
  | UnknownCapability string string

datatype planning_error = PlanningError "task_issue list" | PlanGraphError graph_error

subsection \<open>Validator\<close>

fun validate_tasks_from :: "string list \<Rightarrow> planned_task list \<Rightarrow> task_issue list" where
  "validate_tasks_from ids [] = []"
| "validate_tasks_from ids (t # ts) =
     (if task_id t \<in> set ids then [DuplicateTask (task_id t)] else []) @
     (let ids' = task_id t # ids in
      (if task_complexity t < 0 \<or> task_complexity t > 10 then [BadComplexity (task_id t)] else []) @
      map (\<lambda>d. UnknownDependency (task_id t) d) (filter (\<lambda>d. d \<notin> set ids') (task_deps t)) @
      validate_tasks_from ids' ts)"

definition validate_tasks :: "planned_task list \<Rightarrow> task_issue list" where
  "validate_tasks tasks = validate_tasks_from [] tasks"

text \<open>The dependency arcs in the order in which the nested loops visit them.\<close>

definition task_arcs :: "planned_task list \<Rightarrow> (string \<times> string) list" where
  "task_arcs tasks = concat (map (\<lambda>t. map (\<lambda>dep. (dep, task_id t)) (task_deps t)) tasks)"

definition validate_cycle_among_tasks :: "planned_task list \<Rightarrow> task_issue list" where
  "validate_cycle_among_tasks tasks =
     (let node_ids = remdups (map task_id tasks);
          (adj, in_degree) = build_arcs node_ids (task_arcs tasks);
          queue = zero_degree in_degree;
          (in_degree', visited) = kahn_loop (\<lambda>u. dict_get_default adj u [])
             (\<lambda>_ n. n + 1) (\<lambda>_ _ n. n) in_degree queue (0::nat)
      in if visited \<noteq> length node_ids
         then [TaskCycle (map fst (filter (\<lambda>(nid, deg). deg > 0) in_degree'))]
         else [])"

definition validate_capabilities :: "planned_task list \<Rightarrow> string list option \<Rightarrow> task_issue list" where
  "validate_capabilities tasks available = (case available of None \<Rightarrow> []
     | Some caps \<Rightarrow> map (\<lambda>t. UnknownCapability (task_id t) (task_capability t))
          (filter (\<lambda>t. task_capability t \<notin> set caps) tasks))"

definition validate_plan :: "planned_task list \<Rightarrow> string list option \<Rightarrow> task_issue list" where
  "validate_plan tasks available =
     validate_tasks tasks @ validate_cycle_among_tasks tasks @ validate_capabilities tasks available"

subsection \<open>Strategies\<close>

definition make_sequential :: "planned_task list \<Rightarrow> planned_task list" where
  "make_sequential tasks =
     map (\<lambda>(i, t). t\<lparr>task_deps := (if i > 0 then [task_id (tasks ! (i - 1))] else [])\<rparr>)
       (enumerate 0 tasks)"

fun make_conservative_from :: "string list \<Rightarrow> planned_task list \<Rightarrow> planned_task list" where
  "make_conservative_from all_previous [] = []"
| "make_conservative_from all_previous (t # ts) =
     (let merged = filter (\<lambda>d. d \<noteq> task_id t) (remdups (task_deps t @ all_previous))
      in t\<lparr>task_deps := merged\<rparr> #
         make_conservative_from (List.insert (task_id t) all_previous) ts)"

definition make_conservative :: "planned_task list \<Rightarrow> planned_task list" where
  "make_conservative tasks = make_conservative_from [] tasks"

fun apply_strategy :: "planning_strategy \<Rightarrow> planned_task list \<Rightarrow> planned_task list" where
  "apply_strategy SEQUENTIAL tasks = make_sequential tasks"
| "apply_strategy CONSERVATIVE tasks = make_conservative tasks"
| "apply_strategy BALANCED tasks = tasks"
| "apply_strategy PARALLEL tasks = tasks"

subsection \<open>Graph and plan\<close>

definition task_to_node :: "planned_task \<Rightarrow> agent_node" where
  "task_to_node t =
     \<lparr>node_id = task_id t, node_name = take 200 (task_title t),
      node_type = EnumV (if task_parallelizable t then Type_PARALLEL else Type_TASK),
      node_status = EnumV Node_PENDING, node_capability = task_capability t,
      node_metadata = [(''description'', PStr (task_description t)),
                       (''estimated_complexity'', PFloat (task_complexity t)),
                       (''original_deps'', PList (map PStr (sort (task_deps t))))]\<rparr>"

fun add_task_nodes :: "planned_task list \<Rightarrow> exec_graph \<Rightarrow> graph_error + exec_graph" where
  "add_task_nodes [] g = Inr g"
| "add_task_nodes (t # ts) g = bind_sum (add_node (task_to_node t) g) (add_task_nodes ts)"

text \<open>An edge that is refused is skipped: the source catches every exception here.\<close>

definition try_add_edge :: "string \<times> string \<Rightarrow> exec_graph \<Rightarrow> exec_graph" where
  "try_add_edge arc g =
     (case add_edge \<lparr>edge_source = fst arc, edge_target = snd arc, edge_condition = [], edge_metadata = []\<rparr> g
      of Inl _ \<Rightarrow> g | Inr g' \<Rightarrow> g')"

definition tasks_to_graph :: "planned_task list \<Rightarrow> graph_error + exec_graph" where
  "tasks_to_graph tasks =
     bind_sum (add_task_nodes tasks empty_graph) (\<lambda>g. Inr (fold try_add_edge (task_arcs tasks) g))"

definition complexity_of :: "planned_task list \<Rightarrow> string \<Rightarrow> rat option" where
  "complexity_of tasks nid = map_option task_complexity (List.find (\<lambda>t. task_id t = nid) tasks)"

definition level_complexity :: "planned_task list \<Rightarrow> string list \<Rightarrow> rat" where
  "level_complexity tasks level =
     fold (\<lambda>nid max_c. case complexity_of tasks nid of None \<Rightarrow> max_c | Some c \<Rightarrow> max max_c c) level 0"

definition estimate_duration :: "planned_task list \<Rightarrow> graph_plan \<Rightarrow> rat" where
  "estimate_duration tasks g_plan =
     (if plan_levels g_plan = [] then sum_list (map task_complexity tasks)
      else fold (\<lambda>level total. total + level_complexity tasks level) (plan_levels g_plan) 0)"

definition set_strategy :: "planning_strategy \<Rightarrow> task_planner \<Rightarrow> task_planner" where
  "set_strategy s pl = pl\<lparr>pl_strategy := s\<rparr>"

definition create_plan :: "time \<Rightarrow> task_planner \<Rightarrow> task_mission \<Rightarrow> planned_task list
    \<Rightarrow> planning_error + task_plan" where
  "create_plan now pl mission tasks =
     (let errors = validate_plan tasks (pl_capabilities pl)
      in if errors \<noteq> [] then Inl (PlanningError errors)
         else let optimised = apply_strategy (pl_strategy pl) tasks
              in case tasks_to_graph optimised of
                   Inl e \<Rightarrow> Inl (PlanGraphError e)
                 | Inr graph \<Rightarrow>
                    (case generate_plan graph of
                       Inl e \<Rightarrow> Inl (PlanGraphError e)
                     | Inr g_plan \<Rightarrow>
                        Inr \<lparr>tp_mission = mission, tp_tasks = optimised, tp_graph = Some graph,
                             tp_strategy = pl_strategy pl,
                             tp_duration = estimate_duration optimised g_plan,
                             tp_groups = plan_levels g_plan,
                             tp_metadata = [(''created_at'', PFloat now),
                                (''strategy'', PStr (strategy_value (pl_strategy pl))),
                                (''task_count'', PInt (int (length optimised)))]\<rparr>))"

definition optimize_plan :: "time \<Rightarrow> task_planner \<Rightarrow> task_plan \<Rightarrow> planning_error + task_plan" where
  "optimize_plan now pl plan = create_plan now pl (tp_mission plan) (tp_tasks plan)"

definition to_execution_graph :: "task_planner \<Rightarrow> planned_task list \<Rightarrow> planning_error + exec_graph" where
  "to_execution_graph pl tasks =
     (let errors = validate_plan tasks (pl_capabilities pl)
      in if errors \<noteq> [] then Inl (PlanningError errors)
         else case tasks_to_graph tasks of Inl e \<Rightarrow> Inl (PlanGraphError e) | Inr g \<Rightarrow> Inr g)"

subsection \<open>What the validator accepts\<close>

text \<open>
  A task list in dependency order: distinct ids, and every dependency is the id of a task that
  stands earlier in the list.
\<close>

definition ordered_tasks :: "planned_task list \<Rightarrow> bool" where
  "ordered_tasks ts \<longleftrightarrow> distinct (map task_id ts) \<and>
     (\<forall>xs t ys. ts = xs @ t # ys \<longrightarrow> set (task_deps t) \<subseteq> task_id ` set xs)"

definition valid_complexity :: "planned_task \<Rightarrow> bool" where
  "valid_complexity t \<longleftrightarrow> 0 \<le> task_complexity t \<and> task_complexity t \<le> 10"

interpretation tasks: arc_source "\<lambda>ts. remdups (map task_id ts)" task_arcs "\<lambda>ts. True"
  by unfold_locales simp

abbreviation task_rel :: "planned_task list \<Rightarrow> (string \<times> string) set" where
  "task_rel ts \<equiv> arc_rel (remdups (map task_id ts)) (task_arcs ts)"

lemma validate_cycle_Nil_iff: "validate_cycle_among_tasks ts = [] \<longleftrightarrow> acyclic (task_rel ts)"
proof -
  have "validate_cycle_among_tasks ts = [] \<longleftrightarrow>
      length (snd (kahn_result (remdups (map task_id ts)) (task_arcs ts))) = length (remdups (map task_id ts))"
    by (simp add: validate_cycle_among_tasks_def kahn_result_def kahn_loop_run fold_count Let_def
        split: prod.splits)
  then show ?thesis using tasks.counts_all_iff[OF TrueI, of ts] by simp
qed

lemma validate_tasks_from_Nil_iff:
  "validate_tasks_from ids ts = [] \<longleftrightarrow> distinct (map task_id ts) \<and> set (map task_id ts) \<inter> set ids = {} \<and>
     (\<forall>t \<in> set ts. valid_complexity t) \<and>
     (\<forall>xs t ys. ts = xs @ t # ys \<longrightarrow> set (task_deps t) \<subseteq> insert (task_id t) (task_id ` set xs \<union> set ids))"
proof (induction ts arbitrary: ids)
  case Nil
  then show ?case by simp
next
  case (Cons a ts)
  have "(\<forall>xs t ys. a # ts = xs @ t # ys \<longrightarrow> set (task_deps t) \<subseteq> insert (task_id t) (task_id ` set xs \<union> set ids)) \<longleftrightarrow>
      set (task_deps a) \<subseteq> insert (task_id a) (set ids) \<and>
      (\<forall>xs t ys. ts = xs @ t # ys \<longrightarrow>
         set (task_deps t) \<subseteq> insert (task_id t) (task_id ` set xs \<union> set (task_id a # ids)))"
    (is "?all \<longleftrightarrow> ?hd \<and> ?tl")
  proof
    assume all: ?all
    have ?hd using all[rule_format, of "[]" a ts] by simp
    moreover have ?tl using all[rule_format, of "a # _"] by fastforce
    ultimately show "?hd \<and> ?tl" by blast
  next
    assume r: "?hd \<and> ?tl"
    show ?all
    proof (intro allI impI)
      fix xs t ys assume "a # ts = xs @ t # ys"
      with r show "set (task_deps t) \<subseteq> insert (task_id t) (task_id ` set xs \<union> set ids)"
        by (cases xs) auto
    qed
  qed
  then show ?case
    by (auto simp: Cons.IH valid_complexity_def filter_empty_conv Let_def)
qed

end
