(* ===== verification/TaskPlanner_Correct.thy ===== *)
theory TaskPlanner_Correct
  imports TaskPlanner
begin

text \<open>
  Correctness of the planner: what the validator accepts, that no declared dependency is lost on
  the way to the graph, when planning succeeds under each strategy, and the shape of the result.
\<close>

subsection \<open>Validation\<close>

lemma set_task_arcs: "(u, v) \<in> set (task_arcs ts) \<longleftrightarrow> (\<exists>t \<in> set ts. v = task_id t \<and> u \<in> set (task_deps t))"
  by (auto simp: task_arcs_def)

lemma ordered_tasks_deps:
  "ordered_tasks ts \<Longrightarrow> t \<in> set ts \<Longrightarrow> set (task_deps t) \<subseteq> task_id ` set ts"
proof -
  assume o: "ordered_tasks ts" and "t \<in> set ts"
  then obtain xs ys where ts: "ts = xs @ t # ys" by (meson split_list)
  with o have "set (task_deps t) \<subseteq> task_id ` set xs" unfolding ordered_tasks_def by blast
  also have "\<dots> \<subseteq> task_id ` set ts" using ts by auto
  finally show ?thesis .
qed

lemma task_arcs_ids:
  assumes "ordered_tasks ts" and "(u, v) \<in> set (task_arcs ts)"
  shows "u \<in> task_id ` set ts" and "v \<in> task_id ` set ts"
  using assms ordered_tasks_deps[OF assms(1)] unfolding set_task_arcs by blast+

lemma task_rel_eq: "ordered_tasks ts \<Longrightarrow> task_rel ts = set (task_arcs ts)"
  by (auto simp: arc_rel_def task_arcs_ids)

lemma ordered_topo:
  assumes "ordered_tasks ts"
  shows "topo (set (task_arcs ts)) (map task_id ts)"
  unfolding topo_def
proof (intro allI impI)
  fix xs v ys u
  assume eq: "map task_id ts = xs @ v # ys" and arc: "(u, v) \<in> set (task_arcs ts)"
  then obtain as t bs where ts: "ts = as @ t # bs" "map task_id as = xs" "task_id t = v"
    by (auto simp: map_eq_append_conv map_eq_Cons_conv)
  obtain t' where t': "t' \<in> set ts" "v = task_id t'" "u \<in> set (task_deps t')"
    using arc by (auto simp: set_task_arcs)
  have "t' = t"
    using assms t' ts by (auto simp: ordered_tasks_def distinct_map inj_on_def)
  with t'(3) ts assms have "u \<in> task_id ` set as" unfolding ordered_tasks_def by blast
  with ts(2) show "u \<in> set xs" by auto
qed

lemma ordered_acyclic: "ordered_tasks ts \<Longrightarrow> acyclic (task_rel ts)"
  unfolding task_rel_eq
  by (rule topo_acyclic[OF ordered_topo]) (auto simp: task_arcs_ids ordered_tasks_def)

lemma self_dependency_cycle:
  "t \<in> set ts \<Longrightarrow> task_id t \<in> set (task_deps t) \<Longrightarrow> \<not> acyclic (task_rel ts)"
proof -
  assume "t \<in> set ts" "task_id t \<in> set (task_deps t)"
  then have "(task_id t, task_id t) \<in> task_rel ts"
    unfolding arc_rel_def using set_task_arcs[of "task_id t" "task_id t" ts] by auto
  then show ?thesis by (auto simp: acyclic_def)
qed

lemma validate_plan_accepted:
  "validate_plan ts available = [] \<longleftrightarrow> ordered_tasks ts \<and> (\<forall>t \<in> set ts. valid_complexity t) \<and>
     (case available of None \<Rightarrow> True | Some caps \<Rightarrow> task_capability ` set ts \<subseteq> set caps)"
proof -
  have caps: "validate_capabilities ts available = [] \<longleftrightarrow>
      (case available of None \<Rightarrow> True | Some caps \<Rightarrow> task_capability ` set ts \<subseteq> set caps)"
    by (auto simp: validate_capabilities_def filter_empty_conv split: option.splits)
  have "ordered_tasks ts \<longleftrightarrow> distinct (map task_id ts) \<and> acyclic (task_rel ts) \<and>
      (\<forall>xs t ys. ts = xs @ t # ys \<longrightarrow> set (task_deps t) \<subseteq> insert (task_id t) (task_id ` set xs))"
    (is "_ \<longleftrightarrow> ?r")
  proof
    assume o: "ordered_tasks ts"
    show ?r using ordered_acyclic[OF o] o unfolding ordered_tasks_def by blast
  next
    assume r: ?r
    have "task_id t \<notin> set (task_deps t)" if "t \<in> set ts" for t
      using self_dependency_cycle[OF that] r by blast
    then show "ordered_tasks ts" using r unfolding ordered_tasks_def by (metis in_set_conv_decomp subset_insert)
  qed
  then show ?thesis
    using caps by (auto simp: validate_plan_def validate_tasks_def validate_tasks_from_Nil_iff
        validate_cycle_Nil_iff)
qed

text \<open>
  The validator accepts a task list exactly when the ids are distinct, every complexity lies
  between 0 and 10, every required capability is available, and every dependency names a task that
  stands strictly earlier in the list: a list that is acyclic but not already sorted is rejected.
\<close>

lemma validate_plan_accepts:
  "validate_plan ts available = [] \<longleftrightarrow> ordered_tasks ts \<and> (\<forall>t \<in> set ts. valid_complexity t) \<and>
     (case available of None \<Rightarrow> True | Some caps \<Rightarrow> task_capability ` set ts \<subseteq> set caps)"
  by (rule validate_plan_accepted)

subsection \<open>From tasks to the graph\<close>

abbreviation arc_edge :: "string \<times> string \<Rightarrow> agent_edge" where
  "arc_edge a \<equiv> \<lparr>edge_source = fst a, edge_target = snd a, edge_condition = [], edge_metadata = []\<rparr>"

lemma task_to_node_id [simp]: "node_id (task_to_node t) = task_id t"
  by (simp add: task_to_node_def)

lemma add_task_nodes_fresh:
  assumes "distinct (map task_id ts)" and "task_id ` set ts \<inter> fst ` set (graph_nodes g) = {}"
  shows "add_task_nodes ts g =
    Inr (g\<lparr>graph_nodes := graph_nodes g @ map (\<lambda>t. (task_id t, task_to_node t)) ts\<rparr>)"
  using assms
proof (induction ts arbitrary: g)
  case Nil
  then show ?case by simp
next
  case (Cons t ts)
  have "add_node (task_to_node t) g = Inr (g\<lparr>graph_nodes := graph_nodes g @ [(task_id t, task_to_node t)]\<rparr>)"
    using Cons.prems by (auto simp: add_node_def dict_set_fresh)
  with Cons show ?case by (auto simp: bind_sum_def)
qed

lemma fold_try_add_edge:
  assumes "keyed node_id (graph_nodes g)"
    and "references_ok (graph_nodes g) (graph_edges g @ map arc_edge as)"
    and "acyclic (edge_rel (graph_nodes g) (graph_edges g @ map arc_edge as))"
  shows "fold try_add_edge as g = g\<lparr>graph_edges := graph_edges g @ map arc_edge as\<rparr>"
  using assms
proof (induction as arbitrary: g)
  case Nil
  then show ?case by simp
next
  case (Cons a as)
  let ?g = "g\<lparr>graph_edges := graph_edges g @ [arc_edge a]\<rparr>"
  have "references_ok (graph_nodes g) (graph_edges g @ [arc_edge a])"
    using Cons.prems(2) by (simp add: references_ok_def)
  moreover have "acyclic (edge_rel (graph_nodes g) (graph_edges g @ [arc_edge a]))"
    by (rule acyclic_subset[OF Cons.prems(3)]) (auto simp: arc_rel_def)
  ultimately have "add_edge (arc_edge a) g = Inr ?g"
    using add_edge_Inr[OF Cons.prems(1)] by blast
  with Cons.IH[of ?g] Cons.prems show ?case by (simp add: try_add_edge_def)
qed

definition task_graph :: "planned_task list \<Rightarrow> exec_graph" where
  "task_graph ts = \<lparr>graph_nodes = map (\<lambda>t. (task_id t, task_to_node t)) ts,
     graph_edges = map arc_edge (task_arcs ts)\<rparr>"

lemma task_graph_keys [simp]: "dict_keys (graph_nodes (task_graph ts)) = map task_id ts"
  by (simp add: task_graph_def)

lemma edge_arc_inverse [simp]: "map edge_arc (map arc_edge as) = as"
  by (induction as) auto

lemma task_graph_rel:
  assumes "ordered_tasks ts"
  shows "edge_rel (graph_nodes (task_graph ts)) (graph_edges (task_graph ts)) = set (task_arcs ts)"
proof -
  have "arc_rel (map task_id ts) (task_arcs ts) = task_rel ts" by (simp add: arc_rel_def)
  then show ?thesis using task_rel_eq[OF assms] unfolding task_graph_keys
    by (simp add: task_graph_def del: map_map)
qed

lemma task_graph_wf: "ordered_tasks ts \<Longrightarrow> wf_graph (task_graph ts)"
proof -
  assume o: "ordered_tasks ts"
  then have "distinct (map task_id ts)" by (simp add: ordered_tasks_def)
  then have "keyed node_id (graph_nodes (task_graph ts))"
    by (auto simp: keyed_def task_graph_def comp_def)
  moreover have "references_ok (graph_nodes (task_graph ts)) (graph_edges (task_graph ts))"
    using task_arcs_ids[OF o] unfolding references_ok_def task_graph_keys
    by (auto simp: task_graph_def)
  moreover have "acyclic (set (task_arcs ts))" using ordered_acyclic[OF o] task_rel_eq[OF o] by simp
  ultimately show ?thesis using task_graph_rel[OF o] by (simp add: wf_graph_def)
qed

lemma tasks_to_graph_result:
  assumes "ordered_tasks ts"
  shows "tasks_to_graph ts = Inr (task_graph ts)"
proof -
  let ?g = "empty_graph\<lparr>graph_nodes := map (\<lambda>t. (task_id t, task_to_node t)) ts\<rparr>"
  have d: "distinct (map task_id ts)" using assms by (simp add: ordered_tasks_def)
  have "add_task_nodes ts empty_graph = Inr ?g"
    using add_task_nodes_fresh[OF d, of empty_graph] by (simp add: empty_graph_def)
  moreover have "fold try_add_edge (task_arcs ts) ?g = ?g\<lparr>graph_edges := map arc_edge (task_arcs ts)\<rparr>"
    using fold_try_add_edge[of ?g "task_arcs ts"] task_graph_wf[OF assms]
    by (simp add: wf_graph_def task_graph_def empty_graph_def del: map_map)
  ultimately show ?thesis by (simp add: tasks_to_graph_def bind_sum_def empty_graph_def task_graph_def)
qed

text \<open>
  Translating an accepted task list never fails and never drops a dependency: the graph has
  one node per task in list order and exactly one edge per declared dependency, although refused
  edges would be skipped silently.
\<close>

lemma tasks_to_graph_complete:
  assumes "ordered_tasks ts"
  shows "tasks_to_graph ts = Inr \<lparr>graph_nodes = map (\<lambda>t. (task_id t, task_to_node t)) ts,
    graph_edges = map arc_edge (task_arcs ts)\<rparr>"
  using tasks_to_graph_result[OF assms] by (simp add: task_graph_def)

subsection \<open>Strategies\<close>

lemma ordered_tasks_nth:
  "ordered_tasks ts \<longleftrightarrow> distinct (map task_id ts) \<and>
     (\<forall>i < length ts. set (task_deps (ts ! i)) \<subseteq> task_id ` set (take i ts))"
proof -
  have "(\<forall>xs t ys. ts = xs @ t # ys \<longrightarrow> set (task_deps t) \<subseteq> task_id ` set xs) \<longleftrightarrow>
      (\<forall>i < length ts. set (task_deps (ts ! i)) \<subseteq> task_id ` set (take i ts))"
    (is "?split \<longleftrightarrow> ?nth")
  proof
    assume ?split
    then show ?nth using id_take_nth_drop by blast
  next
    assume n: ?nth
    show ?split
    proof (intro allI impI)
      fix xs t ys assume "ts = xs @ t # ys"
      then show "set (task_deps t) \<subseteq> task_id ` set xs"
        using n[rule_format, of "length xs"] by simp
    qed
  qed
  then show ?thesis by (simp add: ordered_tasks_def)
qed

lemma ids_take: "i \<le> length ts \<Longrightarrow> u \<in> task_id ` set (take i ts) \<longleftrightarrow> (\<exists>j < i. u = task_id (ts ! j))"
  by (force simp: nth_image[symmetric])

lemma make_sequential_simps [simp]:
  "length (make_sequential ts) = length ts"
  "i < length ts \<Longrightarrow> make_sequential ts ! i =
     (ts ! i)\<lparr>task_deps := (if i > 0 then [task_id (ts ! (i - 1))] else [])\<rparr>"
  by (simp_all add: make_sequential_def nth_enumerate_eq)

lemma make_conservative_from_simps:
  "length (make_conservative_from prev ts) = length ts"
  "i < length ts \<Longrightarrow> \<exists>deps. make_conservative_from prev ts ! i = (ts ! i)\<lparr>task_deps := deps\<rparr> \<and>
     set deps = (set (task_deps (ts ! i)) \<union> set prev \<union> task_id ` set (take i ts)) - {task_id (ts ! i)}"
proof (induction ts arbitrary: prev i)
  case Nil
  {
    case 1
    then show ?case by simp
  next
    case 2
    then show ?case by simp
  }
next
  case (Cons t ts)
  {
    case 1
    then show ?case using Cons.IH(1) by (simp add: Let_def)
  next
    case 2
    then show ?case
      using Cons.IH(2)[of "i - 1" "List.insert (task_id t) prev"]
      by (cases i) (auto simp: Let_def intro!: exI[of _ "filter (\<lambda>d. d \<noteq> task_id t) (remdups (task_deps t @ prev))"])
  }
qed

text \<open>A chain: a list in dependency order in which every task depends on the one before it.\<close>

definition chain_tasks :: "planned_task list \<Rightarrow> bool" where
  "chain_tasks ts \<longleftrightarrow> ordered_tasks ts \<and>
     (\<forall>i. Suc i < length ts \<longrightarrow> task_id (ts ! i) \<in> set (task_deps (ts ! Suc i)))"

text \<open>The strategies touch nothing but the dependencies.\<close>

definition same_tasks :: "planned_task list \<Rightarrow> planned_task list \<Rightarrow> bool" where
  "same_tasks ts ts' \<longleftrightarrow> map (\<lambda>t. t\<lparr>task_deps := []\<rparr>) ts' = map (\<lambda>t. t\<lparr>task_deps := []\<rparr>) ts"

lemma same_tasks_fields:
  assumes "same_tasks ts ts'"
  shows "map task_id ts' = map task_id ts" and "map task_complexity ts' = map task_complexity ts"
proof -
  have "map task_id (map (\<lambda>t. t\<lparr>task_deps := []\<rparr>) ts') = map task_id (map (\<lambda>t. t\<lparr>task_deps := []\<rparr>) ts)"
    "map task_complexity (map (\<lambda>t. t\<lparr>task_deps := []\<rparr>) ts') =
      map task_complexity (map (\<lambda>t. t\<lparr>task_deps := []\<rparr>) ts)"
    using assms unfolding same_tasks_def by simp_all
  then show "map task_id ts' = map task_id ts" "map task_complexity ts' = map task_complexity ts"
    by (simp_all add: comp_def)
qed

lemma make_sequential_same: "same_tasks ts (make_sequential ts)"
  unfolding same_tasks_def by (rule nth_equalityI) simp_all

lemma make_conservative_same: "same_tasks ts (make_conservative ts)"
  unfolding same_tasks_def make_conservative_def
proof (rule nth_equalityI)
  fix i assume "i < length (map (\<lambda>t. t\<lparr>task_deps := []\<rparr>) (make_conservative_from [] ts))"
  then have i: "i < length ts" by (simp add: make_conservative_from_simps)
  from make_conservative_from_simps(2)[OF i, of "[]"] obtain deps where
    "make_conservative_from [] ts ! i = (ts ! i)\<lparr>task_deps := deps\<rparr>" by blast
  with i show "map (\<lambda>t. t\<lparr>task_deps := []\<rparr>) (make_conservative_from [] ts) ! i =
      map (\<lambda>t. t\<lparr>task_deps := []\<rparr>) ts ! i"
    by (simp add: make_conservative_from_simps)
qed (simp add: make_conservative_from_simps)

lemma apply_strategy_same: "same_tasks ts (apply_strategy s ts)"
  using make_sequential_same make_conservative_same by (cases s) (simp_all add: same_tasks_def)

lemma ids_take_same:
  assumes "map task_id ts' = map task_id ts"
  shows "task_id ` set (take i ts') = task_id ` set (take i ts)"
  using arg_cong[OF assms, of "\<lambda>xs. set (take i xs)"] by (simp add: take_map)

lemma make_sequential_chain:
  assumes "distinct (map task_id ts)"
  shows "chain_tasks (make_sequential ts)"
proof -
  note ids = same_tasks_fields(1)[OF make_sequential_same, of ts]
  have "set (task_deps (make_sequential ts ! i)) \<subseteq> task_id ` set (take i (make_sequential ts))"
    if "i < length ts" for i
    using that unfolding ids_take_same[OF ids] by (cases i) (auto simp: ids_take)
  then show ?thesis using assms unfolding chain_tasks_def ordered_tasks_nth ids by simp
qed

lemma make_conservative_chain:
  assumes "ordered_tasks ts"
  shows "chain_tasks (make_conservative ts)"
proof -
  note ids = same_tasks_fields(1)[OF make_conservative_same, of ts]
  have len: "length (make_conservative ts) = length ts"
    by (simp add: make_conservative_def make_conservative_from_simps)
  have d: "distinct (map task_id ts)" using assms by (simp add: ordered_tasks_def)
  have deps: "set (task_deps (make_conservative ts ! i)) = task_id ` set (take i ts)" if i: "i < length ts" for i
  proof -
    have "task_id (ts ! i) \<notin> task_id ` set (take i ts)"
      using d i by (auto simp: ids_take distinct_conv_nth)
    moreover have "set (task_deps (ts ! i)) \<subseteq> task_id ` set (take i ts)"
      using assms i by (simp add: ordered_tasks_nth)
    ultimately have "(set (task_deps (ts ! i)) \<union> set [] \<union> task_id ` set (take i ts)) - {task_id (ts ! i)} =
        task_id ` set (take i ts)" unfolding list.set Un_empty_right by (auto simp: Un_absorb1)
    moreover obtain deps where "make_conservative ts ! i = (ts ! i)\<lparr>task_deps := deps\<rparr>"
      "set deps = (set (task_deps (ts ! i)) \<union> set [] \<union> task_id ` set (take i ts)) - {task_id (ts ! i)}"
      using make_conservative_from_simps(2)[OF i, of "[]"] unfolding make_conservative_def by blast
    ultimately show ?thesis by simp
  qed
  have nth_id: "task_id (make_conservative ts ! i) = task_id (ts ! i)" if "i < length ts" for i
    using arg_cong[OF ids, of "\<lambda>xs. xs ! i"] that len by simp
  show ?thesis
    unfolding chain_tasks_def ordered_tasks_nth ids len ids_take_same[OF ids]
    using d deps nth_id by (auto simp: ids_take)
qed

lemma apply_strategy_ordered:
  assumes "ordered_tasks ts"
  shows "ordered_tasks (apply_strategy s ts)"
    and "s \<in> {SEQUENTIAL, CONSERVATIVE} \<Longrightarrow> chain_tasks (apply_strategy s ts)"
  using assms make_sequential_chain[of ts] make_conservative_chain[OF assms]
  by (cases s; force simp: chain_tasks_def ordered_tasks_def)+

subsection \<open>Planning\<close>

text \<open>
  \<open>linked_tasks\<close>: at most one task, no dependency at all, or every task takes part in one.
\<close>

definition linked_tasks :: "planned_task list \<Rightarrow> bool" where
  "linked_tasks ts \<longleftrightarrow> length ts \<le> 1 \<or> (\<forall>t \<in> set ts. task_deps t = []) \<or>
     (\<forall>t \<in> set ts. task_deps t \<noteq> [] \<or> (\<exists>t' \<in> set ts. task_id t \<in> set (task_deps t')))"

lemma touching_edge:
  "(\<exists>e \<in> set (map arc_edge (task_arcs ts)). edge_source e = k \<or> edge_target e = k) \<longleftrightarrow>
     (\<exists>t \<in> set ts. task_id t = k \<and> task_deps t \<noteq> []) \<or> (\<exists>t \<in> set ts. k \<in> set (task_deps t))"
proof -
  have "(\<exists>e \<in> set (map arc_edge (task_arcs ts)). edge_source e = k \<or> edge_target e = k) \<longleftrightarrow>
      (\<exists>u v. (u, v) \<in> set (task_arcs ts) \<and> (u = k \<or> v = k))"
    by force
  moreover have ne: "task_deps t \<noteq> [] \<longleftrightarrow> (\<exists>u. u \<in> set (task_deps t))" for t
    by (metis empty_iff empty_set list.set_sel(1))
  ultimately show ?thesis unfolding set_task_arcs ne by blast
qed

lemma no_orphans_task_graph:
  assumes "ordered_tasks ts"
  shows "no_orphans (task_graph ts) \<longleftrightarrow> linked_tasks ts"
proof -
  have same: "(\<exists>t' \<in> set ts. task_id t' = task_id t \<and> task_deps t' \<noteq> []) \<longleftrightarrow> task_deps t \<noteq> []"
    if "t \<in> set ts" for t
    using that assms by (auto simp: ordered_tasks_def distinct_map inj_on_def)
  have none: "graph_edges (task_graph ts) = [] \<longleftrightarrow> (\<forall>t \<in> set ts. task_deps t = [])"
    by (auto simp: task_graph_def task_arcs_def concat_eq_Nil_conv)
  have len: "length (graph_nodes (task_graph ts)) = length ts" by (simp add: task_graph_def)
  have edges: "graph_edges (task_graph ts) = map arc_edge (task_arcs ts)" by (simp add: task_graph_def)
  let ?P = "\<lambda>k. \<exists>e \<in> set (graph_edges (task_graph ts)). edge_source e = k \<or> edge_target e = k"
  have "(\<forall>k \<in> set (map task_id ts). ?P k) \<longleftrightarrow> (\<forall>t \<in> set ts. ?P (task_id t))" by auto
  also have "\<dots> \<longleftrightarrow> (\<forall>t \<in> set ts. task_deps t \<noteq> [] \<or> (\<exists>t' \<in> set ts. task_id t \<in> set (task_deps t')))"
    unfolding edges touching_edge by (intro ball_cong refl) (simp only: same)
  finally have "(\<forall>k \<in> set (map task_id ts). ?P k) \<longleftrightarrow>
      (\<forall>t \<in> set ts. task_deps t \<noteq> [] \<or> (\<exists>t' \<in> set ts. task_id t \<in> set (task_deps t')))" .
  then show ?thesis
    unfolding no_orphans_def linked_tasks_def task_graph_keys len none by (rule arg_cong)
qed

lemma create_plan_Inr:
  assumes "validate_plan ts (pl_capabilities pl) = []"
  defines "os \<equiv> apply_strategy (pl_strategy pl) ts"
  shows "create_plan now pl mission ts = (case generate_plan (task_graph os) of
      Inl e \<Rightarrow> Inl (PlanGraphError e)
    | Inr g_plan \<Rightarrow> Inr \<lparr>tp_mission = mission, tp_tasks = os, tp_graph = Some (task_graph os),
         tp_strategy = pl_strategy pl, tp_duration = estimate_duration os g_plan,
         tp_groups = plan_levels g_plan,
         tp_metadata = [(''created_at'', PFloat now),
            (''strategy'', PStr (strategy_value (pl_strategy pl))),
            (''task_count'', PInt (int (length os)))]\<rparr>)"
proof -
  have "ordered_tasks os"
    unfolding os_def using assms(1) validate_plan_accepted by (intro apply_strategy_ordered) blast
  then have "tasks_to_graph os = Inr (task_graph os)"
    using tasks_to_graph_result[of os] by simp
  then show ?thesis using assms(1) unfolding os_def by (simp add: create_plan_def Let_def)
qed

lemma create_plan_result:
  "if validate_plan ts (pl_capabilities pl) \<noteq> []
   then create_plan now pl mission ts = Inl (PlanningError (validate_plan ts (pl_capabilities pl)))
   else if linked_tasks (apply_strategy (pl_strategy pl) ts)
   then \<exists>p. create_plan now pl mission ts = Inr p \<and> tp_tasks p = apply_strategy (pl_strategy pl) ts \<and>
     same_tasks ts (tp_tasks p)
   else \<exists>issues. create_plan now pl mission ts = Inl (PlanGraphError (ValidationError issues))"
proof (cases "validate_plan ts (pl_capabilities pl) = []")
  case True
  let ?os = "apply_strategy (pl_strategy pl) ts"
  have o: "ordered_tasks ?os"
    using True validate_plan_accepted by (intro apply_strategy_ordered) blast
  have "if wf_graph (task_graph ?os) \<and> no_orphans (task_graph ?os) then \<exists>p. generate_plan (task_graph ?os) = Inr p
      else \<exists>issues. generate_plan (task_graph ?os) = Inl (ValidationError issues)"
    using generate_plan_outcome[OF wf_graph_keyed[OF task_graph_wf[OF o]]] by auto
  then show ?thesis
    using True task_graph_wf[OF o] no_orphans_task_graph[OF o] create_plan_Inr[OF True, of now mission]
      apply_strategy_same[of ts "pl_strategy pl"]
    by (auto split: if_splits)
qed (simp add: create_plan_def Let_def)

text \<open>
  Planning raises the planning error exactly on a list the validator rejects. On an accepted
  list it produces a plan over the same tasks, except when some task takes part in no dependency
  while others do: then the plan generation raises the graph's validation error instead.
\<close>

lemma create_plan_outcome:
  "if validate_plan ts (pl_capabilities pl) \<noteq> []
   then create_plan now pl mission ts = Inl (PlanningError (validate_plan ts (pl_capabilities pl)))
   else if linked_tasks (apply_strategy (pl_strategy pl) ts)
   then \<exists>p. create_plan now pl mission ts = Inr p \<and> tp_tasks p = apply_strategy (pl_strategy pl) ts \<and>
     same_tasks ts (tp_tasks p)
   else \<exists>issues. create_plan now pl mission ts = Inl (PlanGraphError (ValidationError issues))"
  by (rule create_plan_result)

subsection \<open>Chains\<close>

lemma chain_linked:
  assumes c: "chain_tasks ts"
  shows "linked_tasks ts"
proof (cases "length ts \<le> 1")
  case False
  have "task_deps t \<noteq> [] \<or> (\<exists>t' \<in> set ts. task_id t \<in> set (task_deps t'))" if t: "t \<in> set ts" for t
  proof -
    obtain i where i: "i < length ts" "t = ts ! i" using t by (metis in_set_conv_nth)
    show ?thesis
    proof (cases i)
      case 0
      then have "task_id t \<in> set (task_deps (ts ! 1))" using c False i by (simp add: chain_tasks_def)
      moreover have "ts ! 1 \<in> set ts" using False by simp
      ultimately show ?thesis by blast
    next
      case (Suc j)
      then have "task_id (ts ! j) \<in> set (task_deps t)" using c i by (simp add: chain_tasks_def)
      then show ?thesis by auto
    qed
  qed
  then show ?thesis by (simp add: linked_tasks_def)
qed (simp add: linked_tasks_def)

text \<open>In a chain the task at position \<open>i\<close> is the only one on level \<open>i\<close>.\<close>

lemma chain_level:
  assumes "chain_tasks ts" and "i < length ts"
  shows "level_in (level_map (task_graph ts)) (task_id (ts ! i)) = i"
proof -
  let ?L = "level_map (task_graph ts)" and ?R = "set (task_arcs ts)"
  have o: "ordered_tasks ts" using assms(1) by (simp add: chain_tasks_def)
  have ids: "set (map task_id ts) = set (dict_keys (graph_nodes (task_graph ts)))" by simp
  note inv = level_map_inv[OF task_graph_wf[OF o], unfolded task_graph_rel[OF o], unfolded task_graph_keys]
  have up: "level_in ?L u + 1 \<le> level_in ?L v" if "(u, v) \<in> ?R" for u v
    using inv that task_arcs_ids(1)[OF o that] unfolding level_inv_def by auto
  have below: "level_in ?L v = 0 \<or> (\<exists>u. (u, v) \<in> ?R \<and> level_in ?L v = level_in ?L u + 1)" for v
    using inv unfolding level_inv_def by blast
  have ge: "j < length ts \<Longrightarrow> j \<le> level_in ?L (task_id (ts ! j))" for j
  proof (induction j)
    case (Suc j)
    then have "(task_id (ts ! j), task_id (ts ! Suc j)) \<in> ?R"
      using assms(1) nth_mem[OF Suc.prems] by (auto simp: chain_tasks_def set_task_arcs)
    from up[OF this] Suc show ?case by simp
  qed simp
  have le: "j < length ts \<Longrightarrow> level_in ?L (task_id (ts ! j)) \<le> j" for j
  proof (induction j rule: less_induct)
    case (less j)
    have pred: "\<exists>k < j. u = task_id (ts ! k)" if arc: "(u, task_id (ts ! j)) \<in> ?R" for u
    proof -
      obtain t where t: "t \<in> set ts" "task_id (ts ! j) = task_id t" "u \<in> set (task_deps t)"
        using arc by (auto simp: set_task_arcs)
      then have "t = ts ! j" using o less.prems by (auto simp: ordered_tasks_def distinct_map inj_on_def)
      with t o less.prems show ?thesis
        using ids_take[of j ts u] by (auto simp: ordered_tasks_nth)
    qed
    from below[of "task_id (ts ! j)"] show ?case
    proof
      assume "\<exists>u. (u, task_id (ts ! j)) \<in> ?R \<and> level_in ?L (task_id (ts ! j)) = level_in ?L u + 1"
      then obtain k where "k < j" "level_in ?L (task_id (ts ! j)) = level_in ?L (task_id (ts ! k)) + 1"
        using pred by blast
      with less.IH[of k] less.prems show ?thesis by simp
    qed simp
  qed
  show ?thesis using ge[OF assms(2)] le[OF assms(2)] by simp
qed

lemma distinct_singleton: "distinct xs \<Longrightarrow> set xs = {x} \<Longrightarrow> xs = [x]"
  by (metis distinct_card card_1_singleton_iff card.empty One_nat_def length_0_conv length_Suc_conv
      list.set(1) list.set(2) insertI1 singletonD singleton_insert_inj_eq')

lemma chain_levels:
  assumes "chain_tasks ts"
  shows "collect_levels (level_map (task_graph ts)) = map (\<lambda>t. [task_id t]) ts"
proof -
  let ?g = "task_graph ts" and ?ls = "collect_levels (level_map (task_graph ts))"
  have o: "ordered_tasks ts" and d: "distinct (map task_id ts)"
    using assms by (auto simp: chain_tasks_def ordered_tasks_def)
  note row = plan_level_nth(1)[OF task_graph_wf[OF o], unfolded task_graph_keys]
    and below = plan_level_nth(2)[OF task_graph_wf[OF o], unfolded task_graph_keys]
  have dist: "distinct (?ls ! k)" if "k < length ?ls" for k
    using plan_level_nth(3)[OF task_graph_wf[OF o]] that by (simp add: distinct_concat_iff)
  have single: "{v \<in> set (map task_id ts). level_in (level_map ?g) v = k} =
      (if k < length ts then {task_id (ts ! k)} else {})" for k
    using chain_level[OF assms] by (auto simp: in_set_conv_nth intro!: imageI)
  have "k < length ?ls \<longleftrightarrow> k < length ts" for k
  proof
    assume k: "k < length ?ls"
    have "?ls ! k \<noteq> []" using plan_level_nth(4)[OF task_graph_wf[OF o]] k by (metis nth_mem)
    then show "k < length ts" using row[OF k] single[of k] by (auto split: if_splits)
  next
    assume "k < length ts"
    then show "k < length ?ls" using below[of "task_id (ts ! k)"] chain_level[OF assms] by simp
  qed
  then have len: "length ?ls = length ts" by (metis linorder_neqE_nat less_irrefl)
  show ?thesis
  proof (rule nth_equalityI)
    show "length ?ls = length (map (\<lambda>t. [task_id t]) ts)" by (simp add: len)
    fix k assume k: "k < length ?ls"
    then have "set (?ls ! k) = {task_id (ts ! k)}" using row[OF k] single[of k] len by simp
    from distinct_singleton[OF dist[OF k] this] show "?ls ! k = map (\<lambda>t. [task_id t]) ts ! k"
      using k len by simp
  qed
qed

subsection \<open>Duration and groups\<close>

lemma fold_sum_levels: "fold (\<lambda>level total. total + f level) ls (a :: rat) = a + sum_list (map f ls)"
  by (induction ls arbitrary: a) simp_all

lemma complexity_of_task:
  assumes "distinct (map task_id ts)" and "t \<in> set ts"
  shows "complexity_of ts (task_id t) = Some (task_complexity t)"
  using assms by (induction ts) (auto simp: complexity_of_def)

lemma level_complexity_bounds:
  assumes "distinct (map task_id ts)" and "\<forall>t \<in> set ts. 0 \<le> task_complexity t"
    and "0 \<le> (a :: rat)" and "set ids \<subseteq> task_id ` set ts"
  defines "r \<equiv> fold (\<lambda>nid m. case complexity_of ts nid of None \<Rightarrow> m | Some c \<Rightarrow> max m c) ids a"
  shows "a \<le> r \<and> (\<forall>t \<in> set ts. task_id t \<in> set ids \<longrightarrow> task_complexity t \<le> r) \<and>
    r \<le> a + sum_list (map (\<lambda>nid. the (complexity_of ts nid)) ids)"
  unfolding r_def using assms(3,4)
proof (induction ids arbitrary: a)
  case Nil
  then show ?case by simp
next
  case (Cons i ids)
  then obtain t where t: "t \<in> set ts" "i = task_id t" by auto
  have c: "complexity_of ts i = Some (task_complexity t)" "0 \<le> task_complexity t"
    using complexity_of_task[OF assms(1) t(1)] t assms(2) by auto
  have same: "t' \<in> set ts \<Longrightarrow> task_id t' = i \<Longrightarrow> task_complexity t' = task_complexity t" for t'
    using complexity_of_task[OF assms(1)] c t by fastforce
  let ?f = "\<lambda>nid m. case complexity_of ts nid of None \<Rightarrow> m | Some c \<Rightarrow> max m c"
  let ?a = "max a (task_complexity t)"
  have sub: "0 \<le> ?a" "set ids \<subseteq> task_id ` set ts" using Cons.prems by auto
  note IH = Cons.IH[OF sub]
  have step: "fold ?f (i # ids) a = fold ?f ids ?a" by (simp add: c)
  show ?case
    unfolding step using IH c same Cons.prems(1) by (auto simp: max_def split: if_splits)
qed

text \<open>A list of levels that partitions the tasks.\<close>

lemma duration_bounds:
  assumes d: "distinct (map task_id ts)" and nonneg: "\<forall>t \<in> set ts. 0 \<le> task_complexity t"
    and part: "distinct (concat ls)" "set (concat ls) = task_id ` set ts"
  shows "sum_list (map (level_complexity ts) ls) \<le> sum_list (map task_complexity ts)"
    and "t \<in> set ts \<Longrightarrow> task_complexity t \<le> sum_list (map (level_complexity ts) ls)"
proof -
  have sub: "set l \<subseteq> task_id ` set ts" if "l \<in> set ls" for l using part(2) that by auto
  note lb = level_complexity_bounds[OF d nonneg order_refl, folded level_complexity_def]
  have "sum_list (map (level_complexity ts) ls) \<le>
      sum_list (map (\<lambda>l. sum_list (map (\<lambda>nid. the (complexity_of ts nid)) l)) ls)"
    using lb sub by (intro sum_list_mono) auto
  also have "\<dots> = sum_list (map (\<lambda>nid. the (complexity_of ts nid)) (concat ls))"
    by (induction ls) simp_all
  also have "\<dots> = sum_list (map (\<lambda>nid. the (complexity_of ts nid)) (map task_id ts))"
  proof -
    have "mset (concat ls) = mset (map task_id ts)"
      using d part by (metis set_eq_iff_mset_eq_distinct set_map)
    from arg_cong[OF this, of "\<lambda>M. sum_mset (image_mset (\<lambda>nid. the (complexity_of ts nid)) M)"]
    show ?thesis by (simp only: mset_map[symmetric] sum_mset_sum_list)
  qed
  also have "\<dots> = sum_list (map task_complexity ts)"
    using complexity_of_task[OF d] by (simp add: comp_def cong: map_cong)
  finally show "sum_list (map (level_complexity ts) ls) \<le> sum_list (map task_complexity ts)" .
  assume t: "t \<in> set ts"
  then have "task_id t \<in> set (concat ls)" using part(2) by simp
  then obtain l where l: "l \<in> set ls" "task_id t \<in> set l" by auto
  have "task_complexity t \<le> level_complexity ts l" using lb[OF sub[OF l(1)]] t l(2) by blast
  also have "\<dots> \<le> sum_list (map (level_complexity ts) ls)"
    using l(1) lb[OF sub] by (intro member_le_sum_list) auto
  finally show "task_complexity t \<le> sum_list (map (level_complexity ts) ls)" .
qed

lemma planned_facts:
  assumes "create_plan now pl mission ts = Inr p"
  defines "os \<equiv> apply_strategy (pl_strategy pl) ts"
  shows "validate_plan ts (pl_capabilities pl) = [] \<and> ordered_tasks os \<and> wf_graph (task_graph os) \<and>
    tp_tasks p = os \<and> tp_graph p = Some (task_graph os) \<and>
    tp_groups p = collect_levels (level_map (task_graph os)) \<and>
    tp_duration p = (if tp_groups p = [] then sum_list (map task_complexity os)
      else sum_list (map (level_complexity os) (tp_groups p)))"
proof -
  have v: "validate_plan ts (pl_capabilities pl) = []"
    using assms(1) by (auto simp: create_plan_def Let_def split: if_splits)
  have o: "ordered_tasks os"
    unfolding os_def using v validate_plan_accepted by (intro apply_strategy_ordered) blast
  obtain gp where gp: "generate_plan (task_graph os) = Inr gp"
    using assms(1) create_plan_Inr[OF v, of now mission] unfolding os_def by (auto split: sum.splits)
  have p: "tp_tasks p = os \<and> tp_graph p = Some (task_graph os) \<and> tp_groups p = plan_levels gp \<and>
      tp_duration p = estimate_duration os gp"
    using assms(1) create_plan_Inr[OF v, of now mission] gp unfolding os_def by auto
  obtain ns where "plan_levels gp = collect_levels (level_map (task_graph os))"
    using generate_plan_Inr[OF wf_graph_keyed[OF task_graph_wf[OF o]] gp] by blast
  with p v o task_graph_wf[OF o] show ?thesis
    by (simp add: estimate_duration_def fold_sum_levels)
qed

text \<open>
  In a successful plan the parallel groups are non-empty and contain every task exactly once,
  every dependency of a task lies in a strictly earlier group, and the estimated duration is at
  least the complexity of any single task and at most the sum of all complexities.
\<close>

lemma create_plan_groups:
  assumes "create_plan now pl mission ts = Inr p"
  shows "distinct (concat (tp_groups p)) \<and> [] \<notin> set (tp_groups p) \<and>
    set (concat (tp_groups p)) = task_id ` set ts \<and>
    (\<forall>t \<in> set (tp_tasks p). \<forall>d \<in> set (task_deps t). \<exists>i j. i < j \<and> j < length (tp_groups p) \<and>
       d \<in> set (tp_groups p ! i) \<and> task_id t \<in> set (tp_groups p ! j)) \<and>
    (\<forall>t \<in> set ts. task_complexity t \<le> tp_duration p) \<and>
    tp_duration p \<le> sum_list (map task_complexity ts)"
proof -
  let ?os = "apply_strategy (pl_strategy pl) ts"
  note f = planned_facts[OF assms]
  have o: "ordered_tasks ?os" and wf: "wf_graph (task_graph ?os)"
    and groups: "tp_groups p = collect_levels (level_map (task_graph ?os))" and tasks: "tp_tasks p = ?os"
    using f by auto
  note same = same_tasks_fields[OF apply_strategy_same, of "pl_strategy pl" ts]
  have ids: "task_id ` set ?os = task_id ` set ts" using arg_cong[OF same(1), of set] by simp
  note layers = plan_levels_layers[OF wf, folded groups, unfolded task_graph_rel[OF o], unfolded task_graph_keys]
  have part: "distinct (concat (tp_groups p))" "set (concat (tp_groups p)) = task_id ` set ?os"
    using layers plan_level_nth(3)[OF wf, folded groups] by auto
  have deps: "\<exists>i j. i < j \<and> j < length (tp_groups p) \<and> d \<in> set (tp_groups p ! i) \<and> task_id t \<in> set (tp_groups p ! j)"
    if td: "t \<in> set ?os" "d \<in> set (task_deps t)" for t d
  proof -
    have "task_id t \<in> set (concat (tp_groups p))" using part td by simp
    then obtain j where j: "j < length (tp_groups p)" "task_id t \<in> set (tp_groups p ! j)"
      by (auto simp: in_set_conv_nth[of _ "tp_groups p"])
    moreover have "(d, task_id t) \<in> set (task_arcs ?os)" using td by (auto simp: set_task_arcs)
    ultimately show ?thesis using layers by blast
  qed
  have c: "\<forall>t \<in> set ?os. 0 \<le> task_complexity t"
  proof -
    have "\<forall>t \<in> set ts. 0 \<le> task_complexity t"
      using f validate_plan_accepted by (auto simp: valid_complexity_def)
    then have "\<forall>c \<in> set (map task_complexity ?os). 0 \<le> c" unfolding same(2) by simp
    then show ?thesis by simp
  qed
  have "(\<forall>t \<in> set ?os. task_complexity t \<le> tp_duration p) \<and>
      tp_duration p \<le> sum_list (map task_complexity ?os)"
  proof (cases "tp_groups p = []")
    case True
    then have "?os = []" using part(2) by simp
    then show ?thesis using f True by simp
  next
    case False
    then have "tp_duration p = sum_list (map (level_complexity ?os) (tp_groups p))" using f by presburger
    then show ?thesis using duration_bounds[OF _ c part] o by (simp add: ordered_tasks_def)
  qed
  then have "(\<forall>c \<in> set (map task_complexity ?os). c \<le> tp_duration p) \<and>
      tp_duration p \<le> sum_list (map task_complexity ?os)" by simp
  then have "(\<forall>t \<in> set ts. task_complexity t \<le> tp_duration p) \<and>
      tp_duration p \<le> sum_list (map task_complexity ts)" unfolding same(2) by simp
  then show ?thesis
    using deps part plan_level_nth(4)[OF wf, folded groups] unfolding tasks ids by blast
qed

text \<open>
  Under the sequential and the conservative strategy an accepted list always gets a plan: the
  tasks run one after the other in list order, one per group, and the estimated duration is the sum
  of the complexities.
\<close>

lemma chain_strategies_plan:
  assumes "validate_plan ts (pl_capabilities pl) = []" and "pl_strategy pl \<in> {SEQUENTIAL, CONSERVATIVE}"
  shows "\<exists>p. create_plan now pl mission ts = Inr p \<and> tp_groups p = map (\<lambda>t. [task_id t]) ts \<and>
    tp_duration p = sum_list (map task_complexity ts)"
proof -
  let ?os = "apply_strategy (pl_strategy pl) ts"
  have chain: "chain_tasks ?os"
    using assms validate_plan_accepted by (intro apply_strategy_ordered(2)) auto
  have o: "ordered_tasks ?os" using chain by (simp add: chain_tasks_def)
  have "no_orphans (task_graph ?os)"
    using chain_linked[OF chain] no_orphans_task_graph[OF o] by simp
  then obtain gp where "generate_plan (task_graph ?os) = Inr gp"
    using generate_plan_outcome[OF wf_graph_keyed[OF task_graph_wf[OF o]]] task_graph_wf[OF o] by auto
  then obtain p where p: "create_plan now pl mission ts = Inr p"
    using create_plan_Inr[OF assms(1), of now mission] by auto
  note same = same_tasks_fields[OF apply_strategy_same, of "pl_strategy pl" ts]
  have groups: "tp_groups p = map (\<lambda>t. [task_id t]) ?os"
    using planned_facts[OF p] chain_levels[OF chain] by simp
  have "level_complexity ?os [task_id t] = task_complexity t" if t: "t \<in> set ?os" for t
  proof -
    have "task_complexity t \<in> set (map task_complexity ?os)" using t by simp
    then have "0 \<le> task_complexity t"
      unfolding same(2) using assms(1) validate_plan_accepted by (auto simp: valid_complexity_def)
    moreover have "complexity_of ?os (task_id t) = Some (task_complexity t)"
      using complexity_of_task[OF _ t] o by (simp add: ordered_tasks_def)
    ultimately show ?thesis by (simp add: level_complexity_def)
  qed
  then have "sum_list (map (level_complexity ?os) (tp_groups p)) = sum_list (map task_complexity ?os)"
    unfolding groups by (simp add: comp_def cong: map_cong)
  then have "tp_duration p = sum_list (map task_complexity ?os)"
    using planned_facts[OF p] by presburger
  moreover have "map (\<lambda>t. [task_id t]) ?os = map (\<lambda>t. [task_id t]) ts"
    using arg_cong[OF same(1), of "map (\<lambda>x. [x])"] by (simp add: comp_def)
  ultimately show ?thesis using p groups same(2) by auto
qed

text \<open>Two tasks, the second depending on the first.\<close>

definition sample_task :: "string \<Rightarrow> string list \<Rightarrow> planned_task" where
  "sample_task i deps = \<lparr>task_id = i, task_title = i, task_description = [], task_complexity = 2,
     task_capability = ''chat'', task_deps = deps, task_parallelizable = True, task_metadata = []\<rparr>"

definition sample_mission :: task_mission where
  "sample_mission = \<lparr>tm_id = ''m'', tm_title = ''m'', tm_description = [], tm_objective = [], tm_priority = 5,
     tm_metadata = []\<rparr>"

definition sample_tasks :: "planned_task list" where
  "sample_tasks = [sample_task ''a'' [], sample_task ''b'' [''a'']]"

lemma sample_tasks_ordered: "ordered_tasks sample_tasks"
  unfolding ordered_tasks_nth by (simp add: sample_tasks_def sample_task_def less_Suc_eq)

lemma sample_tasks_valid: "validate_plan sample_tasks None = []"
  using sample_tasks_ordered
  by (simp add: validate_plan_accepted valid_complexity_def sample_tasks_def sample_task_def)

lemma validate_plan_accepts_example:
  "validate_plan sample_tasks (Some [''chat'']) = [] \<and> validate_plan (rev sample_tasks) None \<noteq> []"
proof -
  have "\<not> ordered_tasks (rev sample_tasks)"
    unfolding ordered_tasks_nth by (auto simp: sample_tasks_def sample_task_def)
  then show ?thesis
    using sample_tasks_ordered validate_plan_accepts[of sample_tasks] validate_plan_accepts[of "rev sample_tasks"]
    by (simp add: valid_complexity_def sample_tasks_def sample_task_def)
qed

lemma tasks_to_graph_complete_example:
  "\<exists>g. tasks_to_graph sample_tasks = Inr g \<and> map edge_arc (graph_edges g) = [(''a'', ''b'')]"
  using tasks_to_graph_complete[OF sample_tasks_ordered]
  by (simp add: task_arcs_def sample_tasks_def sample_task_def)

lemma chain_strategies_plan_example:
  "\<exists>p. create_plan 0 \<lparr>pl_strategy = CONSERVATIVE, pl_capabilities = None\<rparr> sample_mission sample_tasks = Inr p \<and>
     tp_groups p = [[''a''], [''b'']] \<and> tp_duration p = 4"
  using chain_strategies_plan[of sample_tasks "\<lparr>pl_strategy = CONSERVATIVE, pl_capabilities = None\<rparr>" 0 sample_mission]
  sample_tasks_valid
  by (simp add: sample_tasks_def sample_task_def)

lemma create_plan_groups_example:
  "\<exists>p. create_plan 0 \<lparr>pl_strategy = BALANCED, pl_capabilities = None\<rparr> sample_mission sample_tasks = Inr p \<and>
     set (concat (tp_groups p)) = {''a'', ''b''}"
proof -
  let ?pl = "\<lparr>pl_strategy = BALANCED, pl_capabilities = None\<rparr>"
  have "chain_tasks sample_tasks"
    using sample_tasks_ordered by (simp add: chain_tasks_def sample_tasks_def sample_task_def less_Suc_eq)
  then have "no_orphans (task_graph sample_tasks)"
    using chain_linked no_orphans_task_graph[OF sample_tasks_ordered] by blast
  then obtain gp where "generate_plan (task_graph sample_tasks) = Inr gp"
    using generate_plan_outcome[OF wf_graph_keyed[OF task_graph_wf[OF sample_tasks_ordered]]]
      task_graph_wf[OF sample_tasks_ordered] by auto
  then obtain p where p: "create_plan 0 ?pl sample_mission sample_tasks = Inr p"
    using create_plan_Inr[of sample_tasks ?pl 0 sample_mission] sample_tasks_valid by auto
  with create_plan_groups[OF p] show ?thesis by (auto simp: sample_tasks_def sample_task_def)
qed

end
