(* ===== verification/StateMachine.thy ===== *)
theory StateMachine
  imports Prelude
begin

text \<open>
  The contract that the transition tables of the backend share (\<^verbatim>\<open>_ALLOWED_TRANSITIONS\<close> of
  the agent lifecycle, \<^verbatim>\<open>_MISSION_TRANSITIONS\<close> of the supervisor): terminal states have no
  successor, and a manager that keeps many state machines under identifiers moves each of them only
  along the table. What follows from the contract is proved here once.
\<close>

definition table_steps :: "('s \<Rightarrow> 's \<Rightarrow> bool) \<Rightarrow> ('s \<times> 's) set" where
  "table_steps allowed = {(s, t). allowed s t}"

locale transition_table =
  fixes allowed :: "'s \<Rightarrow> 's \<Rightarrow> bool" and terminal :: "'s \<Rightarrow> bool"
  assumes terminal_final: "terminal s \<Longrightarrow> \<not> allowed s t"
begin

lemma terminal_stays: "(s, t) \<in> (table_steps allowed)\<^sup>* \<Longrightarrow> terminal s \<Longrightarrow> t = s"
  by (auto simp: table_steps_def terminal_final elim: converse_rtranclE)

end

text \<open>
  A manager of keyed state machines: \<open>exec c st\<close> is the state after one call, refused calls
  included. A machine present before a call is still there after it and has moved along the table,
  unless the call removed it, which only happens to machines in a terminal state.
\<close>

locale machine_manager = transition_table allowed terminal
  for allowed :: "'s \<Rightarrow> 's \<Rightarrow> bool" and terminal :: "'s \<Rightarrow> bool" +
  fixes exec :: "'c \<Rightarrow> 'st \<Rightarrow> 'st" and state_of :: "'st \<Rightarrow> 'k \<Rightarrow> 's option" and ok :: "'st \<Rightarrow> bool"
  assumes exec_ok: "ok st \<Longrightarrow> ok (exec c st)"
    and exec_moves: "ok st \<Longrightarrow> state_of st k = Some s \<Longrightarrow>
      (state_of (exec c st) k = None \<and> terminal s) \<or>
      (\<exists>t. state_of (exec c st) k = Some t \<and> (s, t) \<in> (table_steps allowed)\<^sup>*)"
begin

lemma run_ok: "ok st \<Longrightarrow> ok (fold exec cs st)"
  by (induction cs arbitrary: st) (auto intro: exec_ok)

lemma run_moves:
  assumes "ok st" and "state_of st k = Some s"
    and "\<And>n. n \<le> length cs \<Longrightarrow> state_of (fold exec (take n cs) st) k \<noteq> None"
  shows "\<exists>t. state_of (fold exec cs st) k = Some t \<and> (s, t) \<in> (table_steps allowed)\<^sup>*"
  using assms
proof (induction cs arbitrary: st s)
  case Nil
  then show ?case by auto
next
  case (Cons c cs)
  have "state_of (exec c st) k \<noteq> None" using Cons.prems(3)[of 1] by simp
  with exec_moves[OF Cons.prems(1,2), of c] obtain s' where
    s': "state_of (exec c st) k = Some s'" "(s, s') \<in> (table_steps allowed)\<^sup>*" by auto
  have "state_of (fold exec (take n cs) (exec c st)) k \<noteq> None" if "n \<le> length cs" for n
    using Cons.prems(3)[of "Suc n"] that by simp
  from Cons.IH[OF exec_ok[OF Cons.prems(1)] s'(1) this] s'(2) show ?case by auto
qed

lemma run_terminal:
  assumes "ok st" and "state_of st k = Some s" and "terminal s"
    and "\<And>n. n \<le> length cs \<Longrightarrow> state_of (fold exec (take n cs) st) k \<noteq> None"
  shows "state_of (fold exec cs st) k = Some s"
  using run_moves[OF assms(1,2,4)] terminal_stays assms(3) by auto

text \<open>A machine that is not terminal is never removed by a single call.\<close>

lemma live_kept: "ok st \<Longrightarrow> state_of st k = Some s \<Longrightarrow> \<not> terminal s \<Longrightarrow> state_of (exec c st) k \<noteq> None"
  using exec_moves by fastforce

end

text \<open>
  An update of one keyed machine by a function of its state alone, where repeating the update
  changes nothing: applied to a list of keys it changes exactly the machines of the list.
\<close>

locale keyed_update =
  fixes upd :: "'k \<Rightarrow> 'st \<Rightarrow> 'st" and state_of :: "'st \<Rightarrow> 'k \<Rightarrow> 's option" and ok :: "'st \<Rightarrow> bool"
    and f :: "'s \<Rightarrow> 's"
  assumes upd_ok: "ok st \<Longrightarrow> ok (upd k st)"
    and upd_state: "ok st \<Longrightarrow> state_of (upd k st) j = (if j = k then map_option f (state_of st j) else state_of st j)"
    and f_idem: "f (f s) = f s"
begin

lemma fold_ok: "ok st \<Longrightarrow> ok (fold upd ks st)"
  by (induction ks arbitrary: st) (auto intro: upd_ok)

lemma fold_state:
  "ok st \<Longrightarrow> state_of (fold upd ks st) j = (if j \<in> set ks then map_option f (state_of st j) else state_of st j)"
proof (induction ks arbitrary: st)
  case (Cons k ks)
  then show ?case
    using Cons.IH[OF upd_ok[OF Cons.prems], of k] upd_state[OF Cons.prems, of k]
    by (auto simp: option.map_comp comp_def f_idem)
qed simp

end

end
