(* ===== verification/Lifecycle.thy ===== *)
theory Lifecycle
  imports StateMachine
begin

text \<open>
  The agent lifecycle manager, \<^verbatim>\<open>src/backend/agent/lifecycle.py\<close>. The manager's lock makes an
  operation atomic. \<^verbatim>\<open>time.time()\<close> is a parameter: \<open>now\<close> is the reading an operation takes;
  \<^verbatim>\<open>check_timeouts\<close> takes one reading itself and one more per transition it performs
  (\<open>clock\<close>, indexed by the agent). Event handlers are opaque tokens: the manager's log
  records every call \<^verbatim>\<open>handler(agent_id, from_state, to_state)\<close> in order; a handler that calls
  back into the manager is not modelled (its exceptions are swallowed by the source).
\<close>

subsection \<open>Data\<close>

datatype agent_state = Agent_CREATED | Agent_READY | Agent_SCHEDULED | Agent_RUNNING | Agent_PAUSED
  | Agent_WAITING | Agent_COMPLETED | Agent_FAILED | Agent_CANCELLED | Agent_TIMEOUT

record agent_context =
  ctx_id :: string
  ctx_mission_id :: string
  ctx_task_id :: string
  ctx_capability :: string
  ctx_runtime :: "string option"
  ctx_metadata :: metadata

record agent_statistics =
  execution_count :: nat
  stat_retries :: nat
  stat_failures :: nat
  total_duration :: time
  last_execution :: "time option"
  stat_metadata :: metadata

record agent_instance =
  inst_id :: string
  inst_state :: agent_state
  inst_context :: agent_context
  created_at :: time
  started_at :: "time option"
  finished_at :: "time option"
  inst_statistics :: agent_statistics
  inst_metadata :: metadata

type_synonym handler = nat
type_synonym handler_call = "handler \<times> string \<times> agent_state \<times> agent_state"

record lifecycle_manager =
  lm_timeout :: time
  lm_agents :: "(string, agent_instance) dict"
  lm_handlers :: "handler list"
  lm_log :: "handler_call list"

datatype lifecycle_error =
    AgentExists string
  | AgentNotFound string
  | CannotResume string agent_state
  | AlreadyTerminal string agent_state
  | InvalidTransition string agent_state agent_state

fun agent_successors :: "agent_state \<Rightarrow> agent_state list" where
  "agent_successors Agent_CREATED = [Agent_READY]"
| "agent_successors Agent_READY = [Agent_SCHEDULED, Agent_RUNNING]"
| "agent_successors Agent_SCHEDULED = [Agent_RUNNING]"
| "agent_successors Agent_RUNNING =
     [Agent_PAUSED, Agent_COMPLETED, Agent_FAILED, Agent_CANCELLED, Agent_TIMEOUT]"
| "agent_successors Agent_PAUSED = [Agent_RUNNING, Agent_CANCELLED, Agent_TIMEOUT]"
| "agent_successors Agent_WAITING = [Agent_RUNNING, Agent_CANCELLED, Agent_FAILED]"
| "agent_successors Agent_COMPLETED = []"
| "agent_successors Agent_FAILED = []"
| "agent_successors Agent_CANCELLED = []"
| "agent_successors Agent_TIMEOUT = []"

text \<open>The set literal of the four terminal states, which the source repeats where it tests it.\<close>

definition agent_terminal :: "agent_state \<Rightarrow> bool" where
  "agent_terminal s \<longleftrightarrow> s \<in> {Agent_COMPLETED, Agent_FAILED, Agent_CANCELLED, Agent_TIMEOUT}"

definition fresh_statistics :: agent_statistics where
  "fresh_statistics = \<lparr>execution_count = 0, stat_retries = 0, stat_failures = 0, total_duration = 0,
     last_execution = None, stat_metadata = []\<rparr>"

subsection \<open>Operations\<close>

definition new_manager :: "time \<Rightarrow> lifecycle_manager" where
  "new_manager timeout = \<lparr>lm_timeout = timeout, lm_agents = [], lm_handlers = [], lm_log = []\<rparr>"

definition on_event :: "handler \<Rightarrow> lifecycle_manager \<Rightarrow> lifecycle_manager" where
  "on_event h m = m\<lparr>lm_handlers := lm_handlers m @ [h]\<rparr>"

definition emit :: "string \<Rightarrow> agent_state \<Rightarrow> agent_state \<Rightarrow> lifecycle_manager \<Rightarrow> lifecycle_manager" where
  "emit aid s t m = m\<lparr>lm_log := lm_log m @ map (\<lambda>h. (h, aid, s, t)) (lm_handlers m)\<rparr>"

definition put_agent :: "agent_instance \<Rightarrow> string \<Rightarrow> lifecycle_manager \<Rightarrow> lifecycle_manager" where
  "put_agent i aid m = m\<lparr>lm_agents := dict_set aid i (lm_agents m)\<rparr>"

definition find_agent :: "string \<Rightarrow> lifecycle_manager \<Rightarrow> lifecycle_error + agent_instance" where
  "find_agent aid m = (case dict_get (lm_agents m) aid of
     None \<Rightarrow> Inl (AgentNotFound aid) | Some i \<Rightarrow> Inr i)"

text \<open>The instance that \<^verbatim>\<open>_transition\<close> builds once the move is accepted.\<close>

definition moved_instance :: "time \<Rightarrow> agent_state \<Rightarrow> agent_instance \<Rightarrow> agent_instance" where
  "moved_instance now target i =
     (let stats = inst_statistics i in
      if target = Agent_RUNNING
      then i\<lparr>inst_state := target, started_at := Some (or_time (started_at i) now)\<rparr>
      else if agent_terminal target
      then i\<lparr>inst_state := target, finished_at := Some now,
             inst_statistics := stats\<lparr>
               execution_count := execution_count stats + 1,
               stat_failures := stat_failures stats + (if target = Agent_FAILED then 1 else 0),
               total_duration := total_duration stats +
                 (case started_at i of None \<Rightarrow> 0 | Some t \<Rightarrow> now - t),
               last_execution := Some (or_time (started_at i) now)\<rparr>\<rparr>
      else i\<lparr>inst_state := target\<rparr>)"

definition transition :: "time \<Rightarrow> string \<Rightarrow> agent_state \<Rightarrow> lifecycle_manager
    \<Rightarrow> lifecycle_error + lifecycle_manager \<times> agent_instance" where
  "transition now aid target m = (case find_agent aid m of
     Inl err \<Rightarrow> Inl err
   | Inr i \<Rightarrow>
       (let current = inst_state i in
        if target = Agent_CANCELLED \<and> agent_terminal current then Inl (AlreadyTerminal aid current)
        else if target \<noteq> Agent_CANCELLED \<and> target \<notin> set (agent_successors current)
        then Inl (InvalidTransition aid current target)
        else let updated = moved_instance now target i
             in Inr (emit aid current target (put_agent updated aid m), updated)))"

definition create_agent :: "time \<Rightarrow> agent_context \<Rightarrow> metadata \<Rightarrow> lifecycle_manager
    \<Rightarrow> lifecycle_error + lifecycle_manager \<times> agent_instance" where
  "create_agent now ctx md m =
     (if ctx_id ctx \<in> set (dict_keys (lm_agents m)) then Inl (AgentExists (ctx_id ctx))
      else let i = \<lparr>inst_id = ctx_id ctx, inst_state = Agent_CREATED, inst_context = ctx,
                    created_at = now, started_at = None, finished_at = None,
                    inst_statistics = fresh_statistics, inst_metadata = md\<rparr>
           in transition now (ctx_id ctx) Agent_READY
                (emit (ctx_id ctx) Agent_CREATED Agent_READY (put_agent i (ctx_id ctx) m)))"

definition start_agent where
  "start_agent now aid m = (case find_agent aid m of Inl err \<Rightarrow> Inl err
     | Inr i \<Rightarrow> (if inst_state i = Agent_SCHEDULED then transition now aid Agent_RUNNING m
                else transition now aid Agent_RUNNING m))"

definition pause_agent where "pause_agent now aid m = transition now aid Agent_PAUSED m"

definition resume_agent :: "time \<Rightarrow> string \<Rightarrow> lifecycle_manager
    \<Rightarrow> lifecycle_error + lifecycle_manager \<times> agent_instance" where
  "resume_agent now aid m = (case find_agent aid m of Inl err \<Rightarrow> Inl err
     | Inr i \<Rightarrow>
        (if inst_state i \<noteq> Agent_PAUSED then Inl (CannotResume aid (inst_state i))
         else let m1 = emit aid (inst_state i) Agent_RUNNING m;
                  updated = i\<lparr>inst_state := Agent_RUNNING,
                              started_at := Some (or_time (started_at i) now), finished_at := None\<rparr>
              in Inr (put_agent updated aid m1, updated)))"

definition cancel_agent where "cancel_agent now aid m = transition now aid Agent_CANCELLED m"
definition complete_agent where "complete_agent now aid m = transition now aid Agent_COMPLETED m"
definition fail_agent where "fail_agent now aid m = transition now aid Agent_FAILED m"

definition get_agent :: "string \<Rightarrow> lifecycle_manager \<Rightarrow> lifecycle_error + agent_instance" where
  "get_agent aid m = find_agent aid m"

definition list_agents :: "agent_state option \<Rightarrow> lifecycle_manager \<Rightarrow> agent_instance list" where
  "list_agents st m = (case st of None \<Rightarrow> dict_values (lm_agents m)
     | Some s \<Rightarrow> filter (\<lambda>i. inst_state i = s) (dict_values (lm_agents m)))"

definition expired :: "time \<Rightarrow> time \<Rightarrow> agent_instance \<Rightarrow> bool" where
  "expired now max_age i = (case finished_at i of None \<Rightarrow> False
     | Some f \<Rightarrow> now - f > max_age \<and> agent_terminal (inst_state i))"

definition cleanup_agents :: "time \<Rightarrow> time \<Rightarrow> lifecycle_manager \<Rightarrow> lifecycle_manager \<times> nat" where
  "cleanup_agents now max_age m =
     (let to_remove = map fst (filter (\<lambda>(aid, i). expired now max_age i) (lm_agents m))
      in (m\<lparr>lm_agents := fold dict_del to_remove (lm_agents m)\<rparr>, length to_remove))"

definition overdue :: "time \<Rightarrow> time \<Rightarrow> agent_instance \<Rightarrow> bool" where
  "overdue now timeout i \<longleftrightarrow> inst_state i = Agent_RUNNING \<and>
     (case started_at i of None \<Rightarrow> False | Some t \<Rightarrow> now - t > timeout)"

fun timeout_loop :: "time \<Rightarrow> (string \<Rightarrow> time) \<Rightarrow> (string \<times> agent_instance) list \<Rightarrow> lifecycle_manager
    \<Rightarrow> string list \<Rightarrow> lifecycle_manager \<times> string list" where
  "timeout_loop now clock [] m ids = (m, ids)"
| "timeout_loop now clock ((aid, i) # rest) m ids =
     (if overdue now (lm_timeout m) i
      then (case transition (clock aid) aid Agent_TIMEOUT m of
              Inl _ \<Rightarrow> timeout_loop now clock rest m ids
            | Inr (m', _) \<Rightarrow> timeout_loop now clock rest m' (ids @ [aid]))
      else timeout_loop now clock rest m ids)"

definition check_timeouts :: "time \<Rightarrow> (string \<Rightarrow> time) \<Rightarrow> lifecycle_manager
    \<Rightarrow> lifecycle_manager \<times> string list" where
  "check_timeouts now clock m = timeout_loop now clock (lm_agents m) m []"

end
