(* ===== verification/Lifecycle_Correct.thy ===== *)
theory Lifecycle_Correct
  imports Lifecycle
begin

text \<open>
  Correctness of the agent lifecycle manager: the invariant of the stored instances, the moves an
  agent can make under any sequence of calls, and the exact effect of the two sweeps.
\<close>

subsection \<open>Moves\<close>

definition agent_allowed :: "agent_state \<Rightarrow> agent_state \<Rightarrow> bool" where
  "agent_allowed s t \<longleftrightarrow> t \<in> set (agent_successors s) \<or> t = Agent_CANCELLED \<and> \<not> agent_terminal s"

lemma agent_terminal_iff: "agent_terminal s \<longleftrightarrow> (\<forall>t. \<not> agent_allowed s t)"
  by (cases s) (auto simp: agent_terminal_def agent_allowed_def)

lemma transition_Inr:
  "transition now aid t m = Inr (m', i') \<longleftrightarrow>
     (\<exists>i. dict_get (lm_agents m) aid = Some i \<and> agent_allowed (inst_state i) t \<and>
        i' = moved_instance now t i \<and> m' = emit aid (inst_state i) t (put_agent i' aid m))"
  by (auto simp: transition_def find_agent_def agent_allowed_def Let_def agent_terminal_def
      split: option.splits)

lemma moved_instance_simps [simp]:
  "inst_state (moved_instance now t i) = t"
  "inst_id (moved_instance now t i) = inst_id i"
  "inst_context (moved_instance now t i) = inst_context i"
  by (simp_all add: moved_instance_def Let_def)

lemma manager_simps [simp]:
  "lm_agents (emit aid s t m) = lm_agents m" "lm_agents (put_agent i aid m) = dict_set aid i (lm_agents m)"
  "lm_handlers (emit aid s t m) = lm_handlers m" "lm_handlers (put_agent i aid m) = lm_handlers m"
  "lm_timeout (emit aid s t m) = lm_timeout m" "lm_timeout (put_agent i aid m) = lm_timeout m"
  "lm_log (put_agent i aid m) = lm_log m"
  "lm_log (emit aid s t m) = lm_log m @ map (\<lambda>h. (h, aid, s, t)) (lm_handlers m)"
  by (simp_all add: emit_def put_agent_def)

subsection \<open>Invariant\<close>

text \<open>
  What holds of a stored instance between two operations: it is past \<^verbatim>\<open>CREATED\<close>, the two states
  no operation targets do not occur, it has an end time and one counted execution exactly when it
  is terminal, and its duration is the time between start and end.
\<close>

definition instance_ok :: "agent_instance \<Rightarrow> bool" where
  "instance_ok i \<longleftrightarrow> ctx_id (inst_context i) = inst_id i \<and>
     inst_state i \<notin> {Agent_CREATED, Agent_SCHEDULED, Agent_WAITING} \<and>
     (finished_at i \<noteq> None \<longleftrightarrow> agent_terminal (inst_state i)) \<and>
     (inst_state i = Agent_READY \<longrightarrow> started_at i = None) \<and>
     (inst_state i \<notin> {Agent_READY, Agent_CANCELLED} \<longrightarrow> started_at i \<noteq> None) \<and>
     execution_count (inst_statistics i) = (if agent_terminal (inst_state i) then 1 else 0) \<and>
     stat_failures (inst_statistics i) = (if inst_state i = Agent_FAILED then 1 else 0) \<and>
     total_duration (inst_statistics i) = (case (started_at i, finished_at i) of
        (Some s, Some f) \<Rightarrow> f - s | _ \<Rightarrow> 0)"

definition lifecycle_inv :: "lifecycle_manager \<Rightarrow> bool" where
  "lifecycle_inv m \<longleftrightarrow> keyed inst_id (lm_agents m) \<and> (\<forall>i \<in> snd ` set (lm_agents m). instance_ok i) \<and>
     (\<forall>(h, aid, s, t) \<in> set (lm_log m). h \<in> set (lm_handlers m) \<and> agent_allowed s t)"

lemma moved_instance_ok:
  assumes "instance_ok i" and "agent_allowed (inst_state i) t" and "t \<noteq> Agent_SCHEDULED"
  shows "instance_ok (moved_instance now t i)"
  using assms
  by (cases "inst_state i"; cases t)
    (auto simp: instance_ok_def agent_allowed_def agent_terminal_def moved_instance_def Let_def)

named_theorems lifecycle_keeps "operations preserve the lifecycle invariant"

lemma inv_get: "lifecycle_inv m \<Longrightarrow> dict_get (lm_agents m) aid = Some i \<Longrightarrow> instance_ok i \<and> inst_id i = aid"
  by (force simp: lifecycle_inv_def dest: map_of_SomeD keyed_get)

lemma inv_put:
  assumes "lifecycle_inv m" and "instance_ok i" and "inst_id i = aid"
  shows "lifecycle_inv (put_agent i aid m)"
  using assms keyed_set[of inst_id "lm_agents m" i aid]
  by (auto simp: lifecycle_inv_def set_dict_set[OF keyed_distinct])

lemma inv_emit: "lifecycle_inv m \<Longrightarrow> agent_allowed s t \<Longrightarrow> lifecycle_inv (emit aid s t m)"
  by (auto simp: lifecycle_inv_def)

lemma transition_inv [lifecycle_keeps]:
  assumes "lifecycle_inv m" and "transition now aid t m = Inr (m', i')" and "t \<noteq> Agent_SCHEDULED"
  shows "lifecycle_inv m'"
proof -
  obtain i where i: "dict_get (lm_agents m) aid = Some i" "agent_allowed (inst_state i) t"
    "i' = moved_instance now t i" "m' = emit aid (inst_state i) t (put_agent i' aid m)"
    using assms(2) by (auto simp: transition_Inr)
  with inv_get[OF assms(1) i(1)] assms(3) have "instance_ok i'" "inst_id i' = aid"
    by (auto intro: moved_instance_ok)
  from inv_emit[OF inv_put[OF assms(1) this] i(2)] show ?thesis unfolding i(4) .
qed

definition newborn :: "time \<Rightarrow> agent_context \<Rightarrow> metadata \<Rightarrow> agent_instance" where
  "newborn now ctx md = \<lparr>inst_id = ctx_id ctx, inst_state = Agent_READY, inst_context = ctx,
     created_at = now, started_at = None, finished_at = None, inst_statistics = fresh_statistics,
     inst_metadata = md\<rparr>"

lemma create_agent_Inr:
  "create_agent now ctx md m = Inr (m', i') \<longleftrightarrow>
     ctx_id ctx \<notin> set (dict_keys (lm_agents m)) \<and> i' = newborn now ctx md \<and>
     m' = emit (ctx_id ctx) Agent_CREATED Agent_READY
            (emit (ctx_id ctx) Agent_CREATED Agent_READY (put_agent i' (ctx_id ctx) m))"
  by (auto simp: create_agent_def transition_Inr agent_allowed_def agent_terminal_def Let_def
      moved_instance_def newborn_def emit_def put_agent_def)

lemma create_agent_inv [lifecycle_keeps]:
  "lifecycle_inv m \<Longrightarrow> create_agent now ctx md m = Inr (m', i') \<Longrightarrow> lifecycle_inv m'"
  by (auto simp: create_agent_Inr newborn_def fresh_statistics_def instance_ok_def agent_terminal_def
      agent_allowed_def intro!: inv_emit inv_put)

lemma resume_agent_Inr:
  "resume_agent now aid m = Inr (m', i') \<longleftrightarrow>
     (\<exists>i. dict_get (lm_agents m) aid = Some i \<and> inst_state i = Agent_PAUSED \<and>
        i' = i\<lparr>inst_state := Agent_RUNNING, started_at := Some (or_time (started_at i) now),
               finished_at := None\<rparr> \<and>
        m' = put_agent i' aid (emit aid Agent_PAUSED Agent_RUNNING m))"
  by (auto simp: resume_agent_def find_agent_def Let_def split: option.splits)

lemma resume_agent_inv [lifecycle_keeps]:
  assumes "lifecycle_inv m" and "resume_agent now aid m = Inr (m', i')"
  shows "lifecycle_inv m'"
proof -
  obtain i where i: "dict_get (lm_agents m) aid = Some i" "inst_state i = Agent_PAUSED"
    "i' = i\<lparr>inst_state := Agent_RUNNING, started_at := Some (or_time (started_at i) now),
               finished_at := None\<rparr>" "m' = put_agent i' aid (emit aid Agent_PAUSED Agent_RUNNING m)"
    using assms(2) by (auto simp: resume_agent_Inr)
  with inv_get[OF assms(1) i(1)] have "instance_ok i'" "inst_id i' = aid"
    by (auto simp: instance_ok_def agent_terminal_def)
  moreover have "lifecycle_inv (emit aid Agent_PAUSED Agent_RUNNING m)"
    by (rule inv_emit[OF assms(1)]) (simp add: agent_allowed_def)
  ultimately show ?thesis unfolding i(4) by (rule inv_put[rotated])
qed

lemma cleanup_agents_result:
  assumes "keyed inst_id (lm_agents m)"
  shows "fst (cleanup_agents now max_age m) =
    m\<lparr>lm_agents := filter (\<lambda>p. \<not> expired now max_age (snd p)) (lm_agents m)\<rparr>"
proof -
  have "fst p \<in> fst ` {x \<in> set (lm_agents m). expired now max_age (snd x)} \<longleftrightarrow> expired now max_age (snd p)"
    if "p \<in> set (lm_agents m)" for p
    using that eq_key_imp_eq_value[OF keyed_distinct[OF assms], of "fst p" "snd p"]
    by (auto intro: image_eqI[of _ _ p])
  then have "filter (\<lambda>p. fst p \<notin> fst ` {x \<in> set (lm_agents m). expired now max_age (snd x)}) (lm_agents m) =
      filter (\<lambda>p. \<not> expired now max_age (snd p)) (lm_agents m)"
    by (intro filter_cong) auto
  then show ?thesis by (simp add: cleanup_agents_def Let_def fold_dict_del case_prod_beta)
qed

lemma cleanup_agents_inv [lifecycle_keeps]:
  "lifecycle_inv m \<Longrightarrow> lifecycle_inv (fst (cleanup_agents now max_age m))"
  by (auto simp: cleanup_agents_result lifecycle_inv_def intro: keyed_filter)

lemma timeout_loop_inv:
  "lifecycle_inv m \<Longrightarrow> lifecycle_inv (fst (timeout_loop now clock xs m ids))"
  by (induction now clock xs m ids rule: timeout_loop.induct)
    (auto split: sum.splits dest: transition_inv)

lemma check_timeouts_inv [lifecycle_keeps]:
  "lifecycle_inv m \<Longrightarrow> lifecycle_inv (fst (check_timeouts now clock m))"
  by (simp add: check_timeouts_def timeout_loop_inv)

subsection \<open>Any sequence of calls\<close>

datatype lifecycle_op =
    OnEvent handler
  | CreateAgent time agent_context metadata
  | StartAgent time string
  | PauseAgent time string
  | ResumeAgent time string
  | CancelAgent time string
  | CompleteAgent time string
  | FailAgent time string
  | Cleanup time time
  | CheckTimeouts time "string \<Rightarrow> time"

text \<open>The manager after a call; a call that raises leaves it unchanged.\<close>

definition after :: "lifecycle_manager \<Rightarrow> 'e + lifecycle_manager \<times> 'r \<Rightarrow> lifecycle_manager" where
  "after m r = (case r of Inl _ \<Rightarrow> m | Inr (m', _) \<Rightarrow> m')"

fun exec_lifecycle :: "lifecycle_op \<Rightarrow> lifecycle_manager \<Rightarrow> lifecycle_manager" where
  "exec_lifecycle (OnEvent h) m = on_event h m"
| "exec_lifecycle (CreateAgent now ctx md) m = after m (create_agent now ctx md m)"
| "exec_lifecycle (StartAgent now aid) m = after m (start_agent now aid m)"
| "exec_lifecycle (PauseAgent now aid) m = after m (pause_agent now aid m)"
| "exec_lifecycle (ResumeAgent now aid) m = after m (resume_agent now aid m)"
| "exec_lifecycle (CancelAgent now aid) m = after m (cancel_agent now aid m)"
| "exec_lifecycle (CompleteAgent now aid) m = after m (complete_agent now aid m)"
| "exec_lifecycle (FailAgent now aid) m = after m (fail_agent now aid m)"
| "exec_lifecycle (Cleanup now age) m = fst (cleanup_agents now age m)"
| "exec_lifecycle (CheckTimeouts now clock) m = fst (check_timeouts now clock m)"

lemmas lifecycle_moves = start_agent_def pause_agent_def cancel_agent_def complete_agent_def fail_agent_def

lemma start_agent_transition: "start_agent now aid m = transition now aid Agent_RUNNING m"
  by (simp add: start_agent_def transition_def split: sum.splits)

lemma after_cases:
  "(\<And>m' x. r = Inr (m', x) \<Longrightarrow> P m') \<Longrightarrow> P m \<Longrightarrow> P (after m r)"
  by (auto simp: after_def split: sum.splits)

lemma on_event_inv [lifecycle_keeps]: "lifecycle_inv m \<Longrightarrow> lifecycle_inv (on_event h m)"
  by (auto simp: on_event_def lifecycle_inv_def)

lemma exec_lifecycle_inv: "lifecycle_inv m \<Longrightarrow> lifecycle_inv (exec_lifecycle c m)"
  by (cases c) (auto simp: start_agent_transition lifecycle_moves(2-) intro!: after_cases[of _ lifecycle_inv]
      intro: lifecycle_keeps)

definition agent_state_of :: "lifecycle_manager \<Rightarrow> string \<Rightarrow> agent_state option" where
  "agent_state_of m aid = map_option inst_state (dict_get (lm_agents m) aid)"

abbreviation agent_path :: "(agent_state \<times> agent_state) set" where
  "agent_path \<equiv> (table_steps agent_allowed)\<^sup>*"

lemma agent_stepI: "agent_allowed s t \<Longrightarrow> (s, t) \<in> agent_path"
  by (auto simp: table_steps_def)

lemma transition_moves:
  assumes "transition now aid t m = Inr (m', i')" and "agent_state_of m k = Some s"
  shows "\<exists>t. agent_state_of m' k = Some t \<and> (s, t) \<in> agent_path"
  using assms by (auto simp: transition_Inr agent_state_of_def agent_stepI)

lemma create_agent_moves:
  assumes "create_agent now ctx md m = Inr (m', i')" and "agent_state_of m k = Some s"
  shows "\<exists>t. agent_state_of m' k = Some t \<and> (s, t) \<in> agent_path"
proof -
  have "k \<noteq> ctx_id ctx" using assms get_Some_key[of "lm_agents m" k]
    by (auto simp: create_agent_Inr agent_state_of_def)
  with assms show ?thesis by (auto simp: create_agent_Inr agent_state_of_def)
qed

lemma resume_agent_moves:
  assumes "resume_agent now aid m = Inr (m', i')" and "agent_state_of m k = Some s"
  shows "\<exists>t. agent_state_of m' k = Some t \<and> (s, t) \<in> agent_path"
  using assms agent_stepI[of Agent_PAUSED Agent_RUNNING]
  by (auto simp: resume_agent_Inr agent_state_of_def agent_allowed_def)

lemma timeout_loop_moves:
  "agent_state_of m k = Some s \<Longrightarrow>
     \<exists>t. agent_state_of (fst (timeout_loop now clock xs m ids)) k = Some t \<and> (s, t) \<in> agent_path"
proof (induction now clock xs m ids arbitrary: s rule: timeout_loop.induct)
  case (1 now clock m ids)
  then show ?case by auto
next
  case (2 now clock aid i rest m ids)
  show ?case
  proof (cases "transition (clock aid) aid Agent_TIMEOUT m")
    case (Inl e)
    then show ?thesis using 2 by simp
  next
    case (Inr r)
    obtain m' i' where r: "r = (m', i')" by (cases r)
    from transition_moves[OF _ "2.prems"] Inr r obtain s' where
      s': "agent_state_of m' k = Some s'" "(s, s') \<in> agent_path" by blast
    show ?thesis
    proof (cases "overdue now (lm_timeout m) i")
      case True
      from "2.IH"(2)[OF True Inr r[symmetric] s'(1)] True Inr r s'(2) show ?thesis
        by (auto intro: rtrancl_trans)
    next
      case False
      then show ?thesis using "2.IH"(3)[OF _ "2.prems"] by simp
    qed
  qed
qed

lemma cleanup_agents_moves:
  assumes "lifecycle_inv m" and "agent_state_of m k = Some s"
  shows "agent_state_of (fst (cleanup_agents now age m)) k = None \<and> agent_terminal s \<or>
    agent_state_of (fst (cleanup_agents now age m)) k = Some s"
proof -
  have d: "distinct (map fst (lm_agents m))" and key: "keyed inst_id (lm_agents m)"
    using assms(1) by (auto simp: lifecycle_inv_def keyed_distinct)
  obtain i where i: "dict_get (lm_agents m) k = Some i" "s = inst_state i"
    using assms(2) by (auto simp: agent_state_of_def)
  let ?F = "filter (\<lambda>p. \<not> expired now age (snd p)) (lm_agents m)"
  have "dict_get ?F k = (if expired now age i then None else Some i)"
    using i(1) by (simp add: get_filter[OF d])
  then show ?thesis
    using i by (auto simp: cleanup_agents_result[OF key] agent_state_of_def expired_def split: option.splits)
qed

lemma exec_lifecycle_moves:
  assumes "lifecycle_inv m" and "agent_state_of m k = Some s"
  shows "(agent_state_of (exec_lifecycle c m) k = None \<and> agent_terminal s) \<or>
    (\<exists>t. agent_state_of (exec_lifecycle c m) k = Some t \<and> (s, t) \<in> agent_path)"
proof (cases c)
  case (Cleanup now age)
  then show ?thesis using cleanup_agents_moves[OF assms] by fastforce
next
  case (CheckTimeouts now clock)
  then show ?thesis using timeout_loop_moves[OF assms(2)] by (auto simp: check_timeouts_def)
next
  case (OnEvent h)
  then show ?thesis using assms(2) by (auto simp: on_event_def agent_state_of_def)
qed (use assms(2) transition_moves create_agent_moves resume_agent_moves in
    \<open>auto simp: start_agent_transition lifecycle_moves(2-) after_def split: sum.splits\<close>)

interpretation agents: machine_manager agent_allowed agent_terminal exec_lifecycle agent_state_of lifecycle_inv
  by unfold_locales (auto simp: agent_terminal_iff exec_lifecycle_inv dest!: exec_lifecycle_moves)

subsection \<open>Properties\<close>

lemma new_manager_inv: "lifecycle_inv (new_manager T)"
  by (simp add: new_manager_def lifecycle_inv_def)

text \<open>
  C4. After any sequence of calls on a new manager, every agent is stored under its id, has an
  end time exactly when it is terminal, counts one failure only when it failed, has a duration equal to the time
  between start and end, and is never left in the created, scheduled or waiting state; every handler call reports an
  allowed move. Its execution counter, which the source documents as the number of times the agent was started, is
  the number of its ends instead: 1 when it is terminal, however it ended, and 0 before, started or not.
\<close>

theorem lifecycle_invariant: "lifecycle_inv (fold exec_lifecycle cs (new_manager T))"
  by (rule agents.run_ok[OF new_manager_inv])

text \<open>
  The execution counter is not the number of starts: an agent that was started and paused has 0, one that was
  cancelled without ever having been started has 1.
\<close>

lemma execution_count_counts_ends:
  "map_option (\<lambda>i. (inst_state i, execution_count (inst_statistics i))) (dict_get (lm_agents
     (fold exec_lifecycle [CreateAgent 1 \<lparr>ctx_id = ''a'', ctx_mission_id = [], ctx_task_id = [], ctx_capability = [],
        ctx_runtime = None, ctx_metadata = []\<rparr> [], StartAgent 2 ''a'', PauseAgent 3 ''a''] (new_manager 10))) ''a'') = Some (Agent_PAUSED, 0)"
  "map_option (\<lambda>i. (inst_state i, execution_count (inst_statistics i))) (dict_get (lm_agents
     (fold exec_lifecycle [CreateAgent 1 \<lparr>ctx_id = ''a'', ctx_mission_id = [], ctx_task_id = [], ctx_capability = [],
        ctx_runtime = None, ctx_metadata = []\<rparr> [], CancelAgent 2 ''a''] (new_manager 10))) ''a'') = Some (Agent_CANCELLED, 1)"
  by code_simp+

text \<open>
  Whatever has happened before, one more call either removes an agent that was in a terminal
  state, or leaves it in a state reachable through the transition table; a terminal agent does not
  change its state.
\<close>

lemma agent_follows_table:
  assumes "agent_state_of (fold exec_lifecycle cs (new_manager T)) k = Some s"
  shows "(agent_state_of (fold exec_lifecycle (cs @ [c]) (new_manager T)) k = None \<and> agent_terminal s) \<or>
    (\<exists>t. agent_state_of (fold exec_lifecycle (cs @ [c]) (new_manager T)) k = Some t \<and>
       (s, t) \<in> agent_path \<and> (agent_terminal s \<longrightarrow> t = s))"
  using agents.exec_moves[OF agents.run_ok[OF new_manager_inv] assms, of c] agents.terminal_stays
  by auto

definition sample_context :: "string \<Rightarrow> agent_context" where
  "sample_context i = \<lparr>ctx_id = i, ctx_mission_id = '''', ctx_task_id = '''', ctx_capability = ''chat'',
     ctx_runtime = None, ctx_metadata = []\<rparr>"

definition sample_manager :: lifecycle_manager where
  "sample_manager = fold exec_lifecycle [CreateAgent 5 (sample_context ''a'') [], StartAgent 6 ''a'']
     (new_manager 10)"

lemmas lifecycle_eval = create_agent_def start_agent_def transition_def find_agent_def new_manager_def
  sample_context_def emit_def put_agent_def agent_terminal_def moved_instance_def after_def or_time_def
  fresh_statistics_def lifecycle_moves Let_def

lemma sample_manager_agents:
  "lm_agents sample_manager = [(''a'', \<lparr>inst_id = ''a'', inst_state = Agent_RUNNING,
      inst_context = sample_context ''a'', created_at = 5, started_at = Some 6, finished_at = None,
      inst_statistics = fresh_statistics, inst_metadata = []\<rparr>)]"
  by (simp add: sample_manager_def lifecycle_eval)

lemma agent_follows_table_example:
  "\<exists>t. agent_state_of (fold exec_lifecycle
      ([CreateAgent 5 (sample_context ''a'') [], StartAgent 6 ''a''] @ [FailAgent 7 ''a'']) (new_manager 10)) ''a''
      = Some t \<and> (Agent_RUNNING, t) \<in> agent_path"
  using agent_follows_table[of "[CreateAgent 5 (sample_context ''a'') [], StartAgent 6 ''a'']" 10 "''a''"
      Agent_RUNNING "FailAgent 7 ''a''"]
  by (simp add: lifecycle_eval agent_state_of_def)

text \<open>
  On an existing agent the calls succeed exactly in these states: start from ready, scheduled,
  paused or waiting; pause and complete from running; resume from paused; fail from running or
  waiting; cancel from every state that is not terminal.
\<close>

lemma agent_calls_decide:
  assumes "dict_get (lm_agents m) aid = Some i"
  shows "((\<exists>r. start_agent now aid m = Inr r) \<longleftrightarrow>
        inst_state i \<in> {Agent_READY, Agent_SCHEDULED, Agent_PAUSED, Agent_WAITING}) \<and>
    ((\<exists>r. pause_agent now aid m = Inr r) \<longleftrightarrow> inst_state i = Agent_RUNNING) \<and>
    ((\<exists>r. resume_agent now aid m = Inr r) \<longleftrightarrow> inst_state i = Agent_PAUSED) \<and>
    ((\<exists>r. complete_agent now aid m = Inr r) \<longleftrightarrow> inst_state i = Agent_RUNNING) \<and>
    ((\<exists>r. fail_agent now aid m = Inr r) \<longleftrightarrow> inst_state i \<in> {Agent_RUNNING, Agent_WAITING}) \<and>
    ((\<exists>r. cancel_agent now aid m = Inr r) \<longleftrightarrow> \<not> agent_terminal (inst_state i))"
  using assms
  by (cases "inst_state i")
    (simp_all add: lifecycle_moves transition_def resume_agent_def find_agent_def agent_terminal_def Let_def)

lemma agent_calls_decide_example:
  "(\<exists>r. pause_agent 7 ''a'' sample_manager = Inr r) \<and> \<not> (\<exists>r. resume_agent 7 ''a'' sample_manager = Inr r)"
  using agent_calls_decide[of sample_manager "''a''"] by (simp add: sample_manager_agents)

text \<open>
  Creating an agent under a new id stores it ready to run and calls every registered handler
  twice with the same created-to-ready event, once before and once after the move.
\<close>

lemma create_agent_notifies_twice:
  assumes "ctx_id ctx \<notin> set (dict_keys (lm_agents m))"
  shows "\<exists>m' i. create_agent now ctx md m = Inr (m', i) \<and> inst_state i = Agent_READY \<and>
    lm_agents m' = lm_agents m @ [(ctx_id ctx, i)] \<and>
    lm_log m' = lm_log m @ concat (replicate 2
      (map (\<lambda>h. (h, ctx_id ctx, Agent_CREATED, Agent_READY)) (lm_handlers m)))"
  using assms by (simp add: create_agent_Inr dict_set_fresh numeral_2_eq_2 newborn_def)

lemma create_agent_notifies_twice_example:
  "\<exists>m' i. create_agent 5 (sample_context ''a'') [] (on_event 1 (new_manager 10)) = Inr (m', i) \<and>
     lm_log m' = [(1, ''a'', Agent_CREATED, Agent_READY), (1, ''a'', Agent_CREATED, Agent_READY)]"
  using create_agent_notifies_twice[of "sample_context ''a''" "on_event 1 (new_manager 10)" 5 "[]"]
  by (auto simp: on_event_def new_manager_def sample_context_def numeral_2_eq_2)

lemma moved_not_overdue: "\<not> overdue now T (moved_instance c Agent_TIMEOUT i)"
  by (simp add: overdue_def)

lemma timeout_loop_exact:
  assumes "distinct (map fst xs)" and "\<And>a i. (a, i) \<in> set xs \<Longrightarrow> dict_get (lm_agents m) a = Some i"
  shows "snd (timeout_loop now clock xs m ids) =
      ids @ map fst (filter (\<lambda>(a, i). overdue now (lm_timeout m) i) xs) \<and>
    dict_get (lm_agents (fst (timeout_loop now clock xs m ids))) k =
      (if k \<in> set (map fst (filter (\<lambda>(a, i). overdue now (lm_timeout m) i) xs))
       then map_option (moved_instance (clock k) Agent_TIMEOUT) (dict_get (lm_agents m) k)
       else dict_get (lm_agents m) k) \<and>
    dict_keys (lm_agents (fst (timeout_loop now clock xs m ids))) = dict_keys (lm_agents m) \<and>
    lm_timeout (fst (timeout_loop now clock xs m ids)) = lm_timeout m"
  using assms
proof (induction xs arbitrary: m ids)
  case Nil
  then show ?case by simp
next
  case (Cons x xs)
  obtain a i where x: "x = (a, i)" by (cases x)
  have i: "dict_get (lm_agents m) a = Some i" using Cons.prems(2) x by simp
  show ?case
  proof (cases "overdue now (lm_timeout m) i")
    case True
    let ?i = "moved_instance (clock a) Agent_TIMEOUT i"
    let ?m = "emit a Agent_RUNNING Agent_TIMEOUT (put_agent ?i a m)"
    have t: "transition (clock a) a Agent_TIMEOUT m = Inr (?m, ?i)"
      using True i by (simp add: transition_Inr overdue_def agent_allowed_def)
    have "a \<in> set (dict_keys (lm_agents m))" by (rule get_Some_key[OF i])
    then have keys: "dict_keys (dict_set a ?i (lm_agents m)) = dict_keys (lm_agents m)" by (simp add: keys_set)
    have ok: "dict_get (lm_agents ?m) b = Some j" if "(b, j) \<in> set xs" for b j
      using that Cons.prems x by (force simp: image_iff)
    have new: "a \<notin> set (map fst (filter (\<lambda>(a, i). overdue now (lm_timeout m) i) xs))"
      using Cons.prems(1) x by auto
    have step: "timeout_loop now clock (x # xs) m ids = timeout_loop now clock xs ?m (ids @ [a])"
      using x True t by simp
    have d: "distinct (map fst xs)" using Cons.prems(1) by simp
    show ?thesis
      unfolding step using Cons.IH[OF d, of ?m "ids @ [a]", OF ok] new i True
      by (cases "k = a") (simp_all add: x keys)
  next
    case False
    then show ?thesis using Cons.IH[of m ids] Cons.prems x by simp
  qed
qed

text \<open>
  The timeout sweep returns exactly the running agents whose elapsed time exceeds the limit,
  in storage order, moves precisely those to the timed-out state, and leaves every other agent as
  it was; no overdue running agent is left.
\<close>

lemma check_timeouts_exact:
  assumes "keyed inst_id (lm_agents m)" and "check_timeouts now clock m = (m', ids)"
  shows "ids = map fst (filter (\<lambda>(a, i). overdue now (lm_timeout m) i) (lm_agents m)) \<and>
    (\<forall>k. dict_get (lm_agents m') k = map_option
       (\<lambda>i. if overdue now (lm_timeout m) i then moved_instance (clock k) Agent_TIMEOUT i else i)
       (dict_get (lm_agents m) k)) \<and>
    (\<forall>k i. dict_get (lm_agents m') k = Some i \<longrightarrow> \<not> overdue now (lm_timeout m') i)"
proof -
  let ?due = "filter (\<lambda>(a, i). overdue now (lm_timeout m) i) (lm_agents m)"
  have d: "distinct (map fst (lm_agents m))" using assms(1) by (rule keyed_distinct)
  have loop: "timeout_loop now clock (lm_agents m) m [] = (m', ids)"
    using assms(2) by (simp add: check_timeouts_def)
  have due: "k \<in> set (map fst ?due) \<longleftrightarrow> (\<exists>i. dict_get (lm_agents m) k = Some i \<and> overdue now (lm_timeout m) i)"
    for k using d by (force simp: in_set_get[OF d, symmetric])
  note exact = timeout_loop_exact[OF d, of m now clock "[]"] in_set_get[OF d]
  have ids: "ids = map fst ?due" and time: "lm_timeout m' = lm_timeout m"
    and get: "\<And>k. dict_get (lm_agents m') k = (if k \<in> set (map fst ?due)
       then map_option (moved_instance (clock k) Agent_TIMEOUT) (dict_get (lm_agents m) k)
       else dict_get (lm_agents m) k)"
    using exact(1) exact(2) loop by auto
  have upd: "dict_get (lm_agents m') k = map_option
       (\<lambda>i. if overdue now (lm_timeout m) i then moved_instance (clock k) Agent_TIMEOUT i else i)
       (dict_get (lm_agents m) k)" for k
    unfolding get due by (cases "dict_get (lm_agents m) k") auto
  moreover have "\<not> overdue now (lm_timeout m') i" if "dict_get (lm_agents m') k = Some i" for k i
    using that unfolding upd time
    by (cases "dict_get (lm_agents m) k") (auto simp: moved_not_overdue split: if_splits)
  ultimately show ?thesis using ids by blast
qed

lemma check_timeouts_exact_example:
  "snd (check_timeouts 20 (\<lambda>_. 21) sample_manager) = [''a'']"
  using check_timeouts_exact[of sample_manager 20 "\<lambda>_. 21" "fst (check_timeouts 20 (\<lambda>_. 21) sample_manager)"
      "snd (check_timeouts 20 (\<lambda>_. 21) sample_manager)"]
  by (simp add: sample_manager_agents keyed_def overdue_def)
    (simp add: sample_manager_def lifecycle_eval)

text \<open>
  The cleanup removes exactly the agents in a terminal state that ended more than the given
  age ago, keeps the others in their order, and returns the number removed.
\<close>

lemma cleanup_exact:
  assumes "keyed inst_id (lm_agents m)"
  shows "lm_agents (fst (cleanup_agents now age m)) =
      filter (\<lambda>(a, i). \<not> (agent_terminal (inst_state i) \<and> (\<exists>f. finished_at i = Some f \<and> now - f > age)))
        (lm_agents m) \<and>
    length (lm_agents m) =
      length (lm_agents (fst (cleanup_agents now age m))) + snd (cleanup_agents now age m)"
proof -
  have e: "expired now age i \<longleftrightarrow> agent_terminal (inst_state i) \<and> (\<exists>f. finished_at i = Some f \<and> now - f > age)"
    for i by (auto simp: expired_def split: option.splits)
  have "length (filter (\<lambda>p. \<not> expired now age (snd p)) (lm_agents m)) +
      length (filter (\<lambda>p. expired now age (snd p)) (lm_agents m)) = length (lm_agents m)"
    using sum_length_filter_compl[of "\<lambda>p. expired now age (snd p)" "lm_agents m"] by simp
  moreover have "snd (cleanup_agents now age m) = length (filter (\<lambda>p. expired now age (snd p)) (lm_agents m))"
    by (simp add: cleanup_agents_def Let_def case_prod_unfold)
  ultimately show ?thesis
    by (simp add: cleanup_agents_result[OF assms] e[symmetric] case_prod_unfold)
qed

lemma cleanup_exact_example:
  "lm_agents (fst (cleanup_agents 100 10 (exec_lifecycle (CompleteAgent 7 ''a'') sample_manager))) = []"
proof -
  let ?m = "exec_lifecycle (CompleteAgent 7 ''a'') sample_manager"
  have "lm_agents ?m = [(''a'', moved_instance 7 Agent_COMPLETED (snd (hd (lm_agents sample_manager))))]"
    by (simp add: sample_manager_agents lifecycle_eval)
  then show ?thesis
    using cleanup_exact[of ?m 100 10]
    by (simp add: keyed_def sample_manager_agents moved_instance_def agent_terminal_def)
qed

end
