(* ===== verification/Supervisor.thy ===== *)
theory Supervisor
  imports TaskPlanner_Correct Lifecycle_Correct
begin

text \<open>
  The multi-agent supervisor, \<^verbatim>\<open>src/backend/agent/supervisor.py\<close>. Its state holds the planner,
  the lifecycle manager and the missions with their plans; the graph inside a plan is mutated in
  place by \<^verbatim>\<open>tick\<close>, so the stored mission owns it (snapshots handed out earlier share the object,
  which the model does not track). One clock reading \<open>now\<close> per call; \<open>uuid\<close> gives the random
  suffix drawn for a task of a mission; the runtime selector callback is a function that does not
  raise. A set of agent ids is a list without repetition. An operation that raises after it has
  changed the state returns the changed state beside the error.
\<close>

subsection \<open>Data\<close>

datatype mission_state = Mission_CREATED | Mission_PLANNING | Mission_READY | Mission_RUNNING
  | Mission_PAUSED | Mission_COMPLETED | Mission_FAILED | Mission_CANCELLED

fun mission_state_value :: "mission_state \<Rightarrow> string" where
  "mission_state_value Mission_CREATED = ''created''"
| "mission_state_value Mission_PLANNING = ''planning''"
| "mission_state_value Mission_READY = ''ready''"
| "mission_state_value Mission_RUNNING = ''running''"
| "mission_state_value Mission_PAUSED = ''paused''"
| "mission_state_value Mission_COMPLETED = ''completed''"
| "mission_state_value Mission_FAILED = ''failed''"
| "mission_state_value Mission_CANCELLED = ''cancelled''"

datatype supervisor_event = MISSION_CREATED | MISSION_STARTED | MISSION_PAUSED | MISSION_RESUMED
  | MISSION_COMPLETED | MISSION_FAILED | MISSION_CANCELLED | AGENT_CREATED | AGENT_COMPLETED
  | AGENT_FAILED | TASK_READY | GRAPH_COMPLETED

record mission_context =
  mc_id :: string
  mc_title :: string
  mc_objective :: string
  mc_priority :: int
  mc_metadata :: metadata

record supervisor_statistics =
  missions_started :: nat
  missions_completed :: nat
  missions_failed :: nat
  agents_created :: nat
  agents_running :: nat
  average_duration :: rat

record mission_instance =
  mi_context :: mission_context
  mi_state :: mission_state
  mi_plan :: "task_plan option"
  mi_agents :: "string list"
  mi_statistics :: supervisor_statistics
  mi_metadata :: metadata

record supervisor =
  sv_planner :: task_planner
  sv_lifecycle :: lifecycle_manager
  sv_selector :: "(string \<Rightarrow> string option) option"
  sv_missions :: "(string, mission_instance) dict"
  sv_agents :: "(string, string list) dict"
  sv_handlers :: "handler list"
  sv_log :: "(handler \<times> supervisor_event \<times> string) list"

datatype supervisor_error =
    MissionExists string
  | MissionNotFound string
  | InvalidMissionTransition string mission_state mission_state
  | PlanningRaised graph_error

fun mission_successors :: "mission_state \<Rightarrow> mission_state list" where
  "mission_successors Mission_CREATED = [Mission_PLANNING, Mission_CANCELLED]"
| "mission_successors Mission_PLANNING = [Mission_READY, Mission_FAILED, Mission_CANCELLED]"
| "mission_successors Mission_READY = [Mission_RUNNING, Mission_CANCELLED]"
| "mission_successors Mission_RUNNING =
     [Mission_PAUSED, Mission_COMPLETED, Mission_FAILED, Mission_CANCELLED]"
| "mission_successors Mission_PAUSED = [Mission_RUNNING, Mission_CANCELLED, Mission_FAILED]"
| "mission_successors Mission_COMPLETED = []"
| "mission_successors Mission_FAILED = []"
| "mission_successors Mission_CANCELLED = []"

fun mission_event :: "mission_state \<Rightarrow> supervisor_event option" where
  "mission_event Mission_CREATED = None"
| "mission_event Mission_PLANNING = Some MISSION_CREATED"
| "mission_event Mission_READY = Some MISSION_CREATED"
| "mission_event Mission_RUNNING = Some MISSION_STARTED"
| "mission_event Mission_PAUSED = Some MISSION_PAUSED"
| "mission_event Mission_COMPLETED = Some MISSION_COMPLETED"
| "mission_event Mission_FAILED = Some MISSION_FAILED"
| "mission_event Mission_CANCELLED = Some MISSION_CANCELLED"

definition zero_statistics :: supervisor_statistics where
  "zero_statistics = \<lparr>missions_started = 0, missions_completed = 0, missions_failed = 0,
     agents_created = 0, agents_running = 0, average_duration = 0\<rparr>"

definition new_supervisor :: "task_planner \<Rightarrow> lifecycle_manager \<Rightarrow> (string \<Rightarrow> string option) option \<Rightarrow> supervisor" where
  "new_supervisor pl lm sel = \<lparr>sv_planner = pl, sv_lifecycle = lm, sv_selector = sel, sv_missions = [],
     sv_agents = [], sv_handlers = [], sv_log = []\<rparr>"

subsection \<open>Helpers\<close>

definition on_supervisor_event :: "handler \<Rightarrow> supervisor \<Rightarrow> supervisor" where
  "on_supervisor_event h sv = sv\<lparr>sv_handlers := sv_handlers sv @ [h]\<rparr>"

definition emit_event :: "supervisor_event \<Rightarrow> string \<Rightarrow> supervisor \<Rightarrow> supervisor" where
  "emit_event e mid sv = sv\<lparr>sv_log := sv_log sv @ map (\<lambda>h. (h, e, mid)) (sv_handlers sv)\<rparr>"

definition put_mission :: "string \<Rightarrow> mission_instance \<Rightarrow> supervisor \<Rightarrow> supervisor" where
  "put_mission mid m sv = sv\<lparr>sv_missions := dict_set mid m (sv_missions sv)\<rparr>"

definition find_mission :: "string \<Rightarrow> supervisor \<Rightarrow> supervisor_error + mission_instance" where
  "find_mission mid sv = (case dict_get (sv_missions sv) mid of
     None \<Rightarrow> Inl (MissionNotFound mid) | Some m \<Rightarrow> Inr m)"

definition mission_agents :: "string \<Rightarrow> supervisor \<Rightarrow> string list" where
  "mission_agents mid sv = dict_get_default (sv_agents sv) mid []"

definition moved_mission :: "time \<Rightarrow> mission_state \<Rightarrow> mission_instance \<Rightarrow> mission_instance" where
  "moved_mission now target m =
     m\<lparr>mi_state := target,
       mi_statistics := (mi_statistics m)\<lparr>agents_running := 0, average_duration := 0\<rparr>,
       mi_metadata := dict_set (mission_state_value target @ ''_at'') (PFloat now) (mi_metadata m)\<rparr>"

definition transition_mission :: "time \<Rightarrow> string \<Rightarrow> mission_state \<Rightarrow> supervisor
    \<Rightarrow> supervisor_error + supervisor \<times> mission_instance" where
  "transition_mission now mid target sv = (case find_mission mid sv of
     Inl err \<Rightarrow> Inl err
   | Inr m \<Rightarrow>
       if target \<notin> set (mission_successors (mi_state m))
       then Inl (InvalidMissionTransition mid (mi_state m) target)
       else let updated = moved_mission now target m;
                sv1 = put_mission mid updated sv;
                sv2 = (case mission_event target of None \<Rightarrow> sv1 | Some e \<Rightarrow> emit_event e mid sv1)
            in Inr (sv2, updated))"

subsection \<open>Mission lifecycle\<close>

text \<open>
  The result of \<^verbatim>\<open>create_mission\<close>: the mission returned, and the planning error that the source
  stores in the returned copy's metadata under \<^verbatim>\<open>planning_error\<close> (the stored mission lacks it).
\<close>

definition task_mission_of :: "mission_context \<Rightarrow> task_mission" where
  "task_mission_of ctx = \<lparr>tm_id = mc_id ctx, tm_title = mc_title ctx, tm_description = mc_objective ctx,
     tm_objective = mc_objective ctx, tm_priority = mc_priority ctx, tm_metadata = []\<rparr>"

definition fresh_mission :: "mission_context \<Rightarrow> mission_instance" where
  "fresh_mission ctx = \<lparr>mi_context = ctx, mi_state = Mission_CREATED, mi_plan = None, mi_agents = [],
     mi_statistics = zero_statistics, mi_metadata = []\<rparr>"

definition store_plan :: "time \<Rightarrow> task_plan \<Rightarrow> mission_instance \<Rightarrow> mission_instance" where
  "store_plan now plan m = m\<lparr>mi_plan := Some plan, mi_metadata := [(''plan_generated_at'', PFloat now)]\<rparr>"

text \<open>The body of \<^verbatim>\<open>create_mission\<close> from the planning on; \<open>m\<close> is the mission in its planning state.\<close>

definition plan_mission :: "time \<Rightarrow> mission_context \<Rightarrow> planned_task list \<Rightarrow> supervisor \<Rightarrow> mission_instance
    \<Rightarrow> supervisor \<times> (supervisor_error + mission_instance \<times> task_issue list option)" where
  "plan_mission now ctx tasks sv m =
     (case create_plan now (sv_planner sv) (task_mission_of ctx) tasks of
        Inl (PlanningError issues) \<Rightarrow>
          (case transition_mission now (mc_id ctx) Mission_FAILED sv of
             Inl err \<Rightarrow> (sv, Inl err)
           | Inr r \<Rightarrow> (fst r, Inr ((fresh_mission (mi_context (snd r)))\<lparr>mi_state := Mission_FAILED,
                                      mi_metadata := mi_metadata (snd r)\<rparr>, Some issues)))
      | Inl (PlanGraphError ge) \<Rightarrow> (sv, Inl (PlanningRaised ge))
      | Inr plan \<Rightarrow>
          (let sv' = put_mission (mc_id ctx) (store_plan now plan m) sv
           in case transition_mission now (mc_id ctx) Mission_READY sv' of
                Inl err \<Rightarrow> (sv', Inl err)
              | Inr r \<Rightarrow> (fst r, Inr (snd r, None))))"

definition create_mission :: "time \<Rightarrow> mission_context \<Rightarrow> planned_task list \<Rightarrow> supervisor
    \<Rightarrow> supervisor \<times> (supervisor_error + mission_instance \<times> task_issue list option)" where
  "create_mission now ctx tasks sv =
     (let mid = mc_id ctx in
      if mid \<in> set (dict_keys (sv_missions sv)) then (sv, Inl (MissionExists mid))
      else
        let sv1 = put_mission mid (fresh_mission ctx) sv;
            sv2 = sv1\<lparr>sv_agents := dict_set mid [] (sv_agents sv1)\<rparr>;
            sv3 = emit_event MISSION_CREATED mid sv2
        in case transition_mission now mid Mission_PLANNING sv3 of
             Inl err \<Rightarrow> (sv3, Inl err)
           | Inr r \<Rightarrow> plan_mission now ctx tasks (fst r) (snd r))"

definition start_mission :: "time \<Rightarrow> string \<Rightarrow> supervisor \<Rightarrow> supervisor_error + supervisor \<times> mission_instance" where
  "start_mission now mid sv = (case find_mission mid sv of Inl err \<Rightarrow> Inl err
     | Inr _ \<Rightarrow> transition_mission now mid Mission_RUNNING sv)"

text \<open>The three loops over the agents of a mission: every \<^verbatim>\<open>AgentLifecycleError\<close> is caught.\<close>

definition try_pause :: "time \<Rightarrow> string \<Rightarrow> lifecycle_manager \<Rightarrow> lifecycle_manager" where
  "try_pause now aid lm = (case get_agent aid lm of Inl _ \<Rightarrow> lm
     | Inr a \<Rightarrow> if inst_state a = Agent_RUNNING then after lm (pause_agent now aid lm) else lm)"

definition try_resume :: "time \<Rightarrow> string \<Rightarrow> lifecycle_manager \<Rightarrow> lifecycle_manager" where
  "try_resume now aid lm = (case get_agent aid lm of Inl _ \<Rightarrow> lm
     | Inr a \<Rightarrow> if inst_state a = Agent_PAUSED then after lm (resume_agent now aid lm) else lm)"

definition try_cancel :: "time \<Rightarrow> string \<Rightarrow> lifecycle_manager \<Rightarrow> lifecycle_manager" where
  "try_cancel now aid lm = after lm (cancel_agent now aid lm)"

definition with_agents :: "(string \<Rightarrow> lifecycle_manager \<Rightarrow> lifecycle_manager) \<Rightarrow> string \<Rightarrow> supervisor \<Rightarrow> supervisor" where
  "with_agents f mid sv = sv\<lparr>sv_lifecycle := fold f (mission_agents mid sv) (sv_lifecycle sv)\<rparr>"

definition pause_mission :: "time \<Rightarrow> string \<Rightarrow> supervisor \<Rightarrow> supervisor_error + supervisor \<times> mission_instance" where
  "pause_mission now mid sv = (case find_mission mid sv of Inl err \<Rightarrow> Inl err
     | Inr _ \<Rightarrow> bind_sum (transition_mission now mid Mission_PAUSED sv)
         (\<lambda>(sv1, m). Inr (with_agents (try_pause now) mid sv1, m)))"

definition resume_mission :: "time \<Rightarrow> string \<Rightarrow> supervisor \<Rightarrow> supervisor_error + supervisor \<times> mission_instance" where
  "resume_mission now mid sv = (case find_mission mid sv of Inl err \<Rightarrow> Inl err
     | Inr _ \<Rightarrow> bind_sum (transition_mission now mid Mission_RUNNING sv)
         (\<lambda>(sv1, m). Inr (with_agents (try_resume now) mid sv1, m)))"

definition cancel_mission :: "time \<Rightarrow> string \<Rightarrow> supervisor \<Rightarrow> supervisor_error + supervisor \<times> mission_instance" where
  "cancel_mission now mid sv = (case find_mission mid sv of Inl err \<Rightarrow> Inl err
     | Inr _ \<Rightarrow> bind_sum (transition_mission now mid Mission_CANCELLED sv)
         (\<lambda>(sv1, m). Inr (with_agents (try_cancel now) mid sv1, m)))"

subsection \<open>Tick\<close>

text \<open>The graph of a stored mission, and its in-place update.\<close>

definition mission_graph :: "mission_instance \<Rightarrow> exec_graph option" where
  "mission_graph m = (case mi_plan m of None \<Rightarrow> None | Some p \<Rightarrow> tp_graph p)"

definition set_mission_graph :: "string \<Rightarrow> exec_graph \<Rightarrow> supervisor \<Rightarrow> supervisor" where
  "set_mission_graph mid g sv = (case dict_get (sv_missions sv) mid of
     None \<Rightarrow> sv
   | Some m \<Rightarrow> put_mission mid (m\<lparr>mi_plan := map_option (\<lambda>p. p\<lparr>tp_graph := Some g\<rparr>) (mi_plan m)\<rparr>) sv)"

definition set_node_status :: "string \<Rightarrow> node_status \<Rightarrow> exec_graph \<Rightarrow> exec_graph" where
  "set_node_status nid st g = (case get_node nid g of Inl _ \<Rightarrow> g
     | Inr n \<Rightarrow> g\<lparr>graph_nodes := dict_set nid (n\<lparr>node_status := EnumV st\<rparr>) (graph_nodes g)\<rparr>)"

text \<open>Step 1: one agent of the mission reports a terminal state to its graph node.\<close>

definition sync_agent :: "string \<Rightarrow> string \<Rightarrow> exec_graph \<times> supervisor \<Rightarrow> exec_graph \<times> supervisor" where
  "sync_agent mid aid gs = (case gs of (g, sv) \<Rightarrow>
     (case get_agent aid (sv_lifecycle sv) of
        Inl _ \<Rightarrow> (g, sv)
      | Inr a \<Rightarrow>
         (let tid = ctx_task_id (inst_context a) in
          if tid = [] then (g, sv)
          else if inst_state a = Agent_COMPLETED
          then (case get_node tid g of Inl _ \<Rightarrow> (g, sv)
                | Inr n \<Rightarrow> (set_node_status tid Node_COMPLETED g, emit_event AGENT_COMPLETED mid sv))
          else if inst_state a = Agent_FAILED
          then (case get_node tid g of Inl _ \<Rightarrow> (g, sv)
                | Inr n \<Rightarrow> (set_node_status tid Node_FAILED g, emit_event AGENT_FAILED mid sv))
          else (g, sv))))"

text \<open>Step 2: all leaves are completed (a graph without leaves is not done).\<close>

definition graph_done :: "exec_graph \<Rightarrow> bool" where
  "graph_done g \<longleftrightarrow> get_leaves g \<noteq> [] \<and> (\<forall>n \<in> set (get_leaves g). status_is Node_COMPLETED (node_status n))"

definition deps_completed :: "exec_graph \<Rightarrow> string list \<Rightarrow> bool" where
  "deps_completed g deps \<longleftrightarrow> list_all (\<lambda>d. case get_node d g of Inl _ \<Rightarrow> False
     | Inr n \<Rightarrow> status_is Node_COMPLETED (node_status n)) deps"

text \<open>Step 3: a pending node whose predecessors are completed gets an agent.\<close>

definition task_context :: "(string \<Rightarrow> string \<Rightarrow> string) \<Rightarrow> string \<Rightarrow> supervisor \<Rightarrow> string \<Rightarrow> planned_task \<Rightarrow> agent_context" where
  "task_context uuid mid sv nid t =
     \<lparr>ctx_id = mid @ ''__'' @ nid @ ''__'' @ uuid mid nid, ctx_mission_id = mid, ctx_task_id = nid,
      ctx_capability = task_capability t,
      ctx_runtime = (case sv_selector sv of None \<Rightarrow> None | Some sel \<Rightarrow> sel (task_capability t)),
      ctx_metadata = []\<rparr>"

definition register_agent :: "string \<Rightarrow> string \<Rightarrow> supervisor \<Rightarrow> supervisor" where
  "register_agent mid aid sv =
     (let s = mission_agents mid sv
      in sv\<lparr>sv_agents := dict_set mid (if aid \<in> set s then s else s @ [aid]) (sv_agents sv)\<rparr>)"

definition launch_node :: "time \<Rightarrow> (string \<Rightarrow> string \<Rightarrow> string) \<Rightarrow> string \<Rightarrow> (string, planned_task) dict
    \<Rightarrow> graph_plan \<Rightarrow> string \<Rightarrow> exec_graph \<times> supervisor \<Rightarrow> exec_graph \<times> supervisor" where
  "launch_node now uuid mid task_lookup g_plan nid gs = (case gs of (g, sv) \<Rightarrow>
     (case get_node nid g of
        Inl _ \<Rightarrow> (g, sv)
      | Inr n \<Rightarrow>
         if \<not> status_is Node_PENDING (node_status n) then (g, sv)
         else if \<not> deps_completed g (dict_get_default (plan_dependencies g_plan) nid []) then (g, sv)
         else (case dict_get task_lookup nid of
           None \<Rightarrow> (g, sv)
         | Some t \<Rightarrow>
            (case create_agent now (task_context uuid mid sv nid t) [] (sv_lifecycle sv) of
               Inl _ \<Rightarrow> (g, sv)
             | Inr (lm1, a) \<Rightarrow>
                (let sv1 = register_agent mid (inst_id a) (sv\<lparr>sv_lifecycle := lm1\<rparr>)
                 in case start_agent now (inst_id a) lm1 of
                      Inl _ \<Rightarrow> (g, sv1)
                    | Inr (lm2, _) \<Rightarrow>
                        (set_node_status nid Node_RUNNING g,
                         emit_event TASK_READY mid (emit_event AGENT_CREATED mid
                           (sv1\<lparr>sv_lifecycle := lm2\<rparr>))))))))"

definition tick_mission :: "time \<Rightarrow> (string \<Rightarrow> string \<Rightarrow> string) \<Rightarrow> string \<Rightarrow> supervisor
    \<Rightarrow> supervisor_error + supervisor \<times> bool" where
  "tick_mission now uuid mid sv = (case find_mission mid sv of
     Inl err \<Rightarrow> Inl err
   | Inr m \<Rightarrow> (case mi_plan m of
       None \<Rightarrow> Inr (sv, False)
     | Some plan \<Rightarrow> (case tp_graph plan of
         None \<Rightarrow> Inr (sv, False)
       | Some g0 \<Rightarrow>
          (let task_lookup = fold (\<lambda>t d. dict_set (task_id t) t d) (tp_tasks plan) [];
               (g1, sv1) = fold (sync_agent mid) (mission_agents mid sv) (g0, sv);
               sv1' = set_mission_graph mid g1 sv1
           in case generate_plan g1 of
                Inl _ \<Rightarrow> Inr (sv1', True)
              | Inr g_plan \<Rightarrow>
                 if get_roots g1 = [] \<and> get_leaves g1 = [] \<and> list_nodes g1 = [] then Inr (sv1', False)
                 else if graph_done g1
                 then bind_sum (transition_mission now mid Mission_COMPLETED sv1')
                        (\<lambda>(sv2, _). Inr (emit_event GRAPH_COMPLETED mid sv2, True))
                 else let (g2, sv2) = fold (launch_node now uuid mid task_lookup g_plan)
                                        (concat (plan_levels g_plan)) (g1, sv1')
                      in Inr (set_mission_graph mid g2 sv2, True)))))"

fun tick_loop :: "time \<Rightarrow> (string \<Rightarrow> string \<Rightarrow> string) \<Rightarrow> (string \<times> mission_instance) list \<Rightarrow> supervisor
    \<Rightarrow> string list \<Rightarrow> supervisor_error + supervisor \<times> string list" where
  "tick_loop now uuid [] sv changed = Inr (sv, changed)"
| "tick_loop now uuid ((mid, m) # rest) sv changed =
     (if mi_state m = Mission_RUNNING
      then bind_sum (tick_mission now uuid mid sv)
             (\<lambda>(sv', c). tick_loop now uuid rest sv' (if c then changed @ [mid] else changed))
      else tick_loop now uuid rest sv changed)"

definition tick :: "time \<Rightarrow> (string \<Rightarrow> string \<Rightarrow> string) \<Rightarrow> supervisor \<Rightarrow> supervisor_error + supervisor \<times> string list" where
  "tick now uuid sv = tick_loop now uuid (sv_missions sv) sv []"

subsection \<open>Queries and cleanup\<close>

definition get_mission :: "string \<Rightarrow> supervisor \<Rightarrow> supervisor_error + mission_instance" where
  "get_mission mid sv = find_mission mid sv"

definition list_missions :: "mission_state option \<Rightarrow> supervisor \<Rightarrow> mission_instance list" where
  "list_missions st sv = (case st of None \<Rightarrow> dict_values (sv_missions sv)
     | Some s \<Rightarrow> filter (\<lambda>m. mi_state m = s) (dict_values (sv_missions sv)))"

definition get_statistics :: "supervisor \<Rightarrow> supervisor_statistics" where
  "get_statistics sv =
     (let ms = sv_missions sv;
          running = filter (\<lambda>aid. case get_agent aid (sv_lifecycle sv) of Inl _ \<Rightarrow> False
                      | Inr a \<Rightarrow> inst_state a = Agent_RUNNING) (concat (dict_values (sv_agents sv)));
          total = (0 :: rat); count = (0 :: nat)
      in \<lparr>missions_started = length (filter (\<lambda>(_, m).
            mi_state m \<in> {Mission_COMPLETED, Mission_RUNNING, Mission_FAILED}) ms),
          missions_completed = length (filter (\<lambda>(_, m). mi_state m = Mission_COMPLETED) ms),
          missions_failed = length (filter (\<lambda>(_, m). mi_state m = Mission_FAILED) ms),
          agents_created = sum_list (map (\<lambda>(mid, _). length (mission_agents mid sv)) ms),
          agents_running = length running,
          average_duration = (if count \<noteq> 0 then total / of_nat count else 0)\<rparr>)"

definition mission_terminal :: "mission_state \<Rightarrow> bool" where
  "mission_terminal s \<longleftrightarrow> s \<in> {Mission_COMPLETED, Mission_FAILED, Mission_CANCELLED}"

definition plan_age :: "time \<Rightarrow> mission_instance \<Rightarrow> time" where
  "plan_age now m = (case dict_get (mi_metadata m) ''plan_generated_at'' of
     Some (PFloat t) \<Rightarrow> now - t | _ \<Rightarrow> 0)"

definition remove_mission :: "time \<Rightarrow> string \<Rightarrow> supervisor \<Rightarrow> supervisor" where
  "remove_mission now mid sv =
     (let sv1 = with_agents (try_cancel now) mid sv
      in sv1\<lparr>sv_missions := dict_del mid (sv_missions sv1), sv_agents := dict_del mid (sv_agents sv1)\<rparr>)"

definition cleanup_missions :: "time \<Rightarrow> time \<Rightarrow> supervisor \<Rightarrow> supervisor \<times> nat" where
  "cleanup_missions now max_age sv =
     (let to_remove = map fst (filter (\<lambda>(mid, m). mission_terminal (mi_state m) \<and> plan_age now m > max_age)
                        (sv_missions sv))
      in (fold (remove_mission now) to_remove sv, length to_remove))"

end
