(* ===== verification/Supervisor_Correct.thy ===== *)
theory Supervisor_Correct
  imports Supervisor
begin

text \<open>
  Correctness of the supervisor: its invariant under every sequence of calls (calls made directly to
  the lifecycle manager included), the moves of a mission, what pausing and cancelling do to the
  agents, what a tick does, and what happens when planning fails.
\<close>

subsection \<open>Agents of a mission\<close>

definition pause_state :: "agent_state \<Rightarrow> agent_state" where
  "pause_state s = (if s = Agent_RUNNING then Agent_PAUSED else s)"

definition resume_state :: "agent_state \<Rightarrow> agent_state" where
  "resume_state s = (if s = Agent_PAUSED then Agent_RUNNING else s)"

definition cancel_state :: "agent_state \<Rightarrow> agent_state" where
  "cancel_state s = (if agent_terminal s then s else Agent_CANCELLED)"

lemma after_transition:
  "after lm (transition now aid t lm) = (case dict_get (lm_agents lm) aid of
     Some i \<Rightarrow> (if agent_allowed (inst_state i) t
        then emit aid (inst_state i) t (put_agent (moved_instance now t i) aid lm) else lm)
   | None \<Rightarrow> lm)"
proof (cases "transition now aid t lm")
  case (Inl e)
  then show ?thesis
    using transition_Inr[of now aid t lm] by (auto simp: after_def split: option.splits)
next
  case (Inr r)
  obtain m i where r: "r = (m, i)" by (cases r)
  with Inr transition_Inr[of now aid t lm m i] show ?thesis by (auto simp: after_def)
qed

lemma try_cancel_inv: "lifecycle_inv lm \<Longrightarrow> lifecycle_inv (try_cancel now aid lm)"
  using exec_lifecycle_inv[of lm "CancelAgent now aid"] by (simp add: try_cancel_def)

lemma try_pause_inv: "lifecycle_inv lm \<Longrightarrow> lifecycle_inv (try_pause now aid lm)"
  using exec_lifecycle_inv[of lm "PauseAgent now aid"] by (auto simp: try_pause_def split: sum.splits)

lemma try_resume_inv: "lifecycle_inv lm \<Longrightarrow> lifecycle_inv (try_resume now aid lm)"
  using exec_lifecycle_inv[of lm "ResumeAgent now aid"] by (auto simp: try_resume_def split: sum.splits)

lemma try_cancel_state:
  "agent_state_of (try_cancel now aid lm) j =
     (if j = aid then map_option cancel_state (agent_state_of lm j) else agent_state_of lm j)"
  by (auto simp: try_cancel_def cancel_agent_def after_transition agent_state_of_def cancel_state_def
      agent_allowed_def agent_terminal_def split: option.splits)

lemma try_pause_state:
  "agent_state_of (try_pause now aid lm) j =
     (if j = aid then map_option pause_state (agent_state_of lm j) else agent_state_of lm j)"
  by (auto simp: try_pause_def pause_agent_def get_agent_def find_agent_def after_transition agent_state_of_def
      pause_state_def agent_allowed_def split: option.splits)

lemma try_resume_state:
  "agent_state_of (try_resume now aid lm) j =
     (if j = aid then map_option resume_state (agent_state_of lm j) else agent_state_of lm j)"
  by (auto simp: try_resume_def resume_agent_def get_agent_def find_agent_def after_def agent_state_of_def
      resume_state_def Let_def split: option.splits)

interpretation cancels: keyed_update "try_cancel now" agent_state_of lifecycle_inv cancel_state for now
  by unfold_locales (auto simp: try_cancel_inv try_cancel_state cancel_state_def agent_terminal_def)

interpretation pauses: keyed_update "try_pause now" agent_state_of lifecycle_inv pause_state for now
  by unfold_locales (auto simp: try_pause_inv try_pause_state pause_state_def)

interpretation resumes: keyed_update "try_resume now" agent_state_of lifecycle_inv resume_state for now
  by unfold_locales (auto simp: try_resume_inv try_resume_state resume_state_def)

subsection \<open>Invariant\<close>

definition mission_allowed :: "mission_state \<Rightarrow> mission_state \<Rightarrow> bool" where
  "mission_allowed s t \<longleftrightarrow> t \<in> set (mission_successors s)"

lemma mission_terminal_iff: "mission_terminal s \<longleftrightarrow> (\<forall>t. \<not> mission_allowed s t)"
  by (cases s) (auto simp: mission_terminal_def mission_allowed_def)

text \<open>
  A stored mission between two calls: past creation; a plan exactly from the moment planning
  succeeded, with a well-formed graph that can be planned again; no plan and no planning time in
  the metadata when planning is pending or has failed.
\<close>

definition planned_mission :: "mission_instance \<Rightarrow> bool" where
  "planned_mission m \<longleftrightarrow> (\<exists>p g. mi_plan m = Some p \<and> tp_graph p = Some g \<and> wf_graph g \<and> no_orphans g)"

definition unplanned_mission :: "mission_instance \<Rightarrow> bool" where
  "unplanned_mission m \<longleftrightarrow> mi_plan m = None \<and> dict_get (mi_metadata m) ''plan_generated_at'' = None"

definition mission_ok :: "mission_instance \<Rightarrow> bool" where
  "mission_ok m \<longleftrightarrow> mi_state m \<noteq> Mission_CREATED \<and>
     (mi_state m \<in> {Mission_READY, Mission_RUNNING, Mission_PAUSED, Mission_COMPLETED} \<longrightarrow> planned_mission m) \<and>
     (mi_state m \<in> {Mission_PLANNING, Mission_FAILED} \<longrightarrow> unplanned_mission m) \<and>
     (mi_state m = Mission_CANCELLED \<longrightarrow> planned_mission m \<or> unplanned_mission m)"

definition supervisor_inv :: "supervisor \<Rightarrow> bool" where
  "supervisor_inv sv \<longleftrightarrow> keyed (\<lambda>m. mc_id (mi_context m)) (sv_missions sv) \<and>
     set (dict_keys (sv_agents sv)) = set (dict_keys (sv_missions sv)) \<and>
     (\<forall>m \<in> set (dict_values (sv_missions sv)). mission_ok m) \<and> lifecycle_inv (sv_lifecycle sv)"

lemma supervisor_simps [simp]:
  "sv_missions (emit_event e mid sv) = sv_missions sv" "sv_agents (emit_event e mid sv) = sv_agents sv"
  "sv_lifecycle (emit_event e mid sv) = sv_lifecycle sv" "sv_planner (emit_event e mid sv) = sv_planner sv"
  "sv_missions (put_mission mid m sv) = dict_set mid m (sv_missions sv)"
  "sv_agents (put_mission mid m sv) = sv_agents sv" "sv_lifecycle (put_mission mid m sv) = sv_lifecycle sv"
  "sv_planner (put_mission mid m sv) = sv_planner sv"
  "sv_missions (with_agents f mid sv) = sv_missions sv" "sv_agents (with_agents f mid sv) = sv_agents sv"
  "sv_lifecycle (with_agents f mid sv) = fold f (mission_agents mid sv) (sv_lifecycle sv)"
  by (simp_all add: emit_event_def put_mission_def with_agents_def)

lemma moved_mission_simps [simp]:
  "mi_state (moved_mission now t m) = t" "mi_context (moved_mission now t m) = mi_context m"
  "mi_plan (moved_mission now t m) = mi_plan m"
  "dict_get (mi_metadata (moved_mission now t m)) ''plan_generated_at'' = dict_get (mi_metadata m) ''plan_generated_at''"
  by (cases t; simp add: moved_mission_def)+

lemma transition_mission_Inr:
  "transition_mission now mid t sv = Inr (sv', m') \<longleftrightarrow>
     (\<exists>m. dict_get (sv_missions sv) mid = Some m \<and> mission_allowed (mi_state m) t \<and>
        m' = moved_mission now t m \<and>
        sv' = (case mission_event t of None \<Rightarrow> put_mission mid m' sv
                 | Some e \<Rightarrow> emit_event e mid (put_mission mid m' sv)))"
  by (auto simp: transition_mission_def find_mission_def mission_allowed_def Let_def split: option.splits)

lemma transition_mission_facts:
  assumes "transition_mission now mid t sv = Inr (sv', m')"
  shows "\<exists>m. dict_get (sv_missions sv) mid = Some m \<and> mission_allowed (mi_state m) t \<and>
    m' = moved_mission now t m" and "sv_missions sv' = dict_set mid m' (sv_missions sv)"
    and "sv_agents sv' = sv_agents sv" and "sv_lifecycle sv' = sv_lifecycle sv" and "sv_planner sv' = sv_planner sv"
  using assms by (auto simp: transition_mission_Inr split: option.splits)

lemma inv_mission:
  assumes "supervisor_inv sv" and "dict_get (sv_missions sv) mid = Some m"
  shows "mission_ok m" and "mc_id (mi_context m) = mid"
proof -
  have "m \<in> set (dict_values (sv_missions sv))" using map_of_SomeD[OF assms(2)] by force
  then show "mission_ok m" using assms(1) unfolding supervisor_inv_def by blast
  have "keyed (\<lambda>m. mc_id (mi_context m)) (sv_missions sv)" using assms(1) by (simp add: supervisor_inv_def)
  from keyed_get[OF this assms(2)] show "mc_id (mi_context m) = mid" .
qed

lemma inv_put_mission:
  assumes "supervisor_inv sv" and "mission_ok m" and "mc_id (mi_context m) = mid" "mid \<in> set (dict_keys (sv_agents sv))"
    and "sv_missions sv' = dict_set mid m (sv_missions sv)" "sv_agents sv' = sv_agents sv"
    "sv_lifecycle sv' = sv_lifecycle sv"
  shows "supervisor_inv sv'"
  using assms keyed_set[of "\<lambda>m. mc_id (mi_context m)" "sv_missions sv" m mid]
  by (auto simp: supervisor_inv_def set_dict_set[OF keyed_distinct])

lemma moved_mission_ok: "mission_ok m \<Longrightarrow> mission_allowed (mi_state m) t \<Longrightarrow>
    t \<in> {Mission_RUNNING, Mission_PAUSED, Mission_COMPLETED, Mission_CANCELLED} \<Longrightarrow> mission_ok (moved_mission now t m)"
  by (cases "mi_state m"; cases t)
    (auto simp: mission_ok_def mission_allowed_def planned_mission_def unplanned_mission_def)


lemma inv_agent_key: "supervisor_inv sv \<Longrightarrow> dict_get (sv_missions sv) mid = Some m \<Longrightarrow> mid \<in> set (dict_keys (sv_agents sv))"
  unfolding supervisor_inv_def using get_Some_key by metis

lemma transition_mission_inv:
  assumes "supervisor_inv sv" and "transition_mission now mid t sv = Inr (sv', m')"
    and "t \<in> {Mission_RUNNING, Mission_PAUSED, Mission_COMPLETED, Mission_CANCELLED}"
  shows "supervisor_inv sv'"
proof -
  note t = transition_mission_facts[OF assms(2)]
  from t(1) obtain m where m: "dict_get (sv_missions sv) mid = Some m" "mission_allowed (mi_state m) t"
    "m' = moved_mission now t m" by blast
  note ok = inv_mission[OF assms(1) m(1)]
  have "mission_ok m'" unfolding m(3) by (rule moved_mission_ok[OF ok(1) m(2) assms(3)])
  moreover have "mc_id (mi_context m') = mid" using ok(2) m(3) by simp
  ultimately show ?thesis
    by (rule inv_put_mission[OF assms(1) _ _ inv_agent_key[OF assms(1) m(1)] t(2-4)])
qed

lemma with_agents_inv:
  assumes "supervisor_inv sv" and "\<And>aid lm. lifecycle_inv lm \<Longrightarrow> lifecycle_inv (f aid lm)"
  shows "supervisor_inv (with_agents f mid sv)"
proof -
  have "lifecycle_inv lm \<Longrightarrow> lifecycle_inv (fold f ks lm)" for ks lm
    by (induction ks arbitrary: lm) (auto intro: assms(2))
  then show ?thesis using assms(1) by (simp add: supervisor_inv_def)
qed

named_theorems supervisor_keeps "calls preserve the supervisor invariant"

lemma start_mission_inv [supervisor_keeps]:
  "supervisor_inv sv \<Longrightarrow> start_mission now mid sv = Inr (sv', m) \<Longrightarrow> supervisor_inv sv'"
  by (auto simp: start_mission_def split: sum.splits intro: transition_mission_inv)

lemma pause_mission_inv [supervisor_keeps]:
  "supervisor_inv sv \<Longrightarrow> pause_mission now mid sv = Inr (sv', m) \<Longrightarrow> supervisor_inv sv'"
  by (auto simp: pause_mission_def bind_sum_def try_pause_inv split: sum.splits
      intro!: with_agents_inv intro: transition_mission_inv)

lemma resume_mission_inv [supervisor_keeps]:
  "supervisor_inv sv \<Longrightarrow> resume_mission now mid sv = Inr (sv', m) \<Longrightarrow> supervisor_inv sv'"
  by (auto simp: resume_mission_def bind_sum_def try_resume_inv split: sum.splits
      intro!: with_agents_inv intro: transition_mission_inv)

lemma cancel_mission_inv [supervisor_keeps]:
  "supervisor_inv sv \<Longrightarrow> cancel_mission now mid sv = Inr (sv', m) \<Longrightarrow> supervisor_inv sv'"
  by (auto simp: cancel_mission_def bind_sum_def try_cancel_inv split: sum.splits
      intro!: with_agents_inv intro: transition_mission_inv)

text \<open>
  The three outcomes of creating a mission under a new id: it is ready with its plan, it has failed
  because the tasks were rejected, or the plan generation raised and it is left in planning.
\<close>

definition created :: "time \<Rightarrow> mission_context \<Rightarrow> supervisor \<Rightarrow> mission_instance \<Rightarrow> supervisor \<Rightarrow> bool" where
  "created now ctx sv m sv' \<longleftrightarrow> sv_missions sv' = sv_missions sv @ [(mc_id ctx, m)] \<and>
     sv_agents sv' = dict_set (mc_id ctx) [] (sv_agents sv) \<and> sv_lifecycle sv' = sv_lifecycle sv \<and>
     mi_context m = ctx"

lemma create_mission_outcome:
  assumes "mc_id ctx \<notin> set (dict_keys (sv_missions sv))"
  shows "case create_plan now (sv_planner sv) (task_mission_of ctx) tasks of
      Inr plan \<Rightarrow> (\<exists>sv' m. create_mission now ctx tasks sv = (sv', Inr (m, None)) \<and> created now ctx sv m sv' \<and>
        mi_state m = Mission_READY \<and> mi_plan m = Some plan)
    | Inl (PlanningError issues) \<Rightarrow> (\<exists>sv' r m. create_mission now ctx tasks sv = (sv', Inr (r, Some issues)) \<and>
        created now ctx sv m sv' \<and> mi_state r = Mission_FAILED \<and> mi_state m = Mission_FAILED \<and> unplanned_mission m)
    | Inl (PlanGraphError e) \<Rightarrow> (\<exists>sv' m. create_mission now ctx tasks sv = (sv', Inl (PlanningRaised e)) \<and>
        created now ctx sv m sv' \<and> mi_state m = Mission_PLANNING \<and> unplanned_mission m)"
proof -
  let ?mid = "mc_id ctx"
  define m1 where "m1 = moved_mission now Mission_PLANNING (fresh_mission ctx)"
  define sv1 where "sv1 = put_mission ?mid (fresh_mission ctx) sv"
  define sv3 where "sv3 = emit_event MISSION_CREATED ?mid (sv1\<lparr>sv_agents := dict_set ?mid [] (sv_agents sv1)\<rparr>)"
  define sv4 where "sv4 = emit_event MISSION_CREATED ?mid (put_mission ?mid m1 sv3)"
  have get: "dict_get (sv_missions sv3) ?mid = Some (fresh_mission ctx)" by (simp add: sv3_def sv1_def)
  have t: "transition_mission now ?mid Mission_PLANNING sv3 = Inr (sv4, m1)"
    unfolding transition_mission_Inr using get
    by (simp add: mission_allowed_def fresh_mission_def m1_def sv4_def)
  have c: "create_mission now ctx tasks sv = plan_mission now ctx tasks sv4 m1"
    using assms t unfolding create_mission_def Let_def sv3_def sv1_def by simp
  have m1: "mi_state m1 = Mission_PLANNING" "unplanned_mission m1" "mi_context m1 = ctx"
    by (simp_all add: m1_def unplanned_mission_def fresh_mission_def)
  have get4: "dict_get (sv_missions sv4) ?mid = Some m1" by (simp add: sv4_def)
  have pl: "sv_planner sv4 = sv_planner sv" by (simp add: sv4_def sv3_def sv1_def)
  have sv4: "created now ctx sv m sv'" if "sv_missions sv' = dict_set ?mid m (sv_missions sv4)"
    "sv_agents sv' = sv_agents sv4" "sv_lifecycle sv' = sv_lifecycle sv4" "mi_context m = ctx" for m sv'
    using that assms by (simp add: created_def sv4_def sv3_def sv1_def dict_set_fresh)
  show ?thesis
  proof (cases "create_plan now (sv_planner sv) (task_mission_of ctx) tasks")
    case (Inr plan)
    let ?m = "store_plan now plan m1"
    let ?sv = "put_mission ?mid ?m sv4"
    let ?m' = "moved_mission now Mission_READY ?m"
    have "created now ctx sv ?m' (emit_event MISSION_CREATED ?mid (put_mission ?mid ?m' ?sv))"
      by (rule sv4) (simp_all add: m1(3) store_plan_def)
    moreover have "transition_mission now ?mid Mission_READY ?sv =
        Inr (emit_event MISSION_CREATED ?mid (put_mission ?mid (moved_mission now Mission_READY ?m) ?sv),
             moved_mission now Mission_READY ?m)"
      unfolding transition_mission_Inr using m1(1) by (simp add: mission_allowed_def store_plan_def)
    moreover have "mi_plan ?m' = Some plan" by (simp add: store_plan_def)
    ultimately show ?thesis
      using Inr pl by (simp add: c plan_mission_def Let_def)
  next
    case (Inl e)
    show ?thesis
    proof (cases e)
      case (PlanningError issues)
      let ?m = "moved_mission now Mission_FAILED m1"
      have "transition_mission now ?mid Mission_FAILED sv4 =
          Inr (emit_event MISSION_FAILED ?mid (put_mission ?mid ?m sv4), ?m)"
        unfolding transition_mission_Inr using m1(1) get4 by (simp add: mission_allowed_def)
      moreover have "unplanned_mission ?m" using m1(2) by (simp add: unplanned_mission_def)
      moreover have "created now ctx sv ?m (emit_event MISSION_FAILED ?mid (put_mission ?mid ?m sv4))"
        by (rule sv4) (simp_all add: m1(3))
      ultimately show ?thesis
        using Inl PlanningError pl by (auto simp: c plan_mission_def)
    next
      case (PlanGraphError ge)
      have "created now ctx sv m1 sv4" by (rule sv4) (simp_all add: m1(3) sv4_def)
      then show ?thesis using Inl PlanGraphError m1 pl by (auto simp: c plan_mission_def)
    qed
  qed
qed


lemma created_inv:
  assumes "supervisor_inv sv" and "mc_id ctx \<notin> set (dict_keys (sv_missions sv))"
    and "created now ctx sv m sv'" and "mission_ok m"
  shows "supervisor_inv sv'"
  using assms by (auto simp: supervisor_inv_def created_def keyed_def)

lemma planned_mission_created:
  assumes "create_plan now pl tm tasks = Inr plan" and "mi_plan m = Some plan"
  shows "planned_mission m"
proof -
  note f = planned_facts[OF assms(1)]
  let ?g = "task_graph (apply_strategy (pl_strategy pl) tasks)"
  have "\<exists>gp. generate_plan ?g = Inr gp"
    using assms(1) create_plan_Inr[of tasks pl now tm] f by (auto split: sum.splits)
  then have "no_orphans ?g"
    using generate_plan_outcome[OF wf_graph_keyed] f by (metis sum.distinct(1))
  then show ?thesis using f assms(2) by (simp add: planned_mission_def)
qed

lemma create_mission_cases:
  obtains (refused) "mc_id ctx \<in> set (dict_keys (sv_missions sv))"
      "create_mission now ctx tasks sv = (sv, Inl (MissionExists (mc_id ctx)))"
  | (added) m where "mc_id ctx \<notin> set (dict_keys (sv_missions sv))"
      "created now ctx sv m (fst (create_mission now ctx tasks sv))" "mission_ok m"
      "mi_state m \<in> {Mission_READY, Mission_FAILED, Mission_PLANNING}"
proof (cases "mc_id ctx \<in> set (dict_keys (sv_missions sv))")
  case True
  then show ?thesis using refused by (simp add: create_mission_def Let_def)
next
  case False
  note o = create_mission_outcome[OF False, of now tasks]
  show ?thesis
  proof (cases "create_plan now (sv_planner sv) (task_mission_of ctx) tasks")
    case (Inr plan)
    with o obtain sv' m where "create_mission now ctx tasks sv = (sv', Inr (m, None))"
      "created now ctx sv m sv'" "mi_state m = Mission_READY" "mi_plan m = Some plan" by auto
    then show ?thesis
      using added[OF False, of m] planned_mission_created[OF Inr] by (simp add: mission_ok_def)
  next
    case (Inl e)
    with o obtain m where "created now ctx sv m (fst (create_mission now ctx tasks sv))"
      "mi_state m \<in> {Mission_FAILED, Mission_PLANNING}" "unplanned_mission m"
      by (cases e) fastforce+
    then show ?thesis using added[OF False, of m] by (auto simp: mission_ok_def)
  qed
qed

lemma create_mission_inv [supervisor_keeps]:
  "supervisor_inv sv \<Longrightarrow> supervisor_inv (fst (create_mission now ctx tasks sv))"
proof -
  assume inv: "supervisor_inv sv"
  show ?thesis
  proof (cases rule: create_mission_cases[of ctx sv now tasks])
    case refused
    then show ?thesis using inv by simp
  next
    case (added m)
    then show ?thesis by (intro created_inv[OF inv added(1-3)])
  qed
qed

subsection \<open>Tick\<close>

text \<open>The in-place updates of a tick change node statuses and nothing else.\<close>

definition same_shape :: "exec_graph \<Rightarrow> exec_graph \<Rightarrow> bool" where
  "same_shape g g' \<longleftrightarrow> graph_edges g' = graph_edges g \<and>
     dict_keys (graph_nodes g') = dict_keys (graph_nodes g) \<and>
     (keyed node_id (graph_nodes g) \<longrightarrow> keyed node_id (graph_nodes g'))"

lemma same_shape_refl [simp]: "same_shape g g"
  by (simp add: same_shape_def)

lemma same_shape_trans: "same_shape g g' \<Longrightarrow> same_shape g' g'' \<Longrightarrow> same_shape g g''"
  by (simp add: same_shape_def)

lemma set_node_status_shape [simp]: "same_shape g (set_node_status nid st g)"
proof (cases "dict_get (graph_nodes g) nid")
  case (Some n)
  have "nid \<in> set (dict_keys (graph_nodes g))" using get_Some_key[OF Some] .
  moreover have "node_id n = nid" if "keyed node_id (graph_nodes g)" using keyed_get[OF that Some] .
  ultimately show ?thesis
    using Some by (auto simp: same_shape_def set_node_status_def get_node_def keys_set keyed_set)
qed (simp add: same_shape_def set_node_status_def get_node_def)

lemma same_shape_wf:
  assumes "same_shape g g'" and "wf_graph g \<and> no_orphans g"
  shows "wf_graph g' \<and> no_orphans g'"
proof -
  have "length (graph_nodes g') = length (graph_nodes g)"
    using assms(1) unfolding same_shape_def by (metis length_map)
  then show ?thesis
    using assms unfolding same_shape_def wf_graph_def no_orphans_def references_ok_def by simp
qed

lemma sync_agent_keeps:
  assumes "sync_agent mid aid (g, sv) = (g', sv')"
  shows "same_shape g g' \<and> sv_missions sv' = sv_missions sv \<and> sv_agents sv' = sv_agents sv \<and>
    sv_lifecycle sv' = sv_lifecycle sv"
  using assms by (auto simp: sync_agent_def Let_def split: sum.splits if_splits)

lemma sync_agents_keep:
  assumes "fold (sync_agent mid) aids (g, sv) = (g', sv')"
  shows "same_shape g g' \<and> sv_missions sv' = sv_missions sv \<and> sv_agents sv' = sv_agents sv \<and>
    sv_lifecycle sv' = sv_lifecycle sv"
  using assms
proof (induction aids arbitrary: g sv)
  case (Cons aid aids)
  obtain g1 sv1 where s: "sync_agent mid aid (g, sv) = (g1, sv1)" by (cases "sync_agent mid aid (g, sv)")
  from Cons.IH[of g1 sv1] Cons.prems s sync_agent_keeps[OF s] show ?case
    by (auto intro: same_shape_trans)
qed simp

lemma start_after_create:
  assumes "create_agent now ctx md lm = Inr (lm1, a)"
  shows "\<exists>lm2 a2. start_agent now (inst_id a) lm1 = Inr (lm2, a2)"
proof -
  have "dict_get (lm_agents lm1) (inst_id a) = Some a" "inst_state a = Agent_READY"
    using assms by (auto simp: create_agent_Inr newborn_def)
  then show ?thesis by (simp add: start_agent_transition transition_Inr agent_allowed_def)
qed

lemma register_agent_simps [simp]:
  "sv_missions (register_agent mid aid sv) = sv_missions sv"
  "sv_lifecycle (register_agent mid aid sv) = sv_lifecycle sv"
  "fst ` set (sv_agents (register_agent mid aid sv)) = insert mid (fst ` set (sv_agents sv))"
  by (simp_all add: register_agent_def Let_def)

lemma task_context_simps [simp]:
  "ctx_task_id (task_context uuid mid sv nid t) = nid" "ctx_mission_id (task_context uuid mid sv nid t) = mid"
  by (simp_all add: task_context_def)

lemma launch_node_cases:
  assumes "launch_node now uuid mid lookup gp nid (g, sv) = (g', sv')"
  obtains (idle) "g' = g" "sv' = sv"
  | (launched) n t lm1 a lm2 a2 where "get_node nid g = Inr n" "status_is Node_PENDING (node_status n)"
      "deps_completed g (dict_get_default (plan_dependencies gp) nid [])"
      "create_agent now (task_context uuid mid sv nid t) [] (sv_lifecycle sv) = Inr (lm1, a)"
      "start_agent now (inst_id a) lm1 = Inr (lm2, a2)" "g' = set_node_status nid Node_RUNNING g"
      "sv_missions sv' = sv_missions sv" "sv_lifecycle sv' = lm2"
      "sv_agents sv' = sv_agents (register_agent mid (inst_id a) (sv\<lparr>sv_lifecycle := lm1\<rparr>))"
proof (cases "(g', sv') = (g, sv)")
  case True
  then show ?thesis using idle by simp
next
  case False
  obtain n where n: "get_node nid g = Inr n" "status_is Node_PENDING (node_status n)"
      "deps_completed g (dict_get_default (plan_dependencies gp) nid [])"
    using assms False by (auto simp: launch_node_def split: sum.splits if_splits)
  obtain t where t: "dict_get lookup nid = Some t"
    using assms False n by (auto simp: launch_node_def split: option.splits)
  obtain lm1 a where c: "create_agent now (task_context uuid mid sv nid t) [] (sv_lifecycle sv) = Inr (lm1, a)"
    using assms False n t by (auto simp: launch_node_def split: sum.splits)
  obtain lm2 a2 where st: "start_agent now (inst_id a) lm1 = Inr (lm2, a2)"
    using start_after_create[OF c] by blast
  from assms n t c st show ?thesis
    by (intro launched[OF n c st]) (auto simp: launch_node_def Let_def)
qed

lemma launch_node_keeps:
  assumes "launch_node now uuid mid lookup gp nid (g, sv) = (g', sv')"
  shows "same_shape g g' \<and> sv_missions sv' = sv_missions sv \<and>
    insert mid (set (dict_keys (sv_agents sv'))) = insert mid (set (dict_keys (sv_agents sv))) \<and>
    (mid \<in> set (dict_keys (sv_agents sv)) \<longrightarrow> mid \<in> set (dict_keys (sv_agents sv'))) \<and>
    (lifecycle_inv (sv_lifecycle sv) \<longrightarrow> lifecycle_inv (sv_lifecycle sv'))"
  using assms
proof (cases rule: launch_node_cases)
  case (launched n t lm1 a lm2 a2)
  have "lifecycle_inv lm2" if "lifecycle_inv (sv_lifecycle sv)"
    using transition_inv[OF create_agent_inv[OF that launched(4)] launched(5)[unfolded start_agent_transition]]
    by simp
  with launched show ?thesis by (simp add: register_agent_simps(3)[simplified])
qed simp

lemma launch_nodes_keep:
  assumes "fold (launch_node now uuid mid lookup gp) nids (g, sv) = (g', sv')"
  shows "same_shape g g' \<and> sv_missions sv' = sv_missions sv \<and>
    insert mid (set (dict_keys (sv_agents sv'))) = insert mid (set (dict_keys (sv_agents sv))) \<and>
    (mid \<in> set (dict_keys (sv_agents sv)) \<longrightarrow> mid \<in> set (dict_keys (sv_agents sv'))) \<and>
    (lifecycle_inv (sv_lifecycle sv) \<longrightarrow> lifecycle_inv (sv_lifecycle sv'))"
  using assms
proof (induction nids arbitrary: g sv)
  case (Cons nid nids)
  obtain g1 sv1 where l: "launch_node now uuid mid lookup gp nid (g, sv) = (g1, sv1)"
    by (cases "launch_node now uuid mid lookup gp nid (g, sv)")
  from Cons.IH[of g1 sv1] Cons.prems l launch_node_keeps[OF l] show ?case
    using same_shape_trans[of g g1 g'] by simp
qed simp


definition status_at :: "exec_graph \<Rightarrow> string \<Rightarrow> node_status enum_or_str option" where
  "status_at g v = map_option node_status (dict_get (graph_nodes g) v)"

definition status_at_is :: "node_status \<Rightarrow> exec_graph \<Rightarrow> string \<Rightarrow> bool" where
  "status_at_is st g v \<longleftrightarrow> (case status_at g v of None \<Rightarrow> False | Some s \<Rightarrow> status_is st s)"

lemma status_at_set:
  "status_at (set_node_status nid st g) v =
     (if v = nid \<and> status_at g v \<noteq> None then Some (EnumV st) else status_at g v)"
  by (auto simp: status_at_def set_node_status_def get_node_def split: option.splits)

lemma deps_completed_iff: "deps_completed g ds \<longleftrightarrow> (\<forall>d \<in> set ds. status_at_is Node_COMPLETED g d)"
  by (auto simp: deps_completed_def list_all_iff status_at_is_def status_at_def get_node_def
      split: option.splits sum.splits)

lemma dependency_map_sources:
  "dict_get_default (dependency_map g) v [] = map edge_source (filter (\<lambda>e. edge_target e = v) (graph_edges g))"
proof -
  let ?f = "\<lambda>e deps. dict_set (edge_target e) (dict_get_default deps (edge_target e) [] @ [edge_source e]) deps"
  have "dict_get_default (fold ?f es d) v [] =
      dict_get_default d v [] @ map edge_source (filter (\<lambda>e. edge_target e = v) es)" for es d
    by (induction es arbitrary: d) auto
  moreover have "dict_get_default (map (\<lambda>nid. (nid, [])) ks) v [] = []" for ks :: "string list"
    by (simp add: dict_get_default_def map_of_map_pairs)
  ultimately show ?thesis unfolding dependency_map_def by (metis append_Nil)
qed

text \<open>
  What launching does to the statuses, relative to the graph the tick has synchronised: a status is
  unchanged, or a pending node whose predecessors are all completed is now running.
\<close>

definition launched_from :: "exec_graph \<Rightarrow> exec_graph \<Rightarrow> bool" where
  "launched_from g g' \<longleftrightarrow> graph_edges g' = graph_edges g \<and> (\<forall>v. status_at g' v = status_at g v \<or>
     (status_at_is Node_PENDING g v \<and> status_at g' v = Some (EnumV Node_RUNNING) \<and>
      (\<forall>e \<in> set (graph_edges g). edge_target e = v \<longrightarrow> status_at_is Node_COMPLETED g (edge_source e))))"

lemma running_is: "status_is st (EnumV Node_RUNNING) \<longleftrightarrow> st = Node_RUNNING"
  by (auto simp: status_is_def)

lemma launched_from_completed:
  "launched_from g g' \<Longrightarrow> status_at_is st g' v \<Longrightarrow> st \<noteq> Node_RUNNING \<Longrightarrow> status_at_is st g v"
  unfolding launched_from_def status_at_is_def by (metis option.simps(5) running_is)

lemma launch_node_from:
  assumes "launched_from g1 g" and "plan_dependencies gp = dependency_map g1"
    and "launch_node now uuid mid lookup gp nid (g, sv) = (g', sv')"
  shows "launched_from g1 g'"
  using assms(3)
proof (cases rule: launch_node_cases)
  case (launched n t lm1 a lm2 a2)
  have edges: "graph_edges g' = graph_edges g1"
    using assms(1) launched(6) set_node_status_shape[of g nid Node_RUNNING]
    by (simp add: launched_from_def same_shape_def)
  have pend: "status_at_is Node_PENDING g nid"
    using launched(1,2) by (auto simp: status_at_is_def status_at_def get_node_def split: option.splits)
  have "\<forall>d \<in> set (dict_get_default (dependency_map g1) nid []). status_at_is Node_COMPLETED g1 d"
    using launched(3) launched_from_completed[OF assms(1)] unfolding assms(2) deps_completed_iff by blast
  then have deps: "\<forall>e \<in> set (graph_edges g1). edge_target e = nid \<longrightarrow> status_at_is Node_COMPLETED g1 (edge_source e)"
    unfolding dependency_map_sources by auto
  have "status_at g' v = status_at g v \<or> v = nid \<and> status_at g' v = Some (EnumV Node_RUNNING)" for v
    unfolding launched(6) status_at_set by simp
  moreover have "status_at_is Node_PENDING g1 nid" by (rule launched_from_completed[OF assms(1) pend]) simp
  ultimately show ?thesis
    using assms(1) edges deps unfolding launched_from_def by (intro conjI allI) (blast, metis)
qed (use assms(1) in simp)

lemma launch_nodes_from:
  assumes "launched_from g1 g" and "plan_dependencies gp = dependency_map g1"
    and "fold (launch_node now uuid mid lookup gp) nids (g, sv) = (g', sv')"
  shows "launched_from g1 g'"
  using assms(1,3)
proof (induction nids arbitrary: g sv)
  case (Cons nid nids)
  obtain g2 sv2 where l: "launch_node now uuid mid lookup gp nid (g, sv) = (g2, sv2)"
    by (cases "launch_node now uuid mid lookup gp nid (g, sv)")
  show ?case
    by (rule Cons.IH[OF launch_node_from[OF Cons.prems(1) assms(2) l]]) (use Cons.prems(2) l in simp)
qed simp

text \<open>The graph a tick works on: the stored one after the agents have reported.\<close>

definition synced_graph :: "string \<Rightarrow> supervisor \<Rightarrow> exec_graph \<Rightarrow> exec_graph" where
  "synced_graph mid sv g = fst (fold (sync_agent mid) (mission_agents mid sv) (g, sv))"

lemma set_mission_graph_simps:
  assumes "dict_get (sv_missions sv) mid = Some m"
  shows "sv_missions (set_mission_graph mid g sv) =
      dict_set mid (m\<lparr>mi_plan := map_option (\<lambda>p. p\<lparr>tp_graph := Some g\<rparr>) (mi_plan m)\<rparr>) (sv_missions sv)"
    and "sv_agents (set_mission_graph mid g sv) = sv_agents sv"
    and "sv_lifecycle (set_mission_graph mid g sv) = sv_lifecycle sv"
  using assms by (simp_all add: set_mission_graph_def)

lemma regraph_ok:
  assumes "mission_ok m" and "mi_plan m = Some p" and "wf_graph g \<and> no_orphans g"
  shows "mission_ok (m\<lparr>mi_plan := Some (p\<lparr>tp_graph := Some g\<rparr>)\<rparr>)"
  using assms by (auto simp: mission_ok_def planned_mission_def unplanned_mission_def)

lemma set_mission_graph_inv:
  assumes inv: "supervisor_inv sv" and get: "dict_get (sv_missions sv) mid = Some m"
    and plan: "mi_plan m = Some p" and g: "wf_graph g \<and> no_orphans g"
  shows "supervisor_inv (set_mission_graph mid g sv)"
proof -
  note ok = inv_mission[OF inv get]
  show ?thesis
    by (rule inv_put_mission[OF inv regraph_ok[OF ok(1) plan g] _ inv_agent_key[OF inv get]])
      (use ok(2) plan in \<open>simp_all add: set_mission_graph_simps[OF get]\<close>)
qed

lemma running_planned:
  assumes "supervisor_inv sv" and "dict_get (sv_missions sv) mid = Some m" and "mi_state m = Mission_RUNNING"
  obtains p g where "mi_plan m = Some p" "tp_graph p = Some g" "wf_graph g \<and> no_orphans g"
  using inv_mission(1)[OF assms(1,2)] assms(3) by (auto simp: mission_ok_def planned_mission_def)

lemma graph_done_nonempty: "graph_done g \<Longrightarrow> get_leaves g \<noteq> []"
  by (simp add: graph_done_def)

text \<open>
  The result of ticking a running mission: the mission is completed when the synchronised graph is
  done, else it stays running with a graph in which some nodes have been launched.
\<close>

definition ticked :: "string \<Rightarrow> supervisor \<Rightarrow> mission_instance \<Rightarrow> exec_graph \<Rightarrow> supervisor \<Rightarrow> bool" where
  "ticked mid sv m g sv' \<longleftrightarrow> supervisor_inv sv' \<and> (\<exists>m' g'. dict_get (sv_missions sv') mid = Some m' \<and>
     mission_graph m' = Some g' \<and> launched_from (synced_graph mid sv g) g' \<and>
     mi_state m' = (if graph_done (synced_graph mid sv g) then Mission_COMPLETED else Mission_RUNNING)) \<and>
     (\<forall>k. k \<noteq> mid \<longrightarrow> dict_get (sv_missions sv') k = dict_get (sv_missions sv) k) \<and>
     dict_keys (sv_missions sv') = dict_keys (sv_missions sv)"

lemma launched_from_refl: "launched_from g g"
  by (simp add: launched_from_def)

lemma ticked_unlaunched:
  assumes inv: "supervisor_inv sv" and m: "dict_get (sv_missions sv) mid = Some m" "mi_state m = Mission_RUNNING"
    "mi_plan m = Some p"
    and sv1: "sv_missions sv1 = sv_missions sv" "sv_agents sv1 = sv_agents sv" "sv_lifecycle sv1 = sv_lifecycle sv"
    and g: "wf_graph g1 \<and> no_orphans g1" "synced_graph mid sv g0 = g1" "\<not> graph_done g1"
  shows "ticked mid sv m g0 (set_mission_graph mid g1 sv1)"
proof -
  have inv1: "supervisor_inv sv1" using inv sv1 by (simp add: supervisor_inv_def)
  have get1: "dict_get (sv_missions sv1) mid = Some m" using m(1) sv1(1) by simp
  have key: "mid \<in> set (dict_keys (sv_missions sv))" using m(1) by (rule get_Some_key)
  show ?thesis
    unfolding ticked_def
    using set_mission_graph_inv[OF inv1 get1 m(3) g(1)] set_mission_graph_simps[OF get1, of g1] g m sv1(1) key
    by (auto simp: mission_graph_def launched_from_refl keys_set)
qed

lemma tick_mission_result:
  assumes inv: "supervisor_inv sv" and m: "dict_get (sv_missions sv) mid = Some m" "mi_state m = Mission_RUNNING"
  shows "\<exists>p g sv' c. mi_plan m = Some p \<and> tp_graph p = Some g \<and>
    tick_mission now uuid mid sv = Inr (sv', c) \<and> ticked mid sv m g sv'"
proof -
  obtain p g where p: "mi_plan m = Some p" "tp_graph p = Some g" "wf_graph g \<and> no_orphans g"
    using running_planned[OF assms] .
  obtain g1 sv1 where s: "fold (sync_agent mid) (mission_agents mid sv) (g, sv) = (g1, sv1)"
    by (cases "fold (sync_agent mid) (mission_agents mid sv) (g, sv)")
  note sk = sync_agents_keep[OF s]
  have g1: "wf_graph g1 \<and> no_orphans g1" using same_shape_wf[of g g1] sk p(3) by blast
  have syn: "synced_graph mid sv g = g1" using s by (simp add: synced_graph_def)
  have inv1: "supervisor_inv sv1" using inv sk by (simp add: supervisor_inv_def)
  have get1: "dict_get (sv_missions sv1) mid = Some m" using m(1) sk by simp
  let ?sv = "set_mission_graph mid g1 sv1"
  note smg = set_mission_graph_simps[OF get1, of g1]
  let ?m = "m\<lparr>mi_plan := map_option (\<lambda>p. p\<lparr>tp_graph := Some g1\<rparr>) (mi_plan m)\<rparr>"
  have inv2: "supervisor_inv ?sv" by (rule set_mission_graph_inv[OF inv1 get1 p(1) g1])
  have get2: "dict_get (sv_missions ?sv) mid = Some ?m" by (simp add: smg)
  have key: "mid \<in> set (dict_keys (sv_missions sv))" using m(1) by (rule get_Some_key)
  obtain gp where gp: "generate_plan g1 = Inr gp"
    using generate_plan_outcome[OF wf_graph_keyed] g1 by metis
  have dm: "plan_dependencies gp = dependency_map g1"
    using generate_plan_Inr[OF wf_graph_keyed gp] g1 by blast
  have body: "tick_mission now uuid mid sv =
     (if get_roots g1 = [] \<and> get_leaves g1 = [] \<and> list_nodes g1 = [] then Inr (?sv, False)
      else if graph_done g1
      then bind_sum (transition_mission now mid Mission_COMPLETED ?sv)
             (\<lambda>(sv2, _). Inr (emit_event GRAPH_COMPLETED mid sv2, True))
      else let (g2, sv2) = fold (launch_node now uuid mid (fold (\<lambda>t d. dict_set (task_id t) t d) (tp_tasks p) []) gp)
                             (concat (plan_levels gp)) (g1, ?sv)
           in Inr (set_mission_graph mid g2 sv2, True))"
    unfolding tick_mission_def find_mission_def using m(1) p(1,2) s gp by (simp add: Let_def)
  note un = ticked_unlaunched[OF inv m p(1) _ _ _ g1 syn]
  show ?thesis
  proof (cases "get_roots g1 = [] \<and> get_leaves g1 = [] \<and> list_nodes g1 = []")
    case True
    then have "\<not> graph_done g1" by (auto simp: graph_done_def)
    then show ?thesis using True p body un[of sv1] sk by auto
  next
    case nonempty: False
    show ?thesis
    proof (cases "graph_done g1")
      case True
      let ?m2 = "moved_mission now Mission_COMPLETED ?m"
      let ?sv2 = "emit_event MISSION_COMPLETED mid (put_mission mid ?m2 ?sv)"
      have t: "transition_mission now mid Mission_COMPLETED ?sv = Inr (?sv2, ?m2)"
        unfolding transition_mission_Inr using get2 m(2) by (simp add: mission_allowed_def)
      have "supervisor_inv ?sv2" by (rule transition_mission_inv[OF inv2 t]) simp
      then have "ticked mid sv m g (emit_event GRAPH_COMPLETED mid ?sv2)"
        unfolding ticked_def syn using True p(1) sk key
        by (auto simp: supervisor_inv_def smg mission_graph_def launched_from_refl keys_set)
      moreover have "tick_mission now uuid mid sv = Inr (emit_event GRAPH_COMPLETED mid ?sv2, True)"
        using nonempty True t body by (auto simp: bind_sum_def)
      ultimately show ?thesis using p by blast
    next
      case False
      let ?lk = "fold (\<lambda>t d. dict_set (task_id t) t d) (tp_tasks p) []"
      obtain g2 sv2 where l: "fold (launch_node now uuid mid ?lk gp) (concat (plan_levels gp)) (g1, ?sv) = (g2, sv2)"
        by (cases "fold (launch_node now uuid mid ?lk gp) (concat (plan_levels gp)) (g1, ?sv)")
      note lk = launch_nodes_keep[OF l]
      have g2: "wf_graph g2 \<and> no_orphans g2" using same_shape_wf[of g1 g2] lk g1 by blast
      have mid2: "mid \<in> set (dict_keys (sv_agents ?sv))" by (rule inv_agent_key[OF inv2 get2])
      have keys: "set (dict_keys (sv_agents sv2)) = set (dict_keys (sv_agents ?sv))"
        using lk mid2 by (metis insert_absorb)
      have inv3: "supervisor_inv sv2" using inv2 lk unfolding supervisor_inv_def keys by simp
      have get3: "dict_get (sv_missions sv2) mid = Some ?m" using get2 lk by simp
      have plan3: "mi_plan ?m = Some (p\<lparr>tp_graph := Some g1\<rparr>)" using p(1) by simp
      have "supervisor_inv (set_mission_graph mid g2 sv2)"
        by (rule set_mission_graph_inv[OF inv3 get3 plan3 g2])
      moreover have "launched_from g1 g2" by (rule launch_nodes_from[OF launched_from_refl dm l])
      ultimately have "ticked mid sv m g (set_mission_graph mid g2 sv2)"
        unfolding ticked_def syn using False m(2) p(1) lk sk key
        by (auto simp: set_mission_graph_simps[OF get3] smg mission_graph_def keys_set)
      moreover have "tick_mission now uuid mid sv = Inr (set_mission_graph mid g2 sv2, True)"
        using nonempty False l body by (auto simp: Let_def)
      ultimately show ?thesis using p by blast
    qed
  qed
qed

definition mission_state_of :: "supervisor \<Rightarrow> string \<Rightarrow> mission_state option" where
  "mission_state_of sv mid = map_option mi_state (dict_get (sv_missions sv) mid)"

lemma tick_loop_result:
  assumes "supervisor_inv sv" and "distinct (map fst xs)"
    and "\<And>mid m. (mid, m) \<in> set xs \<Longrightarrow> mi_state m = Mission_RUNNING \<Longrightarrow> mission_state_of sv mid = Some Mission_RUNNING"
  shows "\<exists>sv' ch. tick_loop now uuid xs sv changed = Inr (sv', ch) \<and> supervisor_inv sv' \<and>
    (\<forall>k. if \<exists>m. (k, m) \<in> set xs \<and> mi_state m = Mission_RUNNING
         then mission_state_of sv' k \<in> {Some Mission_RUNNING, Some Mission_COMPLETED}
         else mission_state_of sv' k = mission_state_of sv k)"
  using assms
proof (induction xs arbitrary: sv changed)
  case Nil
  then show ?case by simp
next
  case (Cons x xs)
  obtain mid m where x: "x = (mid, m)" by (cases x)
  have new: "(mid, m') \<notin> set xs" for m' using Cons.prems(2) x by force
  have d: "distinct (map fst xs)" using Cons.prems(2) by simp
  show ?case
  proof (cases "mi_state m = Mission_RUNNING")
    case True
    then have "mission_state_of sv mid = Some Mission_RUNNING" using Cons.prems(3)[of mid m] x by simp
    then obtain m0 where m0: "dict_get (sv_missions sv) mid = Some m0" "mi_state m0 = Mission_RUNNING"
      by (auto simp: mission_state_of_def)
    obtain g sv1 c where t: "tick_mission now uuid mid sv = Inr (sv1, c)" "ticked mid sv m0 g sv1"
      using tick_mission_result[OF Cons.prems(1) m0] by blast
    have here: "mission_state_of sv1 mid \<in> {Some Mission_RUNNING, Some Mission_COMPLETED}"
      and there: "\<And>k. k \<noteq> mid \<Longrightarrow> mission_state_of sv1 k = mission_state_of sv k"
      and inv1: "supervisor_inv sv1"
      using t(2) by (auto simp: ticked_def mission_state_of_def)
    have run: "mission_state_of sv1 k = Some Mission_RUNNING"
      if "(k, m') \<in> set xs" "mi_state m' = Mission_RUNNING" for k m'
      using Cons.prems(3)[of k m'] that there[of k] new by force
    from Cons.IH[of sv1 "if c then changed @ [mid] else changed", OF inv1 d, OF run, of "\<lambda>_ m. m"] obtain sv' ch where
      "tick_loop now uuid xs sv1 (if c then changed @ [mid] else changed) = Inr (sv', ch)"
      and inv': "supervisor_inv sv'" and st: "\<And>k. if \<exists>m. (k, m) \<in> set xs \<and> mi_state m = Mission_RUNNING
         then mission_state_of sv' k \<in> {Some Mission_RUNNING, Some Mission_COMPLETED}
         else mission_state_of sv' k = mission_state_of sv1 k" by blast
    then have "tick_loop now uuid (x # xs) sv changed = Inr (sv', ch)"
      using True t(1) x by (simp add: bind_sum_def)
    moreover have "if \<exists>m. (k, m) \<in> set (x # xs) \<and> mi_state m = Mission_RUNNING
         then mission_state_of sv' k \<in> {Some Mission_RUNNING, Some Mission_COMPLETED}
         else mission_state_of sv' k = mission_state_of sv k" for k
    proof (cases "k = mid")
      case k: True
      then show ?thesis using st[of k] here new x True by auto
    next
      case k: False
      then have "(\<exists>m. (k, m) \<in> set (x # xs) \<and> mi_state m = Mission_RUNNING) \<longleftrightarrow>
          (\<exists>m. (k, m) \<in> set xs \<and> mi_state m = Mission_RUNNING)" using x by auto
      then show ?thesis using st[of k] there[OF k] by (simp only:)
    qed
    ultimately show ?thesis using inv' by blast
  next
    case False
    then have eq: "(\<exists>m. (k, m) \<in> set (x # xs) \<and> mi_state m = Mission_RUNNING) \<longleftrightarrow>
        (\<exists>m. (k, m) \<in> set xs \<and> mi_state m = Mission_RUNNING)" for k using x by auto
    have step: "tick_loop now uuid (x # xs) sv changed = tick_loop now uuid xs sv changed" using False x by simp
    have run: "mission_state_of sv k = Some Mission_RUNNING"
      if "(k, m') \<in> set xs" "mi_state m' = Mission_RUNNING" for k m'
      using Cons.prems(3)[of k m'] that by simp
    show ?thesis
      unfolding step eq using Cons.IH[of sv changed, OF Cons.prems(1) d, OF run, of "\<lambda>_ m. m"] by blast
  qed
qed

lemma tick_result:
  assumes "supervisor_inv sv"
  shows "\<exists>sv' ch. tick now uuid sv = Inr (sv', ch) \<and> supervisor_inv sv' \<and>
    (\<forall>k. if mission_state_of sv k = Some Mission_RUNNING
         then mission_state_of sv' k \<in> {Some Mission_RUNNING, Some Mission_COMPLETED}
         else mission_state_of sv' k = mission_state_of sv k)"
proof -
  have d: "distinct (map fst (sv_missions sv))" using assms by (auto simp: supervisor_inv_def keyed_def)
  have run: "(\<exists>m. (k, m) \<in> set (sv_missions sv) \<and> mi_state m = Mission_RUNNING) \<longleftrightarrow>
      mission_state_of sv k = Some Mission_RUNNING" for k
    by (auto simp: mission_state_of_def in_set_get[OF d])
  show ?thesis
    using tick_loop_result[OF assms d, of now uuid "[]"] run unfolding tick_def by (metis (no_types, lifting))
qed


subsection \<open>Cleanup\<close>

lemma remove_mission_inv: "supervisor_inv sv \<Longrightarrow> supervisor_inv (remove_mission now mid sv)"
  using with_agents_inv[of sv "try_cancel now" mid] try_cancel_inv
  by (auto simp: remove_mission_def Let_def supervisor_inv_def keyed_del set_dict_del)

lemma remove_missions_result:
  "sv_missions (fold (remove_mission now) ids sv) = fold dict_del ids (sv_missions sv)"
  by (induction ids arbitrary: sv) (simp_all add: remove_mission_def Let_def)

lemma cleanup_missions_inv [supervisor_keeps]:
  "supervisor_inv sv \<Longrightarrow> supervisor_inv (fst (cleanup_missions now age sv))"
  unfolding cleanup_missions_def Let_def fst_conv by (rule fold_invariant) (auto intro: remove_mission_inv)

lemma cleanup_missions_get:
  assumes "supervisor_inv sv"
  shows "dict_get (sv_missions (fst (cleanup_missions now age sv))) k =
    (case dict_get (sv_missions sv) k of None \<Rightarrow> None
     | Some m \<Rightarrow> if mission_terminal (mi_state m) \<and> plan_age now m > age then None else Some m)"
proof -
  have d: "distinct (map fst (sv_missions sv))" using assms by (auto simp: supervisor_inv_def keyed_def)
  let ?rm = "\<lambda>m. mission_terminal (mi_state m) \<and> plan_age now m > age"
  let ?ids = "map fst (filter (\<lambda>(mid, m). ?rm m) (sv_missions sv))"
  have "k \<in> set ?ids \<longleftrightarrow> (\<exists>m. dict_get (sv_missions sv) k = Some m \<and> ?rm m)"
    by (force simp: in_set_get[OF d, symmetric])
  then have "dict_get (sv_missions (fold (remove_mission now) ?ids sv)) k =
      (case dict_get (sv_missions sv) k of None \<Rightarrow> None | Some m \<Rightarrow> if ?rm m then None else Some m)"
    unfolding remove_missions_result fold_dict_del get_filter[OF d] by (auto split: option.splits)
  then show ?thesis by (simp add: cleanup_missions_def Let_def)
qed

subsection \<open>Any sequence of calls\<close>

datatype supervisor_op =
    CreateMission time mission_context "planned_task list"
  | StartMission time string
  | PauseMission time string
  | ResumeMission time string
  | CancelMission time string
  | Tick time "string \<Rightarrow> string \<Rightarrow> string"
  | CleanupMissions time time
  | OnSupervisorEvent handler
  | AgentCall lifecycle_op

definition after_call :: "supervisor \<Rightarrow> supervisor_error + supervisor \<times> 'r \<Rightarrow> supervisor" where
  "after_call sv r = (case r of Inl _ \<Rightarrow> sv | Inr (sv', _) \<Rightarrow> sv')"

text \<open>The last constructor is a call made to the shared lifecycle manager by someone else.\<close>

fun exec_supervisor :: "supervisor_op \<Rightarrow> supervisor \<Rightarrow> supervisor" where
  "exec_supervisor (CreateMission now ctx tasks) sv = fst (create_mission now ctx tasks sv)"
| "exec_supervisor (StartMission now mid) sv = after_call sv (start_mission now mid sv)"
| "exec_supervisor (PauseMission now mid) sv = after_call sv (pause_mission now mid sv)"
| "exec_supervisor (ResumeMission now mid) sv = after_call sv (resume_mission now mid sv)"
| "exec_supervisor (CancelMission now mid) sv = after_call sv (cancel_mission now mid sv)"
| "exec_supervisor (Tick now uuid) sv = after_call sv (tick now uuid sv)"
| "exec_supervisor (CleanupMissions now age) sv = fst (cleanup_missions now age sv)"
| "exec_supervisor (OnSupervisorEvent h) sv = on_supervisor_event h sv"
| "exec_supervisor (AgentCall c) sv = sv\<lparr>sv_lifecycle := exec_lifecycle c (sv_lifecycle sv)\<rparr>"

lemma exec_supervisor_inv:
  assumes "supervisor_inv sv"
  shows "supervisor_inv (exec_supervisor c sv)"
proof (cases c)
  case (Tick now uuid)
  then show ?thesis using tick_result[OF assms, of now uuid] by (auto simp: after_call_def)
next
  case (AgentCall x)
  then show ?thesis using assms exec_lifecycle_inv by (simp add: supervisor_inv_def)
next
  case (OnSupervisorEvent h)
  then show ?thesis using assms by (simp add: supervisor_inv_def on_supervisor_event_def)
qed (use assms in \<open>auto simp: after_call_def split: sum.splits intro: supervisor_keeps\<close>)

abbreviation mission_path :: "(mission_state \<times> mission_state) set" where
  "mission_path \<equiv> (table_steps mission_allowed)\<^sup>*"

lemma mission_stepI: "mission_allowed s t \<Longrightarrow> (s, t) \<in> mission_path"
  by (auto simp: table_steps_def)

lemma transition_mission_moves:
  assumes "transition_mission now mid t sv = Inr (sv', m')" and "mission_state_of sv k = Some s"
  shows "\<exists>t. mission_state_of sv' k = Some t \<and> (s, t) \<in> mission_path"
  using transition_mission_facts(1,2)[OF assms(1)] assms(2)
  by (auto simp: mission_state_of_def mission_stepI)

lemma mission_state_with_agents [simp]: "mission_state_of (with_agents f mid sv) k = mission_state_of sv k"
  by (simp add: mission_state_of_def)

lemma mission_call_moves:
  assumes "mission_state_of sv k = Some s"
    and "r \<in> {start_mission now mid sv, pause_mission now mid sv, resume_mission now mid sv, cancel_mission now mid sv}"
  shows "\<exists>t. mission_state_of (after_call sv r) k = Some t \<and> (s, t) \<in> mission_path"
  using assms transition_mission_moves[OF _ assms(1)]
  by (auto simp: start_mission_def pause_mission_def resume_mission_def cancel_mission_def bind_sum_def after_call_def
      split: sum.splits)

lemma exec_supervisor_moves:
  assumes "supervisor_inv sv" and "mission_state_of sv k = Some s"
  shows "(mission_state_of (exec_supervisor c sv) k = None \<and> mission_terminal s) \<or>
    (\<exists>t. mission_state_of (exec_supervisor c sv) k = Some t \<and> (s, t) \<in> mission_path)"
proof (cases c)
  case (CreateMission now ctx tasks)
  have "mission_state_of (fst (create_mission now ctx tasks sv)) k = Some s"
  proof (cases rule: create_mission_cases[of ctx sv now tasks])
    case refused
    then show ?thesis using assms(2) by simp
  next
    case (added m)
    then show ?thesis using assms(2) by (auto simp: created_def mission_state_of_def)
  qed
  then show ?thesis using CreateMission by auto
next
  case (Tick now uuid)
  have "(Mission_RUNNING, Mission_COMPLETED) \<in> mission_path" by (rule mission_stepI) (simp add: mission_allowed_def)
  moreover obtain sv' ch where "tick now uuid sv = Inr (sv', ch)"
    "if mission_state_of sv k = Some Mission_RUNNING
     then mission_state_of sv' k \<in> {Some Mission_RUNNING, Some Mission_COMPLETED}
     else mission_state_of sv' k = mission_state_of sv k"
    using tick_result[OF assms(1), of now uuid] by blast
  ultimately show ?thesis
    using Tick assms(2) by (auto simp: after_call_def split: if_splits)
next
  case (CleanupMissions now age)
  then show ?thesis
    using cleanup_missions_get[OF assms(1), of now age k] assms(2)
    by (auto simp: mission_state_of_def split: option.splits if_splits)
next
  case (AgentCall x)
  then show ?thesis using assms(2) by (auto simp: mission_state_of_def)
next
  case (OnSupervisorEvent h)
  then show ?thesis using assms(2) by (auto simp: mission_state_of_def on_supervisor_event_def)
qed (use mission_call_moves[OF assms(2)] in auto)

interpretation missions: machine_manager mission_allowed mission_terminal exec_supervisor mission_state_of supervisor_inv
  by unfold_locales (auto simp: mission_terminal_iff exec_supervisor_inv dest!: exec_supervisor_moves)

subsection \<open>Properties\<close>

lemma new_supervisor_inv: "supervisor_inv (new_supervisor pl (new_manager T) sel)"
  by (simp add: new_supervisor_def supervisor_inv_def new_manager_inv)

text \<open>
  C5. After any sequence of calls on a new supervisor, calls made directly to its lifecycle manager
  included, every mission is stored under its id and has an agent set, a mission that is ready,
  running, paused or completed has a plan whose graph is well formed and can be planned again, a
  mission whose planning failed has none, and the lifecycle manager's own invariant holds.
\<close>

theorem supervisor_invariant:
  "supervisor_inv (fold exec_supervisor cs (new_supervisor pl (new_manager T) sel))"
  by (rule missions.run_ok[OF new_supervisor_inv])

text \<open>
  Whatever has happened before, one more call either removes a mission that was in a terminal
  state or leaves it in a state reachable through the mission table; a terminal mission does not
  change its state.
\<close>

lemma mission_follows_table:
  assumes "mission_state_of (fold exec_supervisor cs (new_supervisor pl (new_manager T) sel)) k = Some s"
  shows "(mission_state_of (fold exec_supervisor (cs @ [c]) (new_supervisor pl (new_manager T) sel)) k = None \<and>
       mission_terminal s) \<or>
    (\<exists>t. mission_state_of (fold exec_supervisor (cs @ [c]) (new_supervisor pl (new_manager T) sel)) k = Some t \<and>
       (s, t) \<in> mission_path \<and> (mission_terminal s \<longrightarrow> t = s))"
  using missions.exec_moves[OF missions.run_ok[OF new_supervisor_inv] assms, of c] missions.terminal_stays
  by auto

text \<open>
  On an existing mission the calls succeed exactly in these states: start and resume both from
  ready and from paused, pause from running, cancel from every state that is not terminal.
\<close>

lemma mission_calls_decide:
  assumes "dict_get (sv_missions sv) mid = Some m"
  shows "((\<exists>r. start_mission now mid sv = Inr r) \<longleftrightarrow> mi_state m \<in> {Mission_READY, Mission_PAUSED}) \<and>
    ((\<exists>r. resume_mission now mid sv = Inr r) \<longleftrightarrow> mi_state m \<in> {Mission_READY, Mission_PAUSED}) \<and>
    ((\<exists>r. pause_mission now mid sv = Inr r) \<longleftrightarrow> mi_state m = Mission_RUNNING) \<and>
    ((\<exists>r. cancel_mission now mid sv = Inr r) \<longleftrightarrow> \<not> mission_terminal (mi_state m))"
  using assms
  by (cases "mi_state m")
    (auto simp: start_mission_def resume_mission_def pause_mission_def cancel_mission_def find_mission_def
      transition_mission_def bind_sum_def Let_def mission_terminal_def)

text \<open>
  Cancelling a mission cancels every agent of it that was not in a terminal state and no other
  agent of the system.
\<close>

lemma cancel_mission_agents:
  assumes "supervisor_inv sv" and "cancel_mission now mid sv = Inr (sv', m)"
  shows "mission_state_of sv' mid = Some Mission_CANCELLED \<and>
    (\<forall>aid. agent_state_of (sv_lifecycle sv') aid =
       (if aid \<in> set (mission_agents mid sv) then map_option cancel_state (agent_state_of (sv_lifecycle sv) aid)
        else agent_state_of (sv_lifecycle sv) aid))"
proof -
  obtain sv1 where t: "transition_mission now mid Mission_CANCELLED sv = Inr (sv1, m)"
    and sv': "sv' = with_agents (try_cancel now) mid sv1"
    using assms(2) by (auto simp: cancel_mission_def bind_sum_def split: sum.splits)
  note f = transition_mission_facts[OF t]
  have "mission_agents mid sv1 = mission_agents mid sv" by (simp add: mission_agents_def f(3))
  moreover have "lifecycle_inv (sv_lifecycle sv)" using assms(1) by (simp add: supervisor_inv_def)
  ultimately show ?thesis
    using f(1,2) sv' cancels.fold_state[of "sv_lifecycle sv"] by (auto simp: f(4) mission_state_of_def)
qed

text \<open>
  A mission that was paused can be resumed, and then runs again; its agents that were running
  before the pause run again, agents of other missions are as they were, and an agent of the mission
  that had been paused on its own before is resumed with the rest.
\<close>

lemma pause_resume_agents:
  assumes "supervisor_inv sv" and "pause_mission now mid sv = Inr (sv1, m1)"
  shows "\<exists>sv2 m2. resume_mission now' mid sv1 = Inr (sv2, m2) \<and>
    mission_state_of sv1 mid = Some Mission_PAUSED \<and> mission_state_of sv2 mid = Some Mission_RUNNING \<and>
    (\<forall>aid \<in> set (mission_agents mid sv). agent_state_of (sv_lifecycle sv1) aid \<noteq> Some Agent_RUNNING) \<and>
    (\<forall>aid. agent_state_of (sv_lifecycle sv2) aid =
       (if aid \<in> set (mission_agents mid sv) then map_option resume_state (agent_state_of (sv_lifecycle sv) aid)
        else agent_state_of (sv_lifecycle sv) aid))"
proof -
  obtain sva where t: "transition_mission now mid Mission_PAUSED sv = Inr (sva, m1)"
    and sv1: "sv1 = with_agents (try_pause now) mid sva"
    using assms(2) by (auto simp: pause_mission_def bind_sum_def split: sum.splits)
  note f = transition_mission_facts[OF t]
  have ag: "mission_agents mid sva = mission_agents mid sv" "mission_agents mid sv1 = mission_agents mid sv"
    using sv1 f(3) by (simp_all add: mission_agents_def)
  have lc: "lifecycle_inv (sv_lifecycle sv)" using assms(1) by (simp add: supervisor_inv_def)
  have st1: "agent_state_of (sv_lifecycle sv1) aid =
      (if aid \<in> set (mission_agents mid sv) then map_option pause_state (agent_state_of (sv_lifecycle sv) aid)
       else agent_state_of (sv_lifecycle sv) aid)" for aid
    using pauses.fold_state[OF lc] sv1 by (simp add: f(4) ag)
  have lc1: "lifecycle_inv (sv_lifecycle sv1)" using pauses.fold_ok[OF lc] sv1 by (simp add: f(4))
  have get1: "dict_get (sv_missions sv1) mid = Some m1" "mi_state m1 = Mission_PAUSED"
    using f(1,2) sv1 by auto
  let ?m2 = "moved_mission now' Mission_RUNNING m1"
  have r: "transition_mission now' mid Mission_RUNNING sv1 =
      Inr (emit_event MISSION_STARTED mid (put_mission mid ?m2 sv1), ?m2)"
    unfolding transition_mission_Inr using get1 by (simp add: mission_allowed_def)
  let ?sv2 = "with_agents (try_resume now') mid (emit_event MISSION_STARTED mid (put_mission mid ?m2 sv1))"
  have res: "resume_mission now' mid sv1 = Inr (?sv2, ?m2)"
    using r get1(1) by (simp add: resume_mission_def find_mission_def bind_sum_def)
  have ag2: "mission_agents mid (emit_event MISSION_STARTED mid (put_mission mid ?m2 sv1)) = mission_agents mid sv"
    using ag(2) by (simp add: mission_agents_def)
  have "agent_state_of (sv_lifecycle ?sv2) aid =
      (if aid \<in> set (mission_agents mid sv) then map_option resume_state (agent_state_of (sv_lifecycle sv) aid)
       else agent_state_of (sv_lifecycle sv) aid)" for aid
    using resumes.fold_state[OF lc1] st1
    by (cases "agent_state_of (sv_lifecycle sv) aid") (auto simp: ag2 resume_state_def pause_state_def)
  moreover have "\<forall>aid \<in> set (mission_agents mid sv). agent_state_of (sv_lifecycle sv1) aid \<noteq> Some Agent_RUNNING"
    using st1 by (auto simp: pause_state_def)
  moreover have "mission_state_of sv1 mid = Some Mission_PAUSED \<and> mission_state_of ?sv2 mid = Some Mission_RUNNING"
    using get1 by (simp add: mission_state_of_def)
  ultimately show ?thesis using res by blast
qed

lemma status_is_unique: "status_is s x \<Longrightarrow> status_is t x \<Longrightarrow> s = t"
  by (cases x; cases s; cases t) (auto simp: status_is_def)

text \<open>
  A tick of a running mission never raises: it completes the mission exactly when the graph, once
  the agents have reported, has all its leaves completed, and otherwise keeps it running; every node
  the tick sets running has all its predecessors completed.
\<close>

lemma tick_mission_safe:
  assumes "supervisor_inv sv" and "dict_get (sv_missions sv) mid = Some m" and "mi_state m = Mission_RUNNING"
    and "mission_graph m = Some g"
  shows "\<exists>sv' c m' g'. tick_mission now uuid mid sv = Inr (sv', c) \<and>
    dict_get (sv_missions sv') mid = Some m' \<and> mission_graph m' = Some g' \<and>
    mi_state m' = (if graph_done (synced_graph mid sv g) then Mission_COMPLETED else Mission_RUNNING) \<and>
    (\<forall>e \<in> set (graph_edges g'). status_at_is Node_RUNNING g' (edge_target e) \<longrightarrow>
       status_at_is Node_RUNNING (synced_graph mid sv g) (edge_target e) \<or>
       status_at_is Node_COMPLETED g' (edge_source e))"
proof -
  obtain sv' c where t: "tick_mission now uuid mid sv = Inr (sv', c)" "ticked mid sv m g sv'"
    using tick_mission_result[OF assms(1-3), of now uuid] assms(4) by (auto simp: mission_graph_def)
  let ?g = "synced_graph mid sv g"
  obtain m' g' where m': "dict_get (sv_missions sv') mid = Some m'" "mission_graph m' = Some g'"
    "launched_from ?g g'" "mi_state m' = (if graph_done ?g then Mission_COMPLETED else Mission_RUNNING)"
    using t(2) unfolding ticked_def by blast
  have keep: "status_at_is Node_COMPLETED g' v" if c: "status_at_is Node_COMPLETED ?g v" for v
  proof -
    have "\<not> status_at_is Node_PENDING ?g v"
      using c status_is_unique[of Node_COMPLETED _ Node_PENDING] by (auto simp: status_at_is_def split: option.splits)
    then have "status_at g' v = status_at ?g v" using m'(3) unfolding launched_from_def by blast
    then show ?thesis using c by (simp add: status_at_is_def)
  qed
  have "status_at_is Node_RUNNING ?g (edge_target e) \<or> status_at_is Node_COMPLETED g' (edge_source e)"
    if e: "e \<in> set (graph_edges g')" "status_at_is Node_RUNNING g' (edge_target e)" for e
  proof (cases "status_at g' (edge_target e) = status_at ?g (edge_target e)")
    case True
    then show ?thesis using e(2) by (simp add: status_at_is_def)
  next
    case False
    then have "status_at_is Node_COMPLETED ?g (edge_source e)"
      using m'(3) e(1) unfolding launched_from_def by metis
    then show ?thesis using keep by blast
  qed
  then show ?thesis using t(1) m' by blast
qed

text \<open>
  The periodic tick never raises, moves only running missions, and moves them only to completed:
  no mission is ever marked failed by a tick, also when tasks of it have failed.
\<close>

lemma tick_only_completes:
  assumes "supervisor_inv sv"
  shows "\<exists>sv' ch. tick now uuid sv = Inr (sv', ch) \<and> supervisor_inv sv' \<and>
    (\<forall>k. if mission_state_of sv k = Some Mission_RUNNING
         then mission_state_of sv' k \<in> {Some Mission_RUNNING, Some Mission_COMPLETED}
         else mission_state_of sv' k = mission_state_of sv k)"
  by (rule tick_result[OF assms])

text \<open>
  Creating a mission under a new id adds it and nothing else, in one of three states: ready with
  its plan; failed when the planner rejects the tasks; and left in planning, with the exception
  passed on, when an accepted task list cannot be planned because a task is isolated.
\<close>

lemma create_mission_decides:
  assumes "mc_id ctx \<notin> set (dict_keys (sv_missions sv))"
  shows "\<exists>m sv'. fst (create_mission now ctx tasks sv) = sv' \<and> created now ctx sv m sv' \<and>
    (if validate_plan tasks (pl_capabilities (sv_planner sv)) \<noteq> []
     then mi_state m = Mission_FAILED \<and> mi_plan m = None
     else if linked_tasks (apply_strategy (pl_strategy (sv_planner sv)) tasks)
     then mi_state m = Mission_READY \<and> mi_plan m \<noteq> None
     else mi_state m = Mission_PLANNING \<and>
       (\<exists>e. snd (create_mission now ctx tasks sv) = Inl (PlanningRaised (ValidationError e))))"
  using create_mission_outcome[OF assms, of now tasks]
    create_plan_result[of tasks "sv_planner sv" now "task_mission_of ctx"]
  by (fastforce simp: unplanned_mission_def split: if_splits)

text \<open>
  The cleanup never removes a mission whose planning failed, however old it is: the age of a
  mission is read from the time its plan was generated, which such a mission does not have.
\<close>

lemma cleanup_keeps_failed_missions:
  assumes "supervisor_inv sv" and "mission_state_of sv k = Some Mission_FAILED" and "0 \<le> age"
  shows "mission_state_of (fst (cleanup_missions now age sv)) k = Some Mission_FAILED"
proof -
  obtain m where m: "dict_get (sv_missions sv) k = Some m" "mi_state m = Mission_FAILED"
    using assms(2) by (auto simp: mission_state_of_def)
  then have "plan_age now m = 0"
    using inv_mission(1)[OF assms(1) m(1)] by (simp add: mission_ok_def unplanned_mission_def plan_age_def)
  then show ?thesis
    using cleanup_missions_get[OF assms(1), of now age k] m assms(3) by (simp add: mission_state_of_def)
qed

subsection \<open>A concrete run\<close>

definition sample_planner :: task_planner where
  "sample_planner = \<lparr>pl_strategy = BALANCED, pl_capabilities = None\<rparr>"

definition sample_ctx :: "string \<Rightarrow> mission_context" where
  "sample_ctx i = \<lparr>mc_id = i, mc_title = i, mc_objective = [], mc_priority = 5, mc_metadata = []\<rparr>"

definition empty_supervisor :: supervisor where
  "empty_supervisor = new_supervisor sample_planner (new_manager 300) None"

definition running_supervisor :: supervisor where
  "running_supervisor = fold exec_supervisor
     [CreateMission 1 (sample_ctx ''m'') sample_tasks, StartMission 2 ''m''] empty_supervisor"

definition failed_supervisor :: supervisor where
  "failed_supervisor = exec_supervisor (CreateMission 1 (sample_ctx ''m'') [sample_task ''b'' [''a'']]) empty_supervisor"

lemma sample_plan: "\<exists>plan. create_plan now sample_planner tm sample_tasks = Inr plan"
proof -
  have "chain_tasks sample_tasks"
    using sample_tasks_ordered by (simp add: chain_tasks_def sample_tasks_def sample_task_def less_Suc_eq)
  then have "linked_tasks sample_tasks" by (rule chain_linked)
  then show ?thesis
    using create_plan_result[of sample_tasks sample_planner now tm] sample_tasks_valid
    by (auto simp: sample_planner_def)
qed

lemma empty_supervisor_missions: "sv_missions empty_supervisor = []" "sv_planner empty_supervisor = sample_planner"
  by (simp_all add: empty_supervisor_def new_supervisor_def)

lemma running_supervisor_inv: "supervisor_inv running_supervisor"
  unfolding running_supervisor_def empty_supervisor_def by (rule missions.run_ok[OF new_supervisor_inv])

lemma running_supervisor_mission:
  "\<exists>m. dict_get (sv_missions running_supervisor) ''m'' = Some m \<and> mi_state m = Mission_RUNNING"
proof -
  let ?sv = "fst (create_mission 1 (sample_ctx ''m'') sample_tasks empty_supervisor)"
  obtain m where m: "created 1 (sample_ctx ''m'') empty_supervisor m ?sv" "mi_state m = Mission_READY"
    using create_mission_outcome[of "sample_ctx ''m''" empty_supervisor 1 sample_tasks]
      sample_plan[of 1 "task_mission_of (sample_ctx ''m'')"]
    by (auto simp: empty_supervisor_missions sample_ctx_def)
  then have get: "dict_get (sv_missions ?sv) ''m'' = Some m"
    by (simp add: created_def empty_supervisor_missions sample_ctx_def)
  let ?m = "moved_mission 2 Mission_RUNNING m"
  have "transition_mission 2 ''m'' Mission_RUNNING ?sv =
      Inr (emit_event MISSION_STARTED ''m'' (put_mission ''m'' ?m ?sv), ?m)"
    unfolding transition_mission_Inr using get m(2) by (simp add: mission_allowed_def)
  then have r: "running_supervisor = emit_event MISSION_STARTED ''m'' (put_mission ''m'' ?m ?sv)"
    using get by (simp add: running_supervisor_def start_mission_def find_mission_def after_call_def)
  show ?thesis unfolding r by simp
qed

lemma failed_supervisor_mission: "supervisor_inv failed_supervisor \<and> mission_state_of failed_supervisor ''m'' = Some Mission_FAILED"
proof -
  let ?ts = "[sample_task ''b'' [''a'']]"
  have "validate_plan ?ts None \<noteq> []"
    by (simp add: validate_plan_def validate_tasks_def sample_task_def)
  then have "create_plan 1 sample_planner (task_mission_of (sample_ctx ''m'')) ?ts = Inl (PlanningError (validate_plan ?ts None))"
    using create_plan_result[of ?ts sample_planner 1 "task_mission_of (sample_ctx ''m'')"] by (simp add: sample_planner_def)
  then have "mission_state_of failed_supervisor ''m'' = Some Mission_FAILED"
    using create_mission_outcome[of "sample_ctx ''m''" empty_supervisor 1 ?ts]
    by (auto simp: failed_supervisor_def empty_supervisor_missions sample_ctx_def created_def mission_state_of_def)
  then show ?thesis
    using exec_supervisor_inv[OF new_supervisor_inv] unfolding failed_supervisor_def empty_supervisor_def by blast
qed

lemma mission_follows_table_example:
  "\<exists>t. mission_state_of (fold exec_supervisor ([CreateMission 1 (sample_ctx ''m'') sample_tasks, StartMission 2 ''m''] @
      [PauseMission 3 ''m'']) (new_supervisor sample_planner (new_manager 300) None)) ''m'' = Some t \<and>
     (Mission_RUNNING, t) \<in> mission_path"
  using mission_follows_table[of "[CreateMission 1 (sample_ctx ''m'') sample_tasks, StartMission 2 ''m'']" sample_planner 300
      None "''m''" Mission_RUNNING "PauseMission 3 ''m''"] running_supervisor_mission
  by (auto simp: running_supervisor_def empty_supervisor_def mission_state_of_def mission_terminal_def)

lemma mission_calls_decide_example:
  "(\<exists>r. pause_mission 3 ''m'' running_supervisor = Inr r) \<and> \<not> (\<exists>r. start_mission 3 ''m'' running_supervisor = Inr r)"
proof -
  obtain m where m: "dict_get (sv_missions running_supervisor) ''m'' = Some m" "mi_state m = Mission_RUNNING"
    using running_supervisor_mission by blast
  show ?thesis using mission_calls_decide[OF m(1), of 3] m(2) by simp
qed

lemma cancel_mission_agents_example:
  "\<exists>sv' m. cancel_mission 3 ''m'' running_supervisor = Inr (sv', m) \<and> mission_state_of sv' ''m'' = Some Mission_CANCELLED"
proof -
  obtain m where m: "dict_get (sv_missions running_supervisor) ''m'' = Some m" "mi_state m = Mission_RUNNING"
    using running_supervisor_mission by blast
  then obtain sv' m' where c: "cancel_mission 3 ''m'' running_supervisor = Inr (sv', m')"
    by (auto simp: cancel_mission_def find_mission_def transition_mission_def bind_sum_def Let_def)
  from cancel_mission_agents[OF running_supervisor_inv c] c show ?thesis by blast
qed

lemma pause_resume_agents_example:
  "\<exists>sv1 m1 sv2 m2. pause_mission 3 ''m'' running_supervisor = Inr (sv1, m1) \<and>
     resume_mission 4 ''m'' sv1 = Inr (sv2, m2) \<and> mission_state_of sv2 ''m'' = Some Mission_RUNNING"
proof -
  obtain m where m: "dict_get (sv_missions running_supervisor) ''m'' = Some m" "mi_state m = Mission_RUNNING"
    using running_supervisor_mission by blast
  then obtain sv1 m1 where c: "pause_mission 3 ''m'' running_supervisor = Inr (sv1, m1)"
    by (auto simp: pause_mission_def find_mission_def transition_mission_def bind_sum_def Let_def)
  from pause_resume_agents[OF running_supervisor_inv c, of 4] c show ?thesis by blast
qed

lemma tick_mission_safe_example:
  "\<exists>sv' c. tick_mission 3 (\<lambda>_ _. ''u'') ''m'' running_supervisor = Inr (sv', c)"
proof -
  obtain m where m: "dict_get (sv_missions running_supervisor) ''m'' = Some m" "mi_state m = Mission_RUNNING"
    using running_supervisor_mission by blast
  obtain p g where "mi_plan m = Some p" "tp_graph p = Some g"
    using running_planned[OF running_supervisor_inv m] by blast
  then have "mission_graph m = Some g" by (simp add: mission_graph_def)
  from tick_mission_safe[OF running_supervisor_inv m this, of 3 "\<lambda>_ _. ''u''"] show ?thesis by blast
qed

lemma tick_only_completes_example:
  "\<exists>sv' ch. tick 3 (\<lambda>_ _. ''u'') running_supervisor = Inr (sv', ch) \<and>
     mission_state_of sv' ''m'' \<in> {Some Mission_RUNNING, Some Mission_COMPLETED}"
proof -
  have "mission_state_of running_supervisor ''m'' = Some Mission_RUNNING"
    using running_supervisor_mission by (auto simp: mission_state_of_def)
  then show ?thesis using tick_only_completes[OF running_supervisor_inv, of 3 "\<lambda>_ _. ''u''"] by metis
qed

lemma create_mission_decides_example:
  "\<exists>m. created 1 (sample_ctx ''m'') empty_supervisor m
     (fst (create_mission 1 (sample_ctx ''m'') sample_tasks empty_supervisor))"
  using create_mission_decides[of "sample_ctx ''m''" empty_supervisor 1 sample_tasks]
  by (auto simp: empty_supervisor_missions)

lemma cleanup_keeps_failed_missions_example:
  "mission_state_of (fst (cleanup_missions 1000000 3600 failed_supervisor)) ''m'' = Some Mission_FAILED"
  using failed_supervisor_mission by (intro cleanup_keeps_failed_missions) simp_all

end
