(* ===== verification/RuntimeRegistry.thy ===== *)
theory RuntimeRegistry
  imports Prelude
begin

text \<open>
  Runtimes, their registry and the capability-aware selector: \<^verbatim>\<open>src/backend/ral/runtime.py\<close>,
  \<^verbatim>\<open>runtime_registry.py\<close>, \<^verbatim>\<open>runtime_selector.py\<close> and the health check of
  \<^verbatim>\<open>runtime_factory.py\<close>. A runtime object is an identity (\<open>rid\<close>); its attributes are given by an
  environment, fixed while one request is served. \<^verbatim>\<open>is\<close> on objects is equality of identities.
\<close>

subsection \<open>Data\<close>

datatype runtime_status = Status_STARTING | Status_STARTED | Status_STOPPING | Status_STOPPED | Status_ERROR

type_synonym rid = nat

record runtime_info =
  ri_name :: string
  ri_capabilities :: "string list option"
  ri_status :: runtime_status

type_synonym runtime_env = "rid \<Rightarrow> runtime_info"
type_synonym registry = "(string, rid) dict"

datatype registry_error = NotRegistered string
datatype selection_error = PreferredNotRegistered string | NoRuntime string

subsection \<open>Registry\<close>

definition registry_register :: "string \<Rightarrow> rid \<Rightarrow> registry \<Rightarrow> registry" where
  "registry_register name r reg = dict_set name r reg"

definition registry_get :: "string \<Rightarrow> registry \<Rightarrow> registry_error + rid" where
  "registry_get name reg = (case dict_get reg name of None \<Rightarrow> Inl (NotRegistered name) | Some r \<Rightarrow> Inr r)"

definition list_available :: "registry \<Rightarrow> string list" where
  "list_available reg = sort (dict_keys reg)"

definition registry_remove :: "string \<Rightarrow> registry \<Rightarrow> registry_error + registry" where
  "registry_remove name reg =
     (if name \<notin> set (dict_keys reg) then Inl (NotRegistered name) else Inr (dict_del name reg))"

fun find_name :: "rid \<Rightarrow> registry \<Rightarrow> string option" where
  "find_name r [] = None"
| "find_name r ((name, x) # reg) = (if x = r then Some name else find_name r reg)"

subsection \<open>Selection rules\<close>

definition health_check :: "runtime_env \<Rightarrow> rid \<Rightarrow> bool" where
  "health_check env r \<longleftrightarrow> ri_status (env r) = Status_STARTED"

definition has_capability :: "runtime_env \<Rightarrow> string \<Rightarrow> rid \<Rightarrow> bool" where
  "has_capability env cap r = (case ri_capabilities (env r) of None \<Rightarrow> False | Some cs \<Rightarrow> cap \<in> set cs)"

definition preference_tag :: "runtime_env \<Rightarrow> string \<Rightarrow> rid \<Rightarrow> bool" where
  "preference_tag env tag r = is_infix (str_lower tag) (str_lower (ri_name (env r)))"

definition selection_rules :: "runtime_env \<Rightarrow> string \<Rightarrow> string option \<Rightarrow> rid \<Rightarrow> bool" where
  "selection_rules env cap preference r \<longleftrightarrow> has_capability env cap r \<and> health_check env r \<and>
     (case preference of None \<Rightarrow> True | Some tag \<Rightarrow> preference_tag env tag r)"

definition candidates :: "registry \<Rightarrow> rid list" where
  "candidates reg = map (\<lambda>name. the (dict_get reg name)) (list_available reg)"

definition list_compatible :: "runtime_env \<Rightarrow> registry \<Rightarrow> string \<Rightarrow> string option \<Rightarrow> rid list" where
  "list_compatible env reg cap preference = filter (selection_rules env cap preference) (candidates reg)"

definition select_from :: "runtime_env \<Rightarrow> registry \<Rightarrow> string \<Rightarrow> string option \<Rightarrow> selection_error + rid" where
  "select_from env reg cap preference =
     (case List.find (selection_rules env cap preference) (candidates reg) of
        None \<Rightarrow> Inl (NoRuntime cap) | Some r \<Rightarrow> Inr r)"

definition select_runtime :: "runtime_env \<Rightarrow> registry \<Rightarrow> string \<Rightarrow> string option \<Rightarrow> string option
    \<Rightarrow> selection_error + rid" where
  "select_runtime env reg cap preference preferred = (case preferred of
     None \<Rightarrow> select_from env reg cap preference
   | Some name \<Rightarrow> (case registry_get name reg of
       Inl _ \<Rightarrow> Inl (PreferredNotRegistered name)
     | Inr r \<Rightarrow> if has_capability env cap r \<and> health_check env r then Inr r
               else select_from env reg cap preference))"

subsection \<open>Lemmas\<close>

lemma find_name_Some:
  "distinct (dict_keys reg) \<Longrightarrow> find_name r reg = Some name \<Longrightarrow> dict_get reg name = Some r"
  by (induction r reg rule: find_name.induct) (auto split: if_splits dest: map_of_SomeD intro: rev_image_eqI)

lemma find_name_None_iff: "find_name r reg = None \<longleftrightarrow> r \<notin> set (dict_values reg)"
  by (induction r reg rule: find_name.induct) auto

lemma set_candidates: "distinct (dict_keys reg) \<Longrightarrow> set (candidates reg) = set (dict_values reg)"
proof -
  assume d: "distinct (dict_keys reg)"
  have "(\<lambda>name. the (dict_get reg name)) ` set (dict_keys reg) = set (dict_values reg)"
    using d by (force simp: image_image image_iff)
  then show ?thesis by (simp add: candidates_def list_available_def)
qed

lemma select_from_Inr:
  "select_from env reg cap pref = Inr r \<Longrightarrow> r \<in> set (candidates reg) \<and> selection_rules env cap pref r"
  by (auto simp: select_from_def find_Some_iff in_set_conv_nth split: option.splits)

lemma select_from_Inl:
  "select_from env reg cap pref = Inl e \<longleftrightarrow> e = NoRuntime cap \<and>
     (\<forall>r \<in> set (candidates reg). \<not> selection_rules env cap pref r)"
  by (auto simp: select_from_def find_None_iff split: option.splits dest!: iffD1[OF find_Some_iff])

end
