(* ===== verification/RuntimePolicy.thy ===== *)
theory RuntimePolicy
  imports RuntimeRegistry "HOL-Library.Product_Lexorder"
begin

text \<open>
  The declarative policy engine, \<^verbatim>\<open>src/backend/ral/runtime_policy.py\<close>: rules, policies, their
  store and the evaluation of an execution context. A \<^verbatim>\<open>frozenset\<close> is the list of its
  elements, of which only membership is used; the text of a rejection is a datatype value that
  carries what the text quotes.
\<close>

subsection \<open>Data\<close>

record policy_rule =
  pr_allowed_runtimes :: "string list option"
  pr_denied_runtimes :: "string list option"
  pr_required_capabilities :: "string list option"
  pr_local_only :: "bool option"
  pr_cloud_allowed :: "bool option"
  pr_preferred_runtime :: "string option"
  pr_preferred_provider :: "string option"
  pr_confidential :: "bool option"
  pr_max_latency :: "rat option"
  pr_min_reliability :: "rat option"
  pr_metadata :: metadata

record runtime_policy =
  po_name :: string
  po_enabled :: bool
  po_priority :: int
  po_description :: string
  po_rules :: "policy_rule list"

datatype rejection =
    NotInAllowed "string option" "string list"
  | ExplicitlyDenied string
  | CapabilityNotInSet string "string list"
  | ProviderNotLocal string
  | CloudDisallowed
  | NotConfidential
  | LatencyExceeds rat rat
  | ReliabilityBelow rat rat

record policy_result =
  pl_allowed :: bool
  pl_policy_name :: string
  pl_rejected_reason :: "rejection option"
  pl_preferred_runtime :: "string option"
  pl_preferred_provider :: "string option"
  pl_applied_rules :: nat
  pl_metadata :: metadata

record execution_context =
  cx_capability :: string
  cx_runtime_name :: "string option"
  cx_provider :: "string option"
  cx_project_name :: "string option"
  cx_confidential :: "bool option"
  cx_user_preference :: "string option"
  cx_estimated_complexity :: "rat option"
  cx_avg_latency :: "rat option"
  cx_reliability :: "rat option"
  cx_metadata :: metadata

type_synonym policy_engine = "(string, runtime_policy) dict"

datatype policy_error = NoRules string | PolicyNotRegistered string

definition empty_rule :: policy_rule where
  "empty_rule = \<lparr>pr_allowed_runtimes = None, pr_denied_runtimes = None, pr_required_capabilities = None,
     pr_local_only = None, pr_cloud_allowed = None, pr_preferred_runtime = None, pr_preferred_provider = None,
     pr_confidential = None, pr_max_latency = None, pr_min_reliability = None, pr_metadata = []\<rparr>"

definition default_result :: policy_result where
  "default_result = \<lparr>pl_allowed = True, pl_policy_name = [], pl_rejected_reason = None,
     pl_preferred_runtime = None, pl_preferred_provider = None, pl_applied_rules = 0, pl_metadata = []\<rparr>"

definition new_context :: execution_context where
  "new_context = \<lparr>cx_capability = [], cx_runtime_name = None, cx_provider = None, cx_project_name = None,
     cx_confidential = None, cx_user_preference = None, cx_estimated_complexity = None, cx_avg_latency = None,
     cx_reliability = None, cx_metadata = []\<rparr>"

subsection \<open>The store of policies\<close>

definition new_policy_engine :: "runtime_policy list \<Rightarrow> policy_engine" where
  "new_policy_engine ps = fold (\<lambda>p. dict_set (po_name p) p) ps []"

definition register_policy :: "runtime_policy \<Rightarrow> policy_engine \<Rightarrow> policy_error + policy_engine" where
  "register_policy p pe = (if po_rules p = [] then Inl (NoRules (po_name p)) else Inr (dict_set (po_name p) p pe))"

definition remove_policy :: "string \<Rightarrow> policy_engine \<Rightarrow> policy_error + policy_engine" where
  "remove_policy name pe =
     (if name \<notin> set (dict_keys pe) then Inl (PolicyNotRegistered name) else Inr (dict_del name pe))"

definition policy_order :: "runtime_policy \<Rightarrow> int \<times> string" where
  "policy_order p = (- po_priority p, po_name p)"

definition list_policies :: "policy_engine \<Rightarrow> runtime_policy list" where
  "list_policies pe = sort_key policy_order (dict_values pe)"

definition clear_policies :: "policy_engine \<Rightarrow> policy_engine" where
  "clear_policies pe = []"

subsection \<open>Rule matching\<close>

definition mentions_cloud :: "string \<Rightarrow> bool" where
  "mentions_cloud provider = is_infix ''cloud'' (str_lower provider)"

text \<open>The checks in the order of the source; the result is the reason of the first that fails.\<close>

definition match_rule :: "policy_rule \<Rightarrow> execution_context \<Rightarrow> rejection option" where
  "match_rule rule ctx =
     (if (case pr_allowed_runtimes rule of None \<Rightarrow> False | Some names \<Rightarrow>
            (case cx_runtime_name ctx of None \<Rightarrow> True | Some n \<Rightarrow> n \<notin> set names))
      then Some (NotInAllowed (cx_runtime_name ctx) (sort (the (pr_allowed_runtimes rule))))
      else if (case pr_denied_runtimes rule of None \<Rightarrow> False | Some names \<Rightarrow>
            (case cx_runtime_name ctx of None \<Rightarrow> False | Some n \<Rightarrow> n \<in> set names))
      then Some (ExplicitlyDenied (the (cx_runtime_name ctx)))
      else if (case pr_required_capabilities rule of None \<Rightarrow> False | Some cs \<Rightarrow> cx_capability ctx \<notin> set cs)
      then Some (CapabilityNotInSet (cx_capability ctx) (sort (the (pr_required_capabilities rule))))
      else if pr_local_only rule = Some True \<and>
            (case cx_provider ctx of None \<Rightarrow> False | Some p \<Rightarrow> mentions_cloud p)
      then Some (ProviderNotLocal (the (cx_provider ctx)))
      else if pr_cloud_allowed rule = Some False \<and>
            (case cx_provider ctx of None \<Rightarrow> False | Some p \<Rightarrow> \<not> mentions_cloud p)
      then Some CloudDisallowed
      else if pr_confidential rule = Some True \<and> cx_confidential ctx \<noteq> Some True
      then Some NotConfidential
      else if (case (pr_max_latency rule, cx_avg_latency ctx) of (Some limit, Some l) \<Rightarrow> l > limit | _ \<Rightarrow> False)
      then Some (LatencyExceeds (the (cx_avg_latency ctx)) (the (pr_max_latency rule)))
      else if (case (pr_min_reliability rule, cx_reliability ctx) of (Some least, Some r) \<Rightarrow> r < least | _ \<Rightarrow> False)
      then Some (ReliabilityBelow (the (cx_reliability ctx)) (the (pr_min_reliability rule)))
      else None)"

subsection \<open>Evaluation\<close>

text \<open>
  The loop over the rules of one policy: the number of rules looked at, the reason of the first
  mismatch, and the preferences of the matching rules before it.
\<close>

fun match_rules :: "execution_context \<Rightarrow> policy_rule list \<Rightarrow> nat \<Rightarrow> string option \<Rightarrow> string option
    \<Rightarrow> nat \<times> rejection option \<times> string option \<times> string option" where
  "match_rules ctx [] n rt pv = (n, None, rt, pv)"
| "match_rules ctx (rule # rules) n rt pv = (case match_rule rule ctx of
     Some reason \<Rightarrow> (n + 1, Some reason, rt, pv)
   | None \<Rightarrow> match_rules ctx rules (n + 1)
       (case pr_preferred_runtime rule of None \<Rightarrow> rt | Some x \<Rightarrow> Some x)
       (case pr_preferred_provider rule of None \<Rightarrow> pv | Some x \<Rightarrow> Some x))"

text \<open>
  The loop over the policies leaves after the first one: it either allows, or denies with a reason.
\<close>

fun evaluate_policies :: "execution_context \<Rightarrow> runtime_policy list \<Rightarrow> nat \<Rightarrow> policy_result" where
  "evaluate_policies ctx [] n = default_result"
| "evaluate_policies ctx (p # ps) n =
     (let (n', reason, rt, pv) = match_rules ctx (po_rules p) n None None; allowed = (reason = None)
      in if allowed \<or> reason \<noteq> None
         then \<lparr>pl_allowed = allowed, pl_policy_name = po_name p, pl_rejected_reason = reason,
            pl_preferred_runtime = rt, pl_preferred_provider = pv, pl_applied_rules = n',
            pl_metadata = [(''policy_priority'', PInt (po_priority p))]\<rparr>
         else evaluate_policies ctx ps n')"

definition evaluate :: "policy_engine \<Rightarrow> execution_context \<Rightarrow> policy_result" where
  "evaluate pe ctx = evaluate_policies ctx (filter po_enabled (sort_key policy_order (dict_values pe))) 0"

subsection \<open>Lemmas\<close>

lemma match_rules_reason:
  "fst (snd (match_rules ctx rules n rt pv)) = None \<longleftrightarrow> (\<forall>rule \<in> set rules. match_rule rule ctx = None)"
  by (induction rules arbitrary: n rt pv) (auto split: option.split)

lemma match_rules_first:
  "fst (snd (match_rules ctx rules n rt pv)) =
     Option.bind (List.find (\<lambda>rule. match_rule rule ctx \<noteq> None) rules) (\<lambda>rule. match_rule rule ctx)"
  by (induction rules arbitrary: n rt pv) (auto split: option.split)

lemma match_rules_preference:
  "\<forall>rule \<in> set rules. match_rule rule ctx = None \<Longrightarrow>
     fst (snd (snd (match_rules ctx rules n rt pv))) =
       (case List.find (\<lambda>x. x \<noteq> None) (rev (map pr_preferred_runtime rules)) of None \<Rightarrow> rt | Some x \<Rightarrow> x)"
  by (induction rules arbitrary: n rt pv) (auto simp: find_append split: option.split)

lemma evaluate_policies_Cons:
  "evaluate_policies ctx (p # ps) n = (let m = match_rules ctx (po_rules p) n None None in
     \<lparr>pl_allowed = (fst (snd m) = None), pl_policy_name = po_name p, pl_rejected_reason = fst (snd m),
      pl_preferred_runtime = fst (snd (snd m)), pl_preferred_provider = snd (snd (snd m)), pl_applied_rules = fst m,
      pl_metadata = [(''policy_priority'', PInt (po_priority p))]\<rparr>)"
  by (simp add: Let_def split: prod.split)

lemma policy_order_inj:
  assumes "keyed po_name pe" and "p \<in> set (dict_values pe)" and "q \<in> set (dict_values pe)" and "po_name q = po_name p"
  shows "q = p"
proof -
  obtain k where p: "(k, p) \<in> set pe" using assms(2) by auto
  obtain l where q: "(l, q) \<in> set pe" using assms(3) by auto
  have "k = po_name p" "l = po_name q" using p q assms(1) by (auto simp: keyed_def)
  then show ?thesis using p q assms(4) in_set_get[OF keyed_distinct[OF assms(1)]] by simp
qed

lemma sort_key_min_first:
  assumes "x \<in> set xs" and "P x" and "\<And>y. y \<in> set xs \<Longrightarrow> P y \<Longrightarrow> f x \<le> f y \<and> (f y = f x \<longrightarrow> y = x)"
  shows "\<exists>ys. filter P (sort_key f xs) = x # ys"
proof -
  have s: "sorted (map f (filter P (sort_key f xs)))" by (simp add: sorted_filter)
  have x: "x \<in> set (filter P (sort_key f xs))" using assms(1,2) by simp
  then obtain y ys where y: "filter P (sort_key f xs) = y # ys" by (cases "filter P (sort_key f xs)") auto
  then have "y \<in> set (filter P (sort_key f xs))" by simp
  then have "y \<in> set xs \<and> P y" by simp
  moreover have "f y \<le> f x" using s x unfolding y by auto
  ultimately show ?thesis using assms(3)[of y] y by fastforce
qed

subsection \<open>What an evaluation decides\<close>

lemma evaluate_first:
  assumes "keyed po_name pe" and "p \<in> set (dict_values pe)" and "po_enabled p"
    and "\<forall>q \<in> set (dict_values pe). po_enabled q \<longrightarrow> policy_order p \<le> policy_order q"
  shows "\<exists>ps. filter po_enabled (sort_key policy_order (dict_values pe)) = p # ps"
proof (rule sort_key_min_first)
  fix q
  assume "q \<in> set (dict_values pe)" "po_enabled q"
  then show "policy_order p \<le> policy_order q \<and> (policy_order q = policy_order p \<longrightarrow> q = p)"
    using assms(4) policy_order_inj[OF assms(1,2)] by (metis policy_order_def prod.inject)
qed (use assms in auto)

text \<open>
  The enabled policy with the highest priority (the least name among equals) alone decides: it
  allows exactly when all of its rules match, its first mismatching rule gives the reason of the
  denial, and it suggests the runtime its last rule with a preference names. No policy of a lower
  rank is ever consulted, also when the first one does not match.
\<close>

lemma evaluate_top_policy:
  assumes "keyed po_name pe" and "p \<in> set (dict_values pe)" and "po_enabled p"
    and "\<forall>q \<in> set (dict_values pe). po_enabled q \<longrightarrow> policy_order p \<le> policy_order q"
  shows "pl_policy_name (evaluate pe ctx) = po_name p \<and>
    (pl_allowed (evaluate pe ctx) \<longleftrightarrow> (\<forall>rule \<in> set (po_rules p). match_rule rule ctx = None)) \<and>
    pl_rejected_reason (evaluate pe ctx) =
      Option.bind (List.find (\<lambda>rule. match_rule rule ctx \<noteq> None) (po_rules p)) (\<lambda>rule. match_rule rule ctx) \<and>
    (pl_allowed (evaluate pe ctx) \<longrightarrow> pl_preferred_runtime (evaluate pe ctx) =
       (case List.find (\<lambda>x. x \<noteq> None) (rev (map pr_preferred_runtime (po_rules p))) of None \<Rightarrow> None | Some x \<Rightarrow> x))"
proof -
  obtain ps where ps: "filter po_enabled (sort_key policy_order (dict_values pe)) = p # ps"
    using evaluate_first[OF assms] by blast
  show ?thesis
    unfolding evaluate_def ps evaluate_policies_Cons Let_def
    using match_rules_reason[of ctx "po_rules p" 0 None None] match_rules_first[of ctx "po_rules p" 0 None None]
      match_rules_preference[of "po_rules p" ctx 0 None None]
    by (simp only: policy_result.simps simp_thms) blast
qed

definition deny_policy :: "string \<Rightarrow> int \<Rightarrow> string list \<Rightarrow> runtime_policy" where
  "deny_policy name priority names = \<lparr>po_name = name, po_enabled = True, po_priority = priority, po_description = [],
     po_rules = [empty_rule\<lparr>pr_allowed_runtimes := Some names\<rparr>]\<rparr>"

lemma evaluate_top_policy_example:
  "\<not> pl_allowed (evaluate (new_policy_engine [deny_policy ''low'' 1 [''b''], deny_policy ''high'' 5 [''a'']])
      (new_context\<lparr>cx_runtime_name := Some ''b''\<rparr>))"
  using evaluate_top_policy[of "new_policy_engine [deny_policy ''low'' 1 [''b''], deny_policy ''high'' 5 [''a'']]"
      "deny_policy ''high'' 5 [''a'']" "new_context\<lparr>cx_runtime_name := Some ''b''\<rparr>"]
  by (simp add: keyed_def new_policy_engine_def deny_policy_def policy_order_def empty_rule_def match_rule_def)

text \<open>
  A rule that forbids cloud providers and says nothing else rejects exactly the providers whose
  name does not mention the cloud and lets the cloud ones pass; together with the local-only flag it
  rejects every known provider.
\<close>

lemma cloud_rule_inverted:
  "match_rule (empty_rule\<lparr>pr_cloud_allowed := Some False\<rparr>) ctx =
     (case cx_provider ctx of None \<Rightarrow> None | Some p \<Rightarrow> if mentions_cloud p then None else Some CloudDisallowed) \<and>
   (match_rule (empty_rule\<lparr>pr_cloud_allowed := Some False, pr_local_only := Some True\<rparr>) ctx = None \<longleftrightarrow> cx_provider ctx = None)"
  by (simp add: match_rule_def empty_rule_def split: option.split)

end
