(* ===== verification/RuntimeRecovery.thy ===== *)
theory RuntimeRecovery
  imports RuntimeRegistry
begin

text \<open>
  The runtime event bus and the recovery engine: \<^verbatim>\<open>src/backend/ral/runtime_events.py\<close> (the bus) and
  \<^verbatim>\<open>runtime_recovery.py\<close> (circuit breakers, failover). \<^verbatim>\<open>time.monotonic()\<close> and the event
  timestamp are the argument \<open>now\<close>. Subscribers are opaque tokens that do not raise; the bus records
  the calls made to them.
\<close>

subsection \<open>Event bus\<close>

datatype runtime_event_type = Event_REGISTERED | Event_SELECTED | Event_STARTED | Event_COMPLETED
  | Event_FAILED | Event_DEGRADED | Event_UNAVAILABLE | Event_FALLBACK | Event_RECOVERED
  | Event_CIRCUIT_OPENED | Event_CIRCUIT_CLOSED

datatype severity = Sev_DEBUG | Sev_INFO | Sev_WARNING | Sev_ERROR | Sev_CRITICAL

record runtime_event =
  ev_type :: runtime_event_type
  ev_runtime :: string
  ev_timestamp :: time
  ev_severity :: severity
  ev_message :: string
  ev_metadata :: metadata

record event_bus =
  eb_max :: int
  eb_events :: "runtime_event list"
  eb_subscribers :: "nat list"
  eb_calls :: "(nat \<times> runtime_event) list"

definition new_event_bus :: "int \<Rightarrow> event_bus" where
  "new_event_bus n = \<lparr>eb_max = n, eb_events = [], eb_subscribers = [], eb_calls = []\<rparr>"

text \<open>Python's \<^verbatim>\<open>xs[-n:]\<close>: the last \<open>n\<close> elements, but the whole list for \<open>n = 0\<close>.\<close>

definition py_last :: "int \<Rightarrow> 'a list \<Rightarrow> 'a list" where
  "py_last n xs = (if n > 0 then drop (length xs - nat n) xs else drop (nat (- n)) xs)"

definition bus_publish :: "runtime_event \<Rightarrow> event_bus \<Rightarrow> event_bus" where
  "bus_publish e b =
     (let events = eb_events b @ [e];
          events' = (if int (length events) > eb_max b then py_last (eb_max b) events else events)
      in b\<lparr>eb_events := events', eb_calls := eb_calls b @ map (\<lambda>h. (h, e)) (eb_subscribers b)\<rparr>)"

definition bus_subscribe :: "nat \<Rightarrow> event_bus \<Rightarrow> event_bus" where
  "bus_subscribe h b = b\<lparr>eb_subscribers := eb_subscribers b @ [h]\<rparr>"

definition bus_events :: "runtime_event_type option \<Rightarrow> string option \<Rightarrow> event_bus \<Rightarrow> runtime_event list" where
  "bus_events ty name b =
     (let es = (case ty of None \<Rightarrow> eb_events b | Some t \<Rightarrow> filter (\<lambda>e. ev_type e = t) (eb_events b))
      in case name of None \<Rightarrow> es | Some n \<Rightarrow> filter (\<lambda>e. ev_runtime e = n) es)"

definition bus_clear :: "event_bus \<Rightarrow> event_bus" where
  "bus_clear b = b\<lparr>eb_events := []\<rparr>"

text \<open>The \<^verbatim>\<open>_publish\<close> helpers of the recovery manager and of the router: nothing without a bus.\<close>

definition publish :: "time \<Rightarrow> runtime_event_type \<Rightarrow> string \<Rightarrow> severity \<Rightarrow> string \<Rightarrow> metadata
    \<Rightarrow> event_bus option \<Rightarrow> event_bus option" where
  "publish now ty name sev msg md bus = map_option (bus_publish \<lparr>ev_type = ty, ev_runtime = name,
     ev_timestamp = now, ev_severity = sev, ev_message = msg, ev_metadata = md\<rparr>) bus"

subsection \<open>Circuit breaker\<close>

datatype circuit_state = CLOSED | OPEN | HALF_OPEN

record circuit_breaker =
  cb_threshold :: int
  cb_timeout :: time
  cb_state :: circuit_state
  cb_failures :: nat
  cb_opened_at :: "time option"

definition new_breaker :: "int \<Rightarrow> time \<Rightarrow> circuit_breaker" where
  "new_breaker threshold timeout = \<lparr>cb_threshold = threshold, cb_timeout = timeout, cb_state = CLOSED,
     cb_failures = 0, cb_opened_at = None\<rparr>"

definition is_allowed :: "time \<Rightarrow> circuit_breaker \<Rightarrow> bool \<times> circuit_breaker" where
  "is_allowed now b =
     (if cb_state b = CLOSED then (True, b)
      else if cb_state b = HALF_OPEN then (True, b)
      else case cb_opened_at b of
             None \<Rightarrow> (False, b)
           | Some t \<Rightarrow> if now - t \<ge> cb_timeout b then (True, b\<lparr>cb_state := HALF_OPEN\<rparr>) else (False, b))"

definition breaker_success :: "circuit_breaker \<Rightarrow> circuit_breaker" where
  "breaker_success b = b\<lparr>cb_failures := 0, cb_state := CLOSED, cb_opened_at := None\<rparr>"

definition breaker_failure :: "time \<Rightarrow> circuit_breaker \<Rightarrow> circuit_breaker" where
  "breaker_failure now b =
     (let b1 = b\<lparr>cb_failures := cb_failures b + 1\<rparr>
      in if cb_state b1 = HALF_OPEN then b1\<lparr>cb_state := OPEN, cb_opened_at := Some now\<rparr>
         else if int (cb_failures b1) \<ge> cb_threshold b1 then b1\<lparr>cb_state := OPEN, cb_opened_at := Some now\<rparr>
         else b1)"

definition breaker_reset :: "circuit_breaker \<Rightarrow> circuit_breaker" where
  "breaker_reset b = b\<lparr>cb_state := CLOSED, cb_failures := 0, cb_opened_at := None\<rparr>"

subsection \<open>Recovery manager\<close>

record recovery_manager =
  rc_threshold :: int
  rc_timeout :: time
  rc_breakers :: "(string, circuit_breaker) dict"
  rc_bus :: "event_bus option"

datatype recovery_error = NoFallback string string

definition new_recovery :: "int \<Rightarrow> time \<Rightarrow> event_bus option \<Rightarrow> recovery_manager" where
  "new_recovery threshold timeout bus =
     \<lparr>rc_threshold = threshold, rc_timeout = timeout, rc_breakers = [], rc_bus = bus\<rparr>"

definition get_breaker :: "string \<Rightarrow> recovery_manager \<Rightarrow> circuit_breaker \<times> recovery_manager" where
  "get_breaker name rc = (case dict_get (rc_breakers rc) name of
     Some b \<Rightarrow> (b, rc)
   | None \<Rightarrow> (let b = new_breaker (rc_threshold rc) (rc_timeout rc)
             in (b, rc\<lparr>rc_breakers := dict_set name b (rc_breakers rc)\<rparr>)))"

definition put_breaker :: "string \<Rightarrow> circuit_breaker \<Rightarrow> recovery_manager \<Rightarrow> recovery_manager" where
  "put_breaker name b rc = rc\<lparr>rc_breakers := dict_set name b (rc_breakers rc)\<rparr>"

definition should_retry :: "time \<Rightarrow> string \<Rightarrow> recovery_manager \<Rightarrow> bool \<times> recovery_manager" where
  "should_retry now name rc =
     (let (b, rc1) = get_breaker name rc; (ok, b') = is_allowed now b in (ok, put_breaker name b' rc1))"

definition record_failure :: "time \<Rightarrow> string \<Rightarrow> recovery_manager \<Rightarrow> recovery_manager" where
  "record_failure now name rc =
     (let (b, rc1) = get_breaker name rc;
          b' = breaker_failure now b;
          rc2 = put_breaker name b' rc1
      in if cb_state b' = OPEN \<and> cb_state b \<noteq> OPEN
         then rc2\<lparr>rc_bus := publish now Event_CIRCUIT_OPENED name Sev_WARNING
                    ''Circuit breaker opened after consecutive failures.'' [] (rc_bus rc2)\<rparr>
         else rc2)"

definition record_success :: "time \<Rightarrow> string \<Rightarrow> recovery_manager \<Rightarrow> recovery_manager" where
  "record_success now name rc =
     (let (b, rc1) = get_breaker name rc;
          rc2 = put_breaker name (breaker_success b) rc1
      in if cb_state b \<noteq> CLOSED
         then rc2\<lparr>rc_bus := publish now Event_CIRCUIT_CLOSED name Sev_INFO
                    ''Circuit breaker closed after successful execution.'' [] (rc_bus rc2)\<rparr>
         else rc2)"

definition reset_runtime :: "string \<Rightarrow> recovery_manager \<Rightarrow> recovery_manager" where
  "reset_runtime name rc = (let (b, rc1) = get_breaker name rc in put_breaker name (breaker_reset b) rc1)"

definition recover :: "time \<Rightarrow> string \<Rightarrow> recovery_manager \<Rightarrow> string \<times> recovery_manager" where
  "recover now name rc =
     (let (b, rc1) = get_breaker name (record_failure now name rc)
      in (if cb_state b = OPEN then ''circuit_open'' else ''runtime_failure'', rc1))"

text \<open>A loop that returns the first candidate passing a test which may change the state.\<close>

fun first_accepted :: "('x \<Rightarrow> 's \<Rightarrow> bool \<times> 's) \<Rightarrow> 'x list \<Rightarrow> 's \<Rightarrow> 'x option \<times> 's" where
  "first_accepted test [] s = (None, s)"
| "first_accepted test (x # xs) s =
     (let (ok, s') = test x s in if ok then (Some x, s') else first_accepted test xs s')"

definition fallback_test :: "time \<Rightarrow> runtime_env \<Rightarrow> registry \<Rightarrow> string list \<Rightarrow> rid \<Rightarrow> recovery_manager
    \<Rightarrow> bool \<times> recovery_manager" where
  "fallback_test now env reg exclude r rc = (case find_name r reg of
     None \<Rightarrow> (False, rc)
   | Some name \<Rightarrow> if name \<in> set exclude then (False, rc)
       else (let (ok, rc') = should_retry now name rc in (ok \<and> health_check env r, rc')))"

definition select_fallback :: "time \<Rightarrow> runtime_env \<Rightarrow> registry \<Rightarrow> string \<Rightarrow> string \<Rightarrow> string option \<Rightarrow> string list
    \<Rightarrow> recovery_manager \<Rightarrow> (recovery_error + rid) \<times> recovery_manager" where
  "select_fallback now env reg failed cap preference exclude rc =
     (case first_accepted (fallback_test now env reg (failed # exclude))
             (list_compatible env reg cap preference) rc of
        (Some r, rc') \<Rightarrow> (Inr r, rc')
      | (None, rc') \<Rightarrow> (Inl (NoFallback cap failed), rc'))"

end
