(* ===== verification/RuntimePerformance.thy ===== *)
theory RuntimePerformance
  imports RuntimeRecovery "HOL-Library.Product_Lexorder"
begin

text \<open>
  The performance analyzer, \<^verbatim>\<open>src/backend/ral/runtime_performance.py\<close>: counters per runtime
  fed by the event bus, and the scores derived from them. The counters are \<^verbatim>\<open>defaultdict\<close>s, so
  reading a missing key stores the default: the metrics functions return the changed analyzer.
  The iteration order of a Python set is the parameter \<open>ord\<close>.
\<close>

subsection \<open>Data\<close>

record performance_analyzer =
  pa_executions :: "(string, nat) dict"
  pa_successes :: "(string, nat) dict"
  pa_failures :: "(string, nat) dict"
  pa_fallbacks :: "(string, nat) dict"
  pa_recoveries :: "(string, nat) dict"
  pa_circuit_opens :: "(string, nat) dict"
  pa_latency_total :: "(string, rat) dict"
  pa_latency_count :: "(string, nat) dict"
  pa_last_execution :: "(string, time) dict"

record performance_metrics =
  pm_runtime :: string
  pm_executions :: nat
  pm_successes :: nat
  pm_failures :: nat
  pm_fallbacks :: nat
  pm_avg_latency :: rat
  pm_success_rate :: rat
  pm_reliability :: rat
  pm_performance :: rat
  pm_last_execution :: "time option"

definition new_analyzer :: performance_analyzer where
  "new_analyzer = \<lparr>pa_executions = [], pa_successes = [], pa_failures = [], pa_fallbacks = [], pa_recoveries = [],
     pa_circuit_opens = [], pa_latency_total = [], pa_latency_count = [], pa_last_execution = []\<rparr>"

subsection \<open>Recording events\<close>

text \<open>The values for which \<^verbatim>\<open>isinstance(x, (int, float))\<close> holds; a \<^verbatim>\<open>bool\<close> is an \<^verbatim>\<open>int\<close>.\<close>

fun number :: "pyval \<Rightarrow> rat option" where
  "number (PInt i) = Some (of_int i)"
| "number (PFloat x) = Some x"
| "number (PBool b) = Some (if b then 1 else 0)"
| "number _ = None"

definition bump :: "string \<Rightarrow> (string, nat) dict \<Rightarrow> (string, nat) dict" where
  "bump name d = dict_set name (dict_get_default d name 0 + 1) d"

definition event_latency :: "runtime_event \<Rightarrow> rat option" where
  "event_latency e = (case number (dict_get_default (ev_metadata e) ''latency_ms'' (PInt 0)) of
     None \<Rightarrow> None | Some l \<Rightarrow> if l \<ge> 0 then Some l else None)"

definition record_latency :: "runtime_event \<Rightarrow> performance_analyzer \<Rightarrow> performance_analyzer" where
  "record_latency e pa = (case event_latency e of
     None \<Rightarrow> pa
   | Some l \<Rightarrow> pa\<lparr>pa_latency_total := dict_set (ev_runtime e)
            (dict_get_default (pa_latency_total pa) (ev_runtime e) 0 + l) (pa_latency_total pa),
          pa_latency_count := bump (ev_runtime e) (pa_latency_count pa)\<rparr>)"

definition record_event :: "runtime_event \<Rightarrow> performance_analyzer \<Rightarrow> performance_analyzer" where
  "record_event e pa = (let name = ev_runtime e in case ev_type e of
     Event_STARTED \<Rightarrow> pa\<lparr>pa_executions := bump name (pa_executions pa),
       pa_last_execution := dict_set name (ev_timestamp e) (pa_last_execution pa)\<rparr>
   | Event_COMPLETED \<Rightarrow> record_latency e (pa\<lparr>pa_successes := bump name (pa_successes pa)\<rparr>)
   | Event_FAILED \<Rightarrow> record_latency e (pa\<lparr>pa_failures := bump name (pa_failures pa)\<rparr>)
   | Event_FALLBACK \<Rightarrow> pa\<lparr>pa_fallbacks := bump name (pa_fallbacks pa)\<rparr>
   | Event_RECOVERED \<Rightarrow> pa\<lparr>pa_recoveries := bump name (pa_recoveries pa)\<rparr>
   | Event_CIRCUIT_OPENED \<Rightarrow> pa\<lparr>pa_circuit_opens := bump name (pa_circuit_opens pa)\<rparr>
   | _ \<Rightarrow> pa)"

subsection \<open>Scores\<close>

definition clamp_score :: "rat \<Rightarrow> rat" where
  "clamp_score x = max 0 (min 100 x)"

definition reliability_score :: "rat \<Rightarrow> nat \<Rightarrow> nat \<Rightarrow> nat \<Rightarrow> rat" where
  "reliability_score success_rate circuit_opens fallbacks executions =
     (let base = success_rate * 100;
          circuit_penalty = min (of_nat (circuit_opens * 10)) 30;
          fallback_penalty = min (of_nat (fallbacks * 5)) 20;
          usage_bonus = min (of_nat executions * (1 / 2)) 5
      in clamp_score (base - circuit_penalty - fallback_penalty + usage_bonus))"

definition performance_score :: "rat \<Rightarrow> nat \<Rightarrow> nat \<Rightarrow> nat \<Rightarrow> rat" where
  "performance_score avg_latency successes failures executions =
     (if executions = 0 then 0
      else let latency_score = max 0 (100 - avg_latency / 10);
               total = successes + failures;
               stability_penalty = (if total > 0 then of_nat failures / of_nat total * 20 else 0)
           in clamp_score (latency_score - stability_penalty))"

subsection \<open>Metrics\<close>

text \<open>Reading a \<^verbatim>\<open>defaultdict\<close> whose default is \<open>z\<close>.\<close>

definition dd_touch :: "string \<Rightarrow> 'v \<Rightarrow> (string, 'v) dict \<Rightarrow> (string, 'v) dict" where
  "dd_touch k z d = (if k \<in> set (dict_keys d) then d else dict_set k z d)"

definition touch_counters :: "string \<Rightarrow> performance_analyzer \<Rightarrow> performance_analyzer" where
  "touch_counters name pa = pa\<lparr>
     pa_executions := dd_touch name 0 (pa_executions pa), pa_successes := dd_touch name 0 (pa_successes pa),
     pa_failures := dd_touch name 0 (pa_failures pa), pa_fallbacks := dd_touch name 0 (pa_fallbacks pa),
     pa_circuit_opens := dd_touch name 0 (pa_circuit_opens pa),
     pa_latency_count := dd_touch name 0 (pa_latency_count pa),
     pa_latency_total := (if dict_get_default (pa_latency_count pa) name 0 = 0 then pa_latency_total pa
       else dd_touch name 0 (pa_latency_total pa))\<rparr>"

definition metrics_of :: "string \<Rightarrow> performance_analyzer \<Rightarrow> performance_metrics" where
  "metrics_of name pa =
     (let executions = dict_get_default (pa_executions pa) name 0;
          successes = dict_get_default (pa_successes pa) name 0;
          failures = dict_get_default (pa_failures pa) name 0;
          fallbacks = dict_get_default (pa_fallbacks pa) name 0;
          circuit_opens = dict_get_default (pa_circuit_opens pa) name 0;
          latency_count = dict_get_default (pa_latency_count pa) name 0;
          avg = (if latency_count = 0 then 0
                 else dict_get_default (pa_latency_total pa) name 0 / of_nat latency_count);
          success_rate = (if executions = 0 then 0 else of_nat successes / of_nat executions)
      in \<lparr>pm_runtime = name, pm_executions = executions, pm_successes = successes, pm_failures = failures,
          pm_fallbacks = fallbacks, pm_avg_latency = avg, pm_success_rate = success_rate,
          pm_reliability = reliability_score success_rate circuit_opens fallbacks executions,
          pm_performance = performance_score avg successes failures executions,
          pm_last_execution = dict_get (pa_last_execution pa) name\<rparr>)"

definition calculate_metrics :: "string \<Rightarrow> performance_analyzer \<Rightarrow> performance_metrics \<times> performance_analyzer" where
  "calculate_metrics name pa = (metrics_of name pa, touch_counters name pa)"

definition perf_get_metrics :: "string \<Rightarrow> performance_analyzer \<Rightarrow> performance_metrics \<times> performance_analyzer" where
  "perf_get_metrics name pa = calculate_metrics name pa"

definition known_names :: "performance_analyzer \<Rightarrow> string list" where
  "known_names pa = remdups (dict_keys (pa_executions pa) @ dict_keys (pa_successes pa) @ dict_keys (pa_failures pa))"

fun calculate_all :: "string list \<Rightarrow> performance_analyzer
    \<Rightarrow> (string, performance_metrics) dict \<times> performance_analyzer" where
  "calculate_all [] pa = ([], pa)"
| "calculate_all (name # names) pa =
     (let (m, pa1) = calculate_metrics name pa; (ms, pa2) = calculate_all names pa1 in ((name, m) # ms, pa2))"

definition get_all_metrics :: "(string list \<Rightarrow> string list) \<Rightarrow> performance_analyzer
    \<Rightarrow> (string, performance_metrics) dict \<times> performance_analyzer" where
  "get_all_metrics ord pa = calculate_all (ord (known_names pa)) pa"

definition rank_runtimes :: "(string list \<Rightarrow> string list) \<Rightarrow> nat \<Rightarrow> performance_analyzer
    \<Rightarrow> (string \<times> performance_metrics) list \<times> performance_analyzer" where
  "rank_runtimes ord min_executions pa =
     (let (ms, pa') = get_all_metrics ord pa
      in (sort_key (\<lambda>(name, m). (- pm_reliability m, - pm_performance m))
            (filter (\<lambda>(name, m). pm_executions m \<ge> min_executions) ms), pa'))"

subsection \<open>Counters are counts of events\<close>

definition replay :: "runtime_event list \<Rightarrow> performance_analyzer" where
  "replay es = fold record_event es new_analyzer"

definition events_of :: "runtime_event_type \<Rightarrow> string \<Rightarrow> runtime_event list \<Rightarrow> runtime_event list" where
  "events_of ty name es = filter (\<lambda>e. ev_type e = ty \<and> ev_runtime e = name) es"

definition latencies_of :: "string \<Rightarrow> runtime_event list \<Rightarrow> rat list" where
  "latencies_of name es = concat (map (\<lambda>e.
     if ev_runtime e = name \<and> (ev_type e = Event_COMPLETED \<or> ev_type e = Event_FAILED)
     then (case event_latency e of None \<Rightarrow> [] | Some l \<Rightarrow> [l]) else []) es)"

lemma get_bump [simp]: "dict_get_default (bump x d) y 0 = dict_get_default d y 0 + (if y = x then 1 else 0)"
  by (simp add: bump_def)

lemma replay_snoc: "replay (es @ [e]) = record_event e (replay es)"
  by (simp add: replay_def)

lemmas record_defs = record_event_def record_latency_def Let_def

lemma replay_executions: "dict_get_default (pa_executions (replay es)) n 0 = length (events_of Event_STARTED n es)"
  by (induction es rule: rev_induct)
    (auto simp: replay_snoc record_defs events_of_def replay_def new_analyzer_def dict_get_default_def[of "[]"]
      split: runtime_event_type.split option.split)

lemma replay_successes: "dict_get_default (pa_successes (replay es)) n 0 = length (events_of Event_COMPLETED n es)"
  by (induction es rule: rev_induct)
    (auto simp: replay_snoc record_defs events_of_def replay_def new_analyzer_def dict_get_default_def[of "[]"]
      split: runtime_event_type.split option.split)

lemma replay_failures: "dict_get_default (pa_failures (replay es)) n 0 = length (events_of Event_FAILED n es)"
  by (induction es rule: rev_induct)
    (auto simp: replay_snoc record_defs events_of_def replay_def new_analyzer_def dict_get_default_def[of "[]"]
      split: runtime_event_type.split option.split)

lemma replay_fallbacks: "dict_get_default (pa_fallbacks (replay es)) n 0 = length (events_of Event_FALLBACK n es)"
  by (induction es rule: rev_induct)
    (auto simp: replay_snoc record_defs events_of_def replay_def new_analyzer_def dict_get_default_def[of "[]"]
      split: runtime_event_type.split option.split)

lemma replay_circuit_opens:
  "dict_get_default (pa_circuit_opens (replay es)) n 0 = length (events_of Event_CIRCUIT_OPENED n es)"
  by (induction es rule: rev_induct)
    (auto simp: replay_snoc record_defs events_of_def replay_def new_analyzer_def dict_get_default_def[of "[]"]
      split: runtime_event_type.split option.split)

lemma replay_latency:
  "dict_get_default (pa_latency_count (replay es)) n 0 = length (latencies_of n es) \<and>
   dict_get_default (pa_latency_total (replay es)) n 0 = sum_list (latencies_of n es)"
  by (induction es rule: rev_induct)
    (auto simp: replay_snoc record_defs latencies_of_def replay_def new_analyzer_def dict_get_default_def[of "[]"]
      split: runtime_event_type.split option.split)

subsection \<open>Observability\<close>

text \<open>\<^verbatim>\<open>RuntimeObservability\<close> of \<^verbatim>\<open>runtime_events.py\<close>: totals over all runtimes, fed by the same bus.\<close>

record observability =
  ob_executions :: nat
  ob_successes :: nat
  ob_failures :: nat
  ob_fallbacks :: nat
  ob_latency_total :: rat
  ob_latency_count :: nat
  ob_runtime_successes :: "(string, nat) dict"
  ob_runtime_failures :: "(string, nat) dict"
  ob_runtime_completions :: "(string, nat) dict"

record observed_metrics =
  om_executions :: nat
  om_successes :: nat
  om_failures :: nat
  om_fallbacks :: nat
  om_avg_latency :: rat
  om_most_used :: "string option"
  om_most_reliable :: "string option"

definition new_observability :: observability where
  "new_observability = \<lparr>ob_executions = 0, ob_successes = 0, ob_failures = 0, ob_fallbacks = 0,
     ob_latency_total = 0, ob_latency_count = 0, ob_runtime_successes = [], ob_runtime_failures = [],
     ob_runtime_completions = []\<rparr>"

text \<open>A zero latency is false in \<^verbatim>\<open>if latency\<close> and is not counted.\<close>

definition observe_latency :: "runtime_event \<Rightarrow> observability \<Rightarrow> observability" where
  "observe_latency e ob =
     (let latency = (case number (dict_get_default (ev_metadata e) ''latency_ms'' (PInt 0)) of None \<Rightarrow> 0 | Some l \<Rightarrow> l)
      in if latency \<noteq> 0 then ob\<lparr>ob_latency_total := ob_latency_total ob + latency,
           ob_latency_count := ob_latency_count ob + 1\<rparr> else ob)"

definition process_event :: "runtime_event \<Rightarrow> observability \<Rightarrow> observability" where
  "process_event e ob = (let name = ev_runtime e in case ev_type e of
     Event_COMPLETED \<Rightarrow> observe_latency e (ob\<lparr>ob_executions := ob_executions ob + 1,
       ob_successes := ob_successes ob + 1, ob_runtime_successes := bump name (ob_runtime_successes ob),
       ob_runtime_completions := bump name (ob_runtime_completions ob)\<rparr>)
   | Event_FAILED \<Rightarrow> observe_latency e (ob\<lparr>ob_executions := ob_executions ob + 1,
       ob_failures := ob_failures ob + 1, ob_runtime_failures := bump name (ob_runtime_failures ob)\<rparr>)
   | Event_FALLBACK \<Rightarrow> ob\<lparr>ob_fallbacks := ob_fallbacks ob + 1\<rparr>
   | _ \<Rightarrow> ob)"

text \<open>\<^verbatim>\<open>max(d, key=d.get)\<close>: the first key, in insertion order, with the greatest value.\<close>

fun first_max :: "(string, nat) dict \<Rightarrow> (string \<times> nat) option" where
  "first_max [] = None"
| "first_max ((k, v) # d) = (case first_max d of
     None \<Rightarrow> Some (k, v) | Some (k', v') \<Rightarrow> if v \<ge> v' then Some (k, v) else Some (k', v'))"

definition success_ratio :: "observability \<Rightarrow> string \<Rightarrow> rat" where
  "success_ratio ob name =
     (let successes = dict_get_default (ob_runtime_successes ob) name 0;
          total = successes + dict_get_default (ob_runtime_failures ob) name 0
      in if total = 0 then 1 else of_nat successes / of_nat total)"

definition better_ratio :: "observability \<Rightarrow> string \<Rightarrow> rat \<times> string option \<Rightarrow> rat \<times> string option" where
  "better_ratio ob name best =
     (if success_ratio ob name > fst best then (success_ratio ob name, Some name) else best)"

definition observed :: "(string list \<Rightarrow> string list) \<Rightarrow> observability \<Rightarrow> observed_metrics" where
  "observed ord ob =
     (let names = ord (remdups (dict_keys (ob_runtime_successes ob) @ dict_keys (ob_runtime_failures ob)))
      in \<lparr>om_executions = ob_executions ob, om_successes = ob_successes ob, om_failures = ob_failures ob,
          om_fallbacks = ob_fallbacks ob,
          om_avg_latency = (if ob_latency_count ob = 0 then 0 else ob_latency_total ob / of_nat (ob_latency_count ob)),
          om_most_used = map_option fst (first_max (ob_runtime_completions ob)),
          om_most_reliable = snd (fold (better_ratio ob) names (-1, None))\<rparr>)"

subsection \<open>What the metrics say\<close>

lemma reliability_bounds: "0 \<le> reliability_score s c f e \<and> reliability_score s c f e \<le> 100"
  by (simp add: reliability_score_def clamp_score_def Let_def)

lemma performance_bounds: "0 \<le> performance_score l s f e \<and> performance_score l s f e \<le> 100"
  by (simp add: performance_score_def clamp_score_def Let_def)

lemma dd_touch_get [simp]: "dict_get_default (dd_touch k z d) k' z = dict_get_default d k' z"
  by (auto simp: dd_touch_def dict_get_default_def map_of_eq_None_iff split: option.split)
    (metis map_of_SomeD fst_conv image_eqI option.distinct(1))

lemma metrics_touch: "metrics_of n (touch_counters m pa) = metrics_of n pa"
  by (simp add: metrics_of_def touch_counters_def Let_def)

lemma fold_get_metrics: "metrics_of n (fold (\<lambda>m pa. snd (perf_get_metrics m pa)) ms pa) = metrics_of n pa"
  by (induction ms arbitrary: pa) (simp_all add: perf_get_metrics_def calculate_metrics_def metrics_touch)

text \<open>
  The latencies that the results of a runtime report: a missing one is 0, a boolean counts as 0 or 1, and what is
  negative or not a number is left out.
\<close>

definition reported_latency :: "runtime_event \<Rightarrow> rat list" where
  "reported_latency e = (case dict_get (ev_metadata e) ''latency_ms'' of
     None \<Rightarrow> [0]
   | Some (PInt i) \<Rightarrow> (if 0 \<le> i then [of_int i] else [])
   | Some (PFloat x) \<Rightarrow> (if 0 \<le> x then [x] else [])
   | Some (PBool b) \<Rightarrow> [if b then 1 else 0]
   | Some _ \<Rightarrow> [])"

definition reported_latencies :: "string \<Rightarrow> runtime_event list \<Rightarrow> rat list" where
  "reported_latencies n es = concat (map reported_latency
     (filter (\<lambda>e. ev_runtime e = n \<and> ev_type e \<in> {Event_COMPLETED, Event_FAILED}) es))"

lemma reported_latency_eq: "reported_latency e = (case event_latency e of None \<Rightarrow> [] | Some l \<Rightarrow> [l])"
  by (simp add: reported_latency_def event_latency_def dict_get_default_def split: option.split pyval.split)

lemma latencies_reported: "latencies_of n es = reported_latencies n es"
  by (induction es) (auto simp: latencies_of_def reported_latencies_def reported_latency_eq)

lemma replay_last:
  "dict_get (pa_last_execution (replay es)) n =
     (if events_of Event_STARTED n es = [] then None else Some (ev_timestamp (last (events_of Event_STARTED n es))))"
  by (induction es rule: rev_induct)
    (auto simp: replay_snoc record_defs events_of_def replay_def new_analyzer_def
      split: runtime_event_type.split option.split)

text \<open>
  C7. The analyzer refines the event history: after the events \<open>es\<close>, and however often metrics were
  read since, the metrics of a runtime are the counts of its events, the time of its last start, the mean of the
  latencies that its completions and failures report (a missing one counts as 0, a negative or non-numeric one not
  at all), and two scores between 0 and 100: a hundred times the success rate less 10 per opened circuit (at most 30)
  and 5 per fallback (at most 20), plus half a point per execution (at most 5); and, where there was an execution,
  100 less a tenth of the mean latency, not below 0, less 20 times the share of failures among the results.
\<close>

theorem metrics_refine_history:
  "let m = fst (perf_get_metrics n (fold (\<lambda>k pa. snd (perf_get_metrics k pa)) ks (replay es)));
       count = (\<lambda>ty. length (filter (\<lambda>e. ev_type e = ty \<and> ev_runtime e = n) es));
       lats = reported_latencies n es;
       rate = (if count Event_STARTED = 0 then 0 else of_nat (count Event_COMPLETED) / of_nat (count Event_STARTED) :: rat);
       results = count Event_COMPLETED + count Event_FAILED
   in pm_runtime m = n \<and> pm_executions m = count Event_STARTED \<and> pm_successes m = count Event_COMPLETED \<and>
     pm_failures m = count Event_FAILED \<and> pm_fallbacks m = count Event_FALLBACK \<and> pm_success_rate m = rate \<and>
     pm_last_execution m = (if count Event_STARTED = 0 then None
       else Some (ev_timestamp (last (filter (\<lambda>e. ev_type e = Event_STARTED \<and> ev_runtime e = n) es)))) \<and>
     pm_avg_latency m = (if lats = [] then 0 else sum_list lats / of_nat (length lats)) \<and>
     pm_reliability m = max 0 (min 100 (rate * 100 - min (of_nat (count Event_CIRCUIT_OPENED * 10)) 30
       - min (of_nat (count Event_FALLBACK * 5)) 20 + min (of_nat (count Event_STARTED) * (1 / 2)) 5)) \<and>
     pm_performance m = (if count Event_STARTED = 0 then 0
       else max 0 (min 100 (max 0 (100 - pm_avg_latency m / 10)
         - (if results = 0 then 0 else of_nat (count Event_FAILED) / of_nat results * 20))))"
proof -
  let ?c = "\<lambda>ty. length (events_of ty n es)"
  have m: "fst (perf_get_metrics n (fold (\<lambda>k pa. snd (perf_get_metrics k pa)) ks (replay es))) = metrics_of n (replay es)"
    by (simp add: perf_get_metrics_def[of n] calculate_metrics_def fold_get_metrics)
  have perf: "performance_score l s f e = (if e = 0 then 0 else max 0 (min 100 (max 0 (100 - l / 10)
      - (if s + f = 0 then 0 else of_nat f / of_nat (s + f) * 20))))" for l s f e
    by (cases "s + f") (simp_all only: performance_score_def clamp_score_def Let_def nat.simps zero_less_Suc less_irrefl if_True if_False simp_thms)
  have avg: "(if length (latencies_of n es) = 0 then 0 else sum_list (latencies_of n es) / of_nat (length (latencies_of n es)))
      = (if latencies_of n es = [] then 0 else sum_list (latencies_of n es) / of_nat (length (latencies_of n es)))"
    by simp
  have last_start: "(if ?c Event_STARTED = 0 then None else Some (ev_timestamp (last (events_of Event_STARTED n es))))
      = (if events_of Event_STARTED n es = [] then None else Some (ev_timestamp (last (events_of Event_STARTED n es))))"
    by simp
  have fields: "metrics_of n (replay es) = \<lparr>pm_runtime = n, pm_executions = ?c Event_STARTED, pm_successes = ?c Event_COMPLETED,
      pm_failures = ?c Event_FAILED, pm_fallbacks = ?c Event_FALLBACK,
      pm_avg_latency = (if latencies_of n es = [] then 0 else sum_list (latencies_of n es) / of_nat (length (latencies_of n es))),
      pm_success_rate = (if ?c Event_STARTED = 0 then 0 else of_nat (?c Event_COMPLETED) / of_nat (?c Event_STARTED)),
      pm_reliability = reliability_score (if ?c Event_STARTED = 0 then 0 else of_nat (?c Event_COMPLETED) / of_nat (?c Event_STARTED))
        (?c Event_CIRCUIT_OPENED) (?c Event_FALLBACK) (?c Event_STARTED),
      pm_performance = performance_score (if latencies_of n es = [] then 0 else sum_list (latencies_of n es) / of_nat (length (latencies_of n es)))
        (?c Event_COMPLETED) (?c Event_FAILED) (?c Event_STARTED),
      pm_last_execution = dict_get (pa_last_execution (replay es)) n\<rparr>"
    unfolding metrics_of_def Let_def replay_executions replay_successes replay_failures replay_fallbacks
      replay_circuit_opens conjunct1[OF replay_latency] conjunct2[OF replay_latency] avg ..
  show ?thesis
    unfolding m Let_def events_of_def[symmetric] latencies_reported[symmetric] fields performance_metrics.select_convs
      replay_last last_start perf reliability_score_def clamp_score_def by (intro conjI refl)
qed

lemma calculate_all_spec: "fst (calculate_all ns pa) = map (\<lambda>n. (n, metrics_of n pa)) ns"
  by (induction ns arbitrary: pa) (simp_all add: calculate_metrics_def metrics_touch case_prod_unfold Let_def)

text \<open>
  The ranking lists exactly the known runtimes with enough executions, each with its metrics, by
  decreasing reliability and, among equals, decreasing performance score, whatever the order in which
  Python iterates over the set of names.
\<close>

lemma rank_runtimes_sorted:
  assumes "\<And>names. mset (ord names) = mset names"
  shows "mset (fst (rank_runtimes ord k pa)) =
      mset (filter (\<lambda>(n, m). pm_executions m \<ge> k) (map (\<lambda>n. (n, metrics_of n pa)) (known_names pa))) \<and>
    sorted (map (\<lambda>(n, m). (- pm_reliability m, - pm_performance m)) (fst (rank_runtimes ord k pa)))"
proof -
  have "fst (rank_runtimes ord k pa) = sort_key (\<lambda>(n, m). (- pm_reliability m, - pm_performance m))
      (filter (\<lambda>(n, m). pm_executions m \<ge> k) (map (\<lambda>n. (n, metrics_of n pa)) (ord (known_names pa))))"
    by (simp add: rank_runtimes_def get_all_metrics_def calculate_all_spec[symmetric] split: prod.split)
  moreover have "mset (filter P (map f (ord xs))) = mset (filter P (map f xs))" for P xs and f :: "string \<Rightarrow> string \<times> performance_metrics"
    using assms by (metis mset_filter mset_map)
  ultimately show ?thesis by simp
qed

definition started_event :: "string \<Rightarrow> runtime_event" where
  "started_event name = \<lparr>ev_type = Event_STARTED, ev_runtime = name, ev_timestamp = 0, ev_severity = Sev_INFO,
     ev_message = [], ev_metadata = []\<rparr>"

lemma rank_runtimes_sorted_example:
  "sorted (map (\<lambda>(n, m). (- pm_reliability m, - pm_performance m))
     (fst (rank_runtimes rev 1 (replay [started_event ''a'', started_event ''b'']))))"
  using rank_runtimes_sorted[of rev 1 "replay [started_event ''a'', started_event ''b'']"] by simp

text \<open>
  Asking for the metrics of a runtime makes it known: it is listed afterwards although no event
  was ever recorded for it, because the read creates its counters.
\<close>

lemma query_makes_known: "n \<in> set (known_names (snd (perf_get_metrics n pa)))"
  by (simp add: perf_get_metrics_def calculate_metrics_def touch_counters_def known_names_def dd_touch_def)

end
