(* ===== verification/RuntimeHealth.thy ===== *)
theory RuntimeHealth
  imports RuntimeRegistry
begin

text \<open>
  The runtime health monitor, \<^verbatim>\<open>src/backend/ral/runtime_health.py\<close>: status derived from the
  lifecycle status and execution counters kept per runtime name. \<open>now\<close> is the clock reading of a
  check; the text of an error is an argument.
\<close>

datatype health_status = AVAILABLE | DEGRADED | UNAVAILABLE | UNKNOWN

record runtime_metrics =
  rm_runtime :: string
  rm_executions :: nat
  rm_failures :: nat
  rm_total_latency :: int
  rm_last_error :: "string option"
  rm_last_check :: "time option"

type_synonym health_monitor = "(string, runtime_metrics) dict"

datatype health_error = HealthNotRegistered string

definition new_metrics :: "string \<Rightarrow> runtime_metrics" where
  "new_metrics name = \<lparr>rm_runtime = name, rm_executions = 0, rm_failures = 0, rm_total_latency = 0,
     rm_last_error = None, rm_last_check = None\<rparr>"

definition avg_latency :: "runtime_metrics \<Rightarrow> rat" where
  "avg_latency m = (if rm_executions m = 0 then 0
     else of_int (rm_total_latency m) / of_nat (rm_executions m))"

definition failure_rate :: "runtime_metrics \<Rightarrow> rat" where
  "failure_rate m = (if rm_executions m = 0 then 0 else of_nat (rm_failures m) / of_nat (rm_executions m))"

definition touch :: "time \<Rightarrow> string \<Rightarrow> health_monitor \<Rightarrow> health_monitor" where
  "touch now name hm = (case dict_get hm name of
     None \<Rightarrow> dict_set name ((new_metrics name)\<lparr>rm_last_check := Some now\<rparr>) hm
   | Some m \<Rightarrow> dict_set name (m\<lparr>rm_last_check := Some now\<rparr>) hm)"

fun status_health :: "runtime_status \<Rightarrow> health_status" where
  "status_health Status_STARTED = AVAILABLE"
| "status_health Status_STARTING = DEGRADED"
| "status_health Status_STOPPED = UNAVAILABLE"
| "status_health Status_STOPPING = UNAVAILABLE"
| "status_health Status_ERROR = UNAVAILABLE"

definition check_runtime :: "time \<Rightarrow> runtime_env \<Rightarrow> registry \<Rightarrow> string \<Rightarrow> health_monitor
    \<Rightarrow> health_error + health_status \<times> health_monitor" where
  "check_runtime now env reg name hm = (case registry_get name reg of
     Inl _ \<Rightarrow> Inl (HealthNotRegistered name)
   | Inr r \<Rightarrow>
       (let hm' = touch now name hm
        in if (case ri_capabilities (env r) of None \<Rightarrow> True | Some cs \<Rightarrow> cs = [])
           then Inr (DEGRADED, hm') else Inr (status_health (ri_status (env r)), hm')))"

definition is_status :: "health_status \<Rightarrow> time \<Rightarrow> runtime_env \<Rightarrow> registry \<Rightarrow> string \<Rightarrow> health_monitor
    \<Rightarrow> health_error + bool \<times> health_monitor" where
  "is_status st now env reg name hm = (case check_runtime now env reg name hm of
     Inl e \<Rightarrow> Inl e | Inr (s, hm') \<Rightarrow> Inr (s = st, hm'))"

definition is_available where "is_available = is_status AVAILABLE"
definition is_degraded where "is_degraded = is_status DEGRADED"
definition is_unavailable where "is_unavailable = is_status UNAVAILABLE"

definition record_execution :: "string \<Rightarrow> int \<Rightarrow> bool \<Rightarrow> string option \<Rightarrow> health_monitor \<Rightarrow> health_monitor" where
  "record_execution name latency_ms success error hm =
     (let m = dict_get_default hm name (new_metrics name)
      in dict_set name \<lparr>rm_runtime = name, rm_executions = rm_executions m + 1,
           rm_failures = rm_failures m + (if success then 0 else 1),
           rm_total_latency = rm_total_latency m + latency_ms,
           rm_last_error = (if \<not> success \<and> error \<noteq> None then error else rm_last_error m),
           rm_last_check = rm_last_check m\<rparr> hm)"

definition get_metrics :: "registry \<Rightarrow> string \<Rightarrow> health_monitor \<Rightarrow> health_error + runtime_metrics" where
  "get_metrics reg name hm = (case registry_get name reg of
     Inl _ \<Rightarrow> Inl (HealthNotRegistered name) | Inr _ \<Rightarrow> Inr (dict_get_default hm name (new_metrics name)))"

definition error_prone :: "runtime_metrics \<Rightarrow> bool" where
  "error_prone m \<longleftrightarrow> rm_failures m > 3 \<or> failure_rate m > 1 / 2"

definition is_error_prone :: "registry \<Rightarrow> string \<Rightarrow> health_monitor \<Rightarrow> health_error + bool" where
  "is_error_prone reg name hm = map_sum id error_prone (get_metrics reg name hm)"

definition list_metrics :: "health_monitor \<Rightarrow> runtime_metrics list" where
  "list_metrics hm = dict_values hm"

subsection \<open>The counters are consistent\<close>

definition metrics_ok :: "runtime_metrics \<Rightarrow> bool" where
  "metrics_ok m \<longleftrightarrow> rm_failures m \<le> rm_executions m"

definition health_inv :: "health_monitor \<Rightarrow> bool" where
  "health_inv hm \<longleftrightarrow> keyed rm_runtime hm \<and> (\<forall>m \<in> set (dict_values hm). metrics_ok m)"

lemma health_inv_get: "health_inv hm \<Longrightarrow> dict_get hm name = Some m \<Longrightarrow> metrics_ok m \<and> rm_runtime m = name"
  unfolding health_inv_def using keyed_get[of rm_runtime hm name m] map_of_SomeD[of hm name m]
  by (metis image_eqI set_map snd_conv)

lemma health_inv_set:
  "health_inv hm \<Longrightarrow> metrics_ok m \<Longrightarrow> rm_runtime m = name \<Longrightarrow> health_inv (dict_set name m hm)"
  using keyed_set[of rm_runtime hm m name] by (auto simp: health_inv_def set_dict_set[OF keyed_distinct])

lemma touch_inv: "health_inv hm \<Longrightarrow> health_inv (touch now name hm)"
  by (auto simp: touch_def new_metrics_def metrics_ok_def split: option.splits
      intro!: health_inv_set dest: health_inv_get)

lemma record_execution_inv: "health_inv hm \<Longrightarrow> health_inv (record_execution name lat ok err hm)"
  by (auto simp: record_execution_def Let_def dict_get_default_def new_metrics_def metrics_ok_def
      split: option.splits intro!: health_inv_set dest: health_inv_get)

text \<open>
  With consistent counters the failure rate lies between 0 and 1, and a runtime counts as
  error-prone exactly when it failed more than three times or in more than half of its executions.
\<close>

lemma error_prone_iff:
  assumes "health_inv hm" and "registry_get name reg = Inr r"
  shows "\<exists>m b. get_metrics reg name hm = Inr m \<and> 0 \<le> failure_rate m \<and> failure_rate m \<le> 1 \<and>
    is_error_prone reg name hm = Inr b \<and>
    (b \<longleftrightarrow> rm_failures m > 3 \<or> 2 * rm_failures m > rm_executions m)"
proof -
  let ?m = "dict_get_default hm name (new_metrics name)"
  have le: "rm_failures ?m \<le> rm_executions ?m"
    using health_inv_get[OF assms(1), of name]
    by (auto simp: dict_get_default_def new_metrics_def metrics_ok_def split: option.splits)
  have rate: "failure_rate ?m > 1 / 2 \<longleftrightarrow> 2 * rm_failures ?m > rm_executions ?m"
  proof (cases "rm_executions ?m = 0")
    case False
    then have "failure_rate ?m > 1 / 2 \<longleftrightarrow> (of_nat (rm_executions ?m) :: rat) < of_nat (2 * rm_failures ?m)"
      by (simp add: failure_rate_def field_simps)
    then show ?thesis by (simp only: of_nat_less_iff)
  qed (use le in \<open>simp add: failure_rate_def\<close>)
  have "0 \<le> failure_rate ?m \<and> failure_rate ?m \<le> 1"
    using le by (simp add: failure_rate_def divide_le_eq)
  then show ?thesis
    using assms(2) rate by (auto simp: get_metrics_def is_error_prone_def error_prone_def)
qed

lemma error_prone_iff_example:
  "\<exists>m. get_metrics [(''a'', 0)] ''a'' (record_execution ''a'' 5 False None []) = Inr m \<and> failure_rate m \<le> 1"
proof -
  have "health_inv (record_execution ''a'' 5 False None [])"
    by (rule record_execution_inv) (simp add: health_inv_def)
  from error_prone_iff[OF this, of "''a''" "[(''a'', 0)]" 0] show ?thesis by (auto simp: registry_get_def)
qed

end
