(* ===== verification/RuntimeRecovery_Correct.thy ===== *)
theory RuntimeRecovery_Correct
  imports RuntimeRecovery
begin

text \<open>
  Selection, event history, circuit breaker and fallback choice: what
  \<^verbatim>\<open>runtime_selector.py\<close>, \<^verbatim>\<open>runtime_events.py\<close> and \<^verbatim>\<open>runtime_recovery.py\<close> promise.
\<close>


subsection \<open>Selection\<close>

text \<open>
  The selector returns only registered runtimes that are started and advertise the capability,
  and that match the preference unless they were asked for by name; it raises exactly when the
  runtime asked for by name is not registered, or when no registered runtime passes the rules.
\<close>

lemma select_runtime_correct:
  assumes "distinct (dict_keys reg)"
  shows "case select_runtime env reg cap preference preferred of
      Inr r \<Rightarrow> r \<in> set (dict_values reg) \<and> has_capability env cap r \<and> health_check env r \<and>
        (selection_rules env cap preference r \<or> (\<exists>n. preferred = Some n \<and> dict_get reg n = Some r))
    | Inl (PreferredNotRegistered n) \<Rightarrow> preferred = Some n \<and> n \<notin> set (dict_keys reg)
    | Inl (NoRuntime c) \<Rightarrow> c = cap \<and> (\<forall>r \<in> set (dict_values reg). \<not> selection_rules env cap preference r)"
proof -
  have base: "case select_from env reg cap preference of
      Inr r \<Rightarrow> r \<in> set (dict_values reg) \<and> selection_rules env cap preference r
    | Inl e \<Rightarrow> e = NoRuntime cap \<and> (\<forall>r \<in> set (dict_values reg). \<not> selection_rules env cap preference r)"
    using select_from_Inr[of env reg cap preference] select_from_Inl[of env reg cap preference]
      set_candidates[OF assms]
    by (cases "select_from env reg cap preference") auto
  have "n \<notin> set (dict_keys reg)" if "dict_get reg n = None" for n using that by (simp add: get_None_iff)
  moreover have "r \<in> set (dict_values reg)" if "dict_get reg n = Some r" for n r
    using map_of_SomeD[OF that] by force
  ultimately show ?thesis
    using base by (auto simp: select_runtime_def registry_get_def selection_rules_def
        split: option.splits sum.splits selection_error.splits)
qed

definition one_env :: runtime_env where
  "one_env r = \<lparr>ri_name = ''local'', ri_capabilities = Some [''chat''], ri_status = Status_STARTED\<rparr>"

lemma select_runtime_correct_example:
  "\<exists>r. select_runtime one_env [(''a'', 7)] ''chat'' None None = Inr r \<and> health_check one_env r"
  using select_runtime_correct[where reg = "[(''a'', 7)]" and env = one_env and cap = "''chat''"
      and preference = None and preferred = None]
  by (auto simp: select_runtime_def select_from_def candidates_def list_available_def selection_rules_def
      has_capability_def health_check_def one_env_def)

subsection \<open>Event history\<close>

lemma py_last_snoc: "n > 0 \<Longrightarrow> py_last n (drop (length xs - nat n) xs @ [x]) = drop (Suc (length xs) - nat n) (xs @ [x])"
  by (cases "nat n \<le> length xs") (auto simp: py_last_def Suc_diff_le)

lemma bus_publish_events: "eb_events (bus_publish e b) =
    (if int (length (eb_events b)) + 1 > eb_max b then py_last (eb_max b) (eb_events b @ [e]) else eb_events b @ [e])"
  by (simp add: bus_publish_def Let_def add.commute)

lemma fold_publish_max: "eb_max (fold bus_publish es (new_event_bus n)) = n"
  by (induction es rule: rev_induct) (simp_all add: new_event_bus_def bus_publish_def Let_def)

text \<open>
  With a positive limit the bus keeps exactly the last events up to the limit, in order; with
  the limit zero it keeps all of them, because the slice \<^verbatim>\<open>events[-0:]\<close> is the whole list.
\<close>

lemma bus_history:
  assumes "0 \<le> n"
  shows "eb_events (fold bus_publish es (new_event_bus n)) =
    (if n = 0 then es else drop (length es - nat n) es)"
proof (induction es rule: rev_induct)
  case Nil
  then show ?case by (simp add: new_event_bus_def)
next
  case (snoc e es)
  show ?case
  proof (cases "n = 0")
    case True
    then show ?thesis using snoc.IH by (simp add: bus_publish_events fold_publish_max py_last_def)
  next
    case False
    then have pos: "n > 0" using assms by simp
    show ?thesis
    proof (cases "int (length es) + 1 > n")
      case True
      then have "length (drop (length es - nat n) es) = nat n \<or> length (drop (length es - nat n) es) = length es \<and> nat n = length es"
        using pos by auto
      then have "int (length (drop (length es - nat n) es)) + 1 > n" using pos by auto
      then show ?thesis
        using snoc.IH False py_last_snoc[OF pos, of es e] by (simp add: bus_publish_events fold_publish_max)
    next
      case short: False
      then have "length es - nat n = 0" "Suc (length es) - nat n = 0" using pos by linarith+
      then show ?thesis
        using snoc.IH False short by (simp add: bus_publish_events fold_publish_max)
    qed
  qed
qed

definition sample_event :: "string \<Rightarrow> runtime_event" where
  "sample_event name = \<lparr>ev_type = Event_STARTED, ev_runtime = name, ev_timestamp = 0, ev_severity = Sev_INFO,
     ev_message = [], ev_metadata = []\<rparr>"

lemma bus_history_example:
  "map ev_runtime (eb_events (fold bus_publish (map sample_event [''a'', ''b'', ''c'']) (new_event_bus 2))) =
     [''b'', ''c'']"
  using bus_history[of 2 "map sample_event [''a'', ''b'', ''c'']"] by (simp add: sample_event_def)

subsection \<open>Circuit breaker\<close>

lemma breaker_failures:
  assumes "1 \<le> th"
  shows "fold breaker_failure ts (new_breaker th to) =
    \<lparr>cb_threshold = th, cb_timeout = to, cb_state = (if int (length ts) \<ge> th then OPEN else CLOSED),
     cb_failures = length ts, cb_opened_at = (if int (length ts) \<ge> th then Some (last ts) else None)\<rparr>"
proof (induction ts rule: rev_induct)
  case Nil
  then show ?case using assms by (simp add: new_breaker_def)
next
  case (snoc t ts)
  then show ?case using assms by (auto simp: breaker_failure_def Let_def)
qed

text \<open>
  A fresh breaker lets executions through until the threshold of consecutive failures is
  reached; from then on it refuses until the recovery timeout has passed since the last failure; one
  success makes it a fresh breaker again.
\<close>

lemma breaker_opens_at_threshold:
  assumes "1 \<le> th" and "b = fold breaker_failure ts (new_breaker th to)"
  shows "(fst (is_allowed now b) \<longleftrightarrow> int (length ts) < th \<or> now - last ts \<ge> to) \<and>
    breaker_success b = new_breaker th to"
  unfolding assms(2) breaker_failures[OF assms(1)]
  by (simp add: is_allowed_def breaker_success_def new_breaker_def not_le)

lemma breaker_opens_at_threshold_example:
  "\<not> fst (is_allowed 20 (fold breaker_failure [1, 2, 3] (new_breaker 3 30))) \<and>
   fst (is_allowed 33 (fold breaker_failure [1, 2, 3] (new_breaker 3 30)))"
  using breaker_opens_at_threshold[where th = 3 and now = 20 and ts = "[1, 2, 3]" and to = 30, OF _ refl]
    breaker_opens_at_threshold[where th = 3 and now = 33 and ts = "[1, 2, 3]" and to = 30, OF _ refl] by simp

text \<open>Asking an open breaker repeatedly, with no result recorded in between.\<close>

fun ask_all :: "time list \<Rightarrow> circuit_breaker \<Rightarrow> bool list" where
  "ask_all [] b = []"
| "ask_all (t # ts) b = (let (ok, b') = is_allowed t b in ok # ask_all ts b')"

lemma ask_half_open: "cb_state b = HALF_OPEN \<Longrightarrow> ask_all ts b = replicate (length ts) True"
  by (induction ts) (simp_all add: is_allowed_def)

text \<open>
  Once the recovery timeout has passed, an open breaker lets every further execution through
  until a result is recorded, not only the single probe its documentation announces.
\<close>

lemma breaker_half_open_unlimited:
  assumes "cb_state b = OPEN" and "cb_opened_at b = Some t0" and "t - t0 \<ge> cb_timeout b"
  shows "ask_all (t # ts) b = replicate (Suc (length ts)) True"
  using assms by (simp add: is_allowed_def ask_half_open)

lemma breaker_half_open_unlimited_example:
  "ask_all [40, 40, 40] (fold breaker_failure [1, 2, 3] (new_breaker 3 30)) = [True, True, True]"
  using breaker_half_open_unlimited[of "fold breaker_failure [1, 2, 3] (new_breaker 3 30)" 3 40 "[40, 40]"]
  unfolding breaker_failures[of 3, simplified] by (simp del: ask_all.simps add: numeral_3_eq_3)

subsection \<open>Candidate tests that do not influence each other\<close>

text \<open>
  A test that may change the state it reads, as the half-open transition and the health monitor's
  time stamp do, but whose verdicts do not depend on the tests made before: then the loop finds the
  first candidate that the initial state accepts.
\<close>

locale stable_test =
  fixes test :: "'x \<Rightarrow> 's \<Rightarrow> bool \<times> 's"
  assumes stable: "fst (test y (snd (test x s))) = fst (test y s)"
begin

lemma first_accepted_Cons: "first_accepted test (x # xs) s =
    (if fst (test x s) then (Some x, snd (test x s)) else first_accepted test xs (snd (test x s)))"
  by (simp add: Let_def split: prod.splits)

lemma first_accepted_find: "fst (first_accepted test xs s) = List.find (\<lambda>x. fst (test x s)) xs"
proof (induction xs arbitrary: s)
  case (Cons x xs)
  then show ?case by (simp add: first_accepted_Cons stable del: first_accepted.simps(2))
qed simp

lemma first_accepted_verdicts: "fst (test y (snd (first_accepted test xs s))) = fst (test y s)"
proof (induction xs arbitrary: s)
  case (Cons x xs)
  then show ?case by (simp add: first_accepted_Cons stable del: first_accepted.simps(2))
qed simp

end

definition breaker_of :: "recovery_manager \<Rightarrow> string \<Rightarrow> circuit_breaker" where
  "breaker_of rc name = (case dict_get (rc_breakers rc) name of
     Some b \<Rightarrow> b | None \<Rightarrow> new_breaker (rc_threshold rc) (rc_timeout rc))"

lemma get_breaker_fst: "fst (get_breaker name rc) = breaker_of rc name"
  by (simp add: get_breaker_def breaker_of_def Let_def split: option.splits)

lemma should_retry_fst: "fst (should_retry now name rc) = fst (is_allowed now (breaker_of rc name))"
  by (simp add: should_retry_def Let_def get_breaker_fst[symmetric] split: prod.splits)

lemma breaker_of_retry: "breaker_of (snd (should_retry now x rc)) y =
    (if y = x then snd (is_allowed now (breaker_of rc x)) else breaker_of rc y)"
  by (auto simp: should_retry_def get_breaker_def put_breaker_def breaker_of_def Let_def
      split: prod.splits option.splits)

lemma is_allowed_again: "fst (is_allowed now (snd (is_allowed now b))) = fst (is_allowed now b)"
  by (auto simp: is_allowed_def split: option.splits)

lemma should_retry_stable: "fst (should_retry now y (snd (should_retry now x rc))) = fst (should_retry now y rc)"
  by (simp add: should_retry_fst breaker_of_retry is_allowed_again)

lemma fallback_test_fst:
  "fst (fallback_test now env reg exclude r rc) \<longleftrightarrow> health_check env r \<and>
     (\<exists>name. find_name r reg = Some name \<and> name \<notin> set exclude \<and> fst (should_retry now name rc))"
  by (auto simp: fallback_test_def Let_def split: option.splits prod.splits)

lemma fallback_test_snd:
  "snd (fallback_test now env reg exclude r rc) = rc \<or>
     (\<exists>name. snd (fallback_test now env reg exclude r rc) = snd (should_retry now name rc))"
  by (auto simp: fallback_test_def Let_def split: option.splits prod.splits) (metis snd_conv)

interpretation fallback: stable_test "fallback_test now env reg exclude" for now env reg exclude
proof unfold_locales
  fix y x s
  show "fst (fallback_test now env reg exclude y (snd (fallback_test now env reg exclude x s))) =
      fst (fallback_test now env reg exclude y s)"
    using fallback_test_snd[of now env reg exclude x s] by (auto simp: fallback_test_fst should_retry_stable)
qed

text \<open>
  The fallback chosen after a failure is the first compatible runtime, in name order, that is
  started, is neither the failed one nor excluded, and whose circuit lets it run; the error is raised
  exactly when there is no such runtime.
\<close>

lemma select_fallback_correct:
  "fst (select_fallback now env reg failed cap preference exclude rc) =
     (case List.find (\<lambda>r. health_check env r \<and> (\<exists>name. find_name r reg = Some name \<and>
              name \<notin> insert failed (set exclude) \<and> fst (is_allowed now (breaker_of rc name))))
            (list_compatible env reg cap preference) of
        None \<Rightarrow> Inl (NoFallback cap failed) | Some r \<Rightarrow> Inr r)"
proof -
  have "fst (first_accepted (fallback_test now env reg (failed # exclude)) xs rc) =
      List.find (\<lambda>r. health_check env r \<and> (\<exists>name. find_name r reg = Some name \<and>
              name \<notin> insert failed (set exclude) \<and> fst (is_allowed now (breaker_of rc name)))) xs" for xs
    unfolding fallback.first_accepted_find fallback_test_fst should_retry_fst by simp
  from this[of "list_compatible env reg cap preference"] show ?thesis
    unfolding select_fallback_def
    by (cases "first_accepted (fallback_test now env reg (failed # exclude)) (list_compatible env reg cap preference) rc")
      (auto split: option.splits)
qed

end
