(* ===== verification/RuntimeDecision.thy ===== *)
theory RuntimeDecision
  imports RuntimePolicy RuntimePerformance RuntimeHealth RuntimeRecovery_Correct
begin

text \<open>
  The adaptive decision engine, \<^verbatim>\<open>src/backend/ral/runtime_decision.py\<close>: a weighted score per
  registered runtime from the health monitor, the performance analyzer, the policy engine and the
  circuit breakers, the ranking, and the selection with its confidence. The engine's record holds the
  components it was built from; \<open>now\<close> is the clock reading of a call. The explanation text of a
  decision is not modelled.
\<close>

subsection \<open>Data\<close>

record decision_score =
  ds_runtime :: string
  ds_final :: rat
  ds_health :: rat
  ds_reliability :: rat
  ds_performance :: rat
  ds_capability :: rat
  ds_policy :: rat
  ds_circuit_penalty :: rat
  ds_metadata :: metadata

record runtime_decision =
  rd_selected :: string
  rd_confidence :: rat
  rd_score :: rat
  rd_candidates :: "decision_score list"
  rd_timestamp :: time

record decision_weights =
  dw_health :: rat
  dw_performance :: rat
  dw_reliability :: rat
  dw_capability :: rat
  dw_policy :: rat
  dw_circuit_penalty :: rat

record decision_engine =
  de_registry :: registry
  de_health :: health_monitor
  de_performance :: performance_analyzer
  de_recovery :: recovery_manager
  de_policy :: "policy_engine option"
  de_weights :: decision_weights

datatype decision_error =
    RuntimeNotRegistered string
  | RejectedByPolicy string string "rejection option"
  | NoCandidate string "string option"
  | BelowConfidence string rat rat

definition default_weights :: decision_weights where
  "default_weights = \<lparr>dw_health = 1, dw_performance = 1, dw_reliability = 1, dw_capability = 1, dw_policy = 1,
     dw_circuit_penalty = 1\<rparr>"

definition new_decision_engine :: "registry \<Rightarrow> health_monitor \<Rightarrow> performance_analyzer \<Rightarrow> recovery_manager
    \<Rightarrow> decision_weights option \<Rightarrow> policy_engine option \<Rightarrow> decision_engine" where
  "new_decision_engine reg hm pa rc weights pe =
     \<lparr>de_registry = reg, de_health = hm, de_performance = pa, de_recovery = rc, de_policy = pe,
      de_weights = (case weights of None \<Rightarrow> default_weights | Some w \<Rightarrow> w)\<rparr>"

definition set_weights :: "decision_weights \<Rightarrow> decision_engine \<Rightarrow> decision_engine" where
  "set_weights w de = de\<lparr>de_weights := w\<rparr>"

subsection \<open>Evaluation of one runtime\<close>

definition provider_hint :: "string option \<Rightarrow> string option" where
  "provider_hint preference = (case preference of None \<Rightarrow> None
     | Some p \<Rightarrow> if str_lower p = ''local'' then Some ''local''
               else if str_lower p = ''cloud'' then Some ''cloud'' else None)"

definition build_context :: "string \<Rightarrow> string \<Rightarrow> string option \<Rightarrow> performance_metrics \<Rightarrow> execution_context" where
  "build_context name cap preference perf = new_context\<lparr>cx_capability := cap, cx_runtime_name := Some name,
     cx_provider := provider_hint preference,
     cx_avg_latency := (if pm_executions perf > 0 then Some (pm_avg_latency perf) else None),
     cx_reliability := Some (pm_reliability perf)\<rparr>"

text \<open>The policy engine is asked first, if there is one; reading the metrics touches the analyzer.\<close>

definition ask_policy :: "string \<Rightarrow> string \<Rightarrow> string option \<Rightarrow> decision_engine
    \<Rightarrow> policy_result option \<times> decision_engine" where
  "ask_policy name cap preference de = (case de_policy de of
     None \<Rightarrow> (None, de)
   | Some pe \<Rightarrow> (let (perf, pa) = perf_get_metrics name (de_performance de)
                in (Some (RuntimePolicy.evaluate pe (build_context name cap preference perf)), de\<lparr>de_performance := pa\<rparr>)))"

fun health_points :: "health_status \<Rightarrow> rat" where
  "health_points AVAILABLE = 200"
| "health_points DEGRADED = 80"
| "health_points UNAVAILABLE = 0"
| "health_points UNKNOWN = 20"

fun health_value :: "health_status \<Rightarrow> string" where
  "health_value AVAILABLE = ''available''"
| "health_value DEGRADED = ''degraded''"
| "health_value UNAVAILABLE = ''unavailable''"
| "health_value UNKNOWN = ''unknown''"

text \<open>The name matches are raised one after the other; \<open>suggested\<close> comes from the policy.\<close>

definition policy_points :: "string \<Rightarrow> string option \<Rightarrow> string option \<Rightarrow> string option \<Rightarrow> rat" where
  "policy_points name preference preferred suggested =
     (let s1 = (if preferred = Some name then 100 else 0);
          s2 = (case preference of None \<Rightarrow> s1
                | Some p \<Rightarrow> if is_infix (str_lower p) (str_lower name) then max s1 50 else s1)
      in if suggested = Some name then max s2 100 else s2)"

definition optional_entry :: "string \<Rightarrow> string option \<Rightarrow> metadata" where
  "optional_entry key v = (case v of None \<Rightarrow> [] | Some s \<Rightarrow> [(key, PStr s)])"

definition decision_metadata :: "string option \<Rightarrow> health_status \<Rightarrow> bool \<Rightarrow> performance_metrics \<Rightarrow> metadata" where
  "decision_metadata suggested health allowed perf =
     optional_entry ''policy_preferred'' suggested @ [(''health_status'', PStr (health_value health))] @
     (if allowed then [] else [(''circuit_state'', PStr ''open'')]) @
     [(''executions'', PInt (int (pm_executions perf))), (''successes'', PInt (int (pm_successes perf))),
      (''failures'', PInt (int (pm_failures perf)))]"

definition compose_score :: "decision_weights \<Rightarrow> string \<Rightarrow> rat \<Rightarrow> performance_metrics \<Rightarrow> rat \<Rightarrow> rat \<Rightarrow> bool
    \<Rightarrow> metadata \<Rightarrow> decision_score" where
  "compose_score w name health perf capability policy allowed meta =
     (let reliability = pm_reliability perf * (5 / 2);
          performance = pm_performance perf * 2;
          penalty = (if allowed then 0 else 100 * dw_circuit_penalty w);
          raw = health * dw_health w + reliability * dw_reliability w + performance * dw_performance w
                + capability * dw_capability w + policy * dw_policy w - penalty
      in \<lparr>ds_runtime = name, ds_final = max 0 raw, ds_health = health * dw_health w,
          ds_reliability = reliability * dw_reliability w, ds_performance = performance * dw_performance w,
          ds_capability = capability * dw_capability w, ds_policy = policy * dw_policy w,
          ds_circuit_penalty = penalty, ds_metadata = meta\<rparr>)"

definition checked_health :: "time \<Rightarrow> runtime_env \<Rightarrow> string \<Rightarrow> decision_engine \<Rightarrow> health_status \<times> decision_engine" where
  "checked_health now env name de = (case check_runtime now env (de_registry de) name (de_health de) of
     Inl _ \<Rightarrow> (UNKNOWN, de) | Inr (st, hm) \<Rightarrow> (st, de\<lparr>de_health := hm\<rparr>))"

definition score_runtime :: "time \<Rightarrow> runtime_env \<Rightarrow> string \<Rightarrow> rid \<Rightarrow> string \<Rightarrow> string option \<Rightarrow> string option
    \<Rightarrow> string option \<Rightarrow> decision_engine \<Rightarrow> decision_score \<times> decision_engine" where
  "score_runtime now env name r cap preference preferred suggested de =
     (let (health, de1) = checked_health now env name de;
          (perf, pa) = perf_get_metrics name (de_performance de1);
          (allowed, rc) = should_retry now name (de_recovery de1)
      in (compose_score (de_weights de) name (health_points health) perf (if has_capability env cap r then 150 else 0)
            (policy_points name preference preferred suggested) allowed
            (decision_metadata suggested health allowed perf),
          de1\<lparr>de_performance := pa, de_recovery := rc\<rparr>))"

definition evaluate_runtime :: "time \<Rightarrow> runtime_env \<Rightarrow> string \<Rightarrow> string \<Rightarrow> string option \<Rightarrow> string option
    \<Rightarrow> decision_engine \<Rightarrow> (decision_error + decision_score) \<times> decision_engine" where
  "evaluate_runtime now env name cap preference preferred de = (case registry_get name (de_registry de) of
     Inl _ \<Rightarrow> (Inl (RuntimeNotRegistered name), de)
   | Inr r \<Rightarrow> (case ask_policy name cap preference de of
       (Some res, de1) \<Rightarrow>
         if \<not> pl_allowed res then (Inl (RejectedByPolicy name (pl_policy_name res) (pl_rejected_reason res)), de1)
         else (let (s, de2) = score_runtime now env name r cap preference preferred (pl_preferred_runtime res) de1
               in (Inr s, de2))
     | (None, de1) \<Rightarrow>
         (let (s, de2) = score_runtime now env name r cap preference preferred None de1 in (Inr s, de2))))"

subsection \<open>Ranking and selection\<close>

fun score_all :: "time \<Rightarrow> runtime_env \<Rightarrow> string \<Rightarrow> string option \<Rightarrow> string option \<Rightarrow> string list
    \<Rightarrow> decision_engine \<Rightarrow> decision_score list \<times> decision_engine" where
  "score_all now env cap preference preferred [] de = ([], de)"
| "score_all now env cap preference preferred (name # names) de =
     (case evaluate_runtime now env name cap preference preferred de of
        (Inl _, de1) \<Rightarrow> score_all now env cap preference preferred names de1
      | (Inr s, de1) \<Rightarrow> (let (ss, de2) = score_all now env cap preference preferred names de1 in (s # ss, de2)))"

definition rank_candidates :: "time \<Rightarrow> runtime_env \<Rightarrow> string \<Rightarrow> string option \<Rightarrow> string option
    \<Rightarrow> decision_engine \<Rightarrow> decision_score list \<times> decision_engine" where
  "rank_candidates now env cap preference preferred de =
     (let (scores, de') = score_all now env cap preference preferred (list_available (de_registry de)) de
      in (sort_key (\<lambda>s. - ds_final s) scores, de'))"

definition confidence_of :: "decision_score list \<Rightarrow> rat" where
  "confidence_of scores = (case scores of
     [] \<Rightarrow> 0
   | [best] \<Rightarrow> if ds_final best > 0 then ds_final best / 1000 else 0
   | best # second # _ \<Rightarrow>
       if ds_final second > 0 then min (ds_final best / max (ds_final second) 1 / 2) 1
       else if ds_final best > 0 then ds_final best / 1000 else 0)"

definition decide_runtime :: "time \<Rightarrow> runtime_env \<Rightarrow> string \<Rightarrow> string option \<Rightarrow> string option \<Rightarrow> rat
    \<Rightarrow> decision_engine \<Rightarrow> (decision_error + runtime_decision) \<times> decision_engine" where
  "decide_runtime now env cap preference preferred min_confidence de =
     (case rank_candidates now env cap preference preferred de of
        ([], de') \<Rightarrow> (Inl (NoCandidate cap preference), de')
      | (best # rest, de') \<Rightarrow>
          (let c = confidence_of (best # rest)
           in if c < min_confidence then (Inl (BelowConfidence (ds_runtime best) (ds_final best) min_confidence), de')
              else (Inr \<lparr>rd_selected = ds_runtime best, rd_confidence = min c 1, rd_score = ds_final best,
                      rd_candidates = best # rest, rd_timestamp = now\<rparr>, de')))"

subsection \<open>Which runtimes are candidates\<close>

definition policy_allows :: "string \<Rightarrow> string option \<Rightarrow> decision_engine \<Rightarrow> string \<Rightarrow> bool" where
  "policy_allows cap preference de name = (case de_policy de of None \<Rightarrow> True
     | Some pe \<Rightarrow> pl_allowed (RuntimePolicy.evaluate pe
         (build_context name cap preference (metrics_of name (de_performance de)))))"

text \<open>Evaluating a runtime changes the monitors, but neither the policies nor any metrics.\<close>

definition same_policy :: "decision_engine \<Rightarrow> decision_engine \<Rightarrow> bool" where
  "same_policy de de' \<longleftrightarrow> de_registry de' = de_registry de \<and> de_policy de' = de_policy de \<and>
     de_weights de' = de_weights de \<and> (\<forall>n. metrics_of n (de_performance de') = metrics_of n (de_performance de))"

lemma same_policy_refl [simp]: "same_policy de de"
  by (simp add: same_policy_def)

lemma same_policy_trans: "same_policy a b \<Longrightarrow> same_policy b c \<Longrightarrow> same_policy a c"
  by (simp add: same_policy_def)

lemma policy_allows_same: "same_policy de de' \<Longrightarrow> policy_allows cap preference de' = policy_allows cap preference de"
  by (rule ext) (simp add: policy_allows_def same_policy_def cong: option.case_cong)

lemma ask_policy_spec:
  "(case fst (ask_policy name cap preference de) of None \<Rightarrow> True | Some res \<Rightarrow> pl_allowed res) =
     policy_allows cap preference de name \<and> same_policy de (snd (ask_policy name cap preference de))"
  by (auto simp: ask_policy_def policy_allows_def same_policy_def perf_get_metrics_def calculate_metrics_def
      metrics_touch split: option.splits)

lemma checked_health_same: "same_policy de (snd (checked_health now env name de))"
  by (auto simp: checked_health_def same_policy_def split: sum.splits prod.splits)

lemma score_runtime_same: "same_policy de (snd (score_runtime now env name r cap preference preferred suggested de))"
  using checked_health_same[of de now env name]
  by (auto simp: score_runtime_def same_policy_def perf_get_metrics_def calculate_metrics_def metrics_touch Let_def
      split: prod.splits)

lemma score_runtime_parts:
  "\<exists>health allowed perf points meta. fst (score_runtime now env name r cap preference preferred suggested de) =
     compose_score (de_weights de) name (health_points health) perf (if has_capability env cap r then 150 else 0)
       points allowed meta \<and> perf = metrics_of name (de_performance de) \<and>
     points = policy_points name preference preferred suggested"
  using checked_health_same[of de now env name]
  by (auto simp: score_runtime_def perf_get_metrics_def calculate_metrics_def Let_def same_policy_def split: prod.splits) blast+

lemma evaluate_runtime_spec:
  assumes "dict_get (de_registry de) name = Some r"
  shows "same_policy de (snd (evaluate_runtime now env name cap preference preferred de)) \<and>
    (if policy_allows cap preference de name
     then \<exists>s suggested de1. fst (evaluate_runtime now env name cap preference preferred de) = Inr s \<and> same_policy de de1 \<and>
       s = fst (score_runtime now env name r cap preference preferred suggested de1)
     else \<exists>e. fst (evaluate_runtime now env name cap preference preferred de) = Inl e)"
proof -
  obtain res de1 where a: "ask_policy name cap preference de = (res, de1)" by fastforce
  have allow: "(case res of None \<Rightarrow> True | Some x \<Rightarrow> pl_allowed x) = policy_allows cap preference de name"
    and same: "same_policy de de1"
    using ask_policy_spec[of name cap preference de] a by simp_all
  note step = same_policy_trans[OF same score_runtime_same]
  show ?thesis
  proof (cases res)
    case None
    obtain s de2 where s: "score_runtime now env name r cap preference preferred None de1 = (s, de2)" by fastforce
    have "same_policy de de2" using step[of now env name r cap preference preferred None] s by simp
    then show ?thesis using None a allow same s assms
      by (auto simp: evaluate_runtime_def registry_get_def intro!: exI[of _ None] exI[of _ de1])
  next
    case (Some x)
    obtain s de2 where s: "score_runtime now env name r cap preference preferred (pl_preferred_runtime x) de1 = (s, de2)"
      by fastforce
    have "same_policy de de2" using step[of now env name r cap preference preferred "pl_preferred_runtime x"] s by simp
    then show ?thesis using Some a allow same s assms
      by (auto simp: evaluate_runtime_def registry_get_def intro!: exI[of _ "pl_preferred_runtime x"] exI[of _ de1])
  qed
qed

lemma compose_score_name [simp]: "ds_runtime (compose_score w name h p c pts ok meta) = name"
  by (simp add: compose_score_def Let_def)

text \<open>Every candidate is scored by a composition over its own metrics.\<close>

definition scored :: "decision_engine \<Rightarrow> decision_score \<Rightarrow> bool" where
  "scored de s \<longleftrightarrow> (\<exists>health allowed points capability meta.
     s = compose_score (de_weights de) (ds_runtime s) (health_points health) (metrics_of (ds_runtime s) (de_performance de))
       capability points allowed meta \<and> (capability = 0 \<or> capability = 150) \<and> 0 \<le> points \<and> points \<le> 100)"

lemma policy_points_bounds: "0 \<le> policy_points name preference preferred suggested \<and>
    policy_points name preference preferred suggested \<le> 100"
  by (simp add: policy_points_def Let_def split: option.split)

lemma score_runtime_scored:
  assumes "same_policy de de1"
  shows "scored de (fst (score_runtime now env name r cap preference preferred suggested de1)) \<and>
    ds_runtime (fst (score_runtime now env name r cap preference preferred suggested de1)) = name"
proof -
  obtain health allowed meta where s: "fst (score_runtime now env name r cap preference preferred suggested de1) =
      compose_score (de_weights de1) name (health_points health) (metrics_of name (de_performance de1))
        (if has_capability env cap r then 150 else 0) (policy_points name preference preferred suggested) allowed meta"
    using score_runtime_parts by blast
  have w: "de_weights de1 = de_weights de" and m: "metrics_of name (de_performance de1) = metrics_of name (de_performance de)"
    using assms by (simp_all add: same_policy_def)
  show ?thesis
    unfolding scored_def s compose_score_name w m
  proof (intro conjI exI)
    show "compose_score (de_weights de) name (health_points health) (metrics_of name (de_performance de))
        (if has_capability env cap r then 150 else 0) (policy_points name preference preferred suggested) allowed meta =
      compose_score (de_weights de) name (health_points health) (metrics_of name (de_performance de))
        (if has_capability env cap r then 150 else 0) (policy_points name preference preferred suggested) allowed meta" ..
  qed (use policy_points_bounds in auto)
qed

lemma score_all_spec:
  assumes "set names \<subseteq> set (dict_keys (de_registry de))"
  shows "map ds_runtime (fst (score_all now env cap preference preferred names de)) =
      filter (policy_allows cap preference de) names \<and>
    (\<forall>s \<in> set (fst (score_all now env cap preference preferred names de)). scored de s)"
  using assms
proof (induction names arbitrary: de)
  case (Cons name names)
  obtain r where r: "dict_get (de_registry de) name = Some r" using Cons.prems in_keys_get[of name "de_registry de"] by auto
  obtain x de1 where e: "evaluate_runtime now env name cap preference preferred de = (x, de1)" by fastforce
  have same: "same_policy de de1"
    using evaluate_runtime_spec[OF r, of now env cap preference preferred] e by simp
  have "set names \<subseteq> set (dict_keys (de_registry de1))" using Cons.prems same by (simp add: same_policy_def)
  note IH = Cons.IH[OF this]
  have scored_eq: "scored de1 s = scored de s" for s using same by (simp add: scored_def same_policy_def)
  show ?case
  proof (cases "policy_allows cap preference de name")
    case True
    then obtain s suggested de0 where s: "x = Inr s" "same_policy de de0"
        "s = fst (score_runtime now env name r cap preference preferred suggested de0)"
      using evaluate_runtime_spec[OF r, of now env cap preference preferred] e by auto
    show ?thesis
      using IH e True s score_runtime_scored[OF s(2)] policy_allows_same[OF same] scored_eq
      by (auto simp: case_prod_unfold Let_def)
  next
    case False
    then obtain err where "x = Inl err"
      using evaluate_runtime_spec[OF r, of now env cap preference preferred] e by auto
    then show ?thesis using IH e False policy_allows_same[OF same] scored_eq by auto
  qed
qed simp

lemma rank_candidates_spec:
  "mset (map ds_runtime (fst (rank_candidates now env cap preference preferred de))) =
     mset (filter (policy_allows cap preference de) (dict_keys (de_registry de))) \<and>
   sorted (map (\<lambda>s. - ds_final s) (fst (rank_candidates now env cap preference preferred de))) \<and>
   (\<forall>s \<in> set (fst (rank_candidates now env cap preference preferred de)). scored de s)"
proof -
  have names: "set (list_available (de_registry de)) \<subseteq> set (dict_keys (de_registry de))"
    by (simp add: list_available_def)
  let ?ss = "fst (score_all now env cap preference preferred (list_available (de_registry de)) de)"
  note spec = score_all_spec[OF names, of now env cap preference preferred]
  have r: "fst (rank_candidates now env cap preference preferred de) = sort_key (\<lambda>s. - ds_final s) ?ss"
    by (simp add: rank_candidates_def case_prod_unfold Let_def)
  have "mset (map ds_runtime ?ss) = mset (filter (policy_allows cap preference de) (sort (dict_keys (de_registry de))))"
    using spec by (simp add: list_available_def)
  also have "\<dots> = mset (filter (policy_allows cap preference de) (dict_keys (de_registry de)))"
    unfolding mset_filter by simp
  finally have "mset (map ds_runtime ?ss) = \<dots>" .
  moreover have "mset (map ds_runtime (sort_key f ?ss)) = mset (map ds_runtime ?ss)" for f :: "decision_score \<Rightarrow> rat"
    by (simp only: mset_map mset_sort)
  ultimately show ?thesis using spec unfolding r by (simp only: set_sort sorted_sort_key) blast
qed


subsection \<open>Scores\<close>

definition nonneg_weights :: "decision_weights \<Rightarrow> bool" where
  "nonneg_weights w \<longleftrightarrow> 0 \<le> dw_health w \<and> 0 \<le> dw_performance w \<and> 0 \<le> dw_reliability w \<and> 0 \<le> dw_capability w \<and>
     0 \<le> dw_policy w \<and> 0 \<le> dw_circuit_penalty w"

definition score_limit :: "decision_weights \<Rightarrow> rat" where
  "score_limit w = 200 * dw_health w + 250 * dw_reliability w + 200 * dw_performance w + 150 * dw_capability w +
     100 * dw_policy w"

lemma health_points_bounds: "0 \<le> health_points h \<and> health_points h \<le> 200"
  by (cases h) simp_all

lemma scaled_le: "0 \<le> w \<Longrightarrow> x \<le> b \<Longrightarrow> x * w \<le> b * (w :: rat)"
  by (rule mult_right_mono)

lemma metrics_bounds: "pm_reliability (metrics_of n pa) \<le> 100 \<and> pm_performance (metrics_of n pa) \<le> 100"
  using reliability_bounds performance_bounds by (simp add: metrics_of_def Let_def)

lemma scored_bounds:
  assumes "scored de s" and w: "nonneg_weights (de_weights de)"
  shows "0 \<le> ds_final s \<and> ds_final s \<le> score_limit (de_weights de)"
proof -
  obtain health allowed points capability meta where s: "s = compose_score (de_weights de) (ds_runtime s)
      (health_points health) (metrics_of (ds_runtime s) (de_performance de)) capability points allowed meta"
    and c: "capability = 0 \<or> capability = 150" and p: "points \<le> 100"
    using assms(1) unfolding scored_def by blast
  let ?w = "de_weights de" and ?m = "metrics_of (ds_runtime s) (de_performance de)"
  have "health_points health * dw_health ?w \<le> 200 * dw_health ?w"
    using w health_points_bounds by (simp add: nonneg_weights_def scaled_le)
  moreover have "pm_reliability ?m * (5 / 2) * dw_reliability ?w \<le> 250 * dw_reliability ?w"
    using w metrics_bounds[of "ds_runtime s"] by (intro scaled_le) (simp_all add: nonneg_weights_def)
  moreover have "pm_performance ?m * 2 * dw_performance ?w \<le> 200 * dw_performance ?w"
    using w metrics_bounds[of "ds_runtime s"] by (intro scaled_le) (simp_all add: nonneg_weights_def)
  moreover have "capability * dw_capability ?w \<le> 150 * dw_capability ?w"
    using w c by (intro scaled_le) (auto simp: nonneg_weights_def)
  moreover have "points * dw_policy ?w \<le> 100 * dw_policy ?w"
    using w p by (intro scaled_le) (simp_all add: nonneg_weights_def)
  moreover have "0 \<le> (if allowed then 0 else 100 * dw_circuit_penalty ?w)"
    using w by (simp add: nonneg_weights_def)
  moreover have "0 \<le> score_limit ?w" using w by (simp add: score_limit_def nonneg_weights_def)
  ultimately have "ds_final (compose_score ?w (ds_runtime s) (health_points health) ?m capability points allowed meta)
      \<le> score_limit ?w"
    unfolding compose_score_def Let_def decision_score.simps score_limit_def by linarith
  moreover have "0 \<le> ds_final (compose_score ?w (ds_runtime s) (health_points health) ?m capability points allowed meta)"
    by (simp add: compose_score_def Let_def)
  ultimately show ?thesis using s by metis
qed

subsection \<open>Decisions\<close>

lemma decide_cases:
  "(case fst (decide_runtime now env cap preference preferred least de) of
     Inr d \<Rightarrow> \<exists>best rest. fst (rank_candidates now env cap preference preferred de) = best # rest \<and>
       rd_selected d = ds_runtime best \<and> rd_score d = ds_final best \<and> rd_candidates d = best # rest \<and>
       least \<le> confidence_of (best # rest) \<and> rd_confidence d = min (confidence_of (best # rest)) 1
   | Inl (NoCandidate c p) \<Rightarrow> c = cap \<and> p = preference \<and> fst (rank_candidates now env cap preference preferred de) = []
   | Inl (BelowConfidence n x m) \<Rightarrow> m = least \<and> (\<exists>best rest.
       fst (rank_candidates now env cap preference preferred de) = best # rest \<and> n = ds_runtime best \<and> x = ds_final best \<and>
       confidence_of (best # rest) < least)
   | Inl _ \<Rightarrow> False)"
  by (cases "rank_candidates now env cap preference preferred de")
    (auto simp: decide_runtime_def Let_def split: list.split)

text \<open>
  A decision lists exactly the registered runtimes the policy allows, by decreasing score, and
  selects the first: no listed runtime scores higher, and the confidence reaches the requested
  minimum. Without a decision, either the policy refuses every registered runtime, or the confidence in
  the best one is too low.
\<close>

lemma decide_runtime_best:
  "case fst (decide_runtime now env cap preference preferred least de) of
     Inr d \<Rightarrow> mset (map ds_runtime (rd_candidates d)) =
         mset (filter (policy_allows cap preference de) (dict_keys (de_registry de))) \<and>
       rd_candidates d \<noteq> [] \<and> rd_selected d = ds_runtime (hd (rd_candidates d)) \<and>
       list_all (\<lambda>s. ds_final s \<le> rd_score d) (rd_candidates d) \<and>
       rd_confidence d = min (confidence_of (rd_candidates d)) 1 \<and> least \<le> confidence_of (rd_candidates d)
   | Inl (NoCandidate c p) \<Rightarrow> filter (policy_allows cap preference de) (dict_keys (de_registry de)) = []
   | Inl (BelowConfidence n x m) \<Rightarrow> \<exists>ss. mset (map ds_runtime ss) =
         mset (filter (policy_allows cap preference de) (dict_keys (de_registry de))) \<and> ss \<noteq> [] \<and>
         n = ds_runtime (hd ss) \<and> confidence_of ss < least
   | Inl _ \<Rightarrow> False"
proof -
  let ?r = "fst (rank_candidates now env cap preference preferred de)"
  note spec = rank_candidates_spec[of now env cap preference preferred de]
  have top: "list_all (\<lambda>s. ds_final s \<le> ds_final best) (best # rest)" if "?r = best # rest" for best rest
    using spec that by (auto simp: list_all_iff)
  show ?thesis
    using decide_cases[where now = now and env = env and cap = cap and preference = preference and
        preferred = preferred and least = least and de = de] spec top
    by (cases "fst (decide_runtime now env cap preference preferred least de)")
      (fastforce split: decision_error.splits)+
qed

text \<open>
  With the default weights every score lies between 0 and 900, not 1000, so the confidence in a
  runtime that is the only candidate never exceeds 0.9 and any higher minimum fails; with the minimum
  zero it is selected in every environment, also stopped or without the capability.
\<close>

lemma lone_candidate_confidence:
  assumes "de_weights de = default_weights"
    and "filter (policy_allows cap preference de) (dict_keys (de_registry de)) = [n]"
  shows "case fst (decide_runtime now env cap preference preferred least de) of
     Inr d \<Rightarrow> rd_selected d = n \<and> 0 \<le> rd_score d \<and> rd_score d \<le> 900 \<and> rd_confidence d \<le> 9 / 10 \<and> least \<le> 9 / 10
   | Inl _ \<Rightarrow> least > 0"
proof -
  let ?r = "fst (rank_candidates now env cap preference preferred de)"
  note spec = rank_candidates_spec[of now env cap preference preferred de]
  have "mset (map ds_runtime ?r) = mset [n]" using spec assms(2) by metis
  then have "map ds_runtime ?r = [n]" by (simp only: mset.simps add_mset_eq_singleton_iff mset_single_iff_right mset_single_iff)
  then obtain s where r: "?r = [s]" and n: "ds_runtime s = n" by (auto simp: map_eq_Cons_conv)
  have "scored de s" using spec r by simp
  then have b: "0 \<le> ds_final s \<and> ds_final s \<le> 900"
    using scored_bounds[of de s] assms(1) by (simp add: nonneg_weights_def score_limit_def default_weights_def)
  then have "0 \<le> confidence_of [s] \<and> confidence_of [s] \<le> 9 / 10" by (simp add: confidence_of_def)
  then show ?thesis
    using decide_cases[where now = now and env = env and cap = cap and preference = preference and
        preferred = preferred and least = least and de = de] r n b
    by (auto split: sum.splits decision_error.splits)
qed


definition stopped_env :: runtime_env where
  "stopped_env r = \<lparr>ri_name = ''local'', ri_capabilities = None, ri_status = Status_STOPPED\<rparr>"

definition lone_engine :: decision_engine where
  "lone_engine = new_decision_engine [(''a'', 0)] [] new_analyzer (new_recovery 3 30 None) None None"

lemma lone_candidate_confidence_example:
  "\<exists>d. fst (decide_runtime 0 stopped_env ''chat'' None None 0 lone_engine) = Inr d \<and> rd_selected d = ''a'' \<and>
     \<not> has_capability stopped_env ''chat'' 0 \<and> \<not> health_check stopped_env 0"
proof -
  have "de_weights lone_engine = default_weights"
    and "filter (policy_allows ''chat'' None lone_engine) (dict_keys (de_registry lone_engine)) = [''a'']"
    by (simp_all add: lone_engine_def new_decision_engine_def policy_allows_def)
  from lone_candidate_confidence[OF this, where now = 0 and env = stopped_env and preferred = None and least = 0] show ?thesis
    by (auto simp: has_capability_def health_check_def stopped_env_def split: sum.splits)
qed

end
