(* ===== verification/ExecutionEngine.thy ===== *)
theory ExecutionEngine
  imports Supervisor_Correct RuntimeDecision
begin

text \<open>
  The mission execution engine, \<^verbatim>\<open>src/backend/agent/execution_engine.py\<close>: the scheduler, the
  engine's own life cycle, and the tick that advances the supervisor, copies agent states into the
  engine's graph, dispatches ready tasks and detects the end. The engine composes the supervisor (whose
  agent manager it shares), the task planner and the runtime decision engine. \<open>now\<close> is the clock
  reading of a call, \<open>env\<close> the attributes of the runtimes, \<open>uuid\<close> and \<open>euuid\<close> the random suffixes of
  agent names, \<open>render\<close> the rendering of an exception; handlers are opaque tokens that do not raise.
\<close>

subsection \<open>Data\<close>

datatype execution_state = Exec_IDLE | Exec_INITIALIZING | Exec_RUNNING | Exec_WAITING | Exec_PAUSED
  | Exec_RECOVERING | Exec_COMPLETED | Exec_FAILED | Exec_CANCELLED

datatype execution_event = EXECUTION_STARTED | TASK_READY_EV | TASK_STARTED | TASK_COMPLETED_EV | TASK_FAILED_EV
  | TASK_SKIPPED | EXECUTION_PAUSED | EXECUTION_RESUMED | EXECUTION_COMPLETED | EXECUTION_FAILED
  | EXECUTION_RECOVERED | NODE_BLOCKED

record run_context =
  xc_execution_id :: string
  xc_mission_id :: string
  xc_graph_id :: string
  xc_created_at :: time
  xc_metadata :: metadata

record execution_result =
  xr_success :: bool
  xr_completed :: nat
  xr_failed :: nat
  xr_skipped :: nat
  xr_time_ms :: rat
  xr_runtime_statistics :: metadata
  xr_metadata :: metadata

record execution_statistics =
  xs_started :: nat
  xs_completed :: nat
  xs_failed :: nat
  xs_tasks_executed :: nat
  xs_tasks_parallel :: nat
  xs_avg_time_ms :: rat
  xs_success_rate :: rat
  xs_avg_wait_ms :: rat
  xs_recoveries :: nat

record execution_engine =
  en_supervisor :: supervisor
  en_decision :: decision_engine
  en_hermes :: bool
  en_planner :: task_planner
  en_state :: execution_state
  en_context :: "run_context option"
  en_graph :: "exec_graph option"
  en_plan :: "graph_plan option"
  en_start_time :: "time option"
  en_result :: "execution_result option"
  en_stats :: execution_statistics
  en_handlers :: "handler list"
  en_log :: "(handler \<times> execution_event \<times> metadata) list"
  en_task_starts :: "(string, time) dict"
  en_task_durations :: "(string, time) dict"

datatype engine_error =
    WrongState execution_state
  | NoGraph
  | EnginePlanning "task_issue list"
  | EngineSupervisor supervisor_error
  | EscapedGraphError graph_error

definition initial_statistics :: execution_statistics where
  "initial_statistics = \<lparr>xs_started = 0, xs_completed = 0, xs_failed = 0, xs_tasks_executed = 0, xs_tasks_parallel = 0,
     xs_avg_time_ms = 0, xs_success_rate = 1, xs_avg_wait_ms = 0, xs_recoveries = 0\<rparr>"

definition new_engine :: "supervisor \<Rightarrow> decision_engine \<Rightarrow> bool \<Rightarrow> task_planner option \<Rightarrow> execution_engine" where
  "new_engine sv de hermes pl = \<lparr>en_supervisor = sv, en_decision = de, en_hermes = hermes,
     en_planner = (case pl of None \<Rightarrow> \<lparr>pl_strategy = BALANCED, pl_capabilities = None\<rparr> | Some p \<Rightarrow> p),
     en_state = Exec_IDLE, en_context = None, en_graph = None, en_plan = None, en_start_time = None, en_result = None,
     en_stats = initial_statistics, en_handlers = [], en_log = [], en_task_starts = [], en_task_durations = []\<rparr>"

subsection \<open>Scheduler\<close>

fun ready_in :: "exec_graph \<Rightarrow> graph_plan \<Rightarrow> string list \<Rightarrow> agent_node list" where
  "ready_in g plan [] = []"
| "ready_in g plan (nid # nids) = (case get_node nid g of
     Inl _ \<Rightarrow> ready_in g plan nids
   | Inr n \<Rightarrow>
      (if status_is Node_PENDING (node_status n) \<and> deps_completed g (dict_get_default (plan_dependencies plan) nid [])
       then n # ready_in g plan nids else ready_in g plan nids))"

definition get_ready_tasks :: "exec_graph \<Rightarrow> graph_plan \<Rightarrow> agent_node list" where
  "get_ready_tasks g plan = ready_in g plan (concat (plan_levels plan))"

fun pending_in :: "exec_graph \<Rightarrow> string list \<Rightarrow> agent_node list" where
  "pending_in g [] = []"
| "pending_in g (nid # nids) = (case get_node nid g of
     Inl _ \<Rightarrow> pending_in g nids
   | Inr n \<Rightarrow> if status_is Node_PENDING (node_status n) then n # pending_in g nids else pending_in g nids)"

definition get_parallel_groups :: "exec_graph \<Rightarrow> graph_plan \<Rightarrow> agent_node list list" where
  "get_parallel_groups g plan = filter (\<lambda>grp. grp \<noteq> []) (map (pending_in g) (plan_levels plan))"

definition blocking_deps :: "exec_graph \<Rightarrow> string list \<Rightarrow> nat" where
  "blocking_deps g deps = length (filter (\<lambda>d. case get_node d g of Inl _ \<Rightarrow> True
     | Inr n \<Rightarrow> \<not> status_is Node_COMPLETED (node_status n)) deps)"

definition estimate_wait_time :: "exec_graph \<Rightarrow> graph_plan \<Rightarrow> string \<Rightarrow> rat \<Rightarrow> rat" where
  "estimate_wait_time g plan nid avg = of_nat (blocking_deps g (dict_get_default (plan_dependencies plan) nid [])) * avg"

subsection \<open>Helpers\<close>

definition on_engine_event :: "handler \<Rightarrow> execution_engine \<Rightarrow> execution_engine" where
  "on_engine_event h en = en\<lparr>en_handlers := en_handlers en @ [h]\<rparr>"

definition emit_engine :: "execution_event \<Rightarrow> metadata \<Rightarrow> execution_engine \<Rightarrow> execution_engine" where
  "emit_engine e payload en = en\<lparr>en_log := en_log en @ map (\<lambda>h. (h, e, payload)) (en_handlers en)\<rparr>"

definition engine_nodes :: "execution_engine \<Rightarrow> agent_node list" where
  "engine_nodes en = (case en_graph en of None \<Rightarrow> [] | Some g \<Rightarrow> list_nodes g)"

definition count_status :: "node_status \<Rightarrow> agent_node list \<Rightarrow> nat" where
  "count_status st ns = length (filter (\<lambda>n. status_is st (node_status n)) ns)"

text \<open>\<^verbatim>\<open>if self._start_time\<close>: a start time of zero counts as none.\<close>

definition elapsed_ms :: "time \<Rightarrow> execution_engine \<Rightarrow> rat" where
  "elapsed_ms now en = (case en_start_time en of None \<Rightarrow> 0 | Some t \<Rightarrow> if t = 0 then 0 else (now - t) * 1000)"

definition result_statistics :: "bool \<Rightarrow> nat \<Rightarrow> execution_statistics \<Rightarrow> execution_statistics" where
  "result_statistics success completed s = s\<lparr>xs_started := xs_started s + 1,
     xs_completed := xs_completed s + (if success then 1 else 0),
     xs_failed := xs_failed s + (if success then 0 else 1),
     xs_tasks_executed := xs_tasks_executed s + completed,
     xs_success_rate := of_nat (xs_completed s) / of_nat (max (xs_started s + 1) 1)\<rparr>"

definition result_of :: "time \<Rightarrow> bool \<Rightarrow> execution_engine \<Rightarrow> execution_result" where
  "result_of now success en = (let ns = engine_nodes en in
     \<lparr>xr_success = success, xr_completed = count_status Node_COMPLETED ns, xr_failed = count_status Node_FAILED ns,
      xr_skipped = count_status Node_SKIPPED ns, xr_time_ms = elapsed_ms now en, xr_runtime_statistics = [],
      xr_metadata = []\<rparr>)"

definition build_result :: "time \<Rightarrow> bool \<Rightarrow> execution_engine \<Rightarrow> execution_engine" where
  "build_result now success en = en\<lparr>
     en_stats := result_statistics success (count_status Node_COMPLETED (engine_nodes en)) (en_stats en),
     en_result := Some (result_of now success en)\<rparr>"

definition execution_id_of :: "execution_engine \<Rightarrow> string" where
  "execution_id_of en = (case en_context en of None \<Rightarrow> [] | Some c \<Rightarrow> xc_execution_id c)"

subsection \<open>Life cycle\<close>

definition engine_mission :: "mission_context \<Rightarrow> task_mission" where
  "engine_mission m = \<lparr>tm_id = mc_id m, tm_title = mc_title m, tm_description = [], tm_objective = mc_objective m,
     tm_priority = mc_priority m, tm_metadata = []\<rparr>"

definition start_failed :: "engine_error \<Rightarrow> string \<Rightarrow> execution_engine \<Rightarrow> execution_engine \<times> (engine_error + run_context)" where
  "start_failed err msg en =
     (emit_engine EXECUTION_FAILED [(''error'', PStr msg)] (en\<lparr>en_state := Exec_FAILED\<rparr>), Inl err)"

text \<open>The part of \<^verbatim>\<open>start\<close> after the mission was created in the supervisor.\<close>

definition launch_run :: "time \<Rightarrow> (supervisor_error \<Rightarrow> string) \<Rightarrow> run_context \<Rightarrow> nat \<Rightarrow> exec_graph \<Rightarrow> execution_engine
    \<Rightarrow> execution_engine \<times> (engine_error + run_context)" where
  "launch_run now render ctx tasks g en =
     (let en1 = en\<lparr>en_context := Some ctx, en_graph := Some g\<rparr>
      in case generate_plan g of
           Inl ge \<Rightarrow> (en1, Inl (EscapedGraphError ge))
         | Inr plan \<Rightarrow>
             (let en2 = emit_engine EXECUTION_STARTED [(''execution_id'', PStr (xc_execution_id ctx)),
                     (''mission_id'', PStr (xc_mission_id ctx)), (''task_count'', PInt (int tasks))]
                   (en1\<lparr>en_plan := Some plan, en_state := Exec_RUNNING\<rparr>)
              in case Supervisor.start_mission now (xc_mission_id ctx) (en_supervisor en2) of
                   Inl err \<Rightarrow> start_failed (EngineSupervisor err) (render err) en2
                 | Inr r \<Rightarrow> (en2\<lparr>en_supervisor := fst r\<rparr>, Inr ctx)))"

definition start_execution :: "time \<Rightarrow> (supervisor_error \<Rightarrow> string) \<Rightarrow> (task_issue list \<Rightarrow> string) \<Rightarrow> string \<Rightarrow> string
    \<Rightarrow> metadata \<Rightarrow> mission_context \<Rightarrow> planned_task list \<Rightarrow> execution_engine
    \<Rightarrow> execution_engine \<times> (engine_error + run_context)" where
  "start_execution now render issues_text execution_id graph_id md mission tasks en =
     (if en_state en \<noteq> Exec_IDLE then (en, Inl (WrongState (en_state en)))
      else let en1 = en\<lparr>en_state := Exec_INITIALIZING, en_start_time := Some now\<rparr>
      in case create_plan now (en_planner en1) (engine_mission mission) tasks of
           Inl (PlanningError issues) \<Rightarrow> start_failed (EnginePlanning issues) (issues_text issues) en1
         | Inl (PlanGraphError ge) \<Rightarrow> (en1, Inl (EscapedGraphError ge))
         | Inr plan \<Rightarrow> (case tp_graph plan of
             None \<Rightarrow> (en1, Inl NoGraph)
           | Some g \<Rightarrow> (case create_mission now mission tasks (en_supervisor en1) of
               (sv, Inl (PlanningRaised ge)) \<Rightarrow> (en1\<lparr>en_supervisor := sv\<rparr>, Inl (EscapedGraphError ge))
             | (sv, Inl err) \<Rightarrow> start_failed (EngineSupervisor err) (render err) (en1\<lparr>en_supervisor := sv\<rparr>)
             | (sv, Inr _) \<Rightarrow> launch_run now render \<lparr>xc_execution_id = execution_id, xc_mission_id = mc_id mission,
                     xc_graph_id = graph_id, xc_created_at = now, xc_metadata = md\<rparr> (length tasks) g
                   (en1\<lparr>en_supervisor := sv\<rparr>))))"

text \<open>The three calls that first set the engine's state and then ask the supervisor.\<close>

definition ask_supervisor :: "(string \<Rightarrow> supervisor \<Rightarrow> supervisor_error + supervisor \<times> mission_instance)
    \<Rightarrow> (run_context \<Rightarrow> execution_engine \<Rightarrow> execution_engine) \<Rightarrow> execution_engine
    \<Rightarrow> execution_engine \<times> (engine_error + unit)" where
  "ask_supervisor call finish en = (case en_context en of
     None \<Rightarrow> (en, Inr ())
   | Some ctx \<Rightarrow> (case call (xc_mission_id ctx) (en_supervisor en) of
       Inl err \<Rightarrow> (en, Inl (EngineSupervisor err))
     | Inr r \<Rightarrow> (finish ctx (en\<lparr>en_supervisor := fst r\<rparr>), Inr ())))"

definition announce :: "execution_event \<Rightarrow> run_context \<Rightarrow> execution_engine \<Rightarrow> execution_engine" where
  "announce e ctx en = emit_engine e [(''execution_id'', PStr (xc_execution_id ctx))] en"

definition pause_execution :: "time \<Rightarrow> execution_engine \<Rightarrow> execution_engine \<times> (engine_error + unit)" where
  "pause_execution now en = (if en_state en \<noteq> Exec_RUNNING then (en, Inl (WrongState (en_state en)))
     else ask_supervisor (pause_mission now) (announce EXECUTION_PAUSED) (en\<lparr>en_state := Exec_PAUSED\<rparr>))"

definition resume_execution :: "time \<Rightarrow> execution_engine \<Rightarrow> execution_engine \<times> (engine_error + unit)" where
  "resume_execution now en = (if en_state en \<noteq> Exec_PAUSED then (en, Inl (WrongState (en_state en)))
     else ask_supervisor (resume_mission now) (announce EXECUTION_RESUMED) (en\<lparr>en_state := Exec_RUNNING\<rparr>))"

definition engine_terminal :: "execution_state \<Rightarrow> bool" where
  "engine_terminal s \<longleftrightarrow> s \<in> {Exec_COMPLETED, Exec_FAILED, Exec_CANCELLED}"

definition cancelled_run :: "time \<Rightarrow> run_context \<Rightarrow> execution_engine \<Rightarrow> execution_engine" where
  "cancelled_run now ctx en = emit_engine EXECUTION_FAILED
     [(''execution_id'', PStr (xc_execution_id ctx)), (''reason'', PStr ''cancelled'')] (build_result now False en)"

definition cancel_execution :: "time \<Rightarrow> execution_engine \<Rightarrow> execution_engine \<times> (engine_error + unit)" where
  "cancel_execution now en = (if engine_terminal (en_state en) then (en, Inl (WrongState (en_state en)))
     else ask_supervisor (cancel_mission now) (cancelled_run now) (en\<lparr>en_state := Exec_CANCELLED\<rparr>))"

text \<open>The supervisor part of \<^verbatim>\<open>recover\<close>; an error is caught there.\<close>

definition recover_mission :: "time \<Rightarrow> execution_engine \<Rightarrow> supervisor_error + supervisor" where
  "recover_mission now en = (case en_context en of
     None \<Rightarrow> Inr (en_supervisor en)
   | Some ctx \<Rightarrow> (case get_mission (xc_mission_id ctx) (en_supervisor en) of
       Inl err \<Rightarrow> Inl err
     | Inr m \<Rightarrow> if mi_state m \<in> {Mission_FAILED, Mission_PAUSED}
              then map_sum id fst (resume_mission now (xc_mission_id ctx) (en_supervisor en))
              else Inr (en_supervisor en)))"

definition recover_execution :: "time \<Rightarrow> execution_engine \<Rightarrow> execution_engine \<times> bool" where
  "recover_execution now en = (if en_state en \<noteq> Exec_FAILED then (en, False)
     else case recover_mission now en of
       Inl _ \<Rightarrow> (en\<lparr>en_state := Exec_FAILED\<rparr>, False)
     | Inr sv \<Rightarrow> (let en1 = en\<lparr>en_supervisor := sv, en_state := Exec_RUNNING,
             en_stats := (en_stats en)\<lparr>xs_recoveries := xs_recoveries (en_stats en) + 1\<rparr>\<rparr>
         in (emit_engine EXECUTION_RECOVERED [(''execution_id'', PStr (execution_id_of en1))] en1, True)))"

subsection \<open>Synchronisation of agent states\<close>

definition set_node :: "agent_node \<Rightarrow> execution_engine \<Rightarrow> execution_engine" where
  "set_node n en = en\<lparr>en_graph := map_option (\<lambda>g. g\<lparr>graph_nodes := dict_set (node_id n) n (graph_nodes g)\<rparr>) (en_graph en)\<rparr>"

definition engine_node :: "string \<Rightarrow> execution_engine \<Rightarrow> agent_node option" where
  "engine_node nid en = (case en_graph en of None \<Rightarrow> None | Some g \<Rightarrow> dict_get (graph_nodes g) nid)"

definition mark_node :: "string \<Rightarrow> node_status \<Rightarrow> metadata \<Rightarrow> execution_event \<Rightarrow> metadata \<Rightarrow> execution_engine
    \<Rightarrow> execution_engine" where
  "mark_node nid st extra e payload en = (case engine_node nid en of
     None \<Rightarrow> en
   | Some n \<Rightarrow> emit_engine e ((''node_id'', PStr nid) # payload)
       (set_node (n\<lparr>node_status := EnumV st,
          node_metadata := fold (\<lambda>(k, v). dict_set k v) extra (node_metadata n)\<rparr>) en))"

definition mark_node_completed :: "string \<Rightarrow> execution_engine \<Rightarrow> execution_engine" where
  "mark_node_completed nid = mark_node nid Node_COMPLETED [] TASK_COMPLETED_EV []"

definition mark_node_failed :: "string \<Rightarrow> string \<Rightarrow> execution_engine \<Rightarrow> execution_engine" where
  "mark_node_failed nid reason = mark_node nid Node_FAILED [(''failure_reason'', PStr reason)] TASK_FAILED_EV
     [(''reason'', PStr reason)]"

definition mark_node_skipped :: "string \<Rightarrow> execution_engine \<Rightarrow> execution_engine" where
  "mark_node_skipped nid = mark_node nid Node_SKIPPED [] TASK_SKIPPED []"

text \<open>The first agent, in creation order, whose task is the node decides; later ones are not looked at.\<close>

definition task_agent :: "string \<Rightarrow> lifecycle_manager \<Rightarrow> agent_instance option" where
  "task_agent nid lm = List.find (\<lambda>a. ctx_task_id (inst_context a) = nid) (dict_values (lm_agents lm))"

definition sync_node :: "time \<Rightarrow> agent_node \<Rightarrow> execution_engine \<Rightarrow> execution_engine" where
  "sync_node now n en =
     (if \<not> status_is Node_RUNNING (node_status n) then en
      else case task_agent (node_id n) (sv_lifecycle (en_supervisor en)) of
        None \<Rightarrow> en
      | Some a \<Rightarrow>
         (if inst_state a = Agent_COMPLETED
          then let en1 = mark_node_completed (node_id n) en
               in en1\<lparr>en_task_durations := dict_set (node_id n)
                    (now - dict_get_default (en_task_starts en1) (node_id n) now) (en_task_durations en1)\<rparr>
          else if inst_state a \<in> {Agent_FAILED, Agent_TIMEOUT} then mark_node_failed (node_id n) ''agent_failed'' en
          else if inst_state a = Agent_CANCELLED then mark_node_skipped (node_id n) en
          else en))"

definition sync_agent_states :: "time \<Rightarrow> execution_engine \<Rightarrow> execution_engine" where
  "sync_agent_states now en = fold (sync_node now) (engine_nodes en) en"

subsection \<open>Dispatch\<close>

definition runtime_value :: "string option \<Rightarrow> pyval" where
  "runtime_value r = (case r of None \<Rightarrow> PNone | Some s \<Rightarrow> PStr s)"

definition choose_runtime :: "time \<Rightarrow> runtime_env \<Rightarrow> string \<Rightarrow> execution_engine \<Rightarrow> string option \<times> execution_engine" where
  "choose_runtime now env cap en = (case decide_runtime now env cap None None 0 (en_decision en) of
     (Inl _, de) \<Rightarrow> (None, en\<lparr>en_decision := de\<rparr>)
   | (Inr d, de) \<Rightarrow> (Some (rd_selected d), en\<lparr>en_decision := de\<rparr>))"

definition dispatch_context :: "(string \<Rightarrow> string) \<Rightarrow> agent_node \<Rightarrow> string option \<Rightarrow> execution_engine \<Rightarrow> agent_context" where
  "dispatch_context euuid n runtime en =
     \<lparr>ctx_id = ''exec__'' @ node_id n @ ''__'' @ euuid (node_id n),
      ctx_mission_id = (case en_context en of None \<Rightarrow> [] | Some c \<Rightarrow> xc_mission_id c), ctx_task_id = node_id n,
      ctx_capability = node_capability n, ctx_runtime = runtime, ctx_metadata = []\<rparr>"

definition set_lifecycle :: "lifecycle_manager \<Rightarrow> execution_engine \<Rightarrow> execution_engine" where
  "set_lifecycle lm en = en\<lparr>en_supervisor := (en_supervisor en)\<lparr>sv_lifecycle := lm\<rparr>\<rparr>"

definition hand_over :: "agent_node \<Rightarrow> string option \<Rightarrow> string \<Rightarrow> execution_engine \<Rightarrow> execution_engine" where
  "hand_over n runtime aid en =
     (if runtime = Some ''hermes-agent'' \<and> en_hermes en
      then emit_engine TASK_READY_EV [(''node_id'', PStr (node_id n)), (''via'', PStr ''hermes-agent''),
             (''agent_id'', PStr aid)] en
      else emit_engine TASK_READY_EV [(''node_id'', PStr (node_id n)), (''via'', PStr ''runtime-router''),
             (''runtime'', runtime_value runtime), (''agent_id'', PStr aid)] en)"

text \<open>The agent is created and started; any error of the agent manager fails the node.\<close>

definition run_agent :: "time \<Rightarrow> (lifecycle_error \<Rightarrow> string) \<Rightarrow> (string \<Rightarrow> string) \<Rightarrow> agent_node \<Rightarrow> string option
    \<Rightarrow> execution_engine \<Rightarrow> execution_engine" where
  "run_agent now render euuid n runtime en =
     (case create_agent now (dispatch_context euuid n runtime en) [] (sv_lifecycle (en_supervisor en)) of
        Inl err \<Rightarrow> mark_node_failed (node_id n) (render err) en
      | Inr (lm1, a) \<Rightarrow> (case start_agent now (inst_id a) lm1 of
          Inl err \<Rightarrow> mark_node_failed (node_id n) (render err) (set_lifecycle lm1 en)
        | Inr (lm2, _) \<Rightarrow> emit_engine TASK_STARTED [(''node_id'', PStr (node_id n)), (''runtime'', runtime_value runtime)]
            (hand_over n runtime (inst_id a) (set_lifecycle lm2 en))))"

definition dispatch_task :: "time \<Rightarrow> runtime_env \<Rightarrow> (lifecycle_error \<Rightarrow> string) \<Rightarrow> (string \<Rightarrow> string) \<Rightarrow> agent_node
    \<Rightarrow> execution_engine \<Rightarrow> execution_engine" where
  "dispatch_task now env render euuid n en =
     (let (runtime, en1) = choose_runtime now env (node_capability n) en;
          en2 = set_node (n\<lparr>node_status := EnumV Node_RUNNING,
            node_metadata := dict_set ''runtime'' (runtime_value runtime) (node_metadata n)\<rparr>) en1;
          en3 = en2\<lparr>en_task_starts := dict_set (node_id n) now (en_task_starts en2)\<rparr>
      in run_agent now render euuid n runtime en3)"

subsection \<open>Detection of the end\<close>

definition finished_status :: "node_status enum_or_str \<Rightarrow> bool" where
  "finished_status s \<longleftrightarrow> status_is Node_COMPLETED s \<or> status_is Node_FAILED s \<or> status_is Node_SKIPPED s"

definition is_graph_finished :: "exec_graph \<Rightarrow> bool" where
  "is_graph_finished g \<longleftrightarrow> list_nodes g \<noteq> [] \<and> list_all (\<lambda>n. finished_status (node_status n)) (list_nodes g)"

definition terminal_failure :: "exec_graph \<Rightarrow> string \<Rightarrow> bool" where
  "terminal_failure g nid = (case get_node nid g of Inl _ \<Rightarrow> False | Inr n \<Rightarrow> status_is Node_FAILED (node_status n))"

definition has_graph_failed :: "exec_graph \<Rightarrow> graph_plan \<Rightarrow> bool" where
  "has_graph_failed g plan \<longleftrightarrow>
     list_ex (\<lambda>n. status_is Node_FAILED (node_status n) \<or> status_is Node_SKIPPED (node_status n)) (list_nodes g) \<and>
     list_ex (\<lambda>n. status_is Node_PENDING (node_status n) \<and>
       (let deps = dict_get_default (plan_dependencies plan) (node_id n) []
        in deps \<noteq> [] \<and> list_all (terminal_failure g) deps)) (list_nodes g)"

definition complete_run :: "time \<Rightarrow> execution_engine \<Rightarrow> execution_engine" where
  "complete_run now en = (let en1 = build_result now True (en\<lparr>en_state := Exec_COMPLETED\<rparr>)
     in emit_engine EXECUTION_COMPLETED [(''execution_id'', PStr (execution_id_of en1)), (''result'',
          PDict [(''completed_tasks'', PInt (int (xr_completed (result_of now True en)))),
                 (''failed_tasks'', PInt (int (xr_failed (result_of now True en))))])] en1)"

definition fail_run :: "time \<Rightarrow> execution_engine \<Rightarrow> execution_engine" where
  "fail_run now en = (let en1 = build_result now False (en\<lparr>en_state := Exec_FAILED\<rparr>)
     in emit_engine EXECUTION_FAILED [(''execution_id'', PStr (execution_id_of en1)),
          (''reason'', PStr ''graph_has_failed_tasks'')] en1)"

subsection \<open>Tick\<close>

text \<open>An exception of the supervisor's tick is caught; the supervisor is then taken as it was.\<close>

definition advance_supervisor :: "time \<Rightarrow> (string \<Rightarrow> string \<Rightarrow> string) \<Rightarrow> execution_engine \<Rightarrow> execution_engine" where
  "advance_supervisor now uuid en = (case Supervisor.tick now uuid (en_supervisor en) of
     Inl _ \<Rightarrow> en | Inr r \<Rightarrow> en\<lparr>en_supervisor := fst r\<rparr>)"

definition conclude :: "time \<Rightarrow> graph_plan \<Rightarrow> execution_engine \<Rightarrow> execution_engine \<times> string list" where
  "conclude now plan en = (case en_graph en of
     None \<Rightarrow> (en, [])
   | Some g \<Rightarrow>
      (let (en1, ev1) = (if is_graph_finished g then (complete_run now en, [''execution_completed'']) else (en, []));
           (en2, ev2) = (if has_graph_failed g plan then (fail_run now en1, [''execution_failed'']) else (en1, []))
       in (en2, ev1 @ ev2)))"

definition tick_engine :: "time \<Rightarrow> runtime_env \<Rightarrow> (lifecycle_error \<Rightarrow> string) \<Rightarrow> (string \<Rightarrow> string \<Rightarrow> string)
    \<Rightarrow> (string \<Rightarrow> string) \<Rightarrow> execution_engine \<Rightarrow> execution_engine \<times> string list" where
  "tick_engine now env render uuid euuid en =
     (if en_state en \<noteq> Exec_RUNNING then (en, [])
      else let en1 = advance_supervisor now uuid en
      in case (en_graph en1, en_plan en1) of
           (Some g, Some plan) \<Rightarrow>
             (let en2 = sync_agent_states now en1;
                  ready = (case en_graph en2 of None \<Rightarrow> [] | Some g2 \<Rightarrow> get_ready_tasks g2 plan);
                  en3 = fold (dispatch_task now env render euuid) ready en2;
                  (en4, events) = conclude now plan en3
              in (en4, map (\<lambda>n. ''dispatched:'' @ node_id n) ready @ events))
         | _ \<Rightarrow> (en1, []))"

definition step_engine where "step_engine = tick_engine"

subsection \<open>Queries\<close>

record task_progress =
  pg_total :: nat
  pg_completed :: nat
  pg_failed :: nat
  pg_running :: nat
  pg_pending :: nat

record engine_status =
  st_state :: execution_state
  st_execution_id :: "string option"
  st_mission_id :: "string option"
  st_progress :: task_progress
  st_elapsed_ms :: rat
  st_statistics :: execution_statistics

definition engine_finished :: "execution_engine \<Rightarrow> bool" where
  "engine_finished en \<longleftrightarrow> engine_terminal (en_state en)"

definition get_status :: "time \<Rightarrow> execution_engine \<Rightarrow> engine_status" where
  "get_status now en = (let ns = engine_nodes en in
     \<lparr>st_state = en_state en, st_execution_id = map_option xc_execution_id (en_context en),
      st_mission_id = map_option xc_mission_id (en_context en),
      st_progress = \<lparr>pg_total = length ns, pg_completed = count_status Node_COMPLETED ns,
        pg_failed = count_status Node_FAILED ns, pg_running = count_status Node_RUNNING ns,
        pg_pending = count_status Node_PENDING ns\<rparr>,
      st_elapsed_ms = elapsed_ms now en, st_statistics = en_stats en\<rparr>)"

end
