(* ===== verification/ExecutionEngine_Correct.thy ===== *)
theory ExecutionEngine_Correct
  imports ExecutionEngine
begin

text \<open>
  Correctness of the execution engine: the scheduler returns exactly the ready tasks, no task is
  dispatched before its predecessors are completed, the engine's own states follow a table, and what a
  tick concludes from the statuses of the graph.
\<close>

subsection \<open>Which tasks are ready\<close>

text \<open>The plan and the graph the engine keeps: same nodes, same edges, only statuses differ.\<close>

definition planned_graph :: "exec_graph \<Rightarrow> graph_plan \<Rightarrow> bool" where
  "planned_graph g plan \<longleftrightarrow> keyed node_id (graph_nodes g) \<and> plan_dependencies plan = dependency_map g \<and>
     distinct (concat (plan_levels plan)) \<and> set (concat (plan_levels plan)) = set (dict_keys (graph_nodes g))"

lemma plan_levels_nodes:
  assumes "wf_graph g"
  shows "set (concat (collect_levels (level_map g))) = set (dict_keys (graph_nodes g))"
proof -
  let ?L = "collect_levels (level_map g)"
  have "v \<in> set (concat ?L) \<longleftrightarrow> (\<exists>k < length ?L. v \<in> set (?L ! k))" for v
    by (auto simp: in_set_conv_nth[of _ ?L] Bex_def)
  then show ?thesis using plan_level_nth(1,2)[OF assms] by blast
qed

lemma generate_plan_planned:
  assumes "keyed node_id (graph_nodes g)" and "generate_plan g = Inr plan"
  shows "planned_graph g plan"
proof -
  from generate_plan_Inr[OF assms] have d: "plan_dependencies plan = dependency_map g"
    and l: "plan_levels plan = collect_levels (level_map g)" and wf: "wf_graph g" by blast+
  show ?thesis
    unfolding planned_graph_def l using assms(1) d plan_level_nth(3)[OF wf] plan_levels_nodes[OF wf] by blast
qed

definition preds_completed :: "exec_graph \<Rightarrow> string \<Rightarrow> bool" where
  "preds_completed g v \<longleftrightarrow> (\<forall>e \<in> set (graph_edges g). edge_target e = v \<longrightarrow> status_at_is Node_COMPLETED g (edge_source e))"

lemma deps_preds: "plan_dependencies plan = dependency_map g \<Longrightarrow>
    deps_completed g' (dict_get_default (plan_dependencies plan) v []) \<longleftrightarrow>
    (\<forall>e \<in> set (graph_edges g). edge_target e = v \<longrightarrow> status_at_is Node_COMPLETED g' (edge_source e))"
  by (auto simp: deps_completed_iff dependency_map_sources)

lemma ready_in_filter:
  assumes "keyed node_id (graph_nodes g)"
  shows "map node_id (ready_in g plan nids) =
    filter (\<lambda>v. status_at_is Node_PENDING g v \<and> deps_completed g (dict_get_default (plan_dependencies plan) v [])) nids"
  by (induction nids) (auto simp: get_node_def status_at_is_def status_at_def keyed_get[OF assms] split: option.splits)

lemma ready_tasks_ids:
  assumes "planned_graph g plan"
  shows "map node_id (get_ready_tasks g plan) =
    filter (\<lambda>v. status_at_is Node_PENDING g v \<and> preds_completed g v) (concat (plan_levels plan))"
  using assms ready_in_filter[of g plan] deps_preds[of plan g g]
  by (simp add: planned_graph_def get_ready_tasks_def preds_completed_def)

text \<open>
  The scheduler returns, each once and in the order of the topological levels, exactly the
  pending tasks all of whose predecessors are completed.
\<close>

lemma ready_tasks_exact:
  assumes "planned_graph g plan"
  shows "map node_id (get_ready_tasks g plan) =
      filter (\<lambda>v. status_at_is Node_PENDING g v \<and> preds_completed g v) (concat (plan_levels plan)) \<and>
    distinct (map node_id (get_ready_tasks g plan)) \<and>
    set (map node_id (get_ready_tasks g plan)) = {v. status_at_is Node_PENDING g v \<and> preds_completed g v}"
proof -
  have "v \<in> set (dict_keys (graph_nodes g))" if "status_at_is Node_PENDING g v" for v
    using that get_Some_key[of "graph_nodes g" v] by (auto simp: status_at_is_def status_at_def split: option.splits)
  then show ?thesis
    using assms unfolding ready_tasks_ids[OF assms] planned_graph_def by auto
qed

subsection \<open>What a tick does to the graph\<close>

text \<open>
  A pending node keeps its status or, when all predecessors are completed, is started (or fails to
  start); a running node keeps its status or ends; the other nodes keep their status.
\<close>

fun node_move :: "bool \<Rightarrow> node_status enum_or_str \<Rightarrow> node_status enum_or_str \<Rightarrow> bool" where
  "node_move ok s t \<longleftrightarrow> t = s \<or>
     (status_is Node_PENDING s \<and> ok \<and> t \<in> {EnumV Node_RUNNING, EnumV Node_FAILED}) \<or>
     (status_is Node_RUNNING s \<and> t \<in> {EnumV Node_COMPLETED, EnumV Node_FAILED, EnumV Node_SKIPPED})"

lemma engine_node_get: "engine_node nid en = (case en_graph en of None \<Rightarrow> None | Some g \<Rightarrow> dict_get (graph_nodes g) nid)"
  by (simp add: engine_node_def)

text \<open>How one operation changes the graph: at most the node \<open>v\<close>, to a status satisfying \<open>P\<close>.\<close>

definition changes_node :: "string \<Rightarrow> (node_status enum_or_str \<Rightarrow> bool) \<Rightarrow> execution_engine \<Rightarrow> execution_engine \<Rightarrow> bool" where
  "changes_node v P en en' \<longleftrightarrow> (\<forall>g. en_graph en = Some g \<longrightarrow> (\<exists>g'. en_graph en' = Some g' \<and> same_shape g g' \<and>
     (\<forall>u. status_at g' u = status_at g u \<or> u = v \<and> (\<exists>s. status_at g' u = Some s \<and> P s)))) \<and>
     (en_graph en = None \<longrightarrow> en_graph en' = None)"

lemma changes_node_graph_same: "en_graph en' = en_graph en \<Longrightarrow> changes_node v P en en'"
  by (simp add: changes_node_def)

lemma emit_engine_simps [simp]:
  "en_graph (emit_engine e p en) = en_graph en" "en_supervisor (emit_engine e p en) = en_supervisor en"
  "en_state (emit_engine e p en) = en_state en" "en_plan (emit_engine e p en) = en_plan en"
  "en_context (emit_engine e p en) = en_context en" "en_decision (emit_engine e p en) = en_decision en"
  "en_result (emit_engine e p en) = en_result en" "en_stats (emit_engine e p en) = en_stats en"
  by (simp_all add: emit_engine_def)

lemma set_node_changes:
  assumes "node_id n = v" and "P (node_status n)" and "\<And>g. en_graph en = Some g \<Longrightarrow> v \<in> set (dict_keys (graph_nodes g))"
  shows "changes_node v P en (set_node n en)"
  using assms
  by (auto simp: changes_node_def set_node_def same_shape_def status_at_def keys_set keyed_set)

lemma mark_node_changes:
  assumes "P (EnumV st)" and "\<And>g. en_graph en = Some g \<Longrightarrow> keyed node_id (graph_nodes g)"
  shows "changes_node v P en (mark_node v st extra e payload en)"
proof (cases "engine_node v en")
  case (Some n)
  then obtain g where g: "en_graph en = Some g" "dict_get (graph_nodes g) v = Some n"
    by (auto simp: engine_node_def split: option.splits)
  let ?n = "n\<lparr>node_status := EnumV st, node_metadata := fold (\<lambda>(k, x). dict_set k x) extra (node_metadata n)\<rparr>"
  have "changes_node v P en (set_node ?n en)"
    using assms g keyed_get[OF assms(2)[OF g(1)] g(2)] get_Some_key[OF g(2)] by (intro set_node_changes) auto
  then show ?thesis unfolding mark_node_def Some option.case by (simp add: changes_node_def)
qed (simp add: mark_node_def changes_node_graph_same)

lemma mark_node_simps [simp]:
  "en_supervisor (mark_node v st extra e payload en) = en_supervisor en"
  "en_state (mark_node v st extra e payload en) = en_state en"
  "en_plan (mark_node v st extra e payload en) = en_plan en"
  "en_context (mark_node v st extra e payload en) = en_context en"
  by (simp_all add: mark_node_def set_node_def split: option.split)

lemma changes_node_keyed: "changes_node v P en en' \<Longrightarrow> en_graph en = Some g \<Longrightarrow> keyed node_id (graph_nodes g) \<Longrightarrow>
    en_graph en' = Some g' \<Longrightarrow> keyed node_id (graph_nodes g')"
  by (auto simp: changes_node_def same_shape_def)

lemma changes_node_durations [simp]:
  "changes_node v P en (en'\<lparr>en_task_durations := d\<rparr>) = changes_node v P en en'"
  "changes_node v P en (en'\<lparr>en_task_starts := d\<rparr>) = changes_node v P en en'"
  by (simp_all add: changes_node_def)

definition sync_result :: "agent_node \<Rightarrow> node_status enum_or_str \<Rightarrow> bool" where
  "sync_result n s \<longleftrightarrow> status_is Node_RUNNING (node_status n) \<and>
     s \<in> {EnumV Node_COMPLETED, EnumV Node_FAILED, EnumV Node_SKIPPED}"

lemma sync_node_changes:
  assumes "\<And>g. en_graph en = Some g \<Longrightarrow> keyed node_id (graph_nodes g)"
  shows "changes_node (node_id n) (sync_result n) en (sync_node now n en)"
proof (cases "status_is Node_RUNNING (node_status n)")
  case True
  have m: "changes_node (node_id n) (sync_result n) en (mark_node (node_id n) st extra e payload en)"
    if "st \<in> {Node_COMPLETED, Node_FAILED, Node_SKIPPED}" for st extra e payload
    using that assms True by (intro mark_node_changes) (auto simp: sync_result_def)
  show ?thesis
    using True by (auto simp: sync_node_def mark_node_completed_def mark_node_failed_def mark_node_skipped_def
      Let_def changes_node_graph_same m split: option.split)
qed (simp add: sync_node_def changes_node_graph_same)

text \<open>The same with the node's new status known.\<close>

definition sets_node :: "string \<Rightarrow> (node_status enum_or_str \<Rightarrow> bool) \<Rightarrow> exec_graph \<Rightarrow> exec_graph \<Rightarrow> bool" where
  "sets_node v P g g' \<longleftrightarrow> same_shape g g' \<and> (\<forall>u. u \<noteq> v \<longrightarrow> status_at g' u = status_at g u) \<and>
     (\<exists>s. status_at g' v = Some s \<and> P s)"

lemma set_node_sets:
  assumes "en_graph en = Some g" and "node_id n \<in> set (dict_keys (graph_nodes g))" and "P (node_status n)"
  shows "\<exists>g'. en_graph (set_node n en) = Some g' \<and> sets_node (node_id n) P g g'"
  using assms by (auto simp: set_node_def sets_node_def same_shape_def status_at_def keys_set keyed_set)

lemma mark_failed_sets:
  assumes "en_graph en = Some g" and "keyed node_id (graph_nodes g)" and "sets_node v P g0 g" and "P (EnumV Node_FAILED)"
  shows "\<exists>g'. en_graph (mark_node_failed v reason en) = Some g' \<and> sets_node v P g0 g'"
proof -
  obtain g' where g': "en_graph (mark_node_failed v reason en) = Some g'" "same_shape g g'"
    "\<And>u. status_at g' u = status_at g u \<or> u = v \<and> (\<exists>s. status_at g' u = Some s \<and> P s)"
  proof -
    have "changes_node v P en (mark_node_failed v reason en)"
      unfolding mark_node_failed_def by (rule mark_node_changes) (use assms in auto)
    then show ?thesis using assms(1) that unfolding changes_node_def by blast
  qed
  have "sets_node v P g0 g'"
    unfolding sets_node_def using assms(3) g'(2,3) same_shape_trans by (metis sets_node_def)
  then show ?thesis using g'(1) by blast
qed

lemma run_agent_sets:
  assumes "en_graph en = Some g" and "keyed node_id (graph_nodes g)" and "sets_node (node_id n) P g0 g"
    and "P (EnumV Node_FAILED)"
  shows "\<exists>g'. en_graph (run_agent now render euuid n runtime en) = Some g' \<and> sets_node (node_id n) P g0 g'"
proof -
  have h: "en_graph (hand_over n runtime aid en') = en_graph en'" for aid en'
    by (simp add: hand_over_def)
  have sl: "en_graph (set_lifecycle lm en) = Some g" for lm using assms(1) by (simp add: set_lifecycle_def)
  show ?thesis
  proof (cases "create_agent now (dispatch_context euuid n runtime en) [] (sv_lifecycle (en_supervisor en))")
    case (Inl err)
    then show ?thesis using mark_failed_sets[OF assms] by (simp add: run_agent_def)
  next
    case (Inr r)
    obtain lm1 a where r: "r = (lm1, a)" by fastforce
    show ?thesis
    proof (cases "start_agent now (inst_id a) lm1")
      case Inl': (Inl err)
      then show ?thesis using mark_failed_sets[OF sl assms(2-4)] Inr r by (simp add: run_agent_def)
    next
      case Inr': (Inr q)
      then show ?thesis using assms(3) sl Inr r by (cases q) (simp add: run_agent_def h)
    qed
  qed
qed

definition dispatched :: "node_status enum_or_str \<Rightarrow> bool" where
  "dispatched s \<longleftrightarrow> s = EnumV Node_RUNNING \<or> s = EnumV Node_FAILED"

lemma choose_runtime_simps:
  "choose_runtime now env cap en = (r, en') \<Longrightarrow> en_graph en' = en_graph en \<and> en_plan en' = en_plan en \<and>
     en_state en' = en_state en \<and> en_supervisor en' = en_supervisor en \<and> en_context en' = en_context en"
  by (auto simp: choose_runtime_def split: prod.splits sum.splits)

lemma dispatch_sets:
  assumes "en_graph en = Some g" and "keyed node_id (graph_nodes g)" and "node_id n \<in> set (dict_keys (graph_nodes g))"
  shows "\<exists>g'. en_graph (dispatch_task now env render euuid n en) = Some g' \<and> sets_node (node_id n) dispatched g g'"
proof -
  obtain r en1 where c: "choose_runtime now env (node_capability n) en = (r, en1)" by fastforce
  let ?n = "n\<lparr>node_status := EnumV Node_RUNNING,
      node_metadata := dict_set ''runtime'' (runtime_value r) (node_metadata n)\<rparr>"
  have "en_graph en1 = Some g" using choose_runtime_simps[OF c] assms(1) by simp
  then obtain g' where g': "en_graph (set_node ?n en1) = Some g'" "sets_node (node_id n) dispatched g g'"
    using set_node_sets[of en1 g ?n dispatched] assms(3) by (auto simp: dispatched_def)
  have "keyed node_id (graph_nodes g')" using g'(2) assms(2) by (simp add: sets_node_def same_shape_def)
  then show ?thesis
    using run_agent_sets[where P = dispatched and n = n and g = g' and ?g0.0 = g] g' c
    by (simp add: dispatch_task_def dispatched_def Let_def)
qed

lemma dispatch_all:
  assumes "en_graph en = Some g" and "keyed node_id (graph_nodes g)"
    and "set (map node_id ns) \<subseteq> set (dict_keys (graph_nodes g))"
  shows "\<exists>g'. en_graph (fold (dispatch_task now env render euuid) ns en) = Some g' \<and> same_shape g g' \<and>
    (\<forall>u. if u \<in> set (map node_id ns) then \<exists>s. status_at g' u = Some s \<and> dispatched s else status_at g' u = status_at g u)"
  using assms
proof (induction ns arbitrary: en g)
  case (Cons n ns)
  have key: "node_id n \<in> set (dict_keys (graph_nodes g))" using Cons.prems(3) by simp
  obtain g1 where g1: "en_graph (dispatch_task now env render euuid n en) = Some g1" "sets_node (node_id n) dispatched g g1"
    using dispatch_sets[OF Cons.prems(1,2) key] by blast
  then have sh: "same_shape g g1" by (simp add: sets_node_def)
  then have "keyed node_id (graph_nodes g1)" "set (map node_id ns) \<subseteq> set (dict_keys (graph_nodes g1))"
    using Cons.prems(2,3) by (simp_all add: same_shape_def)
  from Cons.IH[OF g1(1) this] obtain g' where
    "en_graph (fold (dispatch_task now env render euuid) ns (dispatch_task now env render euuid n en)) = Some g'"
    "same_shape g1 g'"
    "\<And>u. if u \<in> set (map node_id ns) then \<exists>s. status_at g' u = Some s \<and> dispatched s else status_at g' u = status_at g1 u"
    by blast
  moreover from this(3)[of "node_id n"] g1(2) have "\<exists>s. status_at g' (node_id n) = Some s \<and> dispatched s"
    by (auto simp: sets_node_def split: if_splits)
  ultimately show ?case
    using g1 sh by (intro exI[of _ g']) (auto simp: sets_node_def intro: same_shape_trans)
qed simp

lemma sync_all:
  assumes "en_graph en = Some g" and "keyed node_id (graph_nodes g)"
  shows "\<exists>g'. en_graph (fold (sync_node now) ns en) = Some g' \<and> same_shape g g' \<and>
    (\<forall>u. status_at g' u = status_at g u \<or>
      (\<exists>n \<in> set ns. node_id n = u \<and> (\<exists>s. status_at g' u = Some s \<and> sync_result n s)))"
  using assms
proof (induction ns arbitrary: en g)
  case (Cons n ns)
  have "changes_node (node_id n) (sync_result n) en (sync_node now n en)"
    using Cons.prems by (intro sync_node_changes) auto
  then obtain g1 where g1: "en_graph (sync_node now n en) = Some g1" "same_shape g g1"
    "\<And>u. status_at g1 u = status_at g u \<or> u = node_id n \<and> (\<exists>s. status_at g1 u = Some s \<and> sync_result n s)"
    using Cons.prems(1) unfolding changes_node_def by blast
  then have "keyed node_id (graph_nodes g1)" using Cons.prems(2) by (simp add: same_shape_def)
  from Cons.IH[OF g1(1) this] obtain g' where g': "en_graph (fold (sync_node now) ns (sync_node now n en)) = Some g'"
    "same_shape g1 g'" "\<And>u. status_at g' u = status_at g1 u \<or>
      (\<exists>n \<in> set ns. node_id n = u \<and> (\<exists>s. status_at g' u = Some s \<and> sync_result n s))" by blast
  have "status_at g' u = status_at g u \<or>
      (\<exists>m \<in> set (n # ns). node_id m = u \<and> (\<exists>s. status_at g' u = Some s \<and> sync_result m s))" for u
    using g1(3)[of u] g'(3)[of u] by (metis list.set_intros(1) list.set_intros(2))
  then show ?case using g' same_shape_trans[OF g1(2) g'(2)] by auto
qed simp

text \<open>What the steps of a tick leave alone.\<close>

definition kept :: "execution_engine \<Rightarrow> execution_engine \<Rightarrow> bool" where
  "kept en en' \<longleftrightarrow> en_state en' = en_state en \<and> en_plan en' = en_plan en \<and> en_context en' = en_context en \<and>
     en_start_time en' = en_start_time en \<and> en_stats en' = en_stats en \<and>
     (supervisor_inv (en_supervisor en) \<longrightarrow> supervisor_inv (en_supervisor en'))"

named_theorems engine_kept "steps that keep the engine's own life cycle"

lemma kept_refl [engine_kept]: "kept en en"
  by (simp add: kept_def)

lemma kept_trans: "kept en en' \<Longrightarrow> kept en' en'' \<Longrightarrow> kept en en''"
  by (simp add: kept_def)

lemma kept_emit [engine_kept]: "kept en (emit_engine e p en)"
  by (simp add: kept_def emit_engine_def)

lemma kept_set_node [engine_kept]: "kept en (set_node n en)"
  by (simp add: kept_def set_node_def)

lemma kept_times [engine_kept]: "kept en (en\<lparr>en_task_starts := d\<rparr>)" "kept en (en\<lparr>en_task_durations := d\<rparr>)"
  by (simp_all add: kept_def)

lemma kept_mark_node [engine_kept]: "kept en (mark_node v st extra e payload en)"
  by (auto simp: mark_node_def split: option.split intro: kept_trans engine_kept)

lemma kept_sync_node: "kept en (sync_node now n en)"
  by (auto simp: sync_node_def mark_node_completed_def mark_node_failed_def mark_node_skipped_def Let_def
      split: option.split intro: engine_kept kept_trans)

lemma kept_fold: "(\<And>x en. kept en (f x en)) \<Longrightarrow> kept en (fold f xs en)"
  by (rule fold_invariant) (auto intro: kept_trans kept_refl)

lemma kept_set_lifecycle: "(lifecycle_inv (sv_lifecycle (en_supervisor en)) \<Longrightarrow> lifecycle_inv lm) \<Longrightarrow>
    kept en (set_lifecycle lm en)"
  by (simp add: kept_def set_lifecycle_def supervisor_inv_def)

lemma kept_hand_over [engine_kept]: "kept en (hand_over n r aid en)"
  by (simp add: hand_over_def kept_emit)

lemma start_agent_inv: "lifecycle_inv m \<Longrightarrow> start_agent now aid m = Inr (m', i') \<Longrightarrow> lifecycle_inv m'"
  by (auto simp: start_agent_transition intro: transition_inv)

lemma kept_run_agent: "kept en (run_agent now render euuid n runtime en)"
  unfolding run_agent_def mark_node_failed_def
  by (auto split: sum.split intro: engine_kept create_agent_inv start_agent_inv
      intro!: kept_trans[OF _ kept_emit] kept_trans[OF _ kept_hand_over] kept_trans[OF _ kept_mark_node] kept_set_lifecycle)

lemma kept_dispatch: "kept en (dispatch_task now env render euuid n en)"
proof -
  obtain r en1 where c: "choose_runtime now env (node_capability n) en = (r, en1)" by fastforce
  have "kept en en1"
    using c by (auto simp: kept_def choose_runtime_def split: prod.splits sum.splits)
  then show ?thesis
    unfolding dispatch_task_def c Let_def prod.case
    by (rule kept_trans[OF kept_trans[OF kept_trans[OF _ kept_set_node] kept_times(1)] kept_run_agent])
qed

subsection \<open>One tick\<close>

text \<open>
  A tick in two phases: from \<open>g\<close> to \<open>g1\<close> the running nodes take over what their agents report, from
  \<open>g1\<close> to \<open>g2\<close> exactly the pending nodes with completed predecessors are dispatched.
\<close>

definition synced_from :: "exec_graph \<Rightarrow> exec_graph \<Rightarrow> bool" where
  "synced_from g g1 \<longleftrightarrow> same_shape g g1 \<and> (\<forall>u. status_at g1 u = status_at g u \<or> status_at_is Node_RUNNING g u \<and>
     status_at g1 u \<in> {Some (EnumV Node_COMPLETED), Some (EnumV Node_FAILED), Some (EnumV Node_SKIPPED)})"

definition dispatched_from :: "exec_graph \<Rightarrow> exec_graph \<Rightarrow> bool" where
  "dispatched_from g1 g2 \<longleftrightarrow> same_shape g1 g2 \<and> (\<forall>u. if status_at_is Node_PENDING g1 u \<and> preds_completed g1 u
     then \<exists>s. status_at g2 u = Some s \<and> dispatched s else status_at g2 u = status_at g1 u)"

definition outcome_state :: "exec_graph \<Rightarrow> graph_plan \<Rightarrow> execution_state" where
  "outcome_state g plan = (if has_graph_failed g plan then Exec_FAILED
     else if is_graph_finished g then Exec_COMPLETED else Exec_RUNNING)"

lemma planned_shape: "planned_graph g plan \<Longrightarrow> same_shape g g' \<Longrightarrow> planned_graph g' plan"
  by (simp add: planned_graph_def same_shape_def dependency_map_def)

lemma status_at_key: "status_at g v = Some s \<Longrightarrow> v \<in> set (dict_keys (graph_nodes g))"
  by (auto simp: status_at_def dest: get_Some_key)

lemma status_at_is_key: "status_at_is st g v \<Longrightarrow> v \<in> set (dict_keys (graph_nodes g))"
  by (auto simp: status_at_is_def split: option.splits dest: status_at_key)

lemma list_nodes_status:
  assumes "keyed node_id (graph_nodes g)" and "n \<in> set (list_nodes g)"
  shows "status_at g (node_id n) = Some (node_status n)"
proof -
  obtain k where k: "(k, n) \<in> set (graph_nodes g)" using assms(2) by (auto simp: list_nodes_def)
  then have "node_id n = k" using assms(1) by (auto simp: keyed_def)
  then show ?thesis using k in_set_get[OF keyed_distinct[OF assms(1)]] by (auto simp: status_at_def)
qed

lemma conclude_graph:
  assumes "en_graph en = Some g"
  shows "en_graph (fst (conclude now plan en)) = Some g \<and> en_plan (fst (conclude now plan en)) = en_plan en \<and>
    en_context (fst (conclude now plan en)) = en_context en \<and> en_supervisor (fst (conclude now plan en)) = en_supervisor en \<and>
    (en_state en = Exec_RUNNING \<longrightarrow> en_state (fst (conclude now plan en)) = outcome_state g plan)"
  using assms by (simp add: conclude_def Let_def complete_run_def fail_run_def build_result_def outcome_state_def)

lemma ready_tasks_set:
  assumes "planned_graph g plan"
  shows "set (map node_id (get_ready_tasks g plan)) = {v. status_at_is Node_PENDING g v \<and> preds_completed g v}"
  using assms status_at_is_key[of Node_PENDING g] unfolding ready_tasks_ids[OF assms] planned_graph_def by auto

lemma advance_graph:
  "en_graph (advance_supervisor now uuid en) = en_graph en" "kept en (advance_supervisor now uuid en)"
  using tick_result[of "en_supervisor en" now uuid]
  by (auto simp: advance_supervisor_def kept_def split: sum.split)

lemma tick_engine_phases:
  assumes "en_state en = Exec_RUNNING" and "en_graph en = Some g" and "en_plan en = Some plan" and "planned_graph g plan"
  shows "\<exists>g1 g2. synced_from g g1 \<and> dispatched_from g1 g2 \<and>
    en_graph (fst (tick_engine now env render uuid euuid en)) = Some g2 \<and>
    en_plan (fst (tick_engine now env render uuid euuid en)) = Some plan \<and>
    en_context (fst (tick_engine now env render uuid euuid en)) = en_context en \<and>
    en_state (fst (tick_engine now env render uuid euuid en)) = outcome_state g2 plan \<and>
    (supervisor_inv (en_supervisor en) \<longrightarrow> supervisor_inv (en_supervisor (fst (tick_engine now env render uuid euuid en))))"
proof -
  define en1 where "en1 = advance_supervisor now uuid en"
  define en2 where "en2 = sync_agent_states now en1"
  have k1: "kept en en1" and g: "en_graph en1 = Some g" using advance_graph[where now = now and uuid = uuid and en = en] assms(2) by (simp_all add: en1_def)
  have keyed: "keyed node_id (graph_nodes g)" using assms(4) by (simp add: planned_graph_def)
  obtain g1 where g1: "en_graph en2 = Some g1" "same_shape g g1" "\<And>u. status_at g1 u = status_at g u \<or>
      (\<exists>n \<in> set (list_nodes g). node_id n = u \<and> (\<exists>s. status_at g1 u = Some s \<and> sync_result n s))"
    using sync_all[OF g keyed, where now = now and ns = "engine_nodes en1"] g by (auto simp: en2_def sync_agent_states_def engine_nodes_def)
  have s1: "synced_from g g1"
    unfolding synced_from_def
  proof (intro conjI allI)
    fix u
    show "status_at g1 u = status_at g u \<or> status_at_is Node_RUNNING g u \<and>
        status_at g1 u \<in> {Some (EnumV Node_COMPLETED), Some (EnumV Node_FAILED), Some (EnumV Node_SKIPPED)}"
      using g1(3)[of u] list_nodes_status[OF keyed] by (auto simp: sync_result_def status_at_is_def)
  qed (rule g1(2))
  have p1: "planned_graph g1 plan" by (rule planned_shape[OF assms(4) g1(2)])
  define ready where "ready = get_ready_tasks g1 plan"
  define en3 where "en3 = fold (dispatch_task now env render euuid) ready en2"
  have keyed1: "keyed node_id (graph_nodes g1)" using p1 by (simp add: planned_graph_def)
  have sub: "set (map node_id ready) \<subseteq> set (dict_keys (graph_nodes g1))"
    unfolding ready_def ready_tasks_set[OF p1] by (auto dest!: status_at_is_key)
  obtain g2 where g2: "en_graph en3 = Some g2" "dispatched_from g1 g2"
    using dispatch_all[OF g1(1) keyed1 sub, where now = now and env = env and render = render and euuid = euuid]
    unfolding en3_def[symmetric] dispatched_from_def ready_tasks_set[OF p1, folded ready_def] mem_Collect_eq by blast
  have "kept en1 en2" unfolding en2_def sync_agent_states_def by (rule kept_fold) (rule kept_sync_node)
  moreover have "kept en2 en3" unfolding en3_def by (rule kept_fold) (rule kept_dispatch)
  ultimately have k3: "kept en en3" using k1 kept_trans by blast
  have t: "fst (tick_engine now env render uuid euuid en) = fst (conclude now plan en3)"
    using assms(1,3) g g1(1) k1 by (simp add: tick_engine_def Let_def case_prod_unfold kept_def en3_def ready_def en2_def
      flip: en1_def)
  show ?thesis
    using s1 g2 k3 conclude_graph[OF g2(1), of now plan] assms(1,3) unfolding t kept_def by auto
qed

subsection \<open>Invariant of an engine\<close>

text \<open>A node that is no longer pending has only completed predecessors.\<close>

definition causal :: "exec_graph \<Rightarrow> bool" where
  "causal g \<longleftrightarrow> (\<forall>e \<in> set (graph_edges g). status_at_is Node_PENDING g (edge_target e) \<or>
     status_at_is Node_COMPLETED g (edge_source e))"

text \<open>Every status is a member of the enum, one of the five an engine works with.\<close>

definition tidy :: "exec_graph \<Rightarrow> bool" where
  "tidy g \<longleftrightarrow> (\<forall>v s. status_at g v = Some s \<longrightarrow>
     s \<in> EnumV ` {Node_PENDING, Node_RUNNING, Node_COMPLETED, Node_FAILED, Node_SKIPPED})"

definition engine_inv :: "execution_engine \<Rightarrow> bool" where
  "engine_inv en \<longleftrightarrow> supervisor_inv (en_supervisor en) \<and>
     (en_state en = Exec_IDLE \<longrightarrow> en_context en = None \<and> en_graph en = None \<and> en_plan en = None) \<and>
     (\<forall>g. en_graph en = Some g \<longrightarrow> wf_graph g \<and> no_orphans g \<and> causal g \<and> tidy g \<and>
        (\<forall>plan. en_plan en = Some plan \<longrightarrow> planned_graph g plan))"

lemma status_is_simp [simp]: "status_is st (EnumV t) \<longleftrightarrow> st = t"
  by (cases st; cases t) (simp_all add: status_is_def)

lemma status_at_is_unique: "status_at_is s g v \<Longrightarrow> status_at_is t g v \<Longrightarrow> s = t"
  by (auto simp: status_at_is_def split: option.splits dest: status_is_unique)

lemma status_at_is_cong: "status_at g' u = status_at g u \<Longrightarrow> status_at_is st g' u \<longleftrightarrow> status_at_is st g u"
  by (simp add: status_at_is_def)

lemma status_at_is_enum: "status_at g u = Some (EnumV t) \<Longrightarrow> status_at_is st g u \<longleftrightarrow> st = t"
  by (simp add: status_at_is_def)

lemma synced_cases:
  assumes "synced_from g g1"
  obtains "status_at g1 u = status_at g u"
  | t where "status_at_is Node_RUNNING g u" "t \<in> {Node_COMPLETED, Node_FAILED, Node_SKIPPED}" "status_at g1 u = Some (EnumV t)"
  using assms by (auto simp: synced_from_def)

lemma dispatched_cases:
  assumes "dispatched_from g1 g2"
  obtains "status_at g2 u = status_at g1 u" "\<not> (status_at_is Node_PENDING g1 u \<and> preds_completed g1 u)"
  | t where "status_at_is Node_PENDING g1 u" "preds_completed g1 u" "t \<in> {Node_RUNNING, Node_FAILED}"
      "status_at g2 u = Some (EnumV t)"
  using assms unfolding dispatched_from_def dispatched_def by (metis insertCI)

lemma synced_completed: "synced_from g g1 \<Longrightarrow> status_at_is Node_COMPLETED g u \<Longrightarrow> status_at_is Node_COMPLETED g1 u"
  by (erule synced_cases[where u = u]) (auto simp: status_at_is_cong[of g1 u g] dest: status_at_is_unique)

lemma synced_pending: "synced_from g g1 \<Longrightarrow> status_at_is Node_PENDING g1 u \<longleftrightarrow> status_at_is Node_PENDING g u"
  by (erule synced_cases[where u = u]) (auto simp: status_at_is_cong[of g1 u g] status_at_is_enum dest: status_at_is_unique)

lemma dispatched_completed: "dispatched_from g1 g2 \<Longrightarrow> status_at_is Node_COMPLETED g2 u \<longleftrightarrow> status_at_is Node_COMPLETED g1 u"
  by (erule dispatched_cases[where u = u]) (auto simp: status_at_is_cong[of g2 u g1] status_at_is_enum dest: status_at_is_unique)

lemma causal_synced:
  assumes "synced_from g g1" and "causal g"
  shows "causal g1"
  using assms synced_completed[OF assms(1)] synced_pending[OF assms(1)]
  by (auto simp: causal_def synced_from_def same_shape_def)

lemma causal_dispatched:
  assumes "dispatched_from g1 g2" and "causal g1"
  shows "causal g2"
  unfolding causal_def
proof
  fix e assume "e \<in> set (graph_edges g2)"
  then have e: "e \<in> set (graph_edges g1)" using assms(1) by (simp add: dispatched_from_def same_shape_def)
  let ?u = "edge_source e" and ?v = "edge_target e"
  show "status_at_is Node_PENDING g2 ?v \<or> status_at_is Node_COMPLETED g2 ?u"
  proof (cases "status_at_is Node_COMPLETED g1 ?u")
    case False
    then have "status_at_is Node_PENDING g1 ?v" "\<not> preds_completed g1 ?v"
      using assms(2) e by (auto simp: causal_def preds_completed_def)
    then have "status_at g2 ?v = status_at g1 ?v" using assms(1) by (simp add: dispatched_from_def)
    then show ?thesis using \<open>status_at_is Node_PENDING g1 ?v\<close> by (simp add: status_at_is_def)
  qed (simp add: dispatched_completed[OF assms(1)])
qed

lemma tidy_synced:
  assumes "synced_from g g1" and "tidy g"
  shows "tidy g1"
  unfolding tidy_def
proof (intro allI impI)
  fix v s assume "status_at g1 v = Some s"
  with assms(1) show "s \<in> EnumV ` {Node_PENDING, Node_RUNNING, Node_COMPLETED, Node_FAILED, Node_SKIPPED}"
    by (cases rule: synced_cases[where u = v]) (use assms(2) in \<open>auto simp: tidy_def\<close>)
qed

lemma tidy_dispatched:
  assumes "dispatched_from g1 g2" and "tidy g1"
  shows "tidy g2"
  unfolding tidy_def
proof (intro allI impI)
  fix v s assume "status_at g2 v = Some s"
  with assms(1) show "s \<in> EnumV ` {Node_PENDING, Node_RUNNING, Node_COMPLETED, Node_FAILED, Node_SKIPPED}"
    by (cases rule: dispatched_cases[where u = v]) (use assms(2) in \<open>auto simp: tidy_def\<close>)
qed

lemma tick_engine_inv:
  assumes "engine_inv en"
  shows "engine_inv (fst (tick_engine now env render uuid euuid en)) \<and>
    (en_state en \<noteq> Exec_RUNNING \<longrightarrow> fst (tick_engine now env render uuid euuid en) = en) \<and>
    (en_state en = Exec_RUNNING \<longrightarrow> en_state (fst (tick_engine now env render uuid euuid en)) \<in>
       {Exec_RUNNING, Exec_COMPLETED, Exec_FAILED})"
proof (cases "en_state en = Exec_RUNNING")
  case True
  show ?thesis
  proof (cases "\<exists>g plan. en_graph en = Some g \<and> en_plan en = Some plan")
    case False
    then have "fst (tick_engine now env render uuid euuid en) = advance_supervisor now uuid en"
      using True advance_graph[where now = now and uuid = uuid and en = en]
      by (auto simp: tick_engine_def Let_def kept_def split: option.split)
    then show ?thesis
      using True False assms advance_graph[where now = now and uuid = uuid and en = en]
      by (auto simp: engine_inv_def kept_def)
  next
    case ex: True
    then obtain g plan where g: "en_graph en = Some g" "en_plan en = Some plan" by blast
    then have inv: "wf_graph g" "no_orphans g" "causal g" "planned_graph g plan" "supervisor_inv (en_supervisor en)" "tidy g"
      using assms by (auto simp: engine_inv_def)
    from tick_engine_phases[OF True g inv(4), where now = now and env = env and render = render and uuid = uuid
        and euuid = euuid]
    obtain g1 g2 where t: "synced_from g g1" "dispatched_from g1 g2"
      "en_graph (fst (tick_engine now env render uuid euuid en)) = Some g2"
      "en_plan (fst (tick_engine now env render uuid euuid en)) = Some plan"
      "en_state (fst (tick_engine now env render uuid euuid en)) = outcome_state g2 plan"
      "supervisor_inv (en_supervisor (fst (tick_engine now env render uuid euuid en)))"
      using inv(5) by blast
    have sh: "same_shape g g2" using t(1,2) same_shape_trans by (auto simp: synced_from_def dispatched_from_def)
    have "wf_graph g2 \<and> no_orphans g2" using same_shape_wf[OF sh] inv(1,2) by blast
    moreover have "causal g2" using causal_dispatched[OF t(2) causal_synced[OF t(1) inv(3)]] .
    moreover have "tidy g2" using tidy_dispatched[OF t(2) tidy_synced[OF t(1) inv(6)]] .
    moreover have "planned_graph g2 plan" by (rule planned_shape[OF inv(4) sh])
    moreover have "outcome_state g2 plan \<in> {Exec_RUNNING, Exec_COMPLETED, Exec_FAILED}"
      by (simp add: outcome_state_def)
    ultimately show ?thesis using t(3-6) True by (auto simp: engine_inv_def)
  qed
qed (use assms in \<open>simp add: tick_engine_def\<close>)

subsection \<open>Any sequence of calls\<close>

datatype engine_op =
    StartRun time "supervisor_error \<Rightarrow> string" "task_issue list \<Rightarrow> string" string string metadata mission_context
      "planned_task list"
  | PauseRun time
  | ResumeRun time
  | CancelRun time
  | RecoverRun time
  | TickRun time runtime_env "lifecycle_error \<Rightarrow> string" "string \<Rightarrow> string \<Rightarrow> string" "string \<Rightarrow> string"
  | OnEngineEvent handler
  | SupervisorCall supervisor_op

text \<open>The last constructor is a call on the shared supervisor, or its agent manager, by someone else.\<close>

fun exec_engine :: "engine_op \<Rightarrow> execution_engine \<Rightarrow> execution_engine" where
  "exec_engine (StartRun now render issues eid gid md m ts) en = fst (start_execution now render issues eid gid md m ts en)"
| "exec_engine (PauseRun now) en = fst (pause_execution now en)"
| "exec_engine (ResumeRun now) en = fst (resume_execution now en)"
| "exec_engine (CancelRun now) en = fst (cancel_execution now en)"
| "exec_engine (RecoverRun now) en = fst (recover_execution now en)"
| "exec_engine (TickRun now env render uuid euuid) en = fst (tick_engine now env render uuid euuid en)"
| "exec_engine (OnEngineEvent h) en = on_engine_event h en"
| "exec_engine (SupervisorCall c) en = en\<lparr>en_supervisor := exec_supervisor c (en_supervisor en)\<rparr>"

fun engine_successors :: "execution_state \<Rightarrow> execution_state set" where
  "engine_successors Exec_IDLE = {Exec_INITIALIZING, Exec_CANCELLED}"
| "engine_successors Exec_INITIALIZING = {Exec_RUNNING, Exec_FAILED, Exec_CANCELLED}"
| "engine_successors Exec_RUNNING = {Exec_PAUSED, Exec_COMPLETED, Exec_FAILED, Exec_CANCELLED}"
| "engine_successors Exec_PAUSED = {Exec_RUNNING, Exec_CANCELLED}"
| "engine_successors Exec_WAITING = {Exec_CANCELLED}"
| "engine_successors Exec_RECOVERING = {Exec_CANCELLED}"
| "engine_successors Exec_FAILED = {Exec_RUNNING}"
| "engine_successors Exec_COMPLETED = {}"
| "engine_successors Exec_CANCELLED = {}"

definition engine_allowed :: "execution_state \<Rightarrow> execution_state \<Rightarrow> bool" where
  "engine_allowed s t \<longleftrightarrow> t \<in> engine_successors s"

abbreviation engine_path :: "(execution_state \<times> execution_state) set" where
  "engine_path \<equiv> (table_steps engine_allowed)\<^sup>*"

definition engine_settled :: "execution_state \<Rightarrow> bool" where
  "engine_settled s \<longleftrightarrow> s = Exec_COMPLETED \<or> s = Exec_CANCELLED"

lemma engine_step1: "t \<in> engine_successors s \<Longrightarrow> (s, t) \<in> engine_path"
  by (auto simp: table_steps_def engine_allowed_def)

lemma engine_step2: "t \<in> engine_successors s \<Longrightarrow> u \<in> engine_successors t \<Longrightarrow> (s, u) \<in> engine_path"
  using engine_step1 by (meson rtrancl_trans)

lemma ask_supervisor_cases:
  assumes "\<And>mid sv' m. call mid (en_supervisor en) = Inr (sv', m) \<Longrightarrow> supervisor_inv (en_supervisor en) \<Longrightarrow> supervisor_inv sv'"
    and "\<And>ctx en'. en_state (finish ctx en') = en_state en' \<and> en_graph (finish ctx en') = en_graph en' \<and>
      en_plan (finish ctx en') = en_plan en' \<and> en_context (finish ctx en') = en_context en' \<and>
      en_supervisor (finish ctx en') = en_supervisor en'"
    and "engine_inv en"
  shows "engine_inv (fst (ask_supervisor call finish en)) \<and> en_state (fst (ask_supervisor call finish en)) = en_state en"
  using assms by (auto simp: ask_supervisor_def engine_inv_def split: option.splits sum.splits)

lemma engine_inv_state: "engine_inv en \<Longrightarrow> s \<noteq> Exec_IDLE \<Longrightarrow> engine_inv (en\<lparr>en_state := s\<rparr>)"
  by (simp add: engine_inv_def)

lemma start_failed_simps [simp]:
  "fst (start_failed err msg en) = emit_engine EXECUTION_FAILED [(''error'', PStr msg)] (en\<lparr>en_state := Exec_FAILED\<rparr>)"
  by (simp add: start_failed_def)

lemma task_graph_statuses:
  "status_at (task_graph ts) v = (if v \<in> task_id ` set ts then Some (EnumV Node_PENDING) else None)"
proof -
  have "map_of (map (\<lambda>t. (task_id t, task_to_node t)) ts) v = None \<or>
      (\<exists>t. map_of (map (\<lambda>t. (task_id t, task_to_node t)) ts) v = Some (task_to_node t))" for v
    by (induction ts) auto
  then show ?thesis
    using map_of_eq_None_iff[of "map (\<lambda>t. (task_id t, task_to_node t)) ts" v]
    by (force simp: status_at_def task_graph_def task_to_node_def comp_def image_image)
qed

lemma fresh_plan_graph:
  assumes "create_plan now pl mission ts = Inr p"
  defines "os \<equiv> apply_strategy (pl_strategy pl) ts"
  shows "\<exists>gp. tp_graph p = Some (task_graph os) \<and> generate_plan (task_graph os) = Inr gp \<and>
    wf_graph (task_graph os) \<and> no_orphans (task_graph os) \<and> causal (task_graph os) \<and> tidy (task_graph os) \<and> planned_graph (task_graph os) gp"
proof -
  note f = planned_facts[OF assms(1), folded os_def]
  have wf: "wf_graph (task_graph os)" using f by blast
  obtain gp where gp: "generate_plan (task_graph os) = Inr gp"
    using assms(1) create_plan_Inr[of ts pl now mission] f unfolding os_def by (auto split: sum.splits)
  have "no_orphans (task_graph os)"
    using generate_plan_outcome[OF wf_graph_keyed[OF wf]] wf gp by (metis sum.distinct(1))
  moreover have "causal (task_graph os)"
    unfolding causal_def
  proof
    fix e assume "e \<in> set (graph_edges (task_graph os))"
    then have "edge_target e \<in> set (dict_keys (graph_nodes (task_graph os)))"
      using wf by (auto simp: wf_graph_def references_ok_def)
    then show "status_at_is Node_PENDING (task_graph os) (edge_target e) \<or>
        status_at_is Node_COMPLETED (task_graph os) (edge_source e)"
      by (simp add: status_at_is_def task_graph_statuses del: task_graph_keys) (auto simp: task_graph_def)
  qed
  moreover have "tidy (task_graph os)" by (simp add: tidy_def task_graph_statuses)
  ultimately show ?thesis using f gp wf generate_plan_planned[OF wf_graph_keyed[OF wf] gp] by blast
qed

lemma launch_run_result:
  assumes "generate_plan g = Inr gp" and "wf_graph g" and "no_orphans g" and "causal g" and "tidy g"
    and "supervisor_inv (en_supervisor en)"
  shows "engine_inv (fst (launch_run now render ctx k g en)) \<and>
    en_graph (fst (launch_run now render ctx k g en)) = Some g \<and> en_plan (fst (launch_run now render ctx k g en)) = Some gp \<and>
    (case Supervisor.start_mission now (xc_mission_id ctx) (en_supervisor en) of
       Inl err \<Rightarrow> en_state (fst (launch_run now render ctx k g en)) = Exec_FAILED \<and>
         snd (launch_run now render ctx k g en) = Inl (EngineSupervisor err)
     | Inr r \<Rightarrow> en_state (fst (launch_run now render ctx k g en)) = Exec_RUNNING \<and>
         en_supervisor (fst (launch_run now render ctx k g en)) = fst r \<and> snd (launch_run now render ctx k g en) = Inr ctx)"
  using assms generate_plan_planned[OF wf_graph_keyed[OF assms(2)] assms(1)]
  by (auto simp: launch_run_def Let_def engine_inv_def start_failed_def start_mission_inv emit_engine_def
      split: sum.split)

lemma engine_inv_blank: "supervisor_inv (en_supervisor en) \<Longrightarrow> en_graph en = None \<Longrightarrow> en_state en \<noteq> Exec_IDLE \<Longrightarrow> engine_inv en"
  by (simp add: engine_inv_def)

lemma start_execution_inv:
  assumes "engine_inv en"
  shows "engine_inv (fst (start_execution now render issues eid gid md m ts en)) \<and>
    (if en_state en = Exec_IDLE
     then en_state (fst (start_execution now render issues eid gid md m ts en)) \<in> {Exec_INITIALIZING, Exec_RUNNING, Exec_FAILED}
     else fst (start_execution now render issues eid gid md m ts en) = en)"
proof (cases "en_state en = Exec_IDLE")
  case True
  let ?en = "en\<lparr>en_state := Exec_INITIALIZING, en_start_time := Some now\<rparr>"
  have empty: "en_graph en = None" and sv: "supervisor_inv (en_supervisor en)"
    using assms True by (simp_all add: engine_inv_def)
  show ?thesis
  proof (cases "create_plan now (en_planner en) (engine_mission m) ts")
    case (Inl e)
    then show ?thesis
      using True empty sv by (cases e) (auto simp: start_execution_def Let_def intro!: engine_inv_blank)
  next
    case (Inr p)
    obtain g gp where g: "tp_graph p = Some g" "generate_plan g = Inr gp" "wf_graph g" "no_orphans g" "causal g" "tidy g"
      using fresh_plan_graph[OF Inr] by blast
    obtain sv' r where c: "create_mission now m ts (en_supervisor en) = (sv', r)" by fastforce
    have sv': "supervisor_inv sv'" using create_mission_inv[OF sv, of now m ts] c by simp
    have l: "engine_inv (fst (launch_run now render ctx k g (?en\<lparr>en_supervisor := sv'\<rparr>))) \<and>
      en_state (fst (launch_run now render ctx k g (?en\<lparr>en_supervisor := sv'\<rparr>))) \<in> {Exec_RUNNING, Exec_FAILED}" for ctx k
      using launch_run_result[OF g(2-6), where en = "?en\<lparr>en_supervisor := sv'\<rparr>" and now = now and render = render
          and ctx = ctx and k = k] sv' by (auto split: sum.splits)
    show ?thesis
    proof (cases r)
      case Inl': (Inl e)
      then show ?thesis
        using True g(1) Inr c empty sv' by (cases e) (auto simp: start_execution_def Let_def intro!: engine_inv_blank)
    next
      case (Inr q)
      then show ?thesis
        using True g(1) \<open>create_plan _ _ _ _ = _\<close> c l by (simp add: start_execution_def Let_def)
    qed
  qed
qed (use assms in \<open>simp add: start_execution_def\<close>)

text \<open>One call of the interface changes the state along the table and keeps the invariant.\<close>

lemma map_sum_Inr: "map_sum id f x = Inr y \<longleftrightarrow> (\<exists>z. x = Inr z \<and> y = f z)"
  by (cases x) auto

lemma recover_mission_inv: "supervisor_inv (en_supervisor en) \<Longrightarrow> recover_mission now en = Inr sv \<Longrightarrow> supervisor_inv sv"
  by (auto simp: recover_mission_def map_sum_Inr split: option.splits sum.splits if_splits intro: resume_mission_inv)

lemma exec_engine_inv:
  assumes "engine_inv en"
  shows "engine_inv (exec_engine c en) \<and> (en_state en, en_state (exec_engine c en)) \<in> engine_path"
proof (cases c)
  case (StartRun now render issues eid gid md m ts)
  have "(Exec_IDLE, s) \<in> engine_path" if "s \<in> {Exec_INITIALIZING, Exec_RUNNING, Exec_FAILED}" for s
    using that engine_step1[of s Exec_IDLE] engine_step2[of Exec_INITIALIZING Exec_IDLE s] by auto
  then show ?thesis
    using StartRun start_execution_inv[OF assms, where now = now and render = render and issues = issues and eid = eid
        and gid = gid and md = md and m = m and ts = ts]
    by (auto split: if_splits)
next
  case (PauseRun now)
  have "engine_inv (fst (ask_supervisor (pause_mission now) (announce EXECUTION_PAUSED) (en\<lparr>en_state := Exec_PAUSED\<rparr>))) \<and>
      en_state (fst (ask_supervisor (pause_mission now) (announce EXECUTION_PAUSED) (en\<lparr>en_state := Exec_PAUSED\<rparr>))) =
      en_state (en\<lparr>en_state := Exec_PAUSED\<rparr>)"
    by (rule ask_supervisor_cases) (auto simp: announce_def intro: pause_mission_inv engine_inv_state[OF assms])
  then show ?thesis using PauseRun assms engine_step1[of Exec_PAUSED Exec_RUNNING] by (auto simp: pause_execution_def)
next
  case (ResumeRun now)
  have "engine_inv (fst (ask_supervisor (resume_mission now) (announce EXECUTION_RESUMED) (en\<lparr>en_state := Exec_RUNNING\<rparr>))) \<and>
      en_state (fst (ask_supervisor (resume_mission now) (announce EXECUTION_RESUMED) (en\<lparr>en_state := Exec_RUNNING\<rparr>))) =
      en_state (en\<lparr>en_state := Exec_RUNNING\<rparr>)"
    by (rule ask_supervisor_cases) (auto simp: announce_def intro: resume_mission_inv engine_inv_state[OF assms])
  then show ?thesis using ResumeRun assms engine_step1[of Exec_RUNNING Exec_PAUSED] by (auto simp: resume_execution_def)
next
  case (CancelRun now)
  have "engine_inv (fst (ask_supervisor (cancel_mission now) (cancelled_run now) (en\<lparr>en_state := Exec_CANCELLED\<rparr>))) \<and>
      en_state (fst (ask_supervisor (cancel_mission now) (cancelled_run now) (en\<lparr>en_state := Exec_CANCELLED\<rparr>))) =
      en_state (en\<lparr>en_state := Exec_CANCELLED\<rparr>)"
    by (rule ask_supervisor_cases)
      (auto simp: cancelled_run_def build_result_def intro: cancel_mission_inv engine_inv_state[OF assms])
  moreover have "(s, Exec_CANCELLED) \<in> engine_path" if "\<not> engine_terminal s" for s
    using that engine_step1[of Exec_CANCELLED s] by (cases s) (auto simp: engine_terminal_def)
  ultimately show ?thesis using CancelRun assms by (auto simp: cancel_execution_def)
next
  case (RecoverRun now)
  have "engine_inv (en\<lparr>en_supervisor := sv, en_state := Exec_RUNNING, en_stats := x\<rparr>)" if "recover_mission now en = Inr sv" for sv x
    using recover_mission_inv[OF _ that] assms by (simp add: engine_inv_def)
  then show ?thesis
    using RecoverRun assms engine_step1[of Exec_RUNNING Exec_FAILED] engine_inv_state[OF assms, of Exec_FAILED]
    by (auto simp: recover_execution_def Let_def engine_inv_def split: sum.split)
next
  case (TickRun now env render uuid euuid)
  have "(Exec_RUNNING, s) \<in> engine_path" if "s \<in> {Exec_RUNNING, Exec_COMPLETED, Exec_FAILED}" for s
    using that engine_step1[of s Exec_RUNNING] by auto
  then show ?thesis
    using TickRun tick_engine_inv[OF assms, where now = now and env = env and render = render and uuid = uuid and euuid = euuid]
    by (cases "en_state en = Exec_RUNNING") auto
next
  case (OnEngineEvent h)
  then show ?thesis using assms by (simp add: on_engine_event_def engine_inv_def)
next
  case (SupervisorCall x)
  then show ?thesis using assms exec_supervisor_inv by (simp add: engine_inv_def)
qed

interpretation engine: machine_manager engine_allowed engine_settled exec_engine "\<lambda>en (_ :: unit). Some (en_state en)" engine_inv
  by unfold_locales (auto simp: engine_settled_def engine_allowed_def dest: exec_engine_inv)

subsection \<open>Properties\<close>

abbreviation engine_after :: "engine_op list \<Rightarrow> supervisor_op list \<Rightarrow> task_planner \<Rightarrow> time \<Rightarrow> (string \<Rightarrow> string option) option
    \<Rightarrow> decision_engine \<Rightarrow> bool \<Rightarrow> task_planner option \<Rightarrow> execution_engine" where
  "engine_after cs ss pl T sel de hermes tp \<equiv>
     fold exec_engine cs (new_engine (fold exec_supervisor ss (new_supervisor pl (new_manager T) sel)) de hermes tp)"

lemma new_engine_inv: "engine_inv (new_engine (fold exec_supervisor ss (new_supervisor pl (new_manager T) sel)) de hermes tp)"
  using missions.run_ok[OF new_supervisor_inv] by (simp add: new_engine_def engine_inv_def)

lemma engine_run_inv: "engine_inv (engine_after cs ss pl T sel de hermes tp)"
  by (rule engine.run_ok[OF new_engine_inv])

text \<open>
  C8. Whatever calls are made on an engine and, beside it, on its supervisor and agent manager: a node
  of the engine's graph that is no longer pending, be it running, completed, failed or skipped, has
  all its predecessors completed. No task is dispatched early, and none loses a completed predecessor.
\<close>

theorem no_early_dispatch:
  assumes "en_graph (engine_after cs ss pl T sel de hermes tp) = Some g"
  shows "wf_graph g \<and> (\<forall>e \<in> set (graph_edges g). status_at_is Node_PENDING g (edge_target e) \<or>
    status_at_is Node_COMPLETED g (edge_source e))"
  using engine_run_inv[of cs ss pl T sel de hermes tp] assms unfolding engine_inv_def causal_def by blast

text \<open>
  The engine's state moves along its table in every sequence of calls; a completed or cancelled
  run stays so, and a failed run is left only by a recovery.
\<close>

lemma engine_follows_table:
  "let en = engine_after cs ss pl T sel de hermes tp; en' = exec_engine c en
   in (en_state en, en_state en') \<in> engine_path \<and> (engine_settled (en_state en) \<longrightarrow> en_state en' = en_state en) \<and>
     (en_state en = Exec_FAILED \<and> en_state en' \<noteq> Exec_FAILED \<longrightarrow> (\<exists>now. c = RecoverRun now) \<and> en_state en' = Exec_RUNNING)"
proof -
  let ?en = "engine_after cs ss pl T sel de hermes tp"
  have path: "(en_state ?en, en_state (exec_engine c ?en)) \<in> engine_path"
    using exec_engine_inv[OF engine_run_inv] by blast
  have failed: "(\<exists>now. c = RecoverRun now) \<and> en_state (exec_engine c ?en) = Exec_RUNNING"
    if "en_state ?en = Exec_FAILED" "en_state (exec_engine c ?en) \<noteq> Exec_FAILED"
    using that by (cases c) (auto simp: start_execution_def pause_execution_def resume_execution_def cancel_execution_def
        engine_terminal_def tick_engine_def on_engine_event_def recover_execution_def Let_def split: sum.splits)
  show ?thesis using path failed engine.terminal_stays[OF path] by (auto simp: Let_def)
qed

subsection \<open>What a tick concludes\<close>

definition with_status :: "node_status \<Rightarrow> exec_graph \<Rightarrow> string set" where
  "with_status st g = {v. status_at_is st g v}"

text \<open>No node is pending or running any more; a pending node has predecessors and all have failed.\<close>

definition run_over :: "exec_graph \<Rightarrow> bool" where
  "run_over g \<longleftrightarrow> graph_nodes g \<noteq> [] \<and> with_status Node_PENDING g = {} \<and> with_status Node_RUNNING g = {}"

definition run_doomed :: "exec_graph \<Rightarrow> bool" where
  "run_doomed g \<longleftrightarrow> (\<exists>v. status_at_is Node_PENDING g v \<and> (\<exists>e \<in> set (graph_edges g). edge_target e = v) \<and>
     (\<forall>e \<in> set (graph_edges g). edge_target e = v \<longrightarrow> status_at_is Node_FAILED g (edge_source e)))"

lemma ex_node_status:
  assumes "keyed node_id (graph_nodes g)"
  shows "(\<exists>n \<in> set (list_nodes g). P (node_id n) (node_status n)) \<longleftrightarrow> (\<exists>v s. status_at g v = Some s \<and> P v s)"
proof
  assume "\<exists>v s. status_at g v = Some s \<and> P v s"
  then obtain v n where n: "dict_get (graph_nodes g) v = Some n" "P v (node_status n)"
    by (auto simp: status_at_def)
  then have "n \<in> set (list_nodes g)" "node_id n = v"
    using keyed_get[OF assms n(1)] map_of_SomeD[OF n(1)] by (force simp: list_nodes_def)+
  then show "\<exists>n \<in> set (list_nodes g). P (node_id n) (node_status n)" using n(2) by blast
qed (use list_nodes_status[OF assms] in blast)

lemma status_at_is_ex: "status_at_is st g v \<longleftrightarrow> (\<exists>s. status_at g v = Some s \<and> status_is st s)"
  by (simp add: status_at_is_def split: option.split)

lemma graph_failed_iff:
  assumes "planned_graph g plan"
  shows "has_graph_failed g plan \<longleftrightarrow> run_doomed g"
proof -
  have k: "keyed node_id (graph_nodes g)" and d: "plan_dependencies plan = dependency_map g"
    using assms by (simp_all add: planned_graph_def)
  have t: "terminal_failure g v \<longleftrightarrow> status_at_is Node_FAILED g v" for v
    by (auto simp: terminal_failure_def status_at_is_def status_at_def get_node_def split: option.split)
  have deps: "dict_get_default (plan_dependencies plan) v [] \<noteq> [] \<and>
      list_all (terminal_failure g) (dict_get_default (plan_dependencies plan) v []) \<longleftrightarrow>
      (\<exists>e \<in> set (graph_edges g). edge_target e = v) \<and>
      (\<forall>e \<in> set (graph_edges g). edge_target e = v \<longrightarrow> status_at_is Node_FAILED g (edge_source e))" for v
    unfolding d dependency_map_sources by (auto simp: list_all_iff t filter_empty_conv)
  show ?thesis
    unfolding has_graph_failed_def list_ex_iff Let_def deps
      ex_node_status[OF k, of "\<lambda>v s. status_is Node_FAILED s \<or> status_is Node_SKIPPED s"]
      ex_node_status[OF k, of "\<lambda>v s. status_is Node_PENDING s \<and> (\<exists>e \<in> set (graph_edges g). edge_target e = v) \<and>
        (\<forall>e \<in> set (graph_edges g). edge_target e = v \<longrightarrow> status_at_is Node_FAILED g (edge_source e))"]
    unfolding run_doomed_def status_at_is_ex by blast
qed

lemma graph_finished_iff:
  assumes "keyed node_id (graph_nodes g)" and "tidy g"
  shows "is_graph_finished g \<longleftrightarrow> run_over g"
proof -
  have "\<not> list_all (\<lambda>n. finished_status (node_status n)) (list_nodes g) \<longleftrightarrow>
      (\<exists>v s. status_at g v = Some s \<and> \<not> finished_status s)"
    using ex_node_status[OF assms(1), of "\<lambda>v s. \<not> finished_status s"] by (auto simp: list_all_iff)
  also have "\<dots> \<longleftrightarrow> (\<exists>v. status_at_is Node_PENDING g v \<or> status_at_is Node_RUNNING g v)"
    using assms(2) unfolding tidy_def status_at_is_def finished_status_def
    by (fastforce split: option.splits)
  finally show ?thesis by (auto simp: is_graph_finished_def run_over_def with_status_def list_nodes_def)
qed

lemma finished_not_failed:
  assumes "planned_graph g plan" and "tidy g" and "is_graph_finished g"
  shows "\<not> has_graph_failed g plan"
  using assms graph_finished_iff[of g] by (auto simp: graph_failed_iff run_doomed_def run_over_def planned_graph_def with_status_def)

lemma count_status_card:
  assumes "keyed node_id (graph_nodes g)"
  shows "count_status st (list_nodes g) = card (with_status st g)"
proof -
  let ?ns = "filter (\<lambda>n. status_is st (node_status n)) (list_nodes g)"
  have "distinct (map node_id (list_nodes g))"
    unfolding list_nodes_def keyed_values_ids[OF assms] by (rule keyed_distinct[OF assms])
  then have "distinct (map node_id ?ns)" by (rule distinct_map_filter)
  moreover have "set (map node_id ?ns) = with_status st g"
  proof (rule set_eqI)
    fix v
    show "v \<in> set (map node_id ?ns) \<longleftrightarrow> v \<in> with_status st g"
      using ex_node_status[OF assms, of "\<lambda>u s. u = v \<and> status_is st s"]
      by (auto simp: with_status_def status_at_is_def split: option.splits)
  qed
  ultimately show ?thesis
    unfolding count_status_def by (metis distinct_card length_map)
qed

text \<open>The graph and the engine after a tick, for an engine that satisfies the invariant.\<close>

lemma tick_verdict:
  assumes "engine_inv en" and "en_state en = Exec_RUNNING" and "en_graph en = Some g" and "en_plan en = Some plan"
    and "en' = fst (tick_engine now env render uuid euuid en)"
  obtains g1 g' where "synced_from g g1" "dispatched_from g1 g'" "en_graph en' = Some g'" "en_plan en' = Some plan"
    "planned_graph g' plan" "tidy g'" "causal g'" "wf_graph g'" "engine_inv en'"
    "en_state en' = outcome_state g' plan"
proof -
  have p: "planned_graph g plan" using assms(1,3,4) by (simp add: engine_inv_def)
  from tick_engine_phases[OF assms(2-4) p, where now = now and env = env and render = render and uuid = uuid
      and euuid = euuid]
  obtain g1 g' where "synced_from g g1" "dispatched_from g1 g'" "en_graph en' = Some g'" "en_plan en' = Some plan"
    "en_state en' = outcome_state g' plan" unfolding assms(5) by blast
  moreover have "engine_inv en'" unfolding assms(5) using tick_engine_inv[OF assms(1)] by blast
  ultimately show ?thesis using that by (auto simp: engine_inv_def)
qed

lemma tick_concludes:
  assumes "en_state en = Exec_RUNNING" and "en_graph en = Some g" and "en_plan en = Some plan" and "planned_graph g plan"
  shows "\<exists>en3. fst (tick_engine now env render uuid euuid en) = fst (conclude now plan en3) \<and>
    en_state en3 = Exec_RUNNING \<and> en_graph en3 \<noteq> None"
proof -
  define en1 where "en1 = advance_supervisor now uuid en"
  have k1: "kept en en1" and g: "en_graph en1 = Some g"
    using advance_graph[where now = now and uuid = uuid and en = en] assms(2) by (simp_all add: en1_def)
  define en3 where "en3 = fold (dispatch_task now env render euuid)
    (case en_graph (sync_agent_states now en1) of None \<Rightarrow> [] | Some g2 \<Rightarrow> get_ready_tasks g2 plan) (sync_agent_states now en1)"
  have "kept en1 (sync_agent_states now en1)" unfolding sync_agent_states_def by (rule kept_fold) (rule kept_sync_node)
  moreover have "kept (sync_agent_states now en1) en3" unfolding en3_def by (rule kept_fold) (rule kept_dispatch)
  ultimately have "en_state en3 = Exec_RUNNING" using k1 assms(1) by (simp add: kept_def)
  moreover have "fst (tick_engine now env render uuid euuid en) = fst (conclude now plan en3)"
    using assms(1,3) g k1 by (simp add: tick_engine_def Let_def case_prod_unfold kept_def en3_def flip: en1_def)
  moreover have "en_graph en3 \<noteq> None"
  proof -
    obtain g2 where "en_graph (fst (conclude now plan en3)) = Some g2"
      using calculation(2) tick_engine_phases[OF assms, where now = now and env = env and render = render and uuid = uuid
          and euuid = euuid] by auto
    then show ?thesis by (auto simp: conclude_def split: option.splits)
  qed
  ultimately show ?thesis by blast
qed

lemma conclude_result:
  assumes "en_state en = Exec_RUNNING" and "en_graph en = Some g" and "outcome_state g plan = Exec_COMPLETED"
  shows "\<exists>r. en_result (fst (conclude now plan en)) = Some r \<and> xr_success r \<and>
    xr_completed r = count_status Node_COMPLETED (list_nodes g) \<and> xr_failed r = count_status Node_FAILED (list_nodes g) \<and>
    xr_skipped r = count_status Node_SKIPPED (list_nodes g)"
  using assms by (auto simp: conclude_def Let_def outcome_state_def complete_run_def build_result_def emit_engine_def
      result_of_def engine_nodes_def split: if_splits)

text \<open>
  C9. A tick of a running engine ends the run exactly in two cases. It completes when the graph has a node and none
  is pending or running any more, and then reports success even if tasks have failed or were skipped;
  the counts of the result are those of the graph. It fails when a pending node has predecessors and
  all of them have failed. Otherwise the engine goes on running; a run whose graph is empty, such as one started
  on an empty list of tasks, is never ended by a tick.
\<close>

theorem tick_ends_run:
  assumes "en_state (engine_after cs ss pl T sel de hermes tp) = Exec_RUNNING"
    and "en_graph (engine_after cs ss pl T sel de hermes tp) = Some g0"
    and "en_plan (engine_after cs ss pl T sel de hermes tp) = Some plan"
  shows "\<exists>en' g. fst (tick_engine now env render uuid euuid (engine_after cs ss pl T sel de hermes tp)) = en' \<and>
    en_graph en' = Some g \<and>
    (if run_over g
     then en_state en' = Exec_COMPLETED \<and> (\<exists>r. en_result en' = Some r \<and> xr_success r \<and>
       xr_completed r = card (with_status Node_COMPLETED g) \<and> xr_failed r = card (with_status Node_FAILED g) \<and>
       xr_skipped r = card (with_status Node_SKIPPED g))
     else en_state en' = (if run_doomed g then Exec_FAILED else Exec_RUNNING))"
proof -
  let ?en = "engine_after cs ss pl T sel de hermes tp"
  define en' where "en' = fst (tick_engine now env render uuid euuid ?en)"
  note inv = engine_run_inv[of cs ss pl T sel de hermes tp]
  from inv assms en'_def obtain g1 g where v: "en_graph en' = Some g" "planned_graph g plan" "tidy g"
    "en_state en' = outcome_state g plan" by (rule tick_verdict)
  have k: "keyed node_id (graph_nodes g)" using v(2) by (simp add: planned_graph_def)
  note failed = graph_failed_iff[OF v(2)] and finished = graph_finished_iff[OF k v(3)]
  show ?thesis
  proof (cases "is_graph_finished g")
    case True
    then have c: "outcome_state g plan = Exec_COMPLETED"
      using finished_not_failed[OF v(2,3)] by (simp add: outcome_state_def)
    have "planned_graph g0 plan" using inv assms(2,3) by (simp add: engine_inv_def)
    from tick_concludes[OF assms this, where now = now and env = env and render = render and uuid = uuid and euuid = euuid]
    obtain en3 where e: "en' = fst (conclude now plan en3)" "en_state en3 = Exec_RUNNING" "en_graph en3 \<noteq> None"
      unfolding en'_def by blast
    then obtain g3 where "en_graph en3 = Some g3" by auto
    then have "en_graph en3 = Some g" using conclude_graph[of en3 g3 now plan] e(1) v(1) by simp
    from conclude_result[OF e(2) this c, of now] show ?thesis
      using v(1,4) c True finished unfolding count_status_card[OF k] e(1)[symmetric]
      by (intro exI[of _ en'] exI[of _ g]) (simp add: en'_def)
  next
    case False
    then show ?thesis
      using v(1,4) failed finished by (intro exI[of _ en'] exI[of _ g]) (simp add: en'_def outcome_state_def)
  qed
qed

subsection \<open>Starting a run\<close>

lemma start_of_ready:
  assumes "dict_get (sv_missions sv) mid = Some m" and "mi_state m = Mission_READY"
  shows "\<exists>sv'. Supervisor.start_mission now mid sv = Inr (sv', moved_mission now Mission_RUNNING m) \<and>
    mission_state_of sv' mid = Some Mission_RUNNING"
proof -
  let ?m = "moved_mission now Mission_RUNNING m"
  have "transition_mission now mid Mission_RUNNING sv = Inr (emit_event MISSION_STARTED mid (put_mission mid ?m sv), ?m)"
    unfolding transition_mission_Inr using assms by (simp add: mission_allowed_def)
  then show ?thesis using assms(1) by (simp add: start_mission_def find_mission_def mission_state_of_def)
qed

lemma start_success:
  assumes "en_state en = Exec_IDLE" and "supervisor_inv (en_supervisor en)"
    and "mc_id m \<notin> set (dict_keys (sv_missions (en_supervisor en)))"
    and "create_plan now (en_planner en) (engine_mission m) ts = Inr p"
    and "create_plan now (sv_planner (en_supervisor en)) (task_mission_of m) ts = Inr q"
    and r: "r = start_execution now render issues eid gid md m ts en"
    and g_def: "g = task_graph (apply_strategy (pl_strategy (en_planner en)) ts)"
  shows "en_state (fst r) = Exec_RUNNING \<and> en_graph (fst r) = Some g \<and>
    (\<exists>plan. generate_plan g = Inr plan \<and> en_plan (fst r) = Some plan) \<and> engine_inv (fst r) \<and>
    mission_state_of (en_supervisor (fst r)) (mc_id m) = Some Mission_RUNNING \<and>
    snd r = Inr \<lparr>xc_execution_id = eid, xc_mission_id = mc_id m, xc_graph_id = gid, xc_created_at = now, xc_metadata = md\<rparr>"
proof -
  let ?en = "en\<lparr>en_state := Exec_INITIALIZING, en_start_time := Some now\<rparr>"
  let ?ctx = "\<lparr>xc_execution_id = eid, xc_mission_id = mc_id m, xc_graph_id = gid, xc_created_at = now, xc_metadata = md\<rparr>"
  from fresh_plan_graph[OF assms(4)] obtain gp where g: "tp_graph p = Some g" "generate_plan g = Inr gp" "wf_graph g"
    "no_orphans g" "causal g" "tidy g" unfolding g_def by blast
  obtain sv' mi where c: "create_mission now m ts (en_supervisor en) = (sv', Inr (mi, None))"
    "created now m (en_supervisor en) mi sv'" "mi_state mi = Mission_READY"
    using create_mission_outcome[OF assms(3), of now ts] assms(5) by auto
  have sv': "supervisor_inv sv'" using create_mission_inv[OF assms(2), of now m ts] c(1) by simp
  have "dict_get (sv_missions (en_supervisor en)) (mc_id m) = None" using assms(3) by (simp add: get_None_iff)
  then have "dict_get (sv_missions sv') (mc_id m) = Some mi"
    using c(2) by (simp add: created_def map_add_def)
  from start_of_ready[OF this c(3), of now] obtain sv2 where s: "Supervisor.start_mission now (mc_id m) sv' =
      Inr (sv2, moved_mission now Mission_RUNNING mi)" "mission_state_of sv2 (mc_id m) = Some Mission_RUNNING" by blast
  have r': "r = launch_run now render ?ctx (length ts) g (?en\<lparr>en_supervisor := sv'\<rparr>)"
    using assms(1,4) c(1) g(1) by (simp add: r start_execution_def Let_def)
  show ?thesis
    using launch_run_result[OF g(2-6), where en = "?en\<lparr>en_supervisor := sv'\<rparr>" and now = now and render = render
        and ctx = ?ctx and k = "length ts"] sv' s g(2) unfolding r' by auto
qed

text \<open>
  Starting an idle engine whose planner is the supervisor's, with a new mission id: rejected tasks
  leave it failed, an accepted list with an isolated task lets the graph's exception through and
  leaves it initialising, and otherwise the run and its mission are running and every task is pending.
\<close>

lemma start_outcome:
  assumes "engine_inv en" and "en_state en = Exec_IDLE" and "mc_id m \<notin> set (dict_keys (sv_missions (en_supervisor en)))"
    and "sv_planner (en_supervisor en) = en_planner en"
  shows "let (en', r) = start_execution now render issues eid gid md m ts en;
      os = apply_strategy (pl_strategy (en_planner en)) ts
    in if validate_plan ts (pl_capabilities (en_planner en)) \<noteq> []
       then en_state en' = Exec_FAILED \<and> en_graph en' = None \<and> (\<exists>is. r = Inl (EnginePlanning is))
       else if linked_tasks os
       then en_state en' = Exec_RUNNING \<and> mission_state_of (en_supervisor en') (mc_id m) = Some Mission_RUNNING \<and>
         (\<exists>ctx g. r = Inr ctx \<and> en_graph en' = Some g \<and> set (dict_keys (graph_nodes g)) = task_id ` set os \<and>
            with_status Node_PENDING g = task_id ` set os)
       else en_state en' = Exec_INITIALIZING \<and> en_graph en' = None \<and> (\<exists>is. r = Inl (EscapedGraphError (ValidationError is)))"
proof -
  let ?os = "apply_strategy (pl_strategy (en_planner en)) ts"
  have empty: "en_graph en = None" using assms(1,2) by (simp add: engine_inv_def)
  note out = create_plan_result[of ts "en_planner en" now "engine_mission m"]
  show ?thesis
  proof (cases "create_plan now (en_planner en) (engine_mission m) ts")
    case (Inl e)
    then show ?thesis
      using out assms(2) empty by (cases e) (auto simp: start_execution_def Let_def start_failed_def split: if_splits)
  next
    case (Inr p)
    have v: "validate_plan ts (pl_capabilities (en_planner en)) = []" "linked_tasks ?os"
      using out Inr by (auto split: if_splits)
    then obtain q where q: "create_plan now (sv_planner (en_supervisor en)) (task_mission_of m) ts = Inr q"
      using create_plan_result[of ts "en_planner en" now "task_mission_of m"] assms(4) by auto
    have "with_status Node_PENDING (task_graph ?os) = task_id ` set ?os"
      by (auto simp: with_status_def status_at_is_def task_graph_statuses split: if_splits)
    moreover have "fst ` set (graph_nodes (task_graph ?os)) = task_id ` set ?os"
      by (simp add: task_graph_def image_image)
    moreover have "supervisor_inv (en_supervisor en)" using assms(1) by (simp add: engine_inv_def)
    note start_success[OF assms(2) this assms(3) Inr q refl refl, where render = render and issues = issues and eid = eid
        and gid = gid and md = md]
    ultimately show ?thesis using v by (simp add: case_prod_unfold Let_def)
  qed
qed

subsection \<open>Recovery\<close>

lemma recover_failed_mission:
  assumes "supervisor_inv sv" and "mission_state_of sv mid = Some s"
  shows "(\<exists>r. resume_mission now mid sv = Inr r) \<longleftrightarrow> s \<in> {Mission_READY, Mission_PAUSED}"
  using assms(2) by (cases s)
    (auto simp: mission_state_of_def resume_mission_def find_mission_def transition_mission_def bind_sum_def Let_def
      mission_allowed_def split: sum.splits)

text \<open>
  A recovery of a failed engine succeeds exactly when the engine has no context, or its mission
  exists and has not failed: a failed mission is never recovered. Without a context, after a failed
  planning, the engine then runs without a graph, and no later tick can end that run.
\<close>

lemma recover_outcome:
  assumes "engine_inv en" and "en_state en = Exec_FAILED"
  shows "(snd (recover_execution now en) \<longleftrightarrow> (case en_context en of None \<Rightarrow> True
      | Some ctx \<Rightarrow> mission_state_of (en_supervisor en) (xc_mission_id ctx) \<notin> {None, Some Mission_FAILED})) \<and>
    en_state (fst (recover_execution now en)) = (if snd (recover_execution now en) then Exec_RUNNING else Exec_FAILED) \<and>
    (en_graph en = None \<longrightarrow> snd (recover_execution now en) \<longrightarrow>
      list_all (\<lambda>c. \<exists>now env render uuid euuid. c = TickRun now env render uuid euuid) ticks \<longrightarrow>
      en_state (fold exec_engine ticks (fst (recover_execution now en))) = Exec_RUNNING)"
proof -
  have hang: "en_state (fold exec_engine ticks en') = Exec_RUNNING"
    if "en_state en' = Exec_RUNNING" "en_graph en' = None"
      "list_all (\<lambda>c. \<exists>now env render uuid euuid. c = TickRun now env render uuid euuid) ticks" for en' ticks
    using that
  proof (induction ticks arbitrary: en')
    case (Cons c ticks)
    then obtain now env render uuid euuid where c: "c = TickRun now env render uuid euuid" by auto
    have "en_state (exec_engine c en') = Exec_RUNNING \<and> en_graph (exec_engine c en') = None"
      using Cons.prems(1,2) advance_graph[where now = now and uuid = uuid and en = en']
      by (simp add: c tick_engine_def Let_def kept_def)
    then show ?case using Cons by simp
  qed simp
  have "snd (recover_execution now en) \<longleftrightarrow> (case en_context en of None \<Rightarrow> True
      | Some ctx \<Rightarrow> mission_state_of (en_supervisor en) (xc_mission_id ctx) \<notin> {None, Some Mission_FAILED})"
  proof (cases "en_context en")
    case (Some ctx)
    let ?s = "mission_state_of (en_supervisor en) (xc_mission_id ctx)"
    show ?thesis
    proof (cases "?s \<in> {Some Mission_FAILED, Some Mission_PAUSED}")
      case True
      have "supervisor_inv (en_supervisor en)" using assms(1) by (simp add: engine_inv_def)
      from recover_failed_mission[OF this, of "xc_mission_id ctx" _ now] True Some assms(2) show ?thesis
        by (auto simp: recover_execution_def recover_mission_def get_mission_def find_mission_def mission_state_of_def
            Let_def map_sum_Inr split: sum.split option.splits)
    qed (use Some assms(2) in \<open>auto simp: recover_execution_def recover_mission_def get_mission_def find_mission_def
        mission_state_of_def Let_def split: sum.split option.splits\<close>)
  qed (use assms(2) in \<open>simp add: recover_execution_def recover_mission_def Let_def\<close>)
  moreover have "en_state (fst (recover_execution now en)) =
      (if snd (recover_execution now en) then Exec_RUNNING else Exec_FAILED)"
    using assms(2) by (simp add: recover_execution_def Let_def split: sum.split)
  moreover have "en_graph (fst (recover_execution now en)) = en_graph en"
    using assms(2) by (simp add: recover_execution_def Let_def split: sum.split)
  ultimately show ?thesis using hang by auto
qed

subsection \<open>Progress, and runs that never end\<close>

lemma tick_pending_blocked:
  assumes "synced_from g g1" and "dispatched_from g1 g'" and "status_at_is Node_PENDING g' v"
  shows "\<exists>e \<in> set (graph_edges g'). edge_target e = v \<and> \<not> status_at_is Node_COMPLETED g' (edge_source e)"
proof -
  have same: "status_at g' v = status_at g1 v \<and> \<not> (status_at_is Node_PENDING g1 v \<and> preds_completed g1 v)"
    using assms(2,3) by (cases rule: dispatched_cases[where u = v]) (auto simp: status_at_is_enum)
  then have "\<not> preds_completed g1 v" using assms(3) status_at_is_cong[of g' v g1] by blast
  then show ?thesis
    using dispatched_completed[OF assms(2)] assms(2) by (auto simp: preds_completed_def dispatched_from_def same_shape_def)
qed

text \<open>Without a failure, a graph that has just been dispatched has no pending node, unless something runs.\<close>

lemma nothing_pending:
  assumes "synced_from g0 g1" and "dispatched_from g1 g" and "wf_graph g" and "tidy g"
    and none: "with_status Node_RUNNING g = {}" "with_status Node_FAILED g = {}" "with_status Node_SKIPPED g = {}"
  shows "with_status Node_PENDING g = {}"
proof (rule ccontr)
  have fin: "status_at_is Node_COMPLETED g u"
    if u: "u \<in> set (dict_keys (graph_nodes g))" "\<not> status_at_is Node_PENDING g u" for u
  proof -
    obtain s where "status_at g u = Some s" using in_keys_get[OF u(1)] by (auto simp: status_at_def)
    then obtain t where "status_at g u = Some (EnumV t)"
      "t \<in> {Node_PENDING, Node_RUNNING, Node_COMPLETED, Node_FAILED, Node_SKIPPED}"
      using assms(4) by (auto simp: tidy_def)
    then show ?thesis using u(2) none status_at_is_enum[of g u t] by (auto simp: with_status_def)
  qed
  have er: "edge_rel (graph_nodes g) (graph_edges g) = edge_arc ` set (graph_edges g)"
    using assms(3) edge_rel_eq by (simp add: wf_graph_def)
  assume "with_status Node_PENDING g \<noteq> {}"
  then obtain x where x: "x \<in> with_status Node_PENDING g" by blast
  have wf: "wf (edge_rel (graph_nodes g) (graph_edges g))"
    using assms(3) er unfolding er wf_graph_def by (intro finite_acyclic_wf) simp_all
  obtain w where w: "w \<in> with_status Node_PENDING g"
    "\<And>u. (u, w) \<in> edge_rel (graph_nodes g) (graph_edges g) \<Longrightarrow> u \<notin> with_status Node_PENDING g"
    by (rule wfE_min[OF wf x]) blast
  then obtain e where e: "e \<in> set (graph_edges g)" "edge_target e = w" "\<not> status_at_is Node_COMPLETED g (edge_source e)"
    using tick_pending_blocked[OF assms(1,2)] by (auto simp: with_status_def)
  have ends: "edge_source e \<in> set (dict_keys (graph_nodes g))"
    using assms(3) e(1) by (auto simp: wf_graph_def references_ok_def)
  have "(edge_source e, w) \<in> edge_rel (graph_nodes g) (graph_edges g)" unfolding er using e by force
  then show False using w(2) fin[OF ends] e(3) by (auto simp: with_status_def)
qed

text \<open>
  No idle tick: a tick of a running engine whose graph has tasks completes the run, or afterwards a
  task is running, or a task has failed or was skipped. As long as no task fails, the engine never
  waits with nothing running.
\<close>

lemma tick_never_idles:
  assumes "en_state (engine_after cs ss pl T sel de hermes tp) = Exec_RUNNING"
    and "en_graph (engine_after cs ss pl T sel de hermes tp) = Some g0"
    and "en_plan (engine_after cs ss pl T sel de hermes tp) = Some plan" and "graph_nodes g0 \<noteq> []"
  shows "\<exists>en' g. fst (tick_engine now env render uuid euuid (engine_after cs ss pl T sel de hermes tp)) = en' \<and>
    en_graph en' = Some g \<and> (en_state en' = Exec_COMPLETED \<or> with_status Node_RUNNING g \<noteq> {} \<or>
      with_status Node_FAILED g \<noteq> {} \<or> with_status Node_SKIPPED g \<noteq> {})"
proof -
  let ?en = "engine_after cs ss pl T sel de hermes tp"
  define en' where "en' = fst (tick_engine now env render uuid euuid ?en)"
  from engine_run_inv assms(1-3) en'_def obtain g1 g where v: "synced_from g0 g1" "dispatched_from g1 g"
    "en_graph en' = Some g" "planned_graph g plan" "tidy g" "wf_graph g" "en_state en' = outcome_state g plan"
    by (rule tick_verdict)
  have "graph_nodes g \<noteq> []"
    using v(1,2) assms(4) by (auto simp: synced_from_def dispatched_from_def same_shape_def)
  have "en_state en' = Exec_COMPLETED" if none: "with_status Node_RUNNING g = {}" "with_status Node_FAILED g = {}"
    "with_status Node_SKIPPED g = {}"
  proof -
    have "run_over g"
      using nothing_pending[OF v(1,2,6,5) none] none \<open>graph_nodes g \<noteq> []\<close> by (simp add: run_over_def)
    then show ?thesis
      using v(7) graph_finished_iff[OF _ v(5)] finished_not_failed[OF v(4,5)] v(4)
      by (simp add: outcome_state_def planned_graph_def)
  qed
  then show ?thesis using v(3) unfolding en'_def by blast
qed

text \<open>
  The engine waits for ever: nothing runs, something is pending, and every pending node has a
  predecessor that is not completed and one that has not failed.
\<close>

definition stalled :: "exec_graph \<Rightarrow> bool" where
  "stalled g \<longleftrightarrow> with_status Node_RUNNING g = {} \<and> with_status Node_PENDING g \<noteq> {} \<and>
     (\<forall>v \<in> with_status Node_PENDING g.
       (\<exists>e \<in> set (graph_edges g). edge_target e = v \<and> \<not> status_at_is Node_COMPLETED g (edge_source e)) \<and>
       (\<exists>e \<in> set (graph_edges g). edge_target e = v \<and> \<not> status_at_is Node_FAILED g (edge_source e)))"

lemma stalled_tick:
  assumes "engine_inv en" and "en_state en = Exec_RUNNING" and "en_graph en = Some g" and "en_plan en = Some plan"
    and "stalled g" and "en' = fst (tick_engine now env render uuid euuid en)"
  shows "en_state en' = Exec_RUNNING \<and> en_plan en' = Some plan \<and>
    (\<exists>g'. en_graph en' = Some g' \<and> stalled g' \<and> (\<forall>v. status_at g' v = status_at g v))"
proof -
  from assms(1-4,6) obtain g1 g' where v: "synced_from g g1" "dispatched_from g1 g'" "en_graph en' = Some g'"
    "en_plan en' = Some plan" "planned_graph g' plan" "tidy g'" "en_state en' = outcome_state g' plan"
    by (rule tick_verdict)
  have s1: "status_at g1 u = status_at g u" for u
    using v(1) by (cases rule: synced_cases[where u = u]) (use assms(5) in \<open>auto simp: stalled_def with_status_def\<close>)
  have is1: "status_at_is st g1 u \<longleftrightarrow> status_at_is st g u" for st u using s1 by (rule status_at_is_cong)
  have edges: "graph_edges g1 = graph_edges g" "graph_edges g' = graph_edges g"
    using v(1,2) by (simp_all add: synced_from_def dispatched_from_def same_shape_def)
  have s2: "status_at g' u = status_at g u" for u
    using v(2)
  proof (cases rule: dispatched_cases[where u = u])
    case (2 t)
    then have "u \<in> with_status Node_PENDING g" "\<forall>e \<in> set (graph_edges g). edge_target e = u \<longrightarrow>
        status_at_is Node_COMPLETED g (edge_source e)"
      using is1 edges by (auto simp: with_status_def preds_completed_def)
    then show ?thesis using assms(5) unfolding stalled_def by blast
  qed (simp add: s1)
  have is2: "status_at_is st g' u \<longleftrightarrow> status_at_is st g u" for st u using s2 by (rule status_at_is_cong)
  have st: "stalled g'" using assms(5) unfolding stalled_def with_status_def is2 edges .
  then have "\<not> run_over g'" "\<not> run_doomed g'"
    unfolding stalled_def run_over_def run_doomed_def with_status_def by blast+
  then show ?thesis
    using v(3-7) st s2 graph_finished_iff[OF _ v(6)] graph_failed_iff[OF v(5)]
    by (auto simp: outcome_state_def planned_graph_def)
qed

text \<open>
  A stalled run never ends: when a task waits for one failed and one completed predecessor, no
  number of ticks, interleaved with any calls on the supervisor and the agents, changes a status or
  ends the run. A failed predecessor fails the run only if every predecessor has failed.
\<close>

lemma stalled_run_never_ends:
  assumes "engine_inv en" and "en_state en = Exec_RUNNING" and "en_graph en = Some g" and "en_plan en = Some plan"
    and "stalled g"
    and "list_all (\<lambda>c. (\<exists>now env render uuid euuid. c = TickRun now env render uuid euuid) \<or> (\<exists>s. c = SupervisorCall s)) cs"
  shows "en_state (fold exec_engine cs en) = Exec_RUNNING \<and>
    (\<exists>g'. en_graph (fold exec_engine cs en) = Some g' \<and> (\<forall>v. status_at g' v = status_at g v))"
  using assms
proof (induction cs arbitrary: en g)
  case (Cons c cs)
  have inv: "engine_inv (exec_engine c en)" using exec_engine_inv[OF Cons.prems(1)] by blast
  have "(\<exists>now env render uuid euuid. c = TickRun now env render uuid euuid) \<or> (\<exists>s. c = SupervisorCall s)"
    using Cons.prems(6) by simp
  then obtain g' where g': "en_state (exec_engine c en) = Exec_RUNNING" "en_plan (exec_engine c en) = Some plan"
    "en_graph (exec_engine c en) = Some g'" "stalled g'" "\<And>v. status_at g' v = status_at g v"
  proof (elim disjE exE)
    fix now env render uuid euuid assume c: "c = TickRun now env render uuid euuid"
    from stalled_tick[OF Cons.prems(1-5) refl, where now = now and env = env and render = render and uuid = uuid
        and euuid = euuid] show ?thesis using that unfolding c exec_engine.simps by blast
  next
    fix s assume "c = SupervisorCall s"
    then show ?thesis using that[of g] Cons.prems by simp
  qed
  have "list_all (\<lambda>c. (\<exists>now env render uuid euuid. c = TickRun now env render uuid euuid) \<or> (\<exists>s. c = SupervisorCall s)) cs"
    using Cons.prems(6) by simp
  from Cons.IH[OF inv g'(1,3,2,4) this] show ?case using g'(5) by auto
qed simp

subsection \<open>Concrete runs\<close>

abbreviation sample_start :: engine_op where
  "sample_start \<equiv> StartRun 0 (\<lambda>_. []) (\<lambda>_. []) ''e'' ''g'' [] (sample_ctx ''m'') sample_tasks"

abbreviation sample_engine :: "engine_op list \<Rightarrow> execution_engine" where
  "sample_engine cs \<equiv> engine_after cs [] sample_planner 300 None lone_engine False (Some sample_planner)"

lemma sample_engine_started:
  "\<exists>plan. en_state (sample_engine [sample_start]) = Exec_RUNNING \<and>
     en_graph (sample_engine [sample_start]) = Some (task_graph sample_tasks) \<and>
     en_plan (sample_engine [sample_start]) = Some plan"
proof -
  let ?en = "new_engine (new_supervisor sample_planner (new_manager 300) None) lone_engine False (Some sample_planner)"
  have "en_state ?en = Exec_IDLE" "supervisor_inv (en_supervisor ?en)" "sv_missions (en_supervisor ?en) = []"
    "en_planner ?en = sample_planner" "sv_planner (en_supervisor ?en) = sample_planner"
    by (simp_all add: new_engine_def new_supervisor_inv) (simp_all add: new_supervisor_def)
  moreover obtain p q where "create_plan 0 sample_planner (engine_mission (sample_ctx ''m'')) sample_tasks = Inr p"
    "create_plan 0 sample_planner (task_mission_of (sample_ctx ''m'')) sample_tasks = Inr q" using sample_plan by blast
  moreover have "apply_strategy (pl_strategy sample_planner) sample_tasks = sample_tasks" by (simp add: sample_planner_def)
  ultimately show ?thesis
    using start_success[of ?en "sample_ctx ''m''" 0 sample_tasks p q, OF _ _ _ _ _ refl refl, of "\<lambda>_. []" "\<lambda>_. []"
        "''e''" "''g''" "[]"] by auto
qed

lemma sample_graph_edge: "graph_edges (task_graph sample_tasks) = [arc_edge (''a'', ''b'')]"
  "graph_nodes (task_graph sample_tasks) \<noteq> []"
  by (simp_all add: task_graph_def task_arcs_def sample_tasks_def sample_task_def)

theorem no_early_dispatch_witness:
  "\<exists>g. en_graph (sample_engine [sample_start]) = Some g \<and>
     (status_at_is Node_PENDING g ''b'' \<or> status_at_is Node_COMPLETED g ''a'')"
proof -
  obtain plan where "en_graph (sample_engine [sample_start]) = Some (task_graph sample_tasks)"
    using sample_engine_started by blast
  from no_early_dispatch[OF this] this show ?thesis by (auto simp: sample_graph_edge)
qed

lemma engine_follows_table_example:
  "en_state (sample_engine [CancelRun 0]) = Exec_CANCELLED \<and>
   en_state (exec_engine sample_start (sample_engine [CancelRun 0])) = Exec_CANCELLED"
proof -
  have "en_state (sample_engine [CancelRun 0]) = Exec_CANCELLED"
    by (simp add: cancel_execution_def new_engine_def engine_terminal_def ask_supervisor_def)
  moreover from this have "engine_settled (en_state (sample_engine [CancelRun 0]))" by (simp add: engine_settled_def)
  ultimately show ?thesis
    using engine_follows_table[where cs = "[CancelRun 0]" and c = sample_start and ss = "[]" and pl = sample_planner
        and T = 300 and sel = None and de = lone_engine and hermes = False and tp = "Some sample_planner"]
    unfolding Let_def by metis
qed

lemma ready_tasks_exact_example:
  "\<exists>plan. generate_plan (task_graph sample_tasks) = Inr plan \<and>
     map node_id (get_ready_tasks (task_graph sample_tasks) plan) = [''a'']"
proof -
  have wf: "wf_graph (task_graph sample_tasks)" by (rule task_graph_wf[OF sample_tasks_ordered])
  obtain p where "create_plan 0 sample_planner sample_mission sample_tasks = Inr p" using sample_plan by blast
  from fresh_plan_graph[OF this] obtain plan where g: "generate_plan (task_graph sample_tasks) = Inr plan"
    "planned_graph (task_graph sample_tasks) plan" by (auto simp: sample_planner_def)
  define ids where "ids = map node_id (get_ready_tasks (task_graph sample_tasks) plan)"
  note ready = ready_tasks_exact[OF g(2), folded ids_def]
  have "task_id ` set sample_tasks = {''a'', ''b''}" by (simp add: sample_tasks_def sample_task_def)
  then have st: "status_at_is s (task_graph sample_tasks) v \<longleftrightarrow> s = Node_PENDING \<and> v \<in> {''a'', ''b''}" for s v
    by (simp add: status_at_is_def task_graph_statuses)
  have "preds_completed (task_graph sample_tasks) v \<longleftrightarrow> v \<noteq> ''b''" for v
    by (auto simp: preds_completed_def sample_graph_edge st)
  then have pend: "{v. status_at_is Node_PENDING (task_graph sample_tasks) v \<and> preds_completed (task_graph sample_tasks) v} = {''a''}"
    unfolding st by auto
  have "set ids = {''a''}" unfolding pend[symmetric] using ready by (elim conjE)
  moreover have "distinct ids" using ready by (elim conjE)
  ultimately have "ids = [''a'']" by (rule distinct_singleton[rotated])
  then show ?thesis using g(1) unfolding ids_def by (intro exI[of _ plan]) (rule conjI)
qed

abbreviation sample_tick :: "time \<Rightarrow> engine_op" where
  "sample_tick now \<equiv> TickRun now stopped_env (\<lambda>_. []) (\<lambda>m t. t) (\<lambda>t. t)"

theorem tick_ends_run_witness:
  "en_state (sample_engine [sample_start, sample_tick 1]) \<in> {Exec_RUNNING, Exec_COMPLETED, Exec_FAILED}"
proof -
  obtain plan where "en_state (sample_engine [sample_start]) = Exec_RUNNING"
    "en_graph (sample_engine [sample_start]) = Some (task_graph sample_tasks)"
    "en_plan (sample_engine [sample_start]) = Some plan" using sample_engine_started by blast
  from tick_ends_run[OF this, where now = 1 and env = stopped_env and render = "\<lambda>_. []" and uuid = "\<lambda>m t. t" and euuid = "\<lambda>t. t"]
  show ?thesis by (auto split: if_splits)
qed

lemma tick_never_idles_example:
  "\<exists>g. en_graph (sample_engine [sample_start, sample_tick 1]) = Some g \<and>
     (en_state (sample_engine [sample_start, sample_tick 1]) = Exec_COMPLETED \<or> with_status Node_RUNNING g \<noteq> {} \<or>
      with_status Node_FAILED g \<noteq> {} \<or> with_status Node_SKIPPED g \<noteq> {})"
proof -
  obtain plan where "en_state (sample_engine [sample_start]) = Exec_RUNNING"
    "en_graph (sample_engine [sample_start]) = Some (task_graph sample_tasks)"
    "en_plan (sample_engine [sample_start]) = Some plan" using sample_engine_started by blast
  from tick_never_idles[OF this sample_graph_edge(2), where now = 1 and env = stopped_env and render = "\<lambda>_. []"
      and uuid = "\<lambda>m t. t" and euuid = "\<lambda>t. t"]
  show ?thesis by simp
qed

lemma start_outcome_example:
  "en_state (sample_engine [sample_start]) = Exec_RUNNING \<and>
   mission_state_of (en_supervisor (sample_engine [sample_start])) ''m'' = Some Mission_RUNNING"
proof -
  let ?en = "new_engine (new_supervisor sample_planner (new_manager 300) None) lone_engine False (Some sample_planner)"
  have h: "engine_inv ?en" "en_state ?en = Exec_IDLE" "mc_id (sample_ctx ''m'') \<notin> set (dict_keys (sv_missions (en_supervisor ?en)))"
    "sv_planner (en_supervisor ?en) = en_planner ?en"
    using new_engine_inv[of "[]" sample_planner 300 None lone_engine False "Some sample_planner"]
    by (simp_all add: new_engine_def) (simp_all add: new_supervisor_def)
  have pl: "en_planner ?en = sample_planner" by (simp add: new_engine_def)
  have "create_plan 0 sample_planner sample_mission sample_tasks \<noteq> Inl e" for e
    using sample_plan[of 0 sample_mission] by auto
  then have "linked_tasks (apply_strategy (pl_strategy sample_planner) sample_tasks)"
    using create_plan_result[of sample_tasks sample_planner 0 sample_mission] sample_tasks_valid
    by (auto simp: sample_planner_def split: if_splits)
  then show ?thesis
    using start_outcome[OF h, where now = 0 and render = "\<lambda>_. []" and issues = "\<lambda>_. []" and eid = "''e''" and gid = "''g''"
        and md = "[]" and ts = sample_tasks] sample_tasks_valid
    unfolding pl by (auto simp: Let_def case_prod_unfold sample_planner_def sample_ctx_def split: if_splits)
qed

lemma recover_outcome_example:
  "en_state (fold exec_engine [RecoverRun 1, sample_tick 2, sample_tick 3]
     ((sample_engine [])\<lparr>en_state := Exec_FAILED\<rparr>)) = Exec_RUNNING"
proof -
  let ?en = "(sample_engine [])\<lparr>en_state := Exec_FAILED\<rparr>"
  have h: "engine_inv ?en" "en_state ?en = Exec_FAILED" "en_context ?en = None" "en_graph ?en = None"
    using new_engine_inv[of "[]" sample_planner 300 None lone_engine False "Some sample_planner"]
    by (simp_all add: engine_inv_def new_engine_def)
  have "list_all (\<lambda>c. \<exists>now env render uuid euuid. c = TickRun now env render uuid euuid) [sample_tick 2, sample_tick 3]"
    by simp
  then show ?thesis
    using recover_outcome[OF h(1,2), where now = 1 and ticks = "[sample_tick 2, sample_tick 3]"] h(3,4) by simp
qed

text \<open>Three tasks: \<open>a\<close> has failed, \<open>b\<close> is completed and \<open>c\<close> waits for both.\<close>

definition stalled_graph :: exec_graph where
  "stalled_graph = \<lparr>graph_nodes = [(''a'', task_node ''a''\<lparr>node_status := EnumV Node_FAILED\<rparr>),
       (''b'', task_node ''b''\<lparr>node_status := EnumV Node_COMPLETED\<rparr>), (''c'', task_node ''c'')],
     graph_edges = [plain_edge ''a'' ''c'', plain_edge ''b'' ''c'']\<rparr>"

lemma stalled_graph_parts: "dict_keys (graph_nodes stalled_graph) = [''a'', ''b'', ''c'']"
  "graph_edges stalled_graph = [plain_edge ''a'' ''c'', plain_edge ''b'' ''c'']"
  "keyed node_id (graph_nodes stalled_graph)"
  "status_at stalled_graph v = (if v = ''a'' then Some (EnumV Node_FAILED) else if v = ''b'' then Some (EnumV Node_COMPLETED)
     else if v = ''c'' then Some (EnumV Node_PENDING) else None)"
  by (auto simp: stalled_graph_def keyed_def task_node_def status_at_def)

lemma stalled_graph_ok: "wf_graph stalled_graph \<and> no_orphans stalled_graph \<and> tidy stalled_graph \<and> stalled stalled_graph"
proof -
  have "edge_rel (graph_nodes stalled_graph) (graph_edges stalled_graph) = {(''a'', ''c''), (''b'', ''c'')}"
    unfolding arc_rel_def stalled_graph_parts by (auto simp: plain_edge_def)
  moreover have "acyclic {(''a'', ''c''), (''b'', ''c'')}"
  proof -
    have "trans {(''a'', ''c''), (''b'', ''c'')}" by (auto simp: trans_def)
    then show ?thesis by (simp add: acyclic_def trancl_id)
  qed
  ultimately have "wf_graph stalled_graph"
    using stalled_graph_parts(3) by (simp add: wf_graph_def references_ok_def stalled_graph_parts plain_edge_def stalled_graph_def)
  moreover have "no_orphans stalled_graph" by (auto simp: no_orphans_def stalled_graph_def plain_edge_def)
  moreover have "tidy stalled_graph" by (simp add: tidy_def stalled_graph_parts(4))
  moreover have "stalled stalled_graph"
    by (auto simp: stalled_def with_status_def status_at_is_def stalled_graph_parts(2,4) plain_edge_def split: if_splits)
  ultimately show ?thesis by blast
qed

lemma stalled_run_never_ends_example:
  "\<exists>plan. en_state (fold exec_engine [sample_tick 1, SupervisorCall (Tick 2 (\<lambda>m t. t)), sample_tick 3]
     ((sample_engine [])\<lparr>en_state := Exec_RUNNING, en_graph := Some stalled_graph, en_plan := Some plan\<rparr>)) = Exec_RUNNING"
proof -
  obtain plan where plan: "generate_plan stalled_graph = Inr plan"
    using generate_plan_outcome[OF stalled_graph_parts(3)] stalled_graph_ok by auto
  let ?en = "(sample_engine [])\<lparr>en_state := Exec_RUNNING, en_graph := Some stalled_graph, en_plan := Some plan\<rparr>"
  have "causal stalled_graph"
    by (simp add: causal_def stalled_graph_parts(2,4) plain_edge_def status_at_is_def)
  then have inv: "engine_inv ?en"
    using stalled_graph_ok generate_plan_planned[OF stalled_graph_parts(3) plan]
      new_engine_inv[of "[]" sample_planner 300 None lone_engine False "Some sample_planner"]
    by (simp add: engine_inv_def)
  have cs: "list_all (\<lambda>c. (\<exists>now env render uuid euuid. c = TickRun now env render uuid euuid) \<or> (\<exists>s. c = SupervisorCall s))
      [sample_tick 1, SupervisorCall (Tick 2 (\<lambda>m t. t)), sample_tick 3]"
    by simp
  have "en_state (fold exec_engine [sample_tick 1, SupervisorCall (Tick 2 (\<lambda>m t. t)), sample_tick 3] ?en) = Exec_RUNNING"
    using stalled_run_never_ends[OF inv _ _ _ _ cs, of stalled_graph plan] stalled_graph_ok by simp
  then show ?thesis by blast
qed

end
