(* ===== verification/RuntimeRouter.thy ===== *)
theory RuntimeRouter
  imports RuntimeRecovery RuntimeHealth
begin

text \<open>
  The runtime router, \<^verbatim>\<open>src/backend/ral/runtime_router.py\<close>, with the active runtime context
  (\<^verbatim>\<open>runtime_context.py\<close>) it reads. The executed call is a parameter: attempt \<open>n\<close> on a runtime
  gives an error text or a result. Attempt \<open>n\<close> reads the clock \<open>clock n\<close> and measures the latency
  \<open>latency n\<close>. The router's bus and the recovery manager's bus are separate values.
\<close>

subsection \<open>State\<close>

record router =
  rr_registry :: registry
  rr_active :: "rid option"
  rr_fallback :: "string option"
  rr_health :: "health_monitor option"
  rr_recovery :: "recovery_manager option"
  rr_bus :: "event_bus option"
  rr_max_retries :: nat

datatype router_error = NoneAvailable string nat | NotInRegistry | AllFailed string "string option"

record execution_trace =
  tr_initial :: string
  tr_final :: string
  tr_retries :: nat
  tr_reason :: "string option"

definition new_router :: "registry \<Rightarrow> health_monitor option \<Rightarrow> recovery_manager option \<Rightarrow> event_bus option
    \<Rightarrow> int \<Rightarrow> router" where
  "new_router reg health recovery bus max_retries =
     \<lparr>rr_registry = reg, rr_active = None, rr_fallback = None, rr_health = health, rr_recovery = recovery,
      rr_bus = bus, rr_max_retries = nat (max max_retries 0)\<rparr>"

subsection \<open>Active runtime context\<close>

definition set_active :: "string \<Rightarrow> router \<Rightarrow> registry_error + router" where
  "set_active name rt = (case registry_get name (rr_registry rt) of
     Inl e \<Rightarrow> Inl e | Inr r \<Rightarrow> Inr (rt\<lparr>rr_active := Some r\<rparr>))"

definition set_fallback :: "string option \<Rightarrow> router \<Rightarrow> registry_error + router" where
  "set_fallback name rt = (case name of
     None \<Rightarrow> Inr (rt\<lparr>rr_fallback := None\<rparr>)
   | Some n \<Rightarrow> (case registry_get n (rr_registry rt) of
       Inl e \<Rightarrow> Inl e | Inr _ \<Rightarrow> Inr (rt\<lparr>rr_fallback := Some n\<rparr>)))"

text \<open>The entries are scanned in sorted order of the names.\<close>

definition get_active_name :: "router \<Rightarrow> string option" where
  "get_active_name rt = (case rr_active rt of
     None \<Rightarrow> None
   | Some r \<Rightarrow> List.find (\<lambda>name. dict_get (rr_registry rt) name = Some r) (list_available (rr_registry rt)))"

definition try_get_fallback :: "router \<Rightarrow> rid option" where
  "try_get_fallback rt = (case rr_fallback rt of None \<Rightarrow> None | Some n \<Rightarrow> dict_get (rr_registry rt) n)"

definition name_of :: "rid \<Rightarrow> router \<Rightarrow> string option" where
  "name_of r rt = find_name r (rr_registry rt)"

subsection \<open>Admission of a runtime\<close>

text \<open>The two monitors may refuse and change their own state when they are asked.\<close>

definition health_admits :: "time \<Rightarrow> runtime_env \<Rightarrow> string \<Rightarrow> router \<Rightarrow> bool \<times> router" where
  "health_admits now env name rt = (case rr_health rt of
     None \<Rightarrow> (True, rt)
   | Some hm \<Rightarrow> (case is_available now env (rr_registry rt) name hm of
       Inl _ \<Rightarrow> (False, rt)
     | Inr (ok, hm') \<Rightarrow>
        (let rt' = rt\<lparr>rr_health := Some hm'\<rparr> in
         if \<not> ok then (False, rt')
         else (case is_error_prone (rr_registry rt) name hm' of
                 Inl _ \<Rightarrow> (False, rt') | Inr bad \<Rightarrow> (\<not> bad, rt')))))"

definition recovery_admits :: "time \<Rightarrow> string \<Rightarrow> router \<Rightarrow> bool \<times> router" where
  "recovery_admits now name rt = (case rr_recovery rt of
     None \<Rightarrow> (True, rt)
   | Some rc \<Rightarrow> (let (ok, rc') = should_retry now name rc in (ok, rt\<lparr>rr_recovery := Some rc'\<rparr>)))"

definition can_handle :: "time \<Rightarrow> runtime_env \<Rightarrow> string \<Rightarrow> rid \<Rightarrow> router \<Rightarrow> bool \<times> router" where
  "can_handle now env cap r rt =
     (if \<not> health_check env r then (False, rt)
      else if \<not> has_capability env cap r then (False, rt)
      else case name_of r rt of
             None \<Rightarrow> (False, rt)
           | Some name \<Rightarrow>
              (let (ok, rt1) = health_admits now env name rt
               in if \<not> ok then (False, rt1) else recovery_admits now name rt1))"

text \<open>A candidate whose name is excluded is skipped before it is asked.\<close>

definition admit :: "time \<Rightarrow> runtime_env \<Rightarrow> string \<Rightarrow> string list \<Rightarrow> string option \<Rightarrow> rid \<Rightarrow> router \<Rightarrow> bool \<times> router" where
  "admit now env cap exclude name r rt =
     (if (case name of None \<Rightarrow> False | Some n \<Rightarrow> n \<in> set exclude) then (False, rt) else can_handle now env cap r rt)"

subsection \<open>Resolution\<close>

definition resolve_runtime :: "time \<Rightarrow> runtime_env \<Rightarrow> string \<Rightarrow> string list \<Rightarrow> string option \<Rightarrow> string option \<Rightarrow> bool
    \<Rightarrow> router \<Rightarrow> rid option \<times> router" where
  "resolve_runtime now env cap exclude preferred preference allow_fallback rt0 =
     (let (ok1, rt1) = (case rr_active rt0 of
            None \<Rightarrow> (False, rt0) | Some r \<Rightarrow> admit now env cap exclude (get_active_name rt0) r rt0)
      in if ok1 then (rr_active rt0, rt1)
      else let (ok2, rt2) = (case (if allow_fallback then try_get_fallback rt1 else None) of
            None \<Rightarrow> (False, rt1) | Some r \<Rightarrow> admit now env cap exclude (rr_fallback rt1) r rt1)
      in if ok2 then (try_get_fallback rt1, rt2)
      else let (ok3, rt3) = (case preferred of
            None \<Rightarrow> (False, rt2)
          | Some n \<Rightarrow> (case dict_get (rr_registry rt2) n of
              None \<Rightarrow> (False, rt2) | Some r \<Rightarrow> admit now env cap exclude (Some n) r rt2))
      in if ok3 then (dict_get (rr_registry rt2) (the preferred), rt3)
      else case select_runtime env (rr_registry rt3) cap preference preferred of
             Inl _ \<Rightarrow> (None, rt3)
           | Inr selected \<Rightarrow>
              (let (ok4, rt4) = admit now env cap exclude (name_of selected rt3) selected rt3
               in if ok4 then (Some selected, rt4)
                  else first_accepted (\<lambda>r rt. admit now env cap exclude (name_of r rt) r rt)
                         (filter (\<lambda>r. r \<noteq> selected) (list_compatible env (rr_registry rt4) cap preference)) rt4))"

subsection \<open>Execution with recovery\<close>

definition router_publish :: "time \<Rightarrow> runtime_event_type \<Rightarrow> string \<Rightarrow> severity \<Rightarrow> string \<Rightarrow> metadata \<Rightarrow> router \<Rightarrow> router" where
  "router_publish now ty name sev msg md rt = rt\<lparr>rr_bus := publish now ty name sev msg md (rr_bus rt)\<rparr>"

definition reason_value :: "string option \<Rightarrow> pyval" where
  "reason_value r = (case r of None \<Rightarrow> PNone | Some s \<Rightarrow> PStr s)"

definition router_recover :: "time \<Rightarrow> string \<Rightarrow> string option \<Rightarrow> router \<Rightarrow> string option \<times> router" where
  "router_recover now name reason rt = (case rr_recovery rt of
     None \<Rightarrow> (reason, rt)
   | Some rc \<Rightarrow> (let (msg, rc') = recover now name rc in (Some msg, rt\<lparr>rr_recovery := Some rc'\<rparr>)))"

definition router_success :: "time \<Rightarrow> string \<Rightarrow> router \<Rightarrow> router" where
  "router_success now name rt = (case rr_recovery rt of
     None \<Rightarrow> rt | Some rc \<Rightarrow> rt\<lparr>rr_recovery := Some (record_success now name rc)\<rparr>)"

record request =
  rq_capability :: string
  rq_preferred :: "string option"
  rq_preference :: "string option"
  rq_allow_fallback :: bool

text \<open>
  The \<^verbatim>\<open>while retries <= max_retries\<close> loop; \<open>left\<close> counts the iterations that remain and
  \<open>attempted\<close> the names tried so far, so that \<open>retries\<close> is its length.
\<close>

fun attempt_loop :: "(nat \<Rightarrow> time) \<Rightarrow> (nat \<Rightarrow> int) \<Rightarrow> runtime_env \<Rightarrow> (nat \<Rightarrow> rid \<Rightarrow> string + 'r) \<Rightarrow> request \<Rightarrow> nat
    \<Rightarrow> string list \<Rightarrow> string option \<Rightarrow> string option \<Rightarrow> string option \<Rightarrow> router
    \<Rightarrow> (router_error + 'r \<times> execution_trace) \<times> router" where
  "attempt_loop clock latency env exec rq 0 attempted initial reason last_error rt =
     (Inl (AllFailed (rq_capability rq) last_error), rt)"
| "attempt_loop clock latency env exec rq (Suc left) attempted initial reason last_error rt =
     (let n = length attempted; now = clock n; cap = rq_capability rq in
      case resolve_runtime now env cap attempted (rq_preferred rq) (rq_preference rq) (rq_allow_fallback rq) rt of
        (None, rt1) \<Rightarrow> (Inl (NoneAvailable cap n), rt1)
      | (Some r, rt1) \<Rightarrow> (case name_of r rt1 of
          None \<Rightarrow> (Inl NotInRegistry, rt1)
        | Some name \<Rightarrow>
           (let initial' = (case initial of None \<Rightarrow> name | Some i \<Rightarrow> i);
                capmd = (''capability'', PStr cap);
                rt2 = router_publish now Event_STARTED name Sev_INFO [] [capmd]
                        (router_publish now Event_SELECTED name Sev_INFO [] [capmd] rt1);
                latmd = (''latency_ms'', PInt (latency n))
            in case exec n r of
                 Inr result \<Rightarrow>
                   (let rt3 = router_publish now Event_COMPLETED name Sev_INFO [] [capmd, latmd] rt2;
                        rt4 = router_success now name rt3;
                        rt5 = (if name \<noteq> initial'
                               then router_publish now Event_RECOVERED name Sev_INFO []
                                 [capmd, (''runtime_initial'', PStr initial'), (''runtime_final'', PStr name)] rt4
                               else rt4)
                    in (Inr (result, \<lparr>tr_initial = initial', tr_final = name, tr_retries = n, tr_reason = reason\<rparr>), rt5))
               | Inl err \<Rightarrow>
                   (let rt3 = router_publish now Event_FAILED name Sev_ERROR err [capmd, latmd] rt2;
                        (reason', rt4) = router_recover now name reason rt3;
                        rt5 = (if left > 0
                               then router_publish now Event_FALLBACK name Sev_WARNING []
                                 [capmd, (''attempt'', PInt (int n + 1)), (''reason'', reason_value reason')] rt4
                               else rt4)
                    in attempt_loop clock latency env exec rq left (attempted @ [name]) (Some initial') reason'
                         (Some err) rt5))))"

definition execute_with_recovery :: "(nat \<Rightarrow> time) \<Rightarrow> (nat \<Rightarrow> int) \<Rightarrow> runtime_env \<Rightarrow> (nat \<Rightarrow> rid \<Rightarrow> string + 'r)
    \<Rightarrow> request \<Rightarrow> router \<Rightarrow> (router_error + 'r \<times> execution_trace) \<times> router" where
  "execute_with_recovery clock latency env exec rq rt =
     attempt_loop clock latency env exec rq (Suc (rr_max_retries rt)) [] None None None rt"

subsection \<open>Responses with their trace\<close>

record chat_response =
  cr_content :: string
  cr_metadata :: metadata

record tool_result =
  to_output :: pyval
  to_is_error :: bool
  to_metadata :: metadata

definition trace_as_dict :: "execution_trace \<Rightarrow> metadata" where
  "trace_as_dict tr = [(''runtime_initial'', PStr (tr_initial tr)), (''runtime_final'', PStr (tr_final tr)),
     (''retries'', PInt (int (tr_retries tr))), (''fallback_reason'', reason_value (tr_reason tr))]"

definition with_trace :: "execution_trace \<Rightarrow> metadata \<Rightarrow> metadata" where
  "with_trace tr md = dict_set ''execution_trace'' (PDict (trace_as_dict tr)) md"

text \<open>
  The call on one runtime is the parameter \<open>call\<close>; the two entry points differ in the
  capability they ask for and in the response they build.
\<close>

definition chat :: "(nat \<Rightarrow> time) \<Rightarrow> (nat \<Rightarrow> int) \<Rightarrow> runtime_env \<Rightarrow> (nat \<Rightarrow> rid \<Rightarrow> string + chat_response)
    \<Rightarrow> string option \<Rightarrow> string option \<Rightarrow> bool \<Rightarrow> router \<Rightarrow> (router_error + chat_response) \<times> router" where
  "chat clock latency env call preferred preference allow_fallback rt =
     (case execute_with_recovery clock latency env call \<lparr>rq_capability = ''chat'', rq_preferred = preferred,
             rq_preference = preference, rq_allow_fallback = allow_fallback\<rparr> rt of
        (Inl e, rt') \<Rightarrow> (Inl e, rt')
      | (Inr (result, tr), rt') \<Rightarrow> (Inr (if rr_recovery rt = None then result
           else result\<lparr>cr_metadata := with_trace tr (cr_metadata result)\<rparr>), rt'))"

definition invoke_tool :: "(nat \<Rightarrow> time) \<Rightarrow> (nat \<Rightarrow> int) \<Rightarrow> runtime_env \<Rightarrow> (nat \<Rightarrow> rid \<Rightarrow> string + tool_result)
    \<Rightarrow> string option \<Rightarrow> string option \<Rightarrow> bool \<Rightarrow> router \<Rightarrow> (router_error + tool_result) \<times> router" where
  "invoke_tool clock latency env call preferred preference allow_fallback rt =
     (case execute_with_recovery clock latency env call \<lparr>rq_capability = ''tools'', rq_preferred = preferred,
             rq_preference = preference, rq_allow_fallback = allow_fallback\<rparr> rt of
        (Inl e, rt') \<Rightarrow> (Inl e, rt')
      | (Inr (result, tr), rt') \<Rightarrow> (Inr (if rr_recovery rt = None then result
           else result\<lparr>to_metadata := with_trace tr (to_metadata result)\<rparr>), rt'))"

end
