(* ===== verification/RuntimeRouter_Correct.thy ===== *)
theory RuntimeRouter_Correct
  imports RuntimeRouter RuntimeRecovery_Correct
begin

text \<open>
  Correctness of the router: what the monitors are asked, the order in which runtimes are considered,
  and the loop that retries a failed call on other runtimes.
\<close>

subsection \<open>Verdicts of the monitors\<close>

definition health_ok :: "runtime_env \<Rightarrow> registry \<Rightarrow> health_monitor option \<Rightarrow> string \<Rightarrow> bool" where
  "health_ok env reg health name = (case health of None \<Rightarrow> True
    | Some hm \<Rightarrow> (case dict_get reg name of None \<Rightarrow> False
      | Some r \<Rightarrow> ri_capabilities (env r) \<noteq> None \<and> ri_capabilities (env r) \<noteq> Some [] \<and>
          ri_status (env r) = Status_STARTED \<and> \<not> error_prone (dict_get_default hm name (new_metrics name))))"

definition circuit_ok :: "time \<Rightarrow> recovery_manager option \<Rightarrow> string \<Rightarrow> bool" where
  "circuit_ok now recovery name = (case recovery of None \<Rightarrow> True
    | Some rc \<Rightarrow> fst (is_allowed now (breaker_of rc name)))"

text \<open>What the router asks of a runtime registered as \<open>name\<close>.\<close>

definition acceptable :: "time \<Rightarrow> runtime_env \<Rightarrow> string \<Rightarrow> router \<Rightarrow> rid \<Rightarrow> bool" where
  "acceptable now env cap rt r \<longleftrightarrow> health_check env r \<and> has_capability env cap r \<and>
     (case find_name r (rr_registry rt) of None \<Rightarrow> False
      | Some name \<Rightarrow> health_ok env (rr_registry rt) (rr_health rt) name \<and> circuit_ok now (rr_recovery rt) name)"

lemma status_available: "status_health st = AVAILABLE \<longleftrightarrow> st = Status_STARTED"
  by (cases st) simp_all

lemma error_prone_touch [simp]:
  "error_prone (dict_get_default (touch now x hm) name (new_metrics name)) =
     error_prone (dict_get_default hm name (new_metrics name))"
  by (auto simp: touch_def dict_get_default_def error_prone_def failure_rate_def new_metrics_def
      split: option.splits)

lemma health_ok_touch [simp]: "health_ok env reg (Some (touch now x hm)) name = health_ok env reg (Some hm) name"
  by (simp add: health_ok_def split: option.splits)

lemma health_admits_fst: "fst (health_admits now env name rt) = health_ok env (rr_registry rt) (rr_health rt) name"
  by (auto simp: health_admits_def health_ok_def is_available_def is_status_def check_runtime_def
      registry_get_def is_error_prone_def get_metrics_def Let_def status_available split: option.splits)

lemma health_admits_snd:
  "snd (health_admits now env name rt) = rt \<or>
     (\<exists>hm. rr_health rt = Some hm \<and> snd (health_admits now env name rt) = rt\<lparr>rr_health := Some (touch now name hm)\<rparr>)"
  by (auto simp: health_admits_def is_available_def is_status_def check_runtime_def
      registry_get_def is_error_prone_def get_metrics_def Let_def split: option.splits)

lemma recovery_admits_fst: "fst (recovery_admits now name rt) = circuit_ok now (rr_recovery rt) name"
  by (simp add: recovery_admits_def circuit_ok_def should_retry_fst split: option.splits prod.splits)
    (metis fst_conv should_retry_fst)

lemma recovery_admits_snd:
  "snd (recovery_admits now name rt) = rt \<or>
     (\<exists>rc. rr_recovery rt = Some rc \<and>
        snd (recovery_admits now name rt) = rt\<lparr>rr_recovery := Some (snd (should_retry now name rc))\<rparr>)"
  by (auto simp: recovery_admits_def split: option.splits prod.splits)

lemma is_allowed_later: "now \<le> later \<Longrightarrow> fst (is_allowed later (snd (is_allowed now b))) = fst (is_allowed later b)"
  by (auto simp: is_allowed_def split: option.splits)

lemma circuit_ok_retry:
  "now \<le> later \<Longrightarrow> circuit_ok later (Some (snd (should_retry now x rc))) name = circuit_ok later (Some rc) name"
  by (simp add: circuit_ok_def breaker_of_retry is_allowed_later)

text \<open>Asking changes only the monitors, and only in ways that keep their verdicts from that time on.\<close>

definition same_verdicts :: "time \<Rightarrow> runtime_env \<Rightarrow> router \<Rightarrow> router \<Rightarrow> bool" where
  "same_verdicts now env rt rt' \<longleftrightarrow> rr_registry rt' = rr_registry rt \<and> rr_active rt' = rr_active rt \<and>
     rr_fallback rt' = rr_fallback rt \<and> rr_bus rt' = rr_bus rt \<and> rr_max_retries rt' = rr_max_retries rt \<and>
     (\<forall>name. health_ok env (rr_registry rt) (rr_health rt') name = health_ok env (rr_registry rt) (rr_health rt) name) \<and>
     (\<forall>later name. now \<le> later \<longrightarrow> circuit_ok later (rr_recovery rt') name = circuit_ok later (rr_recovery rt) name)"

lemma same_verdicts_refl [simp]: "same_verdicts now env rt rt"
  by (simp add: same_verdicts_def)

lemma same_verdicts_trans:
  "same_verdicts now env a b \<Longrightarrow> same_verdicts now env b c \<Longrightarrow> same_verdicts now env a c"
  unfolding same_verdicts_def by metis

lemma same_verdicts_later:
  "same_verdicts now env rt rt' \<Longrightarrow> now \<le> later \<Longrightarrow> acceptable later env cap rt' r = acceptable later env cap rt r"
  unfolding same_verdicts_def acceptable_def by (simp split: option.splits)

lemma same_verdicts_acceptable: "same_verdicts now env rt rt' \<Longrightarrow> acceptable now env cap rt' r = acceptable now env cap rt r"
  by (rule same_verdicts_later[OF _ order_refl])

lemma health_admits_same: "same_verdicts now env rt (snd (health_admits now env name rt))"
  using health_admits_snd[of now env name rt] by (auto simp: same_verdicts_def)

lemma recovery_admits_same: "same_verdicts now env rt (snd (recovery_admits now name rt))"
  using recovery_admits_snd[of now name rt] by (auto simp: same_verdicts_def circuit_ok_retry)

lemma can_handle_same: "same_verdicts now env rt (snd (can_handle now env cap r rt))"
  by (auto simp: can_handle_def name_of_def Let_def split: option.splits prod.splits)
    (metis health_admits_same recovery_admits_same same_verdicts_trans snd_conv)+

lemma can_handle_fst: "fst (can_handle now env cap r rt) = acceptable now env cap rt r"
proof (cases "find_name r (rr_registry rt)")
  case None
  then show ?thesis by (simp add: can_handle_def acceptable_def name_of_def)
next
  case (Some name)
  obtain ok rt1 where h: "health_admits now env name rt = (ok, rt1)" by fastforce
  have "ok = health_ok env (rr_registry rt) (rr_health rt) name" using health_admits_fst[of now env name rt] h by simp
  moreover have "circuit_ok now (rr_recovery rt1) name = circuit_ok now (rr_recovery rt) name"
    using health_admits_same[of now env rt name] h by (simp add: same_verdicts_def)
  ultimately show ?thesis
    using Some h by (simp add: can_handle_def acceptable_def name_of_def recovery_admits_fst)
qed

definition excluded :: "string list \<Rightarrow> string option \<Rightarrow> bool" where
  "excluded exclude name = (case name of None \<Rightarrow> False | Some n \<Rightarrow> n \<in> set exclude)"

lemma admit_fst: "fst (admit now env cap exclude name r rt) \<longleftrightarrow> \<not> excluded exclude name \<and> acceptable now env cap rt r"
  by (simp add: admit_def excluded_def can_handle_fst)

lemma admit_same: "same_verdicts now env rt (snd (admit now env cap exclude name r rt))"
  by (simp add: admit_def can_handle_same)

lemma admit_again: "fst (admit now env cap exclude name r (snd (admit now env cap exclude' name' r' rt))) =
    fst (admit now env cap exclude name r rt)"
  by (simp add: admit_fst same_verdicts_acceptable[OF admit_same])

lemma name_of_admit: "name_of r (snd (admit now env cap exclude name' r' rt)) = name_of r rt"
  using admit_same[of now env rt cap exclude name' r'] by (simp add: same_verdicts_def name_of_def)

interpretation admission: stable_test "\<lambda>r rt. admit now env cap exclude (name_of r rt) r rt" for now env cap exclude
  by unfold_locales (simp add: admit_again name_of_admit)

lemma first_admitted_same:
  "same_verdicts now env rt (snd (first_accepted (\<lambda>r rt. admit now env cap exclude (name_of r rt) r rt) rs rt))"
proof (induction rs arbitrary: rt)
  case (Cons r rs)
  then show ?case
    unfolding admission.first_accepted_Cons using same_verdicts_trans[OF admit_same Cons.IH] admit_same by simp
qed simp

subsection \<open>Resolution\<close>

text \<open>The runtimes in the order in which the strategy considers them, with the name that is checked.\<close>

definition trial_order :: "runtime_env \<Rightarrow> string \<Rightarrow> string option \<Rightarrow> string option \<Rightarrow> bool \<Rightarrow> router
    \<Rightarrow> (string option \<times> rid) list" where
  "trial_order env cap preferred preference allow_fallback rt =
     (case rr_active rt of None \<Rightarrow> [] | Some r \<Rightarrow> [(get_active_name rt, r)]) @
     (case (if allow_fallback then try_get_fallback rt else None) of None \<Rightarrow> [] | Some r \<Rightarrow> [(rr_fallback rt, r)]) @
     (case preferred of None \<Rightarrow> [] | Some n \<Rightarrow>
        (case dict_get (rr_registry rt) n of None \<Rightarrow> [] | Some r \<Rightarrow> [(Some n, r)])) @
     (case select_runtime env (rr_registry rt) cap preference preferred of Inl _ \<Rightarrow> [] | Inr s \<Rightarrow>
        map (\<lambda>r. (name_of r rt, r)) (s # filter (\<lambda>r. r \<noteq> s) (list_compatible env (rr_registry rt) cap preference)))"

definition try_one where
  "try_one now env cap exclude name rO rt =
     (case rO of None \<Rightarrow> (False, rt) | Some r \<Rightarrow> admit now env cap exclude name r rt)"

lemma try_one_fst: "fst (try_one now env cap exclude name rO rt) \<longleftrightarrow>
    (\<exists>r. rO = Some r \<and> \<not> excluded exclude name \<and> acceptable now env cap rt r)"
  by (simp add: try_one_def admit_fst split: option.splits)

lemma try_one_same: "same_verdicts now env rt (snd (try_one now env cap exclude name rO rt))"
  by (simp add: try_one_def admit_same split: option.splits)

lemma find_map_pair: "map_option snd (List.find P (map (\<lambda>r. (f r, r)) xs)) = List.find (\<lambda>r. P (f r, r)) xs"
  by (induction xs) auto

definition trial_head :: "string option \<Rightarrow> bool \<Rightarrow> router \<Rightarrow> (string option \<times> rid option) list" where
  "trial_head preferred allow_fallback rt =
     [(get_active_name rt, rr_active rt), (rr_fallback rt, if allow_fallback then try_get_fallback rt else None),
      (preferred, Option.bind preferred (dict_get (rr_registry rt)))]"

definition resolve_rest where
  "resolve_rest now env cap exclude preferred preference rt =
     (case select_runtime env (rr_registry rt) cap preference preferred of
        Inl _ \<Rightarrow> (None, rt)
      | Inr s \<Rightarrow> first_accepted (\<lambda>r rt. admit now env cap exclude (name_of r rt) r rt)
          (s # filter (\<lambda>r. r \<noteq> s) (list_compatible env (rr_registry rt) cap preference)) rt)"

fun resolve_head where
  "resolve_head now env cap exclude [] k rt = k rt"
| "resolve_head now env cap exclude ((name, rO) # xs) k rt =
     (let (ok, rt') = try_one now env cap exclude name rO rt
      in if ok then (rO, rt') else resolve_head now env cap exclude xs k rt')"

lemma same_verdicts_names:
  "same_verdicts now env rt rt' \<Longrightarrow> get_active_name rt' = get_active_name rt \<and>
     try_get_fallback rt' = try_get_fallback rt \<and> rr_fallback rt' = rr_fallback rt \<and>
     rr_active rt' = rr_active rt \<and> rr_registry rt' = rr_registry rt"
  unfolding same_verdicts_def get_active_name_def try_get_fallback_def by (elim conjE) (simp cong: option.case_cong)

lemma resolve_by_stages:
  "resolve_runtime now env cap exclude preferred preference allow_fallback rt =
     resolve_head now env cap exclude (trial_head preferred allow_fallback rt)
       (resolve_rest now env cap exclude preferred preference) rt"
proof -
  obtain ok1 rt1 where 1: "try_one now env cap exclude (get_active_name rt) (rr_active rt) rt = (ok1, rt1)" by fastforce
  obtain ok2 rt2 where 2: "try_one now env cap exclude (rr_fallback rt)
      (if allow_fallback then try_get_fallback rt else None) rt1 = (ok2, rt2)" by fastforce
  obtain ok3 rt3 where 3: "try_one now env cap exclude preferred
      (Option.bind preferred (dict_get (rr_registry rt))) rt2 = (ok3, rt3)" by fastforce
  have s1: "same_verdicts now env rt rt1" using try_one_same 1 by (metis snd_conv)
  have s2: "same_verdicts now env rt rt2" using s1 try_one_same 2 same_verdicts_trans by (metis snd_conv)
  have s3: "same_verdicts now env rt rt3" using s2 try_one_same 3 same_verdicts_trans by (metis snd_conv)
  note n1 = same_verdicts_names[OF s1] and n2 = same_verdicts_names[OF s2] and n3 = same_verdicts_names[OF s3]
  have ok2: "allow_fallback \<and> ok2 \<or> \<not> ok2"
    using 2 by (cases allow_fallback) (auto simp: try_one_def)
  have rest: "(case select_runtime env (rr_registry rt3) cap preference preferred of
             Inl _ \<Rightarrow> (None, rt3)
           | Inr selected \<Rightarrow>
              (let (ok4, rt4) = admit now env cap exclude (name_of selected rt3) selected rt3
               in if ok4 then (Some selected, rt4)
                  else first_accepted (\<lambda>r rt. admit now env cap exclude (name_of r rt) r rt)
                         (filter (\<lambda>r. r \<noteq> selected) (list_compatible env (rr_registry rt4) cap preference)) rt4))
      = resolve_rest now env cap exclude preferred preference rt3"
  proof (cases "select_runtime env (rr_registry rt3) cap preference preferred")
    case (Inr sel)
    obtain ok4 rt4 where 4: "admit now env cap exclude (name_of sel rt3) sel rt3 = (ok4, rt4)" by fastforce
    have "rr_registry rt4 = rr_registry rt3"
      using admit_same[of now env rt3 cap exclude "name_of sel rt3" sel] 4 by (simp add: same_verdicts_def)
    with Inr 4 show ?thesis by (simp add: resolve_rest_def)
  qed (simp add: resolve_rest_def)
  have e1: "(case rr_active rt of None \<Rightarrow> (False, rt)
      | Some r \<Rightarrow> admit now env cap exclude (get_active_name rt) r rt) = (ok1, rt1)"
    using 1 by (simp add: try_one_def)
  have e2: "(case (if allow_fallback then try_get_fallback rt1 else None) of None \<Rightarrow> (False, rt1)
      | Some r \<Rightarrow> admit now env cap exclude (rr_fallback rt1) r rt1) = (ok2, rt2)"
    using 2 n1 unfolding try_one_def by (elim conjE) (simp only:)
  have e3: "(case preferred of None \<Rightarrow> (False, rt2)
          | Some n \<Rightarrow> (case dict_get (rr_registry rt2) n of
              None \<Rightarrow> (False, rt2) | Some r \<Rightarrow> admit now env cap exclude (Some n) r rt2)) = (ok3, rt3)"
    using 3 n2 by (cases preferred) (auto simp: try_one_def split: option.splits)
  have pref: "ok3 \<Longrightarrow> dict_get (rr_registry rt2) (the preferred) = Option.bind preferred (dict_get (rr_registry rt))"
    using 3 n2 by (cases preferred) (auto simp: try_one_def)
  show ?thesis
    unfolding resolve_runtime_def trial_head_def e1 Let_def prod.case e2 e3
    using n1 n2 n3 1 2 3 ok2 pref rest[unfolded Let_def] by auto
qed

lemma resolve_head_fst:
  assumes "\<And>rt'. same_verdicts now env rt rt' \<Longrightarrow> fst (k rt') = res"
  shows "fst (resolve_head now env cap exclude xs k rt) =
    (case List.find (\<lambda>(name, r). \<not> excluded exclude name \<and> acceptable now env cap rt r)
            (concat (map (\<lambda>(name, rO). case rO of None \<Rightarrow> [] | Some r \<Rightarrow> [(name, r)]) xs)) of
       None \<Rightarrow> res | Some (name, r) \<Rightarrow> Some r)"
  using assms
proof (induction xs arbitrary: rt)
  case (Cons x xs)
  obtain name rO where x: "x = (name, rO)" by fastforce
  obtain ok rt' where t: "try_one now env cap exclude name rO rt = (ok, rt')" by fastforce
  have same: "same_verdicts now env rt rt'" using try_one_same t by (metis snd_conv)
  have ok: "ok \<longleftrightarrow> (\<exists>r. rO = Some r \<and> \<not> excluded exclude name \<and> acceptable now env cap rt r)"
    using try_one_fst t by (metis fst_conv)
  have acc: "acceptable now env cap rt' = acceptable now env cap rt"
    using same_verdicts_acceptable[OF same] by blast
  have "fst (k rt'') = res" if "same_verdicts now env rt' rt''" for rt''
    using Cons.prems same_verdicts_trans[OF same that] by blast
  from Cons.IH[OF this] show ?case
    using x t ok acc by (auto split: option.splits)
qed simp

lemma resolve_rest_fst:
  "fst (resolve_rest now env cap exclude preferred preference rt) =
     map_option snd (List.find (\<lambda>(name, r). \<not> excluded exclude name \<and> acceptable now env cap rt r)
       (case select_runtime env (rr_registry rt) cap preference preferred of Inl _ \<Rightarrow> [] | Inr s \<Rightarrow>
          map (\<lambda>r. (name_of r rt, r)) (s # filter (\<lambda>r. r \<noteq> s) (list_compatible env (rr_registry rt) cap preference))))"
  unfolding resolve_rest_def
  by (simp add: admission.first_accepted_find find_map_pair admit_fst del: first_accepted.simps list.map find.simps(2) split: sum.splits)

lemma resolve_rest_same:
  assumes "same_verdicts now env rt rt'"
  shows "fst (resolve_rest now env cap exclude preferred preference rt') =
    fst (resolve_rest now env cap exclude preferred preference rt)"
proof -
  have "acceptable now env cap rt' = acceptable now env cap rt"
    using same_verdicts_acceptable[OF assms] by blast
  then show ?thesis
    unfolding resolve_rest_fst name_of_def using same_verdicts_names[OF assms] by (simp cong: sum.case_cong)
qed

lemma resolve_first:
  "fst (resolve_runtime now env cap exclude preferred preference allow_fallback rt) =
     map_option snd (List.find (\<lambda>(name, r). \<not> excluded exclude name \<and> acceptable now env cap rt r)
       (trial_order env cap preferred preference allow_fallback rt))"
proof -
  have t: "trial_order env cap preferred preference allow_fallback rt =
      concat (map (\<lambda>(name, rO). case rO of None \<Rightarrow> [] | Some r \<Rightarrow> [(name, r)]) (trial_head preferred allow_fallback rt)) @
      (case select_runtime env (rr_registry rt) cap preference preferred of Inl _ \<Rightarrow> [] | Inr s \<Rightarrow>
        map (\<lambda>r. (name_of r rt, r)) (s # filter (\<lambda>r. r \<noteq> s) (list_compatible env (rr_registry rt) cap preference)))"
    by (simp add: trial_order_def trial_head_def split: option.split)
  show ?thesis
    unfolding resolve_by_stages t find_append
    by (subst resolve_head_fst[of now env rt _ _ cap exclude, OF resolve_rest_same], assumption)
      (auto simp: resolve_rest_fst split: option.split)
qed

text \<open>
  Resolution returns the first runtime, in the documented order (active, fallback, preferred,
  selector, remaining compatible runtimes in name order), whose name is not excluded and that is
  registered, started, capable, healthy and let through by its circuit; the monitors' verdicts are
  those at the start of the resolution.
\<close>

lemma resolve_runtime_first:
  "fst (resolve_runtime now env cap exclude preferred preference allow_fallback rt) =
     map_option snd (List.find (\<lambda>(name, r). \<not> excluded exclude name \<and> acceptable now env cap rt r)
       (trial_order env cap preferred preference allow_fallback rt))"
  by (rule resolve_first)

lemma resolve_head_same:
  assumes "\<And>rt. same_verdicts now env rt (snd (k rt))"
  shows "same_verdicts now env rt (snd (resolve_head now env cap exclude xs k rt))"
proof (induction xs arbitrary: rt)
  case (Cons x xs)
  obtain name rO ok rt' where t: "x = (name, rO)" "try_one now env cap exclude name rO rt = (ok, rt')"
    by (metis prod.exhaust)
  have "same_verdicts now env rt rt'" using try_one_same t(2) by (metis snd_conv)
  with Cons.IH[of rt'] t show ?case using same_verdicts_trans by auto
qed (simp add: assms)

lemma resolve_same: "same_verdicts now env rt (snd (resolve_runtime now env cap exclude preferred preference allow_fallback rt))"
  unfolding resolve_by_stages
  by (rule resolve_head_same) (auto simp: resolve_rest_def first_admitted_same
      simp del: first_accepted.simps split: sum.split)

text \<open>A registry in which no runtime is registered under two names.\<close>

definition unaliased :: "registry \<Rightarrow> bool" where
  "unaliased reg \<longleftrightarrow> distinct (dict_keys reg) \<and> distinct (dict_values reg)"

lemma unaliased_find_name: "unaliased reg \<Longrightarrow> find_name r reg = Some n \<longleftrightarrow> dict_get reg n = Some r"
  unfolding unaliased_def
  by (induction r reg rule: find_name.induct) (auto split: if_splits dest: map_of_SomeD intro: rev_image_eqI)

lemma unaliased_name_unique:
  "unaliased reg \<Longrightarrow> find_name r reg = Some n \<Longrightarrow> dict_get reg m = Some r \<Longrightarrow> m = n"
  using unaliased_find_name by (metis option.inject)

lemma unaliased_active_name:
  assumes "unaliased (rr_registry rt)" and "rr_active rt = Some r" and "find_name r (rr_registry rt) = Some n"
  shows "get_active_name rt = Some n"
proof -
  let ?P = "\<lambda>m. dict_get (rr_registry rt) m = Some r"
  have n: "?P n" using assms(1,3) unaliased_find_name by blast
  then have "n \<in> set (list_available (rr_registry rt))"
    using get_Some_key[of "rr_registry rt" n r] by (simp add: list_available_def)
  with n obtain m where m: "List.find ?P (list_available (rr_registry rt)) = Some m"
    by (metis (mono_tags, lifting) find_None_iff not_None_eq)
  with find_SomeD[OF m] unaliased_name_unique[OF assms(1,3)] show ?thesis
    by (simp add: get_active_name_def assms(2))
qed

lemma trial_order_names:
  assumes "unaliased (rr_registry rt)" and "(name, r) \<in> set (trial_order env cap preferred preference fb rt)"
    and "find_name r (rr_registry rt) = Some n"
  shows "name = Some n"
  using assms(2) unaliased_active_name[OF assms(1) _ assms(3)] assms(3) unaliased_name_unique[OF assms(1,3)]
  by (auto simp: trial_order_def name_of_def try_get_fallback_def split: option.splits if_splits sum.splits dest: sym)

lemma resolve_sound:
  assumes "unaliased (rr_registry rt)"
    and "fst (resolve_runtime now env cap exclude preferred preference fb rt) = Some r"
  shows "\<exists>name. find_name r (rr_registry rt) = Some name \<and> name \<notin> set exclude \<and> acceptable now env cap rt r"
proof -
  from assms(2) obtain name where f: "(name, r) \<in> set (trial_order env cap preferred preference fb rt)"
      "\<not> excluded exclude name" "acceptable now env cap rt r"
    unfolding resolve_first by (auto dest!: find_SomeD)
  from f(3) obtain n where n: "find_name r (rr_registry rt) = Some n"
    by (auto simp: acceptable_def split: option.splits)
  with trial_order_names[OF assms(1) f(1) n] f(2,3) show ?thesis by (simp add: excluded_def)
qed

lemma trial_order_compatible:
  assumes "distinct (dict_keys (rr_registry rt))"
    and "preferred = None \<or> (\<exists>p. preferred = Some p \<and> p \<in> set (dict_keys (rr_registry rt)))"
    and "r \<in> set (dict_values (rr_registry rt))" and "selection_rules env cap preference r"
  shows "\<exists>name. (name, r) \<in> set (trial_order env cap preferred preference fb rt)"
proof -
  have comp: "r \<in> set (list_compatible env (rr_registry rt) cap preference)"
    using assms by (simp add: list_compatible_def set_candidates)
  have "select_runtime env (rr_registry rt) cap preference preferred \<noteq> Inl e" for e
  proof -
    have "\<not> (case select_from env (rr_registry rt) cap preference of Inl _ \<Rightarrow> True | Inr _ \<Rightarrow> False)"
      using assms select_from_Inl[of env "rr_registry rt" cap preference] by (auto simp: set_candidates split: sum.split)
    then show ?thesis
      using assms(2) get_None_iff[of "rr_registry rt"]
      by (auto simp: select_runtime_def registry_get_def simp del: set_map list.set_map split: sum.splits option.splits if_splits)
  qed
  then obtain s where "select_runtime env (rr_registry rt) cap preference preferred = Inr s"
    by (cases "select_runtime env (rr_registry rt) cap preference preferred") auto
  then show ?thesis using comp by (cases "r = s") (auto simp: trial_order_def)
qed

lemma resolve_complete:
  assumes "unaliased (rr_registry rt)"
    and "preferred = None \<or> (\<exists>p. preferred = Some p \<and> p \<in> set (dict_keys (rr_registry rt)))"
    and "fst (resolve_runtime now env cap exclude preferred preference fb rt) = None"
    and "find_name r (rr_registry rt) = Some name" and "selection_rules env cap preference r"
    and "acceptable now env cap rt r"
  shows "name \<in> set exclude"
proof -
  have "distinct (dict_keys (rr_registry rt))" using assms(1) by (simp add: unaliased_def)
  moreover have "r \<in> set (dict_values (rr_registry rt))" using assms(4) find_name_None_iff by (metis option.distinct(1))
  ultimately obtain nm where nm: "(nm, r) \<in> set (trial_order env cap preferred preference fb rt)"
    using trial_order_compatible assms by blast
  then have "excluded exclude nm"
    using assms(3,6) unfolding resolve_first by (auto simp: find_None_iff)
  with trial_order_names[OF assms(1) nm assms(4)] show ?thesis by (simp add: excluded_def)
qed

subsection \<open>Execution with recovery\<close>

definition all_failed :: "(nat \<Rightarrow> rid \<Rightarrow> string + 'r) \<Rightarrow> rid list \<Rightarrow> bool" where
  "all_failed exec rs \<longleftrightarrow> (\<forall>i < length rs. \<exists>e. exec i (rs ! i) = Inl e)"

definition last_failure :: "(nat \<Rightarrow> rid \<Rightarrow> string + 'r) \<Rightarrow> rid list \<Rightarrow> string option" where
  "last_failure exec rs = (if rs = [] then None
     else case exec (length rs - 1) (last rs) of Inl e \<Rightarrow> Some e | Inr _ \<Rightarrow> None)"

text \<open>What the loop reports when the runtimes \<open>rs\<close> were called, in this order.\<close>

definition reports :: "(nat \<Rightarrow> rid \<Rightarrow> string + 'r) \<Rightarrow> registry \<Rightarrow> string \<Rightarrow> nat \<Rightarrow> rid list
    \<Rightarrow> router_error + 'r \<times> execution_trace \<Rightarrow> bool" where
  "reports exec reg cap limit rs res \<longleftrightarrow> (case res of
     Inr (x, tr) \<Rightarrow> rs \<noteq> [] \<and> exec (length rs - 1) (last rs) = Inr x \<and> all_failed exec (butlast rs) \<and>
       dict_get reg (tr_initial tr) = Some (hd rs) \<and> dict_get reg (tr_final tr) = Some (last rs) \<and>
       tr_retries tr = length rs - 1
   | Inl (AllFailed c err) \<Rightarrow> c = cap \<and> all_failed exec rs \<and> length rs = limit \<and> err = last_failure exec rs
   | Inl (NoneAvailable c n) \<Rightarrow> c = cap \<and> all_failed exec rs \<and> n = length rs \<and> n < limit
   | Inl NotInRegistry \<Rightarrow> False)"

text \<open>
  When a runtime may serve a capability at a time: it is started and has the capability; where health is watched it
  has failed at most three times and at most every second time; where recovery is watched its breaker is not open, or
  has been open for its timeout.
\<close>

definition may_serve :: "time \<Rightarrow> runtime_env \<Rightarrow> string \<Rightarrow> router \<Rightarrow> rid \<Rightarrow> bool" where
  "may_serve now env cap rt r \<longleftrightarrow> ri_status (env r) = Status_STARTED \<and> (\<exists>cs. ri_capabilities (env r) = Some cs \<and> cap \<in> set cs) \<and>
     (\<forall>hm name m. rr_health rt = Some hm \<and> dict_get (rr_registry rt) name = Some r \<and> dict_get hm name = Some m \<longrightarrow>
        rm_failures m \<le> 3 \<and> (rm_executions m = 0 \<or> 2 * rm_failures m \<le> rm_executions m)) \<and>
     (\<forall>rc name b. rr_recovery rt = Some rc \<and> dict_get (rr_registry rt) name = Some r \<and> dict_get (rc_breakers rc) name = Some b \<and>
        cb_state b = OPEN \<longrightarrow> (\<exists>t. cb_opened_at b = Some t \<and> cb_timeout b \<le> now - t))"

text \<open>A preference is a word of the runtime's name.\<close>

definition suits :: "runtime_env \<Rightarrow> string option \<Rightarrow> rid \<Rightarrow> bool" where
  "suits env preference r \<longleftrightarrow> (\<forall>tag. preference = Some tag \<longrightarrow> is_infix (str_lower tag) (str_lower (ri_name (env r))))"

lemma error_prone_counts: "error_prone m \<longleftrightarrow> \<not> (rm_failures m \<le> 3 \<and> (rm_executions m = 0 \<or> 2 * rm_failures m \<le> rm_executions m))"
proof -
  have "(1 / 2 < (of_nat f / of_nat e :: rat)) \<longleftrightarrow> e < 2 * f" if "0 < e" for e f :: nat
  proof -
    have "(1 / 2 < (of_nat f / of_nat e :: rat)) \<longleftrightarrow> (of_nat e :: rat) < of_nat (2 * f)"
      using that by (simp add: field_simps)
    then show ?thesis by (simp only: of_nat_less_iff)
  qed
  then show ?thesis by (auto simp: error_prone_def failure_rate_def not_le)
qed

lemma is_allowed_iff: "fst (is_allowed now b) \<longleftrightarrow> (cb_state b = OPEN \<longrightarrow> (\<exists>t. cb_opened_at b = Some t \<and> cb_timeout b \<le> now - t))"
  by (cases "cb_state b") (auto simp: is_allowed_def split: option.splits)

lemma acceptable_iff:
  assumes "unaliased (rr_registry rt)" and "r \<in> set (dict_values (rr_registry rt))"
  shows "acceptable now env cap rt r \<longleftrightarrow> may_serve now env cap rt r"
proof -
  obtain n where n: "find_name r (rr_registry rt) = Some n" using assms(2) find_name_None_iff by fastforce
  then have u: "dict_get (rr_registry rt) x = Some r \<longleftrightarrow> x = n" for x
    using unaliased_find_name[OF assms(1)] by (metis option.inject)
  have new: "\<not> error_prone (new_metrics n)" "fst (is_allowed now (new_breaker a b))" for a b
    by (simp_all add: error_prone_counts is_allowed_iff new_metrics_def new_breaker_def)
  have reg: "dict_get (rr_registry rt) n = Some r" using u by blast
  have h: "health_ok env (rr_registry rt) (rr_health rt) n \<longleftrightarrow> (\<forall>hm m. rr_health rt = Some hm \<and> dict_get hm n = Some m \<longrightarrow>
        rm_failures m \<le> 3 \<and> (rm_executions m = 0 \<or> 2 * rm_failures m \<le> rm_executions m))"
    if "ri_status (env r) = Status_STARTED" "ri_capabilities (env r) = Some cs" "cap \<in> set cs" for cs
  proof (cases "rr_health rt")
    case (Some hm)
    have "cs \<noteq> []" using that(3) by auto
    then have "health_ok env (rr_registry rt) (rr_health rt) n \<longleftrightarrow> \<not> error_prone (dict_get_default hm n (new_metrics n))"
      by (simp add: health_ok_def Some reg that(1,2))
    also have "\<dots> \<longleftrightarrow> (\<forall>m. dict_get hm n = Some m \<longrightarrow> \<not> error_prone m)"
      using new(1) by (simp add: dict_get_default_def split: option.split)
    finally show ?thesis by (simp add: Some error_prone_counts)
  qed (simp add: health_ok_def)
  have c: "circuit_ok now (rr_recovery rt) n \<longleftrightarrow> (\<forall>rc b. rr_recovery rt = Some rc \<and> dict_get (rc_breakers rc) n = Some b \<and>
        cb_state b = OPEN \<longrightarrow> (\<exists>t. cb_opened_at b = Some t \<and> cb_timeout b \<le> now - t))"
  proof (cases "rr_recovery rt")
    case (Some rc)
    have "circuit_ok now (rr_recovery rt) n \<longleftrightarrow> (\<forall>b. dict_get (rc_breakers rc) n = Some b \<longrightarrow> fst (is_allowed now b))"
      using new(2) by (simp add: circuit_ok_def breaker_of_def Some split: option.split)
    then show ?thesis unfolding is_allowed_iff by (auto simp: Some)
  qed (simp add: circuit_ok_def)
  have a: "acceptable now env cap rt r \<longleftrightarrow> ri_status (env r) = Status_STARTED \<and> (\<exists>cs. ri_capabilities (env r) = Some cs \<and> cap \<in> set cs) \<and>
      health_ok env (rr_registry rt) (rr_health rt) n \<and> circuit_ok now (rr_recovery rt) n"
    by (simp add: acceptable_def n health_check_def has_capability_def split: option.split)
  show ?thesis unfolding a may_serve_def u c using h by blast
qed

lemma selection_iff:
  "selection_rules env cap preference r \<longleftrightarrow> ri_status (env r) = Status_STARTED \<and>
     (\<exists>cs. ri_capabilities (env r) = Some cs \<and> cap \<in> set cs) \<and> suits env preference r"
  by (auto simp: selection_rules_def suits_def preference_tag_def health_check_def has_capability_def split: option.splits)

lemma all_failed_snoc: "all_failed exec (rs @ [r]) \<longleftrightarrow> all_failed exec rs \<and> (\<exists>e. exec (length rs) r = Inl e)"
  by (auto simp: all_failed_def nth_append less_Suc_eq)

text \<open>The steps of the loop, by what the resolution and the call give.\<close>

lemma loop_none:
  assumes "resolve_runtime (clock (length attempted)) env (rq_capability rq) attempted (rq_preferred rq)
      (rq_preference rq) (rq_allow_fallback rq) rt = (None, rt1)"
  shows "fst (attempt_loop clock latency env exec rq (Suc left) attempted initial reason err rt) =
    Inl (NoneAvailable (rq_capability rq) (length attempted))"
  by (simp add: assms Let_def)

lemma loop_success:
  assumes "resolve_runtime (clock (length attempted)) env (rq_capability rq) attempted (rq_preferred rq)
      (rq_preference rq) (rq_allow_fallback rq) rt = (Some r, rt1)"
    and "name_of r rt1 = Some name" and "exec (length attempted) r = Inr x"
  shows "fst (attempt_loop clock latency env exec rq (Suc left) attempted initial reason err rt) =
    Inr (x, \<lparr>tr_initial = (case initial of None \<Rightarrow> name | Some i \<Rightarrow> i), tr_final = name,
      tr_retries = length attempted, tr_reason = reason\<rparr>)"
  by (simp add: assms Let_def)

lemma router_publish_frame [simp]:
  "rr_registry (router_publish now ty name sev msg md rt) = rr_registry rt"
  "rr_health (router_publish now ty name sev msg md rt) = rr_health rt"
  "rr_recovery (router_publish now ty name sev msg md rt) = rr_recovery rt"
  by (simp_all add: router_publish_def)

lemma router_recover_frame:
  "rr_registry (snd (router_recover now name reason rt)) = rr_registry rt \<and>
   rr_health (snd (router_recover now name reason rt)) = rr_health rt \<and>
   rr_recovery (snd (router_recover now name reason rt)) = map_option (\<lambda>rc. snd (recover now name rc)) (rr_recovery rt)"
  by (simp add: router_recover_def split: option.split prod.split)

lemma loop_failure:
  assumes "resolve_runtime (clock (length attempted)) env (rq_capability rq) attempted (rq_preferred rq)
      (rq_preference rq) (rq_allow_fallback rq) rt = (Some r, rt1)"
    and "name_of r rt1 = Some name" and "exec (length attempted) r = Inl e"
  shows "\<exists>reason' rt5. rr_registry rt5 = rr_registry rt1 \<and> rr_health rt5 = rr_health rt1 \<and>
    rr_recovery rt5 = map_option (\<lambda>rc. snd (recover (clock (length attempted)) name rc)) (rr_recovery rt1) \<and>
    attempt_loop clock latency env exec rq (Suc left) attempted initial reason err rt =
      attempt_loop clock latency env exec rq left (attempted @ [name])
        (Some (case initial of None \<Rightarrow> name | Some i \<Rightarrow> i)) reason' (Some e) rt5"
proof -
  let ?now = "clock (length attempted)" and ?md = "(''capability'', PStr (rq_capability rq))"
  define rt3 where "rt3 = router_publish ?now Event_FAILED name Sev_ERROR e
      [?md, (''latency_ms'', PInt (latency (length attempted)))]
      (router_publish ?now Event_STARTED name Sev_INFO [] [?md]
        (router_publish ?now Event_SELECTED name Sev_INFO [] [?md] rt1))"
  obtain reason' rt4 where rec: "router_recover ?now name reason rt3 = (reason', rt4)" by fastforce
  have rt4: "rr_registry rt4 = rr_registry rt1" "rr_health rt4 = rr_health rt1"
    "rr_recovery rt4 = map_option (\<lambda>rc. snd (recover ?now name rc)) (rr_recovery rt1)"
    using router_recover_frame[of ?now name reason rt3] rec by (simp_all add: rt3_def)
  define rt5 where "rt5 = (if left > 0 then router_publish ?now Event_FALLBACK name Sev_WARNING []
      [?md, (''attempt'', PInt (int (length attempted) + 1)), (''reason'', reason_value reason')] rt4 else rt4)"
  have "rr_registry rt5 = rr_registry rt1 \<and> rr_health rt5 = rr_health rt1 \<and>
      rr_recovery rt5 = map_option (\<lambda>rc. snd (recover ?now name rc)) (rr_recovery rt1)"
    using rt4 by (simp add: rt5_def)
  moreover have "attempt_loop clock latency env exec rq (Suc left) attempted initial reason err rt =
      attempt_loop clock latency env exec rq left (attempted @ [name])
        (Some (case initial of None \<Rightarrow> name | Some i \<Rightarrow> i)) reason' (Some e) rt5"
    unfolding attempt_loop.simps Let_def assms prod.case option.case sum.case rt3_def[symmetric] rec rt5_def ..
  ultimately show ?thesis by blast
qed

subsection \<open>Runtimes that were not called keep their verdict\<close>

lemma acceptable_cong:
  "rr_registry rt' = rr_registry rt \<Longrightarrow> rr_health rt' = rr_health rt \<Longrightarrow> rr_recovery rt' = rr_recovery rt \<Longrightarrow>
     acceptable now env cap rt' r = acceptable now env cap rt r"
  by (simp add: acceptable_def cong: option.case_cong)

lemma is_allowed_mono: "now \<le> now' \<Longrightarrow> fst (is_allowed now b) \<Longrightarrow> fst (is_allowed now' b)"
  by (auto simp: is_allowed_def split: if_splits option.splits)

lemma acceptable_mono: "now \<le> now' \<Longrightarrow> acceptable now env cap rt r \<Longrightarrow> acceptable now' env cap rt r"
  using is_allowed_mono by (auto simp: acceptable_def circuit_ok_def split: option.splits)

lemma breaker_of_put: "breaker_of (put_breaker x b rc) y = (if y = x then b else breaker_of rc y)"
  by (simp add: breaker_of_def put_breaker_def split: option.split)

lemma breaker_of_get: "breaker_of (snd (get_breaker x rc)) y = breaker_of rc y"
  by (auto simp: get_breaker_def breaker_of_def Let_def split: option.splits)

lemma breaker_of_bus [simp]: "breaker_of (rc\<lparr>rc_bus := b\<rparr>) y = breaker_of rc y"
  by (simp add: breaker_of_def split: option.split)

lemma breaker_of_recover: "y \<noteq> x \<Longrightarrow> breaker_of (snd (recover now x rc)) y = breaker_of rc y"
proof -
  assume ne: "y \<noteq> x"
  obtain b rc1 where g: "get_breaker x rc = (b, rc1)" by fastforce
  obtain b2 rc2 where g2: "get_breaker x (record_failure now x rc) = (b2, rc2)" by fastforce
  have "breaker_of rc2 y = breaker_of (record_failure now x rc) y"
    using breaker_of_get[of x "record_failure now x rc" y] g2 by simp
  also have "\<dots> = breaker_of rc1 y"
    using ne by (simp add: record_failure_def g Let_def breaker_of_put)
  also have "\<dots> = breaker_of rc y" using breaker_of_get[of x rc y] g by simp
  finally show ?thesis by (simp add: recover_def g2)
qed

lemma acceptable_after_failure:
  assumes "unaliased (rr_registry rt)" and "rr_registry rt' = rr_registry rt" and "rr_health rt' = rr_health rt"
    and "rr_recovery rt' = map_option (\<lambda>rc. snd (recover t x rc)) (rr_recovery rt)"
    and "find_name r (rr_registry rt) \<noteq> Some x" and "acceptable now env cap rt r"
  shows "acceptable now env cap rt' r"
  using assms breaker_of_recover[of _ x t]
  by (cases "rr_recovery rt") (auto simp: acceptable_def circuit_ok_def split: option.splits)


subsection \<open>The loop\<close>

definition callable :: "runtime_env \<Rightarrow> string \<Rightarrow> registry \<Rightarrow> rid list \<Rightarrow> bool" where
  "callable env cap reg rs \<longleftrightarrow> distinct rs \<and> (\<forall>r \<in> set rs. r \<in> set (dict_values reg) \<and> ri_status (env r) = Status_STARTED \<and>
     (\<exists>cs. ri_capabilities (env r) = Some cs \<and> cap \<in> set cs))"

text \<open>The state of the loop after the runtimes \<open>rs\<close> failed.\<close>

definition loop_state where
  "loop_state env exec cap reg rs attempted initial err rt \<longleftrightarrow> rr_registry rt = reg \<and>
     callable env cap reg rs \<and> all_failed exec rs \<and> map (\<lambda>r. find_name r reg) rs = map Some attempted \<and>
     initial = (if rs = [] then None else find_name (hd rs) reg) \<and> err = last_failure exec rs"

text \<open>Where time does not run back, the runtimes that were not called have from now on the verdicts they had at the start.\<close>

definition verdicts_kept where
  "verdicts_kept clock env cap rt0 rs rt \<longleftrightarrow> (mono clock \<longrightarrow> (\<forall>r now. r \<notin> set rs \<and> clock (length rs) \<le> now \<longrightarrow>
     acceptable now env cap rt r = acceptable now env cap rt0 r))"

lemma loop_state_snoc:
  assumes "loop_state env exec cap reg rs attempted initial err rt"
    and "find_name r reg = Some name" and "name \<notin> set attempted"
    and "health_check env r" and "has_capability env cap r"
  shows "callable env cap reg (rs @ [r])"
    and "rr_registry rt' = reg \<Longrightarrow> exec (length rs) r = Inl e \<Longrightarrow>
      loop_state env exec cap reg (rs @ [r]) (attempted @ [name])
        (Some (case initial of None \<Rightarrow> name | Some i \<Rightarrow> i)) (Some e) rt'"
proof -
  have names: "map (\<lambda>r. find_name r reg) rs = map Some attempted" using assms(1) by (simp add: loop_state_def)
  have "Some name \<notin> set (map (\<lambda>r. find_name r reg) rs)" unfolding names using assms(3) by auto
  then have "r \<notin> set rs" using assms(2) by (metis image_eqI set_map)
  moreover have "r \<in> set (dict_values reg)" using assms(2) find_name_None_iff by (metis option.distinct(1))
  ultimately show c: "callable env cap reg (rs @ [r])"
    using assms(1,4,5) by (auto simp: loop_state_def callable_def health_check_def has_capability_def split: option.splits)
  show "loop_state env exec cap reg (rs @ [r]) (attempted @ [name])
        (Some (case initial of None \<Rightarrow> name | Some i \<Rightarrow> i)) (Some e) rt'"
    if "rr_registry rt' = reg" "exec (length rs) r = Inl e"
  proof -
    have "Some (case initial of None \<Rightarrow> name | Some i \<Rightarrow> i) = find_name (hd (rs @ [r])) reg"
      using assms(1,2) names by (cases rs) (auto simp: loop_state_def)
    then show ?thesis
      using that c assms(1,2) names by (simp add: loop_state_def all_failed_snoc last_failure_def)
  qed
qed

lemma acceptable_uncalled:
  assumes un: "unaliased (rr_registry rt)" and "rr_registry rt' = rr_registry rt" and "rr_health rt' = rr_health rt"
    and "rr_recovery rt' = map_option (\<lambda>rc. snd (recover t x rc)) (rr_recovery rt)"
    and "find_name r (rr_registry rt) \<noteq> Some x"
  shows "acceptable now env cap rt' r = acceptable now env cap rt r"
  using assms breaker_of_recover[of _ x t]
  by (cases "rr_recovery rt") (auto simp: acceptable_def circuit_ok_def split: option.splits)

lemma verdicts_kept_snoc:
  assumes un: "unaliased reg" and reg: "rr_registry rt = reg" and kept: "verdicts_kept clock env cap rt0 rs rt"
    and same: "same_verdicts (clock (length rs)) env rt rt1" and name: "find_name r reg = Some name"
    and rt5: "rr_registry rt5 = rr_registry rt1" "rr_health rt5 = rr_health rt1"
      "rr_recovery rt5 = map_option (\<lambda>rc. snd (recover (clock (length rs)) name rc)) (rr_recovery rt1)"
  shows "verdicts_kept clock env cap rt0 (rs @ [r]) rt5"
  unfolding verdicts_kept_def
proof (intro impI allI)
  fix x now assume m: "mono clock" and x: "x \<notin> set (rs @ [r]) \<and> clock (length (rs @ [r])) \<le> now"
  have reg1: "rr_registry rt1 = reg" using same reg by (simp add: same_verdicts_def)
  have le: "clock (length rs) \<le> now" using x monoD[OF m, of "length rs" "Suc (length rs)"] by simp
  have "find_name x (rr_registry rt1) \<noteq> Some name"
    using x name reg1 unaliased_find_name[OF un] by (metis in_set_conv_decomp option.inject)
  then have "acceptable now env cap rt5 x = acceptable now env cap rt1 x"
    using acceptable_uncalled[OF _ rt5] un reg1 by simp
  also have "\<dots> = acceptable now env cap rt x" by (rule same_verdicts_later[OF same le])
  also have "\<dots> = acceptable now env cap rt0 x" using kept m x le by (simp add: verdicts_kept_def)
  finally show "acceptable now env cap rt5 x = acceptable now env cap rt0 x" .
qed

text \<open>A preferred runtime that is not registered makes the selector raise.\<close>

definition preference_known :: "request \<Rightarrow> registry \<Rightarrow> bool" where
  "preference_known rq reg \<longleftrightarrow> (\<forall>p. rq_preferred rq = Some p \<longrightarrow> (\<exists>r. dict_get reg p = Some r))"

lemma preference_known_iff:
  "preference_known rq reg \<longleftrightarrow> rq_preferred rq = None \<or> (\<exists>p. rq_preferred rq = Some p \<and> p \<in> set (dict_keys reg))"
  unfolding preference_known_def
  by (cases "rq_preferred rq") (auto dest: get_Some_key in_keys_get simp del: set_map list.set_map)

text \<open>What holds of the calls besides their report: each was admitted when it was made, and none was left out.\<close>

definition admitted_calls where
  "admitted_calls clock env rq rt0 rs \<longleftrightarrow>
     (\<forall>i < length rs. acceptable (clock i) env (rq_capability rq) rt0 (rs ! i))"

definition none_left where
  "none_left clock env rq rt0 rs \<longleftrightarrow> (\<forall>r. r \<in> set (dict_values (rr_registry rt0)) \<and>
     selection_rules env (rq_capability rq) (rq_preference rq) r \<and>
     acceptable (clock (length rs)) env (rq_capability rq) rt0 r \<longrightarrow> r \<in> set rs)"

lemma admitted_snoc:
  "admitted_calls clock env rq rt0 rs \<Longrightarrow> acceptable (clock (length rs)) env (rq_capability rq) rt0 r \<Longrightarrow>
     admitted_calls clock env rq rt0 (rs @ [r])"
  by (auto simp: admitted_calls_def nth_append less_Suc_eq)

lemma loop_reports:
  assumes un: "unaliased reg" and reg0: "rr_registry rt0 = reg"
    and "loop_state env exec (rq_capability rq) reg rs attempted initial err rt"
    and "verdicts_kept clock env (rq_capability rq) rt0 rs rt"
    and "mono clock \<longrightarrow> admitted_calls clock env rq rt0 rs"
  shows "\<exists>ys. callable env (rq_capability rq) reg (rs @ ys) \<and> length ys \<le> left \<and>
    reports exec reg (rq_capability rq) (length rs + left) (rs @ ys)
      (fst (attempt_loop clock latency env exec rq left attempted initial reason err rt)) \<and>
    (mono clock \<longrightarrow> admitted_calls clock env rq rt0 (rs @ ys)) \<and>
    (case fst (attempt_loop clock latency env exec rq left attempted initial reason err rt) of
       Inl (NoneAvailable c n) \<Rightarrow> mono clock \<and> preference_known rq reg \<longrightarrow> none_left clock env rq rt0 (rs @ ys) | _ \<Rightarrow> True)"
  using assms(3-5)
proof (induction left arbitrary: rs attempted initial reason err rt)
  case 0
  then show ?case by (intro exI[of _ "[]"]) (simp add: loop_state_def reports_def)
next
  case (Suc left)
  let ?cap = "rq_capability rq" and ?now = "clock (length rs)"
  let ?res = "attempt_loop clock latency env exec rq (Suc left) attempted initial reason err rt"
  have reg: "rr_registry rt = reg" and cs: "callable env ?cap reg rs" and fs: "all_failed exec rs"
    and names: "map (\<lambda>r. find_name r reg) rs = map Some attempted"
    and init: "initial = (if rs = [] then None else find_name (hd rs) reg)"
    using Suc.prems(1) by (simp_all add: loop_state_def)
  have len: "length attempted = length rs" using map_eq_imp_length_eq[OF names] by simp
  obtain rO rt1 where res: "resolve_runtime (clock (length attempted)) env ?cap attempted (rq_preferred rq)
      (rq_preference rq) (rq_allow_fallback rq) rt = (rO, rt1)" by fastforce
  have same: "same_verdicts ?now env rt rt1" using resolve_same res len by (metis snd_conv)
  have called: "find_name r reg = Some name \<Longrightarrow> name \<in> set attempted \<Longrightarrow> r \<in> set rs" for r name
  proof -
    assume n: "find_name r reg = Some name" and "name \<in> set attempted"
    then have "Some name \<in> set (map (\<lambda>r. find_name r reg) rs)" unfolding names by simp
    then obtain r' where "r' \<in> set rs" "find_name r' reg = Some name" by auto
    then show "r \<in> set rs" using n unaliased_find_name[OF un] by (metis option.inject)
  qed
  show ?case
  proof (cases rO)
    case None
    have none: "none_left clock env rq rt0 rs" if m: "mono clock" and pk: "preference_known rq reg"
      unfolding none_left_def
    proof (intro allI impI, elim conjE)
      fix r assume r: "r \<in> set (dict_values (rr_registry rt0))"
        and sel: "selection_rules env ?cap (rq_preference rq) r" "acceptable ?now env ?cap rt0 r"
      obtain name where n: "find_name r reg = Some name" using r reg0 find_name_None_iff by fastforce
      show "r \<in> set rs"
      proof (rule ccontr)
        assume new: "r \<notin> set rs"
        then have "acceptable ?now env ?cap rt r"
          using Suc.prems(2) m sel(2) unfolding verdicts_kept_def by (blast intro: order_refl)
        then have "name \<in> set attempted"
          using resolve_complete[of rt "rq_preferred rq" "?now" env ?cap attempted "rq_preference rq" "rq_allow_fallback rq" r name]
            un reg res None len n sel pk by (simp add: preference_known_iff)
        then show False using called[OF n] new by blast
      qed
    qed
    then show ?thesis
      using loop_none[where clock = clock and attempted = attempted and exec = exec and latency = latency
            and left = left and initial = initial and reason = reason and err = err, OF res[unfolded None]] cs fs len Suc.prems(3)
      by (intro exI[of _ "[]"]) (simp add: reports_def del: attempt_loop.simps)
  next
    case (Some r)
    obtain name where name: "find_name r reg = Some name" "name \<notin> set attempted" and acc: "acceptable ?now env ?cap rt r"
      using resolve_sound[of rt ?now env ?cap attempted "rq_preferred rq" "rq_preference rq" "rq_allow_fallback rq" r]
        un reg res Some len by auto
    have nm: "name_of r rt1 = Some name" using same reg name(1) by (simp add: name_of_def same_verdicts_def)
    have able: "health_check env r" "has_capability env ?cap r" using acc by (simp_all add: acceptable_def)
    note snoc = loop_state_snoc[OF Suc.prems(1) name able]
    have "r \<notin> set rs"
    proof
      assume "r \<in> set rs"
      then have "find_name r reg \<in> set (map Some attempted)" unfolding names[symmetric] by simp
      then show False using name by auto
    qed
    then have "mono clock \<longrightarrow> acceptable ?now env ?cap rt0 r"
      using Suc.prems(2) acc unfolding verdicts_kept_def by (blast intro: order_refl)
    then have adm: "mono clock \<longrightarrow> admitted_calls clock env rq rt0 (rs @ [r])"
      using Suc.prems(3) admitted_snoc by blast
    show ?thesis
    proof (cases "exec (length attempted) r")
      case (Inr x)
      have first: "dict_get reg (case initial of None \<Rightarrow> name | Some i \<Rightarrow> i) = Some (hd (rs @ [r]))"
      proof (cases rs)
        case (Cons a as)
        then obtain z where z: "find_name a reg = Some z" using names by (cases attempted) auto
        then have "dict_get reg z = Some a" using unaliased_find_name[OF un] by blast
        then show ?thesis using Cons init z by simp
      qed (use init name(1) unaliased_find_name[OF un] in simp)
      have "dict_get reg name = Some r" using name(1) unaliased_find_name[OF un] by blast
      then show ?thesis
        using loop_success[where clock = clock and attempted = attempted and exec = exec and latency = latency
            and left = left and initial = initial and reason = reason and err = err, OF res[unfolded Some] nm Inr]
          snoc(1) fs Inr len adm first
        by (intro exI[of _ "[r]"]) (simp add: reports_def del: attempt_loop.simps)
    next
      case (Inl e)
      obtain reason' rt5 where rt5: "rr_registry rt5 = rr_registry rt1" "rr_health rt5 = rr_health rt1"
          "rr_recovery rt5 = map_option (\<lambda>rc. snd (recover ?now name rc)) (rr_recovery rt1)"
        and next_round: "?res = attempt_loop clock latency env exec rq left (attempted @ [name])
          (Some (case initial of None \<Rightarrow> name | Some i \<Rightarrow> i)) reason' (Some e) rt5"
        using loop_failure[where clock = clock and attempted = attempted and exec = exec and latency = latency
            and left = left and initial = initial and reason = reason and err = err, OF res[unfolded Some] nm Inl] len by auto
      have "rr_registry rt5 = reg" using rt5(1) same reg by (simp add: same_verdicts_def)
      from Suc.IH[OF snoc(2)[OF this Inl[unfolded len]] verdicts_kept_snoc[OF un reg Suc.prems(2) same name(1) rt5] adm,
          of reason']
      obtain ys where "callable env ?cap reg ((rs @ [r]) @ ys)" "length ys \<le> left"
        "reports exec reg ?cap (length (rs @ [r]) + left) ((rs @ [r]) @ ys) (fst ?res)"
        "mono clock \<longrightarrow> admitted_calls clock env rq rt0 ((rs @ [r]) @ ys)"
        "case fst ?res of Inl (NoneAvailable c n) \<Rightarrow> mono clock \<and> preference_known rq reg \<longrightarrow>
           none_left clock env rq rt0 ((rs @ [r]) @ ys) | _ \<Rightarrow> True"
        unfolding next_round by blast
      then show ?thesis
        unfolding append_assoc append_Cons append_Nil
        by (intro exI[of _ "r # ys"]) (simp del: attempt_loop.simps)
    qed
  qed
qed

lemma execute_reports:
  assumes "unaliased (rr_registry rt)"
  shows "\<exists>rs. callable env (rq_capability rq) (rr_registry rt) rs \<and> length rs \<le> Suc (rr_max_retries rt) \<and>
    reports exec (rr_registry rt) (rq_capability rq) (Suc (rr_max_retries rt)) rs
      (fst (execute_with_recovery clock latency env exec rq rt)) \<and>
    (mono clock \<longrightarrow> admitted_calls clock env rq rt rs) \<and>
    (case fst (execute_with_recovery clock latency env exec rq rt) of
       Inl (NoneAvailable c n) \<Rightarrow> mono clock \<and> preference_known rq (rr_registry rt) \<longrightarrow> none_left clock env rq rt rs | _ \<Rightarrow> True)"
proof -
  have "loop_state env exec (rq_capability rq) (rr_registry rt) [] [] None None rt"
    by (simp add: loop_state_def callable_def all_failed_def last_failure_def)
  from loop_reports[OF assms refl this, of clock "Suc (rr_max_retries rt)" latency None]
  show ?thesis unfolding execute_with_recovery_def append_Nil list.size add_0
    by (simp add: verdicts_kept_def admitted_calls_def del: attempt_loop.simps)
qed

lemma failover_finds:
  assumes un: "unaliased (rr_registry rt)" and m: "mono clock"
    and pref: "rq_preferred rq = None \<or> (\<exists>p. rq_preferred rq = Some p \<and> p \<in> set (dict_keys (rr_registry rt)))"
    and r: "r \<in> set (dict_values (rr_registry rt))" "selection_rules env (rq_capability rq) (rq_preference rq) r"
      "acceptable (clock 0) env (rq_capability rq) rt r"
    and works: "\<forall>i. \<exists>x. exec i r = Inr x"
    and enough: "length (rr_registry rt) \<le> Suc (rr_max_retries rt)"
  shows "\<exists>x tr. fst (execute_with_recovery clock latency env exec rq rt) = Inr (x, tr)"
proof -
  let ?reg = "rr_registry rt" and ?res = "fst (execute_with_recovery clock latency env exec rq rt)"
  from execute_reports[OF un, of env rq exec clock latency] obtain rs where
      rs: "callable env (rq_capability rq) ?reg rs"
        "reports exec ?reg (rq_capability rq) (Suc (rr_max_retries rt)) rs ?res"
      and all: "case ?res of Inl (NoneAvailable c n) \<Rightarrow> mono clock \<and> preference_known rq ?reg \<longrightarrow> none_left clock env rq rt rs | _ \<Rightarrow> True"
    by blast
  have not_failed: False if "all_failed exec rs" "r \<in> set rs"
    using that works by (metis all_failed_def in_set_conv_nth sum.distinct(1))
  have in_rs: "r \<in> set rs" if "none_left clock env rq rt rs"
    using that r acceptable_mono[OF monoD[OF m, of 0 "length rs"] r(3)] unfolding none_left_def by blast
  show ?thesis
  proof (cases ?res)
    case (Inl e)
    then show ?thesis
    proof (cases e)
      case (NoneAvailable c n)
      then have "all_failed exec rs" "none_left clock env rq rt rs"
        using Inl rs(2) all m pref preference_known_iff by (auto simp: reports_def)
      then show ?thesis using in_rs not_failed by blast
    next
      case (AllFailed c err)
      then have "length rs = Suc (rr_max_retries rt)" and f: "all_failed exec rs"
        using Inl rs(2) by (simp_all add: reports_def)
      moreover have "distinct rs" "set rs \<subseteq> set (dict_values ?reg)" "distinct (dict_values ?reg)"
        using rs(1) un by (auto simp: callable_def unaliased_def)
      moreover from this have "length rs \<le> length (dict_values ?reg)"
        by (metis card_mono distinct_card finite_set)
      ultimately have "set rs = set (dict_values ?reg)"
        using enough by (intro iffD1[OF distinct_same_set_length]) simp_all
      then show ?thesis using not_failed f r(1) by blast
    qed (use Inl rs(2) in \<open>simp add: reports_def\<close>)
  qed auto
qed

text \<open>
  C6. For a registry without aliases, one request calls distinct registered runtimes that are started
  and capable, at most one more than the retry limit. A result comes from the last one called, after
  all others failed, and the trace names the first and the last; an error means that all calls failed
  and either the limit is used up, with the last error as cause, or no runtime was available. Where the clock does
  not run back, every runtime called was admitted at that moment by the monitors as they stood at the start (at most
  three failures and at most every second call failed, breaker not open or open for its timeout); and when none was
  available, every registered runtime that is admitted at that moment and suits the preference has been called,
  unless the request prefers by name a runtime that is not registered.
\<close>

theorem execute_with_recovery_correct:
  assumes "unaliased (rr_registry rt)"
  shows "\<exists>rs. callable env (rq_capability rq) (rr_registry rt) rs \<and> length rs \<le> Suc (rr_max_retries rt) \<and>
    reports exec (rr_registry rt) (rq_capability rq) (Suc (rr_max_retries rt)) rs
      (fst (execute_with_recovery clock latency env exec rq rt)) \<and>
    (mono clock \<longrightarrow>
      (\<forall>i < length rs. may_serve (clock i) env (rq_capability rq) rt (rs ! i)) \<and>
      (\<forall>c n. fst (execute_with_recovery clock latency env exec rq rt) = Inl (NoneAvailable c n) \<and>
         preference_known rq (rr_registry rt) \<longrightarrow>
         (\<forall>r. r \<in> set (dict_values (rr_registry rt)) \<and> may_serve (clock n) env (rq_capability rq) rt r \<and>
            suits env (rq_preference rq) r \<longrightarrow> r \<in> set rs)))"
proof -
  let ?res = "fst (execute_with_recovery clock latency env exec rq rt)"
  from execute_reports[OF assms, of env rq exec clock latency] obtain rs where
      rs: "callable env (rq_capability rq) (rr_registry rt) rs" "length rs \<le> Suc (rr_max_retries rt)"
        "reports exec (rr_registry rt) (rq_capability rq) (Suc (rr_max_retries rt)) rs ?res"
      and adm: "mono clock \<longrightarrow> admitted_calls clock env rq rt rs"
      and none: "case ?res of Inl (NoneAvailable c n) \<Rightarrow> mono clock \<and> preference_known rq (rr_registry rt) \<longrightarrow>
         none_left clock env rq rt rs | _ \<Rightarrow> True"
    by blast
  have "rs ! i \<in> set (dict_values (rr_registry rt))" if "i < length rs" for i using rs(1) that by (simp add: callable_def)
  then have a: "mono clock \<longrightarrow> (\<forall>i < length rs. may_serve (clock i) env (rq_capability rq) rt (rs ! i))"
    using adm acceptable_iff[OF assms] by (simp add: admitted_calls_def)
  have b: "r \<in> set rs" if "mono clock" "?res = Inl (NoneAvailable c n)" "preference_known rq (rr_registry rt)"
      "r \<in> set (dict_values (rr_registry rt))" "may_serve (clock n) env (rq_capability rq) rt r" "suits env (rq_preference rq) r"
    for c n r
  proof -
    have "n = length rs" "none_left clock env rq rt rs" using that(1-3) rs(3) none by (simp_all add: reports_def)
    moreover have "selection_rules env (rq_capability rq) (rq_preference rq) r"
      using that(5,6) by (simp add: selection_iff may_serve_def)
    ultimately show ?thesis using that(4,5) acceptable_iff[OF assms that(4)] unfolding none_left_def by blast
  qed
  show ?thesis using rs a b by blast
qed

definition two_env :: runtime_env where
  "two_env r = \<lparr>ri_name = (if r = 0 then ''cloud'' else ''local''), ri_capabilities = Some [''chat''],
     ri_status = Status_STARTED\<rparr>"

definition two_router :: router where
  "two_router = new_router [(''a'', 0), (''b'', 1)] (Some []) (Some (new_recovery 1 30 None)) None 2"

definition chat_request :: request where
  "chat_request = \<lparr>rq_capability = ''chat'', rq_preferred = None, rq_preference = None, rq_allow_fallback = True\<rparr>"

text \<open>The runtime \<open>0\<close> always fails, every other one answers.\<close>

definition zero_fails :: "nat \<Rightarrow> rid \<Rightarrow> string + nat" where
  "zero_fails i r = (if r = 0 then Inl ''down'' else Inr r)"

theorem execute_with_recovery_correct_witness:
  "\<exists>rs. length rs \<le> 3 \<and> reports zero_fails (rr_registry two_router) ''chat'' 3 rs
     (fst (execute_with_recovery of_nat (\<lambda>_. 1) two_env zero_fails chat_request two_router)) \<and>
     (\<forall>i < length rs. may_serve (of_nat i) two_env ''chat'' two_router (rs ! i))"
proof -
  have un: "unaliased (rr_registry two_router)" by (simp add: unaliased_def two_router_def new_router_def)
  have m: "mono (of_nat :: nat \<Rightarrow> time)" by (simp add: mono_def)
  from execute_with_recovery_correct[OF un, of two_env chat_request zero_fails of_nat "\<lambda>_. 1"] m
  show ?thesis by (auto simp: two_router_def new_router_def chat_request_def numeral_3_eq_3)
qed

text \<open>
  Failover does not overlook a runtime: with at most one more registered runtime than the retry
  limit, a monotonic clock and no unregistered runtime asked for by name, the request succeeds as soon as one
  compatible runtime is admitted by the monitors at the start and answers when it is called.
\<close>

lemma failover_succeeds:
  assumes "unaliased (rr_registry rt)" and "mono clock"
    and "rq_preferred rq = None \<or> (\<exists>p. rq_preferred rq = Some p \<and> p \<in> set (dict_keys (rr_registry rt)))"
    and "r \<in> set (dict_values (rr_registry rt))" and "selection_rules env (rq_capability rq) (rq_preference rq) r"
    and "acceptable (clock 0) env (rq_capability rq) rt r"
    and "\<forall>i. \<exists>x. exec i r = Inr x" and "length (rr_registry rt) \<le> Suc (rr_max_retries rt)"
  shows "\<exists>x tr. fst (execute_with_recovery clock latency env exec rq rt) = Inr (x, tr)"
  using assms by (rule failover_finds)

lemma failover_succeeds_example:
  "\<exists>x tr. fst (execute_with_recovery of_nat (\<lambda>_. 1) two_env zero_fails chat_request two_router) = Inr (x, tr)"
proof -
  have acc: "acceptable (of_nat 0) two_env (rq_capability chat_request) two_router 1"
    by (simp add: acceptable_def two_env_def two_router_def new_router_def chat_request_def health_check_def
        has_capability_def health_ok_def circuit_ok_def breaker_of_def new_recovery_def new_breaker_def is_allowed_def
        error_prone_def failure_rate_def new_metrics_def dict_get_default_def)
  have sel: "selection_rules two_env (rq_capability chat_request) (rq_preference chat_request) 1"
    by (simp add: selection_rules_def two_env_def chat_request_def health_check_def has_capability_def)
  show ?thesis
    by (rule failover_succeeds[of two_router of_nat chat_request 1, OF _ _ _ _ sel acc])
      (simp_all add: unaliased_def two_router_def new_router_def chat_request_def zero_fails_def mono_def)
qed

subsection \<open>Two gaps of the strategy\<close>

text \<open>
  Without an active and a fallback runtime, asking for an unregistered runtime by name makes the
  resolution fail whatever else is registered, because the selector raises on the unknown name.
\<close>

lemma unregistered_preference_blocks:
  assumes "rr_active rt = None" and "rr_fallback rt = None" and "p \<notin> set (dict_keys (rr_registry rt))"
  shows "fst (resolve_runtime now env cap exclude (Some p) preference allow_fallback rt) = None"
proof -
  have "dict_get (rr_registry rt) p = None" using assms(3) get_None_iff by metis
  then show ?thesis
    unfolding resolve_first trial_order_def
    using assms(1,2) by (simp add: try_get_fallback_def select_runtime_def registry_get_def)
qed

lemma unregistered_preference_example:
  "fst (resolve_runtime 0 two_env ''chat'' [] (Some ''z'') None True two_router) = None \<and>
   acceptable 0 two_env ''chat'' two_router 1"
  using unregistered_preference_blocks[of two_router "''z''" 0 two_env "''chat''" "[]" None True]
  by (simp add: acceptable_def two_env_def two_router_def new_router_def health_check_def
      has_capability_def health_ok_def circuit_ok_def breaker_of_def new_recovery_def new_breaker_def is_allowed_def
      error_prone_def failure_rate_def new_metrics_def dict_get_default_def)

definition alias_router :: router where
  "alias_router = \<lparr>rr_registry = [(''b'', 0), (''a'', 0)], rr_active = Some 0, rr_fallback = None, rr_health = None,
     rr_recovery = None, rr_bus = Some (new_event_bus 50), rr_max_retries = 2\<rparr>"

text \<open>
  A runtime registered under two names and made active is called again after it failed, until the
  retry limit is used up: the active name is looked up in sorted order, the name put on the list of
  attempted runtimes in registration order.
\<close>

lemma aliased_runtime_retried:
  "map ev_runtime (bus_events (Some Event_FAILED) None (the (rr_bus
     (snd (execute_with_recovery (\<lambda>_. 0) (\<lambda>_. 1) two_env zero_fails chat_request alias_router))))) =
   [''b'', ''b'', ''b'']"
  by code_simp

end
