(* ===== verification/MissionGraph.thy ===== *)
theory MissionGraph
  imports ExecutionGraph
begin

text \<open>
  The mission DAG of the production mission engine: the data of \<^verbatim>\<open>backend/mission/mission_models.py\<close>,
  the graph of \<^verbatim>\<open>mission_graph.py\<close> and the resolver of \<^verbatim>\<open>dependency_resolver.py\<close>. A mission is one
  mutable object in the source; here an operation returns the mission after it. Nodes are kept in a list,
  as in the source, and a node is looked up by taking the first one with the identifier. The table of
  missions that \<^verbatim>\<open>MissionGraph\<close> fills is never read and is left out; texts of issues are datatype values.
\<close>

subsection \<open>Models\<close>

datatype mission_status = MS_CREATED | MS_VALIDATED | MS_READY | MS_RUNNING | MS_PAUSED | MS_COMPLETED | MS_FAILED
  | MS_CANCELLED

datatype mission_priority = Priority_CRITICAL | Priority_HIGH | Priority_NORMAL | Priority_BACKGROUND

datatype mission_type = Mission_DEVELOPMENT | Mission_RESEARCH | Mission_ANALYSIS | Mission_DEPLOYMENT
  | Mission_MAINTENANCE | Mission_CUSTOM

datatype dag_status = Dag_PENDING | Dag_READY | Dag_RUNNING | Dag_COMPLETED | Dag_FAILED | Dag_BLOCKED | Dag_SKIPPED

record mission_edge =
  me_id :: string
  me_source :: string
  me_target :: string
  me_type :: string

record mission_node =
  mn_id :: string
  mn_mission :: string
  mn_title :: string
  mn_description :: string
  mn_type :: string
  mn_priority :: mission_priority
  mn_status :: dag_status
  mn_agent :: string
  mn_runtime :: string
  mn_profile :: string
  mn_skills :: "string list"
  mn_resources :: metadata
  mn_duration :: rat
  mn_depends :: "string list"
  mn_criteria :: "string list"
  mn_outputs :: "string list"
  mn_started :: "time option"
  mn_completed :: "time option"
  mn_actual :: rat
  mn_summary :: string

record dag_context =
  dc_project :: string
  dc_user :: string
  dc_repository :: string
  dc_branch :: string
  dc_local_path :: string
  dc_tags :: "string list"
  dc_metadata :: metadata

record mission =
  ms_id :: string
  ms_title :: string
  ms_description :: string
  ms_objective :: string
  ms_type :: mission_type
  ms_priority :: mission_priority
  ms_status :: mission_status
  ms_context :: dag_context
  ms_nodes :: "mission_node list"
  ms_edges :: "mission_edge list"
  ms_metadata :: metadata
  ms_max_duration :: rat
  ms_created :: time
  ms_updated :: "time option"
  ms_started :: "time option"
  ms_completed :: "time option"

definition nodes_with :: "dag_status \<Rightarrow> mission \<Rightarrow> mission_node list" where
  "nodes_with st m = filter (\<lambda>n. mn_status n = st) (ms_nodes m)"

definition total_nodes :: "mission \<Rightarrow> nat" where
  "total_nodes m = length (ms_nodes m)"

definition completed_nodes :: "mission \<Rightarrow> nat" where
  "completed_nodes m = length (nodes_with Dag_COMPLETED m)"

definition failed_nodes :: "mission \<Rightarrow> nat" where
  "failed_nodes m = length (nodes_with Dag_FAILED m)"

text \<open>The percentage before it is rounded to one decimal.\<close>

definition progress_pct :: "mission \<Rightarrow> rat" where
  "progress_pct m = (if ms_nodes m = [] then 0 else of_nat (completed_nodes m) / of_nat (total_nodes m) * 100)"

record mission_report =
  mr_id :: string
  mr_title :: string
  mr_objective :: string
  mr_status :: mission_status
  mr_success :: bool
  mr_duration :: rat
  mr_total :: nat
  mr_completed :: nat
  mr_failed :: nat
  mr_runtimes :: "string list"
  mr_outputs :: "(string \<times> nat \<times> string) list"
  mr_errors :: "string list"
  mr_method :: pyval
  mr_generic :: bool
  mr_verification :: "pyval option"

text \<open>\<^verbatim>\<open>now\<close> is the clock reading used when the mission has no end yet; the summary text is left out.\<close>

definition mission_duration_ms :: "time \<Rightarrow> mission \<Rightarrow> rat" where
  "mission_duration_ms now m = (case ms_started m of None \<Rightarrow> 0
     | Some t \<Rightarrow> ((case ms_completed m of None \<Rightarrow> now | Some e \<Rightarrow> e) - t) * 1000)"

definition build_mission_report :: "time \<Rightarrow> mission \<Rightarrow> mission_report" where
  "build_mission_report now m = (let completed = nodes_with Dag_COMPLETED m; failed = nodes_with Dag_FAILED m;
       decomposition = (case dict_get (ms_metadata m) ''decomposition_method'' of None \<Rightarrow> PStr ''llm'' | Some v \<Rightarrow> v)
     in \<lparr>mr_id = ms_id m, mr_title = ms_title m, mr_objective = ms_objective m, mr_status = ms_status m,
         mr_success = (ms_status m = MS_COMPLETED), mr_duration = mission_duration_ms now m,
         mr_total = total_nodes m, mr_completed = length completed, mr_failed = length failed,
         mr_runtimes = sort (remdups (filter (\<lambda>r. r \<noteq> []) (map mn_runtime completed))),
         mr_outputs = map (\<lambda>n. (mn_title n, length (mn_summary n), mn_summary n)) completed,
         mr_errors = filter (\<lambda>s. s \<noteq> []) (map mn_summary failed), mr_method = decomposition,
         mr_generic = (decomposition = PStr ''generic_fallback''),
         mr_verification = (case dict_get (ms_metadata m) ''verification'' of
            None \<Rightarrow> None | Some PNone \<Rightarrow> None | Some v \<Rightarrow> Some v)\<rparr>)"

subsection \<open>Graph\<close>

datatype dag_issue = SourceUnknown string | TargetUnknown string | HasCycle

abbreviation dag_arc :: "mission_edge \<Rightarrow> string \<times> string" where
  "dag_arc e \<equiv> (me_source e, me_target e)"

abbreviation dag_arcs :: "mission \<Rightarrow> (string \<times> string) list" where
  "dag_arcs m \<equiv> map dag_arc (ms_edges m)"

abbreviation dag_ids :: "mission \<Rightarrow> string list" where
  "dag_ids m \<equiv> map mn_id (ms_nodes m)"

definition incoming :: "mission_edge list \<Rightarrow> string \<Rightarrow> string list" where
  "incoming edges nid = map me_source (filter (\<lambda>e. me_target e = nid) edges)"

definition link_nodes :: "mission_node list \<Rightarrow> mission_edge list \<Rightarrow> mission \<Rightarrow> mission" where
  "link_nodes nodes edges m =
     m\<lparr>ms_nodes := map (\<lambda>n. n\<lparr>mn_depends := incoming edges (mn_id n)\<rparr>) nodes, ms_edges := edges\<rparr>"

definition append_node :: "mission_node \<Rightarrow> mission \<Rightarrow> mission" where
  "append_node n m = m\<lparr>ms_nodes := ms_nodes m @ [n]\<rparr>"

definition find_dag_node :: "string \<Rightarrow> mission \<Rightarrow> mission_node option" where
  "find_dag_node nid m = List.find (\<lambda>n. mn_id n = nid) (ms_nodes m)"

text \<open>An assignment to an attribute of the node that the lookup returns.\<close>

fun update_first :: "('a \<Rightarrow> bool) \<Rightarrow> ('a \<Rightarrow> 'a) \<Rightarrow> 'a list \<Rightarrow> 'a list" where
  "update_first P f [] = []"
| "update_first P f (x # xs) = (if P x then f x # xs else x # update_first P f xs)"

definition update_node :: "string \<Rightarrow> (mission_node \<Rightarrow> mission_node) \<Rightarrow> mission \<Rightarrow> mission" where
  "update_node nid f m = m\<lparr>ms_nodes := update_first (\<lambda>n. mn_id n = nid) f (ms_nodes m)\<rparr>"

definition link_edge :: "string \<Rightarrow> string \<Rightarrow> string \<Rightarrow> mission \<Rightarrow> mission \<times> mission_edge option" where
  "link_edge eid s t m = (case (find_dag_node s m, find_dag_node t m) of
     (Some _, Some _) \<Rightarrow>
       (let e = \<lparr>me_id = eid, me_source = s, me_target = t, me_type = ''depends_on''\<rparr>
        in (update_node t (\<lambda>n. n\<lparr>mn_depends := mn_depends n @ [s]\<rparr>) (m\<lparr>ms_edges := ms_edges m @ [e]\<rparr>), Some e))
   | _ \<Rightarrow> (m, None))"

text \<open>The dictionaries of the two Kahn loops, filled from the edges first and from the nodes last.\<close>

definition dag_adjacency :: "mission \<Rightarrow> (string, string list) dict" where
  "dag_adjacency m = fold (\<lambda>e A. dict_set (me_source e) (dict_get_default A (me_source e) [] @ [me_target e]) A) (ms_edges m) []"

definition count_degree :: "string \<Rightarrow> string degrees \<Rightarrow> string degrees" where
  "count_degree v D = dict_set v (degree D v + 1) D"

definition set_default :: "string \<Rightarrow> string degrees \<Rightarrow> string degrees" where
  "set_default v D = (if v \<in> set (dict_keys D) then D else dict_set v 0 D)"

definition dag_has_cycles :: "mission \<Rightarrow> bool" where
  "dag_has_cycles m =
     (let A = dag_adjacency m;
          D = fold set_default (dag_ids m) (fold count_degree (concat (dict_values A)) []);
          visited = snd (kahn_loop (\<lambda>u. dict_get_default A u []) (\<lambda>_ n. n + 1) (\<lambda>_ _ n. n) D (zero_degree D) (0 :: nat))
      in visited \<noteq> length (ms_nodes m))"

definition dag_order :: "mission \<Rightarrow> string list" where
  "dag_order m =
     (let A = dag_adjacency m;
          D = fold set_default (dag_ids m) (fold count_degree (map me_target (ms_edges m)) [])
      in snd (kahn_loop (\<lambda>u. dict_get_default A u []) (\<lambda>u us. us @ [u]) (\<lambda>_ _ us. us) D (zero_degree D) []))"

fun edge_issues :: "string list \<Rightarrow> mission_edge list \<Rightarrow> dag_issue list" where
  "edge_issues ids [] = []"
| "edge_issues ids (e # es) =
     (if me_source e \<notin> set ids then [SourceUnknown (me_source e)] else []) @
     (if me_target e \<notin> set ids then [TargetUnknown (me_target e)] else []) @ edge_issues ids es"

definition validate_dag :: "mission \<Rightarrow> mission \<times> dag_issue list" where
  "validate_dag m =
     (let issues = edge_issues (dag_ids m) (ms_edges m) @ (if dag_has_cycles m then [HasCycle] else [])
      in (if issues = [] then m\<lparr>ms_status := MS_VALIDATED\<rparr> else m, issues))"

subsection \<open>Resolver\<close>

definition dependencies_satisfied :: "mission \<Rightarrow> mission_node \<Rightarrow> bool" where
  "dependencies_satisfied m n \<longleftrightarrow> list_all (\<lambda>d. case find_dag_node d m of
     None \<Rightarrow> False | Some x \<Rightarrow> mn_status x = Dag_COMPLETED) (mn_depends n)"

definition is_ready :: "mission \<Rightarrow> mission_node \<Rightarrow> bool" where
  "is_ready m n \<longleftrightarrow> mn_status n \<notin> {Dag_COMPLETED, Dag_FAILED, Dag_RUNNING, Dag_BLOCKED} \<and> dependencies_satisfied m n"

definition ready_nodes :: "mission \<Rightarrow> mission_node list" where
  "ready_nodes m = filter (is_ready m) (ms_nodes m)"

definition blocked_nodes :: "mission \<Rightarrow> mission_node list" where
  "blocked_nodes m = filter (\<lambda>n. mn_status n \<notin> {Dag_COMPLETED, Dag_FAILED, Dag_BLOCKED} \<and>
     \<not> dependencies_satisfied m n) (ms_nodes m)"

text \<open>
  The level-wise traversal. A subscript by an unknown identifier raises \<^verbatim>\<open>KeyError\<close>, which is \<open>None\<close>
  here. Each round consumes a non-empty level, so the measure of the Kahn loop decreases.
\<close>

fun count_arcs :: "mission_edge list \<Rightarrow> (string, string list) dict \<Rightarrow> string degrees
    \<Rightarrow> ((string, string list) dict \<times> string degrees) option" where
  "count_arcs [] A D = Some (A, D)"
| "count_arcs (e # es) A D = (case dict_get A (me_source e) of
     None \<Rightarrow> None
   | Some ts \<Rightarrow> (case dict_get D (me_target e) of
       None \<Rightarrow> None
     | Some k \<Rightarrow> count_arcs es (dict_set (me_source e) (ts @ [me_target e]) A) (dict_set (me_target e) (k + 1) D)))"

lemma level_measure: "Q \<noteq> [] \<Longrightarrow>
    (case relax vs D [] of (D', Q') \<Rightarrow> length Q' + card (positive D')) < length Q + card (positive D)"
  using relax_measure[of vs D "[]"] by (cases Q; cases "relax vs D []") (auto intro: le_imp_less_Suc trans_le_add2)

function level_loop :: "('a::linorder \<Rightarrow> 'a list) \<Rightarrow> 'a degrees \<Rightarrow> 'a list \<Rightarrow> 'a list list" where
  "level_loop adj D current = (if current = [] then []
     else (case relax (concat (map adj (sort current))) D [] of
       (D', following) \<Rightarrow> sort current # level_loop adj D' following))"
  by pat_completeness auto
termination
  by (relation "measure (\<lambda>(adj, D, Q). length Q + card (positive D))") (simp, simp add: level_measure)

declare level_loop.simps [simp del]

definition parallel_groups :: "mission \<Rightarrow> string list list option" where
  "parallel_groups m = map_option (\<lambda>(A, D). level_loop (\<lambda>u. dict_get_default A u []) D (zero_degree D))
     (count_arcs (ms_edges m) (fold (\<lambda>v A. dict_set v [] A) (dag_ids m) []) (fold (\<lambda>v D. dict_set v 0 D) (dag_ids m) []))"

definition mark_completed :: "time \<Rightarrow> string \<Rightarrow> mission \<Rightarrow> mission \<times> bool" where
  "mark_completed now nid m = (case find_dag_node nid m of
     None \<Rightarrow> (m, False)
   | Some _ \<Rightarrow> (update_node nid (\<lambda>n. n\<lparr>mn_status := Dag_COMPLETED, mn_completed := Some now\<rparr>) m, True))"

definition block_node :: "string \<Rightarrow> mission \<Rightarrow> mission" where
  "block_node nid m = update_node nid (\<lambda>n. if mn_status n = Dag_PENDING then n\<lparr>mn_status := Dag_BLOCKED\<rparr> else n) m"

definition dependents :: "string \<Rightarrow> mission \<Rightarrow> string list" where
  "dependents nid m = map me_target (filter (\<lambda>e. me_source e = nid) (ms_edges m))"

definition mark_failed :: "string \<Rightarrow> mission \<Rightarrow> mission \<times> bool" where
  "mark_failed nid m = (case find_dag_node nid m of
     None \<Rightarrow> (m, False)
   | Some _ \<Rightarrow> (fold block_node (dependents nid m) (update_node nid (\<lambda>n. n\<lparr>mn_status := Dag_FAILED\<rparr>) m), True))"

record dag_progress =
  dp_total :: nat
  dp_completed :: nat
  dp_failed :: nat
  dp_ready :: nat
  dp_running :: nat
  dp_blocked :: nat
  dp_skipped :: nat
  dp_pending :: int

definition get_dag_progress :: "mission \<Rightarrow> dag_progress" where
  "get_dag_progress m = (let count = (\<lambda>st. length (nodes_with st m)) in
     \<lparr>dp_total = total_nodes m, dp_completed = count Dag_COMPLETED, dp_failed = count Dag_FAILED,
      dp_ready = length (ready_nodes m), dp_running = count Dag_RUNNING, dp_blocked = length (blocked_nodes m),
      dp_skipped = count Dag_SKIPPED,
      dp_pending = int (total_nodes m) - int (count Dag_COMPLETED) - int (count Dag_FAILED) - int (count Dag_RUNNING) -
        int (count Dag_SKIPPED)\<rparr>)"

end
