(* ===== verification/MissionVerification.thy ===== *)
theory MissionVerification
  imports MissionGraph
begin

text \<open>
  The verification of a mission against its workspace: snapshots, their difference and the verdict of
  \<^verbatim>\<open>backend/mission/verification.py\<close>, the manifest of \<^verbatim>\<open>manifeste.py\<close>, and the retry decision of
  \<^verbatim>\<open>retry_policy.py\<close>. The file system and the analysers of the delivered code are the fields of a record
  of instruments, each a function of the arguments the source passes it. Texts shown to a reader are
  datatype values, or go through a rendering function that is a parameter.
\<close>

subsection \<open>Truth of a payload value\<close>

fun truthy :: "pyval \<Rightarrow> bool" where
  "truthy PNone = False"
| "truthy (PBool b) = b"
| "truthy (PInt i) = (i \<noteq> 0)"
| "truthy (PFloat r) = (r \<noteq> 0)"
| "truthy (PStr s) = (s \<noteq> [])"
| "truthy (PList xs) = (xs \<noteq> [])"
| "truthy (PDict d) = (d \<noteq> [])"

definition truthy_at :: "metadata \<Rightarrow> string \<Rightarrow> bool" where
  "truthy_at d k = (case dict_get d k of None \<Rightarrow> False | Some v \<Rightarrow> truthy v)"

text \<open>\<^verbatim>\<open>d.get(k) or {}\<close> before another lookup: a true value that is not a dictionary raises, which is \<open>None\<close>.\<close>

definition sub_dict :: "metadata \<Rightarrow> string \<Rightarrow> metadata option" where
  "sub_dict d k = (case dict_get d k of None \<Rightarrow> Some []
     | Some v \<Rightarrow> (if \<not> truthy v then Some [] else (case v of PDict m \<Rightarrow> Some m | _ \<Rightarrow> None)))"

subsection \<open>Snapshots\<close>

record workspace_snapshot =
  wp_root :: string
  wp_entries :: "(string, string) dict"
  wp_readable :: bool
  wp_unreadable :: "string list"

record workspace_diff =
  wd_created :: "string list"
  wd_modified :: "string list"
  wd_deleted :: "string list"
  wd_unknown :: "string list"

definition no_diff :: workspace_diff where
  "no_diff = \<lparr>wd_created = [], wd_modified = [], wd_deleted = [], wd_unknown = []\<rparr>"

definition ignored_dirs :: "string list" where
  "ignored_dirs = [''.git'', ''__pycache__'', ''.venv'', ''venv'', ''node_modules'', ''.pytest_cache'',
     ''.mypy_cache'', ''.ruff_cache'', ''.next'', ''dist'', ''build'', ''.idea'', ''.vscode'', ''.hermes'']"

text \<open>What the directory walk yields for one path; the walk may stop early on an error of the system.\<close>

record walked =
  wk_parts :: "string list"
  wk_file :: bool
  wk_relative :: "string option"
  wk_print :: "string option"

fun scan :: "walked list \<Rightarrow> (string, string) dict \<Rightarrow> string list \<Rightarrow> (string, string) dict \<times> string list" where
  "scan [] es us = (es, us)"
| "scan (w # ws) es us =
     (if list_ex (\<lambda>p. p \<in> set ignored_dirs) (wk_parts w) then scan ws es us
      else if \<not> wk_file w then scan ws es us
      else (case wk_relative w of
          None \<Rightarrow> scan ws es us
        | Some r \<Rightarrow> (case wk_print w of
            None \<Rightarrow> scan ws es (us @ [r])
          | Some f \<Rightarrow> scan ws (dict_set r f es) us)))"

definition take_snapshot :: "string \<Rightarrow> bool \<Rightarrow> walked list \<Rightarrow> bool \<Rightarrow> workspace_snapshot" where
  "take_snapshot base is_dir ws finished =
     (if \<not> is_dir then \<lparr>wp_root = base, wp_entries = [], wp_readable = False, wp_unreadable = []\<rparr>
      else (case scan ws [] [] of (es, us) \<Rightarrow>
        \<lparr>wp_root = base, wp_entries = es, wp_readable = finished, wp_unreadable = sort us\<rparr>))"

definition workspace_changes :: "workspace_snapshot \<Rightarrow> workspace_snapshot \<Rightarrow> workspace_diff" where
  "workspace_changes before after =
     (let unknown = set (wp_unreadable before) \<union> set (wp_unreadable after);
          b = set (dict_keys (wp_entries before)) - unknown;
          a = set (dict_keys (wp_entries after)) - unknown
      in \<lparr>wd_created = sorted_list_of_set (a - b),
          wd_modified = sorted_list_of_set (Set.filter (\<lambda>k. dict_get (wp_entries before) k \<noteq> dict_get (wp_entries after) k) (b \<inter> a)),
          wd_deleted = sorted_list_of_set (b - a),
          wd_unknown = sorted_list_of_set unknown\<rparr>)"

definition touched_anything :: "workspace_diff \<Rightarrow> bool" where
  "touched_anything d \<longleftrightarrow> wd_created d \<noteq> [] \<or> wd_modified d \<noteq> [] \<or> wd_deleted d \<noteq> []"

text \<open>The summary: a label, the count, the first five paths and the number of the others.\<close>

datatype diff_summary = NothingChanged | NothingEstablished "(string \<times> nat \<times> string list \<times> nat) list"
  | Changed "(string \<times> nat \<times> string list \<times> nat) list"

definition diff_summary :: "workspace_diff \<Rightarrow> diff_summary" where
  "diff_summary d =
     (let part = (\<lambda>(label, xs). (label, length xs, take 5 (sort xs), length xs - 5));
          parts = map part (filter (\<lambda>(label, xs). xs \<noteq> []) [(''created'', wd_created d), (''modified'', wd_modified d),
            (''deleted'', wd_deleted d), (''unreadable'', wd_unknown d)])
      in if parts = [] then NothingChanged else if \<not> touched_anything d then NothingEstablished parts else Changed parts)"

subsection \<open>Manifest\<close>

definition add_absent :: "'a \<Rightarrow> 'a list \<Rightarrow> 'a list" where
  "add_absent x xs = (if x \<in> set xs then xs else xs @ [x])"

definition announced :: "mission_node list \<Rightarrow> string list" where
  "announced ns = fold add_absent (concat (map mn_outputs ns)) []"

definition manifest_verdict :: "(string \<Rightarrow> bool) \<Rightarrow> (string \<Rightarrow> string \<Rightarrow> bool) \<Rightarrow> mission \<Rightarrow> string \<Rightarrow> metadata option" where
  "manifest_verdict is_root exists_in m ws =
     (if ws = [] \<or> \<not> is_root ws \<or> announced (ms_nodes m) = [] then None
      else (let expected = announced (ms_nodes m); missing = filter (\<lambda>p. \<not> exists_in ws p) expected
        in Some [(''declares'', PInt (int (length expected))), (''manquants'', PList (map PStr (take 12 missing))),
                 (''nombre_manquants'', PInt (int (length missing))), (''tenu'', PBool (missing = []))]))"

definition manifest_denies :: "metadata option \<Rightarrow> bool" where
  "manifest_denies v = (case v of None \<Rightarrow> False | Some d \<Rightarrow> d \<noteq> [] \<and> truthy_at d ''manquants'')"

definition imports_deny :: "metadata option \<Rightarrow> bool" where
  "imports_deny v = (case v of None \<Rightarrow> False | Some d \<Rightarrow> d \<noteq> [] \<and> truthy_at d ''fatals'')"

subsection \<open>Verdict\<close>

datatype verdict = Verdict_REUSSI | Verdict_ECHOUE | Verdict_INDISPONIBLE

fun verdict_value :: "verdict \<Rightarrow> string" where
  "verdict_value Verdict_REUSSI = ''reussi''"
| "verdict_value Verdict_ECHOUE = ''echoue''"
| "verdict_value Verdict_INDISPONIBLE = ''indisponible''"

record mission_verification =
  mv_mission :: string
  mv_reported :: bool
  mv_workspace :: "string option"
  mv_changes :: workspace_diff
  mv_measured :: bool
  mv_tests :: "metadata option"
  mv_manifest :: "metadata option"
  mv_imports :: "metadata option"
  mv_escaping :: "metadata option"
  mv_fake :: "metadata option"
  mv_tautology :: "metadata option"
  mv_empty :: "metadata option"
  mv_sql :: "metadata option"

definition tests_passed :: "metadata option \<Rightarrow> bool \<Rightarrow> bool" where
  "tests_passed t b = (case t of None \<Rightarrow> False
     | Some d \<Rightarrow> truthy_at d ''ran'' \<and> dict_get d ''passed'' = Some (PBool b))"

definition tests_fail :: "mission_verification \<Rightarrow> bool" where
  "tests_fail v = tests_passed (mv_tests v) False"

definition manifest_misses :: "mission_verification \<Rightarrow> bool" where
  "manifest_misses v = manifest_denies (mv_manifest v)"

definition imports_loop :: "mission_verification \<Rightarrow> bool" where
  "imports_loop v = imports_deny (mv_imports v)"

definition already_done :: "mission_verification \<Rightarrow> bool" where
  "already_done v \<longleftrightarrow> \<not> touched_anything (mv_changes v) \<and> tests_passed (mv_tests v) True \<and> \<not> manifest_misses v"

definition verified :: "mission_verification \<Rightarrow> bool" where
  "verified v \<longleftrightarrow> mv_measured v \<and> mv_reported v \<and> touched_anything (mv_changes v) \<and> \<not> tests_fail v \<and>
     \<not> manifest_misses v \<and> \<not> imports_loop v"

definition contradicted :: "mission_verification \<Rightarrow> bool" where
  "contradicted v \<longleftrightarrow> mv_measured v \<and> mv_reported v \<and>
     (tests_fail v \<or> manifest_misses v \<or> imports_loop v \<or> mv_escaping v \<noteq> None \<or> mv_fake v \<noteq> None \<or>
      mv_tautology v \<noteq> None \<or> mv_empty v \<noteq> None \<or> mv_sql v \<noteq> None \<or>
      \<not> touched_anything (mv_changes v) \<and> \<not> already_done v)"

definition unmeasurable :: "mission_verification \<Rightarrow> bool" where
  "unmeasurable v \<longleftrightarrow> (case mv_workspace v of None \<Rightarrow> False | Some w \<Rightarrow> w \<noteq> []) \<and> \<not> mv_measured v"

definition mission_verdict :: "mission_verification \<Rightarrow> verdict" where
  "mission_verdict v = (if \<not> mv_measured v then Verdict_INDISPONIBLE else if contradicted v then Verdict_ECHOUE
     else if verified v then Verdict_REUSSI else Verdict_INDISPONIBLE)"

definition opt_dict :: "metadata option \<Rightarrow> pyval" where
  "opt_dict v = (case v of None \<Rightarrow> PNone | Some d \<Rightarrow> PDict d)"

definition verification_dict :: "(diff_summary \<Rightarrow> string) \<Rightarrow> mission_verification \<Rightarrow> metadata" where
  "verification_dict say v = (let strs = (\<lambda>xs. PList (map PStr xs)); d = mv_changes v in
     [(''mission_id'', PStr (mv_mission v)), (''reported_success'', PBool (mv_reported v)),
      (''measured'', PBool (mv_measured v)), (''verified'', PBool (verified v)),
      (''contradicted'', PBool (contradicted v)), (''verdict'', PStr (verdict_value (mission_verdict v))),
      (''mesure_impossible'', PBool (unmeasurable v)),
      (''workspace'', (case mv_workspace v of None \<Rightarrow> PNone | Some w \<Rightarrow> PStr w)),
      (''created'', strs (wd_created d)), (''modified'', strs (wd_modified d)), (''deleted'', strs (wd_deleted d)),
      (''indetermines'', strs (wd_unknown d)), (''summary'', PStr (say (diff_summary d))),
      (''tests'', opt_dict (mv_tests v)), (''manifeste'', opt_dict (mv_manifest v)),
      (''imports'', opt_dict (mv_imports v)), (''imports_remontent'', opt_dict (mv_escaping v)),
      (''travail_deja_fait'', PBool (already_done v)), (''faux_paquet'', opt_dict (mv_fake v)),
      (''test_tautologique'', opt_dict (mv_tautology v)), (''livrable_vide'', opt_dict (mv_empty v)),
      (''sql_casse'', opt_dict (mv_sql v)), (''tests_echouent'', PBool (tests_fail v))])"

subsection \<open>Verification\<close>

text \<open>A run of the tests of the workspace; an exception of the runner is its message.\<close>

record test_run =
  tr_ran :: bool
  tr_runner :: string
  tr_passed :: bool
  tr_exit :: "int option"
  tr_reason :: string
  tr_output :: string

record instruments =
  in_runner :: "string \<Rightarrow> string option"
  in_run :: "string \<Rightarrow> string \<Rightarrow> string + test_run"
  in_root :: "string \<Rightarrow> bool"
  in_exists :: "string \<Rightarrow> string \<Rightarrow> bool"
  in_imports :: "string \<Rightarrow> metadata option"
  in_escaping :: "string \<Rightarrow> metadata option"
  in_fake :: "string \<Rightarrow> metadata option"
  in_tautology :: "string \<Rightarrow> metadata option"
  in_empty :: "string \<Rightarrow> string list \<Rightarrow> metadata option"
  in_sql :: "string \<Rightarrow> string list \<Rightarrow> metadata option"

definition last_chars :: "nat \<Rightarrow> string \<Rightarrow> string" where
  "last_chars n s = drop (length s - n) s"

definition tests_verdict :: "instruments \<Rightarrow> string \<Rightarrow> bool \<Rightarrow> metadata option" where
  "tests_verdict ins ws reported =
     (if \<not> reported then None
      else (case in_runner ins ws of
          None \<Rightarrow> Some [(''ran'', PBool False), (''reason'', PStr ''aucun runner applicable a ce workspace'')]
        | Some name \<Rightarrow> (case in_run ins ws name of
            Inl e \<Rightarrow> Some [(''ran'', PBool False), (''reason'', PStr e)]
          | Inr r \<Rightarrow> Some [(''ran'', PBool (tr_ran r)), (''runner'', PStr (tr_runner r)),
              (''passed'', PBool (tr_passed r)), (''exit_code'', (case tr_exit r of None \<Rightarrow> PNone | Some i \<Rightarrow> PInt i)),
              (''reason'', PStr (tr_reason r)), (''output'', PStr (last_chars 2000 (tr_output r)))])))"

definition unmeasured :: "string \<Rightarrow> bool \<Rightarrow> string option \<Rightarrow> workspace_diff \<Rightarrow> mission_verification" where
  "unmeasured mid reported ws d = \<lparr>mv_mission = mid, mv_reported = reported, mv_workspace = ws, mv_changes = d,
     mv_measured = False, mv_tests = None, mv_manifest = None, mv_imports = None, mv_escaping = None, mv_fake = None,
     mv_tautology = None, mv_empty = None, mv_sql = None\<rparr>"

definition verify_mission :: "instruments \<Rightarrow> string \<Rightarrow> bool \<Rightarrow> string option \<Rightarrow> workspace_snapshot option
    \<Rightarrow> workspace_snapshot option \<Rightarrow> mission option \<Rightarrow> mission_verification" where
  "verify_mission ins mid reported ws before after m = (case (ws, before, after) of
     (Some w, Some b, Some a) \<Rightarrow>
       (if \<not> (wp_readable b \<and> wp_readable a)
        then unmeasured mid reported ws (no_diff\<lparr>wd_unknown := sorted_list_of_set (set (wp_unreadable b) \<union> set (wp_unreadable a))\<rparr>)
        else (let d = workspace_changes b a in
          \<lparr>mv_mission = mid, mv_reported = reported, mv_workspace = ws, mv_changes = d, mv_measured = True,
           mv_tests = tests_verdict ins w reported,
           mv_manifest = (case m of None \<Rightarrow> None | Some x \<Rightarrow> manifest_verdict (in_root ins) (in_exists ins) x w),
           mv_imports = in_imports ins w, mv_escaping = in_escaping ins w, mv_fake = in_fake ins w,
           mv_tautology = in_tautology ins w, mv_empty = in_empty ins w (wd_created d @ wd_modified d),
           mv_sql = in_sql ins w (wd_created d @ wd_modified d)\<rparr>))
   | _ \<Rightarrow> unmeasured mid reported ws no_diff)"

subsection \<open>Retry policy\<close>

datatype retry_reason = NoVerification | NothingMeasured | Agrees | AttemptsSpent int int | TestsRed
  | DeliverablesMissing | ImportCycle | WorkspaceUnchanged

datatype finding = Unchanged "pyval option" "pyval option" | Missing pyval | RedTests metadata | FatalCycles pyval | NoCause

record retry_brief =
  rb_objective :: string
  rb_findings :: "finding list"

record retry_decision =
  rd_retry :: bool
  rd_reason :: retry_reason
  rd_brief :: "retry_brief option"
  rd_attempt :: int

definition default_max_attempts :: int where
  "default_max_attempts = 2"

definition no_retry :: "retry_reason \<Rightarrow> retry_decision" where
  "no_retry r = \<lparr>rd_retry = False, rd_reason = r, rd_brief = None, rd_attempt = 1\<rparr>"

text \<open>\<open>None\<close> is an exception on a malformed verification.\<close>

definition retry_motif :: "metadata \<Rightarrow> retry_reason option" where
  "retry_motif v = Option.bind (sub_dict v ''tests'') (\<lambda>t.
     if truthy_at t ''ran'' \<and> dict_get t ''passed'' = Some (PBool False) then Some TestsRed
     else Option.bind (sub_dict v ''manifeste'') (\<lambda>mf.
       if truthy_at mf ''manquants'' then Some DeliverablesMissing
       else Option.bind (sub_dict v ''imports'') (\<lambda>im.
         Some (if truthy_at im ''fatals'' then ImportCycle else WorkspaceUnchanged))))"

fun iterable :: "pyval \<Rightarrow> bool" where
  "iterable (PStr s) = True"
| "iterable (PList xs) = True"
| "iterable (PDict d) = True"
| "iterable _ = False"

definition listed :: "(pyval \<Rightarrow> finding) \<Rightarrow> metadata \<Rightarrow> string \<Rightarrow> finding list option" where
  "listed f d k = (case dict_get d k of None \<Rightarrow> Some []
     | Some v \<Rightarrow> (if \<not> truthy v then Some [] else if iterable v then Some [f v] else None))"

definition retry_findings :: "metadata \<Rightarrow> finding list option" where
  "retry_findings v =
     (let unchanged = (if truthy_at v ''created'' \<or> truthy_at v ''modified'' \<or> truthy_at v ''deleted'' then []
            else [Unchanged (dict_get v ''workspace'') (dict_get v ''summary'')])
      in Option.bind (sub_dict v ''manifeste'') (\<lambda>mf. Option.bind (listed Missing mf ''manquants'') (\<lambda>missing.
         Option.bind (sub_dict v ''tests'') (\<lambda>t.
         Option.bind (sub_dict v ''imports'') (\<lambda>im. Option.bind (listed FatalCycles im ''fatals'') (\<lambda>cycles.
           let found = unchanged @ missing @
             (if truthy_at t ''ran'' \<and> dict_get t ''passed'' = Some (PBool False) then [RedTests t] else []) @ cycles
           in Some (if found = [] then [NoCause] else found)))))))"

definition white :: "char \<Rightarrow> bool" where
  "white c \<longleftrightarrow> (of_char c :: nat) \<in> {9, 10, 11, 12, 13, 28, 29, 30, 31, 32, 133, 160}"

definition str_strip :: "string \<Rightarrow> string" where
  "str_strip s = rev (dropWhile white (rev (dropWhile white s)))"

definition build_retry_brief :: "string \<Rightarrow> metadata \<Rightarrow> retry_brief option" where
  "build_retry_brief objective v =
     map_option (\<lambda>fs. \<lparr>rb_objective = str_strip objective, rb_findings = fs\<rparr>) (retry_findings v)"

definition decide_retry :: "metadata option \<Rightarrow> string \<Rightarrow> int \<Rightarrow> int \<Rightarrow> retry_decision option" where
  "decide_retry verification objective made limit = (case verification of
     None \<Rightarrow> Some (no_retry NoVerification)
   | Some v \<Rightarrow>
       if \<not> truthy_at v ''measured'' then Some (no_retry NothingMeasured)
       else if \<not> truthy_at v ''contradicted'' then Some (no_retry Agrees)
       else if made \<ge> limit then Some (no_retry (AttemptsSpent made limit))
       else Option.bind (retry_motif v) (\<lambda>r. Option.bind (build_retry_brief objective v) (\<lambda>b.
         Some \<lparr>rd_retry = True, rd_reason = r, rd_brief = Some b, rd_attempt = made + 1\<rparr>)))"

end
