(* ===== verification/MissionExecutor.thy ===== *)
theory MissionExecutor
  imports MissionVerification
begin

text \<open>
  The mission engine: \<^verbatim>\<open>backend/mission/graph_executor.py\<close> (the gate, the life of a mission, one step), the
  preparation of a retry of \<^verbatim>\<open>retry_policy.py\<close>, and the walk with its pause, resume and cancel requests
  of \<^verbatim>\<open>mission/routes.py\<close>. The callable that runs a node, the clock, the state of the workspace and the
  store of the agent's checkpoints are fields of the environment of a step. Every published event and every
  write to the store is an entry of a trace, in order. The callable may change the node it is given; the
  nodes of one step are run one after the other in the log, in the order of the list.
\<close>

subsection \<open>The gate\<close>

text \<open>The number of running nodes of the machine, under a lock. A caller waits while it is refused.\<close>

definition gate_enter :: "int \<Rightarrow> int \<Rightarrow> int option" where
  "gate_enter limit busy = (if busy \<ge> max 1 limit then None else Some (busy + 1))"

definition gate_leave :: "int \<Rightarrow> int" where
  "gate_leave busy = max 0 (busy - 1)"

text \<open>What the source of capacity answers when it is wired; the constant is the fallback.\<close>

datatype capacity = NoSource | SourceRaises | SourceUnknown | Places int

fun concurrency_limit :: "int \<Rightarrow> capacity \<Rightarrow> int" where
  "concurrency_limit fallback NoSource = max 1 fallback"
| "concurrency_limit fallback SourceRaises = max 1 fallback"
| "concurrency_limit fallback SourceUnknown = max 1 fallback"
| "concurrency_limit fallback (Places n) = max 1 n"

subsection \<open>Environment and log\<close>

datatype node_answer = Answer bool | Raised | Silent

datatype mission_request = PauseRequest | CancelRequest

record step_env =
  se_now :: time
  se_capacity :: capacity
  se_place :: "mission_node \<Rightarrow> bool"
  se_run :: "mission_node \<Rightarrow> mission_node \<times> node_answer"
  se_tools :: instruments
  se_root :: "string option"
  se_workspace :: "workspace_snapshot option"
  se_checkpoint :: "(string + string \<times> string) option"
  se_drift :: "metadata option"
  se_journal :: bool
  se_request :: "mission_request option"

record graph_executor =
  gx_snapshots :: "(string, workspace_snapshot) dict"
  gx_fallback :: int
  gx_say :: "diff_summary \<Rightarrow> string"
  gx_brief :: "retry_brief \<Rightarrow> string"

datatype walk_event =
    EvCreated string nat nat bool
  | EvStarted string nat
  | EvNodeReady string string string
  | EvNodeSaturated string string string int
  | EvStepTimeout string "string list"
  | EvNodeCompleted string string string
  | EvNodeFailed string string string
  | EvCompleted string nat "metadata option" bool
  | EvUnverified metadata
  | EvUnmeasured metadata
  | EvRetrySuggested string int retry_reason string
  | EvNoNet string string string
  | EvCheckpoint string string string string
  | EvMissionCancelled string
  | EvSaved mission

subsection \<open>Building and starting\<close>

definition executor_build :: "mission \<Rightarrow> mission_node list \<Rightarrow> mission_edge list
    \<Rightarrow> mission \<times> dag_issue list \<times> walk_event list" where
  "executor_build m nodes edges =
     (case validate_dag (link_nodes (map (\<lambda>n. n\<lparr>mn_mission := ms_id m\<rparr>) nodes) edges m) of (m', issues) \<Rightarrow>
       (if issues = [] then m'\<lparr>ms_status := MS_READY\<rparr> else m', issues,
        [EvCreated (ms_id m) (length nodes) (length edges) (issues = [])]))"

definition ready_events :: "mission \<Rightarrow> walk_event list" where
  "ready_events m = map (\<lambda>n. EvNodeReady (ms_id m) (mn_id n) (mn_title n)) (ready_nodes m)"

text \<open>The snapshot of the workspace, and the checkpoint: nothing without a workspace.\<close>

definition snapshot_workspace :: "step_env \<Rightarrow> graph_executor \<Rightarrow> mission \<Rightarrow> graph_executor \<times> mission \<times> walk_event list" where
  "snapshot_workspace env gx m = (case (se_root env, se_workspace env) of
     (Some r, Some s) \<Rightarrow>
       (if r = [] then (gx, m, [])
        else (let gx' = gx\<lparr>gx_snapshots := dict_set (ms_id m) s (gx_snapshots gx)\<rparr> in
          (case se_checkpoint env of
             None \<Rightarrow> (gx', m, [])
           | Some (Inl reason) \<Rightarrow> (gx', m, [EvNoNet (ms_id m) r reason])
           | Some (Inr (ident, mechanism)) \<Rightarrow>
               (gx', m\<lparr>ms_metadata := dict_set ''checkpoint'' (PStr ident) (ms_metadata m)\<rparr>,
                [EvCheckpoint (ms_id m) ident r mechanism]))))
   | _ \<Rightarrow> (gx, m, []))"

definition executor_start :: "step_env \<Rightarrow> graph_executor \<Rightarrow> mission
    \<Rightarrow> graph_executor \<times> mission \<times> bool \<times> walk_event list" where
  "executor_start env gx m =
     (if ms_status m \<notin> {MS_READY, MS_VALIDATED} then (gx, m, False, [])
      else (let m1 = m\<lparr>ms_status := MS_RUNNING, ms_started := Some (se_now env)\<rparr> in
        (case snapshot_workspace env gx m1 of (gx', m2, evs) \<Rightarrow>
          (gx', m2, True, [EvSaved m1] @ evs @ [EvStarted (ms_id m) (length (ms_nodes m2))] @ ready_events m2))))"

subsection \<open>One step\<close>

definition run_gated :: "step_env \<Rightarrow> int \<Rightarrow> mission_node \<Rightarrow> mission_node \<times> node_answer \<times> walk_event list" where
  "run_gated env limit n =
     (if \<not> se_place env n then (n, Answer False, [EvNodeSaturated (mn_mission n) (mn_id n) (mn_title n) limit])
      else (case se_run env n of (n', Raised) \<Rightarrow> (n', Answer False, []) | (n', a) \<Rightarrow> (n', a, [])))"

abbreviation set_running :: "mission_node \<Rightarrow> mission_node" where
  "set_running n \<equiv> n\<lparr>mn_status := Dag_RUNNING\<rparr>"

text \<open>
  The ready nodes are chosen once; each is set to running and handed to the callable. The answers are kept
  by identifier. A silent node never returns: in the pool it is absent from the results once the deadline
  has passed, in the sequential branch it holds the step for ever, which is \<open>None\<close>.
\<close>

definition step_outcomes :: "step_env \<Rightarrow> int \<Rightarrow> mission \<Rightarrow> (mission_node \<times> node_answer \<times> walk_event list) list" where
  "step_outcomes env limit m = map (\<lambda>n. run_gated env limit (set_running n)) (ready_nodes m)"

definition after_run :: "step_env \<Rightarrow> int \<Rightarrow> mission \<Rightarrow> mission" where
  "after_run env limit m = m\<lparr>ms_nodes := map (\<lambda>n. if is_ready m n then fst (run_gated env limit (set_running n)) else n) (ms_nodes m)\<rparr>"

fun step_results :: "(mission_node \<times> node_answer \<times> walk_event list) list \<Rightarrow> (string, bool) dict \<Rightarrow> (string, bool) dict" where
  "step_results [] R = R"
| "step_results ((n, a, evs) # os) R = step_results os (case a of Answer b \<Rightarrow> dict_set (mn_id n) b R
     | Raised \<Rightarrow> dict_set (mn_id n) False R | Silent \<Rightarrow> R)"

definition settle_node :: "time \<Rightarrow> (string, bool) dict \<Rightarrow> mission_node \<Rightarrow> mission \<times> walk_event list \<Rightarrow> mission \<times> walk_event list" where
  "settle_node now R n s = (case s of (m, evs) \<Rightarrow>
     if dict_get_default R (mn_id n) False
     then (let m' = fst (mark_completed now (mn_id n) m)
       in (m', evs @ [EvSaved m', EvNodeCompleted (ms_id m) (mn_id n) (mn_title n)]))
     else (let m' = fst (mark_failed (mn_id n) m)
       in (m', evs @ [EvSaved m', EvNodeFailed (ms_id m) (mn_id n) (mn_title n)])))"

text \<open>\<^verbatim>\<open>int(x)\<close> of a payload value; \<open>None\<close> is the exception.\<close>

fun digits_value :: "string \<Rightarrow> int \<Rightarrow> bool \<Rightarrow> int option" where
  "digits_value [] acc seen = (if seen then Some acc else None)"
| "digits_value (c # cs) acc seen =
     (if 48 \<le> (of_char c :: nat) \<and> (of_char c :: nat) \<le> 57 then digits_value cs (acc * 10 + (of_char c - 48)) True
      else if c = CHR ''_'' \<and> seen then digits_value cs acc False else None)"

fun signed_value :: "string \<Rightarrow> int option" where
  "signed_value (c # cs) = (if c = CHR ''-'' then map_option uminus (digits_value cs 0 False)
     else if c = CHR ''+'' then digits_value cs 0 False else digits_value (c # cs) 0 False)"
| "signed_value [] = None"

fun py_int :: "pyval \<Rightarrow> int option" where
  "py_int (PInt i) = Some i"
| "py_int (PBool b) = Some (if b then 1 else 0)"
| "py_int (PFloat r) = Some (if r \<ge> 0 then \<lfloor>r\<rfloor> else \<lceil>r\<rceil>)"
| "py_int (PStr s) = signed_value (str_strip s)"
| "py_int _ = None"

definition attempts_of :: "mission \<Rightarrow> int option" where
  "attempts_of m = (case dict_get (ms_metadata m) ''attempts'' of None \<Rightarrow> Some 1 | Some v \<Rightarrow> py_int v)"

definition str_or_else :: "string \<Rightarrow> string \<Rightarrow> string" where
  "str_or_else a b = (if a \<noteq> [] then a else b)"

definition mission_goal :: "mission \<Rightarrow> string" where
  "mission_goal m = str_or_else (ms_objective m) (str_or_else (ms_description m) (ms_title m))"

definition suggest_retry :: "graph_executor \<Rightarrow> metadata option \<Rightarrow> mission \<Rightarrow> mission \<times> walk_event list" where
  "suggest_retry gx v m =
     (case Option.bind (attempts_of m) (\<lambda>k. decide_retry v (mission_goal m) k default_max_attempts) of
       None \<Rightarrow> (m, [])
     | Some d \<Rightarrow> (case rd_brief d of
         None \<Rightarrow> (m, [])
       | Some b \<Rightarrow> (m\<lparr>ms_metadata := dict_set ''retry_brief'' (PStr (gx_brief gx b)) (ms_metadata m)\<rparr>,
           [EvRetrySuggested (ms_id m) (rd_attempt d) (rd_reason d) (gx_brief gx b)])))"

definition verify_workspace :: "step_env \<Rightarrow> bool \<Rightarrow> graph_executor \<Rightarrow> mission \<Rightarrow> graph_executor \<times> metadata option" where
  "verify_workspace env reported gx m =
     (let before = dict_get (gx_snapshots gx) (ms_id m);
          after = (case se_root env of None \<Rightarrow> None | Some r \<Rightarrow> (if r = [] then None else se_workspace env));
          v = verification_dict (gx_say gx) (verify_mission (se_tools env) (ms_id m) reported (se_root env) before after (Some m));
          v' = (case se_drift env of None \<Rightarrow> v | Some d \<Rightarrow> dict_set ''derive_gouvernante'' (PDict d) v)
      in (gx\<lparr>gx_snapshots := dict_del (ms_id m) (gx_snapshots gx)\<rparr>, if se_journal env then Some v' else None))"

definition finish_mission :: "step_env \<Rightarrow> graph_executor \<Rightarrow> mission \<Rightarrow> graph_executor \<times> mission \<times> walk_event list" where
  "finish_mission env gx m =
     (if ms_status m \<in> {MS_FAILED, MS_COMPLETED} then (gx, m, [])
      else (let ok = (failed_nodes m = 0);
                m1 = m\<lparr>ms_status := (if ok then MS_COMPLETED else MS_FAILED), ms_completed := Some (se_now env)\<rparr>
        in (case verify_workspace env ok gx m1 of (gx', v) \<Rightarrow>
          (let m2 = (case v of None \<Rightarrow> m1 | Some d \<Rightarrow> m1\<lparr>ms_metadata := dict_set ''verification'' (PDict d) (ms_metadata m1)\<rparr>)
           in (case suggest_retry gx' v m2 of (m3, evs) \<Rightarrow>
             (gx', m3, evs @ [EvSaved m3, EvCompleted (ms_id m) (failed_nodes m) v ok] @
                (case v of None \<Rightarrow> []
                 | Some d \<Rightarrow> (if truthy_at d ''contradicted'' then [EvUnverified d]
                     else if truthy_at d ''mesure_impossible'' then [EvUnmeasured d] else []))))))))"

definition all_settled :: "mission \<Rightarrow> bool" where
  "all_settled m \<longleftrightarrow> dp_completed (get_dag_progress m) + dp_failed (get_dag_progress m) + dp_skipped (get_dag_progress m) \<ge>
     dp_total (get_dag_progress m)"

definition silent_titles :: "(mission_node \<times> node_answer \<times> walk_event list) list \<Rightarrow> string list" where
  "silent_titles os = map (\<lambda>(n, a, evs). mn_title n) (filter (\<lambda>(n, a, evs). a = Silent) os)"

definition execute_step :: "step_env \<Rightarrow> graph_executor \<Rightarrow> mission
    \<Rightarrow> (graph_executor \<times> mission \<times> nat \<times> walk_event list) option" where
  "execute_step env gx m =
     (let ready = ready_nodes m;
          limit = concurrency_limit (gx_fallback gx) (se_capacity env);
          workers = (if ready = [] then 0 else min (int (length ready)) limit);
          outcomes = step_outcomes env limit m;
          silent = silent_titles outcomes
      in if workers \<le> 1 \<and> silent \<noteq> [] then None
         else (let trace = concat (map (\<lambda>(n, a, evs). evs) outcomes) @ (if silent = [] then [] else [EvStepTimeout (ms_id m) silent]);
                   R = step_results outcomes []
           in (case fold (settle_node (se_now env) R) ready (after_run env limit m, trace) of (m1, log1) \<Rightarrow>
             (if ready = [] then Some (gx, m1, 0, log1)
              else (case (if all_settled m1 then finish_mission env gx m1 else (gx, m1, [])) of (gx', m2, log2) \<Rightarrow>
                Some (gx', m2, length ready, log1 @ log2 @ ready_events m2))))))"

definition executor_cancel :: "time \<Rightarrow> mission \<Rightarrow> mission \<times> bool \<times> walk_event list" where
  "executor_cancel now m =
     (if ms_status m = MS_COMPLETED then (m, False, [])
      else (let m' = m\<lparr>ms_status := MS_CANCELLED, ms_completed := Some now\<rparr>
        in (m', True, [EvSaved m', EvMissionCancelled (ms_id m)])))"

record graph_data =
  gd_mission :: string
  gd_nodes :: "(string \<times> string \<times> dag_status \<times> string \<times> rat \<times> string \<times> string \<times> string list) list"
  gd_edges :: "(string \<times> string) list"
  gd_order :: "string list"
  gd_groups :: "string list list"
  gd_progress :: dag_progress

definition get_graph_data :: "mission \<Rightarrow> graph_data option" where
  "get_graph_data m = map_option (\<lambda>gs. \<lparr>gd_mission = ms_id m,
     gd_nodes = map (\<lambda>n. (mn_id n, mn_title n, mn_status n, mn_type n, mn_actual n, mn_runtime n, mn_summary n, mn_depends n)) (ms_nodes m),
     gd_edges = dag_arcs m, gd_order = dag_order m, gd_groups = gs, gd_progress = get_dag_progress m\<rparr>) (parallel_groups m)"

subsection \<open>Retry and walk\<close>

text \<open>
  The preparation of a retry. \<open>None\<close> is the exception of a number of attempts that is no number; a brief
  that is true but no text is outside the model and ends the same way.
\<close>

definition prepare_retry :: "step_env \<Rightarrow> graph_executor \<Rightarrow> mission
    \<Rightarrow> (graph_executor \<times> mission \<times> bool \<times> walk_event list) option" where
  "prepare_retry env gx m =
     (let m0 = m\<lparr>ms_metadata := dict_del ''retry_brief'' (ms_metadata m)\<rparr> in
      (case dict_get (ms_metadata m) ''retry_brief'' of
         None \<Rightarrow> Some (gx, m0, False, [])
       | Some v \<Rightarrow> (if \<not> truthy v then Some (gx, m0, False, [])
           else (case (v, attempts_of m0) of
             (PStr brief, Some k) \<Rightarrow>
               (let md1 = dict_set ''attempts'' (PInt (k + 1)) (ms_metadata m0);
                    md2 = (if ''original_objective'' \<in> set (dict_keys md1) then md1
                      else dict_set ''original_objective'' (PStr (str_or_else (ms_objective m) (ms_description m))) md1);
                    m1 = m0\<lparr>ms_metadata := md2, ms_objective := brief,
                      ms_nodes := map (\<lambda>n. n\<lparr>mn_status := Dag_PENDING, mn_summary := []\<rparr>) (ms_nodes m)\<rparr>
                in (case executor_build m1 (ms_nodes m1) (ms_edges m1) of (m2, issues, evs1) \<Rightarrow>
                  (case executor_start env gx (m2\<lparr>ms_status := MS_READY\<rparr>) of (gx', m3, started, evs2) \<Rightarrow>
                    Some (gx', m3, started, evs1 @ evs2))))
           | _ \<Rightarrow> None))))"

definition terminal_mission :: "mission \<Rightarrow> bool" where
  "terminal_mission m \<longleftrightarrow> ms_status m \<in> {MS_COMPLETED, MS_FAILED, MS_CANCELLED}"

definition pause_walk :: "mission \<Rightarrow> mission \<times> bool" where
  "pause_walk m = (if ms_status m \<noteq> MS_RUNNING then (m, False) else (m\<lparr>ms_status := MS_PAUSED\<rparr>, True))"

definition resume_walk :: "time \<Rightarrow> mission \<Rightarrow> mission \<times> bool" where
  "resume_walk now m = (if ms_status m \<noteq> MS_PAUSED then (m, False)
     else (m\<lparr>ms_status := MS_RUNNING, ms_started := (case ms_started m of None \<Rightarrow> Some now | s \<Rightarrow> s)\<rparr>, True))"

definition max_execution_passes :: nat where
  "max_execution_passes = 100"

text \<open>Between two passes the event loop may serve one request on the mission.\<close>

definition serve_request :: "step_env \<Rightarrow> mission \<Rightarrow> mission \<times> walk_event list" where
  "serve_request env m = (case se_request env of
     None \<Rightarrow> (m, [])
   | Some PauseRequest \<Rightarrow> (fst (pause_walk m), [])
   | Some CancelRequest \<Rightarrow> (case executor_cancel (se_now env) m of (m', ok, evs) \<Rightarrow> (m', evs)))"

fun walk_steps :: "nat \<Rightarrow> (nat \<Rightarrow> step_env) \<Rightarrow> nat \<Rightarrow> graph_executor \<times> mission \<times> nat \<times> walk_event list
    \<Rightarrow> (nat \<times> graph_executor \<times> mission \<times> nat \<times> walk_event list) option" where
  "walk_steps 0 envs k (gx, m, executed, trace) = Some (k, gx, m, executed, trace)"
| "walk_steps (Suc left) envs k (gx, m, executed, trace) =
     (if terminal_mission m \<or> ms_status m = MS_PAUSED then Some (k, gx, m, executed, trace)
      else (case execute_step (envs k) gx m of
          None \<Rightarrow> None
        | Some (gx', m', stepped, evs) \<Rightarrow>
            (if stepped = 0 then Some (Suc k, gx', m', executed, trace @ evs)
             else (case serve_request (envs k) m' of (m'', evs') \<Rightarrow>
               walk_steps left envs (Suc k) (gx', m'', executed + stepped, trace @ evs @ evs')))))"

text \<open>
  The walk, and the walk again after a retry was prepared. Nothing in the text of the code bounds the
  number of retries, so that the recursion is a partial function: \<open>None\<close> is a run that never returns
  (or an exception of the preparation).
\<close>

partial_function (option) run_mission_steps :: "(nat \<Rightarrow> step_env) \<Rightarrow> nat \<Rightarrow> graph_executor \<Rightarrow> mission
    \<Rightarrow> (nat \<times> graph_executor \<times> mission \<times> nat \<times> walk_event list) option" where
  "run_mission_steps envs k gx m = Option.bind (walk_steps max_execution_passes envs k (gx, m, 0, [])) (\<lambda>(k', gx', m', executed, trace).
     if terminal_mission m'
     then Option.bind (prepare_retry (envs k') gx' m') (\<lambda>(gx2, m2, again, evs).
       if \<not> again then Some (k', gx2, m2, executed, trace @ evs)
       else Option.bind (run_mission_steps envs (Suc k') gx2 m2) (\<lambda>(k3, gx3, m3, more, log3).
         Some (k3, gx3, m3, executed + more, trace @ evs @ log3)))
     else Some (k', gx', m', executed, trace))"

definition start_and_walk :: "(nat \<Rightarrow> step_env) \<Rightarrow> graph_executor \<Rightarrow> mission
    \<Rightarrow> (nat \<times> graph_executor \<times> mission \<times> nat \<times> walk_event list) option" where
  "start_and_walk envs gx m = (case executor_start (envs 0) gx m of (gx', m', ok, evs) \<Rightarrow>
     if \<not> ok then Some (0, gx', m', 0, evs)
     else Option.bind (run_mission_steps envs 1 gx' m') (\<lambda>(k, gx2, m2, n, trace). Some (k, gx2, m2, n, evs @ trace)))"

end
