(* ===== verification/MissionGraph_Correct.thy ===== *)
theory MissionGraph_Correct
  imports MissionGraph ExecutionGraph_Correct
begin

text \<open>
  Correctness of the mission DAG: validation decides exactly whether the mission is a DAG over distinct
  known nodes, the order is a topological order (the one the agent graph computes), the parallel groups
  are the longest-path layers, and the resolver's sets.
\<close>

subsection \<open>Set-up of the loops\<close>

definition known_ends :: "mission \<Rightarrow> bool" where
  "known_ends m \<longleftrightarrow> (\<forall>e \<in> set (ms_edges m). me_source e \<in> set (dag_ids m) \<and> me_target e \<in> set (dag_ids m))"

definition valid_dag :: "mission \<Rightarrow> bool" where
  "valid_dag m \<longleftrightarrow> distinct (dag_ids m) \<and> known_ends m \<and> acyclic (set (dag_arcs m))"

lemma edge_issues_Nil: "edge_issues ids es = [] \<longleftrightarrow> (\<forall>e \<in> set es. me_source e \<in> set ids \<and> me_target e \<in> set ids)"
  by (induction es) auto

lemma adjacency_succs: "dict_get_default (dag_adjacency m) u [] = succs (dag_arcs m) u"
proof -
  let ?f = "\<lambda>e A. dict_set (me_source e) (dict_get_default A (me_source e) [] @ [me_target e]) A"
  have "dict_get_default (fold ?f es A) u [] = dict_get_default A u [] @ succs (map dag_arc es) u" for es A
    by (induction es arbitrary: A) (auto simp: succs_def)
  then show ?thesis by (simp add: dag_adjacency_def) (simp add: dict_get_default_def)
qed

lemma count_list_dict_set:
  "count_list (concat (dict_values (dict_set s (dict_get_default A s [] @ [t]) A))) v =
     count_list (concat (dict_values A)) v + (if v = t then 1 else 0)"
  by (induction A) (auto simp: dict_get_default_def)

lemma count_adjacency: "count_list (concat (dict_values (dag_adjacency m))) v = count_list (map me_target (ms_edges m)) v"
proof -
  let ?f = "\<lambda>e A. dict_set (me_source e) (dict_get_default A (me_source e) [] @ [me_target e]) A"
  have "count_list (concat (dict_values (fold ?f es A))) v =
      count_list (concat (dict_values A)) v + count_list (map me_target es) v" for es A
    by (induction es arbitrary: A) (simp_all add: count_list_dict_set)
  from this[of "ms_edges m" "[]"] show ?thesis by (simp add: dag_adjacency_def)
qed

lemma count_degrees: "degree (fold count_degree vs D) v = degree D v + int (count_list vs v) \<and>
    fst ` set (fold count_degree vs D) = fst ` set D \<union> set vs \<and>
    (distinct (map fst D) \<longrightarrow> distinct (map fst (fold count_degree vs D)))"
  by (induction vs arbitrary: D) (auto simp: count_degree_def)

lemma degree_absent: "v \<notin> fst ` set D \<Longrightarrow> degree D v = 0"
  using get_None_iff[of D v] by (simp add: degree_def dict_get_default_def)

lemma set_defaults: "degree (fold set_default vs D) v = degree D v \<and>
    fst ` set (fold set_default vs D) = fst ` set D \<union> set vs \<and>
    (distinct (map fst D) \<longrightarrow> distinct (map fst (fold set_default vs D)))"
proof (induction vs arbitrary: D)
  case (Cons w vs)
  then show ?case by (auto simp: set_default_def degree_absent)
qed simp

text \<open>Both set-ups count the edges into each vertex and know every node.\<close>

definition init_degrees :: "mission \<Rightarrow> string degrees \<Rightarrow> bool" where
  "init_degrees m D \<longleftrightarrow> (\<forall>v. degree D v = int (count_list (map me_target (ms_edges m)) v)) \<and>
     fst ` set D = set (map me_target (ms_edges m)) \<union> set (dag_ids m) \<and> distinct (map fst D)"

lemma init_cycles: "init_degrees m (fold set_default (dag_ids m) (fold count_degree (concat (dict_values (dag_adjacency m))) []))"
proof -
  let ?vs = "concat (dict_values (dag_adjacency m))"
  have "v \<in> set ?vs \<longleftrightarrow> v \<in> set (map me_target (ms_edges m))" for v
    using count_adjacency[of m v] count_list_0_iff by metis
  then have vs: "set ?vs = set (map me_target (ms_edges m))" by blast
  have "fst ` set (fold count_degree ?vs []) = set ?vs" "distinct (map fst (fold count_degree ?vs []))"
    "degree (fold count_degree ?vs []) v = int (count_list (map me_target (ms_edges m)) v)" for v
    using count_degrees[of ?vs "[]"] count_adjacency[of m v] by (simp_all add: degree_absent)
  then show ?thesis
    unfolding init_degrees_def using set_defaults[of "dag_ids m" "fold count_degree ?vs []"] vs by metis
qed

lemma init_order: "init_degrees m (fold set_default (dag_ids m) (fold count_degree (map me_target (ms_edges m)) []))"
  using set_defaults[of "dag_ids m" "fold count_degree (map me_target (ms_edges m)) []"]
    count_degrees[of "map me_target (ms_edges m)" "[]"]
  by (simp add: init_degrees_def degree_absent)

lemma arcs_into_count: "arcs_into (map dag_arc es) {} v = count_list (map me_target es) v"
  by (induction es) (auto simp: arcs_into_def)

lemma init_inv:
  assumes "init_degrees m D" and "known_ends m"
  shows "kahn_inv (remdups (dag_ids m)) (dag_arcs m) [] D (zero_degree D)"
proof -
  have keys: "fst ` set D = set (dag_ids m)" and d: "distinct (map fst D)"
    using assms by (auto simp: init_degrees_def known_ends_def)
  show ?thesis
    using zero_degree_spec[OF d] keys assms(1) by (auto simp: kahn_inv_def init_degrees_def arcs_into_count)
qed

lemma known_arcs: "known_ends m \<Longrightarrow> set (dag_arcs m) \<subseteq> set (remdups (dag_ids m)) \<times> set (remdups (dag_ids m))"
  by (auto simp: known_ends_def)

lemma dag_run_inv:
  assumes "init_degrees m D" and "known_ends m"
  shows "\<exists>D'. kahn_inv (remdups (dag_ids m)) (dag_arcs m)
    (snd (kahn_run (\<lambda>u. dict_get_default (dag_adjacency m) u []) D (zero_degree D))) D' []"
  using kahn_run_inv[OF init_inv[OF assms] known_arcs[OF assms(2)] adjacency_succs prod.collapse[symmetric]] by auto

subsection \<open>Validation\<close>

lemma dag_has_cycles_iff:
  assumes "known_ends m"
  shows "dag_has_cycles m \<longleftrightarrow> \<not> (distinct (dag_ids m) \<and> acyclic (set (dag_arcs m)))"
proof -
  define D where "D = fold set_default (dag_ids m) (fold count_degree (concat (dict_values (dag_adjacency m))) [])"
  define us where "us = snd (kahn_run (\<lambda>u. dict_get_default (dag_adjacency m) u []) D (zero_degree D))"
  have init: "init_degrees m D" unfolding D_def by (rule init_cycles)
  obtain D' where inv: "kahn_inv (remdups (dag_ids m)) (dag_arcs m) us D' []"
    using dag_run_inv[OF init assms] unfolding us_def by blast
  have iff: "dag_has_cycles m \<longleftrightarrow> length us \<noteq> length (dag_ids m)"
    by (simp add: dag_has_cycles_def Let_def kahn_loop_run fold_count us_def D_def)
  have complete: "length us = length (remdups (dag_ids m)) \<longleftrightarrow> acyclic (set (dag_arcs m))"
    by (rule kahn_inv_complete_iff[OF inv _ known_arcs[OF assms]]) simp
  have "length us \<le> length (remdups (dag_ids m))"
    using inv by (auto simp: kahn_inv_def length_remdups_card_conv distinct_card[symmetric] intro!: card_mono)
  then show ?thesis
    unfolding iff using complete length_remdups_leq[of "dag_ids m"] length_remdups_eq[of "dag_ids m"]
    by (auto simp: distinct_remdups_id)
qed

text \<open>
  C15. The validation of a mission finds no issue exactly when the node identifiers are distinct, every
  edge joins two nodes of the mission and the edges form no cycle; only then the mission becomes
  validated, and nothing else of it changes. Isolated nodes are accepted.
\<close>

theorem validate_dag_exact:
  "(snd (validate_dag m) = [] \<longleftrightarrow> valid_dag m) \<and>
   fst (validate_dag m) = (if valid_dag m then m\<lparr>ms_status := MS_VALIDATED\<rparr> else m)"
  using dag_has_cycles_iff[of m] by (auto simp: validate_dag_def Let_def edge_issues_Nil valid_dag_def known_ends_def)

subsection \<open>Order\<close>

lemma zero_degree_filter: "distinct (map fst D) \<Longrightarrow> zero_degree D = filter (\<lambda>v. degree D v = 0) (map fst D)"
proof (induction D)
  case (Cons p D)
  obtain k d where p: "p = (k, d)" by (cases p)
  have k: "k \<notin> set (map fst D)" "distinct (map fst D)" using Cons.prems p by simp_all
  have deg: "degree ((k, d) # D) v = (if v = k then d else degree D v)" for v
    by (simp add: degree_def dict_get_default_def)
  have "filter (\<lambda>v. degree ((k, d) # D) v = 0) (map fst D) = filter (\<lambda>v. degree D v = 0) (map fst D)"
    using k(1) by (intro filter_cong) (auto simp: deg)
  then show ?case using Cons.IH[OF k(2)] p by (simp add: zero_degree_def deg)
qed (simp add: zero_degree_def)

lemma keys_set_defaults:
  "distinct vs \<Longrightarrow> map fst (fold set_default vs D) = map fst D @ filter (\<lambda>v. v \<notin> set (map fst D)) vs"
proof (induction vs arbitrary: D)
  case (Cons v vs)
  show ?case
  proof (cases "v \<in> set (map fst D)")
    case False
    have "filter (\<lambda>w. w \<notin> set (map fst D @ [v])) vs = filter (\<lambda>w. w \<notin> set (map fst D)) vs"
      using Cons.prems by (intro filter_cong) auto
    then show ?thesis using False Cons by (simp add: set_default_def keys_set)
  qed (use Cons in \<open>simp add: set_default_def\<close>)
qed simp

lemma start_queue:
  assumes "distinct (dag_ids m)" and "distinct (map fst D0)" and "\<And>v. v \<in> fst ` set D0 \<Longrightarrow> degree D0 v > 0"
  shows "zero_degree (fold set_default (dag_ids m) D0) = filter (\<lambda>v. degree D0 v = 0) (dag_ids m)"
proof -
  let ?D = "fold set_default (dag_ids m) D0"
  have "distinct (map fst ?D)" using set_defaults[of "dag_ids m" D0] assms(2) by simp
  have pos: "v \<in> set (map fst D0) \<Longrightarrow> degree D0 v \<noteq> 0" for v
    using assms(3)[of v] by simp
  have absorb: "(v \<notin> set (map fst D0) \<and> degree D0 v = 0) = (degree D0 v = 0)" for v
    by (cases "v \<in> set (map fst D0)") (simp_all only: pos, simp_all)
  have none: "filter (\<lambda>v. degree D0 v = 0) (map fst D0) = []"
    by (rule filter_False) (use pos in blast)
  have "map fst ?D = map fst D0 @ filter (\<lambda>v. v \<notin> set (map fst D0)) (dag_ids m)"
    by (rule keys_set_defaults[OF assms(1)])
  moreover have "zero_degree ?D = filter (\<lambda>v. degree D0 v = 0) (map fst ?D)"
    using zero_degree_filter[OF \<open>distinct (map fst ?D)\<close>] set_defaults[of "dag_ids m" D0] by presburger
  ultimately have "zero_degree ?D = filter (\<lambda>v. degree D0 v = 0) (filter (\<lambda>v. v \<notin> set (map fst D0)) (dag_ids m))"
    using none by (metis append_Nil filter_append)
  also have "\<dots> = filter (\<lambda>v. degree D0 v = 0) (dag_ids m)"
    unfolding filter_filter by (simp only: absorb)
  finally show ?thesis .
qed

text \<open>On a valid mission the sort pops exactly the sequence of the reference loop.\<close>

lemma dag_order_reference:
  assumes "valid_dag m"
  shows "dag_order m = snd (kahn_result (dag_ids m) (dag_arcs m))"
proof -
  define D0 where "D0 = fold count_degree (map me_target (ms_edges m)) []"
  define D where "D = fold set_default (dag_ids m) D0"
  have known: "known_ends m" and dist: "distinct (dag_ids m)" using assms by (simp_all add: valid_dag_def)
  have inner: "inner_arcs (dag_ids m) (dag_arcs m) = dag_arcs m"
    using known by (auto simp: inner_arcs_def known_ends_def filter_id_conv)
  have deg0: "degree D0 v = int (count_list (map me_target (ms_edges m)) v)" for v
    using count_degrees[of "map me_target (ms_edges m)" "[]"] by (simp add: D0_def degree_absent)
  have keys0: "fst ` set D0 = set (map me_target (ms_edges m))" "distinct (map fst D0)"
    using count_degrees[of "map me_target (ms_edges m)" "[]"] by (simp_all add: D0_def)
  have degD: "degree D v = int (count_list (map me_target (ms_edges m)) v)" for v
    using set_defaults[of "dag_ids m" D0] by (simp add: D_def deg0)
  have queue: "zero_degree D = filter (\<lambda>v. degree D0 v = 0) (dag_ids m)"
    unfolding D_def
  proof (rule start_queue[OF dist keys0(2)])
    fix v assume "v \<in> fst ` set D0"
    then have "count_list (map me_target (ms_edges m)) v \<noteq> 0" unfolding keys0(1) count_list_0_iff by blast
    then show "degree D0 v > 0" unfolding deg0 by linarith
  qed
  obtain A2 D2 where b: "build_arcs (dag_ids m) (dag_arcs m) = (A2, D2)" by fastforce
  note spec = build_arcs_spec[OF b, unfolded inner]
  have deg2: "degree D2 v = degree D v" for v
  proof (cases "v \<in> set (dag_ids m)")
    case True
    then show ?thesis using spec(3) degD by (simp add: arcs_into_count)
  next
    case False
    then have "v \<notin> set (map me_target (ms_edges m))" using known by (auto simp: known_ends_def)
    moreover have "v \<notin> fst ` set D2" using False spec(1) by (metis set_map)
    ultimately show ?thesis using degD degree_absent by (simp add: count_list_0_iff)
  qed
  have "zero_degree D2 = zero_degree D"
    using zero_degree_filter[of D2] dist spec(1) queue by (simp add: deg2 degD deg0)
  moreover have "snd (kahn_run (\<lambda>u. dict_get_default (dag_adjacency m) u []) D (zero_degree D)) =
      snd (kahn_run (\<lambda>u. dict_get_default A2 u []) D2 (zero_degree D))"
    using deg2 known spec(2)
    by (intro kahn_run_cong[where V = "set (dag_ids m)"]) (auto simp: queue adjacency_succs set_succs known_ends_def)
  ultimately show ?thesis
    by (simp add: dag_order_def kahn_loop_run fold_snoc kahn_result_def b Let_def D_def D0_def)
qed

interpretation mission_dag: arc_source dag_ids dag_arcs valid_dag
  by unfold_locales (simp add: valid_dag_def)

lemma valid_arc_rel: "valid_dag m \<Longrightarrow> arc_rel (dag_ids m) (dag_arcs m) = set (dag_arcs m)"
  by (auto simp: valid_dag_def known_ends_def arc_rel_def)

text \<open>
  The order of a valid mission lists every node once, predecessors first; and it is the very order
  that the agent engine's topological sort computes for a graph with the same nodes and edges, although
  the two loops fill their tables differently.
\<close>

lemma mission_order_agrees:
  assumes "valid_dag m" and "keyed node_id (graph_nodes g)" and "dict_keys (graph_nodes g) = dag_ids m"
    and "map edge_arc (graph_edges g) = dag_arcs m"
  shows "distinct (dag_order m) \<and> set (dag_order m) = set (dag_ids m) \<and> topo (set (dag_arcs m)) (dag_order m) \<and>
    (\<exists>ns. topological_sort g = Inr ns \<and> map node_id ns = dag_order m)"
proof -
  have ac: "acyclic (arc_rel (dag_ids m) (dag_arcs m))" using assms(1) valid_arc_rel by (simp add: valid_dag_def)
  have "\<exists>ns. topological_sort g = Inr ns"
    using topological_sort_Inr_iff[OF assms(2)] ac assms(3,4) by simp
  then obtain ns where ns: "topological_sort g = Inr ns" by blast
  have "map node_id ns = dag_order m"
    using topological_sort_ids[OF assms(2) ns] dag_order_reference[OF assms(1)] assms(3,4) by simp
  then show ?thesis
    using ns mission_dag.order_permutes[OF assms(1) ac] mission_dag.order_sorted[OF assms(1)]
    unfolding dag_order_reference[OF assms(1)] valid_arc_rel[OF assms(1)] by blast
qed

definition chain_node :: "string \<Rightarrow> string list \<Rightarrow> mission_node" where
  "chain_node i deps = \<lparr>mn_id = i, mn_mission = ''m'', mn_title = i, mn_description = [], mn_type = ''task'',
     mn_priority = Priority_NORMAL, mn_status = Dag_PENDING, mn_agent = [], mn_runtime = [], mn_profile = [],
     mn_skills = [], mn_resources = [], mn_duration = 0, mn_depends = deps, mn_criteria = [], mn_outputs = [],
     mn_started = None, mn_completed = None, mn_actual = 0, mn_summary = []\<rparr>"

definition chain_mission :: mission where
  "chain_mission = \<lparr>ms_id = ''m'', ms_title = ''m'', ms_description = [], ms_objective = [],
     ms_type = Mission_CUSTOM, ms_priority = Priority_NORMAL, ms_status = MS_CREATED,
     ms_context = \<lparr>dc_project = [], dc_user = [], dc_repository = [], dc_branch = [], dc_local_path = [],
       dc_tags = [], dc_metadata = []\<rparr>,
     ms_nodes = [chain_node ''a'' [], chain_node ''b'' [''a'']],
     ms_edges = [\<lparr>me_id = ''e'', me_source = ''a'', me_target = ''b'', me_type = ''depends_on''\<rparr>],
     ms_metadata = [], ms_max_duration = 0, ms_created = 1, ms_updated = None, ms_started = None,
     ms_completed = None\<rparr>"

lemma chain_mission_arcs: "dag_ids chain_mission = [''a'', ''b'']" "dag_arcs chain_mission = [(''a'', ''b'')]"
  by (simp_all add: chain_mission_def chain_node_def)

lemma chain_mission_valid: "valid_dag chain_mission"
  using chain_mission_arcs
  by (auto simp: valid_dag_def known_ends_def acyclic_insert wf_acyclic chain_mission_def chain_node_def)

lemma mission_order_agrees_example:
  "distinct (dag_order chain_mission) \<and> (\<exists>ns. topological_sort chain_graph = Inr ns \<and> map node_id ns = dag_order chain_mission)"
  using mission_order_agrees[where m = chain_mission and g = chain_graph] chain_mission_valid chain_mission_arcs
  by (simp add: chain_graph_edges plain_edge_def keyed_def task_node_def)

subsection \<open>Parallel groups\<close>

text \<open>The nodes outside a set all of whose predecessors are inside it, and the layers they form one after another.\<close>

definition peel :: "'a set \<Rightarrow> ('a \<times> 'a) set \<Rightarrow> 'a set \<Rightarrow> 'a set" where
  "peel V R S = {v \<in> V. v \<notin> S \<and> (\<forall>u. (u, v) \<in> R \<longrightarrow> u \<in> S)}"

fun layers :: "'a::linorder set \<Rightarrow> ('a \<times> 'a) set \<Rightarrow> 'a set \<Rightarrow> 'a list list \<Rightarrow> bool" where
  "layers V R S [] \<longleftrightarrow> peel V R S = {}"
| "layers V R S (g # gs) \<longleftrightarrow> g \<noteq> [] \<and> g = sorted_list_of_set (peel V R S) \<and> layers V R (S \<union> set g) gs"

lemma finite_peel: "finite V \<Longrightarrow> finite (peel V R S)"
  by (simp add: peel_def)

lemma layers_distinct: "finite V \<Longrightarrow> layers V R S gs \<Longrightarrow>
    distinct (concat gs) \<and> set (concat gs) \<subseteq> V \<and> set (concat gs) \<inter> S = {}"
proof (induction gs arbitrary: S)
  case (Cons g gs)
  have g: "g = sorted_list_of_set (peel V R S)" "layers V R (S \<union> set g) gs"
    using Cons.prems(2) unfolding layers.simps by blast+
  then have "distinct g" "set g = peel V R S" using finite_peel[OF Cons.prems(1)] by simp_all
  moreover from this have "set g \<subseteq> V" "set g \<inter> S = {}" by (auto simp: peel_def)
  ultimately show ?case using Cons.IH[OF Cons.prems(1) g(2)] by auto
qed simp

lemma layers_end: "layers V R S gs \<Longrightarrow> peel V R (S \<union> set (concat gs)) = {}"
proof (induction gs arbitrary: S)
  case (Cons g gs)
  then have "layers V R (S \<union> set g) gs" unfolding layers.simps by blast
  from Cons.IH[OF this] show ?case by (simp add: Un_assoc)
qed simp

lemma topo_extend:
  "\<forall>v \<in> set g. \<forall>u. (u, v) \<in> R \<longrightarrow> u \<in> set us \<Longrightarrow> topo R us \<Longrightarrow> topo R (us @ g)"
proof (induction g rule: rev_induct)
  case (snoc v g)
  then show ?case by (simp add: topo_snoc del: append_assoc add: append_assoc[symmetric])
qed simp

lemma layers_complete:
  assumes "layers V R {} gs" and "finite V" and "R \<subseteq> V \<times> V"
  shows "acyclic R \<longleftrightarrow> set (concat gs) = V"
proof
  assume "acyclic R"
  then have wf: "wf R" using assms(2,3) by (meson finite_SigmaI finite_acyclic_wf finite_subset)
  have "v \<in> V \<Longrightarrow> v \<in> set (concat gs)" for v
    using wf
  proof (induction v rule: wf_induct_rule)
    case (less v)
    have "v \<notin> peel V R (set (concat gs))" using layers_end[OF assms(1)] by simp
    then show ?case using less assms(3) unfolding peel_def by blast
  qed
  with layers_distinct[OF assms(2,1)] show "set (concat gs) = V" by blast
next
  have topo: "layers V R S gs \<Longrightarrow> topo R us \<Longrightarrow> set us = S \<Longrightarrow> topo R (us @ concat gs)" for S us
  proof (induction gs arbitrary: S us)
    case (Cons g gs)
    have g: "g = sorted_list_of_set (peel V R S)" "layers V R (S \<union> set g) gs"
      using Cons.prems(1) unfolding layers.simps by blast+
    then have "set g = peel V R S" using finite_peel[OF assms(2)] by simp
    then have "\<forall>v \<in> set g. \<forall>u. (u, v) \<in> R \<longrightarrow> u \<in> set us" using Cons.prems(3) by (simp add: peel_def)
    from Cons.IH[OF g(2) topo_extend[OF this Cons.prems(2)]] Cons.prems(3) show ?case by simp
  qed simp
  assume "set (concat gs) = V"
  then have "R \<subseteq> set (concat gs) \<times> set (concat gs)" using assms(3) by simp
  moreover have "topo R (concat gs)" using topo[OF assms(1), of "[]"] by simp
  ultimately show "acyclic R" using topo_acyclic layers_distinct[OF assms(2,1)] by blast
qed

lemma level_loop_layers:
  assumes "kahn_inv V E P D Q" and "set E \<subseteq> set V \<times> set V" and "\<And>u. u \<in> set V \<Longrightarrow> adj u = succs E u"
  shows "layers (set V) (set E) (set P) (level_loop adj D Q)"
  using assms
proof (induction adj D Q arbitrary: P rule: level_loop.induct)
  case (1 adj D Q)
  have "\<forall>v \<in> set V. v \<in> set P \<or> v \<in> set Q \<longleftrightarrow> (\<forall>u. (u, v) \<in> set E \<longrightarrow> u \<in> set P)"
    and "set Q \<subseteq> set V" "set P \<inter> set Q = {}" and Q2: "distinct Q"
    using "1.prems"(1) by (auto simp: kahn_inv_def arcs_into_0)
  then have Q: "set Q = peel (set V) (set E) (set P)" unfolding peel_def by blast
  show ?case
  proof (cases "Q = []")
    case False
    obtain D' Q' where r: "relax (concat (map adj (sort Q))) D [] = (D', Q')" by fastforce
    have "kahn_inv V E P D (sort Q @ [])" using kahn_inv_perm[OF "1.prems"(1), of "sort Q"] by simp
    from kahn_inv_level[OF this "1.prems"(2,3) r] have inv: "kahn_inv V E (P @ sort Q) D' Q'" .
    have "sort Q \<noteq> []" using False by (metis set_empty set_sort)
    with "1.IH"[OF False r[symmetric] inv "1.prems"(2,3)] show ?thesis
      using False r by (simp add: level_loop.simps[of adj D Q] sorted_list_of_set_sort_remdups distinct_remdups_id[OF Q2]
          flip: Q)
  qed (use Q in \<open>simp add: level_loop.simps\<close>)
qed

lemma count_arcs_None: "count_arcs es A D = None \<longleftrightarrow>
    (\<exists>e \<in> set es. me_source e \<notin> fst ` set A \<or> me_target e \<notin> fst ` set D)"
proof (induction es A D rule: count_arcs.induct)
  case (2 e es A D)
  then show ?case using get_None_iff[of A "me_source e"] get_None_iff[of D "me_target e"]
    by (cases "dict_get A (me_source e)"; cases "dict_get D (me_target e)") (auto simp: insert_absorb)
qed simp

lemma count_arcs_spec: "count_arcs es A D = Some (A', D') \<Longrightarrow>
    degree D' v = degree D v + int (count_list (map me_target es) v) \<and> fst ` set D' = fst ` set D \<and>
    (distinct (map fst D) \<longrightarrow> distinct (map fst D')) \<and>
    dict_get_default A' u [] = dict_get_default A u [] @ succs (map dag_arc es) u"
proof (induction es A D rule: count_arcs.induct)
  case (2 e es A D)
  obtain ts k where a: "dict_get A (me_source e) = Some ts" and d: "dict_get D (me_target e) = Some k"
    using "2.prems" by (auto split: option.splits)
  then have "me_target e \<in> fst ` set D" "dict_get_default A (me_source e) [] = ts" "degree D (me_target e) = k"
    using get_Some_key[OF d] by (simp_all add: dict_get_default_def degree_def)
  then show ?case using "2.IH"[OF a d] "2.prems" a d by (auto simp: succs_def insert_absorb)
qed (simp add: succs_def)

text \<open>
  The parallel groups raise exactly when an edge names an unknown node. Otherwise each group is the
  sorted list of all nodes outside the earlier groups whose predecessors are all in them, groups are never
  empty and share no node, and they cover the mission exactly when its edges form no cycle (a cycle and
  what lies behind it is silently left out).
\<close>

lemma mission_groups_exact:
  "(parallel_groups m = None \<longleftrightarrow> \<not> known_ends m) \<and>
   (\<forall>gs. parallel_groups m = Some gs \<longrightarrow> layers (set (dag_ids m)) (set (dag_arcs m)) {} gs \<and> distinct (concat gs) \<and>
      (acyclic (set (dag_arcs m)) \<longleftrightarrow> set (concat gs) = set (dag_ids m)))"
proof -
  define A where "A = fold (\<lambda>v A. dict_set v [] A) (dag_ids m) ([] :: (string, string list) dict)"
  define D where "D = fold (\<lambda>v D. dict_set v 0 D) (dag_ids m) ([] :: string degrees)"
  have init: "fst ` set (fold (\<lambda>v. dict_set v x) vs X) = fst ` set X \<union> set vs \<and>
      (distinct (map fst X) \<longrightarrow> distinct (map fst (fold (\<lambda>v. dict_set v x) vs X))) \<and>
      ((\<forall>v. dict_get_default X v x = x) \<longrightarrow> dict_get_default (fold (\<lambda>v. dict_set v x) vs X) v x = x)"
    for x :: 'x and vs :: "string list" and X v
    by (induction vs arbitrary: X) auto
  have A: "fst ` set A = set (dag_ids m)" "dict_get_default A u [] = []" for u
    using init[of _ "dag_ids m" "[] :: (string, string list) dict"] by (simp_all add: A_def dict_get_default_def)
  have D: "fst ` set D = set (dag_ids m)" "distinct (map fst D)" "degree D v = 0" for v
    using init[of _ "dag_ids m" "[] :: string degrees"] by (simp_all add: D_def dict_get_default_def degree_def)
  have none: "parallel_groups m = None \<longleftrightarrow> \<not> known_ends m"
    by (auto simp: parallel_groups_def A_def[symmetric] D_def[symmetric] count_arcs_None A D known_ends_def)
  have "layers (set (dag_ids m)) (set (dag_arcs m)) {} gs \<and> set (dag_arcs m) \<subseteq> set (dag_ids m) \<times> set (dag_ids m)"
    if gs: "parallel_groups m = Some gs" for gs
  proof -
    have known: "known_ends m" using none gs by auto
    obtain A' D' where c: "count_arcs (ms_edges m) A D = Some (A', D')"
      and g: "gs = level_loop (\<lambda>u. dict_get_default A' u []) D' (zero_degree D')"
      using gs by (auto simp: parallel_groups_def A_def[symmetric] D_def[symmetric])
    have "init_degrees m D'"
      using count_arcs_spec[OF c] D known by (auto simp: init_degrees_def known_ends_def)
    from level_loop_layers[OF init_inv[OF this known] known_arcs[OF known], of "\<lambda>u. dict_get_default A' u []"]
    have "layers (set (remdups (dag_ids m))) (set (dag_arcs m)) (set []) gs"
      unfolding g using count_arcs_spec[OF c] A(2) by simp
    then show ?thesis using known_arcs[OF known] by simp
  qed
  note some = this
  show ?thesis
  proof (intro conjI allI impI)
    fix gs assume gs: "parallel_groups m = Some gs"
    note l = conjunct1[OF some[OF gs]]
    show "layers (set (dag_ids m)) (set (dag_arcs m)) {} gs" by (rule l)
    show "distinct (concat gs)" using layers_distinct[OF List.finite_set l] by blast
    show "acyclic (set (dag_arcs m)) \<longleftrightarrow> set (concat gs) = set (dag_ids m)"
      by (rule layers_complete[OF l List.finite_set conjunct2[OF some[OF gs]]])
  qed (rule none)
qed

lemma mission_groups_exact_example:
  "parallel_groups chain_mission = Some [[''a''], [''b'']] \<and> layers {''a'', ''b''} {(''a'', ''b'')} {} [[''a''], [''b'']]"
proof -
  have "parallel_groups chain_mission = Some [[''a''], [''b'']]" by code_simp
  moreover from this have "layers (set (dag_ids chain_mission)) (set (dag_arcs chain_mission)) {} [[''a''], [''b'']]"
    using mission_groups_exact[of chain_mission] by blast
  ultimately show ?thesis unfolding chain_mission_arcs list.set by blast
qed

end
