(* ===== verification/MissionVerification_Correct.thy ===== *)
theory MissionVerification_Correct
  imports MissionVerification MissionGraph_Correct
begin

text \<open>
  Correctness of the verification: the difference of two snapshots is exact outside the unreadable paths,
  a success is only confirmed on evidence read on disk, and the retry decision follows the verdict.
\<close>

subsection \<open>Difference of snapshots\<close>

definition unread :: "workspace_snapshot \<Rightarrow> workspace_snapshot \<Rightarrow> string set" where
  "unread b a = set (wp_unreadable b) \<union> set (wp_unreadable a)"

abbreviation content :: "workspace_snapshot \<Rightarrow> string \<Rightarrow> string option" where
  "content s p \<equiv> dict_get (wp_entries s) p"

lemma content_key: "p \<in> fst ` set (wp_entries s) \<longleftrightarrow> content s p \<noteq> None"
  using get_None_iff[of "wp_entries s" p] by auto

lemma changes_sets:
  "set (wd_created (workspace_changes b a)) = {p. p \<notin> unread b a \<and> content b p = None \<and> content a p \<noteq> None}"
  "set (wd_deleted (workspace_changes b a)) = {p. p \<notin> unread b a \<and> content b p \<noteq> None \<and> content a p = None}"
  "set (wd_modified (workspace_changes b a)) = {p. p \<notin> unread b a \<and> content b p \<noteq> None \<and> content a p \<noteq> None \<and>
     content b p \<noteq> content a p}"
  "set (wd_unknown (workspace_changes b a)) = unread b a"
proof -
  let ?keys = "\<lambda>s. fst ` set (wp_entries s) - unread b a"
  have fin: "finite (?keys s)" "finite (unread b a)" for s by (simp_all add: unread_def)
  have keys: "?keys s = {p. p \<notin> unread b a \<and> content s p \<noteq> None}" for s using content_key by blast
  have eq: "workspace_changes b a = \<lparr>wd_created = sorted_list_of_set (?keys a - ?keys b),
      wd_modified = sorted_list_of_set (Set.filter (\<lambda>k. content b k \<noteq> content a k) (?keys b \<inter> ?keys a)),
      wd_deleted = sorted_list_of_set (?keys b - ?keys a), wd_unknown = sorted_list_of_set (unread b a)\<rparr>"
    by (simp add: workspace_changes_def Let_def unread_def)
  have sets: "set (wd_created (workspace_changes b a)) = ?keys a - ?keys b"
    "set (wd_deleted (workspace_changes b a)) = ?keys b - ?keys a"
    "set (wd_modified (workspace_changes b a)) = Set.filter (\<lambda>k. content b k \<noteq> content a k) (?keys b \<inter> ?keys a)"
    "set (wd_unknown (workspace_changes b a)) = unread b a"
    unfolding eq using fin by simp_all
  show "set (wd_created (workspace_changes b a)) = {p. p \<notin> unread b a \<and> content b p = None \<and> content a p \<noteq> None}"
    unfolding sets keys by auto
  show "set (wd_deleted (workspace_changes b a)) = {p. p \<notin> unread b a \<and> content b p \<noteq> None \<and> content a p = None}"
    unfolding sets keys by auto
  show "set (wd_modified (workspace_changes b a)) = {p. p \<notin> unread b a \<and> content b p \<noteq> None \<and> content a p \<noteq> None \<and>
     content b p \<noteq> content a p}"
    unfolding sets keys by auto
  show "set (wd_unknown (workspace_changes b a)) = unread b a" by (rule sets)
qed

lemma touched_iff: "touched_anything (workspace_changes b a) \<longleftrightarrow> (\<exists>p. p \<notin> unread b a \<and> content b p \<noteq> content a p)"
proof -
  have "touched_anything (workspace_changes b a) \<longleftrightarrow> set (wd_created (workspace_changes b a)) \<union>
      set (wd_modified (workspace_changes b a)) \<union> set (wd_deleted (workspace_changes b a)) \<noteq> {}"
    by (simp add: touched_anything_def)
  also have "\<dots> \<longleftrightarrow> (\<exists>p. p \<notin> unread b a \<and> content b p \<noteq> content a p)"
    unfolding changes_sets by fastforce
  finally show ?thesis .
qed

text \<open>
  The difference of two snapshots sorts every path that could be read on both sides: created, deleted
  or modified exactly when its fingerprint appeared, disappeared or changed, in sorted lists without
  repetition; an unreadable path is reported as unknown and never as work; and something was touched
  exactly when the fingerprints of the readable paths differ.
\<close>

lemma workspace_changes_exact:
  "set (wd_created (workspace_changes b a)) = {p. p \<notin> unread b a \<and> content b p = None \<and> content a p \<noteq> None} \<and>
   set (wd_deleted (workspace_changes b a)) = {p. p \<notin> unread b a \<and> content b p \<noteq> None \<and> content a p = None} \<and>
   set (wd_modified (workspace_changes b a)) =
     {p. p \<notin> unread b a \<and> content b p \<noteq> None \<and> content a p \<noteq> None \<and> content b p \<noteq> content a p} \<and>
   (\<forall>f \<in> {wd_created, wd_deleted, wd_modified, wd_unknown}. sorted (f (workspace_changes b a)) \<and>
      distinct (f (workspace_changes b a))) \<and>
   (touched_anything (workspace_changes b a) \<longleftrightarrow> (\<exists>p. p \<notin> unread b a \<and> content b p \<noteq> content a p))"
  unfolding changes_sets touched_iff by (simp add: workspace_changes_def Let_def)

definition snap :: "(string \<times> string) list \<Rightarrow> workspace_snapshot" where
  "snap es = \<lparr>wp_root = ''/w'', wp_entries = es, wp_readable = True, wp_unreadable = []\<rparr>"

lemma workspace_changes_exact_example:
  "sorted (wd_created (workspace_changes (snap []) (snap [(''b'', ''1''), (''a'', ''1'')])))"
  using workspace_changes_exact[of "snap []" "snap [(''b'', ''1''), (''a'', ''1'')]"] by blast

subsection \<open>Verdict\<close>

lemma set_announced: "set (announced ns) = (\<Union>n \<in> set ns. set (mn_outputs n))"
proof -
  have "set (fold add_absent xs ys) = set ys \<union> set xs" for xs ys :: "string list"
    by (induction xs arbitrary: ys) (auto simp: add_absent_def)
  then show ?thesis by (simp add: announced_def)
qed

lemma manifest_denies_iff: "manifest_denies (manifest_verdict is_dir there m w) \<longleftrightarrow>
    w \<noteq> [] \<and> is_dir w \<and> (\<exists>n \<in> set (ms_nodes m). \<exists>p \<in> set (mn_outputs n). \<not> there w p)"
proof -
  have "filter (\<lambda>p. \<not> there w p) (announced (ms_nodes m)) \<noteq> [] \<longleftrightarrow>
      (\<exists>n \<in> set (ms_nodes m). \<exists>p \<in> set (mn_outputs n). \<not> there w p)"
    by (auto simp: filter_empty_conv set_announced)
  then show ?thesis
    by (auto simp: manifest_denies_def manifest_verdict_def Let_def truthy_at_def)
qed

lemma measured_iff: "mv_measured (verify_mission ins mid rep ws before after m) \<longleftrightarrow>
    (\<exists>w b a. ws = Some w \<and> before = Some b \<and> after = Some a \<and> wp_readable b \<and> wp_readable a)"
  by (auto simp: verify_mission_def unmeasured_def Let_def split: option.splits)

lemma unmeasured_verdict: "\<not> mv_measured v \<Longrightarrow> mission_verdict v = Verdict_INDISPONIBLE"
  by (simp add: mission_verdict_def)

text \<open>The runner ran the tests of the workspace and reported a failure.\<close>

definition red_run :: "instruments \<Rightarrow> string \<Rightarrow> bool" where
  "red_run ins w \<longleftrightarrow> (\<exists>name r. in_runner ins w = Some name \<and> in_run ins w name = Inr r \<and> tr_ran r \<and> \<not> tr_passed r)"

lemma tests_passed_iff: "tests_passed (tests_verdict ins w rep) False \<longleftrightarrow> rep \<and> red_run ins w"
  by (auto simp: tests_verdict_def tests_passed_def truthy_at_def red_run_def split: option.splits sum.splits)

lemma success_iff: "mission_verdict v = Verdict_REUSSI \<longleftrightarrow> verified v \<and> mv_escaping v = None \<and> mv_fake v = None \<and>
    mv_tautology v = None \<and> mv_empty v = None \<and> mv_sql v = None"
  by (auto simp: mission_verdict_def verified_def contradicted_def already_done_def)

text \<open>
  C14. A reported success is confirmed exactly on evidence: both snapshots were taken and readable, some
  readable path has another fingerprint than before, no test run failed, every announced deliverable
  exists, no import cycle was proved fatal and none of the other analysers found anything. Without two
  readable snapshots the verdict is that nothing is known, never a success and never a failure.
\<close>

theorem verdict_needs_evidence:
  "(mission_verdict (verify_mission ins mid rep ws before after m) = Verdict_REUSSI \<longleftrightarrow>
      rep \<and> (\<exists>w b a. ws = Some w \<and> before = Some b \<and> after = Some a \<and> wp_readable b \<and> wp_readable a \<and>
        (\<exists>p. p \<notin> unread b a \<and> content b p \<noteq> content a p) \<and> \<not> red_run ins w \<and>
        (\<forall>x. m = Some x \<and> w \<noteq> [] \<and> in_root ins w \<longrightarrow>
           (\<forall>n \<in> set (ms_nodes x). \<forall>p \<in> set (mn_outputs n). in_exists ins w p)) \<and>
        \<not> imports_deny (in_imports ins w) \<and> in_escaping ins w = None \<and> in_fake ins w = None \<and>
        in_tautology ins w = None \<and>
        in_empty ins w (wd_created (workspace_changes b a) @ wd_modified (workspace_changes b a)) = None \<and>
        in_sql ins w (wd_created (workspace_changes b a) @ wd_modified (workspace_changes b a)) = None)) \<and>
   (\<not> (\<exists>w b a. ws = Some w \<and> before = Some b \<and> after = Some a \<and> wp_readable b \<and> wp_readable a) \<longrightarrow>
      mission_verdict (verify_mission ins mid rep ws before after m) = Verdict_INDISPONIBLE)"
proof (cases "mv_measured (verify_mission ins mid rep ws before after m)")
  case False
  then show ?thesis using measured_iff unmeasured_verdict[OF False] by (metis verdict.distinct(3))
next
  case True
  then obtain w b a where s: "ws = Some w" "before = Some b" "after = Some a" "wp_readable b" "wp_readable a"
    unfolding measured_iff by blast
  have none: "manifest_denies None = False" by (simp add: manifest_denies_def)
  show ?thesis
    using s by (cases m) (auto simp: success_iff verified_def verify_mission_def Let_def touched_iff tests_fail_def
        tests_passed_iff manifest_misses_def manifest_denies_iff imports_loop_def none)
qed

definition quiet_tools :: instruments where
  "quiet_tools = \<lparr>in_runner = (\<lambda>_. None), in_run = (\<lambda>_ _. Inl ''no runner''), in_root = (\<lambda>_. True),
     in_exists = (\<lambda>_ p. p = ''a''), in_imports = (\<lambda>_. None), in_escaping = (\<lambda>_. None), in_fake = (\<lambda>_. None),
     in_tautology = (\<lambda>_. None), in_empty = (\<lambda>_ _. None), in_sql = (\<lambda>_ _. None)\<rparr>"

theorem verdict_needs_evidence_witness:
  "mission_verdict (verify_mission quiet_tools ''m'' True (Some ''/w'') (Some (snap [])) (Some (snap [(''a'', ''1'')]))
     None) = Verdict_REUSSI"
  using verdict_needs_evidence[where ins = quiet_tools and mid = "''m''" and rep = True and ws = "Some ''/w''"
      and before = "Some (snap [])" and after = "Some (snap [(''a'', ''1'')])" and m = None]
  by (simp add: quiet_tools_def snap_def unread_def red_run_def imports_deny_def)

text \<open>
  The two booleans of the report are not opposites: a report says both \<^verbatim>\<open>verified\<close> and \<^verbatim>\<open>contradicted\<close>
  exactly when only one of the five late analysers objects to a mission whose files changed.
\<close>

lemma verified_and_contradicted:
  "verified v \<and> contradicted v \<longleftrightarrow> verified v \<and> (mv_escaping v \<noteq> None \<or> mv_fake v \<noteq> None \<or> mv_tautology v \<noteq> None \<or>
     mv_empty v \<noteq> None \<or> mv_sql v \<noteq> None)"
  by (auto simp: verified_def contradicted_def already_done_def)

subsection \<open>Retry\<close>

lemma opt_dict_sub [simp]:
  "(if \<not> truthy (opt_dict v) then Some [] else case opt_dict v of PDict m \<Rightarrow> Some m | _ \<Rightarrow> None) =
     Some (case v of None \<Rightarrow> [] | Some d \<Rightarrow> d)"
  by (cases v) (auto simp: opt_dict_def)

lemma verification_gets:
  "truthy_at (verification_dict say v) ''measured'' = mv_measured v"
  "truthy_at (verification_dict say v) ''contradicted'' = contradicted v"
  "truthy_at (verification_dict say v) ''created'' = (wd_created (mv_changes v) \<noteq> [])"
  "truthy_at (verification_dict say v) ''modified'' = (wd_modified (mv_changes v) \<noteq> [])"
  "truthy_at (verification_dict say v) ''deleted'' = (wd_deleted (mv_changes v) \<noteq> [])"
  "sub_dict (verification_dict say v) ''tests'' = Some (case mv_tests v of None \<Rightarrow> [] | Some d \<Rightarrow> d)"
  "sub_dict (verification_dict say v) ''manifeste'' = Some (case mv_manifest v of None \<Rightarrow> [] | Some d \<Rightarrow> d)"
  "sub_dict (verification_dict say v) ''imports'' = Some (case mv_imports v of None \<Rightarrow> [] | Some d \<Rightarrow> d)"
  by (simp_all add: truthy_at_def sub_dict_def verification_dict_def Let_def)

lemma contradicted_measured: "contradicted v \<Longrightarrow> mv_measured v"
  by (simp add: contradicted_def)

lemma denied_at:
  "tests_fail v \<longleftrightarrow> (let t = (case mv_tests v of None \<Rightarrow> [] | Some d \<Rightarrow> d) in
     truthy_at t ''ran'' \<and> dict_get t ''passed'' = Some (PBool False))"
  "manifest_misses v \<longleftrightarrow> truthy_at (case mv_manifest v of None \<Rightarrow> [] | Some d \<Rightarrow> d) ''manquants''"
  "imports_loop v \<longleftrightarrow> truthy_at (case mv_imports v of None \<Rightarrow> [] | Some d \<Rightarrow> d) ''fatals''"
  by (auto simp: tests_fail_def tests_passed_def manifest_misses_def manifest_denies_def imports_loop_def
      imports_deny_def truthy_at_def split: option.splits)

definition motif_of :: "mission_verification \<Rightarrow> retry_reason" where
  "motif_of v = (if tests_fail v then TestsRed else if manifest_misses v then DeliverablesMissing
     else if imports_loop v then ImportCycle else WorkspaceUnchanged)"

lemma retry_motif_report: "retry_motif (verification_dict say v) = Some (motif_of v)"
  by (simp add: retry_motif_def verification_gets motif_of_def denied_at Let_def)

definition listable :: "metadata option \<Rightarrow> string \<Rightarrow> bool" where
  "listable d k = (case d of None \<Rightarrow> True | Some x \<Rightarrow> (case dict_get x k of None \<Rightarrow> True | Some v \<Rightarrow> \<not> truthy v \<or> iterable v))"

lemma listed_report: "listable d k \<Longrightarrow>
    \<exists>xs. listed f (case d of None \<Rightarrow> [] | Some x \<Rightarrow> x) k = Some xs \<and> set xs \<subseteq> range f \<and>
      (xs = [] \<longleftrightarrow> \<not> truthy_at (case d of None \<Rightarrow> [] | Some x \<Rightarrow> x) k)"
  by (auto simp: listable_def listed_def truthy_at_def split: option.splits)

lemma retry_findings_report:
  assumes "listable (mv_manifest v) ''manquants''" and "listable (mv_imports v) ''fatals''"
  shows "\<exists>fs. retry_findings (verification_dict say v) = Some fs \<and> fs \<noteq> [] \<and>
    ((\<exists>w s. Unchanged w s \<in> set fs) \<longleftrightarrow> \<not> touched_anything (mv_changes v)) \<and>
    (NoCause \<in> set fs \<longleftrightarrow> touched_anything (mv_changes v) \<and> \<not> tests_fail v \<and> \<not> manifest_misses v \<and> \<not> imports_loop v)"
proof -
  obtain ms where ms: "listed Missing (case mv_manifest v of None \<Rightarrow> [] | Some d \<Rightarrow> d) ''manquants'' = Some ms"
    "set ms \<subseteq> range Missing" "ms = [] \<longleftrightarrow> \<not> manifest_misses v"
    using listed_report[OF assms(1), of Missing] unfolding denied_at by blast
  obtain cs where cs: "listed FatalCycles (case mv_imports v of None \<Rightarrow> [] | Some d \<Rightarrow> d) ''fatals'' = Some cs"
    "set cs \<subseteq> range FatalCycles" "cs = [] \<longleftrightarrow> \<not> imports_loop v"
    using listed_report[OF assms(2), of FatalCycles] unfolding denied_at by blast
  have "Unchanged w s \<notin> set ms" "NoCause \<notin> set ms" "Unchanged w s \<notin> set cs" "NoCause \<notin> set cs" for w s
    using ms(2) cs(2) by auto
  then show ?thesis
    using ms(1,3) cs(1,3)
    by (auto simp: retry_findings_def verification_gets Let_def touched_anything_def denied_at(1))
qed

text \<open>
  On the report of a verification the retry policy never raises, as long as the analysers list what
  they found: it retries exactly a contradicted success while attempts remain, counts the attempt, gives
  the first of the three known causes as its reason, and hands back a brief whose findings are never empty
  and claim an unchanged workspace exactly when nothing changed. When only one of the late analysers
  objects, files did change, and yet the reason given is that the workspace did not.
\<close>

lemma retry_decision_exact:
  assumes "listable (mv_manifest v) ''manquants''" and "listable (mv_imports v) ''fatals''"
  shows "\<exists>d. decide_retry (Some (verification_dict say v)) objective made limit = Some d \<and>
    (rd_retry d \<longleftrightarrow> contradicted v \<and> made < limit) \<and> (rd_brief d \<noteq> None \<longleftrightarrow> rd_retry d) \<and>
    (rd_retry d \<longrightarrow> rd_attempt d = made + 1 \<and>
       rd_reason d = (if tests_fail v then TestsRed else if manifest_misses v then DeliverablesMissing
         else if imports_loop v then ImportCycle else WorkspaceUnchanged) \<and>
       (\<exists>b. rd_brief d = Some b \<and> rb_findings b \<noteq> [] \<and>
          ((\<exists>w s. Unchanged w s \<in> set (rb_findings b)) \<longleftrightarrow> \<not> touched_anything (mv_changes v)))) \<and>
    (rd_retry d \<and> verified v \<longrightarrow> rd_reason d = WorkspaceUnchanged \<and> touched_anything (mv_changes v))"
proof -
  obtain fs where fs: "retry_findings (verification_dict say v) = Some fs" "fs \<noteq> []"
    "(\<exists>w s. Unchanged w s \<in> set fs) \<longleftrightarrow> \<not> touched_anything (mv_changes v)"
    using retry_findings_report[OF assms] by blast
  show ?thesis
    using fs contradicted_measured
    by (auto simp: decide_retry_def verification_gets retry_motif_report motif_of_def build_retry_brief_def
        no_retry_def verified_def)
qed

definition tautology_report :: mission_verification where
  "tautology_report = verify_mission (quiet_tools\<lparr>in_tautology := \<lambda>_. Some [(''fichier'', PStr ''test_a.py'')]\<rparr>)
     ''m'' True (Some ''/w'') (Some (snap [])) (Some (snap [(''a'', ''1'')])) None"

lemma retry_decision_exact_example:
  "\<exists>d. decide_retry (Some (verification_dict (\<lambda>_. []) tautology_report)) ''goal'' 1 default_max_attempts = Some d \<and>
     rd_retry d \<and> rd_reason d = WorkspaceUnchanged \<and> touched_anything (mv_changes tautology_report)"
proof -
  have "listable (mv_manifest tautology_report) ''manquants''" "listable (mv_imports tautology_report) ''fatals''"
    and "contradicted tautology_report" "verified tautology_report"
    by (simp_all add: tautology_report_def verify_mission_def snap_def quiet_tools_def listable_def contradicted_def
        verified_def touched_iff unread_def tests_fail_def tests_passed_def tests_verdict_def manifest_misses_def
        manifest_denies_def imports_loop_def imports_deny_def truthy_at_def Let_def)
  then show ?thesis
    using retry_decision_exact[where v = tautology_report and say = "\<lambda>_. []" and objective = "''goal''" and made = 1
        and limit = default_max_attempts]
    by (auto simp: default_max_attempts_def)
qed

end
