(* ===== verification/MissionExecutor_Correct.thy ===== *)
theory MissionExecutor_Correct
  imports MissionExecutor MissionVerification_Correct
begin

text \<open>
  Correctness of the mission engine: the gate, what one step does to every node, the invariant of the
  dependencies, the end of the walk and its outcome, durability, and the bound on retries.
\<close>

subsection \<open>Gate\<close>

datatype gate_op = GateEnter int | GateLeave

text \<open>Nodes that enter wait until they are let in; only a node that is inside leaves.\<close>

inductive gate_run :: "int \<Rightarrow> gate_op list \<Rightarrow> int \<Rightarrow> bool" where
  gate_start: "gate_run busy [] busy"
| gate_in: "gate_run busy ops b \<Longrightarrow> gate_enter limit b = Some b' \<Longrightarrow> gate_run busy (ops @ [GateEnter limit]) b'"
| gate_out: "gate_run busy ops b \<Longrightarrow> b > 0 \<Longrightarrow> gate_run busy (ops @ [GateLeave]) (gate_leave b)"

text \<open>
  Whatever missions share the gate and in whatever order their nodes enter and leave, the number of
  running nodes never exceeds the largest limit asked for (at least one), and never falls below zero; and
  an empty gate lets the next node in whatever its limit, so that no capacity can freeze the machine.
\<close>

lemma gate_bounded:
  assumes "gate_run 0 ops busy" and "\<And>limit. GateEnter limit \<in> set ops \<Longrightarrow> limit \<le> bound"
  shows "0 \<le> busy \<and> busy \<le> max 1 bound \<and> gate_enter limit 0 = Some 1"
proof -
  have "0 \<le> busy \<and> busy \<le> max 1 bound"
    using assms
  proof (induction "0 :: int" ops busy rule: gate_run.induct)
    case (gate_in ops b limit b')
    then have "0 \<le> b" "limit \<le> bound" by auto
    with gate_in.hyps(3) show ?case by (auto simp: gate_enter_def split: if_splits)
  qed (auto simp: gate_leave_def)
  then show ?thesis by (simp add: gate_enter_def)
qed

lemma gate_bounded_example: "\<exists>busy. gate_run 0 [GateEnter 2, GateEnter 2] busy \<and> 0 \<le> busy \<and> busy \<le> 2"
proof -
  have "gate_run 0 ([] @ [GateEnter 2]) 1" by (rule gate_in[OF gate_start]) (simp add: gate_enter_def)
  from gate_in[OF this, of 2 2] have "gate_run 0 [GateEnter 2, GateEnter 2] 2" by (simp add: gate_enter_def)
  with gate_bounded[OF this, of 2] show ?thesis by auto
qed

subsection \<open>Lookup and update of nodes\<close>

definition statuses :: "mission \<Rightarrow> string \<Rightarrow> dag_status option" where
  "statuses m v = map_option mn_status (find_dag_node v m)"

lemma find_update_first:
  assumes "\<And>n. mn_id (f n) = mn_id n"
  shows "List.find (\<lambda>n. mn_id n = v) (update_first (\<lambda>n. mn_id n = u) f ns) =
    (if v = u then map_option f (List.find (\<lambda>n. mn_id n = u) ns) else List.find (\<lambda>n. mn_id n = v) ns)"
  by (induction ns) (auto simp: assms)

lemma find_update_node:
  "(\<And>n. mn_id (f n) = mn_id n) \<Longrightarrow>
     find_dag_node v (update_node u f m) = (if v = u then map_option f (find_dag_node u m) else find_dag_node v m)"
  using find_update_first[of f v u "ms_nodes m"] by (simp add: find_dag_node_def update_node_def)

lemma map_update_first: "(\<And>n. g (f n) = g n) \<Longrightarrow> map g (update_first P f ns) = map g ns"
  by (induction ns) auto

lemma update_node_shape: "update_node u f m = m\<lparr>ms_nodes := ms_nodes (update_node u f m)\<rparr>"
  by (simp add: update_node_def)

lemma update_node_map: "(\<And>n. g (f n) = g n) \<Longrightarrow> map g (ms_nodes (update_node u f m)) = map g (ms_nodes m)"
  by (simp add: update_node_def map_update_first)

text \<open>Two missions with the same nodes in the same places but for their status and their measures.\<close>

definition node_key :: "mission_node \<Rightarrow> string \<times> string list" where
  "node_key n = (mn_id n, mn_depends n)"

definition same_layout :: "mission \<Rightarrow> mission \<Rightarrow> bool" where
  "same_layout m m' \<longleftrightarrow> m' = m\<lparr>ms_nodes := ms_nodes m'\<rparr> \<and> map node_key (ms_nodes m') = map node_key (ms_nodes m)"

lemma same_layout_refl [simp]: "same_layout m m"
  by (simp add: same_layout_def)

lemma same_layout_trans: "same_layout m m' \<Longrightarrow> same_layout m' m'' \<Longrightarrow> same_layout m m''"
  unfolding same_layout_def by (metis mission.surjective mission.update_convs(9))

lemma same_layout_update: "(\<And>n. node_key (f n) = node_key n) \<Longrightarrow> same_layout m (update_node u f m)"
  by (simp add: same_layout_def update_node_map) (rule update_node_shape)

lemma same_layout_edges: "same_layout m m' \<Longrightarrow> ms_edges m' = ms_edges m \<and> ms_status m' = ms_status m \<and> ms_id m' = ms_id m \<and>
    ms_metadata m' = ms_metadata m \<and> dag_ids m' = dag_ids m \<and> length (ms_nodes m') = length (ms_nodes m)"
proof -
  assume s: "same_layout m m'"
  then have "map fst (map node_key (ms_nodes m')) = map fst (map node_key (ms_nodes m))" by (simp add: same_layout_def)
  then have "dag_ids m' = dag_ids m" by (simp add: node_key_def o_def)
  moreover from this have "length (ms_nodes m') = length (ms_nodes m)" by (metis length_map)
  moreover have "m' = m\<lparr>ms_nodes := ms_nodes m'\<rparr>" using s by (simp add: same_layout_def)
  then have "ms_edges m' = ms_edges m \<and> ms_status m' = ms_status m \<and> ms_id m' = ms_id m \<and> ms_metadata m' = ms_metadata m"
    by (metis mission.select_convs(1,7,10,11) mission.surjective mission.update_convs(9))
  ultimately show ?thesis by blast
qed

lemma find_known: "find_dag_node v m = None \<longleftrightarrow> v \<notin> set (dag_ids m)"
  by (auto simp: find_dag_node_def find_None_iff)

lemma statuses_None: "statuses m v = None \<longleftrightarrow> v \<notin> set (dag_ids m)"
  by (simp add: statuses_def find_known)

lemma find_node_in:
  "distinct (dag_ids m) \<Longrightarrow> n \<in> set (ms_nodes m) \<Longrightarrow> find_dag_node (mn_id n) m = Some n"
proof -
  have "distinct (map mn_id ns) \<Longrightarrow> n \<in> set ns \<Longrightarrow> List.find (\<lambda>x. mn_id x = mn_id n) ns = Some n" for ns
    by (induction ns) (auto simp: image_iff)
  then show "distinct (dag_ids m) \<Longrightarrow> n \<in> set (ms_nodes m) \<Longrightarrow> find_dag_node (mn_id n) m = Some n"
    by (simp add: find_dag_node_def)
qed

lemma statuses_node: "distinct (dag_ids m) \<Longrightarrow> n \<in> set (ms_nodes m) \<Longrightarrow> statuses m (mn_id n) = Some (mn_status n)"
  by (simp add: statuses_def find_node_in)

lemma dependencies_satisfied_iff: "dependencies_satisfied m n \<longleftrightarrow> (\<forall>d \<in> set (mn_depends n). statuses m d = Some Dag_COMPLETED)"
  by (auto simp: dependencies_satisfied_def list_all_iff statuses_def split: option.splits)

subsection \<open>Settling the nodes of a step\<close>

lemma statuses_completed:
  "v \<in> set (dag_ids m) \<Longrightarrow> statuses (fst (mark_completed now v m)) = (statuses m)(v \<mapsto> Dag_COMPLETED) \<and>
     same_layout m (fst (mark_completed now v m))"
  using find_known[of v m]
  by (auto simp: mark_completed_def statuses_def find_update_node node_key_def fun_eq_iff intro!: same_layout_update
      split: option.splits)

lemma statuses_block: "statuses (block_node u m) v = (if v = u \<and> statuses m v = Some Dag_PENDING then Some Dag_BLOCKED else statuses m v) \<and>
    same_layout m (block_node u m)"
  by (cases "find_dag_node u m")
    (auto simp: block_node_def statuses_def find_update_node node_key_def intro!: same_layout_update)

lemma statuses_blocks: "statuses (fold block_node us m) v =
      (if v \<in> set us \<and> statuses m v = Some Dag_PENDING then Some Dag_BLOCKED else statuses m v) \<and>
    same_layout m (fold block_node us m)"
proof (induction us arbitrary: m)
  case (Cons u us)
  note ih = Cons.IH[of "block_node u m"] and one = statuses_block[of u m]
  have "same_layout m (fold block_node us (block_node u m))" using ih one same_layout_trans by blast
  moreover have "statuses (fold block_node us (block_node u m)) v =
      (if v \<in> set (u # us) \<and> statuses m v = Some Dag_PENDING then Some Dag_BLOCKED else statuses m v)"
    using conjunct1[OF ih] conjunct1[OF one[of v]]
    by (cases "v = u"; cases "v \<in> set us"; cases "statuses m v = Some Dag_PENDING") simp_all
  ultimately show ?case by simp
qed simp

lemma statuses_failed:
  assumes "u \<in> set (dag_ids m)"
  shows "statuses (fst (mark_failed u m)) v = (if v = u then Some Dag_FAILED
      else if v \<in> set (dependents u m) \<and> statuses m v = Some Dag_PENDING then Some Dag_BLOCKED else statuses m v) \<and>
    same_layout m (fst (mark_failed u m))"
proof -
  obtain n where n: "find_dag_node u m = Some n" using assms find_known[of u m] by auto
  let ?m = "update_node u (\<lambda>n. n\<lparr>mn_status := Dag_FAILED\<rparr>) m"
  have st: "statuses ?m w = (if w = u then Some Dag_FAILED else statuses m w)" for w
    using n by (simp add: statuses_def find_update_node)
  have "same_layout m ?m" by (rule same_layout_update) (simp add: node_key_def)
  then show ?thesis
    using statuses_blocks[of "dependents u m" ?m v] st same_layout_trans n by (auto simp: mark_failed_def)
qed

definition settled_status :: "(string, bool) dict \<Rightarrow> string list \<Rightarrow> (string \<times> string) set \<Rightarrow> (string \<Rightarrow> dag_status option)
    \<Rightarrow> string \<Rightarrow> dag_status option" where
  "settled_status R ids E st v =
     (if v \<in> set ids then Some (if dict_get_default R v False then Dag_COMPLETED else Dag_FAILED)
      else if st v = Some Dag_PENDING \<and> (\<exists>u \<in> set ids. \<not> dict_get_default R u False \<and> (u, v) \<in> E) then Some Dag_BLOCKED
      else st v)"

lemma settled_status_Cons: "x \<notin> set ids \<Longrightarrow>
    settled_status R ids E (settled_status R [x] E st) v = settled_status R (x # ids) E st v"
proof -
  let ?bad = "\<lambda>u. \<not> dict_get_default R u False \<and> (u, v) \<in> E"
  let ?s1 = "settled_status R [x] E st v"
  assume x: "x \<notin> set ids"
  consider "v \<in> set ids" | "v = x" | "v \<notin> set ids" "v \<noteq> x" by blast
  then show ?thesis
  proof cases
    case 2
    then have "?s1 = Some Dag_COMPLETED \<or> ?s1 = Some Dag_FAILED" by (simp add: settled_status_def)
    then have "?s1 \<noteq> Some Dag_PENDING" by auto
    then show ?thesis using 2 x unfolding settled_status_def[of R ids] by (simp add: settled_status_def)
  next
    case 3
    have s1: "?s1 = (if st v = Some Dag_PENDING \<and> ?bad x then Some Dag_BLOCKED else st v)"
      using 3 by (simp add: settled_status_def)
    define b where "b = ?bad x"
    define bs where "bs = (\<exists>u \<in> set ids. ?bad u)"
    have l: "settled_status R ids E (settled_status R [x] E st) v = (if ?s1 = Some Dag_PENDING \<and> bs then Some Dag_BLOCKED else ?s1)"
      unfolding settled_status_def[of R ids] bs_def using 3 by presburger
    have r: "settled_status R (x # ids) E st v = (if st v = Some Dag_PENDING \<and> (b \<or> bs) then Some Dag_BLOCKED else st v)"
      unfolding settled_status_def[of R "x # ids"] bs_def b_def using 3 by simp
    show ?thesis unfolding l r s1 b_def[symmetric] by (cases b; cases bs; cases "st v = Some Dag_PENDING") simp_all
  qed (simp add: settled_status_def)
qed

lemma dependents_arcs: "v \<in> set (dependents u m) \<longleftrightarrow> (u, v) \<in> set (dag_arcs m)"
  by (auto simp: dependents_def)

lemma settle_one:
  assumes "mn_id n \<in> set (dag_ids m)" and "statuses m (mn_id n) = Some Dag_RUNNING"
  shows "statuses (fst (settle_node now R n (m, evs))) v = settled_status R [mn_id n] (set (dag_arcs m)) (statuses m) v \<and>
    same_layout m (fst (settle_node now R n (m, evs)))"
  using statuses_completed[OF assms(1), of now] statuses_failed[OF assms(1), of v]
  by (auto simp: settle_node_def Let_def settled_status_def dependents_arcs)

lemma settle_fold:
  assumes "distinct (map mn_id ns)" and "\<And>n. n \<in> set ns \<Longrightarrow> statuses m (mn_id n) = Some Dag_RUNNING"
  shows "statuses (fst (fold (settle_node now R) ns (m, evs))) v = settled_status R (map mn_id ns) (set (dag_arcs m)) (statuses m) v \<and>
    same_layout m (fst (fold (settle_node now R) ns (m, evs)))"
  using assms
proof (induction ns arbitrary: m evs v)
  case (Cons n ns)
  have run: "statuses m (mn_id n) = Some Dag_RUNNING" using Cons.prems(2) by simp
  then have known: "mn_id n \<in> set (dag_ids m)" by (metis option.distinct(1) statuses_None)
  obtain m1 evs1 where s: "settle_node now R n (m, evs) = (m1, evs1)" by fastforce
  have st: "statuses m1 w = settled_status R [mn_id n] (set (dag_arcs m)) (statuses m) w" for w
    using settle_one[OF known run, of now R evs w] s by simp
  have sh: "same_layout m m1" using settle_one[OF known run, of now R evs] s by simp
  then have arcs: "dag_arcs m1 = dag_arcs m" using same_layout_edges by presburger
  have "\<And>x. x \<in> set ns \<Longrightarrow> statuses m1 (mn_id x) = Some Dag_RUNNING"
    using Cons.prems by (simp add: st settled_status_def) (metis image_eqI)
  from Cons.IH[OF _ this, where evs = evs1 and v = v] Cons.prems(1) have ih:
    "statuses (fst (fold (settle_node now R) ns (m1, evs1))) v = settled_status R (map mn_id ns) (set (dag_arcs m)) (statuses m1) v"
    "same_layout m1 (fst (fold (settle_node now R) ns (m1, evs1)))"
    unfolding arcs by auto
  have "statuses m1 = settled_status R [mn_id n] (set (dag_arcs m)) (statuses m)" using st by blast
  then show ?case
    using ih same_layout_trans[OF sh ih(2)] Cons.prems(1) s settled_status_Cons[of "mn_id n" "map mn_id ns" R] by simp
qed (simp add: settled_status_def)

subsection \<open>One step\<close>

text \<open>The callable that runs a node keeps its identity, its dependencies and the status it was given.\<close>

definition polite :: "step_env \<Rightarrow> bool" where
  "polite env \<longleftrightarrow> (\<forall>n. node_key (fst (se_run env n)) = node_key n \<and> mn_status (fst (se_run env n)) = mn_status n)"

text \<open>The answer the step retains for a node: a node without a place, silent or raising has failed.\<close>

definition node_succeeds :: "step_env \<Rightarrow> mission_node \<Rightarrow> bool" where
  "node_succeeds env n \<longleftrightarrow> se_place env n \<and> snd (se_run env n) = Answer True"

lemma run_gated_node:
  "polite env \<Longrightarrow> node_key (fst (run_gated env limit n)) = node_key n \<and> mn_status (fst (run_gated env limit n)) = mn_status n"
  by (auto simp: run_gated_def polite_def split: prod.splits node_answer.splits) (metis fst_conv)+

lemma run_gated_answer:
  "fst (snd (run_gated env limit n)) = (if \<not> se_place env n then Answer False
     else case snd (se_run env n) of Raised \<Rightarrow> Answer False | a \<Rightarrow> a)"
  by (auto simp: run_gated_def split: prod.splits node_answer.splits)

lemma step_results_other:
  "v \<notin> set (map (\<lambda>p. mn_id (fst p)) os) \<Longrightarrow> dict_get_default (step_results os R) v False = dict_get_default R v False"
  by (induction os R rule: step_results.induct) (auto split: node_answer.splits)

lemma step_results_get:
  assumes "distinct (map (\<lambda>p. mn_id (fst p)) os)" and "p \<in> set os" and "dict_get_default R (mn_id (fst p)) False = False"
  shows "dict_get_default (step_results os R) (mn_id (fst p)) False = (fst (snd p) = Answer True)"
  using assms
proof (induction os R rule: step_results.induct)
  case (2 n a evs os R)
  show ?case
  proof (cases "p = (n, a, evs)")
    case True
    then show ?thesis using "2.prems" step_results_other[of "mn_id n" os] by (cases a) auto
  next
    case False
    then have "mn_id (fst p) \<noteq> mn_id n" using "2.prems" by (metis (no_types, lifting) distinct.simps(2) fst_conv
          image_eqI list.set_map list.simps(9) set_ConsD)
    then show ?thesis using False "2.IH" "2.prems" by (auto split: node_answer.splits)
  qed
qed simp

lemma distinct_ready: "distinct (dag_ids m) \<Longrightarrow> distinct (map mn_id (ready_nodes m))"
  by (simp add: ready_nodes_def distinct_map_filter)

lemma step_answers:
  assumes "polite env" and "distinct (dag_ids m)" and "n \<in> set (ready_nodes m)"
  shows "dict_get_default (step_results (step_outcomes env limit m) []) (mn_id n) False = node_succeeds env (set_running n)"
proof -
  let ?g = "\<lambda>n. run_gated env limit (set_running n)"
  have key: "mn_id (fst (?g y)) = mn_id y" for y
    using run_gated_node[OF assms(1), of limit "set_running y"] by (simp add: node_key_def)
  have "distinct (map (\<lambda>p. mn_id (fst p)) (step_outcomes env limit m))"
    using distinct_ready[OF assms(2)] by (simp add: step_outcomes_def o_def key)
  moreover have "?g n \<in> set (step_outcomes env limit m)" using assms(3) by (simp add: step_outcomes_def)
  ultimately have "dict_get_default (step_results (step_outcomes env limit m) []) (mn_id n) False =
      (fst (snd (?g n)) = Answer True)"
    using step_results_get[of "step_outcomes env limit m" "?g n" "[]"] by (simp add: key dict_get_default_def)
  then show ?thesis
    unfolding run_gated_answer by (auto simp: node_succeeds_def split: node_answer.splits)
qed

lemma after_run_spec:
  assumes "polite env" and "distinct (dag_ids m)"
  shows "statuses (after_run env limit m) v =
      (if v \<in> set (map mn_id (ready_nodes m)) then Some Dag_RUNNING else statuses m v) \<and>
    same_layout m (after_run env limit m)"
proof -
  let ?f = "\<lambda>n. if is_ready m n then fst (run_gated env limit (set_running n)) else n"
  have key: "node_key (?f n) = node_key n" for n
    using run_gated_node[OF assms(1), of limit "set_running n"] by (simp add: node_key_def)
  then have id: "mn_id (?f n) = mn_id n" for n unfolding node_key_def by (metis prod.inject)
  have "List.find (\<lambda>n. mn_id n = v) (map ?f ns) = map_option ?f (List.find (\<lambda>n. mn_id n = v) ns)" for ns
    by (induction ns) (auto simp: id simp del: if_split)
  then have find: "find_dag_node v (after_run env limit m) = map_option ?f (find_dag_node v m)"
    by (simp add: find_dag_node_def after_run_def)
  have run: "mn_status (?f n) = (if is_ready m n then Dag_RUNNING else mn_status n)" for n
    using run_gated_node[OF assms(1), of limit "set_running n"] by simp
  have ready: "find_dag_node v m = Some n \<Longrightarrow> is_ready m n \<longleftrightarrow> v \<in> set (map mn_id (ready_nodes m))" for n
    using find_node_in[OF assms(2)] by (auto simp: ready_nodes_def find_dag_node_def dest!: find_SomeD)
      (metis option.inject find_node_in[OF assms(2), unfolded find_dag_node_def])
  have "statuses (after_run env limit m) v =
      (if v \<in> set (map mn_id (ready_nodes m)) then Some Dag_RUNNING else statuses m v)"
  proof (cases "find_dag_node v m")
    case None
    then have "v \<notin> set (map mn_id (ready_nodes m))" using find_known[of v m] by (auto simp: ready_nodes_def)
    then show ?thesis using None by (simp add: statuses_def find)
  next
    case (Some n)
    then show ?thesis using run[of n] ready[OF Some] by (simp add: statuses_def find)
  qed
  moreover have "same_layout m (after_run env limit m)"
    using key by (simp add: same_layout_def after_run_def del: if_split)
  ultimately show ?thesis by blast
qed

text \<open>The part of a step before the completion check.\<close>

definition settled_mission :: "step_env \<Rightarrow> int \<Rightarrow> mission \<Rightarrow> mission \<times> walk_event list \<Rightarrow> mission \<times> walk_event list" where
  "settled_mission env limit m s = fold (settle_node (se_now env) (step_results (step_outcomes env limit m) [])) (ready_nodes m) s"

lemma settled_mission_spec:
  assumes "polite env" and "distinct (dag_ids m)"
  shows "statuses (fst (settled_mission env limit m (after_run env limit m, evs))) v =
      (case find_dag_node v m of None \<Rightarrow> None
       | Some n \<Rightarrow> Some (if is_ready m n then (if node_succeeds env (set_running n) then Dag_COMPLETED else Dag_FAILED)
           else if mn_status n = Dag_PENDING \<and>
               (\<exists>u \<in> set (ready_nodes m). \<not> node_succeeds env (set_running u) \<and> (mn_id u, v) \<in> set (dag_arcs m))
             then Dag_BLOCKED else mn_status n)) \<and>
    same_layout m (fst (settled_mission env limit m (after_run env limit m, evs)))"
proof -
  let ?R = "step_results (step_outcomes env limit m) []" and ?m = "after_run env limit m"
  note a = after_run_spec[OF assms, of limit]
  have arcs: "dag_arcs ?m = dag_arcs m" using same_layout_edges[OF conjunct2[OF a]] by simp
  have "\<And>n. n \<in> set (ready_nodes m) \<Longrightarrow> statuses ?m (mn_id n) = Some Dag_RUNNING" using a by simp
  from settle_fold[OF distinct_ready[OF assms(2)] this, of "se_now env" ?R evs v]
  have st: "statuses (fst (settled_mission env limit m (?m, evs))) v =
      settled_status ?R (map mn_id (ready_nodes m)) (set (dag_arcs m)) (statuses ?m) v"
    and sh: "same_layout ?m (fst (settled_mission env limit m (?m, evs)))"
    by (simp_all add: settled_mission_def arcs)
  have ready: "find_dag_node v m = Some n \<Longrightarrow> is_ready m n \<longleftrightarrow> v \<in> set (map mn_id (ready_nodes m))" for n
    using find_node_in[OF assms(2)] by (auto simp: ready_nodes_def find_dag_node_def dest!: find_SomeD)
      (metis option.inject find_node_in[OF assms(2), unfolded find_dag_node_def])
  have ans: "u \<in> set (ready_nodes m) \<Longrightarrow> dict_get_default ?R (mn_id u) False = node_succeeds env (set_running u)" for u
    by (rule step_answers[OF assms])
  show ?thesis
  proof (cases "find_dag_node v m")
    case None
    then have "v \<notin> set (map mn_id (ready_nodes m))" "statuses m v = None"
      using find_known[of v m] by (auto simp: ready_nodes_def statuses_None)
    then show ?thesis using st a None same_layout_trans[OF _ sh] by (simp add: settled_status_def)
  next
    case (Some n)
    have mem: "is_ready m n \<Longrightarrow> n \<in> set (ready_nodes m) \<and> mn_id n = v"
      using Some find_SomeD[of "\<lambda>n. mn_id n = v" "ms_nodes m" n] by (simp add: find_dag_node_def ready_nodes_def)
    have ex: "(\<exists>u \<in> set (map mn_id (ready_nodes m)). \<not> dict_get_default ?R u False \<and> (u, v) \<in> E) \<longleftrightarrow>
        (\<exists>u \<in> set (ready_nodes m). \<not> node_succeeds env (set_running u) \<and> (mn_id u, v) \<in> E)" for E
      using ans by (simp add: image_iff)
    have "statuses m v = Some (mn_status n)" using Some by (simp add: statuses_def)
    moreover have "is_ready m n \<Longrightarrow> dict_get_default ?R v False = node_succeeds env (set_running n)"
      using mem ans by metis
    ultimately show ?thesis
      using st a ex ready[OF Some] same_layout_trans[OF _ sh]
      by (cases "is_ready m n") (simp_all add: settled_status_def Some del: set_map)
  qed
qed

subsection \<open>The abstract wave\<close>

text \<open>
  What a step should do, on the statuses of the nodes alone: every node that has not been run and whose
  predecessors are all completed runs now; the direct successors of a node that fails are blocked.
\<close>

definition ready_at :: "(string \<times> string) set \<Rightarrow> (string \<Rightarrow> dag_status option) \<Rightarrow> string \<Rightarrow> bool" where
  "ready_at E st v \<longleftrightarrow> (\<exists>s. st v = Some s \<and> s \<notin> {Dag_COMPLETED, Dag_FAILED, Dag_RUNNING, Dag_BLOCKED}) \<and>
     (\<forall>u. (u, v) \<in> E \<longrightarrow> st u = Some Dag_COMPLETED)"

definition wave :: "(string \<Rightarrow> bool) \<Rightarrow> (string \<times> string) set \<Rightarrow> (string \<Rightarrow> dag_status option) \<Rightarrow> string \<Rightarrow> dag_status option" where
  "wave ok E st v = (if ready_at E st v then Some (if ok v then Dag_COMPLETED else Dag_FAILED)
     else if st v = Some Dag_PENDING \<and> (\<exists>u. ready_at E st u \<and> \<not> ok u \<and> (u, v) \<in> E) then Some Dag_BLOCKED
     else st v)"

text \<open>The lists of dependencies agree with the edges, as the construction of the graph leaves them.\<close>

definition linked :: "mission \<Rightarrow> bool" where
  "linked m \<longleftrightarrow> distinct (dag_ids m) \<and> (\<forall>n \<in> set (ms_nodes m). set (mn_depends n) = {u. (u, mn_id n) \<in> set (dag_arcs m)})"

definition outcome_at :: "step_env \<Rightarrow> mission \<Rightarrow> string \<Rightarrow> bool" where
  "outcome_at env m v = (case find_dag_node v m of None \<Rightarrow> False | Some n \<Rightarrow> node_succeeds env (set_running n))"

lemma linked_shape: "linked m \<Longrightarrow> same_layout m m' \<Longrightarrow> linked m'"
proof -
  assume l: "linked m" and s: "same_layout m m'"
  note e = same_layout_edges[OF s]
  have "set (map node_key (ms_nodes m')) = set (map node_key (ms_nodes m))" using s by (simp add: same_layout_def)
  then have keys: "n \<in> set (ms_nodes m') \<Longrightarrow> \<exists>x \<in> set (ms_nodes m). node_key x = node_key n" for n by (metis image_iff image_set)
  have "set (mn_depends n) = {u. (u, mn_id n) \<in> set (dag_arcs m')}" if n: "n \<in> set (ms_nodes m')" for n
  proof -
    obtain x where "x \<in> set (ms_nodes m)" "mn_id x = mn_id n" "mn_depends x = mn_depends n"
      using keys[OF n] by (auto simp: node_key_def)
    moreover from this(1) have "set (mn_depends x) = {u. (u, mn_id x) \<in> set (dag_arcs m)}" using l unfolding linked_def by blast
    ultimately show ?thesis using e by simp
  qed
  then show "linked m'" using l e unfolding linked_def by simp
qed

lemma find_node_SomeD: "find_dag_node v m = Some n \<Longrightarrow> n \<in> set (ms_nodes m) \<and> mn_id n = v"
  by (auto simp: find_dag_node_def dest: find_SomeD)

lemma is_ready_at: "linked m \<Longrightarrow> n \<in> set (ms_nodes m) \<Longrightarrow> is_ready m n \<longleftrightarrow> ready_at (set (dag_arcs m)) (statuses m) (mn_id n)"
  using statuses_node[of m n] by (auto simp: is_ready_def ready_at_def linked_def dependencies_satisfied_iff)

lemma ready_ids: "linked m \<Longrightarrow> set (map mn_id (ready_nodes m)) = {v. ready_at (set (dag_arcs m)) (statuses m) v}"
proof -
  assume l: "linked m"
  have "v \<in> set (map mn_id (ready_nodes m)) \<longleftrightarrow> ready_at (set (dag_arcs m)) (statuses m) v" for v
  proof (cases "find_dag_node v m")
    case None
    then show ?thesis using find_known[of v m] statuses_None[of m v] by (auto simp: ready_nodes_def ready_at_def)
  next
    case (Some n)
    note n = find_node_SomeD[OF Some]
    have "x \<in> set (ms_nodes m) \<Longrightarrow> mn_id x = v \<Longrightarrow> x = n" for x
      using find_node_in[of m x] Some l by (simp add: linked_def)
    then show ?thesis using is_ready_at[OF l, of n] n by (auto simp: ready_nodes_def image_iff)
  qed
  then show ?thesis by blast
qed

lemma settled_mission_wave:
  assumes "polite env" and "linked m"
  shows "statuses (fst (settled_mission env limit m (after_run env limit m, evs))) = wave (outcome_at env m) (set (dag_arcs m)) (statuses m)"
proof
  fix v
  let ?E = "set (dag_arcs m)" and ?st = "statuses m"
  have d: "distinct (dag_ids m)" using assms(2) by (simp add: linked_def)
  have failing: "(\<exists>u \<in> set (ready_nodes m). \<not> node_succeeds env (set_running u) \<and> (mn_id u, v) \<in> ?E) \<longleftrightarrow>
      (\<exists>u. ready_at ?E ?st u \<and> \<not> outcome_at env m u \<and> (u, v) \<in> ?E)"
  proof -
    have out: "x \<in> set (ready_nodes m) \<Longrightarrow> outcome_at env m (mn_id x) = node_succeeds env (set_running x)" for x
      using find_node_in[OF d, of x] by (simp add: outcome_at_def ready_nodes_def)
    have ready: "ready_at ?E ?st u \<longleftrightarrow> (\<exists>x \<in> set (ready_nodes m). mn_id x = u)" for u
    proof -
      have "ready_at ?E ?st u \<longleftrightarrow> u \<in> set (map mn_id (ready_nodes m))" unfolding ready_ids[OF assms(2)] by simp
      also have "\<dots> \<longleftrightarrow> (\<exists>x \<in> set (ready_nodes m). mn_id x = u)" by auto
      finally show ?thesis .
    qed
    have "(\<exists>u \<in> set (ready_nodes m). \<not> node_succeeds env (set_running u) \<and> (mn_id u, v) \<in> ?E) \<longleftrightarrow>
        (\<exists>u \<in> set (ready_nodes m). \<not> outcome_at env m (mn_id u) \<and> (mn_id u, v) \<in> ?E)"
      by (rule bex_cong[OF refl]) (simp only: out)
    also have "\<dots> \<longleftrightarrow> (\<exists>u. ready_at ?E ?st u \<and> \<not> outcome_at env m u \<and> (u, v) \<in> ?E)"
      unfolding ready by blast
    finally show ?thesis .
  qed
  note spec = conjunct1[OF settled_mission_spec[OF assms(1) d, of limit evs v], unfolded failing]
  show "statuses (fst (settled_mission env limit m (after_run env limit m, evs))) v = wave (outcome_at env m) ?E ?st v"
  proof (cases "find_dag_node v m")
    case None
    then show ?thesis using spec by (simp add: wave_def ready_at_def statuses_def)
  next
    case (Some n)
    note n = find_node_SomeD[OF Some]
    have "is_ready m n = ready_at ?E ?st v" using is_ready_at[OF assms(2)] n by blast
    moreover have "?st v = Some (mn_status n)" "outcome_at env m v = node_succeeds env (set_running n)"
      using Some by (simp_all add: statuses_def outcome_at_def)
    ultimately show ?thesis using spec Some unfolding wave_def by (simp del: set_map list.set_map) blast
  qed
qed

subsection \<open>Completion\<close>

lemma all_settled_iff: "all_settled m \<longleftrightarrow> (\<forall>n \<in> set (ms_nodes m). mn_status n \<in> {Dag_COMPLETED, Dag_FAILED, Dag_SKIPPED})"
proof -
  have "length (filter (\<lambda>n. mn_status n = Dag_COMPLETED) ns) + length (filter (\<lambda>n. mn_status n = Dag_FAILED) ns) +
      length (filter (\<lambda>n. mn_status n = Dag_SKIPPED) ns) =
      length (filter (\<lambda>n. mn_status n \<in> {Dag_COMPLETED, Dag_FAILED, Dag_SKIPPED}) ns)" for ns
    by (induction ns) auto
  from this[of "ms_nodes m"] have "all_settled m \<longleftrightarrow>
      length (ms_nodes m) \<le> length (filter (\<lambda>n. mn_status n \<in> {Dag_COMPLETED, Dag_FAILED, Dag_SKIPPED}) (ms_nodes m))"
    unfolding all_settled_def get_dag_progress_def Let_def total_nodes_def nodes_with_def dag_progress.simps by simp
  also have "\<dots> \<longleftrightarrow> (\<forall>n \<in> set (ms_nodes m). mn_status n \<in> {Dag_COMPLETED, Dag_FAILED, Dag_SKIPPED})"
    using filter_id_conv[of "\<lambda>n. mn_status n \<in> {Dag_COMPLETED, Dag_FAILED, Dag_SKIPPED}" "ms_nodes m"]
      length_filter_less[of _ "ms_nodes m" "\<lambda>n. mn_status n \<in> {Dag_COMPLETED, Dag_FAILED, Dag_SKIPPED}"] by (metis leD order_refl)
  finally show ?thesis .
qed

lemma failed_nodes_iff: "failed_nodes m = 0 \<longleftrightarrow> (\<forall>n \<in> set (ms_nodes m). mn_status n \<noteq> Dag_FAILED)"
  by (simp add: failed_nodes_def nodes_with_def filter_empty_conv)

lemma statuses_all: "distinct (dag_ids m) \<Longrightarrow>
    (\<forall>n \<in> set (ms_nodes m). P (mn_status n)) \<longleftrightarrow> (\<forall>v s. statuses m v = Some s \<longrightarrow> P s)"
  using statuses_node by (fastforce simp: statuses_def dest: find_node_SomeD)

lemma suggest_retry_fields: "suggest_retry gx v m = (m', evs) \<Longrightarrow> \<exists>md. m' = m\<lparr>ms_metadata := md\<rparr>"
  by (auto simp: suggest_retry_def split: option.splits) (metis mission.surjective mission.update_convs(11))+

definition final_status :: "mission \<Rightarrow> mission_status" where
  "final_status m = (if failed_nodes m = 0 then MS_COMPLETED else MS_FAILED)"

lemma finish_fields:
  assumes "finish_mission env gx m = (gx', m', evs)"
  shows "ms_nodes m' = ms_nodes m \<and> ms_edges m' = ms_edges m \<and> ms_id m' = ms_id m \<and>
    ms_status m' = (if ms_status m \<in> {MS_FAILED, MS_COMPLETED} then ms_status m else final_status m)"
proof (cases "ms_status m \<in> {MS_FAILED, MS_COMPLETED}")
  case False
  define m1 where "m1 = m\<lparr>ms_status := final_status m, ms_completed := Some (se_now env)\<rparr>"
  obtain gx1 v where v: "verify_workspace env (failed_nodes m = 0) gx m1 = (gx1, v)" by fastforce
  define m2 where "m2 = (case v of None \<Rightarrow> m1 | Some d \<Rightarrow> m1\<lparr>ms_metadata := dict_set ''verification'' (PDict d) (ms_metadata m1)\<rparr>)"
  obtain m3 evs3 where s: "suggest_retry gx1 v m2 = (m3, evs3)" by fastforce
  have "m' = m3" using assms False v s
    unfolding finish_mission_def Let_def final_status_def[symmetric] m1_def[symmetric]
    by (simp add: m2_def[symmetric])
  moreover obtain md where "m3 = m2\<lparr>ms_metadata := md\<rparr>" using suggest_retry_fields[OF s] by blast
  ultimately show ?thesis using False by (auto simp: m2_def m1_def split: option.splits)
qed (use assms in \<open>simp add: finish_mission_def\<close>)

lemma execute_step_cases:
  assumes "execute_step env gx m = Some (gx', m', k, evs)"
  shows "\<exists>limit evs0. let m1 = fst (settled_mission env limit m (after_run env limit m, evs0)) in
    k = length (ready_nodes m) \<and>
    (if ready_nodes m \<noteq> [] \<and> all_settled m1 then (\<exists>l. finish_mission env gx m1 = (gx', m', l)) else m' = m1 \<and> gx' = gx)"
proof -
  define limit where "limit = concurrency_limit (gx_fallback gx) (se_capacity env)"
  define outs where "outs = step_outcomes env limit m"
  define evs0 where "evs0 = concat (map (\<lambda>(n, a, evs). evs) outs) @
    (if silent_titles outs = [] then [] else [EvStepTimeout (ms_id m) (silent_titles outs)])"
  obtain m1 log1 where f: "settled_mission env limit m (after_run env limit m, evs0) = (m1, log1)" by fastforce
  have step: "execute_step env gx m = (if (if ready_nodes m = [] then 0 else min (int (length (ready_nodes m))) limit) \<le> 1 \<and>
        silent_titles outs \<noteq> [] then None
      else case settled_mission env limit m (after_run env limit m, evs0) of (m1, log1) \<Rightarrow>
        (if ready_nodes m = [] then Some (gx, m1, 0, log1)
         else (case (if all_settled m1 then finish_mission env gx m1 else (gx, m1, [])) of (gx', m2, log2) \<Rightarrow>
           Some (gx', m2, length (ready_nodes m), log1 @ log2 @ ready_events m2))))"
    unfolding execute_step_def Let_def limit_def[symmetric] outs_def[symmetric] evs0_def[symmetric] settled_mission_def ..
  have "k = length (ready_nodes m) \<and>
      (if ready_nodes m \<noteq> [] \<and> all_settled m1 then (\<exists>l. finish_mission env gx m1 = (gx', m', l)) else m' = m1 \<and> gx' = gx)"
    using assms unfolding step f prod.case
    by (cases "ready_nodes m = []"; cases "all_settled m1"; cases "finish_mission env gx m1") (simp_all split: if_splits)
  moreover have "m1 = fst (settled_mission env limit m (after_run env limit m, evs0))" using f by simp
  ultimately show ?thesis unfolding Let_def by blast
qed

subsection \<open>Refinement\<close>

lemma execute_step_wave:
  assumes "polite env" and "linked m" and "execute_step env gx m = Some (gx', m', k, evs)"
  shows "statuses m' = wave (outcome_at env m) (set (dag_arcs m)) (statuses m) \<and> k = length (ready_nodes m) \<and> linked m' \<and>
    dag_arcs m' = dag_arcs m \<and> dag_ids m' = dag_ids m \<and> ms_id m' = ms_id m \<and>
    ms_status m' = (if k > 0 \<and> all_settled m' \<and> ms_status m \<notin> {MS_FAILED, MS_COMPLETED} then final_status m' else ms_status m)"
proof -
  obtain limit evs0 where c: "k = length (ready_nodes m) \<and>
      (if ready_nodes m \<noteq> [] \<and> all_settled (fst (settled_mission env limit m (after_run env limit m, evs0)))
       then (\<exists>l. finish_mission env gx (fst (settled_mission env limit m (after_run env limit m, evs0))) = (gx', m', l))
       else m' = fst (settled_mission env limit m (after_run env limit m, evs0)) \<and> gx' = gx)"
    using execute_step_cases[OF assms(3)] unfolding Let_def by blast
  define m1 where "m1 = fst (settled_mission env limit m (after_run env limit m, evs0))"
  have d: "distinct (dag_ids m)" using assms(2) by (simp add: linked_def)
  have st: "statuses m1 = wave (outcome_at env m) (set (dag_arcs m)) (statuses m)"
    unfolding m1_def by (rule settled_mission_wave[OF assms(1,2)])
  have sh: "same_layout m m1" using settled_mission_spec[OF assms(1) d] by (simp add: m1_def)
  note e = same_layout_edges[OF sh]
  note l1 = linked_shape[OF assms(2) sh]
  show ?thesis
  proof (cases "ready_nodes m \<noteq> [] \<and> all_settled m1")
    case True
    then obtain l where f: "finish_mission env gx m1 = (gx', m', l)" using c by (auto simp: m1_def[symmetric])
    note ff = finish_fields[OF f]
    then have same: "statuses m' = statuses m1" "all_settled m' = all_settled m1" "final_status m' = final_status m1"
      by (simp_all add: fun_eq_iff statuses_def find_dag_node_def all_settled_iff final_status_def failed_nodes_iff)
    then show ?thesis using True c ff e l1 st by (simp add: linked_def)
  next
    case False
    then have "m' = m1" using c by (auto simp: m1_def[symmetric])
    then show ?thesis using False c e l1 st by auto
  qed
qed

fun run_steps :: "step_env list \<Rightarrow> graph_executor \<Rightarrow> mission \<Rightarrow> (graph_executor \<times> mission) option" where
  "run_steps [] gx m = Some (gx, m)"
| "run_steps (env # envs) gx m = (case execute_step env gx m of None \<Rightarrow> None | Some (gx', m', k, evs) \<Rightarrow> run_steps envs gx' m')"

text \<open>What the callable answers for a node of a mission: a node that gets no place, is silent or raises has failed.\<close>

definition answers_yes :: "step_env \<Rightarrow> mission \<Rightarrow> string \<Rightarrow> bool" where
  "answers_yes env m v \<longleftrightarrow> (\<exists>n \<in> set (ms_nodes m). mn_id n = v \<and> se_place env (n\<lparr>mn_status := Dag_RUNNING\<rparr>) \<and>
     snd (se_run env (n\<lparr>mn_status := Dag_RUNNING\<rparr>)) = Answer True)"

lemma outcome_answers: "linked m \<Longrightarrow> outcome_at env m = answers_yes env m"
proof
  fix v assume l: "linked m"
  show "outcome_at env m v = answers_yes env m v"
  proof (cases "find_dag_node v m")
    case None
    then show ?thesis using find_known[of v m] by (auto simp: outcome_at_def answers_yes_def)
  next
    case (Some n)
    have "x \<in> set (ms_nodes m) \<Longrightarrow> mn_id x = v \<Longrightarrow> x = n" for x
      using find_node_in[of m x] Some l by (simp add: linked_def)
    then show ?thesis using Some find_node_SomeD[OF Some]
      by (auto simp: outcome_at_def answers_yes_def node_succeeds_def)
  qed
qed

text \<open>
  C12. The engine refines the abstract waves: for callables that keep the identity, the dependencies and the status
  of the node they are given, whatever the places granted, the limit of concurrency and the exceptions, after any
  sequence of steps that all return the statuses of the nodes are those of as many waves, one per step, started from
  the statuses before. In each wave exactly the nodes succeed that were given a place and for which the callable
  answered yes on the mission as the steps before left it: one that is refused a place, is silent or raises has
  failed. The edges and the nodes are unchanged and the dependencies still agree with the edges.
\<close>

theorem steps_refine_waves:
  assumes "list_all polite envs" and "linked m" and "run_steps envs gx m = Some (gx', m')"
  shows "\<exists>oks. length oks = length envs \<and>
    (\<forall>i < length envs. \<exists>gxi mi. run_steps (take i envs) gx m = Some (gxi, mi) \<and> oks ! i = answers_yes (envs ! i) mi) \<and>
    statuses m' = fold (\<lambda>ok. wave ok (set (dag_arcs m))) oks (statuses m) \<and>
    linked m' \<and> dag_arcs m' = dag_arcs m \<and> dag_ids m' = dag_ids m"
  using assms
proof (induction envs arbitrary: gx m)
  case (Cons env envs)
  obtain gx1 m1 k evs where s: "execute_step env gx m = Some (gx1, m1, k, evs)" and r: "run_steps envs gx1 m1 = Some (gx', m')"
    using Cons.prems(3) by (auto split: option.splits)
  have "polite env" using Cons.prems(1) by simp
  note w = execute_step_wave[OF this Cons.prems(2) s]
  obtain oks where oks: "length oks = length envs"
    "\<forall>i < length envs. \<exists>gxi mi. run_steps (take i envs) gx1 m1 = Some (gxi, mi) \<and> oks ! i = answers_yes (envs ! i) mi"
    "statuses m' = fold (\<lambda>ok. wave ok (set (dag_arcs m1))) oks (statuses m1)"
    "linked m'" "dag_arcs m' = dag_arcs m1" "dag_ids m' = dag_ids m1"
    using Cons.IH[OF _ _ r] Cons.prems(1) w by auto
  have "\<exists>gxi mi. run_steps (take i (env # envs)) gx m = Some (gxi, mi) \<and>
      (outcome_at env m # oks) ! i = answers_yes ((env # envs) ! i) mi" if "i < length (env # envs)" for i
    using that oks(2) s outcome_answers[OF Cons.prems(2)] by (cases i) simp_all
  then show ?case using oks(1,3-) w by (intro exI[of _ "outcome_at env m # oks"]) simp
qed simp

definition calm_env :: "(mission_node \<Rightarrow> bool) \<Rightarrow> step_env" where
  "calm_env answer = \<lparr>se_now = 5, se_capacity = Places 2, se_place = (\<lambda>_. True), se_run = (\<lambda>n. (n, Answer (answer n))),
     se_tools = quiet_tools, se_root = None, se_workspace = None, se_checkpoint = None, se_drift = None,
     se_journal = True, se_request = None\<rparr>"

definition sample_executor :: graph_executor where
  "sample_executor = \<lparr>gx_snapshots = [], gx_fallback = 2, gx_say = (\<lambda>_. []), gx_brief = (\<lambda>_. ''brief'')\<rparr>"

lemma chain_mission_linked: "linked chain_mission"
  using chain_mission_arcs by (auto simp: linked_def chain_mission_def chain_node_def)

lemma calm_env_polite: "polite (calm_env answer)"
  by (simp add: polite_def calm_env_def)

lemma execute_step_returns:
  assumes "\<And>n. snd (se_run env n) \<noteq> Silent"
  shows "\<exists>gx' m' k evs. execute_step env gx m = Some (gx', m', k, evs)"
proof -
  have "fst (snd (run_gated env limit n)) \<noteq> Silent" for limit n
    using assms[of n] by (auto simp: run_gated_answer split: node_answer.splits)
  then have "silent_titles (step_outcomes env limit m) = []" for limit
    by (auto simp: silent_titles_def step_outcomes_def filter_empty_conv case_prod_unfold)
  then show ?thesis by (simp add: execute_step_def Let_def case_prod_unfold)
qed

theorem steps_refine_waves_witness:
  "\<exists>gx' m'. run_steps [calm_env (\<lambda>n. mn_id n = ''a'')] sample_executor chain_mission = Some (gx', m') \<and>
     statuses m' ''a'' = Some Dag_COMPLETED \<and> statuses m' ''b'' = Some Dag_PENDING"
proof -
  let ?env = "calm_env (\<lambda>n. mn_id n = ''a'')"
  obtain gx' m' where r: "run_steps [?env] sample_executor chain_mission = Some (gx', m')"
    using execute_step_returns[of ?env sample_executor chain_mission] by (auto simp: calm_env_def)
  have "list_all polite [?env]" using calm_env_polite by simp
  from steps_refine_waves[OF this chain_mission_linked r] obtain ok where
    ok: "ok = answers_yes ?env chain_mission" and st: "statuses m' = wave ok {(''a'', ''b'')} (statuses chain_mission)"
    unfolding chain_mission_arcs by (auto simp: length_Suc_conv)
  have "statuses chain_mission ''a'' = Some Dag_PENDING" "statuses chain_mission ''b'' = Some Dag_PENDING"
    by (simp_all add: statuses_def find_dag_node_def chain_mission_def chain_node_def)
  moreover have "answers_yes ?env chain_mission ''a''"
    by (simp add: answers_yes_def calm_env_def chain_mission_def chain_node_def)
  ultimately show ?thesis using r by (auto simp: st ok wave_def ready_at_def)
qed

end
