(* ===== verification/MissionWalk_Correct.thy ===== *)
theory MissionWalk_Correct
  imports MissionExecutor_Correct
begin

text \<open>
  The walk of a mission: the invariant of the waves, the end of the walk and its outcome, the durability of
  what the engine did, and the number of retries.
\<close>

subsection \<open>Invariant of the waves\<close>

definition wave_inv :: "string set \<Rightarrow> (string \<times> string) set \<Rightarrow> (string \<Rightarrow> dag_status option) \<Rightarrow> bool" where
  "wave_inv V E st \<longleftrightarrow> E \<subseteq> V \<times> V \<and> (\<forall>v. v \<notin> V \<longrightarrow> st v = None) \<and>
     (\<forall>v \<in> V. st v \<in> {Some Dag_PENDING, Some Dag_COMPLETED, Some Dag_FAILED, Some Dag_BLOCKED}) \<and>
     (\<forall>u v. (u, v) \<in> E \<longrightarrow> st v \<in> {Some Dag_COMPLETED, Some Dag_FAILED} \<longrightarrow> st u = Some Dag_COMPLETED) \<and>
     (\<forall>u v. (u, v) \<in> E \<longrightarrow> st u = Some Dag_FAILED \<longrightarrow> st v = Some Dag_BLOCKED) \<and>
     (\<forall>v. st v = Some Dag_BLOCKED \<longrightarrow> (\<exists>u. (u, v) \<in> E \<and> st u = Some Dag_FAILED))"

definition open_nodes :: "(string \<Rightarrow> dag_status option) \<Rightarrow> string set" where
  "open_nodes st = {v. \<exists>s. st v = Some s \<and> s \<notin> {Dag_COMPLETED, Dag_FAILED}}"

lemma wave_inv_status: "wave_inv V E st \<Longrightarrow> v \<in> V \<Longrightarrow>
    st v \<in> {Some Dag_PENDING, Some Dag_COMPLETED, Some Dag_FAILED, Some Dag_BLOCKED}"
  unfolding wave_inv_def by blast

lemma wave_inv_known: "wave_inv V E st \<Longrightarrow> st v = Some s \<Longrightarrow> v \<in> V"
  unfolding wave_inv_def by (metis option.distinct(1))

lemma wave_status:
  assumes "wave_inv V E st"
  shows "ready_at E st v \<longleftrightarrow> st v = Some Dag_PENDING \<and> (\<forall>u. (u, v) \<in> E \<longrightarrow> st u = Some Dag_COMPLETED)"
proof (cases "v \<in> V")
  case True
  then show ?thesis using wave_inv_status[OF assms True] by (auto simp: ready_at_def)
next
  case False
  then have "st v = None" using assms unfolding wave_inv_def by blast
  then show ?thesis by (simp add: ready_at_def)
qed

lemma wave_final: "st v \<in> {Some Dag_COMPLETED, Some Dag_FAILED, Some Dag_BLOCKED} \<Longrightarrow> wave ok E st v = st v"
  by (auto simp: wave_def ready_at_def)

lemma wave_inv_wave:
  assumes inv: "wave_inv V E st"
  shows "wave_inv V E (wave ok E st)"
proof -
  note ready = wave_status[OF inv]
  let ?w = "wave ok E st"
  have w: "?w v = (if ready_at E st v then Some (if ok v then Dag_COMPLETED else Dag_FAILED)
      else if st v = Some Dag_PENDING \<and> (\<exists>u. ready_at E st u \<and> \<not> ok u \<and> (u, v) \<in> E) then Some Dag_BLOCKED else st v)" for v
    by (simp add: wave_def)
  have status: "v \<in> V \<Longrightarrow> st v \<in> {Some Dag_PENDING, Some Dag_COMPLETED, Some Dag_FAILED, Some Dag_BLOCKED}" for v
    by (rule wave_inv_status[OF inv])
  have cases: "?w v \<in> {Some Dag_PENDING, Some Dag_COMPLETED, Some Dag_FAILED, Some Dag_BLOCKED}" if "v \<in> V" for v
    using status[OF that] by (cases "ready_at E st v") (auto simp: w)
  have "E \<subseteq> V \<times> V" using inv unfolding wave_inv_def by blast
  moreover have "?w v = None" if "v \<notin> V" for v
  proof -
    have "st v = None" using inv that unfolding wave_inv_def by blast
    then show ?thesis by (simp add: w ready_at_def)
  qed
  moreover have "?w u = Some Dag_COMPLETED" if uv: "(u, v) \<in> E" and v: "?w v \<in> {Some Dag_COMPLETED, Some Dag_FAILED}" for u v
  proof -
    have "st u = Some Dag_COMPLETED"
    proof (cases "ready_at E st v")
      case False
      then have "st v \<in> {Some Dag_COMPLETED, Some Dag_FAILED}" using v by (simp add: w split: if_splits)
      then show ?thesis using uv inv unfolding wave_inv_def by blast
    qed (use uv ready in blast)
    then show ?thesis using wave_final by simp
  qed
  moreover have "?w v = Some Dag_BLOCKED" if uv: "(u, v) \<in> E" and u: "?w u = Some Dag_FAILED" for u v
  proof (cases "ready_at E st u")
    case True
    have bad: "\<not> ok u" using True u by (simp add: w split: if_splits)
    have pend: "st u = Some Dag_PENDING" using True ready by blast
    have "v \<in> V" using inv uv unfolding wave_inv_def by blast
    moreover have "st v \<notin> {Some Dag_COMPLETED, Some Dag_FAILED}"
    proof
      assume "st v \<in> {Some Dag_COMPLETED, Some Dag_FAILED}"
      then have "st u = Some Dag_COMPLETED" using inv uv unfolding wave_inv_def by blast
      then show False using pend by simp
    qed
    ultimately have v: "st v = Some Dag_PENDING \<or> st v = Some Dag_BLOCKED" using status[of v] by blast
    have "\<not> ready_at E st v" using ready[of v] uv pend by auto
    then show ?thesis using True bad uv v by (auto simp: w)
  next
    case False
    then have "st u = Some Dag_FAILED" using u by (simp add: w split: if_splits)
    then have "st v = Some Dag_BLOCKED" using uv inv unfolding wave_inv_def by blast
    then show ?thesis using wave_final by simp
  qed
  moreover have "\<exists>u. (u, v) \<in> E \<and> ?w u = Some Dag_FAILED" if v: "?w v = Some Dag_BLOCKED" for v
  proof (cases "st v = Some Dag_BLOCKED")
    case True
    then obtain u where "(u, v) \<in> E" "st u = Some Dag_FAILED" using inv unfolding wave_inv_def by blast
    then show ?thesis using wave_final by auto
  next
    case False
    then obtain u where "ready_at E st u" "\<not> ok u" "(u, v) \<in> E" using v by (auto simp: w split: if_splits)
    then show ?thesis by (auto simp: w)
  qed
  ultimately show ?thesis using cases unfolding wave_inv_def by blast
qed

text \<open>Each wave settles the ready nodes; without ready nodes, what is left is behind a failure.\<close>

lemma open_iff: "v \<in> open_nodes st \<longleftrightarrow> st v \<noteq> None \<and> st v \<notin> {Some Dag_COMPLETED, Some Dag_FAILED}"
  by (cases "st v") (auto simp: open_nodes_def)

lemma open_wave:
  assumes "wave_inv V E st" and "finite V"
  shows "open_nodes (wave ok E st) = open_nodes st - {v. ready_at E st v} \<and>
    {v. ready_at E st v} \<subseteq> open_nodes st \<and> open_nodes st \<subseteq> V"
proof -
  have final: "wave ok E st v \<in> {Some Dag_COMPLETED, Some Dag_FAILED} \<longleftrightarrow>
      ready_at E st v \<or> st v \<in> {Some Dag_COMPLETED, Some Dag_FAILED}" for v
    by (auto simp: wave_def)
  have known: "wave ok E st v = None \<longleftrightarrow> st v = None" for v
    by (auto simp: wave_def ready_at_def)
  have "v \<in> open_nodes (wave ok E st) \<longleftrightarrow> v \<in> open_nodes st \<and> \<not> ready_at E st v" for v
    unfolding open_iff using final[of v] known[of v] by argo
  moreover have "ready_at E st v \<Longrightarrow> v \<in> open_nodes st" for v
    by (auto simp: ready_at_def open_nodes_def)
  moreover have "v \<in> open_nodes st \<Longrightarrow> v \<in> V" for v
    using wave_inv_known[OF assms(1)] by (auto simp: open_nodes_def)
  ultimately show ?thesis by blast
qed

lemma stuck_behind_failure:
  assumes inv: "wave_inv V E st" and "finite V" and "acyclic E" and none: "\<nexists>v. ready_at E st v" and "open_nodes st \<noteq> {}"
  shows "\<exists>u v. st u = Some Dag_FAILED \<and> (u, v) \<in> E \<and> st v = Some Dag_BLOCKED"
proof -
  have "E \<subseteq> V \<times> V" using inv unfolding wave_inv_def by blast
  then have "finite E" using assms(2) by (meson finite_SigmaI finite_subset)
  then have "wf E" using assms(3) by (simp add: finite_acyclic_wf)
  then obtain v where v: "v \<in> open_nodes st" and min: "\<And>u. (u, v) \<in> E \<Longrightarrow> u \<notin> open_nodes st"
    using assms(5) by (metis ex_in_conv wfE_min)
  have "v \<in> V" using v wave_inv_known[OF inv] by (auto simp: open_nodes_def)
  then have st: "st v = Some Dag_PENDING \<or> st v = Some Dag_BLOCKED"
    using wave_inv_status[OF inv] v by (fastforce simp: open_nodes_def)
  have "st v = Some Dag_BLOCKED"
  proof (rule ccontr)
    assume "st v \<noteq> Some Dag_BLOCKED"
    then have pend: "st v = Some Dag_PENDING" using st by blast
    have "st u = Some Dag_COMPLETED" if uv: "(u, v) \<in> E" for u
    proof -
      have "u \<in> V" using uv inv unfolding wave_inv_def by blast
      moreover have "st u \<noteq> Some Dag_FAILED" using uv pend inv unfolding wave_inv_def by fastforce
      ultimately show ?thesis using wave_inv_status[OF inv, of u] min[OF uv] by (auto simp: open_nodes_def)
    qed
    then show False using none pend wave_status[OF inv] by blast
  qed
  then show ?thesis using inv unfolding wave_inv_def by blast
qed

subsection \<open>The walk ends\<close>

definition walk_inv :: "mission \<Rightarrow> bool" where
  "walk_inv m \<longleftrightarrow> valid_dag m \<and> linked m \<and> ms_nodes m \<noteq> [] \<and>
     wave_inv (set (dag_ids m)) (set (dag_arcs m)) (statuses m) \<and>
     ms_status m = (if all_settled m then final_status m else MS_RUNNING)"

definition calm :: "step_env \<Rightarrow> bool" where
  "calm env \<longleftrightarrow> polite env \<and> (\<forall>n. snd (se_run env n) \<noteq> Silent) \<and> se_request env = None"

lemma settled_open:
  assumes "distinct (dag_ids m)" and "wave_inv (set (dag_ids m)) E (statuses m)"
  shows "all_settled m \<longleftrightarrow> open_nodes (statuses m) = {}"
proof -
  have "all_settled m \<longleftrightarrow> (\<forall>v s. statuses m v = Some s \<longrightarrow> s \<in> {Dag_COMPLETED, Dag_FAILED, Dag_SKIPPED})"
    unfolding all_settled_iff by (rule statuses_all[OF assms(1)])
  moreover have "statuses m v \<noteq> Some Dag_SKIPPED" for v
    using wave_inv_status[OF assms(2), of v] wave_inv_known[OF assms(2), of v] by fastforce
  ultimately show ?thesis by (fastforce simp: open_nodes_def)
qed

lemma failed_iff: "distinct (dag_ids m) \<Longrightarrow> failed_nodes m = 0 \<longleftrightarrow> (\<forall>v. statuses m v \<noteq> Some Dag_FAILED)"
  unfolding failed_nodes_iff using statuses_all[of m "\<lambda>s. s \<noteq> Dag_FAILED"] by blast

lemma ready_none: "linked m \<Longrightarrow> ready_nodes m = [] \<longleftrightarrow> (\<nexists>v. ready_at (set (dag_arcs m)) (statuses m) v)"
proof -
  assume "linked m"
  then have "set (map mn_id (ready_nodes m)) = {} \<longleftrightarrow> (\<nexists>v. ready_at (set (dag_arcs m)) (statuses m) v)"
    unfolding ready_ids[OF \<open>linked m\<close>] by blast
  then show ?thesis by simp
qed

lemma ready_card: "linked m \<Longrightarrow> length (ready_nodes m) = card {v. ready_at (set (dag_arcs m)) (statuses m) v}"
proof -
  assume l: "linked m"
  then have "distinct (map mn_id (ready_nodes m))" by (simp add: linked_def distinct_ready)
  then have "length (ready_nodes m) = card (set (map mn_id (ready_nodes m)))" using distinct_card by fastforce
  then show ?thesis unfolding ready_ids[OF l] .
qed

lemma valid_same: "dag_ids m' = dag_ids m \<Longrightarrow> dag_arcs m' = dag_arcs m \<Longrightarrow> valid_dag m \<Longrightarrow> valid_dag m'"
proof -
  have known: "known_ends x \<longleftrightarrow> set (dag_arcs x) \<subseteq> set (dag_ids x) \<times> set (dag_ids x)" for x
    by (auto simp: known_ends_def)
  assume "dag_ids m' = dag_ids m" "dag_arcs m' = dag_arcs m" "valid_dag m"
  then show "valid_dag m'" unfolding valid_dag_def known by presburger
qed

lemma step_walk_inv:
  assumes inv: "walk_inv m" and "calm env" and "execute_step env gx m = Some (gx', m', k, evs)"
  shows "walk_inv m' \<and> dag_ids m' = dag_ids m \<and> dag_arcs m' = dag_arcs m \<and> k = length (ready_nodes m) \<and>
    statuses m' = wave (outcome_at env m) (set (dag_arcs m)) (statuses m) \<and>
    card (open_nodes (statuses m')) + k = card (open_nodes (statuses m))"
proof -
  let ?V = "set (dag_ids m)" and ?E = "set (dag_arcs m)" and ?st = "statuses m"
  have w: "wave_inv ?V ?E ?st" and l: "linked m" and v: "valid_dag m" using inv by (simp_all add: walk_inv_def)
  have "polite env" using assms(2) by (simp add: calm_def)
  note s = execute_step_wave[OF this l assms(3)]
  then have st: "statuses m' = wave (outcome_at env m) ?E ?st" and same: "dag_ids m' = dag_ids m" "dag_arcs m' = dag_arcs m"
    and k: "k = length (ready_nodes m)" and l': "linked m'" by simp_all
  have w': "wave_inv ?V ?E (statuses m')" unfolding st by (rule wave_inv_wave[OF w])
  note o = open_wave[OF w List.finite_set, of "outcome_at env m", folded st]
  have fin: "finite (open_nodes ?st)" using o by (meson List.finite_set finite_subset)
  have size: "card (open_nodes (statuses m')) + k = card (open_nodes ?st)"
    using o fin ready_card[OF l] k by (metis (no_types, lifting) card_Diff_subset card_mono finite_subset le_add_diff_inverse2)
  have d: "distinct (dag_ids m)" "distinct (dag_ids m')" using v same by (simp_all add: valid_dag_def)
  have settled: "all_settled m' \<longleftrightarrow> open_nodes (statuses m') = {}" "all_settled m \<longleftrightarrow> open_nodes ?st = {}"
    using settled_open[OF d(2), of ?E] settled_open[OF d(1) w] w' unfolding same by blast+
  have "ms_status m' = (if all_settled m' then final_status m' else MS_RUNNING)"
  proof (cases "k = 0")
    case True
    then have "\<nexists>v. ready_at ?E ?st v" using k ready_none[OF l] by simp
    then have "statuses m' = ?st" unfolding st by (auto simp: wave_def)
    moreover from this have "final_status m' = final_status m"
      using failed_iff[OF d(1)] failed_iff[OF d(2)] by (simp add: final_status_def)
    moreover have "ms_status m' = ms_status m" using s True by simp
    moreover have "all_settled m' = all_settled m" using settled \<open>statuses m' = ?st\<close> by simp
    ultimately show ?thesis using inv by (simp add: walk_inv_def)
  next
    case False
    then have "open_nodes ?st \<noteq> {}" using size by auto
    then have "\<not> all_settled m" using settled(2) by blast
    then have "ms_status m = MS_RUNNING" using inv by (simp add: walk_inv_def)
    moreover have "ms_status m' = (if k > 0 \<and> all_settled m' \<and> ms_status m \<notin> {MS_FAILED, MS_COMPLETED} then final_status m'
        else ms_status m)" using s by blast
    ultimately show ?thesis using False by simp
  qed
  moreover have "length (dag_ids m') = length (dag_ids m)" using same(1) by simp
  then have "ms_nodes m' \<noteq> []" using inv by (auto simp: walk_inv_def)
  ultimately show ?thesis using valid_same[OF same v] l' w' same st k size by (simp add: walk_inv_def)
qed

lemma walk_ends:
  assumes "walk_inv m" and "\<And>k. calm (envs k)" and "card (open_nodes (statuses m)) \<le> left"
  shows "\<exists>k' gx' m' n' trace'. walk_steps left envs k (gx, m, n, trace) = Some (k', gx', m', n', trace') \<and> walk_inv m' \<and>
    dag_ids m' = dag_ids m \<and> dag_arcs m' = dag_arcs m \<and> (all_settled m' \<or> ready_nodes m' = [])"
  using assms(1,3)
proof (induction left arbitrary: k gx m n trace)
  case 0
  then have "wave_inv (set (dag_ids m)) (set (dag_arcs m)) (statuses m)" "distinct (dag_ids m)"
    by (simp_all add: walk_inv_def valid_dag_def)
  then have "finite (open_nodes (statuses m))" using open_wave finite_subset List.finite_set by metis
  then have "all_settled m" using 0 settled_open \<open>distinct (dag_ids m)\<close> \<open>wave_inv _ _ _\<close> by simp
  then show ?case using 0 by simp
next
  case (Suc left)
  have status: "ms_status m = (if all_settled m then final_status m else MS_RUNNING)" using Suc.prems(1) by (simp add: walk_inv_def)
  show ?case
  proof (cases "all_settled m")
    case True
    then have "terminal_mission m" using status by (simp add: terminal_mission_def final_status_def)
    then show ?thesis using True Suc.prems by simp
  next
    case False
    then have go: "\<not> (terminal_mission m \<or> ms_status m = MS_PAUSED)" using status by (simp add: terminal_mission_def)
    obtain gx1 m1 j evs where s: "execute_step (envs k) gx m = Some (gx1, m1, j, evs)"
      using execute_step_returns assms(2)[of k] unfolding calm_def by blast
    note w = step_walk_inv[OF Suc.prems(1) assms(2) s]
    have req: "serve_request (envs k) m1 = (m1, [])" using assms(2)[of k] by (simp add: serve_request_def calm_def)
    show ?thesis
    proof (cases "j = 0")
      case True
      have l: "linked m" "linked m1" using Suc.prems(1) w by (simp_all add: walk_inv_def)
      have "\<nexists>v. ready_at (set (dag_arcs m)) (statuses m) v" using True w ready_none[OF l(1)] by simp
      moreover from this have "statuses m1 = statuses m" using w by (auto simp: wave_def)
      ultimately have "ready_nodes m1 = []" using ready_none[OF l(2)] w by simp
      then show ?thesis using go s True w by simp
    next
      case False
      moreover have "card (open_nodes (statuses m1)) + j = card (open_nodes (statuses m))" using w by blast
      ultimately have "card (open_nodes (statuses m1)) \<le> left" using Suc.prems(2) by linarith
      from Suc.IH[OF conjunct1[OF w] this] show ?thesis using go s False w req by simp
    qed
  qed
qed

lemma fresh_walk_inv:
  assumes "valid_dag m" and "linked m" and "ms_nodes m \<noteq> []" and "\<forall>n \<in> set (ms_nodes m). mn_status n = Dag_PENDING"
    and "ms_status m = MS_RUNNING"
  shows "walk_inv m"
proof -
  have d: "distinct (dag_ids m)" using assms(1) by (simp add: valid_dag_def)
  have pend: "v \<in> set (dag_ids m) \<Longrightarrow> statuses m v = Some Dag_PENDING" for v
    using assms(4) statuses_node[OF d] by auto
  have none: "v \<notin> set (dag_ids m) \<Longrightarrow> statuses m v = None" for v by (simp add: statuses_None)
  have st: "statuses m v = None \<or> statuses m v = Some Dag_PENDING" for v using pend none by blast
  have other: "statuses m v \<noteq> Some Dag_FAILED" "statuses m v \<noteq> Some Dag_COMPLETED" "statuses m v \<noteq> Some Dag_BLOCKED" for v
    using st[of v] by auto
  have "set (dag_arcs m) \<subseteq> set (dag_ids m) \<times> set (dag_ids m)" using assms(1) by (auto simp: valid_dag_def known_ends_def)
  then have "wave_inv (set (dag_ids m)) (set (dag_arcs m)) (statuses m)"
    unfolding wave_inv_def using pend none other by blast
  moreover have "\<not> all_settled m" using assms(3,4) by (cases "ms_nodes m") (auto simp: all_settled_iff)
  ultimately show ?thesis using assms by (simp add: walk_inv_def)
qed

text \<open>What a started mission looks like.\<close>

lemma set_incoming: "set (incoming edges v) = {u. (u, v) \<in> set (map dag_arc edges)}"
  by (force simp: incoming_def)

lemma build_start:
  assumes b: "executor_build m0 nodes edges = (m1, [], evs1)" and s: "executor_start env gx m1 = (gx1, m2, ok, evs2)"
  shows "ok \<and> valid_dag m2 \<and> linked m2 \<and> ms_status m2 = MS_RUNNING \<and> map mn_status (ms_nodes m2) = map mn_status nodes \<and>
    dag_arcs m2 = map dag_arc edges \<and> dag_ids m2 = map mn_id nodes"
proof -
  define m where "m = link_nodes (map (\<lambda>n. n\<lparr>mn_mission := ms_id m0\<rparr>) nodes) edges m0"
  have "snd (validate_dag m) = []" and m1: "m1 = fst (validate_dag m)\<lparr>ms_status := MS_READY\<rparr>"
    using b by (auto simp: executor_build_def m_def[symmetric] split: prod.splits if_splits)
  then have v: "valid_dag m" and m1': "m1 = m\<lparr>ms_status := MS_READY\<rparr>"
    using dag_has_cycles_iff[of m] by (auto simp: validate_dag_def Let_def edge_issues_Nil valid_dag_def known_ends_def split: if_splits)
  obtain md where m2: "m2 = m\<lparr>ms_status := MS_RUNNING, ms_started := Some (se_now env), ms_metadata := md\<rparr>" and ok
    using s m1' by (auto simp: executor_start_def snapshot_workspace_def Let_def split: option.splits sum.splits prod.splits if_splits)
      (metis mission.surjective mission.update_convs(11))+
  have nodes: "ms_nodes m2 = ms_nodes m" "ms_edges m2 = ms_edges m" by (simp_all add: m2)
  have "set (mn_depends n) = {u. (u, mn_id n) \<in> set (dag_arcs m)}" if "n \<in> set (ms_nodes m)" for n
    using that by (auto simp: m_def link_nodes_def set_incoming)
  then have "linked m2" using v nodes unfolding linked_def valid_dag_def by simp
  moreover have "valid_dag m2" using valid_same[OF _ _ v] nodes by simp
  ultimately show ?thesis using \<open>ok\<close> nodes by (simp add: m2 m_def link_nodes_def o_def)
qed

text \<open>What the invariant says once nothing is ready.\<close>

lemma walk_result:
  assumes inv: "walk_inv m" and ids: "dag_ids m = map mn_id nodes" and arcs: "dag_arcs m = map dag_arc edges"
    and stop: "all_settled m \<or> ready_nodes m = []"
  shows "ready_nodes m = [] \<and>
    (\<forall>e \<in> set edges. statuses m (me_target e) \<in> {Some Dag_COMPLETED, Some Dag_FAILED} \<longrightarrow>
       statuses m (me_source e) = Some Dag_COMPLETED) \<and>
    (ms_status m = MS_COMPLETED \<longleftrightarrow> (\<forall>v \<in> mn_id ` set nodes. statuses m v = Some Dag_COMPLETED)) \<and>
    (ms_status m = MS_FAILED \<longleftrightarrow> (\<exists>v. statuses m v = Some Dag_FAILED) \<and>
       (\<forall>v \<in> mn_id ` set nodes. statuses m v \<in> {Some Dag_COMPLETED, Some Dag_FAILED})) \<and>
    (ms_status m = MS_RUNNING \<longleftrightarrow> (\<exists>e \<in> set edges. statuses m (me_source e) = Some Dag_FAILED \<and>
       statuses m (me_target e) = Some Dag_BLOCKED))"
proof -
  let ?V = "set (dag_ids m)" and ?E = "set (dag_arcs m)" and ?st = "statuses m"
  have w: "wave_inv ?V ?E ?st" and l: "linked m" and v: "valid_dag m"
    and status: "ms_status m = (if all_settled m then final_status m else MS_RUNNING)" using inv by (simp_all add: walk_inv_def)
  have d: "distinct (dag_ids m)" using v by (simp add: valid_dag_def)
  have V: "?V = mn_id ` set nodes" unfolding ids by simp
  have E: "(\<exists>e \<in> set edges. ?st (me_source e) = Some Dag_FAILED \<and> ?st (me_target e) = Some Dag_BLOCKED) \<longleftrightarrow>
      (\<exists>s t. (s, t) \<in> ?E \<and> ?st s = Some Dag_FAILED \<and> ?st t = Some Dag_BLOCKED)"
    unfolding arcs by auto
  have settled: "all_settled m \<longleftrightarrow> (\<forall>v \<in> ?V. ?st v \<in> {Some Dag_COMPLETED, Some Dag_FAILED})"
  proof -
    have "v \<in> open_nodes ?st \<longleftrightarrow> v \<in> ?V \<and> ?st v \<notin> {Some Dag_COMPLETED, Some Dag_FAILED}" for v
      unfolding open_iff statuses_None by (rule conj_cong) simp_all
    then have "open_nodes ?st = {} \<longleftrightarrow> (\<forall>v \<in> ?V. ?st v \<in> {Some Dag_COMPLETED, Some Dag_FAILED})" by blast
    then show ?thesis using settled_open[OF d w] by simp
  qed
  have ready: "ready_nodes m = []"
    using stop
  proof
    assume all: "all_settled m"
    have "\<not> ready_at ?E ?st v" for v
    proof
      assume "ready_at ?E ?st v"
      then have pend: "?st v = Some Dag_PENDING" using wave_status[OF w] by blast
      then have "v \<in> ?V" by (rule wave_inv_known[OF w])
      then show False using all pend settled by fastforce
    qed
    then show ?thesis using ready_none[OF l] by blast
  qed
  have failed: "failed_nodes m = 0 \<longleftrightarrow> (\<forall>v. ?st v \<noteq> Some Dag_FAILED)" by (rule failed_iff[OF d])
  have all: "all_settled m \<and> failed_nodes m = 0 \<longleftrightarrow> (\<forall>v \<in> ?V. ?st v = Some Dag_COMPLETED)"
  proof -
    have "(\<forall>v. ?st v \<noteq> Some Dag_FAILED) \<longleftrightarrow> (\<forall>v \<in> ?V. ?st v \<noteq> Some Dag_FAILED)" using wave_inv_known[OF w] by blast
    then show ?thesis unfolding settled failed by auto
  qed
  have run: "\<not> all_settled m \<longleftrightarrow> (\<exists>s t. (s, t) \<in> ?E \<and> ?st s = Some Dag_FAILED \<and> ?st t = Some Dag_BLOCKED)"
  proof
    assume "\<not> all_settled m"
    then have "open_nodes ?st \<noteq> {}" using settled_open[OF d w] by blast
    then show "\<exists>s t. (s, t) \<in> ?E \<and> ?st s = Some Dag_FAILED \<and> ?st t = Some Dag_BLOCKED"
      using stuck_behind_failure[OF w List.finite_set] v ready ready_none[OF l] unfolding valid_dag_def by blast
  next
    assume "\<exists>s t. (s, t) \<in> ?E \<and> ?st s = Some Dag_FAILED \<and> ?st t = Some Dag_BLOCKED"
    then obtain t where t: "?st t = Some Dag_BLOCKED" by blast
    then have "t \<in> ?V" by (rule wave_inv_known[OF w])
    then show "\<not> all_settled m" unfolding settled using t by fastforce
  qed
  have before: "\<forall>e \<in> set edges. ?st (me_target e) \<in> {Some Dag_COMPLETED, Some Dag_FAILED} \<longrightarrow> ?st (me_source e) = Some Dag_COMPLETED"
  proof
    fix e assume "e \<in> set edges"
    then have "(me_source e, me_target e) \<in> ?E" unfolding arcs by auto
    then show "?st (me_target e) \<in> {Some Dag_COMPLETED, Some Dag_FAILED} \<longrightarrow> ?st (me_source e) = Some Dag_COMPLETED"
      using w unfolding wave_inv_def by blast
  qed
  show ?thesis
    unfolding E V[symmetric]
  proof (intro conjI)
    have s: "ms_status m = MS_COMPLETED \<longleftrightarrow> all_settled m \<and> failed_nodes m = 0"
      "ms_status m = MS_FAILED \<longleftrightarrow> failed_nodes m \<noteq> 0 \<and> all_settled m" "ms_status m = MS_RUNNING \<longleftrightarrow> \<not> all_settled m"
      unfolding status by (simp_all add: final_status_def)
    show "ms_status m = MS_COMPLETED \<longleftrightarrow> (\<forall>v \<in> ?V. ?st v = Some Dag_COMPLETED)" using s(1) all by blast
    show "ms_status m = MS_FAILED \<longleftrightarrow> (\<exists>v. ?st v = Some Dag_FAILED) \<and>
        (\<forall>v \<in> ?V. ?st v \<in> {Some Dag_COMPLETED, Some Dag_FAILED})" unfolding s failed settled by blast
    show "ms_status m = MS_RUNNING \<longleftrightarrow> (\<exists>s t. (s, t) \<in> ?E \<and> ?st s = Some Dag_FAILED \<and> ?st t = Some Dag_BLOCKED)"
      using s(3) run by blast
  qed (rule ready before)+
qed

text \<open>
  C10. The walk of a valid mission ends within its ceiling of passes and settles everything it can: built from
  at least one and at most a hundred pending nodes and started, and run by callables that answer, with no
  request in between, it stops with no ready node. A node that was run had all its predecessors completed.
  The mission is completed exactly when every node is; failed exactly when some node failed and every other
  is completed or failed; and it is left running for ever, with blocked nodes, exactly when a failed node
  has a successor.
\<close>

theorem mission_walk_outcome:
  assumes "executor_build m0 nodes edges = (m1, [], evs1)" and "executor_start env gx m1 = (gx1, m2, ok, evs2)"
    and "nodes \<noteq> []" and "length nodes \<le> max_execution_passes" and "\<forall>n \<in> set nodes. mn_status n = Dag_PENDING"
    and "\<And>k. calm (envs k)"
  shows "ok \<and> (\<exists>k gx3 m3 n trace. walk_steps max_execution_passes envs 0 (gx1, m2, 0, []) = Some (k, gx3, m3, n, trace) \<and>
    ready_nodes m3 = [] \<and>
    (\<forall>e \<in> set edges. statuses m3 (me_target e) \<in> {Some Dag_COMPLETED, Some Dag_FAILED} \<longrightarrow>
       statuses m3 (me_source e) = Some Dag_COMPLETED) \<and>
    (ms_status m3 = MS_COMPLETED \<longleftrightarrow> (\<forall>v \<in> mn_id ` set nodes. statuses m3 v = Some Dag_COMPLETED)) \<and>
    (ms_status m3 = MS_FAILED \<longleftrightarrow> (\<exists>v. statuses m3 v = Some Dag_FAILED) \<and>
       (\<forall>v \<in> mn_id ` set nodes. statuses m3 v \<in> {Some Dag_COMPLETED, Some Dag_FAILED})) \<and>
    (ms_status m3 = MS_RUNNING \<longleftrightarrow> (\<exists>e \<in> set edges. statuses m3 (me_source e) = Some Dag_FAILED \<and>
       statuses m3 (me_target e) = Some Dag_BLOCKED)))"
proof -
  note b = build_start[OF assms(1,2)]
  have ids: "dag_ids m2 = map mn_id nodes" and arcs: "dag_arcs m2 = map dag_arc edges" using b by simp_all
  have st2: "\<forall>n \<in> set (ms_nodes m2). mn_status n = Dag_PENDING"
  proof
    fix n assume n: "n \<in> set (ms_nodes m2)"
    have "map mn_status (ms_nodes m2) = map mn_status nodes" using b by blast
    then have "mn_status n \<in> set (map mn_status nodes)" using n by (metis image_eqI list.set_map)
    then show "mn_status n = Dag_PENDING" using assms(5) by auto
  qed
  have ne: "ms_nodes m2 \<noteq> []" using b assms(3) by (metis map_is_Nil_conv)
  have inv2: "walk_inv m2" by (rule fresh_walk_inv) (use b st2 ne in auto)
  have "wave_inv (set (dag_ids m2)) (set (dag_arcs m2)) (statuses m2)" using inv2 by (simp only: walk_inv_def)
  then have "open_nodes (statuses m2) \<subseteq> set (dag_ids m2)" using open_wave[OF _ List.finite_set] by blast
  then have "card (open_nodes (statuses m2)) \<le> card (set (dag_ids m2))" by (rule card_mono[OF List.finite_set])
  then have "card (open_nodes (statuses m2)) \<le> max_execution_passes"
    using card_length[of "dag_ids m2"] assms(4) ids by simp
  from walk_ends[where envs = envs, OF inv2 assms(6) this, where k = 0 and gx = gx1 and n = 0 and trace = "[]"] obtain k gx3 m3 n trace where
    w: "walk_steps max_execution_passes envs 0 (gx1, m2, 0, []) = Some (k, gx3, m3, n, trace)" and inv: "walk_inv m3"
    and same: "dag_ids m3 = map mn_id nodes" "dag_arcs m3 = map dag_arc edges" and stop: "all_settled m3 \<or> ready_nodes m3 = []"
    unfolding ids arcs by blast
  note r = walk_result[OF inv same stop]
  show ?thesis
    by (rule conjI[OF conjunct1[OF b]], (rule exI)+, rule conjI[OF w r])
qed

text \<open>A chain of two nodes whose first node fails is left running for ever.\<close>

definition bare_mission :: mission where
  "bare_mission = chain_mission\<lparr>ms_nodes := [], ms_edges := []\<rparr>"

lemma chain_build: "\<exists>m1 evs. executor_build bare_mission (ms_nodes chain_mission) (ms_edges chain_mission) = (m1, [], evs)"
proof -
  define m where "m = link_nodes (map (\<lambda>n. n\<lparr>mn_mission := ms_id bare_mission\<rparr>) (ms_nodes chain_mission)) (ms_edges chain_mission) bare_mission"
  have "dag_ids m = dag_ids chain_mission" "dag_arcs m = dag_arcs chain_mission"
    by (simp_all add: m_def link_nodes_def o_def)
  then have "valid_dag m" using chain_mission_valid valid_same by blast
  then have "snd (validate_dag m) = []"
    using dag_has_cycles_iff[of m] by (simp add: validate_dag_def Let_def edge_issues_Nil valid_dag_def known_ends_def)
  then show ?thesis by (auto simp: executor_build_def m_def[symmetric] split: prod.splits)
qed

theorem mission_walk_outcome_witness:
  "\<exists>gx1 m2 k gx3 m3 n trace. walk_steps max_execution_passes (\<lambda>_. calm_env (\<lambda>_. False)) 0 (gx1, m2, 0, []) = Some (k, gx3, m3, n, trace) \<and>
     ready_nodes m3 = [] \<and> dag_arcs m2 = [(''a'', ''b'')]"
proof -
  obtain m1 evs1 where b: "executor_build bare_mission (ms_nodes chain_mission) (ms_edges chain_mission) = (m1, [], evs1)"
    using chain_build by blast
  obtain gx1 m2 ok evs2 where s: "executor_start (calm_env (\<lambda>_. False)) sample_executor m1 = (gx1, m2, ok, evs2)"
    by (metis prod_cases4)
  have "calm (calm_env (\<lambda>_. False))" using calm_env_polite by (simp add: calm_def calm_env_def)
  then obtain k gx3 m3 n trace where "walk_steps max_execution_passes (\<lambda>_. calm_env (\<lambda>_. False)) 0 (gx1, m2, 0, []) =
      Some (k, gx3, m3, n, trace)" "ready_nodes m3 = []"
    using mission_walk_outcome[OF b s, where envs = "\<lambda>_. calm_env (\<lambda>_. False)"]
    by (auto simp: chain_mission_def chain_node_def max_execution_passes_def)
  moreover have "dag_arcs m2 = [(''a'', ''b'')]" using build_start[OF b s] chain_mission_arcs by simp
  ultimately show ?thesis by (intro exI conjI)
qed

subsection \<open>Retries\<close>

text \<open>
  The metadata that drives the retries: the number of attempts, and whether a brief is waiting. A mission
  whose two entries were written by the engine itself has \<open>retry_state m a b\<close> for some \<open>a\<close> and \<open>b\<close>.
\<close>

definition retry_state :: "mission \<Rightarrow> int \<Rightarrow> bool \<Rightarrow> bool" where
  "retry_state m a waiting \<longleftrightarrow> attempts_of m = Some a \<and>
     (if waiting then \<exists>s. dict_get (ms_metadata m) ''retry_brief'' = Some (PStr s)
      else dict_get (ms_metadata m) ''retry_brief'' = None)"

text \<open>A step leaves the attempts, and may write a brief only while attempts remain.\<close>

definition retry_step :: "mission \<Rightarrow> mission \<Rightarrow> bool" where
  "retry_step m m' \<longleftrightarrow> (\<forall>a b. retry_state m a b \<longrightarrow> (\<exists>b'. retry_state m' a b' \<and> (b' \<longrightarrow> b \<or> a < default_max_attempts)))"

lemma retry_step_refl [simp]: "retry_step m m"
  unfolding retry_step_def by blast

lemma retry_step_trans: "retry_step m m' \<Longrightarrow> retry_step m' m'' \<Longrightarrow> retry_step m m''"
  unfolding retry_step_def by metis

lemma retry_step_meta: "(\<And>k. k \<in> {''attempts'', ''retry_brief''} \<Longrightarrow> dict_get (ms_metadata m') k = dict_get (ms_metadata m) k) \<Longrightarrow>
    retry_step m m'"
  unfolding retry_step_def retry_state_def attempts_of_def by (metis insertI1 insertI2 singletonI)

lemma decide_attempts: "decide_retry v g k limit = Some d \<Longrightarrow> rd_brief d = Some b \<Longrightarrow> k < limit"
  by (auto simp: decide_retry_def no_retry_def bind_eq_Some_conv split: option.splits if_splits)

lemma retry_step_suggest:
  assumes "suggest_retry gx v m = (m', evs)"
  shows "retry_step m m'"
proof (cases "m' = m")
  case False
  then obtain k d b where k: "attempts_of m = Some k" and d: "decide_retry v (mission_goal m) k default_max_attempts = Some d"
    "rd_brief d = Some b" and m': "m' = m\<lparr>ms_metadata := dict_set ''retry_brief'' (PStr (gx_brief gx b)) (ms_metadata m)\<rparr>"
    using assms by (auto simp: suggest_retry_def bind_eq_Some_conv split: option.splits)
  have "k < default_max_attempts" by (rule decide_attempts[OF d])
  moreover have "attempts_of m' = Some k" "dict_get (ms_metadata m') ''retry_brief'' = Some (PStr (gx_brief gx b))"
    using k by (simp_all add: m' attempts_of_def)
  ultimately show ?thesis using k by (auto simp: retry_step_def retry_state_def)
qed simp

lemma retry_step_finish:
  assumes "finish_mission env gx m = (gx', m', evs)"
  shows "retry_step m m'"
proof (cases "ms_status m \<in> {MS_FAILED, MS_COMPLETED}")
  case False
  define m1 where "m1 = m\<lparr>ms_status := final_status m, ms_completed := Some (se_now env)\<rparr>"
  obtain gx1 v where v: "verify_workspace env (failed_nodes m = 0) gx m1 = (gx1, v)" by fastforce
  define m2 where "m2 = (case v of None \<Rightarrow> m1 | Some d \<Rightarrow> m1\<lparr>ms_metadata := dict_set ''verification'' (PDict d) (ms_metadata m1)\<rparr>)"
  obtain m3 evs3 where s: "suggest_retry gx1 v m2 = (m3, evs3)" by fastforce
  have "m' = m3" using assms False v s
    unfolding finish_mission_def Let_def final_status_def[symmetric] m1_def[symmetric]
    by (simp add: m2_def[symmetric])
  moreover have "retry_step m m2" by (rule retry_step_meta) (auto simp: m2_def m1_def split: option.splits)
  ultimately show ?thesis using retry_step_trans retry_step_suggest[OF s] by blast
qed (use assms in \<open>simp add: finish_mission_def\<close>)

lemma settle_meta: "ms_metadata (fst (fold (settle_node now R) ns (m, evs))) = ms_metadata m"
proof -
  have block: "ms_metadata (fold block_node us m) = ms_metadata m" for us m
    by (induction us arbitrary: m) (simp_all add: block_node_def update_node_def)
  have "ms_metadata (fst (settle_node now R n s)) = ms_metadata (fst s)" for n s
    by (cases s) (auto simp: settle_node_def Let_def mark_completed_def mark_failed_def update_node_def block split: option.splits)
  then show ?thesis by (induction ns arbitrary: m evs) (simp, metis fold_simps(2) fst_conv surj_pair)
qed

lemma retry_step_execute:
  assumes "execute_step env gx m = Some (gx', m', k, evs)"
  shows "retry_step m m'"
proof -
  obtain limit evs0 where c: "if ready_nodes m \<noteq> [] \<and> all_settled (fst (settled_mission env limit m (after_run env limit m, evs0)))
       then (\<exists>l. finish_mission env gx (fst (settled_mission env limit m (after_run env limit m, evs0))) = (gx', m', l))
       else m' = fst (settled_mission env limit m (after_run env limit m, evs0)) \<and> gx' = gx"
    using execute_step_cases[OF assms] unfolding Let_def by blast
  have "ms_metadata (fst (settled_mission env limit m (after_run env limit m, evs0))) = ms_metadata m"
    by (simp add: settled_mission_def settle_meta after_run_def)
  then have "retry_step m (fst (settled_mission env limit m (after_run env limit m, evs0)))" by (intro retry_step_meta) simp
  then show ?thesis using c retry_step_trans retry_step_finish by (auto split: if_splits)
qed

lemma retry_step_request: "serve_request env m = (m', evs) \<Longrightarrow> retry_step m m'"
  by (rule retry_step_meta)
    (auto simp: serve_request_def pause_walk_def executor_cancel_def Let_def split: option.splits mission_request.splits if_splits prod.splits)

lemma walk_steps_returns:
  assumes "\<And>k n. snd (se_run (envs k) n) \<noteq> Silent"
  shows "\<exists>k' gx' m' n' trace'. walk_steps left envs k (gx, m, n, trace) = Some (k', gx', m', n', trace') \<and> retry_step m m'"
proof (induction left arbitrary: k gx m n trace)
  case (Suc left)
  obtain gx1 m1 j evs where s: "execute_step (envs k) gx m = Some (gx1, m1, j, evs)" using execute_step_returns assms by blast
  obtain m2 evs2 where q: "serve_request (envs k) m1 = (m2, evs2)" by fastforce
  have step: "retry_step m m1" "retry_step m1 m2" using retry_step_execute[OF s] retry_step_request[OF q] by blast+
  have "\<exists>k' gx' m' n' trace'. walk_steps left envs (Suc k) (gx1, m2, n + j, trace @ evs @ evs2) = Some (k', gx', m', n', trace') \<and>
      retry_step m2 m'" by (rule Suc.IH)
  then show ?case using s q step by (cases "terminal_mission m \<or> ms_status m = MS_PAUSED"; cases "j = 0") (auto intro: retry_step_trans[OF retry_step_trans[OF step]])
qed simp

lemma prepare_retry_returns:
  assumes "retry_state m a waiting"
  shows "\<exists>gx' m' again evs. prepare_retry env gx m = Some (gx', m', again, evs) \<and>
    (if again then waiting \<and> retry_state m' (a + 1) False else retry_state m' a False)"
proof -
  define m0 where "m0 = m\<lparr>ms_metadata := dict_del ''retry_brief'' (ms_metadata m)\<rparr>"
  have m0: "retry_state m0 a False" and at0: "attempts_of m0 = Some a" using assms by (simp_all add: retry_state_def attempts_of_def m0_def)
  show ?thesis
  proof (cases "\<exists>s. dict_get (ms_metadata m) ''retry_brief'' = Some (PStr s) \<and> s \<noteq> []")
    case False
    then have "prepare_retry env gx m = Some (gx, m0, False, [])"
      using assms by (auto simp: prepare_retry_def m0_def retry_state_def split: if_splits)
    then show ?thesis using m0 by (intro exI[of _ gx] exI[of _ m0] exI[of _ False]) simp
  next
    case True
    then obtain s where s: "dict_get (ms_metadata m) ''retry_brief'' = Some (PStr s)" "s \<noteq> []" by blast
    then have waiting using assms by (auto simp: retry_state_def split: if_splits)
    define md1 where "md1 = dict_set ''attempts'' (PInt (a + 1)) (ms_metadata m0)"
    define md2 where "md2 = (if ''original_objective'' \<in> set (dict_keys md1) then md1
      else dict_set ''original_objective'' (PStr (str_or_else (ms_objective m) (ms_description m))) md1)"
    define m1 where "m1 = m0\<lparr>ms_metadata := md2, ms_objective := s,
      ms_nodes := map (\<lambda>n. n\<lparr>mn_status := Dag_PENDING, mn_summary := []\<rparr>) (ms_nodes m)\<rparr>"
    obtain m2 issues evs1 where b: "executor_build m1 (ms_nodes m1) (ms_edges m1) = (m2, issues, evs1)" by (metis prod_cases3)
    obtain gx' m3 started evs2 where st: "executor_start env gx (m2\<lparr>ms_status := MS_READY\<rparr>) = (gx', m3, started, evs2)" by (metis prod_cases4)
    have p: "prepare_retry env gx m = Some (gx', m3, started, evs1 @ evs2)"
      unfolding prepare_retry_def Let_def m0_def[symmetric] s(1) at0 option.case prod.case pyval.case md1_def[symmetric]
        md2_def[symmetric] m1_def[symmetric] b st using s(2) by simp
    have md: "ms_metadata m2 = md2" using b by (auto simp: executor_build_def validate_dag_def link_nodes_def m1_def Let_def split: if_splits)
    have started and "\<And>k. k \<noteq> ''checkpoint'' \<Longrightarrow> dict_get (ms_metadata m3) k = dict_get md2 k"
      using st by (auto simp: executor_start_def snapshot_workspace_def Let_def md split: option.splits sum.splits prod.splits if_splits)
    moreover have "dict_get md2 ''attempts'' = Some (PInt (a + 1))" "dict_get md2 ''retry_brief'' = None"
      by (simp_all add: md2_def md1_def m0_def)
    ultimately have "retry_state m3 (a + 1) False" by (simp add: retry_state_def attempts_of_def)
    then show ?thesis using p \<open>started\<close> \<open>waiting\<close> by auto
  qed
qed

text \<open>
  C11. Driving a mission returns, retries included, although nothing in the code of the recursion bounds
  them: as long as the callables answer, whatever they answer, whatever the disk shows and whatever pause
  or cancel request is served, the run ends, and the number of attempts it leaves never exceeds the limit
  of two (or one more than it was, where a brief was already waiting).
\<close>

theorem mission_run_returns:
  assumes "\<And>k n. snd (se_run (envs k) n) \<noteq> Silent" and "retry_state m a waiting"
  shows "\<exists>k' gx' m' n trace a'. run_mission_steps envs k gx m = Some (k', gx', m', n, trace) \<and> attempts_of m' = Some a' \<and>
    a \<le> a' \<and> a' \<le> max (if waiting then a + 1 else a) default_max_attempts"
  using assms(2)
proof (induction "2 * nat (default_max_attempts - a) + (if waiting \<or> a < default_max_attempts then 1 else 0)"
    arbitrary: k gx m a waiting rule: less_induct)
  case less
  obtain k1 gx1 m1 n1 trace1 where w: "walk_steps max_execution_passes envs k (gx, m, 0, []) = Some (k1, gx1, m1, n1, trace1)"
    and "retry_step m m1" using walk_steps_returns[where envs = envs, OF assms(1)] by blast
  then obtain b1 where s1: "retry_state m1 a b1" and b1: "b1 \<longrightarrow> waiting \<or> a < default_max_attempts"
    using less.prems unfolding retry_step_def by blast
  obtain gx2 m2 again evs where p: "prepare_retry (envs k1) gx1 m1 = Some (gx2, m2, again, evs)"
    and s2: "if again then b1 \<and> retry_state m2 (a + 1) False else retry_state m2 a False"
    using prepare_retry_returns[OF s1] by blast
  note run = run_mission_steps.simps[of envs k gx m, unfolded w Option.bind.simps prod.case]
  show ?case
  proof (cases "terminal_mission m1 \<and> again")
    case True
    then have more: "waiting \<or> a < default_max_attempts" and s: "retry_state m2 (a + 1) False" using s2 b1 by simp_all
    have "2 * nat (default_max_attempts - (a + 1)) + (if False \<or> a + 1 < default_max_attempts then 1 else 0) <
        2 * nat (default_max_attempts - a) + (if waiting \<or> a < default_max_attempts then 1 else 0)"
      using more by (auto simp: default_max_attempts_def)
    from less.hyps[OF this s, of "Suc k1" gx2] obtain k' gx' m' n trace a' where
      r: "run_mission_steps envs (Suc k1) gx2 m2 = Some (k', gx', m', n, trace)" "attempts_of m' = Some a'"
      "a + 1 \<le> a'" "a' \<le> max (a + 1) default_max_attempts" by auto
    then show ?thesis using run True p more by (auto simp: max_def split: if_splits)
  next
    case False
    then show ?thesis using run p s1 s2 by (auto simp: retry_state_def split: if_splits)
  qed
qed

text \<open>A waiting brief is taken once.\<close>

theorem mission_run_returns_witness:
  "\<exists>k' gx' m' n trace a'. run_mission_steps (\<lambda>_. calm_env (\<lambda>_. True)) 0 sample_executor chain_mission = Some (k', gx', m', n, trace) \<and>
     attempts_of m' = Some a' \<and> a' \<le> 2"
proof -
  have "retry_state chain_mission 1 False" by (simp add: retry_state_def attempts_of_def chain_mission_def)
  then show ?thesis
    using mission_run_returns[where envs = "\<lambda>_. calm_env (\<lambda>_. True)" and m = chain_mission and k = 0 and gx = sample_executor]
    by (fastforce simp: calm_env_def default_max_attempts_def)
qed

subsection \<open>Durability\<close>

fun saved :: "walk_event list \<Rightarrow> mission list" where
  "saved [] = []"
| "saved (EvSaved m # evs) = m # saved evs"
| "saved (e # evs) = saved evs"

lemma saved_append [simp]: "saved (xs @ ys) = saved xs @ saved ys"
  by (induction xs rule: saved.induct) auto

lemma saved_ready [simp]: "saved (ready_events m) = []"
proof -
  have "saved (map (\<lambda>n. EvNodeReady (ms_id m) (mn_id n) (mn_title n)) ns) = []" for ns by (induction ns) auto
  then show ?thesis by (simp add: ready_events_def)
qed

lemma saved_settle_one: "saved (snd (settle_node now R n s)) \<noteq> [] \<and> last (saved (snd (settle_node now R n s))) = fst (settle_node now R n s)"
  by (cases s) (simp add: settle_node_def Let_def)

lemma saved_settle: "ns \<noteq> [] \<Longrightarrow> fold (settle_node now R) ns (m, evs) = (m', evs') \<Longrightarrow> saved evs' \<noteq> [] \<and> last (saved evs') = m'"
proof (induction ns rule: rev_induct)
  case (snoc n ns)
  then show ?case using saved_settle_one[of now R n "fold (settle_node now R) ns (m, evs)"] by simp
qed simp

lemma saved_suggest: "suggest_retry gx v m = (m', evs) \<Longrightarrow> saved evs = []"
  by (auto simp: suggest_retry_def split: option.splits)

lemma saved_finish:
  assumes "finish_mission env gx m = (gx', m', evs)"
  shows "if saved evs = [] then m' = m else last (saved evs) = m'"
proof (cases "ms_status m \<in> {MS_FAILED, MS_COMPLETED}")
  case False
  define m1 where "m1 = m\<lparr>ms_status := final_status m, ms_completed := Some (se_now env)\<rparr>"
  obtain gx1 v where v: "verify_workspace env (failed_nodes m = 0) gx m1 = (gx1, v)" by fastforce
  define m2 where "m2 = (case v of None \<Rightarrow> m1 | Some d \<Rightarrow> m1\<lparr>ms_metadata := dict_set ''verification'' (PDict d) (ms_metadata m1)\<rparr>)"
  obtain m3 evs3 where s: "suggest_retry gx1 v m2 = (m3, evs3)" by fastforce
  define late where "late = (case v of None \<Rightarrow> [] | Some d \<Rightarrow> if truthy_at d ''contradicted'' then [EvUnverified d]
    else if truthy_at d ''mesure_impossible'' then [EvUnmeasured d] else [])"
  have "m' = m3 \<and> evs = evs3 @ [EvSaved m3, EvCompleted (ms_id m) (failed_nodes m) v (failed_nodes m = 0)] @ late"
    using assms False v s
    unfolding finish_mission_def Let_def final_status_def[symmetric] m1_def[symmetric] late_def
    by (simp add: m2_def[symmetric]) blast
  moreover have "saved late = []" by (auto simp: late_def split: option.splits)
  ultimately show ?thesis using saved_suggest[OF s] by simp
qed (use assms in \<open>simp add: finish_mission_def\<close>)

text \<open>
  C13. What a step does is durable: after a step that ran at least one node, the last state written to the
  store is the very state the mission is left in, its final status, end and verification included.
\<close>

theorem step_durable:
  assumes "execute_step env gx m = Some (gx', m', k, evs)" and "k > 0"
  shows "saved evs \<noteq> [] \<and> last (saved evs) = m'"
proof -
  define limit where "limit = concurrency_limit (gx_fallback gx) (se_capacity env)"
  define outs where "outs = step_outcomes env limit m"
  define evs0 where "evs0 = concat (map (\<lambda>(n, a, evs). evs) outs) @
    (if silent_titles outs = [] then [] else [EvStepTimeout (ms_id m) (silent_titles outs)])"
  obtain m1 log1 where f: "fold (settle_node (se_now env) (step_results outs [])) (ready_nodes m) (after_run env limit m, evs0) = (m1, log1)"
    by fastforce
  obtain gx2 m2 log2 where g: "(if all_settled m1 then finish_mission env gx m1 else (gx, m1, [])) = (gx2, m2, log2)" by (metis prod_cases3)
  have r: "ready_nodes m \<noteq> [] \<and> m' = m2 \<and> evs = log1 @ log2 @ ready_events m2"
    using assms f g unfolding execute_step_def Let_def limit_def[symmetric] outs_def[symmetric] evs0_def[symmetric]
    by (cases "ready_nodes m = []") (auto split: if_splits)
  have "saved log1 \<noteq> [] \<and> last (saved log1) = m1" using saved_settle[OF _ f] r by blast
  moreover have "if saved log2 = [] then m2 = m1 else last (saved log2) = m2"
    using g saved_finish[of env gx m1 gx2 m2 log2] by (cases "all_settled m1") auto
  ultimately show ?thesis using r by (auto split: if_splits)
qed

theorem step_durable_witness:
  "\<exists>gx' m' evs. execute_step (calm_env (\<lambda>_. True)) sample_executor chain_mission = Some (gx', m', 1, evs) \<and> last (saved evs) = m'"
proof -
  obtain gx' m' k evs where s: "execute_step (calm_env (\<lambda>_. True)) sample_executor chain_mission = Some (gx', m', k, evs)"
    using execute_step_returns[of "calm_env (\<lambda>_. True)" sample_executor chain_mission] by (auto simp: calm_env_def)
  have "ready_nodes chain_mission = [chain_node ''a'' []]"
    by (simp add: ready_nodes_def chain_mission_def chain_node_def is_ready_def dependencies_satisfied_def find_dag_node_def)
  then have "k = 1" using execute_step_wave[OF calm_env_polite chain_mission_linked s] by simp
  then show ?thesis using step_durable[OF s] s by auto
qed

text \<open>
  The start and the second run of a mission: the end of the first run is kept, so that the report of a
  mission that is being run again has a negative duration.
\<close>

lemma retry_keeps_end:
  assumes "executor_start env gx m = (gx', m', True, evs)" and "ms_completed m = Some t" and "t < se_now env"
  shows "mr_duration (build_mission_report now m') < 0"
  using assms
  by (auto simp: executor_start_def snapshot_workspace_def Let_def build_mission_report_def mission_duration_ms_def
      mult_neg_pos split: if_splits prod.splits option.splits sum.splits)

end
