(* ===== verification/Taxonomy.thy ===== *)
theory Taxonomy
  imports MissionVerification
begin

text \<open>
  The causes of a failed run and what each calls for, \<^verbatim>\<open>backend/runs/taxonomie.py\<close>: a message is searched
  for literal phrases, in the order of the source's table, each optionally between word boundaries, without
  regard to case. A character is a code point of Latin-1; the patterns of the source are finite alternations,
  written out here as the list of their words in the order the engine tries them.
\<close>

datatype cause = Cause_MODELE | Cause_FOURNISSEUR | Cause_QUOTA | Cause_RESSOURCE | Cause_CONTEXTE | Cause_OUTIL
  | Cause_SEMANTIQUE | Cause_VERIFICATION | Cause_POLITIQUE | Cause_SECURITE | Cause_PROCESSUS | Cause_BUDGET
  | Cause_INCONNUE

fun cause_value :: "cause \<Rightarrow> string" where
  "cause_value Cause_MODELE = ''modele''"
| "cause_value Cause_FOURNISSEUR = ''fournisseur''"
| "cause_value Cause_QUOTA = ''quota''"
| "cause_value Cause_RESSOURCE = ''ressource''"
| "cause_value Cause_CONTEXTE = ''contexte''"
| "cause_value Cause_OUTIL = ''outil''"
| "cause_value Cause_SEMANTIQUE = ''semantique''"
| "cause_value Cause_VERIFICATION = ''verification''"
| "cause_value Cause_POLITIQUE = ''politique''"
| "cause_value Cause_SECURITE = ''securite''"
| "cause_value Cause_PROCESSUS = ''processus''"
| "cause_value Cause_BUDGET = ''budget''"
| "cause_value Cause_INCONNUE = ''inconnue''"

text \<open>The hint of a classification: the code, the phrase of the table with the text it found, or a fixed text.\<close>

datatype hint = NoHint | DoneReason | HttpCode int | Found nat string

record classement =
  cl_cause :: cause
  cl_hint :: hint

record remede =
  re_retry :: bool
  re_other_model :: bool
  re_smaller_model :: bool
  re_wider_context :: bool
  re_other_provider :: bool
  re_wait :: rat

subsection \<open>Search\<close>

text \<open>Lower case of a Latin-1 letter, and the word characters of \<^verbatim>\<open>\b\<close>.\<close>

definition latin_lower :: "char \<Rightarrow> char" where
  "latin_lower c = (let n = of_char c :: nat in
     if (65 \<le> n \<and> n \<le> 90) \<or> (192 \<le> n \<and> n \<le> 222 \<and> n \<noteq> 215) then char_of (n + 32) else c)"

definition word_char :: "char \<Rightarrow> bool" where
  "word_char c = (let n = of_char c :: nat in
     (48 \<le> n \<and> n \<le> 57) \<or> (65 \<le> n \<and> n \<le> 90) \<or> n = 95 \<or> (97 \<le> n \<and> n \<le> 122) \<or> n \<in> {170, 178, 179, 181, 185, 186}
     \<or> (188 \<le> n \<and> n \<le> 190) \<or> (192 \<le> n \<and> n \<noteq> 215 \<and> n \<noteq> 247))"

definition starts_word :: "string \<Rightarrow> bool" where
  "starts_word s = (case s of [] \<Rightarrow> False | c # _ \<Rightarrow> word_char c)"

text \<open>A boundary lies between a word character and something else; \<open>before\<close> is the text read so far, reversed.\<close>

definition boundary :: "string \<Rightarrow> string \<Rightarrow> bool" where
  "boundary before rest \<longleftrightarrow> starts_word before \<noteq> starts_word rest"

record motif =
  mo_words :: "string list"
  mo_bounded :: bool
  mo_cause :: cause

definition word_at :: "bool \<Rightarrow> string \<Rightarrow> string \<Rightarrow> string \<Rightarrow> bool" where
  "word_at bounded before rest w \<longleftrightarrow> is_prefix w (map latin_lower rest) \<and>
     (bounded \<longrightarrow> boundary before rest \<and> boundary (rev (take (length w) rest) @ before) (drop (length w) rest))"

fun search_from :: "motif \<Rightarrow> string \<Rightarrow> string \<Rightarrow> string option" where
  "search_from m before [] = None"
| "search_from m before (c # rest) =
     (case List.find (word_at (mo_bounded m) before (c # rest)) (mo_words m) of
        Some w \<Rightarrow> Some (take (length w) (c # rest))
      | None \<Rightarrow> search_from m (c # before) rest)"

definition motif_search :: "motif \<Rightarrow> string \<Rightarrow> string option" where
  "motif_search m s = search_from m [] s"

subsection \<open>The table\<close>

abbreviation e_acute :: char where "e_acute \<equiv> char_of (233 :: nat)"

definition motifs :: "motif list" where
  "motifs =
    [\<lparr>mo_words = [''budget de mission atteint''], mo_bounded = False, mo_cause = Cause_BUDGET\<rparr>,
     \<lparr>mo_words = [''no vram admission''], mo_bounded = False, mo_cause = Cause_RESSOURCE\<rparr>,
     \<lparr>mo_words = [''out of memory'', ''oom'', ''cuda out of memory'', ''insufficient memory''], mo_bounded = True,
       mo_cause = Cause_RESSOURCE\<rparr>,
     \<lparr>mo_words = [''rate limit'', ''too many requests'', ''quota exceeded'', ''insufficient_quota'',
        ''insufficient quota'', ''credit''], mo_bounded = True, mo_cause = Cause_QUOTA\<rparr>,
     \<lparr>mo_words = [''context length'', ''maximum context'', ''context window'', ''token limit'', ''prompt is too long'',
        ''reduce the length''], mo_bounded = True, mo_cause = Cause_CONTEXTE\<rparr>,
     \<lparr>mo_words = [''outside allowed_paths'', ''permission denied'', ''not authorised'', ''not authorized'',
        ''refus'' @ [e_acute], ''refuse'', ''requires human validation'', ''protected branch''], mo_bounded = True,
       mo_cause = Cause_POLITIQUE\<rparr>,
     \<lparr>mo_words = [''canary'', ''secret leak'', ''fuite de secret'', ''derive de workspace'',
        ''d'' @ [e_acute] @ ''rive de workspace''], mo_bounded = True, mo_cause = Cause_SECURITE\<rparr>,
     \<lparr>mo_words = [''the local fallback also failed''], mo_bounded = False, mo_cause = Cause_FOURNISSEUR\<rparr>,
     \<lparr>mo_words = [''connection refused'', ''connection error'', ''connection reset'', ''unavailable'', ''unreachable'',
        ''service unavailable'', ''bad gateway'', ''name or service not known''], mo_bounded = True,
       mo_cause = Cause_FOURNISSEUR\<rparr>,
     \<lparr>mo_words = [''timed out'', ''timedout'', ''time out'', ''timeout''], mo_bounded = True,
       mo_cause = Cause_FOURNISSEUR\<rparr>,
     \<lparr>mo_words = [''returned an empty completion'', ''empty response''], mo_bounded = True, mo_cause = Cause_MODELE\<rparr>,
     \<lparr>mo_words = [''no such tool'', ''unknown tool'', ''tool call failed'', ''could not start the executor event loop''],
       mo_bounded = True, mo_cause = Cause_OUTIL\<rparr>]"

definition http_codes :: "(int \<times> cause) list" where
  "http_codes = [(400, Cause_OUTIL), (401, Cause_POLITIQUE), (403, Cause_POLITIQUE), (404, Cause_OUTIL),
     (408, Cause_FOURNISSEUR), (413, Cause_CONTEXTE), (429, Cause_QUOTA), (500, Cause_FOURNISSEUR),
     (502, Cause_FOURNISSEUR), (503, Cause_FOURNISSEUR), (504, Cause_FOURNISSEUR)]"

fun first_motif :: "nat \<Rightarrow> motif list \<Rightarrow> string \<Rightarrow> classement" where
  "first_motif i [] s = \<lparr>cl_cause = Cause_INCONNUE, cl_hint = NoHint\<rparr>"
| "first_motif i (m # ms) s = (case motif_search m s of
     Some found \<Rightarrow> \<lparr>cl_cause = mo_cause m, cl_hint = Found i found\<rparr>
   | None \<Rightarrow> first_motif (Suc i) ms s)"

text \<open>\<^verbatim>\<open>' '.join(filter(None, [message or '', str(exception or '')]))\<close>.\<close>

definition joined :: "string \<Rightarrow> string \<Rightarrow> string" where
  "joined message exn = (if message = [] then exn else if exn = [] then message else message @ '' '' @ exn)"

definition classer :: "string \<Rightarrow> int option \<Rightarrow> string option \<Rightarrow> string option \<Rightarrow> classement" where
  "classer message status done_reason exn =
     (if (case done_reason of None \<Rightarrow> False | Some r \<Rightarrow> r \<noteq> [] \<and> map latin_lower (str_strip r) = ''length'')
      then \<lparr>cl_cause = Cause_CONTEXTE, cl_hint = DoneReason\<rparr>
      else case (case status of None \<Rightarrow> None | Some s \<Rightarrow> map_option (Pair s) (map_of http_codes s)) of
          Some (s, c) \<Rightarrow> \<lparr>cl_cause = c, cl_hint = HttpCode s\<rparr>
        | None \<Rightarrow> (let texte = joined message (case exn of None \<Rightarrow> '''' | Some x \<Rightarrow> x)
            in if str_strip texte = [] then \<lparr>cl_cause = Cause_INCONNUE, cl_hint = NoHint\<rparr>
               else first_motif 0 motifs texte))"

definition classified :: "classement \<Rightarrow> bool" where
  "classified c \<longleftrightarrow> cl_cause c \<noteq> Cause_INCONNUE"

subsection \<open>Remedies\<close>

definition plain_remede :: remede where
  "plain_remede = \<lparr>re_retry = True, re_other_model = False, re_smaller_model = False, re_wider_context = False,
     re_other_provider = False, re_wait = 0\<rparr>"

definition remedes :: "(cause \<times> remede) list" where
  "remedes =
    [(Cause_RESSOURCE, plain_remede\<lparr>re_smaller_model := True, re_wait := 15\<rparr>),
     (Cause_CONTEXTE, plain_remede\<lparr>re_wider_context := True\<rparr>),
     (Cause_QUOTA, plain_remede\<lparr>re_other_provider := True, re_wait := 60\<rparr>),
     (Cause_FOURNISSEUR, plain_remede\<lparr>re_other_provider := True, re_wait := 10\<rparr>),
     (Cause_MODELE, plain_remede\<lparr>re_other_model := True\<rparr>),
     (Cause_OUTIL, plain_remede),
     (Cause_SEMANTIQUE, plain_remede),
     (Cause_VERIFICATION, plain_remede),
     (Cause_POLITIQUE, plain_remede\<lparr>re_retry := False\<rparr>),
     (Cause_SECURITE, plain_remede\<lparr>re_retry := False\<rparr>),
     (Cause_BUDGET, plain_remede\<lparr>re_retry := False\<rparr>),
     (Cause_INCONNUE, plain_remede)]"

definition remede_pour :: "cause \<Rightarrow> remede" where
  "remede_pour c = (case map_of remedes c of Some r \<Rightarrow> r | None \<Rightarrow> plain_remede)"

definition depuis_l_erreur :: "string \<Rightarrow> int option \<Rightarrow> string option \<Rightarrow> string option \<Rightarrow> cause \<times> remede \<times> hint" where
  "depuis_l_erreur message status done_reason exn =
     (let c = classer message status done_reason exn in (cl_cause c, remede_pour (cl_cause c), cl_hint c))"

lemma remede_retry: "re_retry (remede_pour c) \<longleftrightarrow> c \<notin> {Cause_POLITIQUE, Cause_SECURITE, Cause_BUDGET}"
  by (cases c) (simp_all add: remede_pour_def remedes_def plain_remede_def)

end
