(* ===== verification/RunRegistry.thy ===== *)
theory RunRegistry
  imports Taxonomy MissionExecutor
begin

text \<open>
  The durable record of runs: \<^verbatim>\<open>backend/runs/registre.py\<close>, the reconciliation of \<^verbatim>\<open>reconciliation.py\<close> after a
  restart, and the physical consumption of \<^verbatim>\<open>consommation.py\<close>. The table \<^verbatim>\<open>runs\<close> is the list of its rows in
  the order of insertion; each SQL statement is the function on the list that it denotes, the primary key and
  the foreign key on \<^verbatim>\<open>parent\<close> included. The clock, the identifier drawn for a run and the fingerprint of the
  process are arguments; a failure of the database itself is not modelled.
\<close>

subsection \<open>Runs\<close>

datatype statut = Statut_EN_ATTENTE | Statut_EN_COURS | Statut_REUSSI | Statut_ECHOUE | Statut_ABANDONNE
  | Statut_PERDU

definition terminaux :: "statut list" where
  "terminaux = [Statut_REUSSI, Statut_ECHOUE, Statut_ABANDONNE, Statut_PERDU]"

record run =
  ru_id :: string
  ru_mission :: string
  ru_parent :: "string option"
  ru_attempt :: int
  ru_objective :: string
  ru_agent :: string
  ru_model :: string
  ru_runtime :: string
  ru_provider :: string
  ru_workspace :: string
  ru_user :: string
  ru_project :: string
  ru_statut :: statut
  ru_cause :: "cause option"
  ru_reason :: string
  ru_retry_motive :: string
  ru_tokens_in :: int
  ru_tokens_out :: int
  ru_cost :: rat
  ru_vram_reserved :: "int option"
  ru_vram_start :: "int option"
  ru_vram_peak :: "int option"
  ru_exclusive :: "bool option"
  ru_contract :: string
  ru_decision :: string
  ru_created :: time
  ru_started :: "time option"
  ru_finished :: "time option"

text \<open>The defaults of the class, for the identifier and the creation date drawn.\<close>

definition default_run :: "string \<Rightarrow> time \<Rightarrow> run" where
  "default_run uuid now = \<lparr>ru_id = uuid, ru_mission = '''', ru_parent = None, ru_attempt = 1, ru_objective = '''',
     ru_agent = '''', ru_model = '''', ru_runtime = '''', ru_provider = '''', ru_workspace = '''', ru_user = ''local'',
     ru_project = '''', ru_statut = Statut_EN_ATTENTE, ru_cause = None, ru_reason = '''', ru_retry_motive = '''',
     ru_tokens_in = 0, ru_tokens_out = 0, ru_cost = 0, ru_vram_reserved = None, ru_vram_start = None,
     ru_vram_peak = None, ru_exclusive = None, ru_contract = '''', ru_decision = '''', ru_created = now,
     ru_started = None, ru_finished = None\<rparr>"

definition run_ended :: "run \<Rightarrow> bool" where
  "run_ended r \<longleftrightarrow> ru_statut r \<in> set terminaux"

record run_row =
  rw_run :: run
  rw_process :: "string option"

type_synonym run_table = "run_row list"

abbreviation row_id :: "run_row \<Rightarrow> string" where "row_id w \<equiv> ru_id (rw_run w)"

definition run_ids :: "run_table \<Rightarrow> string list" where
  "run_ids reg = map row_id reg"

datatype run_error = DuplicateRun string | UnknownParent string | UnknownFacts "string list" | NoMotive
  | NoRun string

subsection \<open>Operations\<close>

text \<open>\<^verbatim>\<open>INSERT\<close>: the primary key is unique and a parent that is not NULL is a row, the new one included.\<close>

definition ouvrir :: "string \<Rightarrow> run \<Rightarrow> run_table \<Rightarrow> run_error + run_table" where
  "ouvrir process r reg =
     (if ru_id r \<in> set (run_ids reg) then Inl (DuplicateRun (ru_id r))
      else case ru_parent r of
          Some p \<Rightarrow> (if p \<in> set (run_ids reg) \<or> p = ru_id r
            then Inr (reg @ [\<lparr>rw_run = r, rw_process = Some process\<rparr>]) else Inl (UnknownParent p))
        | None \<Rightarrow> Inr (reg @ [\<lparr>rw_run = r, rw_process = Some process\<rparr>]))"

text \<open>
  \<^verbatim>\<open>UPDATE runs SET col = CASE WHEN statut IN (terminal) THEN col ELSE ? END, ... WHERE identifiant = ?\<close>: the
  right-hand sides read the row before the statement.
\<close>

definition unless_ended :: "(run \<Rightarrow> run) \<Rightarrow> run_row \<Rightarrow> run_row" where
  "unless_ended f w = (if run_ended (rw_run w) then w else w\<lparr>rw_run := f (rw_run w)\<rparr>)"

definition changer_sans_statut :: "string \<Rightarrow> (run \<Rightarrow> run) \<Rightarrow> run_table \<Rightarrow> run_table" where
  "changer_sans_statut i f reg = map (\<lambda>w. if row_id w = i then unless_ended f w else w) reg"

definition changer :: "string \<Rightarrow> statut \<Rightarrow> (run \<Rightarrow> run) \<Rightarrow> run_table \<Rightarrow> run_table" where
  "changer i s f reg = changer_sans_statut i (\<lambda>r. f (r\<lparr>ru_statut := s\<rparr>)) reg"

definition demarrer :: "time \<Rightarrow> string \<Rightarrow> run_table \<Rightarrow> run_table" where
  "demarrer now i reg = changer i Statut_EN_COURS (\<lambda>r. r\<lparr>ru_started := Some now\<rparr>) reg"

record bilan_run =
  br_cause :: "cause option"
  br_reason :: string
  br_cost :: "rat option"
  br_tokens_in :: "int option"
  br_tokens_out :: "int option"

definition outcome_columns :: "time \<Rightarrow> bilan_run \<Rightarrow> run \<Rightarrow> run" where
  "outcome_columns now b r = r\<lparr>ru_finished := Some now,
     ru_cause := (case br_cause b of None \<Rightarrow> ru_cause r | Some c \<Rightarrow> Some c),
     ru_reason := (if br_reason b \<noteq> [] then br_reason b else ru_reason r),
     ru_cost := (case br_cost b of None \<Rightarrow> ru_cost r | Some c \<Rightarrow> c),
     ru_tokens_in := (case br_tokens_in b of None \<Rightarrow> ru_tokens_in r | Some c \<Rightarrow> c),
     ru_tokens_out := (case br_tokens_out b of None \<Rightarrow> ru_tokens_out r | Some c \<Rightarrow> c)\<rparr>"

definition terminer :: "time \<Rightarrow> string \<Rightarrow> statut \<Rightarrow> bilan_run \<Rightarrow> run_table \<Rightarrow> run_table" where
  "terminer now i s b reg = changer i s (outcome_columns now b) reg"

text \<open>Facts of the execution: the names allowed, and the column each sets.\<close>

definition fact_columns :: "(string \<times> (string \<Rightarrow> run \<Rightarrow> run)) list" where
  "fact_columns =
     [(''runtime'', \<lambda>v r. r\<lparr>ru_runtime := v\<rparr>), (''modele'', \<lambda>v r. r\<lparr>ru_model := v\<rparr>),
      (''fournisseur'', \<lambda>v r. r\<lparr>ru_provider := v\<rparr>), (''agent'', \<lambda>v r. r\<lparr>ru_agent := v\<rparr>),
      (''decision'', \<lambda>v r. r\<lparr>ru_decision := v\<rparr>)]"

definition set_column :: "(string \<times> ('v \<Rightarrow> run \<Rightarrow> run)) list \<Rightarrow> string \<times> 'v \<Rightarrow> run \<Rightarrow> run" where
  "set_column cols nv r = (case map_of cols (fst nv) of None \<Rightarrow> r | Some f \<Rightarrow> f (snd nv) r)"

definition constater :: "string \<Rightarrow> (string, string) dict \<Rightarrow> run_table \<Rightarrow> run_error + run_table" where
  "constater i facts reg =
     (let unknown = filter (\<lambda>n. map_of fact_columns n = None) (dict_keys facts);
          kept = filter (\<lambda>nv. snd nv \<noteq> []) facts
      in if unknown \<noteq> [] then Inl (UnknownFacts unknown)
         else if kept = [] then Inr reg
         else Inr (changer_sans_statut i (fold (set_column fact_columns) kept) reg))"

text \<open>Physical measures: an integer or NULL; a Boolean is the integer 0 or 1.\<close>

definition measure_columns :: "(string \<times> (int \<Rightarrow> run \<Rightarrow> run)) list" where
  "measure_columns =
     [(''vram_reservee_octets'', \<lambda>v r. r\<lparr>ru_vram_reserved := Some v\<rparr>),
      (''vram_machine_debut_octets'', \<lambda>v r. r\<lparr>ru_vram_start := Some v\<rparr>),
      (''vram_machine_pic_octets'', \<lambda>v r. r\<lparr>ru_vram_peak := Some v\<rparr>),
      (''exclusif'', \<lambda>v r. r\<lparr>ru_exclusive := Some (v \<noteq> 0)\<rparr>)]"

definition given :: "(string, int option) dict \<Rightarrow> (string, int) dict" where
  "given ms = concat (map (\<lambda>(n, v). case v of None \<Rightarrow> [] | Some x \<Rightarrow> [(n, x)]) ms)"

definition mesurer :: "string \<Rightarrow> (string, int option) dict \<Rightarrow> run_table \<Rightarrow> run_error + run_table" where
  "mesurer i ms reg =
     (let unknown = filter (\<lambda>n. map_of measure_columns n = None) (dict_keys ms)
      in if unknown \<noteq> [] then Inl (UnknownFacts unknown)
         else if given ms = [] then Inr reg
         else Inr (changer_sans_statut i (fold (set_column measure_columns) (given ms)) reg))"

subsection \<open>Reading\<close>

definition lire :: "run_table \<Rightarrow> string \<Rightarrow> run option" where
  "lire reg i = map_option rw_run (List.find (\<lambda>w. row_id w = i) reg)"

definition de_la_mission :: "run_table \<Rightarrow> string \<Rightarrow> run list" where
  "de_la_mission reg m = sort_key ru_created (filter (\<lambda>r. ru_mission r = m) (map rw_run reg))"

definition en_cours :: "run_table \<Rightarrow> run list" where
  "en_cours reg = filter (\<lambda>r. ru_statut r = Statut_EN_COURS) (map rw_run reg)"

definition non_termines :: "run_table \<Rightarrow> run list" where
  "non_termines reg = filter (\<lambda>r. \<not> run_ended r) (map rw_run reg)"

definition processus_de :: "run_table \<Rightarrow> string \<Rightarrow> string option" where
  "processus_de reg i = (case List.find (\<lambda>w. row_id w = i) reg of None \<Rightarrow> None
     | Some w \<Rightarrow> (if rw_process w = Some [] then None else rw_process w))"

lemma lire_id: "lire reg i = Some r \<Longrightarrow> ru_id r = i \<and> i \<in> set (run_ids reg)"
  by (auto simp: lire_def run_ids_def dest!: find_SomeD)

text \<open>From a run up to its first ancestor; a visited set stops the loop on a cycle.\<close>

function chain_from :: "run_table \<Rightarrow> string list \<Rightarrow> string \<Rightarrow> run list" where
  "chain_from reg seen i = (case lire reg i of None \<Rightarrow> []
     | Some r \<Rightarrow> (if ru_id r \<in> set seen then []
         else r # (case ru_parent r of None \<Rightarrow> []
            | Some p \<Rightarrow> (if p = [] then [] else chain_from reg (ru_id r # seen) p))))"
  by pat_completeness auto
termination
proof (relation "measure (\<lambda>(reg, seen, i). card (set (run_ids reg) - set seen))", goal_cases)
  case (2 reg seen i r p)
  then have "i \<in> set (run_ids reg)" "ru_id r = i" using lire_id by blast+
  then have "set (run_ids reg) - set (ru_id r # seen) \<subset> set (run_ids reg) - set seen" using 2 by auto
  then have "card (set (run_ids reg) - set (ru_id r # seen)) < card (set (run_ids reg) - set seen)"
    by (rule psubset_card_mono[rotated]) simp
  then show ?case by simp
qed simp

definition lignee :: "run_table \<Rightarrow> string \<Rightarrow> run list" where
  "lignee reg i = rev (chain_from reg [] i)"

subsection \<open>Retry\<close>

text \<open>
  The fields a retry inherits; what is measured or decided anew starts from the defaults. \<open>repl\<close> is the effect
  of the keyword arguments.
\<close>

definition inherit :: "run \<Rightarrow> run \<Rightarrow> run" where
  "inherit p r = r\<lparr>ru_mission := ru_mission p, ru_objective := ru_objective p, ru_agent := ru_agent p,
     ru_runtime := ru_runtime p, ru_workspace := ru_workspace p, ru_user := ru_user p, ru_project := ru_project p,
     ru_contract := ru_contract p\<rparr>"

definition reprendre :: "string \<Rightarrow> string \<Rightarrow> time \<Rightarrow> string \<Rightarrow> string \<Rightarrow> (run \<Rightarrow> run) \<Rightarrow> run_table
    \<Rightarrow> run_error + run_table" where
  "reprendre process uuid now i motive repl reg =
     (if str_strip motive = [] then Inl NoMotive
      else case lire reg i of None \<Rightarrow> Inl (NoRun i)
        | Some p \<Rightarrow> ouvrir process ((repl (inherit p (default_run uuid now)))
            \<lparr>ru_parent := Some (ru_id p), ru_attempt := ru_attempt p + 1, ru_retry_motive := motive\<rparr>) reg)"

subsection \<open>Reconciliation\<close>

text \<open>What the system answers about a process: it is gone, it was born at a date, or no answer.\<close>

datatype probe = Probe_GONE | Probe_BORN rat | Probe_DENIED

definition processus_vivant :: "(int \<Rightarrow> probe) \<Rightarrow> (string \<Rightarrow> rat option) \<Rightarrow> string \<Rightarrow> bool option" where
  "processus_vivant probe read_float e =
     (if CHR '':'' \<notin> set e then None
      else case py_int (PStr (takeWhile (\<lambda>c. c \<noteq> CHR '':'') e)) of None \<Rightarrow> None
        | Some pid \<Rightarrow> (case probe pid of Probe_GONE \<Rightarrow> Some False | Probe_DENIED \<Rightarrow> None
            | Probe_BORN birth \<Rightarrow> (let queue = drop 1 (dropWhile (\<lambda>c. c \<noteq> CHR '':'') e)
                in if queue = [] then None
                   else map_option (\<lambda>expected. \<bar>birth - expected\<bar> \<le> 1) (read_float queue))))"

record bilan =
  bi_lost :: "string list"
  bi_alive :: "string list"
  bi_undecided :: "string list"

definition lost_process :: "string \<Rightarrow> string \<Rightarrow> bilan_run" where
  "lost_process e text = \<lparr>br_cause = Some Cause_PROCESSUS, br_reason = text, br_cost = None, br_tokens_in = None,
     br_tokens_out = None\<rparr>"

text \<open>One candidate; \<open>alive\<close> answers for a fingerprint, \<open>reason\<close> renders the reason of a loss.\<close>

definition reconcile_run :: "(string \<Rightarrow> bool option) \<Rightarrow> (string \<Rightarrow> string) \<Rightarrow> time \<Rightarrow> string \<Rightarrow> run
    \<Rightarrow> run_table \<times> bilan \<Rightarrow> run_table \<times> bilan" where
  "reconcile_run alive reason now current r st = (let (reg, b) = st in
     case processus_de reg (ru_id r) of
       None \<Rightarrow> (reg, b\<lparr>bi_undecided := bi_undecided b @ [ru_id r]\<rparr>)
     | Some e \<Rightarrow> (if e = current then (reg, b\<lparr>bi_alive := bi_alive b @ [ru_id r]\<rparr>)
         else case alive e of
             Some True \<Rightarrow> (reg, b\<lparr>bi_alive := bi_alive b @ [ru_id r]\<rparr>)
           | None \<Rightarrow> (reg, b\<lparr>bi_undecided := bi_undecided b @ [ru_id r]\<rparr>)
           | Some False \<Rightarrow> (terminer now (ru_id r) Statut_PERDU (lost_process e (reason e)) reg,
               b\<lparr>bi_lost := bi_lost b @ [ru_id r]\<rparr>)))"

definition reconcilier_par :: "(string \<Rightarrow> bool option) \<Rightarrow> (string \<Rightarrow> string) \<Rightarrow> time \<Rightarrow> string \<Rightarrow> run_table
    \<Rightarrow> run_table \<times> bilan" where
  "reconcilier_par alive reason now current reg =
     fold (reconcile_run alive reason now current) (non_termines reg)
       (reg, \<lparr>bi_lost = [], bi_alive = [], bi_undecided = []\<rparr>)"

text \<open>What asks the system is \<open>processus_vivant\<close>.\<close>

definition reconcilier :: "(int \<Rightarrow> probe) \<Rightarrow> (string \<Rightarrow> rat option) \<Rightarrow> (string \<Rightarrow> string) \<Rightarrow> time \<Rightarrow> string \<Rightarrow> run_table
    \<Rightarrow> run_table \<times> bilan" where
  "reconcilier probe read_float = reconcilier_par (processus_vivant probe read_float)"

subsection \<open>Physical consumption\<close>

record observation =
  ob_reserved :: "int option"
  ob_start :: "int option"
  ob_peak :: "int option"
  ob_others :: "nat option"

definition new_observation :: observation where
  "new_observation = \<lparr>ob_reserved = None, ob_start = None, ob_peak = None, ob_others = None\<rparr>"

definition exclusif :: "observation \<Rightarrow> bool option" where
  "exclusif o' = map_option (\<lambda>n. n = 0) (ob_others o')"

text \<open>
  One reading of the resource manager: whether the GPU is available and measured, the bytes used, and the
  identifiers of the allocations; \<open>None\<close> where the manager raises.
\<close>

record reading =
  rg_gpu :: "(bool \<times> int) option"
  rg_allocations :: "string option list option"

definition note_gpu :: "bool \<Rightarrow> int \<Rightarrow> observation \<Rightarrow> observation" where
  "note_gpu baseline used o' = o'
     \<lparr>ob_start := (if baseline \<and> ob_start o' = None then Some used else ob_start o'),
      ob_peak := (case ob_peak o' of None \<Rightarrow> Some used | Some p \<Rightarrow> Some (if used > p then used else p))\<rparr>"

definition note_allocations :: "string option \<Rightarrow> string option list \<Rightarrow> observation \<Rightarrow> observation" where
  "note_allocations ours active o' =
     (let others = length (filter (\<lambda>a. a \<noteq> ours) active)
      in o'\<lparr>ob_others := Some (max (case ob_others o' of None \<Rightarrow> 0 | Some n \<Rightarrow> n) others)\<rparr>)"

definition relever :: "reading option \<Rightarrow> string option \<Rightarrow> bool \<Rightarrow> observation \<Rightarrow> observation" where
  "relever manager ours baseline o' = (case manager of None \<Rightarrow> o'
     | Some r \<Rightarrow> (case rg_gpu r of None \<Rightarrow> o'
         | Some (measured, used) \<Rightarrow> (let o1 = (if measured then note_gpu baseline used o' else o')
             in case rg_allocations r of None \<Rightarrow> o1 | Some active \<Rightarrow> note_allocations ours active o1)))"

definition noter_la_reservation :: "int option \<Rightarrow> observation \<Rightarrow> observation" where
  "noter_la_reservation bytes o' = (case bytes of None \<Rightarrow> o'
     | Some b \<Rightarrow> (if b > 0 then o'\<lparr>ob_reserved := Some b\<rparr> else o'))"

definition observation_dict :: "observation \<Rightarrow> (string, int) dict" where
  "observation_dict o' = given
     [(''vram_reservee_octets'', ob_reserved o'), (''vram_machine_debut_octets'', ob_start o'),
      (''vram_machine_pic_octets'', ob_peak o'), (''exclusif'', map_option (\<lambda>b. if b then 1 else 0) (exclusif o'))]"

text \<open>The figures of a mission from those of its runs: a value that is missing is not counted.\<close>

definition valeurs :: "string \<Rightarrow> (string, int) dict list \<Rightarrow> int list" where
  "valeurs k os = concat (map (\<lambda>o'. case dict_get o' k of None \<Rightarrow> [] | Some v \<Rightarrow> [v]) os)"

definition aggregated :: "(int list \<Rightarrow> int) \<Rightarrow> string \<Rightarrow> (string, int) dict list \<Rightarrow> (string, int) dict" where
  "aggregated f k os = (if valeurs k os = [] then [] else [(k, f (valeurs k os))])"

definition agreger :: "(string, int) dict list \<Rightarrow> (string, int) dict" where
  "agreger os =
     aggregated (\<lambda>vs. fold max vs (hd vs)) ''vram_reservee_octets'' os @
     aggregated (\<lambda>vs. fold min vs (hd vs)) ''vram_machine_debut_octets'' os @
     aggregated (\<lambda>vs. fold max vs (hd vs)) ''vram_machine_pic_octets'' os @
     aggregated (\<lambda>vs. if list_all (\<lambda>v. v \<noteq> 0) vs then 1 else 0) ''exclusif'' os"

end
