(* ===== verification/RunRegistry_Correct.thy ===== *)
theory RunRegistry_Correct
  imports RunRegistry
begin

text \<open>
  Correctness of the record of runs: an ended run is never rewritten, the lineage of a run, the
  reconciliation, and the classification of an error by the first phrase of the table that occurs.
\<close>

subsection \<open>Every operation\<close>

datatype run_call = Ouvrir string run | Demarrer time string | Terminer time string statut bilan_run
  | Constater string "(string, string) dict" | Mesurer string "(string, int option) dict"
  | Reprendre string string time string string "run \<Rightarrow> run"
  | Reconcilier "string \<Rightarrow> bool option" "string \<Rightarrow> string" time string

definition kept_on_error :: "'a \<Rightarrow> 'e + 'a \<Rightarrow> 'a" where
  "kept_on_error old r = (case r of Inl _ \<Rightarrow> old | Inr new \<Rightarrow> new)"

fun exec_registry :: "run_call \<Rightarrow> run_table \<Rightarrow> run_table" where
  "exec_registry (Ouvrir p r) reg = kept_on_error reg (ouvrir p r reg)"
| "exec_registry (Demarrer now i) reg = demarrer now i reg"
| "exec_registry (Terminer now i s b) reg = terminer now i s b reg"
| "exec_registry (Constater i fs) reg = kept_on_error reg (constater i fs reg)"
| "exec_registry (Mesurer i ms) reg = kept_on_error reg (mesurer i ms reg)"
| "exec_registry (Reprendre p u now i m repl) reg = kept_on_error reg (reprendre p u now i m repl reg)"
| "exec_registry (Reconcilier alive reason now c) reg = fst (reconcilier_par alive reason now c reg)"

text \<open>
  One step on the table: rows keep their place and their identity (identifier, parent, attempt, date), an
  ended row is the same row, and at most one row is added at the end, under a new identifier and a known parent.
\<close>

definition same_identity :: "run \<Rightarrow> run \<Rightarrow> bool" where
  "same_identity r s \<longleftrightarrow> ru_id s = ru_id r \<and> ru_parent s = ru_parent r \<and> ru_attempt s = ru_attempt r \<and>
     ru_mission s = ru_mission r \<and> ru_created s = ru_created r"

definition row_kept :: "run_row \<Rightarrow> run_row \<Rightarrow> bool" where
  "row_kept w v \<longleftrightarrow> same_identity (rw_run w) (rw_run v) \<and> rw_process v = rw_process w \<and>
     (run_ended (rw_run w) \<longrightarrow> v = w)"

lemma row_kept_refl [simp]: "row_kept w w"
  by (simp add: row_kept_def same_identity_def)

lemma row_kept_trans: "row_kept u v \<Longrightarrow> row_kept v w \<Longrightarrow> row_kept u w"
  by (auto simp: row_kept_def same_identity_def)

abbreviation rows_kept :: "run_table \<Rightarrow> run_table \<Rightarrow> bool" where
  "rows_kept \<equiv> list_all2 row_kept"

lemma rows_kept_refl [simp]: "rows_kept reg reg"
  by (simp add: list_all2_refl)

lemma rows_kept_trans: "rows_kept a b \<Longrightarrow> rows_kept b c \<Longrightarrow> rows_kept a c"
  by (rule list_all2_trans[OF row_kept_trans])

lemma rows_kept_ids: "rows_kept a b \<Longrightarrow> run_ids b = run_ids a"
  unfolding run_ids_def by (induction rule: list_all2_induct) (auto simp: row_kept_def same_identity_def)

definition neutral :: "(run \<Rightarrow> run) \<Rightarrow> bool" where
  "neutral f \<longleftrightarrow> (\<forall>r. same_identity r (f r))"

lemma changer_keeps: "neutral f \<Longrightarrow> rows_kept reg (changer_sans_statut i f reg)"
  unfolding changer_sans_statut_def list_all2_map2
  by (rule list_all2_refl) (auto simp: unless_ended_def row_kept_def same_identity_def neutral_def)

lemma neutral_fold:
  assumes "\<And>n f v. map_of cols n = Some f \<Longrightarrow> neutral (f v)"
  shows "neutral (fold (set_column cols) nvs)"
proof (induction nvs)
  case (Cons nv nvs)
  have "neutral (set_column cols nv)"
    using assms by (auto simp: set_column_def neutral_def same_identity_def split: option.splits)
  then show ?case using Cons by (auto simp: neutral_def same_identity_def)
qed (simp add: neutral_def same_identity_def)

lemma neutral_facts: "neutral (fold (set_column fact_columns) nvs)"
  by (rule neutral_fold) (auto simp: fact_columns_def neutral_def same_identity_def split: if_splits)

lemma neutral_measures: "neutral (fold (set_column measure_columns) nvs)"
  by (rule neutral_fold) (auto simp: measure_columns_def neutral_def same_identity_def split: if_splits)

lemma terminer_keeps: "rows_kept reg (terminer now i s b reg)"
  unfolding terminer_def changer_def
  by (rule changer_keeps) (simp add: neutral_def same_identity_def outcome_columns_def)

lemma demarrer_keeps: "rows_kept reg (demarrer now i reg)"
  unfolding demarrer_def changer_def by (rule changer_keeps) (simp add: neutral_def same_identity_def)

lemma reconcile_run_keeps: "rows_kept reg (fst (reconcile_run alive reason now c r (reg, b)))"
  by (auto simp: reconcile_run_def terminer_keeps split: option.splits bool.splits)

lemma fold_reconcile_keeps: "rows_kept (fst st) (fst (fold (reconcile_run alive reason now c) rs st))"
proof (induction rs arbitrary: st)
  case (Cons r rs)
  then show ?case using rows_kept_trans[OF reconcile_run_keeps] by (cases st) fastforce
qed simp

definition table_ok :: "run_table \<Rightarrow> bool" where
  "table_ok reg \<longleftrightarrow> distinct (run_ids reg) \<and>
     (\<forall>k < length reg. \<forall>p. ru_parent (rw_run (reg ! k)) = Some p \<longrightarrow> p \<in> set (take (Suc k) (run_ids reg)))"

lemma ouvrir_Inr:
  "ouvrir p r reg = Inr reg' \<Longrightarrow> reg' = reg @ [\<lparr>rw_run = r, rw_process = Some p\<rparr>] \<and> ru_id r \<notin> set (run_ids reg) \<and>
     (\<forall>q. ru_parent r = Some q \<longrightarrow> q \<in> set (run_ids reg) \<or> q = ru_id r)"
  by (auto simp: ouvrir_def split: if_splits option.splits)

lemma exec_registry_shape:
  "\<exists>old. rows_kept reg old \<and> (exec_registry c reg = old \<or>
     (\<exists>p r. ouvrir p r old = Inr (exec_registry c reg)))"
proof (cases c)
  case (Ouvrir p r)
  then show ?thesis
    by (intro exI[of _ reg]) (auto simp: kept_on_error_def split: sum.splits)
next
  case (Reprendre p u now i m repl)
  then show ?thesis
    by (intro exI[of _ reg]) (auto simp: kept_on_error_def reprendre_def split: sum.splits option.splits if_splits)
next
  case (Constater i fs)
  then have "rows_kept reg (exec_registry c reg)" using changer_keeps[OF neutral_facts, of reg i]
    by (auto simp: kept_on_error_def constater_def Let_def)
  then show ?thesis by blast
next
  case (Mesurer i fs)
  then have "rows_kept reg (exec_registry c reg)" using changer_keeps[OF neutral_measures, of reg i]
    by (auto simp: kept_on_error_def mesurer_def Let_def)
  then show ?thesis by blast
next
  case (Reconcilier alive reason now cu)
  have "rows_kept reg (exec_registry c reg)"
    using fold_reconcile_keeps[of "(reg, \<lparr>bi_lost = [], bi_alive = [], bi_undecided = []\<rparr>)"]
    unfolding Reconcilier by (simp add: reconcilier_par_def)
  then show ?thesis by blast
next
  case (Demarrer now i)
  then show ?thesis using demarrer_keeps by auto
next
  case (Terminer now i s b)
  then have "rows_kept reg (exec_registry c reg)" by (simp add: terminer_keeps)
  then show ?thesis by blast
qed

lemma exec_registry_rows:
  "length reg \<le> length (exec_registry c reg) \<and>
   (\<forall>k < length reg. row_kept (reg ! k) (exec_registry c reg ! k))"
proof -
  obtain old where old: "rows_kept reg old" "exec_registry c reg = old \<or>
      (\<exists>p r. ouvrir p r old = Inr (exec_registry c reg))" using exec_registry_shape by blast
  have "length old = length reg" using old(1) by (auto dest: list_all2_lengthD)
  moreover have "row_kept (reg ! k) (old ! k)" if "k < length reg" for k
    using old(1) that by (rule list_all2_nthD)
  ultimately show ?thesis using old(2) by (auto dest!: ouvrir_Inr simp: nth_append)
qed

lemma run_registry_rows:
  "length reg \<le> length (fold exec_registry cs reg) \<and>
   (\<forall>k < length reg. row_kept (reg ! k) (fold exec_registry cs reg ! k))"
proof (induction cs arbitrary: reg)
  case (Cons c cs)
  note step = exec_registry_rows[of reg c] and rest = Cons.IH[of "exec_registry c reg"]
  have "row_kept (reg ! k) (fold exec_registry (c # cs) reg ! k)" if "k < length reg" for k
  proof -
    have "row_kept (exec_registry c reg ! k) (fold exec_registry cs (exec_registry c reg) ! k)"
      using step rest that by simp
    then show ?thesis using step that row_kept_trans by auto
  qed
  then show ?case using step rest by auto
qed simp

lemma lire_nth: "lire reg i = Some r \<Longrightarrow> \<exists>k < length reg. rw_run (reg ! k) = r \<and> ru_id r = i \<and>
    (\<forall>j < k. row_id (reg ! j) \<noteq> i)"
  by (auto simp: lire_def find_Some_iff)

lemma lire_nthI:
  assumes "k < length reg" and "row_id (reg ! k) = i" and "\<And>j. j < k \<Longrightarrow> row_id (reg ! j) \<noteq> i"
  shows "lire reg i = Some (rw_run (reg ! k))"
  using assms by (auto simp: lire_def find_Some_iff)

text \<open>
  C16. An ended run is never rewritten, and no run ever loses its identity. Whatever the calls (opening,
  starting, ending, recording facts and measures, retrying, reconciling), a run that can be read can be read
  afterwards under the same identifier with the same parent, attempt, mission and date of creation; if it was
  ended, every column of it is unchanged.
\<close>

theorem ended_runs_frozen:
  assumes "lire reg i = Some r"
  shows "\<exists>s. lire (fold exec_registry cs reg) i = Some s \<and> same_identity r s \<and> (run_ended r \<longrightarrow> s = r)"
proof -
  obtain k where k: "k < length reg" "rw_run (reg ! k) = r" "ru_id r = i" "\<And>j. j < k \<Longrightarrow> row_id (reg ! j) \<noteq> i"
    using lire_nth[OF assms] by blast
  let ?n = "fold exec_registry cs reg"
  note rows = run_registry_rows[of reg cs]
  have row: "row_kept (reg ! j) (?n ! j)" if "j < length reg" for j using rows that by blast
  have ids: "row_id (?n ! j) = row_id (reg ! j)" if "j < length reg" for j
    using row[OF that] by (simp add: row_kept_def same_identity_def)
  have "lire ?n i = Some (rw_run (?n ! k))"
    using k ids rows by (intro lire_nthI) auto
  then show ?thesis using row[OF k(1)] k(2) by (auto simp: row_kept_def)
qed

theorem ended_runs_frozen_witness:
  "\<exists>s. lire (fold exec_registry [Terminer 9 ''b'' Statut_ECHOUE (lost_process ''1:2'' ''x'')]
      [\<lparr>rw_run = default_run ''a'' 1, rw_process = None\<rparr>,
       \<lparr>rw_run = (default_run ''b'' 2)\<lparr>ru_statut := Statut_REUSSI\<rparr>, rw_process = None\<rparr>]) ''b'' = Some s \<and>
     same_identity ((default_run ''b'' 2)\<lparr>ru_statut := Statut_REUSSI\<rparr>) s \<and>
     (run_ended ((default_run ''b'' 2)\<lparr>ru_statut := Statut_REUSSI\<rparr>) \<longrightarrow>
        s = (default_run ''b'' 2)\<lparr>ru_statut := Statut_REUSSI\<rparr>)"
  by (rule ended_runs_frozen) (simp add: lire_def default_run_def)

subsection \<open>Tables that the operations build\<close>

lemma rows_kept_ok:
  assumes "rows_kept a b" and "table_ok a"
  shows "table_ok b"
proof -
  have "length b = length a" using assms(1) by (auto dest: list_all2_lengthD)
  moreover have "ru_parent (rw_run (b ! k)) = ru_parent (rw_run (a ! k))" if "k < length a" for k
    using list_all2_nthD[OF assms(1) that] by (simp add: row_kept_def same_identity_def)
  ultimately show ?thesis using assms(2) rows_kept_ids[OF assms(1)] by (simp add: table_ok_def)
qed

lemma ouvrir_ok:
  assumes "table_ok reg" and "ouvrir p r reg = Inr reg'"
  shows "table_ok reg'"
proof -
  note new = ouvrir_Inr[OF assms(2)]
  have ids: "run_ids reg' = run_ids reg @ [ru_id r]" using new by (simp add: run_ids_def)
  have "length (run_ids reg) = length reg" by (simp add: run_ids_def)
  then have "q \<in> set (take (Suc k) (run_ids reg'))"
    if "k < length reg'" "ru_parent (rw_run (reg' ! k)) = Some q" for k q
  proof (cases "k < length reg")
    case True
    then have "q \<in> set (take (Suc k) (run_ids reg))"
      using that new assms(1) by (simp add: table_ok_def nth_append)
    then show ?thesis using True \<open>length (run_ids reg) = length reg\<close> unfolding ids by simp
  next
    case False
    then have "k = length reg" using that(1) new by simp
    then show ?thesis using that(2) new \<open>length (run_ids reg) = length reg\<close> unfolding ids by auto
  qed
  then show ?thesis using assms(1) new unfolding table_ok_def ids by simp
qed

lemma exec_registry_ok: "table_ok reg \<Longrightarrow> table_ok (exec_registry c reg)"
  using exec_registry_shape[of reg c] rows_kept_ok ouvrir_ok by metis

lemma built_table_ok: "table_ok (fold exec_registry cs [])"
proof (rule fold_invariant[where P = table_ok])
  show "table_ok []" by (simp add: table_ok_def run_ids_def)
qed (rule exec_registry_ok)

subsection \<open>Lineage\<close>

text \<open>From a run up: each is the parent of the one before, and the last has no parent but itself.\<close>

fun ancestry :: "run list \<Rightarrow> bool" where
  "ancestry [] = False"
| "ancestry [r] = (ru_parent r \<in> {None, Some [], Some (ru_id r)})"
| "ancestry (r # s # rs) = (ru_parent r = Some (ru_id s) \<and> ancestry (s # rs))"

lemma table_ok_lire:
  assumes "table_ok reg" and "k < length reg"
  shows "lire reg (row_id (reg ! k)) = Some (rw_run (reg ! k))"
proof (rule lire_nthI[OF assms(2)])
  fix j assume "j < k"
  then show "row_id (reg ! j) \<noteq> row_id (reg ! k)"
    using assms nth_eq_iff_index_eq[of "run_ids reg" j k] by (auto simp: table_ok_def run_ids_def)
qed simp

lemma table_ok_parent:
  assumes "table_ok reg" and "k < length reg" and "ru_parent (rw_run (reg ! k)) = Some p"
  obtains j where "j \<le> k" and "row_id (reg ! j) = p"
proof -
  have "p \<in> set (take (Suc k) (run_ids reg))" using assms by (simp add: table_ok_def)
  then obtain j where "j < Suc k" "j < length reg" "row_id (reg ! j) = p"
    by (auto simp: in_set_conv_nth run_ids_def)
  then show ?thesis using that[of j] by simp
qed

definition chain_ok :: "run_table \<Rightarrow> string list \<Rightarrow> run list \<Rightarrow> bool" where
  "chain_ok reg seen rs \<longleftrightarrow> ancestry rs \<and> distinct (map ru_id rs) \<and> set (map ru_id rs) \<inter> set seen = {} \<and>
     (\<forall>s \<in> set rs. lire reg (ru_id s) = Some s)"

lemma chain_from_ok:
  assumes "table_ok reg" and "k < length reg" and "\<And>j. j \<le> k \<Longrightarrow> row_id (reg ! j) \<notin> set seen"
  shows "\<exists>rs. chain_from reg seen (row_id (reg ! k)) = rw_run (reg ! k) # rs \<and>
    chain_ok reg seen (rw_run (reg ! k) # rs)"
  using assms(2,3)
proof (induction k arbitrary: seen rule: less_induct)
  case (less k)
  let ?r = "rw_run (reg ! k)"
  note l = table_ok_lire[OF assms(1) less.prems(1)]
  show ?case
  proof (cases "ru_parent ?r \<in> {None, Some [], Some (ru_id ?r)}")
    case True
    then have "chain_from reg seen (row_id (reg ! k)) = [?r]"
      using l less.prems(2)[of k] by (auto simp: chain_from.simps[of reg _ "row_id (reg ! k)"] split: option.splits)
    then show ?thesis using True l less.prems(2)[of k] by (auto simp: chain_ok_def)
  next
    case False
    then obtain p where p: "ru_parent ?r = Some p" "p \<noteq> []" "p \<noteq> ru_id ?r" by auto
    obtain j where j: "j \<le> k" "row_id (reg ! j) = p" using table_ok_parent[OF assms(1) less.prems(1) p(1)] .
    have "j < k" using j p(3) by (cases "j = k") auto
    have "row_id (reg ! i) \<notin> set (ru_id ?r # seen)" if "i \<le> j" for i
      using less.prems(1) less.prems(2)[of i] that \<open>j < k\<close> assms(1) nth_eq_iff_index_eq[of "run_ids reg" i k]
      by (auto simp: table_ok_def run_ids_def)
    with less.IH[OF \<open>j < k\<close>, of "ru_id ?r # seen"] less.prems(1) \<open>j < k\<close> obtain rs where
      rs: "chain_from reg (ru_id ?r # seen) p = rw_run (reg ! j) # rs"
        "chain_ok reg (ru_id ?r # seen) (rw_run (reg ! j) # rs)" using j(2) by force
    have "chain_from reg seen (row_id (reg ! k)) = ?r # rw_run (reg ! j) # rs"
      using l less.prems(2)[of k] p rs(1) by (simp add: chain_from.simps[of reg seen])
    then show ?thesis using rs(2) p(1) j(2) l less.prems(2)[of k] by (auto simp: chain_ok_def)
  qed
qed

text \<open>
  The lineage of a run answers why it exists: in every table that the operations build, reading the lineage
  of a run ends and gives a list whose last element is the run itself, in which every element is the stored
  parent of the next, without repetition, and whose first element has no parent (or names itself).
\<close>

lemma lineage_exact:
  assumes "lire (fold exec_registry cs []) i = Some r"
  shows "last (lignee (fold exec_registry cs []) i) = r \<and> ancestry (rev (lignee (fold exec_registry cs []) i)) \<and>
    distinct (map ru_id (lignee (fold exec_registry cs []) i)) \<and>
    (\<forall>s \<in> set (lignee (fold exec_registry cs []) i). lire (fold exec_registry cs []) (ru_id s) = Some s)"
proof -
  let ?reg = "fold exec_registry cs []"
  obtain k where k: "k < length ?reg" "rw_run (?reg ! k) = r" "ru_id r = i" using lire_nth[OF assms] by blast
  have "chain_ok ?reg [] (chain_from ?reg [] i)" and "hd (chain_from ?reg [] i) = r"
    and "chain_from ?reg [] i \<noteq> []"
    using chain_from_ok[OF built_table_ok k(1), of "[]"] k(2,3) by auto
  then show ?thesis by (simp add: lignee_def chain_ok_def last_rev rev_map[symmetric])
qed

lemma lineage_exact_example:
  "last (lignee (fold exec_registry [Ouvrir ''p'' (default_run ''a'' 1), Reprendre ''p'' ''b'' 2 ''a'' ''m'' id] []) ''b'') =
     (default_run ''b'' 2)\<lparr>ru_parent := Some ''a'', ru_attempt := 2, ru_retry_motive := ''m''\<rparr> \<and>
   ancestry (rev (lignee (fold exec_registry [Ouvrir ''p'' (default_run ''a'' 1), Reprendre ''p'' ''b'' 2 ''a'' ''m'' id] []) ''b''))"
  using lineage_exact[of "[Ouvrir ''p'' (default_run ''a'' 1), Reprendre ''p'' ''b'' 2 ''a'' ''m'' id]" "''b''"
      "(default_run ''b'' 2)\<lparr>ru_parent := Some ''a'', ru_attempt := 2, ru_retry_motive := ''m''\<rparr>"]
  by (simp add: kept_on_error_def ouvrir_def reprendre_def str_strip_def white_def run_ids_def lire_def inherit_def default_run_def)

subsection \<open>Reconciliation\<close>

lemma neutral_id: "neutral f \<Longrightarrow> ru_id (f r) = ru_id r"
  by (simp add: neutral_def same_identity_def)

lemma lire_changer:
  assumes "neutral f"
  shows "lire (changer_sans_statut i f reg) j =
    (if j = i then map_option (\<lambda>r. if run_ended r then r else f r) (lire reg i) else lire reg j)"
  by (induction reg) (auto simp: changer_sans_statut_def lire_def unless_ended_def neutral_id[OF assms])

lemma processus_changer: "neutral f \<Longrightarrow> processus_de (changer_sans_statut i f reg) j = processus_de reg j"
  by (induction reg) (auto simp: changer_sans_statut_def processus_de_def unless_ended_def neutral_id)

text \<open>What is known of the process of a run, and what a loss writes.\<close>

definition fate :: "(string \<Rightarrow> bool option) \<Rightarrow> string \<Rightarrow> run_table \<Rightarrow> string \<Rightarrow> bool option" where
  "fate alive current reg i = (case processus_de reg i of None \<Rightarrow> None
     | Some e \<Rightarrow> (if e = current then Some True else alive e))"

definition lose :: "(string \<Rightarrow> string) \<Rightarrow> time \<Rightarrow> run_table \<Rightarrow> string \<Rightarrow> run \<Rightarrow> run" where
  "lose reason now reg i r = r\<lparr>ru_statut := Statut_PERDU, ru_finished := Some now, ru_cause := Some Cause_PROCESSUS,
     ru_reason := (let e = the (processus_de reg i) in if reason e \<noteq> [] then reason e else ru_reason r)\<rparr>"

lemma terminer_lost:
  assumes "lire reg i = Some r" and "\<not> run_ended r" and "processus_de reg i = Some e"
  shows "lire (terminer now i Statut_PERDU (lost_process e (reason e)) reg) j =
    (if j = i then Some (lose reason now reg i r) else lire reg j)"
proof -
  let ?f = "\<lambda>r. outcome_columns now (lost_process e (reason e)) (r\<lparr>ru_statut := Statut_PERDU\<rparr>)"
  have n: "neutral ?f" by (simp add: neutral_def same_identity_def outcome_columns_def)
  have "?f r = lose reason now reg i r"
    using assms(3) by (simp add: outcome_columns_def lost_process_def lose_def)
  then show ?thesis
    using assms(1,2) by (simp add: terminer_def changer_def lire_changer[OF n])
qed

lemma terminer_process: "processus_de (terminer now i s b reg) j = processus_de reg j"
  unfolding terminer_def changer_def
  by (rule processus_changer) (simp add: neutral_def same_identity_def outcome_columns_def)

definition with_fate :: "(string \<Rightarrow> bool option) \<Rightarrow> string \<Rightarrow> run_table \<Rightarrow> bool option \<Rightarrow> run list \<Rightarrow> string list" where
  "with_fate alive current reg v rs = filter (\<lambda>i. fate alive current reg i = v) (map ru_id rs)"

lemma with_fate_Cons: "with_fate alive c reg v (r # rs) = with_fate alive c reg v [r] @ with_fate alive c reg v rs"
  by (simp add: with_fate_def)

lemma with_fate_single: "j \<in> set (with_fate alive c reg v [r]) \<longleftrightarrow> j = ru_id r \<and> fate alive c reg j = v"
  by (auto simp: with_fate_def)

lemma reconcile_run_step:
  assumes "lire reg (ru_id r) = Some r" and "\<not> run_ended r"
  shows "\<exists>reg'. reconcile_run alive reason now c r (reg, b) =
     (reg', \<lparr>bi_lost = bi_lost b @ with_fate alive c reg (Some False) [r],
             bi_alive = bi_alive b @ with_fate alive c reg (Some True) [r],
             bi_undecided = bi_undecided b @ with_fate alive c reg None [r]\<rparr>) \<and>
     (\<forall>j. processus_de reg' j = processus_de reg j) \<and>
     (\<forall>j. lire reg' j = (if j = ru_id r \<and> fate alive c reg j = Some False
        then Some (lose reason now reg j r) else lire reg j))"
  using assms terminer_lost[OF assms, of _ now reason]
  by (cases "processus_de reg (ru_id r)")
    (auto simp: reconcile_run_def with_fate_def fate_def terminer_process split: option.splits bool.splits)

lemma fold_reconcile:
  assumes "distinct (map ru_id rs)" and "\<And>r. r \<in> set rs \<Longrightarrow> lire reg (ru_id r) = Some r \<and> \<not> run_ended r"
  shows "\<exists>reg'. fold (reconcile_run alive reason now c) rs (reg, b) =
     (reg', \<lparr>bi_lost = bi_lost b @ with_fate alive c reg (Some False) rs,
             bi_alive = bi_alive b @ with_fate alive c reg (Some True) rs,
             bi_undecided = bi_undecided b @ with_fate alive c reg None rs\<rparr>) \<and>
     (\<forall>j. lire reg' j = (if j \<in> set (with_fate alive c reg (Some False) rs)
        then map_option (lose reason now reg j) (lire reg j) else lire reg j))"
  using assms
proof (induction rs arbitrary: reg b)
  case Nil
  then show ?case by (cases b) (simp add: with_fate_def)
next
  case (Cons r rs)
  obtain reg1 where s: "reconcile_run alive reason now c r (reg, b) =
     (reg1, \<lparr>bi_lost = bi_lost b @ with_fate alive c reg (Some False) [r],
             bi_alive = bi_alive b @ with_fate alive c reg (Some True) [r],
             bi_undecided = bi_undecided b @ with_fate alive c reg None [r]\<rparr>)"
     "\<And>j. processus_de reg1 j = processus_de reg j"
     "\<And>j. lire reg1 j = (if j = ru_id r \<and> fate alive c reg j = Some False
        then Some (lose reason now reg j r) else lire reg j)"
    using reconcile_run_step[of reg r alive reason now c b] Cons.prems(2)[of r] by auto
  have w: "with_fate alive c reg1 v qs = with_fate alive c reg v qs" for v qs
    by (simp add: with_fate_def fate_def s(2))
  have l: "lose reason now reg1 j = lose reason now reg j" for j
    by (rule ext) (simp add: lose_def s(2))
  have later: "lire reg1 (ru_id q) = Some q \<and> \<not> run_ended q" if "q \<in> set rs" for q
    using Cons.prems that s(3)[of "ru_id q"] by (auto simp: image_iff)
  have d: "distinct (map ru_id rs)" using Cons.prems(1) by simp
  from Cons.IH[OF d later, unfolded w l, of "\<lparr>bi_lost = bi_lost b @ with_fate alive c reg (Some False) [r],
       bi_alive = bi_alive b @ with_fate alive c reg (Some True) [r],
       bi_undecided = bi_undecided b @ with_fate alive c reg None [r]\<rparr>"]
  obtain reg' where r: "fold (reconcile_run alive reason now c) rs (reg1,
      \<lparr>bi_lost = bi_lost b @ with_fate alive c reg (Some False) [r],
       bi_alive = bi_alive b @ with_fate alive c reg (Some True) [r],
       bi_undecided = bi_undecided b @ with_fate alive c reg None [r]\<rparr>) =
     (reg', \<lparr>bi_lost = (bi_lost b @ with_fate alive c reg (Some False) [r]) @ with_fate alive c reg (Some False) rs,
       bi_alive = (bi_alive b @ with_fate alive c reg (Some True) [r]) @ with_fate alive c reg (Some True) rs,
       bi_undecided = (bi_undecided b @ with_fate alive c reg None [r]) @ with_fate alive c reg None rs\<rparr>)"
     and r2: "\<And>j. lire reg' j = (if j \<in> set (with_fate alive c reg (Some False) rs)
        then map_option (lose reason now reg j) (lire reg1 j) else lire reg1 j)"
    unfolding bilan.simps by blast
  have mine: "lire reg (ru_id r) = Some r" using Cons.prems(2)[of r] by simp
  have fresh: "ru_id r \<notin> set (with_fate alive c reg (Some False) rs)"
    using Cons.prems(1) by (auto simp: with_fate_def)
  have "lire reg' j = (if j \<in> set (with_fate alive c reg (Some False) (r # rs))
        then map_option (lose reason now reg j) (lire reg j) else lire reg j)" for j
    unfolding with_fate_Cons[of alive c reg _ r rs] set_append Un_iff with_fate_single r2 s(3)
    using mine fresh by (cases "j = ru_id r") simp_all
  moreover have "fold (reconcile_run alive reason now c) (r # rs) (reg, b) =
     (reg', \<lparr>bi_lost = bi_lost b @ with_fate alive c reg (Some False) (r # rs),
             bi_alive = bi_alive b @ with_fate alive c reg (Some True) (r # rs),
             bi_undecided = bi_undecided b @ with_fate alive c reg None (r # rs)\<rparr>)"
    unfolding with_fate_Cons[of alive c reg _ r rs] using s(1) r by simp
  ultimately show ?case by blast
qed

lemma non_termines_lire:
  assumes "distinct (run_ids reg)" and "r \<in> set (non_termines reg)"
  shows "lire reg (ru_id r) = Some r \<and> \<not> run_ended r"
proof -
  obtain k where k: "k < length reg" "rw_run (reg ! k) = r" "\<not> run_ended r"
    using assms(2) by (auto simp: non_termines_def in_set_conv_nth)
  have "row_id (reg ! j) \<noteq> ru_id r" if "j < k" for j
    using assms(1) that k nth_eq_iff_index_eq[of "run_ids reg" j k] by (auto simp: run_ids_def)
  then show ?thesis using k lire_nthI[OF k(1), of "ru_id r"] by simp
qed

lemma reconciliation_lists:
  assumes "distinct (run_ids reg)"
  shows "snd (reconcilier_par alive reason now current reg) =
      \<lparr>bi_lost = filter (\<lambda>i. fate alive current reg i = Some False) (map ru_id (non_termines reg)),
       bi_alive = filter (\<lambda>i. fate alive current reg i = Some True) (map ru_id (non_termines reg)),
       bi_undecided = filter (\<lambda>i. fate alive current reg i = None) (map ru_id (non_termines reg))\<rparr>"
    "lire (fst (reconcilier_par alive reason now current reg)) i =
      (if i \<in> set (bi_lost (snd (reconcilier_par alive reason now current reg)))
       then map_option (lose reason now reg i) (lire reg i) else lire reg i)"
proof -
  have "distinct (map ru_id (non_termines reg))"
    unfolding non_termines_def using assms by (simp add: run_ids_def comp_def distinct_map_filter)
  from fold_reconcile[OF this non_termines_lire[OF assms], of alive reason now current
      "\<lparr>bi_lost = [], bi_alive = [], bi_undecided = []\<rparr>"]
  show "snd (reconcilier_par alive reason now current reg) =
      \<lparr>bi_lost = filter (\<lambda>i. fate alive current reg i = Some False) (map ru_id (non_termines reg)),
       bi_alive = filter (\<lambda>i. fate alive current reg i = Some True) (map ru_id (non_termines reg)),
       bi_undecided = filter (\<lambda>i. fate alive current reg i = None) (map ru_id (non_termines reg))\<rparr>"
    "lire (fst (reconcilier_par alive reason now current reg)) i =
      (if i \<in> set (bi_lost (snd (reconcilier_par alive reason now current reg)))
       then map_option (lose reason now reg i) (lire reg i) else lire reg i)"
    unfolding reconcilier_par_def by (auto simp: with_fate_def)
qed

text \<open>
  A readable fingerprint is a number, a colon and a date of birth. It is known dead when the system says that the
  number is no process, or when the process of that number was born at another date (to one second), and known
  alive when it was born at that date.
\<close>

definition fingerprint :: "string \<Rightarrow> int \<Rightarrow> string \<Rightarrow> bool" where
  "fingerprint e pid birth \<longleftrightarrow> (\<exists>digits. e = digits @ CHR '':'' # birth \<and> CHR '':'' \<notin> set digits \<and> py_int (PStr digits) = Some pid)"

definition known_dead :: "(int \<Rightarrow> probe) \<Rightarrow> (string \<Rightarrow> rat option) \<Rightarrow> string \<Rightarrow> bool" where
  "known_dead probe read_float e \<longleftrightarrow> (\<exists>pid birth. fingerprint e pid birth \<and>
     (probe pid = Probe_GONE \<or> (\<exists>born x. probe pid = Probe_BORN born \<and> birth \<noteq> [] \<and> read_float birth = Some x \<and> 1 < \<bar>born - x\<bar>)))"

definition known_alive :: "(int \<Rightarrow> probe) \<Rightarrow> (string \<Rightarrow> rat option) \<Rightarrow> string \<Rightarrow> bool" where
  "known_alive probe read_float e \<longleftrightarrow> (\<exists>pid birth. fingerprint e pid birth \<and>
     (\<exists>born x. probe pid = Probe_BORN born \<and> birth \<noteq> [] \<and> read_float birth = Some x \<and> \<bar>born - x\<bar> \<le> 1))"

lemma fingerprint_iff: "fingerprint e pid birth \<longleftrightarrow> CHR '':'' \<in> set e \<and>
    py_int (PStr (takeWhile (\<lambda>c. c \<noteq> CHR '':'') e)) = Some pid \<and> birth = drop 1 (dropWhile (\<lambda>c. c \<noteq> CHR '':'') e)"
proof
  assume "fingerprint e pid birth"
  then obtain ds where d: "e = ds @ CHR '':'' # birth" "CHR '':'' \<notin> set ds" "py_int (PStr ds) = Some pid"
    by (auto simp: fingerprint_def)
  have "takeWhile (\<lambda>c. c \<noteq> CHR '':'') e = ds" "dropWhile (\<lambda>c. c \<noteq> CHR '':'') e = CHR '':'' # birth"
    unfolding d(1) using d(2) by (auto simp: takeWhile_append dropWhile_append)
  then show "CHR '':'' \<in> set e \<and> py_int (PStr (takeWhile (\<lambda>c. c \<noteq> CHR '':'') e)) = Some pid \<and>
      birth = drop 1 (dropWhile (\<lambda>c. c \<noteq> CHR '':'') e)" using d by simp
next
  assume a: "CHR '':'' \<in> set e \<and> py_int (PStr (takeWhile (\<lambda>c. c \<noteq> CHR '':'') e)) = Some pid \<and>
      birth = drop 1 (dropWhile (\<lambda>c. c \<noteq> CHR '':'') e)"
  then have n: "dropWhile (\<lambda>c. c \<noteq> CHR '':'') e \<noteq> []" by (auto simp: dropWhile_eq_Nil_conv)
  have h: "hd (dropWhile (\<lambda>c. c \<noteq> CHR '':'') e) = CHR '':''" using hd_dropWhile[OF n] by simp
  have "dropWhile (\<lambda>c. c \<noteq> CHR '':'') e = CHR '':'' # birth"
    using n h a by (cases "dropWhile (\<lambda>c. c \<noteq> CHR '':'') e") auto
  then have "e = takeWhile (\<lambda>c. c \<noteq> CHR '':'') e @ CHR '':'' # birth"
    using takeWhile_dropWhile_id[of "\<lambda>c. c \<noteq> CHR '':''" e] by simp
  moreover have "CHR '':'' \<notin> set (takeWhile (\<lambda>c. c \<noteq> CHR '':'') e)" by (auto dest: set_takeWhileD)
  ultimately show "fingerprint e pid birth" using a unfolding fingerprint_def by blast
qed

lemma processus_vivant_iff:
  "processus_vivant probe read_float e = Some False \<longleftrightarrow> known_dead probe read_float e"
  "processus_vivant probe read_float e = Some True \<longleftrightarrow> known_alive probe read_float e"
  by (auto simp: processus_vivant_def known_dead_def known_alive_def fingerprint_iff Let_def not_le
      split: option.splits probe.splits)

text \<open>The fingerprint under which the row of a run was opened; an empty one is none.\<close>

definition carried_by :: "run_table \<Rightarrow> string \<Rightarrow> string \<Rightarrow> bool" where
  "carried_by reg i e \<longleftrightarrow> (\<exists>w \<in> set reg. row_id w = i \<and> rw_process w = Some e \<and> e \<noteq> [])"

lemma carried_by_iff:
  assumes "distinct (run_ids reg)" shows "carried_by reg i e \<longleftrightarrow> processus_de reg i = Some e"
proof -
  have f: "List.find (\<lambda>w. row_id w = i) reg = Some w \<longleftrightarrow> w \<in> set reg \<and> row_id w = i" for w
    using assms unfolding run_ids_def by (induction reg) (auto simp: rev_image_eqI)
  have "carried_by reg i e \<longleftrightarrow> (\<exists>w. List.find (\<lambda>w. row_id w = i) reg = Some w \<and> rw_process w = Some e \<and> e \<noteq> [])"
    unfolding f carried_by_def by blast
  then show ?thesis by (simp add: processus_de_def split: option.split) auto
qed

text \<open>
  C17. After a restart, a run is declared lost exactly when its process is known to be dead. In a table whose
  identifiers are distinct, reconciliation puts every run that has not ended in exactly one of three lists: lost when
  its fingerprint is readable (a number, a colon, a date of birth) and the system says that the number is no process
  or one born more than a second from that date; alive when it is the fingerprint of the process that reconciles or
  of a process born at that date; undecided otherwise, with an absent or unreadable fingerprint, without a date or
  without an answer of the system. The lost ones are ended as PERDU with the cause PROCESSUS and the reason of the
  loss; no other run is changed.
\<close>

theorem reconciliation_exact:
  assumes "distinct (run_ids reg)"
  shows "let out = reconcilier probe read_float reason now current reg;
      ids = map row_id (filter (\<lambda>w. ru_statut (rw_run w) \<in> {Statut_EN_ATTENTE, Statut_EN_COURS}) reg);
      dead = (\<lambda>i. \<exists>e. carried_by reg i e \<and> e \<noteq> current \<and> known_dead probe read_float e);
      alive = (\<lambda>i. \<exists>e. carried_by reg i e \<and> (e = current \<or> known_alive probe read_float e))
    in bi_lost (snd out) = filter dead ids \<and> bi_alive (snd out) = filter alive ids \<and>
      bi_undecided (snd out) = filter (\<lambda>i. \<not> dead i \<and> \<not> alive i) ids \<and>
      (\<forall>i. i \<notin> set (bi_lost (snd out)) \<longrightarrow> lire (fst out) i = lire reg i) \<and>
      (\<forall>i e r. i \<in> set (bi_lost (snd out)) \<and> carried_by reg i e \<and> lire reg i = Some r \<longrightarrow>
        lire (fst out) i = Some (r\<lparr>ru_statut := Statut_PERDU, ru_finished := Some now, ru_cause := Some Cause_PROCESSUS,
          ru_reason := (if reason e \<noteq> [] then reason e else ru_reason r)\<rparr>))"
proof -
  let ?alive = "processus_vivant probe read_float"
  note c = carried_by_iff[OF assms] and l = reconciliation_lists[OF assms, of ?alive reason now current]
  have ids: "map ru_id (non_termines reg) =
      map row_id (filter (\<lambda>w. ru_statut (rw_run w) \<in> {Statut_EN_ATTENTE, Statut_EN_COURS}) reg)"
    by (induction reg) (auto simp: non_termines_def run_ended_def terminaux_def, (metis statut.exhaust)+)
  have dead: "fate ?alive current reg i = Some False \<longleftrightarrow>
      (\<exists>e. carried_by reg i e \<and> e \<noteq> current \<and> known_dead probe read_float e)" for i
    by (auto simp: fate_def c processus_vivant_iff split: option.split)
  have alive: "fate ?alive current reg i = Some True \<longleftrightarrow>
      (\<exists>e. carried_by reg i e \<and> (e = current \<or> known_alive probe read_float e))" for i
    by (auto simp: fate_def c processus_vivant_iff split: option.split)
  have none: "fate ?alive current reg i = None \<longleftrightarrow> fate ?alive current reg i \<noteq> Some False \<and> fate ?alive current reg i \<noteq> Some True" for i
    by (cases "fate ?alive current reg i") auto
  have lost: "carried_by reg i e \<Longrightarrow> lose reason now reg i r = r\<lparr>ru_statut := Statut_PERDU, ru_finished := Some now,
      ru_cause := Some Cause_PROCESSUS, ru_reason := (if reason e \<noteq> [] then reason e else ru_reason r)\<rparr>" for i e r
    by (simp add: lose_def c)
  show ?thesis
    unfolding reconcilier_def Let_def ids[symmetric] l bilan.simps dead[symmetric] alive[symmetric] none[symmetric]
    using lost by auto
qed

definition lost_table :: run_table where
  "lost_table = [\<lparr>rw_run = default_run ''a'' 1, rw_process = Some ''7:1''\<rparr>,
      \<lparr>rw_run = default_run ''b'' 2, rw_process = Some ''8''\<rparr>, \<lparr>rw_run = default_run ''d'' 2, rw_process = Some ''9:9''\<rparr>,
      \<lparr>rw_run = (default_run ''c'' 2)\<lparr>ru_statut := Statut_ECHOUE\<rparr>, rw_process = Some ''7:1''\<rparr>]"

theorem reconciliation_exact_witness:
  "''a'' \<in> set (bi_lost (snd (reconcilier (\<lambda>pid. Probe_GONE) (\<lambda>s. None) (\<lambda>e. ''gone'') 5 ''9:9'' lost_table))) \<and>
   ''b'' \<notin> set (bi_lost (snd (reconcilier (\<lambda>pid. Probe_GONE) (\<lambda>s. None) (\<lambda>e. ''gone'') 5 ''9:9'' lost_table))) \<and>
   ''d'' \<in> set (bi_alive (snd (reconcilier (\<lambda>pid. Probe_GONE) (\<lambda>s. None) (\<lambda>e. ''gone'') 5 ''9:9'' lost_table)))"
proof -
  have "distinct (run_ids lost_table)" by (simp add: lost_table_def run_ids_def default_run_def)
  note t = reconciliation_exact[OF this, of "\<lambda>pid. Probe_GONE" "\<lambda>s. None" "\<lambda>e. ''gone''" 5 "''9:9''", unfolded Let_def]
  have "py_int (PStr ''7'') = Some 7" by code_simp
  then have "fingerprint ''7:1'' 7 ''1''" unfolding fingerprint_def by (intro exI[of _ "''7''"]) simp
  then have "known_dead (\<lambda>pid. Probe_GONE) (\<lambda>s. None) ''7:1''" unfolding known_dead_def by blast
  moreover have "\<not> fingerprint ''8'' pid q" for pid q by (simp add: fingerprint_iff)
  ultimately show ?thesis
    unfolding t[THEN conjunct1] t[THEN conjunct2, THEN conjunct1]
    by (simp add: lost_table_def carried_by_def default_run_def known_dead_def)
qed

end
