(* ===== verification/Contract.thy ===== *)
theory Contract
  imports Taxonomy
begin

text \<open>
  What a mission promised and the loop that holds it to it: the contract of \<^verbatim>\<open>backend/runs/contrat.py\<close>, the
  provenance filter of \<^verbatim>\<open>memory/confiance.py\<close>, the relay of \<^verbatim>\<open>mission/relais.py\<close> and the loop of
  \<^verbatim>\<open>mission/boucle.py\<close>. The JSON texts are the payload values \<^verbatim>\<open>json.dumps\<close> writes. Texts for a prompt are
  the list of their blocks. Executor, verifier and restore point are functions of the environment of the loop;
  the executor and the verifier may change the relay. Identifiers drawn for criteria are a function \<open>uuid\<close>.
\<close>

subsection \<open>Criteria\<close>

datatype genre = Genre_ACCEPTATION | Genre_NON_OBJECTIF | Genre_CONTRAINTE

datatype etat_critere = Etat_NON_ATTEINT | Etat_ATTEINT | Etat_INVERIFIABLE | Etat_VIOLE

fun genre_value :: "genre \<Rightarrow> string" where
  "genre_value Genre_ACCEPTATION = ''acceptation''"
| "genre_value Genre_NON_OBJECTIF = ''non_objectif''"
| "genre_value Genre_CONTRAINTE = ''contrainte''"

fun etat_value :: "etat_critere \<Rightarrow> string" where
  "etat_value Etat_NON_ATTEINT = ''non_atteint''"
| "etat_value Etat_ATTEINT = ''atteint''"
| "etat_value Etat_INVERIFIABLE = ''inverifiable''"
| "etat_value Etat_VIOLE = ''viole''"

record critere =
  cr_text :: string
  cr_genre :: genre
  cr_verifier :: string
  cr_etat :: etat_critere
  cr_id :: string

definition critere_tenu :: "critere \<Rightarrow> bool" where
  "critere_tenu c = (if cr_genre c = Genre_NON_OBJECTIF then cr_etat c \<noteq> Etat_VIOLE else cr_etat c = Etat_ATTEINT)"

definition critere_to_dict :: "critere \<Rightarrow> pyval" where
  "critere_to_dict c = PDict
     [(''identifiant'', PStr (cr_id c)), (''texte'', PStr (cr_text c)), (''genre'', PStr (genre_value (cr_genre c))),
      (''verificateur'', PStr (cr_verifier c)), (''etat'', PStr (etat_value (cr_etat c)))]"

text \<open>
  \<open>Field\<close> is a missing key, or a payload of another type than the class declares (which the source stores
  unchecked, or fails on with a \<^verbatim>\<open>TypeError\<close>); \<open>NoMember\<close> is the \<^verbatim>\<open>ValueError\<close> of an enum.
\<close>

datatype contract_load_error = Field load_error | NoMember pyval

definition field :: "load_error + 'a \<Rightarrow> contract_load_error + 'a" where
  "field r = (case r of Inl e \<Rightarrow> Inl (Field e) | Inr x \<Rightarrow> Inr x)"

definition member :: "('e \<Rightarrow> string) \<Rightarrow> 'e list \<Rightarrow> pyval \<Rightarrow> contract_load_error + 'e" where
  "member value es v = (case List.find (\<lambda>e. v = PStr (value e)) es of None \<Rightarrow> Inl (NoMember v) | Some e \<Rightarrow> Inr e)"

definition get_or :: "metadata \<Rightarrow> string \<Rightarrow> pyval \<Rightarrow> pyval" where
  "get_or d k v = (case dict_get d k of None \<Rightarrow> v | Some x \<Rightarrow> x)"

definition genres :: "genre list" where
  "genres = [Genre_ACCEPTATION, Genre_NON_OBJECTIF, Genre_CONTRAINTE]"

definition etats :: "etat_critere list" where
  "etats = [Etat_NON_ATTEINT, Etat_ATTEINT, Etat_INVERIFIABLE, Etat_VIOLE]"

text \<open>\<^verbatim>\<open>d.get(k) or default\<close> for a text.\<close>

definition str_or_falsy :: "metadata \<Rightarrow> string \<Rightarrow> string \<Rightarrow> load_error + string" where
  "str_or_falsy d k v = (case dict_get d k of None \<Rightarrow> Inr v
     | Some x \<Rightarrow> (if truthy x then (case x of PStr s \<Rightarrow> Inr s | _ \<Rightarrow> Inl BadShape) else Inr v))"

fun critere_from_dict :: "string \<Rightarrow> pyval \<Rightarrow> contract_load_error + critere" where
  "critere_from_dict uuid (PDict d) =
     bind_sum (field (str_req d ''texte'')) (\<lambda>t.
     bind_sum (member genre_value genres (get_or d ''genre'' (PStr ''acceptation''))) (\<lambda>g.
     bind_sum (field (str_or d ''verificateur'' '''')) (\<lambda>v.
     bind_sum (member etat_value etats (get_or d ''etat'' (PStr ''non_atteint''))) (\<lambda>s.
     bind_sum (field (str_or_falsy d ''identifiant'' uuid)) (\<lambda>i.
       Inr \<lparr>cr_text = t, cr_genre = g, cr_verifier = v, cr_etat = s, cr_id = i\<rparr>)))))"
| "critere_from_dict uuid _ = Inl (Field BadShape)"

subsection \<open>Contracts\<close>

record contrat =
  co_objective :: string
  co_criteria :: "critere list"
  co_resources :: "string list"
  co_stops :: "string list"
  co_budget :: metadata
  co_risk :: string

datatype contrat_invalide = SansObjectif | SansAcceptation | SansVerificateur "string list"

definition valider :: "contrat \<Rightarrow> contrat_invalide + unit" where
  "valider c =
     (let acceptation = filter (\<lambda>k. cr_genre k = Genre_ACCEPTATION) (co_criteria c);
          unnamed = map cr_text (filter (\<lambda>k. cr_verifier k = []) acceptation)
      in if str_strip (co_objective c) = [] then Inl SansObjectif
         else if acceptation = [] then Inl SansAcceptation
         else if unnamed \<noteq> [] then Inl (SansVerificateur (take 3 unnamed))
         else Inr ())"

definition contrat_tenu :: "contrat \<Rightarrow> bool" where
  "contrat_tenu c \<longleftrightarrow> co_criteria c \<noteq> [] \<and> list_all critere_tenu (co_criteria c)"

definition inverifiables :: "contrat \<Rightarrow> critere list" where
  "inverifiables c = filter (\<lambda>k. cr_etat k = Etat_INVERIFIABLE) (co_criteria c)"

definition violes :: "contrat \<Rightarrow> critere list" where
  "violes c = filter (\<lambda>k. cr_etat k = Etat_VIOLE) (co_criteria c)"

text \<open>The figures of the summary: held, total, violated, unverifiable.\<close>

definition contrat_resume :: "contrat \<Rightarrow> (nat \<times> nat \<times> nat \<times> nat) option" where
  "contrat_resume c = (if co_criteria c = [] then None
     else Some (length (filter critere_tenu (co_criteria c)), length (co_criteria c), length (violes c),
       length (inverifiables c)))"

definition etat_apres :: "genre \<Rightarrow> verdict \<Rightarrow> etat_critere" where
  "etat_apres g v =
     (if v = Verdict_INDISPONIBLE then Etat_INVERIFIABLE
      else if g = Genre_NON_OBJECTIF then (if v = Verdict_REUSSI then Etat_VIOLE else Etat_ATTEINT)
      else if v = Verdict_REUSSI then Etat_ATTEINT else Etat_NON_ATTEINT)"

fun noter :: "string \<Rightarrow> verdict \<Rightarrow> critere list \<Rightarrow> critere list" where
  "noter i v [] = []"
| "noter i v (c # cs) = (if cr_id c = i then c\<lparr>cr_etat := etat_apres (cr_genre c) v\<rparr> # cs else c # noter i v cs)"

text \<open>\<^verbatim>\<open>enregistrer\<close>: \<open>None\<close> is the \<^verbatim>\<open>KeyError\<close> of an unknown criterion.\<close>

definition enregistrer :: "string \<Rightarrow> verdict \<Rightarrow> contrat \<Rightarrow> contrat option" where
  "enregistrer i v c = (if i \<in> set (map cr_id (co_criteria c))
     then Some (c\<lparr>co_criteria := noter i v (co_criteria c)\<rparr>) else None)"

definition contrat_to_dict :: "contrat \<Rightarrow> metadata" where
  "contrat_to_dict c =
     [(''objectif'', PStr (co_objective c)), (''criteres'', PList (map critere_to_dict (co_criteria c))),
      (''ressources_autorisees'', PList (map PStr (co_resources c))),
      (''conditions_d_arret'', PList (map PStr (co_stops c))), (''budget'', PDict (co_budget c)),
      (''niveau_de_risque'', PStr (co_risk c))]"

text \<open>\<^verbatim>\<open>d.get(k) or []\<close> and \<^verbatim>\<open>d.get(k) or {}\<close>.\<close>

definition list_or_falsy :: "metadata \<Rightarrow> string \<Rightarrow> load_error + pyval list" where
  "list_or_falsy d k = (case dict_get d k of None \<Rightarrow> Inr []
     | Some x \<Rightarrow> (if truthy x then (case x of PList xs \<Rightarrow> Inr xs | _ \<Rightarrow> Inl BadShape) else Inr []))"

definition dict_or_falsy :: "metadata \<Rightarrow> string \<Rightarrow> load_error + metadata" where
  "dict_or_falsy d k = (case dict_get d k of None \<Rightarrow> Inr []
     | Some x \<Rightarrow> (if truthy x then (case x of PDict m \<Rightarrow> Inr m | _ \<Rightarrow> Inl BadShape) else Inr []))"

definition as_str :: "pyval \<Rightarrow> load_error + string" where
  "as_str v = (case v of PStr s \<Rightarrow> Inr s | _ \<Rightarrow> Inl BadShape)"

definition texts :: "metadata \<Rightarrow> string \<Rightarrow> load_error + string list" where
  "texts d k = bind_sum (list_or_falsy d k) (map_sum_list as_str)"

definition contrat_from_dict :: "(nat \<Rightarrow> string) \<Rightarrow> metadata \<Rightarrow> contract_load_error + contrat" where
  "contrat_from_dict uuid d =
     bind_sum (field (str_or d ''objectif'' '''')) (\<lambda>ob.
     bind_sum (field (list_or_falsy d ''criteres'')) (\<lambda>cs.
     bind_sum (map_sum_list (\<lambda>(n, c). critere_from_dict (uuid n) c) (enumerate 0 cs)) (\<lambda>crs.
     bind_sum (field (texts d ''ressources_autorisees'')) (\<lambda>rs.
     bind_sum (field (texts d ''conditions_d_arret'')) (\<lambda>st.
     bind_sum (field (dict_or_falsy d ''budget'')) (\<lambda>bu.
     bind_sum (field (str_or d ''niveau_de_risque'' ''moyen'')) (\<lambda>ri.
       Inr \<lparr>co_objective = ob, co_criteria = crs, co_resources = rs, co_stops = st, co_budget = bu,
            co_risk = ri\<rparr>)))))))"

end
