(* ===== verification/Relay.thy ===== *)
theory Relay
  imports Contract
begin

text \<open>
  The relay that carries a mission from one model to the next and the loop that executes, verifies and repairs:
  \<^verbatim>\<open>memory/confiance.py\<close>, \<^verbatim>\<open>mission/relais.py\<close> and \<^verbatim>\<open>mission/boucle.py\<close>.
\<close>

subsection \<open>Provenance\<close>

datatype origine = Origine_HUMAIN | Origine_SYSTEME | Origine_AGENT | Origine_WEB | Origine_DEPOT | Origine_OUTIL
  | Origine_DOCUMENT | Origine_INCONNUE

datatype confiance = Confiance_QUARANTAINE | Confiance_FIABLE

fun origine_value :: "origine \<Rightarrow> string" where
  "origine_value Origine_HUMAIN = ''humain''"
| "origine_value Origine_SYSTEME = ''systeme''"
| "origine_value Origine_AGENT = ''agent''"
| "origine_value Origine_WEB = ''web''"
| "origine_value Origine_DEPOT = ''depot''"
| "origine_value Origine_OUTIL = ''outil''"
| "origine_value Origine_DOCUMENT = ''document''"
| "origine_value Origine_INCONNUE = ''inconnue''"

definition origines_de_confiance :: "origine list" where
  "origines_de_confiance = [Origine_HUMAIN, Origine_SYSTEME]"

record provenance =
  pv_origin :: origine
  pv_trust :: confiance
  pv_source :: string
  pv_promoted_by :: "string option"
  pv_verified :: "time option"

definition no_provenance :: provenance where
  "no_provenance = \<lparr>pv_origin = Origine_INCONNUE, pv_trust = Confiance_QUARANTAINE, pv_source = '''',
     pv_promoted_by = None, pv_verified = None\<rparr>"

definition provenance_depuis :: "time \<Rightarrow> origine \<Rightarrow> string \<Rightarrow> provenance" where
  "provenance_depuis now o' source = (let sure = o' \<in> set origines_de_confiance in
     \<lparr>pv_origin = o', pv_trust = (if sure then Confiance_FIABLE else Confiance_QUARANTAINE), pv_source = source,
      pv_promoted_by = (if sure then Some (origine_value o') else None), pv_verified = (if sure then Some now else None)\<rparr>)"

definition en_quarantaine :: "provenance \<Rightarrow> bool" where
  "en_quarantaine p \<longleftrightarrow> pv_trust p = Confiance_QUARANTAINE"

text \<open>\<open>None\<close> is the refusal of a promotion that names nobody.\<close>

definition promouvoir :: "time \<Rightarrow> string \<Rightarrow> provenance \<Rightarrow> provenance option" where
  "promouvoir now by p = (if str_strip by = [] then None
     else Some \<lparr>pv_origin = pv_origin p, pv_trust = Confiance_FIABLE, pv_source = pv_source p,
       pv_promoted_by = Some (str_strip by), pv_verified = Some now\<rparr>)"

text \<open>A memory: its own provenance or the one in its metadata, and the texts an object may carry.\<close>

record souvenir =
  sv_provenance :: "provenance option"
  sv_metadata :: "provenance option"
  sv_content :: "string option"
  sv_text :: "string option"
  sv_str :: string

definition provenance_de :: "souvenir \<Rightarrow> provenance" where
  "provenance_de s = (case sv_provenance s of Some p \<Rightarrow> p
     | None \<Rightarrow> (case sv_metadata s of Some p \<Rightarrow> p | None \<Rightarrow> no_provenance))"

definition filtrer :: "bool \<Rightarrow> souvenir list \<Rightarrow> souvenir list" where
  "filtrer everything ss = (if everything then ss else filter (\<lambda>s. \<not> en_quarantaine (provenance_de s)) ss)"

subsection \<open>Relay\<close>

datatype phase = Phase_PLANIFICATION | Phase_EXECUTION | Phase_VERIFICATION | Phase_REPARATION

fun phase_value :: "phase \<Rightarrow> string" where
  "phase_value Phase_PLANIFICATION = ''planification''"
| "phase_value Phase_EXECUTION = ''execution''"
| "phase_value Phase_VERIFICATION = ''verification''"
| "phase_value Phase_REPARATION = ''reparation''"

fun role_pour :: "phase \<Rightarrow> string" where
  "role_pour Phase_PLANIFICATION = ''reasoning''"
| "role_pour Phase_EXECUTION = ''code''"
| "role_pour Phase_VERIFICATION = ''double_check''"
| "role_pour Phase_REPARATION = ''code''"

record artefact =
  ar_path :: string
  ar_phase :: string
  ar_verdict :: string

record preuve =
  pe_source :: string
  pe_finding :: string
  pe_verdict :: string

record relais =
  rl_mission :: string
  rl_run :: string
  rl_objective :: string
  rl_workspace :: string
  rl_contrat :: "contrat option"
  rl_artefacts :: "artefact list"
  rl_preuves :: "preuve list"
  rl_decisions :: "string list"
  rl_amont :: string
  rl_outils :: "string list"
  rl_memoire :: "string list"
  rl_echec :: string
  rl_cause :: string

definition ajouter_artefact :: "string \<Rightarrow> string \<Rightarrow> string \<Rightarrow> relais \<Rightarrow> relais" where
  "ajouter_artefact path ph verdict r =
     r\<lparr>rl_artefacts := rl_artefacts r @ [\<lparr>ar_path = path, ar_phase = ph, ar_verdict = verdict\<rparr>]\<rparr>"

definition ajouter_preuve :: "string \<Rightarrow> string \<Rightarrow> string \<Rightarrow> relais \<Rightarrow> relais" where
  "ajouter_preuve source finding verdict r =
     r\<lparr>rl_preuves := rl_preuves r @ [\<lparr>pe_source = source, pe_finding = finding, pe_verdict = verdict\<rparr>]\<rparr>"

definition souvenir_text :: "souvenir \<Rightarrow> string" where
  "souvenir_text s = (case sv_content s of Some (c # cs) \<Rightarrow> c # cs
     | _ \<Rightarrow> (case sv_text s of Some (c # cs) \<Rightarrow> c # cs | _ \<Rightarrow> sv_str s))"

definition depuis_la_memoire :: "bool \<Rightarrow> souvenir list \<Rightarrow> relais \<Rightarrow> relais \<times> nat" where
  "depuis_la_memoire everything ss r = (let kept = filtrer everything ss in
     (r\<lparr>rl_memoire := rl_memoire r @ map souvenir_text kept\<rparr>, length kept))"

text \<open>The blocks of a brief, in their order; a criterion shows whether it is forbidden, its text and its verifier.\<close>

datatype bloc = Bloc_OBJECTIF string | Bloc_CONTRAT "(bool \<times> string \<times> string) list" "string list"
  | Bloc_OUTILS "string list" | Bloc_AMONT string | Bloc_ARTEFACTS "artefact list" | Bloc_ECHEC string string
  | Bloc_PREUVES "preuve list" | Bloc_DECISIONS "string list" | Bloc_MEMOIRE "string list"

definition bloc_contrat :: "contrat \<Rightarrow> bloc" where
  "bloc_contrat c = Bloc_CONTRAT
     (map (\<lambda>k. (cr_genre k = Genre_NON_OBJECTIF, cr_text k, cr_verifier k)) (co_criteria c)) (co_stops c)"

definition given_if :: "bool \<Rightarrow> 'a \<Rightarrow> 'a list" where
  "given_if b x = (if b then [x] else [])"

definition phase_blocs :: "phase \<Rightarrow> relais \<Rightarrow> bloc list" where
  "phase_blocs ph r = (case ph of
     Phase_PLANIFICATION \<Rightarrow> given_if (rl_outils r \<noteq> []) (Bloc_OUTILS (rl_outils r))
   | Phase_EXECUTION \<Rightarrow> given_if (rl_amont r \<noteq> []) (Bloc_AMONT (rl_amont r)) @
       given_if (rl_outils r \<noteq> []) (Bloc_OUTILS (rl_outils r))
   | Phase_VERIFICATION \<Rightarrow> [Bloc_ARTEFACTS (rl_artefacts r)]
   | Phase_REPARATION \<Rightarrow> [Bloc_ARTEFACTS (rl_artefacts r)] @
       given_if (rl_echec r \<noteq> []) (Bloc_ECHEC (rl_echec r) (rl_cause r)))"

definition pour :: "phase \<Rightarrow> relais \<Rightarrow> bloc list" where
  "pour ph r =
     given_if (rl_objective r \<noteq> []) (Bloc_OBJECTIF (rl_objective r)) @
     (if ph = Phase_PLANIFICATION then [] else case rl_contrat r of None \<Rightarrow> [] | Some c \<Rightarrow> [bloc_contrat c]) @
     phase_blocs ph r @
     given_if (ph \<in> {Phase_VERIFICATION, Phase_REPARATION} \<and> rl_preuves r \<noteq> []) (Bloc_PREUVES (rl_preuves r)) @
     given_if (rl_decisions r \<noteq> []) (Bloc_DECISIONS (rl_decisions r)) @
     given_if (rl_memoire r \<noteq> []) (Bloc_MEMOIRE (rl_memoire r))"

subsection \<open>Relay as a payload\<close>

definition artefact_dict :: "artefact \<Rightarrow> pyval" where
  "artefact_dict a = PDict [(''chemin'', PStr (ar_path a)), (''phase'', PStr (ar_phase a)), (''verdict'', PStr (ar_verdict a))]"

definition preuve_dict :: "preuve \<Rightarrow> pyval" where
  "preuve_dict p = PDict [(''source'', PStr (pe_source p)), (''constat'', PStr (pe_finding p)), (''verdict'', PStr (pe_verdict p))]"

definition relais_to_dict :: "relais \<Rightarrow> metadata" where
  "relais_to_dict r =
     [(''mission'', PStr (rl_mission r)), (''run'', PStr (rl_run r)), (''objectif'', PStr (rl_objective r)),
      (''workspace'', PStr (rl_workspace r)),
      (''contrat'', case rl_contrat r of None \<Rightarrow> PNone | Some c \<Rightarrow> PDict (contrat_to_dict c)),
      (''artefacts'', PList (map artefact_dict (rl_artefacts r))), (''preuves'', PList (map preuve_dict (rl_preuves r))),
      (''decisions'', PList (map PStr (rl_decisions r))), (''amont'', PStr (rl_amont r)),
      (''outils'', PList (map PStr (rl_outils r))), (''memoire'', PList (map PStr (rl_memoire r))),
      (''echec'', PStr (rl_echec r)), (''cause'', PStr (rl_cause r))]"

text \<open>Keyword arguments: an unexpected one is a \<^verbatim>\<open>TypeError\<close>, here \<open>BadShape\<close>.\<close>

definition only_keys :: "string list \<Rightarrow> metadata \<Rightarrow> load_error + metadata" where
  "only_keys ks d = (if set (dict_keys d) \<subseteq> set ks then Inr d else Inl BadShape)"

fun artefact_from :: "pyval \<Rightarrow> load_error + artefact" where
  "artefact_from (PDict d) =
     bind_sum (only_keys [''chemin'', ''phase'', ''verdict''] d) (\<lambda>_.
     bind_sum (str_req d ''chemin'') (\<lambda>c. bind_sum (str_or d ''phase'' '''') (\<lambda>p. bind_sum (str_or d ''verdict'' '''') (\<lambda>v.
       Inr \<lparr>ar_path = c, ar_phase = p, ar_verdict = v\<rparr>))))"
| "artefact_from _ = Inl BadShape"

fun preuve_from :: "pyval \<Rightarrow> load_error + preuve" where
  "preuve_from (PDict d) =
     bind_sum (only_keys [''source'', ''constat'', ''verdict''] d) (\<lambda>_.
     bind_sum (str_req d ''source'') (\<lambda>s. bind_sum (str_req d ''constat'') (\<lambda>c.
     bind_sum (str_or d ''verdict'' ''indisponible'') (\<lambda>v.
       Inr \<lparr>pe_source = s, pe_finding = c, pe_verdict = v\<rparr>))))"
| "preuve_from _ = Inl BadShape"

definition plain_texts :: "metadata \<Rightarrow> string \<Rightarrow> load_error + string list" where
  "plain_texts d k = bind_sum (list_or d k) (map_sum_list as_str)"

definition contrat_field :: "(nat \<Rightarrow> string) \<Rightarrow> metadata \<Rightarrow> contract_load_error + contrat option" where
  "contrat_field uuid d = (case dict_get d ''contrat'' of None \<Rightarrow> Inr None
     | Some v \<Rightarrow> (if \<not> truthy v then Inr None else case v of
           PDict m \<Rightarrow> bind_sum (contrat_from_dict uuid m) (\<lambda>c. Inr (Some c)) | _ \<Rightarrow> Inl (Field BadShape)))"

definition relais_keys :: "string list" where
  "relais_keys = [''mission'', ''run'', ''objectif'', ''workspace'', ''contrat'', ''artefacts'', ''preuves'', ''decisions'',
     ''amont'', ''outils'', ''memoire'', ''echec'', ''cause'']"

definition relais_from_dict :: "(nat \<Rightarrow> string) \<Rightarrow> metadata \<Rightarrow> contract_load_error + relais" where
  "relais_from_dict uuid d =
     bind_sum (field (bind_sum (list_or_falsy d ''artefacts'') (map_sum_list artefact_from))) (\<lambda>ar.
     bind_sum (field (bind_sum (list_or_falsy d ''preuves'') (map_sum_list preuve_from))) (\<lambda>pr.
     bind_sum (contrat_field uuid d) (\<lambda>co.
     bind_sum (field (only_keys relais_keys d)) (\<lambda>_.
     bind_sum (field (str_or d ''mission'' '''')) (\<lambda>mi. bind_sum (field (str_or d ''run'' '''')) (\<lambda>ru.
     bind_sum (field (str_or d ''objectif'' '''')) (\<lambda>ob. bind_sum (field (str_or d ''workspace'' '''')) (\<lambda>ws.
     bind_sum (field (plain_texts d ''decisions'')) (\<lambda>de. bind_sum (field (str_or d ''amont'' '''')) (\<lambda>am.
     bind_sum (field (plain_texts d ''outils'')) (\<lambda>ou. bind_sum (field (plain_texts d ''memoire'')) (\<lambda>me.
     bind_sum (field (str_or d ''echec'' '''')) (\<lambda>ec. bind_sum (field (str_or d ''cause'' '''')) (\<lambda>ca.
       Inr \<lparr>rl_mission = mi, rl_run = ru, rl_objective = ob, rl_workspace = ws, rl_contrat = co, rl_artefacts = ar,
            rl_preuves = pr, rl_decisions = de, rl_amont = am, rl_outils = ou, rl_memoire = me, rl_echec = ec,
            rl_cause = ca\<rparr>))))))))))))))"

subsection \<open>The loop\<close>

datatype arret = Arret_CONTRAT_TENU | Arret_BUDGET | Arret_CAUSE_NON_REPRENABLE | Arret_INVERIFIABLE | Arret_ERREUR
  | Arret_SANS_CONTRAT

record tour =
  tr_number :: nat
  tr_phase :: phase
  tr_verdict :: "verdict option"
  tr_cause :: "cause option"
  tr_detail :: string

datatype arret_reason = NoReason | Reason_SANS_CONTRAT | Reason_INVERIFIABLE | Reason_REMEDE cause
  | Reason_RESUME "(nat \<times> nat \<times> nat \<times> nat) option" | Reason_TOURS nat "(nat \<times> nat \<times> nat \<times> nat) option"

record issue =
  is_arret :: arret
  is_tenu :: bool
  is_tours :: "tour list"
  is_relais :: relais
  is_checkpoint :: string
  is_reason :: arret_reason

definition tours_faits :: "issue \<Rightarrow> nat" where
  "tours_faits i = card (set (map tr_number (is_tours i)))"

text \<open>What a verifier returns: a verdict or another text, the text of its summary (if it has one), its reason.\<close>

datatype raw_verdict = RawVerdict verdict | RawText string

record verification =
  vf_verdict :: raw_verdict
  vf_resume :: "string option"
  vf_raison :: string

definition verdicts :: "verdict list" where
  "verdicts = [Verdict_REUSSI, Verdict_ECHOUE, Verdict_INDISPONIBLE]"

definition verdict_de :: "verification \<Rightarrow> verdict" where
  "verdict_de v = (case vf_verdict v of RawVerdict w \<Rightarrow> w
     | RawText s \<Rightarrow> (case List.find (\<lambda>w. verdict_value w = s) verdicts of Some w \<Rightarrow> w | None \<Rightarrow> Verdict_INDISPONIBLE))"

definition nourrir_le_relais :: "verification \<Rightarrow> relais \<Rightarrow> relais" where
  "nourrir_le_relais v r =
     (let constat = (case vf_resume v of Some (c # cs) \<Rightarrow> c # cs | _ \<Rightarrow> vf_raison v)
      in if constat = [] then r else ajouter_preuve (''v'' @ [e_acute] @ ''rification'') constat ''echoue'' r)"

text \<open>
  \<open>be_execute\<close> gives the text of an exception or \<open>None\<close>, and the relay after; \<open>be_verify\<close> an exception or a
  verification, and the relay after; \<open>be_restore\<close> the identifier of a restore point, if one was asked for and
  taken. Each is told the number of the round.
\<close>

record boucle =
  be_execute :: "nat \<Rightarrow> phase \<Rightarrow> relais \<Rightarrow> string option \<times> relais"
  be_verify :: "nat \<Rightarrow> relais \<Rightarrow> (string + verification) \<times> relais"
  be_restore :: "relais \<Rightarrow> string option"
  be_tours :: nat

definition new_boucle :: "(nat \<Rightarrow> phase \<Rightarrow> relais \<Rightarrow> string option \<times> relais)
    \<Rightarrow> (nat \<Rightarrow> relais \<Rightarrow> (string + verification) \<times> relais) \<Rightarrow> (relais \<Rightarrow> string option) \<Rightarrow> int \<Rightarrow> boucle" where
  "new_boucle ex ve re tours = \<lparr>be_execute = ex, be_verify = ve, be_restore = re, be_tours = nat (max 1 tours)\<rparr>"

text \<open>
  How a call of the loop ends: an exception that escapes (of the verifier, or because the contract is gone from
  the relay), or an issue with the charge of the event published.
\<close>

datatype escape = VerifierRaised string | ContractGone

record arret_charge =
  ac_arret :: arret
  ac_tenu :: bool
  ac_tours :: nat
  ac_reason :: arret_reason
  ac_checkpoint :: string
  ac_mission :: string
  ac_run :: string

datatype loop_end = Escaped escape | Returned issue "arret_charge list"

definition charge_of :: "issue \<Rightarrow> arret_charge" where
  "charge_of i = \<lparr>ac_arret = is_arret i, ac_tenu = is_tenu i, ac_tours = tours_faits i, ac_reason = is_reason i,
     ac_checkpoint = is_checkpoint i, ac_mission = rl_mission (is_relais i), ac_run = rl_run (is_relais i)\<rparr>"

definition clore :: "issue \<Rightarrow> loop_end" where
  "clore i = Returned i [charge_of i]"

definition phase_du_tour :: "nat \<Rightarrow> phase" where
  "phase_du_tour n = (if n = 1 then Phase_EXECUTION else Phase_REPARATION)"

text \<open>The record of a failed execution, and whether its cause ends the loop.\<close>

definition arreter_sur_l_erreur :: "issue \<Rightarrow> nat \<Rightarrow> phase \<Rightarrow> string \<Rightarrow> issue \<times> bool" where
  "arreter_sur_l_erreur i n ph exc =
     (let c = cl_cause (classer exc None None None);
          i1 = i\<lparr>is_tours := is_tours i @ [\<lparr>tr_number = n, tr_phase = ph, tr_verdict = None, tr_cause = Some c,
                 tr_detail = take 400 exc\<rparr>],
               is_relais := (is_relais i)\<lparr>rl_echec := take 400 exc, rl_cause := cause_value c\<rparr>\<rparr>
      in if re_retry (remede_pour c) then (i1, False)
         else (i1\<lparr>is_arret := Arret_CAUSE_NON_REPRENABLE, is_reason := Reason_REMEDE c\<rparr>, True))"

definition executed :: "nat \<Rightarrow> phase \<Rightarrow> relais \<Rightarrow> issue \<Rightarrow> issue" where
  "executed n ph r i = i\<lparr>is_tours := is_tours i @ [\<lparr>tr_number = n, tr_phase = ph, tr_verdict = None, tr_cause = None,
       tr_detail = ''ex'' @ [e_acute] @ ''cut'' @ [e_acute]\<rparr>], is_relais := r\<rparr>"

definition judged :: "nat \<Rightarrow> verdict \<Rightarrow> relais \<Rightarrow> issue \<Rightarrow> issue" where
  "judged n v r i = i\<lparr>is_tours := is_tours i @ [\<lparr>tr_number = n, tr_phase = Phase_VERIFICATION, tr_verdict = Some v,
       tr_cause = None, tr_detail = ''''\<rparr>], is_relais := r\<rparr>"

text \<open>One round: the loop ends, or goes on with the issue so far.\<close>

definition un_tour :: "boucle \<Rightarrow> nat \<Rightarrow> issue \<Rightarrow> loop_end + issue" where
  "un_tour b n i =
     (let ph = phase_du_tour n; (err, r) = be_execute b n ph (is_relais i)
      in case err of
        Some exc \<Rightarrow> (let (i1, stop) = arreter_sur_l_erreur (i\<lparr>is_relais := r\<rparr>) n ph exc
          in if stop then Inl (clore i1) else Inr i1)
      | None \<Rightarrow> (let i1 = executed n ph r i; (answer, r1) = be_verify b n r in
          case answer of
            Inl text \<Rightarrow> Inl (Escaped (VerifierRaised text))
          | Inr vf \<Rightarrow> (let v = verdict_de vf; i2 = judged n v r1 i1 in
              case (if v = Verdict_REUSSI then map_option contrat_tenu (rl_contrat r1) else Some False) of
                None \<Rightarrow> Inl (Escaped ContractGone)
              | Some True \<Rightarrow> Inl (clore (i2\<lparr>is_arret := Arret_CONTRAT_TENU, is_tenu := True,
                  is_reason := Reason_RESUME (contrat_resume (the (rl_contrat r1)))\<rparr>))
              | Some False \<Rightarrow> (if v = Verdict_INDISPONIBLE
                  then Inl (clore (i2\<lparr>is_arret := Arret_INVERIFIABLE, is_reason := Reason_INVERIFIABLE\<rparr>))
                  else Inr (i2\<lparr>is_relais := nourrir_le_relais vf r1\<rparr>)))))"

fun les_tours :: "boucle \<Rightarrow> nat \<Rightarrow> nat \<Rightarrow> issue \<Rightarrow> loop_end" where
  "les_tours b 0 n i = (case rl_contrat (is_relais i) of None \<Rightarrow> Escaped ContractGone
     | Some c \<Rightarrow> clore (i\<lparr>is_reason := Reason_TOURS (be_tours b) (contrat_resume c)\<rparr>))"
| "les_tours b (Suc left) n i = (case un_tour b n i of Inl e \<Rightarrow> e | Inr i1 \<Rightarrow> les_tours b left (Suc n) i1)"

definition tourner :: "boucle \<Rightarrow> relais \<Rightarrow> loop_end" where
  "tourner b r = (case rl_contrat r of
     None \<Rightarrow> Returned \<lparr>is_arret = Arret_SANS_CONTRAT, is_tenu = False, is_tours = [], is_relais = r, is_checkpoint = '''',
       is_reason = Reason_SANS_CONTRAT\<rparr> []
   | Some _ \<Rightarrow> les_tours b (be_tours b) 1 \<lparr>is_arret = Arret_BUDGET, is_tenu = False, is_tours = [], is_relais = r,
       is_checkpoint = (case be_restore b r of None \<Rightarrow> '''' | Some s \<Rightarrow> s), is_reason = NoReason\<rparr>)"

end
