(* ===== verification/Taxonomy_Correct.thy ===== *)
theory Taxonomy_Correct
  imports Taxonomy
begin

text \<open>
  Correctness of the classification of errors: the search finds a phrase exactly when the text holds it
  between the boundaries asked for, and a message is given the cause of the first phrase of the table it holds.
\<close>

definition bounds_ok :: "motif \<Rightarrow> string \<Rightarrow> string \<Rightarrow> string \<Rightarrow> bool" where
  "bounds_ok m before f after \<longleftrightarrow>
     (mo_bounded m \<longrightarrow> boundary before (f @ after) \<and> boundary (rev f @ before) after)"

text \<open>The text holds, at some place, a word of the motif in any case, between the boundaries asked for.\<close>

definition holds_phrase :: "motif \<Rightarrow> string \<Rightarrow> string \<Rightarrow> bool" where
  "holds_phrase m s f \<longleftrightarrow> (\<exists>us vs. s = us @ f @ vs \<and> map latin_lower f \<in> set (mo_words m) \<and> bounds_ok m (rev us) f vs)"

lemma word_at_iff:
  "word_at (mo_bounded m) before rest w \<longleftrightarrow>
     (\<exists>f vs. rest = f @ vs \<and> map latin_lower f = w \<and> bounds_ok m before f vs)"
proof
  assume a: "word_at (mo_bounded m) before rest w"
  then obtain zs where z: "map latin_lower rest = w @ zs" by (auto simp: word_at_def is_prefix_iff)
  have "length w \<le> length rest" using arg_cong[OF z, of length] by simp
  moreover have "map latin_lower (take (length w) rest) = w" using arg_cong[OF z, of "take (length w)"] by (simp add: take_map)
  ultimately show "\<exists>f vs. rest = f @ vs \<and> map latin_lower f = w \<and> bounds_ok m before f vs"
    using a by (intro exI[of _ "take (length w) rest"] exI[of _ "drop (length w) rest"])
      (simp add: word_at_def bounds_ok_def)
next
  assume "\<exists>f vs. rest = f @ vs \<and> map latin_lower f = w \<and> bounds_ok m before f vs"
  then show "word_at (mo_bounded m) before rest w"
    by (auto simp: word_at_def is_prefix_iff bounds_ok_def)
qed

lemma search_from_Some:
  "search_from m before s = Some f \<Longrightarrow>
     \<exists>us vs. s = us @ f @ vs \<and> map latin_lower f \<in> set (mo_words m) \<and> bounds_ok m (rev us @ before) f vs"
proof (induction m before s rule: search_from.induct)
  case (2 m before c rest)
  show ?case
  proof (cases "List.find (word_at (mo_bounded m) before (c # rest)) (mo_words m)")
    case None
    with 2 obtain us vs where "rest = us @ f @ vs" "map latin_lower f \<in> set (mo_words m)"
      "bounds_ok m (rev us @ c # before) f vs" by auto
    then show ?thesis by (intro exI[of _ "c # us"] exI[of _ vs]) simp
  next
    case (Some w)
    then have w: "w \<in> set (mo_words m)" "word_at (mo_bounded m) before (c # rest) w" by (auto dest: find_SomeD)
    obtain g vs where g: "c # rest = g @ vs" "map latin_lower g = w" "bounds_ok m before g vs"
      using w(2)[unfolded word_at_iff] by blast
    have "take (length w) (c # rest) = f" using "2.prems" Some by simp
    moreover have "length g = length w" using g(2) by auto
    ultimately have "f = g" unfolding g(1) by simp
    then show ?thesis using g w(1) by (intro exI[of _ "[]"] exI[of _ vs]) simp
  qed
qed simp

lemma search_from_None:
  "search_from m before s = None \<Longrightarrow> [] \<notin> set (mo_words m) \<Longrightarrow> s = us @ f @ vs \<Longrightarrow>
     map latin_lower f \<in> set (mo_words m) \<Longrightarrow> \<not> bounds_ok m (rev us @ before) f vs"
proof (induction m before s arbitrary: us rule: search_from.induct)
  case (1 m before)
  then show ?case by auto
next
  case (2 m before c rest)
  have none: "List.find (word_at (mo_bounded m) before (c # rest)) (mo_words m) = None"
    and rest: "search_from m (c # before) rest = None"
    using "2.prems"(1) by (auto split: option.splits)
  show ?case
  proof (cases us)
    case Nil
    then have "\<not> word_at (mo_bounded m) before (c # rest) (map latin_lower f)"
      using none "2.prems"(4) by (auto simp: find_None_iff)
    then show ?thesis using Nil "2.prems"(3) unfolding word_at_iff by auto
  next
    case (Cons d ds)
    then show ?thesis using "2.IH"[OF none rest "2.prems"(2), of ds] "2.prems"(3,4) by simp
  qed
qed

lemma motif_search_holds: "motif_search m s = Some f \<Longrightarrow> holds_phrase m s f"
  using search_from_Some[of m "[]" s f] by (auto simp: motif_search_def holds_phrase_def)

lemma motif_search_none: "[] \<notin> set (mo_words m) \<Longrightarrow> motif_search m s = None \<longleftrightarrow> (\<forall>f. \<not> holds_phrase m s f)"
  using search_from_None[of m "[]" s] motif_search_holds[of m s]
  by (auto simp: motif_search_def holds_phrase_def) (metis not_None_eq)

lemma first_motif_exact:
  assumes "\<And>m. m \<in> set ms \<Longrightarrow> [] \<notin> set (mo_words m)"
  shows "cl_cause (first_motif i ms s) = (case List.find (\<lambda>m. \<exists>f. holds_phrase m s f) ms of
      None \<Rightarrow> Cause_INCONNUE | Some m \<Rightarrow> mo_cause m)"
  using assms
proof (induction ms arbitrary: i)
  case (Cons m ms)
  then show ?case using motif_search_none[of m s] motif_search_holds[of m s]
    by (cases "motif_search m s") auto
qed simp

lemma first_motif_hint:
  "(\<And>m. m \<in> set ms \<Longrightarrow> mo_cause m \<noteq> Cause_INCONNUE) \<Longrightarrow>
     cl_hint (first_motif i ms s) = NoHint \<longleftrightarrow> cl_cause (first_motif i ms s) = Cause_INCONNUE"
  by (induction i ms s rule: first_motif.induct) (auto split: option.splits)

lemma motifs_known: "m \<in> set motifs \<Longrightarrow> mo_cause m \<noteq> Cause_INCONNUE"
  by (auto simp: motifs_def)

lemma http_known: "map_of http_codes s = Some c \<Longrightarrow> c \<noteq> Cause_INCONNUE"
  by (auto simp: http_codes_def split: if_splits)

text \<open>A blank text holds no phrase of the table.\<close>

lemma strip_blank: "str_strip s = [] \<longleftrightarrow> (\<forall>c \<in> set s. white c)"
proof
  assume "str_strip s = []"
  then have "\<forall>c \<in> set (dropWhile white s). white c" by (simp add: str_strip_def dropWhile_eq_Nil_conv)
  then have "dropWhile white s = []" by (metis dropWhile_eq_Nil_conv hd_dropWhile hd_in_set)
  then show "\<forall>c \<in> set s. white c" by (simp add: dropWhile_eq_Nil_conv)
next
  assume "\<forall>c \<in> set s. white c"
  then have "dropWhile white s = []" by (simp add: dropWhile_eq_Nil_conv)
  from arg_cong[OF this, of "\<lambda>t. rev (dropWhile white (rev t))"] show "str_strip s = []"
    by (simp add: str_strip_def)
qed

lemma white_lower: "white c \<Longrightarrow> latin_lower c = c"
  by (auto simp: white_def latin_lower_def Let_def)

definition heads_ok :: "motif list \<Rightarrow> bool" where
  "heads_ok ms \<longleftrightarrow> (\<forall>m \<in> set ms. \<forall>w \<in> set (mo_words m). w \<noteq> [] \<and> \<not> white (hd w))"

lemma motifs_heads: "heads_ok motifs"
  by (simp add: heads_ok_def motifs_def white_def)

lemma blank_holds_nothing:
  assumes "str_strip s = []" and "m \<in> set motifs"
  shows "\<not> holds_phrase m s f"
proof
  assume "holds_phrase m s f"
  then obtain us vs where h: "s = us @ f @ vs" "map latin_lower f \<in> set (mo_words m)"
    by (auto simp: holds_phrase_def)
  then have h2: "map latin_lower f \<noteq> []" "\<not> white (hd (map latin_lower f))"
    using motifs_heads assms(2) by (auto simp: heads_ok_def)
  have "white (hd f)" using assms(1) h(1) h2(1) by (auto simp: strip_blank)
  then show False using h2 white_lower[of "hd f"] by (cases f) auto
qed

definition phrase_cause :: "string \<Rightarrow> cause" where
  "phrase_cause s = (case List.find (\<lambda>m. \<exists>f. holds_phrase m s f) motifs of
      None \<Rightarrow> Cause_INCONNUE | Some m \<Rightarrow> mo_cause m)"

lemma phrase_cause_blank: "str_strip s = [] \<Longrightarrow> phrase_cause s = Cause_INCONNUE"
  using blank_holds_nothing[of s] by (auto simp: phrase_cause_def find_None_iff split: option.splits dest!: find_SomeD)

lemma phrase_cause_search: "cl_cause (first_motif 0 motifs s) = phrase_cause s"
  using motifs_heads unfolding phrase_cause_def by (intro first_motif_exact) (auto simp: heads_ok_def)

text \<open>
  An error is classified by evidence, in the order of its strength: a closed window, then a known HTTP
  code, then the first phrase of the table that the text holds (in any case, between word boundaries where the
  table asks for them). A text that holds no phrase is of unknown cause, and a known cause always comes with
  the evidence that decided.
\<close>

lemma error_classified_exactly:
  "cl_cause (classer message status done_reason exn) =
     (if \<exists>r. done_reason = Some r \<and> map latin_lower (str_strip r) = ''length'' then Cause_CONTEXTE
      else case (case status of None \<Rightarrow> None | Some s \<Rightarrow> map_of http_codes s) of Some c \<Rightarrow> c
        | None \<Rightarrow> phrase_cause (joined message (case exn of None \<Rightarrow> '''' | Some x \<Rightarrow> x))) \<and>
   (cl_hint (classer message status done_reason exn) = NoHint) =
     (\<not> classified (classer message status done_reason exn))"
proof -
  let ?t = "joined message (case exn of None \<Rightarrow> [] | Some x \<Rightarrow> x)"
  let ?d = "case done_reason of None \<Rightarrow> False | Some r \<Rightarrow> r \<noteq> [] \<and> map latin_lower (str_strip r) = ''length''"
  let ?h = "case status of None \<Rightarrow> None | Some s \<Rightarrow> map_option (Pair s) (map_of http_codes s)"
  have d: "(\<exists>r. done_reason = Some r \<and> map latin_lower (str_strip r) = ''length'') \<longleftrightarrow> ?d"
    by (auto simp: str_strip_def split: option.splits)
  have h: "(case status of None \<Rightarrow> None | Some s \<Rightarrow> map_of http_codes s) = map_option snd ?h"
    by (cases status) (simp_all add: option.map_comp comp_def option.map_ident)
  have k: "snd sc \<noteq> Cause_INCONNUE" if "?h = Some sc" for sc
    using that http_known by (auto split: option.splits)
  have c: "classer message status done_reason exn =
     (if ?d then \<lparr>cl_cause = Cause_CONTEXTE, cl_hint = DoneReason\<rparr>
      else case ?h of Some (s, c) \<Rightarrow> \<lparr>cl_cause = c, cl_hint = HttpCode s\<rparr>
        | None \<Rightarrow> if str_strip ?t = [] then \<lparr>cl_cause = Cause_INCONNUE, cl_hint = NoHint\<rparr> else first_motif 0 motifs ?t)"
    by (simp only: classer_def Let_def)
  let ?R = "if str_strip ?t = [] then \<lparr>cl_cause = Cause_INCONNUE, cl_hint = NoHint\<rparr> else first_motif 0 motifs ?t"
  have r: "cl_cause ?R = phrase_cause ?t" "(cl_hint ?R = NoHint) = (cl_cause ?R = Cause_INCONNUE)"
    using phrase_cause_blank[of ?t] phrase_cause_search[of ?t] first_motif_hint[OF motifs_known, of motifs 0 ?t]
    by simp_all
  show ?thesis
  proof (cases ?d)
    case True
    then show ?thesis unfolding d classified_def by (simp only: c if_True if_P) simp
  next
    case False
    then have c2: "classer message status done_reason exn =
      (case ?h of Some (s, c) \<Rightarrow> \<lparr>cl_cause = c, cl_hint = HttpCode s\<rparr> | None \<Rightarrow> ?R)"
      by (simp only: c if_False)
    show ?thesis
    proof (cases ?h)
      case None
      then show ?thesis unfolding d h c2 classified_def using False r by (simp only: if_False option.case option.map simp_thms)
    next
      case (Some sc)
      then show ?thesis unfolding d h c2 classified_def using False k[OF Some]
        by (cases sc) (simp only: if_False option.case option.map prod.case classement.simps snd_conv, simp)
    qed
  qed
qed

end
