(* ===== verification/Relay_Correct.thy ===== *)
theory Relay_Correct
  imports Relay Taxonomy_Correct
begin

text \<open>
  Correctness of contracts, relays and the loop: a relay survives a change of model, a contract is held
  exactly when the last verdicts say so, the states of the criteria keep to their kind, and the loop says why it
  stopped.
\<close>

subsection \<open>Round trip\<close>

lemma bind_field_Inr [simp]: "bind_sum (field (Inr x)) f = f x"
  by (simp add: field_def bind_sum_def)

lemma bind_Inr [simp]: "bind_sum (Inr x) f = f x"
  by (simp add: bind_sum_def)

lemma member_genre [simp]: "member genre_value genres (PStr (genre_value g)) = Inr g"
  by (cases g) (simp_all add: member_def genres_def)

lemma member_etat [simp]: "member etat_value etats (PStr (etat_value s)) = Inr s"
  by (cases s) (simp_all add: member_def etats_def)

lemma critere_roundtrip: "cr_id c \<noteq> [] \<Longrightarrow> critere_from_dict uuid (critere_to_dict c) = Inr c"
  by (simp add: critere_to_dict_def str_req_def get_or_def str_or_def str_or_falsy_def)

lemma criteria_roundtrip:
  "\<forall>c \<in> set cs. cr_id c \<noteq> [] \<Longrightarrow>
     map_sum_list (\<lambda>(n, c). critere_from_dict (uuid n) c) (enumerate k (map critere_to_dict cs)) = Inr cs"
  by (induction cs arbitrary: k) (simp_all add: critere_roundtrip)

lemma texts_of_PStr [simp]: "map_sum_list as_str (map PStr xs) = Inr xs"
  by (rule map_sum_list_inverse) (simp add: as_str_def)

lemma texts_field:
  "dict_get d k = Some (PList (map PStr xs)) \<Longrightarrow> texts d k = Inr xs"
  by (cases xs) (simp_all add: texts_def list_or_falsy_def as_str_def)

lemma plain_texts_field: "dict_get d k = Some (PList (map PStr xs)) \<Longrightarrow> plain_texts d k = Inr xs"
  by (simp add: plain_texts_def list_or_def)

lemma list_field: "dict_get d k = Some (PList (map f xs)) \<Longrightarrow> list_or_falsy d k = Inr (map f xs)"
  by (cases xs) (simp_all add: list_or_falsy_def)

lemma dict_field: "dict_get d k = Some (PDict m) \<Longrightarrow> dict_or_falsy d k = Inr m"
  by (simp add: dict_or_falsy_def)

lemma str_field: "dict_get d k = Some (PStr s) \<Longrightarrow> str_or d k v = Inr s"
  by (simp add: str_or_def)

definition named_criteria :: "contrat \<Rightarrow> bool" where
  "named_criteria c \<longleftrightarrow> (\<forall>k \<in> set (co_criteria c). cr_id k \<noteq> [])"

lemma contrat_roundtrip:
  assumes "named_criteria c"
  shows "contrat_from_dict uuid (contrat_to_dict c) = Inr c"
proof -
  let ?d = "contrat_to_dict c"
  have "str_or ?d ''objectif'' [] = Inr (co_objective c)"
    "list_or_falsy ?d ''criteres'' = Inr (map critere_to_dict (co_criteria c))"
    "texts ?d ''ressources_autorisees'' = Inr (co_resources c)" "texts ?d ''conditions_d_arret'' = Inr (co_stops c)"
    "dict_or_falsy ?d ''budget'' = Inr (co_budget c)" "str_or ?d ''niveau_de_risque'' ''moyen'' = Inr (co_risk c)"
    by (auto intro!: str_field list_field texts_field dict_field simp: contrat_to_dict_def)
  then show ?thesis
    using criteria_roundtrip[of "co_criteria c" uuid 0] assms by (simp add: contrat_from_dict_def named_criteria_def)
qed

lemma artefact_roundtrip: "artefact_from (artefact_dict a) = Inr a"
  by (simp add: artefact_dict_def only_keys_def str_req_def str_or_def)

lemma preuve_roundtrip: "preuve_from (preuve_dict p) = Inr p"
  by (simp add: preuve_dict_def only_keys_def str_req_def str_or_def)

text \<open>
  C18. A relay survives the change of model: written as a payload and read back it is the same relay, with the
  same contract and the same states of its criteria, provided every criterion has an identifier (an empty one
  is replaced by a fresh one on reading).
\<close>

theorem relais_roundtrip:
  assumes "\<And>c. rl_contrat r = Some c \<Longrightarrow> named_criteria c"
  shows "relais_from_dict uuid (relais_to_dict r) = Inr r"
proof -
  let ?d = "relais_to_dict r"
  have "list_or_falsy ?d ''artefacts'' = Inr (map artefact_dict (rl_artefacts r))"
    "list_or_falsy ?d ''preuves'' = Inr (map preuve_dict (rl_preuves r))"
    by (rule list_field, simp add: relais_to_dict_def)+
  then have "bind_sum (list_or_falsy ?d ''artefacts'') (map_sum_list artefact_from) = Inr (rl_artefacts r)"
    "bind_sum (list_or_falsy ?d ''preuves'') (map_sum_list preuve_from) = Inr (rl_preuves r)"
    by (simp_all add: artefact_roundtrip preuve_roundtrip map_sum_list_inverse)
  moreover have "contrat_field uuid ?d = Inr (rl_contrat r)"
    using contrat_roundtrip assms by (auto simp: contrat_field_def relais_to_dict_def contrat_to_dict_def split: option.splits)
  moreover have "only_keys relais_keys ?d = Inr ?d"
    by (simp add: only_keys_def relais_keys_def relais_to_dict_def)
  moreover have "str_or ?d ''mission'' [] = Inr (rl_mission r)" "str_or ?d ''run'' [] = Inr (rl_run r)"
    "str_or ?d ''objectif'' [] = Inr (rl_objective r)" "str_or ?d ''workspace'' [] = Inr (rl_workspace r)"
    "str_or ?d ''amont'' [] = Inr (rl_amont r)" "str_or ?d ''echec'' [] = Inr (rl_echec r)"
    "str_or ?d ''cause'' [] = Inr (rl_cause r)"
    by (auto intro!: str_field simp: relais_to_dict_def)
  moreover have "plain_texts ?d ''decisions'' = Inr (rl_decisions r)" "plain_texts ?d ''outils'' = Inr (rl_outils r)"
    "plain_texts ?d ''memoire'' = Inr (rl_memoire r)"
    by (auto intro!: plain_texts_field simp: relais_to_dict_def)
  ultimately show ?thesis by (simp add: relais_from_dict_def)
qed

text \<open>A concrete relay with a contract.\<close>

definition sample_contrat :: contrat where
  "sample_contrat = \<lparr>co_objective = ''ship'', co_criteria =
     [\<lparr>cr_text = ''tests pass'', cr_genre = Genre_ACCEPTATION, cr_verifier = ''pytest'', cr_etat = Etat_NON_ATTEINT, cr_id = ''a''\<rparr>,
      \<lparr>cr_text = ''no force push'', cr_genre = Genre_NON_OBJECTIF, cr_verifier = ''git'', cr_etat = Etat_NON_ATTEINT, cr_id = ''b''\<rparr>],
     co_resources = [''gpu''], co_stops = [], co_budget = [(''s'', PInt 60)], co_risk = ''moyen''\<rparr>"

definition sample_relais :: relais where
  "sample_relais = \<lparr>rl_mission = ''m'', rl_run = ''r'', rl_objective = ''ship'', rl_workspace = ''/w'',
     rl_contrat = Some sample_contrat, rl_artefacts = [\<lparr>ar_path = ''a.py'', ar_phase = '''', ar_verdict = ''''\<rparr>],
     rl_preuves = [], rl_decisions = [], rl_amont = '''', rl_outils = [], rl_memoire = [], rl_echec = '''', rl_cause = ''''\<rparr>"

theorem relais_roundtrip_witness:
  "relais_from_dict (\<lambda>_. ''u'') (relais_to_dict sample_relais) = Inr sample_relais"
  by (rule relais_roundtrip) (auto simp: sample_relais_def sample_contrat_def named_criteria_def)

subsection \<open>Contracts\<close>

text \<open>A list of verdicts, recorded one after the other; an unknown criterion raises and changes nothing.\<close>

definition record_verdict :: "string \<times> verdict \<Rightarrow> contrat \<Rightarrow> contrat" where
  "record_verdict iv c = (case enregistrer (fst iv) (snd iv) c of None \<Rightarrow> c | Some c' \<Rightarrow> c')"

definition record_verdicts :: "(string \<times> verdict) list \<Rightarrow> contrat \<Rightarrow> contrat" where
  "record_verdicts ivs c = fold record_verdict ivs c"

definition last_verdict :: "(string \<times> verdict) list \<Rightarrow> string \<Rightarrow> verdict option" where
  "last_verdict ivs i = map_of (rev ivs) i"

text \<open>The criterion after the verdicts.\<close>

definition settled :: "(string \<times> verdict) list \<Rightarrow> critere \<Rightarrow> critere" where
  "settled ivs k = (case last_verdict ivs (cr_id k) of None \<Rightarrow> k | Some v \<Rightarrow> k\<lparr>cr_etat := etat_apres (cr_genre k) v\<rparr>)"

lemma noter_unknown: "i \<notin> set (map cr_id cs) \<Longrightarrow> noter i v cs = cs"
  by (induction cs) auto

lemma noter_map: "distinct (map cr_id cs) \<Longrightarrow>
    noter i v cs = map (\<lambda>k. if cr_id k = i then k\<lparr>cr_etat := etat_apres (cr_genre k) v\<rparr> else k) cs"
proof (induction cs)
  case (Cons c cs)
  then have "map (\<lambda>k. if cr_id k = cr_id c then k\<lparr>cr_etat := etat_apres (cr_genre k) v\<rparr> else k) cs = cs"
    by (intro map_idI) (auto simp: image_iff)
  with Cons show ?case by auto
qed simp

lemma record_verdict_criteria:
  "distinct (map cr_id (co_criteria c)) \<Longrightarrow> co_criteria (record_verdict (i, v) c) =
     map (\<lambda>k. if cr_id k = i then k\<lparr>cr_etat := etat_apres (cr_genre k) v\<rparr> else k) (co_criteria c)"
  by (auto simp: record_verdict_def enregistrer_def noter_map image_iff intro!: map_idI[symmetric])

lemma record_verdicts_criteria:
  "distinct (map cr_id (co_criteria c)) \<Longrightarrow> co_criteria (record_verdicts ivs c) = map (settled ivs) (co_criteria c)"
proof (induction ivs rule: rev_induct)
  case Nil
  show ?case by (simp add: record_verdicts_def settled_def[abs_def] last_verdict_def)
next
  case (snoc iv ivs)
  have "cr_id (settled ivs k) = cr_id k" for k by (simp add: settled_def split: option.splits)
  then have ids: "map cr_id (co_criteria (record_verdicts ivs c)) = map cr_id (co_criteria c)" using snoc by simp
  show ?case
    using snoc record_verdict_criteria[of "record_verdicts ivs c" "fst iv" "snd iv"] unfolding ids
    by (cases iv) (auto simp: record_verdicts_def settled_def last_verdict_def split: option.splits)
qed

text \<open>
  C19. A contract is held exactly when the last verdicts say so. For a contract whose criteria have distinct
  identifiers and have not been judged yet, after any sequence of recorded verdicts: it has a criterion, every
  acceptance criterion and constraint was judged and its last verdict is a success (an unavailable verdict is
  not), and no non-objective was last judged to be violated. A non-objective that nobody could judge, or that
  nobody judged, counts as held.
\<close>

theorem contract_held_exactly:
  assumes "distinct (map cr_id (co_criteria c))" and "\<forall>k \<in> set (co_criteria c). cr_etat k = Etat_NON_ATTEINT"
  shows "contrat_tenu (record_verdicts ivs c) \<longleftrightarrow> co_criteria c \<noteq> [] \<and>
    (\<forall>k \<in> set (co_criteria c). if cr_genre k = Genre_NON_OBJECTIF
       then last_verdict ivs (cr_id k) \<noteq> Some Verdict_REUSSI
       else last_verdict ivs (cr_id k) = Some Verdict_REUSSI)"
proof -
  have "critere_tenu (settled ivs k) \<longleftrightarrow> (if cr_genre k = Genre_NON_OBJECTIF
       then last_verdict ivs (cr_id k) \<noteq> Some Verdict_REUSSI else last_verdict ivs (cr_id k) = Some Verdict_REUSSI)"
    if "k \<in> set (co_criteria c)" for k
    using assms(2) that by (auto simp: critere_tenu_def settled_def etat_apres_def split: option.splits)
  then show ?thesis
    using record_verdicts_criteria[OF assms(1)] by (auto simp: contrat_tenu_def list_all_iff)
qed

theorem contract_held_exactly_witness:
  "contrat_tenu (record_verdicts [(''a'', Verdict_ECHOUE), (''a'', Verdict_REUSSI), (''b'', Verdict_INDISPONIBLE)] sample_contrat)"
  using contract_held_exactly[of sample_contrat "[(''a'', Verdict_ECHOUE), (''a'', Verdict_REUSSI), (''b'', Verdict_INDISPONIBLE)]"]
  by (simp add: sample_contrat_def last_verdict_def)

text \<open>The states a criterion may have: only a non-objective can be violated.\<close>

definition well_typed_critere :: "critere \<Rightarrow> bool" where
  "well_typed_critere k \<longleftrightarrow> (cr_etat k = Etat_VIOLE \<longrightarrow> cr_genre k = Genre_NON_OBJECTIF)"

definition well_typed_contrat :: "contrat \<Rightarrow> bool" where
  "well_typed_contrat c \<longleftrightarrow> list_all well_typed_critere (co_criteria c)"

text \<open>A criterion without its state: what a verdict must not change.\<close>

definition promise :: "critere \<Rightarrow> string \<times> genre \<times> string \<times> string" where
  "promise k = (cr_text k, cr_genre k, cr_verifier k, cr_id k)"

lemma record_verdict_typed:
  "well_typed_contrat c \<Longrightarrow> well_typed_contrat (record_verdict iv c) \<and>
     map promise (co_criteria (record_verdict iv c)) = map promise (co_criteria c)"
proof -
  have "list_all well_typed_critere cs \<Longrightarrow> list_all well_typed_critere (noter i v cs) \<and>
      map promise (noter i v cs) = map promise cs" for i v cs
    by (induction cs) (auto simp: well_typed_critere_def promise_def etat_apres_def)
  then show "well_typed_contrat c \<Longrightarrow> well_typed_contrat (record_verdict iv c) \<and>
     map promise (co_criteria (record_verdict iv c)) = map promise (co_criteria c)"
    by (auto simp: well_typed_contrat_def record_verdict_def enregistrer_def)
qed

lemma other_fields_kept:
  "s = c\<lparr>co_criteria := co_criteria s\<rparr> \<Longrightarrow> record_verdict iv s = c\<lparr>co_criteria := co_criteria (record_verdict iv s)\<rparr>"
  by (cases s; cases c) (simp add: record_verdict_def enregistrer_def)

text \<open>
  C20. The state of a criterion keeps to its kind: only a non-objective is ever violated. Any sequence of verdicts
  keeps a well typed contract well typed and changes nothing else than states: texts, kinds, verifiers and
  identifiers of the criteria stay, in the same order, and so does every other field of the contract. Where no
  criterion has an empty identifier (the reader gives such a one a fresh identifier), what is written of the
  contract after these verdicts is read back unchanged.
\<close>

theorem contract_stays_typed:
  assumes "well_typed_contrat c"
  shows "well_typed_contrat (record_verdicts ivs c) \<and>
    map promise (co_criteria (record_verdicts ivs c)) = map promise (co_criteria c) \<and>
    record_verdicts ivs c = c\<lparr>co_criteria := co_criteria (record_verdicts ivs c)\<rparr> \<and>
    (named_criteria c \<longrightarrow>
       contrat_from_dict uuid (contrat_to_dict (record_verdicts ivs c)) = Inr (record_verdicts ivs c))"
proof -
  have t: "well_typed_contrat (record_verdicts ivs c) \<and>
     map promise (co_criteria (record_verdicts ivs c)) = map promise (co_criteria c) \<and>
     record_verdicts ivs c = c\<lparr>co_criteria := co_criteria (record_verdicts ivs c)\<rparr>"
    unfolding record_verdicts_def
    by (rule fold_invariant[where P = "\<lambda>d. well_typed_contrat d \<and> map promise (co_criteria d) = map promise (co_criteria c) \<and>
          d = c\<lparr>co_criteria := co_criteria d\<rparr>"])
      (use assms(1) record_verdict_typed other_fields_kept in auto)
  then have "set (map (snd \<circ> snd \<circ> snd) (map promise (co_criteria (record_verdicts ivs c)))) =
      set (map (snd \<circ> snd \<circ> snd) (map promise (co_criteria c)))" by simp
  then have "cr_id ` set (co_criteria (record_verdicts ivs c)) = cr_id ` set (co_criteria c)"
    by (simp add: comp_def promise_def image_image)
  then have "named_criteria c \<longrightarrow> named_criteria (record_verdicts ivs c)" unfolding named_criteria_def by (metis image_iff)
  then show ?thesis using t contrat_roundtrip by blast
qed

theorem contract_stays_typed_witness:
  "well_typed_contrat (record_verdicts [(''b'', Verdict_REUSSI)] sample_contrat)"
  using contract_stays_typed[of sample_contrat "[(''b'', Verdict_REUSSI)]" "\<lambda>_. ''u''"]
  by (simp add: sample_contrat_def well_typed_contrat_def well_typed_critere_def named_criteria_def)

subsection \<open>The loop\<close>

definition numbers :: "issue \<Rightarrow> nat set" where
  "numbers i = set (map tr_number (is_tours i))"

text \<open>The contract of a relay is there, has criteria, and each one is as its kind asks.\<close>

definition contract_met :: "relais \<Rightarrow> bool" where
  "contract_met r \<longleftrightarrow> (\<exists>c. rl_contrat r = Some c \<and> co_criteria c \<noteq> [] \<and>
     (\<forall>k \<in> set (co_criteria c). if cr_genre k = Genre_NON_OBJECTIF then cr_etat k \<noteq> Etat_VIOLE else cr_etat k = Etat_ATTEINT))"

text \<open>The end that the last recorded round calls for.\<close>

definition end_called_for :: "issue \<Rightarrow> arret" where
  "end_called_for i = (let t = last (is_tours i) in
     if tr_verdict t = Some Verdict_REUSSI \<and> contract_met (is_relais i) then Arret_CONTRAT_TENU
     else if tr_verdict t = Some Verdict_INDISPONIBLE then Arret_INVERIFIABLE
     else if tr_cause t \<in> {Some Cause_POLITIQUE, Some Cause_SECURITE, Some Cause_BUDGET} then Arret_CAUSE_NON_REPRENABLE
     else Arret_BUDGET)"

text \<open>
  What the last recorded round repeats of the callbacks: with a verdict, the executor did not raise in that round
  and the verdict is the verifier's answer, with the contract as the verifier left it; without one, the executor
  raised, and the cause recorded is that of its exception, in the round and in the relay.
\<close>

definition last_round_told :: "boucle \<Rightarrow> issue \<Rightarrow> bool" where
  "last_round_told b i \<longleftrightarrow> (let t = last (is_tours i); n = tr_number t in \<exists>r0 r.
     case tr_verdict t of
       Some v \<Rightarrow> be_execute b n (phase_du_tour n) r0 = (None, r) \<and>
         (\<exists>vf r1. be_verify b n r = (Inr vf, r1) \<and> v = verdict_de vf \<and> rl_contrat (is_relais i) = rl_contrat r1)
     | None \<Rightarrow> (\<exists>exc. be_execute b n (phase_du_tour n) r0 = (Some exc, r) \<and>
         tr_cause t = Some (cl_cause (classer exc None None None)) \<and>
         rl_cause (is_relais i) = cause_value (cl_cause (classer exc None None None)) \<and>
         rl_contrat (is_relais i) = rl_contrat r))"

definition rightly_ended :: "boucle \<Rightarrow> issue \<Rightarrow> bool" where
  "rightly_ended b i \<longleftrightarrow> is_tours i \<noteq> [] \<and> is_arret i = end_called_for i \<and>
     (is_tenu i \<longleftrightarrow> tr_verdict (last (is_tours i)) = Some Verdict_REUSSI \<and> contract_met (is_relais i)) \<and>
     last_round_told b i"

text \<open>Callbacks that never lose the contract, and a verifier that never raises.\<close>

definition well_behaved :: "boucle \<Rightarrow> bool" where
  "well_behaved b \<longleftrightarrow>
     (\<forall>n ph r. rl_contrat r \<noteq> None \<longrightarrow> rl_contrat (snd (be_execute b n ph r)) \<noteq> None) \<and>
     (\<forall>n r. rl_contrat r \<noteq> None \<longrightarrow> rl_contrat (snd (be_verify b n r)) \<noteq> None \<and> (\<forall>e. fst (be_verify b n r) \<noteq> Inl e))"

definition open_issue :: "issue \<Rightarrow> bool" where
  "open_issue i \<longleftrightarrow> is_arret i = Arret_BUDGET \<and> \<not> is_tenu i \<and> rl_contrat (is_relais i) \<noteq> None"

definition round_done :: "nat \<Rightarrow> issue \<Rightarrow> issue \<Rightarrow> bool" where
  "round_done n i i1 \<longleftrightarrow> numbers i1 = insert n (numbers i) \<and>
     (\<forall>t \<in> set (is_tours i1). t \<in> set (is_tours i) \<or> tr_phase t \<in> {phase_du_tour n, Phase_VERIFICATION})"

lemma nourrir_contrat [simp]: "rl_contrat (nourrir_le_relais v r) = rl_contrat r"
  by (simp add: nourrir_le_relais_def ajouter_preuve_def Let_def)

lemma round_done_update:
  "round_done n i (i1\<lparr>is_relais := r\<rparr>) = round_done n i i1"
  "round_done n i (i1\<lparr>is_arret := a, is_tenu := b, is_reason := c\<rparr>) = round_done n i i1"
  "round_done n i (i1\<lparr>is_arret := a, is_reason := c\<rparr>) = round_done n i i1"
  by (simp_all add: round_done_def numbers_def)

lemma contract_met_tenu: "rl_contrat r = Some c \<Longrightarrow> contract_met r = contrat_tenu c"
  by (simp add: contract_met_def contrat_tenu_def list_all_iff critere_tenu_def)

lemma contract_met_nourrir [simp]: "contract_met (nourrir_le_relais v r) = contract_met r"
  by (simp add: contract_met_def)

lemma error_round:
  assumes "open_issue i" and "rl_contrat r \<noteq> None" and x: "be_execute b n (phase_du_tour n) (is_relais i) = (Some exc, r)"
    and "arreter_sur_l_erreur (i\<lparr>is_relais := r\<rparr>) n (phase_du_tour n) exc = (i1, stop)"
  shows "round_done n i i1 \<and> rightly_ended b i1 \<and> (if stop then is_arret i1 \<noteq> Arret_BUDGET else open_issue i1)"
proof -
  obtain c where c: "cl_cause (classer exc None None None) = c" by blast
  let ?i = "i\<lparr>is_tours := is_tours i @ [\<lparr>tr_number = n, tr_phase = phase_du_tour n, tr_verdict = None, tr_cause = Some c,
                 tr_detail = take 400 exc\<rparr>], is_relais := r\<lparr>rl_echec := take 400 exc, rl_cause := cause_value c\<rparr>\<rparr>"
  have e: "(i1, stop) = (if re_retry (remede_pour c) then (?i, False)
      else (?i\<lparr>is_arret := Arret_CAUSE_NON_REPRENABLE, is_reason := Reason_REMEDE c\<rparr>, True))"
    unfolding assms(4)[symmetric] arreter_sur_l_erreur_def Let_def c by simp
  have d: "round_done n i ?i" by (simp add: round_done_def numbers_def)
  have l: "last_round_told b ?i" "last_round_told b (?i\<lparr>is_arret := Arret_CAUSE_NON_REPRENABLE, is_reason := Reason_REMEDE c\<rparr>)"
    using x c by (auto simp: last_round_told_def Let_def)
  show ?thesis
  proof (cases "re_retry (remede_pour c)")
    case True
    then have "c \<notin> {Cause_POLITIQUE, Cause_SECURITE, Cause_BUDGET}" by (simp only: remede_retry not_False_eq_True)
    moreover have "open_issue ?i" using assms(1,2) by (simp add: open_issue_def)
    ultimately show ?thesis using e d True l(1) assms(1)
      by (simp add: rightly_ended_def end_called_for_def open_issue_def)
  next
    case False
    then have "c \<in> {Cause_POLITIQUE, Cause_SECURITE, Cause_BUDGET}" by (simp only: remede_retry not_not)
    then have "rightly_ended b (?i\<lparr>is_arret := Arret_CAUSE_NON_REPRENABLE, is_reason := Reason_REMEDE c\<rparr>)"
      using assms(1) l(2) by (auto simp: rightly_ended_def end_called_for_def open_issue_def)
    then show ?thesis using e d False by (simp add: round_done_update)
  qed
qed

lemma judged_round:
  assumes "open_issue i" and "rl_contrat r1 \<noteq> None"
  shows "round_done n i (judged n v r1 (executed n (phase_du_tour n) r i))" and
    "open_issue (judged n v r1 (executed n (phase_du_tour n) r i))"
    and "is_relais (judged n v r1 (executed n (phase_du_tour n) r i)) = r1"
    and "\<exists>ts t. is_tours (judged n v r1 (executed n (phase_du_tour n) r i)) = ts @ [t] \<and> tr_number t = n \<and>
           tr_verdict t = Some v \<and> tr_cause t = None"
  using assms by (auto simp: judged_def executed_def round_done_def numbers_def open_issue_def)

lemma un_tour_outcome:
  assumes "well_behaved b" and "open_issue i"
  shows "(\<exists>i1. un_tour b n i = Inr i1 \<and> open_issue i1 \<and> rightly_ended b i1 \<and> round_done n i i1) \<or>
    (\<exists>i1. un_tour b n i = Inl (Returned i1 [charge_of i1]) \<and> rightly_ended b i1 \<and> is_arret i1 \<noteq> Arret_BUDGET \<and>
       round_done n i i1)"
proof -
  obtain err r where ex: "be_execute b n (phase_du_tour n) (is_relais i) = (err, r)" by fastforce
  have r: "rl_contrat r \<noteq> None" using assms ex unfolding well_behaved_def open_issue_def by (metis snd_conv)
  show ?thesis
  proof (cases err)
    case (Some exc)
    obtain i1 stop where e: "arreter_sur_l_erreur (i\<lparr>is_relais := r\<rparr>) n (phase_du_tour n) exc = (i1, stop)" by fastforce
    show ?thesis using error_round[OF assms(2) r ex[unfolded Some] e] ex e Some
      by (simp add: un_tour_def clore_def split: if_splits)
  next
    case None
    obtain r1 vf where ve: "be_verify b n r = (Inr vf, r1)" "rl_contrat r1 \<noteq> None"
      using assms(1) r unfolding well_behaved_def by (metis prod.collapse sum.exhaust_sel sum.collapse(2))
    let ?i2 = "judged n (verdict_de vf) r1 (executed n (phase_du_tour n) r i)"
    note j = judged_round[OF assms(2) ve(2), of n "verdict_de vf" r]
    obtain ts t where t: "is_tours ?i2 = ts @ [t]" "tr_number t = n" "tr_verdict t = Some (verdict_de vf)" "tr_cause t = None"
      using j(4) by blast
    obtain c where c: "rl_contrat r1 = Some c" using ve(2) by auto
    have u: "un_tour b n i = (case (if verdict_de vf = Verdict_REUSSI then map_option contrat_tenu (rl_contrat r1) else Some False) of
                None \<Rightarrow> Inl (Escaped ContractGone)
              | Some True \<Rightarrow> Inl (clore (?i2\<lparr>is_arret := Arret_CONTRAT_TENU, is_tenu := True,
                  is_reason := Reason_RESUME (contrat_resume (the (rl_contrat r1)))\<rparr>))
              | Some False \<Rightarrow> (if verdict_de vf = Verdict_INDISPONIBLE
                  then Inl (clore (?i2\<lparr>is_arret := Arret_INVERIFIABLE, is_reason := Reason_INVERIFIABLE\<rparr>))
                  else Inr (?i2\<lparr>is_relais := nourrir_le_relais vf r1\<rparr>)))"
      using ex None ve(1) by (simp add: un_tour_def Let_def)
    have o: "open_issue (?i2\<lparr>is_relais := nourrir_le_relais vf r1\<rparr>)"
      using j(2) ve(2) by (simp add: open_issue_def)
    have l: "last_round_told b k" if "is_tours k = is_tours ?i2" "rl_contrat (is_relais k) = rl_contrat r1" for k
      using that t ex None ve(1) by (auto simp: last_round_told_def Let_def)
    consider "verdict_de vf = Verdict_REUSSI \<and> contrat_tenu c" | "verdict_de vf = Verdict_INDISPONIBLE"
      | "verdict_de vf \<noteq> Verdict_INDISPONIBLE" "\<not> (verdict_de vf = Verdict_REUSSI \<and> contrat_tenu c)" by blast
    then show ?thesis
    proof cases
      case 1
      then show ?thesis using j(1,3) t c
        by (intro disjI2) (simp add: u clore_def round_done_update rightly_ended_def end_called_for_def l
              contract_met_tenu[OF c])
    next
      case 2
      then show ?thesis using j(1-3) t
        by (intro disjI2) (simp add: u clore_def round_done_update rightly_ended_def end_called_for_def l open_issue_def)
    next
      case 3
      then have "un_tour b n i = Inr (?i2\<lparr>is_relais := nourrir_le_relais vf r1\<rparr>)" using c by (simp add: u)
      moreover have "rightly_ended b (?i2\<lparr>is_relais := nourrir_le_relais vf r1\<rparr>)"
        using o t 3 by (simp add: rightly_ended_def end_called_for_def l contract_met_tenu[OF c] open_issue_def)
      ultimately show ?thesis using j(1) o by (simp add: round_done_update)
    qed
  qed
qed

text \<open>What the whole loop has recorded when it ends.\<close>

definition loop_report :: "boucle \<Rightarrow> nat \<Rightarrow> issue \<Rightarrow> bool" where
  "loop_report b tours i \<longleftrightarrow> 1 \<le> tours_faits i \<and> tours_faits i \<le> tours \<and> numbers i = {1..tours_faits i} \<and>
     rightly_ended b i \<and> (is_arret i = Arret_BUDGET \<longrightarrow> tours_faits i = tours)"

lemma les_tours_outcome:
  assumes "well_behaved b" and "open_issue i" and "numbers i = {1..<n}" and "is_tours i \<noteq> [] \<longrightarrow> rightly_ended b i"
    and "1 \<le> n" and "n + left = Suc tours" and "1 \<le> tours"
  shows "\<exists>i1. les_tours b left n i = Returned i1 [charge_of i1] \<and> loop_report b tours i1"
  using assms(2-6)
proof (induction left arbitrary: n i)
  case 0
  then obtain c where c: "rl_contrat (is_relais i) = Some c" by (auto simp: open_issue_def)
  have "n = Suc tours" using 0(5) by simp
  then have n: "numbers i = {1..tours}" unfolding 0(2) by (simp only: atLeastLessThanSuc_atLeastAtMost)
  then have f: "tours_faits i = tours" by (simp add: tours_faits_def numbers_def)
  have "is_tours i \<noteq> []" using n assms(7) by (auto simp: numbers_def)
  then have e: "rightly_ended b i" using 0(3) by blast
  let ?j = "i\<lparr>is_reason := Reason_TOURS (be_tours b) (contrat_resume c)\<rparr>"
  have "tours_faits ?j = tours" "numbers ?j = {1..tours}" using n f by (simp_all add: tours_faits_def numbers_def)
  moreover have "is_relais ?j = is_relais i" "is_tours ?j = is_tours i" by simp_all
  then have "last_round_told b ?j = last_round_told b i" "end_called_for ?j = end_called_for i"
    unfolding last_round_told_def end_called_for_def by (simp_all only:)
  then have "rightly_ended b ?j" using e by (simp add: rightly_ended_def)
  ultimately have "loop_report b tours ?j" using 0(1) assms(7) by (simp add: loop_report_def)
  then show ?case using c by (auto simp: clore_def)
next
  case (Suc left)
  have n: "insert n (numbers i) = {1..n}" "{1..n} = {1..<Suc n}" using Suc.prems(2,4) by auto
  from un_tour_outcome[OF assms(1) Suc.prems(1), of n] show ?case
  proof (elim disjE exE conjE)
    fix i1 assume u: "un_tour b n i = Inr i1" "open_issue i1" "rightly_ended b i1" "round_done n i i1"
    then have "numbers i1 = {1..<Suc n}" using n by (simp add: round_done_def)
    from Suc.IH[OF u(2) this] Suc.prems(5) show ?thesis using u(1,3) by simp
  next
    fix i1 assume u: "un_tour b n i = Inl (Returned i1 [charge_of i1])" "rightly_ended b i1" "is_arret i1 \<noteq> Arret_BUDGET"
      "round_done n i i1"
    then have k: "numbers i1 = {1..n}" using n by (simp add: round_done_def)
    then have "tours_faits i1 = n" by (simp add: tours_faits_def numbers_def)
    then show ?thesis using u k Suc.prems(4,5) by (simp add: loop_report_def)
  qed
qed

text \<open>
  C21. The loop always stops, within its budget, and says why. With callbacks that keep the contract in the relay
  and a verifier that answers, it returns and publishes one event that repeats its issue. It has made between one
  and the allowed number of rounds, numbered from one without a gap. Its last record is the true outcome of its
  last round: the verdict the verifier gave, or the cause of the exception the executor raised. It announces that
  the contract is held exactly when that verdict is a success and at that moment the contract has criteria, every
  one attained (a non-objective: not violated); it stops as unverifiable exactly on an unavailable verdict, and on
  a cause exactly when the cause is a policy, a security refusal or a budget; in every other case it has used
  every round.
\<close>

theorem loop_stops_with_reason:
  assumes "well_behaved (new_boucle ex ve re tours)" and "rl_contrat r \<noteq> None"
  shows "\<exists>i. tourner (new_boucle ex ve re tours) r = Returned i [charge_of i] \<and>
    loop_report (new_boucle ex ve re tours) (nat (max 1 tours)) i"
proof -
  let ?b = "new_boucle ex ve re tours"
  let ?i = "\<lparr>is_arret = Arret_BUDGET, is_tenu = False, is_tours = [], is_relais = r,
       is_checkpoint = (case be_restore ?b r of None \<Rightarrow> '''' | Some s \<Rightarrow> s), is_reason = NoReason\<rparr>"
  have t: "be_tours ?b = nat (max 1 tours)" by (simp add: new_boucle_def)
  have o: "open_issue ?i" "numbers ?i = {1..<1}" using assms(2) by (simp_all add: open_issue_def numbers_def)
  have "1 \<le> nat (max 1 tours)" by linarith
  moreover have "is_tours ?i \<noteq> [] \<longrightarrow> rightly_ended ?b ?i" by simp
  ultimately obtain i where "les_tours ?b (nat (max 1 tours)) 1 ?i = Returned i [charge_of i]"
      "loop_report ?b (nat (max 1 tours)) i"
    using les_tours_outcome[OF assms(1) o, of "nat (max 1 tours)" "nat (max 1 tours)"] by auto
  moreover have "tourner ?b r = les_tours ?b (nat (max 1 tours)) 1 ?i" using assms(2) t by (auto simp: tourner_def)
  ultimately show ?thesis by metis
qed

definition sample_verify :: "nat \<Rightarrow> relais \<Rightarrow> (string + verification) \<times> relais" where
  "sample_verify n r = (Inr \<lparr>vf_verdict = (if n = 1 then RawVerdict Verdict_ECHOUE else RawText ''reussi''),
      vf_resume = Some ''1 of 2'', vf_raison = ''''\<rparr>,
    r\<lparr>rl_contrat := map_option (record_verdict (''a'', if n = 1 then Verdict_ECHOUE else Verdict_REUSSI)) (rl_contrat r)\<rparr>)"

theorem loop_stops_with_reason_witness:
  "\<exists>i. tourner (new_boucle (\<lambda>n ph r. (None, r)) sample_verify (\<lambda>_. None) 2) sample_relais = Returned i [charge_of i] \<and>
     loop_report (new_boucle (\<lambda>n ph r. (None, r)) sample_verify (\<lambda>_. None) 2) (nat (max 1 2)) i"
  by (rule loop_stops_with_reason) (auto simp: well_behaved_def new_boucle_def sample_verify_def sample_relais_def)

end
