(* ===== verification/TaskScheduling.thy ===== *)
theory TaskScheduling
  imports MissionExecutor Taxonomy "HOL-Library.Char_ord" "HOL-Library.List_Lexorder"
begin

text \<open>
  The parts of the execution layer that keep state on their own: the models of
  \<^verbatim>\<open>backend/execution/execution_models.py\<close>, the state machine of \<^verbatim>\<open>execution_state.py\<close>, the scheduler of
  \<^verbatim>\<open>task_scheduler.py\<close>, the validation of \<^verbatim>\<open>validation_engine.py\<close>, the agent coordinator of
  \<^verbatim>\<open>agent_coordinator.py\<close>, the feedback loop and the optimizer. A task is one mutable object in the source; here
  the scheduler's table holds it and an operation returns the table after it. Locks make an operation atomic.
\<close>

subsection \<open>Models\<close>

datatype exec_status = Ex_CREATED | Ex_PLANNING | Ex_READY | Ex_RUNNING | Ex_WAITING_APPROVAL | Ex_PAUSED
  | Ex_VALIDATING | Ex_COMPLETED | Ex_FAILED | Ex_CANCELLED

datatype task_status = Task_PENDING | Task_SCHEDULED | Task_RUNNING | Task_WAITING | Task_VALIDATING
  | Task_COMPLETED | Task_FAILED | Task_SKIPPED

datatype validation_outcome = Outcome_PASS | Outcome_FAIL | Outcome_RETRY | Outcome_NEEDS_REVIEW

datatype checkpoint_type = Check_AUTO | Check_PAUSE | Check_PRE_VALIDATION | Check_PRE_TOOL | Check_MANUAL

text \<open>\<open>Inl\<close> is the \<^verbatim>\<open>ValueError\<close> on a negative budget; zero and \<^verbatim>\<open>None\<close> ask for the default.\<close>

definition budget_par_defaut :: rat where
  "budget_par_defaut = 3600"

definition budget_de :: "rat option \<Rightarrow> rat + rat" where
  "budget_de brut = (case brut of None \<Rightarrow> Inr budget_par_defaut
     | Some v \<Rightarrow> (if v < 0 then Inl v else if v = 0 then Inr budget_par_defaut else Inr v))"

record exec_meta =
  xm_id :: string
  xm_mission :: string
  xm_goal :: string
  xm_max_duration :: "rat option"
  xm_max_retries :: int
  xm_tags :: "string list"

record task_exec =
  te_id :: string
  te_node :: string
  te_mission :: string
  te_title :: string
  te_type :: string
  te_preferred :: string
  te_status :: task_status
  te_agent :: string
  te_runtime :: string
  te_model :: string
  te_provider :: string
  te_decision :: string
  te_skills :: "string list"
  te_tools :: "string list"
  te_tools_used :: "string list"
  te_result :: "pyval option"
  te_errors :: "string list"
  te_retries :: int
  te_started :: "time option"
  te_completed :: "time option"
  te_duration :: rat
  te_resources :: "(string, rat) dict"
  te_physical :: "(string, int) dict"
  te_outcome :: "validation_outcome option"

definition fresh_task :: "string \<Rightarrow> task_exec" where
  "fresh_task i = \<lparr>te_id = i, te_node = '''', te_mission = '''', te_title = '''', te_type = '''', te_preferred = '''',
     te_status = Task_PENDING, te_agent = '''', te_runtime = '''', te_model = '''', te_provider = '''', te_decision = '''',
     te_skills = [], te_tools = [], te_tools_used = [], te_result = None, te_errors = [], te_retries = 0,
     te_started = None, te_completed = None, te_duration = 0, te_resources = [], te_physical = [], te_outcome = None\<rparr>"

subsection \<open>State machine\<close>

fun exec_successors :: "exec_status \<Rightarrow> exec_status list" where
  "exec_successors Ex_CREATED = [Ex_PLANNING, Ex_CANCELLED]"
| "exec_successors Ex_PLANNING = [Ex_READY, Ex_FAILED, Ex_CANCELLED]"
| "exec_successors Ex_READY = [Ex_RUNNING, Ex_CANCELLED]"
| "exec_successors Ex_RUNNING = [Ex_PAUSED, Ex_WAITING_APPROVAL, Ex_VALIDATING, Ex_FAILED, Ex_COMPLETED, Ex_CANCELLED]"
| "exec_successors Ex_WAITING_APPROVAL = [Ex_RUNNING, Ex_FAILED, Ex_CANCELLED]"
| "exec_successors Ex_PAUSED = [Ex_RUNNING, Ex_CANCELLED]"
| "exec_successors Ex_VALIDATING = [Ex_COMPLETED, Ex_RUNNING, Ex_FAILED, Ex_CANCELLED]"
| "exec_successors Ex_COMPLETED = []"
| "exec_successors Ex_FAILED = [Ex_RUNNING, Ex_CANCELLED]"
| "exec_successors Ex_CANCELLED = []"

datatype move_reason = Why_PREPARE | Why_REGISTERED | Why_TASK string | Why_VALIDATE string | Why_REVIEW | Why_SOME_FAILED
  | Why_ALL_DONE | Why_PAUSE | Why_RESUME | Why_CANCEL

record exec_checkpoint =
  ck_id :: string
  ck_execution :: string
  ck_type :: checkpoint_type
  ck_state :: exec_status
  ck_metadata :: metadata
  ck_created :: time

record exec_machine =
  xs_state :: exec_status
  xs_history :: "(exec_status \<times> exec_status \<times> move_reason) list"
  xs_checkpoints :: "(string, exec_checkpoint) dict"
  xs_meta :: exec_meta
  xs_t0 :: time
  xs_offset :: rat

text \<open>
  \<open>lookup\<close> is the registry of missions, \<open>pc\<close> the reading of the monotonic counter, \<open>now\<close> the civil date.
\<close>

definition machine_mission :: "(string \<Rightarrow> mission option) \<Rightarrow> exec_meta \<Rightarrow> mission option" where
  "machine_mission lookup meta = (if xm_mission meta = [] then None else lookup (xm_mission meta))"

definition offset_missionnel :: "(string \<Rightarrow> mission option) \<Rightarrow> time \<Rightarrow> exec_meta \<Rightarrow> rat" where
  "offset_missionnel lookup now meta = (case machine_mission lookup meta of None \<Rightarrow> 0
     | Some m \<Rightarrow> (case ms_started m of None \<Rightarrow> 0 | Some depart \<Rightarrow> max 0 (now - depart)))"

definition new_machine :: "(string \<Rightarrow> mission option) \<Rightarrow> time \<Rightarrow> time \<Rightarrow> exec_meta \<Rightarrow> rat + exec_machine" where
  "new_machine lookup pc now meta = bind_sum (budget_de (xm_max_duration meta)) (\<lambda>_.
     Inr \<lparr>xs_state = Ex_CREATED, xs_history = [], xs_checkpoints = [], xs_meta = meta, xs_t0 = pc,
          xs_offset = offset_missionnel lookup now meta\<rparr>)"

definition machine_budget :: "(string \<Rightarrow> mission option) \<Rightarrow> exec_machine \<Rightarrow> rat + rat" where
  "machine_budget lookup x = (case machine_mission lookup (xs_meta x) of
     Some m \<Rightarrow> budget_de (Some (ms_max_duration m)) | None \<Rightarrow> budget_de (xm_max_duration (xs_meta x)))"

definition budget_consomme :: "time \<Rightarrow> exec_machine \<Rightarrow> rat" where
  "budget_consomme pc x = xs_offset x + (pc - xs_t0 x)"

definition budget_depasse :: "(string \<Rightarrow> mission option) \<Rightarrow> time \<Rightarrow> exec_machine \<Rightarrow> rat + bool" where
  "budget_depasse lookup pc x = bind_sum (machine_budget lookup x) (\<lambda>b. Inr (budget_consomme pc x \<ge> b))"

definition can_transition :: "exec_status \<Rightarrow> exec_machine \<Rightarrow> bool" where
  "can_transition t x \<longleftrightarrow> t \<in> set (exec_successors (xs_state x))"

text \<open>\<open>None\<close> is the \<^verbatim>\<open>ValueError\<close> of a move that the table does not have.\<close>

definition exec_transition :: "exec_status \<Rightarrow> move_reason \<Rightarrow> exec_machine \<Rightarrow> exec_machine option" where
  "exec_transition t why x =
     (if t = xs_state x \<or> can_transition t x
      then Some (x\<lparr>xs_state := t, xs_history := xs_history x @ [(xs_state x, t, why)]\<rparr>) else None)"

definition save_checkpoint :: "string \<Rightarrow> time \<Rightarrow> checkpoint_type \<Rightarrow> metadata \<Rightarrow> exec_machine \<Rightarrow> exec_machine" where
  "save_checkpoint i now ty md x = x\<lparr>xs_checkpoints := dict_set i
     \<lparr>ck_id = i, ck_execution = xm_id (xs_meta x), ck_type = ty, ck_state = xs_state x, ck_metadata = md, ck_created = now\<rparr>
     (xs_checkpoints x)\<rparr>"

text \<open>The latest checkpoint; among equal dates the one written last.\<close>

definition get_last_checkpoint :: "exec_machine \<Rightarrow> exec_checkpoint option" where
  "get_last_checkpoint x = (case rev (dict_values (xs_checkpoints x)) of [] \<Rightarrow> None
     | c # cs \<Rightarrow> Some (fold (\<lambda>d best. if ck_created d > ck_created best then d else best) cs c))"

definition exec_terminal :: "exec_status \<Rightarrow> bool" where
  "exec_terminal s \<longleftrightarrow> s \<in> {Ex_COMPLETED, Ex_FAILED, Ex_CANCELLED}"

definition exec_active :: "exec_status \<Rightarrow> bool" where
  "exec_active s \<longleftrightarrow> s \<in> {Ex_RUNNING, Ex_VALIDATING}"

subsection \<open>Scheduler\<close>

record scheduler =
  sd_tasks :: "(string, task_exec) dict"
  sd_deps :: "(string, string list) dict"

definition max_retained_tasks :: nat where
  "max_retained_tasks = 512"

definition evict_rescue_limit :: nat where
  "evict_rescue_limit = 16"

definition task_ended :: "task_status \<Rightarrow> bool" where
  "task_ended s \<longleftrightarrow> s \<in> {Task_COMPLETED, Task_SKIPPED, Task_FAILED}"

text \<open>\<^verbatim>\<open>d[k] = v; d.move_to_end(k)\<close>.\<close>

definition set_last :: "'k \<Rightarrow> 'v \<Rightarrow> ('k, 'v) dict \<Rightarrow> ('k, 'v) dict" where
  "set_last k v d = filter (\<lambda>p. fst p \<noteq> k) d @ [(k, v)]"

text \<open>
  The loop of the eviction: the oldest entry is taken out; a task that has not ended goes back to the end while
  the rescues last, any other one is dropped with its dependencies.
\<close>

function evict_loop :: "nat \<Rightarrow> nat \<Rightarrow> scheduler \<Rightarrow> scheduler" where
  "evict_loop overflow rescued s = (case sd_tasks s of [] \<Rightarrow> s
     | (tid, t) # rest \<Rightarrow> (if overflow = 0 then s
         else if \<not> task_ended (te_status t) \<and> rescued < evict_rescue_limit
         then evict_loop overflow (Suc rescued) (s\<lparr>sd_tasks := rest @ [(tid, t)]\<rparr>)
         else evict_loop (overflow - 1) rescued (s\<lparr>sd_tasks := rest, sd_deps := dict_del tid (sd_deps s)\<rparr>)))"
  by pat_completeness auto
termination
  by (relation "measures [\<lambda>(overflow, rescued, s). overflow, \<lambda>(overflow, rescued, s). evict_rescue_limit - rescued]") auto

definition evict_oldest :: "scheduler \<Rightarrow> scheduler" where
  "evict_oldest s = (if length (sd_tasks s) \<le> max_retained_tasks then s
     else evict_loop (length (sd_tasks s) - max_retained_tasks) 0 s)"

definition register_task :: "task_exec \<Rightarrow> string list \<Rightarrow> scheduler \<Rightarrow> scheduler" where
  "register_task t deps s =
     evict_oldest (s\<lparr>sd_tasks := set_last (te_id t) t (sd_tasks s), sd_deps := dict_set (te_id t) deps (sd_deps s)\<rparr>)"

definition sched_task :: "string \<Rightarrow> scheduler \<Rightarrow> task_exec option" where
  "sched_task i s = dict_get (sd_tasks s) i"

text \<open>A change of a task that the scheduler still holds; an evicted one is out of reach.\<close>

definition change_task :: "string \<Rightarrow> (task_exec \<Rightarrow> task_exec) \<Rightarrow> scheduler \<Rightarrow> scheduler" where
  "change_task i f s = (case sched_task i s of None \<Rightarrow> s | Some t \<Rightarrow> s\<lparr>sd_tasks := dict_set i (f t) (sd_tasks s)\<rparr>)"

definition sched_update :: "string \<Rightarrow> task_status \<Rightarrow> pyval option \<Rightarrow> scheduler \<Rightarrow> scheduler" where
  "sched_update i st result s = change_task i (\<lambda>t. t\<lparr>te_status := st,
     te_result := (case result of None \<Rightarrow> te_result t | Some r \<Rightarrow> Some r)\<rparr>) s"

definition dep_satisfied :: "scheduler \<Rightarrow> string \<Rightarrow> bool" where
  "dep_satisfied s d = (case sched_task d s of None \<Rightarrow> False
     | Some t \<Rightarrow> te_status t \<in> {Task_COMPLETED, Task_SKIPPED})"

definition deps_of :: "scheduler \<Rightarrow> string \<Rightarrow> string list" where
  "deps_of s i = dict_get_default (sd_deps s) i []"

text \<open>\<^verbatim>\<open>prio_map.get(ExecutionPriority.NORMAL, 2)\<close>: the task is not looked at.\<close>

definition priority_value :: "task_exec \<Rightarrow> int" where
  "priority_value t = 2"

text \<open>\<^verbatim>\<open>ready[:n]\<close>; a negative bound counts from the end.\<close>

definition py_prefix :: "int \<Rightarrow> 'a list \<Rightarrow> 'a list" where
  "py_prefix n xs = (if n \<ge> 0 then take (nat n) xs else take (length xs - nat (- n)) xs)"

definition scheduler_ready :: "int option \<Rightarrow> scheduler \<Rightarrow> string list" where
  "scheduler_ready max_count s =
     (let ready = sort_key (\<lambda>(i, p). - p) (map (\<lambda>(i, t). (i, priority_value t))
            (filter (\<lambda>(i, t). te_status t = Task_PENDING \<and> list_all (dep_satisfied s) (deps_of s i)) (sd_tasks s)))
      in map fst (case max_count of None \<Rightarrow> ready | Some n \<Rightarrow> py_prefix n ready))"

definition scheduler_blocked :: "scheduler \<Rightarrow> string list" where
  "scheduler_blocked s = map fst (filter (\<lambda>(i, deps). (case sched_task i s of None \<Rightarrow> False
      | Some t \<Rightarrow> te_status t = Task_PENDING) \<and> deps \<noteq> [] \<and> \<not> list_all (dep_satisfied s) deps) (sd_deps s))"

record schedule_plan =
  sp_waves :: "string list list"
  sp_blocked :: "string list"
  sp_total :: nat
  sp_ready :: nat

text \<open>
  The waves: from the identifiers left, in sorted order, those whose dependencies have been planned and whose task
  is pending. A set is the list of its elements; the blocked ones come in sorted order, the source gives them in none.
\<close>

definition next_wave :: "scheduler \<Rightarrow> string list \<Rightarrow> string list \<Rightarrow> string list" where
  "next_wave s remaining done' =
     filter (\<lambda>i. set (deps_of s i) \<subseteq> set done' \<and>
        (case sched_task i s of None \<Rightarrow> False | Some t \<Rightarrow> te_status t = Task_PENDING)) remaining"

function plan_loop :: "scheduler \<Rightarrow> string list \<Rightarrow> string list \<Rightarrow> string list list \<Rightarrow> string list list \<times> string list" where
  "plan_loop s remaining done' waves =
     (if remaining = [] then (waves, [])
      else let w = next_wave s remaining done' in
        if w = [] then (waves, remaining)
        else plan_loop s (filter (\<lambda>i. i \<notin> set w) remaining) (done' @ w) (waves @ [w]))"
  by pat_completeness auto
termination
proof (relation "measure (\<lambda>(s, remaining, done', waves). length remaining)", goal_cases)
  case (2 s remaining done' waves w)
  then have w: "hd w \<in> set w" by simp
  then have "hd w \<in> set remaining" using 2 by (simp add: next_wave_def)
  then have "length (filter (\<lambda>i. i \<notin> set w) remaining) < length remaining" using w by (auto intro: length_filter_less)
  then show ?case by simp
qed simp

definition build_plan :: "scheduler \<Rightarrow> schedule_plan" where
  "build_plan s = (let (waves, blocked) = plan_loop s (sort (dict_keys (sd_tasks s))) [] []
     in \<lparr>sp_waves = waves, sp_blocked = blocked, sp_total = length (sd_tasks s), sp_ready = sum_list (map length waves)\<rparr>)"

definition sched_count :: "(task_status \<Rightarrow> bool) \<Rightarrow> scheduler \<Rightarrow> nat" where
  "sched_count P s = length (filter (\<lambda>(i, t). P (te_status t)) (sd_tasks s))"

record sched_progress =
  sg_total :: nat
  sg_completed :: nat
  sg_failed :: nat
  sg_running :: nat
  sg_pending :: int

definition scheduler_progress :: "scheduler \<Rightarrow> sched_progress" where
  "scheduler_progress s =
     (let c = sched_count (\<lambda>st. st \<in> {Task_COMPLETED, Task_SKIPPED}) s; f = sched_count (\<lambda>st. st = Task_FAILED) s;
          r = sched_count (\<lambda>st. st = Task_RUNNING) s
      in \<lparr>sg_total = length (sd_tasks s), sg_completed = c, sg_failed = f, sg_running = r,
          sg_pending = int (length (sd_tasks s)) - int c - int f - int r\<rparr>)"

definition is_all_done :: "scheduler \<Rightarrow> bool" where
  "is_all_done s \<longleftrightarrow> list_all (\<lambda>(i, t). task_ended (te_status t)) (sd_tasks s)"

definition all_done :: "string list \<Rightarrow> scheduler \<Rightarrow> bool" where
  "all_done ids s \<longleftrightarrow> ids \<noteq> [] \<and>
     list_all (\<lambda>i. case sched_task i s of None \<Rightarrow> False | Some t \<Rightarrow> task_ended (te_status t)) ids"

subsection \<open>Validation\<close>

record validator =
  vl_criteria :: "(string, string list) dict"
  vl_results :: "(string, validation_outcome) dict"
  vl_history :: "(string \<times> validation_outcome \<times> string list \<times> bool) list"

definition max_retained_validations :: nat where
  "max_retained_validations = 2000"

text \<open>An ordered dictionary, or a bounded queue, cut to its newest entries.\<close>

definition newest :: "nat \<Rightarrow> 'a list \<Rightarrow> 'a list" where
  "newest n xs = drop (length xs - n) xs"

definition set_criteria :: "string \<Rightarrow> string list \<Rightarrow> validator \<Rightarrow> validator" where
  "set_criteria i cs v = v\<lparr>vl_criteria := newest max_retained_validations (set_last i cs (vl_criteria v))\<rparr>"

fun judge_criteria :: "task_exec \<Rightarrow> string list \<Rightarrow> validation_outcome option" where
  "judge_criteria t [] = None"
| "judge_criteria t (c # cs) =
     (if c = ''result_present'' \<and> te_result t = None then Some Outcome_FAIL
      else if c = ''no_errors'' \<and> te_errors t \<noteq> [] then Some Outcome_FAIL
      else if c = ''needs_human_review'' \<and> te_result t \<noteq> None then Some Outcome_NEEDS_REVIEW
      else judge_criteria t cs)"

definition evaluate_task :: "task_exec \<Rightarrow> string list \<Rightarrow> validation_outcome" where
  "evaluate_task t cs = (case judge_criteria t cs of Some o' \<Rightarrow> o'
     | None \<Rightarrow> (if te_result t \<noteq> None \<and> te_errors t = [] then Outcome_PASS
         else if te_result t \<noteq> None then Outcome_RETRY
         else if te_errors t = [] then Outcome_NEEDS_REVIEW
         else Outcome_FAIL))"

definition last_three :: "'a list \<Rightarrow> 'a list" where
  "last_three xs = newest 3 xs"

definition validate_task :: "task_exec \<Rightarrow> validator \<Rightarrow> validator \<times> validation_outcome" where
  "validate_task t v =
     (let o' = evaluate_task t (dict_get_default (vl_criteria v) (te_id t) [''result_present''])
      in (v\<lparr>vl_results := newest max_retained_validations (set_last (te_id t) o' (vl_results v)),
            vl_history := newest max_retained_validations
              (vl_history v @ [(te_id t, o', last_three (te_errors t), te_result t \<noteq> None)])\<rparr>, o'))"

end
