(* ===== verification/TaskRunning.thy ===== *)
theory TaskRunning
  imports TaskScheduling RunRegistry
begin

text \<open>
  The execution of a task: the agent coordinator of \<^verbatim>\<open>backend/execution/agent_coordinator.py\<close>, the feedback loop
  and the optimizer, and the executor of \<^verbatim>\<open>mission_executor.py\<close>. \<open>execute_task\<close> holds the lock twice, around the
  call to the runtime: \<open>begin_task\<close> and \<open>end_task\<close> are the two locked parts, between which other calls may
  happen. The registry of runs is the table of \<open>RunRegistry\<close>. The calls made to the agent registry and the
  trust engine, which swallow their errors, are logged in order.
\<close>

subsection \<open>Coordinator\<close>

record agent_entry =
  ag_caps :: "string list"
  ag_runtime :: string

record assignment =
  as_task :: string
  as_agent :: string
  as_runtime :: string
  as_skills :: "string list"
  as_tools :: "string list"
  as_confidence :: rat

record coordinator =
  cd_agents :: "(string, agent_entry) dict"
  cd_runtimes :: "string list"
  cd_skills :: "(string, string) dict"
  cd_tools :: "(string, string) dict"
  cd_loads :: "(string, int) dict"
  cd_assignments :: "(string, assignment) dict"

definition max_retained_assignments :: nat where
  "max_retained_assignments = 2000"

definition coord_register_agent :: "string \<Rightarrow> string list \<Rightarrow> string \<Rightarrow> coordinator \<Rightarrow> coordinator" where
  "coord_register_agent a caps rt c = c\<lparr>cd_agents := dict_set a \<lparr>ag_caps = caps, ag_runtime = rt\<rparr> (cd_agents c),
     cd_loads := (if dict_get (cd_loads c) a = None then dict_set a 0 (cd_loads c) else cd_loads c)\<rparr>"

text \<open>\<^verbatim>\<open>title.lower().split()\<close>, and the words of a title with the whole title.\<close>

fun split_words :: "string \<Rightarrow> string \<Rightarrow> string list" where
  "split_words cur [] = (if cur = [] then [] else [rev cur])"
| "split_words cur (c # cs) = (if white c then (if cur = [] then split_words [] cs else rev cur # split_words [] cs)
     else split_words (c # cur) cs)"

definition title_words :: "task_exec \<Rightarrow> string list" where
  "title_words t = split_words [] (map latin_lower (te_title t))"

definition title_keywords :: "task_exec \<Rightarrow> string list" where
  "title_keywords t = remdups (title_words t @ [map latin_lower (te_title t)])"

definition agent_score :: "coordinator \<Rightarrow> task_exec \<Rightarrow> string \<Rightarrow> agent_entry \<Rightarrow> rat" where
  "agent_score c t a e =
     of_nat (length (filter (\<lambda>k. k \<in> set (map (map latin_lower) (ag_caps e))) (title_keywords t)))
       / of_nat (max (length (title_keywords t)) 1) - of_int (dict_get_default (cd_loads c) a 0) / 10"

definition best_agent :: "coordinator \<Rightarrow> task_exec \<Rightarrow> string" where
  "best_agent c t = (let (best, _) = fold (\<lambda>(a, e) (best, score).
       if agent_score c t a e > score then (a, agent_score c t a e) else (best, score)) (cd_agents c) ('''', - 1)
     in if best = [] then ''default'' else best)"

text \<open>\<open>matcher\<close> is the capability matcher, if one is wired: the name of the agent it selects.\<close>

definition select_best_agent :: "(task_exec \<Rightarrow> string option) option \<Rightarrow> coordinator \<Rightarrow> task_exec \<Rightarrow> string" where
  "select_best_agent matcher c t = (case matcher of None \<Rightarrow> best_agent c t
     | Some f \<Rightarrow> (case f t of Some name \<Rightarrow> name | None \<Rightarrow> best_agent c t))"

definition coord_runtime :: "coordinator \<Rightarrow> string \<Rightarrow> string" where
  "coord_runtime c a = (let preferred = (case dict_get (cd_agents c) a of None \<Rightarrow> ''auto'' | Some e \<Rightarrow> ag_runtime e)
     in if preferred \<noteq> ''auto'' \<and> preferred \<in> set (cd_runtimes c) then preferred
        else case cd_runtimes c of [] \<Rightarrow> ''default'' | r # _ \<Rightarrow> r)"

text \<open>The first \<open>n\<close> entries whose text (identifier and description in lower case) holds a word of the title.\<close>

definition select_by_text :: "nat \<Rightarrow> (string, string) dict \<Rightarrow> task_exec \<Rightarrow> string list" where
  "select_by_text n d t = take n (map fst (filter (\<lambda>(i, text). \<exists>w \<in> set (title_words t). is_infix w (map latin_lower text)) d))"

definition coord_confidence :: "coordinator \<Rightarrow> string \<Rightarrow> string \<Rightarrow> rat" where
  "coord_confidence c a rt =
     max (1 / 10) (min 1 (7 / 10 + (if a \<noteq> [] \<and> a \<noteq> ''default'' then 1 / 10 else 0)
       + (if rt \<noteq> [] \<and> rt \<noteq> ''default'' then 1 / 10 else 0)
       - min (of_int (dict_get_default (cd_loads c) a 0) * 5 / 100) (3 / 10)))"

definition assign_task :: "(task_exec \<Rightarrow> string option) option \<Rightarrow> task_exec \<Rightarrow> coordinator \<Rightarrow> coordinator \<times> assignment" where
  "assign_task matcher t c =
     (let a = select_best_agent matcher c t; rt = coord_runtime c a;
          asg = \<lparr>as_task = te_id t, as_agent = a, as_runtime = rt, as_skills = select_by_text 5 (cd_skills c) t,
                 as_tools = select_by_text 3 (cd_tools c) t, as_confidence = coord_confidence c a rt\<rparr>
      in (c\<lparr>cd_assignments := newest max_retained_assignments (set_last (te_id t) asg (cd_assignments c)),
            cd_loads := (case dict_get (cd_loads c) a of None \<Rightarrow> cd_loads c | Some n \<Rightarrow> dict_set a (n + 1) (cd_loads c))\<rparr>,
          asg))"

definition coord_release :: "string \<Rightarrow> coordinator \<Rightarrow> coordinator" where
  "coord_release i c = (case dict_get (cd_assignments c) i of None \<Rightarrow> c
     | Some asg \<Rightarrow> (case dict_get (cd_loads c) (as_agent asg) of None \<Rightarrow> c
         | Some n \<Rightarrow> c\<lparr>cd_loads := dict_set (as_agent asg) (max 0 (n - 1)) (cd_loads c)\<rparr>))"

subsection \<open>Report, feedback and optimizer\<close>

record exec_report =
  xr_id :: string
  xr_mission :: string
  xr_state :: exec_status
  xr_total :: nat
  xr_completed :: nat
  xr_failed :: nat
  xr_duration :: rat
  xr_agents :: "string list"
  xr_runtimes :: "string list"
  xr_skills :: "string list"
  xr_tools :: "string list"
  xr_errors :: "string list"

datatype learning = Learn_SUCCESS string | Learn_FAILURE string "string list" | Learn_WARNING nat nat

definition extract_learnings :: "exec_report \<Rightarrow> learning list" where
  "extract_learnings r =
     (if xr_state r = Ex_COMPLETED then [Learn_SUCCESS (xr_mission r)]
      else if xr_state r = Ex_FAILED then [Learn_FAILURE (xr_mission r) (xr_errors r)] else []) @
     (if xr_failed r > 0 then [Learn_WARNING (xr_failed r) (xr_total r)] else [])"

record feedback =
  fb_reports :: "(string, exec_report) dict"
  fb_learnings :: "(string \<times> learning list) list"

definition analyze_report :: "exec_report \<Rightarrow> feedback \<Rightarrow> feedback" where
  "analyze_report r f = \<lparr>fb_reports = dict_set (xr_id r) r (fb_reports f),
     fb_learnings = fb_learnings f @ [(xr_id r, extract_learnings r)]\<rparr>"

text \<open>An observation of the optimizer: its figures and its texts.\<close>

record opt_observation =
  oo_id :: string
  oo_figures :: "(string, rat) dict"
  oo_texts :: "(string, string) dict"

definition slow_tasks :: "opt_observation list \<Rightarrow> string list" where
  "slow_tasks os = take 10 (map (\<lambda>o'. dict_get_default (oo_texts o') ''task_name'' ''unknown'')
     (filter (\<lambda>o'. dict_get_default (oo_figures o') ''duration_ratio'' 0 > 2) os))"

definition runtime_durations :: "opt_observation list \<Rightarrow> (string, rat list) dict" where
  "runtime_durations os = fold (\<lambda>o' d. let rt = dict_get_default (oo_texts o') ''runtime_id'' ''unknown'' in
     dict_set rt (dict_get_default d rt [] @ [dict_get_default (oo_figures o') ''duration_ms'' 0]) d) os []"

definition runtime_issues :: "opt_observation list \<Rightarrow> string list" where
  "runtime_issues os = map fst (filter (\<lambda>(rt, ds). length ds \<ge> 2 \<and> sum_list ds / of_nat (length ds) > 10000)
     (runtime_durations os))"

datatype recommendation = Rec_SCHEDULE "string list" | Rec_RUNTIME "string list"

definition generate_recommendations :: "opt_observation list \<Rightarrow> recommendation list" where
  "generate_recommendations os =
     (if slow_tasks os = [] then [] else [Rec_SCHEDULE (slow_tasks os)]) @
     (if runtime_issues os = [] then [] else [Rec_RUNTIME (runtime_issues os)])"

definition exec_state_text :: "exec_status \<Rightarrow> string" where
  "exec_state_text s = (case s of Ex_CREATED \<Rightarrow> ''created'' | Ex_PLANNING \<Rightarrow> ''planning'' | Ex_READY \<Rightarrow> ''ready''
     | Ex_RUNNING \<Rightarrow> ''running'' | Ex_WAITING_APPROVAL \<Rightarrow> ''waiting_approval'' | Ex_PAUSED \<Rightarrow> ''paused''
     | Ex_VALIDATING \<Rightarrow> ''validating'' | Ex_COMPLETED \<Rightarrow> ''completed'' | Ex_FAILED \<Rightarrow> ''failed''
     | Ex_CANCELLED \<Rightarrow> ''cancelled'')"

text \<open>What \<open>finalize\<close> records: the state and two counts.\<close>

definition recorded :: "exec_report \<Rightarrow> opt_observation" where
  "recorded r = \<lparr>oo_id = xr_id r,
     oo_figures = [(''total_tasks'', of_nat (xr_total r)), (''failed_tasks'', of_nat (xr_failed r))],
     oo_texts = [(''state'', exec_state_text (xr_state r))]\<rparr>"

subsection \<open>State of the executor\<close>

datatype fail_reason = Fail_RUNTIME string cause bool | Fail_MAX_RETRIES | Fail_VALIDATION

datatype exec_note = Note_STARTED string | Note_PLANNING string | Note_TASK_STARTED string | Note_TASK_COMPLETED string
  | Note_RETRY string string int cause remede | Note_TASK_FAILED string fail_reason | Note_WAITING_APPROVAL string
  | Note_EXEC_FAILED string | Note_EXEC_COMPLETED string | Note_BUDGET string string rat rat
  | Note_OPTIMIZED string nat

datatype agent_note = Agent_BUSY string string string | Trust_RECORDED string bool | Agent_METRICS string rat bool
  | Agent_FREED string

record exec_world =
  ew_sched :: scheduler
  ew_coord :: coordinator
  ew_valid :: validator
  ew_feedback :: feedback
  ew_optim :: "opt_observation list"
  ew_owned :: "(string, string list) dict"
  ew_runs :: "(string, string) dict"
  ew_notes :: "exec_note list"
  ew_sent :: "exec_note list"
  ew_agents :: "agent_note list"
  ew_registry :: "run_table option"

definition max_retained_events :: nat where
  "max_retained_events = 2000"

definition new_world :: "run_table option \<Rightarrow> coordinator \<Rightarrow> exec_world" where
  "new_world reg c = \<lparr>ew_sched = \<lparr>sd_tasks = [], sd_deps = []\<rparr>, ew_coord = c,
     ew_valid = \<lparr>vl_criteria = [], vl_results = [], vl_history = []\<rparr>, ew_feedback = \<lparr>fb_reports = [], fb_learnings = []\<rparr>,
     ew_optim = [], ew_owned = [], ew_runs = [], ew_notes = [], ew_sent = [], ew_agents = [], ew_registry = reg\<rparr>"

text \<open>
  The environment: the registry of missions, the capability matcher, whether a trust engine and an agent registry
  are wired, the fingerprint of the process, the rest of the text of a budget refusal, and the rendering of the
  facts of a routing decision.
\<close>

record exec_env =
  ee_lookup :: "string \<Rightarrow> mission option"
  ee_matcher :: "(task_exec \<Rightarrow> string option) option"
  ee_trust :: bool
  ee_agents :: bool
  ee_process :: string
  ee_budget_text :: "rat \<Rightarrow> rat \<Rightarrow> string \<Rightarrow> string"
  ee_json :: "(string, string) dict \<Rightarrow> string"

definition exec_publish :: "bool \<Rightarrow> exec_note \<Rightarrow> exec_world \<Rightarrow> exec_world" where
  "exec_publish dispatch n w = w\<lparr>ew_notes := newest max_retained_events (ew_notes w @ [n]),
     ew_sent := (if dispatch then ew_sent w @ [n] else ew_sent w)\<rparr>"

definition agent_started :: "exec_env \<Rightarrow> string \<Rightarrow> string \<Rightarrow> string \<Rightarrow> exec_world \<Rightarrow> exec_world" where
  "agent_started ee name mission task w =
     (if \<not> ee_agents ee \<or> name = [] then w else w\<lparr>ew_agents := ew_agents w @ [Agent_BUSY name mission task]\<rparr>)"

definition agent_released :: "exec_env \<Rightarrow> string \<Rightarrow> rat \<Rightarrow> task_status \<Rightarrow> exec_world \<Rightarrow> exec_world" where
  "agent_released ee name duration st w =
     (let ended = (st \<in> {Task_COMPLETED, Task_FAILED}); ok = (st = Task_COMPLETED)
      in if name = [] then w
         else w\<lparr>ew_agents := ew_agents w @ (if ended \<and> ee_trust ee then [Trust_RECORDED name ok] else []) @
           (if \<not> ee_agents ee then [] else (if ended then [Agent_METRICS name duration ok] else []) @
              (if st \<noteq> Task_PENDING then [Agent_FREED name] else []))\<rparr>)"

text \<open>\<^verbatim>\<open>_unique\<close>: the non-empty values in the order of first sight.\<close>

definition unique_texts :: "string list \<Rightarrow> string list" where
  "unique_texts xs = rev (remdups (rev (filter (\<lambda>x. x \<noteq> []) xs)))"

definition first_or_empty :: "string list \<Rightarrow> string" where
  "first_or_empty xs = (case xs of [] \<Rightarrow> '''' | x # _ \<Rightarrow> x)"

text \<open>The run of an execution: opened and started; a database error leaves the registry as it was.\<close>

definition open_run :: "exec_env \<Rightarrow> string \<Rightarrow> time \<Rightarrow> exec_meta \<Rightarrow> task_exec list \<Rightarrow> string \<Rightarrow> exec_world \<Rightarrow> exec_world" where
  "open_run ee uuid now meta ts contract w = (case ew_registry w of None \<Rightarrow> w
     | Some reg \<Rightarrow>
         (let r = (default_run uuid now)\<lparr>ru_mission := xm_mission meta, ru_objective := xm_goal meta,
                ru_runtime := first_or_empty (unique_texts (map te_runtime ts)),
                ru_agent := first_or_empty (unique_texts (map te_agent ts)), ru_contract := contract\<rparr>
          in case ouvrir (ee_process ee) r reg of
              Inl _ \<Rightarrow> w
            | Inr reg1 \<Rightarrow> w\<lparr>ew_registry := Some (demarrer now (ru_id r) reg1),
                ew_runs := newest max_retained_tasks (dict_set (xm_id meta) (ru_id r) (ew_runs w))\<rparr>))"

text \<open>
  \<^verbatim>\<open>prepare\<close>. Creating the machine raises on a negative budget; the two moves that follow are in the table.
\<close>

definition prepare_execution :: "exec_env \<Rightarrow> string \<Rightarrow> time \<Rightarrow> time \<Rightarrow> exec_meta \<Rightarrow> task_exec list
    \<Rightarrow> (string, string list) dict \<Rightarrow> string \<Rightarrow> exec_world \<Rightarrow> exec_world \<times> exec_machine option" where
  "prepare_execution ee uuid pc now meta ts deps contract w =
     (case new_machine (ee_lookup ee) pc now meta of Inl _ \<Rightarrow> (w, None)
      | Inr x0 \<Rightarrow> (case exec_transition Ex_PLANNING Why_PREPARE x0 of None \<Rightarrow> (w, None)
          | Some x1 \<Rightarrow>
            (let w1 = w\<lparr>ew_owned := newest max_retained_tasks (dict_set (xm_id meta) (map te_id ts) (ew_owned w)),
                   ew_sched := fold (\<lambda>t. register_task t (dict_get_default deps (te_id t) [])) ts (ew_sched w)\<rparr>;
                 w2 = exec_publish True (Note_PLANNING (xm_id meta)) (exec_publish True (Note_STARTED (xm_id meta))
                   (open_run ee uuid now meta ts contract w1))
             in (w2, exec_transition Ex_READY Why_REGISTERED x1))))"

definition change :: "string \<Rightarrow> (task_exec \<Rightarrow> task_exec) \<Rightarrow> exec_world \<Rightarrow> exec_world" where
  "change i f w = w\<lparr>ew_sched := change_task i f (ew_sched w)\<rparr>"

text \<open>
  \<^verbatim>\<open>_maybe_finalize_state\<close>: \<open>None\<close> beside the world is the \<^verbatim>\<open>ValueError\<close> of a move that is not in the table.
\<close>

definition own_tasks :: "exec_world \<Rightarrow> exec_machine \<Rightarrow> string list" where
  "own_tasks w x = dict_get_default (ew_owned w) (xm_id (xs_meta x)) []"

definition maybe_finalize :: "exec_machine \<Rightarrow> exec_world \<Rightarrow> exec_world \<times> exec_machine option" where
  "maybe_finalize x w =
     (if exec_terminal (xs_state x) \<or> \<not> all_done (own_tasks w x) (ew_sched w) then (w, Some x)
      else if \<exists>i \<in> set (own_tasks w x). (case sched_task i (ew_sched w) of None \<Rightarrow> False
          | Some t \<Rightarrow> te_status t = Task_FAILED)
      then (case exec_transition Ex_FAILED Why_SOME_FAILED x of None \<Rightarrow> (w, None)
         | Some x1 \<Rightarrow> (exec_publish True (Note_EXEC_FAILED (xm_id (xs_meta x))) w, Some x1))
      else (case exec_transition Ex_COMPLETED Why_ALL_DONE x of None \<Rightarrow> (w, None)
         | Some x1 \<Rightarrow> (exec_publish True (Note_EXEC_COMPLETED (xm_id (xs_meta x))) w, Some x1)))"

subsection \<open>Beginning of a task\<close>

record task_reply =
  rp_status :: "task_status option"
  rp_error :: string
  rp_runtime_available :: bool
  rp_over_budget :: bool

definition plain_reply :: "task_status \<Rightarrow> task_reply" where
  "plain_reply st = \<lparr>rp_status = Some st, rp_error = '''', rp_runtime_available = True, rp_over_budget = False\<rparr>"

text \<open>The task is unknown; it is refused; an exception escapes; or it is under way, as the task that was begun.\<close>

datatype begun = Begin_ENDED task_reply | Begin_RAISED | Begin_RUNS task_exec assignment

definition budget_motive :: "exec_env \<Rightarrow> rat \<Rightarrow> rat \<Rightarrow> string \<Rightarrow> string" where
  "budget_motive ee used budget i = ''budget de mission atteint : '' @ ee_budget_text ee used budget i"

definition refuse_for_budget :: "exec_env \<Rightarrow> time \<Rightarrow> rat \<Rightarrow> rat \<Rightarrow> exec_machine \<Rightarrow> string \<Rightarrow> exec_world \<Rightarrow> exec_world" where
  "refuse_for_budget ee now used budget x i w =
     exec_publish True (Note_BUDGET i (xm_mission (xs_meta x)) used budget)
       (change i (\<lambda>t. t\<lparr>te_status := Task_FAILED, te_errors := [budget_motive ee used budget i],
           te_completed := Some now\<rparr>) w)"

definition begun_task :: "time \<Rightarrow> assignment \<Rightarrow> task_exec \<Rightarrow> task_exec" where
  "begun_task now asg t = t\<lparr>te_errors := [], te_agent := as_agent asg, te_runtime := as_runtime asg,
     te_skills := as_skills asg, te_tools := as_tools asg, te_status := Task_RUNNING, te_started := Some now\<rparr>"

definition begin_task :: "exec_env \<Rightarrow> time \<Rightarrow> time \<Rightarrow> exec_machine \<Rightarrow> string \<Rightarrow> exec_world
    \<Rightarrow> exec_world \<times> exec_machine \<times> begun" where
  "begin_task ee pc now x i w = (case sched_task i (ew_sched w) of
     None \<Rightarrow> (w, x, Begin_ENDED \<lparr>rp_status = None, rp_error = '''', rp_runtime_available = True, rp_over_budget = False\<rparr>)
   | Some t \<Rightarrow> (case machine_budget (ee_lookup ee) x of Inl _ \<Rightarrow> (w, x, Begin_RAISED)
      | Inr budget \<Rightarrow>
        (if budget_consomme pc x \<ge> budget
         then (refuse_for_budget ee now (budget_consomme pc x) budget x i w, x,
           Begin_ENDED \<lparr>rp_status = Some Task_FAILED, rp_error = budget_motive ee (budget_consomme pc x) budget i,
             rp_runtime_available = True, rp_over_budget = True\<rparr>)
         else (case exec_transition Ex_RUNNING (Why_TASK i) x of None \<Rightarrow> (w, x, Begin_RAISED)
           | Some x1 \<Rightarrow>
             (let w1 = exec_publish True (Note_TASK_STARTED i) w;
                  (c, asg) = assign_task (ee_matcher ee) (t\<lparr>te_errors := []\<rparr>) (ew_coord w1);
                  t1 = begun_task now asg t
              in (agent_started ee (as_agent asg) (xm_mission (xs_meta x)) i
                    (change i (\<lambda>_. t1) (w1\<lparr>ew_coord := c\<rparr>)), x1, Begin_RUNS t1 asg))))))"

subsection \<open>End of a task\<close>

text \<open>What a runtime call gives: an outcome, an unavailable runtime, or another exception, which escapes.\<close>

record run_outcome =
  oc_result :: "pyval option"
  oc_duration :: rat
  oc_runtime :: string
  oc_model :: string
  oc_resources :: "(string, rat) dict"
  oc_physical :: "(string, int) dict"
  oc_provider :: string
  oc_wanted_runtime :: string
  oc_wanted_model :: string
  oc_tools :: "string list"

datatype run_answer = Answered run_outcome | Unavailable string | Crashed

definition decision_facts :: "run_outcome \<Rightarrow> (string, string) dict" where
  "decision_facts oc = filter (\<lambda>(k, v). v \<noteq> [])
     ([(''runtime_demande'', oc_wanted_runtime oc), (''runtime_servi'', oc_runtime oc), (''modele'', oc_model oc),
       (''fournisseur'', oc_provider oc)] @
      (if oc_wanted_runtime oc \<noteq> [] \<and> oc_runtime oc \<noteq> [] \<and> oc_wanted_runtime oc \<noteq> oc_runtime oc
       then [(''repli'', oc_wanted_runtime oc @ '' indisponible, servi par '' @ oc_runtime oc)] else []) @
      (if oc_wanted_model oc \<noteq> [] \<and> oc_model oc \<noteq> [] \<and> oc_wanted_model oc \<noteq> oc_model oc
       then [(''modele_demande'', oc_wanted_model oc),
         (''substitution'', oc_wanted_model oc @ '' choisi par le routeur, '' @ oc_model oc @ '' engag'' @ [e_acute])] else []))"

definition decision_en_json :: "exec_env \<Rightarrow> run_outcome \<Rightarrow> string" where
  "decision_en_json ee o' = (if decision_facts o' = [] then '''' else ee_json ee (decision_facts o'))"

text \<open>The object of the task: the one in the scheduler, or the one that was begun if it has been evicted since.\<close>

definition task_now :: "exec_world \<Rightarrow> task_exec \<Rightarrow> task_exec" where
  "task_now w t0 = (case sched_task (te_id t0) (ew_sched w) of None \<Rightarrow> t0 | Some t \<Rightarrow> t)"

definition since_start :: "time \<Rightarrow> task_exec \<Rightarrow> rat" where
  "since_start now t = (case te_started t of None \<Rightarrow> 0 | Some s \<Rightarrow> (now - s) * 1000)"

text \<open>The last steps of both branches: the scheduler, the agent, and the state of the execution.\<close>

definition settle_task :: "exec_env \<Rightarrow> exec_machine \<Rightarrow> task_exec \<Rightarrow> exec_world \<Rightarrow> exec_world \<times> exec_machine option" where
  "settle_task ee x t w =
     maybe_finalize x (agent_released ee (te_agent t) (te_duration t) (te_status t)
       ((change (te_id t) (\<lambda>_. t) w)\<lparr>ew_coord := coord_release (te_id t) (ew_coord w)\<rparr>))"

definition unavailable_task :: "time \<Rightarrow> exec_machine \<Rightarrow> string \<Rightarrow> task_exec \<Rightarrow> task_exec \<times> exec_note" where
  "unavailable_task now x exc t =
     (let c = cl_cause (classer exc None None None); re = remede_pour c;
          t1 = t\<lparr>te_errors := te_errors t @ [exc], te_completed := Some now, te_duration := since_start now t\<rparr>
      in if re_retry re \<and> te_retries t < xm_max_retries (xs_meta x)
         then (t1\<lparr>te_retries := te_retries t + 1, te_status := Task_PENDING\<rparr>,
               Note_RETRY (te_id t) exc (te_retries t + 1) c re)
         else (t1\<lparr>te_status := Task_FAILED\<rparr>, Note_TASK_FAILED (te_id t) (Fail_RUNTIME exc c (\<not> re_retry re))))"

definition answered_task :: "exec_env \<Rightarrow> time \<Rightarrow> run_outcome \<Rightarrow> task_exec \<Rightarrow> task_exec" where
  "answered_task ee now o' t = t\<lparr>te_result := oc_result o', te_duration := oc_duration o', te_runtime := oc_runtime o',
     te_resources := oc_resources o', te_physical := oc_physical o', te_completed := Some now, te_model := oc_model o',
     te_provider := oc_provider o', te_decision := decision_en_json ee o', te_tools_used := oc_tools o'\<rparr>"

text \<open>The status a verdict gives, and what is published with it (the flag is whether it is dispatched).\<close>

definition judged_task :: "exec_machine \<Rightarrow> validation_outcome \<Rightarrow> task_exec \<Rightarrow> task_exec \<times> (bool \<times> exec_note) list" where
  "judged_task x v t0 = (let t = t0\<lparr>te_outcome := Some v\<rparr> in case v of
     Outcome_PASS \<Rightarrow> (t\<lparr>te_status := Task_COMPLETED\<rparr>, [(False, Note_TASK_COMPLETED (te_id t))])
   | Outcome_RETRY \<Rightarrow> (if te_retries t < xm_max_retries (xs_meta x)
       then (t\<lparr>te_retries := te_retries t + 1, te_status := Task_PENDING,
               te_errors := te_errors t @ [''Retry after validation'']\<rparr>, [])
       else (t\<lparr>te_status := Task_FAILED\<rparr>, [(True, Note_TASK_FAILED (te_id t) Fail_MAX_RETRIES)]))
   | Outcome_FAIL \<Rightarrow> (t\<lparr>te_status := Task_FAILED\<rparr>, [(True, Note_TASK_FAILED (te_id t) Fail_VALIDATION)])
   | Outcome_NEEDS_REVIEW \<Rightarrow> (t, [(True, Note_WAITING_APPROVAL (te_id t))]))"

definition publish_all :: "(bool \<times> exec_note) list \<Rightarrow> exec_world \<Rightarrow> exec_world" where
  "publish_all ns w = fold (\<lambda>(d, n). exec_publish d n) ns w"

text \<open>
  The second locked part. \<open>None\<close> is an exception that escapes, after the changes already made; the machine is
  returned in both cases.
\<close>

definition end_task :: "exec_env \<Rightarrow> time \<Rightarrow> task_exec \<Rightarrow> run_answer \<Rightarrow> exec_machine \<Rightarrow> exec_world
    \<Rightarrow> exec_world \<times> exec_machine \<times> task_reply option" where
  "end_task ee now t0 a x w = (let t = task_now w t0 in case a of
     Crashed \<Rightarrow> (w, x, None)
   | Unavailable exc \<Rightarrow>
       (let (t1, note) = unavailable_task now x exc t;
            (w1, fin) = settle_task ee x t1 (exec_publish True note w)
        in case fin of None \<Rightarrow> (w1, x, None)
           | Some x1 \<Rightarrow> (w1, x1, Some \<lparr>rp_status = Some (te_status t1), rp_error = exc, rp_runtime_available = False,
               rp_over_budget = False\<rparr>))
   | Answered o' \<Rightarrow>
       (let t1 = answered_task ee now o' t; w1 = change (te_id t) (\<lambda>_. t1) w
        in case exec_transition Ex_VALIDATING (Why_VALIDATE (te_id t)) x of None \<Rightarrow> (w1, x, None)
           | Some x1 \<Rightarrow>
             (let (vl, v) = validate_task t1 (ew_valid w1); (t2, notes) = judged_task x1 v t1;
                  w2 = (change (te_id t) (\<lambda>_. t2) w1)\<lparr>ew_valid := vl\<rparr>
              in case (if v = Outcome_NEEDS_REVIEW then exec_transition Ex_WAITING_APPROVAL Why_REVIEW x1 else Some x1) of
                  None \<Rightarrow> (w2, x1, None)
                | Some x2 \<Rightarrow>
                  (let (w3, fin) = settle_task ee x2 t2 (publish_all notes w2)
                   in case fin of None \<Rightarrow> (w3, x2, None) | Some x3 \<Rightarrow> (w3, x3, Some (plain_reply (te_status t2)))))))"

subsection \<open>Pause, resume, cancel\<close>

definition pause_machine :: "exec_machine \<Rightarrow> exec_machine \<times> bool" where
  "pause_machine x = (if xs_state x = Ex_RUNNING then (case exec_transition Ex_PAUSED Why_PAUSE x of
       None \<Rightarrow> (x, False) | Some x1 \<Rightarrow> (x1, True)) else (x, False))"

definition resume_machine :: "exec_machine \<Rightarrow> exec_machine \<times> bool" where
  "resume_machine x = (if xs_state x = Ex_PAUSED then (case exec_transition Ex_RUNNING Why_RESUME x of
       None \<Rightarrow> (x, False) | Some x1 \<Rightarrow> (x1, True)) else (x, False))"

definition cancel_machine :: "exec_machine \<Rightarrow> exec_machine \<times> bool" where
  "cancel_machine x = (if \<not> exec_terminal (xs_state x) then (case exec_transition Ex_CANCELLED Why_CANCEL x of
       None \<Rightarrow> (x, False) | Some x1 \<Rightarrow> (x1, True)) else (x, False))"

subsection \<open>Final report\<close>

definition held_tasks :: "exec_world \<Rightarrow> exec_machine \<Rightarrow> task_exec list" where
  "held_tasks w x = concat (map (\<lambda>i. case sched_task i (ew_sched w) of None \<Rightarrow> [] | Some t \<Rightarrow> [t]) (own_tasks w x))"

definition report_of :: "exec_machine \<Rightarrow> task_exec list \<Rightarrow> exec_report" where
  "report_of x ts =
     (let agents = unique_texts (map te_agent ts)
      in \<lparr>xr_id = xm_id (xs_meta x), xr_mission = xm_mission (xs_meta x), xr_state = xs_state x, xr_total = length ts,
          xr_completed = length (filter (\<lambda>t. te_status t = Task_COMPLETED) ts),
          xr_failed = length (filter (\<lambda>t. te_status t = Task_FAILED) ts), xr_duration = sum_list (map te_duration ts),
          xr_agents = (if agents = [] then xm_tags (xs_meta x) else agents), xr_runtimes = unique_texts (map te_runtime ts),
          xr_skills = unique_texts (concat (map te_skills ts)), xr_tools = unique_texts (concat (map te_tools_used ts)),
          xr_errors = concat (map (\<lambda>t. if te_errors t = [] then [] else [last (te_errors t)]) ts)\<rparr>)"

text \<open>\<^verbatim>\<open>', '.join\<close> of the distinct non-blank values.\<close>

fun comma_joined :: "string list \<Rightarrow> string" where
  "comma_joined [] = ''''"
| "comma_joined [s] = s"
| "comma_joined (s # t # ss) = s @ '', '' @ comma_joined (t # ss)"

definition joindre :: "string list \<Rightarrow> string" where
  "joindre vs = comma_joined (unique_texts (map str_strip vs))"

definition whole :: "rat \<Rightarrow> int" where
  "whole r = (if r \<ge> 0 then \<lfloor>r\<rfloor> else \<lceil>r\<rceil>)"

definition tokens :: "string \<Rightarrow> task_exec list \<Rightarrow> int" where
  "tokens k ts = sum_list (map (\<lambda>t. whole (dict_get_default (te_resources t) k 0)) ts)"

definition closed_run :: "exec_report \<Rightarrow> task_exec list \<Rightarrow> statut \<times> bilan_run" where
  "closed_run r ts =
     (let st = (if xr_state r = Ex_COMPLETED then Statut_REUSSI else Statut_ECHOUE);
          reason = (if xr_errors r = [] then '''' else take 2000 (last (xr_errors r)));
          c = (if st \<noteq> Statut_REUSSI \<and> reason \<noteq> [] then cl_cause (classer reason None None None) else Cause_INCONNUE)
      in (st, \<lparr>br_cause = (if c = Cause_INCONNUE then None else Some c), br_reason = reason, br_cost = None,
               br_tokens_in = Some (tokens ''prompt_tokens'' ts), br_tokens_out = Some (tokens ''completion_tokens'' ts)\<rparr>))"

text \<open>The calls to the registry that close a run; a refused one is swallowed.\<close>

definition close_run :: "time \<Rightarrow> exec_report \<Rightarrow> task_exec list \<Rightarrow> exec_world \<Rightarrow> exec_world" where
  "close_run now r ts w = (case dict_get (ew_runs w) (xr_id r) of None \<Rightarrow> w
     | Some i \<Rightarrow> (case ew_registry w of None \<Rightarrow> w\<lparr>ew_runs := dict_del (xr_id r) (ew_runs w)\<rparr>
         | Some reg \<Rightarrow>
             (let facts = [(''runtime'', joindre (map te_runtime ts)), (''modele'', joindre (map te_model ts)),
                    (''fournisseur'', joindre (map te_provider ts)), (''decision'', joindre (map te_decision ts))];
                  reg1 = (case constater i facts reg of Inl _ \<Rightarrow> reg | Inr g \<Rightarrow> g);
                  reg2 = (case mesurer i (map (\<lambda>(k, v). (k, Some v)) (agreger (map te_physical ts))) reg1 of
                     Inl _ \<Rightarrow> reg1 | Inr g \<Rightarrow> g);
                  (st, b) = closed_run r ts
              in w\<lparr>ew_runs := dict_del (xr_id r) (ew_runs w), ew_registry := Some (terminer now i st b reg2)\<rparr>)))"

definition finalize_execution :: "time \<Rightarrow> exec_machine \<Rightarrow> exec_world \<Rightarrow> exec_world \<times> exec_report" where
  "finalize_execution now x w =
     (let ts = held_tasks w x; r = report_of x ts;
          w1 = close_run now r ts (w\<lparr>ew_feedback := analyze_report r (ew_feedback w), ew_optim := ew_optim w @ [recorded r]\<rparr>);
          recs = generate_recommendations (ew_optim w1)
      in ((if recs = [] then w1 else exec_publish True (Note_OPTIMIZED (xr_id r) (length recs)) w1), r))"

end
