(* ===== verification/NodeExecution.thy ===== *)
theory NodeExecution
  imports TaskRunning
begin

text \<open>
  The controller of \<^verbatim>\<open>backend/execution/execution_controller.py\<close> and the callable that runs a mission node,
  \<^verbatim>\<open>backend/mission/node_execution.py\<close>: it starts an execution of one task, executes it again while it is pending,
  and copies the result into the node. The answers of the runtime, the clocks (per attempt) and the identifiers
  drawn are fields of an environment.
\<close>

record node_env =
  ne_env :: exec_env
  ne_answer :: "nat \<Rightarrow> task_exec \<Rightarrow> assignment \<Rightarrow> run_answer"
  ne_pc :: "nat \<Rightarrow> time"
  ne_now :: "nat \<Rightarrow> time"
  ne_end :: time
  ne_run_id :: string
  ne_exec_id :: string
  ne_str :: "pyval \<Rightarrow> string"

subsection \<open>Controller\<close>

record controller =
  ct_world :: exec_world
  ct_machines :: "(string, exec_machine) dict"
  ct_reports :: "(string, exec_report) dict"

definition max_retained_executions :: nat where
  "max_retained_executions = 512"

text \<open>The machines kept after a start; the report of an execution that is dropped goes with it.\<close>

definition trim_executions :: "controller \<Rightarrow> controller" where
  "trim_executions c = (let dropped = map fst (take (length (ct_machines c) - max_retained_executions) (ct_machines c))
     in c\<lparr>ct_machines := newest max_retained_executions (ct_machines c),
          ct_reports := filter (\<lambda>p. fst p \<notin> set dropped) (ct_reports c)\<rparr>)"

text \<open>\<open>None\<close> beside the controller is an exception that escapes.\<close>

definition ctl_start :: "node_env \<Rightarrow> exec_meta \<Rightarrow> task_exec list \<Rightarrow> controller \<Rightarrow> controller \<times> exec_machine option" where
  "ctl_start ne meta ts c =
     (case prepare_execution (ne_env ne) (ne_run_id ne) (ne_pc ne 0) (ne_now ne 0) meta ts [] '''' (ct_world c) of
        (w, None) \<Rightarrow> (c\<lparr>ct_world := w\<rparr>, None)
      | (w, Some x) \<Rightarrow> (trim_executions (c\<lparr>ct_world := w, ct_machines := set_last (xm_id meta) x (ct_machines c)\<rparr>), Some x))"

definition run_attempt :: "node_env \<Rightarrow> nat \<Rightarrow> exec_machine \<Rightarrow> string \<Rightarrow> exec_world
    \<Rightarrow> exec_world \<times> exec_machine \<times> task_reply option" where
  "run_attempt ne k x i w =
     (case begin_task (ne_env ne) (ne_pc ne k) (ne_now ne k) x i w of
        (w1, x1, Begin_ENDED r) \<Rightarrow> (w1, x1, Some r)
      | (w1, x1, Begin_RAISED) \<Rightarrow> (w1, x1, None)
      | (w1, x1, Begin_RUNS t asg) \<Rightarrow> end_task (ne_env ne) (ne_now ne k) t (ne_answer ne k t asg) x1 w1)"

definition ctl_execute :: "node_env \<Rightarrow> nat \<Rightarrow> string \<Rightarrow> string \<Rightarrow> controller \<Rightarrow> controller \<times> task_reply option" where
  "ctl_execute ne k eid i c = (case dict_get (ct_machines c) eid of None \<Rightarrow> (c, None)
     | Some x \<Rightarrow> (case run_attempt ne k x i (ct_world c) of
         (w, x1, r) \<Rightarrow> (c\<lparr>ct_world := w, ct_machines := dict_set eid x1 (ct_machines c)\<rparr>, r)))"

definition ctl_move :: "(exec_machine \<Rightarrow> exec_machine \<times> bool) \<Rightarrow> string \<Rightarrow> controller \<Rightarrow> controller \<times> bool" where
  "ctl_move f eid c = (case dict_get (ct_machines c) eid of None \<Rightarrow> (c, False)
     | Some x \<Rightarrow> (case f x of (x1, ok) \<Rightarrow> (c\<lparr>ct_machines := dict_set eid x1 (ct_machines c)\<rparr>, ok)))"

definition ctl_finalize :: "time \<Rightarrow> string \<Rightarrow> controller \<Rightarrow> controller \<times> exec_report option" where
  "ctl_finalize now eid c = (case dict_get (ct_machines c) eid of None \<Rightarrow> (c, None)
     | Some x \<Rightarrow> (case finalize_execution now x (ct_world c) of
         (w, r) \<Rightarrow> (c\<lparr>ct_world := w, ct_reports := newest max_retained_executions (set_last eid r (ct_reports c))\<rparr>, Some r)))"

subsection \<open>The callable of a node\<close>

definition node_title :: "mission_node \<Rightarrow> string" where
  "node_title n = str_or_else (mn_title n) (str_or_else (mn_description n) (mn_id n))"

definition node_task :: "mission_node \<Rightarrow> task_exec" where
  "node_task n = (fresh_task (mn_id n @ ''-task''))\<lparr>te_node := mn_id n, te_mission := mn_mission n,
     te_title := node_title n, te_runtime := mn_runtime n, te_skills := mn_skills n, te_type := mn_type n,
     te_preferred := mn_agent n\<rparr>"

definition default_max_retries :: int where
  "default_max_retries = 3"

definition node_meta :: "node_env \<Rightarrow> mission_node \<Rightarrow> exec_meta" where
  "node_meta ne n = \<lparr>xm_id = ne_exec_id ne, xm_mission = str_or_else (mn_mission n) (mn_id n), xm_goal = node_title n,
     xm_max_duration = Some budget_par_defaut, xm_max_retries = default_max_retries, xm_tags = []\<rparr>"

text \<open>
  \<^verbatim>\<open>while task.status == PENDING\<close>. The loop reads the object of the task, which the scheduler also holds unless
  it has dropped it. The inner \<open>None\<close> is an exception; the outer one, no end.
\<close>

partial_function (option) node_loop :: "node_env \<Rightarrow> nat \<Rightarrow> string \<Rightarrow> task_exec \<Rightarrow> task_reply \<Rightarrow> controller
    \<Rightarrow> (controller \<times> task_exec \<times> task_reply option) option" where
  "node_loop ne k eid t0 r c =
     (let t = task_now (ct_world c) t0
      in if te_status t \<noteq> Task_PENDING then Some (c, t, Some r)
         else case ctl_execute ne k eid (te_id t0) c of
             (c1, None) \<Rightarrow> Some (c1, t, None)
           | (c1, Some r1) \<Rightarrow> node_loop ne (Suc k) eid t r1 c1)"

definition with_result :: "node_env \<Rightarrow> task_exec \<Rightarrow> task_reply \<Rightarrow> mission_node \<Rightarrow> mission_node" where
  "with_result ne t r n =
     (let n1 = n\<lparr>mn_actual := te_duration t, mn_completed := te_completed t,
            mn_runtime := (if te_runtime t = [] then mn_runtime n else te_runtime t)\<rparr>
      in if \<not> rp_runtime_available r then n1\<lparr>mn_summary := ''not executed: '' @ rp_error r\<rparr>
         else if te_errors t \<noteq> [] then n1\<lparr>mn_summary := ''failed: '' @ last (te_errors t)\<rparr>
         else case te_result t of None \<Rightarrow> n1 | Some v \<Rightarrow> n1\<lparr>mn_summary := take 500 (ne_str ne v)\<rparr>)"

text \<open>The whole callable: the answer is whether the node succeeded. \<open>None\<close> means that it does not return.\<close>

definition execute_mission_node :: "node_env \<Rightarrow> mission_node \<Rightarrow> controller \<Rightarrow> (controller \<times> mission_node \<times> bool) option" where
  "execute_mission_node ne n c =
     (case ctl_start ne (node_meta ne n) [node_task n] c of
        (c1, None) \<Rightarrow> Some (c1, n, False)
      | (c1, Some _) \<Rightarrow> (case ctl_execute ne 0 (ne_exec_id ne) (te_id (node_task n)) c1 of
          (c2, None) \<Rightarrow> Some (c2, n, False)
        | (c2, Some r) \<Rightarrow> (case node_loop ne 1 (ne_exec_id ne) (node_task n) r c2 of
            None \<Rightarrow> None
          | Some (c3, t, None) \<Rightarrow> Some (c3, n, False)
          | Some (c3, t, Some r1) \<Rightarrow>
              Some (fst (ctl_finalize (ne_end ne) (ne_exec_id ne) c3), with_result ne t r1 n,
                rp_runtime_available r1 \<and> te_status t = Task_COMPLETED))))"

end
