(* ===== verification/TaskRunning_Correct.thy ===== *)
theory TaskRunning_Correct
  imports TaskRunning StateMachine
begin

text \<open>
  Correctness of the execution layer: the scheduler keeps its bound and the newest task, an execution only moves
  along its table, and when the end of a task raises.
\<close>

subsection \<open>Projections\<close>

named_theorems world_simps "what the steps of the executor leave of the world"

lemma publish_simps [simp, world_simps]:
  "ew_sched (exec_publish d n w) = ew_sched w" "ew_coord (exec_publish d n w) = ew_coord w"
  "ew_valid (exec_publish d n w) = ew_valid w" "ew_owned (exec_publish d n w) = ew_owned w"
  "ew_runs (exec_publish d n w) = ew_runs w" "ew_registry (exec_publish d n w) = ew_registry w"
  "ew_optim (exec_publish d n w) = ew_optim w" "ew_agents (exec_publish d n w) = ew_agents w"
  by (simp_all add: exec_publish_def)

lemma started_simps [simp, world_simps]:
  "ew_sched (agent_started ee a m i w) = ew_sched w" "ew_coord (agent_started ee a m i w) = ew_coord w"
  "ew_valid (agent_started ee a m i w) = ew_valid w" "ew_owned (agent_started ee a m i w) = ew_owned w"
  "ew_runs (agent_started ee a m i w) = ew_runs w" "ew_registry (agent_started ee a m i w) = ew_registry w"
  "ew_optim (agent_started ee a m i w) = ew_optim w"
  by (simp_all add: agent_started_def)

lemma released_simps [simp, world_simps]:
  "ew_sched (agent_released ee a d st w) = ew_sched w" "ew_coord (agent_released ee a d st w) = ew_coord w"
  "ew_valid (agent_released ee a d st w) = ew_valid w" "ew_owned (agent_released ee a d st w) = ew_owned w"
  "ew_runs (agent_released ee a d st w) = ew_runs w" "ew_registry (agent_released ee a d st w) = ew_registry w"
  "ew_optim (agent_released ee a d st w) = ew_optim w"
  by (simp_all add: agent_released_def Let_def)

lemma change_simps [simp, world_simps]:
  "ew_sched (change i f w) = change_task i f (ew_sched w)" "ew_coord (change i f w) = ew_coord w"
  "ew_valid (change i f w) = ew_valid w" "ew_owned (change i f w) = ew_owned w"
  "ew_runs (change i f w) = ew_runs w" "ew_registry (change i f w) = ew_registry w" "ew_optim (change i f w) = ew_optim w"
  by (simp_all add: change_def)

lemma publish_all_simps [simp, world_simps]:
  "ew_sched (publish_all ns w) = ew_sched w" "ew_coord (publish_all ns w) = ew_coord w"
  "ew_valid (publish_all ns w) = ew_valid w" "ew_owned (publish_all ns w) = ew_owned w"
  "ew_runs (publish_all ns w) = ew_runs w" "ew_registry (publish_all ns w) = ew_registry w"
  by (induction ns arbitrary: w) (auto simp: publish_all_def split: prod.splits)

lemma sched_change [simp]:
  "sched_task j (change_task i f s) = (if j = i then map_option f (sched_task i s) else sched_task j s)"
  by (simp add: change_task_def sched_task_def split: option.splits)

lemma transition_Some:
  "exec_transition t why x = Some x1 \<longleftrightarrow> (t = xs_state x \<or> t \<in> set (exec_successors (xs_state x))) \<and>
     x1 = x\<lparr>xs_state := t, xs_history := xs_history x @ [(xs_state x, t, why)]\<rparr>"
  by (auto simp: exec_transition_def can_transition_def)

lemma transition_None:
  "exec_transition t why x = None \<longleftrightarrow> t \<noteq> xs_state x \<and> t \<notin> set (exec_successors (xs_state x))"
  by (auto simp: exec_transition_def can_transition_def)

subsection \<open>Bound of the scheduler\<close>

declare evict_loop.simps [simp del]

lemma evict_zero: "evict_loop 0 r s = s"
  by (subst evict_loop.simps) (simp split: list.splits)

lemma evict_empty: "sd_tasks s = [] \<Longrightarrow> evict_loop n r s = s"
  by (subst evict_loop.simps) simp

lemma evict_pass:
  "sd_tasks s = (i, t) # rest \<Longrightarrow> \<not> task_ended (te_status t) \<Longrightarrow> r < evict_rescue_limit \<Longrightarrow>
     evict_loop (Suc n) r s = evict_loop (Suc n) (Suc r) (s\<lparr>sd_tasks := rest @ [(i, t)]\<rparr>)"
  by (subst evict_loop.simps) simp

lemma evict_drop:
  "sd_tasks s = (i, t) # rest \<Longrightarrow> task_ended (te_status t) \<or> \<not> r < evict_rescue_limit \<Longrightarrow>
     evict_loop (Suc n) r s = evict_loop n r (s\<lparr>sd_tasks := rest, sd_deps := dict_del i (sd_deps s)\<rparr>)"
  by (subst evict_loop.simps) auto

lemma evict_loop_bound:
  "overflow \<le> length (sd_tasks s) \<Longrightarrow> length (sd_tasks (evict_loop overflow rescued s)) = length (sd_tasks s) - overflow"
proof (induction overflow rescued s rule: evict_loop.induct)
  case (1 overflow rescued s)
  show ?case
  proof (cases "overflow = 0 \<or> sd_tasks s = []")
    case True
    then show ?thesis using "1.prems" by (auto simp: evict_zero)
  next
    case False
    then obtain i t rest n where c: "sd_tasks s = (i, t) # rest" "overflow = Suc n"
      by (metis list.exhaust not0_implies_Suc prod.exhaust)
    show ?thesis
    proof (cases "\<not> task_ended (te_status t) \<and> rescued < evict_rescue_limit")
      case True
      then show ?thesis using "1.IH"(1)[OF c(1) refl _ True] "1.prems" c by (simp add: evict_pass)
    next
      case no: False
      then show ?thesis using "1.IH"(2)[OF c(1) refl _ no] "1.prems" c evict_drop[OF c(1), of rescued n] by simp
    qed
  qed
qed

lemma register_bound: "length (sd_tasks (register_task t deps s)) \<le> max_retained_tasks"
  by (simp add: register_task_def evict_oldest_def evict_loop_bound)

text \<open>One eviction leaves the newest entry where it is: at most sixteen tasks are passed over before one is dropped.\<close>

lemma lookup_middle: "k \<notin> fst ` set xs \<union> fst ` set ys \<Longrightarrow> map_of (xs @ (k, v) # ys) k = Some v"
  by (induction xs) auto

lemma evict_one_keeps:
  assumes "sd_tasks s = xs @ (k, v) # ys" and "length ys = rescued" and "evict_rescue_limit < length xs + rescued"
    and "rescued \<le> evict_rescue_limit" and "k \<notin> fst ` set xs \<union> fst ` set ys"
  shows "map_of (sd_tasks (evict_loop (Suc 0) rescued s)) k = Some v"
  using assms
proof (induction "evict_rescue_limit - rescued" arbitrary: rescued s xs ys)
  case 0
  then obtain i t xs' where xs: "xs = (i, t) # xs'" by (cases xs) auto
  have "evict_loop (Suc 0) rescued s = s\<lparr>sd_tasks := xs' @ (k, v) # ys, sd_deps := dict_del i (sd_deps s)\<rparr>"
    using evict_drop[of s i t "xs' @ (k, v) # ys" rescued 0] 0 xs by (simp add: evict_zero)
  then show ?case using 0(6) xs lookup_middle[of k xs' ys v] by simp
next
  case (Suc d)
  then obtain i t xs' where xs: "xs = (i, t) # xs'" by (cases xs) auto
  have tasks: "sd_tasks s = (i, t) # xs' @ (k, v) # ys" using Suc.prems(1) xs by simp
  show ?case
  proof (cases "task_ended (te_status t)")
    case True
    then have "evict_loop (Suc 0) rescued s = s\<lparr>sd_tasks := xs' @ (k, v) # ys, sd_deps := dict_del i (sd_deps s)\<rparr>"
      using evict_drop[OF tasks, of rescued 0] by (simp add: evict_zero)
    then show ?thesis using Suc.prems(5) xs lookup_middle[of k xs' ys v] by simp
  next
    case False
    let ?s = "s\<lparr>sd_tasks := xs' @ (k, v) # ys @ [(i, t)]\<rparr>"
    have e: "evict_loop (Suc 0) rescued s = evict_loop (Suc 0) (Suc rescued) ?s"
      using evict_pass[OF tasks False, of rescued 0] Suc.hyps(2) by simp
    have "map_of (sd_tasks (evict_loop (Suc 0) (Suc rescued) ?s)) k = Some v"
      by (rule Suc.hyps(1)[of "Suc rescued" ?s xs' "ys @ [(i, t)]"]) (use Suc.hyps(2) Suc.prems xs in auto)
    then show ?thesis by (simp only: e)
  qed
qed

lemma register_keeps:
  assumes "length (sd_tasks s) \<le> max_retained_tasks"
  shows "sched_task (te_id t) (register_task t deps s) = Some t"
proof -
  let ?xs = "filter (\<lambda>p. fst p \<noteq> te_id t) (sd_tasks s)"
  let ?s = "s\<lparr>sd_tasks := ?xs @ [(te_id t, t)], sd_deps := dict_set (te_id t) deps (sd_deps s)\<rparr>"
  have r: "register_task t deps s = evict_oldest ?s" by (simp add: register_task_def set_last_def)
  have fresh: "te_id t \<notin> fst ` set ?xs" by auto
  have len: "length ?xs \<le> max_retained_tasks" using assms length_filter_le order_trans by blast
  show ?thesis
  proof (cases "length ?xs = max_retained_tasks")
    case False
    then have "evict_oldest ?s = ?s" using len by (simp add: evict_oldest_def)
    then show ?thesis using fresh lookup_middle[of "te_id t" ?xs "[]" t] unfolding r sched_task_def by simp
  next
    case True
    then have "evict_oldest ?s = evict_loop (Suc 0) 0 ?s" by (simp add: evict_oldest_def)
    moreover have "map_of (sd_tasks (evict_loop (Suc 0) 0 ?s)) (te_id t) = Some t"
      by (rule evict_one_keeps[where xs = ?xs and ys = "[]"])
        (use True fresh in \<open>simp_all add: evict_rescue_limit_def max_retained_tasks_def\<close>)
    ultimately show ?thesis unfolding r sched_task_def by simp
  qed
qed

subsection \<open>Moves of an execution\<close>

definition exec_allowed :: "exec_status \<Rightarrow> exec_status \<Rightarrow> bool" where
  "exec_allowed s t \<longleftrightarrow> t \<in> set (exec_successors s)"

definition exec_closed :: "exec_status \<Rightarrow> bool" where
  "exec_closed s \<longleftrightarrow> s \<in> {Ex_COMPLETED, Ex_CANCELLED}"

text \<open>A history read from a state: each move starts where the one before ended, and repeats or follows the table.\<close>

fun legal_moves :: "exec_status \<Rightarrow> (exec_status \<times> exec_status \<times> move_reason) list \<Rightarrow> exec_status \<Rightarrow> bool" where
  "legal_moves s [] t = (s = t)"
| "legal_moves s ((a, b, why) # ms) t = (a = s \<and> (b = a \<or> exec_allowed a b) \<and> legal_moves b ms t)"

lemma legal_append: "legal_moves s (ms @ ns) u \<longleftrightarrow> (\<exists>t. legal_moves s ms t \<and> legal_moves t ns u)"
  by (induction s ms u rule: legal_moves.induct) auto

lemma legal_reach: "legal_moves s ms t \<Longrightarrow> (s, t) \<in> (table_steps exec_allowed)\<^sup>*"
proof (induction s ms t rule: legal_moves.induct)
  case (2 s a b why ms t)
  then have "(a, b) \<in> (table_steps exec_allowed)\<^sup>*" by (auto simp: table_steps_def)
  then show ?case using 2 by auto
qed simp

text \<open>The machine after some moves.\<close>

definition extends :: "exec_machine \<Rightarrow> exec_machine \<Rightarrow> bool" where
  "extends x y \<longleftrightarrow> xs_meta y = xs_meta x \<and> xs_t0 y = xs_t0 x \<and> xs_offset y = xs_offset x \<and>
     (\<exists>ms. xs_history y = xs_history x @ ms \<and> legal_moves (xs_state x) ms (xs_state y))"

lemma extends_refl [simp]: "extends x x"
  by (auto simp: extends_def intro!: exI[of _ "[]"])

lemma extends_trans: "extends x y \<Longrightarrow> extends y z \<Longrightarrow> extends x z"
  unfolding extends_def by (metis append.assoc legal_append)

lemma transition_extends: "exec_transition t why x = Some y \<Longrightarrow> extends x y"
  by (auto simp: transition_Some extends_def exec_allowed_def intro!: exI[of _ "[(xs_state x, t, why)]"])

lemma maybe_finalize_extends: "maybe_finalize x w = (w1, Some y) \<Longrightarrow> extends x y"
  by (auto simp: maybe_finalize_def split: if_splits option.splits dest: transition_extends)

lemma begin_extends: "begin_task ee pc now x i w = (w1, y, r) \<Longrightarrow> extends x y"
  by (auto simp: begin_task_def Let_def split: option.splits sum.splits if_splits prod.splits dest: transition_extends)

lemma settle_extends: "settle_task ee x t w = (w1, Some y) \<Longrightarrow> extends x y"
  unfolding settle_task_def by (rule maybe_finalize_extends)

lemma answered_extends:
  assumes "end_task ee now t0 (Answered oc) x w = (w1, y, r)"
  shows "extends x y"
  using assms
  by (auto simp: end_task_def Let_def split: option.splits if_splits prod.splits
      dest!: transition_extends settle_extends intro: extends_trans)

lemma end_extends: "end_task ee now t0 a x w = (w1, y, r) \<Longrightarrow> extends x y"
proof (cases a)
  case (Unavailable exc)
  assume "end_task ee now t0 a x w = (w1, y, r)"
  with Unavailable show ?thesis
    by (auto simp: end_task_def Let_def split: option.splits prod.splits dest: settle_extends)
next
  case Crashed
  assume "end_task ee now t0 a x w = (w1, y, r)"
  with Crashed show ?thesis by (simp add: end_task_def)
qed (simp add: answered_extends)

text \<open>The calls made on one execution, in any order; \<open>ExBegin\<close> and \<open>ExEnd\<close> of different tasks interleave.\<close>

datatype exec_call = ExBegin exec_env time time string | ExEnd exec_env time task_exec run_answer | ExPause | ExResume
  | ExCancel

fun exec_step :: "exec_call \<Rightarrow> exec_world \<times> exec_machine \<Rightarrow> exec_world \<times> exec_machine" where
  "exec_step (ExBegin ee pc now i) (w, x) = (case begin_task ee pc now x i w of (w1, x1, _) \<Rightarrow> (w1, x1))"
| "exec_step (ExEnd ee now t a) (w, x) = (case end_task ee now t a x w of (w1, x1, _) \<Rightarrow> (w1, x1))"
| "exec_step ExPause (w, x) = (w, fst (pause_machine x))"
| "exec_step ExResume (w, x) = (w, fst (resume_machine x))"
| "exec_step ExCancel (w, x) = (w, fst (cancel_machine x))"

lemma step_extends: "extends (snd wx) (snd (exec_step c wx))"
proof (cases c)
  case (ExBegin ee pc now i)
  then show ?thesis by (cases wx) (auto split: prod.splits dest: begin_extends)
next
  case (ExEnd ee now t a)
  then show ?thesis by (cases wx) (auto split: prod.splits dest: end_extends)
next
  case ExPause
  then show ?thesis by (cases wx) (auto simp: pause_machine_def split: option.splits dest: transition_extends)
next
  case ExResume
  then show ?thesis by (cases wx) (auto simp: resume_machine_def split: option.splits dest: transition_extends)
next
  case ExCancel
  then show ?thesis by (cases wx) (auto simp: cancel_machine_def split: option.splits dest: transition_extends)
qed

lemma steps_extend: "extends (snd wx) (snd (fold exec_step cs wx))"
proof (induction cs arbitrary: wx)
  case (Cons c cs)
  then show ?case using extends_trans[OF step_extends[of wx c] Cons.IH[of "exec_step c wx"]] by simp
qed simp

lemma extends_reach: "extends x y \<Longrightarrow> (xs_state x, xs_state y) \<in> (table_steps exec_allowed)\<^sup>*"
  by (auto simp: extends_def dest: legal_reach)

interpretation executions: machine_manager exec_allowed exec_closed exec_step
    "\<lambda>wx (_ :: unit). Some (xs_state (snd wx))" "\<lambda>_. True"
proof
  fix s t show "exec_closed s \<Longrightarrow> \<not> exec_allowed s t" by (auto simp: exec_closed_def exec_allowed_def)
next
  fix wx :: "exec_world \<times> exec_machine" and c s
  assume "Some (xs_state (snd wx)) = Some s"
  then show "(Some (xs_state (snd (exec_step c wx))) = None \<and> exec_closed s) \<or>
      (\<exists>t. Some (xs_state (snd (exec_step c wx))) = Some t \<and> (s, t) \<in> (table_steps exec_allowed)\<^sup>*)"
    using extends_reach[OF step_extends[of wx c]] by auto
qed simp

lemma new_machine_created:
  "new_machine lookup pc now meta = Inr x \<Longrightarrow> xs_history x = [] \<and> xs_state x = Ex_CREATED \<and> xs_meta x = meta"
  by (auto simp: new_machine_def bind_sum_def split: sum.splits)

lemma prepare_machine:
  assumes "prepare_execution ee uuid pc now meta ts deps contract w = (w0, Some x0)"
  shows "\<exists>x. new_machine (ee_lookup ee) pc now meta = Inr x \<and> extends x x0 \<and> xs_state x0 = Ex_READY"
proof -
  obtain x where x: "new_machine (ee_lookup ee) pc now meta = Inr x"
    using assms by (cases "new_machine (ee_lookup ee) pc now meta") (auto simp: prepare_execution_def)
  obtain x1 where x1: "exec_transition Ex_PLANNING Why_PREPARE x = Some x1"
    using assms x by (cases "exec_transition Ex_PLANNING Why_PREPARE x") (auto simp: prepare_execution_def)
  have "exec_transition Ex_READY Why_REGISTERED x1 = Some x0"
    using assms x x1 by (simp add: prepare_execution_def Let_def)
  then show ?thesis
    using x extends_trans[OF transition_extends[OF x1] transition_extends] by (auto simp: transition_Some)
qed

text \<open>
  C22. An execution only moves along its table. After an execution is prepared, whatever the calls and however the
  beginnings and ends of its tasks interleave with pauses, resumes and cancels, its history starts at CREATED, each
  entry starts where the previous one ended and either repeats the state or is a move of the table, and it ends in
  the current state; once completed or cancelled it stays so.
\<close>

theorem execution_history_legal:
  assumes "prepare_execution ee uuid pc now meta ts deps contract w = (w0, Some x0)"
  shows "legal_moves Ex_CREATED (xs_history (snd (fold exec_step cs (w0, x0)))) (xs_state (snd (fold exec_step cs (w0, x0)))) \<and>
    (xs_state (snd (fold exec_step cs (w0, x0))) \<in> {Ex_COMPLETED, Ex_CANCELLED} \<longrightarrow>
       xs_state (snd (fold exec_step (cs @ ds) (w0, x0))) = xs_state (snd (fold exec_step cs (w0, x0))))"
proof -
  let ?wx = "fold exec_step cs (w0, x0)"
  obtain x where x: "xs_history x = []" "xs_state x = Ex_CREATED" "extends x x0"
    using prepare_machine[OF assms] new_machine_created by blast
  have "extends x (snd ?wx)" using extends_trans[OF x(3)] steps_extend[of "(w0, x0)" cs] by simp
  then have "legal_moves Ex_CREATED (xs_history (snd ?wx)) (xs_state (snd ?wx))" using x by (auto simp: extends_def)
  moreover have "xs_state (snd (fold exec_step (cs @ ds) (w0, x0))) = xs_state (snd ?wx)"
    if "xs_state (snd ?wx) \<in> {Ex_COMPLETED, Ex_CANCELLED}"
    using executions.run_terminal[of ?wx "xs_state (snd ?wx)" ds] that by (simp add: exec_closed_def)
  ultimately show ?thesis by blast
qed

definition plain_env :: exec_env where
  "plain_env = \<lparr>ee_lookup = (\<lambda>_. None), ee_matcher = None, ee_trust = True, ee_agents = True, ee_process = ''1:1'',
     ee_budget_text = (\<lambda>_ _ i. i), ee_json = (\<lambda>_. ''{}'')\<rparr>"

definition plain_coordinator :: coordinator where
  "plain_coordinator = \<lparr>cd_agents = [(''coder'', \<lparr>ag_caps = [''code''], ag_runtime = ''auto''\<rparr>)], cd_runtimes = [''local''],
     cd_skills = [], cd_tools = [], cd_loads = [(''coder'', 0)], cd_assignments = []\<rparr>"

definition plain_meta :: exec_meta where
  "plain_meta = \<lparr>xm_id = ''e'', xm_mission = ''m'', xm_goal = ''code'', xm_max_duration = Some 60, xm_max_retries = 3, xm_tags = []\<rparr>"

theorem execution_history_legal_witness:
  "\<exists>w0 x0. prepare_execution plain_env ''r'' 0 0 plain_meta [fresh_task ''t''] [] '''' (new_world None plain_coordinator) = (w0, Some x0) \<and>
     legal_moves Ex_CREATED (xs_history (snd (fold exec_step [ExBegin plain_env 1 1 ''t'', ExPause] (w0, x0))))
       (xs_state (snd (fold exec_step [ExBegin plain_env 1 1 ''t'', ExPause] (w0, x0))))"
proof -
  obtain w0 x0 where p: "prepare_execution plain_env ''r'' 0 0 plain_meta [fresh_task ''t''] [] '''' (new_world None plain_coordinator) = (w0, Some x0)"
    by (simp add: prepare_execution_def new_machine_def budget_de_def plain_meta_def exec_transition_def can_transition_def bind_sum_def)
  then show ?thesis using execution_history_legal[OF p, of "[ExBegin plain_env 1 1 ''t'', ExPause]"] by blast
qed

subsection \<open>When the end of a task raises\<close>

definition criteria_of :: "exec_world \<Rightarrow> string \<Rightarrow> string list" where
  "criteria_of w i = dict_get_default (vl_criteria (ew_valid w)) i [''result_present'']"

lemma validate_outcome: "snd (validate_task t v) = evaluate_task t (dict_get_default (vl_criteria v) (te_id t) [''result_present''])"
  by (simp add: validate_task_def Let_def)

lemma maybe_finalize_VALIDATING:
  "xs_state x = Ex_VALIDATING \<Longrightarrow> snd (maybe_finalize x w) \<noteq> None \<and> ew_sched (fst (maybe_finalize x w)) = ew_sched w \<and>
     ew_coord (fst (maybe_finalize x w)) = ew_coord w"
  by (auto simp: maybe_finalize_def exec_transition_def can_transition_def)

lemma answered_id [simp]: "te_id (answered_task ee now oc t) = te_id t" "te_status (answered_task ee now oc t) = te_status t"
  "te_result (answered_task ee now oc t) = oc_result oc" "te_errors (answered_task ee now oc t) = te_errors t"
  "te_retries (answered_task ee now oc t) = te_retries t" "te_agent (answered_task ee now oc t) = te_agent t"
  by (simp_all add: answered_task_def)

lemma judged_id [simp]: "te_id (fst (judged_task x v t)) = te_id t"
  by (simp add: judged_task_def Let_def split: validation_outcome.splits)

lemma end_answered:
  fixes ee now oc x w t0
  defines "t \<equiv> task_now w t0"
  defines "t1 \<equiv> answered_task ee now oc t"
  defines "v \<equiv> evaluate_task t1 (criteria_of w (te_id t))"
  assumes "xs_state x \<in> {Ex_RUNNING, Ex_VALIDATING}" and "v \<noteq> Outcome_NEEDS_REVIEW"
  shows "\<exists>w1 x1. end_task ee now t0 (Answered oc) x w =
      (w1, x1, Some (plain_reply (te_status (fst (judged_task x v t1))))) \<and>
    ew_sched w1 = change_task (te_id t) (\<lambda>_. fst (judged_task x v t1)) (ew_sched w) \<and>
    ew_coord w1 = coord_release (te_id t) (ew_coord w)"
proof -
  obtain x1 where x1: "exec_transition Ex_VALIDATING (Why_VALIDATE (te_id t)) x = Some x1"
    using assms(4) by (auto simp: exec_transition_def can_transition_def)
  then have s1: "xs_state x1 = Ex_VALIDATING" "xs_meta x1 = xs_meta x" by (auto simp: transition_Some)
  have j: "judged_task x1 v t1 = judged_task x v t1" by (simp add: judged_task_def s1 Let_def)
  obtain vl where vl: "validate_task t1 (ew_valid w) = (vl, v)"
    using validate_outcome[of t1 "ew_valid w"] by (cases "validate_task t1 (ew_valid w)") (simp add: v_def t1_def criteria_of_def)
  obtain t2 ns where t2: "judged_task x v t1 = (t2, ns)" by fastforce
  then have id2: "te_id t2 = te_id t" using judged_id[of x v t1] by (simp add: t1_def)
  let ?w1 = "change (te_id t) (\<lambda>_. t1) w"
  let ?w2 = "(change (te_id t) (\<lambda>_. t2) ?w1)\<lparr>ew_valid := vl\<rparr>"
  let ?s = "settle_task ee x1 t2 (publish_all ns ?w2)"
  have fin: "snd ?s \<noteq> None" "ew_coord (fst ?s) = coord_release (te_id t) (ew_coord w)"
    "ew_sched (fst ?s) = change_task (te_id t) (\<lambda>_. t2) (change_task (te_id t) (\<lambda>_. t2) (change_task (te_id t) (\<lambda>_. t1) (ew_sched w)))"
    unfolding settle_task_def using maybe_finalize_VALIDATING[OF s1(1)] by (simp_all add: id2)
  have "change_task i (\<lambda>_. c) (change_task i (\<lambda>_. b) (change_task i (\<lambda>_. a) s)) = change_task i (\<lambda>_. c) s" for i a b c s
    by (simp add: change_task_def sched_task_def split: option.splits)
  then have sch: "ew_sched (fst ?s) = change_task (te_id t) (\<lambda>_. t2) (ew_sched w)" using fin(3) by simp
  obtain w3 x3 where s: "?s = (w3, Some x3)" using fin(1) by (cases ?s) auto
  have "end_task ee now t0 (Answered oc) x w = (w3, x3, Some (plain_reply (te_status t2)))"
    using x1 vl t2 j s assms(5) unfolding end_task_def t_def[symmetric] Let_def run_answer.case t1_def[symmetric] by simp
  then show ?thesis using sch fin(2) s t2 by simp
qed

lemma end_raised:
  fixes ee now oc x w t0
  defines "t \<equiv> task_now w t0"
  defines "t1 \<equiv> answered_task ee now oc t"
  assumes "xs_state x \<notin> {Ex_RUNNING, Ex_VALIDATING} \<or> evaluate_task t1 (criteria_of w (te_id t)) = Outcome_NEEDS_REVIEW"
  shows "\<exists>w1 x1 t2. end_task ee now t0 (Answered oc) x w = (w1, x1, None) \<and> te_status t2 = te_status t \<and>
    ew_sched w1 = change_task (te_id t) (\<lambda>_. t2) (ew_sched w) \<and> ew_coord w1 = ew_coord w"
proof (cases "exec_transition Ex_VALIDATING (Why_VALIDATE (te_id t)) x")
  case None
  then have "end_task ee now t0 (Answered oc) x w = (change (te_id t) (\<lambda>_. t1) w, x, None)"
    unfolding end_task_def t_def[symmetric] Let_def run_answer.case t1_def[symmetric] by simp
  then show ?thesis by (intro exI[of _ "change (te_id t) (\<lambda>_. t1) w"] exI[of _ x] exI[of _ t1]) (simp add: t1_def)
next
  case (Some x1)
  then have s1: "xs_state x1 = Ex_VALIDATING" by (auto simp: transition_Some)
  have "xs_state x \<in> {Ex_RUNNING, Ex_VALIDATING}" using Some by (cases "xs_state x") (auto simp: transition_Some)
  then have v: "evaluate_task t1 (criteria_of w (te_id t)) = Outcome_NEEDS_REVIEW" using assms(3) by blast
  obtain vl where vl: "validate_task t1 (ew_valid w) = (vl, Outcome_NEEDS_REVIEW)"
    using validate_outcome[of t1 "ew_valid w"] v
    by (cases "validate_task t1 (ew_valid w)") (simp add: t1_def criteria_of_def)
  let ?t2 = "t1\<lparr>te_outcome := Some Outcome_NEEDS_REVIEW\<rparr>"
  let ?w2 = "(change (te_id t) (\<lambda>_. ?t2) (change (te_id t) (\<lambda>_. t1) w))\<lparr>ew_valid := vl\<rparr>"
  have "exec_transition Ex_WAITING_APPROVAL Why_REVIEW x1 = None" using s1 by (simp add: transition_None)
  then have "end_task ee now t0 (Answered oc) x w = (?w2, x1, None)"
    using Some vl unfolding end_task_def t_def[symmetric] Let_def run_answer.case t1_def[symmetric]
    by (simp add: judged_task_def)
  moreover have "change_task i (\<lambda>_. b) (change_task i (\<lambda>_. a) s) = change_task i (\<lambda>_. b) s" for i a b s
    by (simp add: change_task_def sched_task_def split: option.splits)
  ultimately show ?thesis
    by (intro exI[of _ ?w2] exI[of _ x1] exI[of _ ?t2]) (simp add: t1_def)
qed

text \<open>
  C23. When the end of a task is lost. An answer of the runtime for a task the scheduler holds is recorded and the
  task settled (its status follows the verdict, its agent is released) exactly when the execution is RUNNING or
  VALIDATING and the verdict is not a review. Otherwise an exception escapes: the task keeps the status it had
  (RUNNING) and its agent the load it had. So an execution paused or cancelled while a task is with the runtime
  loses that task, and so does every verdict that asks for a human review, because VALIDATING has no move to
  WAITING_APPROVAL.
\<close>

theorem end_lost_exactly:
  assumes "sched_task (te_id t) (ew_sched w) = Some t"
  shows "if xs_state x \<in> {Ex_RUNNING, Ex_VALIDATING} \<and>
        evaluate_task (answered_task ee now oc t) (criteria_of w (te_id t)) \<noteq> Outcome_NEEDS_REVIEW
    then \<exists>w1 x1 st. end_task ee now t (Answered oc) x w = (w1, x1, Some (plain_reply st)) \<and>
        map_option te_status (sched_task (te_id t) (ew_sched w1)) = Some st \<and>
        st = te_status (fst (judged_task x (evaluate_task (answered_task ee now oc t) (criteria_of w (te_id t)))
          (answered_task ee now oc t))) \<and> ew_coord w1 = coord_release (te_id t) (ew_coord w)
    else \<exists>w1 x1. end_task ee now t (Answered oc) x w = (w1, x1, None) \<and>
        map_option te_status (sched_task (te_id t) (ew_sched w1)) = Some (te_status t) \<and> ew_coord w1 = ew_coord w"
proof -
  have n: "task_now w t = t" using assms by (simp add: task_now_def)
  show ?thesis
    using end_answered[of x ee now oc w t] end_raised[of x ee now oc w t] assms unfolding n
    by (cases "xs_state x \<in> {Ex_RUNNING, Ex_VALIDATING} \<and>
        evaluate_task (answered_task ee now oc t) (criteria_of w (te_id t)) \<noteq> Outcome_NEEDS_REVIEW") fastforce+
qed

definition answer_ok :: run_outcome where
  "answer_ok = \<lparr>oc_result = Some (PStr ''done''), oc_duration = 10, oc_runtime = ''local'', oc_model = ''m'', oc_resources = [],
     oc_physical = [], oc_provider = '''', oc_wanted_runtime = '''', oc_wanted_model = '''', oc_tools = []\<rparr>"

definition running_world :: exec_world where
  "running_world = (new_world None plain_coordinator)
     \<lparr>ew_sched := \<lparr>sd_tasks = [(''t'', (fresh_task ''t'')\<lparr>te_status := Task_RUNNING\<rparr>)], sd_deps = [(''t'', [])]\<rparr>,
      ew_owned := [(''e'', [''t''])]\<rparr>"

definition paused_machine :: exec_machine where
  "paused_machine = \<lparr>xs_state = Ex_PAUSED, xs_history = [], xs_checkpoints = [], xs_meta = plain_meta, xs_t0 = 0, xs_offset = 0\<rparr>"

theorem end_lost_exactly_witness:
  "\<exists>w1 x1. end_task plain_env 5 ((fresh_task ''t'')\<lparr>te_status := Task_RUNNING\<rparr>) (Answered answer_ok) paused_machine running_world = (w1, x1, None) \<and>
     map_option te_status (sched_task ''t'' (ew_sched w1)) = Some Task_RUNNING"
proof -
  have "sched_task (te_id ((fresh_task ''t'')\<lparr>te_status := Task_RUNNING\<rparr>)) (ew_sched running_world) =
      Some ((fresh_task ''t'')\<lparr>te_status := Task_RUNNING\<rparr>)" by (simp add: running_world_def fresh_task_def sched_task_def)
  from end_lost_exactly[OF this, of paused_machine plain_env 5 answer_ok] show ?thesis
    by (auto simp: paused_machine_def fresh_task_def)
qed

end
