(* ===== verification/NodeExecution_Correct.thy ===== *)
theory NodeExecution_Correct
  imports NodeExecution TaskRunning_Correct
begin

text \<open>
  Correctness of the callable of a node: it always returns, after at most four attempts, and what it answers is
  decided by the first attempt that is not an error worth a retry.
\<close>

subsection \<open>One attempt\<close>

text \<open>What an attempt amounts to: lost (an exception), to be tried again, or decided.\<close>

datatype attempt = Lost | Again | Decided bool

definition attempt_of :: "rat + bool \<Rightarrow> run_answer \<Rightarrow> nat \<Rightarrow> attempt" where
  "attempt_of over a k = (case over of Inl _ \<Rightarrow> Lost | Inr True \<Rightarrow> Decided False
     | Inr False \<Rightarrow> (case a of Crashed \<Rightarrow> Lost | Answered oc \<Rightarrow> Decided (oc_result oc \<noteq> None)
        | Unavailable e \<Rightarrow> (if re_retry (remede_pour (cl_cause (classer e None None None))) \<and> int k < default_max_retries
            then Again else Decided False)))"

text \<open>The execution of the node before attempt \<open>k\<close>.\<close>

definition node_ready :: "node_env \<Rightarrow> exec_meta \<Rightarrow> string \<Rightarrow> exec_machine \<Rightarrow> nat \<Rightarrow> exec_machine \<Rightarrow> exec_world \<Rightarrow> bool" where
  "node_ready ne meta i x0 k x w \<longleftrightarrow> xs_state x \<in> {Ex_READY, Ex_RUNNING} \<and> extends x0 x \<and> xs_meta x = meta \<and>
     xm_max_retries meta = default_max_retries \<and> own_tasks w x = [i] \<and>
     (\<exists>t. sched_task i (ew_sched w) = Some t \<and> te_id t = i \<and> te_status t = Task_PENDING \<and> te_retries t = int k) \<and>
     dict_get (vl_criteria (ew_valid w)) i = None"

lemma extends_budget:
  "extends x y \<Longrightarrow> budget_depasse lookup pc y = budget_depasse lookup pc x \<and> machine_budget lookup y = machine_budget lookup x"
proof -
  assume "extends x y"
  then have "xs_meta y = xs_meta x" "xs_t0 y = xs_t0 x" "xs_offset y = xs_offset x" by (simp_all add: extends_def)
  then have "machine_budget lookup y = machine_budget lookup x" "budget_consomme pc y = budget_consomme pc x"
    unfolding machine_budget_def budget_consomme_def by metis+
  then show ?thesis by (simp add: budget_depasse_def)
qed

lemma begun_id [simp]: "te_id (begun_task now asg t) = te_id t" "te_status (begun_task now asg t) = Task_RUNNING"
  "te_retries (begun_task now asg t) = te_retries t" "te_errors (begun_task now asg t) = []"
  by (simp_all add: begun_task_def)

text \<open>The beginning: refused, or under way in state RUNNING.\<close>

lemma begin_over:
  assumes "node_ready ne meta i x0 k x w" and "budget_depasse (ee_lookup ee) pc x0 = Inr True"
  shows "\<exists>w1 r. begin_task ee pc now x i w = (w1, x, Begin_ENDED r) \<and> rp_runtime_available r \<and>
    map_option te_status (sched_task i (ew_sched w1)) = Some Task_FAILED"
proof -
  obtain t where t: "sched_task i (ew_sched w) = Some t" "te_id t = i" using assms(1) by (auto simp: node_ready_def)
  have "budget_depasse (ee_lookup ee) pc x = Inr True"
    using assms extends_budget[of x0 x] by (simp add: node_ready_def)
  then obtain b where "machine_budget (ee_lookup ee) x = Inr b" "budget_consomme pc x \<ge> b"
    by (auto simp: budget_depasse_def bind_sum_def split: sum.splits)
  then show ?thesis using t by (simp add: begin_task_def refuse_for_budget_def)
qed

lemma begin_negative:
  assumes "node_ready ne meta i x0 k x w" and "budget_depasse (ee_lookup ee) pc x0 = Inl v"
  shows "begin_task ee pc now x i w = (w, x, Begin_RAISED)"
proof -
  obtain t where t: "sched_task i (ew_sched w) = Some t" using assms(1) by (auto simp: node_ready_def)
  have "budget_depasse (ee_lookup ee) pc x = Inl v"
    using assms extends_budget[of x0 x] by (simp add: node_ready_def)
  then show ?thesis using t by (auto simp: begin_task_def budget_depasse_def bind_sum_def split: sum.splits)
qed

lemma begin_runs:
  assumes "node_ready ne meta i x0 k x w" and "budget_depasse (ee_lookup ee) pc x0 = Inr False"
  shows "\<exists>w1 x1 t asg. begin_task ee pc now x i w = (w1, x1, Begin_RUNS t asg) \<and> xs_state x1 = Ex_RUNNING \<and>
    extends x0 x1 \<and> xs_meta x1 = meta \<and> te_id t = i \<and> te_retries t = int k \<and> te_errors t = [] \<and>
    sched_task i (ew_sched w1) = Some t \<and> ew_valid w1 = ew_valid w \<and> ew_owned w1 = ew_owned w"
proof -
  obtain t where t: "sched_task i (ew_sched w) = Some t" "te_id t = i" "te_retries t = int k"
    using assms(1) by (auto simp: node_ready_def)
  have "budget_depasse (ee_lookup ee) pc x = Inr False"
    using assms extends_budget[of x0 x] by (simp add: node_ready_def)
  then obtain b where b: "machine_budget (ee_lookup ee) x = Inr b" "\<not> budget_consomme pc x \<ge> b"
    by (auto simp: budget_depasse_def bind_sum_def split: sum.splits)
  have st: "xs_state x \<in> {Ex_READY, Ex_RUNNING}" and e: "extends x0 x" "xs_meta x = meta"
    using assms(1) by (simp_all add: node_ready_def)
  obtain x1 where x1: "exec_transition Ex_RUNNING (Why_TASK i) x = Some x1"
    using st by (auto simp: exec_transition_def can_transition_def)
  have "extends x0 x1" using extends_trans[OF e(1) transition_extends[OF x1]] .
  moreover have "xs_state x1 = Ex_RUNNING" "xs_meta x1 = meta" using x1 e by (auto simp: transition_Some)
  ultimately show ?thesis
    using t b x1 by (simp add: begin_task_def Let_def split: prod.splits)
qed

text \<open>The end of an attempt.\<close>

lemma all_done_single: "all_done [i] s \<longleftrightarrow> (\<exists>t. sched_task i s = Some t \<and> task_ended (te_status t))"
  by (simp add: all_done_def split: option.splits)

lemma maybe_finalize_pending:
  "own_tasks w x = [i] \<Longrightarrow> sched_task i (ew_sched w) = Some t \<Longrightarrow> \<not> task_ended (te_status t) \<Longrightarrow> maybe_finalize x w = (w, Some x)"
  by (simp add: maybe_finalize_def all_done_single)

lemma maybe_finalize_RUNNING:
  "xs_state x = Ex_RUNNING \<Longrightarrow> \<exists>x1. snd (maybe_finalize x w) = Some x1 \<and> ew_sched (fst (maybe_finalize x w)) = ew_sched w \<and>
     ew_valid (fst (maybe_finalize x w)) = ew_valid w"
  by (auto simp: maybe_finalize_def exec_transition_def can_transition_def)

lemma own_tasks_meta: "xs_meta x = xs_meta y \<Longrightarrow> ew_owned w = ew_owned v \<Longrightarrow> own_tasks w x = own_tasks v y"
  by (simp add: own_tasks_def)

lemma unavailable_again:
  assumes "xs_state x1 = Ex_RUNNING" "te_id t = i" "te_retries t = int k" "xm_max_retries (xs_meta x1) = default_max_retries"
    and "sched_task i (ew_sched w1) = Some t" "own_tasks w1 x1 = [i]"
    and "re_retry (remede_pour (cl_cause (classer e None None None)))" "int k < default_max_retries"
  shows "\<exists>w2 t2 r. end_task ee now t (Unavailable e) x1 w1 = (w2, x1, Some r) \<and> sched_task i (ew_sched w2) = Some t2 \<and>
    te_id t2 = i \<and> te_status t2 = Task_PENDING \<and> te_retries t2 = int (Suc k) \<and> ew_valid w2 = ew_valid w1 \<and>
    ew_owned w2 = ew_owned w1"
proof -
  obtain t2 nt where u: "unavailable_task now x1 e t = (t2, nt)" by fastforce
  then have t2: "te_id t2 = i" "te_status t2 = Task_PENDING" "te_retries t2 = int (Suc k)"
    using assms by (auto simp: unavailable_task_def Let_def)
  let ?v = "agent_released ee (te_agent t2) (te_duration t2) (te_status t2)
       ((change i (\<lambda>_. t2) (exec_publish True nt w1))\<lparr>ew_coord := coord_release i (ew_coord (exec_publish True nt w1))\<rparr>)"
  have v: "sched_task i (ew_sched ?v) = Some t2" "ew_valid ?v = ew_valid w1" "ew_owned ?v = ew_owned w1"
    using assms(5) by simp_all
  have "own_tasks ?v x1 = [i]" using assms(6) own_tasks_meta[OF refl v(3), of x1] by simp
  then have "maybe_finalize x1 ?v = (?v, Some x1)" using v(1) t2(2) by (intro maybe_finalize_pending) (auto simp: task_ended_def)
  then have "settle_task ee x1 t2 (exec_publish True nt w1) = (?v, Some x1)" using t2(1) by (simp add: settle_task_def)
  moreover have "task_now w1 t = t" using assms(2,5) by (simp add: task_now_def)
  ultimately have "end_task ee now t (Unavailable e) x1 w1 = (?v, x1, Some \<lparr>rp_status = Some (te_status t2), rp_error = e,
      rp_runtime_available = False, rp_over_budget = False\<rparr>)"
    using u by (simp add: end_task_def)
  then show ?thesis using v t2 by blast
qed

lemma unavailable_decided:
  assumes "xs_state x1 = Ex_RUNNING" "te_id t = i" "te_retries t = int k" "xm_max_retries (xs_meta x1) = default_max_retries"
    and "sched_task i (ew_sched w1) = Some t"
    and "\<not> (re_retry (remede_pour (cl_cause (classer e None None None))) \<and> int k < default_max_retries)"
  shows "\<exists>w2 x2 r. end_task ee now t (Unavailable e) x1 w1 = (w2, x2, Some r) \<and>
    map_option te_status (sched_task i (ew_sched w2)) = Some Task_FAILED \<and> \<not> rp_runtime_available r"
proof -
  obtain t2 nt where u: "unavailable_task now x1 e t = (t2, nt)" by fastforce
  then have t2: "te_id t2 = i" "te_status t2 = Task_FAILED"
    using assms by (auto simp: unavailable_task_def Let_def)
  let ?v = "agent_released ee (te_agent t2) (te_duration t2) (te_status t2)
       ((change i (\<lambda>_. t2) (exec_publish True nt w1))\<lparr>ew_coord := coord_release i (ew_coord (exec_publish True nt w1))\<rparr>)"
  have v: "sched_task i (ew_sched ?v) = Some t2" using assms(5) by simp
  obtain w2 x2 where f: "maybe_finalize x1 ?v = (w2, Some x2)" "ew_sched w2 = ew_sched ?v"
    using maybe_finalize_RUNNING[OF assms(1), of ?v] by (cases "maybe_finalize x1 ?v") auto
  then have "settle_task ee x1 t2 (exec_publish True nt w1) = (w2, Some x2)" using t2(1) by (simp add: settle_task_def)
  moreover have "task_now w1 t = t" using assms(2,5) by (simp add: task_now_def)
  ultimately have "end_task ee now t (Unavailable e) x1 w1 = (w2, x2, Some \<lparr>rp_status = Some (te_status t2), rp_error = e,
      rp_runtime_available = False, rp_over_budget = False\<rparr>)"
    using u by (simp add: end_task_def)
  then show ?thesis using v t2 f(2) by simp
qed

lemma answered_decided:
  assumes "xs_state x1 = Ex_RUNNING" "te_id t = i" "te_errors t = []" "sched_task i (ew_sched w1) = Some t"
    and "dict_get (vl_criteria (ew_valid w1)) i = None"
  shows "\<exists>w2 x2 r. end_task ee now t (Answered oc) x1 w1 = (w2, x2, Some r) \<and>
    map_option te_status (sched_task i (ew_sched w2)) = Some (if oc_result oc \<noteq> None then Task_COMPLETED else Task_FAILED) \<and>
    rp_runtime_available r"
proof -
  have n: "task_now w1 t = t" using assms(2,4) by (simp add: task_now_def)
  let ?t1 = "answered_task ee now oc t"
  have c: "criteria_of w1 i = [''result_present'']" using assms(5) by (simp add: criteria_of_def dict_get_default_def)
  have v: "evaluate_task ?t1 (criteria_of w1 (te_id t)) = (if oc_result oc \<noteq> None then Outcome_PASS else Outcome_FAIL)"
    using assms(2,3) by (simp add: c evaluate_task_def)
  have st: "xs_state x1 \<in> {Ex_RUNNING, Ex_VALIDATING}" using assms(1) by simp
  have nr: "(if oc_result oc \<noteq> None then Outcome_PASS else Outcome_FAIL) \<noteq> Outcome_NEEDS_REVIEW" by simp
  from end_answered[OF st, of ee now oc w1 t, unfolded n v, OF nr] obtain w2 x2 where
    e: "end_task ee now t (Answered oc) x1 w1 = (w2, x2, Some (plain_reply (te_status (fst (judged_task x1
        (if oc_result oc \<noteq> None then Outcome_PASS else Outcome_FAIL) ?t1)))))"
      "ew_sched w2 = change_task i (\<lambda>_. fst (judged_task x1 (if oc_result oc \<noteq> None then Outcome_PASS else Outcome_FAIL) ?t1)) (ew_sched w1)"
    using assms(2) by fastforce
  then show ?thesis using assms(4) by (auto simp: judged_task_def plain_reply_def)
qed

abbreviation over_budget :: "node_env \<Rightarrow> exec_machine \<Rightarrow> nat \<Rightarrow> rat + bool" where
  "over_budget ne x0 k \<equiv> budget_depasse (ee_lookup (ne_env ne)) (ne_pc ne k) x0"

text \<open>What an attempt leaves, for each kind of attempt.\<close>

definition attempt_result :: "node_env \<Rightarrow> exec_meta \<Rightarrow> string \<Rightarrow> exec_machine \<Rightarrow> nat \<Rightarrow> attempt
    \<Rightarrow> exec_world \<times> exec_machine \<times> task_reply option \<Rightarrow> bool" where
  "attempt_result ne meta i x0 k at' res = (case res of (w1, x1, r) \<Rightarrow> (case at' of
     Lost \<Rightarrow> r = None
   | Again \<Rightarrow> r \<noteq> None \<and> node_ready ne meta i x0 (Suc k) x1 w1
   | Decided b \<Rightarrow> (\<exists>rep st. r = Some rep \<and> map_option te_status (sched_task i (ew_sched w1)) = Some st \<and>
       st \<noteq> Task_PENDING \<and> (rp_runtime_available rep \<and> st = Task_COMPLETED) = b)))"

lemma attempt_runs:
  assumes "node_ready ne meta i x0 k x w" and "over_budget ne x0 k = Inr False"
  shows "\<exists>t asg. attempt_result ne meta i x0 k (attempt_of (Inr False) (ne_answer ne k t asg) k) (run_attempt ne k x i w)"
proof -
  let ?ee = "ne_env ne"
  obtain w1 x1 t asg where b: "begin_task ?ee (ne_pc ne k) (ne_now ne k) x i w = (w1, x1, Begin_RUNS t asg)"
    "xs_state x1 = Ex_RUNNING" "extends x0 x1" "xs_meta x1 = meta" "te_id t = i" "te_retries t = int k" "te_errors t = []"
    "sched_task i (ew_sched w1) = Some t" "ew_valid w1 = ew_valid w" "ew_owned w1 = ew_owned w"
    using begin_runs[OF assms] by blast
  have run: "run_attempt ne k x i w = end_task ?ee (ne_now ne k) t (ne_answer ne k t asg) x1 w1"
    using b(1) by (simp add: run_attempt_def)
  have mr: "xm_max_retries (xs_meta x1) = default_max_retries" and own: "own_tasks w1 x1 = [i]"
    and crit: "dict_get (vl_criteria (ew_valid w1)) i = None"
    using assms(1) b(4,9,10) own_tasks_meta[of x1 x w1 w] by (simp_all add: node_ready_def)
  have "attempt_result ne meta i x0 k (attempt_of (Inr False) (ne_answer ne k t asg) k) (run_attempt ne k x i w)"
  proof (cases "ne_answer ne k t asg")
    case Crashed
    then show ?thesis by (simp add: run end_task_def attempt_of_def attempt_result_def)
  next
    case (Answered oc)
    from answered_decided[OF b(2,5,7,8) crit, of ?ee "ne_now ne k" oc] show ?thesis
      unfolding run Answered by (auto simp: attempt_of_def attempt_result_def)
  next
    case (Unavailable e)
    show ?thesis
    proof (cases "re_retry (remede_pour (cl_cause (classer e None None None))) \<and> int k < default_max_retries")
      case True
      with unavailable_again[OF b(2,5,6) mr b(8) own] obtain w2 t2 r where
        u: "end_task ?ee (ne_now ne k) t (Unavailable e) x1 w1 = (w2, x1, Some r)" "sched_task i (ew_sched w2) = Some t2"
          "te_id t2 = i" "te_status t2 = Task_PENDING" "te_retries t2 = int (Suc k)" "ew_valid w2 = ew_valid w1"
          "ew_owned w2 = ew_owned w1" by blast
      have "own_tasks w2 x1 = [i]" using own own_tasks_meta[OF refl u(7), of x1] by simp
      then have "node_ready ne meta i x0 (Suc k) x1 w2"
        using b(2,3,4) mr crit u by (simp add: node_ready_def)
      then show ?thesis using True u(1) unfolding run Unavailable attempt_result_def attempt_of_def by simp
    next
      case False
      from unavailable_decided[OF b(2,5,6) mr b(8) False, of ?ee "ne_now ne k"] obtain w2 x2 r where
        u: "end_task ?ee (ne_now ne k) t (Unavailable e) x1 w1 = (w2, x2, Some r)"
          "map_option te_status (sched_task i (ew_sched w2)) = Some Task_FAILED" "\<not> rp_runtime_available r" by blast
      have "attempt_of (Inr False) (Unavailable e) k = Decided False" using False by (auto simp: attempt_of_def)
      then show ?thesis unfolding run Unavailable attempt_result_def u(1) using u(2,3) by auto
    qed
  qed
  then show ?thesis by blast
qed

lemma attempt_exact:
  assumes "node_ready ne meta i x0 k x w"
  shows "\<exists>t asg. attempt_result ne meta i x0 k (attempt_of (over_budget ne x0 k) (ne_answer ne k t asg) k) (run_attempt ne k x i w)"
proof (cases "over_budget ne x0 k")
  case (Inl v)
  then show ?thesis
    using begin_negative[OF assms Inl] by (simp add: run_attempt_def attempt_of_def attempt_result_def)
next
  case (Inr b)
  show ?thesis
  proof (cases b)
    case True
    then show ?thesis
      using begin_over[OF assms, of "ne_env ne" "ne_pc ne k" "ne_now ne k"] Inr
      by (fastforce simp: run_attempt_def attempt_of_def attempt_result_def)
  next
    case False
    then show ?thesis using attempt_runs[OF assms] Inr by simp
  qed
qed

subsection \<open>The loop\<close>

fun decides :: "(nat \<Rightarrow> attempt) \<Rightarrow> nat \<Rightarrow> nat \<Rightarrow> bool" where
  "decides f 0 k = False"
| "decides f (Suc left) k = (case f k of Lost \<Rightarrow> False | Decided b \<Rightarrow> b | Again \<Rightarrow> decides f left (Suc k))"

definition attempts_with :: "node_env \<Rightarrow> exec_machine \<Rightarrow> (nat \<Rightarrow> run_answer) \<Rightarrow> nat \<Rightarrow> attempt" where
  "attempts_with ne x0 a k = attempt_of (over_budget ne x0 k) (a k) k"

definition exec_ready_in :: "node_env \<Rightarrow> exec_meta \<Rightarrow> string \<Rightarrow> exec_machine \<Rightarrow> nat \<Rightarrow> controller \<Rightarrow> bool" where
  "exec_ready_in ne meta i x0 k c \<longleftrightarrow>
     (\<exists>x. dict_get (ct_machines c) (ne_exec_id ne) = Some x \<and> node_ready ne meta i x0 k x (ct_world c))"

definition answers :: "node_env \<Rightarrow> (nat \<Rightarrow> run_answer) \<Rightarrow> bool" where
  "answers ne a \<longleftrightarrow> (\<forall>k t asg. ne_answer ne k t asg = a k)"

lemma execute_attempt:
  assumes "exec_ready_in ne meta i x0 k c"
  shows "\<exists>at' c1 r. ctl_execute ne k (ne_exec_id ne) i c = (c1, r) \<and> (\<forall>a. answers ne a \<longrightarrow> at' = attempts_with ne x0 a k) \<and>
    (case at' of Lost \<Rightarrow> r = None
     | Again \<Rightarrow> r \<noteq> None \<and> k < 3 \<and> exec_ready_in ne meta i x0 (Suc k) c1
     | Decided b \<Rightarrow> (\<exists>rep st. r = Some rep \<and> map_option te_status (sched_task i (ew_sched (ct_world c1))) = Some st \<and>
         st \<noteq> Task_PENDING \<and> (rp_runtime_available rep \<and> st = Task_COMPLETED) = b))"
proof -
  obtain x where x: "dict_get (ct_machines c) (ne_exec_id ne) = Some x" "node_ready ne meta i x0 k x (ct_world c)"
    using assms by (auto simp: exec_ready_in_def)
  obtain t asg where a: "attempt_result ne meta i x0 k (attempt_of (over_budget ne x0 k) (ne_answer ne k t asg) k)
      (run_attempt ne k x i (ct_world c))" using attempt_exact[OF x(2)] by blast
  let ?at = "attempt_of (over_budget ne x0 k) (ne_answer ne k t asg) k"
  obtain w1 x1 r where r: "run_attempt ne k x i (ct_world c) = (w1, x1, r)" by (metis prod_cases3)
  let ?c1 = "c\<lparr>ct_world := w1, ct_machines := dict_set (ne_exec_id ne) x1 (ct_machines c)\<rparr>"
  have e: "ctl_execute ne k (ne_exec_id ne) i c = (?c1, r)" using x(1) r by (simp add: ctl_execute_def)
  have "k < 3" if "?at = Again"
    using that by (auto simp: attempt_of_def default_max_retries_def split: sum.splits bool.splits run_answer.splits if_splits)
  then show ?thesis
    using a e unfolding r attempt_result_def
    by (intro exI[of _ ?at] exI[of _ ?c1] exI[of _ r]) (auto simp: answers_def attempts_with_def exec_ready_in_def split: attempt.splits)
qed

lemma ready_task:
  assumes "exec_ready_in ne meta i x0 k c" and "te_id t0 = i"
  shows "te_status (task_now (ct_world c) t0) = Task_PENDING \<and> te_id (task_now (ct_world c) t0) = i"
  using assms by (auto simp: exec_ready_in_def node_ready_def task_now_def)

lemma settled_loop:
  assumes "map_option te_status (sched_task i (ew_sched (ct_world c))) = Some st" and "st \<noteq> Task_PENDING" and "te_id t0 = i"
  shows "\<exists>t1. node_loop ne k eid t0 r c = Some (c, t1, Some r) \<and> te_status t1 = st"
  using assms by (auto simp: node_loop.simps task_now_def)

lemma decides_end: "f k = at' \<Longrightarrow> at' \<noteq> Again \<Longrightarrow> decides f (Suc left) k = (at' = Decided True)"
  by (cases at') auto

lemma decides_again: "f k = Again \<Longrightarrow> decides f (Suc left) k = decides f left (Suc k)"
  by simp

lemma loop_ends:
  assumes "exec_ready_in ne meta i x0 k c" and "te_id t0 = i" and "ctl_execute ne k (ne_exec_id ne) i c = (c1, r1)" and "at' \<noteq> Again"
    and "case at' of Lost \<Rightarrow> r1 = None | Again \<Rightarrow> r1 \<noteq> None \<and> k < 3 \<and> exec_ready_in ne meta i x0 (Suc k) c1
       | Decided b \<Rightarrow> (\<exists>rep st. r1 = Some rep \<and> map_option te_status (sched_task i (ew_sched (ct_world c1))) = Some st \<and>
         st \<noteq> Task_PENDING \<and> (rp_runtime_available rep \<and> st = Task_COMPLETED) = b)"
  shows "\<exists>t1. node_loop ne k (ne_exec_id ne) t0 r c = Some (c1, t1, r1) \<and>
    (\<exists>rep. r1 = Some rep \<and> rp_runtime_available rep \<and> te_status t1 = Task_COMPLETED) = (at' = Decided True)"
proof -
  let ?t = "task_now (ct_world c) t0"
  have p: "te_status ?t = Task_PENDING" "te_id ?t = i" using ready_task[OF assms(1,2)] by auto
  show ?thesis
  proof (cases r1)
    case None
    then have "node_loop ne k (ne_exec_id ne) t0 r c = Some (c1, ?t, None)"
      using assms(2,3) p by (simp add: node_loop.simps)
    moreover have "at' = Lost" using None assms(4,5) by (cases at') auto
    ultimately show ?thesis using None by simp
  next
    case (Some rep)
    then obtain b st where d: "at' = Decided b" "map_option te_status (sched_task i (ew_sched (ct_world c1))) = Some st"
      "st \<noteq> Task_PENDING" "(rp_runtime_available rep \<and> st = Task_COMPLETED) = b" using assms(4,5) by (cases at') auto
    obtain t1 where t1: "node_loop ne (Suc k) (ne_exec_id ne) ?t rep c1 = Some (c1, t1, Some rep)" "te_status t1 = st"
      using settled_loop[OF d(2,3) p(2)] by blast
    have "node_loop ne k (ne_exec_id ne) t0 r c = Some (c1, t1, r1)"
      using assms(2,3) p Some t1(1) by (simp add: node_loop.simps[of ne k])
    then show ?thesis using d(1,4) t1(2) Some by auto
  qed
qed

lemma node_loop_exact:
  assumes "exec_ready_in ne meta i x0 k c" and "te_id t0 = i" and "k + left = 3"
  shows "\<exists>c1 t1 r1. node_loop ne k (ne_exec_id ne) t0 r c = Some (c1, t1, r1) \<and>
    (\<forall>a. answers ne a \<longrightarrow>
      (\<exists>rep. r1 = Some rep \<and> rp_runtime_available rep \<and> te_status t1 = Task_COMPLETED) =
        decides (attempts_with ne x0 a) (Suc left) k)"
  using assms
proof (induction left arbitrary: k c t0 r)
  case (0 k c t0 r)
  obtain at' c1 r1 where e: "ctl_execute ne k (ne_exec_id ne) i c = (c1, r1)"
      "\<forall>a. answers ne a \<longrightarrow> at' = attempts_with ne x0 a k"
      "case at' of Lost \<Rightarrow> r1 = None | Again \<Rightarrow> r1 \<noteq> None \<and> k < 3 \<and> exec_ready_in ne meta i x0 (Suc k) c1
       | Decided b \<Rightarrow> (\<exists>rep st. r1 = Some rep \<and> map_option te_status (sched_task i (ew_sched (ct_world c1))) = Some st \<and>
         st \<noteq> Task_PENDING \<and> (rp_runtime_available rep \<and> st = Task_COMPLETED) = b)"
    using execute_attempt[OF 0(1)] by blast
  have na: "at' \<noteq> Again" using e(3) 0(3) by auto
  show ?case using loop_ends[OF 0(1,2) e(1) na e(3), of r] e(2) decides_end[OF _ na] by metis
next
  case (Suc left k c t0 r)
  let ?t = "task_now (ct_world c) t0"
  have p: "te_status ?t = Task_PENDING" "te_id ?t = i" using ready_task[OF Suc.prems(1,2)] by auto
  obtain at' c1 r1 where e: "ctl_execute ne k (ne_exec_id ne) i c = (c1, r1)"
      "\<forall>a. answers ne a \<longrightarrow> at' = attempts_with ne x0 a k"
      "case at' of Lost \<Rightarrow> r1 = None | Again \<Rightarrow> r1 \<noteq> None \<and> k < 3 \<and> exec_ready_in ne meta i x0 (Suc k) c1
       | Decided b \<Rightarrow> (\<exists>rep st. r1 = Some rep \<and> map_option te_status (sched_task i (ew_sched (ct_world c1))) = Some st \<and>
         st \<noteq> Task_PENDING \<and> (rp_runtime_available rep \<and> st = Task_COMPLETED) = b)"
    using execute_attempt[OF Suc.prems(1)] by blast
  show ?case
  proof (cases "at' = Again")
    case False
    then show ?thesis using loop_ends[OF Suc.prems(1,2) e(1) False e(3), of r] e(2) decides_end[OF _ False] by metis
  next
    case True
    then obtain rep where a: "r1 = Some rep" "exec_ready_in ne meta i x0 (Suc k) c1" using e(3) by auto
    have "Suc k + left = 3" using Suc.prems(3) by simp
    from Suc.IH[OF a(2) p(2) this, of rep] obtain c2 t2 r2 where
      l: "node_loop ne (Suc k) (ne_exec_id ne) ?t rep c1 = Some (c2, t2, r2)"
        "\<forall>a. answers ne a \<longrightarrow> (\<exists>rep. r2 = Some rep \<and> rp_runtime_available rep \<and> te_status t2 = Task_COMPLETED) =
          decides (attempts_with ne x0 a) (Suc left) (Suc k)" by (elim exE conjE)
    have s: "node_loop ne k (ne_exec_id ne) t0 r c = Some (c2, t2, r2)"
      using e(1) a(1) l(1) p Suc.prems(2) by (simp add: node_loop.simps[of ne k])
    have d: "decides (attempts_with ne x0 a) (Suc (Suc left)) k = decides (attempts_with ne x0 a) (Suc left) (Suc k)"
      if "answers ne a" for a using e(2) that True by (intro decides_again) simp
    show ?thesis using s l(2) d by (intro exI[of _ c2] exI[of _ t2] exI[of _ r2]) (simp del: decides.simps)
  qed
qed

subsection \<open>The callable\<close>

lemma newest_last: "0 < n \<Longrightarrow> newest n (xs @ [x]) = newest (n - 1) xs @ [x]"
  by (auto simp: newest_def)

lemma lookup_newest_last:
  assumes "0 < n" and "k \<notin> fst ` set xs"
  shows "map_of (newest n (xs @ [(k, v)])) k = Some v"
proof -
  have "k \<notin> fst ` set (newest (n - 1) xs)" using assms(2) by (auto simp: newest_def dest: in_set_dropD)
  then show ?thesis using lookup_middle[of k "newest (n - 1) xs" "[]" v] by (simp add: newest_last[OF assms(1)])
qed

lemma lookup_set_last:
  assumes "0 < n"
  shows "map_of (newest n (set_last k v d)) k = Some v"
  unfolding set_last_def by (rule lookup_newest_last[OF assms]) auto

lemma node_machine: "\<exists>x0. new_machine lookup pc now (node_meta ne n) = Inr x0"
  by (simp add: new_machine_def budget_de_def node_meta_def budget_par_defaut_def bind_sum_def)

definition node_start :: "node_env \<Rightarrow> mission_node \<Rightarrow> exec_machine" where
  "node_start ne n = (case new_machine (ee_lookup (ne_env ne)) (ne_pc ne 0) (ne_now ne 0) (node_meta ne n) of Inr x \<Rightarrow> x
     | Inl _ \<Rightarrow> undefined)"

text \<open>
  A controller that can take a new node: the scheduler is within its bound, the identifier drawn is new, and no
  special criteria are set for the task.
\<close>

definition open_for :: "node_env \<Rightarrow> mission_node \<Rightarrow> controller \<Rightarrow> bool" where
  "open_for ne n c \<longleftrightarrow> length (sd_tasks (ew_sched (ct_world c))) \<le> max_retained_tasks \<and>
     ne_exec_id ne \<notin> fst ` set (ew_owned (ct_world c)) \<and>
     dict_get (vl_criteria (ew_valid (ct_world c))) (te_id (node_task n)) = None"

lemma open_run_simps [simp]:
  "ew_sched (open_run ee u now meta ts co w) = ew_sched w" "ew_valid (open_run ee u now meta ts co w) = ew_valid w"
  "ew_owned (open_run ee u now meta ts co w) = ew_owned w"
  by (auto simp: open_run_def Let_def split: option.splits sum.splits)

lemma start_ready:
  assumes "open_for ne n c"
  shows "\<exists>c1 x. ctl_start ne (node_meta ne n) [node_task n] c = (c1, Some x) \<and>
    exec_ready_in ne (node_meta ne n) (te_id (node_task n)) (node_start ne n) 0 c1"
proof -
  let ?ee = "ne_env ne" and ?meta = "node_meta ne n" and ?t = "node_task n"
  obtain x0 where x0: "new_machine (ee_lookup ?ee) (ne_pc ne 0) (ne_now ne 0) ?meta = Inr x0" using node_machine by blast
  have s0: "xs_state x0 = Ex_CREATED" using new_machine_created[OF x0] by simp
  obtain x1 where x1: "exec_transition Ex_PLANNING Why_PREPARE x0 = Some x1" using s0 by (simp add: exec_transition_def can_transition_def)
  then have s1: "xs_state x1 = Ex_PLANNING" by (simp add: transition_Some)
  obtain x2 where x2: "exec_transition Ex_READY Why_REGISTERED x1 = Some x2" using s1 by (simp add: exec_transition_def can_transition_def)
  obtain w where p: "prepare_execution ?ee (ne_run_id ne) (ne_pc ne 0) (ne_now ne 0) ?meta [?t] [] [] (ct_world c) = (w, Some x2)"
    and w: "ew_sched w = register_task ?t [] (ew_sched (ct_world c))" "ew_valid w = ew_valid (ct_world c)"
      "ew_owned w = newest max_retained_tasks (dict_set (xm_id ?meta) [te_id ?t] (ew_owned (ct_world c)))"
    using x0 x1 x2 by (auto simp: prepare_execution_def Let_def dict_get_default_def)
  let ?c1 = "trim_executions (c\<lparr>ct_world := w, ct_machines := set_last (xm_id ?meta) x2 (ct_machines c)\<rparr>)"
  have st: "ctl_start ne ?meta [?t] c = (?c1, Some x2)" using p by (simp add: ctl_start_def)
  have m: "dict_get (ct_machines ?c1) (ne_exec_id ne) = Some x2"
    using lookup_set_last[of max_retained_executions "xm_id ?meta" x2 "ct_machines c"]
    by (simp add: trim_executions_def max_retained_executions_def node_meta_def)
  have tw: "ct_world ?c1 = w" by (simp add: trim_executions_def Let_def)
  have own: "own_tasks w x2 = [te_id ?t]"
  proof -
    have "xs_meta x2 = ?meta" using x1 x2 new_machine_created[OF x0] by (auto simp: transition_Some)
    moreover have "dict_get (ew_owned w) (xm_id ?meta) = Some [te_id ?t]"
      using assms lookup_newest_last[of max_retained_tasks "xm_id ?meta" "ew_owned (ct_world c)" "[te_id ?t]"]
      by (simp add: w(3) dict_set_fresh open_for_def node_meta_def max_retained_tasks_def)
    ultimately show ?thesis by (simp add: own_tasks_def dict_get_default_def)
  qed
  have sch: "sched_task (te_id ?t) (ew_sched w) = Some ?t"
    using assms register_keeps[of "ew_sched (ct_world c)" ?t "[]"] by (simp add: w(1) open_for_def)
  have ext: "extends x0 x2" using extends_trans[OF transition_extends[OF x1] transition_extends[OF x2]] .
  have ns: "node_start ne n = x0" by (simp add: node_start_def x0)
  have "node_ready ne ?meta (te_id ?t) x0 0 x2 w"
    unfolding node_ready_def
    using ext own sch assms w(2) x1 x2 new_machine_created[OF x0]
    by (auto simp: transition_Some node_meta_def node_task_def fresh_task_def open_for_def)
  then show ?thesis using st m tw ns by (auto simp: exec_ready_in_def)
qed

lemma node_run:
  assumes "open_for ne n c"
  shows "\<exists>c1 n1 b. execute_mission_node ne n c = Some (c1, n1, b) \<and>
    (\<forall>a. answers ne a \<longrightarrow> b = decides (attempts_with ne (node_start ne n) a) 4 0)"
proof -
  let ?i = "te_id (node_task n)" and ?e = "ne_exec_id ne" and ?x0 = "node_start ne n"
  obtain c1 x where s: "ctl_start ne (node_meta ne n) [node_task n] c = (c1, Some x)"
    "exec_ready_in ne (node_meta ne n) ?i ?x0 0 c1" using start_ready[OF assms] by (elim exE conjE)
  obtain at' c2 r1 where e: "ctl_execute ne 0 ?e ?i c1 = (c2, r1)"
      "\<forall>a. answers ne a \<longrightarrow> at' = attempts_with ne ?x0 a 0"
      "case at' of Lost \<Rightarrow> r1 = None | Again \<Rightarrow> r1 \<noteq> None \<and> (0::nat) < 3 \<and> exec_ready_in ne (node_meta ne n) ?i ?x0 (Suc 0) c2
       | Decided b \<Rightarrow> (\<exists>rep st. r1 = Some rep \<and> map_option te_status (sched_task ?i (ew_sched (ct_world c2))) = Some st \<and>
         st \<noteq> Task_PENDING \<and> (rp_runtime_available rep \<and> st = Task_COMPLETED) = b)"
    using execute_attempt[OF s(2)] by (elim exE conjE)
  have four: "(4::nat) = Suc 3" by simp
  show ?thesis
  proof (cases r1)
    case None
    then have "execute_mission_node ne n c = Some (c2, n, False)" using s(1) e(1) by (simp add: execute_mission_node_def)
    moreover have "at' = Lost" using None e(3) by (cases at') auto
    then have "decides (attempts_with ne ?x0 a) 4 0 = False" if "answers ne a" for a
      using e(2) that decides_end[of "attempts_with ne ?x0 a" 0 at' 3] unfolding four by simp
    ultimately show ?thesis by (intro exI[of _ c2] exI[of _ n] exI[of _ False]) auto
  next
    case (Some rep)
    have loop: "execute_mission_node ne n c = (case node_loop ne 1 ?e (node_task n) rep c2 of
            None \<Rightarrow> None
          | Some (c3, t, None) \<Rightarrow> Some (c3, n, False)
          | Some (c3, t, Some r1) \<Rightarrow> Some (fst (ctl_finalize (ne_end ne) ?e c3), with_result ne t r1 n,
                rp_runtime_available r1 \<and> te_status t = Task_COMPLETED))"
      using s(1) e(1) Some by (simp add: execute_mission_node_def)
    show ?thesis
    proof (cases "at' = Again")
      case True
      then have r: "exec_ready_in ne (node_meta ne n) ?i ?x0 1 c2" using e(3) by simp
      have "(1::nat) + 2 = 3" by simp
      from node_loop_exact[OF r refl this, of rep] obtain c3 t r2 where
        l: "node_loop ne 1 ?e (node_task n) rep c2 = Some (c3, t, r2)"
          "\<forall>a. answers ne a \<longrightarrow> (\<exists>rep. r2 = Some rep \<and> rp_runtime_available rep \<and> te_status t = Task_COMPLETED) =
            decides (attempts_with ne ?x0 a) (Suc 2) 1" by (elim exE conjE)
      have d: "decides (attempts_with ne ?x0 a) 4 0 = decides (attempts_with ne ?x0 a) (Suc 2) 1" if "answers ne a" for a
        using e(2) that True decides_again[of "attempts_with ne ?x0 a" 0 3] unfolding four numeral_3_eq_3 numeral_2_eq_2 One_nat_def
        by (simp only: simp_thms)
      show ?thesis using l d unfolding loop by (cases r2) auto
    next
      case False
      then obtain b st where d: "at' = Decided b" "map_option te_status (sched_task ?i (ew_sched (ct_world c2))) = Some st"
        "st \<noteq> Task_PENDING" "(rp_runtime_available rep \<and> st = Task_COMPLETED) = b" using e(3) Some by (cases at') auto
      obtain t1 where t1: "node_loop ne 1 ?e (node_task n) rep c2 = Some (c2, t1, Some rep)" "te_status t1 = st"
        using settled_loop[OF d(2,3) refl] by blast
      have "decides (attempts_with ne ?x0 a) 4 0 = b" if "answers ne a" for a
      proof -
        have "attempts_with ne ?x0 a 0 = Decided b" using e(2) that d(1) by metis
        from decides_end[where f = "attempts_with ne ?x0 a" and k = 0 and left = 3, OF this] show ?thesis
          unfolding four by simp
      qed
      then show ?thesis using t1 d(4) unfolding loop by auto
    qed
  qed
qed

text \<open>
  The callable of a node always returns. Whatever the runtime answers, the node of a controller that can take
  it is executed a finite number of times: the loop that executes a pending task again ends.
\<close>

lemma node_run_returns:
  assumes "open_for ne n c"
  shows "\<exists>c1 n1 b. execute_mission_node ne n c = Some (c1, n1, b)"
proof -
  from node_run[OF assms] show ?thesis by (elim exE conjE) (intro exI)
qed

text \<open>
  C24. What the callable of a node answers. It is true exactly when some attempt among the first four is answered
  with a result while the budget lasts, and every attempt before it found the runtime unavailable for a cause that
  allows another try; an exhausted budget, an answer without a result, an exception, and a cause that forbids
  another try end it with false.
\<close>

theorem node_run_exact:
  assumes "open_for ne n c" and "answers ne a"
  shows "\<exists>c1 n1. execute_mission_node ne n c = Some (c1, n1, decides (attempts_with ne (node_start ne n) a) 4 0)"
proof -
  from node_run[OF assms(1)] assms(2) show ?thesis by (elim exE conjE) (intro exI, simp)
qed

definition sample_answers :: "nat \<Rightarrow> run_answer" where
  "sample_answers k = (if k < 2 then Unavailable ''connection refused'' else Answered answer_ok)"

definition sample_env :: node_env where
  "sample_env = \<lparr>ne_env = plain_env, ne_answer = (\<lambda>k _ _. sample_answers k), ne_pc = (\<lambda>k. of_nat k), ne_now = (\<lambda>k. of_nat k),
     ne_end = 9, ne_run_id = ''r'', ne_exec_id = ''e'', ne_str = (\<lambda>_. ''done'')\<rparr>"

definition empty_controller :: controller where
  "empty_controller = \<lparr>ct_world = new_world (Some []) plain_coordinator, ct_machines = [], ct_reports = []\<rparr>"

definition sample_node :: mission_node where
  "sample_node = \<lparr>mn_id = ''n'', mn_mission = '''', mn_title = ''code'', mn_description = '''', mn_type = ''task'',
     mn_priority = Priority_NORMAL, mn_status = Dag_PENDING, mn_agent = '''', mn_runtime = '''', mn_profile = '''', mn_skills = [],
     mn_resources = [], mn_duration = 0, mn_depends = [], mn_criteria = [], mn_outputs = [], mn_started = None,
     mn_completed = None, mn_actual = 0, mn_summary = ''''\<rparr>"

lemma sample_open: "open_for sample_env sample_node empty_controller"
  by (simp add: open_for_def empty_controller_def new_world_def)

lemma node_run_returns_example:
  "\<exists>c1 n1 b. execute_mission_node sample_env sample_node empty_controller = Some (c1, n1, b)"
  by (rule node_run_returns[OF sample_open])

theorem node_run_exact_witness:
  "\<exists>c1 n1. execute_mission_node sample_env sample_node empty_controller =
     Some (c1, n1, decides (attempts_with sample_env (node_start sample_env sample_node) sample_answers) 4 0)"
  by (rule node_run_exact[OF sample_open]) (simp add: answers_def sample_env_def)

end
