(* ===== verification/Workflow.thy ===== *)
theory Workflow
  imports ExecutionGraph
begin

text \<open>
  Workflows: the graph of agent actions of \<^verbatim>\<open>backend/workflows/schema.py\<close> with its validation, the engine
  of \<^verbatim>\<open>engine.py\<close> that runs it in waves, halts at human gates and resumes, and the table of
  \<^verbatim>\<open>run_store.py\<close> that remembers a run between calls.

  The tools are code behind \<^verbatim>\<open>get_tool_registry\<close>; a call of the engine is given, for every node, the
  action that the registry knows and what the tool answers to given parameters (a value or the text of
  the exception). A node is called at most once in a call of \<open>run\<close>, so such a function describes tools
  that change state as well. Values are JSON values, on which \<^verbatim>\<open>json.loads\<close> inverts \<^verbatim>\<open>json.dumps\<close>.
  Nodes of a wave run concurrently; the log lists their messages in the order of the wave. A Python
  \<^verbatim>\<open>set\<close> of node ids is a list of them: its iteration order only decides the order of keys.
\<close>

subsection \<open>Definitions and their validation\<close>

record workflow_node =
  wn_id :: string
  wn_action :: string
  wn_params :: metadata
  wn_gate :: bool

record workflow_edge =
  we_from :: string
  we_to :: string
  we_cond :: string

record workflow =
  wf_id :: string
  wf_name :: string
  wf_description :: string
  wf_nodes :: "workflow_node list"
  wf_edges :: "workflow_edge list"
  wf_project :: "string option"

datatype workflow_error =
    NoNodes string
  | DuplicateNodeIds string
  | UnknownEdgeCondition string string string
  | UnknownEdgeNode string
  | WorkflowCycle string string
  | NoSuchWorkflowNode string string
  | ColourKeyError string
  | MissingWorkflowField load_error

definition wf_ids :: "workflow \<Rightarrow> string list" where
  "wf_ids w = map wn_id (wf_nodes w)"

definition valid_conditions :: "string list" where
  "valid_conditions = [''always'', ''on_success'', ''on_failure'']"

definition wf_node :: "workflow \<Rightarrow> string \<Rightarrow> workflow_error + workflow_node" where
  "wf_node w i = (case List.find (\<lambda>n. wn_id n = i) (wf_nodes w) of
     None \<Rightarrow> Inl (NoSuchWorkflowNode i (wf_id w)) | Some n \<Rightarrow> Inr n)"

definition outgoing_edges :: "workflow \<Rightarrow> string \<Rightarrow> workflow_edge list" where
  "outgoing_edges w i = filter (\<lambda>e. we_from e = i) (wf_edges w)"

definition incoming_edges :: "workflow \<Rightarrow> string \<Rightarrow> workflow_edge list" where
  "incoming_edges w i = filter (\<lambda>e. we_to e = i) (wf_edges w)"

text \<open>\<^verbatim>\<open>_check_acyclic\<close>: the loop over the outgoing edges of a node, with the call of \<^verbatim>\<open>visit\<close> in it.\<close>

datatype colour = White | Gray | Black

type_synonym colours = "(string, colour) dict"

definition whites :: "colours \<Rightarrow> nat" where
  "whites c = card {i. dict_get c i = Some White}"

function (sequential) visit_edges :: "workflow \<Rightarrow> workflow_edge list \<Rightarrow> colours \<Rightarrow> workflow_error + colours" where
  "visit_edges w [] c = Inr c"
| "visit_edges w (e # es) c = (case dict_get c (we_to e) of
      None \<Rightarrow> Inl (ColourKeyError (we_to e))
    | Some Gray \<Rightarrow> Inl (WorkflowCycle (wf_id w) (we_to e))
    | Some Black \<Rightarrow> visit_edges w es c
    | Some White \<Rightarrow>
        (case visit_edges w (outgoing_edges w (we_to e)) (dict_set (we_to e) Gray c) of
           Inl x \<Rightarrow> Inl x
         | Inr c1 \<Rightarrow> visit_edges w es (dict_set (we_to e) Black c1)))"
  by pat_completeness auto

lemma finite_whites: "finite {i. dict_get c i = Some White}"
  by (rule finite_subset[of _ "fst ` set c"]) (auto dest!: map_of_SomeD intro: rev_image_eqI)

lemma whites_set:
  assumes "dict_get c i = Some White" "x \<noteq> White"
  shows "Suc (whites (dict_set i x c)) = whites c"
proof -
  have "{j. dict_get (dict_set i x c) j = Some White} = {j. dict_get c j = Some White} - {i}"
    using assms by auto
  then show ?thesis
    using card_Suc_Diff1[OF finite_whites, of i c] assms(1) unfolding whites_def by (simp only: mem_Collect_eq)
qed

lemma whites_le: "(\<And>j. dict_get d j = Some White \<Longrightarrow> dict_get c j = Some White) \<Longrightarrow> whites d \<le> whites c"
  unfolding whites_def by (rule card_mono[OF finite_whites]) blast

lemma visit_edges_white:
  "visit_edges_dom (w, es, c) \<Longrightarrow> visit_edges w es c = Inr d \<Longrightarrow> dict_get d j = Some White \<Longrightarrow>
     dict_get c j = Some White"
proof (induction w es c arbitrary: d rule: visit_edges.pinduct)
  case (1 w c)
  then show ?case by (simp add: visit_edges.psimps)
next
  case (2 w e es c)
  show ?case
  proof (cases "dict_get c (we_to e)")
    case None
    with 2 show ?thesis by (simp add: visit_edges.psimps)
  next
    case (Some x)
    show ?thesis
    proof (cases x)
      case White
      with 2 Some obtain c1 where
        c1: "visit_edges w (outgoing_edges w (we_to e)) (dict_set (we_to e) Gray c) = Inr c1" and
        d: "visit_edges w es (dict_set (we_to e) Black c1) = Inr d"
        by (auto simp: visit_edges.psimps split: sum.splits)
      have "dict_get (dict_set (we_to e) Black c1) j = Some White"
        using "2.IH"(2)[OF Some White c1 d] "2.prems"(2) by simp
      then have "j \<noteq> we_to e" "dict_get c1 j = Some White" by (auto split: if_splits)
      then show ?thesis using "2.IH"(1)[OF Some White c1] by (simp split: if_splits)
    qed (use 2 Some in \<open>simp_all add: visit_edges.psimps\<close>)
  qed
qed

lemma whites_gray: "dict_get c i = Some White \<Longrightarrow> whites (dict_set i Gray c) < whites c"
  using whites_set[of c i Gray] by simp

lemma whites_black:
  assumes "dict_get c i = Some White" "visit_edges w es (dict_set i Gray c) = Inr d"
    "visit_edges_dom (w, es, dict_set i Gray c)"
  shows "whites (dict_set i Black d) < whites c"
proof -
  have "whites (dict_set i Black d) \<le> whites (dict_set i Gray c)"
    using visit_edges_white[OF assms(3,2)] by (intro whites_le) (metis get_set option.inject colour.distinct(3))
  with whites_gray[OF assms(1)] show ?thesis by simp
qed

termination visit_edges
  by (relation "measures [\<lambda>(w, es, c). whites c, \<lambda>(w, es, c). length es]")
    (simp_all add: whites_gray whites_black)

definition visit :: "workflow \<Rightarrow> string \<Rightarrow> colours \<Rightarrow> workflow_error + colours" where
  "visit w i c = bind_sum (visit_edges w (outgoing_edges w i) (dict_set i Gray c))
     (\<lambda>c1. Inr (dict_set i Black c1))"

fun visit_nodes :: "workflow \<Rightarrow> string list \<Rightarrow> colours \<Rightarrow> workflow_error + colours" where
  "visit_nodes w [] c = Inr c"
| "visit_nodes w (i # is) c =
     (if dict_get c i = Some White then bind_sum (visit w i c) (visit_nodes w is) else visit_nodes w is c)"

definition check_acyclic :: "workflow \<Rightarrow> workflow_error + unit" where
  "check_acyclic w = bind_sum (visit_nodes w (wf_ids w) (map (\<lambda>i. (i, White)) (wf_ids w))) (\<lambda>_. Inr ())"

fun check_edges :: "string list \<Rightarrow> workflow_edge list \<Rightarrow> workflow_error + unit" where
  "check_edges ids [] = Inr ()"
| "check_edges ids (e # es) =
     (if we_cond e \<notin> set valid_conditions then Inl (UnknownEdgeCondition (we_from e) (we_to e) (we_cond e))
      else if we_from e \<notin> set ids then Inl (UnknownEdgeNode (we_from e))
      else if we_to e \<notin> set ids then Inl (UnknownEdgeNode (we_to e))
      else check_edges ids es)"

definition validate_workflow :: "workflow \<Rightarrow> workflow_error + unit" where
  "validate_workflow w =
     (if wf_nodes w = [] then Inl (NoNodes (wf_id w))
      else if length (remdups (wf_ids w)) \<noteq> length (wf_nodes w) then Inl (DuplicateNodeIds (wf_id w))
      else bind_sum (check_edges (wf_ids w) (wf_edges w)) (\<lambda>_. check_acyclic w))"

subsection \<open>Reading and writing\<close>

definition wf_field :: "load_error + 'a \<Rightarrow> workflow_error + 'a" where
  "wf_field r = (case r of Inl x \<Rightarrow> Inl (MissingWorkflowField x) | Inr v \<Rightarrow> Inr v)"

definition flag_or :: "metadata \<Rightarrow> string \<Rightarrow> bool \<Rightarrow> load_error + bool" where
  "flag_or d k b = (case dict_get d k of None \<Rightarrow> Inr b | Some (PBool x) \<Rightarrow> Inr x | Some _ \<Rightarrow> Inl BadShape)"

definition text_or_none :: "metadata \<Rightarrow> string \<Rightarrow> load_error + string option" where
  "text_or_none d k = (case dict_get d k of None \<Rightarrow> Inr None | Some PNone \<Rightarrow> Inr None
     | Some (PStr s) \<Rightarrow> Inr (Some s) | Some _ \<Rightarrow> Inl BadShape)"

fun wf_node_from :: "pyval \<Rightarrow> load_error + workflow_node" where
  "wf_node_from (PDict n) =
     bind_sum (str_req n ''id'') (\<lambda>i.
     bind_sum (str_req n ''action'') (\<lambda>a.
     bind_sum (dict_or n ''params'') (\<lambda>ps.
     bind_sum (flag_or n ''human_validation'' False) (\<lambda>g.
       Inr \<lparr>wn_id = i, wn_action = a, wn_params = ps, wn_gate = g\<rparr>))))"
| "wf_node_from _ = Inl BadShape"

fun wf_edge_from :: "pyval \<Rightarrow> load_error + workflow_edge" where
  "wf_edge_from (PDict e) =
     bind_sum (str_req e ''from'') (\<lambda>a.
     bind_sum (str_req e ''to'') (\<lambda>b.
     bind_sum (str_or e ''condition'' ''always'') (\<lambda>c.
       Inr \<lparr>we_from = a, we_to = b, we_cond = c\<rparr>)))"
| "wf_edge_from _ = Inl BadShape"

definition workflow_from_dict :: "metadata \<Rightarrow> workflow_error + workflow" where
  "workflow_from_dict data = bind_sum (wf_field (
     bind_sum (list_or data ''nodes'') (\<lambda>nds.
     bind_sum (map_sum_list wf_node_from nds) (\<lambda>ns.
     bind_sum (list_or data ''edges'') (\<lambda>eds.
     bind_sum (map_sum_list wf_edge_from eds) (\<lambda>es.
     bind_sum (str_req data ''id'') (\<lambda>i.
     bind_sum (str_or data ''name'' i) (\<lambda>nm.
     bind_sum (str_or data ''description'' '''') (\<lambda>ds.
     bind_sum (text_or_none data ''project_id'') (\<lambda>p.
       Inr \<lparr>wf_id = i, wf_name = nm, wf_description = ds, wf_nodes = ns, wf_edges = es, wf_project = p\<rparr>))))))))))
     (\<lambda>w. bind_sum (validate_workflow w) (\<lambda>_. Inr w))"

definition text_or_null :: "string option \<Rightarrow> pyval" where
  "text_or_null s = (case s of None \<Rightarrow> PNone | Some t \<Rightarrow> PStr t)"

definition wf_node_dict :: "workflow_node \<Rightarrow> pyval" where
  "wf_node_dict n = PDict [(''id'', PStr (wn_id n)), (''action'', PStr (wn_action n)),
     (''params'', PDict (wn_params n)), (''human_validation'', PBool (wn_gate n))]"

definition wf_edge_dict :: "workflow_edge \<Rightarrow> pyval" where
  "wf_edge_dict e = PDict [(''from'', PStr (we_from e)), (''to'', PStr (we_to e)), (''condition'', PStr (we_cond e))]"

definition workflow_to_dict :: "workflow \<Rightarrow> metadata" where
  "workflow_to_dict w = [(''id'', PStr (wf_id w)), (''name'', PStr (wf_name w)),
     (''description'', PStr (wf_description w)), (''project_id'', text_or_null (wf_project w)),
     (''nodes'', PList (map wf_node_dict (wf_nodes w))), (''edges'', PList (map wf_edge_dict (wf_edges w)))]"

subsection \<open>One step\<close>

datatype step_status = StepSuccess | StepFailed | StepSkipped | StepAwaiting

datatype step_error =
    UnknownAction string
  | MalformedPlaceholder string
  | NotCompleted string string
  | NoResultKey string string string
  | ToolRaised string

record step_result =
  sr_status :: step_status
  sr_value :: pyval
  sr_error :: "step_error option"

type_synonym step_results_map = "(string, step_result) dict"

datatype wf_message =
    Delegation string string metadata
  | ToolResult string string "string + pyval"

record wf_env =
  te_known :: "string \<Rightarrow> bool"
  te_answer :: "string \<Rightarrow> metadata \<Rightarrow> string + pyval"

definition step_failure :: "step_error \<Rightarrow> step_result" where
  "step_failure x = \<lparr>sr_status = StepFailed, sr_value = PNone, sr_error = Some x\<rparr>"

definition step_success :: "pyval \<Rightarrow> step_result" where
  "step_success v = \<lparr>sr_status = StepSuccess, sr_value = v, sr_error = None\<rparr>"

definition step_bare :: "step_status \<Rightarrow> step_result" where
  "step_bare s = \<lparr>sr_status = s, sr_value = PNone, sr_error = None\<rparr>"

text \<open>\<^verbatim>\<open>rest.split(".", 1)\<close> with two parts, and the placeholder \<^verbatim>\<open>$steps.<node>.<key>\<close>.\<close>

definition split_dot :: "string \<Rightarrow> (string \<times> string) option" where
  "split_dot s = (case dropWhile (\<lambda>c. c \<noteq> CHR ''.'') s of [] \<Rightarrow> None
     | _ # rest \<Rightarrow> Some (takeWhile (\<lambda>c. c \<noteq> CHR ''.'') s, rest))"

definition resolve_value :: "step_results_map \<Rightarrow> string \<Rightarrow> step_error + pyval" where
  "resolve_value R v =
     (if \<not> is_prefix ''$steps.'' v then Inr (PStr v)
      else case split_dot (drop 7 v) of None \<Rightarrow> Inl (MalformedPlaceholder v)
        | Some (i, key) \<Rightarrow> (case dict_get R i of None \<Rightarrow> Inl (NotCompleted v i)
           | Some r \<Rightarrow> if sr_status r \<noteq> StepSuccess then Inl (NotCompleted v i)
               else (case sr_value r of
                   PDict m \<Rightarrow> (case dict_get m key of None \<Rightarrow> Inl (NoResultKey v i key) | Some x \<Rightarrow> Inr x)
                 | _ \<Rightarrow> Inl (NoResultKey v i key))))"

fun resolve_param :: "step_results_map \<Rightarrow> string \<times> pyval \<Rightarrow> step_error + (string \<times> pyval)" where
  "resolve_param R (k, PStr s) = bind_sum (resolve_value R s) (\<lambda>v. Inr (k, v))"
| "resolve_param R (k, v) = Inr (k, v)"

definition resolve_params :: "step_results_map \<Rightarrow> metadata \<Rightarrow> step_error + metadata" where
  "resolve_params R ps = map_sum_list (resolve_param R) ps"

definition execute_wf_node :: "wf_env \<Rightarrow> workflow_node \<Rightarrow> step_results_map \<Rightarrow> step_result \<times> wf_message list" where
  "execute_wf_node env n R =
     (if \<not> te_known env (wn_action n) then (step_failure (UnknownAction (wn_action n)), [])
      else case resolve_params R (wn_params n) of Inl x \<Rightarrow> (step_failure x, [])
        | Inr ps \<Rightarrow>
            (let a = te_answer env (wn_id n) ps;
                 msgs = [Delegation (wn_id n) (wn_action n) ps, ToolResult (wn_id n) (wn_action n) a]
             in (case a of Inl x \<Rightarrow> step_failure (ToolRaised x) | Inr v \<Rightarrow> step_success v, msgs)))"

subsection \<open>The walk in waves\<close>

definition edge_satisfied :: "step_results_map \<Rightarrow> workflow_edge \<Rightarrow> bool" where
  "edge_satisfied R e =
     (if we_cond e = ''always'' then True
      else case dict_get R (we_from e) of None \<Rightarrow> False
        | Some r \<Rightarrow> if we_cond e = ''on_success'' then sr_status r = StepSuccess
            else if we_cond e = ''on_failure'' then sr_status r = StepFailed else False)"

definition wf_ready :: "workflow \<Rightarrow> string list \<Rightarrow> step_results_map \<Rightarrow> string list \<Rightarrow> string list" where
  "wf_ready w dn R remaining = filter (\<lambda>i. let inc = incoming_edges w i
     in inc = [] \<or> (list_all (\<lambda>e. we_from e \<in> set dn) inc \<and> list_ex (edge_satisfied R) inc)) (sort remaining)"

record wf_state =
  ws_results :: step_results_map
  ws_done :: "string list"
  ws_remaining :: "string list"
  ws_pending :: "string list"
  ws_log :: "wf_message list"

definition nodes_named :: "workflow \<Rightarrow> string list \<Rightarrow> workflow_node list" where
  "nodes_named w is = List.map_filter (\<lambda>i. case wf_node w i of Inl _ \<Rightarrow> None | Inr n \<Rightarrow> Some n) is"

definition held_back :: "string list \<Rightarrow> workflow_node \<Rightarrow> bool" where
  "held_back approved n \<longleftrightarrow> wn_gate n \<and> wn_id n \<notin> set approved"

definition wf_wave :: "wf_env \<Rightarrow> workflow \<Rightarrow> string list \<Rightarrow> wf_state \<Rightarrow> wf_state" where
  "wf_wave env w approved st =
     (let ready = wf_ready w (ws_done st) (ws_results st) (ws_remaining st);
          nodes = nodes_named w ready;
          waiting = filter (held_back approved) nodes;
          runnable = filter (\<lambda>n. \<not> held_back approved n) nodes;
          R1 = fold (\<lambda>n. dict_set (wn_id n) (step_bare StepAwaiting)) waiting (ws_results st);
          R2 = fold (\<lambda>n. dict_set (wn_id n) (fst (execute_wf_node env n R1))) runnable R1
      in st\<lparr>ws_results := R2, ws_done := ws_done st @ map wn_id runnable,
            ws_remaining := filter (\<lambda>i. i \<notin> set ready) (ws_remaining st),
            ws_pending := ws_pending st @ map wn_id waiting,
            ws_log := ws_log st @ concat (map (\<lambda>n. snd (execute_wf_node env n R1)) runnable)\<rparr>)"

lemma wf_ready_subset: "set (wf_ready w dn R rem) \<subseteq> set rem"
  by (auto simp: wf_ready_def)

lemma wf_wave_remaining:
  "wf_ready w (ws_done st) (ws_results st) (ws_remaining st) \<noteq> [] \<Longrightarrow>
     length (ws_remaining (wf_wave env w approved st)) < length (ws_remaining st)"
  using wf_ready_subset[of w "ws_done st" "ws_results st" "ws_remaining st"]
  by (force simp: wf_wave_def Let_def neq_Nil_conv intro!: length_filter_less)

function run_waves :: "wf_env \<Rightarrow> workflow \<Rightarrow> string list \<Rightarrow> wf_state \<Rightarrow> wf_state" where
  "run_waves env w approved st =
     (if ws_remaining st = [] then st
      else if wf_ready w (ws_done st) (ws_results st) (ws_remaining st) = [] then st
      else run_waves env w approved (wf_wave env w approved st))"
  by pat_completeness auto
termination
  by (relation "measure (\<lambda>(env, w, approved, st). length (ws_remaining st))") (auto intro: wf_wave_remaining)

declare run_waves.simps [simp del]

definition mark_skipped :: "wf_state \<Rightarrow> step_results_map" where
  "mark_skipped st = fold (\<lambda>i. dict_set i (step_bare StepSkipped)) (ws_remaining st) (ws_results st)"

datatype wf_status = RunCompleted | RunFailed | RunPartial | RunAwaiting

definition overall_status :: "step_results_map \<Rightarrow> string list \<Rightarrow> wf_status" where
  "overall_status R pending =
     (let ss = map sr_status (dict_values R)
      in if pending \<noteq> [] then RunAwaiting
         else if set ss \<subseteq> {StepSuccess, StepSkipped} then RunCompleted
         else if StepSuccess \<in> set ss then RunPartial else RunFailed)"

subsection \<open>Runs and the table that remembers them\<close>

record wf_record =
  wr_workflow :: string
  wr_project :: "string option"
  wr_status :: wf_status
  wr_results :: step_results_map
  wr_pending :: "string list"
  wr_approved :: "string list"
  wr_created :: time
  wr_updated :: time

record workflow_run =
  wu_id :: string
  wu_workflow :: string
  wu_status :: wf_status
  wu_results :: step_results_map
  wu_pending :: "string list"
  wu_project :: "string option"

type_synonym wf_table = "(string, wf_record) dict"

definition save_run :: "time \<Rightarrow> workflow_run \<Rightarrow> string list \<Rightarrow> wf_table \<Rightarrow> wf_table" where
  "save_run now r approved tab = dict_set (wu_id r)
     \<lparr>wr_workflow = wu_workflow r, wr_project = wu_project r, wr_status = wu_status r,
      wr_results = wu_results r, wr_pending = wu_pending r, wr_approved = sort (remdups approved),
      wr_created = (case dict_get tab (wu_id r) of None \<Rightarrow> now | Some old \<Rightarrow> wr_created old), wr_updated = now\<rparr> tab"

definition run_of_record :: "string \<Rightarrow> wf_record \<Rightarrow> workflow_run" where
  "run_of_record i r = \<lparr>wu_id = i, wu_workflow = wr_workflow r, wu_status = wr_status r,
     wu_results = wr_results r, wu_pending = wr_pending r, wu_project = wr_project r\<rparr>"

definition get_workflow_run :: "wf_table \<Rightarrow> string \<Rightarrow> workflow_run option" where
  "get_workflow_run tab i = map_option (run_of_record i) (dict_get tab i)"

definition list_workflow_runs :: "string option \<Rightarrow> string option \<Rightarrow> wf_table \<Rightarrow> workflow_run list" where
  "list_workflow_runs wid pid tab =
     map (\<lambda>(i, r). run_of_record i r)
       (filter (\<lambda>(i, r). (case pid of None \<Rightarrow> True | Some p \<Rightarrow> wr_project r = Some p))
         (filter (\<lambda>(i, r). (case wid of None \<Rightarrow> True | Some x \<Rightarrow> wr_workflow r = x))
           (sort_key (\<lambda>(i, r). - wr_created r) tab)))"

definition is_settled :: "step_result \<Rightarrow> bool" where
  "is_settled r \<longleftrightarrow> sr_status r = StepSuccess \<or> sr_status r = StepFailed"

definition start_state :: "workflow \<Rightarrow> step_results_map \<Rightarrow> wf_state" where
  "start_state w R =
     (let dn = map fst (filter (\<lambda>(i, r). is_settled r) R)
      in \<lparr>ws_results = R, ws_done = dn, ws_remaining = filter (\<lambda>i. i \<notin> set dn) (remdups (wf_ids w)),
          ws_pending = [], ws_log = []\<rparr>)"

definition walk_workflow :: "wf_env \<Rightarrow> workflow \<Rightarrow> string list \<Rightarrow> step_results_map \<Rightarrow> wf_state" where
  "walk_workflow env w approved R = run_waves env w approved (start_state w R)"

definition run_workflow :: "wf_env \<Rightarrow> time \<Rightarrow> string \<Rightarrow> workflow \<Rightarrow> string option \<Rightarrow> string list \<Rightarrow> wf_table
    \<Rightarrow> (string + workflow_run) \<times> wf_table \<times> wf_message list" where
  "run_workflow env now uuid w rid newly tab =
     (let go = (\<lambda>i R approved.
        let st = walk_workflow env w approved R; R' = mark_skipped st;
            r = \<lparr>wu_id = i, wu_workflow = wf_id w, wu_status = overall_status R' (ws_pending st),
                 wu_results = R', wu_pending = ws_pending st, wu_project = wf_project w\<rparr>
        in (Inr r, save_run now r approved tab, ws_log st))
      in case rid of None \<Rightarrow> go uuid [] newly
         | Some i \<Rightarrow> (case dict_get tab i of None \<Rightarrow> (Inl i, tab, [])
             | Some p \<Rightarrow> go i (wr_results p) (wr_approved p @ newly)))"

subsection \<open>The dry run\<close>

definition in_degrees :: "workflow \<Rightarrow> string degrees" where
  "in_degrees w = fold (\<lambda>e D. dict_set (we_to e) (degree D (we_to e) + 1) D) (wf_edges w)
     (map (\<lambda>i. (i, 0)) (remdups (wf_ids w)))"

function order_loop :: "workflow \<Rightarrow> string list \<Rightarrow> string degrees \<Rightarrow> string list" where
  "order_loop w [] D = []"
| "order_loop w (i # fr) D =
     (case relax (map we_to (outgoing_edges w i)) D [] of (D', fresh) \<Rightarrow>
        i # order_loop w (sort (fr @ fresh)) D')"
  by pat_completeness auto
termination
proof (relation "measure (\<lambda>(w, Q, D). length Q + card (positive D))", goal_cases)
  case (2 w i fr D D' fresh)
  have "relax (map we_to (outgoing_edges w i)) D fr = (D', fr @ fresh)"
    using relax_frame[of "map we_to (outgoing_edges w i)" D fr "[]"] by (simp add: 2[symmetric])
  from relax_measure[OF this] show ?case by simp
qed simp

definition topological_order :: "workflow \<Rightarrow> string list" where
  "topological_order w = order_loop w (sort (zero_degree (in_degrees w))) (in_degrees w)"

definition lower_targets :: "workflow_edge list \<Rightarrow> string degrees \<Rightarrow> string degrees" where
  "lower_targets es D = fold (\<lambda>e D. if we_to e \<in> set (dict_keys D)
     then dict_set (we_to e) (degree D (we_to e) - 1) D else D) es D"

definition strip_wave :: "workflow \<Rightarrow> string list \<Rightarrow> string degrees \<Rightarrow> string degrees" where
  "strip_wave w wave D = fold (\<lambda>i D. lower_targets (outgoing_edges w i) (dict_del i D)) wave D"

lemma keys_lower_targets [simp]: "fst ` set (lower_targets es D) = fst ` set D"
  unfolding lower_targets_def by (induction es arbitrary: D) (auto simp: insert_absorb)

lemma keys_strip_wave: "fst ` set (strip_wave w wave D) = fst ` set D - set wave"
  unfolding strip_wave_def by (induction wave arbitrary: D) auto

function wave_loop :: "workflow \<Rightarrow> string degrees \<Rightarrow> string list list" where
  "wave_loop w D =
     (if D = [] then []
      else if zero_degree D = [] then []
      else sort (zero_degree D) # wave_loop w (strip_wave w (sort (zero_degree D)) D))"
  by pat_completeness auto
termination
proof (relation "measure (\<lambda>(w, D). card (fst ` set D))", goal_cases)
  case (2 w D)
  then obtain i where "i \<in> set (zero_degree D)" by (meson last_in_set)
  moreover have "set (zero_degree D) \<subseteq> fst ` set D" by (auto simp: zero_degree_def)
  ultimately have "fst ` set D - set (zero_degree D) \<subset> fst ` set D" by blast
  then show ?case by (simp add: keys_strip_wave psubset_card_mono)
qed simp

declare wave_loop.simps [simp del]

definition structural_waves :: "workflow \<Rightarrow> string list list" where
  "structural_waves w = wave_loop w (in_degrees w)"

record simulation =
  sm_workflow :: string
  sm_order :: "string list"
  sm_gates :: "string list"
  sm_waves :: "string list list"
  sm_parallel :: nat

definition simulate :: "nat \<Rightarrow> workflow \<Rightarrow> simulation" where
  "simulate max_parallel w = \<lparr>sm_workflow = wf_id w, sm_order = topological_order w,
     sm_gates = map wn_id (filter wn_gate (wf_nodes w)), sm_waves = structural_waves w,
     sm_parallel = max_parallel\<rparr>"

end
