(* ===== verification/Workflow_Correct.thy ===== *)
theory Workflow_Correct
  imports Workflow
begin

text \<open>
  What \<open>Workflow\<close> guarantees: the depth-first check accepts exactly the acyclic graphs; a walk gives every
  node the result its predecessors prescribe, whatever the order of the approvals; a gate is never passed
  without its approval and nothing runs twice.
\<close>

subsection \<open>The depth-first check\<close>

definition wf_rel :: "workflow \<Rightarrow> (string \<times> string) set" where
  "wf_rel w = (\<lambda>e. (we_from e, we_to e)) ` set (wf_edges w)"

definition black_rel :: "workflow \<Rightarrow> colours \<Rightarrow> (string \<times> string) set" where
  "black_rel w c = {(a, b) \<in> wf_rel w. dict_get c a = Some Black}"

definition black_ok :: "workflow \<Rightarrow> colours \<Rightarrow> bool" where
  "black_ok w c \<longleftrightarrow> acyclic (black_rel w c) \<and>
     (\<forall>(a, b) \<in> wf_rel w. dict_get c a = Some Black \<longrightarrow> dict_get c b = Some Black)"

lemma visit_edges_gray:
  "visit_edges w es c = Inr d \<Longrightarrow>
     (dict_get d i = Some Gray \<longleftrightarrow> dict_get c i = Some Gray) \<and> (dict_get d i = None \<longleftrightarrow> dict_get c i = None)"
proof (induction w es c arbitrary: d rule: visit_edges.induct)
  case (2 w e es c)
  show ?case
  proof (cases "dict_get c (we_to e)")
    case None
    with 2 show ?thesis by simp
  next
    case (Some x)
    show ?thesis
    proof (cases x)
      case White
      with 2 Some obtain c1 where
        c1: "visit_edges w (outgoing_edges w (we_to e)) (dict_set (we_to e) Gray c) = Inr c1" and
        d: "visit_edges w es (dict_set (we_to e) Black c1) = Inr d"
        by (auto split: sum.splits)
      show ?thesis
        using "2.IH"(1)[OF Some White c1] "2.IH"(2)[OF Some White c1 d] Some White by (auto split: if_splits)
    qed (use 2 Some in simp_all)
  qed
qed simp

lemma acyclic_new_source:
  assumes "acyclic S" "S \<subseteq> B \<times> B" "v \<notin> B" "T \<subseteq> B"
  shows "acyclic (S \<union> {v} \<times> T)"
proof -
  let ?S = "S \<union> {v} \<times> T"
  have old: "(x, y) \<in> ?S\<^sup>+ \<Longrightarrow> x \<noteq> v \<Longrightarrow> (x, y) \<in> S\<^sup>+ \<and> y \<noteq> v" for x y
  proof (induction rule: trancl_induct)
    case (base y)
    then show ?case using assms(2,3) by auto
  next
    case (step y z)
    then have "(y, z) \<in> S" "z \<noteq> v" using assms(2,3) by auto
    with step show ?case by (auto intro: trancl_into_trancl)
  qed
  have "(v, v) \<notin> ?S\<^sup>+"
  proof
    assume "(v, v) \<in> ?S\<^sup>+"
    then obtain z where "(z, v) \<in> ?S" by (meson tranclE)
    with assms(2-4) show False by auto
  qed
  with old assms(1) show ?thesis unfolding acyclic_def by blast
qed

lemma black_rel_set:
  assumes "black_ok w c" "dict_get c v \<noteq> Some Black"
    "\<And>e. e \<in> set (outgoing_edges w v) \<Longrightarrow> dict_get c (we_to e) = Some Black"
  shows "black_ok w (dict_set v Black c)"
proof -
  let ?T = "{b. (v, b) \<in> wf_rel w}" and ?B = "{i. dict_get c i = Some Black}"
  have T: "?T \<subseteq> ?B" using assms(3) by (auto simp: wf_rel_def outgoing_edges_def)
  have B: "black_rel w c \<subseteq> ?B \<times> ?B" using assms(1) by (auto simp: black_ok_def black_rel_def)
  have "black_rel w (dict_set v Black c) = black_rel w c \<union> {v} \<times> ?T"
    by (auto simp: black_rel_def split: if_splits)
  moreover have "acyclic (black_rel w c \<union> {v} \<times> ?T)"
    by (rule acyclic_new_source[OF _ B _ T]) (use assms(1,2) in \<open>auto simp: black_ok_def\<close>)
  ultimately show ?thesis using assms(1) T by (auto simp: black_ok_def split: if_splits)
qed

lemma black_ok_gray: "dict_get c v = Some White \<Longrightarrow> black_ok w c \<Longrightarrow> black_ok w (dict_set v Gray c)"
proof -
  assume a: "dict_get c v = Some White" "black_ok w c"
  have "black_rel w (dict_set v Gray c) = black_rel w c" using a(1) by (auto simp: black_rel_def split: if_splits)
  with a show ?thesis by (auto simp: black_ok_def split: if_splits)
qed

lemma visit_edges_black:
  "visit_edges w es c = Inr d \<Longrightarrow> black_ok w c \<Longrightarrow>
     black_ok w d \<and> (\<forall>i. dict_get c i = Some Black \<longrightarrow> dict_get d i = Some Black) \<and>
     (\<forall>e \<in> set es. dict_get d (we_to e) = Some Black)"
proof (induction w es c arbitrary: d rule: visit_edges.induct)
  case (2 w e es c)
  let ?v = "we_to e"
  show ?case
  proof (cases "dict_get c ?v")
    case None
    with "2.prems"(1) show ?thesis by simp
  next
    case (Some x)
    show ?thesis
    proof (cases x)
      case White
      with "2.prems"(1) Some obtain c1 where
        c1: "visit_edges w (outgoing_edges w ?v) (dict_set ?v Gray c) = Inr c1" and
        d: "visit_edges w es (dict_set ?v Black c1) = Inr d"
        by (auto split: sum.splits)
      have white: "dict_get c ?v = Some White" using Some White by simp
      have g: "black_ok w (dict_set ?v Gray c)" using white "2.prems"(2) by (rule black_ok_gray)
      from "2.IH"(1)[OF Some White c1 g] have ok1: "black_ok w c1"
        and keep1: "\<forall>i. dict_get (dict_set ?v Gray c) i = Some Black \<longrightarrow> dict_get c1 i = Some Black"
        and out1: "\<forall>e \<in> set (outgoing_edges w ?v). dict_get c1 (we_to e) = Some Black"
        by blast+
      have "dict_get c1 ?v = Some Gray" using visit_edges_gray[OF c1, of ?v] by simp
      then have ok2: "black_ok w (dict_set ?v Black c1)" using ok1 out1 by (intro black_rel_set) simp_all
      from "2.IH"(2)[OF Some White c1 d ok2] have ok: "black_ok w d"
        and keep: "\<forall>i. dict_get (dict_set ?v Black c1) i = Some Black \<longrightarrow> dict_get d i = Some Black"
        and out: "\<forall>e \<in> set es. dict_get d (we_to e) = Some Black"
        by blast+
      have "dict_get d ?v = Some Black" using keep by simp
      moreover have "dict_get d i = Some Black" if "dict_get c i = Some Black" for i
        using that white keep1[rule_format, of i] keep[rule_format, of i] by (cases "i = ?v") simp_all
      ultimately show ?thesis using ok out by simp
    next
      case Black
      with "2.prems"(1) Some have "visit_edges w es c = Inr d" by simp
      from "2.IH"(3)[OF Some Black this "2.prems"(2)] Some Black show ?thesis by simp
    next
      case Gray
      with "2.prems"(1) Some show ?thesis by simp
    qed
  qed
qed simp

lemma visit_edges_cycle:
  "visit_edges w es c = Inl x \<Longrightarrow> \<forall>e \<in> set es. e \<in> set (wf_edges w) \<and> we_from e = u \<Longrightarrow>
     \<forall>g. dict_get c g = Some Gray \<longrightarrow> (g, u) \<in> (wf_rel w)\<^sup>* \<Longrightarrow>
     \<forall>e \<in> set (wf_edges w). dict_get c (we_to e) \<noteq> None \<Longrightarrow>
     \<exists>v. x = WorkflowCycle (wf_id w) v \<and> (v, v) \<in> (wf_rel w)\<^sup>+"
proof (induction w es c arbitrary: u rule: visit_edges.induct)
  case (2 w e es c)
  let ?v = "we_to e"
  have uv: "(u, ?v) \<in> wf_rel w" using "2.prems"(2) by (force simp: wf_rel_def)
  have es: "\<forall>e \<in> set es. e \<in> set (wf_edges w) \<and> we_from e = u" using "2.prems"(2) by simp
  obtain y where y: "dict_get c ?v = Some y" using "2.prems"(2,4) by fastforce
  show ?case
  proof (cases y)
    case White
    show ?thesis
    proof (cases "visit_edges w (outgoing_edges w ?v) (dict_set ?v Gray c)")
      case (Inl x')
      with "2.prems"(1) y White have "x' = x" by simp
      show ?thesis
      proof (rule "2.IH"(1)[OF y White Inl[unfolded \<open>x' = x\<close>], of ?v])
        show "\<forall>e' \<in> set (outgoing_edges w ?v). e' \<in> set (wf_edges w) \<and> we_from e' = ?v"
          by (simp add: outgoing_edges_def)
        show "\<forall>g. dict_get (dict_set ?v Gray c) g = Some Gray \<longrightarrow> (g, ?v) \<in> (wf_rel w)\<^sup>*"
          using "2.prems"(3) uv by (auto intro: rtrancl_into_rtrancl)
        show "\<forall>e' \<in> set (wf_edges w). dict_get (dict_set ?v Gray c) (we_to e') \<noteq> None"
          using "2.prems"(4) by simp
      qed
    next
      case (Inr c1)
      with "2.prems"(1) y White have e2: "visit_edges w es (dict_set ?v Black c1) = Inl x" by simp
      note g = visit_edges_gray[OF Inr]
      show ?thesis
      proof (rule "2.IH"(2)[OF y White Inr e2 es])
        show "\<forall>g. dict_get (dict_set ?v Black c1) g = Some Gray \<longrightarrow> (g, u) \<in> (wf_rel w)\<^sup>*"
          using g "2.prems"(3) by (simp split: if_splits)
        show "\<forall>e' \<in> set (wf_edges w). dict_get (dict_set ?v Black c1) (we_to e') \<noteq> None"
        proof
          fix e' assume "e' \<in> set (wf_edges w)"
          then show "dict_get (dict_set ?v Black c1) (we_to e') \<noteq> None"
            using g[of "we_to e'"] "2.prems"(4) by (cases "we_to e' = ?v") auto
        qed
      qed
    qed
  next
    case Gray
    then have "(?v, u) \<in> (wf_rel w)\<^sup>*" using "2.prems"(3) y by simp
    then have "(?v, ?v) \<in> (wf_rel w)\<^sup>+" using uv by (rule rtrancl_into_trancl1)
    then show ?thesis using "2.prems"(1) y Gray by auto
  next
    case Black
    show ?thesis by (rule "2.IH"(3)[OF y Black _ es "2.prems"(3,4)]) (use "2.prems"(1) y Black in simp)
  qed
qed simp

lemma visit_nodes_black:
  "visit_nodes w is c = Inr d \<Longrightarrow> black_ok w c \<Longrightarrow> (\<And>g. dict_get c g \<noteq> Some Gray) \<Longrightarrow>
     (\<And>i. i \<in> set is \<Longrightarrow> dict_get c i \<noteq> None) \<Longrightarrow>
     black_ok w d \<and> (\<forall>i. dict_get c i = Some Black \<or> i \<in> set is \<longrightarrow> dict_get d i = Some Black)"
proof (induction "is" arbitrary: c)
  case (Cons i "is")
  show ?case
  proof (cases "dict_get c i = Some White")
    case True
    with Cons.prems(1) obtain c1 where
      c1: "visit_edges w (outgoing_edges w i) (dict_set i Gray c) = Inr c1" and
      d: "visit_nodes w is (dict_set i Black c1) = Inr d"
      by (auto simp: visit_def bind_sum_def split: sum.splits)
    note g = visit_edges_gray[OF c1]
    note b = visit_edges_black[OF c1 black_ok_gray[OF True Cons.prems(2)]]
    have "black_ok w (dict_set i Black c1)" using b g[of i] by (intro black_rel_set) simp_all
    have ih: "black_ok w d \<and>
        (\<forall>j. dict_get (dict_set i Black c1) j = Some Black \<or> j \<in> set is \<longrightarrow> dict_get d j = Some Black)"
    proof (rule Cons.IH[OF d \<open>black_ok w (dict_set i Black c1)\<close>])
      fix j
      show "dict_get (dict_set i Black c1) j \<noteq> Some Gray" using g[of j] Cons.prems(3)[of j] by simp
      assume "j \<in> set is"
      then show "dict_get (dict_set i Black c1) j \<noteq> None"
        using g[of j] Cons.prems(4)[of j] by (cases "j = i") auto
    qed
    then show ?thesis using b True by (auto split: if_splits)
  next
    case False
    then have "dict_get c i = Some Black"
      using Cons.prems(3)[of i] Cons.prems(4)[of i] by (cases "dict_get c i") (auto intro: colour.exhaust)
    with False Cons.IH[OF _ Cons.prems(2,3)] Cons.prems show ?thesis by auto
  qed
qed simp

lemma visit_nodes_cycle:
  "visit_nodes w is c = Inl x \<Longrightarrow> (\<And>g. dict_get c g \<noteq> Some Gray) \<Longrightarrow>
     \<forall>e \<in> set (wf_edges w). dict_get c (we_to e) \<noteq> None \<Longrightarrow>
     \<exists>v. x = WorkflowCycle (wf_id w) v \<and> (v, v) \<in> (wf_rel w)\<^sup>+"
proof (induction "is" arbitrary: c)
  case (Cons i "is")
  show ?case
  proof (cases "dict_get c i = Some White")
    case True
    show ?thesis
    proof (cases "visit_edges w (outgoing_edges w i) (dict_set i Gray c)")
      case (Inl y)
      with True Cons.prems(1) have "y = x" by (simp add: visit_def bind_sum_def)
      with Inl have "visit_edges w (outgoing_edges w i) (dict_set i Gray c) = Inl x" by simp
      then show ?thesis
        by (rule visit_edges_cycle[where u = i]) (use Cons.prems(2,3) in \<open>auto simp: outgoing_edges_def\<close>)
    next
      case (Inr c1)
      note g = visit_edges_gray[OF Inr]
      have "visit_nodes w is (dict_set i Black c1) = Inl x"
        using True Cons.prems(1) Inr by (simp add: visit_def bind_sum_def)
      then show ?thesis
      proof (rule Cons.IH)
        show "dict_get (dict_set i Black c1) h \<noteq> Some Gray" for h using g[of h] Cons.prems(2)[of h] by simp
        show "\<forall>e \<in> set (wf_edges w). dict_get (dict_set i Black c1) (we_to e) \<noteq> None"
        proof
          fix e assume "e \<in> set (wf_edges w)"
          then show "dict_get (dict_set i Black c1) (we_to e) \<noteq> None"
            using g[of "we_to e"] Cons.prems(3) by (cases "we_to e = i") auto
        qed
      qed
    qed
  qed (use Cons in simp)
qed simp

lemma check_acyclic_iff:
  assumes "we_from ` set (wf_edges w) \<subseteq> set (wf_ids w)" "we_to ` set (wf_edges w) \<subseteq> set (wf_ids w)"
  shows "check_acyclic w = Inr () \<longleftrightarrow> acyclic (wf_rel w)"
    and "check_acyclic w = Inl x \<Longrightarrow> \<exists>v. x = WorkflowCycle (wf_id w) v \<and> (v, v) \<in> (wf_rel w)\<^sup>+"
proof -
  define c0 where "c0 = map (\<lambda>i. (i, White)) (wf_ids w)"
  have c0: "dict_get c0 i = (if i \<in> set (wf_ids w) then Some White else None)" for i
    by (simp add: c0_def map_of_map_pairs)
  have "dict_get c0 i \<noteq> Some Black" for i by (simp add: c0)
  then have ok: "black_ok w c0" by (auto simp: black_ok_def black_rel_def acyclic_def)
  have cyc: "\<exists>v. x = WorkflowCycle (wf_id w) v \<and> (v, v) \<in> (wf_rel w)\<^sup>+" if "check_acyclic w = Inl x" for x
    by (rule visit_nodes_cycle[of w "wf_ids w" c0])
      (use that assms(2) in \<open>auto simp: check_acyclic_def bind_sum_def c0 simp flip: c0_def split: sum.splits\<close>)
  show "check_acyclic w = Inl x \<Longrightarrow> \<exists>v. x = WorkflowCycle (wf_id w) v \<and> (v, v) \<in> (wf_rel w)\<^sup>+"
    by (rule cyc)
  show "check_acyclic w = Inr () \<longleftrightarrow> acyclic (wf_rel w)"
  proof
    assume "check_acyclic w = Inr ()"
    then obtain d where d: "visit_nodes w (wf_ids w) c0 = Inr d"
      by (auto simp: check_acyclic_def bind_sum_def simp flip: c0_def split: sum.splits)
    have "black_ok w d \<and> (\<forall>i. dict_get c0 i = Some Black \<or> i \<in> set (wf_ids w) \<longrightarrow> dict_get d i = Some Black)"
      by (rule visit_nodes_black[OF d ok]) (simp_all add: c0)
    moreover have "black_rel w d = wf_rel w"
      using calculation assms(1) by (auto simp: black_rel_def wf_rel_def)
    ultimately show "acyclic (wf_rel w)" by (simp add: black_ok_def)
  next
    assume "acyclic (wf_rel w)"
    then show "check_acyclic w = Inr ()" using cyc by (cases "check_acyclic w") (auto simp: acyclic_def)
  qed
qed

lemma check_edges_iff:
  "check_edges ids es = Inr () \<longleftrightarrow> we_cond ` set es \<subseteq> set valid_conditions \<and>
     we_from ` set es \<subseteq> set ids \<and> we_to ` set es \<subseteq> set ids"
  by (induction es) auto

lemma validate_iff:
  "validate_workflow w = Inr () \<longleftrightarrow>
     wf_nodes w \<noteq> [] \<and> distinct (wf_ids w) \<and> we_cond ` set (wf_edges w) \<subseteq> set valid_conditions \<and>
     we_from ` set (wf_edges w) \<subseteq> set (wf_ids w) \<and> we_to ` set (wf_edges w) \<subseteq> set (wf_ids w) \<and>
     acyclic (wf_rel w)"
proof -
  have "length (wf_nodes w) = length (wf_ids w)" by (simp add: wf_ids_def)
  then have "length (remdups (wf_ids w)) = length (wf_nodes w) \<longleftrightarrow> distinct (wf_ids w)"
    by (metis distinct_remdups_id length_remdups_eq length_remdups_leq remdups_id_iff_distinct)
  note dist = this
  let ?ends = "we_cond ` set (wf_edges w) \<subseteq> set valid_conditions \<and>
     we_from ` set (wf_edges w) \<subseteq> set (wf_ids w) \<and> we_to ` set (wf_edges w) \<subseteq> set (wf_ids w)"
  show ?thesis
  proof (cases ?ends)
    case True
    then have e: "check_edges (wf_ids w) (wf_edges w) = Inr ()" by (simp only: check_edges_iff)
    have "check_acyclic w = Inr () \<longleftrightarrow> acyclic (wf_rel w)" using True by (intro check_acyclic_iff(1)) simp_all
    with True show ?thesis by (simp add: validate_workflow_def bind_sum_def e dist)
  next
    case False
    then have "check_edges (wf_ids w) (wf_edges w) \<noteq> Inr ()" by (simp only: check_edges_iff not_False_eq_True)
    then obtain y where e: "check_edges (wf_ids w) (wf_edges w) = Inl y"
      by (cases "check_edges (wf_ids w) (wf_edges w)") auto
    show ?thesis using False by (auto simp: validate_workflow_def bind_sum_def e)
  qed
qed

text \<open>
  C32. Validation of a workflow accepts exactly the graphs with at least one node, distinct node ids, known
  conditions, edges between known nodes and no cycle: the recursive three-colour search of
  \<^verbatim>\<open>_check_acyclic\<close> decides acyclicity of the edge relation.
\<close>

theorem workflow_accepted_exactly:
  "validate_workflow w = Inr () \<longleftrightarrow>
     wf_nodes w \<noteq> [] \<and> distinct (wf_ids w) \<and> we_cond ` set (wf_edges w) \<subseteq> set valid_conditions \<and>
     we_from ` set (wf_edges w) \<subseteq> set (wf_ids w) \<and> we_to ` set (wf_edges w) \<subseteq> set (wf_ids w) \<and>
     acyclic (wf_rel w)"
  by (rule validate_iff)

subsection \<open>What a node is due\<close>

definition settled_at :: "step_results_map \<Rightarrow> string \<Rightarrow> bool" where
  "settled_at R i = (case dict_get R i of None \<Rightarrow> False | Some r \<Rightarrow> is_settled r)"

definition fires :: "workflow \<Rightarrow> step_results_map \<Rightarrow> string \<Rightarrow> bool" where
  "fires w R i \<longleftrightarrow> (let inc = incoming_edges w i
     in inc = [] \<or> (list_all (\<lambda>e. settled_at R (we_from e)) inc \<and> list_ex (edge_satisfied R) inc))"

definition prescribed :: "wf_env \<Rightarrow> workflow \<Rightarrow> string list \<Rightarrow> step_results_map \<Rightarrow> workflow_node \<Rightarrow> step_result" where
  "prescribed env w A R n =
     (if \<not> fires w R (wn_id n) then step_bare StepSkipped
      else if held_back A n then step_bare StepAwaiting
      else fst (execute_wf_node env n R))"

definition agrees :: "step_results_map \<Rightarrow> step_results_map \<Rightarrow> bool" where
  "agrees R R' \<longleftrightarrow> (\<forall>i. settled_at R i \<longrightarrow> dict_get R' i = dict_get R i)"

text \<open>The nodes that the placeholders of a node name, and workflows that only look upstream.\<close>

definition ref_of :: "string \<Rightarrow> string list" where
  "ref_of v = (if is_prefix ''$steps.'' v then (case split_dot (drop 7 v) of None \<Rightarrow> [] | Some (i, _) \<Rightarrow> [i]) else [])"

fun refs_of_param :: "string \<times> pyval \<Rightarrow> string list" where
  "refs_of_param (k, PStr s) = ref_of s"
| "refs_of_param (k, v) = []"

definition refs_of :: "workflow_node \<Rightarrow> string list" where
  "refs_of n = concat (map refs_of_param (wn_params n))"

definition refs_upstream :: "workflow \<Rightarrow> bool" where
  "refs_upstream w \<longleftrightarrow> (\<forall>n \<in> set (wf_nodes w). \<forall>i \<in> set (refs_of n). (i, wn_id n) \<in> (wf_rel w)\<^sup>+)"

lemma resolve_param_cong:
  "(\<And>i. i \<in> set (refs_of_param p) \<Longrightarrow> dict_get R i = dict_get R' i) \<Longrightarrow> resolve_param R p = resolve_param R' p"
proof (induction p rule: refs_of_param.induct)
  case (1 k s)
  have "resolve_value R s = resolve_value R' s"
  proof (cases "is_prefix ''$steps.'' s \<and> split_dot (drop 7 s) \<noteq> None")
    case True
    then obtain i key where "split_dot (drop 7 s) = Some (i, key)" by auto
    with True 1[of i] show ?thesis by (simp add: resolve_value_def ref_of_def)
  next
    case False
    then show ?thesis by (cases "split_dot (drop 7 s)") (auto simp: resolve_value_def)
  qed
  then show ?case by simp
qed simp_all

lemma map_sum_list_cong: "(\<And>x. x \<in> set xs \<Longrightarrow> f x = g x) \<Longrightarrow> map_sum_list f xs = map_sum_list g xs"
  by (induction xs) simp_all

lemma execute_cong:
  "(\<And>i. i \<in> set (refs_of n) \<Longrightarrow> dict_get R i = dict_get R' i) \<Longrightarrow>
     execute_wf_node env n R = execute_wf_node env n R'"
proof -
  assume a: "\<And>i. i \<in> set (refs_of n) \<Longrightarrow> dict_get R i = dict_get R' i"
  have "resolve_params R (wn_params n) = resolve_params R' (wn_params n)"
    unfolding resolve_params_def
    by (intro map_sum_list_cong resolve_param_cong) (auto intro!: a simp: refs_of_def)
  then show ?thesis by (simp add: execute_wf_node_def)
qed

lemma is_settled_bare [simp]: "is_settled (step_bare StepSkipped) = False" "is_settled (step_bare StepAwaiting) = False"
  by (simp_all add: is_settled_def step_bare_def)

lemma is_settled_execute [simp]: "is_settled (fst (execute_wf_node env n R))"
  by (auto simp: execute_wf_node_def is_settled_def step_failure_def step_success_def Let_def split: sum.splits)

lemma edge_satisfied_cong:
  "dict_get R (we_from e) = dict_get R' (we_from e) \<Longrightarrow> edge_satisfied R e = edge_satisfied R' e"
  by (simp add: edge_satisfied_def)

lemma settled_at_agrees: "agrees R R' \<Longrightarrow> settled_at R i \<Longrightarrow> settled_at R' i"
  by (simp add: agrees_def settled_at_def)

lemma fires_cong:
  assumes "\<And>j. (j, i) \<in> wf_rel w \<Longrightarrow> dict_get R j = dict_get R' j"
  shows "fires w R i = fires w R' i"
proof -
  have "dict_get R (we_from e) = dict_get R' (we_from e)" if "e \<in> set (incoming_edges w i)" for e
    using that by (intro assms) (auto simp: incoming_edges_def wf_rel_def)
  then have "list_all (\<lambda>e. settled_at R (we_from e)) (incoming_edges w i) =
      list_all (\<lambda>e. settled_at R' (we_from e)) (incoming_edges w i)"
    "list_ex (edge_satisfied R) (incoming_edges w i) = list_ex (edge_satisfied R') (incoming_edges w i)"
    by (auto simp: list_all_iff list_ex_iff settled_at_def cong: edge_satisfied_cong)
  then show ?thesis by (simp add: fires_def Let_def)
qed

lemma fires_settled: "fires w R i \<Longrightarrow> (j, i) \<in> wf_rel w \<Longrightarrow> settled_at R j"
  by (force simp: fires_def Let_def wf_rel_def incoming_edges_def list_all_iff filter_empty_conv)

lemma fires_agrees: "agrees R R' \<Longrightarrow> fires w R i \<Longrightarrow> fires w R' i"
  by (metis agrees_def fires_cong fires_settled)

lemma fires_agrees_back: "agrees R R' \<Longrightarrow> (\<And>j. settled_at R' j \<Longrightarrow> settled_at R j) \<Longrightarrow> fires w R' i \<Longrightarrow> fires w R i"
  by (metis agrees_def fires_cong fires_settled)

lemma wf_ready_fires:
  "(\<And>i. settled_at R i \<longleftrightarrow> i \<in> set dn) \<Longrightarrow> wf_ready w dn R rem = filter (fires w R) (sort rem)"
  unfolding wf_ready_def fires_def by simp

subsection \<open>Nodes by name and the writing back of a wave\<close>

lemma wf_node_found:
  assumes "distinct (wf_ids w)"
  shows "wf_node w i = Inr n \<longleftrightarrow> n \<in> set (wf_nodes w) \<and> wn_id n = i"
proof -
  have "List.find (\<lambda>n. wn_id n = i) ns = Some n \<longleftrightarrow> n \<in> set ns \<and> wn_id n = i" if "distinct (map wn_id ns)" for ns
    using that by (induction ns) (auto simp: image_iff)
  from this[of "wf_nodes w"] assms show ?thesis by (auto simp: wf_node_def wf_ids_def split: option.splits)
qed

lemma nodes_named_ids:
  assumes "distinct (wf_ids w)" "set is \<subseteq> set (wf_ids w)"
  shows "map wn_id (nodes_named w is) = is"
    and "set (nodes_named w is) = {n \<in> set (wf_nodes w). wn_id n \<in> set is}"
proof -
  have found: "\<exists>n. wf_node w i = Inr n \<and> wn_id n = i \<and> n \<in> set (wf_nodes w)" if "i \<in> set is" for i
  proof -
    from that assms(2) obtain n where "n \<in> set (wf_nodes w)" "wn_id n = i" by (auto simp: wf_ids_def)
    then show ?thesis using wf_node_found[OF assms(1)] by blast
  qed
  then show "map wn_id (nodes_named w is) = is"
    by (induction "is") (force simp: nodes_named_def List.map_filter_def)+
  have "n \<in> set (nodes_named w is) \<longleftrightarrow> (\<exists>i \<in> set is. wf_node w i = Inr n)" for n
    by (induction "is") (auto simp: nodes_named_def List.map_filter_def split: sum.splits)
  then show "set (nodes_named w is) = {n \<in> set (wf_nodes w). wn_id n \<in> set is}"
    using wf_node_found[OF assms(1)] by auto
qed

lemma get_fold_set_other: "i \<notin> f ` set ns \<Longrightarrow> dict_get (fold (\<lambda>n. dict_set (f n) (g n)) ns R) i = dict_get R i"
  by (induction ns arbitrary: R) auto

lemma get_fold_set: "distinct (map f ns) \<Longrightarrow> n \<in> set ns \<Longrightarrow>
    dict_get (fold (\<lambda>n. dict_set (f n) (g n)) ns R) (f n) = Some (g n)"
proof (induction ns arbitrary: R)
  case (Cons m ns)
  show ?case
  proof (cases "m = n")
    case True
    with Cons.prems have "f n \<notin> f ` set ns" by auto
    with True show ?thesis by (simp add: get_fold_set_other)
  next
    case False
    with Cons show ?thesis by auto
  qed
qed simp

lemma keys_fold_set: "fst ` set (fold (\<lambda>n. dict_set (f n) (g n)) ns R) = f ` set ns \<union> fst ` set R"
  by (induction ns arbitrary: R) auto

lemma distinct_fold_set: "distinct (map fst R) \<Longrightarrow> distinct (map fst (fold (\<lambda>n. dict_set (f n) (g n)) ns R))"
  by (induction ns arbitrary: R) auto

subsection \<open>The walk keeps what it has settled\<close>

definition walk_inv :: "workflow \<Rightarrow> wf_state \<Rightarrow> bool" where
  "walk_inv w st \<longleftrightarrow>
     (\<forall>i. settled_at (ws_results st) i \<longleftrightarrow> i \<in> set (ws_done st)) \<and>
     distinct (ws_remaining st) \<and> set (ws_remaining st) \<subseteq> set (wf_ids w) \<and>
     set (ws_remaining st) \<inter> (set (ws_done st) \<union> set (ws_pending st)) = {} \<and>
     set (wf_ids w) \<subseteq> set (ws_done st) \<union> set (ws_pending st) \<union> set (ws_remaining st) \<and>
     distinct (map fst (ws_results st))"

text \<open>One wave seen from outside: the nodes that fire, those that are held back, those that run.\<close>

lemma wave_facts:
  assumes ids: "distinct (wf_ids w)" and inv: "walk_inv w st"
  defines "ready \<equiv> filter (fires w (ws_results st)) (sort (ws_remaining st))"
  obtains waiting runnable R1 R2 where
    "waiting = filter (held_back A) (nodes_named w ready)"
    "runnable = filter (\<lambda>n. \<not> held_back A n) (nodes_named w ready)"
    "set waiting = {n \<in> set (wf_nodes w). wn_id n \<in> set ready \<and> held_back A n}"
    "set runnable = {n \<in> set (wf_nodes w). wn_id n \<in> set ready \<and> \<not> held_back A n}"
    "wn_id ` set waiting \<union> wn_id ` set runnable = set ready" "wn_id ` set waiting \<inter> wn_id ` set runnable = {}"
    "distinct (map wn_id runnable)"
    "wf_wave env w A st = st\<lparr>ws_results := R2, ws_done := ws_done st @ map wn_id runnable,
       ws_remaining := filter (\<lambda>i. i \<notin> set ready) (ws_remaining st),
       ws_pending := ws_pending st @ map wn_id waiting,
       ws_log := ws_log st @ concat (map (\<lambda>n. snd (execute_wf_node env n R1)) runnable)\<rparr>"
    "\<And>i. i \<notin> set ready \<Longrightarrow> dict_get R1 i = dict_get (ws_results st) i \<and> dict_get R2 i = dict_get (ws_results st) i"
    "\<And>n. n \<in> set waiting \<Longrightarrow> dict_get R2 (wn_id n) = Some (step_bare StepAwaiting)"
    "\<And>n. n \<in> set runnable \<Longrightarrow> dict_get R2 (wn_id n) = Some (fst (execute_wf_node env n R1))"
    "distinct (map fst R2)" "fst ` set R2 = set ready \<union> fst ` set (ws_results st)"
proof -
  have done_iff: "\<And>i. settled_at (ws_results st) i \<longleftrightarrow> i \<in> set (ws_done st)" using inv by (simp add: walk_inv_def)
  have rd: "wf_ready w (ws_done st) (ws_results st) (ws_remaining st) = ready"
    unfolding ready_def by (rule wf_ready_fires[OF done_iff])
  have sub: "set ready \<subseteq> set (wf_ids w)" using inv by (auto simp: walk_inv_def ready_def)
  note nn = nodes_named_ids[OF ids sub]
  have dis: "distinct (map wn_id (nodes_named w ready))"
    using inv by (simp add: nn(1) walk_inv_def) (simp add: ready_def)
  define waiting where "waiting = filter (held_back A) (nodes_named w ready)"
  define runnable where "runnable = filter (\<lambda>n. \<not> held_back A n) (nodes_named w ready)"
  define R1 where "R1 = fold (\<lambda>n. dict_set (wn_id n) (step_bare StepAwaiting)) waiting (ws_results st)"
  define R2 where "R2 = fold (\<lambda>n. dict_set (wn_id n) (fst (execute_wf_node env n R1))) runnable R1"
  have dw: "distinct (map wn_id waiting)" "distinct (map wn_id runnable)"
    using dis by (simp_all add: waiting_def runnable_def distinct_map_filter)
  have un: "wn_id ` set waiting \<union> wn_id ` set runnable = set ready"
    using arg_cong[OF nn(1), of set] by (auto simp: waiting_def runnable_def)
  have disj: "wn_id ` set waiting \<inter> wn_id ` set runnable = {}"
    using dis by (auto simp: waiting_def runnable_def distinct_map inj_on_def)
  show thesis
  proof (rule that[OF waiting_def runnable_def _ _ un disj dw(2)])
    show "set waiting = {n \<in> set (wf_nodes w). wn_id n \<in> set ready \<and> held_back A n}"
      "set runnable = {n \<in> set (wf_nodes w). wn_id n \<in> set ready \<and> \<not> held_back A n}"
      by (auto simp: waiting_def runnable_def nn(2))
    show "wf_wave env w A st = st\<lparr>ws_results := R2, ws_done := ws_done st @ map wn_id runnable,
       ws_remaining := filter (\<lambda>i. i \<notin> set ready) (ws_remaining st),
       ws_pending := ws_pending st @ map wn_id waiting,
       ws_log := ws_log st @ concat (map (\<lambda>n. snd (execute_wf_node env n R1)) runnable)\<rparr>"
      by (simp only: wf_wave_def rd Let_def R2_def R1_def waiting_def runnable_def)
    fix i assume "i \<notin> set ready"
    then have "i \<notin> wn_id ` set waiting" "i \<notin> wn_id ` set runnable" using un by auto
    then show "dict_get R1 i = dict_get (ws_results st) i \<and> dict_get R2 i = dict_get (ws_results st) i"
      by (simp add: R2_def R1_def get_fold_set_other)
  next
    fix n assume n: "n \<in> set waiting"
    then have "wn_id n \<notin> wn_id ` set runnable" using disj by auto
    then have "dict_get R2 (wn_id n) = dict_get R1 (wn_id n)" unfolding R2_def by (rule get_fold_set_other)
    also have "\<dots> = Some (step_bare StepAwaiting)" unfolding R1_def by (rule get_fold_set[OF dw(1) n])
    finally show "dict_get R2 (wn_id n) = Some (step_bare StepAwaiting)" .
  next
    fix n assume "n \<in> set runnable"
    then show "dict_get R2 (wn_id n) = Some (fst (execute_wf_node env n R1))"
      unfolding R2_def by (rule get_fold_set[OF dw(2)])
  next
    show "distinct (map fst R2)" using inv by (simp add: R2_def R1_def distinct_fold_set walk_inv_def)
    show "fst ` set R2 = set ready \<union> fst ` set (ws_results st)"
      using un by (auto simp: R2_def R1_def keys_fold_set)
  qed
qed

lemma wave_inv:
  assumes ids: "distinct (wf_ids w)" and inv: "walk_inv w st"
  shows "walk_inv w (wf_wave env w A st)" and "agrees (ws_results st) (ws_results (wf_wave env w A st))"
proof -
  define ready where "ready = filter (fires w (ws_results st)) (sort (ws_remaining st))"
  obtain waiting runnable R1 R2 where f0:
    "waiting = filter (held_back A) (nodes_named w ready)"
    "runnable = filter (\<lambda>n. \<not> held_back A n) (nodes_named w ready)"
    "set waiting = {n \<in> set (wf_nodes w). wn_id n \<in> set ready \<and> held_back A n}"
    "set runnable = {n \<in> set (wf_nodes w). wn_id n \<in> set ready \<and> \<not> held_back A n}"
    "wn_id ` set waiting \<union> wn_id ` set runnable = set ready" "wn_id ` set waiting \<inter> wn_id ` set runnable = {}"
    "distinct (map wn_id runnable)"
    "wf_wave env w A st = st\<lparr>ws_results := R2, ws_done := ws_done st @ map wn_id runnable,
       ws_remaining := filter (\<lambda>i. i \<notin> set ready) (ws_remaining st),
       ws_pending := ws_pending st @ map wn_id waiting,
       ws_log := ws_log st @ concat (map (\<lambda>n. snd (execute_wf_node env n R1)) runnable)\<rparr>"
    "\<And>i. i \<notin> set ready \<Longrightarrow> dict_get R1 i = dict_get (ws_results st) i \<and> dict_get R2 i = dict_get (ws_results st) i"
    "\<And>n. n \<in> set waiting \<Longrightarrow> dict_get R2 (wn_id n) = Some (step_bare StepAwaiting)"
    "\<And>n. n \<in> set runnable \<Longrightarrow> dict_get R2 (wn_id n) = Some (fst (execute_wf_node env n R1))"
    "distinct (map fst R2)" "fst ` set R2 = set ready \<union> fst ` set (ws_results st)"
    by (rule wave_facts[OF assms, of A env, folded ready_def]) (rule that; assumption)
  note f = f0(5,6,8) conjunct2[OF f0(9)] f0(10-13)
  have rem: "set ready \<subseteq> set (ws_remaining st)" by (auto simp: ready_def)
  have "settled_at R2 i \<longleftrightarrow> i \<in> set (ws_done st) \<union> wn_id ` set runnable" for i
  proof (cases "i \<in> set ready")
    case True
    then have nd: "i \<notin> set (ws_done st)" using rem inv by (auto simp: walk_inv_def)
    from True f(1) consider "i \<in> wn_id ` set waiting" | "i \<in> wn_id ` set runnable" by blast
    then show ?thesis
    proof cases
      case 1
      with f(2) have "i \<notin> wn_id ` set runnable" by blast
      with 1 nd f(5) show ?thesis by (auto simp: settled_at_def)
    next
      case 2
      with f(6) show ?thesis by (auto simp: settled_at_def)
    qed
  next
    case False
    with f(1) have "i \<notin> wn_id ` set runnable" by blast
    with False f(4)[of i] inv show ?thesis by (simp add: settled_at_def walk_inv_def)
  qed
  then show "walk_inv w (wf_wave env w A st)"
    using inv f(1,2,7) rem unfolding walk_inv_def f(3) by (auto 0 3)
  show "agrees (ws_results st) (ws_results (wf_wave env w A st))"
    unfolding agrees_def
  proof (intro allI impI)
    fix i assume "settled_at (ws_results st) i"
    then have "i \<notin> set ready" using rem inv by (auto simp: walk_inv_def)
    then show "dict_get (ws_results (wf_wave env w A st)) i = dict_get (ws_results st) i"
      by (simp add: f(3) f(4))
  qed
qed

lemma agrees_refl [simp]: "agrees R R"
  by (simp add: agrees_def)

lemma agrees_trans: "agrees R S \<Longrightarrow> agrees S T \<Longrightarrow> agrees R T"
  by (simp add: agrees_def settled_at_def)

lemma run_waves_keeps:
  assumes "distinct (wf_ids w)" "walk_inv w st" "P st"
    and step: "\<And>st. walk_inv w st \<Longrightarrow> P st \<Longrightarrow> P (wf_wave env w A st)"
  shows "P (run_waves env w A st) \<and> walk_inv w (run_waves env w A st) \<and>
    agrees (ws_results st) (ws_results (run_waves env w A st)) \<and>
    (\<forall>i \<in> set (ws_remaining (run_waves env w A st)). \<not> fires w (ws_results (run_waves env w A st)) i)"
  using assms(2,3)
proof (induction "length (ws_remaining st)" arbitrary: st rule: less_induct)
  case (less st)
  let ?ready = "wf_ready w (ws_done st) (ws_results st) (ws_remaining st)"
  have settled: "\<And>i. settled_at (ws_results st) i \<longleftrightarrow> i \<in> set (ws_done st)"
    using less.prems(1) by (simp add: walk_inv_def)
  have ready: "?ready = filter (fires w (ws_results st)) (sort (ws_remaining st))"
    by (rule wf_ready_fires[OF settled])
  show ?case
  proof (cases "?ready = []")
    case True
    then have "run_waves env w A st = st" by (simp add: run_waves.simps)
    moreover have "\<forall>i \<in> set (ws_remaining st). \<not> fires w (ws_results st) i"
      using True unfolding ready by (simp add: filter_empty_conv)
    ultimately show ?thesis using less.prems by simp
  next
    case False
    have "ws_remaining st \<noteq> []"
    proof
      assume "ws_remaining st = []"
      with False show False by (simp add: wf_ready_def)
    qed
    with False have e: "run_waves env w A st = run_waves env w A (wf_wave env w A st)"
      by (subst run_waves.simps) simp
    note wi = wave_inv[OF assms(1) less.prems(1), of env A]
    from less.hyps[OF wf_wave_remaining[OF False] wi(1) step[OF less.prems]] show ?thesis
      unfolding e using wi(2) by (auto intro: agrees_trans)
  qed
qed

subsection \<open>What is run, and how often\<close>

definition delegated :: "wf_message list \<Rightarrow> string list" where
  "delegated msgs = concat (map (\<lambda>m. case m of Delegation i _ _ \<Rightarrow> [i] | ToolResult _ _ _ \<Rightarrow> []) msgs)"

definition log_inv :: "workflow \<Rightarrow> string list \<Rightarrow> string set \<Rightarrow> wf_state \<Rightarrow> bool" where
  "log_inv w A D0 st \<longleftrightarrow> D0 \<subseteq> set (ws_done st) \<and> distinct (delegated (ws_log st)) \<and>
     set (delegated (ws_log st)) \<subseteq> set (ws_done st) - D0 \<and>
     set (delegated (ws_log st)) \<subseteq> wn_id ` {n \<in> set (wf_nodes w). \<not> held_back A n}"

lemma delegated_execute: "delegated (snd (execute_wf_node env n R)) \<in> {[], [wn_id n]}"
  by (simp add: delegated_def execute_wf_node_def Let_def split: sum.splits)

lemma delegated_append [simp]: "delegated (xs @ ys) = delegated xs @ delegated ys"
  by (simp add: delegated_def)

lemma delegated_wave:
  assumes "distinct (map wn_id ns)"
  shows "distinct (delegated (concat (map (\<lambda>n. snd (execute_wf_node env n R)) ns)))"
    and "set (delegated (concat (map (\<lambda>n. snd (execute_wf_node env n R)) ns))) \<subseteq> wn_id ` set ns"
proof -
  have sub: "set (delegated (concat (map (\<lambda>n. snd (execute_wf_node env n R)) ns))) \<subseteq> wn_id ` set ns" for ns
  proof (induction ns)
    case (Cons n ns)
    with delegated_execute[of env n R] show ?case by auto
  qed (simp add: delegated_def)
  then show "set (delegated (concat (map (\<lambda>n. snd (execute_wf_node env n R)) ns))) \<subseteq> wn_id ` set ns" .
  show "distinct (delegated (concat (map (\<lambda>n. snd (execute_wf_node env n R)) ns)))"
    using assms
  proof (induction ns)
    case (Cons n ns)
    with delegated_execute[of env n R] sub[of ns] show ?case by auto
  qed (simp add: delegated_def)
qed

lemma wave_log:
  assumes ids: "distinct (wf_ids w)" and inv: "walk_inv w st" and msgs: "log_inv w A D0 st"
  shows "log_inv w A D0 (wf_wave env w A st)"
proof -
  define ready where "ready = filter (fires w (ws_results st)) (sort (ws_remaining st))"
  have rem: "set ready \<inter> set (ws_done st) = {}" using inv by (auto simp: walk_inv_def ready_def)
  show ?thesis
  proof (rule wave_facts[OF ids inv, of A env, folded ready_def])
    fix waiting runnable R1 R2
    assume f: "set runnable = {n \<in> set (wf_nodes w). wn_id n \<in> set ready \<and> \<not> held_back A n}"
      "wn_id ` set waiting \<union> wn_id ` set runnable = set ready"
      "distinct (map wn_id runnable)"
      "wf_wave env w A st = st\<lparr>ws_results := R2, ws_done := ws_done st @ map wn_id runnable,
       ws_remaining := filter (\<lambda>i. i \<notin> set ready) (ws_remaining st),
       ws_pending := ws_pending st @ map wn_id waiting,
       ws_log := ws_log st @ concat (map (\<lambda>n. snd (execute_wf_node env n R1)) runnable)\<rparr>"
    have sub: "wn_id ` set runnable \<subseteq> set ready" using f(2) by blast
    have sub2: "wn_id ` set runnable \<subseteq> wn_id ` {n \<in> set (wf_nodes w). \<not> held_back A n}" using f(1) by blast
    note d = delegated_wave[OF f(3), of env R1]
    have "wn_id ` set runnable \<inter> set (ws_done st) = {}" using sub rem by blast
    moreover have "D0 \<inter> wn_id ` set runnable = {}" using calculation msgs by (auto simp: log_inv_def)
    ultimately show ?thesis
      unfolding log_inv_def f(4) using d msgs[unfolded log_inv_def] sub2 by auto
  qed
qed

lemma start_inv:
  assumes "distinct (map fst R)"
  shows "walk_inv w (start_state w R)"
proof -
  have "settled_at R i \<longleftrightarrow> i \<in> fst ` set (filter (\<lambda>(i, r). is_settled r) R)" for i
  proof -
    have "i \<in> fst ` set (filter (\<lambda>(i, r). is_settled r) R) \<longleftrightarrow> (\<exists>r. (i, r) \<in> set R \<and> is_settled r)"
      by (force simp: image_iff)
    also have "\<dots> \<longleftrightarrow> (\<exists>r. dict_get R i = Some r \<and> is_settled r)" by (simp only: in_set_get[OF assms])
    also have "\<dots> \<longleftrightarrow> settled_at R i" by (simp add: settled_at_def split: option.splits)
    finally show ?thesis ..
  qed
  then show ?thesis using assms by (auto simp: walk_inv_def start_state_def Let_def)
qed

lemma get_fold_const:
  "dict_get (fold (\<lambda>i. dict_set i x) is R) j = (if j \<in> set is then Some x else dict_get R j)"
  by (induction "is" arbitrary: R) auto

lemma mark_skipped_get:
  "dict_get (mark_skipped st) i =
     (if i \<in> set (ws_remaining st) then Some (step_bare StepSkipped) else dict_get (ws_results st) i)"
  by (simp add: mark_skipped_def get_fold_const)

lemma mark_skipped_agrees:
  assumes "walk_inv w st"
  shows "agrees (ws_results st) (mark_skipped st)" and "settled_at (mark_skipped st) i = settled_at (ws_results st) i"
proof -
  have "\<not> settled_at (ws_results st) j" if "j \<in> set (ws_remaining st)" for j
    using that assms by (auto simp: walk_inv_def)
  then show "agrees (ws_results st) (mark_skipped st)" "settled_at (mark_skipped st) i = settled_at (ws_results st) i"
    by (auto simp: agrees_def mark_skipped_get settled_at_def)
qed

text \<open>The stored results and approvals that a call of \<open>run\<close> starts from.\<close>

definition prior_of :: "wf_table \<Rightarrow> string option \<Rightarrow> step_results_map \<times> string list" where
  "prior_of tab rid = (case rid of None \<Rightarrow> ([], [])
     | Some i \<Rightarrow> (case dict_get tab i of None \<Rightarrow> ([], []) | Some p \<Rightarrow> (wr_results p, wr_approved p)))"

lemma run_workflow_shape:
  assumes "run_workflow env now uuid w rid newly tab = (Inr r, tab', msgs)"
  defines "A \<equiv> snd (prior_of tab rid) @ newly"
  defines "st \<equiv> walk_workflow env w A (fst (prior_of tab rid))"
  shows "wu_results r = mark_skipped st" "msgs = ws_log st" "wu_pending r = ws_pending st"
    "wu_id r = (case rid of None \<Rightarrow> uuid | Some i \<Rightarrow> i)" "wu_status r = overall_status (mark_skipped st) (ws_pending st)"
    "tab' = save_run now r A tab"
  using assms by (auto simp: run_workflow_def prior_of_def Let_def split: option.splits)

lemma walk_safe:
  assumes "distinct (wf_ids w)" "distinct (map fst R)"
  shows "distinct (delegated (ws_log (walk_workflow env w A R)))"
    and "set (delegated (ws_log (walk_workflow env w A R))) \<subseteq>
       wn_id ` {n \<in> set (wf_nodes w). \<not> held_back A n \<and> \<not> settled_at R (wn_id n)}"
    and "agrees R (mark_skipped (walk_workflow env w A R))"
proof -
  let ?st = "walk_workflow env w A R"
  note si = start_inv[OF assms(2), of w]
  have l0: "log_inv w A {i. settled_at R i} (start_state w R)"
    using si by (auto simp: log_inv_def walk_inv_def start_state_def Let_def delegated_def)
  have r: "log_inv w A {i. settled_at R i} ?st \<and> walk_inv w ?st \<and> agrees (ws_results (start_state w R)) (ws_results ?st)"
    unfolding walk_workflow_def
    using run_waves_keeps[where P = "log_inv w A {i. settled_at R i}", OF assms(1) si l0 wave_log[OF assms(1)]]
    by blast
  then show "distinct (delegated (ws_log ?st))" by (simp add: log_inv_def)
  show "set (delegated (ws_log ?st)) \<subseteq> wn_id ` {n \<in> set (wf_nodes w). \<not> held_back A n \<and> \<not> settled_at R (wn_id n)}"
  proof
    fix x assume x: "x \<in> set (delegated (ws_log ?st))"
    with r obtain n where "n \<in> set (wf_nodes w)" "\<not> held_back A n" "wn_id n = x"
      unfolding log_inv_def by blast
    moreover have "\<not> settled_at R x" using x r unfolding log_inv_def by blast
    ultimately show "x \<in> wn_id ` {n \<in> set (wf_nodes w). \<not> held_back A n \<and> \<not> settled_at R (wn_id n)}"
      by blast
  qed
  have "agrees R (ws_results ?st)" using r by (simp add: start_state_def Let_def)
  then show "agrees R (mark_skipped ?st)" by (rule agrees_trans) (use r mark_skipped_agrees(1) in blast)
qed

text \<open>
  C30. A call of \<^verbatim>\<open>WorkflowEngine.run\<close>, fresh or resuming, never lets a node through its human gate without
  an approval given in this call or stored by an earlier one, never runs a node twice, never runs again a
  node that the stored run has settled, and leaves every settled result as it was.
\<close>

theorem gates_and_resumption_safe:
  assumes "validate_workflow w = Inr ()"
    and "distinct (map fst (fst (prior_of tab rid)))"
    and "run_workflow env now uuid w rid newly tab = (Inr r, tab', msgs)"
  shows "distinct (delegated msgs) \<and>
    set (delegated msgs) \<subseteq> wn_id ` {n \<in> set (wf_nodes w).
      \<not> held_back (snd (prior_of tab rid) @ newly) n \<and> \<not> settled_at (fst (prior_of tab rid)) (wn_id n)} \<and>
    agrees (fst (prior_of tab rid)) (wu_results r)"
proof -
  have "distinct (wf_ids w)" using assms(1) by (simp only: validate_iff)
  note s = walk_safe[OF this assms(2), of env "snd (prior_of tab rid) @ newly"]
  show ?thesis using s by (simp only: run_workflow_shape[OF assms(3)])
qed

subsection \<open>Every node gets what it is due\<close>

definition due_inv :: "wf_env \<Rightarrow> workflow \<Rightarrow> string list \<Rightarrow> wf_state \<Rightarrow> bool" where
  "due_inv env w A st \<longleftrightarrow> fst ` set (ws_results st) \<subseteq> set (wf_ids w) \<and> set (ws_pending st) \<subseteq> set (wf_ids w) \<and>
     (\<forall>n \<in> set (wf_nodes w). (wn_id n \<in> set (ws_done st) \<longrightarrow> fires w (ws_results st) (wn_id n) \<and> \<not> held_back A n \<and>
         dict_get (ws_results st) (wn_id n) = Some (fst (execute_wf_node env n (ws_results st)))) \<and>
       (wn_id n \<in> set (ws_pending st) \<longrightarrow> fires w (ws_results st) (wn_id n) \<and> held_back A n \<and>
         dict_get (ws_results st) (wn_id n) = Some (step_bare StepAwaiting)))"

lemma due_inv_done:
  "due_inv env w A st \<Longrightarrow> n \<in> set (wf_nodes w) \<Longrightarrow> wn_id n \<in> set (ws_done st) \<Longrightarrow>
     fires w (ws_results st) (wn_id n) \<and> \<not> held_back A n \<and>
     dict_get (ws_results st) (wn_id n) = Some (fst (execute_wf_node env n (ws_results st)))"
  by (simp add: due_inv_def)

lemma settled_key: "settled_at R i \<Longrightarrow> i \<in> fst ` set R"
  by (auto simp: settled_at_def split: option.splits dest!: map_of_SomeD intro: rev_image_eqI)

text \<open>Everything upstream of a node that fires is settled.\<close>

lemma upstream_settled:
  assumes due: "\<And>n. n \<in> set (wf_nodes w) \<Longrightarrow> settled_at R (wn_id n) \<Longrightarrow> fires w R (wn_id n)"
    and keys: "\<And>j. settled_at R j \<Longrightarrow> j \<in> set (wf_ids w)"
  shows "(i, j) \<in> (wf_rel w)\<^sup>+ \<Longrightarrow> fires w R j \<Longrightarrow> settled_at R i"
proof (induction rule: trancl_induct)
  case (base j)
  then show ?case by (meson fires_settled)
next
  case (step y z)
  then have y: "settled_at R y" by (meson fires_settled)
  with keys obtain n where "n \<in> set (wf_nodes w)" "wn_id n = y" by (force simp: wf_ids_def)
  with due y have "fires w R y" by blast
  then show ?case by (rule step.IH)
qed

lemma execute_agrees:
  assumes "refs_upstream w" "n \<in> set (wf_nodes w)" "agrees R R'"
    and "\<And>i. (i, wn_id n) \<in> (wf_rel w)\<^sup>+ \<Longrightarrow> settled_at R i"
  shows "execute_wf_node env n R = execute_wf_node env n R'"
  by (rule execute_cong) (use assms in \<open>auto simp: refs_upstream_def agrees_def\<close>)

lemma due_upstream:
  assumes "walk_inv w st" "due_inv env w A st" "fires w (ws_results st) j" "(i, j) \<in> (wf_rel w)\<^sup>+"
  shows "settled_at (ws_results st) i"
proof (rule upstream_settled[OF _ _ assms(4,3)])
  fix n assume "n \<in> set (wf_nodes w)" "settled_at (ws_results st) (wn_id n)"
  with assms(1,2) show "fires w (ws_results st) (wn_id n)" by (auto simp: walk_inv_def due_inv_def)
next
  fix j assume "settled_at (ws_results st) j"
  with settled_key assms(2) show "j \<in> set (wf_ids w)" unfolding due_inv_def by blast
qed

lemma wave_due:
  assumes ids: "distinct (wf_ids w)" and refs: "refs_upstream w" and inv: "walk_inv w st" and due: "due_inv env w A st"
  shows "due_inv env w A (wf_wave env w A st)"
proof -
  define ready where "ready = filter (fires w (ws_results st)) (sort (ws_remaining st))"
  have rem: "set ready \<inter> (set (ws_done st) \<union> set (ws_pending st)) = {}" and sub: "set ready \<subseteq> set (wf_ids w)"
    using inv by (auto simp: walk_inv_def ready_def)
  have ag: "agrees (ws_results st) (ws_results (wf_wave env w A st))" by (rule wave_inv(2)[OF ids inv])
  show ?thesis
  proof (rule wave_facts[OF ids inv, of A env, folded ready_def])
    fix waiting runnable R1 R2
    assume wt: "set waiting = {n \<in> set (wf_nodes w). wn_id n \<in> set ready \<and> held_back A n}"
      and rn: "set runnable = {n \<in> set (wf_nodes w). wn_id n \<in> set ready \<and> \<not> held_back A n}"
      and un: "wn_id ` set waiting \<union> wn_id ` set runnable = set ready"
      and st': "wf_wave env w A st = st\<lparr>ws_results := R2, ws_done := ws_done st @ map wn_id runnable,
       ws_remaining := filter (\<lambda>i. i \<notin> set ready) (ws_remaining st),
       ws_pending := ws_pending st @ map wn_id waiting,
       ws_log := ws_log st @ concat (map (\<lambda>n. snd (execute_wf_node env n R1)) runnable)\<rparr>"
      and old: "\<And>i. i \<notin> set ready \<Longrightarrow> dict_get R1 i = dict_get (ws_results st) i \<and> dict_get R2 i = dict_get (ws_results st) i"
      and wait: "\<And>n. n \<in> set waiting \<Longrightarrow> dict_get R2 (wn_id n) = Some (step_bare StepAwaiting)"
      and run: "\<And>n. n \<in> set runnable \<Longrightarrow> dict_get R2 (wn_id n) = Some (fst (execute_wf_node env n R1))"
      and keys: "fst ` set R2 = set ready \<union> fst ` set (ws_results st)"
    have ag2: "agrees (ws_results st) R2" using ag by (simp add: st')
    have ag1: "agrees (ws_results st) R1"
      using old rem inv by (auto simp: agrees_def walk_inv_def)
    have exec: "execute_wf_node env n (ws_results st) = execute_wf_node env n R"
      if "agrees (ws_results st) R" "n \<in> set (wf_nodes w)" "fires w (ws_results st) (wn_id n)" for n R
      by (rule execute_agrees[OF refs that(2,1)]) (rule due_upstream[OF inv due that(3)])
    note same = exec[OF ag2] exec[OF ag1]
    have inj: "m = n" if "m \<in> set (wf_nodes w)" "n \<in> set (wf_nodes w)" "wn_id m = wn_id n" for m n
      using ids that by (auto simp: wf_ids_def distinct_map inj_on_def)
    have "(wn_id n \<in> set (ws_done st @ map wn_id runnable) \<longrightarrow> fires w R2 (wn_id n) \<and> \<not> held_back A n \<and>
         dict_get R2 (wn_id n) = Some (fst (execute_wf_node env n R2))) \<and>
       (wn_id n \<in> set (ws_pending st @ map wn_id waiting) \<longrightarrow> fires w R2 (wn_id n) \<and> held_back A n \<and>
         dict_get R2 (wn_id n) = Some (step_bare StepAwaiting))"
      if n: "n \<in> set (wf_nodes w)" for n
    proof (cases "wn_id n \<in> set ready")
      case True
      then have f: "fires w (ws_results st) (wn_id n)" by (simp add: ready_def)
      have f2: "fires w R2 (wn_id n)" by (rule fires_agrees[OF ag2 f])
      have out: "wn_id n \<notin> set (ws_done st)" "wn_id n \<notin> set (ws_pending st)" using True rem by auto
      have mem: "wn_id n \<in> wn_id ` set runnable \<longleftrightarrow> n \<in> set runnable"
        "wn_id n \<in> wn_id ` set waiting \<longleftrightarrow> n \<in> set waiting"
        using n rn wt by (auto dest: inj)
      show ?thesis
      proof (cases "held_back A n")
        case True
        with n \<open>wn_id n \<in> set ready\<close> wt rn have "n \<in> set waiting" "n \<notin> set runnable" by auto
        with f2 True out mem wait show ?thesis by simp
      next
        case False
        with n \<open>wn_id n \<in> set ready\<close> wt rn have "n \<notin> set waiting" "n \<in> set runnable" by auto
        with f2 False out mem run same[OF n f] show ?thesis by simp
      qed
    next
      case False
      then have new: "wn_id n \<notin> wn_id ` set runnable" "wn_id n \<notin> wn_id ` set waiting" using un by auto
      have o: "dict_get R2 (wn_id n) = dict_get (ws_results st) (wn_id n)" using old[OF False] by simp
      from due n have d: "wn_id n \<in> set (ws_done st) \<Longrightarrow> fires w (ws_results st) (wn_id n) \<and> \<not> held_back A n \<and>
          dict_get (ws_results st) (wn_id n) = Some (fst (execute_wf_node env n (ws_results st)))"
        "wn_id n \<in> set (ws_pending st) \<Longrightarrow> fires w (ws_results st) (wn_id n) \<and> held_back A n \<and>
          dict_get (ws_results st) (wn_id n) = Some (step_bare StepAwaiting)"
        by (auto simp: due_inv_def)
      show ?thesis using new d o same(1)[OF n] fires_agrees[OF ag2, of w "wn_id n"] by simp
    qed
    moreover have "fst ` set R2 \<subseteq> set (wf_ids w)" using keys sub due by (simp add: due_inv_def)
    moreover have "wn_id ` set waiting \<subseteq> set (wf_ids w)" using un sub by blast
    ultimately show "due_inv env w A (wf_wave env w A st)"
      using due by (simp add: due_inv_def st')
  qed
qed

definition complete_run :: "wf_env \<Rightarrow> workflow \<Rightarrow> string list \<Rightarrow> step_results_map \<Rightarrow> bool" where
  "complete_run env w A R \<longleftrightarrow> distinct (map fst R) \<and> fst ` set R = set (wf_ids w) \<and>
     (\<forall>n \<in> set (wf_nodes w). dict_get R (wn_id n) = Some (prescribed env w A R n))"

lemma start_due:
  assumes "R = [] \<or> complete_run env w A0 R" "set A0 \<subseteq> set A"
  shows "due_inv env w A (start_state w R)"
proof -
  let ?st = "start_state w R"
  have res: "ws_results ?st = R" "ws_pending ?st = []" by (simp_all add: start_state_def Let_def)
  have "fires w R (wn_id n) \<and> \<not> held_back A n \<and> dict_get R (wn_id n) = Some (fst (execute_wf_node env n R))"
    if n: "n \<in> set (wf_nodes w)" "wn_id n \<in> set (ws_done ?st)" for n
  proof (cases "R = []")
    case True
    with n show ?thesis by (simp add: start_state_def Let_def)
  next
    case False
    with assms have c: "complete_run env w A0 R" by simp
    then have "walk_inv w ?st" by (intro start_inv) (simp add: complete_run_def)
    with n(2) have "settled_at R (wn_id n)" using res(1) by (auto simp: walk_inv_def)
    moreover have g: "dict_get R (wn_id n) = Some (prescribed env w A0 R n)"
      using c n(1) by (simp add: complete_run_def)
    ultimately have "is_settled (prescribed env w A0 R n)" by (simp add: settled_at_def)
    then have "fires w R (wn_id n)" "\<not> held_back A0 n" by (auto simp: prescribed_def split: if_splits)
    with g assms(2) show ?thesis by (auto simp: prescribed_def held_back_def)
  qed
  moreover have "fst ` set R \<subseteq> set (wf_ids w)" using assms(1) by (auto simp: complete_run_def)
  ultimately show ?thesis by (simp add: due_inv_def res)
qed

lemma walk_complete:
  assumes ids: "distinct (wf_ids w)" and refs: "refs_upstream w"
    and R: "R = [] \<or> complete_run env w A0 R" and A: "set A0 \<subseteq> set A"
  defines "st \<equiv> walk_workflow env w A R"
  shows "complete_run env w A (mark_skipped st)"
    and "set (ws_pending st) = {i. dict_get (mark_skipped st) i = Some (step_bare StepAwaiting)}"
proof -
  have si: "walk_inv w (start_state w R)" by (rule start_inv) (use R in \<open>auto simp: complete_run_def\<close>)
  have step: "\<And>s. walk_inv w s \<Longrightarrow> due_inv env w A s \<Longrightarrow> due_inv env w A (wf_wave env w A s)"
    by (rule wave_due[OF ids refs])
  from run_waves_keeps[where P = "due_inv env w A", OF ids si start_due[OF R A] step]
  have due: "due_inv env w A st" and inv: "walk_inv w st"
    and stuck: "\<forall>i \<in> set (ws_remaining st). \<not> fires w (ws_results st) i"
    unfolding st_def walk_workflow_def by blast+
  let ?R = "ws_results st" and ?F = "mark_skipped st"
  note ag = mark_skipped_agrees(1)[OF inv]
  have same: "fires w ?F i = fires w ?R i" for i
    using fires_agrees[OF ag] fires_agrees_back[OF ag] mark_skipped_agrees(2)[OF inv] by blast
  have exec: "execute_wf_node env n ?R = execute_wf_node env n ?F"
    if "n \<in> set (wf_nodes w)" "fires w ?R (wn_id n)" for n
    by (rule execute_agrees[OF refs that(1) ag]) (rule due_upstream[OF inv due that(2)])
  have get: "dict_get ?F (wn_id n) = Some (prescribed env w A ?F n)" if n: "n \<in> set (wf_nodes w)" for n
  proof -
    have "wn_id n \<in> set (ws_done st) \<union> set (ws_pending st) \<union> set (ws_remaining st)"
      using n inv by (auto simp: walk_inv_def wf_ids_def)
    then consider "wn_id n \<in> set (ws_remaining st)"
      | "wn_id n \<in> set (ws_done st)" "wn_id n \<notin> set (ws_remaining st)"
      | "wn_id n \<in> set (ws_pending st)" "wn_id n \<notin> set (ws_remaining st)" by blast
    then show ?thesis
    proof cases
      case 1
      with stuck show ?thesis by (simp add: mark_skipped_get prescribed_def same)
    next
      case 2
      with due n exec[OF n] show ?thesis by (simp add: mark_skipped_get prescribed_def same due_inv_def)
    next
      case 3
      with due n show ?thesis by (simp add: mark_skipped_get prescribed_def same due_inv_def)
    qed
  qed
  have keys: "fst ` set ?F = set (wf_ids w)"
  proof
    have "fst ` set ?F = set (ws_remaining st) \<union> fst ` set ?R"
      using keys_fold_set[where f = "\<lambda>i. i" and g = "\<lambda>_. step_bare StepSkipped"] by (simp add: mark_skipped_def)
    then show "fst ` set ?F \<subseteq> set (wf_ids w)" using inv due by (auto simp: walk_inv_def due_inv_def)
    show "set (wf_ids w) \<subseteq> fst ` set ?F"
    proof
      fix i assume "i \<in> set (wf_ids w)"
      then obtain n where "n \<in> set (wf_nodes w)" "wn_id n = i" by (auto simp: wf_ids_def)
      with get[of n] show "i \<in> fst ` set ?F" by (metis get_Some_key set_map)
    qed
  qed
  have "distinct (map fst ?F)"
    unfolding mark_skipped_def
    by (rule distinct_fold_set[where f = "\<lambda>i. i" and g = "\<lambda>_. step_bare StepSkipped"])
      (use inv in \<open>simp add: walk_inv_def\<close>)
  with get keys show c: "complete_run env w A ?F" by (simp add: complete_run_def)
  have unsettled: "dict_get ?F i \<noteq> Some (step_bare StepAwaiting)" if "settled_at ?F i" for i
    using that by (auto simp: settled_at_def)
  show "set (ws_pending st) = {i. dict_get ?F i = Some (step_bare StepAwaiting)}"
  proof (intro equalityI subsetI CollectI)
    fix i assume i: "i \<in> set (ws_pending st)"
    then obtain n where "n \<in> set (wf_nodes w)" "wn_id n = i" using due by (auto simp: due_inv_def wf_ids_def)
    moreover have "i \<notin> set (ws_remaining st)" using i inv by (auto simp: walk_inv_def)
    ultimately show "dict_get ?F i = Some (step_bare StepAwaiting)"
      using due i by (auto simp: mark_skipped_get due_inv_def)
  next
    fix i assume "i \<in> {i. dict_get ?F i = Some (step_bare StepAwaiting)}"
    then have i: "dict_get ?F i = Some (step_bare StepAwaiting)" by simp
    then have "i \<in> set (wf_ids w)" using keys by (force dest!: map_of_SomeD)
    moreover have "i \<notin> set (ws_remaining st)" using i by (auto simp: mark_skipped_get step_bare_def split: if_splits)
    moreover have "i \<notin> set (ws_done st)"
      using unsettled[of i] i mark_skipped_agrees(2)[OF inv, of i] inv by (auto simp: walk_inv_def)
    ultimately show "i \<in> set (ws_pending st)" using inv by (auto simp: walk_inv_def)
  qed
qed

text \<open>Two complete results under the same approvals are the same map.\<close>

lemma prescribed_approvals: "set A = set B \<Longrightarrow> prescribed env w A R n = prescribed env w B R n"
  by (simp add: prescribed_def held_back_def)

lemma complete_run_approvals: "set A = set B \<Longrightarrow> complete_run env w A R = complete_run env w B R"
  by (simp add: complete_run_def prescribed_approvals[of A B])

lemma complete_run_unique:
  assumes ac: "acyclic (wf_rel w)" and refs: "refs_upstream w"
    and c: "complete_run env w A R" "complete_run env w A S"
  shows "dict_get R i = dict_get S i"
proof -
  have "wf (wf_rel w)" using ac by (intro finite_acyclic_wf) (simp_all add: wf_rel_def)
  then have "wf ((wf_rel w)\<^sup>+)" by (rule wf_trancl)
  then show ?thesis
  proof (induction i rule: wf_induct_rule)
    case (less i)
    show ?case
    proof (cases "i \<in> set (wf_ids w)")
      case True
      then obtain n where n: "n \<in> set (wf_nodes w)" "wn_id n = i" by (auto simp: wf_ids_def)
      have "fires w R i = fires w S i" by (rule fires_cong) (rule less, blast)
      moreover have "execute_wf_node env n R = execute_wf_node env n S"
        by (rule execute_cong) (use refs n less in \<open>auto simp: refs_upstream_def\<close>)
      ultimately have "prescribed env w A R n = prescribed env w A S n" by (simp add: prescribed_def n(2))
      with c n show ?thesis by (auto simp: complete_run_def)
    next
      case False
      with c have "i \<notin> fst ` set R" "i \<notin> fst ` set S" by (simp_all add: complete_run_def)
      then show ?thesis by (metis get_None_iff set_map)
    qed
  qed
qed

lemma overall_status_cong:
  assumes "distinct (map fst R)" "distinct (map fst S)" "\<And>i. dict_get R i = dict_get S i" "set ps = set qs"
  shows "overall_status R ps = overall_status S qs"
proof -
  have "set R = set S"
  proof (rule set_eqI)
    fix p :: "string \<times> step_result"
    show "p \<in> set R \<longleftrightarrow> p \<in> set S" by (cases p) (simp add: in_set_get[OF assms(1)] in_set_get[OF assms(2)] assms(3))
  qed
  moreover have "ps = [] \<longleftrightarrow> qs = []" using assms(4) by (metis set_empty)
  ultimately show ?thesis by (simp add: overall_status_def Let_def)
qed

subsection \<open>Approvals in any order\<close>

text \<open>The calls a client makes to resume one run: at each time, with the nodes approved since.\<close>

fun call_chain :: "wf_env \<Rightarrow> workflow \<Rightarrow> string \<Rightarrow> (time \<times> string list) list \<Rightarrow> wf_table \<Rightarrow> wf_table" where
  "call_chain env w i [] tab = tab"
| "call_chain env w i ((now, A) # cs) tab =
     call_chain env w i cs (fst (snd (run_workflow env now i w (Some i) A tab)))"

definition stored_ok :: "wf_env \<Rightarrow> workflow \<Rightarrow> string list \<Rightarrow> wf_record \<Rightarrow> bool" where
  "stored_ok env w A p \<longleftrightarrow> complete_run env w A (wr_results p) \<and> set (wr_approved p) = set A \<and>
     set (wr_pending p) = {i. dict_get (wr_results p) i = Some (step_bare StepAwaiting)} \<and>
     wr_status p = overall_status (wr_results p) (wr_pending p)"

lemma stored_by_run:
  assumes ids: "distinct (wf_ids w)" and refs: "refs_upstream w"
    and run: "run_workflow env now u w rid newly tab = (Inr r, tab', msgs)"
    and prior: "fst (prior_of tab rid) = [] \<or> complete_run env w (snd (prior_of tab rid)) (fst (prior_of tab rid))"
  shows "\<exists>p. dict_get tab' (wu_id r) = Some p \<and> stored_ok env w (snd (prior_of tab rid) @ newly) p \<and>
    wr_results p = wu_results r \<and> wr_status p = wu_status r \<and> wr_pending p = wu_pending r"
proof -
  let ?A = "snd (prior_of tab rid) @ newly"
  note sh = run_workflow_shape[OF run]
  have "set (snd (prior_of tab rid)) \<subseteq> set ?A" by simp
  note wc = walk_complete[OF ids refs prior this]
  show ?thesis
    by (intro exI conjI, simp only: sh(6) save_run_def get_set if_True refl)
      (use wc in \<open>simp_all add: stored_ok_def sh(1,3,5)\<close>)
qed

lemma run_resumes:
  assumes "dict_get tab i = Some p"
  shows "\<exists>r tab' msgs. run_workflow env now u w (Some i) newly tab = (Inr r, tab', msgs) \<and> wu_id r = i"
  using assms by (simp add: run_workflow_def Let_def)

lemma chain_stored:
  assumes ids: "distinct (wf_ids w)" and refs: "refs_upstream w"
  shows "dict_get tab u = Some p \<Longrightarrow> stored_ok env w A p \<Longrightarrow>
    \<exists>q. dict_get (call_chain env w u calls tab) u = Some q \<and> stored_ok env w (A @ concat (map snd calls)) q"
proof (induction calls arbitrary: tab p A)
  case (Cons c cs)
  obtain now B where c: "c = (now, B)" by (cases c)
  from run_resumes[OF Cons.prems(1), of env now u w B] obtain r tab' msgs where
    run: "run_workflow env now u w (Some u) B tab = (Inr r, tab', msgs)" and id: "wu_id r = u"
    by (elim exE conjE)
  have prior: "prior_of tab (Some u) = (wr_results p, wr_approved p)" using Cons.prems(1) by (simp add: prior_of_def)
  have "complete_run env w (wr_approved p) (wr_results p)"
    using Cons.prems(2) complete_run_approvals[of "wr_approved p" A env w "wr_results p"] by (simp add: stored_ok_def)
  then have "fst (prior_of tab (Some u)) = [] \<or>
      complete_run env w (snd (prior_of tab (Some u))) (fst (prior_of tab (Some u)))" by (simp add: prior)
  from stored_by_run[OF ids refs run this] obtain q where
    q: "dict_get tab' u = Some q" "stored_ok env w (wr_approved p @ B) q"
    by (auto simp: id prior)
  have "stored_ok env w (A @ B) q"
    using q(2) Cons.prems(2) complete_run_approvals[of "wr_approved p @ B" "A @ B" env w "wr_results q"]
    by (simp add: stored_ok_def)
  from Cons.IH[OF q(1) this] show ?case by (simp add: c run)
qed simp

text \<open>
  C31. Approvals may come one at a time and in any grouping: after a fresh call and any sequence of resuming
  calls, the stored run has the results, the status and the pending nodes that one fresh call with all the
  approvals together returns. Placeholders must name nodes upstream of the node that uses them, and a tool must
  answer a node with the same resolved arguments alike in every call (the environment of all the calls is one
  function).
\<close>

theorem approvals_in_any_order:
  assumes "validate_workflow w = Inr ()" and "refs_upstream w"
    and "run_workflow env now u w None A tab = (Inr r0, tab0, msgs0)"
    and "run_workflow env now' v w None (A @ concat (map snd calls)) tab1 = (Inr r, tab2, msgs)"
  shows "\<exists>p. dict_get (call_chain env w u calls tab0) u = Some p \<and>
    (dict_get (wr_results p) = dict_get (wu_results r)) \<and>
    wr_status p = wu_status r \<and> set (wr_pending p) = set (wu_pending r)"
proof -
  have ids: "distinct (wf_ids w)" and ac: "acyclic (wf_rel w)" using assms(1) by (simp_all only: validate_iff)
  have none: "prior_of t None = ([], [])" for t by (simp add: prior_of_def)
  have id: "wu_id r0 = u" using run_workflow_shape(4)[OF assms(3)] by simp
  from stored_by_run[OF ids assms(2,3)] obtain p0 where
    "dict_get tab0 u = Some p0" "stored_ok env w A p0" by (auto simp: id none)
  from chain_stored[OF ids assms(2) this, of calls] obtain p where
    p: "dict_get (call_chain env w u calls tab0) u = Some p" "stored_ok env w (A @ concat (map snd calls)) p"
    by (elim exE conjE)
  from stored_by_run[OF ids assms(2,4)] obtain q where
    q: "stored_ok env w (A @ concat (map snd calls)) q" "wr_results q = wu_results r" "wr_status q = wu_status r"
    "wr_pending q = wu_pending r" by (auto simp: none)
  have same: "dict_get (wr_results p) i = dict_get (wr_results q) i" for i
    by (rule complete_run_unique[OF ac assms(2), where env = env and A = "A @ concat (map snd calls)"])
      (use p(2) q(1) in \<open>simp_all add: stored_ok_def\<close>)
  have pend: "set (wr_pending p) = set (wr_pending q)" using p(2) q(1) by (simp add: stored_ok_def same)
  have "overall_status (wr_results p) (wr_pending p) = overall_status (wr_results q) (wr_pending q)"
    by (rule overall_status_cong[OF _ _ same pend]) (use p(2) q(1) in \<open>simp_all add: stored_ok_def complete_run_def\<close>)
  then show ?thesis using p q same pend by (intro exI[of _ p]) (auto simp: stored_ok_def)
qed

text \<open>
  C29. A fresh run gives every node exactly what its predecessors prescribe: a node runs when all its
  predecessors have run and one of its edges is satisfied, it waits when it then stands behind a gate that is
  not approved, and it is skipped otherwise. Placeholders must name nodes upstream of the node that uses them.
\<close>

theorem workflow_results_exact:
  assumes "validate_workflow w = Inr ()" and "refs_upstream w" and "n \<in> set (wf_nodes w)"
    and "run_workflow env now u w None A tab = (Inr r, tab', msgs)"
  shows "dict_get (wu_results r) (wn_id n) = Some (prescribed env w A (wu_results r) n)"
proof -
  have "distinct (wf_ids w)" using assms(1) by (simp only: validate_iff)
  from stored_by_run[OF this assms(2,4)] have "complete_run env w A (wu_results r)"
    by (auto simp: prior_of_def stored_ok_def)
  with assms(3) show ?thesis by (simp add: complete_run_def)
qed

text \<open>
  A node that joins an exclusive choice never runs: one branch of the choice is skipped, a skipped node is
  never settled, and a node waits for all its predecessors.
\<close>

lemma dead_branch_blocks_join:
  assumes "complete_run env w A R" "n \<in> set (wf_nodes w)" "(j, wn_id n) \<in> wf_rel w"
    and "dict_get R j = Some (step_bare StepSkipped)"
  shows "dict_get R (wn_id n) = Some (step_bare StepSkipped)"
proof -
  have "\<not> fires w R (wn_id n)" using fires_settled[OF _ assms(3), of R] assms(4) by (auto simp: settled_at_def)
  with assms(1,2) show ?thesis by (simp add: complete_run_def prescribed_def)
qed

subsection \<open>An example\<close>

definition sample_flow :: workflow where
  "sample_flow = \<lparr>wf_id = ''w'', wf_name = ''w'', wf_description = [],
     wf_nodes = [\<lparr>wn_id = ''fetch'', wn_action = ''files_read'', wn_params = [], wn_gate = False\<rparr>,
       \<lparr>wn_id = ''publish'', wn_action = ''files_write'', wn_params = [(''text'', PStr ''$steps.fetch.body'')], wn_gate = True\<rparr>],
     wf_edges = [\<lparr>we_from = ''fetch'', we_to = ''publish'', we_cond = ''on_success''\<rparr>], wf_project = None\<rparr>"

definition sample_tools :: wf_env where
  "sample_tools = \<lparr>te_known = (\<lambda>a. a = ''files_read'' \<or> a = ''files_write''),
     te_answer = (\<lambda>i ps. if i = ''fetch'' then Inr (PDict [(''body'', PStr ''hello'')]) else Inr (PDict ps))\<rparr>"

definition sample_table :: wf_table where
  "sample_table = [(''r'', \<lparr>wr_workflow = ''w'', wr_project = None, wr_status = RunAwaiting,
     wr_results = [(''fetch'', step_success (PDict [(''body'', PStr ''hello'')])), (''publish'', step_bare StepAwaiting)],
     wr_pending = [''publish''], wr_approved = [], wr_created = 0, wr_updated = 0\<rparr>)]"

lemma sample_flow_valid: "validate_workflow sample_flow = Inr ()"
  by code_simp

lemma sample_flow_upstream: "refs_upstream sample_flow"
proof -
  have "(''fetch'', ''publish'') \<in> (wf_rel sample_flow)\<^sup>+"
    by (rule r_into_trancl) (simp add: wf_rel_def sample_flow_def)
  moreover have "map refs_of (wf_nodes sample_flow) = [[], [''fetch'']]" by code_simp
  ultimately show ?thesis by (simp add: refs_upstream_def sample_flow_def)
qed

lemma fresh_run_returns: "\<exists>r tab' msgs. run_workflow env now u w None A tab = (Inr r, tab', msgs)"
  by (simp add: run_workflow_def Let_def)

theorem workflow_results_exact_witness:
  "\<exists>n (r :: workflow_run). n \<in> set (wf_nodes sample_flow) \<and> wn_id n = ''publish'' \<and>
    dict_get (wu_results r) ''publish'' = Some (prescribed sample_tools sample_flow [''publish''] (wu_results r) n)"
proof -
  define n where "n = \<lparr>wn_id = ''publish'', wn_action = ''files_write'',
    wn_params = [(''text'', PStr ''$steps.fetch.body'')], wn_gate = True\<rparr>"
  have n: "n \<in> set (wf_nodes sample_flow)" "wn_id n = ''publish''" by (simp_all add: n_def sample_flow_def)
  from fresh_run_returns[of sample_tools 0 "''r''" sample_flow "[''publish'']" "[]"] obtain r tab' msgs where
    "run_workflow sample_tools 0 ''r'' sample_flow None [''publish''] [] = (Inr r, tab', msgs)" by (elim exE)
  from workflow_results_exact[OF sample_flow_valid sample_flow_upstream n(1) this] n show ?thesis by auto
qed

theorem gates_and_resumption_safe_witness:
  "\<exists>r tab' msgs. run_workflow sample_tools 1 ''x'' sample_flow (Some ''r'') [''publish''] sample_table = (Inr r, tab', msgs) \<and>
    distinct (delegated msgs) \<and> set (delegated msgs) \<subseteq> {''publish''} \<and>
    agrees (fst (prior_of sample_table (Some ''r''))) (wu_results r)"
proof -
  have "dict_get sample_table ''r'' \<noteq> None" by (simp add: sample_table_def)
  then obtain r tab' msgs where
    run: "run_workflow sample_tools 1 ''x'' sample_flow (Some ''r'') [''publish''] sample_table = (Inr r, tab', msgs)"
    using run_resumes[of sample_table "''r''"] by blast
  have d: "distinct (map fst (fst (prior_of sample_table (Some ''r''))))" by (simp add: prior_of_def sample_table_def)
  from gates_and_resumption_safe[OF sample_flow_valid d run]
  have "set (delegated msgs) \<subseteq> {''publish''}"
    by (auto simp: prior_of_def sample_table_def sample_flow_def settled_at_def is_settled_def step_success_def)
  with gates_and_resumption_safe[OF sample_flow_valid d run] run show ?thesis by (intro exI conjI) auto
qed

theorem approvals_in_any_order_witness:
  "\<exists>(p :: wf_record) (r :: workflow_run). dict_get (wr_results p) = dict_get (wu_results r) \<and> wr_status p = wu_status r \<and>
    wu_id r = ''v'' \<and> set (wr_pending p) = set (wu_pending r)"
proof -
  from fresh_run_returns[of sample_tools 0 "''u''" sample_flow "[]" "[]"] obtain r0 tab0 msgs0 where
    a: "run_workflow sample_tools 0 ''u'' sample_flow None [] [] = (Inr r0, tab0, msgs0)" by (elim exE)
  from fresh_run_returns[of sample_tools 0 "''v''" sample_flow "[] @ concat (map snd [(1, [''publish''])])" "[]"]
  obtain r tab2 msgs where
    b: "run_workflow sample_tools 0 ''v'' sample_flow None ([] @ concat (map snd [(1 :: time, [''publish''])])) [] = (Inr r, tab2, msgs)"
    by auto
  have "wu_id r = ''v''" using run_workflow_shape(4)[OF b] by simp
  with approvals_in_any_order[OF sample_flow_valid sample_flow_upstream a b] show ?thesis by auto
qed

subsection \<open>The order of the dry run\<close>

definition wf_arcs :: "workflow \<Rightarrow> (string \<times> string) list" where
  "wf_arcs w = map (\<lambda>e. (we_from e, we_to e)) (wf_edges w)"

lemma set_wf_arcs: "set (wf_arcs w) = wf_rel w"
  by (simp add: wf_arcs_def wf_rel_def)

lemma outgoing_succs: "map we_to (outgoing_edges w i) = succs (wf_arcs w) i"
  unfolding outgoing_edges_def succs_def wf_arcs_def by (induction "wf_edges w") (auto simp: filter_map o_def)

lemma in_degrees_spec:
  assumes "set es \<subseteq> set es'" "we_to ` set es' \<subseteq> fst ` set D"
  shows "map fst (fold (\<lambda>e D. dict_set (we_to e) (degree D (we_to e) + 1) D) es D) = map fst D \<and>
    degree (fold (\<lambda>e D. dict_set (we_to e) (degree D (we_to e) + 1) D) es D) v =
      degree D v + int (arcs_into (map (\<lambda>e. (we_from e, we_to e)) es) {} v)"
  using assms
proof (induction es arbitrary: D)
  case (Cons e es)
  have k: "we_to e \<in> fst ` set D" using Cons.prems by auto
  have "we_to ` set es' \<subseteq> fst ` set (dict_set (we_to e) (degree D (we_to e) + 1) D)"
    using Cons.prems(2) by auto
  from Cons.IH[OF _ this] Cons.prems(1) k show ?case by (simp add: keys_set arcs_into_def)
qed (simp add: arcs_into_def)

lemma order_loop_inv:
  assumes "set E \<subseteq> set V \<times> set V" "\<And>i. map we_to (outgoing_edges w i) = succs E i"
  shows "kahn_inv V E P D Q \<Longrightarrow> \<exists>D'. kahn_inv V E (P @ order_loop w Q D) D' []"
  using assms(2)
proof (induction w Q D arbitrary: P rule: order_loop.induct)
  case (2 w i fr D)
  obtain D1 fresh where r: "relax (map we_to (outgoing_edges w i)) D [] = (D1, fresh)" by fastforce
  then have "relax (succs E i) D fr = (D1, fr @ fresh)"
    using relax_frame[of "map we_to (outgoing_edges w i)" D fr "[]"] by (simp add: 2(3))
  from kahn_inv_pop[OF "2.prems"(1) assms(1) this]
  have "kahn_inv V E (P @ [i]) D1 (sort (fr @ fresh))" by (rule kahn_inv_perm) simp
  from "2.IH"[OF r[symmetric] this "2.prems"(2)] show ?case by (simp add: r)
qed auto

text \<open>The dry run lists every node once, after all its predecessors.\<close>

lemma topological_order_correct:
  assumes "validate_workflow w = Inr ()"
  shows "distinct (topological_order w) \<and> set (topological_order w) = set (wf_ids w) \<and>
    topo (wf_rel w) (topological_order w)"
proof -
  let ?V = "wf_ids w" and ?E = "wf_arcs w" and ?D = "in_degrees w"
  have ids: "distinct ?V" and ac: "acyclic (wf_rel w)" and ends: "wf_rel w \<subseteq> set ?V \<times> set ?V"
    using assms by (auto simp: validate_iff wf_rel_def)
  have E: "set ?E \<subseteq> set ?V \<times> set ?V" using ends by (simp add: set_wf_arcs)
  define D0 where "D0 = map (\<lambda>i. (i, 0 :: int)) ?V"
  have D0: "map fst D0 = ?V" "\<And>v. degree D0 v = 0"
    by (simp_all add: D0_def o_def degree_def dict_get_default_def map_of_map_pairs)
  have Deq: "?D = fold (\<lambda>e D. dict_set (we_to e) (degree D (we_to e) + 1) D) (wf_edges w) D0"
    by (simp add: in_degrees_def D0_def distinct_remdups_id[OF ids])
  have "we_to ` set (wf_edges w) \<subseteq> fst ` set D0"
    using ends D0(1) by (metis (no_types, lifting) assms list.set_map validate_iff)
  note sp = in_degrees_spec[OF subset_refl this]
  have keys: "map fst ?D = ?V" using sp unfolding Deq by (simp add: D0(1))
  have deg: "degree ?D v = int (arcs_into ?E {} v)" for v
    using sp[of v] unfolding Deq by (simp add: D0(2) wf_arcs_def)
  have dist: "distinct (map fst ?D)" using ids by (simp only: keys)
  have fst: "fst ` set ?D = set ?V" using keys by (metis set_map)
  have z: "distinct (zero_degree ?D)" "set (zero_degree ?D) = {v \<in> set ?V. degree ?D v = 0}"
    using zero_degree_spec[OF dist] unfolding fst by blast+
  have "kahn_inv ?V ?E [] ?D (zero_degree ?D)"
    unfolding kahn_inv_def by (intro conjI) (simp_all add: z deg)
  then have "kahn_inv ?V ?E [] ?D (sort (zero_degree ?D))" by (rule kahn_inv_perm) simp
  from order_loop_inv[OF E outgoing_succs this] obtain D' where
    k: "kahn_inv ?V ?E (topological_order w) D' []" by (auto simp: topological_order_def)
  then have "distinct (topological_order w)" "set (topological_order w) \<subseteq> set ?V" "topo (wf_rel w) (topological_order w)"
    by (simp_all add: kahn_inv_def set_wf_arcs)
  moreover have "length (topological_order w) = length ?V"
    using kahn_inv_complete_iff[OF k ids E] ac by (simp add: set_wf_arcs)
  ultimately show ?thesis using distinct_same_set_length[OF _ ids] by blast
qed

subsection \<open>Round trip\<close>

lemma bind_sum_Inr [simp]: "bind_sum (Inr x) f = f x"
  by (simp add: bind_sum_def)

lemma workflow_dict_roundtrip:
  assumes "validate_workflow w = Inr ()"
  shows "workflow_from_dict (workflow_to_dict w) = Inr w"
proof -
  have n: "map_sum_list wf_node_from (map wf_node_dict ns) = Inr ns" for ns
    by (rule map_sum_list_inverse) (simp add: wf_node_dict_def str_req_def dict_or_def flag_or_def)
  have e: "map_sum_list wf_edge_from (map wf_edge_dict es) = Inr es" for es
    by (rule map_sum_list_inverse) (simp add: wf_edge_dict_def str_req_def str_or_def)
  obtain i nm ds ns es p where w: "w = \<lparr>wf_id = i, wf_name = nm, wf_description = ds, wf_nodes = ns, wf_edges = es,
    wf_project = p\<rparr>" by (cases w)
  show ?thesis
    using assms unfolding w
    by (cases p) (simp_all add: workflow_from_dict_def workflow_to_dict_def list_or_def n e str_req_def str_or_def
        text_or_none_def text_or_null_def wf_field_def)
qed

end
