(* ===== verification/SecurityPolicy.thy ===== *)
theory SecurityPolicy
  imports Workflow
begin

text \<open>
  What the security gate decides without asking anyone: registered projects and the roots they grant
  (\<^verbatim>\<open>projects/project_manager.py\<close>, \<^verbatim>\<open>projects/store.py\<close>), the permission matrix
  (\<^verbatim>\<open>security/permission_matrix.py\<close>, \<^verbatim>\<open>security/autonomy.py\<close>) and the rules of
  \<^verbatim>\<open>security/aegis_engine.py\<close>.

  The file system is a record of what it answers: \<^verbatim>\<open>Path.resolve\<close> gives the components of an absolute path
  or raises; paths are POSIX paths, so \<^verbatim>\<open>is_relative_to\<close> is the prefix order on components. The clock is read
  once per call. Tables are association lists keyed by the primary key.
\<close>

subsection \<open>The file system\<close>

datatype path_error = PathOsError | PathRuntimeError | PathValueError

type_synonym path = "string list"

record file_system =
  fs_home :: "string \<Rightarrow> path_error + string"
  fs_resolve :: "string \<Rightarrow> path_error + path"
  fs_exists :: "path \<Rightarrow> bool"
  fs_is_dir :: "path \<Rightarrow> bool"
  fs_listable :: "path \<Rightarrow> bool"
  fs_probe :: "path \<Rightarrow> bool"

text \<open>\<^verbatim>\<open>str\<close> of an absolute path.\<close>

definition path_text :: "path \<Rightarrow> string" where
  "path_text ps = (if ps = [] then ''/'' else concat (map (\<lambda>p. CHR ''/'' # p) ps))"

abbreviation under :: "path \<Rightarrow> path \<Rightarrow> bool" where
  "under rt p \<equiv> is_prefix rt p"

subsection \<open>Projects\<close>

datatype project_status = ProjectActive | ProjectArchived

datatype validation_status = Unvalidated | ValidPath | InvalidPath

datatype probe_detail =
    BadPath
  | NoSuchPath path
  | NotADirectory path
  | Probed bool bool bool
  | NoLocalFolder

record project =
  pj_name :: string
  pj_description :: string
  pj_root :: "string option"
  pj_repository :: "string option"
  pj_branch :: "string option"
  pj_status :: project_status
  pj_validation :: "validation_status option"
  pj_accessible :: "bool option"
  pj_readable :: "bool option"
  pj_writable :: "bool option"
  pj_detail :: "probe_detail option"
  pj_validated_at :: "time option"
  pj_tags :: string
  pj_created :: time
  pj_updated :: time

datatype project_event =
    Registered string string "string option" "string option"
  | Validated string validation_status "string option" probe_detail

type_synonym project_table = "(string, project) dict"

record project_store =
  ps_table :: project_table
  ps_events :: "project_event list"

datatype project_error = BadProjectStatus string | ProjectPathError path_error

definition text_true :: "string option \<Rightarrow> bool" where
  "text_true s = (case s of None \<Rightarrow> False | Some t \<Rightarrow> t \<noteq> [])"

fun comma_join :: "string list \<Rightarrow> string" where
  "comma_join [] = []"
| "comma_join [t] = t"
| "comma_join (t # ts) = t @ CHR '','' # comma_join ts"

definition project_status_of :: "string \<Rightarrow> project_status option" where
  "project_status_of s = (if s = ''active'' then Some ProjectActive
     else if s = ''archived'' then Some ProjectArchived else None)"

definition put_project :: "string \<Rightarrow> project \<Rightarrow> project_event list \<Rightarrow> project_store \<Rightarrow> project_store" where
  "put_project i p evs ps = ps\<lparr>ps_table := dict_set i p (ps_table ps), ps_events := ps_events ps @ evs\<rparr>"

definition create_project :: "time \<Rightarrow> string \<Rightarrow> string \<Rightarrow> string \<Rightarrow> string option \<Rightarrow> string option \<Rightarrow> string option
    \<Rightarrow> string list \<Rightarrow> project_store \<Rightarrow> project_store" where
  "create_project now uuid name ds rt repo br tags ps = put_project uuid
     \<lparr>pj_name = name, pj_description = ds, pj_root = rt, pj_repository = repo, pj_branch = br,
      pj_status = ProjectActive, pj_validation = (if text_true rt then Some Unvalidated else None),
      pj_accessible = None, pj_readable = None, pj_writable = None, pj_detail = None, pj_validated_at = None,
      pj_tags = comma_join tags, pj_created = now, pj_updated = now\<rparr>
     [Registered uuid name rt repo] ps"

definition tags_list :: "project \<Rightarrow> string list" where
  "tags_list p = filter (\<lambda>t. t \<noteq> []) (fold (\<lambda>c (acc :: string list).
     if c = CHR '','' then acc @ [[]] else butlast acc @ [last acc @ [c]]) (pj_tags p) [[]])"

definition list_projects :: "string option \<Rightarrow> string option \<Rightarrow> project_store \<Rightarrow> project_error + (string \<times> project) list" where
  "list_projects status tag ps =
     (let rows = rev (sort_key (\<lambda>(i, p). pj_created p) (sort_key fst (ps_table ps)));
          tagged = (\<lambda>rs. case tag of None \<Rightarrow> rs | Some t \<Rightarrow> filter (\<lambda>(i, p). t \<in> set (tags_list p)) rs)
      in case status of None \<Rightarrow> Inr (tagged rows)
         | Some s \<Rightarrow> (case project_status_of s of None \<Rightarrow> Inl (BadProjectStatus s)
             | Some x \<Rightarrow> Inr (tagged (filter (\<lambda>(i, p). pj_status p = x) rows))))"

definition set_some :: "'a option \<Rightarrow> 'a \<Rightarrow> 'a" where
  "set_some new old = (case new of None \<Rightarrow> old | Some x \<Rightarrow> x)"

definition move_root :: "string option \<Rightarrow> project \<Rightarrow> project" where
  "move_root rt p =
     (if rt \<noteq> None \<and> rt \<noteq> pj_root p
      then p\<lparr>pj_root := rt, pj_validation := Some Unvalidated, pj_accessible := None, pj_readable := None,
             pj_writable := None, pj_detail := None, pj_validated_at := None\<rparr>
      else p)"

definition edited_project :: "string option \<Rightarrow> string option \<Rightarrow> string option \<Rightarrow> string option \<Rightarrow> string option
    \<Rightarrow> project \<Rightarrow> project" where
  "edited_project name ds rt repo br p0 =
     (let p1 = move_root rt (p0\<lparr>pj_name := set_some name (pj_name p0), pj_description := set_some ds (pj_description p0)\<rparr>)
      in p1\<lparr>pj_repository := (if repo = None then pj_repository p1 else repo),
            pj_branch := (if br = None then pj_branch p1 else br)\<rparr>)"

definition stamp_project :: "time \<Rightarrow> string list option \<Rightarrow> project \<Rightarrow> project" where
  "stamp_project now tags p = p\<lparr>pj_tags := (case tags of None \<Rightarrow> pj_tags p | Some ts \<Rightarrow> comma_join ts), pj_updated := now\<rparr>"

definition update_project :: "time \<Rightarrow> string \<Rightarrow> string option \<Rightarrow> string option \<Rightarrow> string option \<Rightarrow> string option
    \<Rightarrow> string option \<Rightarrow> string option \<Rightarrow> string list option \<Rightarrow> project_store \<Rightarrow> project_error + project_store" where
  "update_project now i name ds rt repo br status tags ps =
     (case dict_get (ps_table ps) i of None \<Rightarrow> Inr ps
      | Some p0 \<Rightarrow>
          (let p = edited_project name ds rt repo br p0
           in case status of None \<Rightarrow> Inr (put_project i (stamp_project now tags p) [] ps)
              | Some s \<Rightarrow> (case project_status_of s of None \<Rightarrow> Inl (BadProjectStatus s)
                  | Some x \<Rightarrow> Inr (put_project i (stamp_project now tags (p\<lparr>pj_status := x\<rparr>)) [] ps))))"

definition delete_project :: "string \<Rightarrow> project_store \<Rightarrow> bool \<times> project_store" where
  "delete_project i ps = (case dict_get (ps_table ps) i of None \<Rightarrow> (False, ps)
     | Some _ \<Rightarrow> (True, ps\<lparr>ps_table := dict_del i (ps_table ps)\<rparr>))"

record path_check =
  pk_accessible :: bool
  pk_readable :: bool
  pk_writable :: bool
  pk_detail :: probe_detail
  pk_resolved :: "path option"

definition refused_path :: "probe_detail \<Rightarrow> path option \<Rightarrow> path_check" where
  "refused_path d r = \<lparr>pk_accessible = False, pk_readable = False, pk_writable = False, pk_detail = d, pk_resolved = r\<rparr>"

definition validate_project_path :: "file_system \<Rightarrow> string \<Rightarrow> path_error + path_check" where
  "validate_project_path fs rt =
     (case bind_sum (fs_home fs rt) (fs_resolve fs) of
        Inl PathValueError \<Rightarrow> Inl PathValueError
      | Inl _ \<Rightarrow> Inr (refused_path BadPath None)
      | Inr r \<Rightarrow>
          (if \<not> fs_exists fs r then Inr (refused_path (NoSuchPath r) (Some r))
           else if \<not> fs_is_dir fs r then Inr (refused_path (NotADirectory r) (Some r))
           else let readable = fs_listable fs r; writable = fs_probe fs r
                in Inr \<lparr>pk_accessible = readable, pk_readable = readable, pk_writable = writable,
                        pk_detail = Probed readable readable writable, pk_resolved = Some r\<rparr>))"

definition judged_project :: "time \<Rightarrow> path_check \<Rightarrow> project \<Rightarrow> project" where
  "judged_project now k p = p\<lparr>pj_validation := Some (if pk_accessible k then ValidPath else InvalidPath),
     pj_accessible := Some (pk_accessible k), pj_readable := Some (pk_readable k), pj_writable := Some (pk_writable k),
     pj_detail := Some (pk_detail k), pj_validated_at := Some now,
     pj_root := (case pk_resolved k of None \<Rightarrow> pj_root p
       | Some r \<Rightarrow> if pk_accessible k then Some (path_text r) else pj_root p)\<rparr>"

definition validate_project :: "file_system \<Rightarrow> time \<Rightarrow> string \<Rightarrow> project_store \<Rightarrow> path_error + project_store" where
  "validate_project fs now i ps =
     (case dict_get (ps_table ps) i of None \<Rightarrow> Inr ps
      | Some p \<Rightarrow>
          (case pj_root p of
             Some (c # rt) \<Rightarrow> bind_sum (validate_project_path fs (c # rt)) (\<lambda>k.
               let p' = judged_project now k p
               in Inr (put_project i p' [Validated i (if pk_accessible k then ValidPath else InvalidPath) (pj_root p') (pk_detail k)] ps))
           | _ \<Rightarrow> Inr (put_project i (judged_project now (refused_path NoLocalFolder None) p)
               [Validated i InvalidPath None NoLocalFolder] ps)))"

text \<open>The predicate that grants, the root a project grants, and the roots of all.\<close>

definition grants :: "project option \<Rightarrow> bool" where
  "grants op = (case op of None \<Rightarrow> False
     | Some p \<Rightarrow> text_true (pj_root p) \<and> pj_status p = ProjectActive \<and> pj_validation p = Some ValidPath)"

definition authorized_root :: "project_store \<Rightarrow> string option \<Rightarrow> string option" where
  "authorized_root ps i = (case i of None \<Rightarrow> None
     | Some j \<Rightarrow> if j = [] then None
         else (let op = dict_get (ps_table ps) j in if grants op then Option.bind op pj_root else None))"

definition active_validated_roots :: "project_store \<Rightarrow> string list" where
  "active_validated_roots ps = List.map_filter (\<lambda>(i, p). if grants (Some p) then pj_root p else None)
     (case list_projects (Some ''active'') None ps of Inl _ \<Rightarrow> [] | Inr rs \<Rightarrow> rs)"

fun project_at :: "file_system \<Rightarrow> path \<Rightarrow> (string \<times> project) list \<Rightarrow> path_error + string option" where
  "project_at fs target [] = Inr None"
| "project_at fs target ((i, p) # rows) = (case pj_root p of
     Some (c # cs) \<Rightarrow> (case fs_resolve fs (c # cs) of
         Inl PathOsError \<Rightarrow> project_at fs target rows
       | Inl e \<Rightarrow> Inl e
       | Inr r \<Rightarrow> if r \<noteq> target then project_at fs target rows else Inr (Some i))
   | _ \<Rightarrow> project_at fs target rows)"

definition valid_project :: "string \<Rightarrow> project_store \<Rightarrow> (string \<times> project) option" where
  "valid_project i ps = (case dict_get (ps_table ps) i of None \<Rightarrow> None
     | Some p \<Rightarrow> if pj_validation p = Some ValidPath then Some (i, p) else None)"

definition validated_project :: "file_system \<Rightarrow> time \<Rightarrow> string \<Rightarrow> project_store
    \<Rightarrow> (path_error + (string \<times> project) option) \<times> project_store" where
  "validated_project fs now i ps = (case validate_project fs now i ps of
     Inl e \<Rightarrow> (Inl e, ps) | Inr ps' \<Rightarrow> (Inr (valid_project i ps'), ps'))"

definition ensure_for_path :: "file_system \<Rightarrow> time \<Rightarrow> string \<Rightarrow> string \<Rightarrow> string \<Rightarrow> project_store
    \<Rightarrow> (path_error + (string \<times> project) option) \<times> project_store" where
  "ensure_for_path fs now uuid rt name ps = (case fs_home fs rt of Inl e \<Rightarrow> (Inl e, ps)
   | Inr home \<Rightarrow> (case fs_resolve fs home of
       Inl e \<Rightarrow> (if e = PathOsError then Inr None else Inl e, ps)
     | Inr target \<Rightarrow>
         (case project_at fs target (case list_projects (Some ''active'') None ps of Inl _ \<Rightarrow> [] | Inr rs \<Rightarrow> rs) of
            Inl e \<Rightarrow> (Inl e, ps)
          | Inr (Some i) \<Rightarrow> validated_project fs now i ps
          | Inr None \<Rightarrow> validated_project fs now uuid (create_project now uuid
              (if name \<noteq> [] then name else if target \<noteq> [] \<and> last target \<noteq> [] then last target else ''workspace'')
              (''Cr'' @ [CHR 0xE9, CHR 0xE9] @ '' automatiquement pour un objectif autonome (HOS-119)'')
              (Some (path_text target)) None None [] ps))))"

subsection \<open>The permission matrix\<close>

record category_policy =
  cy_name :: string
  cy_mutating :: bool
  cy_path_based :: bool
  cy_mandatory :: bool
  cy_min_autonomy :: "string option"

record permission_matrix =
  px_level :: string
  px_categories :: "(string, category_policy) dict"

definition niveaux :: "string list" where
  "niveaux = [''low'', ''medium'', ''high'', ''full'']"

text \<open>The override file: unreadable or invalid JSON is no override, and so is an unknown level.\<close>

definition lire_derogation :: "pyval option \<Rightarrow> string option" where
  "lire_derogation content = (case content of
       Some (PDict d) \<Rightarrow> (case dict_get d ''autonomy_level'' of
           Some (PStr s) \<Rightarrow> if s \<in> set niveaux then Some s else None | _ \<Rightarrow> None)
     | _ \<Rightarrow> None)"

definition ecrire_derogation :: "string \<Rightarrow> (string + string) \<times> pyval option \<Rightarrow> (string + string) \<times> pyval option" where
  "ecrire_derogation niveau s =
     (if niveau \<notin> set niveaux then (Inl niveau, snd s)
      else (Inr niveau, Some (PDict [(''autonomy_level'', PStr niveau)])))"

definition effacer_derogation :: "pyval option \<Rightarrow> pyval option" where
  "effacer_derogation content = None"

fun category_of_spec :: "string \<times> pyval \<Rightarrow> load_error + (string \<times> category_policy)" where
  "category_of_spec (name, PDict spec) =
     bind_sum (flag_or spec ''mutating'' True) (\<lambda>m.
     bind_sum (flag_or spec ''path_based'' False) (\<lambda>p.
     bind_sum (flag_or spec ''mandatory_validation'' False) (\<lambda>v.
     bind_sum (text_or_none spec ''min_autonomy_for_auto_allow'') (\<lambda>a.
       Inr (name, \<lparr>cy_name = name, cy_mutating = m, cy_path_based = p, cy_mandatory = v, cy_min_autonomy = a\<rparr>)))))"
| "category_of_spec (name, _) = Inl BadShape"

definition permission_matrix_of :: "pyval option \<Rightarrow> metadata \<Rightarrow> load_error + permission_matrix" where
  "permission_matrix_of override config =
     bind_sum (str_or config ''autonomy_level'' ''low'') (\<lambda>level.
     bind_sum (dict_or config ''action_categories'') (\<lambda>cats.
     bind_sum (map_sum_list category_of_spec cats) (\<lambda>cs.
       Inr \<lparr>px_level = set_some (lire_derogation override) level, px_categories = fold (\<lambda>(k, c). dict_set k c) cs []\<rparr>)))"

definition get_category :: "permission_matrix \<Rightarrow> string \<Rightarrow> category_policy option" where
  "get_category m a = dict_get (px_categories m) a"

definition known_categories :: "permission_matrix \<Rightarrow> string list" where
  "known_categories m = sort (dict_keys (px_categories m))"

subsection \<open>The engine\<close>

datatype gate_verdict = GateAllow | GateDeny | GateHuman

datatype gate_reason =
    UnknownCategory string
  | NoTarget string
  | OutsideWhitelist string
  | OutsideProject string string
  | AlwaysHuman string
  | ReadOnlyAction string
  | AutoAllowed string string
  | NeedsLevel string string string
  | UnknownProject string
  | HumanConsent string "time option"

record action_request =
  aq_type :: string
  aq_description :: string
  aq_target :: "string option"
  aq_agent :: string
  aq_task :: "string option"
  aq_project :: "string option"
  aq_discriminants :: "(string \<times> string) list"

record gate_decision =
  ad_verdict :: gate_verdict
  ad_reason :: gate_reason
  ad_action :: string
  ad_advisory :: "string option"

definition gate_says :: "gate_verdict \<Rightarrow> gate_reason \<Rightarrow> string \<Rightarrow> gate_decision" where
  "gate_says v r a = \<lparr>ad_verdict = v, ad_reason = r, ad_action = a, ad_advisory = None\<rparr>"

record aegis_engine =
  ae_matrix :: permission_matrix
  ae_roots :: "path list"

definition new_aegis_engine :: "file_system \<Rightarrow> permission_matrix \<Rightarrow> string list \<Rightarrow> path_error + aegis_engine" where
  "new_aegis_engine fs m allowed = bind_sum (map_sum_list (fs_resolve fs) allowed)
     (\<lambda>roots. Inr \<lparr>ae_matrix = m, ae_roots = roots\<rparr>)"

definition autonomy_order :: "(string, nat) dict" where
  "autonomy_order = [(''low'', 0), (''medium'', 1), (''high'', 2)]"

fun add_roots :: "file_system \<Rightarrow> path list \<Rightarrow> string list \<Rightarrow> path_error + path list" where
  "add_roots fs roots [] = Inr roots"
| "add_roots fs roots (p # ps) = (case fs_resolve fs p of
     Inl PathValueError \<Rightarrow> Inl PathValueError
   | Inl _ \<Rightarrow> add_roots fs roots ps
   | Inr r \<Rightarrow> add_roots fs (roots @ [r]) ps)"

definition within_whitelist :: "file_system \<Rightarrow> aegis_engine \<Rightarrow> string list \<Rightarrow> string \<Rightarrow> path_error + bool" where
  "within_whitelist fs ae extra target =
     bind_sum (add_roots fs (ae_roots ae) extra) (\<lambda>roots.
       if roots = [] then Inr False
       else bind_sum (fs_resolve fs target) (\<lambda>t. Inr (list_ex (\<lambda>r. t = r \<or> under r t) roots)))"

definition within_path :: "file_system \<Rightarrow> string \<Rightarrow> string \<Rightarrow> path_error + bool" where
  "within_path fs target rt =
     bind_sum (fs_resolve fs target) (\<lambda>t. bind_sum (fs_resolve fs rt) (\<lambda>r. Inr (t = r \<or> under r t)))"

definition policy_verdict :: "permission_matrix \<Rightarrow> category_policy \<Rightarrow> string \<Rightarrow> gate_decision" where
  "policy_verdict m c a =
     (if cy_mandatory c then gate_says GateHuman (AlwaysHuman a) a
      else if \<not> cy_mutating c then gate_says GateAllow (ReadOnlyAction a) a
      else let required = (case cy_min_autonomy c of None \<Rightarrow> ''high'' | Some s \<Rightarrow> if s = [] then ''high'' else s);
               current_rank = dict_get_default autonomy_order (px_level m) 0;
               required_rank = dict_get_default autonomy_order required 2
           in if current_rank \<ge> required_rank then gate_says GateAllow (AutoAllowed a (px_level m)) a
              else gate_says GateHuman (NeedsLevel a required (px_level m)) a)"

definition engine_evaluate :: "file_system \<Rightarrow> aegis_engine \<Rightarrow> string option \<Rightarrow> string list \<Rightarrow> action_request
    \<Rightarrow> path_error + gate_decision" where
  "engine_evaluate fs ae proot extra q =
     (let a = aq_type q; m = ae_matrix ae in
      case get_category m a of None \<Rightarrow> Inr (gate_says GateHuman (UnknownCategory a) a)
      | Some c \<Rightarrow>
          if \<not> cy_path_based c then Inr (policy_verdict m c a)
          else (case aq_target q of
              Some (x # xs) \<Rightarrow>
                bind_sum (within_whitelist fs ae extra (x # xs)) (\<lambda>ok.
                  if \<not> ok then Inr (gate_says GateDeny (OutsideWhitelist (x # xs)) a)
                  else (case proot of None \<Rightarrow> Inr (policy_verdict m c a)
                    | Some r \<Rightarrow> bind_sum (within_path fs (x # xs) r) (\<lambda>ok2.
                        if \<not> ok2 then Inr (gate_says GateDeny (OutsideProject (x # xs) r) a)
                        else Inr (policy_verdict m c a))))
            | _ \<Rightarrow> Inr (gate_says GateDeny (NoTarget a) a)))"

end
