(* ===== verification/Approvals.thy ===== *)
theory Approvals
  imports SecurityPolicy MissionVerification
begin

text \<open>
  Human consent: the canonical identity of an action (\<^verbatim>\<open>security/empreinte.py\<close>), the queue of pending
  approvals with its one-shot and scoped consents (\<^verbatim>\<open>security/approvals.py\<close>), and the agent that puts the
  engine, the projects and the queue together (\<^verbatim>\<open>agents/aegis.py\<close>).

  The digest of \<^verbatim>\<open>hashlib.sha256\<close> is a function on texts. Discriminants are text to text, as every caller
  passes them. The queue is keyed by the primary key of the row; \<^verbatim>\<open>ORDER BY decided_at DESC\<close> is a stable sort
  with the undecided rows last. The clock is read once per call.
\<close>

subsection \<open>The identity of an action\<close>

fun split_slash :: "string \<Rightarrow> string list" where
  "split_slash [] = [[]]"
| "split_slash (c # s) = (case split_slash s of
     p # ps \<Rightarrow> if c = CHR ''/'' then [] # p # ps else (c # p) # ps
   | [] \<Rightarrow> [])"

text \<open>\<^verbatim>\<open>posixpath.normpath\<close> and the root and parts of a \<^verbatim>\<open>PurePosixPath\<close>.\<close>

definition leading_root :: "string \<Rightarrow> string" where
  "leading_root s = (if \<not> is_prefix ''/'' s then []
     else if is_prefix ''//'' s \<and> \<not> is_prefix ''///'' s then ''//'' else ''/'')"

definition norm_step :: "bool \<Rightarrow> string \<Rightarrow> string list \<Rightarrow> string list" where
  "norm_step rooted c acc =
     (if c = [] \<or> c = ''.'' then acc
      else if c \<noteq> ''..'' \<or> (\<not> rooted \<and> acc = []) \<or> (acc \<noteq> [] \<and> last acc = ''..'') then acc @ [c]
      else if acc \<noteq> [] then butlast acc else acc)"

fun slash_join :: "string list \<Rightarrow> string" where
  "slash_join [] = []"
| "slash_join [t] = t"
| "slash_join (t # ts) = t @ CHR ''/'' # slash_join ts"

definition normpath :: "string \<Rightarrow> string" where
  "normpath s = (if s = [] then ''.''
     else let t = leading_root s @ slash_join (fold (norm_step (leading_root s \<noteq> [])) (split_slash s) [])
          in if t = [] then ''.'' else t)"

definition posix_parts :: "string \<Rightarrow> string \<times> string list" where
  "posix_parts s = (leading_root s, filter (\<lambda>c. c \<noteq> [] \<and> c \<noteq> ''.'') (split_slash s))"

definition canoniser_chemin :: "file_system \<Rightarrow> string option \<Rightarrow> string" where
  "canoniser_chemin fs chemin = (case chemin of None \<Rightarrow> []
     | Some s \<Rightarrow> if s = [] then [] else (case fs_resolve fs s of Inr r \<Rightarrow> path_text r | Inl _ \<Rightarrow> normpath s))"

definition hex_digit :: "nat \<Rightarrow> char" where
  "hex_digit n = (if n < 10 then char_of (48 + n) else char_of (87 + n))"

definition json_char :: "char \<Rightarrow> string" where
  "json_char c = (let n = of_char c :: nat in
     if n = 34 then [char_of (92 :: nat), CHR 0x22]
     else if n = 92 then [char_of (92 :: nat), char_of (92 :: nat)]
     else if n = 10 then [char_of (92 :: nat), CHR ''n'']
     else if n = 13 then [char_of (92 :: nat), CHR ''r'']
     else if n = 9 then [char_of (92 :: nat), CHR ''t'']
     else if n = 8 then [char_of (92 :: nat), CHR ''b'']
     else if n = 12 then [char_of (92 :: nat), CHR ''f'']
     else if n < 32 then [char_of (92 :: nat), CHR ''u'', CHR ''0'', CHR ''0'', hex_digit (n div 16), hex_digit (n mod 16)]
     else [c])"

definition json_text :: "string \<Rightarrow> string" where
  "json_text s = CHR 0x22 # concat (map json_char s) @ [CHR 0x22]"

definition json_pair :: "string \<times> string \<Rightarrow> string" where
  "json_pair p = json_text (fst p) @ CHR '':'' # json_text (snd p)"

definition canoniser_discriminants :: "(string, string) dict \<Rightarrow> string" where
  "canoniser_discriminants d = (if d = [] then []
     else CHR ''{'' # comma_join (map json_pair (sort_key fst d)) @ ''}'')"

definition separateur :: char where
  "separateur = char_of (31 :: nat)"

definition brut :: "file_system \<Rightarrow> string \<Rightarrow> string option \<Rightarrow> (string, string) dict \<Rightarrow> string" where
  "brut fs a target d = str_lower (str_strip a) @ separateur # canoniser_chemin fs target @ separateur # canoniser_discriminants d"

definition empreinte :: "(string \<Rightarrow> string) \<Rightarrow> file_system \<Rightarrow> string \<Rightarrow> string option \<Rightarrow> (string, string) dict \<Rightarrow> string" where
  "empreinte digest fs a target d = digest (brut fs a target d)"

definition couvre :: "file_system \<Rightarrow> string \<Rightarrow> string \<Rightarrow> bool" where
  "couvre fs racine chemin =
     (if racine = [] \<or> chemin = [] then False
      else let a = canoniser_chemin fs (Some racine); b = canoniser_chemin fs (Some chemin)
           in if a = [] \<or> b = [] then False
              else posix_parts a = posix_parts b \<or>
                (fst (posix_parts a) = fst (posix_parts b) \<and> is_prefix (snd (posix_parts a)) (snd (posix_parts b))
                  \<and> length (snd (posix_parts a)) < length (snd (posix_parts b))))"

subsection \<open>The queue\<close>

datatype approval_status = ApPending | ApApproved | ApRefused | ApUsed

definition portee_action :: string where
  "portee_action = ''action''"

definition portee_arborescence :: string where
  "portee_arborescence = ''arborescence''"

definition default_ttl :: int where
  "default_ttl = 15"

definition ttl_portee :: int where
  "ttl_portee = 5"

definition max_usages :: int where
  "max_usages = 50"

record approval =
  ap_fingerprint :: string
  ap_action :: string
  ap_description :: string
  ap_target :: "string option"
  ap_agent :: string
  ap_reason :: gate_reason
  ap_status :: approval_status
  ap_task :: "string option"
  ap_project :: "string option"
  ap_created :: time
  ap_decided :: "time option"
  ap_expires :: "time option"
  ap_portee :: "string option"
  ap_racine :: "string option"
  ap_usages :: "int option"
  ap_discriminants :: "string option"

type_synonym approval_table = "(string, approval) dict"

datatype approval_error = SeveralPending | DuplicateApproval string | ScopeWithoutRoot | ScopeWithoutUse

record consent_env =
  cn_digest :: "string \<Rightarrow> string"
  cn_fs :: file_system
  cn_now :: time
  cn_uuid :: string

definition fingerprint_for :: "consent_env \<Rightarrow> string \<Rightarrow> string option \<Rightarrow> string \<Rightarrow> (string, string) dict \<Rightarrow> string" where
  "fingerprint_for cn a target descr d = empreinte (cn_digest cn) (cn_fs cn) a target d"

definition pending_as :: "string \<Rightarrow> string \<times> approval \<Rightarrow> bool" where
  "pending_as f r \<longleftrightarrow> ap_fingerprint (snd r) = f \<and> ap_status (snd r) = ApPending"

definition record_pending :: "consent_env \<Rightarrow> gate_reason \<Rightarrow> action_request \<Rightarrow> (string, string) dict \<Rightarrow> approval_table
    \<Rightarrow> (approval_error + string) \<times> approval_table \<times> string list" where
  "record_pending cn why q d tab =
     (let f = fingerprint_for cn (aq_type q) (aq_target q) (aq_description q) d
      in case filter (pending_as f) tab of
           [(i, e)] \<Rightarrow> (Inr i, tab, [])
         | _ # _ # _ \<Rightarrow> (Inl SeveralPending, tab, [])
         | [] \<Rightarrow>
             if cn_uuid cn \<in> set (dict_keys tab) then (Inl (DuplicateApproval (cn_uuid cn)), tab, [])
             else (Inr (cn_uuid cn), dict_set (cn_uuid cn)
               \<lparr>ap_fingerprint = f, ap_action = aq_type q, ap_description = aq_description q, ap_target = aq_target q,
                ap_agent = aq_agent q, ap_reason = why, ap_status = ApPending, ap_task = aq_task q,
                ap_project = aq_project q, ap_created = cn_now cn, ap_decided = None, ap_expires = None,
                ap_portee = Some portee_action, ap_racine = None, ap_usages = None,
                ap_discriminants = (let t = canoniser_discriminants d in if t = [] then None else Some t)\<rparr> tab,
               [cn_uuid cn]))"

definition list_approvals :: "approval_status option \<Rightarrow> string option \<Rightarrow> approval_table \<Rightarrow> (string \<times> approval) list" where
  "list_approvals status project tab =
     filter (\<lambda>(i, e). project = None \<or> ap_project e = project)
       (filter (\<lambda>(i, e). status = None \<or> Some (ap_status e) = status)
         (sort_key (\<lambda>(i, e). - ap_created e) tab))"

definition decide :: "consent_env \<Rightarrow> string \<Rightarrow> bool \<Rightarrow> int option \<Rightarrow> string \<Rightarrow> string option \<Rightarrow> int option \<Rightarrow> approval_table
    \<Rightarrow> (approval_error + approval option) \<times> approval_table" where
  "decide cn i approved ttl portee racine usages tab =
     (case dict_get tab i of None \<Rightarrow> (Inr None, tab)
      | Some e \<Rightarrow>
          if ap_status e \<noteq> ApPending then (Inr (Some e), tab)
          else let close = (\<lambda>e1 dflt.
                 let e2 = e1\<lparr>ap_status := (if approved then ApApproved else ApRefused), ap_decided := Some (cn_now cn),
                       ap_expires := (if approved then Some (cn_now cn + 60 * of_int (set_some ttl dflt)) else None)\<rparr>
                 in (Inr (Some e2), dict_set i e2 tab))
               in if approved \<and> portee = portee_arborescence
                  then if \<not> text_true racine then (Inl ScopeWithoutRoot, tab)
                       else let budget = set_some usages max_usages
                            in if budget < 1 then (Inl ScopeWithoutUse, tab)
                               else close (e\<lparr>ap_portee := Some portee_arborescence,
                                      ap_racine := Some (canoniser_chemin (cn_fs cn) racine),
                                      ap_usages := Some (min budget max_usages)\<rparr>) ttl_portee
                  else close (e\<lparr>ap_portee := Some portee_action, ap_usages := Some 1\<rparr>) default_ttl)"

definition vivante :: "time \<Rightarrow> approval \<Rightarrow> bool" where
  "vivante now e = (if (case ap_expires e of None \<Rightarrow> False | Some t \<Rightarrow> t < now) then False
     else (case ap_usages e of None \<Rightarrow> True | Some u \<Rightarrow> u > 0))"

definition depenser :: "string \<Rightarrow> approval \<Rightarrow> approval_table \<Rightarrow> approval \<times> approval_table" where
  "depenser i e tab =
     (let u = map_option (\<lambda>u. u - 1) (ap_usages e);
          e' = e\<lparr>ap_usages := u,
                 ap_status := (if (case u of None \<Rightarrow> True | Some v \<Rightarrow> v \<le> 0) then ApUsed else ap_status e)\<rparr>
      in (e', dict_set i e' tab))"

definition latest_decided :: "(string \<times> approval) list \<Rightarrow> (string \<times> approval) list" where
  "latest_decided rows = sort_key (\<lambda>(i, e). - the (ap_decided e)) (filter (\<lambda>(i, e). ap_decided e \<noteq> None) rows)
     @ filter (\<lambda>(i, e). ap_decided e = None) rows"

definition scope_row :: "string \<Rightarrow> string \<times> approval \<Rightarrow> bool" where
  "scope_row a r \<longleftrightarrow> ap_action (snd r) = a \<and> ap_portee (snd r) = Some portee_arborescence \<and> ap_status (snd r) = ApApproved"

definition consommer_une_portee :: "consent_env \<Rightarrow> string \<Rightarrow> string option \<Rightarrow> approval_table
    \<Rightarrow> (string \<times> approval) option \<times> approval_table" where
  "consommer_une_portee cn a target tab =
     (case target of
        Some (c # cs) \<Rightarrow>
          (case List.find (\<lambda>(i, e). vivante (cn_now cn) e \<and> text_true (ap_racine e) \<and>
                couvre (cn_fs cn) (the (ap_racine e)) (c # cs)) (latest_decided (filter (scope_row a) tab)) of
             None \<Rightarrow> (None, tab)
           | Some (i, e) \<Rightarrow> (case depenser i e tab of (e', tab') \<Rightarrow> (Some (i, e'), tab')))
      | _ \<Rightarrow> (None, tab))"

definition approved_as :: "string \<Rightarrow> string \<times> approval \<Rightarrow> bool" where
  "approved_as f r \<longleftrightarrow> ap_fingerprint (snd r) = f \<and> ap_status (snd r) = ApApproved"

definition consume_approval :: "consent_env \<Rightarrow> string \<Rightarrow> string option \<Rightarrow> string \<Rightarrow> (string, string) dict \<Rightarrow> approval_table
    \<Rightarrow> (string \<times> approval) option \<times> approval_table" where
  "consume_approval cn a target descr d tab =
     (case latest_decided (filter (approved_as (fingerprint_for cn a target descr d)) tab) of
        (i, e) # _ \<Rightarrow>
          (if vivante (cn_now cn) e then (case depenser i e tab of (e', tab') \<Rightarrow> (Some (i, e'), tab'))
           else consommer_une_portee cn a target tab)
      | [] \<Rightarrow> consommer_une_portee cn a target tab)"

definition approval_expired :: "time \<Rightarrow> approval \<Rightarrow> bool" where
  "approval_expired now e = (case ap_expires e of None \<Rightarrow> False | Some t \<Rightarrow> t < now)"

subsection \<open>The agent\<close>

datatype aegis_message =
    ValidationRequest string string "string option"
  | ValidationAnswer gate_verdict gate_reason string

datatype gate_failure = GatePath path_error | GateQueue approval_error

record gate_state =
  gt_table :: approval_table
  gt_bus :: "aegis_message list"
  gt_hub :: "string list"

definition apply_human_consent :: "consent_env \<Rightarrow> action_request \<Rightarrow> gate_decision \<Rightarrow> approval_table
    \<Rightarrow> (gate_failure + gate_decision) \<times> approval_table \<times> string list" where
  "apply_human_consent cn q dn tab =
     (if ad_verdict dn \<noteq> GateHuman then (Inr dn, tab, [])
      else let d = fold (\<lambda>(k, v). dict_set k v) (aq_discriminants q) []
           in case consume_approval cn (aq_type q) (aq_target q) (aq_description q) d tab of
                (Some (i, e), tab') \<Rightarrow> (Inr (gate_says GateAllow (HumanConsent i (ap_decided e)) (ad_action dn)), tab', [])
              | (None, tab') \<Rightarrow>
                  (case record_pending cn (ad_reason dn) q d tab' of
                     (Inl x, tab2, hub) \<Rightarrow> (Inl (GateQueue x), tab2, hub)
                   | (Inr _, tab2, hub) \<Rightarrow> (Inr dn, tab2, hub)))"

definition resolve_decision :: "file_system \<Rightarrow> aegis_engine \<Rightarrow> project_store \<Rightarrow> action_request \<Rightarrow> path_error + gate_decision" where
  "resolve_decision fs ae ps q =
     (case aq_project q of
        Some (c # cs) \<Rightarrow>
          (case dict_get (ps_table ps) (c # cs) of
             None \<Rightarrow> bind_sum (engine_evaluate fs ae None [] q) (\<lambda>base.
               if ad_verdict base = GateDeny then Inr base
               else Inr (gate_says GateHuman (UnknownProject (c # cs)) (aq_type q)))
           | Some p \<Rightarrow>
               (let extra = (case authorized_root ps (Some (c # cs)) of None \<Rightarrow> [] | Some r \<Rightarrow> if r = [] then [] else [r])
                in if \<not> text_true (pj_root p) then engine_evaluate fs ae None extra q
                   else engine_evaluate fs ae (pj_root p) extra q))
      | _ \<Rightarrow> engine_evaluate fs ae None [] q)"

definition aegis_evaluate :: "consent_env \<Rightarrow> aegis_engine \<Rightarrow> project_store \<Rightarrow> action_request \<Rightarrow> gate_state
    \<Rightarrow> (gate_failure + gate_decision) \<times> gate_state" where
  "aegis_evaluate cn ae ps q gt =
     (let gt1 = gt\<lparr>gt_bus := gt_bus gt @ [ValidationRequest (aq_type q) (aq_description q) (aq_target q)]\<rparr>
      in case resolve_decision (cn_fs cn) ae ps q of
           Inl x \<Rightarrow> (Inl (GatePath x), gt1)
         | Inr dn \<Rightarrow>
             (case apply_human_consent cn q dn (gt_table gt1) of
                (r, tab, hub) \<Rightarrow>
                  (let gt2 = gt1\<lparr>gt_table := tab, gt_hub := gt_hub gt1 @ hub\<rparr>
                   in case r of Inl x \<Rightarrow> (Inl x, gt2)
                      | Inr dn' \<Rightarrow> (Inr dn', gt2\<lparr>gt_bus := gt_bus gt2 @
                          [ValidationAnswer (ad_verdict dn') (ad_reason dn') (ad_action dn')]\<rparr>))))"

definition decide_approval :: "consent_env \<Rightarrow> string \<Rightarrow> bool \<Rightarrow> string \<Rightarrow> string option \<Rightarrow> int option \<Rightarrow> gate_state
    \<Rightarrow> (approval_error + approval option) \<times> gate_state" where
  "decide_approval cn i approved portee racine usages gt =
     (case decide cn i approved None portee racine usages (gt_table gt) of (r, tab) \<Rightarrow> (r, gt\<lparr>gt_table := tab\<rparr>))"

end
