(* ===== verification/Approvals_Correct.thy ===== *)
theory Approvals_Correct
  imports Approvals
begin

text \<open>
  What the gate guarantees: a project grants only a folder that a validation of this project has measured; a
  path outside the boundaries is never let through, whatever the consents; what always needs a human needs a
  live approval, which is spent; approvals cannot be spent beyond their budget.
\<close>

subsection \<open>Projects grant what was measured\<close>

datatype project_op =
    CreateProject time string string string "string option" "string option" "string option" "string list"
  | UpdateProject time string "string option" "string option" "string option" "string option" "string option"
      "string option" "string list option"
  | DeleteProject string
  | ValidateProject file_system time string
  | EnsureProject file_system time string string string

fun project_step :: "project_op \<Rightarrow> project_store \<Rightarrow> project_store" where
  "project_step (CreateProject now u nm ds rt repo br tags) ps = create_project now u nm ds rt repo br tags ps"
| "project_step (UpdateProject now i nm ds rt repo br st tags) ps =
     (case update_project now i nm ds rt repo br st tags ps of Inl _ \<Rightarrow> ps | Inr ps' \<Rightarrow> ps')"
| "project_step (DeleteProject i) ps = snd (delete_project i ps)"
| "project_step (ValidateProject fs now i) ps = (case validate_project fs now i ps of Inl _ \<Rightarrow> ps | Inr ps' \<Rightarrow> ps')"
| "project_step (EnsureProject fs now u rt nm) ps = snd (ensure_for_path fs now u rt nm ps)"

text \<open>The validations that measured an accessible folder, as the events report them.\<close>

definition measured :: "project_store \<Rightarrow> (string \<times> string option) set" where
  "measured ps = {(i, r). \<exists>d. Validated i ValidPath r d \<in> set (ps_events ps)}"

definition grants_measured :: "project_store \<Rightarrow> bool" where
  "grants_measured ps \<longleftrightarrow> (\<forall>i p. dict_get (ps_table ps) i = Some p \<and> pj_validation p = Some ValidPath \<longrightarrow> (i, pj_root p) \<in> measured ps)"

lemma put_measured:
  assumes "grants_measured ps" "pj_validation p = Some ValidPath \<Longrightarrow> (i, pj_root p) \<in> measured (put_project i p evs ps)"
  shows "grants_measured (put_project i p evs ps)"
  using assms unfolding grants_measured_def by (auto simp: put_project_def measured_def split: if_splits)

lemma validate_measured:
  assumes "grants_measured ps" "validate_project fs now i ps = Inr ps'"
  shows "grants_measured ps'"
proof (cases "dict_get (ps_table ps) i")
  case None
  with assms show ?thesis by (simp add: validate_project_def)
next
  case (Some p)
  show ?thesis
  proof (cases "\<exists>c cs. pj_root p = Some (c # cs)")
    case True
    then obtain c cs where r: "pj_root p = Some (c # cs)" by (elim exE)
    with assms(2) Some obtain k where
      ps': "ps' = put_project i (judged_project now k p) [Validated i (if pk_accessible k then ValidPath else InvalidPath)
         (pj_root (judged_project now k p)) (pk_detail k)] ps"
      by (auto simp: validate_project_def bind_sum_def Let_def split: sum.splits)
    show ?thesis unfolding ps'
      by (rule put_measured[OF assms(1)]) (auto simp: judged_project_def put_project_def measured_def split: if_splits)
  next
    case False
    with assms(2) Some have ps': "ps' = put_project i (judged_project now (refused_path NoLocalFolder None) p)
       [Validated i InvalidPath None NoLocalFolder] ps"
      by (auto simp: validate_project_def split: option.splits list.splits)
    show ?thesis unfolding ps'
      by (rule put_measured[OF assms(1)]) (auto simp: judged_project_def refused_path_def)
  qed
qed

lemma create_measured: "grants_measured ps \<Longrightarrow> grants_measured (create_project now u nm ds rt repo br tags ps)"
  unfolding create_project_def by (rule put_measured) (auto split: if_splits)

lemma update_measured:
  assumes "grants_measured ps" "update_project now i nm ds rt repo br st tags ps = Inr ps'"
  shows "grants_measured ps'"
proof (cases "dict_get (ps_table ps) i")
  case (Some p0)
  let ?e = "edited_project nm ds rt repo br p0"
  have e: "pj_validation ?e = Some ValidPath \<Longrightarrow> pj_validation p0 = Some ValidPath \<and> pj_root ?e = pj_root p0"
    by (auto simp: edited_project_def move_root_def Let_def split: if_splits)
  obtain p where ps': "ps' = put_project i p [] ps" and "pj_validation p = pj_validation ?e" "pj_root p = pj_root ?e"
  proof (cases st)
    case None
    with assms(2) Some show thesis by (intro that[of "stamp_project now tags ?e"]) (simp_all add: update_project_def Let_def stamp_project_def)
  next
    case (Some s)
    with assms(2) \<open>dict_get (ps_table ps) i = Some p0\<close> obtain x where
      "ps' = put_project i (stamp_project now tags (?e\<lparr>pj_status := x\<rparr>)) [] ps"
      by (auto simp: update_project_def Let_def split: option.splits)
    then show thesis by (intro that[of "stamp_project now tags (?e\<lparr>pj_status := x\<rparr>)"]) (simp_all add: stamp_project_def)
  qed
  then have p: "pj_validation p0 = Some ValidPath \<and> pj_root p = pj_root p0" if "pj_validation p = Some ValidPath"
    using that e by simp
  have "(i, pj_root p) \<in> measured (put_project i p [] ps)" if "pj_validation p = Some ValidPath"
    using p[OF that] Some assms(1) by (auto simp: grants_measured_def measured_def put_project_def)
  then show ?thesis unfolding ps' by (rule put_measured[OF assms(1)])
qed (use assms in \<open>simp add: update_project_def\<close>)

lemma project_step_measured: "grants_measured ps \<Longrightarrow> grants_measured (project_step op ps)"
proof (cases op)
  case (UpdateProject a b c d e f g h i)
  assume "grants_measured ps"
  with UpdateProject update_measured show ?thesis by (auto split: sum.splits)
next
  case (ValidateProject fs now i)
  assume "grants_measured ps"
  with ValidateProject validate_measured show ?thesis by (auto split: sum.splits)
next
  case (EnsureProject fs now u rt nm)
  assume g: "grants_measured ps"
  have v: "grants_measured (snd (validated_project fs now i qs))" if "grants_measured qs" for i qs
    using that validate_measured by (auto simp: validated_project_def split: sum.splits)
  show ?thesis using EnsureProject g v create_measured[OF g]
    by (auto simp: ensure_for_path_def split: sum.splits option.splits)
next
  case (DeleteProject i)
  assume "grants_measured ps"
  with DeleteProject show ?thesis
    by (auto simp: grants_measured_def measured_def delete_project_def split: option.splits if_splits)
qed (simp add: create_measured)

lemma grant_was_measured:
  assumes "authorized_root (fold project_step ops \<lparr>ps_table = [], ps_events = []\<rparr>) (Some i) = Some r"
  shows "(i, Some r) \<in> measured (fold project_step ops \<lparr>ps_table = [], ps_events = []\<rparr>)"
proof -
  let ?ps = "fold project_step ops \<lparr>ps_table = [], ps_events = []\<rparr>"
  have "grants_measured ?ps"
    by (rule fold_invariant) (simp add: grants_measured_def, rule project_step_measured)
  moreover obtain p where "dict_get (ps_table ?ps) i = Some p" "pj_validation p = Some ValidPath" "pj_root p = Some r"
    using assms by (auto simp: authorized_root_def grants_def Let_def split: if_splits option.splits)
  ultimately show ?thesis unfolding grants_measured_def by metis
qed

subsection \<open>The boundaries hold\<close>

text \<open>The root that the project named by an action grants at this moment, resolved.\<close>

definition granted_by :: "file_system \<Rightarrow> project_store \<Rightarrow> action_request \<Rightarrow> path \<Rightarrow> bool" where
  "granted_by fs ps q r \<longleftrightarrow> (\<exists>rt. authorized_root ps (aq_project q) = Some rt \<and> fs_resolve fs rt = Inr r)"

definition inside_bounds :: "file_system \<Rightarrow> aegis_engine \<Rightarrow> project_store \<Rightarrow> action_request \<Rightarrow> bool" where
  "inside_bounds fs ae ps q \<longleftrightarrow> (\<exists>s t. aq_target q = Some s \<and> fs_resolve fs s = Inr t \<and>
     (\<exists>r. (r \<in> set (ae_roots ae) \<or> granted_by fs ps q r) \<and> under r t) \<and>
     (\<forall>i p rt. aq_project q = Some i \<and> i \<noteq> [] \<and> dict_get (ps_table ps) i = Some p \<and> pj_root p = Some rt \<and> rt \<noteq> [] \<longrightarrow>
        (\<exists>r. fs_resolve fs rt = Inr r \<and> under r t)))"

lemma is_prefix_refl [simp]: "is_prefix xs xs"
  by (induction xs) auto

lemma add_roots_set:
  "add_roots fs roots ps = Inr rs \<Longrightarrow> set rs \<subseteq> set roots \<union> {r. \<exists>p \<in> set ps. fs_resolve fs p = Inr r}"
proof (induction fs roots ps rule: add_roots.induct)
  case (2 fs roots p ps)
  show ?case
  proof (cases "fs_resolve fs p")
    case (Inl e)
    with 2 show ?thesis by (cases e) auto
  next
    case (Inr r)
    with 2 show ?thesis by auto
  qed
qed simp

lemma within_whitelist_true:
  assumes "within_whitelist fs ae extra s = Inr True"
  shows "\<exists>t r. fs_resolve fs s = Inr t \<and> under r t \<and> (r \<in> set (ae_roots ae) \<or> (\<exists>p \<in> set extra. fs_resolve fs p = Inr r))"
proof -
  from assms obtain rs t r where "add_roots fs (ae_roots ae) extra = Inr rs" "fs_resolve fs s = Inr t" "r \<in> set rs" "under r t"
    by (auto simp: within_whitelist_def bind_sum_def list_ex_iff split: sum.splits if_splits)
  with add_roots_set show ?thesis by fastforce
qed

lemma policy_verdict_open: "ad_verdict (policy_verdict m c a) \<noteq> GateDeny"
  by (simp add: policy_verdict_def gate_says_def Let_def)

lemma engine_open:
  assumes "get_category (ae_matrix ae) (aq_type q) = Some c" "cy_path_based c"
    and "engine_evaluate fs ae proot extra q = Inr dn" "ad_verdict dn \<noteq> GateDeny"
  shows "\<exists>s. aq_target q = Some s \<and> within_whitelist fs ae extra s = Inr True \<and>
    (\<forall>r. proot = Some r \<longrightarrow> within_path fs s r = Inr True)"
  using assms
  by (auto simp: engine_evaluate_def Let_def bind_sum_def gate_says_def
      split: option.splits list.splits sum.splits if_splits)

lemma resolve_open:
  assumes c: "get_category (ae_matrix ae) (aq_type q) = Some c" "cy_path_based c"
    and "resolve_decision fs ae ps q = Inr dn" "ad_verdict dn \<noteq> GateDeny"
  shows "inside_bounds fs ae ps q"
proof -
  have plain: "inside_bounds fs ae ps q"
    if e: "engine_evaluate fs ae None [] q = Inr dn'" "ad_verdict dn' \<noteq> GateDeny"
      and n: "\<And>i p. aq_project q = Some i \<Longrightarrow> i \<noteq> [] \<Longrightarrow> dict_get (ps_table ps) i = Some p \<Longrightarrow> False" for dn'
  proof -
    from engine_open[OF c e] obtain s where s: "aq_target q = Some s" "within_whitelist fs ae [] s = Inr True" by auto
    from within_whitelist_true[OF s(2)] s(1) n show ?thesis by (auto simp: inside_bounds_def)
  qed
  show ?thesis
  proof (cases "\<exists>i p. aq_project q = Some i \<and> i \<noteq> [] \<and> dict_get (ps_table ps) i = Some p")
    case False
    show ?thesis
    proof (cases "\<exists>i. aq_project q = Some i \<and> i \<noteq> []")
      case True
      with False assms(3) obtain base where "engine_evaluate fs ae None [] q = Inr base"
        "ad_verdict base = GateDeny \<longrightarrow> dn = base"
        by (auto simp: resolve_decision_def bind_sum_def neq_Nil_conv split: option.splits sum.splits if_splits)
      with assms(4) plain False show ?thesis by blast
    next
      case none: False
      with assms(3) have "engine_evaluate fs ae None [] q = Inr dn"
        by (auto simp: resolve_decision_def split: option.splits list.splits)
      with plain[OF _ assms(4)] False show ?thesis by blast
    qed
  next
    case True
    then obtain i p where i: "aq_project q = Some i" "i \<noteq> []" "dict_get (ps_table ps) i = Some p" by (elim exE conjE)
    define extra where "extra = (case authorized_root ps (Some i) of None \<Rightarrow> [] | Some r \<Rightarrow> if r = [] then [] else [r])"
    define proot where "proot = (if text_true (pj_root p) then pj_root p else None)"
    have e: "engine_evaluate fs ae proot extra q = Inr dn"
      using assms(3) i by (cases i) (auto simp: resolve_decision_def extra_def proot_def Let_def split: if_splits)
    from engine_open[OF c e assms(4)] obtain s where s: "aq_target q = Some s" "within_whitelist fs ae extra s = Inr True"
      "\<forall>r. proot = Some r \<longrightarrow> within_path fs s r = Inr True" by blast
    from within_whitelist_true[OF s(2)] obtain t r where t: "fs_resolve fs s = Inr t" "under r t"
      "r \<in> set (ae_roots ae) \<or> (\<exists>x \<in> set extra. fs_resolve fs x = Inr r)" by (elim exE conjE)
    have "r \<in> set (ae_roots ae) \<or> granted_by fs ps q r"
      using t(3) i(1) by (auto simp: extra_def granted_by_def split: option.splits if_splits)
    moreover have "\<exists>r. fs_resolve fs rt = Inr r \<and> under r t" if "pj_root p = Some rt" "rt \<noteq> []" for rt
      using s(3) that t(1) by (auto simp: proot_def text_true_def within_path_def bind_sum_def split: sum.splits)
    ultimately show ?thesis using s(1) t(1,2) i unfolding inside_bounds_def by auto
  qed
qed

lemma aegis_evaluate_parts:
  assumes "aegis_evaluate cn ae ps q gt = (Inr dn, gt')"
  obtains dn0 hub where "resolve_decision (cn_fs cn) ae ps q = Inr dn0"
    "apply_human_consent cn q dn0 (gt_table gt) = (Inr dn, gt_table gt', hub)"
  using assms by (auto simp: aegis_evaluate_def Let_def split: sum.splits prod.splits)

lemma consent_keeps_deny:
  assumes "apply_human_consent cn q dn0 tab = (Inr dn, tab', hub)" "ad_verdict dn \<noteq> GateDeny"
  shows "ad_verdict dn0 \<noteq> GateDeny"
  using assms by (auto simp: apply_human_consent_def)

text \<open>
  C25. The hard boundaries hold against every consent: for a known path-based category, whatever is in the
  queue, an action that is not denied names a target that resolves under a whitelisted root or under the
  root that its own project grants at this moment, and under the root of its project when it names a known
  one.
\<close>

theorem boundaries_hold_against_consent:
  assumes "get_category (ae_matrix ae) (aq_type q) = Some c" and "cy_path_based c"
    and "aegis_evaluate cn ae ps q gt = (Inr dn, gt')" and "ad_verdict dn \<noteq> GateDeny"
  shows "inside_bounds (cn_fs cn) ae ps q"
proof (rule aegis_evaluate_parts[OF assms(3)])
  fix dn0 hub
  assume r: "resolve_decision (cn_fs cn) ae ps q = Inr dn0"
    and a: "apply_human_consent cn q dn0 (gt_table gt) = (Inr dn, gt_table gt', hub)"
  show ?thesis by (rule resolve_open[OF assms(1,2) r]) (rule consent_keeps_deny[OF a assms(4)])
qed

subsection \<open>Consent is live, matches and is spent\<close>

text \<open>A target that is a folder or lies anywhere below it, once both are in canonical form.\<close>

definition lies_under :: "file_system \<Rightarrow> string \<Rightarrow> string \<Rightarrow> bool" where
  "lies_under fs rt s \<longleftrightarrow> (\<exists>r ps qs. rt \<noteq> [] \<and> s \<noteq> [] \<and>
     canoniser_chemin fs (Some rt) \<noteq> [] \<and> canoniser_chemin fs (Some s) \<noteq> [] \<and>
     posix_parts (canoniser_chemin fs (Some rt)) = (r, ps) \<and> posix_parts (canoniser_chemin fs (Some s)) = (r, ps @ qs))"

definition matches_action :: "consent_env \<Rightarrow> string \<Rightarrow> string option \<Rightarrow> (string, string) dict \<Rightarrow> approval \<Rightarrow> bool" where
  "matches_action cn a target d e \<longleftrightarrow>
     ap_fingerprint e = cn_digest cn (brut (cn_fs cn) a target d) \<or>
     (ap_action e = a \<and> ap_portee e = Some ''arborescence'' \<and>
       (\<exists>s rt. target = Some s \<and> ap_racine e = Some rt \<and> lies_under (cn_fs cn) rt s))"

text \<open>
  A row that is consumed: it stands in the queue as approved, its date has not passed, at least one use is left
  of its budget, and it fits the action.
\<close>

definition consumed_row :: "consent_env \<Rightarrow> string \<Rightarrow> string option \<Rightarrow> (string, string) dict \<Rightarrow> approval_table
    \<Rightarrow> string \<Rightarrow> approval \<Rightarrow> bool" where
  "consumed_row cn a target d tab i e \<longleftrightarrow> (i, e) \<in> set tab \<and> ap_status e = ApApproved \<and>
     (\<forall>t. ap_expires e = Some t \<longrightarrow> cn_now cn \<le> t) \<and> (\<forall>u. ap_usages e = Some u \<longrightarrow> 1 \<le> u) \<and>
     matches_action cn a target d e"

text \<open>The row after one use: one use less, and closed when none is left.\<close>

definition after_use :: "approval \<Rightarrow> approval" where
  "after_use e = e\<lparr>ap_usages := map_option (\<lambda>u. u - 1) (ap_usages e),
     ap_status := (if \<exists>u. ap_usages e = Some u \<and> 2 \<le> u then ap_status e else ApUsed)\<rparr>"

lemma couvre_lies_under: "couvre fs rt s \<longleftrightarrow> lies_under fs rt s"
proof -
  have p: "is_prefix ps ts \<longleftrightarrow> (\<exists>qs. ts = ps @ qs)" for ps ts :: "string list"
    by (induction ps ts rule: is_prefix.induct) auto
  obtain r ps where a: "posix_parts (canoniser_chemin fs (Some rt)) = (r, ps)" by fastforce
  obtain r' ts where b: "posix_parts (canoniser_chemin fs (Some s)) = (r', ts)" by fastforce
  show ?thesis by (auto simp: couvre_def lies_under_def Let_def a b p)
qed

lemma vivante_fields:
  "vivante now e \<longleftrightarrow> (\<forall>t. ap_expires e = Some t \<longrightarrow> now \<le> t) \<and> (\<forall>u. ap_usages e = Some u \<longrightarrow> 1 \<le> u)"
  by (auto simp: vivante_def split: option.splits)

lemma depenser_after_use: "depenser i e tab = (after_use e, dict_set i (after_use e) tab)"
proof (cases "ap_usages e")
  case None
  then show ?thesis by (simp add: depenser_def after_use_def Let_def)
next
  case (Some u)
  then show ?thesis by (cases "2 \<le> u") (simp_all add: depenser_def after_use_def Let_def)
qed

lemma set_latest_decided [simp]: "set (latest_decided rows) = set rows"
  by (auto simp: latest_decided_def)

lemma scope_consumed:
  assumes "consommer_une_portee cn a target tab = (Some (i, e'), tab')"
  shows "\<exists>e. consumed_row cn a target d tab i e \<and> depenser i e tab = (e', tab')"
proof -
  from assms obtain c cs e where t: "target = Some (c # cs)"
    and f: "List.find (\<lambda>(i, e). vivante (cn_now cn) e \<and> text_true (ap_racine e) \<and>
        couvre (cn_fs cn) (the (ap_racine e)) (c # cs)) (latest_decided (filter (scope_row a) tab)) = Some (i, e)"
    and d: "depenser i e tab = (e', tab')"
    by (auto simp: consommer_une_portee_def split: option.splits list.splits prod.splits)
  from find_SomeD[OF f] have m: "(i, e) \<in> set tab" "scope_row a (i, e)" "vivante (cn_now cn) e" "text_true (ap_racine e)"
    "couvre (cn_fs cn) (the (ap_racine e)) (c # cs)" by auto
  then obtain rt where "ap_racine e = Some rt" by (auto simp: text_true_def split: option.splits)
  with m t have "consumed_row cn a target d tab i e"
    by (simp add: consumed_row_def matches_action_def scope_row_def portee_arborescence_def vivante_fields couvre_lies_under)
  with d show ?thesis by (intro exI conjI)
qed

lemma consume_row:
  assumes "consume_approval cn a target ds d tab = (Some (i, e'), tab')"
  shows "\<exists>e. consumed_row cn a target d tab i e \<and> depenser i e tab = (e', tab')"
proof (cases "consommer_une_portee cn a target tab = (Some (i, e'), tab')")
  case True
  then show ?thesis by (rule scope_consumed)
next
  case False
  let ?rows = "latest_decided (filter (approved_as (fingerprint_for cn a target ds d)) tab)"
  from False assms obtain e rest where r: "?rows = (i, e) # rest" and v: "vivante (cn_now cn) e"
    and d: "depenser i e tab = (e', tab')"
    by (auto simp: consume_approval_def split: list.splits prod.splits if_splits)
  have "(i, e) \<in> set ?rows" by (simp add: r)
  with v have "consumed_row cn a target d tab i e"
    by (simp add: consumed_row_def matches_action_def approved_as_def fingerprint_for_def empreinte_def vivante_fields)
  with d show ?thesis by (intro exI conjI)
qed

lemma consume_nothing:
  "consume_approval cn a target ds d tab = (None, tab') \<Longrightarrow> tab' = tab"
  by (auto simp: consume_approval_def consommer_une_portee_def split: option.splits list.splits prod.splits if_splits)

lemma always_human:
  assumes "case get_category (ae_matrix ae) (aq_type q) of None \<Rightarrow> True | Some c \<Rightarrow> cy_mandatory c"
    and "resolve_decision fs ae ps q = Inr dn"
  shows "ad_verdict dn \<noteq> GateAllow"
proof -
  have e: "ad_verdict d \<noteq> GateAllow" if "engine_evaluate fs ae proot extra q = Inr d" for proot extra d
    using that assms(1)
    by (auto simp: engine_evaluate_def Let_def bind_sum_def gate_says_def policy_verdict_def
        split: option.splits list.splits sum.splits if_splits)
  show ?thesis
    using assms(2) e
    by (auto simp: resolve_decision_def bind_sum_def gate_says_def Let_def
        split: option.splits list.splits sum.splits if_splits)
qed

lemma allowed_by_consent:
  assumes "case get_category (ae_matrix ae) (aq_type q) of None \<Rightarrow> True | Some c \<Rightarrow> cy_mandatory c"
    and "aegis_evaluate cn ae ps q gt = (Inr dn, gt')" and "ad_verdict dn = GateAllow"
  shows "\<exists>i e. consumed_row cn (aq_type q) (aq_target q) (fold (\<lambda>(k, v). dict_set k v) (aq_discriminants q) []) (gt_table gt) i e \<and>
    gt_table gt' = dict_set i (after_use e) (gt_table gt) \<and> ad_reason dn = HumanConsent i (ap_decided e)"
proof (rule aegis_evaluate_parts[OF assms(2)])
  fix dn0 hub
  assume r: "resolve_decision (cn_fs cn) ae ps q = Inr dn0"
    and a: "apply_human_consent cn q dn0 (gt_table gt) = (Inr dn, gt_table gt', hub)"
  let ?d = "fold (\<lambda>(k, v). dict_set k v) (aq_discriminants q) []"
  have na: "ad_verdict dn0 \<noteq> GateAllow" by (rule always_human[OF assms(1) r])
  with a assms(3) have h: "ad_verdict dn0 = GateHuman" by (cases "ad_verdict dn0") (auto simp: apply_human_consent_def)
  obtain got tab1 where c: "consume_approval cn (aq_type q) (aq_target q) (aq_description q) ?d (gt_table gt) = (got, tab1)"
    by fastforce
  show ?thesis
  proof (cases got)
    case None
    with a c h na assms(3) show ?thesis by (auto simp: apply_human_consent_def Let_def split: prod.splits sum.splits)
  next
    case (Some g)
    obtain i e' where g: "g = (i, e')" by (cases g)
    from a c h Some g have dn: "dn = gate_says GateAllow (HumanConsent i (ap_decided e')) (ad_action dn0)" "gt_table gt' = tab1"
      by (auto simp: apply_human_consent_def Let_def)
    from consume_row[OF c[unfolded Some g]] obtain e where
      e: "consumed_row cn (aq_type q) (aq_target q) ?d (gt_table gt) i e" "depenser i e (gt_table gt) = (e', tab1)"
      by (elim exE conjE)
    have u: "e' = after_use e" "tab1 = dict_set i (after_use e) (gt_table gt)" using e(2) by (auto simp: depenser_after_use)
    have "ap_decided e' = ap_decided e" unfolding u(1) by (simp add: after_use_def)
    note this u(2)
    with e(1) dn show ?thesis by (intro exI[of _ i] exI[of _ e]) (simp add: gate_says_def)
  qed
qed

text \<open>
  C26. An action that always needs a human (an unknown category, or one with mandatory validation) is allowed
  only by consuming one approval of the queue: a row that stands as approved, whose expiry date, if it has one,
  is not past, that has at least one use left of its budget, if it has one, and that was given for this action
  (its fingerprint is the digest of the identity of the action) or for this type of action in a folder under
  which the target lies. That use is written: the queue after is the queue before with, in that row, one use
  less, and the row closed as used when none is left. The decision names the row.
\<close>

theorem human_actions_need_consent:
  assumes "case get_category (ae_matrix ae) (aq_type q) of None \<Rightarrow> True | Some c \<Rightarrow> cy_mandatory c"
    and "aegis_evaluate cn ae ps q gt = (Inr dn, gt')" and "ad_verdict dn = GateAllow"
  shows "\<exists>i e. consumed_row cn (aq_type q) (aq_target q) (fold (\<lambda>(k, v). dict_set k v) (aq_discriminants q) []) (gt_table gt) i e \<and>
    gt_table gt' = dict_set i (after_use e) (gt_table gt) \<and> ad_reason dn = HumanConsent i (ap_decided e)"
  by (rule allowed_by_consent[OF assms])

subsection \<open>Budgets\<close>

datatype queue_op =
    Deposit consent_env gate_reason action_request "(string, string) dict"
  | Decide consent_env string bool "int option" string "string option" "int option"
  | Consume consent_env string "string option" string "(string, string) dict"

text \<open>One operation on the queue, with the row whose consent it spends.\<close>

fun queue_step :: "queue_op \<Rightarrow> approval_table \<times> string list \<Rightarrow> approval_table \<times> string list" where
  "queue_step (Deposit cn why q d) (tab, spent) = (case record_pending cn why q d tab of (_, tab', _) \<Rightarrow> (tab', spent))"
| "queue_step (Decide cn i ok ttl portee racine usages) (tab, spent) =
     (snd (decide cn i ok ttl portee racine usages tab), spent)"
| "queue_step (Consume cn a target ds d) (tab, spent) = (case consume_approval cn a target ds d tab of
     (Some (i, _), tab') \<Rightarrow> (tab', spent @ [i]) | (None, tab') \<Rightarrow> (tab', spent))"

definition budget_of :: "approval \<Rightarrow> int" where
  "budget_of e = (if ap_portee e = Some portee_arborescence then max_usages else 1)"

definition within_budget :: "string list \<Rightarrow> string \<Rightarrow> approval \<Rightarrow> bool" where
  "within_budget spent i e \<longleftrightarrow> (case ap_status e of
       ApPending \<Rightarrow> count_list spent i = 0
     | ApRefused \<Rightarrow> count_list spent i = 0
     | ApApproved \<Rightarrow> (\<exists>u. ap_usages e = Some u \<and> u \<ge> 1 \<and> int (count_list spent i) + u \<le> budget_of e)
     | ApUsed \<Rightarrow> int (count_list spent i) \<le> budget_of e)"

definition queue_inv :: "approval_table \<times> string list \<Rightarrow> bool" where
  "queue_inv s \<longleftrightarrow> distinct (map fst (fst s)) \<and> (\<forall>i e. dict_get (fst s) i = Some e \<longrightarrow> within_budget (snd s) i e) \<and>
     set (snd s) \<subseteq> fst ` set (fst s) \<and> (\<forall>f. length (filter (pending_as f) (fst s)) \<le> 1)"

lemma queue_invI:
  assumes "distinct (map fst tab)" "\<And>i e. dict_get tab i = Some e \<Longrightarrow> within_budget spent i e"
    "set spent \<subseteq> fst ` set tab" "\<And>f. length (filter (pending_as f) tab) \<le> 1"
  shows "queue_inv (tab, spent)"
  using assms by (simp add: queue_inv_def)

lemma queue_invD:
  assumes "queue_inv (tab, spent)"
  shows "distinct (map fst tab)" "\<And>i e. dict_get tab i = Some e \<Longrightarrow> within_budget spent i e"
    "set spent \<subseteq> fst ` set tab" "\<And>f. length (filter (pending_as f) tab) \<le> 1"
  using assms by (simp_all add: queue_inv_def)

lemma filter_dict_set: "\<not> P (i, e) \<Longrightarrow> length (filter P (dict_set i e tab)) \<le> length (filter P tab)"
  by (induction tab) auto

lemma deposit_inv:
  assumes "queue_inv (tab, spent)" "record_pending cn why q d tab = (r, tab', hub)"
  shows "queue_inv (tab', spent)" and "r \<noteq> Inl SeveralPending"
proof -
  note inv = queue_invD[OF assms(1)]
  let ?f = "fingerprint_for cn (aq_type q) (aq_target q) (aq_description q) d"
  let ?rows = "filter (pending_as ?f) tab"
  consider "\<exists>i e. ?rows = [(i, e)]" | "?rows = []"
    using inv(4)[of ?f] by (cases ?rows) auto
  then have "queue_inv (tab', spent) \<and> r \<noteq> Inl SeveralPending"
  proof cases
    case 1
    then obtain i e where "?rows = [(i, e)]" by (elim exE)
    with assms show ?thesis by (auto simp: record_pending_def Let_def)
  next
    case 2
    show ?thesis
    proof (cases "cn_uuid cn \<in> set (dict_keys tab)")
      case True
      with 2 assms show ?thesis by (auto simp: record_pending_def Let_def)
    next
      case False
      with 2 assms(2) obtain e where tab': "tab' = dict_set (cn_uuid cn) e tab" and r: "r = Inr (cn_uuid cn)"
        and e: "ap_fingerprint e = ?f" "ap_status e = ApPending"
        by (auto simp: record_pending_def Let_def)
      from False have app: "tab' = tab @ [(cn_uuid cn, e)]" unfolding tab' by (intro dict_set_fresh) simp
      have "queue_inv (tab', spent)"
      proof (rule queue_invI)
        show "distinct (map fst tab')" unfolding tab' using inv(1) by simp
        show "set spent \<subseteq> fst ` set tab'" using inv(3) unfolding app by auto
        have "count_list spent (cn_uuid cn) = 0" using inv(3) False by (auto simp: count_list_0_iff)
        then show "within_budget spent i e'" if "dict_get tab' i = Some e'" for i e'
          using that inv(2)[of i e'] e(2) unfolding tab' by (auto simp: within_budget_def split: if_splits)
        show "length (filter (pending_as g) tab') \<le> 1" for g
          using inv(4)[of g] 2 e by (cases "g = ?f") (auto simp: app pending_as_def)
      qed
      with r show ?thesis by simp
    qed
  qed
  then show "queue_inv (tab', spent)" and "r \<noteq> Inl SeveralPending" by simp_all
qed

text \<open>A row replaced by one that does not wait any more.\<close>

lemma replace_row_inv:
  assumes inv: "queue_inv (tab, spent)" and old: "dict_get tab i = Some e" and st: "ap_status e' \<noteq> ApPending"
    and new: "within_budget (spent @ used) i e'" and used: "set used \<subseteq> {i}"
  shows "queue_inv (dict_set i e' tab, spent @ used)"
proof (rule queue_invI)
  note inv = queue_invD[OF inv]
  show "distinct (map fst (dict_set i e' tab))" using inv(1) by simp
  show "set (spent @ used) \<subseteq> fst ` set (dict_set i e' tab)" using inv(3) used by auto
  show "length (filter (pending_as g) (dict_set i e' tab)) \<le> 1" for g
    using filter_dict_set[of "pending_as g" i e' tab] inv(4)[of g] st by (simp add: pending_as_def)
  show "within_budget (spent @ used) j x" if "dict_get (dict_set i e' tab) j = Some x" for j x
  proof (cases "j = i")
    case False
    then have "count_list used j = 0" using used by (auto simp: count_list_0_iff)
    then have cl: "count_list (spent @ used) j = count_list spent j" by (simp add: count_list_append)
    from that False inv(2)[of j x] have "within_budget spent j x" by simp
    then show ?thesis unfolding within_budget_def cl .
  qed (use that new in simp)
qed

lemma decided_row_inv:
  assumes inv: "queue_inv (tab, spent)" and row: "dict_get tab i = Some e" "ap_status e = ApPending"
    and e': "ap_status e' = (if ok then ApApproved else ApRefused)" "ap_usages e' = Some u" "1 \<le> u" "u \<le> budget_of e'"
  shows "queue_inv (dict_set i e' tab, spent)"
proof -
  have "count_list spent i = 0" using queue_invD(2)[OF inv row(1)] row(2) by (simp add: within_budget_def)
  then have "within_budget (spent @ []) i e'" using e' by (cases ok) (simp_all add: within_budget_def)
  from replace_row_inv[OF inv row(1) _ this] e'(1) show ?thesis by (cases ok) simp_all
qed

lemma decide_inv:
  assumes inv: "queue_inv (tab, spent)"
  shows "queue_inv (snd (decide cn i ok ttl portee racine usages tab), spent)"
proof (cases "\<exists>e. dict_get tab i = Some e \<and> ap_status e = ApPending")
  case False
  then have "snd (decide cn i ok ttl portee racine usages tab) = tab"
    by (cases "dict_get tab i") (simp_all add: decide_def)
  with inv show ?thesis by simp
next
  case True
  then obtain e where e: "dict_get tab i = Some e" "ap_status e = ApPending" by (elim exE conjE)
  let ?scope = "ok \<and> portee = portee_arborescence" and ?b = "set_some usages max_usages"
  consider (refused) "?scope" "\<not> text_true racine \<or> ?b < 1" | (scope) "?scope" "text_true racine" "\<not> ?b < 1"
    | (exact) "\<not> ?scope" by blast
  then show ?thesis
  proof cases
    case refused
    then have "snd (decide cn i ok ttl portee racine usages tab) = tab" using e by (auto simp: decide_def Let_def)
    with inv show ?thesis by simp
  next
    case scope
    then have "snd (decide cn i ok ttl portee racine usages tab) = dict_set i (e\<lparr>ap_portee := Some portee_arborescence,
        ap_racine := Some (canoniser_chemin (cn_fs cn) racine), ap_usages := Some (min ?b max_usages),
        ap_status := ApApproved, ap_decided := Some (cn_now cn),
        ap_expires := Some (cn_now cn + 60 * of_int (set_some ttl ttl_portee))\<rparr>) tab"
      using e by (simp add: decide_def Let_def)
    moreover have "1 \<le> min ?b max_usages" using scope(3) by (simp add: max_usages_def)
    ultimately show ?thesis
      by (simp only:) (rule decided_row_inv[where ok = True, OF inv e, of _ "min ?b max_usages"], simp_all add: budget_of_def)
  next
    case exact
    then have "snd (decide cn i ok ttl portee racine usages tab) = dict_set i (e\<lparr>ap_portee := Some portee_action,
        ap_usages := Some 1, ap_status := (if ok then ApApproved else ApRefused), ap_decided := Some (cn_now cn),
        ap_expires := (if ok then Some (cn_now cn + 60 * of_int (set_some ttl default_ttl)) else None)\<rparr>) tab"
      using e by (auto simp: decide_def Let_def)
    then show ?thesis
      by (simp only:) (rule decided_row_inv[where ok = ok, OF inv e, of _ 1],
          simp_all add: budget_of_def portee_action_def portee_arborescence_def)
  qed
qed

lemma depenser_inv:
  assumes inv: "queue_inv (tab, spent)" and row: "dict_get tab i = Some e" "ap_status e = ApApproved"
    and d: "depenser i e tab = (e', tab')"
  shows "queue_inv (tab', spent @ [i])"
proof -
  from queue_invD(2)[OF inv row(1)] row(2) obtain u where
    u: "ap_usages e = Some u" "u \<ge> 1" "int (count_list spent i) + u \<le> budget_of e"
    by (auto simp: within_budget_def)
  have e': "e' = e\<lparr>ap_usages := Some (u - 1), ap_status := (if u - 1 \<le> 0 then ApUsed else ApApproved)\<rparr>"
    and t: "tab' = dict_set i e' tab"
    using d u(1) row(2) by (auto simp: depenser_def Let_def)
  have "within_budget (spent @ [i]) i e'"
    using u by (simp add: e' within_budget_def budget_of_def)
  from replace_row_inv[OF inv row(1) _ this] show ?thesis unfolding t by (simp add: e')
qed

lemma queue_step_inv: "queue_inv s \<Longrightarrow> queue_inv (queue_step op s)"
proof (cases s)
  case (Pair tab spent)
  assume "queue_inv s"
  with Pair have inv: "queue_inv (tab, spent)" by simp
  show ?thesis
  proof (cases op)
    case (Deposit cn why q d)
    then show ?thesis using Pair deposit_inv(1)[OF inv] by (auto split: prod.splits)
  next
    case (Decide cn i ok ttl portee racine usages)
    then show ?thesis using Pair decide_inv[OF inv] by simp
  next
    case (Consume cn a target ds d)
    obtain got tab' where c: "consume_approval cn a target ds d tab = (got, tab')" by fastforce
    show ?thesis
    proof (cases got)
      case None
      then show ?thesis using Pair Consume c consume_nothing[of cn a target ds d tab tab'] inv by simp
    next
      case (Some g)
      obtain i e' where g: "g = (i, e')" by (cases g)
      from consume_row[OF c[unfolded Some g]] obtain e where
        e: "consumed_row cn a target d tab i e" "depenser i e tab = (e', tab')" by (elim exE conjE)
      then have "dict_get tab i = Some e" "ap_status e = ApApproved"
        using in_set_get[OF queue_invD(1)[OF inv]] by (auto simp: consumed_row_def)
      from depenser_inv[OF inv this e(2)] show ?thesis using Pair Consume c Some g by simp
    qed
  qed
qed

text \<open>
  C27. Whatever humans decide and agents ask, in any order: a consent is spent at most once when it was given
  for an exact action and at most fifty times when it was given for a folder, nothing that no human granted
  is ever spent, and the queue never holds two pending rows for one action.
\<close>

theorem consents_bounded:
  "int (count_list (snd (fold queue_step ops ([], []))) i) \<le>
     (case dict_get (fst (fold queue_step ops ([], []))) i of None \<Rightarrow> 0
      | Some e \<Rightarrow> if ap_status e = ApPending \<or> ap_status e = ApRefused then 0
          else if ap_portee e = Some portee_arborescence then 50 else 1) \<and>
   fst (record_pending cn why q d (fst (fold queue_step ops ([], [])))) \<noteq> Inl SeveralPending"
proof -
  let ?s = "fold queue_step ops ([], [])"
  have inv: "queue_inv (fst ?s, snd ?s)"
    unfolding prod.collapse by (rule fold_invariant) (simp add: queue_inv_def, rule queue_step_inv)
  have "fst (record_pending cn why q d (fst ?s)) \<noteq> Inl SeveralPending"
    using deposit_inv(2)[OF inv, of cn why q d] by (cases "record_pending cn why q d (fst ?s)") auto
  moreover have "int (count_list (snd ?s) i) \<le> (case dict_get (fst ?s) i of None \<Rightarrow> 0
      | Some e \<Rightarrow> if ap_status e = ApPending \<or> ap_status e = ApRefused then 0
          else if ap_portee e = Some portee_arborescence then 50 else 1)"
  proof (cases "dict_get (fst ?s) i")
    case None
    then have "i \<notin> set (snd ?s)" using queue_invD(3)[OF inv] by (auto simp: get_None_iff)
    with None show ?thesis by (simp add: count_list_0_iff)
  next
    case (Some e)
    from queue_invD(2)[OF inv this] show ?thesis
      by (cases "ap_status e") (auto simp: Some within_budget_def budget_of_def max_usages_def)
  qed
  ultimately show ?thesis by blast
qed

subsection \<open>The text an action is identified by\<close>

lemma hex_digit_inj: "n < 16 \<Longrightarrow> m < 16 \<Longrightarrow> hex_digit n = hex_digit m \<Longrightarrow> n = m"
proof -
  assume b: "n < 16" "m < 16" and h: "hex_digit n = hex_digit m"
  have k: "(of_char (hex_digit k) :: nat) = (if k < 10 then 48 + k else 87 + k)" if "k < 16" for k
    using that by (cases "k < 10") (simp_all add: hex_digit_def of_char_of)
  from h have "(of_char (hex_digit n) :: nat) = of_char (hex_digit m)" by simp
  with b show "n = m" unfolding k[OF b(1)] k[OF b(2)] by (cases "n < 10"; cases "m < 10") simp_all
qed

text \<open>One escaped character, read back.\<close>

definition json_code :: "char \<Rightarrow> nat" where
  "json_code c = of_char c"

lemma json_char_cases:
  obtains (special) k where "json_char c = [CHR 0x5C, k]" "k \<noteq> CHR ''u''"
      "(json_code c, k) \<in> {(34, CHR 0x22), (92, CHR 0x5C), (10, CHR ''n''), (13, CHR ''r''), (9, CHR ''t''), (8, CHR ''b''), (12, CHR ''f'')}"
  | (control) "json_char c = [CHR 0x5C, CHR ''u'', CHR ''0'', CHR ''0'', hex_digit (json_code c div 16), hex_digit (json_code c mod 16)]"
      "json_code c < 32"
  | (plain) "json_char c = [c]" "c \<noteq> CHR 0x5C" "c \<noteq> CHR 0x22" "json_code c \<ge> 32"
proof -
  have "char_of (92 :: nat) = CHR 0x5C" by code_simp
  moreover have "c \<noteq> CHR 0x5C" "c \<noteq> CHR 0x22" if "json_code c \<notin> {34, 92}" using that by (auto simp: json_code_def)
  ultimately show thesis
    using special control plain
    by (cases "json_code c \<in> {34, 92, 10, 13, 9, 8, 12}"; cases "json_code c < 32")
      (auto simp: json_char_def Let_def json_code_def)
qed

lemma json_char_head:
  assumes "json_char c @ u = json_char d @ v"
  shows "c = d \<and> u = v"
proof -
  have code: "c = d" if "json_code c = json_code d" using that by (simp add: json_code_def)
  show ?thesis
  proof (cases c rule: json_char_cases)
    case (special k)
    then show ?thesis using assms code by (cases d rule: json_char_cases) auto
  next
    case control
    show ?thesis
    proof (cases d rule: json_char_cases)
      case control': control
      from assms control control' have h: "hex_digit (json_code c div 16) = hex_digit (json_code d div 16)"
        "hex_digit (json_code c mod 16) = hex_digit (json_code d mod 16)" "u = v" by simp_all
      from hex_digit_inj[OF _ _ h(1)] hex_digit_inj[OF _ _ h(2)] control(2) control'(2)
      have "json_code c div 16 = json_code d div 16" "json_code c mod 16 = json_code d mod 16" by simp_all
      then have "json_code c = json_code d" by (metis div_mod_decomp)
      with code h show ?thesis by simp
    qed (use assms control in auto)
  next
    case plain
    then show ?thesis using assms by (cases d rule: json_char_cases) auto
  qed
qed

lemma json_char_no_quote: "json_char c @ u \<noteq> CHR 0x22 # v"
  by (cases c rule: json_char_cases) auto

lemma json_chars_inj:
  "concat (map json_char s) @ CHR 0x22 # u = concat (map json_char t) @ CHR 0x22 # v \<Longrightarrow> s = t \<and> u = v"
proof (induction s arbitrary: t)
  case Nil
  then show ?case using json_char_no_quote by (cases t) (auto, metis)
next
  case (Cons c s)
  show ?case
  proof (cases t)
    case Nil
    with Cons.prems json_char_no_quote show ?thesis by (simp) 
  next
    case t: (Cons d t')
    with Cons.prems have "json_char c @ (concat (map json_char s) @ CHR 0x22 # u) =
      json_char d @ (concat (map json_char t') @ CHR 0x22 # v)" by simp
    from json_char_head[OF this] Cons.IH t show ?thesis by simp
  qed
qed

lemma json_text_inj: "json_text s @ u = json_text t @ v \<Longrightarrow> s = t \<and> u = v"
  using json_chars_inj[of s u t v] by (simp add: json_text_def)

lemma json_pair_inj: "json_pair p @ u = json_pair q @ v \<Longrightarrow> p = q \<and> u = v"
proof -
  assume "json_pair p @ u = json_pair q @ v"
  then have "json_text (fst p) @ (CHR '':'' # json_text (snd p) @ u) = json_text (fst q) @ (CHR '':'' # json_text (snd q) @ v)"
    by (simp add: json_pair_def)
  from json_text_inj[OF this] have "fst p = fst q" "json_text (snd p) @ u = json_text (snd q) @ v" by simp_all
  with json_text_inj[of "snd p" u "snd q" v] show ?thesis by (simp add: prod_eq_iff)
qed

lemma json_pair_Cons: "\<exists>t. json_pair p = CHR 0x22 # t"
  by (simp add: json_pair_def json_text_def)

lemma comma_pairs_inj:
  "comma_join (map json_pair ps) @ ''}'' = comma_join (map json_pair qs) @ ''}'' \<Longrightarrow> ps = qs"
proof (induction ps arbitrary: qs rule: induct_list012)
  case 1
  show ?case
  proof (cases qs)
    case (Cons q qs')
    with 1 json_pair_Cons[of q] show ?thesis by (cases qs') auto
  qed simp
next
  case (2 p)
  show ?case
  proof (cases qs)
    case Nil
    with 2 json_pair_Cons[of p] show ?thesis by auto
  next
    case (Cons q qs')
    with 2 json_pair_inj[of p "''}''" q] show ?thesis by (cases qs') auto
  qed
next
  case (3 p p' ps)
  show ?case
  proof (cases qs)
    case Nil
    with 3 json_pair_Cons[of p] show ?thesis by auto
  next
    case q: (Cons q qs')
    show ?thesis
    proof (cases qs')
      case Nil
      with 3(3) q have "json_pair p @ (CHR '','' # comma_join (map json_pair (p' # ps)) @ ''}'') = json_pair q @ ''}''"
        by simp
      from json_pair_inj[OF this] show ?thesis by simp
    next
      case (Cons q' qs2)
      with 3(3) q have "json_pair p @ (CHR '','' # comma_join (map json_pair (p' # ps)) @ ''}'') =
        json_pair q @ (CHR '','' # comma_join (map json_pair (q' # qs2)) @ ''}'')" by simp
      from json_pair_inj[OF this] 3(2)[of "q' # qs2"] q Cons show ?thesis by simp
    qed
  qed
qed

lemma sorted_dict:
  fixes d :: "(string, string) dict"
  assumes "distinct (map fst d)"
  shows "sort_key fst d = map (\<lambda>k. (k, the (map_of d k))) (sorted_list_of_set (dom (map_of d)))"
proof -
  have "map fst (sort_key fst d) = sorted_list_of_set (set (map fst (sort_key fst d)))"
    using assms by (intro sorted_list_of_set.idem_if_sorted_distinct[symmetric]) (simp_all add: distinct_map)
  then have k: "map fst (sort_key fst d) = sorted_list_of_set (dom (map_of d))" by (simp add: dom_map_of_conv_image_fst)
  have "p = (fst p, the (map_of d (fst p)))" if "p \<in> set (sort_key fst d)" for p
  proof -
    from that have "(fst p, snd p) \<in> set d" by simp
    with assms have "map_of d (fst p) = Some (snd p)" by (simp only: map_of_eq_Some_iff)
    then show ?thesis by simp
  qed
  then have "map (\<lambda>p. (fst p, the (map_of d (fst p)))) (sort_key fst d) = sort_key fst d"
    by (intro map_idI) simp
  then show ?thesis unfolding k[symmetric] by (simp add: comp_def)
qed

lemma sorted_dict_eq:
  fixes d e :: "(string, string) dict"
  assumes "distinct (map fst d)" "distinct (map fst e)"
  shows "sort_key fst d = sort_key fst e \<longleftrightarrow> (\<forall>k. dict_get d k = dict_get e k)"
proof
  have m: "map_of (sort_key fst x) = map_of x" if "distinct (map fst x)" for x :: "(string, string) dict"
    using that by (intro map_of_inject_set[THEN iffD2]) (simp_all add: distinct_map)
  show "\<forall>k. dict_get d k = dict_get e k" if "sort_key fst d = sort_key fst e"
    using that m[OF assms(1)] m[OF assms(2)] by simp
  assume "\<forall>k. dict_get d k = dict_get e k"
  then have "map_of d = map_of e" by auto
  then show "sort_key fst d = sort_key fst e" by (simp only: sorted_dict[OF assms(1)] sorted_dict[OF assms(2)])
qed

lemma discriminants_eq:
  assumes "distinct (map fst d)" "distinct (map fst e)"
  shows "canoniser_discriminants d = canoniser_discriminants e \<longleftrightarrow> (\<forall>k. dict_get d k = dict_get e k)"
proof -
  have "canoniser_discriminants d = canoniser_discriminants e \<longleftrightarrow> sort_key fst d = sort_key fst e"
  proof
    assume c: "canoniser_discriminants d = canoniser_discriminants e"
    show "sort_key fst d = sort_key fst e"
    proof (cases "d = [] \<or> e = []")
      case True
      with c show ?thesis by (auto simp: canoniser_discriminants_def split: if_splits)
    next
      case False
      with c comma_pairs_inj show ?thesis by (simp add: canoniser_discriminants_def)
    qed
  next
    assume s: "sort_key fst d = sort_key fst e"
    then have "d = [] \<longleftrightarrow> e = []" by (metis length_0_conv length_sort)
    with s show "canoniser_discriminants d = canoniser_discriminants e" by (simp add: canoniser_discriminants_def)
  qed
  then show ?thesis by (simp only: sorted_dict_eq[OF assms])
qed

text \<open>Discriminants never hold the separator, so the text splits in one way only.\<close>

lemma json_char_clean: "separateur \<notin> set (json_char c)"
proof -
  have s: "json_code separateur = 31" by (simp add: json_code_def separateur_def of_char_of)
  have x: "separateur = CHR 0x1F" by code_simp
  have h: "separateur \<noteq> hex_digit n" if "n < 16" for n
  proof
    assume "separateur = hex_digit n"
    then have "(31 :: nat) = of_char (hex_digit n)" using s by (simp add: json_code_def)
    with that show False by (cases "n < 10") (simp_all add: hex_digit_def of_char_of)
  qed
  have k: "separateur \<notin> {CHR 0x5C, CHR ''u'', CHR ''0'', CHR 0x22, CHR ''n'', CHR ''r'', CHR ''t'', CHR ''b'', CHR ''f''}"
    by (simp add: x)
  show ?thesis
  proof (cases c rule: json_char_cases)
    case (special j)
    then have "j \<in> {CHR 0x22, CHR 0x5C, CHR ''n'', CHR ''r'', CHR ''t'', CHR ''b'', CHR ''f''}" by auto
    with k special(1) show ?thesis by auto
  next
    case control
    have "json_code c div 16 < 16" "json_code c mod 16 < 16" using control(2) by simp_all
    with h[of "json_code c div 16"] h[of "json_code c mod 16"] k control(1) show ?thesis by simp
  next
    case plain
    with s show ?thesis by auto
  qed
qed

lemma discriminants_clean: "separateur \<notin> set (canoniser_discriminants d)"
proof -
  have s: "separateur = CHR 0x1F" by code_simp
  have k: "k \<noteq> separateur" if "k \<in> {CHR 0x22, CHR '':'', CHR '','', CHR ''{'', CHR ''}''}" for k
    using that by (auto simp: s)
  have j: "separateur \<notin> set (comma_join ts)" if "\<forall>t \<in> set ts. separateur \<notin> set t" for ts
    using that k by (induction ts rule: comma_join.induct) auto
  have "separateur \<notin> set (json_pair p)" for p
    using json_char_clean k by (auto simp: json_pair_def json_text_def)
  with j[of "map json_pair (sort_key fst d)"] k show ?thesis by (auto simp: canoniser_discriminants_def)
qed

lemma split_first:
  assumes "c \<notin> set xs" "c \<notin> set xs'" "xs @ c # ys = xs' @ c # ys'"
  shows "xs = xs' \<and> ys = ys'"
  using assms by (induction xs arbitrary: xs') (case_tac xs'; auto)+

lemma split_last:
  assumes "c \<notin> set ys" "c \<notin> set ys'" "xs @ c # ys = xs' @ c # ys'"
  shows "xs = xs' \<and> ys = ys'"
proof -
  from arg_cong[OF assms(3), of rev] have "rev ys @ c # rev xs = rev ys' @ c # rev xs'" by simp
  from split_first[OF _ _ this] assms(1,2) show ?thesis by simp
qed

text \<open>
  The separator inside a type: two different actions that share the text, the type \<open>x<US>/p\<close> without a target
  and the type \<open>x\<close> with a target whose canonical form starts with \<open>/p\<close> and ends with the separator.
\<close>

lemma separator_in_type_collides:
  assumes "str_lower (str_strip a) = t" and "canoniser_chemin fs (Some s) = p @ [separateur]"
    and "str_lower (str_strip b) = t @ separateur # p"
  shows "brut fs a (Some s) d = brut fs b None d"
proof -
  have "canoniser_chemin fs None = []" by (simp add: canoniser_chemin_def)
  with assms show ?thesis by (simp add: brut_def)
qed

text \<open>
  C28. Two actions whose normalised types do not contain the separator of the fields (the control character 31)
  have one identity exactly when they have the same normalised type, the same canonical target and the same
  discriminants, in whatever order the discriminants come: no target or discriminant can be written so that two
  different actions share the identified text. A type that contains the separator is outside: there two
  different actions may share their text.
\<close>

theorem identity_exact:
  assumes "distinct (map fst d)" "distinct (map fst e)"
    and "separateur \<notin> set (str_lower (str_strip a))" "separateur \<notin> set (str_lower (str_strip b))"
  shows "brut fs a s d = brut fs b t e \<longleftrightarrow>
    str_lower (str_strip a) = str_lower (str_strip b) \<and> canoniser_chemin fs s = canoniser_chemin fs t \<and>
    (\<forall>k. dict_get d k = dict_get e k)"
proof
  assume "brut fs a s d = brut fs b t e"
  from split_first[OF assms(3,4) this[unfolded brut_def]]
  have a: "str_lower (str_strip a) = str_lower (str_strip b)"
    and r: "canoniser_chemin fs s @ separateur # canoniser_discriminants d =
      canoniser_chemin fs t @ separateur # canoniser_discriminants e" by simp_all
  from split_last[OF discriminants_clean discriminants_clean r] a
  show "str_lower (str_strip a) = str_lower (str_strip b) \<and> canoniser_chemin fs s = canoniser_chemin fs t \<and>
    (\<forall>k. dict_get d k = dict_get e k)" by (simp add: discriminants_eq[OF assms(1,2)])
next
  assume "str_lower (str_strip a) = str_lower (str_strip b) \<and> canoniser_chemin fs s = canoniser_chemin fs t \<and>
    (\<forall>k. dict_get d k = dict_get e k)"
  then show "brut fs a s d = brut fs b t e" using discriminants_eq[OF assms(1,2)] by (simp add: brut_def)
qed

subsection \<open>A gate at work\<close>

definition sample_fs :: file_system where
  "sample_fs = \<lparr>fs_home = Inr, fs_resolve = (\<lambda>s. Inr (filter (\<lambda>c. c \<noteq> []) (split_slash s))),
     fs_exists = (\<lambda>_. True), fs_is_dir = (\<lambda>_. True), fs_listable = (\<lambda>_. True), fs_probe = (\<lambda>_. True)\<rparr>"

definition sample_engine :: aegis_engine where
  "sample_engine = \<lparr>ae_matrix = \<lparr>px_level = ''low'', px_categories =
       [(''fs_write'', \<lparr>cy_name = ''fs_write'', cy_mutating = True, cy_path_based = True, cy_mandatory = False,
           cy_min_autonomy = Some ''medium''\<rparr>),
        (''git_push'', \<lparr>cy_name = ''git_push'', cy_mutating = True, cy_path_based = False, cy_mandatory = True,
           cy_min_autonomy = None\<rparr>)]\<rparr>,
     ae_roots = [[''w'']]\<rparr>"

definition sample_consent :: consent_env where
  "sample_consent = \<lparr>cn_digest = (\<lambda>s. s), cn_fs = sample_fs, cn_now = 100, cn_uuid = ''n''\<rparr>"

definition sample_action :: "string \<Rightarrow> string option \<Rightarrow> action_request" where
  "sample_action a t = \<lparr>aq_type = a, aq_description = ''do'', aq_target = t, aq_agent = ''hermes'', aq_task = None,
     aq_project = None, aq_discriminants = [(''branch'', ''main'')]\<rparr>"

definition sample_approval :: approval where
  "sample_approval = \<lparr>ap_fingerprint = brut sample_fs ''git_push'' None [(''branch'', ''main'')], ap_action = ''git_push'',
     ap_description = ''do'', ap_target = None, ap_agent = ''hermes'', ap_reason = AlwaysHuman ''git_push'',
     ap_status = ApApproved, ap_task = None, ap_project = None, ap_created = 10, ap_decided = Some 50,
     ap_expires = Some 950, ap_portee = Some portee_action, ap_racine = None, ap_usages = Some 1,
     ap_discriminants = None\<rparr>"

definition sample_gate :: gate_state where
  "sample_gate = \<lparr>gt_table = [(''a'', sample_approval)], gt_bus = [], gt_hub = []\<rparr>"

definition empty_projects :: project_store where
  "empty_projects = \<lparr>ps_table = [], ps_events = []\<rparr>"

lemma sample_path_asked:
  "fst (aegis_evaluate sample_consent sample_engine empty_projects (sample_action ''fs_write'' (Some ''/w/a'')) sample_gate) =
     Inr (gate_says GateHuman (NeedsLevel ''fs_write'' ''medium'' ''low'') ''fs_write'')"
  by code_simp

lemma sample_push_allowed:
  "fst (aegis_evaluate sample_consent sample_engine empty_projects (sample_action ''git_push'' None) sample_gate) =
     Inr (gate_says GateAllow (HumanConsent ''a'' (Some 50)) ''git_push'')"
  by code_simp

lemma boundaries_hold_against_consent_witness:
  "inside_bounds sample_fs sample_engine empty_projects (sample_action ''fs_write'' (Some ''/w/a''))"
proof -
  let ?q = "sample_action ''fs_write'' (Some ''/w/a'')"
  obtain gt' where "aegis_evaluate sample_consent sample_engine empty_projects ?q sample_gate =
      (Inr (gate_says GateHuman (NeedsLevel ''fs_write'' ''medium'' ''low'') ''fs_write''), gt')"
    using sample_path_asked by (metis prod.collapse)
  from boundaries_hold_against_consent[OF _ _ this, of "the (get_category (ae_matrix sample_engine) ''fs_write'')"]
  show ?thesis by (simp add: sample_consent_def gate_says_def sample_engine_def sample_action_def get_category_def)
qed

lemma human_actions_need_consent_witness:
  "\<exists>i e gt'. snd (aegis_evaluate sample_consent sample_engine empty_projects (sample_action ''git_push'' None) sample_gate) = gt' \<and>
     consumed_row sample_consent ''git_push'' None [(''branch'', ''main'')] (gt_table sample_gate) i e \<and>
     gt_table gt' = dict_set i (after_use e) (gt_table sample_gate) \<and> Some 50 = ap_decided e"
proof -
  let ?q = "sample_action ''git_push'' None"
  obtain gt' where g: "aegis_evaluate sample_consent sample_engine empty_projects ?q sample_gate =
      (Inr (gate_says GateAllow (HumanConsent ''a'' (Some 50)) ''git_push''), gt')"
    using sample_push_allowed by (metis prod.collapse)
  from human_actions_need_consent[OF _ this]
  obtain i e where "consumed_row sample_consent (aq_type ?q) (aq_target ?q)
      (fold (\<lambda>(k, v). dict_set k v) (aq_discriminants ?q) []) (gt_table sample_gate) i e"
    "gt_table gt' = dict_set i (after_use e) (gt_table sample_gate)"
    "ad_reason (gate_says GateAllow (HumanConsent ''a'' (Some 50)) ''git_push'') = HumanConsent i (ap_decided e)"
    by (auto simp: gate_says_def sample_engine_def sample_action_def get_category_def)
  then show ?thesis using g by (intro exI[of _ i] exI[of _ e]) (simp add: sample_action_def gate_says_def)
qed

lemma identity_exact_witness:
  "brut sample_fs '' Push '' (Some ''/w//a'') [(''b'', ''1''), (''a'', ''2'')] =
   brut sample_fs ''push'' (Some ''/w/a'') [(''a'', ''2''), (''b'', ''1'')]"
proof -
  have t: "str_lower (str_strip '' Push '') = ''push''" "str_lower (str_strip ''push'') = ''push''" by code_simp+
  have c: "canoniser_chemin sample_fs (Some ''/w//a'') = canoniser_chemin sample_fs (Some ''/w/a'')" by code_simp
  have s: "separateur \<notin> set (str_lower (str_strip '' Push ''))" "separateur \<notin> set (str_lower (str_strip ''push''))"
    by code_simp+
  show ?thesis
    by (rule identity_exact[THEN iffD2, OF _ _ s]) (simp_all add: t c)
qed

text \<open>The most permissive level is not ranked, so it allows no more than the lowest one.\<close>

lemma full_ranks_as_low:
  "ad_verdict (policy_verdict (m\<lparr>px_level := ''full''\<rparr>) c a) = ad_verdict (policy_verdict (m\<lparr>px_level := ''low''\<rparr>) c a)"
  by (simp add: policy_verdict_def autonomy_order_def dict_get_default_def gate_says_def Let_def)

end
