(* ===== verification/Resources.thy ===== *)
theory Resources
  imports Prelude
begin

text \<open>
  Who gets memory: the models, the policies and the manager of \<^verbatim>\<open>runtime/resources\<close>
  (\<^verbatim>\<open>resource_models.py\<close>, \<^verbatim>\<open>allocation_policy.py\<close>, \<^verbatim>\<open>memory_manager.py\<close>, \<^verbatim>\<open>resource_manager.py\<close>).

  What the probes of the card and \<^verbatim>\<open>/proc/meminfo\<close> answer is the environment of a call. The monitor keeps a
  reading for two seconds, so the questions of one call see one reading. The event callback is a log, its
  payload the values that identify the event.
\<close>

subsection \<open>Models\<close>

datatype resource_type = ResVram | ResRam | ResCpu | ResGpuTemp | ResModelWeight

datatype resource_status = ResHealthy | ResWarning | ResCritical | ResUnavailable

record gpu_info =
  gi_name :: string
  gi_vendor :: string
  gi_total :: int
  gi_used :: int
  gi_free :: int
  gi_temp :: "rat option"
  gi_hotspot :: "rat option"
  gi_util :: "rat option"
  gi_available :: bool
  gi_measured :: bool

record resource_limit =
  rl_type :: resource_type
  rl_total :: int
  rl_warning :: rat
  rl_critical :: rat

record resource_snapshot =
  rs_type :: resource_type
  rs_total :: int
  rs_used :: int
  rs_free :: int
  rs_status :: resource_status

definition usage_pct :: "resource_snapshot \<Rightarrow> rat" where
  "usage_pct s = (if rs_total s = 0 then 0 else of_int (rs_used s) / of_int (rs_total s))"

definition with_limits :: "resource_snapshot \<Rightarrow> resource_limit \<Rightarrow> resource_status" where
  "with_limits s l = (if usage_pct s \<ge> rl_critical l then ResCritical
     else if usage_pct s \<ge> rl_warning l then ResWarning else ResHealthy)"

record resource_allocation =
  ra_id :: string
  ra_runtime :: string
  ra_type :: resource_type
  ra_requested :: int
  ra_allocated :: int
  ra_model :: "string option"
  ra_created :: time
  ra_released :: bool
  ra_priority :: int

definition release_allocation :: "resource_allocation \<Rightarrow> resource_allocation" where
  "release_allocation a = a\<lparr>ra_released := True\<rparr>"

datatype allocation_reason =
    NoGpuDetected
  | Unmeasured string
  | VramWouldReach rat rat
  | RamWouldReach rat rat
  | GpuTooHot rat rat
  | GpuTooBusy rat rat
  | NoAllocationReason

record allocation_result =
  ao_success :: bool
  ao_allocation :: "resource_allocation option"
  ao_reason :: allocation_reason
  ao_fallback :: "string option"
  ao_suggested :: "string option"

subsection \<open>Policies\<close>

record thermal_limits =
  tl_temp :: rat
  tl_util :: rat

text \<open>A policy: the two shares, and the limits of the card for the aware one.\<close>

record allocation_policy =
  po_vram :: rat
  po_ram :: rat
  po_thermal :: "thermal_limits option"

definition default_policy :: allocation_policy where
  "default_policy = \<lparr>po_vram = 9 / 10, po_ram = 85 / 100, po_thermal = None\<rparr>"

definition vram_aware_policy :: allocation_policy where
  "vram_aware_policy = \<lparr>po_vram = 9 / 10, po_ram = 85 / 100, po_thermal = Some \<lparr>tl_temp = 85, tl_util = 95\<rparr>\<rparr>"

definition gib :: int where
  "gib = 1024 * 1024 * 1024"

definition model_tiers :: "(string \<times> int) list" where
  "model_tiers = [(''Tier 1 (1B)'', gib), (''Tier 2 (3B)'', 3 * gib), (''Tier 3 (7B)'', 7 * gib),
     (''Tier 4 (14B)'', 14 * gib), (''Tier 5 (32B)'', 32 * gib)]"

definition suggest_smaller_model :: "int \<Rightarrow> int \<Rightarrow> string option" where
  "suggest_smaller_model requested available = map_option fst (List.find (\<lambda>(n, size). size \<le> available) model_tiers)"

record resource_env =
  re_gpu :: gpu_info
  re_memory :: resource_snapshot
  re_uuid :: string
  re_now :: time

record allocation_request =
  rq_bytes :: int
  rq_runtime :: string
  rq_type :: resource_type
  rq_model :: "string option"
  rq_priority :: int

definition new_allocation :: "resource_env \<Rightarrow> resource_type \<Rightarrow> allocation_request \<Rightarrow> resource_allocation" where
  "new_allocation en rt q = \<lparr>ra_id = re_uuid en, ra_runtime = rq_runtime q, ra_type = rt, ra_requested = rq_bytes q,
     ra_allocated = rq_bytes q, ra_model = rq_model q, ra_created = re_now en, ra_released = False,
     ra_priority = rq_priority q\<rparr>"

definition granted_with :: "allocation_reason \<Rightarrow> resource_allocation \<Rightarrow> allocation_result" where
  "granted_with why a = \<lparr>ao_success = True, ao_allocation = Some a, ao_reason = why, ao_fallback = None, ao_suggested = None\<rparr>"

definition refused_with :: "allocation_reason \<Rightarrow> string option \<Rightarrow> string option \<Rightarrow> allocation_result" where
  "refused_with why fallback suggested = \<lparr>ao_success = False, ao_allocation = None, ao_reason = why,
     ao_fallback = fallback, ao_suggested = suggested\<rparr>"

definition default_can_allocate :: "allocation_policy \<Rightarrow> resource_env \<Rightarrow> resource_snapshot \<Rightarrow> gpu_info
    \<Rightarrow> allocation_request \<Rightarrow> allocation_result" where
  "default_can_allocate po en s g q =
     (let a = new_allocation en (rs_type s) q; vram = of_int (gi_used g + rq_bytes q) / of_int (gi_total g);
          ram = of_int (rs_used s + rq_bytes q) / of_int (max (rs_total s) 1)
      in if rs_type s = ResVram \<and> gi_total g = 0 then granted_with NoGpuDetected a
         else if rs_type s = ResVram \<and> \<not> gi_measured g then refused_with (Unmeasured (gi_name g)) None None
         else if rs_type s = ResVram \<and> vram > po_vram po
         then refused_with (VramWouldReach vram (po_vram po)) None (suggest_smaller_model (rq_bytes q) (gi_free g))
         else if rs_type s = ResRam \<and> ram > po_ram po then refused_with (RamWouldReach ram (po_ram po)) None None
         else granted_with NoAllocationReason a)"

definition over_limit :: "rat option \<Rightarrow> rat \<Rightarrow> bool" where
  "over_limit v l = (case v of None \<Rightarrow> False | Some x \<Rightarrow> x > l)"

definition policy_can_allocate :: "allocation_policy \<Rightarrow> resource_env \<Rightarrow> resource_snapshot \<Rightarrow> gpu_info
    \<Rightarrow> allocation_request \<Rightarrow> allocation_result" where
  "policy_can_allocate po en s g q =
     (case po_thermal po of None \<Rightarrow> default_can_allocate po en s g q
      | Some th \<Rightarrow>
          if over_limit (gi_temp g) (tl_temp th)
          then refused_with (GpuTooHot (the (gi_temp g)) (tl_temp th)) (Some ''cpu'') None
          else if over_limit (gi_util g) (tl_util th)
          then refused_with (GpuTooBusy (the (gi_util g)) (tl_util th)) None None
          else default_can_allocate po en s g q)"

subsection \<open>System memory\<close>

record memory_manager =
  mm_snapshot :: "resource_snapshot option"
  mm_updated :: "time option"

definition memory_interval :: time where
  "memory_interval = 1"

definition poll_memory_now :: "int \<times> int \<Rightarrow> resource_snapshot" where
  "poll_memory_now reading = (case reading of (tot, used) \<Rightarrow>
     \<lparr>rs_type = ResRam, rs_total = tot, rs_used = used, rs_free = max 0 (tot - used), rs_status = ResHealthy\<rparr>)"

definition poll_memory :: "time \<Rightarrow> int \<times> int \<Rightarrow> memory_manager \<Rightarrow> resource_snapshot option \<times> memory_manager" where
  "poll_memory now reading mm =
     (case mm_updated mm of
        Some t \<Rightarrow> if now - t < memory_interval then (mm_snapshot mm, mm)
          else (Some (poll_memory_now reading), \<lparr>mm_snapshot = Some (poll_memory_now reading), mm_updated = Some now\<rparr>)
      | None \<Rightarrow> (Some (poll_memory_now reading), \<lparr>mm_snapshot = Some (poll_memory_now reading), mm_updated = Some now\<rparr>))"

subsection \<open>The manager\<close>

datatype resource_event =
    Allocated resource_type string string "string option" int
  | AllocationFailed string allocation_reason resource_type int
  | ResourceReleased string string int
  | ThresholdAlert string string

record resource_manager =
  rm_policy :: allocation_policy
  rm_allocations :: "(string, resource_allocation) dict"
  rm_limits :: "(resource_type, resource_limit) dict"
  rm_listens :: bool
  rm_log :: "resource_event list"

definition new_resource_manager :: "allocation_policy option \<Rightarrow> bool \<Rightarrow> resource_manager" where
  "new_resource_manager po listens =
     \<lparr>rm_policy = (case po of None \<Rightarrow> default_policy | Some p \<Rightarrow> p), rm_allocations = [],
      rm_limits = [(ResVram, \<lparr>rl_type = ResVram, rl_total = 16 * gib, rl_warning = 85 / 100, rl_critical = 95 / 100\<rparr>),
        (ResRam, \<lparr>rl_type = ResRam, rl_total = 32 * gib, rl_warning = 85 / 100, rl_critical = 95 / 100\<rparr>)],
      rm_listens = listens, rm_log = []\<rparr>"

definition tell :: "resource_event list \<Rightarrow> resource_manager \<Rightarrow> resource_manager" where
  "tell evs rm = (if rm_listens rm then rm\<lparr>rm_log := rm_log rm @ evs\<rparr> else rm)"

definition current_allocations :: "resource_manager \<Rightarrow> resource_allocation list" where
  "current_allocations rm = filter (\<lambda>a. \<not> ra_released a) (dict_values (rm_allocations rm))"

definition octets_reserves :: "resource_manager \<Rightarrow> resource_type \<Rightarrow> int" where
  "octets_reserves rm rt = sum_list (map ra_requested
     (filter (\<lambda>a. \<not> ra_released a \<and> ra_type a = rt) (dict_values (rm_allocations rm))))"

definition can_allocate :: "resource_env \<Rightarrow> resource_manager \<Rightarrow> allocation_request \<Rightarrow> allocation_result" where
  "can_allocate en rm q =
     (let g = re_gpu en; reserves = octets_reserves rm (rq_type q)
      in if rq_type q = ResRam
         then policy_can_allocate (rm_policy rm) en
           \<lparr>rs_type = ResRam, rs_total = rs_total (re_memory en), rs_used = rs_used (re_memory en) + reserves,
            rs_free = max 0 (rs_free (re_memory en) - reserves), rs_status = ResHealthy\<rparr> g q
         else policy_can_allocate (rm_policy rm) en
           \<lparr>rs_type = ResVram, rs_total = gi_total g, rs_used = gi_used g + reserves,
            rs_free = max 0 (gi_free g - reserves), rs_status = ResHealthy\<rparr>
           (g\<lparr>gi_used := gi_used g + reserves, gi_free := max 0 (gi_free g - reserves)\<rparr>) q)"

definition places_max :: nat where
  "places_max = 16"

definition places_request :: "int \<Rightarrow> string \<Rightarrow> resource_type \<Rightarrow> allocation_request" where
  "places_request octets rt ty = \<lparr>rq_bytes = octets, rq_runtime = rt, rq_type = ty, rq_model = None, rq_priority = 0\<rparr>"

function places_loop :: "resource_env \<Rightarrow> resource_manager \<Rightarrow> int \<Rightarrow> string \<Rightarrow> resource_type \<Rightarrow> nat \<Rightarrow> nat" where
  "places_loop en rm octets rt ty n =
     (if n < places_max \<and> ao_success (can_allocate en rm (places_request (octets * int (n + 1)) rt ty))
      then places_loop en rm octets rt ty (n + 1) else n)"
  by pat_completeness auto

termination
  by (relation "measure (\<lambda>(en, rm, octets, rt, ty, n). places_max - n)") auto

declare places_loop.simps [simp del]

definition places_disponibles :: "resource_env \<Rightarrow> resource_manager \<Rightarrow> int \<Rightarrow> string \<Rightarrow> resource_type \<Rightarrow> nat" where
  "places_disponibles en rm octets rt ty = (if octets \<le> 0 then 0 else places_loop en rm octets rt ty 0)"

definition reserve_resources :: "resource_env \<Rightarrow> allocation_request \<Rightarrow> resource_manager
    \<Rightarrow> allocation_result \<times> resource_manager" where
  "reserve_resources en q rm =
     (let r = can_allocate en rm q
      in case ao_allocation r of
           Some a \<Rightarrow>
             if ao_success r
             then (r, tell [Allocated (rq_type q) (ra_id a) (rq_runtime q) (rq_model q) (rq_bytes q)]
               (rm\<lparr>rm_allocations := dict_set (ra_id a) a (rm_allocations rm)\<rparr>))
             else (r, tell [AllocationFailed (rq_runtime q) (ao_reason r) (rq_type q) (rq_bytes q)] rm)
         | None \<Rightarrow>
             if \<not> ao_success r then (r, tell [AllocationFailed (rq_runtime q) (ao_reason r) (rq_type q) (rq_bytes q)] rm)
             else (r, rm))"

definition release_resources :: "string \<Rightarrow> resource_manager \<Rightarrow> int option \<times> resource_manager" where
  "release_resources i rm =
     (case dict_get (rm_allocations rm) i of None \<Rightarrow> (None, rm)
      | Some a \<Rightarrow>
          if ra_released a then (None, rm)
          else (Some (ra_allocated a), tell [ResourceReleased i (ra_runtime a) (ra_allocated a)]
            (rm\<lparr>rm_allocations := dict_set i (release_allocation a) (rm_allocations rm)\<rparr>)))"

definition vram_alerts :: "resource_env \<Rightarrow> resource_manager \<Rightarrow> (string \<times> string) list" where
  "vram_alerts en rm =
     (let g = re_gpu en; pct = of_int (gi_used g) / of_int (gi_total g) :: rat
      in if gi_available g \<and> gi_total g > 0 \<and> gi_measured g
         then (case dict_get (rm_limits rm) ResVram of None \<Rightarrow> []
             | Some l \<Rightarrow> if pct \<ge> rl_critical l then [(''vram.limit_reached'', ''critical'')]
                 else if pct \<ge> rl_warning l then [(''memory.warning'', ''warning'')] else [])
           @ (if over_limit (gi_temp g) 85 then [(''resource.warning'', ''warning'')] else [])
         else [])"

definition ram_alerts :: "resource_env \<Rightarrow> resource_manager \<Rightarrow> (string \<times> string) list" where
  "ram_alerts en rm =
     (if rs_total (re_memory en) > 0
      then (case dict_get (rm_limits rm) ResRam of None \<Rightarrow> []
          | Some l \<Rightarrow> if usage_pct (re_memory en) \<ge> rl_critical l then [(''memory.warning'', ''critical'')]
              else if usage_pct (re_memory en) \<ge> rl_warning l then [(''memory.warning'', ''warning'')] else [])
      else [])"

definition check_thresholds :: "resource_env \<Rightarrow> resource_manager \<Rightarrow> (string \<times> string) list \<times> resource_manager" where
  "check_thresholds en rm =
     (let alerts = vram_alerts en rm @ ram_alerts en rm
      in (alerts, tell (map (\<lambda>(e, s). ThresholdAlert e s) alerts) rm))"

definition set_limit :: "resource_type \<Rightarrow> resource_limit \<Rightarrow> resource_manager \<Rightarrow> resource_manager" where
  "set_limit rt l rm = rm\<lparr>rm_limits := dict_set rt l (rm_limits rm)\<rparr>"

definition set_policy :: "allocation_policy \<Rightarrow> resource_manager \<Rightarrow> resource_manager" where
  "set_policy po rm = rm\<lparr>rm_policy := po\<rparr>"

definition set_event_callback :: "bool \<Rightarrow> resource_manager \<Rightarrow> resource_manager" where
  "set_event_callback listens rm = rm\<lparr>rm_listens := listens\<rparr>"

end
