(* ===== verification/Resources_Correct.thy ===== *)
theory Resources_Correct
  imports Resources
begin

text \<open>
  What the manager promises: the promises on the card never exceed its share, and the number of places it
  announces is the number of reservations it then grants.
\<close>

subsection \<open>What a grant depends on\<close>

definition cool :: "allocation_policy \<Rightarrow> gpu_info \<Rightarrow> bool" where
  "cool po g \<longleftrightarrow> (case po_thermal po of None \<Rightarrow> True
     | Some th \<Rightarrow> \<not> over_limit (gi_temp g) (tl_temp th) \<and> \<not> over_limit (gi_util g) (tl_util th))"

text \<open>Whether a total of promised bytes fits; \<open>weight\<close> is what one allocation promises.\<close>

definition fits :: "allocation_policy \<Rightarrow> resource_env \<Rightarrow> resource_type \<Rightarrow> int \<Rightarrow> bool" where
  "fits po en ty b \<longleftrightarrow> cool po (re_gpu en) \<and>
     (if ty = ResRam then of_int (rs_used (re_memory en) + b) / of_int (max (rs_total (re_memory en)) 1) \<le> po_ram po
      else gi_total (re_gpu en) = 0 \<or>
        (gi_measured (re_gpu en) \<and> of_int (gi_used (re_gpu en) + b) / of_int (gi_total (re_gpu en)) \<le> po_vram po))"

definition weight :: "resource_type \<Rightarrow> resource_allocation \<Rightarrow> int" where
  "weight ty a = (if \<not> ra_released a \<and> ra_type a = ty then ra_requested a else 0)"

definition stored_weight :: "resource_type \<Rightarrow> resource_manager \<Rightarrow> string \<Rightarrow> int" where
  "stored_weight ty rm i = (case dict_get (rm_allocations rm) i of None \<Rightarrow> 0 | Some a \<Rightarrow> weight ty a)"

lemma octets_weight: "octets_reserves rm ty = sum_list (map (weight ty \<circ> snd) (rm_allocations rm))"
  by (simp add: octets_reserves_def sum_list_map_filter' weight_def comp_def)

lemma sum_dict_set:
  fixes w :: "'v \<Rightarrow> int"
  shows "sum_list (map (w \<circ> snd) (dict_set k a d)) =
    sum_list (map (w \<circ> snd) d) - (case dict_get d k of None \<Rightarrow> 0 | Some b \<Rightarrow> w b) + w a"
  by (induction d) auto

lemma octets_tell [simp]: "octets_reserves (tell evs rm) ty = octets_reserves rm ty"
  by (simp add: tell_def octets_reserves_def)

lemma policy_tell [simp]: "rm_policy (tell evs rm) = rm_policy rm" and allocations_tell [simp]:
  "rm_allocations (tell evs rm) = rm_allocations rm"
  by (simp_all add: tell_def)

lemma can_allocate_fits:
  assumes "rq_type q \<in> {ResVram, ResRam}"
  shows "ao_success (can_allocate en rm q) \<longleftrightarrow> fits (rm_policy rm) en (rq_type q) (octets_reserves rm (rq_type q) + rq_bytes q)"
    and "ao_allocation (can_allocate en rm q) =
      (if ao_success (can_allocate en rm q) then Some (new_allocation en (rq_type q) q) else None)"
  using assms
  by (auto simp: can_allocate_def policy_can_allocate_def default_can_allocate_def fits_def cool_def Let_def
      granted_with_def refused_with_def add.assoc split: option.splits)

lemma reserve_effect:
  assumes "rq_type q \<in> {ResVram, ResRam}" "reserve_resources en q rm = (r, rm')"
  shows "ao_success r \<longleftrightarrow> fits (rm_policy rm) en (rq_type q) (octets_reserves rm (rq_type q) + rq_bytes q)"
    and "rm_policy rm' = rm_policy rm"
    and "rm_allocations rm' = (if ao_success r
      then dict_set (re_uuid en) (new_allocation en (rq_type q) q) (rm_allocations rm) else rm_allocations rm)"
proof -
  note f = can_allocate_fits[OF assms(1), of en rm]
  show "ao_success r \<longleftrightarrow> fits (rm_policy rm) en (rq_type q) (octets_reserves rm (rq_type q) + rq_bytes q)"
    using assms(2) f(1) by (auto simp: reserve_resources_def Let_def split: option.splits if_splits)
  show "rm_policy rm' = rm_policy rm"
    using assms(2) by (auto simp: reserve_resources_def Let_def split: option.splits if_splits)
  have a: "ra_id (new_allocation en t q) = re_uuid en" for t by (simp add: new_allocation_def)
  show "rm_allocations rm' = (if ao_success r
      then dict_set (re_uuid en) (new_allocation en (rq_type q) q) (rm_allocations rm) else rm_allocations rm)"
    using assms(2) f(2) a by (auto simp: reserve_resources_def Let_def split: option.splits if_splits)
qed

lemma reserve_octets:
  assumes "rq_type q \<in> {ResVram, ResRam}" "reserve_resources en q rm = (r, rm')"
  shows "octets_reserves rm' ty = (if ao_success r
    then octets_reserves rm ty - stored_weight ty rm (re_uuid en) + (if rq_type q = ty then rq_bytes q else 0)
    else octets_reserves rm ty)"
  unfolding octets_weight reserve_effect(3)[OF assms] stored_weight_def
  by (simp add: sum_dict_set weight_def new_allocation_def)

subsection \<open>Promises stay within the share\<close>

datatype resource_op = Reserve resource_env allocation_request | Release string | CheckThresholds resource_env

fun resource_step :: "resource_op \<Rightarrow> resource_manager \<Rightarrow> resource_manager" where
  "resource_step (Reserve en q) rm = snd (reserve_resources en q rm)"
| "resource_step (Release i) rm = snd (release_resources i rm)"
| "resource_step (CheckThresholds en) rm = snd (check_thresholds en rm)"

text \<open>Requests on the card or the memory, on one card of \<open>T\<close> bytes.\<close>

fun on_card :: "int \<Rightarrow> resource_op \<Rightarrow> bool" where
  "on_card T (Reserve en q) \<longleftrightarrow> gi_total (re_gpu en) = T \<and> 0 \<le> gi_used (re_gpu en) \<and> 0 \<le> rq_bytes q \<and>
     rq_type q \<in> {ResVram, ResRam}"
| "on_card T _ \<longleftrightarrow> True"

definition promises_inv :: "int \<Rightarrow> resource_manager \<Rightarrow> bool" where
  "promises_inv T rm \<longleftrightarrow> rm_policy rm = default_policy \<and> 10 * octets_reserves rm ResVram \<le> 9 * T \<and>
     (\<forall>a \<in> set (dict_values (rm_allocations rm)). 0 \<le> ra_requested a)"

lemma stored_weight_nonneg:
  assumes "\<forall>a \<in> set (dict_values (rm_allocations rm)). 0 \<le> ra_requested a"
  shows "0 \<le> stored_weight ty rm i"
  using assms by (auto simp: stored_weight_def weight_def split: option.splits dest!: map_of_SomeD)

lemma share_bound:
  fixes u b T :: int
  assumes "0 < T"
  shows "(of_int (u + b) / of_int T \<le> (9 / 10 :: rat)) \<longleftrightarrow> 10 * (u + b) \<le> 9 * T"
proof -
  have "(of_int (u + b) / of_int T \<le> (9 / 10 :: rat)) \<longleftrightarrow> of_int (10 * (u + b)) \<le> (of_int (9 * T) :: rat)"
    using assms by (simp add: field_simps)
  then show ?thesis by (simp only: of_int_le_iff)
qed

lemma granted_on_card:
  assumes inv: "promises_inv T rm" and T: "0 < T" and q: "on_card T (Reserve en q)" "rq_type q = ResVram"
    and r: "reserve_resources en q rm = (r, rm')" "ao_success r"
  shows "10 * (gi_used (re_gpu en) + octets_reserves rm' ResVram) \<le> 9 * T"
proof -
  have t: "rq_type q \<in> {ResVram, ResRam}" using q by simp
  have p: "po_vram default_policy = 9 / 10" by (simp add: default_policy_def)
  from reserve_effect(1)[OF t r(1)] r(2) q inv T
  have "of_int (gi_used (re_gpu en) + (octets_reserves rm ResVram + rq_bytes q)) / of_int T \<le> (9 / 10 :: rat)"
    unfolding fits_def promises_inv_def p[symmetric] by auto
  then have "10 * (gi_used (re_gpu en) + (octets_reserves rm ResVram + rq_bytes q)) \<le> 9 * T"
    by (rule share_bound[OF T, THEN iffD1])
  moreover have "octets_reserves rm' ResVram \<le> octets_reserves rm ResVram + rq_bytes q"
    using reserve_octets[OF t r(1), of ResVram] r(2) q(2) stored_weight_nonneg[of rm ResVram "re_uuid en"] inv
    by (simp add: promises_inv_def)
  ultimately show ?thesis by simp
qed

lemma release_octets:
  "octets_reserves (snd (release_resources i rm)) ty =
     octets_reserves rm ty - (if fst (release_resources i rm) = None then 0 else stored_weight ty rm i)"
  by (auto simp: release_resources_def octets_weight sum_dict_set stored_weight_def weight_def release_allocation_def
      split: option.splits)

lemma all_values_set:
  "\<forall>a \<in> set (dict_values d). Q a \<Longrightarrow> Q v \<Longrightarrow> \<forall>a \<in> set (dict_values (dict_set k v d)). Q a"
  by (induction d) auto

lemma promises_step: "promises_inv T rm \<Longrightarrow> 0 < T \<Longrightarrow> on_card T op \<Longrightarrow> promises_inv T (resource_step op rm)"
proof (cases op)
  case (Reserve en q)
  assume inv: "promises_inv T rm" and T: "0 < T" and q: "on_card T op"
  obtain r rm' where r: "reserve_resources en q rm = (r, rm')" by fastforce
  have t: "rq_type q \<in> {ResVram, ResRam}" using q Reserve by simp
  have p: "rm_policy rm' = default_policy" using reserve_effect(2)[OF t r] inv by (simp add: promises_inv_def)
  have old: "\<forall>a \<in> set (dict_values (rm_allocations rm)). 0 \<le> ra_requested a" using inv unfolding promises_inv_def by blast
  have "0 \<le> ra_requested (new_allocation en (rq_type q) q)" using q Reserve by (simp add: new_allocation_def)
  with old all_values_set[OF old] have n: "\<forall>a \<in> set (dict_values (rm_allocations rm')). 0 \<le> ra_requested a"
    unfolding reserve_effect(3)[OF t r] by (cases "ao_success r") simp_all
  have "10 * octets_reserves rm' ResVram \<le> 9 * T"
  proof (cases "ao_success r \<and> rq_type q = ResVram")
    case True
    with granted_on_card[OF inv T _ _ r] q Reserve show ?thesis by simp
  next
    case False
    then show ?thesis
      using reserve_octets[OF t r, of ResVram] inv stored_weight_nonneg[of rm ResVram "re_uuid en"]
      by (auto simp: promises_inv_def)
  qed
  with p n r Reserve show ?thesis by (simp add: promises_inv_def)
next
  case (Release i)
  assume inv: "promises_inv T rm"
  then have old: "\<forall>a \<in> set (dict_values (rm_allocations rm)). 0 \<le> ra_requested a" unfolding promises_inv_def by blast
  have "\<forall>a \<in> set (dict_values (rm_allocations (snd (release_resources i rm)))). 0 \<le> ra_requested a"
  proof (cases "dict_get (rm_allocations rm) i")
    case None
    then show ?thesis using old by (simp add: release_resources_def)
  next
    case (Some a)
    then have "a \<in> set (dict_values (rm_allocations rm))" by (force dest: map_of_SomeD)
    with old have "0 \<le> ra_requested a" by blast
    then have "0 \<le> ra_requested (release_allocation a)" by (simp add: release_allocation_def)
    with old all_values_set[OF old] Some show ?thesis by (simp add: release_resources_def)
  qed
  moreover have "rm_policy (snd (release_resources i rm)) = rm_policy rm"
    by (auto simp: release_resources_def split: option.splits)
  ultimately show ?thesis
    using inv Release stored_weight_nonneg[of rm ResVram i] by (auto simp: promises_inv_def release_octets)
next
  case (CheckThresholds en)
  assume "promises_inv T rm"
  with CheckThresholds show ?thesis by (simp add: promises_inv_def check_thresholds_def Let_def)
qed

lemma promises_reached:
  assumes "0 < T" "\<forall>op \<in> set ops. on_card T op"
  shows "promises_inv T (fold resource_step ops (new_resource_manager None listens))"
  using assms(2)
proof (induction ops rule: rev_induct)
  case Nil
  then show ?case using assms(1) by (simp add: promises_inv_def new_resource_manager_def octets_reserves_def)
next
  case (snoc op ops)
  then show ?case using promises_step[OF _ assms(1)] by simp
qed

text \<open>The bytes of the card that are promised: the sizes of the reservations on it that are not released.\<close>

definition vram_promised :: "resource_manager \<Rightarrow> int" where
  "vram_promised rm = (\<Sum>(i, a) \<leftarrow> rm_allocations rm. if ra_released a \<or> ra_type a \<noteq> ResVram then 0 else ra_requested a)"

lemma octets_reserves_vram: "octets_reserves rm ResVram = vram_promised rm"
proof -
  have "sum_list (map ra_requested (filter (\<lambda>a. \<not> ra_released a \<and> ra_type a = ResVram) (dict_values d))) =
      (\<Sum>(i, a) \<leftarrow> d. if ra_released a \<or> ra_type a \<noteq> ResVram then 0 else ra_requested a)" for d :: "(string, resource_allocation) dict"
    by (induction d) auto
  then show ?thesis by (simp only: octets_reserves_def vram_promised_def)
qed

text \<open>
  C33. On a card of a fixed size, under the default policy, the manager never promises more than nine tenths of
  it, whatever card (VRAM) and memory (RAM) requests of sizes that are not negative are made, granted, refused
  and released in whatever order and whatever the card shows as used; and a card reservation that it grants
  leaves the measured use together with all promises within that share. Requests of the other types and negative
  sizes are outside: they can go past it.
\<close>

theorem vram_never_overcommitted:
  assumes "0 < T" and "\<forall>op \<in> set ops. on_card T op"
    and "rm = fold resource_step ops (new_resource_manager None listens)"
  shows "10 * vram_promised rm \<le> 9 * T \<and>
    (on_card T (Reserve en q) \<and> rq_type q = ResVram \<and> ao_success (fst (reserve_resources en q rm)) \<longrightarrow>
      10 * (gi_used (re_gpu en) + vram_promised (snd (reserve_resources en q rm))) \<le> 9 * T)"
  unfolding octets_reserves_vram[symmetric]
proof (intro conjI impI; (elim conjE)?)
  have inv: "promises_inv T rm" unfolding assms(3) by (rule promises_reached[OF assms(1,2)])
  then show "10 * octets_reserves rm ResVram \<le> 9 * T" by (simp add: promises_inv_def)
  assume q: "on_card T (Reserve en q)" "rq_type q = ResVram" "ao_success (fst (reserve_resources en q rm))"
  obtain r rm' where r: "reserve_resources en q rm = (r, rm')" by fastforce
  with granted_on_card[OF inv assms(1) q(1,2) r] q(3)
  show "10 * (gi_used (re_gpu en) + octets_reserves (snd (reserve_resources en q rm)) ResVram) \<le> 9 * T" by simp
qed

subsection \<open>Places are what reservations will grant\<close>

lemma fits_antitone: "fits po en ty b \<Longrightarrow> a \<le> b \<Longrightarrow> 0 \<le> gi_total (re_gpu en) \<Longrightarrow> fits po en ty a"
proof -
  assume f: "fits po en ty b" and le: "a \<le> b" and t: "0 \<le> gi_total (re_gpu en)"
  have "of_int (u + a) / of_int n \<le> (of_int (u + b) / of_int n :: rat)" if "0 \<le> n" for u n :: int
    using le that by (intro divide_right_mono) simp_all
  from this[OF t, of "gi_used (re_gpu en)"] this[of "max (rs_total (re_memory en)) 1" "rs_used (re_memory en)"]
  have "of_int (gi_used (re_gpu en) + a) / of_int (gi_total (re_gpu en)) \<le>
      (of_int (gi_used (re_gpu en) + b) / of_int (gi_total (re_gpu en)) :: rat)"
    "of_int (rs_used (re_memory en) + a) / of_int (max (rs_total (re_memory en)) 1) \<le>
      (of_int (rs_used (re_memory en) + b) / of_int (max (rs_total (re_memory en)) 1) :: rat)" by simp_all
  with f show ?thesis unfolding fits_def by (meson order_trans)
qed

lemma places_from:
  assumes "ty \<in> {ResVram, ResRam}" "n \<le> places_max"
  shows "places_loop en rm octets rt ty n =
    n + length (takeWhile (\<lambda>k. fits (rm_policy rm) en ty (octets_reserves rm ty + octets * int (k + 1))) [n..<places_max])"
  using assms(2)
proof (induction "places_max - n" arbitrary: n)
  case 0
  then show ?case by (subst places_loop.simps) simp
next
  case (Suc d)
  then have n: "n < places_max" by simp
  let ?f = "fits (rm_policy rm) en ty (octets_reserves rm ty + octets * int (n + 1))"
  have s: "ao_success (can_allocate en rm (places_request (octets * int (n + 1)) rt ty)) \<longleftrightarrow> ?f"
    using can_allocate_fits(1)[of "places_request (octets * int (n + 1)) rt ty"] assms(1) by (simp add: places_request_def)
  show ?case
  proof (cases ?f)
    case True
    with n s have "places_loop en rm octets rt ty n = places_loop en rm octets rt ty (n + 1)"
      by (subst places_loop.simps) simp
    also have "\<dots> = n + 1 + length (takeWhile (\<lambda>k. fits (rm_policy rm) en ty (octets_reserves rm ty + octets * int (k + 1)))
        [n + 1..<places_max])" using Suc(1)[of "n + 1"] Suc(2) n by simp
    finally show ?thesis using True n by (simp add: upt_conv_Cons)
  next
    case False
    with n s show ?thesis by (subst places_loop.simps) (simp add: upt_conv_Cons)
  qed
qed

lemma places_iff:
  assumes ty: "ty \<in> {ResVram, ResRam}" and g: "0 \<le> gi_total (re_gpu en)" and o: "0 < octets" and k: "k < places_max"
  shows "k < places_disponibles en rm octets rt ty \<longleftrightarrow> fits (rm_policy rm) en ty (octets_reserves rm ty + octets * int (k + 1))"
proof -
  let ?P = "\<lambda>k. fits (rm_policy rm) en ty (octets_reserves rm ty + octets * int (k + 1))"
  let ?xs = "takeWhile ?P [0..<places_max]"
  have p: "places_disponibles en rm octets rt ty = length ?xs"
    using places_from[OF ty, of 0 en rm octets rt] o by (simp add: places_disponibles_def)
  have up: "?P j" if "?P i" "j \<le> i" for i j
    by (rule fits_antitone[OF that(1) _ g]) (use that(2) o in simp)
  show ?thesis
  proof
    assume "k < places_disponibles en rm octets rt ty"
    then have l: "k < length ?xs" by (simp only: p)
    then have "?xs ! k = [0..<places_max] ! k" by (rule takeWhile_nth)
    then have "?xs ! k = k" using k by simp
    moreover have "?xs ! k \<in> set ?xs" using l by (rule nth_mem)
    ultimately show "?P k" using set_takeWhileD[of k ?P] by metis
  next
    assume "?P k"
    show "k < places_disponibles en rm octets rt ty"
    proof (rule ccontr)
      assume "\<not> k < places_disponibles en rm octets rt ty"
      then have l: "length ?xs \<le> k" by (simp only: p)
      then have "\<not> ?P ([0..<places_max] ! length ?xs)" using k by (intro nth_length_takeWhile) simp
      then have "\<not> ?P (length ?xs)" using l k by simp
      with up[OF \<open>?P k\<close> l] show False by simp
    qed
  qed
qed

text \<open>Reservations of one size, one after the other.\<close>

fun reserve_all :: "resource_env list \<Rightarrow> allocation_request \<Rightarrow> resource_manager \<Rightarrow> bool list" where
  "reserve_all [] q rm = []"
| "reserve_all (en # ens) q rm = (case reserve_resources en q rm of (r, rm') \<Rightarrow> ao_success r # reserve_all ens q rm')"

definition same_reading :: "resource_env \<Rightarrow> resource_env \<Rightarrow> bool" where
  "same_reading a b \<longleftrightarrow> re_gpu a = re_gpu b \<and> re_memory a = re_memory b"

lemma reserve_all_from:
  assumes "ty \<in> {ResVram, ResRam}" "0 \<le> gi_total (re_gpu en)" "0 < octets"
    and "j + length ens \<le> places_max" "j \<le> places_disponibles en rm octets rt ty"
    and "rm_policy rm' = rm_policy rm" "octets_reserves rm' ty = octets_reserves rm ty + octets * int j"
    and "\<forall>e \<in> set ens. same_reading e en" "distinct (map re_uuid ens)"
    and "\<forall>e \<in> set ens. re_uuid e \<notin> set (dict_keys (rm_allocations rm'))"
  shows "reserve_all ens (places_request octets rt ty) rm' =
    (let p = places_disponibles en rm octets rt ty - j
     in replicate (min (length ens) p) True @ replicate (length ens - p) False)"
  using assms(4-)
proof (induction ens arbitrary: j rm')
  case Nil
  then show ?case by simp
next
  case (Cons e ens)
  let ?q = "places_request octets rt ty"
  let ?p = "places_disponibles en rm octets rt ty"
  have q: "rq_type ?q \<in> {ResVram, ResRam}" "rq_type ?q = ty" "rq_bytes ?q = octets" using assms(1) by (simp_all add: places_request_def)
  obtain r rm2 where r: "reserve_resources e ?q rm' = (r, rm2)" by fastforce
  have f: "fits po e t b \<longleftrightarrow> fits po en t b" for po t b
    using Cons.prems(5) by (simp add: fits_def same_reading_def)
  have j: "j < places_max" using Cons.prems(1) by simp
  have sum: "octets_reserves rm' ty + octets = octets_reserves rm ty + octets * int (j + 1)"
    using Cons.prems(4) by (simp add: algebra_simps)
  have s: "ao_success r \<longleftrightarrow> j < ?p"
    unfolding reserve_effect(1)[OF q(1) r] q f Cons.prems(3) sum places_iff[OF assms(1,2,3) j, of rm rt] ..
  note eff = reserve_effect(2,3)[OF q(1) r]
  have fresh: "stored_weight ty rm' (re_uuid e) = 0"
    using Cons.prems(7) by (simp add: stored_weight_def get_None_iff[THEN iffD2])
  show ?case
  proof (cases "j < ?p")
    case True
    have "reserve_all ens ?q rm2 =
      (let p = ?p - (j + 1) in replicate (min (length ens) p) True @ replicate (length ens - p) False)"
    proof (rule Cons.IH)
      show "j + 1 + length ens \<le> places_max" "j + 1 \<le> ?p" using Cons.prems(1) True by simp_all
      show "rm_policy rm2 = rm_policy rm" using eff(1) Cons.prems(3) by simp
      show "octets_reserves rm2 ty = octets_reserves rm ty + octets * int (j + 1)"
        using reserve_octets[OF q(1) r, of ty] s True fresh sum q by simp
      show "\<forall>e \<in> set ens. same_reading e en" "distinct (map re_uuid ens)" using Cons.prems(5,6) by simp_all
      show "\<forall>e' \<in> set ens. re_uuid e' \<notin> set (dict_keys (rm_allocations rm2))"
      proof
        fix e' assume e': "e' \<in> set ens"
        then have "re_uuid e' \<noteq> re_uuid e" using Cons.prems(6) by (metis distinct.simps(2) image_eqI list.set_map list.simps(9))
        moreover have "re_uuid e' \<notin> set (dict_keys (rm_allocations rm'))" using e' Cons.prems(7) by simp
        ultimately show "re_uuid e' \<notin> set (dict_keys (rm_allocations rm2))" by (simp add: eff(2) dict_simps)
      qed
    qed
    moreover obtain p where "?p - j = Suc p" using True by (cases "?p - j") simp_all
    moreover from this have "?p - (j + 1) = p" by simp
    ultimately show ?thesis using r s True by (simp add: Let_def)
  next
    case False
    with Cons.prems(2) have jp: "?p = j" by simp
    have "reserve_all ens ?q rm2 =
      (let p = ?p - j in replicate (min (length ens) p) True @ replicate (length ens - p) False)"
      using eff Cons.prems s False reserve_octets[OF q(1) r, of ty]
      by (intro Cons.IH) simp_all
    then show ?thesis using r s False jp by (simp add: Let_def)
  qed
qed

text \<open>
  C34. For tasks of one positive size on the card (VRAM) or in memory (RAM), the number of places the manager
  announces is the number of reservations of that size it grants when at most sixteen are asked one after the
  other under the same reading, each with a fresh identifier: the first so many succeed and every further one is
  refused. For other types it is not: they are checked without the promises.
\<close>

theorem places_exact:
  assumes "ty \<in> {ResVram, ResRam}" and "0 \<le> gi_total (re_gpu en)" and "0 < octets"
    and "length ens \<le> 16" and "\<forall>e \<in> set ens. same_reading e en" and "distinct (map re_uuid ens)"
    and "\<forall>e \<in> set ens. re_uuid e \<notin> set (dict_keys (rm_allocations rm))"
  shows "reserve_all ens (places_request octets rt ty) rm =
    replicate (min (length ens) (places_disponibles en rm octets rt ty)) True @
    replicate (length ens - places_disponibles en rm octets rt ty) False"
  using reserve_all_from[OF assms(1-3), of 0 ens rm rt rm] assms(4-) by (simp add: places_max_def Let_def)

subsection \<open>A card at work\<close>

definition sample_reading :: "string \<Rightarrow> resource_env" where
  "sample_reading u = \<lparr>re_gpu = \<lparr>gi_name = ''rx'', gi_vendor = ''amd'', gi_total = 16, gi_used = 2, gi_free = 14,
       gi_temp = Some 50, gi_hotspot = None, gi_util = None, gi_available = True, gi_measured = True\<rparr>,
     re_memory = poll_memory_now (32, 8), re_uuid = u, re_now = 0\<rparr>"

definition sample_request :: "resource_type \<Rightarrow> int \<Rightarrow> allocation_request" where
  "sample_request ty b = \<lparr>rq_bytes = b, rq_runtime = ''ollama'', rq_type = ty, rq_model = None, rq_priority = 0\<rparr>"

lemma sample_manager_promises:
  "octets_reserves (fold resource_step [Reserve (sample_reading ''a'') (sample_request ResVram 8),
     Reserve (sample_reading ''b'') (sample_request ResVram 8)] (new_resource_manager None True)) ResVram = 8"
  by code_simp

theorem vram_never_overcommitted_witness:
  "10 * vram_promised (fold resource_step [Reserve (sample_reading ''a'') (sample_request ResVram 8),
     Reserve (sample_reading ''b'') (sample_request ResVram 8)] (new_resource_manager None True)) \<le> 9 * 16 \<and>
   octets_reserves (fold resource_step [Reserve (sample_reading ''a'') (sample_request ResVram 8),
     Reserve (sample_reading ''b'') (sample_request ResVram 8)] (new_resource_manager None True)) ResVram = 8"
  using vram_never_overcommitted[where T = 16 and ops = "[Reserve (sample_reading ''a'') (sample_request ResVram 8),
     Reserve (sample_reading ''b'') (sample_request ResVram 8)]" and listens = True, OF _ _ refl]
    sample_manager_promises
  by (simp add: sample_reading_def sample_request_def)

theorem places_exact_witness:
  "reserve_all [sample_reading ''a'', sample_reading ''b'', sample_reading ''c''] (places_request 5 ''ollama'' ResVram)
     (new_resource_manager None True) = [True, True, False]"
proof -
  have p: "places_disponibles (sample_reading ''a'') (new_resource_manager None True) 5 ''ollama'' ResVram = 2" by code_simp
  have "reserve_all [sample_reading ''a'', sample_reading ''b'', sample_reading ''c''] (places_request 5 ''ollama'' ResVram)
      (new_resource_manager None True) =
    replicate (min (length [sample_reading ''a'', sample_reading ''b'', sample_reading ''c''])
      (places_disponibles (sample_reading ''a'') (new_resource_manager None True) 5 ''ollama'' ResVram)) True @
    replicate (length [sample_reading ''a'', sample_reading ''b'', sample_reading ''c''] -
      places_disponibles (sample_reading ''a'') (new_resource_manager None True) 5 ''ollama'' ResVram) False"
    by (rule places_exact) (simp_all add: sample_reading_def same_reading_def new_resource_manager_def)
  then show ?thesis unfolding p by (simp add: numeral_2_eq_2)
qed

text \<open>
  A reservation of another type is checked against the card without the promises on it, and then stored as a
  promise on the card: two of them go past its size.
\<close>

lemma other_types_overcommit:
  "octets_reserves (fold resource_step [Reserve (sample_reading ''a'') (sample_request ResModelWeight 12),
     Reserve (sample_reading ''b'') (sample_request ResModelWeight 12)] (new_resource_manager None True)) ResVram = 24"
  by code_simp

text \<open>A negative size is granted and makes room for promises past the share.\<close>

lemma negative_size_granted:
  "ao_success (fst (reserve_resources (sample_reading ''a'') (sample_request ResVram (-4)) (new_resource_manager None True)))"
  by code_simp

end
