(* ===== verification/Brokerage.thy ===== *)
theory Brokerage
  imports Taxonomy MissionVerification
begin

text \<open>
  Which runtime serves a task: the remote providers (\<^verbatim>\<open>ral/fournisseurs.py\<close>), the broker that sets failing
  ones aside (\<^verbatim>\<open>ral/courtier.py\<close>) and the arbiter between the opinions on one task
  (\<^verbatim>\<open>ral/arbitrage.py\<close>).

  A provider object is an opaque token; what the configuration makes available is an argument of the calls
  that may read it. A measured quota is whether it can be used and its detail. The clock is read once per call.
\<close>

subsection \<open>Providers\<close>

record 'p providers =
  pv_table :: "(string, 'p) dict"
  pv_primed :: bool

definition no_providers :: "'p providers" where
  "no_providers = \<lparr>pv_table = [], pv_primed = False\<rparr>"

datatype provider_error = NamelessProvider

definition enregistrer_fournisseur :: "string \<Rightarrow> 'p \<Rightarrow> 'p providers \<Rightarrow> provider_error + 'p providers" where
  "enregistrer_fournisseur name p pv =
     (if name = [] then Inl NamelessProvider else Inr (pv\<lparr>pv_table := dict_set name p (pv_table pv)\<rparr>))"

definition amorcer_une_fois :: "(string \<times> 'p) option \<Rightarrow> 'p providers \<Rightarrow> 'p providers" where
  "amorcer_une_fois conf pv =
     (if pv_primed pv then pv
      else let pv1 = pv\<lparr>pv_primed := True\<rparr>
           in case conf of None \<Rightarrow> pv1
              | Some (name, p) \<Rightarrow> (case enregistrer_fournisseur name p pv1 of Inl _ \<Rightarrow> pv1 | Inr pv2 \<Rightarrow> pv2))"

definition fournisseur :: "(string \<times> 'p) option \<Rightarrow> string \<Rightarrow> 'p providers \<Rightarrow> 'p option \<times> 'p providers" where
  "fournisseur conf name pv =
     (let pv1 = amorcer_une_fois conf pv in (dict_get (pv_table pv1) (str_lower (str_strip name)), pv1))"

definition fournisseurs :: "(string \<times> 'p) option \<Rightarrow> 'p providers \<Rightarrow> (string, 'p) dict \<times> 'p providers" where
  "fournisseurs conf pv = (let pv1 = amorcer_une_fois conf pv in (pv_table pv1, pv1))"

definition fournisseur_disponible :: "(string \<times> 'p) option \<Rightarrow> string \<Rightarrow> 'p providers \<Rightarrow> bool \<times> 'p providers" where
  "fournisseur_disponible conf name pv = (case fournisseur conf name pv of (p, pv1) \<Rightarrow> (p \<noteq> None, pv1))"

definition reinitialiser_fournisseurs :: "'p providers \<Rightarrow> 'p providers" where
  "reinitialiser_fournisseurs pv = pv\<lparr>pv_table := [], pv_primed := False\<rparr>"

subsection \<open>The broker\<close>

definition seuil_disjoncteur :: nat where
  "seuil_disjoncteur = 3"

definition ouverture_s :: time where
  "ouverture_s = 120"

definition ecarts :: "(cause \<times> time) list" where
  "ecarts = [(Cause_QUOTA, 60), (Cause_FOURNISSEUR, 10), (Cause_RESSOURCE, 10)]"

definition fraicheur_quota_s :: time where
  "fraicheur_quota_s = 60"

datatype etat_fournisseur = EtatDisponible | EtatEcarte | EtatOuvert | EtatSansQuota

record quota_mesure =
  qm_utilisable :: bool
  qm_detail :: string

record fiche =
  fi_echecs :: nat
  fi_ecarte :: time
  fi_ouvert :: time
  fi_cause :: "cause option"
  fi_quota :: "quota_mesure option"
  fi_mesure :: time

definition new_fiche :: fiche where
  "new_fiche = \<lparr>fi_echecs = 0, fi_ecarte = 0, fi_ouvert = 0, fi_cause = None, fi_quota = None, fi_mesure = 0\<rparr>"

datatype raison_ecart = SansRaison | Echecs nat "cause option" | EcartPour "cause option" | QuotaDetail string | QuotaIndisponible

record verdict_courtier =
  vc_fournisseur :: string
  vc_etat :: etat_fournisseur
  vc_dans :: time
  vc_raison :: raison_ecart

definition candidat :: "verdict_courtier \<Rightarrow> bool" where
  "candidat v \<longleftrightarrow> vc_etat v = EtatDisponible"

datatype courtier_event =
    EcarteEvent string cause time nat bool
  | RetabliEvent string

record courtier =
  cr_seuil :: nat
  cr_ouverture :: time
  cr_fiches :: "(string, fiche) dict"
  cr_log :: "courtier_event list"

definition new_courtier :: courtier where
  "new_courtier = \<lparr>cr_seuil = seuil_disjoncteur, cr_ouverture = ouverture_s, cr_fiches = [], cr_log = []\<rparr>"

definition fiche_of :: "courtier \<Rightarrow> string \<Rightarrow> fiche" where
  "fiche_of cr f = dict_get_default (cr_fiches cr) f new_fiche"

definition put_fiche :: "string \<Rightarrow> fiche \<Rightarrow> courtier_event list \<Rightarrow> courtier \<Rightarrow> courtier" where
  "put_fiche f x evs cr = cr\<lparr>cr_fiches := dict_set f x (cr_fiches cr), cr_log := cr_log cr @ evs\<rparr>"

definition signaler_echec :: "time \<Rightarrow> string \<Rightarrow> cause option \<Rightarrow> courtier \<Rightarrow> courtier" where
  "signaler_echec now f c cr =
     (case c of None \<Rightarrow> cr
      | Some k \<Rightarrow> (case map_of ecarts k of None \<Rightarrow> cr
          | Some e \<Rightarrow>
              (let x = fiche_of cr f; n = fi_echecs x + 1; opened = n \<ge> cr_seuil cr;
                   x1 = x\<lparr>fi_echecs := n, fi_cause := Some k, fi_ecarte := max (fi_ecarte x) (now + e)\<rparr>;
                   x2 = (if opened then x1\<lparr>fi_ouvert := now + cr_ouverture cr\<rparr> else x1)
               in put_fiche f x2 [EcarteEvent f k e n opened] cr)))"

definition signaler_succes :: "time \<Rightarrow> string \<Rightarrow> courtier \<Rightarrow> courtier" where
  "signaler_succes now f cr =
     (case dict_get (cr_fiches cr) f of None \<Rightarrow> put_fiche f new_fiche [] cr
      | Some x \<Rightarrow>
          if fi_echecs x = 0 \<and> fi_ouvert x = 0 then cr
          else put_fiche f (x\<lparr>fi_echecs := 0, fi_ecarte := 0, fi_ouvert := 0, fi_cause := None\<rparr>)
            (if fi_ouvert x > now then [RetabliEvent f] else []) cr)"

definition noter_le_quota :: "time \<Rightarrow> string \<Rightarrow> quota_mesure option \<Rightarrow> courtier \<Rightarrow> courtier" where
  "noter_le_quota now f q cr = put_fiche f ((fiche_of cr f)\<lparr>fi_quota := q, fi_mesure := now\<rparr>) [] cr"

definition quota_refuse :: "time \<Rightarrow> fiche \<Rightarrow> bool" where
  "quota_refuse now x = (case fi_quota x of None \<Rightarrow> False
     | Some q \<Rightarrow> now - fi_mesure x < fraicheur_quota_s \<and> \<not> qm_utilisable q)"

definition examiner :: "time \<Rightarrow> string \<Rightarrow> courtier \<Rightarrow> verdict_courtier" where
  "examiner now f cr =
     (case dict_get (cr_fiches cr) f of
        None \<Rightarrow> \<lparr>vc_fournisseur = f, vc_etat = EtatDisponible, vc_dans = 0, vc_raison = SansRaison\<rparr>
      | Some x \<Rightarrow>
          if fi_ouvert x > now then \<lparr>vc_fournisseur = f, vc_etat = EtatOuvert, vc_dans = fi_ouvert x - now,
            vc_raison = Echecs (fi_echecs x) (fi_cause x)\<rparr>
          else if fi_ecarte x > now then \<lparr>vc_fournisseur = f, vc_etat = EtatEcarte, vc_dans = fi_ecarte x - now,
            vc_raison = EcartPour (fi_cause x)\<rparr>
          else if quota_refuse now x then \<lparr>vc_fournisseur = f, vc_etat = EtatSansQuota, vc_dans = 0,
            vc_raison = (case fi_quota x of Some q \<Rightarrow> if qm_detail q = [] then QuotaIndisponible else QuotaDetail (qm_detail q)
              | None \<Rightarrow> QuotaIndisponible)\<rparr>
          else \<lparr>vc_fournisseur = f, vc_etat = EtatDisponible, vc_dans = 0, vc_raison = SansRaison\<rparr>)"

definition choisir :: "time \<Rightarrow> string list \<Rightarrow> courtier \<Rightarrow> string option" where
  "choisir now names cr = List.find (\<lambda>f. candidat (examiner now f cr)) names"

definition etats_fournisseurs :: "time \<Rightarrow> courtier \<Rightarrow> (string, verdict_courtier) dict" where
  "etats_fournisseurs now cr = map (\<lambda>f. (f, examiner now f cr)) (dict_keys (cr_fiches cr))"

subsection \<open>The arbiter\<close>

definition non_choisi :: "string list" where
  "non_choisi = ['''', ''default'', ''auto'', ''any'', ''none'', ''null'']"

definition montee_autorisee :: string where
  "montee_autorisee = ''openrouter''"

definition propre :: "string option \<Rightarrow> string" where
  "propre v = (let t = str_strip (case v of None \<Rightarrow> [] | Some s \<Rightarrow> s) in if str_lower t \<in> set non_choisi then [] else t)"

record proposition_ral =
  pp_source :: string
  pp_runtime :: "string option"
  pp_modele :: "string option"
  pp_monter :: bool

definition propose_un_runtime :: "proposition_ral \<Rightarrow> bool" where
  "propose_un_runtime p \<longleftrightarrow> propre (pp_runtime p) \<noteq> []"

definition propose_un_modele :: "proposition_ral \<Rightarrow> bool" where
  "propose_un_modele p \<longleftrightarrow> propre (pp_modele p) \<noteq> []"

datatype avis_source = DefautExecuteur | SourceNommee string

datatype repli_ral = SansRepli | NonJoignable string string

record decision_ral =
  dr_runtime :: string
  dr_modele :: string
  dr_source_runtime :: avis_source
  dr_source_modele :: avis_source
  dr_repli :: repli_ral
  dr_impossible :: "(string \<times> avis_source) option"
  dr_propositions :: "proposition_ral list"

definition premier_avis :: "(proposition_ral \<Rightarrow> bool) \<Rightarrow> (proposition_ral \<Rightarrow> string option) \<Rightarrow> string
    \<Rightarrow> proposition_ral list \<Rightarrow> string \<times> avis_source" where
  "premier_avis proposes pick dflt ps = (case List.find proposes ps of
       None \<Rightarrow> (dflt, DefautExecuteur)
     | Some p \<Rightarrow> (propre (pick p), SourceNommee (pp_source p)))"

definition monte :: "proposition_ral list \<Rightarrow> proposition_ral option" where
  "monte ps = List.find (\<lambda>p. pp_monter p \<and> propre (pp_runtime p) = montee_autorisee) ps"

definition arbitrer :: "string \<Rightarrow> string \<Rightarrow> bool \<Rightarrow> proposition_ral list \<Rightarrow> decision_ral" where
  "arbitrer defaut_runtime defaut_modele joignable ps =
     (case premier_avis propose_un_runtime pp_runtime defaut_runtime ps of (rt, src) \<Rightarrow>
      (case premier_avis propose_un_modele pp_modele defaut_modele ps of (md, msrc) \<Rightarrow>
       (let up = (if rt \<noteq> montee_autorisee then monte ps else None);
            (rt1, src1, repli) = (case up of None \<Rightarrow> (rt, src, SansRepli)
              | Some p \<Rightarrow> if joignable then (montee_autorisee, SourceNommee (pp_source p), SansRepli)
                  else (rt, src, NonJoignable (pp_source p) rt))
        in \<lparr>dr_runtime = rt1, dr_modele = md, dr_source_runtime = src1, dr_source_modele = msrc, dr_repli = repli,
            dr_impossible = (if rt1 = montee_autorisee \<and> \<not> joignable then Some (rt1, src1) else None),
            dr_propositions = ps\<rparr>)))"

definition avis_text :: "avis_source \<Rightarrow> string" where
  "avis_text a = (case a of DefautExecuteur \<Rightarrow> ''d'' @ [CHR 0xE9] @ ''faut de l'ex'' @ [CHR 0xE9] @ ''cuteur''
     | SourceNommee s \<Rightarrow> s)"

definition decision_dict :: "(repli_ral \<Rightarrow> string) \<Rightarrow> (string \<times> avis_source \<Rightarrow> string) \<Rightarrow> decision_ral \<Rightarrow> metadata" where
  "decision_dict repli_text impossible_text d =
     [(''runtime'', PStr (dr_runtime d)), (''modele'', PStr (dr_modele d)),
      (''source_runtime'', PStr (avis_text (dr_source_runtime d))), (''source_modele'', PStr (avis_text (dr_source_modele d)))]
     @ (if dr_repli d = SansRepli then [] else [(''repli'', PStr (repli_text (dr_repli d)))])
     @ (case dr_impossible d of None \<Rightarrow> [] | Some x \<Rightarrow> [(''impossible'', PStr (impossible_text x))])"

end
