(* ===== verification/Brokerage_Correct.thy ===== *)
theory Brokerage_Correct
  imports Brokerage
begin

text \<open>
  The broker keeps counters and deadlines; what it answers is a function of what happened. The arbiter
  changes an assignment in one way only.
\<close>

subsection \<open>The broker and its history\<close>

datatype courtier_op =
    Echec time string "cause option"
  | Succes time string
  | Quota time string "quota_mesure option"

fun courtier_step :: "courtier_op \<Rightarrow> courtier \<Rightarrow> courtier" where
  "courtier_step (Echec t f c) cr = signaler_echec t f c cr"
| "courtier_step (Succes t f) cr = signaler_succes t f cr"
| "courtier_step (Quota t f q) cr = noter_le_quota t f q cr"

fun succes_de :: "string \<Rightarrow> courtier_op \<Rightarrow> bool" where
  "succes_de f (Succes t g) \<longleftrightarrow> g = f"
| "succes_de f _ \<longleftrightarrow> False"

text \<open>A failure that counts against a provider: its time and how long it sets the provider aside.\<close>

fun incident_de :: "string \<Rightarrow> courtier_op \<Rightarrow> (time \<times> time) option" where
  "incident_de f (Echec t g (Some k)) = (if g = f then map_option (\<lambda>e. (t, e)) (map_of ecarts k) else None)"
| "incident_de f _ = None"

fun quota_de :: "string \<Rightarrow> courtier_op \<Rightarrow> (time \<times> quota_mesure option) option" where
  "quota_de f (Quota t g q) = (if g = f then Some (t, q) else None)"
| "quota_de f _ = None"

definition depuis_succes :: "string \<Rightarrow> courtier_op list \<Rightarrow> courtier_op list" where
  "depuis_succes f ops = rev (takeWhile (\<lambda>op. \<not> succes_de f op) (rev ops))"

definition incidents :: "string \<Rightarrow> courtier_op list \<Rightarrow> (time \<times> time) list" where
  "incidents f ops = List.map_filter (incident_de f) (depuis_succes f ops)"

definition quotas :: "string \<Rightarrow> courtier_op list \<Rightarrow> (time \<times> quota_mesure option) list" where
  "quotas f ops = List.map_filter (quota_de f) ops"

definition sans_quota :: "time \<Rightarrow> (time \<times> quota_mesure option) list \<Rightarrow> bool" where
  "sans_quota now qs \<longleftrightarrow> qs \<noteq> [] \<and> now - fst (last qs) < 60 \<and>
     (\<exists>q. snd (last qs) = Some q \<and> \<not> qm_utilisable q)"

definition etat_histoire :: "time \<Rightarrow> string \<Rightarrow> courtier_op list \<Rightarrow> etat_fournisseur" where
  "etat_histoire now f ops =
     (if 3 \<le> length (incidents f ops) \<and> now < fst (last (incidents f ops)) + 120 then EtatOuvert
      else if \<exists>(t, e) \<in> set (incidents f ops). now < t + e then EtatEcarte
      else if sans_quota now (quotas f ops) then EtatSansQuota
      else EtatDisponible)"

lemma depuis_succes_snoc:
  "depuis_succes f (ops @ [op]) = (if succes_de f op then [] else depuis_succes f ops @ [op])"
  by (simp add: depuis_succes_def)

lemma map_filter_snoc: "List.map_filter g (xs @ [x]) = List.map_filter g xs @ (case g x of None \<Rightarrow> [] | Some y \<Rightarrow> [y])"
  by (simp add: map_filter_def split: option.splits)

lemma incidents_snoc:
  "incidents f (ops @ [op]) = (if succes_de f op then []
     else incidents f ops @ (case incident_de f op of None \<Rightarrow> [] | Some i \<Rightarrow> [i]))"
  by (simp add: incidents_def depuis_succes_snoc map_filter_snoc)

lemma quotas_snoc: "quotas f (ops @ [op]) = quotas f ops @ (case quota_de f op of None \<Rightarrow> [] | Some q \<Rightarrow> [q])"
  by (simp add: quotas_def map_filter_snoc)

text \<open>The record of one provider against its incidents and its measured quotas.\<close>

definition fiche_dit :: "fiche \<Rightarrow> (time \<times> time) list \<Rightarrow> (time \<times> quota_mesure option) list \<Rightarrow> bool" where
  "fiche_dit x is qs \<longleftrightarrow> fi_echecs x = length is \<and>
     fi_ouvert x = (if 3 \<le> length is then fst (last is) + 120 else 0) \<and>
     (\<forall>n \<ge> 0. n < fi_ecarte x \<longleftrightarrow> (\<exists>(t, e) \<in> set is. n < t + e)) \<and>
     fi_quota x = (if qs = [] then None else snd (last qs)) \<and>
     fi_mesure x = (if qs = [] then 0 else fst (last qs))"

definition courtier_dit :: "courtier_op list \<Rightarrow> courtier \<Rightarrow> bool" where
  "courtier_dit ops cr \<longleftrightarrow> cr_seuil cr = 3 \<and> cr_ouverture cr = 120 \<and>
     (\<forall>f. fiche_dit (fiche_of cr f) (incidents f ops) (quotas f ops))"

lemma fiche_of_put [simp]: "fiche_of (put_fiche f x evs cr) g = (if g = f then x else fiche_of cr g)"
  by (simp add: fiche_of_def put_fiche_def)

lemma courtier_put [simp]: "cr_seuil (put_fiche f x evs cr) = cr_seuil cr" "cr_ouverture (put_fiche f x evs cr) = cr_ouverture cr"
  by (simp_all add: put_fiche_def)

lemma fiche_dit_new: "fiche_dit new_fiche [] []"
  by (simp add: fiche_dit_def new_fiche_def)

lemma courtier_dit_put:
  assumes "courtier_dit ops cr" "fiche_dit x (incidents f (ops @ [op])) (quotas f (ops @ [op]))"
    and "\<And>g. g \<noteq> f \<Longrightarrow> \<not> succes_de g op \<and> incident_de g op = None \<and> quota_de g op = None"
  shows "courtier_dit (ops @ [op]) (put_fiche f x evs cr)"
  unfolding courtier_dit_def
proof (intro conjI allI)
  show "cr_seuil (put_fiche f x evs cr) = 3" "cr_ouverture (put_fiche f x evs cr) = 120"
    using assms(1) by (simp_all add: courtier_dit_def)
  show "fiche_dit (fiche_of (put_fiche f x evs cr) g) (incidents g (ops @ [op])) (quotas g (ops @ [op]))" for g
  proof (cases "g = f")
    case True
    then show ?thesis using assms(2) by simp
  next
    case False
    with assms(3)[OF False] have "incidents g (ops @ [op]) = incidents g ops" "quotas g (ops @ [op]) = quotas g ops"
      by (simp_all add: incidents_snoc quotas_snoc)
    with assms(1) False show ?thesis by (simp add: courtier_dit_def)
  qed
qed

lemma courtier_dit_same:
  assumes "courtier_dit ops cr"
    and "\<And>g. incidents g (ops @ [op]) = incidents g ops \<and> quotas g (ops @ [op]) = quotas g ops"
  shows "courtier_dit (ops @ [op]) cr"
  using assms by (simp add: courtier_dit_def)

lemma fiche_dit_echec:
  assumes "fiche_dit x is qs"
  shows "fiche_dit (if 3 \<le> fi_echecs x + 1
      then x\<lparr>fi_echecs := fi_echecs x + 1, fi_cause := Some k, fi_ecarte := max (fi_ecarte x) (t + e), fi_ouvert := t + 120\<rparr>
      else x\<lparr>fi_echecs := fi_echecs x + 1, fi_cause := Some k, fi_ecarte := max (fi_ecarte x) (t + e)\<rparr>)
    (is @ [(t, e)]) qs"
  using assms unfolding fiche_dit_def by (auto simp: less_max_iff_disj)

lemma courtier_step_dit: "courtier_dit ops cr \<Longrightarrow> courtier_dit (ops @ [op]) (courtier_step op cr)"
proof -
  assume inv: "courtier_dit ops cr"
  then have f: "fiche_dit (fiche_of cr g) (incidents g ops) (quotas g ops)" for g by (simp add: courtier_dit_def)
  from inv have par: "cr_seuil cr = 3" "cr_ouverture cr = 120" by (simp_all add: courtier_dit_def)
  show ?thesis
  proof (cases op)
    case (Echec t g c)
    show ?thesis
    proof (cases "\<exists>k e. c = Some k \<and> map_of ecarts k = Some e")
      case True
      then obtain k e where k: "c = Some k" "map_of ecarts k = Some e" by (elim exE conjE)
      from fiche_dit_echec[OF f[of g], where k = k and t = t and e = e] k Echec inv par show ?thesis
        by (auto simp: signaler_echec_def Let_def incidents_snoc quotas_snoc intro!: courtier_dit_put)
    next
      case False
      then have "courtier_step op cr = cr" using Echec by (auto simp: signaler_echec_def split: option.splits)
      moreover have "incident_de h op = None \<and> quota_de h op = None \<and> \<not> succes_de h op" for h
        using False Echec by (cases c) auto
      ultimately show ?thesis using inv by (auto simp: incidents_snoc quotas_snoc intro!: courtier_dit_same)
    qed
  next
    case (Succes t g)
    show ?thesis
    proof (cases "dict_get (cr_fiches cr) g")
      case None
      then have "fiche_of cr g = new_fiche" by (simp add: fiche_of_def dict_get_default_def)
      with f[of g] have "fiche_dit new_fiche (incidents g (ops @ [op])) (quotas g (ops @ [op]))"
        using Succes by (simp add: incidents_snoc quotas_snoc fiche_dit_def new_fiche_def)
      with Succes None inv show ?thesis by (auto simp: signaler_succes_def intro!: courtier_dit_put)
    next
      case (Some x)
      then have x: "fiche_of cr g = x" by (simp add: fiche_of_def dict_get_default_def)
      show ?thesis
      proof (cases "fi_echecs x = 0 \<and> fi_ouvert x = 0")
        case True
        with f[of g] x have "incidents g ops = []" by (simp add: fiche_dit_def)
        with True Succes Some inv show ?thesis
          by (auto simp: signaler_succes_def incidents_snoc quotas_snoc intro!: courtier_dit_same)
      next
        case False
        from f[of g] x have "fiche_dit (x\<lparr>fi_echecs := 0, fi_ecarte := 0, fi_ouvert := 0, fi_cause := None\<rparr>)
            (incidents g (ops @ [op])) (quotas g (ops @ [op]))"
          using Succes by (simp add: incidents_snoc quotas_snoc fiche_dit_def)
        with False Succes Some inv show ?thesis
          by (auto simp: signaler_succes_def simp del: of_nat_0 intro!: courtier_dit_put)
      qed
    qed
  next
    case (Quota t g q)
    from f[of g] have "fiche_dit ((fiche_of cr g)\<lparr>fi_quota := q, fi_mesure := t\<rparr>)
        (incidents g (ops @ [op])) (quotas g (ops @ [op]))"
      using Quota by (simp add: incidents_snoc quotas_snoc fiche_dit_def)
    with Quota inv show ?thesis by (auto simp: noter_le_quota_def intro!: courtier_dit_put)
  qed
qed

lemma courtier_reached: "courtier_dit ops (fold courtier_step ops new_courtier)"
proof (induction ops rule: rev_induct)
  case Nil
  show ?case
    by (simp add: courtier_dit_def new_courtier_def seuil_disjoncteur_def ouverture_s_def fiche_of_def
        dict_get_default_def fiche_dit_new incidents_def depuis_succes_def quotas_def map_filter_def)
next
  case (snoc op ops)
  then show ?case using courtier_step_dit by simp
qed

lemma examiner_etat:
  assumes "0 \<le> now"
  shows "vc_etat (examiner now f cr) =
    (if fi_ouvert (fiche_of cr f) > now then EtatOuvert else if fi_ecarte (fiche_of cr f) > now then EtatEcarte
     else if quota_refuse now (fiche_of cr f) then EtatSansQuota else EtatDisponible)"
  using assms by (auto simp: examiner_def fiche_of_def dict_get_default_def new_fiche_def quota_refuse_def split: option.splits)

lemma examiner_histoire:
  assumes "0 \<le> now"
  shows "vc_etat (examiner now f (fold courtier_step ops new_courtier)) = etat_histoire now f ops"
proof -
  let ?x = "fiche_of (fold courtier_step ops new_courtier) f"
  from courtier_reached[of ops] have x: "fiche_dit ?x (incidents f ops) (quotas f ops)" by (simp add: courtier_dit_def)
  have "now < fi_ouvert ?x \<longleftrightarrow> 3 \<le> length (incidents f ops) \<and> now < fst (last (incidents f ops)) + 120"
    using x assms by (auto simp: fiche_dit_def)
  moreover have "now < fi_ecarte ?x \<longleftrightarrow> (\<exists>(t, e) \<in> set (incidents f ops). now < t + e)"
    using x assms by (simp add: fiche_dit_def)
  moreover have "quota_refuse now ?x \<longleftrightarrow> sans_quota now (quotas f ops)"
    using x by (auto simp: fiche_dit_def quota_refuse_def sans_quota_def fraicheur_quota_s_def split: option.splits)
  ultimately show ?thesis unfolding examiner_etat[OF assms] etat_histoire_def by simp
qed

text \<open>
  C35. What the broker answers about a provider is what its history says: the circuit is open exactly while
  the last of three or more failures that are its own fault, with no success since, is less than two minutes
  old; it is set aside exactly while one such failure still counts; and it lacks quota exactly when the last
  measure is fresh and negative; where several hold, the answer is the first in the order of the code, and what
  is not so excluded is available. A choice is the first candidate that is available by this history.
\<close>

theorem courtier_refines_history:
  assumes "0 \<le> now"
  shows "vc_etat (examiner now f (fold courtier_step ops new_courtier)) = etat_histoire now f ops \<and>
    choisir now names (fold courtier_step ops new_courtier) =
      List.find (\<lambda>g. etat_histoire now g ops = EtatDisponible) names"
  using examiner_histoire[OF assms] by (simp add: choisir_def candidat_def)

theorem courtier_refines_history_witness:
  "vc_etat (examiner 10 ''or'' (fold courtier_step [Echec 1 ''or'' (Some Cause_QUOTA), Echec 2 ''or'' (Some Cause_MODELE),
     Echec 3 ''or'' (Some Cause_FOURNISSEUR), Echec 4 ''or'' (Some Cause_QUOTA)] new_courtier)) = EtatOuvert"
proof -
  let ?ops = "[Echec 1 ''or'' (Some Cause_QUOTA), Echec 2 ''or'' (Some Cause_MODELE),
     Echec 3 ''or'' (Some Cause_FOURNISSEUR), Echec 4 ''or'' (Some Cause_QUOTA)]"
  have "etat_histoire 10 ''or'' ?ops = EtatOuvert"
    by (simp add: etat_histoire_def incidents_def depuis_succes_def map_filter_def ecarts_def)
  with courtier_refines_history[where now = 10 and f = "''or''" and ops = ?ops and names = "[]"] show ?thesis by simp
qed

text \<open>A cause that is not the fault of a provider changes nothing.\<close>

lemma other_causes_ignored: "map_of ecarts k = None \<Longrightarrow> signaler_echec now f (Some k) cr = cr"
  by (simp add: signaler_echec_def)

subsection \<open>The arbiter\<close>

definition assigne :: "string \<Rightarrow> proposition_ral list \<Rightarrow> string" where
  "assigne dflt ps = fst (premier_avis propose_un_runtime pp_runtime dflt ps)"

text \<open>An assignment is only changed to rise to the cloud, by a proposition with this right, when it answers.\<close>

lemma arbiter_exact:
  "(dr_runtime (arbitrer dr dm up ps) \<noteq> assigne dr ps \<longleftrightarrow> up \<and> assigne dr ps \<noteq> montee_autorisee \<and> monte ps \<noteq> None) \<and>
   (dr_runtime (arbitrer dr dm up ps) \<noteq> assigne dr ps \<longrightarrow> dr_runtime (arbitrer dr dm up ps) = montee_autorisee) \<and>
   (dr_impossible (arbitrer dr dm up ps) \<noteq> None \<longleftrightarrow> \<not> up \<and> assigne dr ps = montee_autorisee) \<and>
   (dr_repli (arbitrer dr dm up ps) \<noteq> SansRepli \<longleftrightarrow> \<not> up \<and> assigne dr ps \<noteq> montee_autorisee \<and> monte ps \<noteq> None)"
  by (auto simp: arbitrer_def assigne_def Let_def split: prod.splits option.splits)

text \<open>A provider stored under a name with capitals or blanks is never found again.\<close>

lemma capital_provider_lost:
  "fst (fournisseur None ''Groq'' (case enregistrer_fournisseur ''Groq'' p no_providers of Inr pv \<Rightarrow> pv)) = None"
  by code_simp

end
