(* ===== verification/Snapshots.thy ===== *)
theory Snapshots
  imports Approvals
begin

text \<open>
  The tasks of the projects (\<^verbatim>\<open>tasks/task_manager.py\<close>) and the snapshots of the state of the application,
  its tasks and its workflow runs (\<^verbatim>\<open>core/snapshot_manager.py\<close>).

  A table is an association list keyed by the primary key; a column that holds JSON holds the value. A snapshot
  writes a row column by column into a dictionary (here a record of its entries) and a restoration assigns the
  columns one by one from it. A snapshot file holds its payload or does not parse; its name, a timestamp with a random suffix, is an
  argument. Notes of the history are values. The text of an automatic reason is a function of the step count.
\<close>

subsection \<open>Tasks\<close>

datatype task_state = TkTodo | TkInProgress | TkBlocked | TkAwaitingValidation | TkInTest | TkDone | TkCancelled
  | TkReversible | TkPartiallySuccessful | TkToResume

datatype task_importance = TkLow | TkMedium | TkHigh | TkUrgent

definition task_states :: "(string \<times> task_state) list" where
  "task_states = [(''todo'', TkTodo), (''in_progress'', TkInProgress), (''blocked'', TkBlocked),
     (''awaiting_validation'', TkAwaitingValidation), (''in_test'', TkInTest), (''done'', TkDone),
     (''cancelled'', TkCancelled), (''reversible'', TkReversible),
     (''partially_successful'', TkPartiallySuccessful), (''to_resume'', TkToResume)]"

definition task_importances :: "(string \<times> task_importance) list" where
  "task_importances = [(''low'', TkLow), (''medium'', TkMedium), (''high'', TkHigh), (''urgent'', TkUrgent)]"

datatype task_note =
    TaskCreated
  | ProjectChanged "string option" string
  | StatusChanged task_state task_state
  | FilesTouched "string list"
  | TestsRecorded metadata
  | FreeNote string

record task_row =
  tk_project :: "string option"
  tk_title :: string
  tk_description :: string
  tk_objective :: string
  tk_status :: task_state
  tk_priority :: task_importance
  tk_agent :: "string option"
  tk_created :: time
  tk_updated :: time
  tk_models :: "string list"
  tk_files :: "string list"
  tk_tests :: "metadata option"
  tk_history :: "(time \<times> task_note) list"

type_synonym task_table = "(string, task_row) dict"

datatype task_error = InvalidTaskStatus string | InvalidTaskPriority string

definition append_history :: "time \<Rightarrow> task_note \<Rightarrow> task_row \<Rightarrow> task_row" where
  "append_history now n t = t\<lparr>tk_history := tk_history t @ [(now, n)]\<rparr>"

definition merge_unique :: "string list \<Rightarrow> string list \<Rightarrow> string list" where
  "merge_unique old new = fold (\<lambda>x acc. if x \<in> set acc then acc else acc @ [x]) new old"

definition create_task_row :: "time \<Rightarrow> string \<Rightarrow> string \<Rightarrow> string \<Rightarrow> string \<Rightarrow> string \<Rightarrow> string option \<Rightarrow> string option
    \<Rightarrow> task_table \<Rightarrow> (task_error + string) \<times> task_table" where
  "create_task_row now uuid title descr obj priority agent project tab =
     (case map_of task_importances priority of None \<Rightarrow> (Inl (InvalidTaskPriority priority), tab)
      | Some p \<Rightarrow> (Inr uuid, dict_set uuid
          \<lparr>tk_project = project, tk_title = title, tk_description = descr, tk_objective = obj, tk_status = TkTodo,
           tk_priority = p, tk_agent = agent, tk_created = now, tk_updated = now, tk_models = [], tk_files = [],
           tk_tests = None, tk_history = [(now, TaskCreated)]\<rparr> tab))"

definition list_task_rows :: "string option \<Rightarrow> string option \<Rightarrow> task_table \<Rightarrow> task_error + (string \<times> task_row) list" where
  "list_task_rows status project tab =
     (let rows = sort_key (\<lambda>(i, t). - tk_created t) tab;
          of_project = filter (\<lambda>(i, t). project = None \<or> tk_project t = project)
      in case status of None \<Rightarrow> Inr (of_project rows)
         | Some s \<Rightarrow> (case map_of task_states s of None \<Rightarrow> Inl (InvalidTaskStatus s)
             | Some x \<Rightarrow> Inr (of_project (filter (\<lambda>(i, t). tk_status t = x) rows))))"

definition moved_to_project :: "time \<Rightarrow> string option \<Rightarrow> task_row \<Rightarrow> task_row" where
  "moved_to_project now project t = (case project of None \<Rightarrow> t
     | Some p \<Rightarrow> if Some p = tk_project t then t
         else (append_history now (ProjectChanged (tk_project t) p) t)\<lparr>tk_project := Some p\<rparr>)"

definition moved_to_status :: "time \<Rightarrow> task_state \<Rightarrow> task_row \<Rightarrow> task_row" where
  "moved_to_status now x t = (if x = tk_status t then t
     else (append_history now (StatusChanged (tk_status t) x) t)\<lparr>tk_status := x\<rparr>)"

definition recorded_work :: "time \<Rightarrow> string list \<Rightarrow> string list \<Rightarrow> metadata option \<Rightarrow> string option \<Rightarrow> task_row \<Rightarrow> task_row" where
  "recorded_work now files models tests note_text t =
     (let t1 = (if files = [] then t
            else append_history now (FilesTouched files) (t\<lparr>tk_files := merge_unique (tk_files t) files\<rparr>));
          t2 = (if models = [] then t1 else t1\<lparr>tk_models := merge_unique (tk_models t1) models\<rparr>);
          t3 = (case tests of None \<Rightarrow> t2 | Some d \<Rightarrow> append_history now (TestsRecorded d) (t2\<lparr>tk_tests := Some d\<rparr>));
          t4 = (if text_true note_text then append_history now (FreeNote (the note_text)) t3 else t3)
      in t4\<lparr>tk_updated := now\<rparr>)"

definition update_task_row :: "time \<Rightarrow> string \<Rightarrow> string option \<Rightarrow> string list \<Rightarrow> string list \<Rightarrow> metadata option \<Rightarrow> string option
    \<Rightarrow> string option \<Rightarrow> task_table \<Rightarrow> (task_error + bool) \<times> task_table" where
  "update_task_row now i status files models tests note_text project tab =
     (case dict_get tab i of None \<Rightarrow> (Inr False, tab)
      | Some t \<Rightarrow>
          (let t1 = moved_to_project now project t;
               finish = (\<lambda>t2. (Inr True, dict_set i (recorded_work now files models tests note_text t2) tab))
           in case status of None \<Rightarrow> finish t1
              | Some s \<Rightarrow> (case map_of task_states s of None \<Rightarrow> (Inl (InvalidTaskStatus s), tab)
                  | Some x \<Rightarrow> finish (moved_to_status now x t1))))"

definition delete_task_row :: "string \<Rightarrow> task_table \<Rightarrow> bool \<times> task_table" where
  "delete_task_row i tab = (case dict_get tab i of None \<Rightarrow> (False, tab) | Some _ \<Rightarrow> (True, dict_del i tab))"

subsection \<open>Snapshots\<close>

text \<open>
  A row as the payload writes it: one entry per column, the dates as their ISO text. \<open>isoformat\<close> writes a date
  with all its digits and \<open>fromisoformat\<close> reads it back.
\<close>

datatype iso_text = Iso time

definition isoformat :: "time \<Rightarrow> iso_text" where
  "isoformat t = Iso t"

fun fromisoformat :: "iso_text \<Rightarrow> time" where
  "fromisoformat (Iso t) = t"

record task_dict =
  td_id :: string
  td_project :: "string option"
  td_title :: string
  td_description :: string
  td_objective :: string
  td_status :: task_state
  td_priority :: task_importance
  td_agent :: "string option"
  td_created :: iso_text
  td_updated :: iso_text
  td_models :: "string list"
  td_files :: "string list"
  td_tests :: "metadata option"
  td_history :: "(time \<times> task_note) list"

record run_dict =
  rd_id :: string
  rd_workflow :: string
  rd_project :: "string option"
  rd_status :: wf_status
  rd_results :: step_results_map
  rd_pending :: "string list"
  rd_approved :: "string list"
  rd_created :: iso_text
  rd_updated :: iso_text

definition task_to_dict :: "string \<times> task_row \<Rightarrow> task_dict" where
  "task_to_dict = (\<lambda>(i, t). \<lparr>td_id = i, td_project = tk_project t, td_title = tk_title t,
     td_description = tk_description t, td_objective = tk_objective t, td_status = tk_status t,
     td_priority = tk_priority t, td_agent = tk_agent t, td_created = isoformat (tk_created t),
     td_updated = isoformat (tk_updated t), td_models = tk_models t, td_files = tk_files t, td_tests = tk_tests t,
     td_history = tk_history t\<rparr>)"

definition run_to_dict :: "string \<times> wf_record \<Rightarrow> run_dict" where
  "run_to_dict = (\<lambda>(i, r). \<lparr>rd_id = i, rd_workflow = wr_workflow r, rd_project = wr_project r, rd_status = wr_status r,
     rd_results = wr_results r, rd_pending = wr_pending r, rd_approved = wr_approved r,
     rd_created = isoformat (wr_created r), rd_updated = isoformat (wr_updated r)\<rparr>)"

record snapshot_payload =
  sp_id :: string
  sp_created :: time
  sp_reason :: string
  sp_context :: metadata
  sp_tasks :: "task_dict list"
  sp_runs :: "run_dict list"
  sp_files :: "string list"

datatype snapshot_file = Payload snapshot_payload | CorruptFile

record app_state =
  as_tasks :: task_table
  as_runs :: wf_table
  as_snapshots :: "(string, snapshot_file) dict"

datatype snapshot_error = NoSnapshot string | CorruptSnapshot string

record snapshot_info =
  si_id :: string
  si_created :: time
  si_reason :: string
  si_tasks :: nat
  si_runs :: nat
  si_context :: metadata

definition info_of :: "snapshot_payload \<Rightarrow> snapshot_info" where
  "info_of p = \<lparr>si_id = sp_id p, si_created = sp_created p, si_reason = sp_reason p,
     si_tasks = length (sp_tasks p), si_runs = length (sp_runs p), si_context = sp_context p\<rparr>"

definition payload_of :: "time \<Rightarrow> string \<Rightarrow> string \<Rightarrow> metadata \<Rightarrow> app_state \<Rightarrow> snapshot_payload" where
  "payload_of now i reason context st = \<lparr>sp_id = i, sp_created = now, sp_reason = reason, sp_context = context,
     sp_tasks = map task_to_dict (as_tasks st), sp_runs = map run_to_dict (as_runs st),
     sp_files = sort (remdups (concat (map td_files (map task_to_dict (as_tasks st)))))\<rparr>"

definition create_snapshot :: "time \<Rightarrow> string \<Rightarrow> string \<Rightarrow> metadata \<Rightarrow> app_state \<Rightarrow> snapshot_info \<times> app_state" where
  "create_snapshot now i reason context st =
     (let p = payload_of now i reason context st
      in (info_of p, st\<lparr>as_snapshots := dict_set i (Payload p) (as_snapshots st)\<rparr>))"

fun readable_payload :: "string \<times> snapshot_file \<Rightarrow> snapshot_payload option" where
  "readable_payload (i, Payload p) = Some p"
| "readable_payload (i, CorruptFile) = None"

definition list_snapshots :: "app_state \<Rightarrow> snapshot_info list" where
  "list_snapshots st = sort_key (\<lambda>s. - si_created s) (map info_of (List.map_filter readable_payload (as_snapshots st)))"

definition load_snapshot :: "string \<Rightarrow> app_state \<Rightarrow> snapshot_error + snapshot_payload" where
  "load_snapshot i st = (case dict_get (as_snapshots st) i of None \<Rightarrow> Inl (NoSnapshot i)
     | Some CorruptFile \<Rightarrow> Inl (CorruptSnapshot i) | Some (Payload p) \<Rightarrow> Inr p)"

record restore_preview =
  rv_id :: string
  rv_restored :: nat
  rv_overwritten :: "string list"
  rv_created :: "string list"
  rv_absent :: "string list"
  rv_runs :: nat

definition preview_restore :: "string \<Rightarrow> app_state \<Rightarrow> snapshot_error + restore_preview" where
  "preview_restore i st = bind_sum (load_snapshot i st) (\<lambda>p.
     let saved = remdups (map td_id (sp_tasks p)); current = remdups (dict_keys (as_tasks st))
     in Inr \<lparr>rv_id = i, rv_restored = length saved, rv_overwritten = sort (filter (\<lambda>x. x \<in> set current) saved),
             rv_created = sort (filter (\<lambda>x. x \<notin> set current) saved),
             rv_absent = sort (filter (\<lambda>x. x \<notin> set saved) current), rv_runs = length (sp_runs p)\<rparr>)"

record restore_result =
  ro_restored :: bool
  ro_id :: string
  ro_verdict :: gate_verdict
  ro_reason :: "gate_reason option"
  ro_tasks :: nat
  ro_runs :: nat

datatype restore_failure = SnapshotUnusable snapshot_error | GateRaised gate_failure

definition restore_request :: "string \<Rightarrow> string option \<Rightarrow> action_request" where
  "restore_request i project = \<lparr>aq_type = ''data_migration'', aq_description = ''Restore application state from snapshot '' @ i,
     aq_target = None, aq_agent = ''snapshot_manager'', aq_task = None, aq_project = project,
     aq_discriminants = [(''snapshot'', i)]\<rparr>"

text \<open>
  What \<^verbatim>\<open>Task(id=...)\<close> and \<^verbatim>\<open>WorkflowRunRecord(id=...)\<close> hold before their columns are assigned: the defaults of
  the columns, and a placeholder in the columns that have none.
\<close>

definition unset_task :: task_row where
  "unset_task = \<lparr>tk_project = None, tk_title = [], tk_description = [], tk_objective = [], tk_status = TkTodo,
     tk_priority = TkMedium, tk_agent = None, tk_created = 0, tk_updated = 0, tk_models = [], tk_files = [],
     tk_tests = None, tk_history = []\<rparr>"

definition unset_run :: wf_record where
  "unset_run = \<lparr>wr_workflow = [], wr_project = None, wr_status = RunCompleted, wr_results = [], wr_pending = [],
     wr_approved = [], wr_created = 0, wr_updated = 0\<rparr>"

definition write_task :: "task_dict \<Rightarrow> task_table \<Rightarrow> task_table" where
  "write_task d tab =
     (let t = (case dict_get tab (td_id d) of None \<Rightarrow> unset_task | Some t \<Rightarrow> t)
      in dict_set (td_id d) (t\<lparr>tk_project := td_project d, tk_title := td_title d, tk_description := td_description d,
           tk_objective := td_objective d, tk_status := td_status d, tk_priority := td_priority d,
           tk_agent := td_agent d, tk_created := fromisoformat (td_created d),
           tk_updated := fromisoformat (td_updated d), tk_models := td_models d, tk_files := td_files d,
           tk_tests := td_tests d, tk_history := td_history d\<rparr>) tab)"

definition write_run :: "run_dict \<Rightarrow> wf_table \<Rightarrow> wf_table" where
  "write_run d tab =
     (let r = (case dict_get tab (rd_id d) of None \<Rightarrow> unset_run | Some r \<Rightarrow> r)
      in dict_set (rd_id d) (r\<lparr>wr_workflow := rd_workflow d, wr_project := rd_project d, wr_status := rd_status d,
           wr_results := rd_results d, wr_pending := rd_pending d, wr_approved := rd_approved d,
           wr_created := fromisoformat (rd_created d), wr_updated := fromisoformat (rd_updated d)\<rparr>) tab)"

definition written_back :: "snapshot_payload \<Rightarrow> app_state \<Rightarrow> app_state" where
  "written_back p st = st\<lparr>as_tasks := fold write_task (sp_tasks p) (as_tasks st),
     as_runs := fold write_run (sp_runs p) (as_runs st)\<rparr>"

definition restore_snapshot :: "consent_env \<Rightarrow> aegis_engine \<Rightarrow> project_store \<Rightarrow> string \<Rightarrow> string option
    \<Rightarrow> app_state \<times> gate_state \<Rightarrow> (restore_failure + restore_result) \<times> app_state \<times> gate_state" where
  "restore_snapshot cn ae ps i project s =
     (case s of (st, gt) \<Rightarrow>
       (case load_snapshot i st of Inl e \<Rightarrow> (Inl (SnapshotUnusable e), st, gt)
        | Inr p \<Rightarrow>
            (case aegis_evaluate cn ae ps (restore_request i project) gt of
               (Inl x, gt') \<Rightarrow> (Inl (GateRaised x), st, gt')
             | (Inr dn, gt') \<Rightarrow>
                 if ad_verdict dn \<noteq> GateAllow
                 then (Inr \<lparr>ro_restored = False, ro_id = i, ro_verdict = ad_verdict dn, ro_reason = Some (ad_reason dn),
                            ro_tasks = 0, ro_runs = 0\<rparr>, st, gt')
                 else (Inr \<lparr>ro_restored = True, ro_id = i, ro_verdict = GateAllow, ro_reason = None,
                            ro_tasks = length (sp_tasks p), ro_runs = length (sp_runs p)\<rparr>, written_back p st, gt'))))"

definition snapshots_to_prune :: "int \<Rightarrow> snapshot_info list \<Rightarrow> snapshot_info list" where
  "snapshots_to_prune keep ss = (if keep \<ge> 0 then drop (nat keep) ss else drop (length ss - nat (- keep)) ss)"

text \<open>A file that cannot be removed is skipped.\<close>

definition prune_snapshots :: "(string \<Rightarrow> bool) \<Rightarrow> int \<Rightarrow> app_state \<Rightarrow> string list \<times> app_state" where
  "prune_snapshots removable keep st =
     (let gone = filter removable (map si_id (snapshots_to_prune keep (list_snapshots st)))
      in (gone, st\<lparr>as_snapshots := fold dict_del gone (as_snapshots st)\<rparr>))"

record step_counter =
  sc_every :: int
  sc_steps :: nat

definition count_step :: "(nat \<Rightarrow> string) \<Rightarrow> time \<Rightarrow> string \<Rightarrow> string \<Rightarrow> metadata \<Rightarrow> step_counter \<times> app_state
    \<Rightarrow> snapshot_info option \<times> step_counter \<times> app_state" where
  "count_step auto_reason now i reason context s =
     (case s of (sc, st) \<Rightarrow>
       if sc_every sc \<le> 0 then (None, sc, st)
       else let n = sc_steps sc + 1; sc' = sc\<lparr>sc_steps := n\<rparr>
            in if int n mod sc_every sc \<noteq> 0 then (None, sc', st)
               else (case create_snapshot now i (if reason = [] then auto_reason n else reason) context st of
                   (info, st') \<Rightarrow> (Some info, sc', st')))"

end
