(* ===== verification/Checkpoints.thy ===== *)
theory Checkpoints
  imports Snapshots
begin

text \<open>
  Points of return: the verified copy of a workspace (\<^verbatim>\<open>checkpoints/repli_fichiers.py\<close>) and the point that
  joins files and state and is restored through the gate (\<^verbatim>\<open>checkpoints/checkpoint.py\<close>).

  A workspace is a tree of files and directories under its resolved root. Writing and removing a file may be
  refused by the system (a predicate on paths); a name that is a file where a directory is needed, or the
  reverse, behaves as \<^verbatim>\<open>mkdir\<close> and \<^verbatim>\<open>shutil.copy2\<close> do. Git and what a repository holds are a parameter:
  the record \<open>git_ops\<close> of the calls of \<^verbatim>\<open>checkpoints/git_ref.py\<close>, which only run the external program.
\<close>

subsection \<open>Workspaces\<close>

record file_entry =
  fe_content :: string
  fe_readable :: bool

record tree =
  tr_files :: "(path, file_entry) dict"
  tr_dirs :: "path list"

definition visible :: "path \<Rightarrow> bool" where
  "visible p \<longleftrightarrow> list_all (\<lambda>part. part \<notin> set ignored_dirs) p"

definition tree_files :: "tree \<Rightarrow> (path \<times> file_entry) list" where
  "tree_files t = filter (\<lambda>(p, e). visible p) (sort_key fst (tr_files t))"

datatype repli_error =
    CopyTooBig nat nat
  | Unreadable path
  | NoManifest
  | DamagedCopy "path list"
  | WriteFailed path

record copy_of_tree =
  cp_manifest :: "(path, string) dict option"
  cp_content :: "(path, string) dict"

definition taille :: "tree \<Rightarrow> nat" where
  "taille t = sum_list (map (\<lambda>(p, e). length (fe_content e)) (tree_files t))"

definition too_big :: "nat option \<Rightarrow> tree \<Rightarrow> bool" where
  "too_big plafond t = (case plafond of None \<Rightarrow> False | Some m \<Rightarrow> m < taille t)"

definition copier :: "(string \<Rightarrow> string) \<Rightarrow> nat option \<Rightarrow> tree \<Rightarrow> repli_error + copy_of_tree" where
  "copier digest plafond t =
     (if too_big plafond t then Inl (CopyTooBig (taille t) (the plafond))
      else (case List.find (\<lambda>(p, e). \<not> fe_readable e) (tree_files t) of
          Some (p, e) \<Rightarrow> Inl (Unreadable p)
        | None \<Rightarrow> Inr \<lparr>cp_manifest = Some (map (\<lambda>(p, e). (p, digest (fe_content e))) (tree_files t)),
            cp_content = map (\<lambda>(p, e). (p, fe_content e)) (tree_files t)\<rparr>))"

definition lire_manifeste :: "copy_of_tree \<Rightarrow> repli_error + (path, string) dict" where
  "lire_manifeste c = (case cp_manifest c of None \<Rightarrow> Inl NoManifest | Some m \<Rightarrow> Inr m)"

definition verifier :: "(string \<Rightarrow> string) \<Rightarrow> copy_of_tree \<Rightarrow> repli_error + path list" where
  "verifier digest c = bind_sum (lire_manifeste c) (\<lambda>m.
     Inr (sort_key slash_join (map fst (filter (\<lambda>(p, h). map_option digest (dict_get (cp_content c) p) \<noteq> Some h) m))))"

record ecart =
  ec_restaurer :: "path list"
  ec_recreer :: "path list"
  ec_supprimer :: "path list"

definition ecart_vide :: "ecart \<Rightarrow> bool" where
  "ecart_vide e \<longleftrightarrow> ec_restaurer e = [] \<and> ec_recreer e = [] \<and> ec_supprimer e = []"

definition ecart_copie :: "(string \<Rightarrow> string) \<Rightarrow> tree \<Rightarrow> copy_of_tree \<Rightarrow> repli_error + ecart" where
  "ecart_copie digest t c = bind_sum (lire_manifeste c) (\<lambda>m.
     let presents = tree_files t;
         compared = filter (\<lambda>(p, h). dict_get presents p \<noteq> None) m
     in case List.find (\<lambda>(p, h). \<not> fe_readable (the (dict_get presents p))) compared of
          Some (p, h) \<Rightarrow> Inl (Unreadable p)
        | None \<Rightarrow> Inr
            \<lparr>ec_restaurer = sort_key slash_join (map fst (filter (\<lambda>(p, h).
                 digest (fe_content (the (dict_get presents p))) \<noteq> h) compared)),
             ec_recreer = sort_key slash_join (filter (\<lambda>p. dict_get presents p = None) (map fst m)),
             ec_supprimer = sort_key slash_join (filter (\<lambda>p. dict_get m p = None) (map fst presents))\<rparr>)"

definition parents :: "path \<Rightarrow> path list" where
  "parents p = map (\<lambda>n. take n p) [1..<length p]"

text \<open>\<^verbatim>\<open>mkdir\<close> of the parents, then \<^verbatim>\<open>copy2\<close>: onto a directory it writes inside it, under the same name.\<close>

definition ecrire_fichier :: "(path \<Rightarrow> bool) \<Rightarrow> path \<Rightarrow> string \<Rightarrow> tree \<Rightarrow> repli_error + tree" where
  "ecrire_fichier refuses p content t =
     (if list_ex (\<lambda>a. a \<in> set (dict_keys (tr_files t))) (parents p) then Inl (WriteFailed p)
      else let dirs = tr_dirs t @ filter (\<lambda>a. a \<notin> set (tr_dirs t)) (parents p);
               target = (if p \<in> set dirs then p @ [last p] else p)
           in if target \<in> set dirs \<or> refuses target then Inl (WriteFailed target)
              else Inr \<lparr>tr_files = dict_set target \<lparr>fe_content = content, fe_readable = True\<rparr> (tr_files t),
                        tr_dirs = dirs\<rparr>)"

fun ecrire_tout :: "(path \<Rightarrow> bool) \<Rightarrow> (path, string) dict \<Rightarrow> path list \<Rightarrow> tree \<Rightarrow> repli_error option \<times> tree" where
  "ecrire_tout refuses content [] t = (None, t)"
| "ecrire_tout refuses content (p # ps) t = (case dict_get content p of
     None \<Rightarrow> (Some (Unreadable p), t)
   | Some x \<Rightarrow> (case ecrire_fichier refuses p x t of
       Inl e \<Rightarrow> (Some e, t) | Inr t' \<Rightarrow> ecrire_tout refuses content ps t'))"

fun supprimer_tout :: "(path \<Rightarrow> bool) \<Rightarrow> path list \<Rightarrow> tree \<Rightarrow> repli_error option \<times> tree" where
  "supprimer_tout refuses [] t = (None, t)"
| "supprimer_tout refuses (p # ps) t =
     (if p \<in> set (dict_keys (tr_files t)) \<and> refuses p then (Some (WriteFailed p), t)
      else supprimer_tout refuses ps (t\<lparr>tr_files := dict_del p (tr_files t)\<rparr>))"

definition restaurer_copie :: "(path \<Rightarrow> bool) \<Rightarrow> (string \<Rightarrow> string) \<Rightarrow> copy_of_tree \<Rightarrow> tree \<Rightarrow> (repli_error + ecart) \<times> tree" where
  "restaurer_copie refuses digest c t =
     (case verifier digest c of Inl e \<Rightarrow> (Inl e, t)
      | Inr damaged \<Rightarrow>
          if damaged \<noteq> [] then (Inl (DamagedCopy damaged), t)
          else (case ecart_copie digest t c of Inl e \<Rightarrow> (Inl e, t)
            | Inr ec \<Rightarrow>
                (case ecrire_tout refuses (cp_content c) (ec_restaurer ec @ ec_recreer ec) t of
                   (Some e, t1) \<Rightarrow> (Inl e, t1)
                 | (None, t1) \<Rightarrow>
                     (case supprimer_tout refuses (ec_supprimer ec) t1 of
                        (Some e, t2) \<Rightarrow> (Inl e, t2) | (None, t2) \<Rightarrow> (Inr ec, t2)))))"

subsection \<open>Points\<close>

datatype mecanisme = ParGit | ParFichiers

record point =
  pt_workspace :: string
  pt_motif :: string
  pt_mission :: string
  pt_run :: string
  pt_mecanisme :: mecanisme
  pt_commit :: string
  pt_instantane :: string
  pt_fichiers :: nat
  pt_cree :: time

text \<open>A point with its sheet, which may not parse, and its copy.\<close>

record point_entry =
  pe_fiche :: "point option"
  pe_copie :: copy_of_tree

record ('g, 'e) git_ops =
  go_est_un_depot :: "tree \<times> 'g \<Rightarrow> bool"
  go_prendre :: "tree \<times> 'g \<Rightarrow> string \<Rightarrow> 'e + string \<times> 'g"
  go_existe :: "tree \<times> 'g \<Rightarrow> string \<Rightarrow> bool"
  go_ecart :: "tree \<times> 'g \<Rightarrow> string \<Rightarrow> 'e + ecart"
  go_restaurer :: "tree \<times> 'g \<Rightarrow> string \<Rightarrow> ('e + ecart) \<times> tree \<times> 'g"
  go_supprimer :: "tree \<times> 'g \<Rightarrow> string \<Rightarrow> 'g"

record 'g point_world =
  pw_disk :: "(string, tree \<times> 'g) dict"
  pw_points :: "(string, point_entry) dict"
  pw_state :: app_state
  pw_gate :: gate_state

record ('g, 'e) point_env =
  pn_consent :: consent_env
  pn_uuid2 :: string
  pn_engine :: aegis_engine
  pn_projects :: project_store
  pn_git :: "('g, 'e) git_ops"
  pn_refuses :: "path \<Rightarrow> bool"
  pn_id :: string
  pn_snapshot :: string
  pn_state_fails :: bool

datatype 'e point_error =
    NotADirectoryHere string
  | TakingFailed repli_error
  | TakingFailedGit 'e
  | UnknownPoint string
  | UnreadableSheet string
  | CommitGone string
  | GitRaised 'e
  | RestoreRefused gate_verdict gate_reason
  | PointUnusable repli_error
  | CopyRaised repli_error
  | GateRaisedHere gate_failure

definition plafond_copie :: nat where
  "plafond_copie = 500 * 1024 * 1024"

definition no_copy :: copy_of_tree where
  "no_copy = \<lparr>cp_manifest = None, cp_content = []\<rparr>"

definition prendre_etat :: "('g, 'e) point_env \<Rightarrow> string \<Rightarrow> metadata \<Rightarrow> app_state \<Rightarrow> string \<times> app_state" where
  "prendre_etat en motif context st =
     (if pn_state_fails en then ([], st)
      else (case create_snapshot (cn_now (pn_consent en)) (pn_snapshot en) motif context st of
          (info, st') \<Rightarrow> (si_id info, st')))"

definition new_point :: "('g, 'e) point_env \<Rightarrow> string \<Rightarrow> string \<Rightarrow> string \<Rightarrow> string \<Rightarrow> point" where
  "new_point en ws motif mission rn = \<lparr>pt_workspace = ws, pt_motif = motif, pt_mission = mission, pt_run = rn,
     pt_mecanisme = ParFichiers, pt_commit = [], pt_instantane = [], pt_fichiers = 0,
     pt_cree = cn_now (pn_consent en)\<rparr>"

text \<open>Taking the files: the commit or the copy, and the repository after it.\<close>

definition prendre_fichiers :: "('g, 'e) point_env \<Rightarrow> nat option \<Rightarrow> string \<Rightarrow> tree \<times> 'g \<Rightarrow> point
    \<Rightarrow> 'e point_error + point \<times> copy_of_tree \<times> 'g" where
  "prendre_fichiers en plafond message w pt =
     (if go_est_un_depot (pn_git en) w
      then (case go_prendre (pn_git en) w message of Inl e \<Rightarrow> Inl (TakingFailedGit e)
        | Inr (commit, g) \<Rightarrow> Inr (pt\<lparr>pt_mecanisme := ParGit, pt_commit := commit\<rparr>, no_copy, g))
      else (case copier (cn_digest (pn_consent en)) plafond (fst w) of Inl e \<Rightarrow> Inl (TakingFailed e)
        | Inr c \<Rightarrow> Inr (pt\<lparr>pt_fichiers := length (cp_content c)\<rparr>, c, snd w)))"

definition point_context :: "('g, 'e) point_env \<Rightarrow> point \<Rightarrow> metadata" where
  "point_context en pt = [(''checkpoint'', PStr (pn_id en)), (''workspace'', PStr (pt_workspace pt)),
     (''mission'', PStr (pt_mission pt)), (''run'', PStr (pt_run pt))]"

definition prendre_point :: "('g, 'e) point_env \<Rightarrow> string \<Rightarrow> string \<Rightarrow> string \<Rightarrow> string \<Rightarrow> bool \<Rightarrow> nat option
    \<Rightarrow> 'g point_world \<Rightarrow> ('e point_error + point) \<times> 'g point_world" where
  "prendre_point en ws motif mission rn avec_etat plafond w =
     (case fs_resolve (cn_fs (pn_consent en)) ws of
        Inl _ \<Rightarrow> (Inl (NotADirectoryHere ws), w)
      | Inr r \<Rightarrow> (case dict_get (pw_disk w) (path_text r) of
          None \<Rightarrow> (Inl (NotADirectoryHere ws), w)
        | Some tg \<Rightarrow>
            (case prendre_fichiers en plafond (if motif = [] then ''point de reprise Hermes '' @ pn_id en else motif) tg
                (new_point en (path_text r) motif mission rn) of
               Inl e \<Rightarrow> (Inl e, w)
             | Inr (pt, c, g) \<Rightarrow>
                 (let (inst, st) = (if avec_etat
                        then prendre_etat en (if motif = [] then ''checkpoint '' @ pn_id en else motif) (point_context en pt) (pw_state w)
                        else ([], pw_state w));
                      pt' = pt\<lparr>pt_instantane := inst\<rparr>
                  in (Inr pt', w\<lparr>pw_disk := dict_set (path_text r) (fst tg, g) (pw_disk w),
                        pw_points := dict_set (pn_id en) \<lparr>pe_fiche = Some pt', pe_copie = c\<rparr> (pw_points w),
                        pw_state := st\<rparr>)))))"

definition lire_point :: "string \<Rightarrow> 'g point_world \<Rightarrow> 'e point_error + point \<times> copy_of_tree" where
  "lire_point i w = (case dict_get (pw_points w) i of None \<Rightarrow> Inl (UnknownPoint i)
     | Some pe \<Rightarrow> (case pe_fiche pe of None \<Rightarrow> Inl (UnreadableSheet i) | Some pt \<Rightarrow> Inr (pt, pe_copie pe)))"

definition lister_points :: "('g, 'e) point_env \<Rightarrow> string option \<Rightarrow> 'g point_world \<Rightarrow> path_error + (string \<times> point) list" where
  "lister_points en ws w =
     (let pts = List.map_filter (\<lambda>(i, pe). map_option (Pair i) (pe_fiche pe)) (pw_points w);
          newest = sort_key (\<lambda>(i, pt). - pt_cree pt)
      in case ws of Some (c # cs) \<Rightarrow> bind_sum (fs_resolve (cn_fs (pn_consent en)) (c # cs)) (\<lambda>r.
             Inr (newest (filter (\<lambda>(i, pt). pt_workspace pt = path_text r) pts)))
         | _ \<Rightarrow> Inr (newest pts))"

text \<open>The tree of the workspace of a point; a workspace that is gone is an empty one.\<close>

definition workspace_of :: "'g \<Rightarrow> point \<Rightarrow> 'g point_world \<Rightarrow> tree \<times> 'g" where
  "workspace_of g0 pt w = (case dict_get (pw_disk w) (pt_workspace pt) of
     None \<Rightarrow> (\<lparr>tr_files = [], tr_dirs = []\<rparr>, g0) | Some tg \<Rightarrow> tg)"

definition ecart_point :: "('g, 'e) point_env \<Rightarrow> 'g \<Rightarrow> point \<Rightarrow> copy_of_tree \<Rightarrow> 'g point_world \<Rightarrow> 'e point_error + ecart" where
  "ecart_point en g0 pt c w =
     (let tg = workspace_of g0 pt w in
      if pt_mecanisme pt = ParGit
      then if \<not> go_existe (pn_git en) tg (pt_commit pt) then Inl (CommitGone (pt_commit pt))
           else (case go_ecart (pn_git en) tg (pt_commit pt) of Inl e \<Rightarrow> Inl (GitRaised e) | Inr ec \<Rightarrow> Inr ec)
      else (case ecart_copie (cn_digest (pn_consent en)) (fst tg) c of Inl e \<Rightarrow> Inl (CopyRaised e) | Inr ec \<Rightarrow> Inr ec))"

definition apercu :: "('g, 'e) point_env \<Rightarrow> 'g \<Rightarrow> string \<Rightarrow> 'g point_world \<Rightarrow> 'e point_error + ecart" where
  "apercu en g0 i w = bind_sum (lire_point i w) (\<lambda>(pt, c). ecart_point en g0 pt c w)"

datatype etat_motif =
    EtatSansMotif
  | EtatPasCapture
  | EtatLeve restore_failure
  | EtatRefuse gate_verdict "gate_reason option" "string option"

record restauration =
  rt_point :: string
  rt_workspace :: string
  rt_ecart :: ecart
  rt_etat_repris :: bool
  rt_etat_motif :: etat_motif
  rt_applique :: bool

definition point_request :: "string \<Rightarrow> string option \<Rightarrow> point \<Rightarrow> action_request" where
  "point_request i project pt = \<lparr>aq_type = ''data_migration'',
     aq_description = ''Restaurer le workspace '' @ pt_workspace pt @ '' au point de reprise '' @ i @ '' ('' @
       (if pt_motif pt = [] then ''sans motif'' else pt_motif pt) @ '')'',
     aq_target = Some (pt_workspace pt), aq_agent = ''hermes'', aq_task = None, aq_project = project,
     aq_discriminants = [(''checkpoint'', i)]\<rparr>"

definition restaurer_etat :: "('g, 'e) point_env \<Rightarrow> point \<Rightarrow> string option \<Rightarrow> app_state \<times> gate_state
    \<Rightarrow> (bool \<times> etat_motif) \<times> app_state \<times> gate_state" where
  "restaurer_etat en pt project s =
     (if pt_instantane pt = [] then ((False, EtatPasCapture), s)
      else (case restore_snapshot ((pn_consent en)\<lparr>cn_uuid := pn_uuid2 en\<rparr>) (pn_engine en) (pn_projects en)
              (pt_instantane pt) project s of
          (Inl f, s') \<Rightarrow> ((False, EtatLeve f), s')
        | (Inr r, s') \<Rightarrow>
            if ro_restored r then ((True, EtatSansMotif), s')
            else ((False, EtatRefuse (ro_verdict r) (ro_reason r)
              (if ro_verdict r = GateHuman then Some (pt_instantane pt) else None)), s')))"

text \<open>Restoring the files of an allowed point: only a damaged copy is translated into an unusable point.\<close>

definition restaurer_fichiers :: "('g, 'e) point_env \<Rightarrow> point \<Rightarrow> copy_of_tree \<Rightarrow> tree \<times> 'g
    \<Rightarrow> ('e point_error + ecart) \<times> tree \<times> 'g" where
  "restaurer_fichiers en pt c tg =
     (if pt_mecanisme pt = ParGit
      then if \<not> go_existe (pn_git en) tg (pt_commit pt) then (Inl (CommitGone (pt_commit pt)), tg)
           else (case go_restaurer (pn_git en) tg (pt_commit pt) of
               (Inl e, tg') \<Rightarrow> (Inl (GitRaised e), tg') | (Inr ec, tg') \<Rightarrow> (Inr ec, tg'))
      else (case restaurer_copie (pn_refuses en) (cn_digest (pn_consent en)) c (fst tg) of
          (Inr ec, t) \<Rightarrow> (Inr ec, t, snd tg)
        | (Inl e, t) \<Rightarrow> (Inl (case e of NoManifest \<Rightarrow> PointUnusable e | DamagedCopy _ \<Rightarrow> PointUnusable e | _ \<Rightarrow> CopyRaised e),
            t, snd tg)))"

definition restaurer_point :: "('g, 'e) point_env \<Rightarrow> 'g \<Rightarrow> string \<Rightarrow> string option \<Rightarrow> 'g point_world
    \<Rightarrow> ('e point_error + restauration) \<times> 'g point_world" where
  "restaurer_point en g0 i project w =
     (case lire_point i w of Inl e \<Rightarrow> (Inl e, w)
      | Inr (pt, c) \<Rightarrow>
          (case aegis_evaluate (pn_consent en) (pn_engine en) (pn_projects en) (point_request i project pt) (pw_gate w) of
             (Inl x, gt) \<Rightarrow> (Inl (GateRaisedHere x), w\<lparr>pw_gate := gt\<rparr>)
           | (Inr dn, gt) \<Rightarrow>
               if ad_verdict dn \<noteq> GateAllow then (Inl (RestoreRefused (ad_verdict dn) (ad_reason dn)), w\<lparr>pw_gate := gt\<rparr>)
               else (case restaurer_fichiers en pt c (workspace_of g0 pt w) of
                   (Inl e, tg) \<Rightarrow> (Inl e, w\<lparr>pw_gate := gt, pw_disk := dict_set (pt_workspace pt) tg (pw_disk w)\<rparr>)
                 | (Inr ec, tg) \<Rightarrow>
                     (case restaurer_etat en pt project (pw_state w, gt) of
                        ((repris, motif), st, gt') \<Rightarrow>
                          (Inr \<lparr>rt_point = i, rt_workspace = pt_workspace pt, rt_ecart = ec, rt_etat_repris = repris,
                                rt_etat_motif = motif, rt_applique = True\<rparr>,
                           w\<lparr>pw_gate := gt', pw_state := st, pw_disk := dict_set (pt_workspace pt) tg (pw_disk w)\<rparr>)))))"

definition supprimer_point :: "('g, 'e) point_env \<Rightarrow> string \<Rightarrow> 'g point_world \<Rightarrow> ('e point_error + bool) \<times> 'g point_world" where
  "supprimer_point en i w =
     (case dict_get (pw_points w) i of None \<Rightarrow> (Inr False, w)
      | Some pe \<Rightarrow> (case pe_fiche pe of None \<Rightarrow> (Inl (UnreadableSheet i), w)
          | Some pt \<Rightarrow>
              (let w1 = (if pt_mecanisme pt = ParGit \<and> pt_commit pt \<noteq> [] then
                     (case dict_get (pw_disk w) (pt_workspace pt) of None \<Rightarrow> w
                      | Some (t, g) \<Rightarrow> w\<lparr>pw_disk := dict_set (pt_workspace pt) (t, go_supprimer (pn_git en) (t, g) (pt_commit pt)) (pw_disk w)\<rparr>)
                   else w)
               in (Inr True, w1\<lparr>pw_points := dict_del i (pw_points w1)\<rparr>))))"

end
