(* ===== verification/Checkpoints_Correct.thy ===== *)
theory Checkpoints_Correct
  imports Checkpoints Approvals_Correct
begin

text \<open>
  What a return gives back: the files that were copied, the rows that were saved, and nothing without the
  consent that names the point.
\<close>

subsection \<open>Files\<close>

definition content_at :: "tree \<Rightarrow> path \<Rightarrow> string option" where
  "content_at t p = map_option fe_content (dict_get (tr_files t) p)"

text \<open>The trees of a file system: one entry per path.\<close>

definition one_entry :: "tree \<Rightarrow> bool" where
  "one_entry t \<longleftrightarrow> distinct (map fst (tr_files t))"

lemma map_of_sort_key:
  assumes "distinct (map fst d)"
  shows "map_of (sort_key fst d) = map_of d"
  using assms by (intro map_of_inject_set[THEN iffD2]) (simp_all add: distinct_map)

lemma get_tree_files:
  assumes "one_entry t"
  shows "dict_get (tree_files t) p = (if visible p then dict_get (tr_files t) p else None)"
proof -
  have d: "distinct (map fst (sort_key fst (tr_files t)))" using assms by (simp add: one_entry_def distinct_map)
  have "dict_get (filter (\<lambda>(p, e). visible p) xs) p = (if visible p then dict_get xs p else None)"
    for xs :: "(path \<times> file_entry) list"
    by (induction xs) auto
  then show ?thesis unfolding tree_files_def using map_of_sort_key[of "tr_files t"] assms by (simp add: one_entry_def)
qed

lemma get_map_snd: "map_of (map (\<lambda>(p, e). (p, f e)) xs) p = map_option f (map_of xs p)"
  by (induction xs) auto

lemma copier_parts:
  assumes "copier digest plafond t = Inr c" "one_entry t"
  obtains m where "cp_manifest c = Some m"
    "\<And>p. dict_get m p = (if visible p then map_option digest (content_at t p) else None)"
    "\<And>p. dict_get (cp_content c) p = (if visible p then content_at t p else None)"
    "distinct (map fst m)"
proof
  let ?m = "map (\<lambda>(p, e). (p, digest (fe_content e))) (tree_files t)"
  from assms(1) have c: "c = \<lparr>cp_manifest = Some ?m, cp_content = map (\<lambda>(p, e). (p, fe_content e)) (tree_files t)\<rparr>"
    by (auto simp: copier_def split: if_splits option.splits prod.splits)
  then show "cp_manifest c = Some ?m" by simp
  show "dict_get ?m p = (if visible p then map_option digest (content_at t p) else None)" for p
    by (simp add: get_map_snd get_tree_files[OF assms(2)] content_at_def option.map_comp comp_def)
  show "dict_get (cp_content c) p = (if visible p then content_at t p else None)" for p
    by (simp add: c get_map_snd get_tree_files[OF assms(2)] content_at_def)
  have "distinct (map fst (tree_files t))"
    unfolding tree_files_def using assms(2) by (intro distinct_map_filter) (simp add: one_entry_def distinct_map)
  then show "distinct (map fst ?m)" by (simp add: comp_def case_prod_unfold)
qed

text \<open>The paths of a copy may be written into a tree: none of them is a directory there, none lies under a file.\<close>

definition writable_into :: "path set \<Rightarrow> tree \<Rightarrow> bool" where
  "writable_into S t \<longleftrightarrow> (\<forall>p \<in> S. p \<notin> set (tr_dirs t) \<and> (\<forall>a \<in> set (parents p). a \<notin> fst ` set (tr_files t)))"

definition apart :: "path set \<Rightarrow> bool" where
  "apart S \<longleftrightarrow> (\<forall>p \<in> S. \<forall>a \<in> set (parents p). a \<notin> S)"

lemma self_not_parent: "p \<notin> set (parents p)"
proof
  assume "p \<in> set (parents p)"
  then obtain n where "n \<in> set [1..<length p]" "p = take n p" by (auto simp: parents_def)
  then have "n < length p" "length p = min (length p) n" by (auto intro: arg_cong[where f = length] simp flip: length_take)
  then show False by simp
qed

lemma ecrire_fichier_ok:
  assumes "writable_into S t" "apart S" "p \<in> S" "\<not> refuses p"
  obtains t' where "ecrire_fichier refuses p x t = Inr t'" "writable_into S t'"
    "tr_files t' = dict_set p \<lparr>fe_content = x, fe_readable = True\<rparr> (tr_files t)"
proof -
  let ?dirs = "tr_dirs t @ filter (\<lambda>a. a \<notin> set (tr_dirs t)) (parents p)"
  let ?t = "\<lparr>tr_files = dict_set p \<lparr>fe_content = x, fe_readable = True\<rparr> (tr_files t), tr_dirs = ?dirs\<rparr>"
  from assms(1,3) have p: "p \<notin> set (tr_dirs t)" "\<forall>a \<in> set (parents p). a \<notin> fst ` set (tr_files t)"
    by (simp_all add: writable_into_def)
  have "p \<notin> set ?dirs" using p(1) self_not_parent by simp
  with p(2) assms(4) have "ecrire_fichier refuses p x t = Inr ?t"
    by (auto simp: ecrire_fichier_def Let_def list_ex_iff)
  moreover have "writable_into S ?t"
    using assms(1-3) by (auto simp: writable_into_def apart_def dict_simps image_iff)
  ultimately show thesis by (rule that[of ?t]) simp
qed

lemma ecrire_tout_ok:
  assumes "writable_into S t" "apart S" "set ps \<subseteq> S" "\<And>p. \<not> refuses p" "\<And>p. p \<in> S \<Longrightarrow> dict_get content p \<noteq> None"
  obtains t' where "ecrire_tout refuses content ps t = (None, t')"
    "\<And>p. dict_get (tr_files t') p = (if p \<in> set ps
       then map_option (\<lambda>x. \<lparr>fe_content = x, fe_readable = True\<rparr>) (dict_get content p) else dict_get (tr_files t) p)"
    "one_entry t \<Longrightarrow> one_entry t'"
  using assms(1,3)
proof (induction ps arbitrary: t thesis)
  case Nil
  show ?case by (rule Nil(1)) simp_all
next
  case (Cons p ps)
  from Cons.prems(3) assms(5)[of p] obtain x where x: "dict_get content p = Some x" by auto
  from Cons.prems(3) have p: "p \<in> S" by simp
  obtain t1 where t1: "ecrire_fichier refuses p x t = Inr t1" "writable_into S t1"
    "tr_files t1 = dict_set p \<lparr>fe_content = x, fe_readable = True\<rparr> (tr_files t)"
    by (rule ecrire_fichier_ok[OF Cons.prems(2) assms(2) p assms(4)])
  obtain t2 where t2: "ecrire_tout refuses content ps t1 = (None, t2)"
    "\<And>q. dict_get (tr_files t2) q = (if q \<in> set ps
       then map_option (\<lambda>x. \<lparr>fe_content = x, fe_readable = True\<rparr>) (dict_get content q) else dict_get (tr_files t1) q)"
    "one_entry t1 \<Longrightarrow> one_entry t2"
    by (rule Cons.IH[OF _ t1(2)]) (use Cons.prems(3) in auto)
  show ?case
  proof (rule Cons.prems(1))
    show "ecrire_tout refuses content (p # ps) t = (None, t2)" by (simp add: x t1(1) t2(1))
    show "dict_get (tr_files t2) q = (if q \<in> set (p # ps)
       then map_option (\<lambda>x. \<lparr>fe_content = x, fe_readable = True\<rparr>) (dict_get content q) else dict_get (tr_files t) q)" for q
      using x by (simp add: t2(2) t1(3))
    show "one_entry t2" if "one_entry t" using that t2(3) t1(3) by (simp add: one_entry_def)
  qed
qed

lemma supprimer_tout_ok:
  assumes "\<And>p. \<not> refuses p"
  shows "fst (supprimer_tout refuses ps t) = None"
    and "dict_get (tr_files (snd (supprimer_tout refuses ps t))) p = (if p \<in> set ps then None else dict_get (tr_files t) p)"
  using assms by (induction ps arbitrary: t) auto

definition snapshot_paths :: "tree \<Rightarrow> path set" where
  "snapshot_paths t = {p. visible p \<and> p \<in> fst ` set (tr_files t)}"

lemma verified_copy:
  assumes "copier digest plafond t = Inr c" "one_entry t"
  shows "verifier digest c = Inr []"
proof -
  from copier_parts[OF assms] obtain m where m: "cp_manifest c = Some m"
    "\<And>p. dict_get m p = (if visible p then map_option digest (content_at t p) else None)"
    "\<And>p. dict_get (cp_content c) p = (if visible p then content_at t p else None)" "distinct (map fst m)" by blast
  have "map_option digest (dict_get (cp_content c) p) = Some h" if "(p, h) \<in> set m" for p h
  proof -
    from that m(4) have "dict_get m p = Some h" by simp
    then show ?thesis using m(2)[of p] m(3)[of p] by (cases "visible p") simp_all
  qed
  then have "filter (\<lambda>(p, h). map_option digest (dict_get (cp_content c) p) \<noteq> Some h) m = []"
    by (auto simp: filter_empty_conv)
  then show ?thesis by (simp add: verifier_def lire_manifeste_def bind_sum_def m(1))
qed

lemma ecart_parts:
  assumes "lire_manifeste c = Inr m" "distinct (map fst m)" "one_entry t" "\<forall>(p, e) \<in> set (tree_files t). fe_readable e"
  obtains ec where "ecart_copie digest t c = Inr ec"
    "set (ec_restaurer ec) = {p. \<exists>h x. dict_get m p = Some h \<and> visible p \<and> content_at t p = Some x \<and> digest x \<noteq> h}"
    "set (ec_recreer ec) = {p. dict_get m p \<noteq> None \<and> (visible p \<longrightarrow> content_at t p = None)}"
    "set (ec_supprimer ec) = {p. visible p \<and> content_at t p \<noteq> None \<and> dict_get m p = None}"
proof -
  let ?ps = "tree_files t"
  let ?cmp = "filter (\<lambda>(p, h). dict_get ?ps p \<noteq> None) m"
  let ?ec = "\<lparr>ec_restaurer = sort_key slash_join (map fst (filter (\<lambda>(p, h).
                 digest (fe_content (the (dict_get ?ps p))) \<noteq> h) ?cmp)),
             ec_recreer = sort_key slash_join (filter (\<lambda>p. dict_get ?ps p = None) (map fst m)),
             ec_supprimer = sort_key slash_join (filter (\<lambda>p. dict_get m p = None) (map fst ?ps))\<rparr>"
  have g: "dict_get ?ps p = (if visible p then dict_get (tr_files t) p else None)" for p by (rule get_tree_files[OF assms(3)])
  have "List.find (\<lambda>(p, h). \<not> fe_readable (the (dict_get ?ps p))) ?cmp = None"
  proof -
    have "fe_readable (the (dict_get ?ps p))" if "dict_get ?ps p \<noteq> None" for p
      using that assms(4) by (cases "dict_get ?ps p") (auto dest!: map_of_SomeD)
    then show ?thesis by (auto simp: find_None_iff)
  qed
  then have "ecart_copie digest t c = Inr ?ec" by (simp add: ecart_copie_def assms(1) bind_sum_def Let_def)
  moreover have "set (ec_restaurer ?ec) = {p. \<exists>h x. dict_get m p = Some h \<and> visible p \<and> content_at t p = Some x \<and> digest x \<noteq> h}"
    using assms(2) by (force simp: g content_at_def split: if_splits)
  moreover have "set (ec_recreer ?ec) = {p. dict_get m p \<noteq> None \<and> (visible p \<longrightarrow> content_at t p = None)}"
    using get_None_iff[of m] by (auto simp: g content_at_def split: if_splits)
  moreover have "set (ec_supprimer ?ec) = {p. visible p \<and> content_at t p \<noteq> None \<and> dict_get m p = None}"
  proof -
    have "p \<in> fst ` set ?ps \<longleftrightarrow> visible p \<and> content_at t p \<noteq> None" for p
      using get_None_iff[of ?ps p] g[of p] by (auto simp: content_at_def split: if_splits)
    then show ?thesis by auto
  qed
  ultimately show thesis by (rule that)
qed

text \<open>
  C36. What was copied comes back: a copy of a workspace was taken and the workspace was changed since. Provided
  the change leaves no name conflict (no copied file is a directory now and none lies under a file), every
  watched file that is there now can be read, the system refuses no write and no removal, and the digest tells
  the contents involved apart, restoring succeeds and gives every watched path exactly the content it had,
  removes the watched files that did not exist, and touches nothing in the ignored directories.
\<close>

theorem restore_takes_back:
  assumes "copier digest plafond t = Inr c" and "one_entry t" and "one_entry now" and "apart (snapshot_paths t)"
    and "writable_into (snapshot_paths t) now" and "\<forall>(p, e) \<in> set (tree_files now). fe_readable e" and "\<And>p. \<not> refuses p"
    and "inj_on digest {x. \<exists>p. content_at t p = Some x \<or> content_at now p = Some x}"
  shows "\<exists>ec restored. restaurer_copie refuses digest c now = (Inr ec, restored) \<and>
    (\<forall>p. content_at restored p = (if visible p then content_at t p else content_at now p))"
proof -
  from copier_parts[OF assms(1,2)] obtain m where m: "cp_manifest c = Some m"
    "\<And>p. dict_get m p = (if visible p then map_option digest (content_at t p) else None)"
    "\<And>p. dict_get (cp_content c) p = (if visible p then content_at t p else None)" "distinct (map fst m)" by blast
  have "lire_manifeste c = Inr m" by (simp add: lire_manifeste_def m(1))
  from ecart_parts[OF this m(4) assms(3,6), of digest] obtain ec where ec: "ecart_copie digest now c = Inr ec"
    "set (ec_restaurer ec) = {p. \<exists>h x. dict_get m p = Some h \<and> visible p \<and> content_at now p = Some x \<and> digest x \<noteq> h}"
    "set (ec_recreer ec) = {p. dict_get m p \<noteq> None \<and> (visible p \<longrightarrow> content_at now p = None)}"
    "set (ec_supprimer ec) = {p. visible p \<and> content_at now p \<noteq> None \<and> dict_get m p = None}" by blast
  have S: "p \<in> snapshot_paths t \<longleftrightarrow> visible p \<and> content_at t p \<noteq> None" for p
    using get_None_iff[of "tr_files t" p] by (auto simp: snapshot_paths_def content_at_def)
  have sub: "set (ec_restaurer ec @ ec_recreer ec) \<subseteq> snapshot_paths t"
    using ec(2,3) m(2) S by (auto split: if_splits)
  have got: "dict_get (cp_content c) p \<noteq> None" if "p \<in> snapshot_paths t" for p using that m(3) S by simp
  obtain t1 where t1: "ecrire_tout refuses (cp_content c) (ec_restaurer ec @ ec_recreer ec) now = (None, t1)"
    "\<And>p. dict_get (tr_files t1) p = (if p \<in> set (ec_restaurer ec @ ec_recreer ec)
       then map_option (\<lambda>x. \<lparr>fe_content = x, fe_readable = True\<rparr>) (dict_get (cp_content c) p) else dict_get (tr_files now) p)"
    "one_entry now \<Longrightarrow> one_entry t1"
  proof (rule ecrire_tout_ok[where refuses = refuses, OF assms(5,4) sub assms(7) got], assumption)
    fix t1 assume a: "ecrire_tout refuses (cp_content c) (ec_restaurer ec @ ec_recreer ec) now = (None, t1)"
      "\<And>p. dict_get (tr_files t1) p = (if p \<in> set (ec_restaurer ec @ ec_recreer ec)
        then map_option (\<lambda>x. \<lparr>fe_content = x, fe_readable = True\<rparr>) (dict_get (cp_content c) p) else dict_get (tr_files now) p)"
      "one_entry now \<Longrightarrow> one_entry t1"
    show thesis by (rule that[OF a])
  qed
  obtain r restored where "supprimer_tout refuses (ec_supprimer ec) t1 = (r, restored)" by fastforce
  with supprimer_tout_ok(1)[where refuses = refuses, OF assms(7), of "ec_supprimer ec" t1]
  have restored: "supprimer_tout refuses (ec_supprimer ec) t1 = (None, restored)" by simp
  have b: "dict_get (tr_files restored) p = (if p \<in> set (ec_supprimer ec) then None else dict_get (tr_files t1) p)" for p
    using supprimer_tout_ok(2)[where refuses = refuses, OF assms(7), of "ec_supprimer ec" t1 p] restored by simp
  have "restaurer_copie refuses digest c now = (Inr ec, restored)"
    using verified_copy[OF assms(1,2)] ec(1) t1(1) restored by (simp add: restaurer_copie_def)
  moreover have "content_at restored p = (if visible p then content_at t p else content_at now p)" for p
  proof (cases "p \<in> set (ec_restaurer ec @ ec_recreer ec)")
    case True
    with sub S have v: "visible p" "content_at t p \<noteq> None" by auto
    with m(2)[of p] have "p \<notin> set (ec_supprimer ec)" by (simp add: ec(4))
    with True v m(3)[of p] show ?thesis
      by (simp only: content_at_def b t1(2) if_True if_False) (simp add: option.map_comp comp_def content_at_def)
  next
    case False
    then have now: "content_at restored p = (if p \<in> set (ec_supprimer ec) then None else content_at now p)"
      by (simp add: content_at_def b t1(2))
    show ?thesis
    proof (cases "visible p")
      case True
      show ?thesis
      proof (cases "content_at t p")
        case None
        with True now m(2)[of p] show ?thesis by (auto simp: ec(4))
      next
        case (Some x)
        with True m(2)[of p] have h: "dict_get m p = Some (digest x)" by simp
        from False have nr: "p \<notin> set (ec_restaurer ec)" "p \<notin> set (ec_recreer ec)" by simp_all
        from nr(2) True h obtain y where y: "content_at now p = Some y" unfolding ec(3) by auto
        with nr(1) True h have "digest y = digest x" unfolding ec(2) by auto
        then have "y = x" by (rule inj_onD[OF assms(8)]) (use y Some in auto)
        moreover have "p \<notin> set (ec_supprimer ec)" unfolding ec(4) using h by simp
        ultimately show ?thesis using y now True Some by simp
      qed
    qed (use now in \<open>simp add: ec(4)\<close>)
  qed
  ultimately show ?thesis by blast
qed

lemma damaged_copy_writes_nothing:
  "verifier digest c = Inr damaged \<Longrightarrow> damaged \<noteq> [] \<Longrightarrow> restaurer_copie refuses digest c t = (Inl (DamagedCopy damaged), t)"
  by (simp add: restaurer_copie_def)

subsection \<open>State\<close>

lemma get_fold_rows:
  "dict_get (fold (\<lambda>(i, t). dict_set i t) xs d) k = (case dict_get (rev xs) k of None \<Rightarrow> dict_get d k | Some v \<Rightarrow> Some v)"
  by (induction xs arbitrary: d) (auto split: option.splits)

lemma get_written:
  assumes "distinct (map fst xs)"
  shows "dict_get (fold (\<lambda>(i, t). dict_set i t) xs d) k = (case dict_get xs k of None \<Rightarrow> dict_get d k | Some v \<Rightarrow> Some v)"
proof -
  have "map_of (rev xs) = map_of xs"
    using assms by (intro map_of_inject_set[THEN iffD2]) (simp_all flip: rev_map)
  then show ?thesis by (simp add: get_fold_rows)
qed

text \<open>What is written of a row and read back is that row, whatever the table held in its place.\<close>

lemma write_task_row: "write_task (task_to_dict (i, t)) tab = dict_set i t tab"
  by (cases t; cases "case dict_get tab i of None \<Rightarrow> unset_task | Some t \<Rightarrow> t")
    (simp add: write_task_def task_to_dict_def isoformat_def Let_def)

lemma write_run_row: "write_run (run_to_dict (i, r)) tab = dict_set i r tab"
  by (cases r; cases "case dict_get tab i of None \<Rightarrow> unset_run | Some r \<Rightarrow> r")
    (simp add: write_run_def run_to_dict_def isoformat_def Let_def)

lemma written_tables:
  "fold write_task (map task_to_dict xs) tab = fold (\<lambda>(i, t). dict_set i t) xs tab"
  "fold write_run (map run_to_dict ys) tab' = fold (\<lambda>(i, r). dict_set i r) ys tab'"
  by (induction xs arbitrary: tab) (auto simp: write_task_row, induction ys arbitrary: tab', auto simp: write_run_row)

text \<open>The tables of a database: one row per key.\<close>

definition one_row :: "app_state \<Rightarrow> bool" where
  "one_row st \<longleftrightarrow> distinct (map fst (as_tasks st)) \<and> distinct (map fst (as_runs st))"

text \<open>
  C37. A restored snapshot gives every task and every workflow run that it holds exactly the row it had when
  the snapshot was taken, leaves everything younger alone, and does what its preview announced: the rows it
  creates are those that had gone, the rows it keeps are those it does not hold. A refused restoration
  changes no row.
\<close>

theorem snapshot_restores_rows:
  assumes "one_row st" and "create_snapshot t i why context st = (info, st1)"
    and "dict_get (as_snapshots now) i = dict_get (as_snapshots st1) i"
    and "restore_snapshot cn ae ps i project (now, gt) = (Inr r, now', gt')"
  shows "(if ro_restored r
     then (\<forall>k. dict_get (as_tasks now') k = (case dict_get (as_tasks st) k of None \<Rightarrow> dict_get (as_tasks now) k | Some v \<Rightarrow> Some v)) \<and>
       (\<forall>k. dict_get (as_runs now') k = (case dict_get (as_runs st) k of None \<Rightarrow> dict_get (as_runs now) k | Some v \<Rightarrow> Some v))
     else now' = now) \<and>
    (\<exists>pv. preview_restore i now = Inr pv \<and>
      set (rv_created pv) = {k. dict_get (as_tasks st) k \<noteq> None \<and> dict_get (as_tasks now) k = None} \<and>
      set (rv_absent pv) = {k. dict_get (as_tasks st) k = None \<and> dict_get (as_tasks now) k \<noteq> None})"
proof -
  let ?p = "payload_of t i why context st"
  from assms(2) have "dict_get (as_snapshots st1) i = Some (Payload ?p)" by (auto simp: create_snapshot_def Let_def)
  with assms(3) have l: "load_snapshot i now = Inr ?p" by (simp add: load_snapshot_def)
  have tables: "sp_tasks ?p = map task_to_dict (as_tasks st)" "sp_runs ?p = map run_to_dict (as_runs st)"
    by (simp_all add: payload_of_def)
  have ids: "map (td_id \<circ> task_to_dict) xs = map fst xs" for xs :: "(string \<times> task_row) list"
    by (induction xs) (auto simp: task_to_dict_def)
  have idset: "td_id ` task_to_dict ` S = fst ` S" for S
    by (simp add: image_image task_to_dict_def case_prod_unfold)
  have "now' = (if ro_restored r then written_back ?p now else now)"
    using assms(4) l by (auto simp: restore_snapshot_def split: sum.splits prod.splits if_splits)
  moreover have "dict_get (as_tasks (written_back ?p now)) k =
      (case dict_get (as_tasks st) k of None \<Rightarrow> dict_get (as_tasks now) k | Some v \<Rightarrow> Some v)"
    "dict_get (as_runs (written_back ?p now)) k =
      (case dict_get (as_runs st) k of None \<Rightarrow> dict_get (as_runs now) k | Some v \<Rightarrow> Some v)" for k
    using assms(1) by (simp_all add: written_back_def tables written_tables get_written one_row_def)
  moreover have "\<exists>pv. preview_restore i now = Inr pv \<and>
      set (rv_created pv) = {k. dict_get (as_tasks st) k \<noteq> None \<and> dict_get (as_tasks now) k = None} \<and>
      set (rv_absent pv) = {k. dict_get (as_tasks st) k = None \<and> dict_get (as_tasks now) k \<noteq> None}"
    using get_None_iff[of "as_tasks st"] get_None_iff[of "as_tasks now"]
    by (simp add: preview_restore_def l bind_sum_def Let_def tables ids idset set_eq_iff del: map_of_eq_None_iff) blast
  ultimately show ?thesis by simp
qed

subsection \<open>Consent\<close>

definition human_only :: "('g, 'e) point_env \<Rightarrow> bool" where
  "human_only en \<longleftrightarrow> (case get_category (ae_matrix (pn_engine en)) ''data_migration'' of None \<Rightarrow> True | Some c \<Rightarrow> cy_mandatory c)"

text \<open>The queue after a gate: as it was, with one use of a row that fits written, or with one pending row more.\<close>

definition row_used :: "consent_env \<Rightarrow> string option \<Rightarrow> (string, string) dict \<Rightarrow> approval_table \<Rightarrow> approval_table \<Rightarrow> bool" where
  "row_used cn target d tab tab' \<longleftrightarrow> (\<exists>j e. consumed_row cn ''data_migration'' target d tab j e \<and>
     tab' = dict_set j (after_use e) tab)"

definition row_asked :: "string \<Rightarrow> approval_table \<Rightarrow> approval_table \<Rightarrow> bool" where
  "row_asked new tab tab' \<longleftrightarrow> (\<exists>e. ap_status e = ApPending \<and> dict_get tab new = None \<and> tab' = dict_set new e tab)"

lemma pending_asked:
  assumes "record_pending cn why q d tab = (z, tab', hub)"
  shows "tab' = tab \<or> row_asked (cn_uuid cn) tab tab'"
proof (cases "filter (pending_as (fingerprint_for cn (aq_type q) (aq_target q) (aq_description q) d)) tab = [] \<and>
    cn_uuid cn \<notin> set (dict_keys tab)")
  case True
  then have "\<exists>e. ap_status e = ApPending \<and> tab' = dict_set (cn_uuid cn) e tab"
    using assms by (simp add: record_pending_def Let_def) (metis approval.select_convs(7))
  moreover have "dict_get tab (cn_uuid cn) = None" using True by (simp add: get_None_iff)
  ultimately show ?thesis by (auto simp: row_asked_def)
next
  case False
  then show ?thesis using assms by (auto simp: record_pending_def Let_def split: list.splits if_splits)
qed

lemma gate_queue_change:
  assumes "aegis_evaluate cn ae ps q gt = (x, gt')" "aq_type q = ''data_migration''"
  shows "gt_table gt' = gt_table gt \<or>
    row_used cn (aq_target q) (fold (\<lambda>(k, v). dict_set k v) (aq_discriminants q) []) (gt_table gt) (gt_table gt') \<or>
    row_asked (cn_uuid cn) (gt_table gt) (gt_table gt')"
proof -
  let ?d = "fold (\<lambda>(k, v). dict_set k v) (aq_discriminants q) []"
  consider "gt_table gt' = gt_table gt"
    | dn y hub where "apply_human_consent cn q dn (gt_table gt) = (y, gt_table gt', hub)"
    using assms(1) by (auto simp: aegis_evaluate_def Let_def split: sum.splits prod.splits)
  then show ?thesis
  proof cases
    case 1
    then show ?thesis by simp
  next
    case 2
    obtain got tab1 where c: "consume_approval cn (aq_type q) (aq_target q) (aq_description q) ?d (gt_table gt) = (got, tab1)"
      by fastforce
    show ?thesis
    proof (cases got)
      case None
      obtain z tab2 hub2 where p: "record_pending cn (ad_reason dn) q ?d (gt_table gt) = (z, tab2, hub2)" by (metis prod.collapse)
      have "gt_table gt' \<in> {gt_table gt, tab2}"
        using 2 c None consume_nothing[OF c[unfolded None]] p
        by (auto simp: apply_human_consent_def Let_def split: if_splits sum.splits)
      moreover have "tab2 = gt_table gt \<or> row_asked (cn_uuid cn) (gt_table gt) tab2"
        by (rule pending_asked[OF p])
      ultimately show ?thesis by auto
    next
      case (Some g)
      obtain i e' where g: "g = (i, e')" by (cases g)
      from consume_row[OF c[unfolded Some g]] have "row_used cn (aq_target q) ?d (gt_table gt) tab1"
        unfolding row_used_def by (auto simp: depenser_after_use assms(2))
      moreover have "gt_table gt' \<in> {gt_table gt, tab1}"
        using 2 c Some g by (auto simp: apply_human_consent_def Let_def split: if_splits)
      ultimately show ?thesis by auto
    qed
  qed
qed

lemma gate_allows_used:
  assumes "case get_category (ae_matrix ae) ''data_migration'' of None \<Rightarrow> True | Some c \<Rightarrow> cy_mandatory c"
    and "aegis_evaluate cn ae ps q gt = (Inr dn, gt')" "ad_verdict dn = GateAllow" "aq_type q = ''data_migration''"
  shows "row_used cn (aq_target q) (fold (\<lambda>(k, v). dict_set k v) (aq_discriminants q) []) (gt_table gt) (gt_table gt')"
  using allowed_by_consent[OF _ assms(2,3)] assms(1,4) unfolding row_used_def by auto

text \<open>
  What restoring a snapshot does to the queue, and what a change of the state costs.
\<close>

lemma snapshot_needs_consent:
  assumes "case get_category (ae_matrix ae) ''data_migration'' of None \<Rightarrow> True | Some c \<Rightarrow> cy_mandatory c"
    and "restore_snapshot cn ae ps i project (st, gt) = (r, st', gt')"
  shows "st' \<noteq> st \<Longrightarrow> row_used cn None [(''snapshot'', i)] (gt_table gt) (gt_table gt')"
    and "gt_table gt' = gt_table gt \<or> row_used cn None [(''snapshot'', i)] (gt_table gt) (gt_table gt') \<or>
      row_asked (cn_uuid cn) (gt_table gt) (gt_table gt')"
proof -
  have q: "aq_type (restore_request i project) = ''data_migration''" "aq_target (restore_request i project) = None"
    "fold (\<lambda>(k, v). dict_set k v) (aq_discriminants (restore_request i project)) [] = [(''snapshot'', i)]"
    by (simp_all add: restore_request_def)
  show "row_used cn None [(''snapshot'', i)] (gt_table gt) (gt_table gt')" if "st' \<noteq> st"
  proof -
    from assms(2) that obtain dn where a: "aegis_evaluate cn ae ps (restore_request i project) gt = (Inr dn, gt')"
        "ad_verdict dn = GateAllow"
      by (auto simp: restore_snapshot_def split: sum.splits prod.splits if_splits)
    from gate_allows_used[OF assms(1) a q(1)] show ?thesis by (simp only: q)
  qed
  show "gt_table gt' = gt_table gt \<or> row_used cn None [(''snapshot'', i)] (gt_table gt) (gt_table gt') \<or>
      row_asked (cn_uuid cn) (gt_table gt) (gt_table gt')"
  proof -
    obtain x gt2 where a: "aegis_evaluate cn ae ps (restore_request i project) gt = (x, gt2)" by fastforce
    with assms(2) have "gt' = gt \<or> gt' = gt2" by (auto simp: restore_snapshot_def split: sum.splits if_splits)
    with gate_queue_change[OF a q(1)] show ?thesis by (auto simp only: q)
  qed
qed

text \<open>
  C38. As long as the policy gives data migrations to a human (mandatory validation, or a category it does not
  know), restoring a point changes a workspace or a row of the state only by using an approval for this very
  point: a row of the queue that stands as approved, is not past its date, has a use left, and was given for the
  restoration of this point or for data migrations in a folder above the workspace; one use less is written in
  that row, which is closed when none is left. A row of the state changes only if, in the queue so written,
  another use is taken in the same way of an approval for the snapshot of the point. Apart from these uses the
  restoration adds to the queue at most one pending request.
\<close>

theorem restoration_needs_consent:
  fixes en :: "('g, 'e) point_env"
  assumes "human_only en" and "restaurer_point en g0 i project w = (r, w')"
    and "pw_disk w' \<noteq> pw_disk w \<or> pw_state w' \<noteq> pw_state w"
  shows "\<exists>pt c tab. lire_point i w = (Inr (pt, c) :: 'e point_error + _) \<and>
    row_used (pn_consent en) (Some (pt_workspace pt)) [(''checkpoint'', i)] (gt_table (pw_gate w)) tab \<and>
    (if pw_state w' = pw_state w
     then gt_table (pw_gate w') = tab \<or>
       row_used ((pn_consent en)\<lparr>cn_uuid := pn_uuid2 en\<rparr>) None [(''snapshot'', pt_instantane pt)] tab (gt_table (pw_gate w')) \<or>
       row_asked (pn_uuid2 en) tab (gt_table (pw_gate w'))
     else row_used ((pn_consent en)\<lparr>cn_uuid := pn_uuid2 en\<rparr>) None [(''snapshot'', pt_instantane pt)] tab (gt_table (pw_gate w')))"
proof -
  note human = assms(1)[unfolded human_only_def]
  from assms(2,3) obtain pt c where l: "lire_point i w = (Inr (pt, c) :: 'e point_error + _)"
    by (cases "lire_point i w :: 'e point_error + _") (auto simp: restaurer_point_def)
  obtain x gt where ev: "aegis_evaluate (pn_consent en) (pn_engine en) (pn_projects en) (point_request i project pt) (pw_gate w) = (x, gt)"
    by fastforce
  obtain dn where x: "x = Inr dn" "ad_verdict dn = GateAllow"
    using assms(2,3) l ev by (cases x) (auto simp: restaurer_point_def split: if_splits)
  have used: "row_used (pn_consent en) (Some (pt_workspace pt)) [(''checkpoint'', i)] (gt_table (pw_gate w)) (gt_table gt)"
    using gate_allows_used[OF human ev[unfolded x(1)] x(2)] by (simp add: point_request_def)
  obtain y tg where f: "restaurer_fichiers en pt c (workspace_of g0 pt w) = (y, tg)" by (metis prod.collapse)
  obtain m st gt' where s: "restaurer_etat en pt project (pw_state w, gt) = (m, st, gt')" by (metis prod.collapse)
  have same: "w' = w\<lparr>pw_gate := gt, pw_disk := dict_set (pt_workspace pt) tg (pw_disk w)\<rparr> \<or>
      pw_gate w' = gt' \<and> pw_state w' = st"
    using assms(2) l ev x f s by (cases y; cases m) (auto simp: restaurer_point_def)
  have rest: "restaurer_etat en pt project (pw_state w, gt) = (m, st, gt') \<Longrightarrow> st = pw_state w \<and> gt' = gt \<or>
      (\<exists>q. restore_snapshot ((pn_consent en)\<lparr>cn_uuid := pn_uuid2 en\<rparr>) (pn_engine en) (pn_projects en)
        (pt_instantane pt) project (pw_state w, gt) = (q, st, gt'))"
    by (auto simp: restaurer_etat_def split: if_splits sum.splits prod.splits)
  show ?thesis
    using l used same rest[OF s] snapshot_needs_consent[OF human, where gt = gt and st = "pw_state w"]
    by (intro exI[of _ pt] exI[of _ c] exI[of _ "gt_table gt"]) fastforce
qed

text \<open>
  A file that became a directory does not come back: the copy is written inside the directory, and the
  restoration is reported as done.
\<close>

lemma directory_in_the_way:
  "restaurer_copie (\<lambda>_. False) (\<lambda>s. s)
     \<lparr>cp_manifest = Some [([''a''], ''old'')], cp_content = [([''a''], ''old'')]\<rparr>
     \<lparr>tr_files = [([''a'', ''b''], \<lparr>fe_content = ''new'', fe_readable = True\<rparr>)], tr_dirs = [[''a'']]\<rparr> =
   (Inr \<lparr>ec_restaurer = [], ec_recreer = [[''a'']], ec_supprimer = [[''a'', ''b'']]\<rparr>,
    \<lparr>tr_files = [([''a'', ''a''], \<lparr>fe_content = ''old'', fe_readable = True\<rparr>)], tr_dirs = [[''a'']]\<rparr>)"
  by code_simp

subsection \<open>A return at work\<close>

definition sample_file :: "string \<Rightarrow> file_entry" where
  "sample_file x = \<lparr>fe_content = x, fe_readable = True\<rparr>"

definition sample_tree :: tree where
  "sample_tree = \<lparr>tr_files = [([''a''], sample_file ''1''), ([''.git'', ''x''], sample_file ''g'')], tr_dirs = [[''.git'']]\<rparr>"

definition later_tree :: tree where
  "later_tree = \<lparr>tr_files = [([''a''], sample_file ''2''), ([''b''], sample_file ''3'')], tr_dirs = []\<rparr>"

definition sample_copy :: copy_of_tree where
  "sample_copy = \<lparr>cp_manifest = Some [([''a''], ''1'')], cp_content = [([''a''], ''1'')]\<rparr>"

lemma sample_copied: "copier (\<lambda>s. s) (Some 10) sample_tree = Inr sample_copy"
  by code_simp

theorem restore_takes_back_witness:
  "\<exists>ec restored. restaurer_copie (\<lambda>_. False) (\<lambda>s. s) sample_copy later_tree = (Inr ec, restored) \<and>
     content_at restored [''a''] = Some ''1'' \<and> content_at restored [''b''] = None"
proof -
  have v: "visible [''a'']" "visible [''b'']" "\<not> visible [''.git'', ''x'']" by code_simp+
  have s: "snapshot_paths sample_tree = {[''a'']}"
    using v by (auto simp: snapshot_paths_def sample_tree_def)
  have f: "tree_files later_tree = [([''a''], sample_file ''2''), ([''b''], sample_file ''3'')]" by code_simp
  have "\<exists>ec restored. restaurer_copie (\<lambda>_. False) (\<lambda>s. s) sample_copy later_tree = (Inr ec, restored) \<and>
      (\<forall>p. content_at restored p = (if visible p then content_at sample_tree p else content_at later_tree p))"
  proof (rule restore_takes_back[OF sample_copied])
    show "apart (snapshot_paths sample_tree)" "writable_into (snapshot_paths sample_tree) later_tree"
      unfolding s by (simp_all add: apart_def writable_into_def parents_def later_tree_def)
    show "\<forall>(p, e) \<in> set (tree_files later_tree). fe_readable e" unfolding f by (simp add: sample_file_def)
  qed (simp_all add: one_entry_def sample_tree_def later_tree_def inj_on_def)
  with v show ?thesis by (fastforce simp: content_at_def sample_tree_def sample_file_def)
qed

definition migration_approval :: "(string \<times> string) list \<Rightarrow> string option \<Rightarrow> approval" where
  "migration_approval d target = sample_approval\<lparr>ap_fingerprint := brut sample_fs ''data_migration'' target d,
     ap_action := ''data_migration''\<rparr>"

definition sample_task :: task_row where
  "sample_task = \<lparr>tk_project = None, tk_title = ''t'', tk_description = '''', tk_objective = '''', tk_status = TkTodo,
     tk_priority = TkMedium, tk_agent = None, tk_created = 0, tk_updated = 0, tk_models = [], tk_files = [],
     tk_tests = None, tk_history = []\<rparr>"

definition sample_app :: app_state where
  "sample_app = \<lparr>as_tasks = [(''k'', sample_task)], as_runs = [], as_snapshots = []\<rparr>"

definition emptied_app :: app_state where
  "emptied_app = (snd (create_snapshot 5 ''s'' ''why'' [] sample_app))\<lparr>as_tasks := []\<rparr>"

definition snapshot_gate :: gate_state where
  "snapshot_gate = \<lparr>gt_table = [(''y'', migration_approval [(''snapshot'', ''s'')] None)], gt_bus = [], gt_hub = []\<rparr>"

lemma sample_restored:
  "case fst (restore_snapshot sample_consent sample_engine empty_projects ''s'' None (emptied_app, snapshot_gate)) of
     Inr r \<Rightarrow> ro_restored r | Inl _ \<Rightarrow> False"
  by code_simp

theorem snapshot_restores_rows_witness:
  "\<exists>r now' gt'. restore_snapshot sample_consent sample_engine empty_projects ''s'' None (emptied_app, snapshot_gate) =
      (Inr r, now', gt') \<and> dict_get (as_tasks now') ''k'' = Some sample_task"
proof -
  obtain x now' gt' where r: "restore_snapshot sample_consent sample_engine empty_projects ''s'' None
      (emptied_app, snapshot_gate) = (x, now', gt')" by (metis prod.collapse)
  with sample_restored obtain y where x: "x = Inr y" "ro_restored y" by (cases x) auto
  obtain info st1 where c: "create_snapshot 5 ''s'' ''why'' [] sample_app = (info, st1)" by fastforce
  have "dict_get (as_snapshots emptied_app) ''s'' = dict_get (as_snapshots st1) ''s''" using c by (simp add: emptied_app_def)
  from snapshot_restores_rows[OF _ c this r[unfolded x(1)]] x(2)
  have "dict_get (as_tasks now') ''k'' = Some sample_task" by (simp add: one_row_def sample_app_def)
  with r x(1) show ?thesis by blast
qed

definition no_git :: "(unit, unit) git_ops" where
  "no_git = \<lparr>go_est_un_depot = (\<lambda>_. False), go_prendre = (\<lambda>_ _. Inl ()), go_existe = (\<lambda>_ _. False),
     go_ecart = (\<lambda>_ _. Inl ()), go_restaurer = (\<lambda>tg _. (Inl (), tg)), go_supprimer = (\<lambda>_ _. ())\<rparr>"

definition sample_point_env :: "(unit, unit) point_env" where
  "sample_point_env = \<lparr>pn_consent = sample_consent, pn_uuid2 = ''m'', pn_engine = sample_engine,
     pn_projects = empty_projects, pn_git = no_git, pn_refuses = (\<lambda>_. False), pn_id = ''p'', pn_snapshot = ''s'',
     pn_state_fails = False\<rparr>"

definition sample_point :: point where
  "sample_point = \<lparr>pt_workspace = ''/w'', pt_motif = '''', pt_mission = '''', pt_run = '''', pt_mecanisme = ParFichiers,
     pt_commit = '''', pt_instantane = '''', pt_fichiers = 1, pt_cree = 0\<rparr>"

definition sample_point_world :: "unit point_world" where
  "sample_point_world = \<lparr>pw_disk = [(''/w'', (later_tree, ()))],
     pw_points = [(''p'', \<lparr>pe_fiche = Some sample_point, pe_copie = sample_copy\<rparr>)], pw_state = sample_app,
     pw_gate = \<lparr>gt_table = [(''z'', migration_approval [(''checkpoint'', ''p'')] (Some ''/w''))], gt_bus = [], gt_hub = []\<rparr>\<rparr>"

lemma sample_point_restores:
  "dict_get (pw_disk (snd (restaurer_point sample_point_env () ''p'' None sample_point_world))) ''/w'' \<noteq>
   dict_get (pw_disk sample_point_world) ''/w''"
  by code_simp

theorem restoration_needs_consent_witness:
  "\<exists>tab. row_used sample_consent (Some ''/w'') [(''checkpoint'', ''p'')] (gt_table (pw_gate sample_point_world)) tab \<and>
     map_option (\<lambda>e. (ap_status e, ap_usages e)) (dict_get tab ''z'') = Some (ApUsed, Some 0)"
proof -
  obtain r w' where r: "restaurer_point sample_point_env () ''p'' None sample_point_world = (r, w')" by (metis prod.collapse)
  with sample_point_restores have ch: "pw_disk w' \<noteq> pw_disk sample_point_world" by auto
  have h: "human_only sample_point_env" by (simp add: human_only_def sample_point_env_def sample_engine_def get_category_def)
  from restoration_needs_consent[OF h r] ch obtain tab where u:
      "row_used sample_consent (Some ''/w'') [(''checkpoint'', ''p'')] (gt_table (pw_gate sample_point_world)) tab"
    by (auto simp: lire_point_def sample_point_world_def sample_point_def sample_point_env_def)
  moreover have "map_option (\<lambda>e. (ap_status e, ap_usages e)) (dict_get tab ''z'') = Some (ApUsed, Some 0)"
    using u by (auto simp: row_used_def consumed_row_def sample_point_world_def after_use_def migration_approval_def
        sample_approval_def)
  ultimately show ?thesis by blast
qed

end
