(* ===== verification/MissionStore.thy ===== *)
theory MissionStore
  imports MissionExecutor Contract TaskScheduling
begin

text \<open>
  How missions survive: the documents and the table of \<^verbatim>\<open>backend/mission/persistance.py\<close>, the bounded cache
  \<^verbatim>\<open>_RegistreMissions\<close> of \<^verbatim>\<open>mission/routes.py\<close> in front of it, and the export of
  \<^verbatim>\<open>graph_serializer.py\<close>. A document is the payload value that \<^verbatim>\<open>json\<close> writes and reads. The text of an
  instant and its reading are the two functions of \<open>stamps\<close>. The table is an association list in the order of
  \<^verbatim>\<open>rowid\<close>: a replaced row gets a new one, so it moves to the end. A database that does not answer is the flag
  \<open>ok\<close> of an operation. Mission objects are shared: an executor changes in place the object that the cache holds.
  So the objects live in a store of their own, \<open>rg_objects\<close>, and the cache and the callers hold references, the
  positions in it.
\<close>

subsection \<open>Documents\<close>

record stamps =
  sm_text :: "time \<Rightarrow> string"
  sm_read :: "string \<Rightarrow> time option"

fun ms_status_value :: "mission_status \<Rightarrow> string" where
  "ms_status_value MS_CREATED = ''created''"
| "ms_status_value MS_VALIDATED = ''validated''"
| "ms_status_value MS_READY = ''ready''"
| "ms_status_value MS_RUNNING = ''running''"
| "ms_status_value MS_PAUSED = ''paused''"
| "ms_status_value MS_COMPLETED = ''completed''"
| "ms_status_value MS_FAILED = ''failed''"
| "ms_status_value MS_CANCELLED = ''cancelled''"

fun ms_priority_value :: "mission_priority \<Rightarrow> string" where
  "ms_priority_value Priority_CRITICAL = ''critical''"
| "ms_priority_value Priority_HIGH = ''high''"
| "ms_priority_value Priority_NORMAL = ''normal''"
| "ms_priority_value Priority_BACKGROUND = ''background''"

fun ms_type_value :: "mission_type \<Rightarrow> string" where
  "ms_type_value Mission_DEVELOPMENT = ''development''"
| "ms_type_value Mission_RESEARCH = ''research''"
| "ms_type_value Mission_ANALYSIS = ''analysis''"
| "ms_type_value Mission_DEPLOYMENT = ''deployment''"
| "ms_type_value Mission_MAINTENANCE = ''maintenance''"
| "ms_type_value Mission_CUSTOM = ''custom''"

fun dag_status_value :: "dag_status \<Rightarrow> string" where
  "dag_status_value Dag_PENDING = ''pending''"
| "dag_status_value Dag_READY = ''ready''"
| "dag_status_value Dag_RUNNING = ''running''"
| "dag_status_value Dag_COMPLETED = ''completed''"
| "dag_status_value Dag_FAILED = ''failed''"
| "dag_status_value Dag_BLOCKED = ''blocked''"
| "dag_status_value Dag_SKIPPED = ''skipped''"

definition ms_statuses :: "mission_status list" where
  "ms_statuses = [MS_CREATED, MS_VALIDATED, MS_READY, MS_RUNNING, MS_PAUSED, MS_COMPLETED, MS_FAILED, MS_CANCELLED]"

definition ms_priorities :: "mission_priority list" where
  "ms_priorities = [Priority_CRITICAL, Priority_HIGH, Priority_NORMAL, Priority_BACKGROUND]"

definition ms_types :: "mission_type list" where
  "ms_types = [Mission_DEVELOPMENT, Mission_RESEARCH, Mission_ANALYSIS, Mission_DEPLOYMENT, Mission_MAINTENANCE,
     Mission_CUSTOM]"

definition dag_statuses :: "dag_status list" where
  "dag_statuses = [Dag_PENDING, Dag_READY, Dag_RUNNING, Dag_COMPLETED, Dag_FAILED, Dag_BLOCKED, Dag_SKIPPED]"

definition texts_brut :: "string list \<Rightarrow> pyval" where
  "texts_brut xs = PList (map PStr xs)"

definition stamp_brut :: "stamps \<Rightarrow> time option \<Rightarrow> pyval" where
  "stamp_brut sm t = (case t of None \<Rightarrow> PNone | Some x \<Rightarrow> PStr (sm_text sm x))"

definition edge_brut :: "mission_edge \<Rightarrow> pyval" where
  "edge_brut e = PDict [(''edge_id'', PStr (me_id e)), (''source_id'', PStr (me_source e)),
     (''target_id'', PStr (me_target e)), (''type'', PStr (me_type e))]"

definition node_brut :: "stamps \<Rightarrow> mission_node \<Rightarrow> pyval" where
  "node_brut sm n = PDict
     [(''node_id'', PStr (mn_id n)), (''mission_id'', PStr (mn_mission n)), (''title'', PStr (mn_title n)),
      (''description'', PStr (mn_description n)), (''type'', PStr (mn_type n)),
      (''priority'', PStr (ms_priority_value (mn_priority n))), (''status'', PStr (dag_status_value (mn_status n))),
      (''preferred_agent'', PStr (mn_agent n)), (''preferred_runtime'', PStr (mn_runtime n)),
      (''benchmark_profile'', PStr (mn_profile n)), (''required_skills'', texts_brut (mn_skills n)),
      (''estimated_resources'', PDict (mn_resources n)), (''estimated_duration_ms'', PFloat (mn_duration n)),
      (''depends_on'', texts_brut (mn_depends n)), (''validation_criteria'', texts_brut (mn_criteria n)),
      (''expected_outputs'', texts_brut (mn_outputs n)), (''started_at'', stamp_brut sm (mn_started n)),
      (''completed_at'', stamp_brut sm (mn_completed n)), (''actual_duration_ms'', PFloat (mn_actual n)),
      (''result_summary'', PStr (mn_summary n))]"

definition context_brut :: "dag_context \<Rightarrow> pyval" where
  "context_brut c = PDict
     [(''project_id'', PStr (dc_project c)), (''user_id'', PStr (dc_user c)), (''repository'', PStr (dc_repository c)),
      (''branch'', PStr (dc_branch c)), (''local_path'', PStr (dc_local_path c)), (''tags'', texts_brut (dc_tags c)),
      (''metadata'', PDict (dc_metadata c))]"

definition en_brut :: "stamps \<Rightarrow> mission \<Rightarrow> metadata" where
  "en_brut sm m =
     [(''mission_id'', PStr (ms_id m)), (''title'', PStr (ms_title m)), (''description'', PStr (ms_description m)),
      (''objective'', PStr (ms_objective m)), (''type'', PStr (ms_type_value (ms_type m))),
      (''priority'', PStr (ms_priority_value (ms_priority m))), (''status'', PStr (ms_status_value (ms_status m))),
      (''context'', context_brut (ms_context m)), (''nodes'', PList (map (node_brut sm) (ms_nodes m))),
      (''edges'', PList (map edge_brut (ms_edges m))), (''metadata'', PDict (ms_metadata m)),
      (''max_duration_seconds'', PFloat (ms_max_duration m)), (''created_at'', stamp_brut sm (Some (ms_created m))),
      (''updated_at'', stamp_brut sm (ms_updated m)), (''started_at'', stamp_brut sm (ms_started m)),
      (''completed_at'', stamp_brut sm (ms_completed m))]"

text \<open>
  Reading back, \<^verbatim>\<open>_en_objet\<close> with \<^verbatim>\<open>_convertir\<close>: an absent field takes the default of its class, an unknown
  one is ignored. \<open>Undeclared\<close> is a field that would hold a value of another type than the class declares: the
  untyped source stores it, a \<^verbatim>\<open>None\<close> for a member that the enum does not have, and the records cannot.
\<close>

datatype read_error = Undeclared string | NotADocument

definition champ :: "metadata \<Rightarrow> string \<Rightarrow> 'a \<Rightarrow> (pyval \<Rightarrow> 'a option) \<Rightarrow> read_error + 'a" where
  "champ d k dflt rd = (case dict_get d k of None \<Rightarrow> Inr dflt
     | Some v \<Rightarrow> (case rd v of None \<Rightarrow> Inl (Undeclared k) | Some x \<Rightarrow> Inr x))"

fun a_text :: "pyval \<Rightarrow> string option" where
  "a_text (PStr s) = Some s"
| "a_text _ = None"

fun a_number :: "pyval \<Rightarrow> rat option" where
  "a_number (PFloat r) = Some r"
| "a_number (PInt i) = Some (of_int i)"
| "a_number _ = None"

fun a_dict :: "pyval \<Rightarrow> metadata option" where
  "a_dict (PDict d) = Some d"
| "a_dict _ = None"

fun all_some :: "('a \<Rightarrow> 'b option) \<Rightarrow> 'a list \<Rightarrow> 'b list option" where
  "all_some f [] = Some []"
| "all_some f (x # xs) = (case f x of None \<Rightarrow> None | Some y \<Rightarrow> map_option ((#) y) (all_some f xs))"

fun some_texts :: "pyval \<Rightarrow> string list option" where
  "some_texts (PList xs) = all_some a_text xs"
| "some_texts _ = None"

fun a_stamp :: "stamps \<Rightarrow> pyval \<Rightarrow> time option option" where
  "a_stamp sm PNone = Some None"
| "a_stamp sm (PStr s) = Some (sm_read sm s)"
| "a_stamp sm _ = None"

definition one_of :: "('e \<Rightarrow> string) \<Rightarrow> 'e list \<Rightarrow> pyval \<Rightarrow> 'e option" where
  "one_of value es v = List.find (\<lambda>e. v = PStr (value e)) es"

record doc_env =
  dv_stamps :: stamps
  dv_id :: string
  dv_node_id :: "nat \<Rightarrow> string"
  dv_edge_id :: "nat \<Rightarrow> string"
  dv_now :: time

fun edge_objet :: "string \<Rightarrow> pyval \<Rightarrow> read_error + mission_edge" where
  "edge_objet uuid (PDict d) =
     bind_sum (champ d ''edge_id'' uuid a_text) (\<lambda>i.
     bind_sum (champ d ''source_id'' '''' a_text) (\<lambda>s.
     bind_sum (champ d ''target_id'' '''' a_text) (\<lambda>t.
     bind_sum (champ d ''type'' ''depends_on'' a_text) (\<lambda>ty.
       Inr \<lparr>me_id = i, me_source = s, me_target = t, me_type = ty\<rparr>))))"
| "edge_objet uuid _ = Inl NotADocument"

fun node_objet :: "stamps \<Rightarrow> string \<Rightarrow> pyval \<Rightarrow> read_error + mission_node" where
  "node_objet sm uuid (PDict d) =
     bind_sum (champ d ''node_id'' uuid a_text) (\<lambda>i.
     bind_sum (champ d ''mission_id'' '''' a_text) (\<lambda>mi.
     bind_sum (champ d ''title'' '''' a_text) (\<lambda>ti.
     bind_sum (champ d ''description'' '''' a_text) (\<lambda>de.
     bind_sum (champ d ''type'' ''task'' a_text) (\<lambda>ty.
     bind_sum (champ d ''priority'' Priority_NORMAL (one_of ms_priority_value ms_priorities)) (\<lambda>pr.
     bind_sum (champ d ''status'' Dag_PENDING (one_of dag_status_value dag_statuses)) (\<lambda>st.
     bind_sum (champ d ''preferred_agent'' '''' a_text) (\<lambda>ag.
     bind_sum (champ d ''preferred_runtime'' '''' a_text) (\<lambda>rt.
     bind_sum (champ d ''benchmark_profile'' '''' a_text) (\<lambda>bp.
     bind_sum (champ d ''required_skills'' [] some_texts) (\<lambda>sk.
     bind_sum (champ d ''estimated_resources'' [] a_dict) (\<lambda>re.
     bind_sum (champ d ''estimated_duration_ms'' 0 a_number) (\<lambda>du.
     bind_sum (champ d ''depends_on'' [] some_texts) (\<lambda>dp.
     bind_sum (champ d ''validation_criteria'' [] some_texts) (\<lambda>cr.
     bind_sum (champ d ''expected_outputs'' [] some_texts) (\<lambda>ou.
     bind_sum (champ d ''started_at'' None (a_stamp sm)) (\<lambda>sa.
     bind_sum (champ d ''completed_at'' None (a_stamp sm)) (\<lambda>ca.
     bind_sum (champ d ''actual_duration_ms'' 0 a_number) (\<lambda>ac.
     bind_sum (champ d ''result_summary'' '''' a_text) (\<lambda>su.
       Inr \<lparr>mn_id = i, mn_mission = mi, mn_title = ti, mn_description = de, mn_type = ty, mn_priority = pr,
            mn_status = st, mn_agent = ag, mn_runtime = rt, mn_profile = bp, mn_skills = sk, mn_resources = re,
            mn_duration = du, mn_depends = dp, mn_criteria = cr, mn_outputs = ou, mn_started = sa,
            mn_completed = ca, mn_actual = ac, mn_summary = su\<rparr>))))))))))))))))))))"
| "node_objet sm uuid _ = Inl NotADocument"

definition empty_context :: dag_context where
  "empty_context = \<lparr>dc_project = [], dc_user = [], dc_repository = [], dc_branch = [], dc_local_path = [],
     dc_tags = [], dc_metadata = []\<rparr>"

fun context_objet :: "pyval \<Rightarrow> read_error + dag_context" where
  "context_objet (PDict d) =
     bind_sum (champ d ''project_id'' '''' a_text) (\<lambda>p.
     bind_sum (champ d ''user_id'' '''' a_text) (\<lambda>u.
     bind_sum (champ d ''repository'' '''' a_text) (\<lambda>r.
     bind_sum (champ d ''branch'' '''' a_text) (\<lambda>b.
     bind_sum (champ d ''local_path'' '''' a_text) (\<lambda>l.
     bind_sum (champ d ''tags'' [] some_texts) (\<lambda>t.
     bind_sum (champ d ''metadata'' [] a_dict) (\<lambda>md.
       Inr \<lparr>dc_project = p, dc_user = u, dc_repository = r, dc_branch = b, dc_local_path = l, dc_tags = t,
            dc_metadata = md\<rparr>)))))))"
| "context_objet _ = Inl NotADocument"

text \<open>\<^verbatim>\<open>[_en_objet(C, v) for v in (valeur or [])]\<close>: a false value that is not \<^verbatim>\<open>None\<close> is the empty list.\<close>

definition objets :: "metadata \<Rightarrow> string \<Rightarrow> (nat \<Rightarrow> pyval \<Rightarrow> read_error + 'a) \<Rightarrow> read_error + 'a list" where
  "objets d k rd = (case dict_get d k of None \<Rightarrow> Inr []
     | Some v \<Rightarrow> (if v = PNone then Inl (Undeclared k) else if \<not> truthy v then Inr []
         else (case v of PList vs \<Rightarrow> map_sum_list (\<lambda>(j, x). rd j x) (enumerate 0 vs) | _ \<Rightarrow> Inl (Undeclared k))))"

definition en_objet :: "doc_env \<Rightarrow> metadata \<Rightarrow> read_error + mission" where
  "en_objet dv d =
     (let sm = dv_stamps dv in
      bind_sum (champ d ''mission_id'' (dv_id dv) a_text) (\<lambda>i.
      bind_sum (champ d ''title'' '''' a_text) (\<lambda>ti.
      bind_sum (champ d ''description'' '''' a_text) (\<lambda>de.
      bind_sum (champ d ''objective'' '''' a_text) (\<lambda>ob.
      bind_sum (champ d ''type'' Mission_CUSTOM (one_of ms_type_value ms_types)) (\<lambda>ty.
      bind_sum (champ d ''priority'' Priority_NORMAL (one_of ms_priority_value ms_priorities)) (\<lambda>pr.
      bind_sum (champ d ''status'' MS_CREATED (one_of ms_status_value ms_statuses)) (\<lambda>st.
      bind_sum (case dict_get d ''context'' of None \<Rightarrow> Inr empty_context | Some v \<Rightarrow> context_objet v) (\<lambda>cx.
      bind_sum (objets d ''nodes'' (\<lambda>j. node_objet sm (dv_node_id dv j))) (\<lambda>ns.
      bind_sum (objets d ''edges'' (\<lambda>j. edge_objet (dv_edge_id dv j))) (\<lambda>es.
      bind_sum (champ d ''metadata'' [] a_dict) (\<lambda>md.
      bind_sum (champ d ''max_duration_seconds'' budget_par_defaut a_number) (\<lambda>mx.
      bind_sum (champ d ''created_at'' (dv_now dv) (\<lambda>v. Option.bind (a_stamp sm v) id)) (\<lambda>cr.
      bind_sum (champ d ''updated_at'' None (a_stamp sm)) (\<lambda>up.
      bind_sum (champ d ''started_at'' None (a_stamp sm)) (\<lambda>sa.
      bind_sum (champ d ''completed_at'' None (a_stamp sm)) (\<lambda>ca.
        Inr \<lparr>ms_id = i, ms_title = ti, ms_description = de, ms_objective = ob, ms_type = ty, ms_priority = pr,
             ms_status = st, ms_context = cx, ms_nodes = ns, ms_edges = es, ms_metadata = md, ms_max_duration = mx,
             ms_created = cr, ms_updated = up, ms_started = sa, ms_completed = ca\<rparr>)))))))))))))))))"

subsection \<open>The table\<close>

record mission_row =
  mw_titre :: string
  mw_statut :: string
  mw_type :: string
  mw_priorite :: string
  mw_projet :: string
  mw_cree :: time
  mw_maj :: "time option"
  mw_document :: metadata

type_synonym mission_table = "(string, mission_row) dict"

definition ligne_de :: "stamps \<Rightarrow> mission \<Rightarrow> mission_row" where
  "ligne_de sm m = \<lparr>mw_titre = ms_title m, mw_statut = ms_status_value (ms_status m), mw_type = ms_type_value (ms_type m),
     mw_priorite = ms_priority_value (ms_priority m), mw_projet = dc_project (ms_context m), mw_cree = ms_created m,
     mw_maj = ms_updated m, mw_document = en_brut sm m\<rparr>"

definition to_end :: "'k \<Rightarrow> 'v \<Rightarrow> ('k, 'v) dict \<Rightarrow> ('k, 'v) dict" where
  "to_end k v d = dict_del k d @ [(k, v)]"

definition enregistrer_mission :: "stamps \<Rightarrow> mission \<Rightarrow> mission_table \<Rightarrow> mission_table" where
  "enregistrer_mission sm m tab = to_end (ms_id m) (ligne_de sm m) tab"

definition depuis_ligne :: "doc_env \<Rightarrow> mission_row \<Rightarrow> mission option" where
  "depuis_ligne dv row = (case en_objet dv (mw_document row) of Inl _ \<Rightarrow> None | Inr m \<Rightarrow> Some m)"

definition lire_mission :: "doc_env \<Rightarrow> string \<Rightarrow> mission_table \<Rightarrow> mission option" where
  "lire_mission dv i tab = Option.bind (dict_get tab i) (depuis_ligne dv)"

text \<open>\<^verbatim>\<open>ORDER BY cree_le DESC, rowid DESC\<close>.\<close>

definition recent_first :: "mission_table \<Rightarrow> mission_table" where
  "recent_first tab = sort_key (\<lambda>(i, row). - mw_cree row) (rev tab)"

definition toutes_missions :: "doc_env \<Rightarrow> mission_table \<Rightarrow> mission list" where
  "toutes_missions dv tab = List.map_filter (\<lambda>(i, row). depuis_ligne dv row) (recent_first tab)"

definition identifiants_missions :: "mission_table \<Rightarrow> string list" where
  "identifiants_missions tab = map fst (recent_first tab)"

subsection \<open>The registry\<close>

type_synonym ref = nat

record mission_registry =
  rg_max :: nat
  rg_objects :: "mission list"
  rg_cache :: "(string, ref) dict"
  rg_store :: "mission_table option"
  rg_hydrated :: bool

definition max_missions :: nat where
  "max_missions = 200"

text \<open>A new process over the same database, which is \<open>None\<close> when it could not be opened.\<close>

definition new_registry :: "nat \<Rightarrow> mission_table option \<Rightarrow> mission_registry" where
  "new_registry mx store = \<lparr>rg_max = mx, rg_objects = [], rg_cache = [], rg_store = store, rg_hydrated = False\<rparr>"

datatype registry_error = UnknownMission string | NoAnswer

text \<open>A new object, and the change in place that every holder of the reference sees.\<close>

definition new_object :: "mission \<Rightarrow> mission_registry \<Rightarrow> ref \<times> mission_registry" where
  "new_object m r = (length (rg_objects r), r\<lparr>rg_objects := rg_objects r @ [m]\<rparr>)"

definition muter_mission :: "ref \<Rightarrow> mission \<Rightarrow> mission_registry \<Rightarrow> mission_registry" where
  "muter_mission a m r = r\<lparr>rg_objects := (rg_objects r)[a := m]\<rparr>"

abbreviation object :: "mission_registry \<Rightarrow> ref \<Rightarrow> mission" where
  "object r a \<equiv> rg_objects r ! a"

definition evincer :: "nat \<Rightarrow> (ref \<Rightarrow> mission) \<Rightarrow> (string, ref) dict \<Rightarrow> (string, ref) dict" where
  "evincer mx obj c0 = fold (\<lambda>(i, a) c. if length c \<le> mx then c
     else if terminal_mission (obj a) then dict_del i c else c) c0 c0"

definition mettre_en_cache :: "string \<Rightarrow> ref \<Rightarrow> mission_registry \<Rightarrow> mission_registry" where
  "mettre_en_cache i a r = r\<lparr>rg_cache := evincer (rg_max r) (object r) (to_end i a (rg_cache r))\<rparr>"

definition ecrire_au_magasin :: "stamps \<Rightarrow> mission \<Rightarrow> mission_registry \<Rightarrow> mission_registry" where
  "ecrire_au_magasin sm m r = r\<lparr>rg_store := map_option (enregistrer_mission sm m) (rg_store r)\<rparr>"

definition set_mission :: "stamps \<Rightarrow> bool \<Rightarrow> string \<Rightarrow> ref \<Rightarrow> mission_registry \<Rightarrow> mission_registry" where
  "set_mission sm ok i a r = mettre_en_cache i a (if ok then ecrire_au_magasin sm (object r a) r else r)"

definition persister_mission :: "stamps \<Rightarrow> bool \<Rightarrow> ref \<Rightarrow> mission_registry \<Rightarrow> (registry_error + unit) \<times> mission_registry" where
  "persister_mission sm ok a r =
     (if rg_store r \<noteq> None \<and> \<not> ok then (Inl NoAnswer, r)
      else (Inr (), mettre_en_cache (ms_id (object r a)) a (ecrire_au_magasin sm (object r a) r)))"

definition relire_mission :: "doc_env \<Rightarrow> bool \<Rightarrow> string \<Rightarrow> mission_registry \<Rightarrow> ref option \<times> mission_registry" where
  "relire_mission dv ok i r =
     (case (if ok then Option.bind (rg_store r) (lire_mission dv i) else None) of
        None \<Rightarrow> (None, r)
      | Some m \<Rightarrow> (case new_object m r of (a, r1) \<Rightarrow> (Some a, mettre_en_cache i a r1)))"

definition get_registry :: "doc_env \<Rightarrow> bool \<Rightarrow> string \<Rightarrow> mission_registry \<Rightarrow> ref option \<times> mission_registry" where
  "get_registry dv ok i r =
     (case dict_get (rg_cache r) i of Some a \<Rightarrow> (Some a, r) | None \<Rightarrow> relire_mission dv ok i r)"

definition has_mission :: "doc_env \<Rightarrow> bool \<Rightarrow> string \<Rightarrow> mission_registry \<Rightarrow> bool \<times> mission_registry" where
  "has_mission dv ok i r =
     (if i \<in> set (dict_keys (rg_cache r)) then (True, r)
      else (case relire_mission dv ok i r of (found, r') \<Rightarrow> (found \<noteq> None, r')))"

definition del_mission :: "doc_env \<Rightarrow> bool \<Rightarrow> string \<Rightarrow> mission_registry \<Rightarrow> (registry_error + unit) \<times> mission_registry" where
  "del_mission dv ok i r =
     (let present = i \<in> set (dict_keys (rg_cache r));
          r1 = r\<lparr>rg_cache := dict_del i (rg_cache r)\<rparr>
      in case rg_store r of
           None \<Rightarrow> (if present then Inr () else Inl (UnknownMission i), r1)
         | Some tab \<Rightarrow>
             if \<not> ok then (Inl NoAnswer, r1)
             else if \<not> present \<and> lire_mission dv i tab = None then (Inl (UnknownMission i), r1)
             else (Inr (), r1\<lparr>rg_store := Some (dict_del i tab)\<rparr>))"

definition pop_mission :: "doc_env \<Rightarrow> bool \<Rightarrow> string \<Rightarrow> mission_registry \<Rightarrow> (registry_error + ref) \<times> mission_registry" where
  "pop_mission dv ok i r =
     (case get_registry dv ok i r of
        (None, r1) \<Rightarrow> (Inl (UnknownMission i), r1)
      | (Some a, r1) \<Rightarrow> (case del_mission dv ok i r1 of (Inl e, r2) \<Rightarrow> (Inl e, r2) | (Inr _, r2) \<Rightarrow> (Inr a, r2)))"

definition clear_missions :: "bool \<Rightarrow> mission_registry \<Rightarrow> mission_registry" where
  "clear_missions ok r = r\<lparr>rg_cache := [], rg_hydrated := False,
     rg_store := (if ok then map_option (\<lambda>_. []) (rg_store r) else rg_store r)\<rparr>"

definition mettre_si_absente :: "mission \<Rightarrow> mission_registry \<Rightarrow> mission_registry" where
  "mettre_si_absente m r =
     (if ms_id m \<in> set (dict_keys (rg_cache r)) then r
      else (case new_object m r of (a, r1) \<Rightarrow> r1\<lparr>rg_cache := rg_cache r1 @ [(ms_id m, a)]\<rparr>))"

definition hydrater :: "doc_env \<Rightarrow> bool \<Rightarrow> mission_registry \<Rightarrow> mission_registry" where
  "hydrater dv ok r =
     (if rg_hydrated r then r
      else (let r1 = r\<lparr>rg_hydrated := True\<rparr>
        in case rg_store r of None \<Rightarrow> r1
         | Some tab \<Rightarrow> (if \<not> ok then r1
             else (let r2 = fold mettre_si_absente (rev (take (rg_max r) (toutes_missions dv tab))) r1
               in r2\<lparr>rg_cache := evincer (rg_max r2) (object r2) (rg_cache r2)\<rparr>))))"

definition registry_items :: "doc_env \<Rightarrow> bool \<Rightarrow> mission_registry \<Rightarrow> (string \<times> ref) list \<times> mission_registry" where
  "registry_items dv ok r = (rg_cache (hydrater dv ok r), hydrater dv ok r)"

definition registry_len :: "doc_env \<Rightarrow> bool \<Rightarrow> mission_registry \<Rightarrow> nat \<times> mission_registry" where
  "registry_len dv ok r = (length (rg_cache (hydrater dv ok r)), hydrater dv ok r)"

definition registry_total :: "bool \<Rightarrow> mission_registry \<Rightarrow> nat" where
  "registry_total ok r = (case rg_store r of Some tab \<Rightarrow> (if ok then length tab else length (rg_cache r))
     | None \<Rightarrow> length (rg_cache r))"

subsection \<open>Export\<close>

definition list_at :: "metadata \<Rightarrow> string \<Rightarrow> read_error + pyval list" where
  "list_at d k = champ d k [] (\<lambda>v. case v of PList vs \<Rightarrow> Some vs | _ \<Rightarrow> None)"

definition exported_node :: "mission_node \<Rightarrow> pyval" where
  "exported_node n = PDict
     [(''node_id'', PStr (mn_id n)), (''title'', PStr (mn_title n)), (''description'', PStr (mn_description n)),
      (''type'', PStr (mn_type n)), (''priority'', PStr (ms_priority_value (mn_priority n))),
      (''status'', PStr (dag_status_value (mn_status n))), (''preferred_agent'', PStr (mn_agent n)),
      (''preferred_runtime'', PStr (mn_runtime n)), (''benchmark_profile'', PStr (mn_profile n)),
      (''required_skills'', texts_brut (mn_skills n)), (''estimated_resources'', PDict (mn_resources n)),
      (''estimated_duration_ms'', PFloat (mn_duration n)), (''depends_on'', texts_brut (mn_depends n)),
      (''validation_criteria'', texts_brut (mn_criteria n)), (''expected_outputs'', texts_brut (mn_outputs n))]"

definition exported_edge :: "mission_edge \<Rightarrow> pyval" where
  "exported_edge e = PDict [(''edge_id'', PStr (me_id e)), (''source_id'', PStr (me_source e)),
     (''target_id'', PStr (me_target e))]"

definition mission_to_dict :: "stamps \<Rightarrow> mission \<Rightarrow> metadata" where
  "mission_to_dict sm m =
     [(''schema_version'', PStr ''1.0.0''), (''mission_id'', PStr (ms_id m)), (''title'', PStr (ms_title m)),
      (''description'', PStr (ms_description m)), (''objective'', PStr (ms_objective m)),
      (''type'', PStr (ms_type_value (ms_type m))), (''priority'', PStr (ms_priority_value (ms_priority m))),
      (''status'', PStr (ms_status_value (ms_status m))),
      (''context'', (let c = ms_context m in PDict
         [(''project_id'', PStr (dc_project c)), (''user_id'', PStr (dc_user c)), (''repository'', PStr (dc_repository c)),
          (''branch'', PStr (dc_branch c)), (''tags'', texts_brut (dc_tags c)), (''metadata'', PDict (dc_metadata c))])),
      (''nodes'', PList (map exported_node (ms_nodes m))), (''edges'', PList (map exported_edge (ms_edges m))),
      (''metadata'', PDict (ms_metadata m)), (''created_at'', stamp_brut sm (Some (ms_created m))),
      (''updated_at'', stamp_brut sm (ms_updated m))]"

text \<open>
  Reading an export: the keys of the dates are not read, an unknown member of an enum raises (\<open>Undeclared\<close>), and
  what the export does not carry takes its default.
\<close>

fun imported_node :: "pyval \<Rightarrow> read_error + mission_node" where
  "imported_node (PDict d) =
     bind_sum (champ d ''node_id'' '''' a_text) (\<lambda>i.
     bind_sum (champ d ''title'' '''' a_text) (\<lambda>ti.
     bind_sum (champ d ''description'' '''' a_text) (\<lambda>de.
     bind_sum (champ d ''type'' ''task'' a_text) (\<lambda>ty.
     bind_sum (champ d ''priority'' Priority_NORMAL (one_of ms_priority_value ms_priorities)) (\<lambda>pr.
     bind_sum (champ d ''status'' Dag_PENDING (one_of dag_status_value dag_statuses)) (\<lambda>st.
     bind_sum (champ d ''preferred_agent'' '''' a_text) (\<lambda>ag.
     bind_sum (champ d ''preferred_runtime'' '''' a_text) (\<lambda>rt.
     bind_sum (champ d ''benchmark_profile'' '''' a_text) (\<lambda>bp.
     bind_sum (champ d ''required_skills'' [] some_texts) (\<lambda>sk.
     bind_sum (champ d ''estimated_resources'' [] a_dict) (\<lambda>re.
     bind_sum (champ d ''estimated_duration_ms'' 0 a_number) (\<lambda>du.
     bind_sum (champ d ''depends_on'' [] some_texts) (\<lambda>dp.
     bind_sum (champ d ''validation_criteria'' [] some_texts) (\<lambda>cr.
     bind_sum (champ d ''expected_outputs'' [] some_texts) (\<lambda>ou.
       Inr \<lparr>mn_id = i, mn_mission = [], mn_title = ti, mn_description = de, mn_type = ty, mn_priority = pr,
            mn_status = st, mn_agent = ag, mn_runtime = rt, mn_profile = bp, mn_skills = sk, mn_resources = re,
            mn_duration = du, mn_depends = dp, mn_criteria = cr, mn_outputs = ou, mn_started = None,
            mn_completed = None, mn_actual = 0, mn_summary = []\<rparr>)))))))))))))))"
| "imported_node _ = Inl NotADocument"

fun imported_edge :: "pyval \<Rightarrow> read_error + mission_edge" where
  "imported_edge (PDict d) =
     bind_sum (champ d ''edge_id'' '''' a_text) (\<lambda>i.
     bind_sum (champ d ''source_id'' '''' a_text) (\<lambda>s.
     bind_sum (champ d ''target_id'' '''' a_text) (\<lambda>t.
       Inr \<lparr>me_id = i, me_source = s, me_target = t, me_type = ''depends_on''\<rparr>)))"
| "imported_edge _ = Inl NotADocument"

definition dict_to_mission :: "time \<Rightarrow> metadata \<Rightarrow> read_error + mission" where
  "dict_to_mission now d =
     bind_sum (champ d ''mission_id'' '''' a_text) (\<lambda>i.
     bind_sum (champ d ''title'' '''' a_text) (\<lambda>ti.
     bind_sum (champ d ''description'' '''' a_text) (\<lambda>de.
     bind_sum (champ d ''objective'' '''' a_text) (\<lambda>ob.
     bind_sum (champ d ''type'' Mission_CUSTOM (one_of ms_type_value ms_types)) (\<lambda>ty.
     bind_sum (champ d ''priority'' Priority_NORMAL (one_of ms_priority_value ms_priorities)) (\<lambda>pr.
     bind_sum (champ d ''status'' MS_CREATED (one_of ms_status_value ms_statuses)) (\<lambda>st.
     bind_sum (champ d ''metadata'' [] a_dict) (\<lambda>md.
     bind_sum (champ d ''context'' [] a_dict) (\<lambda>cx.
     bind_sum (champ cx ''project_id'' '''' a_text) (\<lambda>p.
     bind_sum (champ cx ''user_id'' '''' a_text) (\<lambda>u.
     bind_sum (champ cx ''repository'' '''' a_text) (\<lambda>rp.
     bind_sum (champ cx ''branch'' '''' a_text) (\<lambda>b.
     bind_sum (champ cx ''tags'' [] some_texts) (\<lambda>tg.
     bind_sum (champ cx ''metadata'' [] a_dict) (\<lambda>cm.
     bind_sum (list_at d ''nodes'') (\<lambda>nds. bind_sum (map_sum_list imported_node nds) (\<lambda>ns.
     bind_sum (list_at d ''edges'') (\<lambda>eds. bind_sum (map_sum_list imported_edge eds) (\<lambda>es.
       Inr \<lparr>ms_id = i, ms_title = ti, ms_description = de, ms_objective = ob, ms_type = ty, ms_priority = pr,
            ms_status = st, ms_context = \<lparr>dc_project = p, dc_user = u, dc_repository = rp, dc_branch = b,
              dc_local_path = [], dc_tags = tg, dc_metadata = cm\<rparr>, ms_nodes = ns, ms_edges = es, ms_metadata = md,
            ms_max_duration = budget_par_defaut, ms_created = now, ms_updated = None, ms_started = None,
            ms_completed = None\<rparr>)))))))))))))))))))"

end
