(* ===== verification/MissionStore_Correct.thy ===== *)
theory MissionStore_Correct
  imports MissionStore
begin

text \<open>
  What the durable registry of missions guarantees: a document reads back as the mission it was written from,
  a process reads what the database last took, whatever is evicted and whatever restarts, up to changes of the
  cached objects that are not saved, and the cache never drops a mission that is still active. The export keeps
  what it names and nothing else.
\<close>

subsection \<open>Documents read back\<close>

named_theorems reads_back "a value read from the payload it was written to"

definition node_instants :: "mission_node \<Rightarrow> time list" where
  "node_instants n = List.map_filter id [mn_started n, mn_completed n]"

definition mission_instants :: "mission \<Rightarrow> time list" where
  "mission_instants m = ms_created m # List.map_filter id [ms_updated m, ms_started m, ms_completed m]
     @ concat (map node_instants (ms_nodes m))"

definition reads :: "stamps \<Rightarrow> time list \<Rightarrow> bool" where
  "reads sm ts \<longleftrightarrow> list_all (\<lambda>t. sm_read sm (sm_text sm t) = Some t) ts"

lemma status_reads [reads_back]: "one_of ms_status_value ms_statuses (PStr (ms_status_value s)) = Some s"
  by (cases s) (simp_all add: one_of_def ms_statuses_def)

lemma priority_reads [reads_back]: "one_of ms_priority_value ms_priorities (PStr (ms_priority_value s)) = Some s"
  by (cases s) (simp_all add: one_of_def ms_priorities_def)

lemma type_reads [reads_back]: "one_of ms_type_value ms_types (PStr (ms_type_value s)) = Some s"
  by (cases s) (simp_all add: one_of_def ms_types_def)

lemma dag_status_reads [reads_back]: "one_of dag_status_value dag_statuses (PStr (dag_status_value s)) = Some s"
  by (cases s) (simp_all add: one_of_def dag_statuses_def)

lemma all_some_texts: "all_some a_text (map PStr xs) = Some xs"
  by (induction xs) simp_all

lemma texts_read [reads_back]: "some_texts (texts_brut xs) = Some xs"
  by (simp add: texts_brut_def all_some_texts)

lemma stamp_reads: "reads sm (case t of None \<Rightarrow> [] | Some x \<Rightarrow> [x]) \<Longrightarrow> a_stamp sm (stamp_brut sm t) = Some t"
  by (cases t) (simp_all add: stamp_brut_def reads_def)

lemma edge_reads [reads_back]: "edge_objet uuid (edge_brut e) = Inr e"
  by (simp add: edge_brut_def champ_def bind_sum_def)

lemma context_reads [reads_back]: "context_objet (context_brut c) = Inr c"
  by (simp add: context_brut_def champ_def bind_sum_def reads_back)

lemma node_reads:
  assumes "reads sm (node_instants n)"
  shows "node_objet sm uuid (node_brut sm n) = Inr n"
proof -
  have "a_stamp sm (stamp_brut sm (mn_started n)) = Some (mn_started n)"
    and "a_stamp sm (stamp_brut sm (mn_completed n)) = Some (mn_completed n)"
    using assms by (auto intro!: stamp_reads simp: node_instants_def map_filter_simps reads_def split: option.splits)
  then show ?thesis by (simp add: node_brut_def champ_def bind_sum_def reads_back)
qed

lemma enumerated_read:
  assumes "\<And>j x. x \<in> set xs \<Longrightarrow> rd j (wr x) = Inr x"
  shows "map_sum_list (\<lambda>(j, v). rd j v) (enumerate k (map wr xs)) = Inr xs"
  using assms by (induction xs arbitrary: k) (simp_all add: bind_sum_def)

lemma objets_read:
  assumes "\<And>j x. x \<in> set xs \<Longrightarrow> rd j (wr x) = Inr x" "dict_get d k = Some (PList (map wr xs))"
  shows "objets d k rd = Inr xs"
  using assms enumerated_read[of xs rd wr 0] by (cases xs) (simp_all add: objets_def)

lemma mission_reads:
  assumes "reads (dv_stamps dv) (mission_instants m)"
  shows "en_objet dv (en_brut (dv_stamps dv) m) = Inr m"
proof -
  let ?sm = "dv_stamps dv" and ?d = "en_brut (dv_stamps dv) m"
  have sp: "a_stamp ?sm (stamp_brut ?sm t) = Some t"
    if "t \<in> {Some (ms_created m), ms_updated m, ms_started m, ms_completed m}" for t
    using assms that by (intro stamp_reads) (auto simp: reads_def mission_instants_def map_filter_simps split: option.splits)
  have ns: "reads ?sm (node_instants n)" if "n \<in> set (ms_nodes m)" for n
    using assms that by (auto simp: reads_def mission_instants_def list_all_iff)
  have nodes: "objets ?d ''nodes'' (\<lambda>j. node_objet ?sm (dv_node_id dv j)) = Inr (ms_nodes m)"
    by (rule objets_read[where wr = "node_brut ?sm"]) (simp_all add: node_reads ns en_brut_def)
  have edges: "objets ?d ''edges'' (\<lambda>j. edge_objet (dv_edge_id dv j)) = Inr (ms_edges m)"
    by (rule objets_read[where wr = edge_brut]) (simp_all add: reads_back en_brut_def)
  have cx: "dict_get ?d ''context'' = Some (context_brut (ms_context m))" by (simp add: en_brut_def)
  have scalars: "champ ?d ''mission_id'' (dv_id dv) a_text = Inr (ms_id m)"
    "champ ?d ''title'' [] a_text = Inr (ms_title m)" "champ ?d ''description'' [] a_text = Inr (ms_description m)"
    "champ ?d ''objective'' [] a_text = Inr (ms_objective m)"
    "champ ?d ''type'' Mission_CUSTOM (one_of ms_type_value ms_types) = Inr (ms_type m)"
    "champ ?d ''priority'' Priority_NORMAL (one_of ms_priority_value ms_priorities) = Inr (ms_priority m)"
    "champ ?d ''status'' MS_CREATED (one_of ms_status_value ms_statuses) = Inr (ms_status m)"
    "champ ?d ''metadata'' [] a_dict = Inr (ms_metadata m)"
    "champ ?d ''max_duration_seconds'' budget_par_defaut a_number = Inr (ms_max_duration m)"
    by (simp_all add: champ_def en_brut_def reads_back)
  have dates: "champ ?d ''created_at'' (dv_now dv) (\<lambda>v. Option.bind (a_stamp ?sm v) id) = Inr (ms_created m)"
    "champ ?d ''updated_at'' None (a_stamp ?sm) = Inr (ms_updated m)"
    "champ ?d ''started_at'' None (a_stamp ?sm) = Inr (ms_started m)"
    "champ ?d ''completed_at'' None (a_stamp ?sm) = Inr (ms_completed m)"
    by (simp_all add: champ_def en_brut_def sp)
  show ?thesis
    by (simp add: en_objet_def Let_def scalars dates nodes edges cx reads_back bind_sum_def)
qed

subsection \<open>Eviction\<close>

fun drop_ended :: "('a \<Rightarrow> bool) \<Rightarrow> nat \<Rightarrow> (string, 'a) dict \<Rightarrow> (string, 'a) dict" where
  "drop_ended over 0 c = c"
| "drop_ended over (Suc k) [] = []"
| "drop_ended over (Suc k) ((i, m) # c) = (if over m then drop_ended over k c else (i, m) # drop_ended over (Suc k) c)"

lemma drop_ended_Nil [simp]: "drop_ended over k [] = []"
  by (cases k) simp_all

abbreviation "evict_one over mx \<equiv> \<lambda>(i, m) c. if length c \<le> mx then c else if over m then dict_del i c else c"

lemma evict_done: "length c \<le> mx \<Longrightarrow> fold (evict_one over mx) xs c = c"
  by (induction xs) auto

lemma delete_in_the_middle:
  "distinct (map fst (ys @ (i, m) # xs)) \<Longrightarrow> dict_del i (ys @ (i, m) # xs) = ys @ xs"
proof (induction ys)
  case Nil
  then show ?case by (auto simp: AList.delete_eq filter_id_conv image_iff)
qed auto

lemma evict_from:
  "distinct (map fst (ys @ xs)) \<Longrightarrow>
     fold (evict_one over mx) xs (ys @ xs) = ys @ drop_ended over (length (ys @ xs) - mx) xs"
proof (induction xs arbitrary: ys)
  case (Cons x xs)
  obtain i m where x: "x = (i, m)" by (cases x)
  show ?case
  proof (cases "length (ys @ x # xs) \<le> mx")
    case True then show ?thesis using evict_done[of "ys @ x # xs" mx over "x # xs"] by simp
  next
    case False
    then obtain k where k: "length (ys @ x # xs) - mx = Suc k" by (metis Suc_diff_Suc not_le)
    then have k': "length (ys @ xs) - mx = k" by simp
    show ?thesis
    proof (cases "over m")
      case True
      have "fold (evict_one over mx) (x # xs) (ys @ x # xs) = fold (evict_one over mx) xs (ys @ xs)"
        using False True Cons.prems delete_in_the_middle[of ys i m xs] by (simp add: x)
      also have "\<dots> = ys @ drop_ended over k xs" using Cons.IH[of ys] Cons.prems k' by (simp add: x)
      finally show ?thesis using True k by (simp add: x)
    next
      case False': False
      have "fold (evict_one over mx) (x # xs) (ys @ x # xs) = fold (evict_one over mx) xs ((ys @ [x]) @ xs)"
        using False' by (simp add: x)
      also have "\<dots> = (ys @ [x]) @ drop_ended over (Suc k) xs" using Cons.IH[of "ys @ [x]"] Cons.prems k by simp
      finally show ?thesis using False' k by (simp add: x)
    qed
  qed
qed simp

lemma evincer_exact:
  "distinct (map fst c) \<Longrightarrow> evincer mx obj c = drop_ended (\<lambda>a. terminal_mission (obj a)) (length c - mx) c"
  using evict_from[where ys = "[]" and xs = c and over = "\<lambda>a. terminal_mission (obj a)" and mx = mx]
  by (simp add: evincer_def)

lemma drop_ended_active: "filter (\<lambda>(i, m). \<not> over m) (drop_ended over k c) = filter (\<lambda>(i, m). \<not> over m) c"
  by (induction over k c rule: drop_ended.induct) auto

lemma drop_ended_sub: "set (drop_ended over k c) \<subseteq> set c"
  by (induction over k c rule: drop_ended.induct) auto

lemma drop_ended_distinct: "distinct (map fst c) \<Longrightarrow> distinct (map fst (drop_ended over k c))"
  by (induction over k c rule: drop_ended.induct) (auto dest: drop_ended_sub[THEN subsetD])

lemma drop_ended_settled: "filter (\<lambda>(i, m). over m) (drop_ended over k c) = drop k (filter (\<lambda>(i, m). over m) c)"
  by (induction over k c rule: drop_ended.induct) auto

lemma length_split: "length (filter (\<lambda>(i, m). P m) c) + length (filter (\<lambda>(i, m). \<not> P m) c) = length c"
  by (induction c) auto

lemma drop_ended_length:
  "length (drop_ended over k c) = length c - min k (length (filter (\<lambda>(i, m). over m) c))"
  using length_split[of over "drop_ended over k c"] length_split[of over c]
  by (simp add: drop_ended_settled drop_ended_active)

lemma drop_ended_none_left:
  assumes "length (drop_ended over k c) > length c - k"
  shows "\<forall>(i, m) \<in> set (drop_ended over k c). \<not> over m"
proof -
  let ?t = "length (filter (\<lambda>(i, m). over m) c)"
  have "?t \<le> length c" by simp
  then have "?t < k" using assms by (simp add: drop_ended_length min_def split: if_splits)
  then have "filter (\<lambda>(i, m). over m) (drop_ended over k c) = []" by (simp add: drop_ended_settled)
  then show ?thesis by (auto simp: filter_empty_conv)
qed

lemma evincer_facts:
  assumes "distinct (map fst c)"
  shows "set (evincer mx obj c) \<subseteq> set c" "distinct (map fst (evincer mx obj c))"
    and "(i, a) \<in> set c \<Longrightarrow> \<not> terminal_mission (obj a) \<Longrightarrow> (i, a) \<in> set (evincer mx obj c)"
    and "length (evincer mx obj c) > mx \<Longrightarrow> \<forall>(i, a) \<in> set (evincer mx obj c). \<not> terminal_mission (obj a)"
proof -
  let ?over = "\<lambda>a. terminal_mission (obj a)"
  note ex = evincer_exact[OF assms, of mx obj]
  show "set (evincer mx obj c) \<subseteq> set c" "distinct (map fst (evincer mx obj c))"
    using assms by (simp_all add: ex drop_ended_sub drop_ended_distinct)
  show "(i, a) \<in> set (evincer mx obj c)" if "(i, a) \<in> set c" "\<not> terminal_mission (obj a)"
    using that arg_cong[OF drop_ended_active[of ?over "length c - mx" c], of set] by (auto simp: ex)
  show "\<forall>(i, a) \<in> set (evincer mx obj c). \<not> terminal_mission (obj a)" if "length (evincer mx obj c) > mx"
    using that drop_ended_none_left[of c "length c - mx" ?over] by (cases "length c \<le> mx") (auto simp: ex)
qed

subsection \<open>The table and the cache\<close>

text \<open>
  The registry at work. A caller makes an object (\<open>RNew\<close>), changes one in place (\<open>RMutate\<close>: any other contents
  under the same identifier), registers it (\<open>RSet\<close>) or asks for its change to be kept (\<open>RPersist\<close>), by its
  reference; the flag says whether the database answers. A reference that denotes no object does nothing.
\<close>

datatype registry_op =
    RNew mission
  | RMutate ref mission
  | RSet ref bool
  | RPersist ref bool
  | RGet string bool
  | RHas string bool
  | RDel string bool
  | RPop string bool
  | RItems bool
  | RClear bool
  | RRestart

fun registry_step :: "doc_env \<Rightarrow> registry_op \<Rightarrow> mission_registry \<Rightarrow> mission_registry" where
  "registry_step dv (RNew m) r = snd (new_object m r)"
| "registry_step dv (RMutate a m) r =
     (if a < length (rg_objects r) then muter_mission a (m\<lparr>ms_id := ms_id (object r a)\<rparr>) r else r)"
| "registry_step dv (RSet a ok) r =
     (if a < length (rg_objects r) then set_mission (dv_stamps dv) ok (ms_id (object r a)) a r else r)"
| "registry_step dv (RPersist a ok) r =
     (if a < length (rg_objects r) then snd (persister_mission (dv_stamps dv) ok a r) else r)"
| "registry_step dv (RGet i ok) r = snd (get_registry dv ok i r)"
| "registry_step dv (RHas i ok) r = snd (has_mission dv ok i r)"
| "registry_step dv (RDel i ok) r = snd (del_mission dv ok i r)"
| "registry_step dv (RPop i ok) r = snd (pop_mission dv ok i r)"
| "registry_step dv (RItems ok) r = snd (registry_items dv ok r)"
| "registry_step dv (RClear ok) r = clear_missions ok r"
| "registry_step dv RRestart r = new_registry (rg_max r) (rg_store r)"

text \<open>
  What should be kept, from the operations and the objects alone: the contents an object had when the database
  last took it, until its deletion. And the identifiers with an unsaved change: an object changed in place or
  registered in spite of the database, and not taken by the database since. Deleting, clearing and restarting
  drop the objects, so nothing is unsaved then.
\<close>

fun taken :: "registry_op \<Rightarrow> mission list \<Rightarrow> (string \<rightharpoonup> mission) \<Rightarrow> (string \<rightharpoonup> mission)" where
  "taken (RSet a ok) H A = (if ok \<and> a < length H then A(ms_id (H ! a) \<mapsto> H ! a) else A)"
| "taken (RPersist a ok) H A = (if ok \<and> a < length H then A(ms_id (H ! a) \<mapsto> H ! a) else A)"
| "taken (RDel i ok) H A = (if ok then A(i := None) else A)"
| "taken (RPop i ok) H A = (if ok then A(i := None) else A)"
| "taken (RClear ok) H A = (if ok then Map.empty else A)"
| "taken _ H A = A"

fun unsaved :: "registry_op \<Rightarrow> mission list \<Rightarrow> string set \<Rightarrow> string set" where
  "unsaved (RMutate a m) H U = (if a < length H then insert (ms_id (H ! a)) U else U)"
| "unsaved (RSet a ok) H U = (if a < length H then if ok then U - {ms_id (H ! a)} else insert (ms_id (H ! a)) U else U)"
| "unsaved (RPersist a ok) H U = (if ok \<and> a < length H then U - {ms_id (H ! a)} else U)"
| "unsaved (RDel i ok) H U = U - {i}"
| "unsaved (RPop i ok) H U = U - {i}"
| "unsaved (RClear ok) H U = {}"
| "unsaved RRestart H U = {}"
| "unsaved _ H U = U"

fun history :: "doc_env \<Rightarrow> registry_op list \<Rightarrow> mission_registry \<times> (string \<rightharpoonup> mission) \<times> string set
    \<Rightarrow> mission_registry \<times> (string \<rightharpoonup> mission) \<times> string set" where
  "history dv [] s = s"
| "history dv (op # ops) (r, A, U) =
     history dv ops (registry_step dv op r, taken op (rg_objects r) A, unsaved op (rg_objects r) U)"

fun op_missions :: "registry_op \<Rightarrow> mission list" where
  "op_missions (RNew m) = [m]"
| "op_missions (RMutate a m) = [m]"
| "op_missions _ = []"

text \<open>What a read shows: the contents of the object it returns.\<close>

definition seen :: "ref option \<times> mission_registry \<Rightarrow> mission option" where
  "seen p = map_option (object (snd p)) (fst p)"

definition bounded :: "mission_registry \<Rightarrow> bool" where
  "bounded r \<longleftrightarrow> (rg_max r < length (rg_cache r) \<longrightarrow> (\<forall>(i, a) \<in> set (rg_cache r). \<not> terminal_mission (object r a)))"

definition readable :: "doc_env \<Rightarrow> mission \<Rightarrow> bool" where
  "readable dv m \<longleftrightarrow> reads (dv_stamps dv) (mission_instants m)"

definition cache_ok :: "(string \<rightharpoonup> mission) \<Rightarrow> string set \<Rightarrow> mission list \<Rightarrow> (string, ref) dict \<Rightarrow> bool" where
  "cache_ok A U H c \<longleftrightarrow> distinct (map fst c) \<and>
     (\<forall>(i, a) \<in> set c. a < length H \<and> ms_id (H ! a) = i \<and> (i \<notin> U \<longrightarrow> A i = Some (H ! a)))"

definition store_ok :: "doc_env \<Rightarrow> (string \<rightharpoonup> mission) \<Rightarrow> mission_table option \<Rightarrow> bool" where
  "store_ok dv A s \<longleftrightarrow> (\<exists>tab. s = Some tab \<and> distinct (map fst tab) \<and> (\<forall>i. lire_mission dv i tab = A i) \<and>
     dom A = set (map fst tab) \<and> (\<forall>i m. A i = Some m \<longrightarrow> ms_id m = i \<and> readable dv m))"

definition registry_ok :: "doc_env \<Rightarrow> (string \<rightharpoonup> mission) \<Rightarrow> string set \<Rightarrow> mission_registry \<Rightarrow> bool" where
  "registry_ok dv A U r \<longleftrightarrow> cache_ok A U (rg_objects r) (rg_cache r) \<and> store_ok dv A (rg_store r) \<and>
     (\<forall>m \<in> set (rg_objects r). readable dv m)"

lemma keys_to_end [simp]: "fst ` set (to_end k v d) = insert k (fst ` set d)"
  by (auto simp: to_end_def set_dict_del image_iff)

lemma distinct_to_end [intro]: "distinct (map fst d) \<Longrightarrow> distinct (map fst (to_end k v d))"
  by (auto simp: to_end_def)

lemma get_to_end [simp]: "dict_get (to_end k v d) j = (if j = k then Some v else dict_get d j)"
  by (auto simp: to_end_def map_add_def split: option.splits)

lemma set_to_end: "set (to_end k v d) = {p \<in> set d. fst p \<noteq> k} \<union> {(k, v)}"
  by (auto simp: to_end_def set_dict_del)

lemma cache_ok_evincer: "cache_ok A U H c \<Longrightarrow> cache_ok A U H (evincer mx obj c)"
  using evincer_facts(1,2)[of c mx obj] by (fastforce simp: cache_ok_def)

lemma cache_ok_put:
  assumes "cache_ok A U H c" "a < length H" "ms_id (H ! a) \<notin> U' \<longrightarrow> A' (ms_id (H ! a)) = Some (H ! a)"
    and "\<forall>j. j \<noteq> ms_id (H ! a) \<and> j \<notin> U' \<longrightarrow> j \<notin> U \<and> A' j = A j"
  shows "cache_ok A' U' H (to_end (ms_id (H ! a)) a c)"
  using assms by (fastforce simp: cache_ok_def set_to_end)

lemma cache_ok_del:
  assumes "cache_ok A U H c" "\<forall>j. j \<noteq> i \<and> j \<notin> U' \<longrightarrow> j \<notin> U \<and> A' j = A j"
  shows "cache_ok A' U' H (dict_del i c)"
  using assms by (fastforce simp: cache_ok_def set_dict_del)

lemma cache_ok_more: "cache_ok A U H c \<Longrightarrow> cache_ok A U (H @ [m]) c"
  by (fastforce simp: cache_ok_def nth_append)

lemma cache_ok_Nil [simp]: "cache_ok A U H []"
  by (simp add: cache_ok_def)

lemma cache_ok_change:
  assumes "cache_ok A U H c" "ms_id m = ms_id (H ! a)"
  shows "cache_ok A (insert (ms_id m) U) (H[a := m]) c"
  unfolding cache_ok_def
proof (intro conjI ballI)
  fix x assume x: "x \<in> set c"
  obtain j b where j: "x = (j, b)" by (cases x)
  have "b < length H" "ms_id (H ! b) = j" "j \<notin> U \<longrightarrow> A j = Some (H ! b)" using assms(1) x j by (auto simp: cache_ok_def)
  then show "case x of (i, b) \<Rightarrow> b < length (H[a := m]) \<and> ms_id (H[a := m] ! b) = i \<and>
      (i \<notin> insert (ms_id m) U \<longrightarrow> A i = Some (H[a := m] ! b))"
    using assms(2) j by (cases "b = a") simp_all
qed (use assms in \<open>simp add: cache_ok_def\<close>)

lemma lire_written: "readable dv m \<Longrightarrow>
    lire_mission dv i (enregistrer_mission (dv_stamps dv) m tab) = (if i = ms_id m then Some m else lire_mission dv i tab)"
  by (simp add: lire_mission_def enregistrer_mission_def depuis_ligne_def ligne_de_def mission_reads readable_def)

lemma store_ok_write:
  assumes "store_ok dv A s" "readable dv m"
  shows "store_ok dv (A(ms_id m \<mapsto> m)) (map_option (enregistrer_mission (dv_stamps dv) m) s)"
proof -
  obtain tab where tab: "s = Some tab" "distinct (map fst tab)" "\<forall>i. lire_mission dv i tab = A i"
    "dom A = fst ` set tab" "\<forall>i m. A i = Some m \<longrightarrow> ms_id m = i \<and> readable dv m"
    using assms(1) by (auto simp: store_ok_def)
  let ?t = "enregistrer_mission (dv_stamps dv) m tab"
  have "distinct (map fst ?t)" unfolding enregistrer_mission_def by (rule distinct_to_end[OF tab(2)])
  moreover have "fst ` set ?t = dom (A(ms_id m \<mapsto> m))" by (simp add: enregistrer_mission_def tab(4))
  ultimately show ?thesis using tab lire_written[OF assms(2)] assms(2) by (auto simp: store_ok_def)
qed

lemma store_ok_del:
  assumes "store_ok dv A (Some tab)"
  shows "store_ok dv (A(i := None)) (Some (dict_del i tab))"
proof -
  have "lire_mission dv j (dict_del i tab) = (if j = i then None else lire_mission dv j tab)" for j
    by (simp add: lire_mission_def)
  then show ?thesis using assms by (auto simp: store_ok_def)
qed

lemma registry_ok_read: "store_ok dv A s \<Longrightarrow> Option.bind s (lire_mission dv i) = A i"
  by (auto simp: store_ok_def)

lemma relire_ok:
  assumes "registry_ok dv A U r"
  shows "registry_ok dv A U (snd (relire_mission dv ok i r))"
    and "seen (relire_mission dv True i r) = A i"
proof -
  have s: "Option.bind (rg_store r) (lire_mission dv i) = A i" and c: "cache_ok A U (rg_objects r) (rg_cache r)"
    and st: "store_ok dv A (rg_store r)" and h: "\<forall>m \<in> set (rg_objects r). readable dv m"
    using assms registry_ok_read by (auto simp: registry_ok_def)
  have put: "registry_ok dv A U (mettre_en_cache i (length (rg_objects r)) (r\<lparr>rg_objects := rg_objects r @ [m]\<rparr>))"
    if m: "A i = Some m" for m
  proof -
    have i: "ms_id m = i" "readable dv m" using st m by (auto simp: store_ok_def)
    have "cache_ok A U (rg_objects r @ [m]) (to_end i (length (rg_objects r)) (rg_cache r))"
      using cache_ok_put[OF cache_ok_more[OF c, of m], of "length (rg_objects r)" U A] m i(1) by simp
    then show ?thesis using st h i(2) by (simp add: registry_ok_def mettre_en_cache_def cache_ok_evincer)
  qed
  show "registry_ok dv A U (snd (relire_mission dv ok i r))"
    using s put assms by (cases ok; cases "A i") (simp_all add: relire_mission_def new_object_def)
  show "seen (relire_mission dv True i r) = A i"
    using s by (cases "A i") (simp_all add: relire_mission_def new_object_def seen_def mettre_en_cache_def)
qed

lemma get_ok:
  assumes "registry_ok dv A U r"
  shows "registry_ok dv A U (snd (get_registry dv ok i r))"
    and "seen (get_registry dv True i r) = (case dict_get (rg_cache r) i of None \<Rightarrow> A i | Some a \<Rightarrow> Some (object r a))"
    and "i \<notin> U \<Longrightarrow> seen (get_registry dv True i r) = A i"
proof -
  show k: "seen (get_registry dv True i r) = (case dict_get (rg_cache r) i of None \<Rightarrow> A i | Some a \<Rightarrow> Some (object r a))"
    using relire_ok(2)[OF assms, of i] by (simp add: get_registry_def seen_def split: option.split)
  show "registry_ok dv A U (snd (get_registry dv ok i r))"
    using assms relire_ok(1)[OF assms] by (simp add: get_registry_def split: option.split)
  show "seen (get_registry dv True i r) = A i" if "i \<notin> U"
    using assms that unfolding k by (auto simp: registry_ok_def cache_ok_def dest!: map_of_SomeD split: option.split)
qed

lemma has_ok: "registry_ok dv A U r \<Longrightarrow> registry_ok dv A U (snd (has_mission dv ok i r))"
  using relire_ok(1) by (simp add: has_mission_def split: prod.split) (metis snd_conv)

lemma written_ok:
  assumes "registry_ok dv A U r" "a < length (rg_objects r)"
  shows "registry_ok dv (A(ms_id (object r a) \<mapsto> object r a)) (U - {ms_id (object r a)})
    (mettre_en_cache (ms_id (object r a)) a (ecrire_au_magasin (dv_stamps dv) (object r a) r))"
proof -
  have "readable dv (object r a)" using assms by (simp add: registry_ok_def)
  moreover have "cache_ok (A(ms_id (object r a) \<mapsto> object r a)) (U - {ms_id (object r a)}) (rg_objects r)
      (to_end (ms_id (object r a)) a (rg_cache r))"
    using assms by (intro cache_ok_put[of A U]) (auto simp: registry_ok_def)
  ultimately show ?thesis using assms(1)
    by (simp add: registry_ok_def mettre_en_cache_def ecrire_au_magasin_def cache_ok_evincer store_ok_write del: fun_upd_apply)
qed

lemma refused_set_ok:
  assumes "registry_ok dv A U r" "a < length (rg_objects r)"
  shows "registry_ok dv A (insert (ms_id (object r a)) U) (mettre_en_cache (ms_id (object r a)) a r)"
proof -
  have "cache_ok A (insert (ms_id (object r a)) U) (rg_objects r) (to_end (ms_id (object r a)) a (rg_cache r))"
    using assms by (intro cache_ok_put[of A U]) (auto simp: registry_ok_def)
  then show ?thesis using assms(1) by (simp add: registry_ok_def mettre_en_cache_def cache_ok_evincer)
qed

lemma del_ok:
  assumes "registry_ok dv A U r"
  shows "registry_ok dv (if ok then A(i := None) else A) (U - {i}) (snd (del_mission dv ok i r))"
proof -
  obtain tab where tab: "rg_store r = Some tab" "lire_mission dv i tab = A i"
    using assms by (auto simp: registry_ok_def store_ok_def)
  have c: "cache_ok A U (rg_objects r) (rg_cache r)" and s: "store_ok dv A (Some tab)"
    and h: "\<forall>m \<in> set (rg_objects r). readable dv m"
    using assms tab by (simp_all add: registry_ok_def)
  have un: "A(i := None) = A" if "A i = None" using that by auto
  have "cache_ok (A(i := None)) (U - {i}) (rg_objects r) (dict_del i (rg_cache r))"
    "cache_ok A (U - {i}) (rg_objects r) (dict_del i (rg_cache r))"
    using cache_ok_del[OF c, of i "U - {i}" "A(i := None)"] cache_ok_del[OF c, of i "U - {i}" A] by auto
  moreover from this(2) have "i \<notin> fst ` set (rg_cache r) \<Longrightarrow> cache_ok A (U - {i}) (rg_objects r) (rg_cache r)" by simp
  ultimately show ?thesis
    using s tab un h store_ok_del[OF s, of i] by (simp add: del_mission_def registry_ok_def Let_def)
qed

lemma uncached_clean:
  "registry_ok dv A U r \<Longrightarrow> dict_get (rg_cache r) i = None \<Longrightarrow> registry_ok dv A (U - {i}) r"
proof -
  assume r: "registry_ok dv A U r" and n: "dict_get (rg_cache r) i = None"
  have "j \<noteq> i" if "(j, b) \<in> set (rg_cache r)" for j b using n that weak_map_of_SomeI by fastforce
  then show ?thesis using r by (auto simp: registry_ok_def cache_ok_def)
qed

lemma pop_ok:
  assumes "registry_ok dv A U r"
  shows "registry_ok dv (if ok then A(i := None) else A) (U - {i}) (snd (pop_mission dv ok i r))"
proof -
  obtain found r1 where g: "get_registry dv ok i r = (found, r1)" by fastforce
  have r1: "registry_ok dv A U r1" using get_ok(1)[OF assms, of ok i] g by simp
  show ?thesis
  proof (cases found)
    case None
    then have u: "dict_get (rg_cache r) i = None" "r1 = r"
      using g by (auto simp: get_registry_def relire_mission_def new_object_def split: option.splits)
    have "A i = None" if ok
      using get_ok(2)[OF assms, of i] g that None u(1) by (simp add: seen_def)
    then have "(if ok then A(i := None) else A) = A" by auto
    then show ?thesis using None g uncached_clean[OF assms u(1)] u(2) by (simp add: pop_mission_def)
  next
    case (Some a)
    obtain e r2 where d: "del_mission dv ok i r1 = (e, r2)" by fastforce
    then have "registry_ok dv (if ok then A(i := None) else A) (U - {i}) r2" using del_ok[OF r1, of ok i] by simp
    then show ?thesis using Some by (cases e) (simp_all add: pop_mission_def g d)
  qed
qed

lemma toutes_kept:
  assumes "store_ok dv A (Some tab)" "m \<in> set (toutes_missions dv tab)"
  shows "A (ms_id m) = Some m"
proof -
  obtain i row where r: "(i, row) \<in> set tab" "depuis_ligne dv row = Some m"
    using assms(2) by (auto simp: toutes_missions_def recent_first_def List.map_filter_def split: option.splits)
  have "distinct (map fst tab)" using assms(1) by (auto simp: store_ok_def)
  then have "dict_get tab i = Some row" using r(1) by simp
  then have "lire_mission dv i tab = Some m" using r(2) by (simp add: lire_mission_def)
  moreover have "\<forall>i. lire_mission dv i tab = A i" "\<forall>i m. A i = Some m \<longrightarrow> ms_id m = i"
    using assms(1) by (auto simp: store_ok_def)
  ultimately have "A i = Some m" "ms_id m = i" by simp_all
  then show ?thesis by simp
qed

lemma absente_ok:
  assumes "registry_ok dv A U r" "A (ms_id m) = Some m"
  shows "registry_ok dv A U (mettre_si_absente m r)"
proof (cases "ms_id m \<in> set (dict_keys (rg_cache r))")
  case False
  have "readable dv m" using assms by (auto simp: registry_ok_def store_ok_def)
  moreover have "cache_ok A U (rg_objects r @ [m]) (rg_cache r @ [(ms_id m, length (rg_objects r))])"
    using False assms cache_ok_more[of A U "rg_objects r" "rg_cache r" m]
    by (auto simp: registry_ok_def cache_ok_def nth_append)
  ultimately show ?thesis using False assms(1) by (simp add: mettre_si_absente_def new_object_def registry_ok_def)
qed (use assms in \<open>simp add: mettre_si_absente_def\<close>)

lemma absentes_ok:
  "registry_ok dv A U r \<Longrightarrow> \<forall>m \<in> set ms. A (ms_id m) = Some m \<Longrightarrow> registry_ok dv A U (fold mettre_si_absente ms r)"
  by (induction ms arbitrary: r) (simp_all add: absente_ok)

lemma hydrater_ok:
  assumes "registry_ok dv A U r"
  shows "registry_ok dv A U (hydrater dv ok r)"
proof -
  obtain tab where tab: "rg_store r = Some tab" using assms by (auto simp: registry_ok_def store_ok_def)
  have s: "store_ok dv A (Some tab)" using assms by (simp add: registry_ok_def tab)
  have r1: "registry_ok dv A U (r\<lparr>rg_hydrated := True\<rparr>)" using assms by (simp add: registry_ok_def)
  have "\<forall>m \<in> set (rev (take (rg_max r) (toutes_missions dv tab))). A (ms_id m) = Some m"
    using toutes_kept[OF s] by (auto dest: in_set_takeD)
  from absentes_ok[OF r1 this] show ?thesis
    using assms r1 by (simp add: hydrater_def tab Let_def registry_ok_def cache_ok_evincer)
qed

lemma change_ok:
  assumes "registry_ok dv A U r" "readable dv m" "a < length (rg_objects r)"
  shows "registry_ok dv A (insert (ms_id (object r a)) U) (muter_mission a (m\<lparr>ms_id := ms_id (object r a)\<rparr>) r)"
proof -
  have "readable dv (m\<lparr>ms_id := ms_id (object r a)\<rparr>)" using assms(2) by (simp add: readable_def mission_instants_def)
  then show ?thesis
    using assms(1) cache_ok_change[of A U "rg_objects r" "rg_cache r" "m\<lparr>ms_id := ms_id (object r a)\<rparr>" a]
    by (auto simp: registry_ok_def muter_mission_def dest!: set_update_subset_insert[THEN subsetD])
qed

lemma registry_step_ok:
  assumes "registry_ok dv A U r" "\<forall>m \<in> set (op_missions op). readable dv m"
  shows "registry_ok dv (taken op (rg_objects r) A) (unsaved op (rg_objects r) U) (registry_step dv op r)"
proof (cases op)
  case (RNew m)
  then show ?thesis using assms by (auto simp: new_object_def registry_ok_def cache_ok_more)
next
  case (RClear ok)
  then show ?thesis using assms by (auto simp: clear_missions_def registry_ok_def store_ok_def lire_mission_def)
next
  case RRestart
  then show ?thesis using assms by (simp add: new_registry_def registry_ok_def)
next
  case (RPersist a ok)
  have "rg_store r \<noteq> None" using assms by (auto simp: registry_ok_def store_ok_def)
  then show ?thesis using assms(1) RPersist written_ok[OF assms(1)] by (simp add: persister_mission_def)
next
  case (RSet a ok)
  then show ?thesis using assms(1) written_ok[OF assms(1)] refused_set_ok[OF assms(1)] by (simp add: set_mission_def)
next
  case (RMutate a m)
  then show ?thesis using assms change_ok[OF assms(1)] by simp
qed (use assms in \<open>simp_all add: get_ok(1) has_ok del_ok pop_ok hydrater_ok registry_items_def del: fun_upd_apply\<close>)

lemma registry_reached:
  assumes "\<forall>op \<in> set ops. \<forall>m \<in> set (op_missions op). readable dv m" "registry_ok dv A U r"
    and "history dv ops (r, A, U) = (r', A', U')"
  shows "registry_ok dv A' U' r'"
  using assms
proof (induction ops arbitrary: A U r)
  case (Cons op ops)
  from registry_step_ok[OF Cons.prems(2), of op] Cons.prems(1) have
    "registry_ok dv (taken op (rg_objects r) A) (unsaved op (rg_objects r) U) (registry_step dv op r)" by simp
  with Cons.IH[OF _ this] Cons.prems(1,3) show ?case by simp
qed simp

lemma fresh_registry_ok: "registry_ok dv Map.empty {} (new_registry mx (Some []))"
  by (simp add: registry_ok_def new_registry_def store_ok_def lire_mission_def)

lemma bounded_put:
  assumes "distinct (map fst (rg_cache r))"
  shows "bounded (mettre_en_cache i a r)"
  using evincer_facts(4)[OF distinct_to_end[OF assms], where mx = "rg_max r" and obj = "object r"]
  by (simp add: bounded_def mettre_en_cache_def)

text \<open>
  C39. The table is the durable registry of missions. Take any sequence of: missions made, changed in place by
  whoever holds them, registered or persisted, with a database that answers or refuses each time; reads,
  deletions, listings and evictions of the cache; restarts of the process (the dates of the missions being ones
  whose text reads back). Then a process that starts on the table reads under every identifier the mission,
  every field included, as it was when the database last took it, or none if it was deleted since; the total is
  the number of missions so kept. The running process reads the object in the cache as it is now, and without
  one the table; so it reads the same as a new process under every identifier without an unsaved change: an
  object changed in place or registered against a refusal, and not taken by the database since. A change that
  the database refuses raises and leaves table and cache as they are, so it stays visible in the cached object
  and is lost with it. A registration, and a change the database takes, leave the cache over its bound only when
  none of the missions in it has ended.
\<close>

theorem registry_is_durable:
  assumes "\<forall>op \<in> set ops. \<forall>m \<in> set (op_missions op). readable dv m"
    and "history dv ops (new_registry mx (Some []), Map.empty, {}) = (r, A, U)"
  shows "seen (get_registry dv True i (new_registry mx (rg_store r))) = A i \<and>
    registry_total True r = card (dom A) \<and>
    seen (get_registry dv True i r) = (case dict_get (rg_cache r) i of None \<Rightarrow> A i | Some a \<Rightarrow> Some (object r a)) \<and>
    (i \<notin> U \<longrightarrow> seen (get_registry dv True i r) = A i) \<and>
    persister_mission (dv_stamps dv) False a r = (Inl NoAnswer, r) \<and>
    bounded (set_mission (dv_stamps dv) ok i a r) \<and> bounded (snd (persister_mission (dv_stamps dv) True a r))"
proof -
  have ok: "registry_ok dv A U r" by (rule registry_reached[OF assms(1) fresh_registry_ok assms(2)])
  then have "registry_ok dv A {} (new_registry mx (rg_store r))" by (simp add: registry_ok_def new_registry_def)
  note n = get_ok(3)[OF this, of i]
  have "registry_total True r = card (dom A)"
    using ok distinct_card by (fastforce simp: registry_ok_def store_ok_def registry_total_def)
  moreover have "rg_store r \<noteq> None" and d: "distinct (map fst (rg_cache r))"
    using ok by (auto simp: registry_ok_def store_ok_def cache_ok_def)
  moreover have "bounded (set_mission (dv_stamps dv) ok i a r)"
    "bounded (mettre_en_cache j a (ecrire_au_magasin (dv_stamps dv) m r))" for j m
    using d by (simp_all add: set_mission_def bounded_put ecrire_au_magasin_def)
  ultimately show ?thesis using n get_ok(2,3)[OF ok, of i] by (simp add: persister_mission_def)
qed

text \<open>An active mission in the cache is the object its executor works on; only its own operations take it out.\<close>

fun touches :: "string \<Rightarrow> ref \<Rightarrow> mission_registry \<Rightarrow> registry_op \<Rightarrow> bool" where
  "touches i a r (RMutate b m) \<longleftrightarrow> b = a"
| "touches i a r (RSet b ok) \<longleftrightarrow> ms_id (object r b) = i"
| "touches i a r (RPersist b ok) \<longleftrightarrow> ms_id (object r b) = i"
| "touches i a r (RDel j ok) \<longleftrightarrow> j = i"
| "touches i a r (RPop j ok) \<longleftrightarrow> j = i"
| "touches i a r (RClear ok) \<longleftrightarrow> True"
| "touches i a r RRestart \<longleftrightarrow> True"
| "touches i a r _ \<longleftrightarrow> False"

definition held :: "string \<Rightarrow> ref \<Rightarrow> mission \<Rightarrow> mission_registry \<Rightarrow> bool" where
  "held i a m r \<longleftrightarrow> distinct (map fst (rg_cache r)) \<and> (i, a) \<in> set (rg_cache r) \<and> a < length (rg_objects r) \<and>
     object r a = m \<and> \<not> terminal_mission m"

lemma held_put: "held i a m r \<Longrightarrow> j \<noteq> i \<Longrightarrow> held i a m (mettre_en_cache j b r)"
  using evincer_facts(2,3)[OF distinct_to_end[of "rg_cache r" j b], where obj = "object r" and mx = "rg_max r"]
  by (auto simp: held_def mettre_en_cache_def set_to_end)

lemma held_new: "held i a m r \<Longrightarrow> held i a m (r\<lparr>rg_objects := rg_objects r @ [x]\<rparr>)"
  by (simp add: held_def nth_append)

lemma held_relire: "held i a m r \<Longrightarrow> j \<noteq> i \<Longrightarrow> held i a m (snd (relire_mission dv ok j r))"
  using held_put held_new by (simp add: relire_mission_def new_object_def split: option.split)

lemma held_cached: "held i a m r \<Longrightarrow> dict_get (rg_cache r) i = Some a"
  by (simp add: held_def)

lemma held_get: "held i a m r \<Longrightarrow> held i a m (snd (get_registry dv ok j r))"
  using held_relire[of i a m r j] held_cached[of i a m r]
  by (cases "j = i") (auto simp: get_registry_def split: option.split)

lemma held_has: "held i a m r \<Longrightarrow> held i a m (snd (has_mission dv ok j r))"
  using held_relire[of i a m r j dv ok]
  by (cases "j = i") (force simp: has_mission_def held_def split: prod.split)+

lemma held_del: "held i a m r \<Longrightarrow> j \<noteq> i \<Longrightarrow> held i a m (snd (del_mission dv ok j r))"
  by (simp add: del_mission_def held_def Let_def set_dict_del split: option.split)

lemma held_pop:
  assumes "held i a m r" "j \<noteq> i"
  shows "held i a m (snd (pop_mission dv ok j r))"
proof -
  obtain found r1 where g: "get_registry dv ok j r = (found, r1)" by fastforce
  then have r1: "held i a m r1" using held_get[OF assms(1), of dv ok j] by simp
  obtain e r2 where d: "del_mission dv ok j r1 = (e, r2)" by fastforce
  then have "held i a m r2" using held_del[OF r1 assms(2), of dv ok] by simp
  then show ?thesis using r1 by (cases found; cases e) (simp_all add: pop_mission_def g d)
qed

lemma held_absente: "held i a m r \<Longrightarrow> held i a m (mettre_si_absente x r)"
  by (auto simp: mettre_si_absente_def new_object_def held_def nth_append)

lemma held_hydrater:
  assumes "held i a m r"
  shows "held i a m (hydrater dv ok r)"
proof -
  have "held i a m (fold mettre_si_absente xs r')" if "held i a m r'" for xs r'
    using that by (induction xs arbitrary: r') (simp_all add: held_absente)
  moreover have "held i a m (r'\<lparr>rg_cache := evincer mx (object r') (rg_cache r')\<rparr>)" if "held i a m r'" for r' mx
    using that evincer_facts(2,3)[where c = "rg_cache r'" and mx = mx and obj = "object r'"] by (simp add: held_def)
  moreover have "held i a m (r\<lparr>rg_hydrated := True\<rparr>)" using assms by (simp add: held_def)
  ultimately show ?thesis using assms by (simp add: hydrater_def Let_def split: option.split)
qed

lemma active_stays:
  assumes "held i a m r" "\<not> touches i a r op"
  shows "held i a m (registry_step dv op r)"
proof -
  have w: "held i a m (ecrire_au_magasin sm x r)" for sm x using assms(1) by (simp add: held_def ecrire_au_magasin_def)
  have c: "held i a m (muter_mission b x r)" if "b \<noteq> a" for b x using assms(1) that by (simp add: held_def muter_mission_def)
  note h = assms(1) held_put[OF w] held_put[OF assms(1)] held_get[OF assms(1)] held_has[OF assms(1)] held_del[OF assms(1)]
    held_pop[OF assms(1)] held_hydrater[OF assms(1)] held_new[OF assms(1)] c
  show ?thesis
    using assms(2)
    by (cases op) (simp_all add: set_mission_def persister_mission_def registry_items_def new_object_def h)
qed

subsection \<open>What a failing database leaves\<close>

text \<open>
  The mission that \<^verbatim>\<open>persister\<close> is given is the object the cache holds, changed in place before the call: the
  cache shows the refused change all the same, until the mission is evicted or the process restarts.
\<close>

lemma refused_mutation_visible:
  assumes "dict_get (rg_cache r) i = Some a" "a < length (rg_objects r)" "rg_store r \<noteq> None"
  shows "seen (get_registry dv ok i (snd (persister_mission sm False a (muter_mission a m r)))) = Some m"
  using assms by (simp add: persister_mission_def muter_mission_def get_registry_def seen_def)

lemma refused_creation_in_memory:
  assumes "distinct (map fst (rg_cache r))" "a < length (rg_objects r)" "\<not> terminal_mission (object r a)"
  shows "held i a (object r a) (set_mission sm False i a r)" "rg_store (set_mission sm False i a r) = rg_store r"
  using evincer_facts(2,3)[OF distinct_to_end[OF assms(1)], where obj = "object r"] assms(2,3)
  by (simp_all add: set_mission_def mettre_en_cache_def held_def set_to_end)

text \<open>A stored status that the enum does not have: no default takes its place.\<close>

lemma unknown_status_has_no_default:
  "dict_get d ''status'' = Some (PStr s) \<Longrightarrow> s \<notin> set (map ms_status_value ms_statuses) \<Longrightarrow>
     champ d ''status'' MS_CREATED (one_of ms_status_value ms_statuses) = Inl (Undeclared ''status'')"
  by (auto simp: champ_def one_of_def ms_statuses_def)

subsection \<open>The export\<close>

definition exported_part :: "time \<Rightarrow> mission \<Rightarrow> mission" where
  "exported_part now m = m\<lparr>ms_context := (ms_context m)\<lparr>dc_local_path := []\<rparr>,
     ms_nodes := map (\<lambda>n. n\<lparr>mn_mission := [], mn_started := None, mn_completed := None, mn_actual := 0, mn_summary := []\<rparr>) (ms_nodes m),
     ms_edges := map (\<lambda>e. e\<lparr>me_type := ''depends_on''\<rparr>) (ms_edges m),
     ms_max_duration := budget_par_defaut, ms_created := now, ms_updated := None, ms_started := None, ms_completed := None\<rparr>"

lemma node_exported: "imported_node (exported_node n) =
    Inr (n\<lparr>mn_mission := [], mn_started := None, mn_completed := None, mn_actual := 0, mn_summary := []\<rparr>)"
  by (simp add: exported_node_def champ_def bind_sum_def reads_back)

lemma edge_exported: "imported_edge (exported_edge e) = Inr (e\<lparr>me_type := ''depends_on''\<rparr>)"
  by (simp add: exported_edge_def champ_def bind_sum_def)

lemma map_sum_written: "(\<And>x. rd (wr x) = Inr (g x)) \<Longrightarrow> map_sum_list rd (map wr xs) = Inr (map g xs)"
  by (induction xs) (simp_all add: bind_sum_def)

lemma export_keeps_exactly: "dict_to_mission now (mission_to_dict sm m) = Inr (exported_part now m)"
proof -
  have ns: "map_sum_list imported_node (map exported_node (ms_nodes m)) = Inr (map
      (\<lambda>n. n\<lparr>mn_mission := [], mn_started := None, mn_completed := None, mn_actual := 0, mn_summary := []\<rparr>) (ms_nodes m))"
    by (rule map_sum_written) (rule node_exported)
  have es: "map_sum_list imported_edge (map exported_edge (ms_edges m)) = Inr (map (\<lambda>e. e\<lparr>me_type := ''depends_on''\<rparr>) (ms_edges m))"
    by (rule map_sum_written) (rule edge_exported)
  show ?thesis
    by (simp add: dict_to_mission_def mission_to_dict_def Let_def champ_def list_at_def bind_sum_def reads_back ns es
        exported_part_def)
qed

subsection \<open>An example\<close>

definition sample_stored :: "string \<Rightarrow> mission_status \<Rightarrow> mission" where
  "sample_stored i st = \<lparr>ms_id = i, ms_title = ''build'', ms_description = [], ms_objective = ''ship'', ms_type = Mission_CUSTOM,
     ms_priority = Priority_NORMAL, ms_status = st, ms_context = empty_context,
     ms_nodes = [\<lparr>mn_id = ''n'', mn_mission = i, mn_title = ''code'', mn_description = [], mn_type = ''task'',
       mn_priority = Priority_NORMAL, mn_status = Dag_COMPLETED, mn_agent = [], mn_runtime = [], mn_profile = [],
       mn_skills = [''python''], mn_resources = [], mn_duration = 0, mn_depends = [], mn_criteria = [], mn_outputs = [],
       mn_started = Some 5, mn_completed = None, mn_actual = 0, mn_summary = []\<rparr>],
     ms_edges = [], ms_metadata = [(''k'', PInt 1)], ms_max_duration = 3600, ms_created = 5, ms_updated = None,
     ms_started = Some 7, ms_completed = None\<rparr>"

definition sample_doc_env :: doc_env where
  "sample_doc_env = \<lparr>dv_stamps = \<lparr>sm_text = (\<lambda>t. if t = 5 then ''five'' else ''seven''),
       sm_read = (\<lambda>s. if s = ''five'' then Some 5 else if s = ''seven'' then Some 7 else None)\<rparr>,
     dv_id = ''drawn'', dv_node_id = (\<lambda>_. ''drawn''), dv_edge_id = (\<lambda>_. ''drawn''), dv_now = 0\<rparr>"

lemma sample_readable: "readable sample_doc_env (sample_stored i st)"
  by (simp add: readable_def reads_def mission_instants_def node_instants_def map_filter_simps sample_stored_def sample_doc_env_def)

definition sample_registry_ops :: "registry_op list" where
  "sample_registry_ops = [RNew (sample_stored ''a'' MS_COMPLETED), RSet 0 True, RNew (sample_stored ''b'' MS_RUNNING), RSet 1 True,
     RMutate 1 (sample_stored ''b'' MS_FAILED), RPersist 1 False]"

text \<open>
  A refused change at work: the running process reads the failed mission, a new one reads it running as the
  database last took it.
\<close>

theorem registry_is_durable_witness:
  "\<exists>r A U. history sample_doc_env sample_registry_ops (new_registry 1 (Some []), Map.empty, {}) = (r, A, U) \<and>
     seen (get_registry sample_doc_env True ''b'' (new_registry 1 (rg_store r))) = Some (sample_stored ''b'' MS_RUNNING) \<and>
     seen (get_registry sample_doc_env True ''b'' r) = Some (sample_stored ''b'' MS_FAILED)"
proof -
  have ops: "\<forall>op \<in> set sample_registry_ops. \<forall>m \<in> set (op_missions op). readable sample_doc_env m"
    by (simp add: sample_registry_ops_def sample_readable)
  obtain r A U where h: "history sample_doc_env sample_registry_ops (new_registry 1 (Some []), Map.empty, {}) = (r, A, U)"
    by (metis prod.collapse)
  have "A ''b'' = Some (sample_stored ''b'' MS_RUNNING)" "dict_get (rg_cache r) ''b'' = Some 1"
    "object r 1 = sample_stored ''b'' MS_FAILED"
    using h by (auto simp: sample_registry_ops_def sample_stored_def new_registry_def new_object_def set_mission_def
        mettre_en_cache_def ecrire_au_magasin_def persister_mission_def muter_mission_def evincer_def to_end_def
        terminal_mission_def)
  then show ?thesis using registry_is_durable[OF ops h, where i = "''b''"] h by (auto split: option.splits)
qed

end
