(* ===== verification/Programme.thy ===== *)
theory Programme
  imports MissionExecutor
begin

text \<open>
  A specification unrolled section by section: \<^verbatim>\<open>bloquant\<close>, \<^verbatim>\<open>diagnostic\<close>, \<^verbatim>\<open>derouler\<close> and \<^verbatim>\<open>bilan\<close> of
  \<^verbatim>\<open>backend/mission/programme.py\<close>. The three callables are functions on a world: they return what the Python
  callable returns or raises. A raise that the loop does not catch ends \<open>derouler\<close> with \<open>Inl\<close>. Reasons,
  details and the paragraphs of a diagnostic are values; \<open>pg_str\<close> and \<open>pg_float\<close> are \<^verbatim>\<open>str\<close> of a value that
  is not a text and \<^verbatim>\<open>float\<close> of a text. The cutting of the document and its plan file, which are regular
  expressions over the text, and the briefs are left out.
\<close>

subsection \<open>What blocks\<close>

record section_cahier =
  sc_numero :: nat
  sc_titre :: string
  sc_corps :: string

datatype raison =
    SansReserve
  | TestsEchouent
  | SqlCasse "pyval option" "pyval option"
  | LivrableVide "pyval option"
  | TestTautologique "pyval option" "pyval option" "pyval option"
  | BoucleImport pyval
  | AucunFichier
  | AutreNom pyval
  | SansCauseNommable

text \<open>\<^verbatim>\<open>d.get(k) or []\<close> before a \<^verbatim>\<open>join\<close>: a true value that cannot be iterated raises, which is \<open>None\<close>.\<close>

definition true_list :: "metadata \<Rightarrow> string \<Rightarrow> pyval option option" where
  "true_list d k = (case dict_get d k of None \<Rightarrow> Some None
     | Some v \<Rightarrow> (if \<not> truthy v then Some None else if iterable v then Some (Some v) else None))"

definition rougit :: "metadata \<Rightarrow> bool" where
  "rougit tests \<longleftrightarrow> truthy_at tests ''ran'' \<and> dict_get tests ''passed'' = Some (PBool False)"

definition ecrit :: "metadata \<Rightarrow> bool" where
  "ecrit v \<longleftrightarrow> truthy_at v ''created'' \<or> truthy_at v ''modified'' \<or> truthy_at v ''deleted''"

definition contredit :: "metadata \<Rightarrow> (bool \<times> raison) option" where
  "contredit v = (if \<not> truthy_at v ''contradicted'' then Some (False, SansReserve)
     else Option.bind (sub_dict v ''manifeste'') (\<lambda>mf. Option.bind (true_list mf ''manquants'') (\<lambda>manquants.
       Some (case manquants of Some x \<Rightarrow> (False, AutreNom x) | None \<Rightarrow> (True, SansCauseNommable)))))"

definition mesure_bloquante :: "metadata \<Rightarrow> (bool \<times> raison) option" where
  "mesure_bloquante v =
     Option.bind (sub_dict v ''tests'') (\<lambda>tests. if rougit tests then Some (True, TestsEchouent) else
     Option.bind (sub_dict v ''sql_casse'') (\<lambda>casse.
       if casse \<noteq> [] then Some (True, SqlCasse (dict_get casse ''fichier'') (dict_get casse ''motif'')) else
     Option.bind (sub_dict v ''livrable_vide'') (\<lambda>vide.
       if vide \<noteq> [] then Some (True, LivrableVide (dict_get vide ''fichier'')) else
     Option.bind (sub_dict v ''test_tautologique'') (\<lambda>tauto.
       if tauto \<noteq> [] then Some (True, TestTautologique (dict_get tauto ''fichier'') (dict_get tauto ''ligne'') (dict_get tauto ''raison'')) else
     Option.bind (sub_dict v ''imports'') (\<lambda>im. Option.bind (true_list im ''fatals'') (\<lambda>fatals.
       case fatals of Some x \<Rightarrow> Some (True, BoucleImport x)
       | None \<Rightarrow> if \<not> ecrit v then Some (True, AucunFichier) else contredit v))))))"

text \<open>\<^verbatim>\<open>bloquant\<close>: \<open>None\<close> is the raise of a report of another shape.\<close>

definition bloquant :: "pyval \<Rightarrow> (bool \<times> raison) option" where
  "bloquant verification = (if \<not> truthy verification then Some (False, SansReserve)
     else (case verification of PDict v \<Rightarrow> mesure_bloquante v | _ \<Rightarrow> None))"

subsection \<open>What the repair is told\<close>

datatype diag_bloc =
    PasseEchouee raison
  | SortieTests string
  | AbsentsDuDisque pyval
  | BoucleFatale pyval
  | SqlRefuse "pyval option" "pyval option"
  | VideAvec "pyval option" "pyval option"
  | Tautologie "pyval option" "pyval option" "pyval option" "pyval option"
  | FauxPaquet "pyval option" "pyval option"
  | ImportRemonte "pyval option" "pyval option" "pyval option" "pyval option" int
  | DejaCorrect

text \<open>\<^verbatim>\<open>str(d.get(k) or '')\<close>.\<close>

definition texte_at :: "(pyval \<Rightarrow> string) \<Rightarrow> metadata \<Rightarrow> string \<Rightarrow> string" where
  "texte_at say d k = (case dict_get d k of None \<Rightarrow> [] | Some v \<Rightarrow> (if \<not> truthy v then []
     else (case v of PStr s \<Rightarrow> s | _ \<Rightarrow> say v)))"

definition tests_bloc :: "(pyval \<Rightarrow> string) \<Rightarrow> metadata \<Rightarrow> diag_bloc list" where
  "tests_bloc say tests = (if \<not> rougit tests then []
     else let out = str_strip (texte_at say tests ''output'')
       in [SortieTests (drop (length out - 1500) out)])"

definition niveau_de :: "metadata \<Rightarrow> int option" where
  "niveau_de d = (if truthy_at d ''niveau'' then py_int (the (dict_get d ''niveau'')) else Some 0)"

definition diagnostic :: "(pyval \<Rightarrow> string) \<Rightarrow> pyval \<Rightarrow> raison \<Rightarrow> diag_bloc list option" where
  "diagnostic say verification r =
     Option.bind (if \<not> truthy verification then Some [] else (case verification of PDict v \<Rightarrow> Some v | _ \<Rightarrow> None)) (\<lambda>v.
     Option.bind (sub_dict v ''tests'') (\<lambda>tests.
     Option.bind (sub_dict v ''manifeste'') (\<lambda>mf. Option.bind (true_list mf ''manquants'') (\<lambda>manquants.
     Option.bind (sub_dict v ''imports'') (\<lambda>im. Option.bind (true_list im ''fatals'') (\<lambda>fatals.
     Option.bind (sub_dict v ''sql_casse'') (\<lambda>casse.
     Option.bind (sub_dict v ''livrable_vide'') (\<lambda>vide.
     Option.bind (sub_dict v ''test_tautologique'') (\<lambda>tauto.
     Option.bind (sub_dict v ''faux_paquet'') (\<lambda>faux.
     Option.bind (sub_dict v ''imports_remontent'') (\<lambda>rem.
     Option.bind (if rem = [] then Some 0 else niveau_de rem) (\<lambda>points.
       Some (PasseEchouee r # tests_bloc say tests
         @ (case manquants of None \<Rightarrow> [] | Some x \<Rightarrow> [AbsentsDuDisque x])
         @ (case fatals of None \<Rightarrow> [] | Some x \<Rightarrow> [BoucleFatale x])
         @ (if casse = [] then [] else [SqlRefuse (dict_get casse ''fichier'') (dict_get casse ''motif'')])
         @ (if vide = [] then [] else [VideAvec (dict_get vide ''fichier'') (dict_get vide ''apercu'')])
         @ (if tauto = [] then [] else [Tautologie (dict_get tauto ''fichier'') (dict_get tauto ''ligne'')
              (dict_get tauto ''fonction'') (dict_get tauto ''raison'')])
         @ (if faux = [] then [] else [FauxPaquet (dict_get faux ''chemin'') (dict_get faux ''paquet'')])
         @ (if rem = [] then [] else [ImportRemonte (dict_get rem ''fichier'') (dict_get rem ''ligne'')
              (dict_get rem ''niveau'') (dict_get rem ''profondeur'') points])
         @ [DejaCorrect])))))))))))))"

subsection \<open>The queue\<close>

datatype etape_statut = EtapeEnAttente | EtapeFaite | EtapeSignalee | EtapeReparee | EtapeBloquee | EtapeIgnoree

text \<open>\<open>Leve\<close> is what a callable raised, \<open>None\<close> where the call itself fails before it reaches the callable.\<close>

datatype 'x detail =
    Motive raison
  | Leve "'x option"
  | ObjectifNonAbouti string
  | AucunRapport
  | PasseReprise raison nat
  | PrecedenteBloquante

record 'x etape =
  et_section :: section_cahier
  et_statut :: etape_statut
  et_qualite :: string
  et_detail :: "'x detail"
  et_duree :: rat
  et_passes :: nat

definition etape_de :: "section_cahier \<Rightarrow> 'x etape" where
  "etape_de s = \<lparr>et_section = s, et_statut = EtapeEnAttente, et_qualite = [], et_detail = Motive SansReserve,
     et_duree = 0, et_passes = 0\<rparr>"

record ('x, 'w) programme_env =
  pg_lancer :: "section_cahier \<Rightarrow> 'w \<Rightarrow> ('x + metadata option) \<times> 'w"
  pg_reparer :: "(section_cahier \<Rightarrow> diag_bloc list \<Rightarrow> 'w \<Rightarrow> ('x + metadata option) \<times> 'w) option"
  pg_on_etape :: "('x etape \<Rightarrow> 'w \<Rightarrow> ('x + unit) \<times> 'w) option"
  pg_max_passes :: int
  pg_str :: "pyval \<Rightarrow> string"
  pg_float :: "string \<Rightarrow> rat option"

datatype 'x echappe = MauvaiseDuree | MauvaisRapport | ObservateurLeve 'x

definition passes_max :: "('x, 'w) programme_env \<Rightarrow> nat" where
  "passes_max pg = nat (max 1 (pg_max_passes pg))"

definition duree_at :: "(string \<Rightarrow> rat option) \<Rightarrow> metadata \<Rightarrow> string \<Rightarrow> rat option" where
  "duree_at rd d k = (case dict_get d k of None \<Rightarrow> Some 0 | Some v \<Rightarrow> (if \<not> truthy v then Some 0
     else (case v of PFloat r \<Rightarrow> Some r | PInt i \<Rightarrow> Some (of_int i) | PBool b \<Rightarrow> Some 1 | PStr s \<Rightarrow> rd s | _ \<Rightarrow> None)))"

text \<open>The call of a pass: the first builds, the others repair with the diagnostic of the one before.\<close>

definition appeler :: "('x, 'w) programme_env \<Rightarrow> nat \<Rightarrow> section_cahier \<Rightarrow> pyval \<Rightarrow> raison \<Rightarrow> 'w
    \<Rightarrow> ('x option + metadata) \<times> 'w" where
  "appeler pg passe s v r w =
     (let given = (\<lambda>(res, w'). (case res of Inl x \<Rightarrow> Inl (Some x) | Inr None \<Rightarrow> Inr [] | Inr (Some d) \<Rightarrow> Inr d, w'))
      in if passe = 1 then given (pg_lancer pg s w)
         else (case pg_reparer pg of None \<Rightarrow> (Inl None, w)
           | Some f \<Rightarrow> (case diagnostic (pg_str pg) v r of None \<Rightarrow> (Inl None, w) | Some bs \<Rightarrow> given (f s bs w))))"

datatype 'x passe_issue =
    Finie "'x etape"
  | ARefaire "'x etape" pyval raison
  | Echappee "'x echappe"

definition juger_passe :: "('x, 'w) programme_env \<Rightarrow> nat \<Rightarrow> 'x etape \<Rightarrow> metadata \<Rightarrow> 'x passe_issue" where
  "juger_passe pg passe e rapport =
     (case duree_at (pg_float pg) rapport ''total_duration_ms'' of
        None \<Rightarrow> Echappee MauvaiseDuree
      | Some ms \<Rightarrow>
          (let e1 = e\<lparr>et_passes := passe, et_qualite := texte_at (pg_str pg) rapport ''qualite'',
                et_duree := et_duree e + ms / 1000\<rparr>;
               statut = str_lower (texte_at (pg_str pg) rapport ''statut_objectif'');
               bloque = (\<lambda>d. e1\<lparr>et_statut := EtapeBloquee, et_detail := d\<rparr>)
           in if statut \<noteq> [] \<and> statut \<noteq> ''completed'' then Finie (bloque (ObjectifNonAbouti statut))
              else if rapport = [] then Finie (bloque AucunRapport)
              else (let v = dict_get_default rapport ''verification'' PNone in
                (case bloquant v of
                   None \<Rightarrow> Echappee MauvaisRapport
                 | Some (True, r) \<Rightarrow>
                     (if Option.is_none (pg_reparer pg) \<or> passes_max pg \<le> passe then Finie (bloque (Motive r))
                      else ARefaire (bloque (PasseReprise r passe)) v r)
                 | Some (False, r) \<Rightarrow>
                     Finie (e1\<lparr>et_statut := (if passe > 1 then EtapeReparee else if r = SansReserve then EtapeFaite else EtapeSignalee),
                        et_detail := Motive r\<rparr>)))))"

definition signaler :: "('x, 'w) programme_env \<Rightarrow> 'x etape \<Rightarrow> 'w \<Rightarrow> ('x echappe + unit) \<times> 'w" where
  "signaler pg e w = (case pg_on_etape pg of None \<Rightarrow> (Inr (), w)
     | Some f \<Rightarrow> (case f e w of (Inl x, w') \<Rightarrow> (Inl (ObservateurLeve x), w') | (Inr _, w') \<Rightarrow> (Inr (), w')))"

text \<open>The passes of a section; the number counts the passes that are left.\<close>

fun faire_passes :: "('x, 'w) programme_env \<Rightarrow> nat \<Rightarrow> 'x etape \<Rightarrow> pyval \<Rightarrow> raison \<Rightarrow> 'w
    \<Rightarrow> ('x echappe + 'x etape) \<times> 'w" where
  "faire_passes pg 0 e v r w = (Inr e, w)"
| "faire_passes pg (Suc left) e v r w =
     (let passe = passes_max pg - left in
      case appeler pg passe (et_section e) v r w of
        (Inl x, w1) \<Rightarrow> (Inr (e\<lparr>et_statut := EtapeBloquee, et_detail := Leve x\<rparr>), w1)
      | (Inr rapport, w1) \<Rightarrow>
          (case juger_passe pg passe e rapport of
             Finie e' \<Rightarrow> (Inr e', w1)
           | Echappee x \<Rightarrow> (Inl x, w1)
           | ARefaire e' v' r' \<Rightarrow>
               (case signaler pg e' w1 of (Inl x, w2) \<Rightarrow> (Inl x, w2) | (Inr _, w2) \<Rightarrow> faire_passes pg left e' v' r' w2)))"

definition faire_section :: "('x, 'w) programme_env \<Rightarrow> section_cahier \<Rightarrow> 'w \<Rightarrow> ('x echappe + 'x etape) \<times> 'w" where
  "faire_section pg s w =
     (case faire_passes pg (passes_max pg) (etape_de s) PNone SansReserve w of
        (Inl x, w1) \<Rightarrow> (Inl x, w1)
      | (Inr e, w1) \<Rightarrow> (case signaler pg e w1 of (Inl x, w2) \<Rightarrow> (Inl x, w2) | (Inr _, w2) \<Rightarrow> (Inr e, w2)))"

definition ignoree :: "section_cahier \<Rightarrow> 'x etape" where
  "ignoree s = (etape_de s)\<lparr>et_statut := EtapeIgnoree, et_detail := PrecedenteBloquante\<rparr>"

fun derouler :: "('x, 'w) programme_env \<Rightarrow> section_cahier list \<Rightarrow> 'w \<Rightarrow> ('x echappe + 'x etape list) \<times> 'w" where
  "derouler pg [] w = (Inr [], w)"
| "derouler pg (s # ss) w =
     (case faire_section pg s w of
        (Inl x, w1) \<Rightarrow> (Inl x, w1)
      | (Inr e, w1) \<Rightarrow>
          (if et_statut e = EtapeBloquee then (Inr (e # map ignoree ss), w1)
           else (case derouler pg ss w1 of (Inl x, w2) \<Rightarrow> (Inl x, w2) | (Inr es, w2) \<Rightarrow> (Inr (e # es), w2))))"

subsection \<open>The summary\<close>

record 'x bilan_programme =
  bp_sections :: nat
  bp_par_statut :: "(etape_statut, nat) dict"
  bp_duree :: rat
  bp_arret :: "(section_cahier \<times> 'x detail) option"

text \<open>The duration before it is rounded.\<close>

definition bilan_de :: "'x etape list \<Rightarrow> 'x bilan_programme" where
  "bilan_de es = \<lparr>bp_sections = length es,
     bp_par_statut = fold (\<lambda>e d. dict_set (et_statut e) (dict_get_default d (et_statut e) 0 + 1) d) es [],
     bp_duree = sum_list (map et_duree es),
     bp_arret = map_option (\<lambda>e. (et_section e, et_detail e)) (List.find (\<lambda>e. et_statut e = EtapeBloquee) es)\<rparr>"

end
