(* ===== verification/Programme_Correct.thy ===== *)
theory Programme_Correct
  imports Programme
begin

text \<open>
  What the queue of sections guarantees: a section is done exactly when the report of its last pass stands, no
  section after the first blocked one is launched, and no section is tried more often than the limit.
\<close>

definition acquise :: "'x etape \<Rightarrow> bool" where
  "acquise e \<longleftrightarrow> et_statut e \<in> {EtapeFaite, EtapeSignalee, EtapeReparee}"

text \<open>A key whose value Python takes for true.\<close>

definition is_set :: "metadata \<Rightarrow> string \<Rightarrow> bool" where
  "is_set d k \<longleftrightarrow> (\<exists>x. dict_get d k = Some x \<and> truthy x)"

text \<open>
  What a verification must say for the work to stand: nothing at all (an absent, null or empty one), or that the tests
  did not run red, that no SQL is broken, no deliverable is empty, no test is a tautology, no import loop is
  fatal, that something was created, modified or deleted, and that a contradiction, if there is one, comes with
  files of the manifest that are missing.
\<close>

definition work_stands :: "pyval \<Rightarrow> bool" where
  "work_stands x \<longleftrightarrow> \<not> truthy x \<or> (\<exists>v. x = PDict v \<and>
     \<not> (\<exists>t. dict_get v ''tests'' = Some (PDict t) \<and> is_set t ''ran'' \<and> dict_get t ''passed'' = Some (PBool False)) \<and>
     \<not> is_set v ''sql_casse'' \<and> \<not> is_set v ''livrable_vide'' \<and> \<not> is_set v ''test_tautologique'' \<and>
     \<not> (\<exists>im. dict_get v ''imports'' = Some (PDict im) \<and> is_set im ''fatals'') \<and>
     (is_set v ''created'' \<or> is_set v ''modified'' \<or> is_set v ''deleted'') \<and>
     (is_set v ''contradicted'' \<longrightarrow> (\<exists>mf. dict_get v ''manifeste'' = Some (PDict mf) \<and> is_set mf ''manquants'')))"

text \<open>A report of a pass is good: there is one, its objective, if it names one, is completed, and the work stands.\<close>

definition good_report :: "('x, 'w) programme_env \<Rightarrow> metadata \<Rightarrow> bool" where
  "good_report pg rapport \<longleftrightarrow> rapport \<noteq> [] \<and>
     str_lower (texte_at (pg_str pg) rapport ''statut_objectif'') \<in> {[], ''completed''} \<and>
     work_stands (case dict_get rapport ''verification'' of None \<Rightarrow> PNone | Some x \<Rightarrow> x)"

lemma is_set_truthy_at: "is_set d k \<longleftrightarrow> truthy_at d k"
  by (auto simp: is_set_def truthy_at_def split: option.splits)

lemma sub_dict_set: "sub_dict d k = Some m \<Longrightarrow> m \<noteq> [] \<longleftrightarrow> is_set d k"
  by (auto simp: sub_dict_def is_set_def split: option.splits if_splits pyval.splits)

lemma sub_dict_inner:
  assumes "sub_dict d k = Some m"
  shows "(\<exists>t. dict_get d k = Some (PDict t) \<and> is_set t j \<and> P t) \<longleftrightarrow> is_set m j \<and> P m"
  using assms by (auto simp: sub_dict_def is_set_def split: option.splits if_splits pyval.splits)

lemma true_list_set: "true_list d k = Some l \<Longrightarrow> l \<noteq> None \<longleftrightarrow> is_set d k"
proof (cases "dict_get d k")
  case (Some x)
  assume "true_list d k = Some l"
  then have "l = (if truthy x then Some x else None)" by (simp add: true_list_def Some split: if_split_asm)
  then show ?thesis by (simp add: is_set_def Some)
qed (auto simp: true_list_def is_set_def)

lemma contredit_stands:
  assumes "contredit v = Some (b, r)"
  shows "b \<longleftrightarrow> is_set v ''contradicted'' \<and> \<not> (\<exists>mf. dict_get v ''manifeste'' = Some (PDict mf) \<and> is_set mf ''manquants'')"
proof (cases "is_set v ''contradicted''")
  case False
  then show ?thesis using assms by (simp add: contredit_def is_set_truthy_at)
next
  case True
  then obtain mf l where mf: "sub_dict v ''manifeste'' = Some mf" "true_list mf ''manquants'' = Some l" "b \<longleftrightarrow> l = None"
    using assms by (auto simp: contredit_def is_set_truthy_at bind_eq_Some_conv split: option.splits)
  then show ?thesis
    using True sub_dict_inner[OF mf(1), of "''manquants''" "\<lambda>_. True"] true_list_set[OF mf(2)] by (cases l) simp_all
qed

lemma mesure_stands:
  assumes "mesure_bloquante v = Some (b, r)" "v \<noteq> []"
  shows "b \<longleftrightarrow> \<not> work_stands (PDict v)"
proof -
  obtain tests where tests: "sub_dict v ''tests'' = Some tests"
    using assms(1) by (auto simp: mesure_bloquante_def bind_eq_Some_conv)
  let ?red = "\<exists>t. dict_get v ''tests'' = Some (PDict t) \<and> is_set t ''ran'' \<and> dict_get t ''passed'' = Some (PBool False)"
  have red: "rougit tests \<longleftrightarrow> ?red"
    using sub_dict_inner[OF tests, of "''ran''" "\<lambda>t. dict_get t ''passed'' = Some (PBool False)"]
    by (simp add: rougit_def is_set_truthy_at)
  show ?thesis
  proof (cases "?red \<or> is_set v ''sql_casse'' \<or> is_set v ''livrable_vide'' \<or> is_set v ''test_tautologique''")
    case True
    then have "\<not> work_stands (PDict v)" using assms(2) by (auto simp: work_stands_def)
    moreover have b
      using assms(1) True red tests sub_dict_set[of v]
      by (auto simp: mesure_bloquante_def bind_eq_Some_conv split: if_splits)
    ultimately show ?thesis by simp
  next
    case False
    then obtain im l where im: "sub_dict v ''imports'' = Some im" "true_list im ''fatals'' = Some l"
      and b: "(case l of Some x \<Rightarrow> Some (True, BoucleImport x)
        | None \<Rightarrow> if \<not> ecrit v then Some (True, AucunFichier) else contredit v) = Some (b, r)"
      using assms(1) red tests sub_dict_set[of v]
      by (auto simp: mesure_bloquante_def bind_eq_Some_conv split: if_splits)
    have loops: "\<not> (\<exists>im. dict_get v ''imports'' = Some (PDict im) \<and> is_set im ''fatals'') \<longleftrightarrow> l = None"
      using sub_dict_inner[OF im(1), of "''fatals''" "\<lambda>_. True"] true_list_set[OF im(2)] by (cases l) simp_all
    have wrote: "ecrit v \<longleftrightarrow> is_set v ''created'' \<or> is_set v ''modified'' \<or> is_set v ''deleted''"
      by (simp add: ecrit_def is_set_truthy_at)
    have "truthy (PDict v)" using assms(2) by simp
    then have "work_stands (PDict v) \<longleftrightarrow> l = None \<and> ecrit v \<and> (is_set v ''contradicted'' \<longrightarrow>
        (\<exists>mf. dict_get v ''manifeste'' = Some (PDict mf) \<and> is_set mf ''manquants''))"
      unfolding work_stands_def wrote loops[symmetric] using False by blast
    then show ?thesis using b contredit_stands[of v b r] by (auto split: option.splits if_splits)
  qed
qed

lemma bloquant_stands: "bloquant x = Some (b, r) \<Longrightarrow> b \<longleftrightarrow> \<not> work_stands x"
  using mesure_stands
  by (cases x) (auto simp: bloquant_def work_stands_def split: if_splits)

text \<open>
  The passes of a section from the world in which it is begun: a further one is made after a report that is not
  good, with a repairer, within the limit, once the observer has been told.
\<close>

inductive pass_made :: "('x, 'w) programme_env \<Rightarrow> section_cahier \<Rightarrow> 'w \<Rightarrow> nat \<Rightarrow> ('x option + metadata) \<Rightarrow> 'w \<Rightarrow> pyval \<Rightarrow> bool"
  for pg s w where
  first: "appeler pg 1 s PNone SansReserve w = (res, w') \<Longrightarrow> pass_made pg s w 1 res w' PNone"
| again: "pass_made pg s w n (Inr rapport) w1 v \<Longrightarrow> \<not> good_report pg rapport \<Longrightarrow> pg_reparer pg \<noteq> None \<Longrightarrow>
     n < passes_max pg \<Longrightarrow> signaler pg e w1 = (Inr (), w2) \<Longrightarrow>
     v' = (case dict_get rapport ''verification'' of None \<Rightarrow> PNone | Some x \<Rightarrow> x) \<Longrightarrow>
     appeler pg (Suc n) s v' r w2 = (res, w3) \<Longrightarrow> pass_made pg s w (Suc n) res w3 v'"

text \<open>
  The record of a section rests on its last pass: it is made on the answer to that pass, told to the observer, and
  says that the section is done exactly when that answer is a good report, and blocked otherwise; a blocked one
  was out of passes or of a repairer, or has no verified report at all.
\<close>

definition rests_on :: "('x, 'w) programme_env \<Rightarrow> section_cahier \<Rightarrow> 'w \<Rightarrow> 'x etape \<Rightarrow> 'w \<Rightarrow> bool" where
  "rests_on pg s w e w' \<longleftrightarrow> (\<exists>n res w1 v. pass_made pg s w n res w1 v \<and> signaler pg e w1 = (Inr (), w') \<and>
     n \<le> passes_max pg \<and> et_section e = s \<and>
     (case res of
        Inl x \<Rightarrow> et_statut e = EtapeBloquee \<and> et_detail e = Leve x
      | Inr rapport \<Rightarrow> et_passes e = n \<and>
          (if good_report pg rapport then acquise e
           else et_statut e = EtapeBloquee \<and>
             (rapport = [] \<or> str_lower (texte_at (pg_str pg) rapport ''statut_objectif'') \<notin> {[], ''completed''} \<or>
              pg_reparer pg = None \<or> n = passes_max pg))))"

lemma verification_default: "dict_get_default d k x = (case dict_get d k of None \<Rightarrow> x | Some y \<Rightarrow> y)"
  by (simp add: dict_get_default_def)

lemma juger_finie:
  assumes "juger_passe pg passe e rapport = Finie e'" "passe \<le> passes_max pg"
  shows "et_section e' = et_section e" "et_passes e' = passe"
    and "if good_report pg rapport then acquise e'
         else et_statut e' = EtapeBloquee \<and>
           (rapport = [] \<or> str_lower (texte_at (pg_str pg) rapport ''statut_objectif'') \<notin> {[], ''completed''} \<or>
            pg_reparer pg = None \<or> passe = passes_max pg)"
proof -
  show "et_section e' = et_section e" "et_passes e' = passe"
    using assms(1) by (auto simp: juger_passe_def Let_def split: option.splits if_splits prod.splits bool.splits)
  let ?goal = "str_lower (texte_at (pg_str pg) rapport ''statut_objectif'') \<in> {[], ''completed''}"
  show "if good_report pg rapport then acquise e'
      else et_statut e' = EtapeBloquee \<and> (rapport = [] \<or> \<not> ?goal \<or> pg_reparer pg = None \<or> passe = passes_max pg)"
  proof (cases "?goal \<and> rapport \<noteq> []")
    case False
    then have "\<not> good_report pg rapport" by (auto simp: good_report_def)
    then show ?thesis using assms(1) False
      by (auto simp: juger_passe_def Let_def split: option.splits if_splits)
  next
    case True
    obtain b r where b: "bloquant (dict_get_default rapport ''verification'' PNone) = Some (b, r)"
      using assms(1) True
      by (auto simp: juger_passe_def Let_def split: option.splits if_splits)
    have g: "good_report pg rapport \<longleftrightarrow> \<not> b"
      using True bloquant_stands[OF b] by (simp add: good_report_def verification_default)
    show ?thesis using assms True b g
      by (cases b) (auto simp: juger_passe_def Let_def acquise_def Option.is_none_def split: option.splits if_splits)
  qed
qed

lemma juger_refaire:
  assumes "juger_passe pg passe e rapport = ARefaire e' v r"
  shows "et_section e' = et_section e" "passe < passes_max pg" "pg_reparer pg \<noteq> None" "\<not> good_report pg rapport"
    and "v = (case dict_get rapport ''verification'' of None \<Rightarrow> PNone | Some x \<Rightarrow> x)"
proof -
  have j: "et_section e' = et_section e \<and> passe < passes_max pg \<and> pg_reparer pg \<noteq> None \<and>
      bloquant v = Some (True, r) \<and> v = dict_get_default rapport ''verification'' PNone"
    using assms
    by (auto simp: juger_passe_def Let_def Option.is_none_def split: option.splits if_splits prod.splits bool.splits)
  then show "et_section e' = et_section e" "passe < passes_max pg" "pg_reparer pg \<noteq> None"
    "v = (case dict_get rapport ''verification'' of None \<Rightarrow> PNone | Some x \<Rightarrow> x)" by (simp_all add: verification_default)
  show "\<not> good_report pg rapport"
    using j bloquant_stands[of v True r] unfolding good_report_def verification_default by blast
qed

lemma faire_passes_result:
  assumes "faire_passes pg left e v r w = (Inr e', w')" "left \<le> passes_max pg" "left > 0"
    and "\<And>res w1. appeler pg (Suc (passes_max pg - left)) (et_section e) v r w = (res, w1) \<Longrightarrow>
      pass_made pg s w0 (Suc (passes_max pg - left)) res w1 v"
    and "et_section e = s" and "signaler pg e' w' = (Inr (), w2)"
  shows "rests_on pg s w0 e' w2"
  using assms
proof (induction pg left e v r w rule: faire_passes.induct)
  case (2 pg left e v r w)
  let ?passe = "passes_max pg - left"
  have p: "Suc (passes_max pg - Suc left) = ?passe" "?passe \<le> passes_max pg" using 2(3) by simp_all
  obtain res w1 where a: "appeler pg ?passe (et_section e) v r w = (res, w1)" by fastforce
  have m: "pass_made pg s w0 ?passe res w1 v" using 2(5)[unfolded p(1)] a by simp
  show ?case
  proof (cases res)
    case (Inl x)
    then have "e' = e\<lparr>et_statut := EtapeBloquee, et_detail := Leve x\<rparr>" "w' = w1" using 2(2) a by (simp_all add: Let_def)
    then show ?thesis using m Inl 2(6,7) p(2) unfolding rests_on_def by (intro exI[of _ ?passe] exI) auto
  next
    case (Inr rapport)
    show ?thesis
    proof (cases "juger_passe pg ?passe e rapport")
      case (Finie e1)
      then have e': "e' = e1" "w' = w1" using 2(2) a Inr by (simp_all add: Let_def)
      note j = juger_finie[OF Finie p(2)]
      then show ?thesis using m Inr 2(6,7) p(2) e' unfolding rests_on_def
        by (intro exI[of _ ?passe] exI[of _ res] exI[of _ w1] exI[of _ v]) (auto split: if_split_asm)
    next
      case (ARefaire e1 v1 r1)
      note j = juger_refaire[OF ARefaire]
      obtain sr w3 where s: "signaler pg e1 w1 = (sr, w3)" by fastforce
      have l: "left > 0" using j(2) 2(3) by simp
      have f: "sr = Inr ()" "faire_passes pg left e1 v1 r1 w3 = (Inr e', w')"
        using 2(2) a Inr ARefaire s by (auto simp: Let_def split: sum.splits)
      have "pass_made pg s w0 (Suc ?passe) res' w4 v1" if "appeler pg (Suc ?passe) (et_section e1) v1 r1 w3 = (res', w4)" for res' w4
        using pass_made.again[OF m[unfolded Inr] j(4,3,2) s[unfolded f(1)] j(5)] that j(1) 2(6) by simp
      then show ?thesis
        using 2(1)[OF refl a[symmetric] Inr ARefaire s[symmetric] f(1) f(2)] 2(3,6,7) l j(1) by simp
    next
      case (Echappee x)
      then show ?thesis using 2(2) a Inr by (simp add: Let_def)
    qed
  qed
qed simp

lemma passes_max_pos: "passes_max pg > 0"
  by (simp add: passes_max_def)

lemma faire_section_result:
  assumes "faire_section pg s w = (Inr e, w')"
  shows "rests_on pg s w e w'"
proof -
  obtain w1 where f: "faire_passes pg (passes_max pg) (etape_de s) PNone SansReserve w = (Inr e, w1)"
    and sg: "signaler pg e w1 = (Inr (), w')"
    using assms by (auto simp: faire_section_def split: prod.splits sum.splits)
  show ?thesis
    by (rule faire_passes_result[OF f _ passes_max_pos _ _ sg]) (auto simp: etape_de_def intro: pass_made.first[simplified])
qed

lemma rests_on_facts:
  assumes "rests_on pg s w e w'"
  shows "et_section e = s" "acquise e \<noteq> (et_statut e = EtapeBloquee)"
proof -
  from assms obtain n res where e: "et_section e = s" "case res of
        Inl x \<Rightarrow> et_statut e = EtapeBloquee \<and> et_detail e = Leve x
      | Inr rapport \<Rightarrow> et_passes e = n \<and>
          (if good_report pg rapport then acquise e
           else et_statut e = EtapeBloquee \<and>
             (rapport = [] \<or> str_lower (texte_at (pg_str pg) rapport ''statut_objectif'') \<notin> {[], ''completed''} \<or>
              pg_reparer pg = None \<or> n = passes_max pg))"
    unfolding rests_on_def by blast
  show "et_section e = s" by (rule e(1))
  show "acquise e \<noteq> (et_statut e = EtapeBloquee)"
    using e(2) by (cases res) (auto simp: acquise_def split: if_splits)
qed

text \<open>
  C40. A specification is unrolled in order and stops at the first section that stays blocked. Take a run that
  returns. Each section up to the one where it stops is begun in the world that the run of the sections before
  it leaves, and its record rests on the answer to the last pass made for it: it is done exactly when that
  answer is a report, its objective is completed (or not mentioned), and its verification, if it has one, says
  that the tests are not red, no SQL is broken, no deliverable is empty, no test is a tautology, no import loop
  is fatal, something was created, modified or deleted, and a contradiction, if any, goes with files of the
  manifest that are missing; a report without a verification counts as good. Otherwise it is blocked: the call
  raised, the report or its objective is missing, no pass or no repairer is left. The sections before
  the stop are done, the one at the stop is blocked, every section after it is ignored and nothing is called for
  it (the rest of the document makes no difference); no section takes more passes than the limit; and the
  summary names the blocked section.
\<close>

theorem programme_stops_at_block:
  assumes "derouler pg ss w = (Inr es, w')"
  shows "\<exists>k \<le> length ss. map et_section es = ss \<and>
    (\<forall>j < length ss. j \<le> k \<longrightarrow> (\<exists>w1 w2. derouler pg (take j ss) w = (Inr (take j es), w1) \<and>
       rests_on pg (ss ! j) w1 (es ! j) w2 \<and> derouler pg (take (Suc j) ss) w = (Inr (take (Suc j) es), w2))) \<and>
    list_all acquise (take k es) \<and>
    (k < length ss \<longrightarrow> et_statut (es ! k) = EtapeBloquee) \<and> list_all (\<lambda>e. et_statut e = EtapeIgnoree) (drop (Suc k) es) \<and>
    derouler pg (take (Suc k) ss) w = (Inr (take (Suc k) es), w') \<and>
    bp_arret (bilan_de es) = (if k < length ss then Some (ss ! k, et_detail (es ! k)) else None)"
  using assms
proof (induction ss arbitrary: w es)
  case (Cons s ss)
  obtain e w1 where s: "faire_section pg s w = (Inr e, w1)"
    using Cons.prems by (auto split: prod.splits sum.splits)
  note r = faire_section_result[OF s]
  note rf = rests_on_facts[OF r]
  have ign: "map et_section (map ignoree ss :: 'a etape list) = ss"
    "list_all (\<lambda>e. et_statut e = EtapeIgnoree) (map ignoree ss :: 'a etape list)"
    by (simp_all add: ignoree_def etape_de_def list_all_iff comp_def)
  show ?case
  proof (cases "et_statut e = EtapeBloquee")
    case True
    then have es: "es = e # map ignoree ss" and w': "w' = w1" using Cons.prems s by simp_all
    show ?thesis
      using True s r rf ign by (intro exI[of _ 0]) (auto simp: es w' bilan_de_def)
  next
    case False
    then obtain es1 where d: "derouler pg ss w1 = (Inr es1, w')" and es: "es = e # es1"
      using Cons.prems s by (auto split: prod.splits sum.splits)
    obtain k where k: "k \<le> length ss" "map et_section es1 = ss"
      "\<forall>j < length ss. j \<le> k \<longrightarrow> (\<exists>w2 w3. derouler pg (take j ss) w1 = (Inr (take j es1), w2) \<and>
         rests_on pg (ss ! j) w2 (es1 ! j) w3 \<and> derouler pg (take (Suc j) ss) w1 = (Inr (take (Suc j) es1), w3))"
      "list_all acquise (take k es1)"
      "k < length ss \<longrightarrow> et_statut (es1 ! k) = EtapeBloquee" "list_all (\<lambda>e. et_statut e = EtapeIgnoree) (drop (Suc k) es1)"
      "derouler pg (take (Suc k) ss) w1 = (Inr (take (Suc k) es1), w')"
      "bp_arret (bilan_de es1) = (if k < length ss then Some (ss ! k, et_detail (es1 ! k)) else None)"
      using Cons.IH[OF d] by blast
    have step: "derouler pg (take (Suc j) (s # ss)) w = (Inr (take (Suc j) es), w2)"
      if "derouler pg (take j ss) w1 = (Inr (take j es1), w2)" for j w2
      using s False that by (simp add: es)
    have before: "\<exists>w2 w3. derouler pg (take j (s # ss)) w = (Inr (take j es), w2) \<and>
        rests_on pg ((s # ss) ! j) w2 (es ! j) w3 \<and> derouler pg (take (Suc j) (s # ss)) w = (Inr (take (Suc j) es), w3)"
      if j: "j < length (s # ss)" "j \<le> Suc k" for j
    proof (cases j)
      case 0
      then show ?thesis using r step[of 0 w1] by (auto simp: es)
    next
      case (Suc i)
      then obtain w2 w3 where "derouler pg (take i ss) w1 = (Inr (take i es1), w2)" "rests_on pg (ss ! i) w2 (es1 ! i) w3"
        "derouler pg (take (Suc i) ss) w1 = (Inr (take (Suc i) es1), w3)" using k(3) j by fastforce
      then show ?thesis using step[of i w2] step[of "Suc i" w3] Suc by (auto simp only: es nth_Cons_Suc)
    qed
    show ?thesis
    proof (intro exI[of _ "Suc k"] conjI)
      show "\<forall>j < length (s # ss). j \<le> Suc k \<longrightarrow> (\<exists>w2 w3. derouler pg (take j (s # ss)) w = (Inr (take j es), w2) \<and>
        rests_on pg ((s # ss) ! j) w2 (es ! j) w3 \<and> derouler pg (take (Suc j) (s # ss)) w = (Inr (take (Suc j) es), w3))"
        using before by blast
      show "derouler pg (take (Suc (Suc k)) (s # ss)) w = (Inr (take (Suc (Suc k)) es), w')" by (rule step[OF k(7)])
    qed (use k rf False in \<open>simp_all add: es bilan_de_def\<close>)
  qed
qed (simp add: bilan_de_def)

text \<open>The queue is documented never to raise; a duration that is not a number, or an observer that raises, ends it.\<close>

lemma odd_duration_escapes:
  assumes "pg_lancer pg s w = (Inr (Some rapport), w')" "dict_get rapport ''total_duration_ms'' = Some (PStr t)" "t \<noteq> []"
    "pg_float pg t = None"
  shows "derouler pg (s # ss) w = (Inl MauvaiseDuree, w')"
proof -
  obtain n where n: "passes_max pg = Suc n" using passes_max_pos[of pg] gr0_conv_Suc by blast
  then have "faire_passes pg (passes_max pg) (etape_de s) PNone SansReserve w = (Inl MauvaiseDuree, w')"
    using assms by (simp add: appeler_def juger_passe_def duree_at_def etape_de_def)
  then show ?thesis by (simp add: faire_section_def)
qed

subsection \<open>An example\<close>

definition sample_report :: "bool \<Rightarrow> metadata" where
  "sample_report red = [(''qualite'', PStr ''mesuree''), (''total_duration_ms'', PInt 2000), (''verification'',
     PDict [(''created'', PList [PStr ''a.py'']), (''tests'', PDict [(''ran'', PBool True), (''passed'', PBool (\<not> red))])])]"

text \<open>The world lists the sections that were called; the second section keeps its tests red.\<close>

definition sample_programme :: "(unit, nat list) programme_env" where
  "sample_programme = \<lparr>pg_lancer = (\<lambda>s w. (Inr (Some (sample_report (sc_numero s = 2))), w @ [sc_numero s])),
     pg_reparer = Some (\<lambda>s bs w. (Inr (Some (sample_report (sc_numero s = 2))), w @ [sc_numero s])),
     pg_on_etape = None, pg_max_passes = 2, pg_str = (\<lambda>_. []), pg_float = (\<lambda>_. None)\<rparr>"

definition sample_sections :: "section_cahier list" where
  "sample_sections = map (\<lambda>n. \<lparr>sc_numero = n, sc_titre = ''t'', sc_corps = ''c''\<rparr>) [1, 2, 3]"

lemmas sample_programme_simps = sample_programme_def sample_report_def faire_section_def faire_passes.simps appeler_def
  juger_passe_def duree_at_def texte_at_def etape_de_def passes_max_def signaler_def bloquant_def mesure_bloquante_def
  sub_dict_def rougit_def truthy_at_def ecrit_def contredit_def true_list_def diagnostic_def dict_get_default_def
  str_lower_def tests_bloc_def str_strip_def

lemma sample_first: "faire_section sample_programme \<lparr>sc_numero = 1, sc_titre = ''t'', sc_corps = ''c''\<rparr> w =
    (Inr ((etape_de \<lparr>sc_numero = 1, sc_titre = ''t'', sc_corps = ''c''\<rparr>)\<lparr>et_statut := EtapeFaite, et_qualite := ''mesuree'',
       et_duree := 2, et_passes := 1\<rparr>), w @ [1])"
  by (simp add: sample_programme_simps numeral_2_eq_2)

lemma sample_second: "faire_section sample_programme \<lparr>sc_numero = 2, sc_titre = ''t'', sc_corps = ''c''\<rparr> w =
    (Inr ((etape_de \<lparr>sc_numero = 2, sc_titre = ''t'', sc_corps = ''c''\<rparr>)\<lparr>et_statut := EtapeBloquee, et_qualite := ''mesuree'',
       et_detail := Motive TestsEchouent, et_duree := 4, et_passes := 2\<rparr>), w @ [2, 2])"
  by (simp add: sample_programme_simps numeral_2_eq_2)

definition sample_etapes :: "unit etape list" where
  "sample_etapes = [(etape_de (sample_sections ! 0))\<lparr>et_statut := EtapeFaite, et_qualite := ''mesuree'', et_duree := 2, et_passes := 1\<rparr>,
     (etape_de (sample_sections ! 1))\<lparr>et_statut := EtapeBloquee, et_qualite := ''mesuree'', et_detail := Motive TestsEchouent,
       et_duree := 4, et_passes := 2\<rparr>, ignoree (sample_sections ! 2)]"

lemma sample_run: "derouler sample_programme sample_sections [] = (Inr sample_etapes, [1, 2, 2])"
  by (simp add: sample_sections_def sample_first sample_second sample_etapes_def etape_de_def del: One_nat_def)

theorem programme_stops_at_block_witness:
  "\<exists>k. k < 3 \<and> et_statut (sample_etapes ! k) = EtapeBloquee \<and> list_all acquise (take k sample_etapes) \<and>
     derouler sample_programme (take (Suc k) sample_sections) [] = (Inr (take (Suc k) sample_etapes), [1, 2, 2])"
proof -
  have n: "length sample_sections = 3" by (simp add: sample_sections_def)
  have a: "bp_arret (bilan_de sample_etapes) \<noteq> None"
    by (simp add: bilan_de_def sample_etapes_def)
  from programme_stops_at_block[OF sample_run] obtain k where k: "k \<le> 3" "list_all acquise (take k sample_etapes)"
      "k < 3 \<longrightarrow> et_statut (sample_etapes ! k) = EtapeBloquee"
      "derouler sample_programme (take (Suc k) sample_sections) [] = (Inr (take (Suc k) sample_etapes), [1, 2, 2])"
      "bp_arret (bilan_de sample_etapes) = (if k < 3 then Some (sample_sections ! k, et_detail (sample_etapes ! k)) else None)"
    unfolding n by blast
  with a show ?thesis by (intro exI[of _ k]) (auto split: if_splits)
qed

end
