(* ===== verification/Spec2Isabelle.thy ===== *)
theory Spec2Isabelle
  imports ExecutionEngine_Correct RuntimeRouter_Correct MissionWalk_Correct RunRegistry_Correct Relay_Correct
    NodeExecution_Correct Workflow_Correct Approvals_Correct Resources_Correct Brokerage_Correct Checkpoints_Correct MissionStore_Correct Programme_Correct
begin

text \<open>
  A model of the core of Hermes OS (the Python backend under \<^verbatim>\<open>src/backend\<close>) and the theorems that
  make it correct.

  \<^bold>\<open>The program.\<close> The backend runs \<^emph>\<open>missions\<close>: a request is planned into a DAG of tasks, the tasks are
  handed to agents, an agent's work is sent to one of several language-model \<^emph>\<open>runtimes\<close>, what was delivered
  is measured before a success is announced, and what is dangerous waits for a human. Its parts are:

  \<^item> the agent stack (\<^verbatim>\<open>backend/agent\<close>): a planner turns tasks into an execution graph with levels, a
    supervisor keeps missions and launches one agent per task, a lifecycle manager moves the agents
    through their states, and an execution engine drives the supervisor tick by tick and dispatches ready
    tasks to a runtime;
  \<^item> the mission stack (\<^verbatim>\<open>backend/mission\<close>): the production engine, which walks the DAG of a mission in waves
    of ready nodes, verifies the workspace against what was announced and may suggest a retry. A node is run by
    the callable of \<^verbatim>\<open>mission/node_execution.py\<close>, which drives the execution stack (\<^verbatim>\<open>backend/execution\<close>:
    a state machine, a scheduler and an executor per node). Missions live in a bounded cache in front of a
    durable table; a long specification is a queue of missions;
  \<^item> the trace (\<^verbatim>\<open>backend/runs\<close>): the registry of runs with its reconciliation after a restart, the taxonomy
    of errors, the contract of a mission and the relay that carries it from phase to phase;
  \<^item> the runtime abstraction layer (\<^verbatim>\<open>backend/ral\<close>): registry, selector, router with retries on other
    runtimes, circuit breakers and recovery, health monitor, policy engine, performance analyzer, the
    decision engine that ranks runtimes from all of those, and the providers, the broker and the arbiter in
    front of the remote ones; the resource manager (\<^verbatim>\<open>backend/runtime/resources\<close>) admits models on the card;
  \<^item> the gate (\<^verbatim>\<open>backend/security\<close>, \<^verbatim>\<open>backend/projects\<close>, \<^verbatim>\<open>agents/aegis.py\<close>): a permission matrix, folders
    granted by projects, and a queue of human consents;
  \<^item> what the user can replay or take back: the workflow engine (\<^verbatim>\<open>backend/workflows\<close>), tasks and state snapshots
    (\<^verbatim>\<open>backend/tasks\<close>, \<^verbatim>\<open>core/snapshot_manager.py\<close>) and checkpoints of a folder (\<^verbatim>\<open>backend/checkpoints\<close>),
    whose restoration goes through the gate.

  \<^bold>\<open>Theories and code.\<close>

  \<^item> \<open>Prelude\<close>: Python dictionaries as association lists in insertion order, payload values, time, and the
    generic lemmas; \<open>Kahn\<close>: the work-list loop that five functions of the source write out, with the locales
    of its graph and the theorem that its order is topological; \<open>StateMachine\<close>: the locales of a transition
    table and of a table of machines.
  \<^item> \<open>ExecutionGraph\<close>, \<open>ExecutionGraph_Correct\<close>: \<^verbatim>\<open>agent/execution_graph.py\<close>. The graph is a record of a
    dictionary of nodes and a list of edges; \<open>add_node\<close>, \<open>add_edge\<close>, \<open>remove_node\<close>, \<open>remove_edge\<close>,
    \<open>detect_cycles\<close>, \<open>topological_sort\<close>, \<open>generate_plan\<close>, \<open>graph_to_dict\<close>, \<open>graph_from_dict\<close> are the methods of
    the same names. Shown: every sequence of operations keeps a DAG, the sort is a topological order, the
    levels are the longest-path layers, serialisation round-trips.
  \<^item> \<open>Lifecycle\<close>, \<open>Lifecycle_Correct\<close>: \<^verbatim>\<open>agent/lifecycle.py\<close>. Shown: the invariant of the stored agents and
    that an agent only moves along the table, whatever the calls.
  \<^item> \<open>TaskPlanner\<close>, \<open>TaskPlanner_Correct\<close>: \<^verbatim>\<open>agent/task_planner.py\<close>. Shown: which task lists are planned, with
    which error the others are refused, and that no dependency is lost on the way to the graph.
  \<^item> \<open>Supervisor\<close>, \<open>Supervisor_Correct\<close>: \<^verbatim>\<open>agent/supervisor.py\<close>, on top of the planner and the lifecycle
    manager. Shown: its invariant, the mission table, safety of a tick, the effect of pause and resume.
  \<^item> \<open>ExecutionEngine\<close>, \<open>ExecutionEngine_Correct\<close>: \<^verbatim>\<open>agent/execution_engine.py\<close>, on top of the supervisor.
    Shown: no task is dispatched before its predecessors are completed, the scheduler returns exactly the
    ready tasks, how a run ends, which runs can never end, and what start and recover return.
  \<^item> \<open>RuntimeRegistry\<close>, \<open>RuntimeRecovery\<close>, \<open>RuntimeRecovery_Correct\<close>, \<open>RuntimeHealth\<close>, \<open>RuntimePolicy\<close>,
    \<open>RuntimePerformance\<close>, \<open>RuntimeDecision\<close>, \<open>RuntimeRouter\<close>, \<open>RuntimeRouter_Correct\<close>: the files of \<^verbatim>\<open>ral/\<close> with
    the corresponding names (the event bus and the observer of \<^verbatim>\<open>runtime_events.py\<close> are in
    \<open>RuntimeRecovery\<close> and \<open>RuntimePerformance\<close>; the active context of \<^verbatim>\<open>runtime_context.py\<close> is in
    \<open>RuntimeRouter\<close>). Shown: the retry loop returns the first success in the order of resolution and never
    tries a runtime twice, a breaker opens exactly at its threshold, the policy that wins is the first of the
    highest priority, the metrics are the aggregation of the published history, the decision is the best rank.
  \<^item> \<open>Brokerage\<close>, \<open>Brokerage_Correct\<close>: \<^verbatim>\<open>ral/fournisseurs.py\<close>, \<^verbatim>\<open>ral/courtier.py\<close>, \<^verbatim>\<open>ral/arbitrage.py\<close>.
    Shown: the verdict on a provider is the function of its reported history that the table of set-asides,
    the breaker and the measured quota define, and the arbiter gives each choice to the first opinion that has one.
  \<^item> \<open>Resources\<close>, \<open>Resources_Correct\<close>: \<^verbatim>\<open>runtime/resources/\<close>. Shown: whatever is reserved and released, the
    promises and what the card already holds stay under the share, and the number of places is exactly the
    number of reservations that a sequence of them would be granted.
  \<^item> \<open>MissionGraph\<close>, \<open>MissionGraph_Correct\<close>: \<^verbatim>\<open>mission_models.py\<close>, \<^verbatim>\<open>mission_graph.py\<close>,
    \<^verbatim>\<open>dependency_resolver.py\<close>. Shown: validation decides exactly the DAGs over known nodes, the order is the
    one of the agent graph, the parallel groups are the longest-path layers.
  \<^item> \<open>MissionVerification\<close>, \<open>MissionVerification_Correct\<close>: \<^verbatim>\<open>verification.py\<close>, \<^verbatim>\<open>manifeste.py\<close>,
    \<^verbatim>\<open>retry_policy.py\<close>. Shown: the difference of two snapshots is exact, a success needs evidence read on disk,
    and what the retry policy decides from a report.
  \<^item> \<open>MissionExecutor\<close>, \<open>MissionExecutor_Correct\<close>, \<open>MissionWalk_Correct\<close>: \<^verbatim>\<open>graph_executor.py\<close> and the walk of
    \<^verbatim>\<open>mission/routes.py\<close>. Shown: the gate never lets in more than its limit, a step refines the abstract wave
    (\<open>wave\<close>), the walk ends and its outcome is determined by the graph and the failing nodes, nothing is lost
    between a change of a node and its record, and a mission with retries returns.
  \<^item> \<open>MissionStore\<close>, \<open>MissionStore_Correct\<close>: \<^verbatim>\<open>mission/persistance.py\<close>, the class \<^verbatim>\<open>_RegistreMissions\<close> of
    \<^verbatim>\<open>mission/routes.py\<close>, \<^verbatim>\<open>graph_serializer.py\<close>. Mission objects are shared by reference between the cache and
    the executors. Shown: a new process reads what the database last took, the running one differs only by changes
    that are not saved, an active mission is never evicted, and what an export keeps.
  \<^item> \<open>Programme\<close>, \<open>Programme_Correct\<close>: \<^verbatim>\<open>mission/programme.py\<close>. Shown: the queue of sections stops at the first
    one that stays blocked, and a section is done exactly when the report of its last pass stands.
  \<^item> \<open>Taxonomy\<close>, \<open>Taxonomy_Correct\<close>, \<open>RunRegistry\<close>, \<open>RunRegistry_Correct\<close>: \<^verbatim>\<open>runs/taxonomie.py\<close>,
    \<^verbatim>\<open>registre.py\<close>, \<^verbatim>\<open>reconciliation.py\<close>, \<^verbatim>\<open>consommation.py\<close>. Shown: which cause a text is given, an ended
    run never changes, and the reconciliation loses exactly the runs whose process is gone.
  \<^item> \<open>Contract\<close>, \<open>Relay\<close>, \<open>Relay_Correct\<close>: \<^verbatim>\<open>runs/contrat.py\<close>, \<^verbatim>\<open>mission/relais.py\<close>, \<^verbatim>\<open>mission/boucle.py\<close>,
    \<^verbatim>\<open>memory/confiance.py\<close>. Shown: when a contract is held, that its criteria keep their kinds, that a relay
    survives its payload, and that the loop stops, with exactly the reason its last round calls for.
  \<^item> \<open>TaskScheduling\<close>, \<open>TaskRunning\<close>, \<open>TaskRunning_Correct\<close>, \<open>NodeExecution\<close>, \<open>NodeExecution_Correct\<close>: the files of
    \<^verbatim>\<open>backend/execution\<close> that a mission passes through, and \<^verbatim>\<open>mission/node_execution.py\<close>. Shown: the history
    of an execution is a path of its table, exactly when the end of a task is lost, and that running a node is
    the decision of its attempts.
  \<^item> \<open>Workflow\<close>, \<open>Workflow_Correct\<close>: \<^verbatim>\<open>backend/workflows\<close>. Shown: validation accepts exactly the acyclic
    definitions, the results of a run are those of its equations, gates hold and a resumed run repeats nothing,
    and approvals can be given in any order.
  \<^item> \<open>SecurityPolicy\<close>, \<open>Approvals\<close>, \<open>Approvals_Correct\<close>: \<^verbatim>\<open>backend/projects\<close>,
    \<^verbatim>\<open>security/permission_matrix.py\<close>, \<^verbatim>\<open>autonomy.py\<close>, \<^verbatim>\<open>aegis_engine.py\<close>, \<^verbatim>\<open>empreinte.py\<close>,
    \<^verbatim>\<open>approvals.py\<close>, \<^verbatim>\<open>agents/aegis.py\<close>. Shown: boundaries hold against any consent, an action that needs a
    human is allowed only by a live consent for it, a consent is spent a bounded number of times, and two
    actions, whose types do not hold the separator, have one identity exactly when they agree on what identifies them.
  \<^item> \<open>Snapshots\<close>, \<open>Checkpoints\<close>, \<open>Checkpoints_Correct\<close>: \<^verbatim>\<open>tasks/task_manager.py\<close>,
    \<^verbatim>\<open>core/snapshot_manager.py\<close>, \<^verbatim>\<open>checkpoints/\<close>. Shown: a restoration takes the folder back to what it was,
    a snapshot restores its rows and leaves the others, and nothing is restored without a consent.

  \<^bold>\<open>Conventions of the model.\<close>

  \<^item> Records are the classes, with a prefix per class on the fields; an object that the source mutates is
    returned updated. A dictionary is an association list in insertion order; a \<^verbatim>\<open>set\<close> or \<^verbatim>\<open>frozenset\<close> is the
    list of its elements, and where its iteration order matters the order is a parameter. An SQL statement is
    the function on the table that it denotes.
  \<^item> A raise is \<open>Inl\<close> of a datatype of errors; an operation that raises after changing its state returns the
    state beside the error. Texts of messages are datatype values that carry what the text interpolates;
    other texts are Latin-1.
  \<^item> A \<^verbatim>\<open>float\<close> is a rational: rounding is not modelled, and \<^verbatim>\<open>nan\<close> and \<^verbatim>\<open>inf\<close> do not occur. Integers are
    unbounded in the source, so they are \<open>int\<close> or, where they only count up, \<open>nat\<close>.
  \<^item> Clock readings (one per call), random suffixes, the answer of a runtime, the readings of the card, the file
    system (with POSIX paths), git and the analysers are arguments or fields of an environment record. Locks make
    an operation atomic, so interleavings of threads are sequences of operations; an operation that lets go of its
    lock while a runtime answers is two operations (\<open>begin_task\<close> and \<open>end_task\<close>). The execution engine is an
    exception: \<^verbatim>\<open>start\<close>, \<^verbatim>\<open>tick\<close>, \<^verbatim>\<open>pause\<close> and \<^verbatim>\<open>cancel\<close> hold its lock only around the tests and changes of its
    state, so the model, where a call is one step, covers the callers that make one call at a time. Handlers and subscribers are
    opaque tokens that do not call back into the object that calls them; the calls made to them are logged in order.

  \<^bold>\<open>Termination and bounds.\<close> No definition uses fuel. The loops of Kahn's algorithm, the retry loop of the
  router and the attempts of the recovery are total functions with a measure. The walk of a mission counts
  down \<open>max_execution_passes\<close> (100, the constant of the source), and the theorem on its outcome
  needs no more passes than the mission has nodes. The chain of retries of a mission and the attempts of a node
  are unbounded as written and are \<open>partial_function (option)\<close>; that they return is a theorem
  (\<open>mission_run_returns\<close>, \<open>node_run_exact\<close>). Other constants are those of the source: 16 places on the card, 50 uses of a
  scoped consent, 512 retained tasks, 200 missions in memory. Python's limit on the depth of recursion is not modelled
  (the search for cycles in a workflow recurses along its edges).

  \<^bold>\<open>Contracts.\<close> The locales are \<open>arc_source\<close> (a graph as Kahn's loop reads it; interpreted on the agent graph,
  the task list and the mission graph), \<open>transition_table\<close> with \<open>machine_manager\<close> (interpreted on agents, missions,
  the engine and the executions of nodes), \<open>keyed_update\<close> (an idempotent change of one entry of a table; interpreted on
  the cancellation, pause and resumption of agents) and \<open>stable_test\<close> (a test that does not change what the next
  one sees; interpreted on the fallback and the admission of runtimes). The abstract specifications are the wave of a
  mission step, the history of events behind the performance counters and behind the broker, the longest-path
  layers, the transition tables, the equations of a workflow, the decision of the attempts of a node, and the map
  that the registry of missions denotes.

  \<^bold>\<open>Not modelled.\<close> The manifest lists every other part of the repository with its reason: the HTTP
  routes and the front end, the adapters of external runtimes and tools (they only call code that is not in
  the repository), the static analysers of delivered code (they rest on Python's parser), the opening and migration of
  the databases, and parts of the backend that the missions do not pass through. Within the modelled files: the
  rendering of explanations, the factory that builds runtimes by name, re-entrant handlers, what is cut out of a
  text by regular expressions in \<^verbatim>\<open>mission/programme.py\<close>, and the probes of the card and the memory.
\<close>

end
